(* ===== verification/Prelude.thy ===== *)
theory Prelude
  imports "HOL-Library.Word"
begin

text \<open>
  Shared vocabulary of the development: the C integer types as words, the status codes of
  \<^verbatim>\<open>utils/ethfw_common/include/ethfw_types.h\<close> (the server checks at compile time that the codes
  of \<^verbatim>\<open>ethremotecfg/protocol/ethremotecfg.h\<close> are the same numbers), MAC addresses, the bit macros,
  the "first index with" search every table loop of the firmware performs, and the
  "go on only while the status is OK" combinator.  The collections \<open>fw_step\<close> (definitions a
  component proof unfolds) and \<open>fw_frame\<close> (what an operation leaves alone) are filled by the
  component theories.
\<close>

unbundle bit_operations_syntax

named_theorems fw_step \<open>one-step unfoldings of the firmware operations\<close>
named_theorems fw_frame \<open>frame facts: what an operation leaves unchanged\<close>

type_synonym u8 = "8 word"
type_synonym u16 = "16 word"
type_synonym u32 = "32 word"
type_synonym u64 = "64 word"

section \<open>Status codes\<close>

abbreviation "ETHFW_SOK \<equiv> (0::int)"
abbreviation "ETHFW_EFAIL \<equiv> (-1::int)"
abbreviation "ETHFW_EBADARGS \<equiv> (-2::int)"
abbreviation "ETHFW_EINVALIDPARAMS \<equiv> (-3::int)"
abbreviation "ETHFW_ETIMEOUT \<equiv> (-4::int)"
abbreviation "ETHFW_EALLOC \<equiv> (-8::int)"
abbreviation "ETHFW_EUNEXPECTED \<equiv> (-9::int)"
abbreviation "ETHFW_EBUSY \<equiv> (-10::int)"
abbreviation "ETHFW_EALREADYOPEN \<equiv> (-11::int)"
abbreviation "ETHFW_EPERM \<equiv> (-12::int)"
abbreviation "ETHFW_ENOTSUPPORTED \<equiv> (-13::int)"
abbreviation "ETHFW_ENOTFOUND \<equiv> (-14::int)"

section \<open>MAC addresses\<close>

text \<open>\<^verbatim>\<open>struct eth_addr\<close> and \<^verbatim>\<open>uint8_t macAddr[ENET_MAC_ADDR_LEN]\<close>: six octets.\<close>

datatype eth_addr = EthAddr u8 u8 u8 u8 u8 u8

fun octet0 :: "eth_addr \<Rightarrow> u8" where
  "octet0 (EthAddr a b c d e f) = a"

fun octets :: "eth_addr \<Rightarrow> u8 list" where
  "octets (EthAddr a b c d e f) = [a, b, c, d, e, f]"

definition zero_mac :: eth_addr where
  "zero_mac = EthAddr 0 0 0 0 0 0"

definition bcast_mac :: eth_addr where
  "bcast_mac = EthAddr 0xFF 0xFF 0xFF 0xFF 0xFF 0xFF"

lemma length_octets [simp]: "length (octets a) = 6"
  by (cases a) simp

lemma octets_inject [simp]: "octets a = octets b \<longleftrightarrow> a = b"
  by (cases a; cases b) simp

section \<open>Bit macros\<close>

text \<open>
  \<^verbatim>\<open>ETHFW_BIT(n)\<close> is \<^verbatim>\<open>1U << n\<close>.  C leaves a shift by 32 or more undefined; the model gives 0
  there, and every theorem that depends on a port's bit assumes \<open>n < 32\<close>.
\<close>

definition ETHFW_BIT :: "u32 \<Rightarrow> u32" where
  "ETHFW_BIT n = push_bit (unat n) 1"

definition ETHFW_IS_BIT_SET :: "u32 \<Rightarrow> u32 \<Rightarrow> bool" where
  "ETHFW_IS_BIT_SET v n \<longleftrightarrow> v AND ETHFW_BIT n \<noteq> 0"

lemma bit_ETHFW_BIT: "bit (ETHFW_BIT n) i \<longleftrightarrow> i < 32 \<and> i = unat n"
  by (auto simp: ETHFW_BIT_def bit_simps)

lemma IS_BIT_SET_bit: "ETHFW_IS_BIT_SET v n \<longleftrightarrow> bit v (unat n)"
proof -
  have "v AND ETHFW_BIT n \<noteq> 0 \<longleftrightarrow> (\<exists>i. bit (v AND ETHFW_BIT n) i)"
    by (metis bit_0_eq bot_apply bot_bool_def bit_eqI)
  also have "\<dots> \<longleftrightarrow> bit v (unat n)"
    by (auto simp: bit_and_iff bit_ETHFW_BIT dest: bit_imp_le_length)
  finally show ?thesis by (simp add: ETHFW_IS_BIT_SET_def)
qed

lemma word_eq_0_bits: "(w :: 'a::len word) = 0 \<longleftrightarrow> (\<forall>i. \<not> bit w i)"
  by (metis bit_0_eq bot_apply bot_bool_def bit_eqI)

lemma BIT_neq_0: "unat n < 32 \<Longrightarrow> ETHFW_BIT n \<noteq> 0"
  by (metis bit_ETHFW_BIT word_eq_0_bits)

lemma IS_BIT_SET_0 [simp]: "\<not> ETHFW_IS_BIT_SET 0 n"
  by (simp add: IS_BIT_SET_bit)

lemma IS_BIT_SET_or_BIT:
  "unat n < 32 \<Longrightarrow> ETHFW_IS_BIT_SET (v OR ETHFW_BIT n) m \<longleftrightarrow> m = n \<or> ETHFW_IS_BIT_SET v m"
  by (auto simp: IS_BIT_SET_bit bit_or_iff bit_ETHFW_BIT unsigned_word_eqI)

lemma IS_BIT_SET_clear:
  "ETHFW_IS_BIT_SET (v AND NOT (ETHFW_BIT n)) m \<longleftrightarrow> m \<noteq> n \<and> ETHFW_IS_BIT_SET v m"
  by (auto simp: IS_BIT_SET_bit bit_and_iff bit_not_iff bit_ETHFW_BIT unsigned_word_eqI
           dest: bit_imp_le_length)

lemma unat_of_nat32 [simp]: "n < 2 ^ 32 \<Longrightarrow> unat (of_nat n :: u32) = n"
  by (simp add: unsigned_of_nat take_bit_nat_eq_self)

section \<open>The search loop\<close>

text \<open>
  \<^verbatim>\<open>for (i = 0; i < N; i++) if (P(t[i])) break;\<close>: the index the loop stops at, \<open>None\<close> when it
  runs to the end.
\<close>

fun first_idx :: "('a \<Rightarrow> bool) \<Rightarrow> 'a list \<Rightarrow> nat option" where
  "first_idx P [] = None"
| "first_idx P (x # xs) = (if P x then Some 0 else map_option Suc (first_idx P xs))"

lemma first_idx_None: "first_idx P xs = None \<longleftrightarrow> (\<forall>x\<in>set xs. \<not> P x)"
  by (induction xs) auto

lemma first_idx_Some:
  "first_idx P xs = Some i \<longleftrightarrow> i < length xs \<and> P (xs ! i) \<and> (\<forall>j<i. \<not> P (xs ! j))"
proof (induction xs arbitrary: i)
  case Nil
  then show ?case by simp
next
  case (Cons x xs)
  show ?case
    by (cases i) (auto simp: Cons.IH less_Suc_eq_0_disj)
qed

lemma first_idx_SomeD:
  "first_idx P xs = Some i \<Longrightarrow> i < length xs" "first_idx P xs = Some i \<Longrightarrow> P (xs ! i)"
  by (simp_all add: first_idx_Some)

lemma first_idx_cong:
  "(\<And>x. x \<in> set xs \<Longrightarrow> P x = Q x) \<Longrightarrow> first_idx P xs = first_idx Q xs"
  by (induction xs) auto

lemma first_idx_map: "first_idx P (map f xs) = first_idx (\<lambda>x. P (f x)) xs"
  by (induction xs) auto

lemma first_idx_unique:
  assumes "i < length xs" and "P (xs ! i)"
    and uniq: "\<And>j. j < length xs \<Longrightarrow> P (xs ! j) \<Longrightarrow> j = i"
  shows "first_idx P xs = Some i"
proof -
  have "\<not> P (xs ! j)" if "j < i" for j
    using that assms(1) uniq [of j] by auto
  with assms(1,2) show ?thesis by (simp add: first_idx_Some)
qed

section \<open>Status threading\<close>

text \<open>
  The firmware's \<^verbatim>\<open>if (status == ETHFW_SOK) { ... }\<close>: \<open>thenOK r f\<close> runs \<open>f\<close> on the state only
  when the status so far is OK, and keeps a bad status otherwise.
\<close>

definition thenOK :: "int \<times> 's \<Rightarrow> ('s \<Rightarrow> int \<times> 's) \<Rightarrow> int \<times> 's" where
  "thenOK r f = (if fst r = ETHFW_SOK then f (snd r) else r)"

lemma thenOK_simps [simp]:
  "thenOK (0, s) f = f s"
  "r \<noteq> 0 \<Longrightarrow> thenOK (r, s) f = (r, s)"
  by (simp_all add: thenOK_def)

lemma thenOK_inv:
  "P (snd r) \<Longrightarrow> (\<And>s. P s \<Longrightarrow> P (snd (f s))) \<Longrightarrow> P (snd (thenOK r f))"
  by (simp add: thenOK_def)

lemma fst_thenOK_0:
  "fst (thenOK r f) = 0 \<longleftrightarrow> fst r = 0 \<and> fst (f (snd r)) = 0"
  by (simp add: thenOK_def)

end
