(* ===== verification/World.thy ===== *)
theory World
  imports Prelude
begin

text \<open>
  The boundary of the firmware.  Everything the firmware reaches outside this repository (the
  Enet LLD driver and its \<^verbatim>\<open>ENET_IOCTL\<close> commands, the Enet resource manager behind
  \<^verbatim>\<open>EnetAppUtils_*\<close>, the multi-client manager, lwIP, the IPC transport, the application callbacks)
  is a \<^emph>\<open>call\<close>.  A run records its calls in order in the field \<open>calls\<close> of the state, and the
  environment \<open>env\<close> answers each call as an arbitrary function of the calls made before it: theorems
  hold for every driver, and a theorem about the order of the driver calls is a theorem about
  \<open>calls\<close>.  The fields of \<open>env\<close> after the answers are the library helpers and the constants of the
  Enet LLD that the firmware uses by name; \<open>lib_spec\<close> states their documented behaviour.

  A mutex of the firmware protects a whole operation, so an operation is one atomic step here and
  the interleavings of several cores' requests are the sequences of steps.  Undefined behaviour of
  the C code (an array write out of bounds, a copy from a null pointer, a read through a pointer
  never set) is recorded in the field \<open>faults\<close>, in order, and leaves the modelled state as it is.
\<close>

section \<open>Calls\<close>

text \<open>ALE classifier match criteria (\<^verbatim>\<open>CpswAle_PolicerMatchParams\<close>), as the firmware fills them.\<close>

datatype pol_match =
    MatchMacDst eth_addr u32          \<comment> \<open>destination MAC address and VLAN id on the host port\<close>
  | MatchMacDstPort eth_addr u32 u32  \<comment> \<open>the same, and the ingress ALE port\<close>
  | MatchIvlan u32
  | MatchPort u32
  | MatchEtherType u16
  | MatchMacDstEtherType eth_addr u32 u16  \<comment> \<open>destination MAC address, VLAN id and EtherType on the host port\<close>
  | MatchCustom nat                   \<comment> \<open>a policer the application configured, by its index\<close>

datatype del_mask = DelNone | DelAll | DelIvlan | DelEtherType

datatype part_level = PartDefault | PartLevel1 | PartLevel3 | PartCustom

text \<open>The \<^verbatim>\<open>ENET_IOCTL\<close> commands.\<close>

datatype ioctl =
    ALE_ADD_MCAST eth_addr u32 u32           \<comment> \<open>address, VLAN id, port mask\<close>
  | ALE_LOOKUP_MCAST eth_addr u32
  | ALE_REMOVE_ADDR eth_addr u32
  | ALE_ADD_UCAST eth_addr u32               \<comment> \<open>secure entry on the host port\<close>
  | ALE_SET_POLICER pol_match u32            \<comment> \<open>match, thread id\<close>
  | ALE_SET_POLICER_IN_PARTITION pol_match u32 part_level
  | ALE_GET_POLICER pol_match
  | ALE_DEL_POLICER pol_match del_mask
  | ALE_ADD_VLAN u32 u32 u32 u32 u32 u32 bool
      \<comment> \<open>VLAN id, member, registered and unregistered multicast flood, untag and no-learn masks,
          VID ingress check\<close>
  | ALE_REMOVE_VLAN u32
  | ALE_DUMP_TABLE
  | ALE_DUMP_POLICER_ENTRIES
  | HOSTPORT_IS_CSUM_OFFLOAD_ENABLED
  | PHY_IS_LINKED u32
  | PHY_GET_LINK_MODE u32
  | CPTS_REGISTER_HWPUSH_CALLBACK u32
  | CPTS_UNREGISTER_HWPUSH_CALLBACK u32
  | CPTS_LOOKUP_EVENT u32
  | STATS_GET_HOSTPORT
  | STATS_GET_MACPORT u32
  | TIMESYNC_GET_TIMESTAMP
  | TIMESYNC_SET_TIMESTAMP u64
  | HOSTPORT_SET_INGRESS_DSCP_PRI_MAP "u32 list"
  | ALE_SET_PORT_MIRROR_CFG bool bool bool u32 u32 u32 "u32 list"
      \<comment> \<open>source, destination and match enabled; destination port, target port, source port mask,
          match parameters\<close>
  | ALE_DISABLE_PORT_MIRROR
  | MACPORT_ENABLE_PREEMPT_VERIFICATION u32
  | MACPORT_DISABLE_PREEMPT_VERIFICATION u32
  | MACPORT_GET_PREEMPT_VERIFY_STATUS u32
  | MACPORT_ENABLE_PREEMPTION u32
  | MACPORT_DISABLE_PREEMPTION u32
  | MACPORT_SET_PREEMPT_MIN_FRAG_SIZE u32 u32
  | MACPORT_SET_PREEMPT_QUEUE u32 "bool list"      \<comment> \<open>a queue that may be preempted is \<open>True\<close>\<close>

text \<open>
  The DMA channels of the host port: by the resource manager (\<^verbatim>\<open>EnetAppUtils_*\<close>; core key, core id, \<dots>) and by the
  DMA driver.  A handle is the number of the call that opened the channel, \<open>None\<close> for NULL.
\<close>

datatype dma_call =
    Utils_openTxCh u32 u32 u32                   \<comment> \<open>packets\<close>
  | Utils_closeTxCh u32 u32 "nat option" u32     \<comment> \<open>handle, channel\<close>
  | Utils_openRxFlow bool u32 u32 u32 u32        \<comment> \<open>default flow; packets, MTU\<close>
  | Utils_closeRxFlow bool u32 u32 u32 u32 eth_addr "nat option"
  | Dma_getHandle
  | Dma_openTxCh u32 u32                         \<comment> \<open>channel, packets\<close>
  | Dma_closeTxCh "nat option"
  | Dma_openRxFlow u32 u32 u32                   \<comment> \<open>start index, flow index, packets\<close>
  | Dma_closeRxFlow "nat option"
  | Dma_disableTxEvent "nat option"
  | Dma_disableRxEvent "nat option"
  | FreePktsCb nat                               \<comment> \<open>lwIP's call-back for the packets of a closed channel\<close>

datatype call =
    Osal_createMutex
  | Osal_deleteMutex
  | Ioctl u32 ioctl                          \<comment> \<open>caller's core id, command\<close>
  | FilterAddMacSharedCb eth_addr u32
  | FilterDelMacSharedCb eth_addr u32
  | Mcm_coreAttach u32
  | Mcm_coreDetach u32 u32                   \<comment> \<open>core id, core key\<close>
  | Rm_allocRxFlow u32 u32                   \<comment> \<open>core key, core id; likewise below\<close>
  | Rm_freeRxFlow u32 u32 u32
  | Rm_getStartFlowIdx u32
  | Rm_allocTxCh u32 u32
  | Rm_allocAbsTxCh u32 u32 u32
  | Rm_freeTxCh u32 u32 u32
  | Rm_allocMac u32 u32
  | Rm_freeMac u32 u32 eth_addr
  | Rm_regDstMacRxFlow u32 u32 u32 u32 eth_addr
  | Rm_unregDstMacRxFlow u32 u32 u32 u32 eth_addr
  | Rm_regDfltRxFlow u32 u32 u32 u32
  | Rm_unregDfltRxFlow u32 u32 u32 u32
  | Rm_allocHwPushInst u32 u32
  | Rm_freeHwPushInst u32 u32 u32
  | Tsr_set u32 u32                          \<comment> \<open>time-sync router: input, output\<close>
  | Soc_getRxChPeerId
  | Netif_linkoutput "u8 list"
  | Pbuf_alloc nat
  | Ipc_sendRpmsg u32 u32 u32 "u32 list"     \<comment> \<open>destination core and end point, own end point, header fields\<close>
  | Osal_createSemaphore u32
  | Osal_createTask string
  | Osal_createClock u32                     \<comment> \<open>period in milliseconds\<close>
  | Osal_deleteTask
  | Osal_deleteSemaphore
  | Osal_startClock
  | Osal_stopClock
  | Osal_deleteClock
  | Osal_pendSemaphore
  | Osal_postSemaphore
  | Osal_sleepTask u32                       \<comment> \<open>milliseconds\<close>
  | Osal_getTimeInUsecs
  | Mcm_getCmdIf
  | Mcm_stopPeriodicTick
  | Mcm_startPeriodicTick
  | Mcm_closeMacPorts
  | Mcm_openMacPorts
  | Mcm_saveCtxt
  | Mcm_restoreCtxt
  | Utils_isPortLinkUp u32
  | Utils_turnCpswOff
  | Utils_turnCpswOn
  | Utils_delayInUsec u32
  | CloseLwipDmaCb
  | OpenLwipDmaCb
  | StatsMonHostEvtCb u32 "u64 list" "u64 list"     \<comment> \<open>events, increases, counters; likewise below\<close>
  | StatsMonMacEvtCb u32 u32 "u64 list" "u64 list"
  | Mcm_init
  | Mcm_deInit
  | Mcm_acquireHandleInfo
  | Mcm_releaseHandleInfo
  | Mcm_releaseCmdIf
  | Ipc_createRpmsg u32                            \<comment> \<open>end point\<close>
  | Ipc_announceAll u32
  | Ipc_announce u32 u32                           \<comment> \<open>core, end point\<close>
  | Ipc_getRemoteEndPt u32                         \<comment> \<open>core\<close>
  | Ipc_sendDeviceData u32 u32 u32 u64             \<comment> \<open>core, its end point, own end point, permission flags\<close>
  | Osal_createEvent
  | Osal_postEvent u32
  | SetPortCfgCb u32
  | Dma dma_call

section \<open>Undefined behaviour\<close>

datatype fault =
    OobWrite                                 \<comment> \<open>array element written past the array\<close>
  | OobRead
  | NullCopy                                 \<comment> \<open>\<^verbatim>\<open>memcpy\<close> from address 0\<close>
  | UninitPtr                                \<comment> \<open>dereference of a pointer that was not set\<close>
  | UninitRead                               \<comment> \<open>use of a variable that was not set\<close>

section \<open>Environment and state\<close>

text \<open>The values of \<^verbatim>\<open>EnetMacPort_PreemptVerifyStatus\<close> the firmware distinguishes.\<close>

datatype verify_status = VerifyFailed | VerifySucceeded | VerifyDisabled | VerifyRxRespondError | VerifyRxVerifyError | VerifyOther

record env =
  status_of :: "call list \<Rightarrow> call \<Rightarrow> int"
  word_of :: "call list \<Rightarrow> call \<Rightarrow> nat \<Rightarrow> u32"  \<comment> \<open>output words, by position\<close>
  wide_of :: "call list \<Rightarrow> call \<Rightarrow> nat \<Rightarrow> u64"  \<comment> \<open>64-bit outputs\<close>
  mac_of :: "call list \<Rightarrow> call \<Rightarrow> eth_addr"
  flag_of :: "call list \<Rightarrow> call \<Rightarrow> bool"        \<comment> \<open>boolean outputs; handle not NULL\<close>
  cmpMacAddr :: "eth_addr \<Rightarrow> eth_addr \<Rightarrow> bool"
  isMcastAddr :: "eth_addr \<Rightarrow> bool"
  ip4_addr_cmp :: "u32 \<Rightarrow> u32 \<Rightarrow> bool"
  ip4_addr_ismulticast :: "u32 \<Rightarrow> bool"
  selfCoreId :: u32                            \<comment> \<open>\<^verbatim>\<open>EnetSoc_getCoreId()\<close>\<close>
  hostPortMask :: u32                          \<comment> \<open>\<^verbatim>\<open>CPSW_ALE_HOST_PORT_MASK\<close>\<close>
  macPortDenorm :: "u32 \<Rightarrow> u32"                \<comment> \<open>\<^verbatim>\<open>ENET_MACPORT_DENORM\<close>\<close>
  macPortInv :: u32                            \<comment> \<open>\<^verbatim>\<open>ENET_MAC_PORT_INV\<close>\<close>
  macPortToPortMask :: "u32 \<Rightarrow> u32"            \<comment> \<open>\<^verbatim>\<open>CPSW_ALE_MACPORT_TO_PORTMASK\<close>\<close>
  macPortToAlePort :: "u32 \<Rightarrow> u32"             \<comment> \<open>\<^verbatim>\<open>CPSW_ALE_MACPORT_TO_ALEPORT\<close>\<close>
  vepaSupport :: bool                          \<comment> \<open>build flag \<^verbatim>\<open>ETHFW_VEPA_SUPPORT\<close>\<close>
  proxyArp :: bool                             \<comment> \<open>build flag \<^verbatim>\<open>ETHFW_PROXY_ARP_HANDLING\<close>\<close>
  mcuPlusSdk :: bool                           \<comment> \<open>build flag \<^verbatim>\<open>MCU_PLUS_SDK\<close>\<close>
  macOnlyPorts :: bool                         \<comment> \<open>build flag \<^verbatim>\<open>ENABLE_MAC_ONLY_PORTS\<close>\<close>
  ipcMaxProcs :: nat                           \<comment> \<open>\<^verbatim>\<open>IPC_MAX_PROCS\<close>\<close>
  txMtuNum :: nat                              \<comment> \<open>length of \<^verbatim>\<open>EnetPer_AttachCoreOutArgs::txMtu\<close>\<close>
  txChNumInvalid :: u32                        \<comment> \<open>\<^verbatim>\<open>ENET_RM_TXCHNUM_INVALID\<close>\<close>
  macPortMaskOf :: "u32 \<Rightarrow> u32"               \<comment> \<open>\<^verbatim>\<open>ENET_MACPORT_MASK\<close>\<close>
  hwPushMax :: nat                             \<comment> \<open>\<^verbatim>\<open>CPSW_CPTS_HWPUSH_COUNT_MAX\<close>\<close>
  hwPushNorm :: "u32 \<Rightarrow> u32"                  \<comment> \<open>\<^verbatim>\<open>CPSW_CPTS_HWPUSH_NORM\<close>\<close>
  linkSlow :: "u32 \<times> u32"                    \<comment> \<open>\<^verbatim>\<open>ENET_SPEED_10MBIT\<close>, \<^verbatim>\<open>ENET_DUPLEX_HALF\<close>\<close>
  linkFast :: "u32 \<times> u32"                    \<comment> \<open>\<^verbatim>\<open>ENET_SPEED_1GBIT\<close>, \<^verbatim>\<open>ENET_DUPLEX_FULL\<close>\<close>
  macPortNorm :: "u32 \<Rightarrow> u32"                \<comment> \<open>\<^verbatim>\<open>ENET_MACPORT_NORM\<close>\<close>
  priNum :: nat                                \<comment> \<open>\<^verbatim>\<open>ENET_PRI_NUM\<close>\<close>
  socCpsw9g :: bool                            \<comment> \<open>build flag \<^verbatim>\<open>SOC_J721E\<close> or \<^verbatim>\<open>SOC_J784S4\<close>\<close>
  utilsAssert :: bool                          \<comment> \<open>a failed \<^verbatim>\<open>EnetAppUtils_assert\<close> stops the task\<close>
  stackWord :: "call list \<Rightarrow> u32"              \<comment> \<open>what an unset local variable happens to hold\<close>
  verifyStatusOf :: "u32 \<Rightarrow> verify_status"
  socJ742s2 :: bool                            \<comment> \<open>build flag \<^verbatim>\<open>SOC_J742S2\<close>\<close>
  monitorSupport :: bool                       \<comment> \<open>build flag \<^verbatim>\<open>ETHFW_MONITOR_SUPPORT\<close>\<close>
  ietEnable :: bool                            \<comment> \<open>build flag \<^verbatim>\<open>ETHFW_IET_ENABLE\<close>\<close>
  macPortNum :: nat                            \<comment> \<open>\<^verbatim>\<open>ENET_MAC_PORT_NUM\<close>\<close>
  txChannelsNum :: nat                         \<comment> \<open>\<^verbatim>\<open>ENET_CFG_TX_CHANNELS_NUM\<close>\<close>
  txChAny :: u32                               \<comment> \<open>\<^verbatim>\<open>ENET_RM_TX_CH_ANY\<close>\<close>
  macListMax :: nat                            \<comment> \<open>length of \<^verbatim>\<open>macList.macAddress\<close>\<close>
  allPortsMask :: u32                          \<comment> \<open>\<^verbatim>\<open>CPSW_ALE_ALL_PORTS_MASK\<close>\<close>
  tagInner :: u32                              \<comment> \<open>\<^verbatim>\<open>ENET_VLAN_TAG_TYPE_INNER\<close>\<close>
  tosMapNum :: nat                             \<comment> \<open>length of \<^verbatim>\<open>EnetPort_DscpPriorityMap::tosMap\<close>\<close>
  isCpswType :: "u32 \<Rightarrow> bool"                 \<comment> \<open>\<^verbatim>\<open>ENET_CPSW_3G\<close>, \<^verbatim>\<open>ENET_CPSW_5G\<close> or \<^verbatim>\<open>ENET_CPSW_9G\<close>\<close>
  ipcCores :: "u32 list"
      \<comment> \<open>\<^verbatim>\<open>IPC_MPU1_0\<close>, \<^verbatim>\<open>IPC_MCU1_0\<close>, \<^verbatim>\<open>IPC_MCU2_0\<close>, \<^verbatim>\<open>IPC_MCU2_1\<close>, \<^verbatim>\<open>IPC_MCU3_0\<close>, \<^verbatim>\<open>IPC_MCU3_1\<close>\<close>
  buildDate :: string                          \<comment> \<open>\<^verbatim>\<open>__DATE__\<close>\<close>
  buildTime :: string                          \<comment> \<open>\<^verbatim>\<open>__TIME__\<close>\<close>
  buildCommit :: string                        \<comment> \<open>\<^verbatim>\<open>ETHREMOTECFG_ETHSWITCH_VERSION_LAST_COMMIT\<close>\<close>

record world =
  calls :: "call list"
  faults :: "fault list"

definition issue :: "call \<Rightarrow> 'a world_scheme \<Rightarrow> 'a world_scheme" where
  "issue c s = s\<lparr>calls := calls s @ [c]\<rparr>"

text \<open>A call whose answer is a status.\<close>

definition call_st :: "env \<Rightarrow> call \<Rightarrow> 'a world_scheme \<Rightarrow> int \<times> 'a world_scheme" where
  "call_st e c s = (status_of e (calls s) c, issue c s)"

definition fault :: "fault \<Rightarrow> 'a world_scheme \<Rightarrow> 'a world_scheme" where
  "fault f s = s\<lparr>faults := faults s @ [f]\<rparr>"

text \<open>An array access at index \<open>i\<close> of an array of \<open>n\<close> elements: undefined behaviour past its end.\<close>

definition chk_idx :: "fault \<Rightarrow> nat \<Rightarrow> nat \<Rightarrow> 'a world_scheme \<Rightarrow> 'a world_scheme" where
  "chk_idx f i n s = (if i < n then s else fault f s)"

definition at_idx :: "'b \<Rightarrow> 'b list \<Rightarrow> nat \<Rightarrow> 'b" where
  "at_idx d xs i = (if i < length xs then xs ! i else d)"

text \<open>The documented behaviour of the library helpers.\<close>

definition lib_spec :: "env \<Rightarrow> bool" where
  "lib_spec e \<longleftrightarrow>
     (\<forall>a b. cmpMacAddr e a b \<longleftrightarrow> a = b) \<and>
     (\<forall>a. isMcastAddr e a \<longleftrightarrow> odd (unat (octet0 a))) \<and>
     (\<forall>a b. ip4_addr_cmp e a b \<longleftrightarrow> a = b)"

lemma lib_specD [simp]:
  "lib_spec e \<Longrightarrow> cmpMacAddr e a b \<longleftrightarrow> a = b"
  "lib_spec e \<Longrightarrow> isMcastAddr e a \<longleftrightarrow> odd (unat (octet0 a))"
  "lib_spec e \<Longrightarrow> ip4_addr_cmp e i j \<longleftrightarrow> i = j"
  by (simp_all add: lib_spec_def)

lemma issue_simps [simp]:
  "calls (issue c s) = calls s @ [c]"
  "faults (issue c s) = faults s"
  "world.more (issue c s) = world.more s"
  by (simp_all add: issue_def)

lemma fault_simps [simp]:
  "calls (fault f s) = calls s"
  "faults (fault f s) = faults s @ [f]"
  "world.more (fault f s) = world.more s"
  by (simp_all add: fault_def)

lemma chk_idx_ok [simp]: "i < n \<Longrightarrow> chk_idx f i n s = s"
  by (simp add: chk_idx_def)

lemma chk_idx_simps [simp]:
  "calls (chk_idx f i n s) = calls s"
  "world.more (chk_idx f i n s) = world.more s"
  by (simp_all add: chk_idx_def)

lemma at_idx_ok [simp]: "i < length xs \<Longrightarrow> at_idx d xs i = xs ! i"
  by (simp add: at_idx_def)

lemma call_st_simps [simp]:
  "snd (call_st e c s) = issue c s"
  "fst (call_st e c s) = status_of e (calls s) c"
  by (simp_all add: call_st_def)

text \<open>
  A concrete environment for the witnesses: every call succeeds, with output words 1, 2, 3, \<dots>,
  and the helpers behave as documented.
\<close>

definition ok_env :: env where
  "ok_env =
     \<lparr>status_of = \<lambda>_ _. 0, word_of = \<lambda>_ _ n. of_nat (Suc n), wide_of = \<lambda>_ _ _. 0, mac_of = \<lambda>_ _. EthAddr 2 0 0 0 0 1,
      flag_of = \<lambda>_ _. True,
      cmpMacAddr = (=), isMcastAddr = \<lambda>a. odd (unat (octet0 a)), ip4_addr_cmp = (=),
      ip4_addr_ismulticast = \<lambda>a. unat (a AND 0xF0) = 0xE0,
      selfCoreId = 5, hostPortMask = 1, macPortDenorm = id, macPortInv = 0xFF,
      macPortToPortMask = \<lambda>p. ETHFW_BIT (p + 1), macPortToAlePort = \<lambda>p. p + 1,
      vepaSupport = True, proxyArp = True, mcuPlusSdk = False, macOnlyPorts = False, ipcMaxProcs = 11,
      txMtuNum = 8, txChNumInvalid = 0xFFFF, macPortMaskOf = ETHFW_BIT, hwPushMax = 8,
      hwPushNorm = \<lambda>n. n - 1, linkSlow = (0, 0), linkFast = (2, 1), macPortNorm = id, priNum = 8, socCpsw9g = True,
      utilsAssert = True, stackWord = \<lambda>_. 0,
      verifyStatusOf = \<lambda>w. if w = 1 then VerifySucceeded else VerifyFailed,
      socJ742s2 = False, monitorSupport = True, ietEnable = False, macPortNum = 8, txChannelsNum = 8, txChAny = 0xFFFF,
      macListMax = 8, allPortsMask = 0x1FF, tagInner = 1, tosMapNum = 64, isCpswType = \<lambda>t. t \<in> {0, 1, 2},
      ipcCores = [0, 1, 3, 4, 5, 6], buildDate = ''Feb 12 1996'', buildTime = ''12:34:56'', buildCommit = ''fd52c34f''\<rparr>"

lemma lib_spec_ok_env [simp]: "lib_spec ok_env"
  by (simp add: lib_spec_def ok_env_def)

end
