(* ===== verification/Slots.thy ===== *)
theory Slots
  imports Prelude
begin

text \<open>
  Fixed-size tables of entries that are in use or free.  The firmware keeps five of them (proxy ARP,
  VEPA, exclusive multicast, VLANs, clients), all searched by a \<^verbatim>\<open>for\<close> loop that stops at the first
  entry in use with a given key, and all filled at the first free entry.  The first part gives the
  finite map such an array stands for and what updating, filling and freeing one slot does to it.
  The second part is the interface the rest of the firmware relies on: the locale
  \<open>bounded_map\<close>, with the refinement of any sequence of operations to an abstract bounded map.
\<close>

section \<open>The map an array of slots stands for\<close>

definition slot_find :: "('e \<Rightarrow> bool) \<Rightarrow> ('e \<Rightarrow> 'k) \<Rightarrow> 'k \<Rightarrow> 'e list \<Rightarrow> nat option" where
  "slot_find used key k xs = first_idx (\<lambda>x. used x \<and> key x = k) xs"

definition slot_map :: "('e \<Rightarrow> bool) \<Rightarrow> ('e \<Rightarrow> 'k) \<Rightarrow> ('e \<Rightarrow> 'v) \<Rightarrow> 'e list \<Rightarrow> 'k \<rightharpoonup> 'v" where
  "slot_map used key val xs = (\<lambda>k. map_option (\<lambda>i. val (xs ! i)) (slot_find used key k xs))"

definition slot_cnt :: "('e \<Rightarrow> bool) \<Rightarrow> 'e list \<Rightarrow> nat" where
  "slot_cnt used xs = length (filter used xs)"

text \<open>No key is held by two used slots.\<close>

definition slot_inv :: "('e \<Rightarrow> bool) \<Rightarrow> ('e \<Rightarrow> 'k) \<Rightarrow> 'e list \<Rightarrow> bool" where
  "slot_inv used key xs \<longleftrightarrow>
     (\<forall>i<length xs. \<forall>j<length xs. used (xs ! i) \<and> used (xs ! j) \<and> key (xs ! i) = key (xs ! j) \<longrightarrow> i = j)"

lemma map_eqI: "(\<And>k v. f k = Some v \<longleftrightarrow> g k = Some v) \<Longrightarrow> f = g"
  by (rule ext) (metis not_None_eq)

lemma slot_invD:
  "slot_inv used key xs \<Longrightarrow> i < length xs \<Longrightarrow> j < length xs \<Longrightarrow> used (xs ! i) \<Longrightarrow> used (xs ! j)
   \<Longrightarrow> key (xs ! i) = key (xs ! j) \<Longrightarrow> i = j"
  unfolding slot_inv_def by blast

lemma slot_find_at:
  assumes "slot_inv used key xs" "i < length xs" "used (xs ! i)"
  shows "slot_find used key (key (xs ! i)) xs = Some i"
  unfolding slot_find_def
proof (rule first_idx_unique)
  show "j = i" if "j < length xs" "used (xs ! j) \<and> key (xs ! j) = key (xs ! i)" for j
    using slot_invD [OF assms(1)] that assms(2,3) by auto
qed (use assms in auto)

lemma slot_map_Some:
  assumes "slot_inv used key xs"
  shows "slot_map used key val xs k = Some v \<longleftrightarrow>
    (\<exists>i<length xs. used (xs ! i) \<and> key (xs ! i) = k \<and> val (xs ! i) = v)"
proof
  assume "slot_map used key val xs k = Some v"
  then show "\<exists>i<length xs. used (xs ! i) \<and> key (xs ! i) = k \<and> val (xs ! i) = v"
    by (auto simp: slot_map_def slot_find_def first_idx_Some)
next
  assume "\<exists>i<length xs. used (xs ! i) \<and> key (xs ! i) = k \<and> val (xs ! i) = v"
  then obtain i where "i < length xs" "used (xs ! i)" "key (xs ! i) = k" "val (xs ! i) = v"
    by blast
  with slot_find_at [OF assms] show "slot_map used key val xs k = Some v"
    by (auto simp: slot_map_def)
qed

lemma slot_map_None:
  "slot_map used key val xs k = None \<longleftrightarrow> (\<forall>x\<in>set xs. used x \<longrightarrow> key x \<noteq> k)"
  by (auto simp: slot_map_def slot_find_def first_idx_None)

lemma slot_find_map:
  "slot_find used key k xs = Some i \<Longrightarrow> slot_map used key val xs k = Some (val (xs ! i))"
  "slot_find used key k xs = None \<longleftrightarrow> slot_map used key val xs k = None"
  by (simp_all add: slot_map_def)

lemma slot_findD:
  assumes "slot_find used key k xs = Some i"
  shows "i < length xs" "used (xs ! i)" "key (xs ! i) = k"
  using assms by (auto simp: slot_find_def first_idx_Some)

text \<open>Overwriting a used slot without changing its key.\<close>

lemma slot_inv_update:
  assumes "slot_inv used key xs" "i < length xs" "used (xs ! i)" "used x" "key x = key (xs ! i)"
  shows "slot_inv used key (xs[i := x])"
  unfolding slot_inv_def
proof (intro allI impI)
  fix j k
  assume "j < length (xs[i := x])" "k < length (xs[i := x])"
    and "used (xs[i := x] ! j) \<and> used (xs[i := x] ! k) \<and> key (xs[i := x] ! j) = key (xs[i := x] ! k)"
  then show "j = k"
    using assms(2-5)
    by (cases "j = i"; cases "k = i")
      (auto intro: slot_invD [OF assms(1)] slot_invD [OF assms(1), symmetric])
qed

lemma slot_map_update:
  assumes "slot_inv used key xs" "i < length xs" "used (xs ! i)" "used x" "key x = key (xs ! i)"
  shows "slot_map used key val (xs[i := x]) = (slot_map used key val xs)(key x \<mapsto> val x)"
proof (rule map_eqI)
  fix k v
  have inv: "slot_inv used key (xs[i := x])" by (rule slot_inv_update [OF assms])
  have other: "j \<noteq> i \<longleftrightarrow> key (xs ! j) \<noteq> key x" if "j < length xs" "used (xs ! j)" for j
    using slot_invD [OF assms(1) that(1) assms(2) that(2) assms(3)] assms(5) by metis
  have "slot_map used key val (xs[i := x]) k = Some v \<longleftrightarrow>
      (\<exists>j<length xs. (j = i \<and> key x = k \<and> val x = v) \<or>
         (j \<noteq> i \<and> used (xs ! j) \<and> key (xs ! j) = k \<and> val (xs ! j) = v))"
    unfolding slot_map_Some [OF inv] using assms(2,4) by (metis length_list_update nth_list_update)
  also have "\<dots> \<longleftrightarrow> ((slot_map used key val xs)(key x \<mapsto> val x)) k = Some v"
    using assms(2) other by (auto simp: slot_map_Some [OF assms(1)])
  finally show "slot_map used key val (xs[i := x]) k = Some v \<longleftrightarrow>
      ((slot_map used key val xs)(key x \<mapsto> val x)) k = Some v" .
qed

text \<open>Taking a free slot for a new key.\<close>

lemma slot_inv_fill:
  assumes "slot_inv used key xs" "i < length xs" "\<not> used (xs ! i)" "used x"
    and "slot_map used key val xs (key x) = None"
  shows "slot_inv used key (xs[i := x])"
proof -
  have "j < length xs \<Longrightarrow> used (xs ! j) \<Longrightarrow> key (xs ! j) \<noteq> key x" for j
    using assms(5) by (auto simp: slot_map_None)
  with assms(1-4) show ?thesis
    by (auto simp: slot_inv_def nth_list_update) metis+
qed

lemma slot_map_fill:
  assumes "slot_inv used key xs" "i < length xs" "\<not> used (xs ! i)" "used x"
    and "slot_map used key val xs (key x) = None"
  shows "slot_map used key val (xs[i := x]) = (slot_map used key val xs)(key x \<mapsto> val x)"
proof (rule map_eqI)
  fix k v
  have inv: "slot_inv used key (xs[i := x])" by (rule slot_inv_fill [OF assms])
  have other: "key (xs ! j) \<noteq> key x" if "j < length xs" "used (xs ! j)" for j
    using assms(5) that by (auto simp: slot_map_None)
  have "slot_map used key val (xs[i := x]) k = Some v \<longleftrightarrow>
      (\<exists>j<length xs. (j = i \<and> key x = k \<and> val x = v) \<or>
         (j \<noteq> i \<and> used (xs ! j) \<and> key (xs ! j) = k \<and> val (xs ! j) = v))"
    unfolding slot_map_Some [OF inv] using assms(2,4) by (metis length_list_update nth_list_update)
  also have "\<dots> \<longleftrightarrow> ((slot_map used key val xs)(key x \<mapsto> val x)) k = Some v"
    using assms(2,3) other by (auto simp: slot_map_Some [OF assms(1)])
  finally show "slot_map used key val (xs[i := x]) k = Some v \<longleftrightarrow>
      ((slot_map used key val xs)(key x \<mapsto> val x)) k = Some v" .
qed

text \<open>Freeing a used slot.\<close>

lemma slot_inv_free:
  assumes "slot_inv used key xs" "\<not> used x"
  shows "slot_inv used key (xs[i := x])"
  using assms by (cases "i < length xs") (auto simp: slot_inv_def nth_list_update list_update_beyond)

lemma slot_map_free:
  assumes "slot_inv used key xs" "i < length xs" "used (xs ! i)" "\<not> used x"
  shows "slot_map used key val (xs[i := x]) = (slot_map used key val xs)(key (xs ! i) := None)"
proof (rule map_eqI)
  fix k v
  have inv: "slot_inv used key (xs[i := x])" by (rule slot_inv_free [OF assms(1,4)])
  have other: "j \<noteq> i \<longleftrightarrow> key (xs ! j) \<noteq> key (xs ! i)" if "j < length xs" "used (xs ! j)" for j
    using slot_invD [OF assms(1) that(1) assms(2) that(2) assms(3)] by metis
  have "slot_map used key val (xs[i := x]) k = Some v \<longleftrightarrow>
      (\<exists>j<length xs. j \<noteq> i \<and> used (xs ! j) \<and> key (xs ! j) = k \<and> val (xs ! j) = v)"
    unfolding slot_map_Some [OF inv] using assms(2,4) by (metis length_list_update nth_list_update)
  also have "\<dots> \<longleftrightarrow> ((slot_map used key val xs)(key (xs ! i) := None)) k = Some v"
    using other by (auto simp: slot_map_Some [OF assms(1)])
  finally show "slot_map used key val (xs[i := x]) k = Some v \<longleftrightarrow>
      ((slot_map used key val xs)(key (xs ! i) := None)) k = Some v" .
qed

lemma slot_dom:
  "slot_inv used key xs \<Longrightarrow> dom (slot_map used key val xs) = key ` set (filter used xs)"
  by (auto simp: dom_def slot_map_Some in_set_conv_nth)

lemma slot_inv_distinct: "slot_inv used key xs \<Longrightarrow> distinct (map key (filter used xs))"
proof (induction xs)
  case Nil
  then show ?case by simp
next
  case (Cons x xs)
  from Cons.prems have tl: "slot_inv used key xs"
    unfolding slot_inv_def by (metis Suc_inject Suc_less_eq length_Cons nth_Cons_Suc)
  have "key x \<notin> key ` set (filter used xs)" if "used x"
  proof
    assume "key x \<in> key ` set (filter used xs)"
    then obtain j where "j < length xs" "used (xs ! j)" "key (xs ! j) = key x"
      by (auto simp: in_set_conv_nth)
    with that slot_invD [OF Cons.prems, of 0 "Suc j"] show False by auto
  qed
  with Cons.IH [OF tl] show ?case by auto
qed

lemma slot_card_dom:
  assumes "slot_inv used key xs"
  shows "card (dom (slot_map used key val xs)) = slot_cnt used xs"
proof -
  have "card (key ` set (filter used xs)) = length (map key (filter used xs))"
    using distinct_card [OF slot_inv_distinct [OF assms]] by simp
  then show ?thesis by (simp add: slot_dom [OF assms] slot_cnt_def)
qed

lemma slot_finite_dom: "slot_inv used key xs \<Longrightarrow> finite (dom (slot_map used key val xs))"
  by (simp add: slot_dom)

lemma slot_cnt_le: "slot_cnt used xs \<le> length xs"
  by (simp add: slot_cnt_def)

lemma slot_no_free: "first_idx (\<lambda>x. \<not> used x) xs = None \<longleftrightarrow> slot_cnt used xs = length xs"
  by (induction xs) (auto simp: slot_cnt_def first_idx_None, metis Suc_n_not_le_n length_filter_le)

lemma slot_all_free:
  assumes "\<forall>x\<in>set xs. \<not> used x"
  shows "slot_inv used key xs" "slot_map used key val xs = Map.empty" "slot_cnt used xs = 0"
  using assms by (auto simp: slot_inv_def slot_cnt_def slot_map_None fun_eq_iff)

section \<open>The bounded map such a table implements\<close>

text \<open>
  The operations a client of a table calls: insert under a key (\<open>Put\<close>, which merges with what the
  key already has) and delete under a key (\<open>Del\<close>, which may strip only a part of it).
\<close>

datatype ('k, 'w) map_op = Put 'k 'w | Del 'k 'w

fun abs_op :: "nat \<Rightarrow> ('v option \<Rightarrow> 'w \<Rightarrow> 'v) \<Rightarrow> ('v \<Rightarrow> 'w \<Rightarrow> 'v option) \<Rightarrow> ('k, 'w) map_op
    \<Rightarrow> ('k \<rightharpoonup> 'v) \<Rightarrow> ('k \<rightharpoonup> 'v)" where
  "abs_op cap merge strip (Put k w) m =
     (if m k \<noteq> None \<or> card (dom m) < cap then m(k \<mapsto> merge (m k) w) else m)"
| "abs_op cap merge strip (Del k w) m = m(k := Option.bind (m k) (\<lambda>v. strip v w))"

fun map_step :: "('k \<Rightarrow> 'w \<Rightarrow> 't \<Rightarrow> 't) \<Rightarrow> ('k \<Rightarrow> 'w \<Rightarrow> 't \<Rightarrow> 't) \<Rightarrow> ('k, 'w) map_op \<Rightarrow> 't \<Rightarrow> 't" where
  "map_step put del (Put k w) t = put k w t"
| "map_step put del (Del k w) t = del k w t"

fun op_ok :: "('k \<Rightarrow> 'w \<Rightarrow> bool) \<Rightarrow> ('k, 'w) map_op \<Rightarrow> bool" where
  "op_ok ok (Put k w) = ok k w"
| "op_ok ok (Del k w) = True"

locale bounded_map =
  fixes invar :: "'t \<Rightarrow> bool"
    and lookup :: "'t \<Rightarrow> 'k \<rightharpoonup> 'v"
    and put del :: "'k \<Rightarrow> 'w \<Rightarrow> 't \<Rightarrow> 't"
    and cnt :: "'t \<Rightarrow> nat"
    and cap :: nat
    and ok :: "'k \<Rightarrow> 'w \<Rightarrow> bool"
    and merge :: "'v option \<Rightarrow> 'w \<Rightarrow> 'v"
    and strip :: "'v \<Rightarrow> 'w \<Rightarrow> 'v option"
  assumes put_inv: "invar t \<Longrightarrow> ok k w \<Longrightarrow> invar (put k w t)"
    and del_inv: "invar t \<Longrightarrow> invar (del k w t)"
    and put_lookup: "invar t \<Longrightarrow> ok k w \<Longrightarrow> lookup t k \<noteq> None \<or> cnt t < cap \<Longrightarrow>
          lookup (put k w t) = (lookup t)(k \<mapsto> merge (lookup t k) w)"
    and put_full: "invar t \<Longrightarrow> ok k w \<Longrightarrow> lookup t k = None \<Longrightarrow> \<not> cnt t < cap \<Longrightarrow>
          lookup (put k w t) = lookup t"
    and del_lookup: "invar t \<Longrightarrow> lookup (del k w t) = (lookup t)(k := Option.bind (lookup t k) (\<lambda>v. strip v w))"
    and cnt_dom: "invar t \<Longrightarrow> cnt t = card (dom (lookup t))"
    and cnt_le: "invar t \<Longrightarrow> cnt t \<le> cap"
begin

abbreviation "step \<equiv> map_step put del"
abbreviation "absm \<equiv> abs_op cap merge strip"

lemma step_inv: "invar t \<Longrightarrow> op_ok ok a \<Longrightarrow> invar (step a t)"
  by (cases a) (simp_all add: put_inv del_inv)

lemma step_abs: "invar t \<Longrightarrow> op_ok ok a \<Longrightarrow> lookup (step a t) = absm a (lookup t)"
  by (cases a) (simp_all add: put_lookup put_full del_lookup flip: cnt_dom)

lemma run_inv: "invar t \<Longrightarrow> \<forall>a\<in>set ops. op_ok ok a \<Longrightarrow> invar (fold step ops t)"
  by (induction ops arbitrary: t) (simp_all add: step_inv)

lemma run_abs:
  "invar t \<Longrightarrow> \<forall>a\<in>set ops. op_ok ok a \<Longrightarrow> lookup (fold step ops t) = fold absm ops (lookup t)"
  by (induction ops arbitrary: t) (simp_all add: step_inv step_abs)

lemma run_cnt:
  assumes "invar t" "\<forall>a\<in>set ops. op_ok ok a"
  shows "cnt (fold step ops t) = card (dom (fold absm ops (lookup t)))"
    and "cnt (fold step ops t) \<le> cap"
  using cnt_dom [OF run_inv [OF assms]] cnt_le [OF run_inv [OF assms]]
  by (simp_all add: run_abs [OF assms])

lemma put_get: "invar t \<Longrightarrow> ok k w \<Longrightarrow> cnt t < cap \<Longrightarrow> lookup (put k w t) k = Some (merge (lookup t k) w)"
  by (simp add: put_lookup)

end

text \<open>A table that leaves itself alone when it refuses the arguments.\<close>

locale guarded_map = bounded_map +
  assumes refuse: "\<not> ok k w \<Longrightarrow> put k w t = t"
begin

lemma step_refuse: "\<not> op_ok ok a \<Longrightarrow> step a t = t"
  by (cases a) (simp_all add: refuse)

lemma run_filter: "fold step ops t = fold step (filter (op_ok ok) ops) t"
  by (induction ops arbitrary: t) (simp_all add: step_refuse)

lemma run_any:
  assumes "invar t"
  shows "invar (fold step ops t)"
    and "lookup (fold step ops t) = fold absm (filter (op_ok ok) ops) (lookup t)"
    and "cnt (fold step ops t) = card (dom (lookup (fold step ops t)))"
    and "cnt (fold step ops t) \<le> cap"
proof -
  have *: "\<forall>a\<in>set (filter (op_ok ok) ops). op_ok ok a" by simp
  show inv: "invar (fold step ops t)"
    unfolding run_filter [of ops] by (rule run_inv [OF assms *])
  show "lookup (fold step ops t) = fold absm (filter (op_ok ok) ops) (lookup t)"
    unfolding run_filter [of ops] by (rule run_abs [OF assms *])
  show "cnt (fold step ops t) = card (dom (lookup (fold step ops t)))" "cnt (fold step ops t) \<le> cap"
    using cnt_dom [OF inv] cnt_le [OF inv] by simp_all
qed

end

end
