(* ===== verification/Arp.thy ===== *)
theory Arp
  imports World Slots
begin

text \<open>
  Proxy ARP table (\<^verbatim>\<open>ethremotecfg/server/src/ethfw_arp.c\<close>): the 16-entry table that maps a remote
  core's IP address and VLAN to its MAC address, and the ARP packets sent on a client's behalf.
  The object \<open>arp_obj\<close> is \<^verbatim>\<open>gEthFwArpObj\<close>; its mutex handle is the flag "not NULL".  The table is
  the bounded map \<open>arp_map\<close> (interpretation \<open>arp_table\<close> of \<open>guarded_map\<close>).
\<close>

section \<open>State\<close>

definition ETHFW_ARP_TABLE_SIZE :: nat where
  "ETHFW_ARP_TABLE_SIZE = 16"

record EthFwArp_AddrEntry =
  arpIpAddr :: u32
  arpHwAddr :: eth_addr
  arpVlanId :: u16
  arpIsFree :: bool

record EthFwArp_Obj =
  remoteCoreArpTable :: "EthFwArp_AddrEntry list"
  arpMutex :: bool

record arp_st = world +
  gEthFwArpObj :: EthFwArp_Obj

abbreviation arp_used :: "EthFwArp_AddrEntry \<Rightarrow> bool" where
  "arp_used x \<equiv> \<not> arpIsFree x"

abbreviation arp_key :: "EthFwArp_AddrEntry \<Rightarrow> u16 \<times> u32" where
  "arp_key x \<equiv> (arpVlanId x, arpIpAddr x)"

section \<open>Operations\<close>

definition EthFwArp_init :: "env \<Rightarrow> 'a arp_st_scheme \<Rightarrow> int \<times> 'a arp_st_scheme" where
  "EthFwArp_init e s =
     (let ok = flag_of e (calls s) Osal_createMutex;
          s = issue Osal_createMutex s;
          s = s\<lparr>gEthFwArpObj := (gEthFwArpObj s)\<lparr>arpMutex := ok\<rparr>\<rparr>
      in if \<not> ok then (ETHFW_EFAIL, s)
         else (ETHFW_SOK, s\<lparr>gEthFwArpObj := (gEthFwArpObj s)
                 \<lparr>remoteCoreArpTable := map (\<lambda>x. x\<lparr>arpIsFree := True\<rparr>) (remoteCoreArpTable (gEthFwArpObj s))\<rparr>\<rparr>))"

definition EthFwArp_deinit :: "'a arp_st_scheme \<Rightarrow> 'a arp_st_scheme" where
  "EthFwArp_deinit s = (if arpMutex (gEthFwArpObj s) then issue Osal_deleteMutex s else s)"

text \<open>The entry in use for an IP address on a VLAN: the loop all three operations run.\<close>

definition arp_search :: "env \<Rightarrow> u32 \<Rightarrow> u16 \<Rightarrow> EthFwArp_AddrEntry list \<Rightarrow> nat option" where
  "arp_search e ip vlan t =
     first_idx (\<lambda>x. \<not> arpIsFree x \<and> arpVlanId x = vlan \<and> ip4_addr_cmp e (arpIpAddr x) ip) t"

definition EthFwArp_getHwAddr :: "env \<Rightarrow> u32 \<Rightarrow> u16 \<Rightarrow> EthFwArp_Obj \<Rightarrow> int \<times> eth_addr option" where
  "EthFwArp_getHwAddr e ip vlan ob =
     (case arp_search e ip vlan (remoteCoreArpTable ob) of
        Some i \<Rightarrow> (ETHFW_SOK, Some (arpHwAddr (remoteCoreArpTable ob ! i)))
      | None \<Rightarrow> (ETHFW_EFAIL, None))"

definition EthFwArp_addAddr ::
    "env \<Rightarrow> u32 \<Rightarrow> eth_addr \<Rightarrow> u16 \<Rightarrow> EthFwArp_Obj \<Rightarrow> int \<times> EthFwArp_Obj" where
  "EthFwArp_addAddr e ip hw vlan ob =
     (if ETHFW_IS_BIT_SET (ucast (octet0 hw)) 0 then (ETHFW_EINVALIDPARAMS, ob)
      else if ip4_addr_ismulticast e ip then (ETHFW_EINVALIDPARAMS, ob)
      else
        (let t = remoteCoreArpTable ob in
         case first_idx (\<lambda>x. \<not> arpIsFree x \<and> arpVlanId x = vlan \<and> ip4_addr_cmp e ip (arpIpAddr x)) t of
           Some i \<Rightarrow> (ETHFW_SOK, ob\<lparr>remoteCoreArpTable := t[i := (t ! i)\<lparr>arpHwAddr := hw\<rparr>]\<rparr>)
         | None \<Rightarrow>
             (case first_idx arpIsFree t of
                Some i \<Rightarrow> (ETHFW_SOK,
                  ob\<lparr>remoteCoreArpTable := t[i := (t ! i)\<lparr>arpIpAddr := ip, arpHwAddr := hw,
                                                     arpVlanId := vlan, arpIsFree := False\<rparr>]\<rparr>)
              | None \<Rightarrow> (ETHFW_EALLOC, ob))))"

definition EthFwArp_delAddr :: "env \<Rightarrow> u32 \<Rightarrow> u16 \<Rightarrow> EthFwArp_Obj \<Rightarrow> int \<times> EthFwArp_Obj" where
  "EthFwArp_delAddr e ip vlan ob =
     (let t = remoteCoreArpTable ob in
      case arp_search e ip vlan t of
        Some i \<Rightarrow> (ETHFW_SOK,
          ob\<lparr>remoteCoreArpTable := t[i := (t ! i)\<lparr>arpIpAddr := 0, arpHwAddr := zero_mac,
                                             arpIsFree := True\<rparr>]\<rparr>)
      | None \<Rightarrow> (ETHFW_EFAIL, ob))"

definition EthFwArp_getUseCnt :: "EthFwArp_Obj \<Rightarrow> nat" where
  "EthFwArp_getUseCnt ob =
     fold (\<lambda>x cnt. if \<not> arpIsFree x then Suc cnt else cnt) (remoteCoreArpTable ob) 0"

text \<open>The rows \<^verbatim>\<open>EthFwArp_printTable\<close> prints: running number, MAC address, VLAN, IP address.\<close>

definition EthFwArp_printTable :: "EthFwArp_Obj \<Rightarrow> (nat \<times> eth_addr \<times> u16 \<times> u32) list" where
  "EthFwArp_printTable ob =
     snd (fold (\<lambda>x (used, rows).
            if \<not> arpIsFree x
            then (Suc used, rows @ [(Suc used, arpHwAddr x, arpVlanId x, arpIpAddr x)])
            else (used, rows)) (remoteCoreArpTable ob) (0, []))"

section \<open>ARP packets\<close>

text \<open>
  \<^verbatim>\<open>lwip_htons\<close> puts a 16-bit field in network order; IP addresses are kept in network order and
  copied as they are, so on the little-endian targets their first octet is the low byte.
\<close>

definition be16 :: "u16 \<Rightarrow> u8 list" where
  "be16 w = [ucast (drop_bit 8 w), ucast w]"

definition ip_octets :: "u32 \<Rightarrow> u8 list" where
  "ip_octets a = [ucast a, ucast (drop_bit 8 a), ucast (drop_bit 16 a), ucast (drop_bit 24 a)]"

definition ETHTYPE_IP :: u16 where "ETHTYPE_IP = 0x0800"
definition ETHTYPE_ARP :: u16 where "ETHTYPE_ARP = 0x0806"
definition ETHTYPE_VLAN :: u16 where "ETHTYPE_VLAN = 0x8100"

definition arp_frame :: "eth_addr \<Rightarrow> eth_addr \<Rightarrow> eth_addr \<Rightarrow> u32 \<Rightarrow> eth_addr \<Rightarrow> u32 \<Rightarrow> u16 \<Rightarrow> u16 \<Rightarrow> u8 list" where
  "arp_frame ethSrc ethDst hwSrc ipSrc hwDst ipDst vlan opcode =
     octets ethDst @ octets ethSrc @
     (if vlan \<noteq> 0 then be16 ETHTYPE_VLAN @ be16 vlan @ be16 ETHTYPE_ARP else be16 ETHTYPE_ARP) @
     be16 1 @ be16 ETHTYPE_IP @ [6, 4] @ be16 opcode @
     octets hwSrc @ ip_octets ipSrc @ octets hwDst @ ip_octets ipDst"

definition EthFwArp_sendRaw ::
    "env \<Rightarrow> eth_addr \<Rightarrow> eth_addr \<Rightarrow> eth_addr \<Rightarrow> u32 \<Rightarrow> eth_addr \<Rightarrow> u32 \<Rightarrow> u16 \<Rightarrow> u16
     \<Rightarrow> 'a world_scheme \<Rightarrow> 'a world_scheme" where
  "EthFwArp_sendRaw e ethSrc ethDst hwSrc ipSrc hwDst ipDst vlan opcode s =
     (let len = (if vlan \<noteq> 0 then 14 + 28 + 4 else 14 + 28);
          pbuf = flag_of e (calls s) (Pbuf_alloc len);
          s = issue (Pbuf_alloc len) s
      in if \<not> pbuf then s
         else issue (Netif_linkoutput (arp_frame ethSrc ethDst hwSrc ipSrc hwDst ipDst vlan opcode)) s)"

text \<open>A reader of Ethernet ARP frames, as RFC 826 and IEEE 802.1Q lay them out.\<close>

definition rd16 :: "u8 \<Rightarrow> u8 \<Rightarrow> u16" where
  "rd16 h l = push_bit 8 (ucast h) OR ucast l"

definition rd_ip :: "u8 \<Rightarrow> u8 \<Rightarrow> u8 \<Rightarrow> u8 \<Rightarrow> u32" where
  "rd_ip a b c d = ucast a OR push_bit 8 (ucast b) OR push_bit 16 (ucast c) OR push_bit 24 (ucast d)"

fun rd_mac :: "u8 list \<Rightarrow> eth_addr" where
  "rd_mac (a # b # c # d # e # f # _) = EthAddr a b c d e f"
| "rd_mac _ = zero_mac"

definition rd16_at :: "u8 list \<Rightarrow> nat \<Rightarrow> u16" where
  "rd16_at xs i = rd16 (xs ! i) (xs ! Suc i)"

definition rd_ip_at :: "u8 list \<Rightarrow> nat \<Rightarrow> u32" where
  "rd_ip_at xs i = rd_ip (xs ! i) (xs ! (i + 1)) (xs ! (i + 2)) (xs ! (i + 3))"

definition parse_arp_payload :: "u8 list \<Rightarrow> (u16 \<times> eth_addr \<times> u32 \<times> eth_addr \<times> u32) option" where
  "parse_arp_payload xs =
     (if length xs = 28 \<and> take 6 xs = [0, 1, 8, 0, 6, 4]
      then Some (rd16_at xs 6, rd_mac (drop 8 xs), rd_ip_at xs 14, rd_mac (drop 18 xs), rd_ip_at xs 24)
      else None)"

definition parse_arp :: "u8 list \<Rightarrow> (eth_addr \<times> eth_addr \<times> u16 \<times> u16 \<times> eth_addr \<times> u32 \<times> eth_addr \<times> u32) option" where
  "parse_arp xs =
     (if length xs < 14 then None
      else if rd16_at xs 12 = ETHTYPE_ARP
      then map_option (\<lambda>p. (rd_mac xs, rd_mac (drop 6 xs), 0, p)) (parse_arp_payload (drop 14 xs))
      else if rd16_at xs 12 = ETHTYPE_VLAN \<and> 18 \<le> length xs \<and> rd16_at xs 16 = ETHTYPE_ARP
      then map_option (\<lambda>p. (rd_mac xs, rd_mac (drop 6 xs), rd16_at xs 14, p))
             (parse_arp_payload (drop 18 xs))
      else None)"

section \<open>The table is a bounded map\<close>

definition arp_inv :: "EthFwArp_Obj \<Rightarrow> bool" where
  "arp_inv ob \<longleftrightarrow> length (remoteCoreArpTable ob) = ETHFW_ARP_TABLE_SIZE \<and>
     slot_inv arp_used arp_key (remoteCoreArpTable ob)"

definition arp_map :: "EthFwArp_Obj \<Rightarrow> u16 \<times> u32 \<rightharpoonup> eth_addr" where
  "arp_map ob = slot_map arp_used arp_key arpHwAddr (remoteCoreArpTable ob)"

definition arp_accepts :: "env \<Rightarrow> u16 \<times> u32 \<Rightarrow> eth_addr \<Rightarrow> bool" where
  "arp_accepts e k hw \<longleftrightarrow> even (unat (octet0 hw)) \<and> \<not> ip4_addr_ismulticast e (snd k)"

lemma arp_used_conv: "arpIsFree = (\<lambda>x. \<not> arp_used x)"
  by simp

lemma octet0_bit0: "ETHFW_IS_BIT_SET (ucast (octet0 hw)) 0 \<longleftrightarrow> odd (unat (octet0 hw))"
proof -
  have "odd (unat (octet0 hw)) \<longleftrightarrow> bit (octet0 hw) 0"
    by (simp add: bit_unsigned_iff flip: bit_0)
  then show ?thesis by (simp add: IS_BIT_SET_bit bit_unsigned_iff)
qed

lemma arp_search_slot:
  "lib_spec e \<Longrightarrow> arp_search e ip vlan t = slot_find arp_used arp_key (vlan, ip) t"
  unfolding arp_search_def slot_find_def by (rule first_idx_cong) auto

lemma arp_search_add:
  "lib_spec e \<Longrightarrow> first_idx (\<lambda>x. \<not> arpIsFree x \<and> arpVlanId x = vlan \<and> ip4_addr_cmp e ip (arpIpAddr x)) t
     = slot_find arp_used arp_key (vlan, ip) t"
  unfolding slot_find_def by (rule first_idx_cong) auto

lemma getUseCnt_slot: "EthFwArp_getUseCnt ob = slot_cnt arp_used (remoteCoreArpTable ob)"
proof -
  have "fold (\<lambda>x cnt. if \<not> arpIsFree x then Suc cnt else cnt) t n = n + slot_cnt arp_used t" for t n
    by (induction t arbitrary: n) (simp_all add: slot_cnt_def)
  then show ?thesis by (simp add: EthFwArp_getUseCnt_def)
qed

text \<open>What an accepted \<^verbatim>\<open>EthFwArp_addAddr\<close> does to the table, by whether the key is present.\<close>

lemma addAddr_cases:
  assumes "lib_spec e" "arp_accepts e (vlan, ip) hw"
  obtains
    (update) i where "slot_find arp_used arp_key (vlan, ip) (remoteCoreArpTable ob) = Some i"
      "EthFwArp_addAddr e ip hw vlan ob = (ETHFW_SOK, ob\<lparr>remoteCoreArpTable :=
         (remoteCoreArpTable ob)[i := (remoteCoreArpTable ob ! i)\<lparr>arpHwAddr := hw\<rparr>]\<rparr>)"
  | (fill) i where "slot_find arp_used arp_key (vlan, ip) (remoteCoreArpTable ob) = None"
      "i < length (remoteCoreArpTable ob)" "arpIsFree (remoteCoreArpTable ob ! i)"
      "EthFwArp_addAddr e ip hw vlan ob = (ETHFW_SOK, ob\<lparr>remoteCoreArpTable :=
         (remoteCoreArpTable ob)[i := (remoteCoreArpTable ob ! i)\<lparr>arpIpAddr := ip, arpHwAddr := hw,
            arpVlanId := vlan, arpIsFree := False\<rparr>]\<rparr>)"
  | (full) "slot_find arp_used arp_key (vlan, ip) (remoteCoreArpTable ob) = None"
      "slot_cnt arp_used (remoteCoreArpTable ob) = length (remoteCoreArpTable ob)"
      "EthFwArp_addAddr e ip hw vlan ob = (ETHFW_EALLOC, ob)"
proof -
  let ?t = "remoteCoreArpTable ob"
  have ok: "\<not> ETHFW_IS_BIT_SET (ucast (octet0 hw)) 0" "\<not> ip4_addr_ismulticast e ip"
    using assms(2) by (simp_all add: arp_accepts_def octet0_bit0)
  show thesis
  proof (cases "slot_find arp_used arp_key (vlan, ip) ?t")
    case (Some i)
    then show thesis
      using update ok by (simp add: EthFwArp_addAddr_def Let_def arp_search_add [OF assms(1)])
  next
    case None
    note absent = this
    show thesis
    proof (cases "first_idx arpIsFree ?t")
      case None
      then have "slot_cnt arp_used ?t = length ?t"
        using slot_no_free [of arp_used ?t] by simp
      with None absent show thesis
        using full ok by (simp add: EthFwArp_addAddr_def Let_def arp_search_add [OF assms(1)])
    next
      case (Some i)
      with absent show thesis
        using fill [of i] ok first_idx_SomeD [OF Some]
        by (simp add: EthFwArp_addAddr_def Let_def arp_search_add [OF assms(1)])
    qed
  qed
qed

lemma addAddr_refused:
  "\<not> arp_accepts e (vlan, ip) hw \<Longrightarrow> EthFwArp_addAddr e ip hw vlan ob = (ETHFW_EINVALIDPARAMS, ob)"
  by (auto simp: EthFwArp_addAddr_def arp_accepts_def octet0_bit0)

lemma addAddr_inv:
  assumes "lib_spec e" "arp_inv ob"
  shows "arp_inv (snd (EthFwArp_addAddr e ip hw vlan ob))"
proof (cases "arp_accepts e (vlan, ip) hw")
  case False
  then show ?thesis using assms(2) by (simp add: addAddr_refused)
next
  case True
  have inv: "slot_inv arp_used arp_key (remoteCoreArpTable ob)"
    using assms(2) by (simp add: arp_inv_def)
  from assms(1) True show ?thesis
  proof (cases rule: addAddr_cases [where ob = ob])
    case (update i)
    note d = slot_findD [OF update(1)]
    from slot_inv_update [OF inv d(1,2), of "(remoteCoreArpTable ob ! i)\<lparr>arpHwAddr := hw\<rparr>"] d(2)
    show ?thesis using update(2) assms(2) by (simp add: arp_inv_def)
  next
    case (fill i)
    have "slot_map arp_used arp_key arpHwAddr (remoteCoreArpTable ob) (vlan, ip) = None"
      by (rule slot_find_map(2) [THEN iffD1, OF fill(1)])
    with slot_inv_fill [OF inv fill(2), where val = arpHwAddr] fill(3)
    show ?thesis using fill(4) assms(2) by (simp add: arp_inv_def)
  next
    case full
    then show ?thesis using assms(2) by simp
  qed
qed

lemma addAddr_map:
  assumes "lib_spec e" "arp_inv ob" "arp_accepts e (vlan, ip) hw"
  shows "EthFwArp_addAddr e ip hw vlan ob =
     (if arp_map ob (vlan, ip) \<noteq> None \<or> EthFwArp_getUseCnt ob < ETHFW_ARP_TABLE_SIZE
      then (ETHFW_SOK, snd (EthFwArp_addAddr e ip hw vlan ob)) else (ETHFW_EALLOC, ob)) \<and>
    arp_map (snd (EthFwArp_addAddr e ip hw vlan ob)) =
     (if arp_map ob (vlan, ip) \<noteq> None \<or> EthFwArp_getUseCnt ob < ETHFW_ARP_TABLE_SIZE
      then (arp_map ob)((vlan, ip) \<mapsto> hw) else arp_map ob)"
proof -
  have inv: "slot_inv arp_used arp_key (remoteCoreArpTable ob)"
    and len: "length (remoteCoreArpTable ob) = ETHFW_ARP_TABLE_SIZE"
    using assms(2) by (simp_all add: arp_inv_def)
  from assms(1,3) show ?thesis
  proof (cases rule: addAddr_cases [where ob = ob])
    case (update i)
    note d = slot_findD [OF update(1)]
    have "arp_map ob (vlan, ip) \<noteq> None"
      using slot_find_map(2) [of arp_used arp_key "(vlan, ip)" "remoteCoreArpTable ob" arpHwAddr] update(1)
      by (auto simp: arp_map_def)
    moreover from slot_map_update [OF inv d(1,2), of "(remoteCoreArpTable ob ! i)\<lparr>arpHwAddr := hw\<rparr>" arpHwAddr] d(2,3)
    have "arp_map (snd (EthFwArp_addAddr e ip hw vlan ob)) = (arp_map ob)((vlan, ip) \<mapsto> hw)"
      by (simp add: update(2) arp_map_def)
    ultimately show ?thesis by (simp add: update(2))
  next
    case (fill i)
    have none: "slot_map arp_used arp_key arpHwAddr (remoteCoreArpTable ob) (vlan, ip) = None"
      by (rule slot_find_map(2) [THEN iffD1, OF fill(1)])
    have "slot_cnt arp_used (remoteCoreArpTable ob) \<noteq> length (remoteCoreArpTable ob)"
      using fill(2,3) slot_no_free [of arp_used "remoteCoreArpTable ob"] by (auto simp: first_idx_None)
    then have lt: "EthFwArp_getUseCnt ob < ETHFW_ARP_TABLE_SIZE"
      using slot_cnt_le [of arp_used "remoteCoreArpTable ob"] by (simp add: getUseCnt_slot len)
    from slot_map_fill [OF inv fill(2), where val = arpHwAddr and x = "(remoteCoreArpTable ob ! i)\<lparr>arpIpAddr := ip,
        arpHwAddr := hw, arpVlanId := vlan, arpIsFree := False\<rparr>"] fill(3) none
    have "arp_map (snd (EthFwArp_addAddr e ip hw vlan ob)) = (arp_map ob)((vlan, ip) \<mapsto> hw)"
      by (simp add: fill(4) arp_map_def)
    with lt show ?thesis by (simp add: fill(4))
  next
    case full
    have "arp_map ob (vlan, ip) = None"
      unfolding arp_map_def by (rule slot_find_map(2) [THEN iffD1, OF full(1)])
    with full(2,3) show ?thesis by (simp add: getUseCnt_slot len)
  qed
qed

lemma delAddr_inv:
  "lib_spec e \<Longrightarrow> arp_inv ob \<Longrightarrow> arp_inv (snd (EthFwArp_delAddr e ip vlan ob))"
  by (auto simp: EthFwArp_delAddr_def arp_inv_def Let_def slot_inv_free split: option.split)

lemma delAddr_map:
  assumes "lib_spec e" "arp_inv ob"
  shows "fst (EthFwArp_delAddr e ip vlan ob) = (if arp_map ob (vlan, ip) = None then ETHFW_EFAIL else ETHFW_SOK)"
    and "arp_map (snd (EthFwArp_delAddr e ip vlan ob)) = (arp_map ob)((vlan, ip) := None)"
proof -
  let ?t = "remoteCoreArpTable ob"
  have inv: "slot_inv arp_used arp_key ?t" using assms(2) by (simp add: arp_inv_def)
  have "fst (EthFwArp_delAddr e ip vlan ob) = (if arp_map ob (vlan, ip) = None then ETHFW_EFAIL else ETHFW_SOK) \<and>
    arp_map (snd (EthFwArp_delAddr e ip vlan ob)) = (arp_map ob)((vlan, ip) := None)"
  proof (cases "slot_find arp_used arp_key (vlan, ip) ?t")
    case None
    moreover have "arp_map ob (vlan, ip) = None"
      unfolding arp_map_def by (rule slot_find_map(2) [THEN iffD1, OF None])
    ultimately show ?thesis
      by (auto simp: EthFwArp_delAddr_def Let_def arp_search_slot [OF assms(1)])
  next
    case (Some i)
    note d = slot_findD [OF Some]
    from slot_map_free [OF inv d(1,2), where val = arpHwAddr and
        x = "(?t ! i)\<lparr>arpIpAddr := 0, arpHwAddr := zero_mac, arpIsFree := True\<rparr>"] d(3)
    show ?thesis using Some
      by (simp add: EthFwArp_delAddr_def Let_def arp_search_slot [OF assms(1)] arp_map_def
          slot_find_map(1) [where val = arpHwAddr])
  qed
  then show "fst (EthFwArp_delAddr e ip vlan ob) = (if arp_map ob (vlan, ip) = None then ETHFW_EFAIL else ETHFW_SOK)"
    and "arp_map (snd (EthFwArp_delAddr e ip vlan ob)) = (arp_map ob)((vlan, ip) := None)"
    by blast+
qed

section \<open>Sequences of operations\<close>

definition arp_put :: "env \<Rightarrow> u16 \<times> u32 \<Rightarrow> eth_addr \<Rightarrow> EthFwArp_Obj \<Rightarrow> EthFwArp_Obj" where
  "arp_put e k hw ob = snd (EthFwArp_addAddr e (snd k) hw (fst k) ob)"

definition arp_del :: "env \<Rightarrow> u16 \<times> u32 \<Rightarrow> eth_addr \<Rightarrow> EthFwArp_Obj \<Rightarrow> EthFwArp_Obj" where
  "arp_del e k hw ob = snd (EthFwArp_delAddr e (snd k) (fst k) ob)"

definition arp_run :: "env \<Rightarrow> (u16 \<times> u32, eth_addr) map_op list \<Rightarrow> EthFwArp_Obj \<Rightarrow> EthFwArp_Obj" where
  "arp_run e ops ob = fold (map_step (arp_put e) (arp_del e)) ops ob"

lemma arp_cnt: "arp_inv ob \<Longrightarrow> EthFwArp_getUseCnt ob = card (dom (arp_map ob))"
  by (simp add: getUseCnt_slot arp_map_def arp_inv_def slot_card_dom)

lemma arp_cnt_le: "arp_inv ob \<Longrightarrow> EthFwArp_getUseCnt ob \<le> ETHFW_ARP_TABLE_SIZE"
  by (metis getUseCnt_slot arp_inv_def slot_cnt_le)

interpretation arp_table: guarded_map "\<lambda>ob. lib_spec e \<and> arp_inv ob" arp_map "arp_put e" "arp_del e"
  EthFwArp_getUseCnt ETHFW_ARP_TABLE_SIZE "arp_accepts e" "\<lambda>_ hw. hw" "\<lambda>_ _. None" for e
proof (unfold_locales, goal_cases)
  case (1 ob k hw) then show ?case by (simp add: arp_put_def addAddr_inv)
next
  case (2 ob k hw) then show ?case by (simp add: arp_del_def delAddr_inv)
next
  case (3 ob k hw) then show ?case using addAddr_map [of e ob "fst k" "snd k" hw] by (simp add: arp_put_def)
next
  case (4 ob k hw) then show ?case using addAddr_map [of e ob "fst k" "snd k" hw] by (simp add: arp_put_def)
next
  case (5 ob k hw) then show ?case
    by (cases "arp_map ob k") (simp_all add: arp_del_def delAddr_map)
next
  case (6 ob) then show ?case by (simp add: arp_cnt)
next
  case (7 ob) then show ?case by (simp add: arp_cnt_le)
next
  case (8 k hw ob) then show ?case by (simp add: arp_put_def addAddr_refused)
qed

lemma arp_init_inv:
  assumes "length (remoteCoreArpTable (gEthFwArpObj s)) = ETHFW_ARP_TABLE_SIZE"
    and "flag_of e (calls s) Osal_createMutex"
  shows "fst (EthFwArp_init e s) = ETHFW_SOK" "arp_inv (gEthFwArpObj (snd (EthFwArp_init e s)))"
    and "arp_map (gEthFwArpObj (snd (EthFwArp_init e s))) = Map.empty"
  using assms slot_all_free [of "map (\<lambda>x. x\<lparr>arpIsFree := True\<rparr>) (remoteCoreArpTable (gEthFwArpObj s))" arp_used]
  by (simp_all add: EthFwArp_init_def arp_inv_def arp_map_def issue_def Let_def)

section \<open>Frames\<close>

lemma rd16_be16: "rd16 (ucast (drop_bit 8 w :: u16)) (ucast w) = w"
  by (rule bit_word_eqI) (auto simp: rd16_def bit_simps)

lemma rd_ip_octets:
  "rd_ip (ucast a) (ucast (drop_bit 8 a)) (ucast (drop_bit 16 a)) (ucast (drop_bit 24 a)) = (a :: u32)"
proof (rule bit_word_eqI)
  fix n assume "n < LENGTH(32)"
  then show "bit (rd_ip (ucast a) (ucast (drop_bit 8 a)) (ucast (drop_bit 16 a)) (ucast (drop_bit 24 a))) n
    \<longleftrightarrow> bit a n"
    by (cases "n < 24"; cases "n < 16") (auto simp: rd_ip_def bit_simps)
qed

lemma octets_cons: "\<exists>a b c d x y. octets m = [a, b, c, d, x, y] \<and> m = EthAddr a b c d x y"
  by (cases m) simp

lemma rd16_types [simp]: "rd16 8 6 = ETHTYPE_ARP" "rd16 129 0 = ETHTYPE_VLAN"
  by (simp_all add: rd16_def ETHTYPE_ARP_def ETHTYPE_VLAN_def)

lemma be16_types [simp]:
  "be16 ETHTYPE_ARP = [8, 6]" "be16 ETHTYPE_VLAN = [129, 0]" "be16 ETHTYPE_IP = [8, 0]" "be16 1 = [0, 1]"
  "ETHTYPE_VLAN \<noteq> ETHTYPE_ARP"
  by (simp_all add: be16_def ETHTYPE_ARP_def ETHTYPE_VLAN_def ETHTYPE_IP_def)

lemma parse_arp_payload:
  "parse_arp_payload ([0, 1, 8, 0, 6, 4] @ be16 opc @ octets hs @ ip_octets ips @ octets hdst @ ip_octets ipd)
    = Some (opc, hs, ips, hdst, ipd)"
  by (cases hs; cases hdst)
    (simp add: parse_arp_payload_def be16_def ip_octets_def rd16_at_def rd_ip_at_def rd16_be16 rd_ip_octets)

lemma parse_arp_frame:
  "parse_arp (arp_frame es ed hs ips hdst ipd vlan opc) = Some (ed, es, vlan, opc, hs, ips, hdst, ipd)"
proof (cases "vlan = 0")
  case True
  then show ?thesis
    using parse_arp_payload [of opc hs ips hdst ipd]
    by (cases es; cases ed) (simp add: arp_frame_def parse_arp_def rd16_at_def)
next
  case False
  then show ?thesis
    using parse_arp_payload [of opc hs ips hdst ipd]
    by (cases es; cases ed) (simp add: arp_frame_def parse_arp_def rd16_at_def be16_def [of vlan] rd16_be16)
qed

text \<open>When a buffer can be allocated, \<^verbatim>\<open>EthFwArp_sendRaw\<close> hands exactly one
  frame to the network interface, of 42 octets untagged or 46 tagged, and a reader of Ethernet ARP
  frames gets back from it every argument of the call; with no buffer nothing is sent.\<close>

theorem arp_sendRaw_roundtrip:
  "let len = (if vlan \<noteq> 0 then 46 else 42);
       frame = arp_frame es ed hs ips hdst ipd vlan opc
   in calls (EthFwArp_sendRaw e es ed hs ips hdst ipd vlan opc s) = calls s @ [Pbuf_alloc len] @
        (if flag_of e (calls s) (Pbuf_alloc len) then [Netif_linkoutput frame] else [])
    \<and> length frame = len
    \<and> parse_arp frame = Some (ed, es, vlan, opc, hs, ips, hdst, ipd)"
proof -
  let ?f = "arp_frame es ed hs ips hdst ipd vlan opc"
  have "length ?f = (if vlan \<noteq> 0 then 46 else 42)"
    by (simp add: arp_frame_def be16_def ip_octets_def)
  moreover have "parse_arp ?f = Some (ed, es, vlan, opc, hs, ips, hdst, ipd)"
    by (rule parse_arp_frame)
  ultimately show ?thesis
    by (auto simp: EthFwArp_sendRaw_def Let_def)
qed

section \<open>The table as a whole\<close>

text \<open>Property C39 (refinement).  After \<^verbatim>\<open>EthFwArp_init\<close> the proxy ARP table behaves as a map from
  (VLAN, IP address) to MAC address of capacity 16, whatever it held before: any sequence of
  \<^verbatim>\<open>EthFwArp_addAddr\<close> and \<^verbatim>\<open>EthFwArp_delAddr\<close> has the effect of the accepted insertions (a unicast
  MAC and IP address) and the deletions on that map, an insertion into a full map being dropped;
  \<^verbatim>\<open>EthFwArp_getUseCnt\<close> is its size.\<close>

theorem arp_run_refines:
  assumes "lib_spec e" "length (remoteCoreArpTable (gEthFwArpObj s)) = ETHFW_ARP_TABLE_SIZE"
    and "flag_of e (calls s) Osal_createMutex"
  shows "let ob = arp_run e ops (gEthFwArpObj (snd (EthFwArp_init e s)));
             m = fold (abs_op ETHFW_ARP_TABLE_SIZE (\<lambda>_ hw. hw) (\<lambda>_ _. None))
                   (filter (op_ok (arp_accepts e)) ops) Map.empty
         in arp_map ob = m \<and> EthFwArp_getUseCnt ob = card (dom m) \<and> card (dom m) \<le> ETHFW_ARP_TABLE_SIZE"
proof -
  let ?ob = "gEthFwArpObj (snd (EthFwArp_init e s))"
  have inv: "lib_spec e \<and> arp_inv ?ob" and empty: "arp_map ?ob = Map.empty"
    using assms(1) arp_init_inv [OF assms(2,3)] by simp_all
  from arp_table.run_any [OF inv, of ops] show ?thesis
    by (simp add: arp_run_def empty Let_def)
qed

definition arp_demo :: arp_st where
  "arp_demo = \<lparr>calls = [], faults = [], gEthFwArpObj =
     \<lparr>remoteCoreArpTable = replicate 16 \<lparr>arpIpAddr = 0, arpHwAddr = zero_mac, arpVlanId = 0, arpIsFree = False\<rparr>,
      arpMutex = False\<rparr>\<rparr>"

theorem arp_run_refines_witness:
  "arp_map (arp_run ok_env [Put (1, 10) (EthAddr 2 0 0 0 0 7), Put (1, 11) (EthAddr 1 0 0 0 0 7), Del (1, 9) zero_mac]
      (gEthFwArpObj (snd (EthFwArp_init ok_env arp_demo)))) = [(1, 10) \<mapsto> EthAddr 2 0 0 0 0 7]"
proof -
  have "lib_spec ok_env" "length (remoteCoreArpTable (gEthFwArpObj arp_demo)) = ETHFW_ARP_TABLE_SIZE"
    and "flag_of ok_env (calls arp_demo) Osal_createMutex"
    by (simp_all add: arp_demo_def ETHFW_ARP_TABLE_SIZE_def) (simp add: ok_env_def)
  from arp_run_refines [OF this, of "[Put (1, 10) (EthAddr 2 0 0 0 0 7), Put (1, 11) (EthAddr 1 0 0 0 0 7), Del (1, 9) zero_mac]"]
  show ?thesis
    by (simp add: Let_def arp_accepts_def ETHFW_ARP_TABLE_SIZE_def ok_env_def fun_eq_iff)
qed

text \<open>On a well-formed table every branch of the operations has its status:
  adding a multicast MAC or IP address is \<open>EINVALIDPARAMS\<close>, adding a new key to a full table is
  \<open>EALLOC\<close>, and both leave the table alone; any other addition is OK and is what the next lookup
  of its key returns, other keys being unaffected; deleting is OK exactly for a key that is present.\<close>

theorem arp_add_status:
  assumes "lib_spec e" "arp_inv ob"
  shows "let (st, ob') = EthFwArp_addAddr e ip hw vlan ob;
             present = (fst (EthFwArp_getHwAddr e ip vlan ob) = ETHFW_SOK)
         in st = (if \<not> arp_accepts e (vlan, ip) hw then ETHFW_EINVALIDPARAMS
                  else if \<not> present \<and> EthFwArp_getUseCnt ob = ETHFW_ARP_TABLE_SIZE then ETHFW_EALLOC
                  else ETHFW_SOK)
          \<and> (st \<noteq> ETHFW_SOK \<longrightarrow> ob' = ob)
          \<and> (st = ETHFW_SOK \<longrightarrow> EthFwArp_getHwAddr e ip vlan ob' = (ETHFW_SOK, Some hw))
          \<and> ((ip', vlan') \<noteq> (ip, vlan) \<longrightarrow> EthFwArp_getHwAddr e ip' vlan' ob' = EthFwArp_getHwAddr e ip' vlan' ob)
          \<and> fst (EthFwArp_delAddr e ip vlan ob) = (if present then ETHFW_SOK else ETHFW_EFAIL)
          \<and> arp_inv ob'"
proof -
  have get: "EthFwArp_getHwAddr e i v ob = (case arp_map ob (v, i) of Some hw \<Rightarrow> (ETHFW_SOK, Some hw) | None \<Rightarrow> (ETHFW_EFAIL, None))"
    for i v ob
    by (cases "slot_find arp_used arp_key (v, i) (remoteCoreArpTable ob)")
      (simp_all add: EthFwArp_getHwAddr_def arp_search_slot [OF assms(1)] arp_map_def slot_map_def)
  have inv: "arp_inv (snd (EthFwArp_addAddr e ip hw vlan ob))"
    by (rule addAddr_inv [OF assms])
  note del = delAddr_map(1) [OF assms, of ip vlan]
  show ?thesis
  proof (cases "arp_accepts e (vlan, ip) hw")
    case False
    then show ?thesis using assms(2) del by (simp add: addAddr_refused get split: option.split)
  next
    case True
    from addAddr_map [OF assms True] arp_cnt_le [OF assms(2)] inv del show ?thesis
      by (cases "EthFwArp_addAddr e ip hw vlan ob")
        (auto simp: get True split: option.split if_splits)
  qed
qed

theorem arp_add_status_witness:
  "let ob = snd (EthFwArp_addAddr ok_env 10 (EthAddr 2 0 0 0 0 7) 1
              (gEthFwArpObj (snd (EthFwArp_init ok_env arp_demo))))
   in EthFwArp_getHwAddr ok_env 10 1 ob = (ETHFW_SOK, Some (EthAddr 2 0 0 0 0 7)) \<and> arp_inv ob"
proof -
  let ?ob = "gEthFwArpObj (snd (EthFwArp_init ok_env arp_demo))"
  have "length (remoteCoreArpTable (gEthFwArpObj arp_demo)) = ETHFW_ARP_TABLE_SIZE"
    and "flag_of ok_env (calls arp_demo) Osal_createMutex"
    by (simp_all add: arp_demo_def ETHFW_ARP_TABLE_SIZE_def ok_env_def)
  note init = arp_init_inv [OF this]
  have "EthFwArp_getUseCnt ?ob = 0"
    using arp_cnt [OF init(2)] init(3) by simp
  moreover have "arp_accepts ok_env (1, 10) (EthAddr 2 0 0 0 0 7)"
    by (simp add: arp_accepts_def ok_env_def)
  ultimately show ?thesis
    using arp_add_status [OF lib_spec_ok_env init(2), of 10 "EthAddr 2 0 0 0 0 7" 1 0 0]
    by (auto simp: ETHFW_ARP_TABLE_SIZE_def split: prod.splits)
qed

end
