(* ===== verification/VirtPort.thy ===== *)
theory VirtPort
  imports World
begin

text \<open>
  Virtual ports (\<^verbatim>\<open>ethremotecfg/server/include/ethfw_virtport.h\<close> and the enumeration of
  \<^verbatim>\<open>ethremotecfg/protocol/ethremotecfg.h\<close>).  The enumeration is a 32-bit value the firmware takes
  from a client's message without a range check, so it is a word here.
\<close>

type_synonym EthRemoteCfg_VirtPort = u32

definition ETHREMOTECFG_MAC_PORT_1 :: u32 where "ETHREMOTECFG_MAC_PORT_1 = 1"
definition ETHREMOTECFG_MAC_PORT_LAST :: u32 where "ETHREMOTECFG_MAC_PORT_LAST = 8"
definition ETHREMOTECFG_SWITCH_PORT_0 :: u32 where "ETHREMOTECFG_SWITCH_PORT_0 = 25"
definition ETHREMOTECFG_SWITCH_PORT_LAST :: u32 where "ETHREMOTECFG_SWITCH_PORT_LAST = 28"

definition EthFwVirtPort_isSwitchPort :: "EthRemoteCfg_VirtPort \<Rightarrow> bool" where
  "EthFwVirtPort_isSwitchPort p \<longleftrightarrow> ETHREMOTECFG_SWITCH_PORT_0 \<le> p \<and> p \<le> ETHREMOTECFG_SWITCH_PORT_LAST"

definition EthFwVirtPort_isMacPort :: "EthRemoteCfg_VirtPort \<Rightarrow> bool" where
  "EthFwVirtPort_isMacPort p \<longleftrightarrow> ETHREMOTECFG_MAC_PORT_1 \<le> p \<and> p \<le> ETHREMOTECFG_MAC_PORT_LAST"

definition EthFwVirtPort_getPortNum :: "EthRemoteCfg_VirtPort \<Rightarrow> u32" where
  "EthFwVirtPort_getPortNum p =
     (if EthFwVirtPort_isSwitchPort p then p else (p - ETHREMOTECFG_MAC_PORT_1) + 1)"

definition EthFwVirtPort_getMacPort :: "env \<Rightarrow> EthRemoteCfg_VirtPort \<Rightarrow> u32" where
  "EthFwVirtPort_getMacPort e p =
     (if EthFwVirtPort_isMacPort p then macPortDenorm e (p - ETHREMOTECFG_MAC_PORT_1) else macPortInv e)"

lemmas port_const_defs =
  ETHREMOTECFG_MAC_PORT_1_def ETHREMOTECFG_MAC_PORT_LAST_def
  ETHREMOTECFG_SWITCH_PORT_0_def ETHREMOTECFG_SWITCH_PORT_LAST_def

lemma macPort_bounds:
  "EthFwVirtPort_isMacPort p \<longleftrightarrow> 1 \<le> unat p \<and> unat p \<le> 8"
  by (simp add: EthFwVirtPort_isMacPort_def port_const_defs word_le_nat_alt)

lemma switchPort_bounds:
  "EthFwVirtPort_isSwitchPort p \<longleftrightarrow> 25 \<le> unat p \<and> unat p \<le> 28"
  by (simp add: EthFwVirtPort_isSwitchPort_def port_const_defs word_le_nat_alt)

lemma mac_not_switch: "EthFwVirtPort_isMacPort p \<Longrightarrow> \<not> EthFwVirtPort_isSwitchPort p"
  by (simp add: macPort_bounds switchPort_bounds)

text \<open>The port number of a port is its enumeration value.\<close>

lemma getPortNum_id: "EthFwVirtPort_getPortNum p = p"
  by (simp add: EthFwVirtPort_getPortNum_def ETHREMOTECFG_MAC_PORT_1_def)

end
