(* ===== verification/Vepa.thy ===== *)
theory Vepa
  imports Arp VirtPort
begin

text \<open>
  VEPA packet duplication (\<^verbatim>\<open>ethremotecfg/server/src/ethfw_vepa.c\<close>): the 32-entry table from
  (VLAN, multicast or broadcast MAC address) to the mask of virtual ports that want a copy, the
  private VLAN and MAC address of each virtual port, the registration of a client with the ALE
  (private VLAN, its classifier, the broadcast classifier) and the duplication of a packet to
  every port of the mask.  \<open>EthFwVepa_Obj\<close> is \<^verbatim>\<open>gEthFwVepaObj\<close>.
\<close>

section \<open>State\<close>

definition ETHFW_VEPA_TABLE_SIZE :: nat where
  "ETHFW_VEPA_TABLE_SIZE = 32"

definition ETHFW_VEPA_PRIVATE_VLAN_ID_START :: u32 where
  "ETHFW_VEPA_PRIVATE_VLAN_ID_START = 2000"

definition ETHFW_VEPA_PKT_DUP_FLOW_IDX_UNDEFINED :: u32 where
  "ETHFW_VEPA_PKT_DUP_FLOW_IDX_UNDEFINED = 0xFFFF"

record EthFwVepa_AddrEntry =
  vepaPortMask :: u32
  vepaHwAddr :: eth_addr
  vepaVlanId :: u16
  vepaIsFree :: bool

record EthFwVepa_Obj =
  remoteCoreVepaTable :: "EthFwVepa_AddrEntry list"
  privVlanCfg :: "u16 list"                 \<comment> \<open>one element per virtual port\<close>
  virtPortToMacAddr :: "eth_addr list"      \<comment> \<open>likewise\<close>
  vepaMutex :: bool
  packetDuplicationFlowIdx :: u32

record vepa_st = arp_st +
  gEthFwVepaObj :: EthFwVepa_Obj

abbreviation vepa_used :: "EthFwVepa_AddrEntry \<Rightarrow> bool" where
  "vepa_used x \<equiv> \<not> vepaIsFree x"

abbreviation vepa_key :: "EthFwVepa_AddrEntry \<Rightarrow> u16 \<times> eth_addr" where
  "vepa_key x \<equiv> (vepaVlanId x, vepaHwAddr x)"

section \<open>Table operations\<close>

text \<open>
  The configuration is the array of 32-bit private VLAN ids.  An id that is not zero is stored in a
  16-bit element, which keeps its low half.
\<close>

definition EthFwVepa_initCfg :: "u32 list" where
  "EthFwVepa_initCfg =
     map (\<lambda>i. ETHFW_VEPA_PRIVATE_VLAN_ID_START + of_nat i) [0..<Suc (unat ETHREMOTECFG_SWITCH_PORT_LAST)]"

definition EthFwVepa_init :: "env \<Rightarrow> u32 list \<Rightarrow> 'a vepa_st_scheme \<Rightarrow> int \<times> 'a vepa_st_scheme" where
  "EthFwVepa_init e privVlanId s =
     (let ok = flag_of e (calls s) Osal_createMutex;
          s = issue Osal_createMutex s;
          ob = (gEthFwVepaObj s)\<lparr>vepaMutex := ok\<rparr>
      in if \<not> ok then (ETHFW_EFAIL, s\<lparr>gEthFwVepaObj := ob\<rparr>)
         else (ETHFW_SOK, s\<lparr>gEthFwVepaObj := ob
           \<lparr>remoteCoreVepaTable := map (\<lambda>x. x\<lparr>vepaIsFree := True\<rparr>) (remoteCoreVepaTable ob),
            privVlanCfg := map2 (\<lambda>new old. if new \<noteq> 0 then ucast new else old) privVlanId (privVlanCfg ob),
            packetDuplicationFlowIdx := ETHFW_VEPA_PKT_DUP_FLOW_IDX_UNDEFINED\<rparr>\<rparr>))"

definition EthFwVepa_flushTable :: "EthFwVepa_Obj \<Rightarrow> EthFwVepa_Obj" where
  "EthFwVepa_flushTable ob =
     ob\<lparr>remoteCoreVepaTable := map (\<lambda>_. \<lparr>vepaPortMask = 0, vepaHwAddr = zero_mac, vepaVlanId = 0,
          vepaIsFree = True\<rparr>) (remoteCoreVepaTable ob)\<rparr>"

definition EthFwVepa_deinit :: "'a vepa_st_scheme \<Rightarrow> 'a vepa_st_scheme" where
  "EthFwVepa_deinit s =
     (if vepaMutex (gEthFwVepaObj s)
      then issue Osal_deleteMutex
        (s\<lparr>gEthFwVepaObj := (EthFwVepa_flushTable (gEthFwVepaObj s))\<lparr>vepaMutex := False\<rparr>\<rparr>)
      else s)"

definition EthFwVepa_setPacketDuplicationFlowIdx :: "u32 \<Rightarrow> EthFwVepa_Obj \<Rightarrow> int \<times> EthFwVepa_Obj" where
  "EthFwVepa_setPacketDuplicationFlowIdx flowIdx ob =
     (if packetDuplicationFlowIdx ob = ETHFW_VEPA_PKT_DUP_FLOW_IDX_UNDEFINED
      then (ETHFW_SOK, ob\<lparr>packetDuplicationFlowIdx := flowIdx\<rparr>)
      else (ETHFW_EFAIL, ob))"

definition EthFwVepa_clearPacketDuplicationFlowIdx :: "EthFwVepa_Obj \<Rightarrow> EthFwVepa_Obj" where
  "EthFwVepa_clearPacketDuplicationFlowIdx ob =
     (if packetDuplicationFlowIdx ob \<noteq> ETHFW_VEPA_PKT_DUP_FLOW_IDX_UNDEFINED
      then ob\<lparr>packetDuplicationFlowIdx := ETHFW_VEPA_PKT_DUP_FLOW_IDX_UNDEFINED\<rparr> else ob)"

text \<open>The entry in use for an address on a VLAN (\<^verbatim>\<open>EthFwVepa_getMcastInfo\<close>), by its index.\<close>

definition EthFwVepa_getMcastInfo :: "env \<Rightarrow> eth_addr \<Rightarrow> u16 \<Rightarrow> EthFwVepa_AddrEntry list \<Rightarrow> nat option" where
  "EthFwVepa_getMcastInfo e hw vlan t =
     first_idx (\<lambda>x. \<not> vepaIsFree x \<and> vepaVlanId x = vlan \<and> cmpMacAddr e (vepaHwAddr x) hw) t"

definition EthFwVepa_getVirtPortMask :: "env \<Rightarrow> eth_addr \<Rightarrow> u16 \<Rightarrow> EthFwVepa_Obj \<Rightarrow> int \<times> u32" where
  "EthFwVepa_getVirtPortMask e hw vlan ob =
     (case first_idx (\<lambda>x. \<not> vepaIsFree x \<and> vepaVlanId x = vlan \<and> cmpMacAddr e (vepaHwAddr x) hw)
             (remoteCoreVepaTable ob) of
        Some i \<Rightarrow> (ETHFW_SOK, vepaPortMask (remoteCoreVepaTable ob ! i))
      | None \<Rightarrow> (ETHFW_EFAIL, 0))"

definition EthFwVepa_getPrivateVlanId :: "EthRemoteCfg_VirtPort \<Rightarrow> EthFwVepa_Obj \<Rightarrow> int \<times> u16" where
  "EthFwVepa_getPrivateVlanId virtPort ob =
     (if virtPort \<le> ETHREMOTECFG_SWITCH_PORT_LAST \<and> at_idx 0 (privVlanCfg ob) (unat virtPort) \<noteq> 0
      then (ETHFW_SOK, at_idx 0 (privVlanCfg ob) (unat virtPort)) else (ETHFW_EFAIL, 0))"

definition EthFwVepa_addAddr ::
    "env \<Rightarrow> eth_addr \<Rightarrow> u16 \<Rightarrow> EthRemoteCfg_VirtPort \<Rightarrow> EthFwVepa_Obj \<Rightarrow> int \<times> EthFwVepa_Obj" where
  "EthFwVepa_addAddr e hw vlan virtPort ob =
     (let t = remoteCoreVepaTable ob in
      case first_idx (\<lambda>x. \<not> vepaIsFree x \<and> vepaVlanId x = vlan \<and> cmpMacAddr e (vepaHwAddr x) hw) t of
        Some i \<Rightarrow> (ETHFW_SOK, ob\<lparr>remoteCoreVepaTable :=
            t[i := (t ! i)\<lparr>vepaPortMask := vepaPortMask (t ! i) OR ETHFW_BIT virtPort\<rparr>]\<rparr>)
      | None \<Rightarrow>
          (case first_idx vepaIsFree t of
             Some i \<Rightarrow> (ETHFW_SOK, ob\<lparr>remoteCoreVepaTable :=
                t[i := (t ! i)\<lparr>vepaHwAddr := hw, vepaVlanId := vlan, vepaPortMask := ETHFW_BIT virtPort,
                               vepaIsFree := False\<rparr>]\<rparr>)
           | None \<Rightarrow> (ETHFW_SOK, ob)))"

definition EthFwVepa_delAddr ::
    "env \<Rightarrow> eth_addr \<Rightarrow> u16 \<Rightarrow> EthRemoteCfg_VirtPort \<Rightarrow> EthFwVepa_Obj \<Rightarrow> int \<times> EthFwVepa_Obj" where
  "EthFwVepa_delAddr e hw vlan virtPort ob =
     (let t = remoteCoreVepaTable ob in
      case first_idx (\<lambda>x. \<not> vepaIsFree x \<and> vepaVlanId x = vlan \<and> cmpMacAddr e (vepaHwAddr x) hw) t of
        Some i \<Rightarrow>
          (let x = (t ! i)\<lparr>vepaPortMask := vepaPortMask (t ! i) AND NOT (ETHFW_BIT virtPort)\<rparr>;
               x = (if vepaPortMask x = 0 then x\<lparr>vepaIsFree := True, vepaVlanId := 0, vepaHwAddr := zero_mac\<rparr>
                    else x)
           in (ETHFW_SOK, ob\<lparr>remoteCoreVepaTable := t[i := x]\<rparr>))
      | None \<Rightarrow> (ETHFW_EFAIL, ob))"

definition EthFwVepa_getUseCnt :: "EthFwVepa_Obj \<Rightarrow> nat" where
  "EthFwVepa_getUseCnt ob =
     fold (\<lambda>x cnt. if \<not> vepaIsFree x then Suc cnt else cnt) (remoteCoreVepaTable ob) 0"

text \<open>
  The rows \<^verbatim>\<open>EthFwVepa_printTable\<close> prints: for each port with a private VLAN, a running number, the
  port, the VLAN and the MAC address; then for each entry in use, a number, the mask and the key.
\<close>

definition EthFwVepa_printTable ::
    "EthFwVepa_Obj \<Rightarrow> (nat \<times> nat \<times> u16 \<times> eth_addr) list \<times> (nat \<times> u32 \<times> u16 \<times> eth_addr) list" where
  "EthFwVepa_printTable ob =
     (snd (fold (\<lambda>i (used, rows).
             if at_idx 0 (privVlanCfg ob) i \<noteq> 0
             then (Suc used, rows @ [(Suc used, i, at_idx 0 (privVlanCfg ob) i, at_idx zero_mac (virtPortToMacAddr ob) i)])
             else (used, rows)) [0..<Suc (unat ETHREMOTECFG_SWITCH_PORT_LAST)] (0, [])),
      snd (fold (\<lambda>x (used, rows).
             if \<not> vepaIsFree x
             then (Suc used, rows @ [(Suc used, vepaPortMask x, vepaVlanId x, vepaHwAddr x)])
             else (used, rows)) (remoteCoreVepaTable ob) (0, [])))"

section \<open>Operations on the ALE\<close>

definition EthFwVepa_addMcastPolicer ::
    "env \<Rightarrow> u32 \<Rightarrow> u32 \<Rightarrow> eth_addr \<Rightarrow> part_level \<Rightarrow> 'a vepa_st_scheme \<Rightarrow> int \<times> 'a vepa_st_scheme" where
  "EthFwVepa_addMcastPolicer e coreId vlanId mcastAddr level s =
     (let flow = packetDuplicationFlowIdx (gEthFwVepaObj s) in
      if flow = ETHFW_VEPA_PKT_DUP_FLOW_IDX_UNDEFINED then (ETHFW_EFAIL, s)
      else call_st e (Ioctl coreId (ALE_SET_POLICER_IN_PARTITION (MatchMacDst mcastAddr vlanId) flow level)) s)"

definition EthFwVepa_delMcastPolicer ::
    "env \<Rightarrow> u32 \<Rightarrow> u32 \<Rightarrow> eth_addr \<Rightarrow> del_mask \<Rightarrow> 'a vepa_st_scheme \<Rightarrow> int \<times> 'a vepa_st_scheme" where
  "EthFwVepa_delMcastPolicer e coreId vlanId mcastAddr entryMask s =
     call_st e (Ioctl coreId (ALE_DEL_POLICER (MatchMacDst mcastAddr vlanId) entryMask)) s"

definition EthFwVepa_registerClient ::
    "env \<Rightarrow> u32 \<Rightarrow> u32 \<Rightarrow> EthRemoteCfg_VirtPort \<Rightarrow> eth_addr \<Rightarrow> 'a vepa_st_scheme \<Rightarrow> int \<times> 'a vepa_st_scheme" where
  "EthFwVepa_registerClient e coreId flowIdx virtPort srcAddr s =
     (let ob = gEthFwVepaObj s;
          priv = ucast (at_idx 0 (privVlanCfg ob) (unat virtPort)) :: u32;
          s = chk_idx OobRead (unat virtPort) (length (privVlanCfg ob)) s;
          host = hostPortMask e
      in thenOK (thenOK
           (call_st e (Ioctl coreId (ALE_ADD_VLAN priv host host 0 host host False)) s)
           (call_st e (Ioctl coreId (ALE_SET_POLICER_IN_PARTITION (MatchIvlan priv) flowIdx PartLevel1))))
         (\<lambda>s. let ob = gEthFwVepaObj s;
                  s = chk_idx OobWrite (unat virtPort) (length (virtPortToMacAddr ob)) s;
                  s = s\<lparr>gEthFwVepaObj := ob\<lparr>virtPortToMacAddr := (virtPortToMacAddr ob)[unat virtPort := srcAddr]\<rparr>\<rparr>;
                  s = (case EthFwVepa_getMcastInfo e bcast_mac 0 (remoteCoreVepaTable ob) of
                         None \<Rightarrow> snd (EthFwVepa_addMcastPolicer e coreId 0 bcast_mac PartDefault s)
                       | Some _ \<Rightarrow> s);
                  (status, ob) = EthFwVepa_addAddr e bcast_mac 0 virtPort (gEthFwVepaObj s)
              in (status, s\<lparr>gEthFwVepaObj := ob\<rparr>)))"

definition EthFwVepa_unregisterClient ::
    "env \<Rightarrow> u32 \<Rightarrow> EthRemoteCfg_VirtPort \<Rightarrow> 'a vepa_st_scheme \<Rightarrow> int \<times> 'a vepa_st_scheme" where
  "EthFwVepa_unregisterClient e coreId virtPort s =
     (let ob = gEthFwVepaObj s;
          priv = ucast (at_idx 0 (privVlanCfg ob) (unat virtPort)) :: u32;
          s = chk_idx OobRead (unat virtPort) (length (privVlanCfg ob)) s
      in thenOK (call_st e (Ioctl coreId (ALE_DEL_POLICER (MatchIvlan priv) DelIvlan)) s)
         (\<lambda>s. let ob = gEthFwVepaObj s;
                  s = chk_idx OobWrite (unat virtPort) (length (virtPortToMacAddr ob)) s;
                  ob = ob\<lparr>virtPortToMacAddr := (virtPortToMacAddr ob)[unat virtPort := zero_mac]\<rparr>;
                  (status, ob) = EthFwVepa_delAddr e bcast_mac 0 virtPort ob;
                  s = s\<lparr>gEthFwVepaObj := ob\<rparr>
              in case EthFwVepa_getMcastInfo e bcast_mac 0 (remoteCoreVepaTable ob) of
                   None \<Rightarrow> EthFwVepa_delMcastPolicer e coreId 0 bcast_mac DelNone s
                 | Some _ \<Rightarrow> (status, s)))"

section \<open>Packet duplication\<close>

text \<open>
  The packet is the octets of \<^verbatim>\<open>pbuf->payload\<close> (one contiguous buffer of \<^verbatim>\<open>tot_len\<close> octets).  The
  copy gets a second VLAN tag with the target port's private VLAN in front of the original type.
\<close>

definition dup_frame :: "eth_addr \<Rightarrow> eth_addr \<Rightarrow> u16 \<Rightarrow> u8 list \<Rightarrow> u8 list" where
  "dup_frame src dst priv pkt =
     octets dst @ octets src @ be16 ETHTYPE_VLAN @ be16 priv @ take 2 (drop 12 pkt) @ drop 14 pkt"

text \<open>
  The buffer is asked for with a 16-bit length.  A packet that does not fit with its second tag, or is
  shorter than an Ethernet header, is copied past the end of it.
\<close>

definition dup_chk :: "u8 list \<Rightarrow> 'a world_scheme \<Rightarrow> 'a world_scheme" where
  "dup_chk pkt s = (if 14 \<le> length pkt \<and> length pkt + 4 < 2 ^ 16 then s else fault OobWrite s)"

definition pkt_vlan :: "u8 list \<Rightarrow> u16" where
  "pkt_vlan pkt = (if rd16_at pkt 12 = ETHTYPE_VLAN then rd16_at pkt 14 AND 0xFFF else 0)"

text \<open>One pass of the loop over the virtual ports; the status is the last port's.\<close>

definition vepa_send_port ::
    "env \<Rightarrow> u32 \<Rightarrow> eth_addr \<Rightarrow> eth_addr \<Rightarrow> u8 list \<Rightarrow> nat \<Rightarrow> int \<times> 'a vepa_st_scheme \<Rightarrow> int \<times> 'a vepa_st_scheme" where
  "vepa_send_port e portMask src dst pkt i r =
     (let (status, s) = r; ob = gEthFwVepaObj s in
      if ETHFW_IS_BIT_SET portMask (of_nat i) \<and> \<not> cmpMacAddr e src (at_idx zero_mac (virtPortToMacAddr ob) i)
      then (case EthFwVepa_getPrivateVlanId (of_nat i) ob of
              (status, priv) \<Rightarrow>
                if status = ETHFW_SOK then (status, issue (Netif_linkoutput (dup_frame src dst priv pkt)) (dup_chk pkt s))
                else (status, s))
      else (status, s))"

definition EthFwVepa_sendRaw ::
    "env \<Rightarrow> u8 list \<Rightarrow> eth_addr \<Rightarrow> eth_addr \<Rightarrow> 'a vepa_st_scheme \<Rightarrow> int \<times> 'a vepa_st_scheme" where
  "EthFwVepa_sendRaw e pkt src dst s =
     (let (status, portMask) = EthFwVepa_getVirtPortMask e (rd_mac pkt) (pkt_vlan pkt) (gEthFwVepaObj s) in
      if status \<noteq> ETHFW_SOK then (status, s)
      else
        (let alloc = Pbuf_alloc ((length pkt + 4) mod 2 ^ 16);
             ok = flag_of e (calls s) alloc;
             s = issue alloc s
         in if \<not> ok then (ETHFW_EFAIL, s)
            else fold (vepa_send_port e portMask src dst pkt) [0..<Suc (unat ETHREMOTECFG_SWITCH_PORT_LAST)]
                   (ETHFW_SOK, s)))"

section \<open>The table is a bounded map from keys to port masks\<close>

definition vepa_inv :: "EthFwVepa_Obj \<Rightarrow> bool" where
  "vepa_inv ob \<longleftrightarrow> length (remoteCoreVepaTable ob) = ETHFW_VEPA_TABLE_SIZE \<and>
     slot_inv vepa_used vepa_key (remoteCoreVepaTable ob)"

definition vepa_map :: "EthFwVepa_Obj \<Rightarrow> u16 \<times> eth_addr \<rightharpoonup> u32" where
  "vepa_map ob = slot_map vepa_used vepa_key vepaPortMask (remoteCoreVepaTable ob)"

definition add_port :: "u32 option \<Rightarrow> EthRemoteCfg_VirtPort \<Rightarrow> u32" where
  "add_port m p = (case m of None \<Rightarrow> ETHFW_BIT p | Some v \<Rightarrow> v OR ETHFW_BIT p)"

definition drop_port :: "u32 \<Rightarrow> EthRemoteCfg_VirtPort \<Rightarrow> u32 option" where
  "drop_port v p = (if v AND NOT (ETHFW_BIT p) = 0 then None else Some (v AND NOT (ETHFW_BIT p)))"

lemma vepa_search:
  "lib_spec e \<Longrightarrow>
   first_idx (\<lambda>x. \<not> vepaIsFree x \<and> vepaVlanId x = vlan \<and> cmpMacAddr e (vepaHwAddr x) hw) t
     = slot_find vepa_used vepa_key (vlan, hw) t"
  unfolding slot_find_def by (rule first_idx_cong) auto

lemma vepa_getUseCnt_slot: "EthFwVepa_getUseCnt ob = slot_cnt vepa_used (remoteCoreVepaTable ob)"
proof -
  have "fold (\<lambda>x cnt. if \<not> vepaIsFree x then Suc cnt else cnt) t n = n + slot_cnt vepa_used t" for t n
    by (induction t arbitrary: n) (simp_all add: slot_cnt_def)
  then show ?thesis by (simp add: EthFwVepa_getUseCnt_def)
qed

lemma vepa_addAddr_cases:
  assumes "lib_spec e"
  obtains
    (update) i where "slot_find vepa_used vepa_key (vlan, hw) (remoteCoreVepaTable ob) = Some i"
      "EthFwVepa_addAddr e hw vlan p ob = (ETHFW_SOK, ob\<lparr>remoteCoreVepaTable :=
         (remoteCoreVepaTable ob)[i := (remoteCoreVepaTable ob ! i)
           \<lparr>vepaPortMask := vepaPortMask (remoteCoreVepaTable ob ! i) OR ETHFW_BIT p\<rparr>]\<rparr>)"
  | (fill) i where "slot_find vepa_used vepa_key (vlan, hw) (remoteCoreVepaTable ob) = None"
      "i < length (remoteCoreVepaTable ob)" "vepaIsFree (remoteCoreVepaTable ob ! i)"
      "EthFwVepa_addAddr e hw vlan p ob = (ETHFW_SOK, ob\<lparr>remoteCoreVepaTable :=
         (remoteCoreVepaTable ob)[i := (remoteCoreVepaTable ob ! i)\<lparr>vepaHwAddr := hw, vepaVlanId := vlan,
            vepaPortMask := ETHFW_BIT p, vepaIsFree := False\<rparr>]\<rparr>)"
  | (full) "slot_find vepa_used vepa_key (vlan, hw) (remoteCoreVepaTable ob) = None"
      "slot_cnt vepa_used (remoteCoreVepaTable ob) = length (remoteCoreVepaTable ob)"
      "EthFwVepa_addAddr e hw vlan p ob = (ETHFW_SOK, ob)"
proof -
  let ?t = "remoteCoreVepaTable ob"
  show thesis
  proof (cases "slot_find vepa_used vepa_key (vlan, hw) ?t")
    case (Some i)
    then show thesis
      using update by (simp add: EthFwVepa_addAddr_def Let_def vepa_search [OF assms])
  next
    case None
    note absent = this
    show thesis
    proof (cases "first_idx vepaIsFree ?t")
      case None
      then have "slot_cnt vepa_used ?t = length ?t"
        using slot_no_free [of vepa_used ?t] by simp
      with None absent show thesis
        using full by (simp add: EthFwVepa_addAddr_def Let_def vepa_search [OF assms])
    next
      case (Some i)
      with absent show thesis
        using fill [of i] first_idx_SomeD [OF Some]
        by (simp add: EthFwVepa_addAddr_def Let_def vepa_search [OF assms])
    qed
  qed
qed

lemma vepa_addAddr_status [simp]: "fst (EthFwVepa_addAddr e hw vlan p ob) = ETHFW_SOK"
  by (simp add: EthFwVepa_addAddr_def Let_def split: option.split)

lemma vepa_addAddr_inv:
  assumes "lib_spec e" "vepa_inv ob"
  shows "vepa_inv (snd (EthFwVepa_addAddr e hw vlan p ob))"
proof -
  have inv: "slot_inv vepa_used vepa_key (remoteCoreVepaTable ob)"
    using assms(2) by (simp add: vepa_inv_def)
  from assms(1) show ?thesis
  proof (cases rule: vepa_addAddr_cases [where ob = ob and vlan = vlan and hw = hw and p = p])
    case (update i)
    note d = slot_findD [OF update(1)]
    from slot_inv_update [OF inv d(1,2), of "(remoteCoreVepaTable ob ! i)
        \<lparr>vepaPortMask := vepaPortMask (remoteCoreVepaTable ob ! i) OR ETHFW_BIT p\<rparr>"] d(2)
    show ?thesis using update(2) assms(2) by (simp add: vepa_inv_def)
  next
    case (fill i)
    have "slot_map vepa_used vepa_key vepaPortMask (remoteCoreVepaTable ob) (vlan, hw) = None"
      by (rule slot_find_map(2) [THEN iffD1, OF fill(1)])
    with slot_inv_fill [OF inv fill(2), where val = vepaPortMask] fill(3)
    show ?thesis using fill(4) assms(2) by (simp add: vepa_inv_def)
  next
    case full
    then show ?thesis using assms(2) by simp
  qed
qed

lemma vepa_addAddr_map:
  assumes "lib_spec e" "vepa_inv ob"
  shows "vepa_map (snd (EthFwVepa_addAddr e hw vlan p ob)) =
     (if vepa_map ob (vlan, hw) \<noteq> None \<or> EthFwVepa_getUseCnt ob < ETHFW_VEPA_TABLE_SIZE
      then (vepa_map ob)((vlan, hw) \<mapsto> add_port (vepa_map ob (vlan, hw)) p) else vepa_map ob)"
proof -
  have inv: "slot_inv vepa_used vepa_key (remoteCoreVepaTable ob)"
    and len: "length (remoteCoreVepaTable ob) = ETHFW_VEPA_TABLE_SIZE"
    using assms(2) by (simp_all add: vepa_inv_def)
  from assms(1) show ?thesis
  proof (cases rule: vepa_addAddr_cases [where ob = ob and vlan = vlan and hw = hw and p = p])
    case (update i)
    note d = slot_findD [OF update(1)]
    have "vepa_map ob (vlan, hw) = Some (vepaPortMask (remoteCoreVepaTable ob ! i))"
      unfolding vepa_map_def by (rule slot_find_map(1) [OF update(1)])
    moreover from slot_map_update [OF inv d(1,2), where val = vepaPortMask and x = "(remoteCoreVepaTable ob ! i)
        \<lparr>vepaPortMask := vepaPortMask (remoteCoreVepaTable ob ! i) OR ETHFW_BIT p\<rparr>"] d(2,3)
    have "vepa_map (snd (EthFwVepa_addAddr e hw vlan p ob))
        = (vepa_map ob)((vlan, hw) \<mapsto> vepaPortMask (remoteCoreVepaTable ob ! i) OR ETHFW_BIT p)"
      by (simp add: update(2) vepa_map_def)
    ultimately show ?thesis by (simp add: add_port_def)
  next
    case (fill i)
    have none: "slot_map vepa_used vepa_key vepaPortMask (remoteCoreVepaTable ob) (vlan, hw) = None"
      by (rule slot_find_map(2) [THEN iffD1, OF fill(1)])
    have "slot_cnt vepa_used (remoteCoreVepaTable ob) \<noteq> length (remoteCoreVepaTable ob)"
      using fill(2,3) slot_no_free [of vepa_used "remoteCoreVepaTable ob"] by (auto simp: first_idx_None)
    then have lt: "EthFwVepa_getUseCnt ob < ETHFW_VEPA_TABLE_SIZE"
      using slot_cnt_le [of vepa_used "remoteCoreVepaTable ob"] by (simp add: vepa_getUseCnt_slot len)
    from slot_map_fill [OF inv fill(2), where val = vepaPortMask and x = "(remoteCoreVepaTable ob ! i)
        \<lparr>vepaHwAddr := hw, vepaVlanId := vlan, vepaPortMask := ETHFW_BIT p, vepaIsFree := False\<rparr>"] fill(3) none
    have "vepa_map (snd (EthFwVepa_addAddr e hw vlan p ob)) = (vepa_map ob)((vlan, hw) \<mapsto> ETHFW_BIT p)"
      by (simp add: fill(4) vepa_map_def)
    with lt none show ?thesis by (simp add: add_port_def vepa_map_def)
  next
    case full
    have "vepa_map ob (vlan, hw) = None"
      unfolding vepa_map_def by (rule slot_find_map(2) [THEN iffD1, OF full(1)])
    with full(2,3) show ?thesis by (simp add: vepa_getUseCnt_slot len)
  qed
qed

lemma vepa_delAddr:
  assumes "lib_spec e" "vepa_inv ob"
  shows "vepa_inv (snd (EthFwVepa_delAddr e hw vlan p ob)) \<and>
    fst (EthFwVepa_delAddr e hw vlan p ob) = (if vepa_map ob (vlan, hw) = None then ETHFW_EFAIL else ETHFW_SOK) \<and>
    vepa_map (snd (EthFwVepa_delAddr e hw vlan p ob)) =
      (vepa_map ob)((vlan, hw) := Option.bind (vepa_map ob (vlan, hw)) (\<lambda>v. drop_port v p))"
proof (cases "slot_find vepa_used vepa_key (vlan, hw) (remoteCoreVepaTable ob)")
  case None
  moreover have "vepa_map ob (vlan, hw) = None"
    unfolding vepa_map_def by (rule slot_find_map(2) [THEN iffD1, OF None])
  ultimately show ?thesis using assms(2)
    by (auto simp: EthFwVepa_delAddr_def Let_def vepa_search [OF assms(1)])
next
  case (Some i)
  let ?t = "remoteCoreVepaTable ob"
  let ?m = "vepaPortMask (?t ! i) AND NOT (ETHFW_BIT p)"
  have inv: "slot_inv vepa_used vepa_key ?t" using assms(2) by (simp add: vepa_inv_def)
  note d = slot_findD [OF Some]
  have val: "vepa_map ob (vlan, hw) = Some (vepaPortMask (?t ! i))"
    unfolding vepa_map_def by (rule slot_find_map(1) [OF Some])
  show ?thesis
  proof (cases "?m = 0")
    case True
    from slot_map_free [OF inv d(1,2), where val = vepaPortMask and x = "(?t ! i)\<lparr>vepaPortMask := 0,
        vepaIsFree := True, vepaVlanId := 0, vepaHwAddr := zero_mac\<rparr>"]
      slot_inv_free [OF inv, of "(?t ! i)\<lparr>vepaPortMask := 0,
        vepaIsFree := True, vepaVlanId := 0, vepaHwAddr := zero_mac\<rparr>" i] d(3) True val assms(2) Some
    show ?thesis
      by (simp add: EthFwVepa_delAddr_def Let_def vepa_search [OF assms(1)] vepa_map_def vepa_inv_def drop_port_def)
  next
    case False
    from slot_map_update [OF inv d(1,2), where val = vepaPortMask and x = "(?t ! i)\<lparr>vepaPortMask := ?m\<rparr>"]
      slot_inv_update [OF inv d(1,2), of "(?t ! i)\<lparr>vepaPortMask := ?m\<rparr>"] d False val assms(2) Some
    show ?thesis
      by (simp add: EthFwVepa_delAddr_def Let_def vepa_search [OF assms(1)] vepa_map_def vepa_inv_def drop_port_def)
  qed
qed

text \<open>Well-formed: keys are unique and no entry in use has an empty mask.\<close>

definition vepa_wf :: "EthFwVepa_Obj \<Rightarrow> bool" where
  "vepa_wf ob \<longleftrightarrow> vepa_inv ob \<and> (\<forall>k. vepa_map ob k \<noteq> Some 0)"

definition vepa_put :: "env \<Rightarrow> u16 \<times> eth_addr \<Rightarrow> EthRemoteCfg_VirtPort \<Rightarrow> EthFwVepa_Obj \<Rightarrow> EthFwVepa_Obj" where
  "vepa_put e k p ob = snd (EthFwVepa_addAddr e (snd k) (fst k) p ob)"

definition vepa_del :: "env \<Rightarrow> u16 \<times> eth_addr \<Rightarrow> EthRemoteCfg_VirtPort \<Rightarrow> EthFwVepa_Obj \<Rightarrow> EthFwVepa_Obj" where
  "vepa_del e k p ob = snd (EthFwVepa_delAddr e (snd k) (fst k) p ob)"

definition port_ok :: "u16 \<times> eth_addr \<Rightarrow> EthRemoteCfg_VirtPort \<Rightarrow> bool" where
  "port_ok k p \<longleftrightarrow> unat p < 32"

lemma add_port_nonzero: "unat p < 32 \<Longrightarrow> add_port m p \<noteq> 0"
  using BIT_neq_0 [of p] by (auto simp: add_port_def or_eq_0_iff split: option.split)

lemma drop_port_nonzero: "drop_port v p \<noteq> Some 0"
  by (simp add: drop_port_def)

interpretation vepa_table: bounded_map "\<lambda>ob. lib_spec e \<and> vepa_wf ob" vepa_map "vepa_put e" "vepa_del e"
  EthFwVepa_getUseCnt ETHFW_VEPA_TABLE_SIZE port_ok add_port drop_port for e
proof (unfold_locales, goal_cases)
  case (1 ob k p) then show ?case
    by (auto simp: vepa_wf_def vepa_put_def vepa_addAddr_inv vepa_addAddr_map port_ok_def add_port_nonzero)
next
  case (2 ob k p) then show ?case
    by (auto simp: vepa_wf_def vepa_del_def vepa_delAddr drop_port_nonzero split: bind_splits)
next
  case (3 ob k p) then show ?case by (simp add: vepa_wf_def vepa_put_def vepa_addAddr_map)
next
  case (4 ob k p) then show ?case by (simp add: vepa_wf_def vepa_put_def vepa_addAddr_map)
next
  case (5 ob k p) then show ?case by (simp add: vepa_wf_def vepa_del_def vepa_delAddr)
next
  case (6 ob) then show ?case
    by (simp add: vepa_wf_def vepa_getUseCnt_slot vepa_map_def vepa_inv_def slot_card_dom)
next
  case (7 ob) then show ?case
    by (metis vepa_wf_def vepa_getUseCnt_slot vepa_inv_def slot_cnt_le)
qed

definition vepa_run :: "env \<Rightarrow> (u16 \<times> eth_addr, EthRemoteCfg_VirtPort) map_op list \<Rightarrow> EthFwVepa_Obj \<Rightarrow> EthFwVepa_Obj" where
  "vepa_run e ops ob = fold (map_step (vepa_put e) (vepa_del e)) ops ob"

lemma vepa_init_wf:
  assumes "length (remoteCoreVepaTable (gEthFwVepaObj s)) = ETHFW_VEPA_TABLE_SIZE"
    and "flag_of e (calls s) Osal_createMutex"
  shows "fst (EthFwVepa_init e cfg s) = ETHFW_SOK" "vepa_wf (gEthFwVepaObj (snd (EthFwVepa_init e cfg s)))"
    and "vepa_map (gEthFwVepaObj (snd (EthFwVepa_init e cfg s))) = Map.empty"
proof -
  let ?t = "map (\<lambda>x. x\<lparr>vepaIsFree := True\<rparr>) (remoteCoreVepaTable (gEthFwVepaObj s))"
  have free: "\<forall>x\<in>set ?t. \<not> vepa_used x" by simp
  show st: "fst (EthFwVepa_init e cfg s) = ETHFW_SOK"
    using assms by (simp add: EthFwVepa_init_def Let_def)
  have t: "remoteCoreVepaTable (gEthFwVepaObj (snd (EthFwVepa_init e cfg s))) = ?t"
    using assms by (simp add: EthFwVepa_init_def Let_def issue_def)
  show empty: "vepa_map (gEthFwVepaObj (snd (EthFwVepa_init e cfg s))) = Map.empty"
    by (simp only: vepa_map_def t slot_all_free(2) [OF free])
  show "vepa_wf (gEthFwVepaObj (snd (EthFwVepa_init e cfg s)))"
    unfolding vepa_wf_def empty vepa_inv_def t using assms slot_all_free(1) [OF free] by simp
qed

text \<open>The ports that want a copy of a packet.\<close>

definition vepa_wants :: "EthFwVepa_Obj \<Rightarrow> u16 \<times> eth_addr \<Rightarrow> EthRemoteCfg_VirtPort \<Rightarrow> bool" where
  "vepa_wants ob k p = (case vepa_map ob k of None \<Rightarrow> False | Some v \<Rightarrow> ETHFW_IS_BIT_SET v p)"

lemma wants_add:
  assumes "lib_spec e" "vepa_wf ob" "unat p < 32"
  shows "vepa_wants (snd (EthFwVepa_addAddr e hw vlan p ob)) k q \<longleftrightarrow>
    vepa_wants ob k q \<or> (k = (vlan, hw) \<and> q = p \<and>
      (vepa_map ob (vlan, hw) \<noteq> None \<or> EthFwVepa_getUseCnt ob < ETHFW_VEPA_TABLE_SIZE))"
  using assms vepa_addAddr_map [of e ob hw vlan p] IS_BIT_SET_or_BIT [of p 0]
  by (auto simp: vepa_wants_def vepa_wf_def add_port_def IS_BIT_SET_or_BIT split: option.splits)

lemma wants_del:
  assumes "lib_spec e" "vepa_wf ob"
  shows "vepa_wants (snd (EthFwVepa_delAddr e hw vlan p ob)) k q \<longleftrightarrow>
    vepa_wants ob k q \<and> \<not> (k = (vlan, hw) \<and> q = p)"
proof -
  have drop: "(case drop_port v p of None \<Rightarrow> False | Some v \<Rightarrow> ETHFW_IS_BIT_SET v q)
      \<longleftrightarrow> ETHFW_IS_BIT_SET v q \<and> q \<noteq> p" for v
    using IS_BIT_SET_clear [of v p q] by (auto simp: drop_port_def)
  show ?thesis
    using assms vepa_delAddr [of e ob hw vlan p]
    by (cases "k = (vlan, hw)"; cases "vepa_map ob k") (simp_all add: vepa_wants_def vepa_wf_def drop)
qed

lemma wants_iff_present:
  assumes "vepa_wf ob"
  shows "vepa_map ob k \<noteq> None \<longleftrightarrow> (\<exists>q. vepa_wants ob k q)"
proof
  assume "vepa_map ob k \<noteq> None"
  then obtain v where v: "vepa_map ob k = Some v" "v \<noteq> 0"
    using assms unfolding vepa_wf_def by (metis option.exhaust)
  then obtain i where "bit v i" using word_eq_0_bits by blast
  then have "ETHFW_IS_BIT_SET v (of_nat i)"
    using bit_imp_le_length [of v i] by (simp add: IS_BIT_SET_bit)
  with v show "\<exists>q. vepa_wants ob k q" by (auto simp: vepa_wants_def)
qed (auto simp: vepa_wants_def split: option.splits)

lemma absent_iff: "vepa_wf ob \<Longrightarrow> vepa_map ob k = None \<longleftrightarrow> (\<forall>q. \<not> vepa_wants ob k q)"
  using wants_iff_present by blast

text \<open>Property C33 (refinement).  After \<^verbatim>\<open>EthFwVepa_init\<close> the VEPA table behaves as a map of capacity 32
  from (VLAN, MAC address) to a non-empty mask of virtual ports: adding a port sets its bit in the
  key's mask, deleting a port clears it and removes a key whose mask becomes empty, and a new key
  that finds the table full is dropped.  \<^verbatim>\<open>EthFwVepa_getUseCnt\<close> is the size of the map.\<close>

theorem vepa_run_refines:
  assumes "lib_spec e" "length (remoteCoreVepaTable (gEthFwVepaObj s)) = ETHFW_VEPA_TABLE_SIZE"
    and "flag_of e (calls s) Osal_createMutex" and "\<forall>a\<in>set ops. op_ok port_ok a"
  shows "let ob = vepa_run e ops (gEthFwVepaObj (snd (EthFwVepa_init e cfg s)));
             m = fold (abs_op ETHFW_VEPA_TABLE_SIZE add_port drop_port) ops Map.empty
         in vepa_map ob = m \<and> (\<forall>k. m k \<noteq> Some 0) \<and>
            EthFwVepa_getUseCnt ob = card (dom m) \<and> card (dom m) \<le> ETHFW_VEPA_TABLE_SIZE"
proof -
  let ?ob = "gEthFwVepaObj (snd (EthFwVepa_init e cfg s))"
  have inv: "lib_spec e \<and> vepa_wf ?ob" and empty: "vepa_map ?ob = Map.empty"
    using assms(1) vepa_init_wf [OF assms(2,3)] by simp_all
  note r = vepa_table.run_inv [OF inv assms(4)] vepa_table.run_abs [OF inv assms(4)]
    vepa_table.run_cnt [OF inv assms(4)]
  have "\<forall>k. vepa_map (vepa_run e ops ?ob) k \<noteq> Some 0"
    using r(1) by (simp add: vepa_run_def vepa_wf_def)
  with r(2-4) show ?thesis
    by (simp add: vepa_run_def empty Let_def)
qed

definition vepa_demo :: vepa_st where
  "vepa_demo = \<lparr>calls = [], faults = [], gEthFwArpObj = gEthFwArpObj arp_demo, gEthFwVepaObj =
     \<lparr>remoteCoreVepaTable = replicate 32 \<lparr>vepaPortMask = 0, vepaHwAddr = zero_mac, vepaVlanId = 0, vepaIsFree = False\<rparr>,
      privVlanCfg = replicate 29 0, virtPortToMacAddr = replicate 29 zero_mac, vepaMutex = False,
      packetDuplicationFlowIdx = 0\<rparr>\<rparr>"

theorem vepa_run_refines_witness:
  "vepa_map (vepa_run ok_env [Put (0, bcast_mac) 1, Put (0, bcast_mac) 3, Del (0, bcast_mac) 1]
      (gEthFwVepaObj (snd (EthFwVepa_init ok_env EthFwVepa_initCfg vepa_demo)))) = [(0, bcast_mac) \<mapsto> 8]"
proof -
  have "length (remoteCoreVepaTable (gEthFwVepaObj vepa_demo)) = ETHFW_VEPA_TABLE_SIZE"
    and "flag_of ok_env (calls vepa_demo) Osal_createMutex"
    by (simp_all add: vepa_demo_def ETHFW_VEPA_TABLE_SIZE_def ok_env_def)
  moreover have "\<forall>a\<in>set [Put (0, bcast_mac) 1, Put (0, bcast_mac) 3, Del (0, bcast_mac) 1]. op_ok port_ok a"
    by (simp add: port_ok_def)
  ultimately show ?thesis
    using vepa_run_refines [of ok_env vepa_demo "[Put (0, bcast_mac) 1, Put (0, bcast_mac) 3, Del (0, bcast_mac) 1]" EthFwVepa_initCfg]
    by (simp add: Let_def ETHFW_VEPA_TABLE_SIZE_def add_port_def drop_port_def ETHFW_BIT_def fun_eq_iff)
qed

text \<open>Which ports want a copy of which packets: adding a port always answers
  OK, also when the table is full and the port is not recorded; deleting is OK exactly when some
  port wants the key; both change nothing but the named port and key; a flush leaves nobody.\<close>

theorem vepa_wants_ops:
  assumes "lib_spec e" "vepa_wf ob" "unat p < 32"
  shows "fst (EthFwVepa_addAddr e hw vlan p ob) = ETHFW_SOK
    \<and> (vepa_wants (snd (EthFwVepa_addAddr e hw vlan p ob)) k q \<longleftrightarrow> vepa_wants ob k q \<or>
        (k = (vlan, hw) \<and> q = p \<and> ((\<exists>r. vepa_wants ob (vlan, hw) r) \<or> EthFwVepa_getUseCnt ob \<noteq> ETHFW_VEPA_TABLE_SIZE)))
    \<and> fst (EthFwVepa_delAddr e hw vlan p ob) =
        (if \<exists>r. vepa_wants ob (vlan, hw) r then ETHFW_SOK else ETHFW_EFAIL)
    \<and> (vepa_wants (snd (EthFwVepa_delAddr e hw vlan p ob)) k q \<longleftrightarrow>
        vepa_wants ob k q \<and> \<not> (k = (vlan, hw) \<and> q = p))
    \<and> \<not> vepa_wants (EthFwVepa_flushTable ob) k q \<and> EthFwVepa_getUseCnt (EthFwVepa_flushTable ob) = 0"
proof -
  have "EthFwVepa_getUseCnt ob \<le> ETHFW_VEPA_TABLE_SIZE"
    using vepa_table.cnt_le [of e ob] assms by simp
  moreover have "fst (EthFwVepa_delAddr e hw vlan p ob) =
      (if \<exists>r. vepa_wants ob (vlan, hw) r then ETHFW_SOK else ETHFW_EFAIL)"
    using assms(1,2) by (simp add: vepa_delAddr vepa_wf_def flip: absent_iff [OF assms(2)])
  moreover have "vepa_map (EthFwVepa_flushTable ob) = Map.empty"
    and "EthFwVepa_getUseCnt (EthFwVepa_flushTable ob) = 0"
    unfolding vepa_map_def vepa_getUseCnt_slot EthFwVepa_flushTable_def
    by (simp_all add: slot_map_None slot_cnt_def fun_eq_iff)
  ultimately show ?thesis
    using wants_add [OF assms] wants_del [OF assms(1,2)] wants_iff_present [OF assms(2), of "(vlan, hw)"]
    by (auto simp: vepa_wants_def)
qed

theorem vepa_wants_ops_witness:
  "let ob = gEthFwVepaObj (snd (EthFwVepa_init ok_env EthFwVepa_initCfg vepa_demo))
   in fst (EthFwVepa_addAddr ok_env bcast_mac 0 3 ob) = ETHFW_SOK \<and>
      \<not> vepa_wants (EthFwVepa_flushTable ob) (0, bcast_mac) 3"
proof -
  have "length (remoteCoreVepaTable (gEthFwVepaObj vepa_demo)) = ETHFW_VEPA_TABLE_SIZE"
    and "flag_of ok_env (calls vepa_demo) Osal_createMutex"
    by (simp_all add: vepa_demo_def ETHFW_VEPA_TABLE_SIZE_def ok_env_def)
  note wf = vepa_init_wf(2) [OF this, of EthFwVepa_initCfg]
  show ?thesis
    using vepa_wants_ops [OF lib_spec_ok_env wf, of 3 bcast_mac 0 "(0, bcast_mac)" 3] by (simp add: Let_def)
qed

section \<open>Clients and the broadcast classifier\<close>

text \<open>Whether the broadcast classifier is installed after a sequence of calls.\<close>

fun bcast_step :: "call \<Rightarrow> bool \<Rightarrow> bool" where
  "bcast_step (Ioctl _ (ALE_SET_POLICER_IN_PARTITION (MatchMacDst a v) _ _)) b = (b \<or> (a = bcast_mac \<and> v = 0))"
| "bcast_step (Ioctl _ (ALE_DEL_POLICER (MatchMacDst a v) _)) b = (b \<and> \<not> (a = bcast_mac \<and> v = 0))"
| "bcast_step _ b = b"

definition bcast_installed :: "call list \<Rightarrow> bool" where
  "bcast_installed cs = fold bcast_step cs False"

datatype vepa_event =
    Register u32 u32 EthRemoteCfg_VirtPort eth_addr    \<comment> \<open>core, flow, port, MAC address\<close>
  | Unregister u32 EthRemoteCfg_VirtPort

fun vepa_do :: "env \<Rightarrow> vepa_event \<Rightarrow> 'a vepa_st_scheme \<Rightarrow> 'a vepa_st_scheme" where
  "vepa_do e (Register core flow port mac) s = snd (EthFwVepa_registerClient e core flow port mac s)"
| "vepa_do e (Unregister core port) s = snd (EthFwVepa_unregisterClient e core port s)"

fun event_port :: "vepa_event \<Rightarrow> EthRemoteCfg_VirtPort" where
  "event_port (Register core flow port mac) = port"
| "event_port (Unregister core port) = port"

text \<open>The clients that are registered: the set each event updates.\<close>

fun reg_step :: "vepa_event \<Rightarrow> EthRemoteCfg_VirtPort set \<Rightarrow> EthRemoteCfg_VirtPort set" where
  "reg_step (Register core flow port mac) R = insert port R"
| "reg_step (Unregister core port) R = R - {port}"

definition vepa_ready :: "'a vepa_st_scheme \<Rightarrow> bool" where
  "vepa_ready s \<longleftrightarrow> vepa_wf (gEthFwVepaObj s)
     \<and> length (privVlanCfg (gEthFwVepaObj s)) = 29 \<and> length (virtPortToMacAddr (gEthFwVepaObj s)) = 29
     \<and> packetDuplicationFlowIdx (gEthFwVepaObj s) \<noteq> ETHFW_VEPA_PKT_DUP_FLOW_IDX_UNDEFINED"

definition bcast_acc :: "EthRemoteCfg_VirtPort set \<Rightarrow> 'a vepa_st_scheme \<Rightarrow> bool" where
  "bcast_acc R s \<longleftrightarrow> vepa_ready s
     \<and> (\<forall>k. k \<noteq> (0, bcast_mac) \<longrightarrow> vepa_map (gEthFwVepaObj s) k = None)
     \<and> (\<forall>q. vepa_wants (gEthFwVepaObj s) (0, bcast_mac) q \<longleftrightarrow> q \<in> R)
     \<and> (bcast_installed (calls s) \<longleftrightarrow> R \<noteq> {})"

lemma vepa_map_frame [simp]:
  "vepa_map (ob\<lparr>virtPortToMacAddr := x\<rparr>) = vepa_map ob"
  "vepa_inv (ob\<lparr>virtPortToMacAddr := x\<rparr>) = vepa_inv ob"
  "vepa_wf (ob\<lparr>virtPortToMacAddr := x\<rparr>) = vepa_wf ob"
  "vepa_wants (ob\<lparr>virtPortToMacAddr := x\<rparr>) = vepa_wants ob"
  "EthFwVepa_getUseCnt (ob\<lparr>virtPortToMacAddr := x\<rparr>) = EthFwVepa_getUseCnt ob"
  by (simp_all add: vepa_map_def vepa_inv_def vepa_wf_def vepa_wants_def [abs_def] EthFwVepa_getUseCnt_def)

lemma addAddr_frame [simp]:
  "privVlanCfg (snd (EthFwVepa_addAddr e hw vlan p ob)) = privVlanCfg ob"
  "virtPortToMacAddr (snd (EthFwVepa_addAddr e hw vlan p ob)) = virtPortToMacAddr ob"
  "packetDuplicationFlowIdx (snd (EthFwVepa_addAddr e hw vlan p ob)) = packetDuplicationFlowIdx ob"
  "privVlanCfg (snd (EthFwVepa_delAddr e hw vlan p ob)) = privVlanCfg ob"
  "virtPortToMacAddr (snd (EthFwVepa_delAddr e hw vlan p ob)) = virtPortToMacAddr ob"
  "packetDuplicationFlowIdx (snd (EthFwVepa_delAddr e hw vlan p ob)) = packetDuplicationFlowIdx ob"
  by (simp_all add: EthFwVepa_addAddr_def EthFwVepa_delAddr_def Let_def split: option.split)

lemma getMcastInfo_map:
  assumes "lib_spec e"
  shows "EthFwVepa_getMcastInfo e hw vlan (remoteCoreVepaTable ob) = None \<longleftrightarrow> vepa_map ob (vlan, hw) = None"
  by (simp add: EthFwVepa_getMcastInfo_def vepa_search [OF assms] vepa_map_def slot_find_map(2) [where val = vepaPortMask])

text \<open>What a registration does when the driver accepts every request.\<close>

lemma registerClient_ok:
  assumes e: "lib_spec e" and ok: "\<forall>h c. status_of e h c = 0" and rdy: "vepa_ready s" and p: "port \<le> 28"
  shows "let (st, s') = EthFwVepa_registerClient e core flow port mac s;
             ob = gEthFwVepaObj s; h = hostPortMask e; priv = ucast (privVlanCfg ob ! unat port)
    in st = ETHFW_SOK \<and> faults s' = faults s
     \<and> gEthFwVepaObj s' = snd (EthFwVepa_addAddr e bcast_mac 0 port
          (ob\<lparr>virtPortToMacAddr := (virtPortToMacAddr ob)[unat port := mac]\<rparr>))
     \<and> calls s' = calls s @
          [Ioctl core (ALE_ADD_VLAN priv h h 0 h h False),
           Ioctl core (ALE_SET_POLICER_IN_PARTITION (MatchIvlan priv) flow PartLevel1)] @
          (if vepa_map ob (0, bcast_mac) = None
           then [Ioctl core (ALE_SET_POLICER_IN_PARTITION (MatchMacDst bcast_mac 0)
                   (packetDuplicationFlowIdx ob) PartDefault)] else [])"
proof -
  have "unat port < 29" using p by (simp add: word_le_nat_alt)
  then show ?thesis
    using rdy ok
    by (simp add: EthFwVepa_registerClient_def EthFwVepa_addMcastPolicer_def vepa_ready_def call_st_def issue_def
        Let_def case_prod_beta flip: getMcastInfo_map [OF e] split: option.split)
qed

lemma unregisterClient_ok:
  assumes e: "lib_spec e" and ok: "\<forall>h c. status_of e h c = 0" and rdy: "vepa_ready s" and p: "port \<le> 28"
  shows "let (st, s') = EthFwVepa_unregisterClient e core port s; ob = gEthFwVepaObj s;
             priv = ucast (privVlanCfg ob ! unat port);
             ob' = snd (EthFwVepa_delAddr e bcast_mac 0 port
                     (ob\<lparr>virtPortToMacAddr := (virtPortToMacAddr ob)[unat port := zero_mac]\<rparr>))
    in faults s' = faults s \<and> gEthFwVepaObj s' = ob'
     \<and> calls s' = calls s @ [Ioctl core (ALE_DEL_POLICER (MatchIvlan priv) DelIvlan)] @
          (if vepa_map ob' (0, bcast_mac) = None
           then [Ioctl core (ALE_DEL_POLICER (MatchMacDst bcast_mac 0) DelNone)] else [])"
proof -
  have "unat port < 29" using p by (simp add: word_le_nat_alt)
  then show ?thesis
    using rdy ok
    by (simp add: EthFwVepa_unregisterClient_def EthFwVepa_delMcastPolicer_def vepa_ready_def call_st_def issue_def
        Let_def case_prod_beta flip: getMcastInfo_map [OF e] split: option.split)
qed

lemma bcast_installed_append [simp]:
  "bcast_installed (xs @ ys) = fold bcast_step ys (bcast_installed xs)"
  by (simp add: bcast_installed_def)

lemma bcast_room:
  assumes "lib_spec e" "bcast_acc R s"
  shows "(\<exists>q. q \<in> R) \<or> EthFwVepa_getUseCnt (gEthFwVepaObj s) < ETHFW_VEPA_TABLE_SIZE"
proof (cases "R = {}")
  case True
  with assms(2) have wf: "vepa_wf (gEthFwVepaObj s)"
    and "vepa_map (gEthFwVepaObj s) (0, bcast_mac) = None"
    by (simp_all add: bcast_acc_def vepa_ready_def absent_iff)
  with assms(2) have "vepa_map (gEthFwVepaObj s) = Map.empty"
    unfolding bcast_acc_def by (intro ext) metis
  with vepa_table.cnt_dom [of e "gEthFwVepaObj s"] assms(1) wf show ?thesis
    by (simp add: ETHFW_VEPA_TABLE_SIZE_def)
qed auto

lemma bcast_acc_do:
  assumes e: "lib_spec e" and ok: "\<forall>h c. status_of e h c = 0" and acc: "bcast_acc R s"
    and p: "event_port ev \<le> 28"
  shows "bcast_acc (reg_step ev R) (vepa_do e ev s) \<and> faults (vepa_do e ev s) = faults s"
proof (cases ev)
  case (Register core flow port mac)
  let ?s = "vepa_do e ev s"
  let ?ob = "(gEthFwVepaObj s)\<lparr>virtPortToMacAddr := (virtPortToMacAddr (gEthFwVepaObj s))[unat port := mac]\<rparr>"
  from p Register have p: "port \<le> 28" "unat port < 32" by (simp_all add: word_le_nat_alt)
  from acc have rdy: "vepa_ready s" and wf: "vepa_wf ?ob" by (simp_all add: bcast_acc_def vepa_ready_def)
  from registerClient_ok [OF e ok rdy p(1), of core flow mac]
  have s': "gEthFwVepaObj ?s = snd (EthFwVepa_addAddr e bcast_mac 0 port ?ob)" "faults ?s = faults s"
    and c: "bcast_installed (calls ?s)"
    using acc absent_iff [of "gEthFwVepaObj s" "(0, bcast_mac)"] rdy
    by (auto simp: Register Let_def case_prod_beta bcast_acc_def vepa_ready_def)
  have "vepa_wf (gEthFwVepaObj ?s)"
    using vepa_table.put_inv [of e ?ob "(0, bcast_mac)" port] e wf p(2)
    by (simp add: s' vepa_put_def port_ok_def)
  moreover have "vepa_wants (gEthFwVepaObj ?s) (0, bcast_mac) q \<longleftrightarrow> q \<in> insert port R" for q
    using wants_add [OF e wf p(2), of bcast_mac 0 "(0, bcast_mac)" q] bcast_room [OF e acc] acc
      wants_iff_present [OF wf, of "(0, bcast_mac)"]
    by (auto simp: s' bcast_acc_def)
  moreover have "vepa_map (gEthFwVepaObj ?s) k = None" if "k \<noteq> (0, bcast_mac)" for k
    using vepa_addAddr_map [of e ?ob bcast_mac 0 port] e wf acc that
    by (cases k) (auto simp: s' vepa_wf_def bcast_acc_def)
  ultimately show ?thesis
    using c s' rdy by (simp add: bcast_acc_def vepa_ready_def Register)
next
  case (Unregister core port)
  let ?s = "vepa_do e ev s"
  let ?ob = "(gEthFwVepaObj s)\<lparr>virtPortToMacAddr := (virtPortToMacAddr (gEthFwVepaObj s))[unat port := zero_mac]\<rparr>"
  from p Unregister have p: "port \<le> 28" by simp
  from acc have rdy: "vepa_ready s" and wf: "vepa_wf ?ob" by (simp_all add: bcast_acc_def vepa_ready_def)
  let ?ob' = "snd (EthFwVepa_delAddr e bcast_mac 0 port ?ob)"
  have wf': "vepa_wf ?ob'"
    using vepa_table.del_inv [of e ?ob "(0, bcast_mac)" port] e wf by (simp add: vepa_del_def)
  have wants: "vepa_wants ?ob' (0, bcast_mac) q \<longleftrightarrow> q \<in> R - {port}" for q
    using wants_del [OF e wf, of bcast_mac 0 port "(0, bcast_mac)" q] acc by (auto simp: bcast_acc_def)
  from unregisterClient_ok [OF e ok rdy p, of core]
  have s': "gEthFwVepaObj ?s = ?ob'" "faults ?s = faults s"
    and c: "bcast_installed (calls ?s) \<longleftrightarrow> R - {port} \<noteq> {}"
    using acc absent_iff [OF wf', of "(0, bcast_mac)"] wants
    by (auto simp: Unregister Let_def case_prod_beta bcast_acc_def)
  moreover have "vepa_map ?ob' k = None" if "k \<noteq> (0, bcast_mac)" for k
    using vepa_delAddr [of e ?ob bcast_mac 0 port] e wf acc that
    by (cases k) (auto simp: vepa_wf_def bcast_acc_def)
  ultimately show ?thesis
    using wf' wants rdy by (simp add: bcast_acc_def vepa_ready_def Unregister)
qed

lemma bcast_acc_run:
  assumes "lib_spec e" "\<forall>h c. status_of e h c = 0" "bcast_acc R s" "\<forall>ev\<in>set evs. event_port ev \<le> 28"
  shows "bcast_acc (fold reg_step evs R) (fold (vepa_do e) evs s) \<and> faults (fold (vepa_do e) evs s) = faults s"
  using assms(3,4)
proof (induction evs arbitrary: R s)
  case (Cons ev evs)
  then have p: "event_port ev \<le> 28" "\<forall>ev\<in>set evs. event_port ev \<le> 28" by simp_all
  note step = bcast_acc_do [OF assms(1,2) Cons.prems(1) p(1)]
  from step Cons.IH [OF conjunct1 [OF step] p(2)] show ?case by simp
qed simp

text \<open>Property C26 (invariant).  When the driver accepts every request, any sequence of client
  registrations and de-registrations keeps the broadcast classifier installed exactly while a
  client is registered, and exactly the registered ports want broadcasts; no array is overrun.
  It starts from a table with no entry, no classifier installed, and the duplication flow set.\<close>

theorem vepa_bcast_policer:
  assumes "lib_spec e" "\<forall>h c. status_of e h c = 0" and "vepa_ready s"
    and "vepa_map (gEthFwVepaObj s) = Map.empty" "\<not> bcast_installed (calls s)"
    and "\<forall>ev\<in>set evs. event_port ev \<le> ETHREMOTECFG_SWITCH_PORT_LAST"
  shows "let s' = fold (vepa_do e) evs s; R = fold reg_step evs {}
         in (bcast_installed (calls s') \<longleftrightarrow> R \<noteq> {})
          \<and> (\<forall>q. vepa_wants (gEthFwVepaObj s') (0, bcast_mac) q \<longleftrightarrow> q \<in> R)
          \<and> faults s' = faults s"
proof -
  have "bcast_acc {} s"
    using assms(3-5) by (simp add: bcast_acc_def vepa_wants_def)
  from bcast_acc_run [OF assms(1,2) this, of evs] assms(6) show ?thesis
    by (simp add: bcast_acc_def Let_def ETHREMOTECFG_SWITCH_PORT_LAST_def)
qed

definition vepa_demo2 :: vepa_st where
  "vepa_demo2 = (let s = snd (EthFwVepa_init ok_env EthFwVepa_initCfg vepa_demo)
     in s\<lparr>gEthFwVepaObj := snd (EthFwVepa_setPacketDuplicationFlowIdx 5 (gEthFwVepaObj s))\<rparr>)"

lemma vepa_demo2_ready:
  "vepa_ready vepa_demo2" "vepa_map (gEthFwVepaObj vepa_demo2) = Map.empty"
  "calls vepa_demo2 = [Osal_createMutex]"
proof -
  let ?ob = "gEthFwVepaObj (snd (EthFwVepa_init ok_env EthFwVepa_initCfg vepa_demo))"
  have "length (remoteCoreVepaTable (gEthFwVepaObj vepa_demo)) = ETHFW_VEPA_TABLE_SIZE"
    and fl: "flag_of ok_env (calls vepa_demo) Osal_createMutex"
    by (simp_all add: vepa_demo_def ETHFW_VEPA_TABLE_SIZE_def ok_env_def)
  note wf = vepa_init_wf(2,3) [OF this, of EthFwVepa_initCfg]
  have fields: "packetDuplicationFlowIdx ?ob = ETHFW_VEPA_PKT_DUP_FLOW_IDX_UNDEFINED"
    "length (privVlanCfg ?ob) = 29" "length (virtPortToMacAddr ?ob) = 29"
    using fl by (simp_all add: EthFwVepa_init_def Let_def issue_def vepa_demo_def EthFwVepa_initCfg_def
        ETHREMOTECFG_SWITCH_PORT_LAST_def)
  have flow: "vepa_map (ob\<lparr>packetDuplicationFlowIdx := x\<rparr>) = vepa_map ob"
    "vepa_wf (ob\<lparr>packetDuplicationFlowIdx := x\<rparr>) = vepa_wf ob" for ob x
    by (simp_all add: vepa_map_def vepa_wf_def vepa_inv_def)
  show "vepa_ready vepa_demo2" "vepa_map (gEthFwVepaObj vepa_demo2) = Map.empty"
    "calls vepa_demo2 = [Osal_createMutex]"
    using wf fields fl
    by (simp_all add: vepa_demo2_def vepa_ready_def EthFwVepa_setPacketDuplicationFlowIdx_def Let_def flow
        ETHFW_VEPA_PKT_DUP_FLOW_IDX_UNDEFINED_def)
      (simp add: EthFwVepa_init_def Let_def issue_def vepa_demo_def)
qed

theorem vepa_bcast_policer_witness:
  "let s' = fold (vepa_do ok_env) [Register 1 7 25 zero_mac, Register 2 8 26 zero_mac, Unregister 1 25] vepa_demo2
   in bcast_installed (calls s') \<and> vepa_wants (gEthFwVepaObj s') (0, bcast_mac) 26"
proof -
  have "\<forall>h c. status_of ok_env h c = 0" by (simp add: ok_env_def)
  moreover have "\<not> bcast_installed (calls vepa_demo2)"
    by (simp add: vepa_demo2_ready bcast_installed_def)
  ultimately show ?thesis
    using vepa_bcast_policer [OF lib_spec_ok_env _ vepa_demo2_ready(1,2), of "[Register 1 7 25 zero_mac, Register 2 8 26 zero_mac, Unregister 1 25]"]
    by (simp add: Let_def ETHREMOTECFG_SWITCH_PORT_LAST_def)
qed

section \<open>Duplication\<close>

lemma dup_chk_simps [simp]:
  "gEthFwVepaObj (dup_chk pkt s) = gEthFwVepaObj s" "calls (dup_chk pkt s) = calls s"
  "14 \<le> length pkt \<Longrightarrow> length pkt + 4 < 2 ^ 16 \<Longrightarrow> dup_chk pkt s = s"
  by (simp_all add: dup_chk_def fault_def)

lemma vepa_send_port_eq:
  assumes "lib_spec e" "i < 29" "length (privVlanCfg (gEthFwVepaObj s)) = 29"
    and "length (virtPortToMacAddr (gEthFwVepaObj s)) = 29"
  shows "snd (vepa_send_port e m src dst pkt i (st, s)) =
    (if bit m i \<and> virtPortToMacAddr (gEthFwVepaObj s) ! i \<noteq> src \<and> privVlanCfg (gEthFwVepaObj s) ! i \<noteq> 0
     then issue (Netif_linkoutput (dup_frame src dst (privVlanCfg (gEthFwVepaObj s) ! i) pkt)) (dup_chk pkt s) else s)"
proof -
  have "of_nat i \<le> ETHREMOTECFG_SWITCH_PORT_LAST"
    using assms(2) by (simp add: ETHREMOTECFG_SWITCH_PORT_LAST_def word_le_nat_alt)
  then show ?thesis
    using assms by (auto simp: vepa_send_port_def EthFwVepa_getPrivateVlanId_def IS_BIT_SET_bit Let_def)
qed

lemma vepa_send_loop:
  assumes "lib_spec e" "\<forall>i\<in>set is. i < 29" "length (privVlanCfg (gEthFwVepaObj s)) = 29"
    and "length (virtPortToMacAddr (gEthFwVepaObj s)) = 29"
  shows "let ob = gEthFwVepaObj s; s' = snd (fold (vepa_send_port e m src dst pkt) is (st, s)) in
    gEthFwVepaObj s' = ob \<and> (14 \<le> length pkt \<and> length pkt + 4 < 2 ^ 16 \<longrightarrow> faults s' = faults s) \<and> calls s' = calls s @
      map (\<lambda>i. Netif_linkoutput (dup_frame src dst (privVlanCfg ob ! i) pkt))
        (filter (\<lambda>i. bit m i \<and> virtPortToMacAddr ob ! i \<noteq> src \<and> privVlanCfg ob ! i \<noteq> 0) is)"
  using assms(2-4)
proof (induction "is" arbitrary: st s)
  case (Cons i "is")
  obtain st' s' where s': "vepa_send_port e m src dst pkt i (st, s) = (st', s')" by fastforce
  with vepa_send_port_eq [OF assms(1), of i s m src dst pkt st] Cons.prems
  have eq: "s' = (if bit m i \<and> virtPortToMacAddr (gEthFwVepaObj s) ! i \<noteq> src \<and> privVlanCfg (gEthFwVepaObj s) ! i \<noteq> 0
     then issue (Netif_linkoutput (dup_frame src dst (privVlanCfg (gEthFwVepaObj s) ! i) pkt)) (dup_chk pkt s) else s)"
    by simp
  then have "gEthFwVepaObj s' = gEthFwVepaObj s" by (simp add: issue_def)
  with Cons.IH [of s' st'] Cons.prems eq show ?case
    by (simp add: s' Let_def)
qed (simp add: Let_def)

lemma vepa_sendRaw_calls:
  assumes "lib_spec e" "length (privVlanCfg (gEthFwVepaObj s)) = 29"
    and "length (virtPortToMacAddr (gEthFwVepaObj s)) = 29"
  shows "let ob = gEthFwVepaObj s; s' = snd (EthFwVepa_sendRaw e pkt src dst s); al = Pbuf_alloc ((length pkt + 4) mod 2 ^ 16)
    in gEthFwVepaObj s' = ob \<and> (14 \<le> length pkt \<and> length pkt + 4 < 2 ^ 16 \<longrightarrow> faults s' = faults s) \<and>
      calls s' = calls s @
        (case vepa_map ob (pkt_vlan pkt, rd_mac pkt) of
           None \<Rightarrow> []
         | Some m \<Rightarrow>
             if flag_of e (calls s) al
             then al # map (\<lambda>i. Netif_linkoutput (dup_frame src dst (privVlanCfg ob ! i) pkt))
                (filter (\<lambda>i. bit m i \<and> virtPortToMacAddr ob ! i \<noteq> src \<and> privVlanCfg ob ! i \<noteq> 0) [0..<29])
             else [al])"
proof -
  let ?ob = "gEthFwVepaObj s"
  define al where "al = Pbuf_alloc ((length pkt + 4) mod 2 ^ 16)"
  have gm: "EthFwVepa_getVirtPortMask e hw vl ?ob =
      (case vepa_map ?ob (vl, hw) of None \<Rightarrow> (ETHFW_EFAIL, 0) | Some m \<Rightarrow> (ETHFW_SOK, m))" for hw vl
    by (simp add: EthFwVepa_getVirtPortMask_def vepa_search [OF assms(1)] vepa_map_def slot_map_def split: option.split)
  have ob: "gEthFwVepaObj (issue al s) = ?ob" by (simp add: issue_def)
  have "\<forall>i\<in>set [0..<29]. i < (29::nat)" by simp
  from vepa_send_loop [OF assms(1) this, of "issue al s"] assms(2,3)
  show ?thesis unfolding EthFwVepa_sendRaw_def al_def [symmetric]
    by (simp add: gm Let_def ob ETHREMOTECFG_SWITCH_PORT_LAST_def del: upt_Suc split: option.split)
qed

lemma dup_frame_fields:
  assumes "14 \<le> length pkt"
  shows "let f = dup_frame src dst v pkt in rd_mac f = dst \<and> rd_mac (drop 6 f) = src \<and>
      rd16_at f 12 = ETHTYPE_VLAN \<and> rd16_at f 14 = v \<and> drop 16 f = drop 12 pkt \<and> length f = length pkt + 4"
proof -
  have "take 2 (drop 12 pkt) @ drop 14 pkt = drop 12 pkt"
    using append_take_drop_id [of 2 "drop 12 pkt"] by simp
  then show ?thesis
    using assms by (cases src; cases dst) (simp add: dup_frame_def be16_def [of v] rd16_at_def rd16_be16 Let_def)
qed

text \<open>Property C27 (safety).  A packet whose destination is in the VEPA table, with a buffer available,
  is sent in order of port number to exactly the ports of the entry's mask that have a private VLAN
  and are not its source, each copy under that port's private VLAN; a packet nobody asked for makes
  no call.  In every copy the addresses are the given ones, the outer tag holds the port's VLAN, and
  what follows the tag is the original packet from its type on.  The length asked of the buffer is taken
  to 16 bits; while the packet and a tag fit in them, no buffer is overrun.\<close>

theorem vepa_sendRaw_targets:
  assumes "lib_spec e" "length (privVlanCfg (gEthFwVepaObj s)) = 29"
    and "length (virtPortToMacAddr (gEthFwVepaObj s)) = 29" "14 \<le> length pkt"
  shows "(let ob = gEthFwVepaObj s; s' = snd (EthFwVepa_sendRaw e pkt src dst s); al = Pbuf_alloc ((length pkt + 4) mod 2 ^ 16)
    in gEthFwVepaObj s' = ob \<and> (14 \<le> length pkt \<and> length pkt + 4 < 2 ^ 16 \<longrightarrow> faults s' = faults s) \<and>
      calls s' = calls s @
        (case vepa_map ob (pkt_vlan pkt, rd_mac pkt) of
           None \<Rightarrow> []
         | Some m \<Rightarrow>
             if flag_of e (calls s) al
             then al # map (\<lambda>i. Netif_linkoutput (dup_frame src dst (privVlanCfg ob ! i) pkt))
                (filter (\<lambda>i. bit m i \<and> virtPortToMacAddr ob ! i \<noteq> src \<and> privVlanCfg ob ! i \<noteq> 0) [0..<29])
             else [al]))
    \<and> (let f = dup_frame src dst v pkt in rd_mac f = dst \<and> rd_mac (drop 6 f) = src \<and>
      rd16_at f 12 = ETHTYPE_VLAN \<and> rd16_at f 14 = v \<and> drop 16 f = drop 12 pkt \<and> length f = length pkt + 4)"
  using vepa_sendRaw_calls [OF assms(1-3)] dup_frame_fields [OF assms(4)] by (rule conjI)

theorem vepa_sendRaw_targets_witness:
  "let s = vepa_do ok_env (Register 1 7 26 zero_mac) vepa_demo2;
       pkt = octets bcast_mac @ octets (EthAddr 2 0 0 0 0 9) @ [8, 6, 42]
   in gEthFwVepaObj (snd (EthFwVepa_sendRaw ok_env pkt (EthAddr 2 0 0 0 0 9) bcast_mac s)) = gEthFwVepaObj s"
proof -
  let ?s = "vepa_do ok_env (Register 1 7 26 zero_mac) vepa_demo2"
  have "\<forall>h c. status_of ok_env h c = 0" by (simp add: ok_env_def)
  from registerClient_ok [OF lib_spec_ok_env this vepa_demo2_ready(1), of 26 1 7 zero_mac] vepa_demo2_ready(1)
  have "length (privVlanCfg (gEthFwVepaObj ?s)) = 29" "length (virtPortToMacAddr (gEthFwVepaObj ?s)) = 29"
    by (simp_all add: Let_def case_prod_beta vepa_ready_def)
  from vepa_sendRaw_targets [OF lib_spec_ok_env this, of "octets bcast_mac @ octets (EthAddr 2 0 0 0 0 9) @ [8, 6, 42]"]
  show ?thesis by (simp add: Let_def)
qed

end
