(* ===== verification/Mcast.thy ===== *)
theory Mcast
  imports Vepa
begin

text \<open>
  Multicast filtering (\<^verbatim>\<open>ethremotecfg/server/src/ethfw_mcast.c\<close>).  A multicast address a client asks for
  is reserved (refused), shared (one ALE entry, reference counted, and with VEPA a table entry per
  client and the duplication classifier) or exclusive (one owner, one ALE entry and one classifier
  that sends the packets to the owner's flow).  \<open>EthFwMcast_Obj\<close> is \<^verbatim>\<open>gEthFwMcastObj\<close>; a pointer to
  an entry is its index, a callback is the flag "not NULL".
\<close>

section \<open>State\<close>

definition ETHFW_SHARED_MCAST_LIST_LEN :: nat where "ETHFW_SHARED_MCAST_LIST_LEN = 8"
definition ETHFW_RSVD_MCAST_LIST_LEN :: nat where "ETHFW_RSVD_MCAST_LIST_LEN = 4"
definition ETHFW_EXCLUSIVE_MCAST_LIST_LEN :: nat where "ETHFW_EXCLUSIVE_MCAST_LIST_LEN = 32"

record EthFwMcast_SharedMcastInfo =
  shMacAddr :: eth_addr
  shPortMask :: u32
  shVirtPortMask :: u32
  shRefCnt :: u32

record EthFwMcast_ExclusiveMcastInfo =
  exMacAddr :: eth_addr
  exVirtPort :: u32
  exRefCnt :: u32
  exIsFree :: bool

record EthFwMcast_RsvdMcast =
  rsMacAddr :: eth_addr
  rsVlanId :: u16
  rsPortMask :: u32

record EthFwMcast_Obj =
  sharedTable :: "EthFwMcast_SharedMcastInfo list"
  sharedLen :: nat
  rsvdTable :: "EthFwMcast_RsvdMcast list"
  rsvdLen :: nat
  exclusiveTable :: "EthFwMcast_ExclusiveMcastInfo list"
  filterAddMacSharedCb :: bool
  filterDelMacSharedCb :: bool
  mcSwitchPortMask :: u32
  mcMacOnlyPortMask :: u32

record mcast_st = vepa_st +
  gEthFwMcastObj :: EthFwMcast_Obj

text \<open>The configuration: \<^verbatim>\<open>numMcast\<close> is the length of the list.\<close>

record EthFwMcast_McastCfg =
  cfgMacAddr :: eth_addr
  cfgPortMask :: u32
  cfgVirtPortMask :: u32

record EthFwMcast_Cfg =
  cfgShared :: "EthFwMcast_McastCfg list"
  cfgAddCb :: bool
  cfgDelCb :: bool
  cfgRsvd :: "EthFwMcast_RsvdMcast list"

section \<open>Initialisation\<close>

text \<open>The loop over the configured shared addresses: table, length, and the status at the break.\<close>

fun shared_cfg_loop :: "env \<Rightarrow> EthFwMcast_McastCfg list \<Rightarrow> nat
    \<Rightarrow> EthFwMcast_SharedMcastInfo list \<Rightarrow> nat \<Rightarrow> int \<times> EthFwMcast_SharedMcastInfo list \<times> nat" where
  "shared_cfg_loop e [] i t len = (ETHFW_SOK, t, len)"
| "shared_cfg_loop e (c # cs) i t len =
     (if isMcastAddr e (cfgMacAddr c)
      then shared_cfg_loop e cs (Suc i)
             (t[i := \<lparr>shMacAddr = cfgMacAddr c, shPortMask = cfgPortMask c,
                      shVirtPortMask = cfgVirtPortMask c, shRefCnt = 0\<rparr>]) (Suc len)
      else (ETHFW_EINVALIDPARAMS, t, len))"

definition EthFwMcast_getSharedMcastCfg :: "env \<Rightarrow> EthFwMcast_Cfg \<Rightarrow> EthFwMcast_Obj \<Rightarrow> int \<times> EthFwMcast_Obj" where
  "EthFwMcast_getSharedMcastCfg e cfg ob =
     (let cs = cfgShared cfg;
          (status, ob) =
            (if length cs > ETHFW_SHARED_MCAST_LIST_LEN then (ETHFW_EINVALIDPARAMS, ob)
             else if length cs > 0
             then (case shared_cfg_loop e cs 0 (sharedTable ob) 0 of
                     (status, t, len) \<Rightarrow> (status, ob\<lparr>sharedTable := t, sharedLen := len\<rparr>))
             else (ETHFW_SOK, ob))
      in if status = ETHFW_SOK
         then (status, ob\<lparr>filterAddMacSharedCb := cfgAddCb cfg, filterDelMacSharedCb := cfgDelCb cfg\<rparr>)
         else (status, ob\<lparr>sharedLen := 0\<rparr>))"

fun rsvd_cfg_loop :: "env \<Rightarrow> EthFwMcast_RsvdMcast list \<Rightarrow> nat
    \<Rightarrow> EthFwMcast_RsvdMcast list \<Rightarrow> nat \<Rightarrow> int \<times> EthFwMcast_RsvdMcast list \<times> nat" where
  "rsvd_cfg_loop e [] i t len = (ETHFW_SOK, t, len)"
| "rsvd_cfg_loop e (c # cs) i t len =
     (if isMcastAddr e (rsMacAddr c) then rsvd_cfg_loop e cs (Suc i) (t[i := c]) (Suc len)
      else (ETHFW_EINVALIDPARAMS, t, len))"

definition EthFwMcast_getRsvdMcastCfg :: "env \<Rightarrow> EthFwMcast_Cfg \<Rightarrow> EthFwMcast_Obj \<Rightarrow> int \<times> EthFwMcast_Obj" where
  "EthFwMcast_getRsvdMcastCfg e cfg ob =
     (let cs = cfgRsvd cfg;
          (status, ob) =
            (if length cs > ETHFW_RSVD_MCAST_LIST_LEN then (ETHFW_EINVALIDPARAMS, ob)
             else if length cs > 0
             then (case rsvd_cfg_loop e cs 0 (rsvdTable ob) 0 of
                     (status, t, len) \<Rightarrow> (status, ob\<lparr>rsvdTable := t, rsvdLen := len\<rparr>))
             else (ETHFW_SOK, ob))
      in if status \<noteq> ETHFW_SOK then (status, ob\<lparr>rsvdLen := 0\<rparr>) else (status, ob))"

definition mcast_zero :: EthFwMcast_Obj where
  "mcast_zero = \<lparr>sharedTable = replicate ETHFW_SHARED_MCAST_LIST_LEN
       \<lparr>shMacAddr = zero_mac, shPortMask = 0, shVirtPortMask = 0, shRefCnt = 0\<rparr>, sharedLen = 0,
     rsvdTable = replicate ETHFW_RSVD_MCAST_LIST_LEN \<lparr>rsMacAddr = zero_mac, rsVlanId = 0, rsPortMask = 0\<rparr>, rsvdLen = 0,
     exclusiveTable = replicate ETHFW_EXCLUSIVE_MCAST_LIST_LEN
       \<lparr>exMacAddr = zero_mac, exVirtPort = 0, exRefCnt = 0, exIsFree = False\<rparr>,
     filterAddMacSharedCb = False, filterDelMacSharedCb = False, mcSwitchPortMask = 0, mcMacOnlyPortMask = 0\<rparr>"

definition EthFwMcast_init ::
    "env \<Rightarrow> EthFwMcast_Cfg \<Rightarrow> u32 \<Rightarrow> u32 \<Rightarrow> 'a mcast_st_scheme \<Rightarrow> int \<times> 'a mcast_st_scheme" where
  "EthFwMcast_init e cfg switchPortMask macOnlyPortMask s =
     (let (status, ob) = thenOK (EthFwMcast_getSharedMcastCfg e cfg mcast_zero) (EthFwMcast_getRsvdMcastCfg e cfg);
          ob = (if status = ETHFW_SOK
                then ob\<lparr>mcSwitchPortMask := switchPortMask, mcMacOnlyPortMask := macOnlyPortMask\<rparr> else ob);
          ob = ob\<lparr>exclusiveTable := map (\<lambda>x. x\<lparr>exIsFree := True\<rparr>) (exclusiveTable ob)\<rparr>
      in (status, s\<lparr>gEthFwMcastObj := ob\<rparr>))"

section \<open>Searches\<close>

definition EthFwMcast_isRsvdMcast :: "env \<Rightarrow> eth_addr \<Rightarrow> u16 \<Rightarrow> EthFwMcast_Obj \<Rightarrow> bool" where
  "EthFwMcast_isRsvdMcast e mac vlan ob \<longleftrightarrow>
     first_idx (\<lambda>x. rsVlanId x = vlan \<and> cmpMacAddr e (rsMacAddr x) mac) (take (rsvdLen ob) (rsvdTable ob)) \<noteq> None"

definition EthFwMcast_getSharedMcastInfo :: "env \<Rightarrow> eth_addr \<Rightarrow> EthFwMcast_Obj \<Rightarrow> nat option" where
  "EthFwMcast_getSharedMcastInfo e mac ob =
     first_idx (\<lambda>x. cmpMacAddr e (shMacAddr x) mac) (take (sharedLen ob) (sharedTable ob))"

definition EthFwMcast_getExclusiveMcastInfo :: "env \<Rightarrow> eth_addr \<Rightarrow> EthFwMcast_Obj \<Rightarrow> nat option" where
  "EthFwMcast_getExclusiveMcastInfo e mac ob =
     first_idx (\<lambda>x. \<not> exIsFree x \<and> cmpMacAddr e (exMacAddr x) mac) (exclusiveTable ob)"

section \<open>Shared addresses\<close>

definition upd_shared :: "nat \<Rightarrow> (EthFwMcast_SharedMcastInfo \<Rightarrow> EthFwMcast_SharedMcastInfo)
    \<Rightarrow> 'a mcast_st_scheme \<Rightarrow> 'a mcast_st_scheme" where
  "upd_shared i f s = (let ob = gEthFwMcastObj s in
     s\<lparr>gEthFwMcastObj := ob\<lparr>sharedTable := (sharedTable ob)[i := f (sharedTable ob ! i)]\<rparr>\<rparr>)"

definition upd_excl :: "nat \<Rightarrow> (EthFwMcast_ExclusiveMcastInfo \<Rightarrow> EthFwMcast_ExclusiveMcastInfo)
    \<Rightarrow> 'a mcast_st_scheme \<Rightarrow> 'a mcast_st_scheme" where
  "upd_excl i f s = (let ob = gEthFwMcastObj s in
     s\<lparr>gEthFwMcastObj := ob\<lparr>exclusiveTable := (exclusiveTable ob)[i := f (exclusiveTable ob ! i)]\<rparr>\<rparr>)"

text \<open>The VEPA operation on the part of the state that holds the VEPA object.\<close>

definition with_vepa :: "(EthFwVepa_Obj \<Rightarrow> int \<times> EthFwVepa_Obj) \<Rightarrow> 'a vepa_st_scheme \<Rightarrow> int \<times> 'a vepa_st_scheme" where
  "with_vepa f s = (case f (gEthFwVepaObj s) of (status, ob) \<Rightarrow> (status, s\<lparr>gEthFwVepaObj := ob\<rparr>))"

definition EthFwMcast_filterAddMacShared ::
    "env \<Rightarrow> nat \<Rightarrow> eth_addr \<Rightarrow> u8 \<Rightarrow> 'a mcast_st_scheme \<Rightarrow> int \<times> 'a mcast_st_scheme" where
  "EthFwMcast_filterAddMacShared e i mac coreId s =
     (let x = sharedTable (gEthFwMcastObj s) ! i; core = ucast coreId :: u32 in
      thenOK
        (if shRefCnt x = 0
         then thenOK (call_st e (Ioctl core (ALE_ADD_MCAST mac 0 (shPortMask x))) s)
                (\<lambda>s. if vepaSupport e then EthFwVepa_addMcastPolicer e core 0 mac PartDefault s
                     else (ETHFW_SOK, s))
         else (ETHFW_SOK, s))
        (\<lambda>s. let s = upd_shared i (\<lambda>x. x\<lparr>shRefCnt := shRefCnt x + 1\<rparr>) s
             in (ETHFW_SOK, if filterAddMacSharedCb (gEthFwMcastObj s)
                            then issue (FilterAddMacSharedCb mac core) s else s)))"

definition EthFwMcast_filterDelMacShared ::
    "env \<Rightarrow> nat \<Rightarrow> eth_addr \<Rightarrow> u8 \<Rightarrow> 'a mcast_st_scheme \<Rightarrow> int \<times> 'a mcast_st_scheme" where
  "EthFwMcast_filterDelMacShared e i mac coreId s =
     (let x = sharedTable (gEthFwMcastObj s) ! i; core = ucast coreId :: u32 in
      thenOK
        (if shRefCnt x = 1
         then thenOK (if vepaSupport e then EthFwVepa_delMcastPolicer e core 0 mac DelNone s else (ETHFW_SOK, s))
                (call_st e (Ioctl core (ALE_REMOVE_ADDR mac 0)))
         else if shRefCnt x = 0 then (ETHFW_EFAIL, s)
         else (ETHFW_SOK, s))
        (\<lambda>s. let s = upd_shared i (\<lambda>x. x\<lparr>shRefCnt := shRefCnt x - 1\<rparr>) s
             in (ETHFW_SOK, if filterDelMacSharedCb (gEthFwMcastObj s)
                            then issue (FilterDelMacSharedCb mac core) s else s)))"

section \<open>Exclusive addresses\<close>

text \<open>The core the firmware runs on, in the 8-bit variable the code keeps it in.\<close>

definition own_core :: "env \<Rightarrow> u32" where
  "own_core e = ucast (ucast (selfCoreId e) :: u8)"

definition excl_match :: "env \<Rightarrow> EthRemoteCfg_VirtPort \<Rightarrow> eth_addr \<Rightarrow> pol_match" where
  "excl_match e virtPort mac =
     (if EthFwVirtPort_isMacPort virtPort
      then MatchMacDstPort mac 0 (macPortToAlePort e (EthFwVirtPort_getMacPort e virtPort))
      else MatchMacDst mac 0)"

definition excl_portMask :: "env \<Rightarrow> EthRemoteCfg_VirtPort \<Rightarrow> EthFwMcast_Obj \<Rightarrow> u32" where
  "excl_portMask e virtPort ob =
     (if EthFwVirtPort_isMacPort virtPort
      then hostPortMask e OR macPortToPortMask e (EthFwVirtPort_getMacPort e virtPort)
      else hostPortMask e OR push_bit 1 (mcSwitchPortMask ob))"

definition EthFwMcast_filterAddMacExcl ::
    "env \<Rightarrow> EthRemoteCfg_VirtPort \<Rightarrow> eth_addr \<Rightarrow> u32 \<Rightarrow> 'a mcast_st_scheme \<Rightarrow> int \<times> 'a mcast_st_scheme" where
  "EthFwMcast_filterAddMacExcl e virtPort mac flowIdx s =
     (let core = own_core e;
          (st, s) = call_st e (Ioctl core (ALE_LOOKUP_MCAST mac 0)) s;
          status = (if st = ETHFW_SOK then ETHFW_EBUSY else if st = ETHFW_ENOTFOUND then ETHFW_SOK else st)
      in thenOK (thenOK (thenOK (status, s)
           (\<lambda>s. case first_idx exIsFree (exclusiveTable (gEthFwMcastObj s)) of
                  Some i \<Rightarrow> (ETHFW_SOK, upd_excl i (\<lambda>x. x\<lparr>exIsFree := False, exRefCnt := 1,
                                                      exVirtPort := virtPort, exMacAddr := mac\<rparr>) s)
                | None \<Rightarrow> (ETHFW_EALLOC, s)))
           (\<lambda>s. call_st e (Ioctl core (ALE_ADD_MCAST mac 0 (excl_portMask e virtPort (gEthFwMcastObj s)))) s))
           (call_st e (Ioctl core (ALE_SET_POLICER (excl_match e virtPort mac) flowIdx))))"

definition EthFwMcast_filterDelMacExcl ::
    "env \<Rightarrow> EthRemoteCfg_VirtPort \<Rightarrow> eth_addr \<Rightarrow> 'a mcast_st_scheme \<Rightarrow> int \<times> 'a mcast_st_scheme" where
  "EthFwMcast_filterDelMacExcl e virtPort mac s =
     call_st e (Ioctl (own_core e) (ALE_DEL_POLICER (excl_match e virtPort mac) DelAll)) s"

section \<open>The operations of the module\<close>

definition EthFwMcast_filterAddMac ::
    "env \<Rightarrow> EthRemoteCfg_VirtPort \<Rightarrow> eth_addr \<Rightarrow> u16 \<Rightarrow> u32 \<Rightarrow> u8 \<Rightarrow> 'a mcast_st_scheme \<Rightarrow> int \<times> 'a mcast_st_scheme" where
  "EthFwMcast_filterAddMac e virtPort mac vlan flowIdx hostId s =
     (let ob = gEthFwMcastObj s in
      if EthFwMcast_isRsvdMcast e mac vlan ob then (ETHFW_EBADARGS, s)
      else case EthFwMcast_getSharedMcastInfo e mac ob of
        Some i \<Rightarrow>
          thenOK (EthFwMcast_filterAddMacShared e i mac hostId s)
            (\<lambda>s. if vepaSupport e then with_vepa (EthFwVepa_addAddr e mac vlan virtPort) s else (ETHFW_SOK, s))
      | None \<Rightarrow>
          (case EthFwMcast_getExclusiveMcastInfo e mac ob of
             Some i \<Rightarrow>
               if exVirtPort (exclusiveTable ob ! i) = virtPort
               then (ETHFW_SOK, upd_excl i (\<lambda>x. x\<lparr>exRefCnt := exRefCnt x + 1\<rparr>) s)
               else (ETHFW_EFAIL, s)
           | None \<Rightarrow> EthFwMcast_filterAddMacExcl e virtPort mac flowIdx s))"

definition EthFwMcast_filterDelMac ::
    "env \<Rightarrow> EthRemoteCfg_VirtPort \<Rightarrow> eth_addr \<Rightarrow> u16 \<Rightarrow> u8 \<Rightarrow> 'a mcast_st_scheme \<Rightarrow> int \<times> 'a mcast_st_scheme" where
  "EthFwMcast_filterDelMac e virtPort mac vlan hostId s =
     (let ob = gEthFwMcastObj s in
      if EthFwMcast_isRsvdMcast e mac vlan ob then (ETHFW_EBADARGS, s)
      else case EthFwMcast_getSharedMcastInfo e mac ob of
        Some i \<Rightarrow>
          thenOK (if vepaSupport e
                  then with_vepa (EthFwVepa_delAddr e (shMacAddr (sharedTable ob ! i)) vlan virtPort) s
                  else (ETHFW_SOK, s))
            (EthFwMcast_filterDelMacShared e i mac hostId)
      | None \<Rightarrow>
          (case EthFwMcast_getExclusiveMcastInfo e mac ob of
             Some i \<Rightarrow>
               let x = exclusiveTable ob ! i in
               if exVirtPort x = virtPort
               then (if exRefCnt x > 1 then (ETHFW_SOK, upd_excl i (\<lambda>x. x\<lparr>exRefCnt := exRefCnt x - 1\<rparr>) s)
                     else if exRefCnt x = 1
                     then (let s = upd_excl i (\<lambda>x. x\<lparr>exRefCnt := exRefCnt x - 1\<rparr>) s;
                               (status, s) = EthFwMcast_filterDelMacExcl e virtPort mac s
                           in if status = ETHFW_SOK
                              then (status, upd_excl i (\<lambda>x. x\<lparr>exIsFree := True, exRefCnt := 0\<rparr>) s)
                              else (status, upd_excl i (\<lambda>x. x\<lparr>exRefCnt := 1\<rparr>) s))
                     else (ETHFW_SOK, s))
               else (ETHFW_EFAIL, s)
           | None \<Rightarrow> (ETHFW_EFAIL, s)))"

text \<open>
  \<^verbatim>\<open>EthFwMcast_printTable\<close> visits one entry more than the table holds (\<^verbatim>\<open>i <= len\<close>): the rows it
  prints, and the fault when the table is full and that entry is past the array.
\<close>

definition EthFwMcast_printTable ::
    "'a mcast_st_scheme \<Rightarrow> (nat \<times> EthFwMcast_SharedMcastInfo) list \<times> 'a mcast_st_scheme" where
  "EthFwMcast_printTable s =
     fold (\<lambda>i (rows, s). if i < length (sharedTable (gEthFwMcastObj s))
              then (rows @ [(i + 1, sharedTable (gEthFwMcastObj s) ! i)], s)
              else (rows, fault OobRead s))
       [0..<Suc (sharedLen (gEthFwMcastObj s))] ([], s)"

section \<open>Frames and searches\<close>

lemma issue_objs [simp]:
  "gEthFwMcastObj (issue c s) = gEthFwMcastObj s"
  "gEthFwVepaObj (issue c v) = gEthFwVepaObj v"
  by (simp_all add: issue_def)

lemma upd_shared_simps [simp]:
  "calls (upd_shared i f s) = calls s" "gEthFwVepaObj (upd_shared i f s) = gEthFwVepaObj s"
  "exclusiveTable (gEthFwMcastObj (upd_shared i f s)) = exclusiveTable (gEthFwMcastObj s)"
  "sharedLen (gEthFwMcastObj (upd_shared i f s)) = sharedLen (gEthFwMcastObj s)"
  "rsvdLen (gEthFwMcastObj (upd_shared i f s)) = rsvdLen (gEthFwMcastObj s)"
  "rsvdTable (gEthFwMcastObj (upd_shared i f s)) = rsvdTable (gEthFwMcastObj s)"
  "filterAddMacSharedCb (gEthFwMcastObj (upd_shared i f s)) = filterAddMacSharedCb (gEthFwMcastObj s)"
  "filterDelMacSharedCb (gEthFwMcastObj (upd_shared i f s)) = filterDelMacSharedCb (gEthFwMcastObj s)"
  "sharedTable (gEthFwMcastObj (upd_shared i f s)) =
     (sharedTable (gEthFwMcastObj s))[i := f (sharedTable (gEthFwMcastObj s) ! i)]"
  by (simp_all add: upd_shared_def Let_def)

lemma upd_excl_simps [simp]:
  "calls (upd_excl i g s) = calls s" "gEthFwVepaObj (upd_excl i g s) = gEthFwVepaObj s"
  "sharedTable (gEthFwMcastObj (upd_excl i g s)) = sharedTable (gEthFwMcastObj s)"
  "sharedLen (gEthFwMcastObj (upd_excl i g s)) = sharedLen (gEthFwMcastObj s)"
  "rsvdLen (gEthFwMcastObj (upd_excl i g s)) = rsvdLen (gEthFwMcastObj s)"
  "rsvdTable (gEthFwMcastObj (upd_excl i g s)) = rsvdTable (gEthFwMcastObj s)"
  "mcSwitchPortMask (gEthFwMcastObj (upd_excl i g s)) = mcSwitchPortMask (gEthFwMcastObj s)"
  "exclusiveTable (gEthFwMcastObj (upd_excl i g s)) =
     (exclusiveTable (gEthFwMcastObj s))[i := g (exclusiveTable (gEthFwMcastObj s) ! i)]"
  by (simp_all add: upd_excl_def Let_def)

lemma with_vepa_simps [simp]:
  "calls (snd (with_vepa f s)) = calls s"
  "gEthFwMcastObj (snd (with_vepa f s)) = gEthFwMcastObj s"
  "fst (with_vepa f s) = fst (f (gEthFwVepaObj s))"
  "gEthFwVepaObj (snd (with_vepa f s)) = snd (f (gEthFwVepaObj s))"
  by (simp_all add: with_vepa_def split: prod.split)

text \<open>The shared entry of an address and its reference count; the port that owns an exclusive address,
  with its reference count.\<close>

definition shared_idx :: "eth_addr \<Rightarrow> EthFwMcast_Obj \<Rightarrow> nat option" where
  "shared_idx mac ob = first_idx (\<lambda>a. a = mac) (map shMacAddr (take (sharedLen ob) (sharedTable ob)))"

definition shared_ref :: "eth_addr \<Rightarrow> EthFwMcast_Obj \<Rightarrow> u32" where
  "shared_ref mac ob = (case shared_idx mac ob of Some i \<Rightarrow> shRefCnt (sharedTable ob ! i) | None \<Rightarrow> 0)"

abbreviation ex_used :: "EthFwMcast_ExclusiveMcastInfo \<Rightarrow> bool" where
  "ex_used x \<equiv> \<not> exIsFree x"

definition excl_owner :: "EthFwMcast_Obj \<Rightarrow> eth_addr \<rightharpoonup> EthRemoteCfg_VirtPort \<times> u32" where
  "excl_owner ob = slot_map ex_used exMacAddr (\<lambda>x. (exVirtPort x, exRefCnt x)) (exclusiveTable ob)"

definition mcast_wf :: "EthFwMcast_Obj \<Rightarrow> bool" where
  "mcast_wf ob \<longleftrightarrow> slot_inv ex_used exMacAddr (exclusiveTable ob) \<and>
     (\<forall>m. excl_owner ob m \<noteq> None \<longrightarrow> shared_idx m ob = None)"

lemma shared_search:
  "lib_spec e \<Longrightarrow> EthFwMcast_getSharedMcastInfo e mac ob = shared_idx mac ob"
  by (simp add: EthFwMcast_getSharedMcastInfo_def shared_idx_def first_idx_map)

lemma excl_search:
  "lib_spec e \<Longrightarrow> EthFwMcast_getExclusiveMcastInfo e mac ob = slot_find ex_used exMacAddr mac (exclusiveTable ob)"
  unfolding EthFwMcast_getExclusiveMcastInfo_def slot_find_def by (rule first_idx_cong) auto

lemma shared_idxD:
  assumes "shared_idx mac ob = Some i"
  shows "i < length (sharedTable ob)" "shMacAddr (sharedTable ob ! i) = mac"
  using assms by (auto simp: shared_idx_def first_idx_map first_idx_Some)

lemma shared_idx_upd:
  assumes "\<And>x. shMacAddr (f x) = shMacAddr x"
  shows "shared_idx mac (gEthFwMcastObj (upd_shared i f s)) = shared_idx mac (gEthFwMcastObj s)"
proof -
  have "map shMacAddr (t[i := f (t ! i)]) = map shMacAddr t" for t
    by (simp add: map_update assms) (metis list_update_id map_update)
  then show ?thesis by (simp add: shared_idx_def take_map [symmetric] map_update)
qed

lemma shared_ref_upd:
  assumes "\<And>x. shMacAddr (f x) = shMacAddr x" "shared_idx mac (gEthFwMcastObj s) = Some i"
  shows "shared_ref m (gEthFwMcastObj (upd_shared i f s)) =
    (if m = mac then shRefCnt (f (sharedTable (gEthFwMcastObj s) ! i)) else shared_ref m (gEthFwMcastObj s))"
proof (cases "shared_idx m (gEthFwMcastObj s)")
  case None
  then show ?thesis using assms(2) by (auto simp: shared_ref_def shared_idx_upd [OF assms(1)])
next
  case (Some j)
  then show ?thesis
    using assms(2) shared_idxD [OF assms(2)] shared_idxD [OF Some]
    by (cases "j = i") (auto simp: shared_ref_def shared_idx_upd [OF assms(1)])
qed

lemma shared_frame [simp]:
  "shared_idx mac (gEthFwMcastObj (upd_excl i g s)) = shared_idx mac (gEthFwMcastObj s)"
  "shared_ref mac (gEthFwMcastObj (upd_excl i g s)) = shared_ref mac (gEthFwMcastObj s)"
  by (simp_all add: shared_ref_def shared_idx_def split: option.split)

lemma shared_frame_cong:
  "sharedTable ob = sharedTable ob' \<Longrightarrow> sharedLen ob = sharedLen ob' \<Longrightarrow> shared_idx mac ob = shared_idx mac ob'"
  "sharedTable ob = sharedTable ob' \<Longrightarrow> sharedLen ob = sharedLen ob' \<Longrightarrow> shared_ref mac ob = shared_ref mac ob'"
  by (simp_all add: shared_ref_def shared_idx_def split: option.split)

section \<open>What the ALE holds\<close>

text \<open>
  The effect of an accepted request on whether the ALE holds a multicast entry for an address, and
  the state after a sequence of requests of which only those the driver accepted count.
\<close>

fun mcast_step :: "eth_addr \<Rightarrow> call \<Rightarrow> bool \<Rightarrow> bool" where
  "mcast_step mac (Ioctl _ (ALE_ADD_MCAST a v _)) b = (b \<or> (a = mac \<and> v = 0))"
| "mcast_step mac (Ioctl _ (ALE_REMOVE_ADDR a v)) b = (b \<and> \<not> (a = mac \<and> v = 0))"
| "mcast_step mac (Ioctl _ (ALE_DEL_POLICER (MatchMacDst a v) DelAll)) b = (b \<and> \<not> (a = mac \<and> v = 0))"
| "mcast_step mac (Ioctl _ (ALE_DEL_POLICER (MatchMacDstPort a v _) DelAll)) b = (b \<and> \<not> (a = mac \<and> v = 0))"
| "mcast_step mac _ b = b"

fun ale_run :: "env \<Rightarrow> eth_addr \<Rightarrow> call list \<Rightarrow> call list \<Rightarrow> bool \<Rightarrow> bool" where
  "ale_run e mac h [] b = b"
| "ale_run e mac h (c # cs) b =
     ale_run e mac (h @ [c]) cs (if status_of e h c = ETHFW_SOK then mcast_step mac c b else b)"

definition ale_has :: "env \<Rightarrow> eth_addr \<Rightarrow> call list \<Rightarrow> bool" where
  "ale_has e mac cs = ale_run e mac [] cs False"

lemma ale_run_append: "ale_run e mac h (xs @ ys) b = ale_run e mac (h @ xs) ys (ale_run e mac h xs b)"
  by (induction xs arbitrary: h b) simp_all

lemma ale_has_append [simp]: "ale_has e mac (xs @ ys) = ale_run e mac xs ys (ale_has e mac xs)"
  by (simp add: ale_has_def ale_run_append)

text \<open>What an operation on a shared address does: to its reference count and the ALE, nothing else.\<close>

definition shared_eff :: "env \<Rightarrow> eth_addr \<Rightarrow> 'a mcast_st_scheme \<Rightarrow> 'a mcast_st_scheme \<Rightarrow> bool" where
  "shared_eff e mac s s' \<longleftrightarrow>
     (\<forall>m. shared_idx m (gEthFwMcastObj s') = shared_idx m (gEthFwMcastObj s)) \<and>
     (\<forall>m. m \<noteq> mac \<longrightarrow> shared_ref m (gEthFwMcastObj s') = shared_ref m (gEthFwMcastObj s)
                       \<and> ale_has e m (calls s') = ale_has e m (calls s)) \<and>
     exclusiveTable (gEthFwMcastObj s') = exclusiveTable (gEthFwMcastObj s) \<and>
     length (sharedTable (gEthFwMcastObj s')) = length (sharedTable (gEthFwMcastObj s)) \<and>
     sharedLen (gEthFwMcastObj s') = sharedLen (gEthFwMcastObj s) \<and>
     packetDuplicationFlowIdx (gEthFwVepaObj s') = packetDuplicationFlowIdx (gEthFwVepaObj s)"

lemma addShared_eff:
  assumes "shared_idx mac (gEthFwMcastObj s) = Some i"
  shows "shared_eff e mac s (snd (EthFwMcast_filterAddMacShared e i mac c s))"
  by (auto simp: shared_eff_def EthFwMcast_filterAddMacShared_def EthFwVepa_addMcastPolicer_def thenOK_def
      Let_def shared_idx_upd assms shared_ref_upd [where mac = mac] call_st_def)

lemma delShared_eff:
  assumes "shared_idx mac (gEthFwMcastObj s) = Some i"
  shows "shared_eff e mac s (snd (EthFwMcast_filterDelMacShared e i mac c s))"
  by (auto simp: shared_eff_def EthFwMcast_filterDelMacShared_def EthFwVepa_delMcastPolicer_def thenOK_def
      Let_def shared_idx_upd assms shared_ref_upd [where mac = mac] call_st_def)

lemma shared_ref_idx: "shared_idx mac ob = Some i \<Longrightarrow> shRefCnt (sharedTable ob ! i) = shared_ref mac ob"
  by (simp add: shared_ref_def)

lemma addShared_ref:
  assumes "shared_idx mac (gEthFwMcastObj s) = Some i"
  shows "let (st, s') = EthFwMcast_filterAddMacShared e i mac c s; r = shared_ref mac (gEthFwMcastObj s)
    in shared_ref mac (gEthFwMcastObj s') = (if st = ETHFW_SOK then r + 1 else r)
     \<and> (r \<noteq> 0 \<longrightarrow> st = ETHFW_SOK \<and> ale_has e mac (calls s') = ale_has e mac (calls s))
     \<and> (r = 0 \<longrightarrow> st = ETHFW_SOK \<longrightarrow> ale_has e mac (calls s'))"
proof (cases "shared_ref mac (gEthFwMcastObj s) = 0")
  case True
  then show ?thesis
    by (simp add: EthFwMcast_filterAddMacShared_def EthFwVepa_addMcastPolicer_def thenOK_def
      Let_def case_prod_beta assms shared_ref_upd [where mac = mac] shared_ref_idx [OF assms] call_st_def)
next
  case False
  then show ?thesis
    by (simp add: EthFwMcast_filterAddMacShared_def EthFwVepa_addMcastPolicer_def thenOK_def
      Let_def case_prod_beta assms shared_ref_upd [where mac = mac] shared_ref_idx [OF assms] call_st_def)
qed

lemma delShared_ref:
  assumes "shared_idx mac (gEthFwMcastObj s) = Some i"
  shows "let (st, s') = EthFwMcast_filterDelMacShared e i mac c s; r = shared_ref mac (gEthFwMcastObj s)
    in shared_ref mac (gEthFwMcastObj s') = (if st = ETHFW_SOK then r - 1 else r)
     \<and> (r = 0 \<longrightarrow> st = ETHFW_EFAIL)
     \<and> (r \<noteq> 1 \<or> st \<noteq> ETHFW_SOK \<longrightarrow> ale_has e mac (calls s') = ale_has e mac (calls s))
     \<and> (r = 1 \<longrightarrow> st = ETHFW_SOK \<longrightarrow> \<not> ale_has e mac (calls s'))"
proof (cases "shared_ref mac (gEthFwMcastObj s) = 1")
  case True
  then show ?thesis
    by (simp add: EthFwMcast_filterDelMacShared_def EthFwVepa_delMcastPolicer_def thenOK_def
      Let_def case_prod_beta assms shared_ref_upd [where mac = mac] shared_ref_idx [OF assms] call_st_def)
next
  case False
  then show ?thesis
    by (simp add: EthFwMcast_filterDelMacShared_def EthFwVepa_delMcastPolicer_def thenOK_def
      Let_def case_prod_beta assms shared_ref_upd [where mac = mac] shared_ref_idx [OF assms] call_st_def)
qed

section \<open>Operations on an exclusive address\<close>

lemma owner_find:
  "excl_owner ob mac = (case slot_find ex_used exMacAddr mac (exclusiveTable ob) of None \<Rightarrow> None
     | Some i \<Rightarrow> Some (exVirtPort (exclusiveTable ob ! i), exRefCnt (exclusiveTable ob ! i)))"
  by (simp add: excl_owner_def slot_map_def split: option.split)

lemma owner_shared_frame [simp]: "excl_owner (gEthFwMcastObj (upd_shared i f s)) = excl_owner (gEthFwMcastObj s)"
  by (simp add: excl_owner_def)

text \<open>Changing the owner's reference count, taking a free entry, and releasing an entry.\<close>

lemma owner_update:
  assumes "mcast_wf (gEthFwMcastObj s)" "slot_find ex_used exMacAddr mac (exclusiveTable (gEthFwMcastObj s)) = Some i"
    and "\<And>x. exMacAddr (f x) = exMacAddr x" "\<And>x. exIsFree (f x) = exIsFree x"
  shows "mcast_wf (gEthFwMcastObj (upd_excl i f s)) \<and> excl_owner (gEthFwMcastObj (upd_excl i f s)) =
    (excl_owner (gEthFwMcastObj s))(mac \<mapsto> (exVirtPort (f (exclusiveTable (gEthFwMcastObj s) ! i)),
        exRefCnt (f (exclusiveTable (gEthFwMcastObj s) ! i))))"
proof -
  let ?t = "exclusiveTable (gEthFwMcastObj s)"
  have inv: "slot_inv ex_used exMacAddr ?t" using assms(1) by (simp add: mcast_wf_def)
  note d = slot_findD [OF assms(2)]
  have "excl_owner (gEthFwMcastObj (upd_excl i f s)) = (excl_owner (gEthFwMcastObj s))
      (mac \<mapsto> (exVirtPort (f (?t ! i)), exRefCnt (f (?t ! i))))"
    using slot_map_update [OF inv d(1,2), where x = "f (?t ! i)" and val = "\<lambda>x. (exVirtPort x, exRefCnt x)"] d(2,3)
    by (simp add: excl_owner_def assms(3,4))
  moreover have "slot_inv ex_used exMacAddr (?t[i := f (?t ! i)])"
    using slot_inv_update [OF inv d(1,2), of "f (?t ! i)"] d(2) by (simp add: assms(3,4))
  moreover have "excl_owner (gEthFwMcastObj s) mac \<noteq> None"
    by (simp add: owner_find assms(2))
  ultimately show ?thesis using assms(1) by (auto simp: mcast_wf_def)
qed

lemma owner_fill:
  assumes "mcast_wf (gEthFwMcastObj s)" "first_idx exIsFree (exclusiveTable (gEthFwMcastObj s)) = Some i"
    and "excl_owner (gEthFwMcastObj s) (exMacAddr (f (exclusiveTable (gEthFwMcastObj s) ! i))) = None"
    and "shared_idx (exMacAddr (f (exclusiveTable (gEthFwMcastObj s) ! i))) (gEthFwMcastObj s) = None"
    and "\<And>x. \<not> exIsFree (f x)"
  shows "mcast_wf (gEthFwMcastObj (upd_excl i f s)) \<and> excl_owner (gEthFwMcastObj (upd_excl i f s)) =
    (excl_owner (gEthFwMcastObj s))(exMacAddr (f (exclusiveTable (gEthFwMcastObj s) ! i)) \<mapsto>
       (exVirtPort (f (exclusiveTable (gEthFwMcastObj s) ! i)), exRefCnt (f (exclusiveTable (gEthFwMcastObj s) ! i))))"
proof -
  let ?t = "exclusiveTable (gEthFwMcastObj s)"
  have inv: "slot_inv ex_used exMacAddr ?t" using assms(1) by (simp add: mcast_wf_def)
  have d: "i < length ?t" "\<not> ex_used (?t ! i)" using first_idx_SomeD [OF assms(2)] by simp_all
  have none: "slot_map ex_used exMacAddr (\<lambda>x. (exVirtPort x, exRefCnt x)) ?t (exMacAddr (f (?t ! i))) = None"
    using assms(3) by (simp add: excl_owner_def)
  have "excl_owner (gEthFwMcastObj (upd_excl i f s)) = (excl_owner (gEthFwMcastObj s))
      (exMacAddr (f (?t ! i)) \<mapsto> (exVirtPort (f (?t ! i)), exRefCnt (f (?t ! i))))"
    using slot_map_fill [OF inv d _ none] assms(5) by (simp add: excl_owner_def)
  moreover have "slot_inv ex_used exMacAddr (?t[i := f (?t ! i)])"
    using slot_inv_fill [OF inv d _ none] assms(5) by simp
  ultimately show ?thesis using assms(1,4) by (auto simp: mcast_wf_def)
qed

lemma owner_free:
  assumes "mcast_wf (gEthFwMcastObj s)" "slot_find ex_used exMacAddr mac (exclusiveTable (gEthFwMcastObj s)) = Some i"
    and "\<And>x. exIsFree (f x)"
  shows "mcast_wf (gEthFwMcastObj (upd_excl i f s)) \<and>
    excl_owner (gEthFwMcastObj (upd_excl i f s)) = (excl_owner (gEthFwMcastObj s))(mac := None)"
proof -
  let ?t = "exclusiveTable (gEthFwMcastObj s)"
  have inv: "slot_inv ex_used exMacAddr ?t" using assms(1) by (simp add: mcast_wf_def)
  note d = slot_findD [OF assms(2)]
  have "excl_owner (gEthFwMcastObj (upd_excl i f s)) = (excl_owner (gEthFwMcastObj s))(mac := None)"
    using slot_map_free [OF inv d(1,2), of "f (?t ! i)" "\<lambda>x. (exVirtPort x, exRefCnt x)"] d(3) assms(3)
    by (simp add: excl_owner_def)
  moreover have "slot_inv ex_used exMacAddr (?t[i := f (?t ! i)])"
    using slot_inv_free [OF inv, of "f (?t ! i)" i] assms(3) by simp
  ultimately show ?thesis using assms(1) by (auto simp: mcast_wf_def)
qed

definition excl_frame :: "env \<Rightarrow> eth_addr \<Rightarrow> 'a mcast_st_scheme \<Rightarrow> 'a mcast_st_scheme \<Rightarrow> bool" where
  "excl_frame e mac s s' \<longleftrightarrow>
     (\<forall>m. shared_idx m (gEthFwMcastObj s') = shared_idx m (gEthFwMcastObj s) \<and>
          shared_ref m (gEthFwMcastObj s') = shared_ref m (gEthFwMcastObj s)) \<and>
     (\<forall>m. m \<noteq> mac \<longrightarrow> ale_has e m (calls s') = ale_has e m (calls s)) \<and>
     gEthFwVepaObj s' = gEthFwVepaObj s"

text \<open>Whether the lookup of an address answers "not found".\<close>

definition excl_free :: "env \<Rightarrow> eth_addr \<Rightarrow> 'a mcast_st_scheme \<Rightarrow> bool" where
  "excl_free e mac s \<longleftrightarrow> status_of e (calls s) (Ioctl (own_core e) (ALE_LOOKUP_MCAST mac 0)) = ETHFW_ENOTFOUND
     \<and> first_idx exIsFree (exclusiveTable (gEthFwMcastObj s)) \<noteq> None"

lemma addExcl_eff:
  assumes "mcast_wf (gEthFwMcastObj s)" "shared_idx mac (gEthFwMcastObj s) = None"
    and "excl_owner (gEthFwMcastObj s) mac = None"
  shows "let (st, s') = EthFwMcast_filterAddMacExcl e port mac flow s
    in mcast_wf (gEthFwMcastObj s') \<and> excl_frame e mac s s'
     \<and> excl_owner (gEthFwMcastObj s') = (if excl_free e mac s
         then (excl_owner (gEthFwMcastObj s))(mac \<mapsto> (port, 1)) else excl_owner (gEthFwMcastObj s))
     \<and> (excl_free e mac s \<longrightarrow> ((\<forall>h c. (\<nexists>k a v. c = Ioctl k (ALE_LOOKUP_MCAST a v)) \<longrightarrow> status_of e h c = ETHFW_SOK)
           \<longrightarrow> st = ETHFW_SOK \<and> ale_has e mac (calls s')))
     \<and> (\<not> excl_free e mac s \<longrightarrow> st \<noteq> ETHFW_SOK \<and> ale_has e mac (calls s') = ale_has e mac (calls s))
     \<and> (st = ETHFW_SOK \<longrightarrow> ale_has e mac (calls s'))"
proof (cases "first_idx exIsFree (exclusiveTable (gEthFwMcastObj s))")
  case None
  with assms(1) show ?thesis
    by (auto simp: EthFwMcast_filterAddMacExcl_def Let_def call_st_def excl_free_def thenOK_def excl_frame_def)
next
  case (Some i)
  let ?l = "Ioctl (own_core e) (ALE_LOOKUP_MCAST mac 0)"
  let ?s1 = "issue ?l s" and ?f = "\<lambda>x. x\<lparr>exIsFree := False, exRefCnt := 1, exVirtPort := port, exMacAddr := mac\<rparr>"
  have fill: "mcast_wf (gEthFwMcastObj (upd_excl i ?f ?s1)) \<and> excl_owner (gEthFwMcastObj (upd_excl i ?f ?s1)) =
      (excl_owner (gEthFwMcastObj s))(mac \<mapsto> (port, 1))"
    using owner_fill [of ?s1 i ?f] assms Some by simp
  show ?thesis
  proof (cases "status_of e (calls s) ?l = ETHFW_ENOTFOUND")
    case False
    with assms(1) show ?thesis
      by (auto simp: EthFwMcast_filterAddMacExcl_def Let_def call_st_def excl_free_def thenOK_def excl_frame_def)
  next
    case True
    with fill Some show ?thesis
      by (simp add: EthFwMcast_filterAddMacExcl_def Let_def call_st_def excl_free_def excl_frame_def thenOK_def
          excl_match_def case_prod_beta)
  qed
qed

section \<open>Sequences of requests\<close>

datatype mcast_event =
    FilterAdd EthRemoteCfg_VirtPort eth_addr u16 u32 u8     \<comment> \<open>port, address, VLAN, flow, host\<close>
  | FilterDel EthRemoteCfg_VirtPort eth_addr u16 u8

fun mcast_do :: "env \<Rightarrow> mcast_event \<Rightarrow> 'a mcast_st_scheme \<Rightarrow> 'a mcast_st_scheme" where
  "mcast_do e (FilterAdd port mac vlan flow host) s = snd (EthFwMcast_filterAddMac e port mac vlan flow host s)"
| "mcast_do e (FilterDel port mac vlan host) s = snd (EthFwMcast_filterDelMac e port mac vlan host s)"

fun event_mac :: "mcast_event \<Rightarrow> eth_addr" where
  "event_mac (FilterAdd port mac vlan flow host) = mac"
| "event_mac (FilterDel port mac vlan host) = mac"

text \<open>The driver accepts everything it is asked, and a lookup finds what the ALE holds.\<close>

definition accepting :: "env \<Rightarrow> bool" where
  "accepting e \<longleftrightarrow> (\<forall>h c. status_of e h c =
     (case c of Ioctl k io \<Rightarrow> (case io of ALE_LOOKUP_MCAST a v \<Rightarrow>
          if ale_has e a h then ETHFW_SOK else ETHFW_ENOTFOUND | _ \<Rightarrow> ETHFW_SOK) | _ \<Rightarrow> ETHFW_SOK))"

lemma acceptingD:
  assumes "accepting e"
  shows "status_of e h (Ioctl k (ALE_LOOKUP_MCAST a v)) = (if ale_has e a h then ETHFW_SOK else ETHFW_ENOTFOUND)"
    and "status_of e h (Ioctl k (ALE_ADD_MCAST a v pm)) = ETHFW_SOK"
    and "status_of e h (Ioctl k (ALE_REMOVE_ADDR a v)) = ETHFW_SOK"
    and "status_of e h (Ioctl k (ALE_SET_POLICER pol fl)) = ETHFW_SOK"
    and "status_of e h (Ioctl k (ALE_SET_POLICER_IN_PARTITION pol fl lv)) = ETHFW_SOK"
    and "status_of e h (Ioctl k (ALE_DEL_POLICER pol dm)) = ETHFW_SOK"
    and "(\<nexists>k a v. c = Ioctl k (ALE_LOOKUP_MCAST a v)) \<Longrightarrow> status_of e h c = ETHFW_SOK"
  using assms by (simp_all add: accepting_def split: call.split ioctl.split)

text \<open>
  The outcome of one request for the address it names: the reference count of a shared address
  moves by one at most and stays in step with the ALE, and so does the owner of another address.
\<close>

definition shared_move :: "env \<Rightarrow> eth_addr \<Rightarrow> 'a mcast_st_scheme \<Rightarrow> 'a mcast_st_scheme \<Rightarrow> bool" where
  "shared_move e mac s s' \<longleftrightarrow>
     (let r = shared_ref mac (gEthFwMcastObj s); r' = shared_ref mac (gEthFwMcastObj s');
          b = ale_has e mac (calls s); b' = ale_has e mac (calls s')
      in (r' = r \<and> (r \<noteq> 0 \<longrightarrow> b' = b) \<and> (accepting e \<longrightarrow> b' = b \<or>
             (vepaSupport e \<and> packetDuplicationFlowIdx (gEthFwVepaObj s) = ETHFW_VEPA_PKT_DUP_FLOW_IDX_UNDEFINED)))
       \<or> (r' = r + 1 \<and> (if r = 0 then b' else b' = b))
       \<or> (r' = r - 1 \<and> r \<noteq> 0 \<and> (if r = 1 then \<not> b' else b' = b)))"

definition owner_move :: "env \<Rightarrow> eth_addr \<Rightarrow> 'a mcast_st_scheme \<Rightarrow> 'a mcast_st_scheme \<Rightarrow> bool" where
  "owner_move e mac s s' \<longleftrightarrow>
     (let w = excl_owner (gEthFwMcastObj s) mac; w' = excl_owner (gEthFwMcastObj s') mac;
          b = ale_has e mac (calls s); b' = ale_has e mac (calls s')
      in (case w of
            None \<Rightarrow> (w' = None \<and> b' = b) \<or> (\<exists>p. w' = Some (p, 1) \<and> (accepting e \<longrightarrow> b'))
          | Some (p, r) \<Rightarrow> (w' = w \<and> (accepting e \<longrightarrow> b' = b)) \<or> (w' = Some (p, r + 1) \<and> b' = b)
              \<or> (w' = Some (p, r - 1) \<and> r \<noteq> 0 \<and> r \<noteq> 1 \<and> b' = b) \<or> (w' = None \<and> r = 1 \<and> \<not> b')))"

definition mcast_frame :: "env \<Rightarrow> eth_addr \<Rightarrow> 'a mcast_st_scheme \<Rightarrow> 'a mcast_st_scheme \<Rightarrow> bool" where
  "mcast_frame e mac s s' \<longleftrightarrow> mcast_wf (gEthFwMcastObj s')
     \<and> (\<forall>m. shared_idx m (gEthFwMcastObj s') = shared_idx m (gEthFwMcastObj s))
     \<and> (\<forall>m. m \<noteq> mac \<longrightarrow> shared_ref m (gEthFwMcastObj s') = shared_ref m (gEthFwMcastObj s)
           \<and> excl_owner (gEthFwMcastObj s') m = excl_owner (gEthFwMcastObj s) m
           \<and> ale_has e m (calls s') = ale_has e m (calls s))
     \<and> packetDuplicationFlowIdx (gEthFwVepaObj s') = packetDuplicationFlowIdx (gEthFwVepaObj s)
     \<and> (if shared_idx mac (gEthFwMcastObj s) = None then owner_move e mac s s' else shared_move e mac s s')"

lemma shared_eff_frame:
  assumes "mcast_wf (gEthFwMcastObj s)" "shared_eff e mac s s'" "shared_move e mac s s'"
    and "shared_idx mac (gEthFwMcastObj s) \<noteq> None"
  shows "mcast_frame e mac s s'"
proof -
  have ex: "exclusiveTable (gEthFwMcastObj s') = exclusiveTable (gEthFwMcastObj s)"
    using assms(2) by (simp add: shared_eff_def)
  then have "excl_owner (gEthFwMcastObj s') = excl_owner (gEthFwMcastObj s)"
    by (simp add: excl_owner_def)
  with ex assms show ?thesis
    by (auto simp: mcast_frame_def mcast_wf_def shared_eff_def)
qed

lemma same_frame:
  assumes "mcast_wf (gEthFwMcastObj s)" "gEthFwMcastObj s' = gEthFwMcastObj s" "calls s' = calls s"
    and "packetDuplicationFlowIdx (gEthFwVepaObj s') = packetDuplicationFlowIdx (gEthFwVepaObj s)"
  shows "mcast_frame e mac s s'"
  using assms by (auto simp: mcast_frame_def owner_move_def shared_move_def split: option.split)

lemma frame_vepa:
  assumes "mcast_frame e mac s s1" "gEthFwMcastObj s' = gEthFwMcastObj s1" "calls s' = calls s1"
    and "packetDuplicationFlowIdx (gEthFwVepaObj s') = packetDuplicationFlowIdx (gEthFwVepaObj s1)"
  shows "mcast_frame e mac s s'"
  using assms(1) unfolding mcast_frame_def owner_move_def shared_move_def assms(2-4) .

lemma frame_vepa_pre:
  assumes "mcast_frame e mac s1 s'" "gEthFwMcastObj s1 = gEthFwMcastObj s" "calls s1 = calls s"
    and "packetDuplicationFlowIdx (gEthFwVepaObj s1) = packetDuplicationFlowIdx (gEthFwVepaObj s)"
  shows "mcast_frame e mac s s'"
  using assms(1) unfolding mcast_frame_def owner_move_def shared_move_def assms(2-4) .

lemma addShared_accept:
  assumes "accepting e"
  shows "fst (EthFwMcast_filterAddMacShared e i mac c s) = ETHFW_SOK \<or>
     (vepaSupport e \<and> packetDuplicationFlowIdx (gEthFwVepaObj s) = ETHFW_VEPA_PKT_DUP_FLOW_IDX_UNDEFINED)"
  by (simp add: EthFwMcast_filterAddMacShared_def EthFwVepa_addMcastPolicer_def thenOK_def
      Let_def case_prod_beta call_st_def acceptingD [OF assms])

lemma addShared_frame:
  assumes "mcast_wf (gEthFwMcastObj s)" "shared_idx mac (gEthFwMcastObj s) = Some i"
  shows "mcast_frame e mac s (snd (EthFwMcast_filterAddMacShared e i mac c s))"
proof (rule shared_eff_frame [OF assms(1) addShared_eff [OF assms(2)]])
  show "shared_move e mac s (snd (EthFwMcast_filterAddMacShared e i mac c s))"
    using addShared_ref [OF assms(2), of e c] addShared_accept [of e i mac c s]
    by (auto simp: shared_move_def Let_def case_prod_beta)
qed (simp add: assms)

lemma delShared_accept:
  assumes "accepting e"
  shows "fst (EthFwMcast_filterDelMacShared e i mac c s) = ETHFW_SOK \<or> shRefCnt (sharedTable (gEthFwMcastObj s) ! i) = 0"
  by (simp add: EthFwMcast_filterDelMacShared_def EthFwVepa_delMcastPolicer_def thenOK_def
      Let_def case_prod_beta call_st_def acceptingD [OF assms])

lemma delShared_frame:
  assumes "mcast_wf (gEthFwMcastObj s)" "shared_idx mac (gEthFwMcastObj s) = Some i"
  shows "mcast_frame e mac s (snd (EthFwMcast_filterDelMacShared e i mac c s))"
proof (rule shared_eff_frame [OF assms(1) delShared_eff [OF assms(2)]])
  show "shared_move e mac s (snd (EthFwMcast_filterDelMacShared e i mac c s))"
    using delShared_ref [OF assms(2), of e c]
    by (cases "fst (EthFwMcast_filterDelMacShared e i mac c s) = ETHFW_SOK")
      (auto simp: shared_move_def Let_def case_prod_beta)
qed (simp add: assms)

lemma addExcl_frame:
  assumes "mcast_wf (gEthFwMcastObj s)" "shared_idx mac (gEthFwMcastObj s) = None"
    and "excl_owner (gEthFwMcastObj s) mac = None"
  shows "mcast_frame e mac s (snd (EthFwMcast_filterAddMacExcl e port mac flow s))"
proof -
  let ?s' = "snd (EthFwMcast_filterAddMacExcl e port mac flow s)"
  note eff = addExcl_eff [OF assms, of e port flow]
  have "owner_move e mac s ?s'"
    using eff assms(3) acceptingD(7) [of e]
    by (cases "excl_free e mac s") (auto simp: owner_move_def Let_def case_prod_beta)
  moreover have "excl_owner (gEthFwMcastObj ?s') m = excl_owner (gEthFwMcastObj s) m" if "m \<noteq> mac" for m
    using eff that by (auto simp: Let_def case_prod_beta)
  ultimately show ?thesis
    using eff assms(2) by (simp add: mcast_frame_def excl_frame_def Let_def case_prod_beta)
qed

lemma owner_update_frame:
  assumes "mcast_wf (gEthFwMcastObj s)" "shared_idx mac (gEthFwMcastObj s) = None"
    and "slot_find ex_used exMacAddr mac (exclusiveTable (gEthFwMcastObj s)) = Some i"
    and "\<And>x. exMacAddr (f x) = exMacAddr x" "\<And>x. exIsFree (f x) = exIsFree x"
    and "owner_move e mac s (upd_excl i f s)"
  shows "mcast_frame e mac s (upd_excl i f s)"
  using owner_update [where f = f, OF assms(1,3,4,5)] assms(2,6) by (simp add: mcast_frame_def)

lemma filterAdd_frame:
  assumes "lib_spec e" "mcast_wf (gEthFwMcastObj s)"
  shows "mcast_frame e mac s (snd (EthFwMcast_filterAddMac e port mac vlan flow host s))"
proof (cases "EthFwMcast_isRsvdMcast e mac vlan (gEthFwMcastObj s)")
  case True
  then show ?thesis by (simp add: EthFwMcast_filterAddMac_def same_frame assms)
next
  case rs: False
  show ?thesis
  proof (cases "shared_idx mac (gEthFwMcastObj s)")
    case (Some i)
    note fr = addShared_frame [OF assms(2) Some, of e host]
    from rs Some show ?thesis
      by (auto simp: EthFwMcast_filterAddMac_def shared_search [OF assms(1)] thenOK_def fr intro: frame_vepa [OF fr])
  next
    case None
    show ?thesis
    proof (cases "slot_find ex_used exMacAddr mac (exclusiveTable (gEthFwMcastObj s))")
      case no: None
      then have "excl_owner (gEthFwMcastObj s) mac = None" by (simp add: owner_find)
      with rs None no show ?thesis
        by (simp add: EthFwMcast_filterAddMac_def shared_search [OF assms(1)] excl_search [OF assms(1)]
            addExcl_frame [OF assms(2) None])
    next
      case (Some i)
      let ?f = "\<lambda>x. x\<lparr>exRefCnt := exRefCnt x + 1\<rparr>"
      have "owner_move e mac s (upd_excl i ?f s)"
        using owner_update [where f = ?f, OF assms(2) Some] Some by (simp add: owner_move_def owner_find)
      from owner_update_frame [OF assms(2) None Some _ _ this] rs None Some assms(2) show ?thesis
        by (simp add: EthFwMcast_filterAddMac_def shared_search [OF assms(1)] excl_search [OF assms(1)] same_frame)
    qed
  qed
qed

lemma filterDel_excl_frame:
  assumes wf: "mcast_wf (gEthFwMcastObj s)" and sh: "shared_idx mac (gEthFwMcastObj s) = None"
    and i: "slot_find ex_used exMacAddr mac (exclusiveTable (gEthFwMcastObj s)) = Some i"
    and r: "exRefCnt (exclusiveTable (gEthFwMcastObj s) ! i) = 1"
  shows "mcast_frame e mac s
    (let s1 = upd_excl i (\<lambda>x. x\<lparr>exRefCnt := exRefCnt x - 1\<rparr>) s; (st, s2) = EthFwMcast_filterDelMacExcl e port mac s1
     in if st = ETHFW_SOK then upd_excl i (\<lambda>x. x\<lparr>exIsFree := True, exRefCnt := 0\<rparr>) s2
        else upd_excl i (\<lambda>x. x\<lparr>exRefCnt := 1\<rparr>) s2)"
proof -
  let ?c = "Ioctl (own_core e) (ALE_DEL_POLICER (excl_match e port mac) DelAll)"
  let ?s2 = "issue ?c (upd_excl i (\<lambda>x. x\<lparr>exRefCnt := exRefCnt x - 1\<rparr>) s)"
  have len: "i < length (exclusiveTable (gEthFwMcastObj s))" using slot_findD [OF i] by simp
  have ow: "excl_owner (gEthFwMcastObj s) mac = Some (exVirtPort (exclusiveTable (gEthFwMcastObj s) ! i), 1)"
    by (simp add: owner_find i r)
  have wf2: "mcast_wf (gEthFwMcastObj ?s2)"
    using owner_update [OF wf i, of "\<lambda>x. x\<lparr>exRefCnt := exRefCnt x - 1\<rparr>"] by simp
  have ow2: "m \<noteq> mac \<Longrightarrow> excl_owner (gEthFwMcastObj ?s2) m = excl_owner (gEthFwMcastObj s) m" for m
    using owner_update [OF wf i, of "\<lambda>x. x\<lparr>exRefCnt := exRefCnt x - 1\<rparr>"] by simp
  have i2: "slot_find ex_used exMacAddr mac (exclusiveTable (gEthFwMcastObj ?s2)) = Some i"
  proof -
    have "slot_inv ex_used exMacAddr (exclusiveTable (gEthFwMcastObj ?s2))"
      using wf2 by (simp add: mcast_wf_def)
    from slot_find_at [OF this, of i] slot_findD [OF i] show ?thesis by simp
  qed
  show ?thesis
  proof (cases "status_of e (calls s) ?c = ETHFW_SOK")
    case True
    let ?s' = "upd_excl i (\<lambda>x. x\<lparr>exIsFree := True, exRefCnt := 0\<rparr>) ?s2"
    from owner_free [OF wf2 i2, of "\<lambda>x. x\<lparr>exIsFree := True, exRefCnt := 0\<rparr>"]
    have "mcast_wf (gEthFwMcastObj ?s')" "excl_owner (gEthFwMcastObj ?s') = (excl_owner (gEthFwMcastObj ?s2))(mac := None)"
      by simp_all
    moreover have "\<not> ale_has e mac (calls ?s')" using True by (simp add: excl_match_def)
    ultimately show ?thesis using True sh ow ow2
      by (simp add: EthFwMcast_filterDelMacExcl_def call_st_def mcast_frame_def owner_move_def excl_match_def)
  next
    case False
    let ?s' = "upd_excl i (\<lambda>x. x\<lparr>exRefCnt := 1\<rparr>) ?s2"
    from owner_update [OF wf2 i2, of "\<lambda>x. x\<lparr>exRefCnt := 1\<rparr>"] len
    have "mcast_wf (gEthFwMcastObj ?s')" "excl_owner (gEthFwMcastObj ?s') = (excl_owner (gEthFwMcastObj ?s2))
        (mac \<mapsto> (exVirtPort (exclusiveTable (gEthFwMcastObj s) ! i), 1))"
      by simp_all
    moreover have "\<not> accepting e" using False acceptingD(6) by blast
    ultimately show ?thesis using False sh ow ow2
      by (simp add: EthFwMcast_filterDelMacExcl_def call_st_def mcast_frame_def owner_move_def excl_match_def)
  qed
qed

lemma filterDel_frame:
  assumes "lib_spec e" "mcast_wf (gEthFwMcastObj s)"
  shows "mcast_frame e mac s (snd (EthFwMcast_filterDelMac e port mac vlan host s))"
proof (cases "EthFwMcast_isRsvdMcast e mac vlan (gEthFwMcastObj s)")
  case True
  then show ?thesis by (simp add: EthFwMcast_filterDelMac_def same_frame assms)
next
  case rs: False
  show ?thesis
  proof (cases "shared_idx mac (gEthFwMcastObj s)")
    case (Some i)
    let ?s1 = "snd (with_vepa (EthFwVepa_delAddr e (shMacAddr (sharedTable (gEthFwMcastObj s) ! i)) vlan port) s)"
    have fr: "mcast_frame e mac s (snd (EthFwMcast_filterDelMacShared e i mac host ?s1))"
      by (rule frame_vepa_pre [OF delShared_frame]) (simp_all add: assms Some)
    have same: "mcast_frame e mac s ?s1" by (rule same_frame) (simp_all add: assms)
    note fr0 = delShared_frame [OF assms(2) Some, of e host]
    from rs Some fr same fr0 show ?thesis
      by (simp add: EthFwMcast_filterDelMac_def shared_search [OF assms(1)] thenOK_def Let_def)
  next
    case None
    show ?thesis
    proof (cases "slot_find ex_used exMacAddr mac (exclusiveTable (gEthFwMcastObj s))")
      case no: None
      with rs None show ?thesis
        by (simp add: EthFwMcast_filterDelMac_def shared_search [OF assms(1)] excl_search [OF assms(1)]
            same_frame assms)
    next
      case (Some i)
      let ?f = "\<lambda>x. x\<lparr>exRefCnt := exRefCnt x - 1\<rparr>" and ?x = "exclusiveTable (gEthFwMcastObj s) ! i"
      have same: "mcast_frame e mac s s" by (rule same_frame) (simp_all add: assms)
      have dec: "mcast_frame e mac s (upd_excl i ?f s)" if "1 < exRefCnt ?x"
      proof (rule owner_update_frame [OF assms(2) None Some])
        have "exRefCnt ?x \<noteq> 0" "exRefCnt ?x \<noteq> 1" using that by auto
        then show "owner_move e mac s (upd_excl i ?f s)"
          using owner_update [where f = ?f, OF assms(2) Some] Some by (simp add: owner_move_def owner_find)
      qed simp_all
      obtain st s2 where del: "EthFwMcast_filterDelMacExcl e port mac (upd_excl i ?f s) = (st, s2)"
        by fastforce
      note one = filterDel_excl_frame [OF assms(2) None Some, of e port]
      from same dec one rs None Some show ?thesis
        by (auto simp: EthFwMcast_filterDelMac_def shared_search [OF assms(1)] excl_search [OF assms(1)]
            Let_def del)
    qed
  qed
qed

lemma mcast_do_frame:
  "lib_spec e \<Longrightarrow> mcast_wf (gEthFwMcastObj s) \<Longrightarrow> mcast_frame e (event_mac ev) s (mcast_do e ev s)"
  by (cases ev) (simp_all add: filterAdd_frame filterDel_frame)

section \<open>Initialisation\<close>

lemma shared_cfg_loop_zero:
  "\<forall>x\<in>set t. shRefCnt x = 0 \<Longrightarrow> \<forall>x\<in>set (fst (snd (shared_cfg_loop e cs i t n))). shRefCnt x = 0"
proof (induction e cs i t n rule: shared_cfg_loop.induct)
  case (2 e c cs i t len)
  have "\<forall>x\<in>set (t[i := \<lparr>shMacAddr = cfgMacAddr c, shPortMask = cfgPortMask c,
      shVirtPortMask = cfgVirtPortMask c, shRefCnt = 0\<rparr>]). shRefCnt x = 0"
    using 2(2) set_update_subset_insert [of t i] by fastforce
  with 2 show ?case by simp
qed simp

lemma mcast_init_facts:
  "mcast_wf (gEthFwMcastObj (snd (EthFwMcast_init e cfg sw mo s)))"
  "excl_owner (gEthFwMcastObj (snd (EthFwMcast_init e cfg sw mo s))) = Map.empty"
  "shared_ref m (gEthFwMcastObj (snd (EthFwMcast_init e cfg sw mo s))) = 0"
proof -
  define ob where "ob = gEthFwMcastObj (snd (EthFwMcast_init e cfg sw mo s))"
  let ?ob1 = "snd (EthFwMcast_getSharedMcastCfg e cfg mcast_zero)"
  have sh: "exclusiveTable ob = map (\<lambda>x. x\<lparr>exIsFree := True\<rparr>) (exclusiveTable ?ob1)"
    "sharedTable ob = sharedTable ?ob1"
    by (auto simp: ob_def EthFwMcast_init_def EthFwMcast_getRsvdMcastCfg_def Let_def thenOK_def
        split: prod.split if_splits)
  have free: "\<forall>x\<in>set (exclusiveTable ob). \<not> ex_used x" by (simp add: sh)
  then have owner: "excl_owner ob = Map.empty"
    unfolding excl_owner_def by (rule slot_all_free)
  have wf: "mcast_wf ob"
    using slot_all_free(1) [OF free] owner by (simp add: mcast_wf_def)
  have "\<forall>x\<in>set (sharedTable mcast_zero). shRefCnt x = 0"
    by (simp add: mcast_zero_def)
  with shared_cfg_loop_zero [OF this, of e "cfgShared cfg" 0 0]
  have "\<forall>x\<in>set (sharedTable ob). shRefCnt x = 0"
    unfolding sh(2) by (auto simp: EthFwMcast_getSharedMcastCfg_def Let_def split: prod.split)
  then have "shared_ref m ob = 0"
    by (auto simp: shared_ref_def dest: shared_idxD split: option.split)
  with owner wf show "mcast_wf (gEthFwMcastObj (snd (EthFwMcast_init e cfg sw mo s)))"
    "excl_owner (gEthFwMcastObj (snd (EthFwMcast_init e cfg sw mo s))) = Map.empty"
    "shared_ref m (gEthFwMcastObj (snd (EthFwMcast_init e cfg sw mo s))) = 0"
    by (simp_all add: ob_def)
qed

section \<open>The ALE and the tables agree\<close>

lemma shared_none_ref: "shared_idx m ob = None \<Longrightarrow> shared_ref m ob = 0"
  by (simp add: shared_ref_def)

lemma shared_safe_step:
  assumes fr: "mcast_frame e mac s s'" and inv: "\<forall>m. shared_ref m (gEthFwMcastObj s) \<noteq> 0 \<longrightarrow> ale_has e m (calls s)"
  shows "\<forall>m. shared_ref m (gEthFwMcastObj s') \<noteq> 0 \<longrightarrow> ale_has e m (calls s')"
proof (intro allI impI)
  fix m assume r: "shared_ref m (gEthFwMcastObj s') \<noteq> 0"
  show "ale_has e m (calls s')"
  proof (cases "m = mac")
    case False
    with fr r inv show ?thesis by (simp add: mcast_frame_def)
  next
    case True
    have "shared_idx mac (gEthFwMcastObj s) \<noteq> None"
      using fr r True shared_none_ref [of mac "gEthFwMcastObj s'"] by (auto simp: mcast_frame_def)
    then have "shared_move e mac s s'" using fr by (simp add: mcast_frame_def)
    with r True inv show ?thesis
      by (auto simp: shared_move_def Let_def split: if_splits)
  qed
qed

lemma shared_safe_run:
  assumes "lib_spec e" "mcast_wf (gEthFwMcastObj s)"
    and "\<forall>m. shared_ref m (gEthFwMcastObj s) \<noteq> 0 \<longrightarrow> ale_has e m (calls s)"
  shows "mcast_wf (gEthFwMcastObj (fold (mcast_do e) evs s)) \<and>
    (\<forall>m. shared_ref m (gEthFwMcastObj (fold (mcast_do e) evs s)) \<noteq> 0 \<longrightarrow> ale_has e m (calls (fold (mcast_do e) evs s)))"
  using assms(2,3)
proof (induction evs arbitrary: s)
  case (Cons ev evs)
  note fr = mcast_do_frame [OF assms(1) Cons.prems(1), of ev]
  have "mcast_wf (gEthFwMcastObj (mcast_do e ev s))" using fr by (simp add: mcast_frame_def)
  from Cons.IH [OF this shared_safe_step [OF fr Cons.prems(2)]] show ?case by simp
qed simp

text \<open>Property C2 (safety).  From initialisation, whatever requests arrive in whatever order and however
  the driver answers them: a shared address somebody references has its entry in the ALE, no two
  entries of the exclusive table hold the same address, and no exclusive address is also shared.\<close>

theorem mcast_shared_safe:
  assumes "lib_spec e"
  shows "let s' = fold (mcast_do e) evs (snd (EthFwMcast_init e cfg sw mo s)); ob = gEthFwMcastObj s'
    in (\<forall>m. shared_ref m ob \<noteq> 0 \<longrightarrow> ale_has e m (calls s'))
     \<and> slot_inv ex_used exMacAddr (exclusiveTable ob)
     \<and> (\<forall>m. excl_owner ob m \<noteq> None \<longrightarrow> shared_idx m ob = None)"
  using shared_safe_run [OF assms mcast_init_facts(1), of e cfg sw mo s evs]
  by (simp add: Let_def mcast_init_facts mcast_wf_def)

definition mcast_demo :: mcast_st where
  "mcast_demo = \<lparr>calls = [], faults = [], gEthFwArpObj = gEthFwArpObj arp_demo,
     gEthFwVepaObj = gEthFwVepaObj vepa_demo2, gEthFwMcastObj = mcast_zero\<rparr>"

definition mdns :: eth_addr where "mdns = EthAddr 1 0 0x5E 0 0 0xFB"
definition ptp :: eth_addr where "ptp = EthAddr 1 0x1B 0x19 0 0 0"
definition lldp :: eth_addr where "lldp = EthAddr 1 0x80 0xC2 0 0 0xE"

definition mcast_cfg :: EthFwMcast_Cfg where
  "mcast_cfg = \<lparr>cfgShared = [\<lparr>cfgMacAddr = mdns, cfgPortMask = 7, cfgVirtPortMask = 0\<rparr>], cfgAddCb = True,
     cfgDelCb = True, cfgRsvd = [\<lparr>rsMacAddr = lldp, rsVlanId = 0, rsPortMask = 1\<rparr>]\<rparr>"

theorem mcast_shared_safe_witness:
  "let s' = fold (mcast_do ok_env) [FilterAdd 25 mdns 0 3 1, FilterAdd 26 mdns 0 4 2, FilterDel 25 mdns 0 1]
              (snd (EthFwMcast_init ok_env mcast_cfg 3 4 mcast_demo))
   in slot_inv ex_used exMacAddr (exclusiveTable (gEthFwMcastObj s'))"
  using mcast_shared_safe [OF lib_spec_ok_env, of "[FilterAdd 25 mdns 0 3 1, FilterAdd 26 mdns 0 4 2, FilterDel 25 mdns 0 1]"
    mcast_cfg 3 4 mcast_demo]
  by (simp add: Let_def)

definition mcast_acc :: "env \<Rightarrow> nat \<Rightarrow> 'a mcast_st_scheme \<Rightarrow> bool" where
  "mcast_acc e n s \<longleftrightarrow> mcast_wf (gEthFwMcastObj s)
     \<and> (vepaSupport e \<longrightarrow> packetDuplicationFlowIdx (gEthFwVepaObj s) \<noteq> ETHFW_VEPA_PKT_DUP_FLOW_IDX_UNDEFINED)
     \<and> (\<forall>m. ale_has e m (calls s) \<longleftrightarrow>
           shared_ref m (gEthFwMcastObj s) \<noteq> 0 \<or> excl_owner (gEthFwMcastObj s) m \<noteq> None)
     \<and> (\<forall>m. unat (shared_ref m (gEthFwMcastObj s)) \<le> n)
     \<and> (\<forall>m p r. excl_owner (gEthFwMcastObj s) m = Some (p, r) \<longrightarrow> r \<noteq> 0 \<and> unat r \<le> n)"

lemma unat_bump:
  fixes r :: u32
  assumes "unat r \<le> n" "Suc n < 2 ^ 32"
  shows "unat (r + 1) = Suc (unat r)" "r + 1 \<noteq> 0"
proof -
  show *: "unat (r + 1) = Suc (unat r)"
    using assms by (subst unat_add_lem [THEN iffD1]) simp_all
  then show "r + 1 \<noteq> 0" by (metis nat.distinct(1) unsigned_0)
qed

lemma unat_drop: "(r :: u32) \<noteq> 0 \<Longrightarrow> unat (r - 1) = unat r - 1"
  by (simp add: unat_minus_one)

lemma mcast_acc_step:
  assumes fr: "mcast_frame e mac s s'" and ac: "accepting e" and inv: "mcast_acc e n s" and n: "Suc n < 2 ^ 32"
  shows "mcast_acc e (Suc n) s'"
proof -
  let ?ob = "gEthFwMcastObj s" and ?ob' = "gEthFwMcastObj s'"
  have wf: "mcast_wf ?ob" "mcast_wf ?ob'" using fr inv by (simp_all add: mcast_frame_def mcast_acc_def)
  have flow: "vepaSupport e \<longrightarrow> packetDuplicationFlowIdx (gEthFwVepaObj s) \<noteq> ETHFW_VEPA_PKT_DUP_FLOW_IDX_UNDEFINED"
    using inv by (simp add: mcast_acc_def)
  have same: "shared_ref m ?ob' = shared_ref m ?ob" "excl_owner ?ob' m = excl_owner ?ob m"
    "ale_has e m (calls s') = ale_has e m (calls s)" if "m \<noteq> mac" for m
    using fr that by (simp_all add: mcast_frame_def)
  have old: "ale_has e mac (calls s) \<longleftrightarrow> shared_ref mac ?ob \<noteq> 0 \<or> excl_owner ?ob mac \<noteq> None"
    "unat (shared_ref mac ?ob) \<le> n"
    "excl_owner ?ob mac = Some (p, r) \<Longrightarrow> r \<noteq> 0 \<and> unat r \<le> n" for p r
    using inv by (simp_all add: mcast_acc_def)
  have new: "(ale_has e mac (calls s') \<longleftrightarrow> shared_ref mac ?ob' \<noteq> 0 \<or> excl_owner ?ob' mac \<noteq> None)
     \<and> unat (shared_ref mac ?ob') \<le> Suc n
     \<and> (\<forall>p r. excl_owner ?ob' mac = Some (p, r) \<longrightarrow> r \<noteq> 0 \<and> unat r \<le> Suc n)"
  proof (cases "shared_idx mac ?ob")
    case None
    then have ref: "shared_ref mac ?ob = 0" "shared_ref mac ?ob' = 0" and mv: "owner_move e mac s s'"
      using fr by (simp_all add: shared_none_ref mcast_frame_def)
    show ?thesis
    proof (cases "excl_owner ?ob mac")
      case None
      with mv ref old(1) ac show ?thesis by (auto simp: owner_move_def Let_def)
    next
      case (Some pr)
      then obtain p r where w: "excl_owner ?ob mac = Some (p, r)" by (cases pr) simp
      note r = old(3) [OF w]
      have "r \<noteq> 1 \<Longrightarrow> r - 1 \<noteq> 0" by simp
      with mv ref old(1) ac w r unat_bump [of r n] n unat_drop [of r] show ?thesis
        by (auto simp: owner_move_def Let_def)
    qed
  next
    case (Some i)
    then have ow: "excl_owner ?ob mac = None" "excl_owner ?ob' mac = None" and mv: "shared_move e mac s s'"
      using fr wf unfolding mcast_frame_def mcast_wf_def by (metis option.distinct(1))+
    have "shared_ref mac ?ob \<noteq> 1 \<Longrightarrow> shared_ref mac ?ob - 1 \<noteq> 0" by simp
    with mv ow old(1,2) ac flow unat_bump [OF old(2) n] unat_drop [of "shared_ref mac ?ob"] show ?thesis
      by (auto simp: shared_move_def Let_def split: if_splits)
  qed
  show ?thesis
    unfolding mcast_acc_def
  proof (intro conjI allI)
    fix m
    show "ale_has e m (calls s') \<longleftrightarrow> shared_ref m ?ob' \<noteq> 0 \<or> excl_owner ?ob' m \<noteq> None"
      using new same [of m] inv by (cases "m = mac") (simp_all add: mcast_acc_def)
    show "unat (shared_ref m ?ob') \<le> Suc n"
      using new same [of m] inv by (cases "m = mac") (simp_all add: mcast_acc_def le_SucI)
    show "excl_owner ?ob' m = Some (p, r) \<longrightarrow> r \<noteq> 0 \<and> unat r \<le> Suc n" for p r
      using new same [of m] inv by (cases "m = mac") (auto simp: mcast_acc_def le_SucI)
  qed (use wf flow fr in \<open>simp_all add: mcast_frame_def\<close>)
qed

lemma mcast_acc_run:
  assumes "lib_spec e" "accepting e" "mcast_acc e n s" "n + length evs < 2 ^ 32"
  shows "mcast_acc e (n + length evs) (fold (mcast_do e) evs s)"
  using assms(3,4)
proof (induction evs arbitrary: s n)
  case (Cons ev evs)
  have wf: "mcast_wf (gEthFwMcastObj s)" using Cons.prems by (simp add: mcast_acc_def)
  have "mcast_acc e (Suc n) (mcast_do e ev s)"
    by (rule mcast_acc_step [OF mcast_do_frame [OF assms(1) wf] assms(2) Cons.prems(1)]) (use Cons.prems in simp)
  from Cons.IH [OF this] Cons.prems show ?case by simp
qed simp

text \<open>Property C1 (invariant).  With a driver that accepts what it is asked and whose lookups answer from
  the entries it holds, and (with VEPA) the duplication flow set, after any sequence of requests the
  ALE holds a multicast entry for exactly the shared addresses that are referenced and the exclusive
  addresses that have an owner: nothing leaks and nothing is missing.  The bound on the number of
  requests is the width of the reference counters.\<close>

theorem mcast_ale_exact:
  assumes "lib_spec e" "accepting e" "length evs < 2 ^ 32" "\<forall>m. \<not> ale_has e m (calls s)"
    and "vepaSupport e \<longrightarrow> packetDuplicationFlowIdx (gEthFwVepaObj s) \<noteq> ETHFW_VEPA_PKT_DUP_FLOW_IDX_UNDEFINED"
  shows "let s' = fold (mcast_do e) evs (snd (EthFwMcast_init e cfg sw mo s)); ob = gEthFwMcastObj s'
    in \<forall>m. ale_has e m (calls s') \<longleftrightarrow> shared_ref m ob \<noteq> 0 \<or> excl_owner ob m \<noteq> None"
proof -
  have "calls (snd (EthFwMcast_init e cfg sw mo s)) = calls s"
    "gEthFwVepaObj (snd (EthFwMcast_init e cfg sw mo s)) = gEthFwVepaObj s"
    by (simp_all add: EthFwMcast_init_def Let_def split: prod.split)
  with assms(4,5) have "mcast_acc e 0 (snd (EthFwMcast_init e cfg sw mo s))"
    by (simp add: mcast_acc_def mcast_init_facts)
  from mcast_acc_run [OF assms(1,2) this, of evs] assms(3) show ?thesis
    by (simp add: mcast_acc_def Let_def)
qed

text \<open>An environment with such a driver.\<close>

definition ale_env :: env where
  "ale_env = ok_env\<lparr>status_of := \<lambda>h c. case c of
     Ioctl k io \<Rightarrow> (case io of ALE_LOOKUP_MCAST a v \<Rightarrow>
         if fold (mcast_step a) h False then ETHFW_SOK else ETHFW_ENOTFOUND | _ \<Rightarrow> ETHFW_SOK)
   | _ \<Rightarrow> ETHFW_SOK\<rparr>"

lemma ale_env_run: "ale_run ale_env m h cs b = fold (mcast_step m) cs b"
proof (induction cs arbitrary: h b)
  case (Cons c cs)
  have "status_of ale_env h c \<noteq> ETHFW_SOK \<Longrightarrow> mcast_step m c b = b"
    by (auto simp: ale_env_def split: call.splits ioctl.splits)
  with Cons show ?case by simp
qed simp

lemma ale_env_spec: "lib_spec ale_env" "accepting ale_env"
proof -
  show "lib_spec ale_env" by (simp add: lib_spec_def ale_env_def ok_env_def)
  have *: "ale_has ale_env a h = fold (mcast_step a) h False" for a h
    by (simp add: ale_has_def ale_env_run)
  show "accepting ale_env"
    unfolding accepting_def * by (simp add: ale_env_def)
qed

theorem mcast_ale_exact_witness:
  "let s' = fold (mcast_do ale_env) [FilterAdd 25 mdns 0 3 1, FilterAdd 26 ptp 0 4 2]
              (snd (EthFwMcast_init ale_env mcast_cfg 3 4 mcast_demo))
   in \<forall>m. ale_has ale_env m (calls s') \<longleftrightarrow>
       shared_ref m (gEthFwMcastObj s') \<noteq> 0 \<or> excl_owner (gEthFwMcastObj s') m \<noteq> None"
proof -
  have "\<forall>m. \<not> ale_has ale_env m (calls mcast_demo)"
    by (simp add: mcast_demo_def ale_has_def)
  moreover have "packetDuplicationFlowIdx (gEthFwVepaObj mcast_demo) \<noteq> ETHFW_VEPA_PKT_DUP_FLOW_IDX_UNDEFINED"
    using vepa_demo2_ready(1) by (simp add: mcast_demo_def vepa_ready_def)
  ultimately show ?thesis
    using mcast_ale_exact [OF ale_env_spec, of "[FilterAdd 25 mdns 0 3 1, FilterAdd 26 ptp 0 4 2]" mcast_demo mcast_cfg 3 4]
    by (simp add: Let_def)
qed

section \<open>What the operations answer\<close>

lemma filterDel_excl_owner:
  assumes wf: "mcast_wf (gEthFwMcastObj s)"
    and i: "slot_find ex_used exMacAddr mac (exclusiveTable (gEthFwMcastObj s)) = Some i"
  shows "let (st, s2) = EthFwMcast_filterDelMacExcl e port mac (upd_excl i (\<lambda>x. x\<lparr>exRefCnt := exRefCnt x - 1\<rparr>) s)
     in calls s2 = calls s @ [Ioctl (own_core e) (ALE_DEL_POLICER (excl_match e port mac) DelAll)]
      \<and> excl_owner (gEthFwMcastObj (upd_excl i (\<lambda>x. x\<lparr>exIsFree := True, exRefCnt := 0\<rparr>) s2)) mac = None
      \<and> excl_owner (gEthFwMcastObj (upd_excl i (\<lambda>x. x\<lparr>exRefCnt := 1\<rparr>) s2)) mac
          = Some (exVirtPort (exclusiveTable (gEthFwMcastObj s) ! i), 1)"
proof -
  let ?c = "Ioctl (own_core e) (ALE_DEL_POLICER (excl_match e port mac) DelAll)"
  let ?s2 = "issue ?c (upd_excl i (\<lambda>x. x\<lparr>exRefCnt := exRefCnt x - 1\<rparr>) s)"
  have len: "i < length (exclusiveTable (gEthFwMcastObj s))" using slot_findD [OF i] by simp
  have wf2: "mcast_wf (gEthFwMcastObj ?s2)"
    using owner_update [OF wf i, of "\<lambda>x. x\<lparr>exRefCnt := exRefCnt x - 1\<rparr>"] by simp
  then have "slot_inv ex_used exMacAddr (exclusiveTable (gEthFwMcastObj ?s2))" by (simp add: mcast_wf_def)
  from slot_find_at [OF this, of i] slot_findD [OF i]
  have i2: "slot_find ex_used exMacAddr mac (exclusiveTable (gEthFwMcastObj ?s2)) = Some i" by simp
  show ?thesis
    using owner_free [OF wf2 i2, of "\<lambda>x. x\<lparr>exIsFree := True, exRefCnt := 0\<rparr>"]
      owner_update [OF wf2 i2, of "\<lambda>x. x\<lparr>exRefCnt := 1\<rparr>"] len
    by (simp add: EthFwMcast_filterDelMacExcl_def call_st_def)
qed

text \<open>An address that is reserved on the VLAN is refused with \<open>EBADARGS\<close> by both
  operations, with no effect.  For an exclusive address with an owner: the owner's further requests
  only count, without a driver call; anybody else is refused with \<open>EFAIL\<close>; only the owner's release
  counts down, and its last release asks the driver to delete the classifier with the ALE entry.
  Releasing an address nobody owns is \<open>EFAIL\<close>.\<close>

theorem mcast_exclusive_ops:
  assumes "lib_spec e" "mcast_wf (gEthFwMcastObj s)" "shared_idx mac (gEthFwMcastObj s) = None"
  shows "let ob = gEthFwMcastObj s; (st, s') = EthFwMcast_filterAddMac e port mac vlan flow host s;
             (st2, s2) = EthFwMcast_filterDelMac e port mac vlan host s
    in if EthFwMcast_isRsvdMcast e mac vlan ob
       then st = ETHFW_EBADARGS \<and> s' = s \<and> st2 = ETHFW_EBADARGS \<and> s2 = s
       else (case excl_owner ob mac of
           None \<Rightarrow> st2 = ETHFW_EFAIL \<and> s2 = s \<and>
             (st = ETHFW_SOK \<longrightarrow> excl_owner (gEthFwMcastObj s') mac = Some (port, 1) \<and> ale_has e mac (calls s'))
         | Some (p, r) \<Rightarrow>
             (if p = port
              then st = ETHFW_SOK \<and> calls s' = calls s \<and> excl_owner (gEthFwMcastObj s') mac = Some (p, r + 1)
                \<and> (1 < r \<longrightarrow> st2 = ETHFW_SOK \<and> calls s2 = calls s \<and> excl_owner (gEthFwMcastObj s2) mac = Some (p, r - 1))
                \<and> (r = 1 \<longrightarrow> calls s2 = calls s @ [Ioctl (own_core e) (ALE_DEL_POLICER (excl_match e port mac) DelAll)]
                      \<and> excl_owner (gEthFwMcastObj s2) mac = (if st2 = ETHFW_SOK then None else Some (p, 1)))
              else st = ETHFW_EFAIL \<and> s' = s \<and> st2 = ETHFW_EFAIL \<and> s2 = s))"
proof -
  have owner: "excl_owner (gEthFwMcastObj s) mac = None \<longleftrightarrow> slot_find ex_used exMacAddr mac (exclusiveTable (gEthFwMcastObj s)) = None"
    by (simp add: owner_find split: option.split)
  show ?thesis
  proof (cases "EthFwMcast_isRsvdMcast e mac vlan (gEthFwMcastObj s)")
    case True
    then show ?thesis by (simp add: EthFwMcast_filterAddMac_def EthFwMcast_filterDelMac_def)
  next
    case rs: False
    show ?thesis
    proof (cases "slot_find ex_used exMacAddr mac (exclusiveTable (gEthFwMcastObj s))")
      case None
      with owner have "excl_owner (gEthFwMcastObj s) mac = None" by simp
      with rs None assms addExcl_eff [OF assms(2,3) this, of e port flow] show ?thesis
        by (auto simp: EthFwMcast_filterAddMac_def EthFwMcast_filterDelMac_def shared_search excl_search
            case_prod_beta Let_def split: if_splits)
    next
      case (Some i)
      let ?x = "exclusiveTable (gEthFwMcastObj s) ! i"
      note up = owner_update [OF assms(2) Some]
      from up [of "\<lambda>x. x\<lparr>exRefCnt := exRefCnt x + 1\<rparr>"] up [of "\<lambda>x. x\<lparr>exRefCnt := exRefCnt x - 1\<rparr>"]
      have ow: "excl_owner (gEthFwMcastObj (upd_excl i (\<lambda>x. x\<lparr>exRefCnt := exRefCnt x + 1\<rparr>) s)) mac = Some (exVirtPort ?x, exRefCnt ?x + 1)"
        "excl_owner (gEthFwMcastObj (upd_excl i (\<lambda>x. x\<lparr>exRefCnt := exRefCnt x - 1\<rparr>) s)) mac = Some (exVirtPort ?x, exRefCnt ?x - 1)"
        by simp_all
      note last = filterDel_excl_owner [OF assms(2) Some, of e port]
      obtain st s2 where del: "EthFwMcast_filterDelMacExcl e port mac (upd_excl i (\<lambda>x. x\<lparr>exRefCnt := exRefCnt x - 1\<rparr>) s) = (st, s2)"
        by fastforce
      from rs Some assms ow last show ?thesis
        by (auto simp: EthFwMcast_filterAddMac_def EthFwMcast_filterDelMac_def shared_search excl_search owner_find
            Let_def del split: if_splits)
    qed
  qed
qed

lemma mcast_demo_wf: "mcast_wf (gEthFwMcastObj (snd (EthFwMcast_init e cfg sw mo mcast_demo)))"
  by (rule mcast_init_facts)

lemma demo_macs: "mdns \<noteq> ptp" "lldp \<noteq> ptp" "lldp \<noteq> mdns" "odd (unat (octet0 mdns))" "odd (unat (octet0 ptp))"
    "odd (unat (octet0 lldp))"
  by (simp_all add: mdns_def lldp_def ptp_def)

lemma mcast_demo_tables:
  assumes "lib_spec e"
  shows "shared_idx ptp (gEthFwMcastObj (snd (EthFwMcast_init e mcast_cfg 3 4 mcast_demo))) = None"
    and "shared_idx mdns (gEthFwMcastObj (snd (EthFwMcast_init e mcast_cfg 3 4 mcast_demo))) = Some 0"
    and "mac \<noteq> lldp \<Longrightarrow> \<not> EthFwMcast_isRsvdMcast e mac vlan (gEthFwMcastObj (snd (EthFwMcast_init e mcast_cfg 3 4 mcast_demo)))"
    and "first_idx exIsFree (exclusiveTable (gEthFwMcastObj (snd (EthFwMcast_init e mcast_cfg 3 4 mcast_demo)))) = Some 0"
    and "calls (snd (EthFwMcast_init e mcast_cfg 3 4 mcast_demo)) = []"
    and "gEthFwVepaObj (snd (EthFwMcast_init e mcast_cfg 3 4 mcast_demo)) = gEthFwVepaObj vepa_demo2"
  using demo_macs assms
  by (simp_all add: EthFwMcast_init_def mcast_cfg_def EthFwMcast_getSharedMcastCfg_def EthFwMcast_getRsvdMcastCfg_def
      mcast_zero_def ETHFW_SHARED_MCAST_LIST_LEN_def ETHFW_RSVD_MCAST_LIST_LEN_def ETHFW_EXCLUSIVE_MCAST_LIST_LEN_def
      shared_idx_def EthFwMcast_isRsvdMcast_def Let_def numeral_eq_Suc mcast_demo_def)

theorem mcast_exclusive_ops_witness:
  "let s = snd (EthFwMcast_init ok_env mcast_cfg 3 4 mcast_demo)
   in fst (EthFwMcast_filterDelMac ok_env 25 ptp 0 1 s) = ETHFW_EFAIL"
  using mcast_exclusive_ops [OF lib_spec_ok_env mcast_demo_wf mcast_demo_tables(1) [OF lib_spec_ok_env], of 25 0 3 1]
    mcast_demo_tables(3) [OF lib_spec_ok_env, of ptp 0] demo_macs mcast_init_facts(2) [of ok_env mcast_cfg 3 4 mcast_demo]
  by (simp add: Let_def case_prod_beta)

text \<open>A claim of a free exclusive address takes its table entry before the ALE is
  asked; when the driver refuses the ALE entry the claim fails but the entry stays taken, and the
  same client's next claim answers OK without asking the driver again, the ALE still unchanged.\<close>

theorem mcast_exclusive_leak:
  assumes "lib_spec e" "mcast_wf (gEthFwMcastObj s)" "shared_idx mac (gEthFwMcastObj s) = None"
    and "\<not> EthFwMcast_isRsvdMcast e mac vlan (gEthFwMcastObj s)" "excl_owner (gEthFwMcastObj s) mac = None"
    and "excl_free e mac s"
    and "status_of e (calls s @ [Ioctl (own_core e) (ALE_LOOKUP_MCAST mac 0)])
           (Ioctl (own_core e) (ALE_ADD_MCAST mac 0 (excl_portMask e port (gEthFwMcastObj s)))) \<noteq> ETHFW_SOK"
  shows "let (st1, s1) = EthFwMcast_filterAddMac e port mac vlan flow host s;
             (st2, s2) = EthFwMcast_filterAddMac e port mac vlan flow host s1
    in st1 \<noteq> ETHFW_SOK \<and> st2 = ETHFW_SOK \<and> calls s2 = calls s1
     \<and> ale_has e mac (calls s2) = ale_has e mac (calls s) \<and> excl_owner (gEthFwMcastObj s2) mac = Some (port, 2)"
proof -
  let ?s1 = "snd (EthFwMcast_filterAddMac e port mac vlan flow host s)"
  have no: "slot_find ex_used exMacAddr mac (exclusiveTable (gEthFwMcastObj s)) = None"
    using assms(5) by (simp add: owner_find split: option.splits)
  have add: "EthFwMcast_filterAddMac e port mac vlan flow host s = EthFwMcast_filterAddMacExcl e port mac flow s"
    using assms(1,3,4) no by (simp add: EthFwMcast_filterAddMac_def shared_search excl_search)
  note eff = addExcl_eff [OF assms(2,3,5), of e port flow]
  obtain i where i: "first_idx exIsFree (exclusiveTable (gEthFwMcastObj s)) = Some i"
    using assms(6) by (auto simp: excl_free_def)
  have portMask: "excl_portMask e port (gEthFwMcastObj (upd_excl i f (issue c s))) = excl_portMask e port (gEthFwMcastObj s)"
    for f c by (simp add: excl_portMask_def)
  have st: "fst (EthFwMcast_filterAddMacExcl e port mac flow s) \<noteq> ETHFW_SOK"
    and ale: "ale_has e mac (calls (snd (EthFwMcast_filterAddMacExcl e port mac flow s))) = ale_has e mac (calls s)"
    and tabs: "rsvdTable (gEthFwMcastObj ?s1) = rsvdTable (gEthFwMcastObj s)" "rsvdLen (gEthFwMcastObj ?s1) = rsvdLen (gEthFwMcastObj s)"
    using assms(6,7) i
    by (simp_all add: add EthFwMcast_filterAddMacExcl_def Let_def call_st_def excl_free_def thenOK_def portMask)
  have s1: "mcast_wf (gEthFwMcastObj ?s1)" "shared_idx mac (gEthFwMcastObj ?s1) = None"
    "excl_owner (gEthFwMcastObj ?s1) mac = Some (port, 1)"
    using eff assms(3,6) by (simp_all add: add excl_frame_def case_prod_beta)
  have rs: "\<not> EthFwMcast_isRsvdMcast e mac vlan (gEthFwMcastObj ?s1)"
    using assms(4) tabs by (simp add: EthFwMcast_isRsvdMcast_def)
  obtain k where k: "slot_find ex_used exMacAddr mac (exclusiveTable (gEthFwMcastObj ?s1)) = Some k"
    and x: "exVirtPort (exclusiveTable (gEthFwMcastObj ?s1) ! k) = port" "exRefCnt (exclusiveTable (gEthFwMcastObj ?s1) ! k) = 1"
    using s1(3) by (auto simp: owner_find split: option.splits)
  from owner_update [OF s1(1) k, of "\<lambda>x. x\<lparr>exRefCnt := exRefCnt x + 1\<rparr>"] x
  have "EthFwMcast_filterAddMac e port mac vlan flow host ?s1 = (ETHFW_SOK, upd_excl k (\<lambda>x. x\<lparr>exRefCnt := exRefCnt x + 1\<rparr>) ?s1)"
    "excl_owner (gEthFwMcastObj (upd_excl k (\<lambda>x. x\<lparr>exRefCnt := exRefCnt x + 1\<rparr>) ?s1)) mac = Some (port, 2)"
    using rs s1(2) k assms(1)
    by (simp_all add: EthFwMcast_filterAddMac_def [of e port mac vlan flow host ?s1] shared_search excl_search)
  then show ?thesis
    using st ale by (simp add: add case_prod_beta)
qed

text \<open>A driver that finds no entry and refuses to add one.\<close>

definition full_env :: env where
  "full_env = ok_env\<lparr>status_of := \<lambda>h c. case c of
     Ioctl k (ALE_LOOKUP_MCAST a v) \<Rightarrow> ETHFW_ENOTFOUND | Ioctl k (ALE_ADD_MCAST a v m) \<Rightarrow> ETHFW_EALLOC
   | _ \<Rightarrow> ETHFW_SOK\<rparr>"

theorem mcast_exclusive_leak_witness:
  "let s = snd (EthFwMcast_init full_env mcast_cfg 3 4 mcast_demo);
       (st1, s1) = EthFwMcast_filterAddMac full_env 25 ptp 0 3 1 s;
       (st2, s2) = EthFwMcast_filterAddMac full_env 25 ptp 0 3 1 s1
   in st1 \<noteq> ETHFW_SOK \<and> st2 = ETHFW_SOK \<and> calls s2 = calls s1"
proof -
  have e: "lib_spec full_env" by (simp add: lib_spec_def full_env_def ok_env_def)
  note tab = mcast_demo_tables [OF e]
  have "excl_free full_env ptp (snd (EthFwMcast_init full_env mcast_cfg 3 4 mcast_demo))"
    by (simp add: excl_free_def tab) (simp add: full_env_def)
  then show ?thesis
    using mcast_exclusive_leak [OF e mcast_demo_wf tab(1), of 0 25 3 1] tab(3) [of ptp 0] demo_macs
      mcast_init_facts(2) [of full_env mcast_cfg 3 4 mcast_demo]
    by (simp add: Let_def case_prod_beta full_env_def)
qed

lemma rsvd_frame:
  "EthFwMcast_isRsvdMcast e m v (gEthFwMcastObj (snd (EthFwMcast_filterAddMacShared e i mac c s))) = EthFwMcast_isRsvdMcast e m v (gEthFwMcastObj s)"
  "EthFwMcast_isRsvdMcast e m v (gEthFwMcastObj (snd (EthFwMcast_filterDelMacShared e i mac c s))) = EthFwMcast_isRsvdMcast e m v (gEthFwMcastObj s)"
  by (simp_all add: EthFwMcast_isRsvdMcast_def EthFwMcast_filterAddMacShared_def EthFwMcast_filterDelMacShared_def
      EthFwVepa_addMcastPolicer_def EthFwVepa_delMcastPolicer_def thenOK_def call_st_def Let_def)

lemma shared_vepa_frame:
  "gEthFwVepaObj (snd (EthFwMcast_filterAddMacShared e i mac c s)) = gEthFwVepaObj s"
  "gEthFwVepaObj (snd (EthFwMcast_filterDelMacShared e i mac c s)) = gEthFwVepaObj s"
  by (simp_all add: EthFwMcast_filterAddMacShared_def EthFwMcast_filterDelMacShared_def
      EthFwVepa_addMcastPolicer_def EthFwVepa_delMcastPolicer_def thenOK_def call_st_def Let_def)

lemma vepa_put_twice:
  assumes "lib_spec e" "vepa_wf v" "unat p < 32" "vepa_map v (vlan, mac) = None"
    and "EthFwVepa_getUseCnt v < ETHFW_VEPA_TABLE_SIZE"
  shows "let v2 = vepa_put e (vlan, mac) p (vepa_put e (vlan, mac) p v)
    in fst (EthFwVepa_delAddr e mac vlan p v2) = ETHFW_SOK
     \<and> fst (EthFwVepa_delAddr e mac vlan p (vepa_del e (vlan, mac) p v2)) = ETHFW_EFAIL"
proof -
  let ?k = "(vlan, mac)"
  let ?v1 = "vepa_put e ?k p v"
  let ?v2 = "vepa_put e ?k p ?v1"
  have ok: "port_ok ?k p" using assms(3) by (simp add: port_ok_def)
  have inv: "lib_spec e \<and> vepa_wf v" "lib_spec e \<and> vepa_wf ?v1" "lib_spec e \<and> vepa_wf ?v2"
    "lib_spec e \<and> vepa_wf (vepa_del e ?k p ?v2)"
    using assms(1,2) ok vepa_table.put_inv vepa_table.del_inv by metis+
  have m1: "vepa_map ?v1 ?k = Some (ETHFW_BIT p)"
    using vepa_table.put_lookup [OF inv(1) ok] assms(4,5) by (simp add: add_port_def)
  have m2: "vepa_map ?v2 ?k = Some (ETHFW_BIT p)"
    using vepa_table.put_lookup [OF inv(2) ok] m1 by (simp add: add_port_def)
  have "vepa_map (vepa_del e ?k p ?v2) ?k = None"
    using vepa_table.del_lookup [OF inv(3), of ?k p] m2 by (simp add: drop_port_def)
  with inv(3,4) m2 show ?thesis
    by (simp add: vepa_delAddr vepa_wf_def Let_def)
qed

lemma shared_add_vepa:
  assumes "lib_spec e" "accepting e" "vepaSupport e" "shared_idx mac (gEthFwMcastObj s) = Some i"
    and "\<not> EthFwMcast_isRsvdMcast e mac vlan (gEthFwMcastObj s)"
    and "packetDuplicationFlowIdx (gEthFwVepaObj s) \<noteq> ETHFW_VEPA_PKT_DUP_FLOW_IDX_UNDEFINED"
  shows "let (st, s') = EthFwMcast_filterAddMac e port mac vlan flow host s; r = shared_ref mac (gEthFwMcastObj s)
    in st = ETHFW_SOK \<and> gEthFwVepaObj s' = snd (EthFwVepa_addAddr e mac vlan port (gEthFwVepaObj s))
     \<and> shared_ref mac (gEthFwMcastObj s') = r + 1 \<and> shared_idx mac (gEthFwMcastObj s') = Some i
     \<and> \<not> EthFwMcast_isRsvdMcast e mac vlan (gEthFwMcastObj s')
     \<and> (if r = 0 then ale_has e mac (calls s') else ale_has e mac (calls s') = ale_has e mac (calls s))"
  using addShared_ref [OF assms(4), of e host] addShared_accept [OF assms(2), of i mac host s]
    addShared_eff [OF assms(4), of e host] assms
  by (simp add: EthFwMcast_filterAddMac_def shared_search case_prod_beta thenOK_def Let_def rsvd_frame
      shared_vepa_frame shared_eff_def)

lemma shared_del_vepa:
  assumes "lib_spec e" "accepting e" "vepaSupport e" "shared_idx mac (gEthFwMcastObj s) = Some i"
    and "\<not> EthFwMcast_isRsvdMcast e mac vlan (gEthFwMcastObj s)" "shared_ref mac (gEthFwMcastObj s) \<noteq> 0"
  shows "let (st, s') = EthFwMcast_filterDelMac e port mac vlan host s; r = shared_ref mac (gEthFwMcastObj s);
             (dst, v) = EthFwVepa_delAddr e mac vlan port (gEthFwVepaObj s)
    in st = dst \<and> gEthFwVepaObj s' = v \<and> shared_idx mac (gEthFwMcastObj s') = Some i
     \<and> \<not> EthFwMcast_isRsvdMcast e mac vlan (gEthFwMcastObj s')
     \<and> shared_ref mac (gEthFwMcastObj s') = (if dst = ETHFW_SOK then r - 1 else r)
     \<and> (r \<noteq> 1 \<or> dst \<noteq> ETHFW_SOK \<longrightarrow> ale_has e mac (calls s') = ale_has e mac (calls s))"
proof -
  let ?s1 = "snd (with_vepa (EthFwVepa_delAddr e mac vlan port) s)"
  have idx: "shared_idx mac (gEthFwMcastObj ?s1) = Some i" using assms(4) by simp
  show ?thesis
    using delShared_ref [OF idx, of e host] delShared_accept [OF assms(2), of i mac host ?s1]
      delShared_eff [OF idx, of e host] assms shared_idxD [OF assms(4)] shared_ref_idx [OF assms(4)]
    by (simp add: EthFwMcast_filterDelMac_def shared_search case_prod_beta thenOK_def Let_def rsvd_frame
        shared_vepa_frame shared_eff_def)
qed

text \<open>With VEPA the table keeps one bit per port while the reference count counts
  requests: a client that asks twice for a shared address and releases it twice gets an error for
  the second release, and the address stays referenced and in the ALE.\<close>

theorem mcast_double_request:
  assumes "lib_spec e" "accepting e" "vepaSupport e" "mcast_wf (gEthFwMcastObj s)"
    and "shared_idx mac (gEthFwMcastObj s) \<noteq> None" "shared_ref mac (gEthFwMcastObj s) = 0"
    and "\<not> EthFwMcast_isRsvdMcast e mac vlan (gEthFwMcastObj s)" "unat port < 32" "vepa_ready s"
    and "vepa_map (gEthFwVepaObj s) (vlan, mac) = None" "EthFwVepa_getUseCnt (gEthFwVepaObj s) < ETHFW_VEPA_TABLE_SIZE"
  shows "let (st1, s1) = EthFwMcast_filterAddMac e port mac vlan flow host s;
             (st2, s2) = EthFwMcast_filterAddMac e port mac vlan flow host s1;
             (st3, s3) = EthFwMcast_filterDelMac e port mac vlan host s2;
             (st4, s4) = EthFwMcast_filterDelMac e port mac vlan host s3
    in st1 = ETHFW_SOK \<and> st2 = ETHFW_SOK \<and> st3 = ETHFW_SOK \<and> st4 = ETHFW_EFAIL \<and>
       shared_ref mac (gEthFwMcastObj s4) = 1 \<and> ale_has e mac (calls s4)"
proof -
  let ?add = "\<lambda>s. snd (EthFwMcast_filterAddMac e port mac vlan flow host s)"
  let ?del = "\<lambda>s. snd (EthFwMcast_filterDelMac e port mac vlan host s)"
  let ?v = "gEthFwVepaObj s" and ?s1 = "?add s" and ?s2 = "?add (?add s)" and ?s3 = "?del (?add (?add s))"
  obtain i where i: "shared_idx mac (gEthFwMcastObj s) = Some i" using assms(5) by blast
  have flow: "packetDuplicationFlowIdx ?v \<noteq> ETHFW_VEPA_PKT_DUP_FLOW_IDX_UNDEFINED" and wf: "vepa_wf ?v"
    using assms(9) by (simp_all add: vepa_ready_def)
  have add1: "fst (EthFwMcast_filterAddMac e port mac vlan flow host s) = ETHFW_SOK"
    "gEthFwVepaObj ?s1 = vepa_put e (vlan, mac) port ?v" "shared_ref mac (gEthFwMcastObj ?s1) = 1"
    "shared_idx mac (gEthFwMcastObj ?s1) = Some i" "\<not> EthFwMcast_isRsvdMcast e mac vlan (gEthFwMcastObj ?s1)"
    "ale_has e mac (calls ?s1)"
    using shared_add_vepa [OF assms(1,2,3) i assms(7) flow, of port "flow" host] assms(6)
    by (simp_all add: case_prod_beta vepa_put_def)
  have flow1: "packetDuplicationFlowIdx (gEthFwVepaObj ?s1) \<noteq> ETHFW_VEPA_PKT_DUP_FLOW_IDX_UNDEFINED"
    using flow by (simp add: add1(2) vepa_put_def)
  have add2: "fst (EthFwMcast_filterAddMac e port mac vlan flow host ?s1) = ETHFW_SOK"
    "gEthFwVepaObj ?s2 = vepa_put e (vlan, mac) port (gEthFwVepaObj ?s1)" "shared_ref mac (gEthFwMcastObj ?s2) = 2"
    "shared_idx mac (gEthFwMcastObj ?s2) = Some i" "\<not> EthFwMcast_isRsvdMcast e mac vlan (gEthFwMcastObj ?s2)"
    "ale_has e mac (calls ?s2)"
    using shared_add_vepa [OF assms(1,2,3) add1(4,5) flow1, of port "flow" host] add1(3,6)
    by (simp_all add: case_prod_beta vepa_put_def)
  note twice = vepa_put_twice [OF assms(1) wf assms(8,10,11)]
  have del1: "fst (EthFwMcast_filterDelMac e port mac vlan host ?s2) = ETHFW_SOK"
    "gEthFwVepaObj ?s3 = vepa_del e (vlan, mac) port (gEthFwVepaObj ?s2)" "shared_ref mac (gEthFwMcastObj ?s3) = 1"
    "shared_idx mac (gEthFwMcastObj ?s3) = Some i" "\<not> EthFwMcast_isRsvdMcast e mac vlan (gEthFwMcastObj ?s3)"
    "ale_has e mac (calls ?s3)"
    using shared_del_vepa [OF assms(1,2,3) add2(4,5), of port host] add2(3,6) twice
    by (simp_all add: case_prod_beta Let_def vepa_del_def add2(2) add1(2))
  have "fst (EthFwMcast_filterDelMac e port mac vlan host ?s3) = ETHFW_EFAIL"
    "shared_ref mac (gEthFwMcastObj (?del ?s3)) = 1" "ale_has e mac (calls (?del ?s3))"
    using shared_del_vepa [OF assms(1,2,3) del1(4,5), of port host] del1(3,6) twice
    by (simp_all add: case_prod_beta Let_def del1(2) add2(2) add1(2))
  with add1(1) add2(1) del1(1) show ?thesis by (simp add: case_prod_beta)
qed

theorem mcast_double_request_witness:
  "let s = snd (EthFwMcast_init ale_env mcast_cfg 3 4 mcast_demo);
       s2 = snd (EthFwMcast_filterAddMac ale_env 25 mdns 0 3 1 (snd (EthFwMcast_filterAddMac ale_env 25 mdns 0 3 1 s)));
       s3 = snd (EthFwMcast_filterDelMac ale_env 25 mdns 0 1 s2)
   in fst (EthFwMcast_filterDelMac ale_env 25 mdns 0 1 s3) = ETHFW_EFAIL"
proof -
  let ?s = "snd (EthFwMcast_init ale_env mcast_cfg 3 4 mcast_demo)"
  note tab = mcast_demo_tables [OF ale_env_spec(1)]
  have rdy: "vepa_ready ?s"
    using vepa_demo2_ready(1) by (simp add: vepa_ready_def tab(6))
  have empty: "vepa_map (gEthFwVepaObj ?s) = Map.empty"
    by (simp add: tab(6) vepa_demo2_ready(2))
  have "EthFwVepa_getUseCnt (gEthFwVepaObj ?s) = 0"
    using vepa_table.cnt_dom [of ale_env "gEthFwVepaObj ?s"] ale_env_spec(1) rdy empty by (simp add: vepa_ready_def)
  moreover have "vepaSupport ale_env" by (simp add: ale_env_def ok_env_def)
  moreover have "mdns \<noteq> lldp" using demo_macs by simp
  ultimately show ?thesis
    using mcast_double_request [OF ale_env_spec _ mcast_demo_wf _ mcast_init_facts(3) tab(3), where mac = mdns and vlan = 0 and port = 25 and flow = 3 and host = 1] tab(2) rdy empty
    by (simp add: Let_def case_prod_beta ETHFW_VEPA_TABLE_SIZE_def)
qed

section \<open>The configuration\<close>

lemma shared_cfg_loop_ok:
  assumes "\<forall>c\<in>set cs. isMcastAddr e (cfgMacAddr c)" "i + length cs \<le> length t"
  shows "\<exists>t'. shared_cfg_loop e cs i t n = (ETHFW_SOK, t', n + length cs) \<and> length t' = length t \<and>
    map shMacAddr (take (i + length cs) t') = map shMacAddr (take i t) @ map cfgMacAddr cs"
  using assms
proof (induction cs arbitrary: i t n)
  case (Cons c cs)
  let ?x = "\<lparr>shMacAddr = cfgMacAddr c, shPortMask = cfgPortMask c, shVirtPortMask = cfgVirtPortMask c, shRefCnt = 0\<rparr>"
  have "map shMacAddr (take (Suc i) (t[i := ?x])) = map shMacAddr (take i t) @ [cfgMacAddr c]"
    using Cons.prems(2) by (simp add: take_Suc_conv_app_nth)
  with Cons.IH [of "Suc i" "t[i := ?x]" "Suc n"] Cons.prems show ?case by simp
qed simp

lemma shared_cfg_loop_bad:
  "\<not> (\<forall>c\<in>set cs. isMcastAddr e (cfgMacAddr c)) \<Longrightarrow> fst (shared_cfg_loop e cs i t n) = ETHFW_EINVALIDPARAMS"
  by (induction e cs i t n rule: shared_cfg_loop.induct) auto

lemma rsvd_cfg_loop_ok:
  assumes "\<forall>c\<in>set cs. isMcastAddr e (rsMacAddr c)" "i + length cs \<le> length t"
  shows "\<exists>t'. rsvd_cfg_loop e cs i t n = (ETHFW_SOK, t', n + length cs) \<and> take (i + length cs) t' = take i t @ cs"
  using assms
proof (induction cs arbitrary: i t n)
  case (Cons c cs)
  have "take (Suc i) (t[i := c]) = take i t @ [c]"
    using Cons.prems(2) by (simp add: take_Suc_conv_app_nth)
  with Cons.IH [of "Suc i" "t[i := c]" "Suc n"] Cons.prems show ?case by simp
qed simp

lemma rsvd_cfg_loop_bad:
  "\<not> (\<forall>c\<in>set cs. isMcastAddr e (rsMacAddr c)) \<Longrightarrow> fst (rsvd_cfg_loop e cs i t n) = ETHFW_EINVALIDPARAMS"
  by (induction e cs i t n rule: rsvd_cfg_loop.induct) auto

definition mcast_cfg_ok :: "env \<Rightarrow> EthFwMcast_Cfg \<Rightarrow> bool" where
  "mcast_cfg_ok e cfg \<longleftrightarrow> length (cfgShared cfg) \<le> ETHFW_SHARED_MCAST_LIST_LEN \<and>
     length (cfgRsvd cfg) \<le> ETHFW_RSVD_MCAST_LIST_LEN \<and>
     (\<forall>c\<in>set (cfgShared cfg). isMcastAddr e (cfgMacAddr c)) \<and> (\<forall>c\<in>set (cfgRsvd cfg). isMcastAddr e (rsMacAddr c))"

lemma getShared_ok:
  assumes "length (cfgShared cfg) \<le> ETHFW_SHARED_MCAST_LIST_LEN" "\<forall>c\<in>set (cfgShared cfg). isMcastAddr e (cfgMacAddr c)"
  shows "fst (EthFwMcast_getSharedMcastCfg e cfg mcast_zero) = ETHFW_SOK \<and>
    (let ob = snd (EthFwMcast_getSharedMcastCfg e cfg mcast_zero) in
     map shMacAddr (take (sharedLen ob) (sharedTable ob)) = map cfgMacAddr (cfgShared cfg) \<and>
     rsvdTable ob = rsvdTable mcast_zero \<and> rsvdLen ob = 0)"
  using shared_cfg_loop_ok [OF assms(2), of 0 "sharedTable mcast_zero" 0] assms(1)
  by (auto simp: EthFwMcast_getSharedMcastCfg_def Let_def mcast_zero_def)

lemma getShared_bad:
  "\<not> (length (cfgShared cfg) \<le> ETHFW_SHARED_MCAST_LIST_LEN \<and> (\<forall>c\<in>set (cfgShared cfg). isMcastAddr e (cfgMacAddr c)))
   \<Longrightarrow> fst (EthFwMcast_getSharedMcastCfg e cfg ob) = ETHFW_EINVALIDPARAMS"
proof (cases "ETHFW_SHARED_MCAST_LIST_LEN < length (cfgShared cfg)")
  case False
  assume "\<not> (length (cfgShared cfg) \<le> ETHFW_SHARED_MCAST_LIST_LEN \<and> (\<forall>c\<in>set (cfgShared cfg). isMcastAddr e (cfgMacAddr c)))"
  with False have "\<not> (\<forall>c\<in>set (cfgShared cfg). isMcastAddr e (cfgMacAddr c))" by simp
  from shared_cfg_loop_bad [OF this, of 0 "sharedTable ob" 0] this False show ?thesis
    by (cases "cfgShared cfg = []") (simp_all add: EthFwMcast_getSharedMcastCfg_def Let_def case_prod_beta)
qed (simp add: EthFwMcast_getSharedMcastCfg_def)

lemma getRsvd_ok:
  assumes "length (cfgRsvd cfg) \<le> ETHFW_RSVD_MCAST_LIST_LEN" "\<forall>c\<in>set (cfgRsvd cfg). isMcastAddr e (rsMacAddr c)"
    and "rsvdTable ob = rsvdTable mcast_zero" "rsvdLen ob = 0"
  shows "fst (EthFwMcast_getRsvdMcastCfg e cfg ob) = ETHFW_SOK \<and>
    (let ob' = snd (EthFwMcast_getRsvdMcastCfg e cfg ob) in take (rsvdLen ob') (rsvdTable ob') = cfgRsvd cfg \<and>
       sharedLen ob' = sharedLen ob \<and> sharedTable ob' = sharedTable ob)"
  using rsvd_cfg_loop_ok [OF assms(2), of 0 "rsvdTable mcast_zero" 0] assms(1,3,4)
  by (auto simp: EthFwMcast_getRsvdMcastCfg_def Let_def mcast_zero_def)

lemma getRsvd_bad:
  "\<not> (length (cfgRsvd cfg) \<le> ETHFW_RSVD_MCAST_LIST_LEN \<and> (\<forall>c\<in>set (cfgRsvd cfg). isMcastAddr e (rsMacAddr c)))
   \<Longrightarrow> fst (EthFwMcast_getRsvdMcastCfg e cfg ob) = ETHFW_EINVALIDPARAMS"
proof (cases "ETHFW_RSVD_MCAST_LIST_LEN < length (cfgRsvd cfg)")
  case False
  assume "\<not> (length (cfgRsvd cfg) \<le> ETHFW_RSVD_MCAST_LIST_LEN \<and> (\<forall>c\<in>set (cfgRsvd cfg). isMcastAddr e (rsMacAddr c)))"
  with False have "\<not> (\<forall>c\<in>set (cfgRsvd cfg). isMcastAddr e (rsMacAddr c))" by simp
  from rsvd_cfg_loop_bad [OF this, of 0 "rsvdTable ob" 0] this False show ?thesis
    by (cases "cfgRsvd cfg = []") (simp_all add: EthFwMcast_getRsvdMcastCfg_def Let_def case_prod_beta)
qed (simp add: EthFwMcast_getRsvdMcastCfg_def)

text \<open>\<^verbatim>\<open>EthFwMcast_init\<close> accepts exactly the configurations whose lists fit the
  tables and hold multicast addresses only, and answers \<open>EINVALIDPARAMS\<close> otherwise.  After an accepted
  one exactly the configured (address, VLAN) pairs are reserved and exactly the configured shared
  addresses are shared; in every case no address has an owner or a reference.\<close>

theorem mcast_init_spec:
  assumes "lib_spec e"
  shows "let (st, s') = EthFwMcast_init e cfg sw mo s; ob = gEthFwMcastObj s'
    in st = (if mcast_cfg_ok e cfg then ETHFW_SOK else ETHFW_EINVALIDPARAMS)
     \<and> (mcast_cfg_ok e cfg \<longrightarrow>
          (EthFwMcast_isRsvdMcast e mac vlan ob \<longleftrightarrow> (\<exists>c\<in>set (cfgRsvd cfg). rsMacAddr c = mac \<and> rsVlanId c = vlan))
        \<and> (shared_idx mac ob \<noteq> None \<longleftrightarrow> (\<exists>c\<in>set (cfgShared cfg). cfgMacAddr c = mac)))
     \<and> excl_owner ob mac = None \<and> shared_ref mac ob = 0 \<and> calls s' = calls s"
proof -
  let ?r = "EthFwMcast_init e cfg sw mo s"
  have frame: "calls (snd ?r) = calls s"
    by (simp add: EthFwMcast_init_def Let_def split: prod.split)
  have st: "fst ?r = fst (thenOK (EthFwMcast_getSharedMcastCfg e cfg mcast_zero) (EthFwMcast_getRsvdMcastCfg e cfg))"
    and tabs: "sharedTable (gEthFwMcastObj (snd ?r)) = sharedTable (snd (thenOK (EthFwMcast_getSharedMcastCfg e cfg mcast_zero) (EthFwMcast_getRsvdMcastCfg e cfg)))"
      "sharedLen (gEthFwMcastObj (snd ?r)) = sharedLen (snd (thenOK (EthFwMcast_getSharedMcastCfg e cfg mcast_zero) (EthFwMcast_getRsvdMcastCfg e cfg)))"
      "rsvdTable (gEthFwMcastObj (snd ?r)) = rsvdTable (snd (thenOK (EthFwMcast_getSharedMcastCfg e cfg mcast_zero) (EthFwMcast_getRsvdMcastCfg e cfg)))"
      "rsvdLen (gEthFwMcastObj (snd ?r)) = rsvdLen (snd (thenOK (EthFwMcast_getSharedMcastCfg e cfg mcast_zero) (EthFwMcast_getRsvdMcastCfg e cfg)))"
    by (auto simp: EthFwMcast_init_def Let_def split: prod.split)
  have bad: "fst ?r = ETHFW_EINVALIDPARAMS" if "\<not> mcast_cfg_ok e cfg"
  proof (cases "length (cfgShared cfg) \<le> ETHFW_SHARED_MCAST_LIST_LEN \<and> (\<forall>c\<in>set (cfgShared cfg). isMcastAddr e (cfgMacAddr c))")
    case True
    then show ?thesis using that getRsvd_bad [of cfg e] getShared_ok [of cfg e]
      unfolding st mcast_cfg_ok_def by (simp add: thenOK_def)
  next
    case False
    from getShared_bad [OF this] show ?thesis unfolding st by (simp add: thenOK_def)
  qed
  have good: "fst ?r = ETHFW_SOK \<and> map shMacAddr (take (sharedLen (gEthFwMcastObj (snd ?r))) (sharedTable (gEthFwMcastObj (snd ?r)))) = map cfgMacAddr (cfgShared cfg)
      \<and> take (rsvdLen (gEthFwMcastObj (snd ?r))) (rsvdTable (gEthFwMcastObj (snd ?r))) = cfgRsvd cfg" if "mcast_cfg_ok e cfg"
    using that getShared_ok [of cfg e] getRsvd_ok [of cfg e "snd (EthFwMcast_getSharedMcastCfg e cfg mcast_zero)"]
    unfolding st tabs mcast_cfg_ok_def by (simp add: thenOK_def Let_def)
  have "excl_owner (gEthFwMcastObj (snd ?r)) mac = None" "shared_ref mac (gEthFwMcastObj (snd ?r)) = 0"
    by (simp_all add: mcast_init_facts)
  moreover have "shared_idx mac (gEthFwMcastObj (snd ?r)) \<noteq> None \<longleftrightarrow> (\<exists>c\<in>set (cfgShared cfg). cfgMacAddr c = mac)"
    "EthFwMcast_isRsvdMcast e mac vlan (gEthFwMcastObj (snd ?r)) \<longleftrightarrow> (\<exists>c\<in>set (cfgRsvd cfg). rsMacAddr c = mac \<and> rsVlanId c = vlan)"
    if "mcast_cfg_ok e cfg"
    using good [OF that] assms
    by (auto simp: EthFwMcast_isRsvdMcast_def shared_idx_def first_idx_None simp del: not_None_eq map_map)
  ultimately show ?thesis
    using bad good frame by (cases "mcast_cfg_ok e cfg") (simp_all add: case_prod_beta Let_def)
qed

theorem mcast_init_spec_witness:
  "shared_idx mdns (gEthFwMcastObj (snd (EthFwMcast_init ok_env mcast_cfg 3 4 mcast_demo))) \<noteq> None"
proof -
  have "mcast_cfg_ok ok_env mcast_cfg"
    using demo_macs by (simp add: mcast_cfg_ok_def mcast_cfg_def ETHFW_SHARED_MCAST_LIST_LEN_def ETHFW_RSVD_MCAST_LIST_LEN_def)
  with mcast_init_spec [OF lib_spec_ok_env, of mcast_cfg 3 4 mcast_demo mdns 0] show ?thesis
    by (simp add: Let_def case_prod_beta mcast_cfg_def)
qed

end
