(* ===== verification/Vlan.thy ===== *)
theory Vlan
  imports Mcast
begin

text \<open>
  VLANs (\<^verbatim>\<open>ethremotecfg/server/src/ethfw_vlan.c\<close>): the 32-entry table of statically configured and
  dynamically created VLANs, the checks of the static configuration, and joining and leaving.  The
  host port is a member of a VLAN in the ALE only while some virtual port is active in it.
  \<open>EthFwVlan_Obj\<close> is \<^verbatim>\<open>gEthFwVlanObj\<close>.
\<close>

section \<open>State\<close>

definition ETHFWVLAN_VLANS_MAX :: nat where "ETHFWVLAN_VLANS_MAX = 32"

record EthFwVlan_Vlan =
  vlVlanId :: u16
  vlMemberMask :: u32
  vlRegMcastFloodMask :: u32
  vlUnregMcastFloodMask :: u32
  vlUntagMask :: u32
  vlVirtMemberMask :: u32
  vlVirtActiveMask :: u32
  vlIsFree :: bool
  vlIsStatic :: bool

record EthFwVlan_Obj =
  vlans :: "EthFwVlan_Vlan list"
  numVlans :: nat
  vlDefaultPortMask :: u32
  vlDefaultVirtPortMask :: u32
  dVlanSwtFwdEn :: bool
  vlMutex :: bool

record vlan_st = mcast_st +
  gEthFwVlanObj :: EthFwVlan_Obj

record EthFwVlan_VlanCfg =
  vcVlanId :: u16
  vcMemberMask :: u32
  vcVirtMemberMask :: u32
  vcRegMcastFloodMask :: u32
  vcUnregMcastFloodMask :: u32
  vcUntagMask :: u32

text \<open>\<^verbatim>\<open>numStaticVlans\<close> is the length of the list.\<close>

record EthFwVlan_Cfg =
  vcVlans :: "EthFwVlan_VlanCfg list"
  dfltVlanIdSwitchPorts :: u32
  dfltVlanIdMacOnlyPorts :: u32
  vcSwitchPortMask :: u32
  vcMacOnlyPortMask :: u32
  vcDefaultPortMask :: u32
  vcDefaultVirtPortMask :: u32
  vcDVlanSwtFwdEn :: bool

section \<open>Counting bits\<close>

text \<open>Kernighan's loop: each pass clears the lowest set bit.\<close>

lemma and_minus_one_less: "v \<noteq> 0 \<Longrightarrow> unat (v AND (v - 1) :: u32) < unat v"
proof -
  assume "v \<noteq> 0"
  then have "0 < unat v" by (simp add: unat_gt_0)
  with \<open>v \<noteq> 0\<close> have "v - 1 < v" by (simp add: word_less_nat_alt unat_minus_one)
  moreover have "v AND (v - 1) \<le> v - 1" by (rule word_and_le1)
  ultimately show ?thesis by (meson word_less_nat_alt order_le_less_trans)
qed

function popcount_loop :: "u32 \<Rightarrow> u32 \<Rightarrow> u32" where
  "popcount_loop v c = (if v \<noteq> 0 then popcount_loop (v AND (v - 1)) (c + 1) else c)"
  by pat_completeness auto
termination
  by (relation "measure (\<lambda>(v, c). unat v)") (simp_all add: and_minus_one_less)

declare popcount_loop.simps [simp del]

definition EthFwVlan_popcount :: "u32 \<Rightarrow> u32" where
  "EthFwVlan_popcount v = popcount_loop v 0"

section \<open>The table and the ALE\<close>

text \<open>The last of the first \<open>numVlans\<close> entries with the id, free or not, by its index.\<close>

definition EthFwVlan_getVlan :: "u16 \<Rightarrow> EthFwVlan_Obj \<Rightarrow> nat option" where
  "EthFwVlan_getVlan vid ob =
     fold (\<lambda>i r. if vlVlanId (vlans ob ! i) = vid then Some i else r)
       [0..<min (numVlans ob) (length (vlans ob))] None"

definition EthFwVlan_setupVlan ::
    "env \<Rightarrow> u16 \<Rightarrow> u32 \<Rightarrow> u32 \<Rightarrow> u32 \<Rightarrow> u32 \<Rightarrow> 'a world_scheme \<Rightarrow> int \<times> 'a world_scheme" where
  "EthFwVlan_setupVlan e vid member reg unreg untag s =
     call_st e (Ioctl (selfCoreId e) (ALE_ADD_VLAN (ucast vid) member reg unreg untag 0 True)) s"

definition EthFwVlan_deleteVlan :: "env \<Rightarrow> u16 \<Rightarrow> 'a world_scheme \<Rightarrow> 'a world_scheme" where
  "EthFwVlan_deleteVlan e vid s = issue (Ioctl (selfCoreId e) (ALE_REMOVE_VLAN (ucast vid))) s"

definition setup_entry :: "env \<Rightarrow> EthFwVlan_Vlan \<Rightarrow> 'a world_scheme \<Rightarrow> int \<times> 'a world_scheme" where
  "setup_entry e v s = EthFwVlan_setupVlan e (vlVlanId v) (vlMemberMask v) (vlRegMcastFloodMask v)
     (vlUnregMcastFloodMask v) (vlUntagMask v) s"

definition setup_no_host :: "env \<Rightarrow> EthFwVlan_Vlan \<Rightarrow> 'a world_scheme \<Rightarrow> int \<times> 'a world_scheme" where
  "setup_no_host e v s =
     (let h = NOT (hostPortMask e) in
      EthFwVlan_setupVlan e (vlVlanId v) (vlMemberMask v AND h) (vlRegMcastFloodMask v AND h)
        (vlUnregMcastFloodMask v AND h) (vlUntagMask v AND h) s)"

definition upd_vlan :: "nat \<Rightarrow> (EthFwVlan_Vlan \<Rightarrow> EthFwVlan_Vlan) \<Rightarrow> 'a vlan_st_scheme \<Rightarrow> 'a vlan_st_scheme" where
  "upd_vlan i f s = (let ob = gEthFwVlanObj s in
     s\<lparr>gEthFwVlanObj := ob\<lparr>vlans := (vlans ob)[i := f (vlans ob ! i)]\<rparr>\<rparr>)"

text \<open>Every walk over the first \<open>numVlans\<close> entries is an overrun when there are more than the table has.\<close>

definition chk_vlans :: "'a vlan_st_scheme \<Rightarrow> 'a vlan_st_scheme" where
  "chk_vlans s = (if numVlans (gEthFwVlanObj s) \<le> length (vlans (gEthFwVlanObj s)) then s else fault OobRead s)"

section \<open>Static configuration\<close>

fun vlan_cfg_loop :: "EthFwVlan_Cfg \<Rightarrow> EthFwVlan_VlanCfg list \<Rightarrow> nat \<Rightarrow> EthFwVlan_Obj \<Rightarrow> int \<times> EthFwVlan_Obj" where
  "vlan_cfg_loop cfg [] i ob = (ETHFW_SOK, ob)"
| "vlan_cfg_loop cfg (c # cs) i ob =
     (let sw = push_bit 1 (vcSwitchPortMask cfg); mo = push_bit 1 (vcMacOnlyPortMask cfg); mm = vcMemberMask c in
      if ucast (vcVlanId c) = dfltVlanIdSwitchPorts cfg \<or> ucast (vcVlanId c) = dfltVlanIdMacOnlyPorts cfg
      then (ETHFW_EINVALIDPARAMS, ob)
      else if mm AND sw \<noteq> 0 \<and> mm AND mo \<noteq> 0 then (ETHFW_EINVALIDPARAMS, ob)
      else if EthFwVlan_popcount (mm AND mo) > 1 then (ETHFW_EINVALIDPARAMS, ob)
      else vlan_cfg_loop cfg cs (Suc i)
        (ob\<lparr>vlans := (vlans ob)[i :=
              \<lparr>vlVlanId = vcVlanId c, vlMemberMask = mm, vlRegMcastFloodMask = vcRegMcastFloodMask c AND mm,
               vlUnregMcastFloodMask = vcUnregMcastFloodMask c AND mm, vlUntagMask = vcUntagMask c AND mm,
               vlVirtMemberMask = vcVirtMemberMask c, vlVirtActiveMask = 0, vlIsFree = False, vlIsStatic = True\<rparr>],
            numVlans := Suc (numVlans ob)\<rparr>))"

definition EthFwVlan_getCfg :: "EthFwVlan_Cfg \<Rightarrow> EthFwVlan_Obj \<Rightarrow> int \<times> EthFwVlan_Obj" where
  "EthFwVlan_getCfg cfg ob =
     (if length (vcVlans cfg) > ETHFWVLAN_VLANS_MAX then (ETHFW_EINVALIDPARAMS, ob)
      else vlan_cfg_loop cfg (vcVlans cfg) 0 ob)"

text \<open>The setup loop keeps going after a failure and ends with the last entry's status.\<close>

definition vlan_setup_loop :: "env \<Rightarrow> EthFwVlan_Vlan list \<Rightarrow> int \<times> 'a world_scheme \<Rightarrow> int \<times> 'a world_scheme" where
  "vlan_setup_loop e = fold (\<lambda>v (st, s). if vlIsFree v then (st, s) else setup_no_host e v s)"

definition EthFwVlan_init :: "env \<Rightarrow> EthFwVlan_Cfg \<Rightarrow> 'a vlan_st_scheme \<Rightarrow> int \<times> 'a vlan_st_scheme" where
  "EthFwVlan_init e cfg s =
     (let ok = flag_of e (calls s) Osal_createMutex;
          s = issue Osal_createMutex s;
          ob = (gEthFwVlanObj s)\<lparr>vlDefaultPortMask := vcDefaultPortMask cfg,
                 vlDefaultVirtPortMask := vcDefaultVirtPortMask cfg, dVlanSwtFwdEn := vcDVlanSwtFwdEn cfg, vlMutex := ok\<rparr>
      in if \<not> ok then (ETHFW_EFAIL, s\<lparr>gEthFwVlanObj := ob\<rparr>)
         else
           (let ob = ob\<lparr>vlans := map (\<lambda>v. v\<lparr>vlIsFree := True, vlIsStatic := False\<rparr>) (vlans ob)\<rparr>;
                (status, ob) = EthFwVlan_getCfg cfg ob;
                s = s\<lparr>gEthFwVlanObj := ob\<rparr>
            in if status \<noteq> ETHFW_SOK then (status, s)
               else vlan_setup_loop e (take (numVlans ob) (vlans ob)) (status, chk_vlans s)))"

definition EthFwVlan_deinit :: "env \<Rightarrow> 'a vlan_st_scheme \<Rightarrow> 'a vlan_st_scheme" where
  "EthFwVlan_deinit e s =
     (let ob = gEthFwVlanObj s;
          s = fold (\<lambda>v. EthFwVlan_deleteVlan e (vlVlanId v)) (take (numVlans ob) (vlans ob)) (chk_vlans s)
      in if vlMutex ob
         then (issue Osal_deleteMutex s)\<lparr>gEthFwVlanObj := ob\<lparr>vlMutex := False\<rparr>\<rparr>
         else s)"

section \<open>Joining and leaving\<close>

text \<open>What both branches of a join end with: update the ALE, mark the port active, tell VEPA.\<close>

definition vlan_activate :: "env \<Rightarrow> nat \<Rightarrow> EthRemoteCfg_VirtPort \<Rightarrow> u16 \<Rightarrow> 'a vlan_st_scheme \<Rightarrow> int \<times> 'a vlan_st_scheme" where
  "vlan_activate e i virtPort vid s =
     thenOK (setup_entry e (vlans (gEthFwVlanObj s) ! i) s)
       (\<lambda>s. let s = upd_vlan i (\<lambda>v. v\<lparr>vlVirtActiveMask := vlVirtActiveMask v OR ETHFW_BIT virtPort\<rparr>) s
            in if vepaSupport e then with_vepa (EthFwVepa_addAddr e bcast_mac vid virtPort) s else (ETHFW_SOK, s))"

text \<open>The entry of a dynamic VLAN, by the kind of the port that creates it.\<close>

definition dynamic_vlan :: "env \<Rightarrow> EthFwVlan_Obj \<Rightarrow> EthRemoteCfg_VirtPort \<Rightarrow> u16 \<Rightarrow> EthFwVlan_Vlan \<Rightarrow> EthFwVlan_Vlan" where
  "dynamic_vlan e ob virtPort vid v =
     (let h = hostPortMask e;
          (member, virt) =
            (if EthFwVirtPort_isMacPort virtPort
             then (h OR macPortToPortMask e (EthFwVirtPort_getMacPort e virtPort), virtPort)
             else if dVlanSwtFwdEn ob then (vlDefaultPortMask ob, vlDefaultVirtPortMask ob)
             else (h, 0))
      in v\<lparr>vlVlanId := vid, vlIsFree := False, vlMemberMask := member, vlRegMcastFloodMask := member,
           vlUnregMcastFloodMask := member, vlVirtMemberMask := virt, vlUntagMask := 0, vlVirtActiveMask := 0\<rparr>)"

definition EthFwVlan_join ::
    "env \<Rightarrow> EthRemoteCfg_VirtPort \<Rightarrow> u16 \<Rightarrow> eth_addr \<Rightarrow> 'a vlan_st_scheme \<Rightarrow> int \<times> 'a vlan_st_scheme" where
  "EthFwVlan_join e virtPort vid mac s =
     (if isMcastAddr e mac then (ETHFW_EINVALIDPARAMS, s)
      else
        (let s = chk_vlans s; ob = gEthFwVlanObj s in
         case EthFwVlan_getVlan vid ob of
           Some i \<Rightarrow>
             if \<not> ETHFW_IS_BIT_SET (vlVirtMemberMask (vlans ob ! i)) virtPort then (ETHFW_EPERM, s)
             else vlan_activate e i virtPort vid s
         | None \<Rightarrow>
             (case first_idx vlIsFree (vlans ob) of
                Some i \<Rightarrow>
                  vlan_activate e i virtPort vid
                    (s\<lparr>gEthFwVlanObj := ob\<lparr>vlans := (vlans ob)[i := dynamic_vlan e ob virtPort vid (vlans ob ! i)],
                                          numVlans := Suc (numVlans ob)\<rparr>\<rparr>)
              | None \<Rightarrow> (ETHFW_EALLOC, s))))"

definition EthFwVlan_leave ::
    "env \<Rightarrow> EthRemoteCfg_VirtPort \<Rightarrow> u16 \<Rightarrow> eth_addr \<Rightarrow> 'a vlan_st_scheme \<Rightarrow> int \<times> 'a vlan_st_scheme" where
  "EthFwVlan_leave e virtPort vid mac s =
     (let status = (if isMcastAddr e mac then ETHFW_EINVALIDPARAMS else ETHFW_SOK);
          s = chk_vlans s; ob = gEthFwVlanObj s
      in case EthFwVlan_getVlan vid ob of
           None \<Rightarrow> (ETHFW_EINVALIDPARAMS, s)
         | Some i \<Rightarrow>
             if status \<noteq> ETHFW_SOK then (status, s)
             else if \<not> ETHFW_IS_BIT_SET (vlVirtMemberMask (vlans ob ! i)) virtPort then (ETHFW_EPERM, s)
             else if \<not> ETHFW_IS_BIT_SET (vlVirtActiveMask (vlans ob ! i)) virtPort then (ETHFW_EINVALIDPARAMS, s)
             else
               (let s = upd_vlan i (\<lambda>v. v\<lparr>vlVirtActiveMask := vlVirtActiveMask v AND NOT (ETHFW_BIT virtPort)\<rparr>) s;
                    v = vlans (gEthFwVlanObj s) ! i
                in thenOK
                  (if vlVirtActiveMask v = 0
                   then (case setup_no_host e v s of
                           (status, s) \<Rightarrow> (status, if vlIsStatic v then s else EthFwVlan_deleteVlan e (vlVlanId v) s))
                   else (ETHFW_SOK, s))
                  (\<lambda>s. if vepaSupport e then with_vepa (EthFwVepa_delAddr e bcast_mac vid virtPort) s
                       else (ETHFW_SOK, s))))"

definition EthFwVlan_isInVlan :: "EthRemoteCfg_VirtPort \<Rightarrow> u16 \<Rightarrow> EthFwVlan_Obj \<Rightarrow> bool" where
  "EthFwVlan_isInVlan virtPort vid ob =
     (case EthFwVlan_getVlan vid ob of
        None \<Rightarrow> False
      | Some i \<Rightarrow> ETHFW_IS_BIT_SET (vlVirtActiveMask (vlans ob ! i)) virtPort)"

section \<open>The bit count\<close>

text \<open>Clearing the lowest set bit, on natural numbers.\<close>

lemma nat_clear_lowest:
  "n \<noteq> 0 \<Longrightarrow> \<exists>k. bit n k \<and> (\<forall>i. bit (n AND (n - 1)) i \<longleftrightarrow> bit n i \<and> i \<noteq> k)" for n :: nat
proof (induction n rule: nat_bit_induct)
  case zero
  then show ?case by simp
next
  case (even n)
  then obtain k where k: "bit n k" "\<forall>i. bit (n AND (n - 1)) i \<longleftrightarrow> bit n i \<and> i \<noteq> k" by auto
  from even have pred: "2 * n - 1 = 1 + 2 * (n - 1)" by simp
  have "bit (2 * n AND (2 * n - 1)) i \<longleftrightarrow> bit (2 * n) i \<and> i \<noteq> Suc k" for i
  proof (cases i)
    case (Suc j)
    with k(2) [rule_format, of j] show ?thesis
      unfolding pred bit_and_iff Suc by (simp add: bit_Suc)
  qed (simp add: even_and_iff bit_0)
  moreover have "bit (2 * n) (Suc k)" using k(1) by (simp add: bit_Suc)
  ultimately show ?case by blast
next
  case (odd n)
  have "bit (1 + 2 * n AND (1 + 2 * n - 1)) i \<longleftrightarrow> bit (1 + 2 * n) i \<and> i \<noteq> 0" for i
    unfolding bit_and_iff by (cases i) (simp_all add: bit_Suc bit_0)
  moreover have "bit (1 + 2 * n) 0" by (simp add: bit_0)
  ultimately show ?case by (metis Suc_eq_plus1_left)
qed

lemma word_clear_lowest:
  assumes "v \<noteq> (0 :: u32)"
  shows "\<exists>k. bit v k \<and> {i. bit (v AND (v - 1)) i} = {i. bit v i} - {k}"
proof -
  have "unat v \<noteq> 0" using assms by (simp add: unat_eq_0)
  from nat_clear_lowest [OF this] obtain k where
    k: "bit (unat v) k" "\<forall>i. bit (unat v AND (unat v - 1)) i \<longleftrightarrow> bit (unat v) i \<and> i \<noteq> k" by blast
  have "unat v AND (unat v - 1) = unat (v AND (v - 1))"
    using assms by (simp add: unsigned_and_eq unat_minus_one)
  with k show ?thesis by (auto simp: bit_unsigned_iff)
qed

lemma word_bits_finite: "finite {i. bit (v :: u32) i}"
  by (rule finite_subset [of _ "{..<32}"]) (auto dest: bit_imp_le_length)

lemma word_bits_card: "card {i. bit (v :: u32) i} \<le> 32"
proof -
  have "{i. bit v i} \<subseteq> {..<32}" by (auto dest: bit_imp_le_length)
  then show ?thesis using card_mono [of "{..<32}" "{i. bit v i}"] by simp
qed

lemma popcount_loop_card: "popcount_loop v c = c + of_nat (card {i. bit v i})"
proof (induction v c rule: popcount_loop.induct)
  case (1 v c)
  show ?case
  proof (cases "v = 0")
    case False
    from word_clear_lowest [OF False] obtain k where
      k: "bit v k" "{i. bit (v AND (v - 1)) i} = {i. bit v i} - {k}" by blast
    then have "card {i. bit v i} = Suc (card {i. bit (v AND (v - 1)) i})"
      using card.remove [OF word_bits_finite, of k v] by simp
    then show ?thesis
      using 1 [OF False] False by (subst popcount_loop.simps) simp
  qed (simp add: popcount_loop.simps)
qed

lemma popcount_card: "unat (EthFwVlan_popcount v) = card {i. bit v i}"
  using word_bits_card [of v] by (simp add: EthFwVlan_popcount_def popcount_loop_card)

text \<open>\<^verbatim>\<open>EthFwVlan_popcount\<close> ends for every argument, with the number of set bits.\<close>

theorem popcount_bits: "unat (EthFwVlan_popcount v) = card {i. i < 32 \<and> bit v i}"
proof -
  have "{i. bit v i} = {i. i < 32 \<and> bit v i}" by (auto dest: bit_imp_le_length)
  then show ?thesis by (simp add: popcount_card)
qed

section \<open>The table\<close>

text \<open>The entries in use are the first \<open>numVlans\<close>, with different ids.\<close>

definition vlan_wf :: "EthFwVlan_Obj \<Rightarrow> bool" where
  "vlan_wf ob \<longleftrightarrow> length (vlans ob) = ETHFWVLAN_VLANS_MAX \<and> numVlans ob \<le> ETHFWVLAN_VLANS_MAX
     \<and> (\<forall>i<ETHFWVLAN_VLANS_MAX. vlIsFree (vlans ob ! i) \<longleftrightarrow> numVlans ob \<le> i)
     \<and> (\<forall>i<ETHFWVLAN_VLANS_MAX. numVlans ob \<le> i \<longrightarrow> \<not> vlIsStatic (vlans ob ! i))
     \<and> (\<forall>i<numVlans ob. \<forall>j<numVlans ob. vlVlanId (vlans ob ! i) = vlVlanId (vlans ob ! j) \<longrightarrow> i = j)"

lemma fold_last:
  "fold (\<lambda>i r. if P i then Some i else r) xs r0 =
     (if \<exists>i\<in>set xs. P i then Some (last (filter P xs)) else r0)"
  by (induction xs arbitrary: r0) (auto simp: filter_empty_conv)

lemma getVlan_None: "EthFwVlan_getVlan vid ob = None \<longleftrightarrow> (\<forall>i<min (numVlans ob) (length (vlans ob)). vlVlanId (vlans ob ! i) \<noteq> vid)"
  by (auto simp: EthFwVlan_getVlan_def fold_last)

lemma getVlan_SomeD:
  assumes "EthFwVlan_getVlan vid ob = Some i"
  shows "i < numVlans ob" "i < length (vlans ob)" "vlVlanId (vlans ob ! i) = vid"
proof -
  let ?xs = "filter (\<lambda>i. vlVlanId (vlans ob ! i) = vid) [0..<min (numVlans ob) (length (vlans ob))]"
  have i: "i = last ?xs" and ne: "?xs \<noteq> []"
    using assms by (auto simp: EthFwVlan_getVlan_def fold_last filter_empty_conv split: if_splits)
  have "i \<in> set ?xs" unfolding i by (rule last_in_set [OF ne])
  then show "i < numVlans ob" "i < length (vlans ob)" "vlVlanId (vlans ob ! i) = vid" by auto
qed

lemma getVlan_at:
  assumes "vlan_wf ob" "i < numVlans ob"
  shows "EthFwVlan_getVlan (vlVlanId (vlans ob ! i)) ob = Some i"
proof (cases "EthFwVlan_getVlan (vlVlanId (vlans ob ! i)) ob")
  case None
  then show ?thesis using assms by (auto simp: getVlan_None vlan_wf_def)
next
  case (Some j)
  with getVlan_SomeD [OF Some] assms show ?thesis by (auto simp: vlan_wf_def)
qed

lemma getVlan_iff:
  assumes "vlan_wf ob"
  shows "EthFwVlan_getVlan vid ob = Some i \<longleftrightarrow> i < numVlans ob \<and> vlVlanId (vlans ob ! i) = vid"
  using getVlan_SomeD [of vid ob i] getVlan_at [OF assms] by blast

text \<open>What the table holds for a VLAN id.\<close>

definition vlan_of :: "EthFwVlan_Obj \<Rightarrow> u16 \<rightharpoonup> EthFwVlan_Vlan" where
  "vlan_of ob vid = map_option (\<lambda>i. vlans ob ! i) (EthFwVlan_getVlan vid ob)"

lemma vlan_of_Some:
  assumes "vlan_wf ob"
  shows "vlan_of ob vid = Some v \<longleftrightarrow> (\<exists>i<numVlans ob. vlans ob ! i = v \<and> vlVlanId v = vid)"
  by (auto simp: vlan_of_def getVlan_iff [OF assms])

lemma isInVlan_of:
  "EthFwVlan_isInVlan p vid ob = (case vlan_of ob vid of None \<Rightarrow> False | Some v \<Rightarrow> ETHFW_IS_BIT_SET (vlVirtActiveMask v) p)"
  by (simp add: EthFwVlan_isInVlan_def vlan_of_def split: option.split)

lemma vlan_upd:
  assumes "vlan_wf (gEthFwVlanObj s)" "EthFwVlan_getVlan vid (gEthFwVlanObj s) = Some i"
    and "\<And>v. vlVlanId (f v) = vlVlanId v" "\<And>v. vlIsFree (f v) = vlIsFree v"
  shows "vlan_wf (gEthFwVlanObj (upd_vlan i f s)) \<and>
    vlan_of (gEthFwVlanObj (upd_vlan i f s)) = (vlan_of (gEthFwVlanObj s))(vid \<mapsto> f (vlans (gEthFwVlanObj s) ! i))"
proof -
  let ?ob = "gEthFwVlanObj s" and ?ob' = "gEthFwVlanObj (upd_vlan i f s)"
  note d = getVlan_SomeD [OF assms(2)]
  have nth: "vlans ?ob' ! j = (if j = i then f (vlans ?ob ! i) else vlans ?ob ! j)" if "j < length (vlans ?ob)" for j
    using that by (simp add: upd_vlan_def Let_def nth_list_update)
  have num: "numVlans ?ob' = numVlans ?ob" "length (vlans ?ob') = length (vlans ?ob)"
    by (simp_all add: upd_vlan_def Let_def)
  have len: "numVlans ?ob \<le> length (vlans ?ob)" using assms(1) by (simp add: vlan_wf_def)
  have keep: "vlVlanId (vlans ?ob' ! j) = vlVlanId (vlans ?ob ! j)" "vlIsFree (vlans ?ob' ! j) = vlIsFree (vlans ?ob ! j)"
    if "j < length (vlans ?ob)" for j
    using nth [OF that] by (simp_all add: assms(3,4))
  have full: "length (vlans ?ob) = ETHFWVLAN_VLANS_MAX" using assms(1) by (simp add: vlan_wf_def)
  have wf: "vlan_wf ?ob'"
    unfolding vlan_wf_def num
  proof (intro conjI allI impI)
    fix j k assume "j < numVlans ?ob" "k < numVlans ?ob" "vlVlanId (vlans ?ob' ! j) = vlVlanId (vlans ?ob' ! k)"
    then show "j = k" using assms(1) keep(1) [of j] keep(1) [of k] len unfolding vlan_wf_def by simp
  next
    fix j assume j: "j < ETHFWVLAN_VLANS_MAX" "numVlans ?ob \<le> j"
    then have "j \<noteq> i" using d by simp
    with j nth [of j] assms(1) full show "\<not> vlIsStatic (vlans ?ob' ! j)" by (simp add: vlan_wf_def)
  qed (use assms(1) full keep(2) in \<open>simp_all add: vlan_wf_def\<close>)
  have "vlan_of ?ob' w = Some v \<longleftrightarrow> ((vlan_of ?ob)(vid \<mapsto> f (vlans ?ob ! i))) w = Some v" for w v
  proof (cases "w = vid")
    case True
    then have "EthFwVlan_getVlan w ?ob' = Some i"
      using getVlan_iff [OF wf, of w i] d nth len by (simp add: num assms(3))
    with True d nth show ?thesis by (simp add: vlan_of_def)
  next
    case False
    have "EthFwVlan_getVlan w ?ob' = Some j \<longleftrightarrow> EthFwVlan_getVlan w ?ob = Some j" for j
      using getVlan_iff [OF wf, of w j] getVlan_iff [OF assms(1), of w j] nth [of j] len d False
      by (cases "j = i") (auto simp: num assms(3))
    moreover have "EthFwVlan_getVlan w ?ob = Some j \<Longrightarrow> j \<noteq> i \<and> j < length (vlans ?ob)" for j
      using getVlan_SomeD [of w ?ob j] d False by auto
    ultimately show ?thesis
      using False nth by (cases "EthFwVlan_getVlan w ?ob") (auto simp: vlan_of_def)
  qed
  with wf show ?thesis by (blast intro: map_eqI)
qed

lemma vlan_new:
  assumes wf0: "vlan_wf ob" and none: "EthFwVlan_getVlan vid ob = None" and free: "first_idx vlIsFree (vlans ob) = Some i"
    and "vlVlanId v = vid" "\<not> vlIsFree v"
    and ob': "ob' = ob\<lparr>vlans := (vlans ob)[i := v], numVlans := Suc (numVlans ob)\<rparr>"
  shows "vlan_wf ob' \<and> vlan_of ob' = (vlan_of ob)(vid \<mapsto> v) \<and> EthFwVlan_getVlan vid ob' = Some i
    \<and> i < length (vlans ob) \<and> \<not> vlIsStatic (vlans ob ! i)"
proof -
  have i: "i < length (vlans ob)" "vlIsFree (vlans ob ! i)" "\<forall>j<i. \<not> vlIsFree (vlans ob ! j)"
    using free by (auto simp: first_idx_Some)
  have num: "i = numVlans ob"
    using i wf0 unfolding vlan_wf_def by (metis linorder_neqE_nat leD order.strict_trans1 le_refl)
  have len: "length (vlans ob) = ETHFWVLAN_VLANS_MAX" using wf0 by (simp add: vlan_wf_def)
  have old: "vlVlanId (vlans ob ! j) \<noteq> vid" if "j < numVlans ob" for j
    using none that wf0 by (auto simp: getVlan_None vlan_wf_def)
  have wf: "vlan_wf ob'"
    using wf0 i num len assms(4,5)
    by (auto simp: vlan_wf_def ob' nth_list_update less_Suc_eq dest: old)
  have at: "EthFwVlan_getVlan vid ob' = Some i"
    using getVlan_iff [OF wf, of vid i] i num assms(4) by (simp add: ob')
  have "vlan_of ob' w = Some u \<longleftrightarrow> ((vlan_of ob)(vid \<mapsto> v)) w = Some u" for w u
  proof (cases "w = vid")
    case True
    then show ?thesis using at i by (simp add: vlan_of_def ob')
  next
    case False
    have "(\<exists>j<Suc (numVlans ob). vlans ob' ! j = u \<and> vlVlanId u = w) \<longleftrightarrow> (\<exists>j<numVlans ob. vlans ob ! j = u \<and> vlVlanId u = w)"
      using False assms(4) num i by (auto simp: ob' less_Suc_eq)
    with False show ?thesis
      using vlan_of_Some [OF wf, of w u] vlan_of_Some [OF wf0, of w u] by (simp add: ob')
  qed
  moreover have "\<not> vlIsStatic (vlans ob ! i)" using wf0 i num len by (simp add: vlan_wf_def)
  ultimately show ?thesis using wf at i by (blast intro: map_eqI)
qed

section \<open>Effects of joining and leaving\<close>

lemma vlan_frames [simp]:
  "gEthFwVlanObj (issue c s) = gEthFwVlanObj s"
  "gEthFwVlanObj (snd (with_vepa f s)) = gEthFwVlanObj s"
  "calls (upd_vlan i g s) = calls s"
  "gEthFwVepaObj (upd_vlan i g s) = gEthFwVepaObj s"
  by (simp_all add: issue_def with_vepa_def upd_vlan_def Let_def split: prod.split)

lemma chk_vlans_wf [simp]: "vlan_wf (gEthFwVlanObj s) \<Longrightarrow> chk_vlans s = s"
  by (simp add: chk_vlans_def vlan_wf_def)

text \<open>The permission a join or leave of an existing VLAN needs.\<close>

definition vlan_allows :: "EthFwVlan_Obj \<Rightarrow> u16 \<Rightarrow> EthRemoteCfg_VirtPort \<Rightarrow> bool" where
  "vlan_allows ob vid p = (case vlan_of ob vid of None \<Rightarrow> False | Some v \<Rightarrow> ETHFW_IS_BIT_SET (vlVirtMemberMask v) p)"

abbreviation add_vlan_call :: "env \<Rightarrow> u16 \<Rightarrow> u32 \<Rightarrow> u32 \<Rightarrow> u32 \<Rightarrow> u32 \<Rightarrow> call" where
  "add_vlan_call e vid m r u t \<equiv> Ioctl (selfCoreId e) (ALE_ADD_VLAN (ucast vid) m r u t 0 True)"

definition entry_call :: "env \<Rightarrow> EthFwVlan_Vlan \<Rightarrow> call" where
  "entry_call e v = add_vlan_call e (vlVlanId v) (vlMemberMask v) (vlRegMcastFloodMask v) (vlUnregMcastFloodMask v) (vlUntagMask v)"

definition no_host_call :: "env \<Rightarrow> EthFwVlan_Vlan \<Rightarrow> call" where
  "no_host_call e v = (let h = NOT (hostPortMask e) in
     add_vlan_call e (vlVlanId v) (vlMemberMask v AND h) (vlRegMcastFloodMask v AND h) (vlUnregMcastFloodMask v AND h) (vlUntagMask v AND h))"

lemma setup_calls:
  "setup_entry e v s = call_st e (entry_call e v) s"
  "setup_no_host e v s = call_st e (no_host_call e v) s"
  by (simp_all add: setup_entry_def setup_no_host_def entry_call_def no_host_call_def EthFwVlan_setupVlan_def Let_def)

definition with_active :: "EthFwVlan_Vlan \<Rightarrow> EthRemoteCfg_VirtPort \<Rightarrow> EthFwVlan_Vlan" where
  "with_active v p = v\<lparr>vlVirtActiveMask := vlVirtActiveMask v OR ETHFW_BIT p\<rparr>"

definition without_active :: "EthFwVlan_Vlan \<Rightarrow> EthRemoteCfg_VirtPort \<Rightarrow> EthFwVlan_Vlan" where
  "without_active v p = v\<lparr>vlVirtActiveMask := vlVirtActiveMask v AND NOT (ETHFW_BIT p)\<rparr>"

lemma activate_eff:
  assumes "vlan_wf (gEthFwVlanObj s)" "EthFwVlan_getVlan vid (gEthFwVlanObj s) = Some i"
  shows "let (st, s') = vlan_activate e i p vid s; v = vlans (gEthFwVlanObj s) ! i; c = entry_call e v
    in st = status_of e (calls s) c \<and> calls s' = calls s @ [c] \<and> vlan_wf (gEthFwVlanObj s')
     \<and> vlan_of (gEthFwVlanObj s') = (if st = ETHFW_SOK then (vlan_of (gEthFwVlanObj s))(vid \<mapsto> with_active v p)
          else vlan_of (gEthFwVlanObj s))"
proof -
  let ?c = "entry_call e (vlans (gEthFwVlanObj s) ! i)"
  have "vlan_wf (gEthFwVlanObj (issue ?c s))" "EthFwVlan_getVlan vid (gEthFwVlanObj (issue ?c s)) = Some i"
    using assms by simp_all
  from vlan_upd [OF this, of "\<lambda>v. v\<lparr>vlVirtActiveMask := vlVirtActiveMask v OR ETHFW_BIT p\<rparr>"] assms(1)
  show ?thesis
    by (simp add: vlan_activate_def setup_calls call_st_def thenOK_def Let_def case_prod_beta with_active_def)
qed

lemma join_eff:
  assumes "lib_spec e" "vlan_wf (gEthFwVlanObj s)"
  shows "let (st, s') = EthFwVlan_join e p vid mac s; ob = gEthFwVlanObj s; ob' = gEthFwVlanObj s'
    in vlan_wf ob' \<and>
      (if odd (unat (octet0 mac)) then st = ETHFW_EINVALIDPARAMS \<and> s' = s
       else case vlan_of ob vid of
         Some v \<Rightarrow> if \<not> vlan_allows ob vid p then st = ETHFW_EPERM \<and> s' = s
           else st = status_of e (calls s) (entry_call e v) \<and> calls s' = calls s @ [entry_call e v]
             \<and> vlan_of ob' = (if st = ETHFW_SOK then (vlan_of ob)(vid \<mapsto> with_active v p) else vlan_of ob)
       | None \<Rightarrow> (if first_idx vlIsFree (vlans ob) = None then st = ETHFW_EALLOC \<and> s' = s
           else (\<exists>v0. let v = dynamic_vlan e ob p vid v0
             in \<not> vlIsStatic v0
              \<and> st = status_of e (calls s) (entry_call e v) \<and> calls s' = calls s @ [entry_call e v]
              \<and> (st = ETHFW_SOK \<longrightarrow> vlan_of ob' = (vlan_of ob)(vid \<mapsto> with_active v p))
              \<and> (st \<noteq> ETHFW_SOK \<longrightarrow> vlan_of ob' = (vlan_of ob)(vid \<mapsto> v)))))"
proof (cases "odd (unat (octet0 mac))")
  case True
  then show ?thesis using assms by (simp add: EthFwVlan_join_def)
next
  case uni: False
  let ?ob = "gEthFwVlanObj s"
  show ?thesis
  proof (cases "EthFwVlan_getVlan vid ?ob")
    case (Some i)
    from activate_eff [OF assms(2) Some, of e p] uni Some assms show ?thesis
      by (auto simp: EthFwVlan_join_def vlan_of_def vlan_allows_def case_prod_beta Let_def)
  next
    case None
    show ?thesis
    proof (cases "first_idx vlIsFree (vlans ?ob)")
      case no: None
      with None uni assms show ?thesis
        by (simp add: EthFwVlan_join_def vlan_of_def)
    next
      case (Some i)
      let ?v = "dynamic_vlan e ?ob p vid (vlans ?ob ! i)"
      let ?ob1 = "?ob\<lparr>vlans := (vlans ?ob)[i := ?v], numVlans := Suc (numVlans ?ob)\<rparr>"
      have v: "vlVlanId ?v = vid" "\<not> vlIsFree ?v"
        by (simp_all add: dynamic_vlan_def Let_def split: prod.split)
      note new = vlan_new [OF assms(2) None Some v refl]
      have "vlan_wf (gEthFwVlanObj (s\<lparr>gEthFwVlanObj := ?ob1\<rparr>))"
        "EthFwVlan_getVlan vid (gEthFwVlanObj (s\<lparr>gEthFwVlanObj := ?ob1\<rparr>)) = Some i"
        using new by simp_all
      from activate_eff [OF this, of e p] new uni None Some assms show ?thesis
        by (auto simp: EthFwVlan_join_def vlan_of_def [of ?ob vid] case_prod_beta Let_def intro!: exI [of _ "vlans ?ob ! i"])
    qed
  qed
qed

lemma leave_eff:
  assumes "lib_spec e" "vlan_wf (gEthFwVlanObj s)"
  shows "let (st, s') = EthFwVlan_leave e p vid mac s; ob = gEthFwVlanObj s; ob' = gEthFwVlanObj s'
    in vlan_wf ob' \<and>
      (case vlan_of ob vid of
         None \<Rightarrow> st = ETHFW_EINVALIDPARAMS \<and> s' = s
       | Some v \<Rightarrow>
           if odd (unat (octet0 mac)) then st = ETHFW_EINVALIDPARAMS \<and> s' = s
           else if \<not> vlan_allows ob vid p then st = ETHFW_EPERM \<and> s' = s
           else if \<not> EthFwVlan_isInVlan p vid ob then st = ETHFW_EINVALIDPARAMS \<and> s' = s
           else
             (let v' = without_active v p; last = (vlVirtActiveMask v' = 0);
                  drv = (if last then status_of e (calls s) (no_host_call e v') else ETHFW_SOK)
              in vlan_of ob' = (vlan_of ob)(vid \<mapsto> v')
               \<and> calls s' = calls s @ (if last then no_host_call e v' #
                   (if vlIsStatic v then [] else [Ioctl (selfCoreId e) (ALE_REMOVE_VLAN (ucast vid))]) else [])
               \<and> st = (if drv \<noteq> ETHFW_SOK then drv
                       else if vepaSupport e then fst (EthFwVepa_delAddr e bcast_mac vid p (gEthFwVepaObj s)) else ETHFW_SOK)))"
proof (cases "EthFwVlan_getVlan vid (gEthFwVlanObj s)")
  case None
  with assms show ?thesis by (simp add: EthFwVlan_leave_def vlan_of_def)
next
  case (Some i)
  let ?ob = "gEthFwVlanObj s" and ?f = "\<lambda>v. v\<lparr>vlVirtActiveMask := vlVirtActiveMask v AND NOT (ETHFW_BIT p)\<rparr>"
  note d = getVlan_SomeD [OF Some]
  note up = vlan_upd [OF assms(2) Some, of ?f, simplified]
  have nth: "vlans (gEthFwVlanObj (upd_vlan i (\<lambda>v. without_active v p) s)) ! i = without_active (vlans ?ob ! i) p"
    using d by (simp add: upd_vlan_def Let_def without_active_def)
  have id: "vlVlanId (without_active (vlans ?ob ! i) p) = vid" "vlIsStatic (without_active v p) = vlIsStatic v" for v
    using d by (simp_all add: without_active_def)
  have of: "vlan_of ?ob vid = Some (vlans ?ob ! i)" by (simp add: vlan_of_def Some)
  show ?thesis
    using up assms of id
    by (simp add: EthFwVlan_leave_def Some nth vlan_allows_def EthFwVlan_isInVlan_def Let_def setup_calls call_st_def
        thenOK_def EthFwVlan_deleteVlan_def case_prod_beta without_active_def [symmetric])
qed

section \<open>Membership\<close>

lemma with_active_simps [simp]:
  "vlVirtMemberMask (with_active v p) = vlVirtMemberMask v" "vlVirtMemberMask (without_active v p) = vlVirtMemberMask v"
  "vlMemberMask (with_active v p) = vlMemberMask v" "vlMemberMask (without_active v p) = vlMemberMask v"
  "vlIsStatic (with_active v p) = vlIsStatic v" "vlIsStatic (without_active v p) = vlIsStatic v"
  "vlVlanId (with_active v p) = vlVlanId v" "vlVlanId (without_active v p) = vlVlanId v"
  by (simp_all add: with_active_def without_active_def)

lemma active_bits:
  "unat p < 32 \<Longrightarrow> ETHFW_IS_BIT_SET (vlVirtActiveMask (with_active v p)) q \<longleftrightarrow> q = p \<or> ETHFW_IS_BIT_SET (vlVirtActiveMask v) q"
  "ETHFW_IS_BIT_SET (vlVirtActiveMask (without_active v p)) q \<longleftrightarrow> q \<noteq> p \<and> ETHFW_IS_BIT_SET (vlVirtActiveMask v) q"
  by (simp_all add: with_active_def without_active_def IS_BIT_SET_or_BIT IS_BIT_SET_clear)

lemma dynamic_simps [simp]:
  "vlVlanId (dynamic_vlan e ob p vid v) = vid" "vlIsStatic (dynamic_vlan e ob p vid v) = vlIsStatic v"
  "vlVirtActiveMask (dynamic_vlan e ob p vid v) = 0"
  by (simp_all add: dynamic_vlan_def Let_def split: prod.split)

lemma join_isIn:
  assumes "lib_spec e" "vlan_wf (gEthFwVlanObj s)" "unat p < 32"
  shows "let (st, s') = EthFwVlan_join e p vid mac s
    in EthFwVlan_isInVlan q w (gEthFwVlanObj s') \<longleftrightarrow>
        EthFwVlan_isInVlan q w (gEthFwVlanObj s) \<or> (st = ETHFW_SOK \<and> q = p \<and> w = vid)"
  using join_eff [OF assms(1,2), of p vid mac] active_bits(1) [OF assms(3)]
  by (cases "vlan_of (gEthFwVlanObj s) vid"; cases "w = vid"; cases "fst (EthFwVlan_join e p vid mac s) = ETHFW_SOK")
    (auto simp: isInVlan_of Let_def case_prod_beta split: if_splits)

lemma leave_isIn:
  assumes "lib_spec e" "vlan_wf (gEthFwVlanObj s)"
  shows "let (st, s') = EthFwVlan_leave e p vid mac s
    in EthFwVlan_isInVlan q w (gEthFwVlanObj s') \<longleftrightarrow>
        EthFwVlan_isInVlan q w (gEthFwVlanObj s) \<and>
        \<not> (q = p \<and> w = vid \<and> even (unat (octet0 mac)) \<and> vlan_allows (gEthFwVlanObj s) vid p)"
  using leave_eff [OF assms, of p vid mac] active_bits(2)
  by (cases "vlan_of (gEthFwVlanObj s) vid"; cases "w = vid"; cases "odd (unat (octet0 mac))")
    (auto simp: isInVlan_of vlan_allows_def Let_def case_prod_beta split: if_splits option.splits)

lemma join_refused:
  assumes "lib_spec e" "vlan_wf (gEthFwVlanObj s)"
  shows "vlan_wf (gEthFwVlanObj (snd (EthFwVlan_join e p vid mac s)))"
    and "odd (unat (octet0 mac)) \<Longrightarrow> EthFwVlan_join e p vid mac s = (ETHFW_EINVALIDPARAMS, s)"
    and "even (unat (octet0 mac)) \<Longrightarrow> vlan_of (gEthFwVlanObj s) vid = Some v \<Longrightarrow> \<not> vlan_allows (gEthFwVlanObj s) vid p
      \<Longrightarrow> EthFwVlan_join e p vid mac s = (ETHFW_EPERM, s)"
    and "even (unat (octet0 mac)) \<Longrightarrow> vlan_of (gEthFwVlanObj s) vid = None \<Longrightarrow> first_idx vlIsFree (vlans (gEthFwVlanObj s)) = None
      \<Longrightarrow> EthFwVlan_join e p vid mac s = (ETHFW_EALLOC, s)"
  using join_eff [OF assms, of p vid mac] by (simp_all add: Let_def case_prod_beta prod_eq_iff)

lemma leave_refused:
  assumes "lib_spec e" "vlan_wf (gEthFwVlanObj s)"
  shows "vlan_wf (gEthFwVlanObj (snd (EthFwVlan_leave e p vid mac s)))"
    and "odd (unat (octet0 mac)) \<Longrightarrow> EthFwVlan_leave e p vid mac s = (ETHFW_EINVALIDPARAMS, s)"
    and "even (unat (octet0 mac)) \<Longrightarrow> vlan_of (gEthFwVlanObj s) vid = Some v \<Longrightarrow> \<not> vlan_allows (gEthFwVlanObj s) vid p
      \<Longrightarrow> EthFwVlan_leave e p vid mac s = (ETHFW_EPERM, s)"
    and "\<not> EthFwVlan_isInVlan p vid (gEthFwVlanObj s) \<Longrightarrow>
      EthFwVlan_leave e p vid mac s = (ETHFW_EINVALIDPARAMS, s) \<or> EthFwVlan_leave e p vid mac s = (ETHFW_EPERM, s)"
proof -
  note eff = leave_eff [OF assms, of p vid mac]
  show "vlan_wf (gEthFwVlanObj (snd (EthFwVlan_leave e p vid mac s)))"
    using eff by (simp add: Let_def case_prod_beta)
  show "EthFwVlan_leave e p vid mac s = (ETHFW_EINVALIDPARAMS, s)" if "odd (unat (octet0 mac))"
    using eff that by (cases "vlan_of (gEthFwVlanObj s) vid") (simp_all add: case_prod_beta prod_eq_iff)
  show "EthFwVlan_leave e p vid mac s = (ETHFW_EPERM, s)"
    if "even (unat (octet0 mac))" "vlan_of (gEthFwVlanObj s) vid = Some v" "\<not> vlan_allows (gEthFwVlanObj s) vid p"
    using eff that by (simp add: case_prod_beta prod_eq_iff)
  show "EthFwVlan_leave e p vid mac s = (ETHFW_EINVALIDPARAMS, s) \<or> EthFwVlan_leave e p vid mac s = (ETHFW_EPERM, s)"
    if "\<not> EthFwVlan_isInVlan p vid (gEthFwVlanObj s)"
    using eff that
    by (cases "vlan_of (gEthFwVlanObj s) vid"; cases "odd (unat (octet0 mac))"; cases "vlan_allows (gEthFwVlanObj s) vid p")
      (simp_all add: case_prod_beta prod_eq_iff)
qed

text \<open>A join that answers OK puts the port in the VLAN, any other join puts nobody
  anywhere; a leave with a unicast address by a port the VLAN allows takes that port out, whatever
  it answers, and nobody else; a join of an existing VLAN by a port it does not allow is \<open>EPERM\<close>, a
  multicast address is \<open>EINVALIDPARAMS\<close>, a new VLAN without a free entry is \<open>EALLOC\<close>, and leaving a
  VLAN one is not in is \<open>EINVALIDPARAMS\<close> or \<open>EPERM\<close>; the refused ones change nothing.\<close>

theorem vlan_join_leave:
  assumes "lib_spec e" "vlan_wf (gEthFwVlanObj s)" "unat p < 32"
  shows "let ob = gEthFwVlanObj s; (st, s1) = EthFwVlan_join e p vid mac s; (st2, s2) = EthFwVlan_leave e p vid mac s
    in vlan_wf (gEthFwVlanObj s1) \<and> vlan_wf (gEthFwVlanObj s2)
     \<and> (EthFwVlan_isInVlan q w (gEthFwVlanObj s1) \<longleftrightarrow>
          EthFwVlan_isInVlan q w ob \<or> (st = ETHFW_SOK \<and> q = p \<and> w = vid))
     \<and> (EthFwVlan_isInVlan q w (gEthFwVlanObj s2) \<longleftrightarrow>
          EthFwVlan_isInVlan q w ob \<and> \<not> (q = p \<and> w = vid \<and> even (unat (octet0 mac)) \<and> vlan_allows ob vid p))
     \<and> (odd (unat (octet0 mac)) \<longrightarrow> st = ETHFW_EINVALIDPARAMS \<and> s1 = s \<and> st2 = ETHFW_EINVALIDPARAMS \<and> s2 = s)
     \<and> (even (unat (octet0 mac)) \<longrightarrow> vlan_of ob vid \<noteq> None \<longrightarrow> \<not> vlan_allows ob vid p \<longrightarrow>
          st = ETHFW_EPERM \<and> s1 = s \<and> st2 = ETHFW_EPERM \<and> s2 = s)
     \<and> (even (unat (octet0 mac)) \<longrightarrow> vlan_of ob vid = None \<longrightarrow> first_idx vlIsFree (vlans ob) = None \<longrightarrow>
          st = ETHFW_EALLOC \<and> s1 = s)
     \<and> (\<not> EthFwVlan_isInVlan p vid ob \<longrightarrow> (st2 = ETHFW_EINVALIDPARAMS \<or> st2 = ETHFW_EPERM) \<and> s2 = s)"
  using join_refused [OF assms(1,2), where p = p and vid = vid and mac = mac]
    leave_refused [OF assms(1,2), where p = p and vid = vid and mac = mac]
    join_isIn [OF assms, where vid = vid and mac = mac and q = q and w = w]
    leave_isIn [OF assms(1,2), where p = p and vid = vid and mac = mac and q = q and w = w]
  by (cases "vlan_of (gEthFwVlanObj s) vid"; cases "odd (unat (octet0 mac))") (auto simp: Let_def case_prod_beta)

section \<open>The static configuration\<close>

text \<open>The physical ports of a port mask (bit \<open>k\<close> is ALE port \<open>k + 1\<close>) that a configured VLAN has as members.\<close>

definition vlan_ports :: "EthFwVlan_VlanCfg \<Rightarrow> u32 \<Rightarrow> nat set" where
  "vlan_ports c ports = {k. bit ports k \<and> bit (vcMemberMask c) (Suc k)}"

definition vlan_cfg_ok :: "EthFwVlan_Cfg \<Rightarrow> EthFwVlan_VlanCfg \<Rightarrow> bool" where
  "vlan_cfg_ok cfg c \<longleftrightarrow>
     ucast (vcVlanId c) \<noteq> dfltVlanIdSwitchPorts cfg \<and> ucast (vcVlanId c) \<noteq> dfltVlanIdMacOnlyPorts cfg
     \<and> (vlan_ports c (vcSwitchPortMask cfg) = {} \<or> vlan_ports c (vcMacOnlyPortMask cfg) = {})
     \<and> card (vlan_ports c (vcMacOnlyPortMask cfg)) \<le> 1"

definition static_entry :: "EthFwVlan_VlanCfg \<Rightarrow> EthFwVlan_Vlan" where
  "static_entry c = \<lparr>vlVlanId = vcVlanId c, vlMemberMask = vcMemberMask c,
     vlRegMcastFloodMask = vcRegMcastFloodMask c AND vcMemberMask c,
     vlUnregMcastFloodMask = vcUnregMcastFloodMask c AND vcMemberMask c,
     vlUntagMask = vcUntagMask c AND vcMemberMask c, vlVirtMemberMask = vcVirtMemberMask c,
     vlVirtActiveMask = 0, vlIsFree = False, vlIsStatic = True\<rparr>"

lemma static_entry_masks:
  "vlUntagMask (static_entry c) AND NOT (vlMemberMask (static_entry c)) = 0"
  "vlRegMcastFloodMask (static_entry c) AND NOT (vlMemberMask (static_entry c)) = 0"
  "vlUnregMcastFloodMask (static_entry c) AND NOT (vlMemberMask (static_entry c)) = 0"
  "vlVirtActiveMask (static_entry c) = 0"
  by (simp_all add: static_entry_def and.assoc)

lemma vlan_ports_bits: "{i. bit (vcMemberMask c AND push_bit 1 m) i} = Suc ` vlan_ports c m"
proof (rule set_eqI)
  fix i
  show "i \<in> {i. bit (vcMemberMask c AND push_bit 1 m) i} \<longleftrightarrow> i \<in> Suc ` vlan_ports c m"
  proof (cases i)
    case 0
    have "\<not> bit (push_bit 1 m) 0" unfolding bit_push_bit_iff by simp
    then show ?thesis unfolding 0 by (auto simp only: bit_and_iff mem_Collect_eq)
  next
    case (Suc k)
    have "bit (push_bit 1 m) (Suc k) \<longleftrightarrow> Suc k < 32 \<and> bit m k" unfolding bit_push_bit_iff by auto
    then show ?thesis unfolding Suc vlan_ports_def mem_Collect_eq bit_and_iff
      by (auto dest: bit_imp_le_length)
  qed
qed

lemma vlan_ports_eqs:
  "vcMemberMask c AND push_bit 1 m = 0 \<longleftrightarrow> vlan_ports c m = {}"
  "1 < EthFwVlan_popcount (vcMemberMask c AND push_bit 1 m) \<longleftrightarrow> 1 < card (vlan_ports c m)"
proof -
  have "vcMemberMask c AND push_bit 1 m = 0 \<longleftrightarrow> {i. bit (vcMemberMask c AND push_bit 1 m) i} = {}"
    unfolding word_eq_0_bits by auto
  then show "vcMemberMask c AND push_bit 1 m = 0 \<longleftrightarrow> vlan_ports c m = {}"
    unfolding vlan_ports_bits by simp
  show "1 < EthFwVlan_popcount (vcMemberMask c AND push_bit 1 m) \<longleftrightarrow> 1 < card (vlan_ports c m)"
    unfolding word_less_nat_alt popcount_card vlan_ports_bits by (simp add: card_image)
qed

lemma cfg_loop_step:
  "vlan_cfg_loop cfg (c # cs) i ob =
     (if \<not> vlan_cfg_ok cfg c then (ETHFW_EINVALIDPARAMS, ob)
      else vlan_cfg_loop cfg cs (Suc i) (ob\<lparr>vlans := (vlans ob)[i := static_entry c], numVlans := Suc (numVlans ob)\<rparr>))"
  unfolding vlan_cfg_loop.simps Let_def vlan_ports_eqs vlan_cfg_ok_def static_entry_def by auto

lemma cfg_loop_spec:
  assumes "i + length cs \<le> length (vlans ob)"
  shows "let (st, ob') = vlan_cfg_loop cfg cs i ob
    in (st = ETHFW_SOK \<longleftrightarrow> (\<forall>c\<in>set cs. vlan_cfg_ok cfg c)) \<and> (st \<noteq> ETHFW_SOK \<longrightarrow> st = ETHFW_EINVALIDPARAMS)
     \<and> (st = ETHFW_SOK \<longrightarrow> numVlans ob' = numVlans ob + length cs
          \<and> vlans ob' = take i (vlans ob) @ map static_entry cs @ drop (i + length cs) (vlans ob))"
  using assms
proof (induction cs arbitrary: i ob)
  case (Cons c cs)
  let ?ob = "ob\<lparr>vlans := (vlans ob)[i := static_entry c], numVlans := Suc (numVlans ob)\<rparr>"
  have "i < length (vlans ob)" using Cons.prems by simp
  then have "take (Suc i) (vlans ?ob) = take i (vlans ob) @ [static_entry c]"
    by (simp add: take_Suc_conv_app_nth)
  moreover have "drop (Suc i + length cs) (vlans ?ob) = drop (i + length (c # cs)) (vlans ob)"
    by simp
  ultimately show ?case
    using Cons.IH [of "Suc i" ?ob] Cons.prems
    by (simp add: cfg_loop_step Let_def case_prod_beta del: vlan_cfg_loop.simps(2))
qed simp

text \<open>The static configuration is accepted exactly when it has at most 32 VLANs, none
  with a default VLAN's id, none with both a switch port and a MAC-only port, none with two
  MAC-only ports; otherwise it is \<open>EINVALIDPARAMS\<close>.  An accepted one is in the table in order, with
  every flood and untag mask within the member mask and no port active.\<close>

theorem vlan_static_cfg:
  assumes "length (vlans ob) = ETHFWVLAN_VLANS_MAX" "numVlans ob = 0"
  shows "let (st, ob') = EthFwVlan_getCfg cfg ob
    in (st = ETHFW_SOK \<longleftrightarrow> length (vcVlans cfg) \<le> ETHFWVLAN_VLANS_MAX \<and> (\<forall>c\<in>set (vcVlans cfg). vlan_cfg_ok cfg c))
     \<and> (st \<noteq> ETHFW_SOK \<longrightarrow> st = ETHFW_EINVALIDPARAMS)
     \<and> (st = ETHFW_SOK \<longrightarrow> take (numVlans ob') (vlans ob') = map static_entry (vcVlans cfg)
          \<and> (\<forall>v\<in>set (take (numVlans ob') (vlans ob')).
               vlUntagMask v AND NOT (vlMemberMask v) = 0 \<and> vlRegMcastFloodMask v AND NOT (vlMemberMask v) = 0
               \<and> vlUnregMcastFloodMask v AND NOT (vlMemberMask v) = 0 \<and> vlVirtActiveMask v = 0))"
  using cfg_loop_spec [of 0 "vcVlans cfg" ob cfg] assms
  by (auto simp: EthFwVlan_getCfg_def Let_def case_prod_beta static_entry_masks)

section \<open>The host port in the ALE\<close>

datatype vlan_ev =
    VJoin EthRemoteCfg_VirtPort u16 eth_addr
  | VLeave EthRemoteCfg_VirtPort u16 eth_addr

fun vlan_do :: "env \<Rightarrow> vlan_ev \<Rightarrow> 'a vlan_st_scheme \<Rightarrow> 'a vlan_st_scheme" where
  "vlan_do e (VJoin p vid mac) s = snd (EthFwVlan_join e p vid mac s)"
| "vlan_do e (VLeave p vid mac) s = snd (EthFwVlan_leave e p vid mac s)"

fun vlan_ev_port :: "vlan_ev \<Rightarrow> EthRemoteCfg_VirtPort" where
  "vlan_ev_port (VJoin p vid mac) = p"
| "vlan_ev_port (VLeave p vid mac) = p"

text \<open>The member mask the ALE has for a VLAN after a sequence of calls, with a driver that accepts them all.\<close>

fun ale_vlan_step :: "u16 \<Rightarrow> call \<Rightarrow> u32 option \<Rightarrow> u32 option" where
  "ale_vlan_step vid (Ioctl k (ALE_ADD_VLAN v m r u t n c)) x = (if v = ucast vid then Some m else x)"
| "ale_vlan_step vid (Ioctl k (ALE_REMOVE_VLAN v)) x = (if v = ucast vid then None else x)"
| "ale_vlan_step vid c x = x"

definition ale_members :: "u16 \<Rightarrow> call list \<Rightarrow> u32 option" where
  "ale_members vid cs = fold (ale_vlan_step vid) cs None"

definition vlan_expect :: "env \<Rightarrow> EthFwVlan_Obj \<Rightarrow> u16 \<Rightarrow> u32 option" where
  "vlan_expect e ob vid =
     (case vlan_of ob vid of
        None \<Rightarrow> None
      | Some v \<Rightarrow>
          if vlVirtActiveMask v \<noteq> 0 then Some (vlMemberMask v)
          else if vlIsStatic v then Some (vlMemberMask v AND NOT (hostPortMask e))
          else None)"

definition vlan_host_inv :: "env \<Rightarrow> 'a vlan_st_scheme \<Rightarrow> bool" where
  "vlan_host_inv e s \<longleftrightarrow> vlan_wf (gEthFwVlanObj s)
     \<and> (\<forall>vid. ale_members vid (calls s) = vlan_expect e (gEthFwVlanObj s) vid)"

lemma ucast_vid [simp]: "(ucast (v :: u16) :: u32) = ucast w \<longleftrightarrow> v = w"
proof
  assume *: "(ucast v :: u32) = ucast w"
  show "v = w"
  proof (rule bit_word_eqI)
    fix n assume "n < LENGTH(16)"
    with arg_cong [OF *, of "\<lambda>x. bit x n"] show "bit v n \<longleftrightarrow> bit w n" by (simp add: bit_ucast_iff)
  qed
qed simp

lemma ale_members_simps [simp]:
  "ale_members vid (cs @ [entry_call e v]) = (if vlVlanId v = vid then Some (vlMemberMask v) else ale_members vid cs)"
  "ale_members vid (cs @ [no_host_call e v]) =
     (if vlVlanId v = vid then Some (vlMemberMask v AND NOT (hostPortMask e)) else ale_members vid cs)"
  "ale_members vid (cs @ [no_host_call e v, Ioctl k (ALE_REMOVE_VLAN (ucast w))]) =
     (if w = vid then None else if vlVlanId v = vid then Some (vlMemberMask v AND NOT (hostPortMask e)) else ale_members vid cs)"
  "ale_members vid (cs @ [Osal_createMutex]) = ale_members vid cs"
  by (auto simp: ale_members_def entry_call_def no_host_call_def Let_def)

lemma active_neq_0: "unat p < 32 \<Longrightarrow> vlVirtActiveMask (with_active v p) \<noteq> 0"
  using active_bits(1) [of p v p] by (metis IS_BIT_SET_0)

lemma join_host_inv:
  assumes e: "lib_spec e" "\<And>h c. status_of e h c = ETHFW_SOK"
    and inv: "vlan_host_inv e s" and p: "unat p < 32"
  shows "vlan_host_inv e (snd (EthFwVlan_join e p vid mac s))"
proof -
  have wf: "vlan_wf (gEthFwVlanObj s)" using inv by (simp add: vlan_host_inv_def)
  note eff = join_eff [OF e(1) wf, of p vid mac]
  show ?thesis
  proof (cases "snd (EthFwVlan_join e p vid mac s) = s")
    case True
    with inv show ?thesis by simp
  next
    case False
    then obtain v where v: "vlVlanId v = vid"
      "calls (snd (EthFwVlan_join e p vid mac s)) = calls s @ [entry_call e v]"
      "vlan_of (gEthFwVlanObj (snd (EthFwVlan_join e p vid mac s))) = (vlan_of (gEthFwVlanObj s))(vid \<mapsto> with_active v p)"
      using eff e(2)
      by (auto simp: Let_def case_prod_beta vlan_of_Some [OF wf] split: option.splits if_splits) (metis dynamic_simps(1))+
    moreover have "vlan_wf (gEthFwVlanObj (snd (EthFwVlan_join e p vid mac s)))"
      using eff by (simp add: Let_def case_prod_beta)
    ultimately show ?thesis
      using inv active_neq_0 [OF p, of v] by (auto simp: vlan_host_inv_def vlan_expect_def)
  qed
qed

lemma leave_host_inv:
  assumes e: "lib_spec e" "\<And>h c. status_of e h c = ETHFW_SOK"
    and inv: "vlan_host_inv e s"
  shows "vlan_host_inv e (snd (EthFwVlan_leave e p vid mac s))"
proof -
  let ?s' = "snd (EthFwVlan_leave e p vid mac s)"
  have wf: "vlan_wf (gEthFwVlanObj s)" using inv by (simp add: vlan_host_inv_def)
  note eff = leave_eff [OF e(1) wf, of p vid mac, unfolded Let_def case_prod_beta]
  have wf': "vlan_wf (gEthFwVlanObj ?s')" using eff by simp
  show ?thesis
  proof (cases "?s' = s")
    case True
    with inv show ?thesis by simp
  next
    case False
    then obtain v where v0: "vlan_of (gEthFwVlanObj s) vid = Some v"
      using eff by (cases "vlan_of (gEthFwVlanObj s) vid") simp_all
    then have v: "vlVlanId v = vid" by (auto simp: vlan_of_Some [OF wf])
    from eff v0 False have g: "even (unat (octet0 mac))" "vlan_allows (gEthFwVlanObj s) vid p" "EthFwVlan_isInVlan p vid (gEthFwVlanObj s)"
      by (auto split: if_splits)
    then have act: "ETHFW_IS_BIT_SET (vlVirtActiveMask v) p" by (simp add: isInVlan_of v0)
    from eff v0 g have new: "vlan_of (gEthFwVlanObj ?s') = (vlan_of (gEthFwVlanObj s))(vid \<mapsto> without_active v p)"
      "calls ?s' = calls s @ (if vlVirtActiveMask (without_active v p) = 0 then no_host_call e (without_active v p) #
                   (if vlIsStatic v then [] else [Ioctl (selfCoreId e) (ALE_REMOVE_VLAN (ucast vid))]) else [])"
      by simp_all
    from act have "vlVirtActiveMask v \<noteq> 0" by auto
    with v0 v new inv wf' show ?thesis
      by (cases "vlVirtActiveMask (without_active v p) = 0"; cases "vlIsStatic v")
        (auto simp: vlan_host_inv_def vlan_expect_def)
  qed
qed

lemma vlan_do_host_inv:
  assumes "lib_spec e" "\<And>h c. status_of e h c = ETHFW_SOK"
    and "vlan_host_inv e s" "\<forall>ev\<in>set evs. unat (vlan_ev_port ev) < 32"
  shows "vlan_host_inv e (fold (vlan_do e) evs s)"
  using assms(3,4)
proof (induction evs arbitrary: s)
  case (Cons ev evs)
  have "vlan_host_inv e (vlan_do e ev s)"
    using Cons.prems join_host_inv [OF assms(1,2)] leave_host_inv [OF assms(1,2)] by (cases ev) auto
  with Cons show ?case by simp
qed simp

lemma setup_loop_eff:
  assumes "\<forall>v\<in>set vs. \<not> vlIsFree v"
  shows "calls (snd (vlan_setup_loop e vs (st, s))) = calls s @ map (no_host_call e) vs"
    and "gEthFwVlanObj (snd (vlan_setup_loop e vs (st, s))) = gEthFwVlanObj s"
  using assms
  by (induction vs arbitrary: st s) (auto simp: vlan_setup_loop_def setup_calls call_st_def)

lemma ale_members_setup:
  "distinct (map vlVlanId vs) \<Longrightarrow> ale_members vid (cs @ map (no_host_call e) vs) =
     (case find (\<lambda>v. vlVlanId v = vid) vs of
        Some v \<Rightarrow> Some (vlMemberMask v AND NOT (hostPortMask e)) | None \<Rightarrow> ale_members vid cs)"
proof (induction vs arbitrary: cs)
  case (Cons v vs)
  have "find (\<lambda>u. vlVlanId u = vid) vs = None" if "vlVlanId v = vid"
    using that Cons.prems by (auto simp: find_None_iff image_iff)
  then show ?case
    using Cons.IH [of "cs @ [no_host_call e v]"] Cons.prems by (auto split: option.split)
qed simp

definition vlan_cold :: "EthFwVlan_Cfg \<Rightarrow> 'a vlan_st_scheme \<Rightarrow> bool" where
  "vlan_cold cfg s \<longleftrightarrow> length (vlans (gEthFwVlanObj s)) = ETHFWVLAN_VLANS_MAX \<and> numVlans (gEthFwVlanObj s) = 0
     \<and> distinct (map vcVlanId (vcVlans cfg)) \<and> (\<forall>vid. ale_members vid (calls s) = None)"

lemma vlan_init_table:
  assumes cold: "vlan_cold cfg s" and ok: "fst (EthFwVlan_init e cfg s) = ETHFW_SOK"
    and acc: "\<And>h c. status_of e h c = ETHFW_SOK"
  shows "let s' = snd (EthFwVlan_init e cfg s); ob = gEthFwVlanObj s'; vs = map static_entry (vcVlans cfg)
    in vlan_wf ob \<and> numVlans ob = length vs \<and> take (length vs) (vlans ob) = vs
     \<and> calls s' = calls s @ Osal_createMutex # map (no_host_call e) vs"
proof -
  let ?n = "length (vcVlans cfg)" and ?vs = "map static_entry (vcVlans cfg)"
  let ?free = "map (\<lambda>v. v\<lparr>vlIsFree := True, vlIsStatic := False\<rparr>) (vlans (gEthFwVlanObj s))"
  define ob0 where "ob0 = (gEthFwVlanObj s)\<lparr>vlDefaultPortMask := vcDefaultPortMask cfg,
      vlDefaultVirtPortMask := vcDefaultVirtPortMask cfg, dVlanSwtFwdEn := vcDVlanSwtFwdEn cfg, vlMutex := True, vlans := ?free\<rparr>"
  have mutex: "flag_of e (calls s) Osal_createMutex"
    using ok by (auto simp: EthFwVlan_init_def Let_def split: if_splits)
  obtain st ob where get: "EthFwVlan_getCfg cfg ob0 = (st, ob)" by (cases "EthFwVlan_getCfg cfg ob0")
  have st: "st = ETHFW_SOK"
    using ok mutex get by (auto simp: EthFwVlan_init_def ob0_def Let_def issue_def split: if_splits)
  have "?n \<le> ETHFWVLAN_VLANS_MAX"
    using get st by (auto simp: EthFwVlan_getCfg_def split: if_splits)
  then have ob: "numVlans ob = ?n" "vlans ob = ?vs @ drop ?n ?free"
    using cfg_loop_spec [of 0 "vcVlans cfg" ob0 cfg] get st cold
    by (auto simp: EthFwVlan_getCfg_def vlan_cold_def ob0_def)
  have len: "length (vlans (gEthFwVlanObj s)) = ETHFWVLAN_VLANS_MAX" using cold by (simp add: vlan_cold_def)
  have ids: "vcVlanId (vcVlans cfg ! i) = vcVlanId (vcVlans cfg ! j) \<Longrightarrow> i < ?n \<Longrightarrow> j < ?n \<Longrightarrow> i = j" for i j
    using cold by (metis vlan_cold_def distinct_conv_nth length_map nth_map)
  have nth: "vlans ob ! i = (if i < ?n then static_entry (vcVlans cfg ! i) else ?free ! i)"
    if "i < ETHFWVLAN_VLANS_MAX" for i
    using that \<open>?n \<le> _\<close> len by (simp add: ob nth_append)
  have wf: "vlan_wf ob"
    unfolding vlan_wf_def ob(1)
    using nth len \<open>?n \<le> _\<close> ids by (auto simp: ob(2) static_entry_def nth_append)
  have s': "EthFwVlan_init e cfg s =
      vlan_setup_loop e ?vs (ETHFW_SOK, (issue Osal_createMutex s)\<lparr>gEthFwVlanObj := ob\<rparr>)"
    using mutex get st wf
    by (simp add: EthFwVlan_init_def ob0_def Let_def) (simp add: ob)
  have "\<forall>v\<in>set ?vs. \<not> vlIsFree v" by (auto simp: static_entry_def)
  note loop = setup_loop_eff [OF this, of e]
  from wf show ?thesis by (simp add: s' ob loop Let_def)
qed

lemma vlan_init_host_inv:
  assumes cold: "vlan_cold cfg s" and ok: "fst (EthFwVlan_init e cfg s) = ETHFW_SOK"
    and acc: "\<And>h c. status_of e h c = ETHFW_SOK"
  shows "vlan_host_inv e (snd (EthFwVlan_init e cfg s))"
proof -
  let ?vs = "map static_entry (vcVlans cfg)" and ?s' = "snd (EthFwVlan_init e cfg s)"
  note tab = vlan_init_table [OF assms, unfolded Let_def]
  have nth: "vlans (gEthFwVlanObj ?s') ! i = ?vs ! i" if "i < length ?vs" for i
    using tab that by (metis nth_take)
  have dist: "distinct (map vlVlanId ?vs)"
    using cold by (simp add: vlan_cold_def comp_def static_entry_def)
  have "ale_members vid (calls ?s') = vlan_expect e (gEthFwVlanObj ?s') vid" for vid
  proof -
    have "ale_members vid (calls ?s') = (case find (\<lambda>v. vlVlanId v = vid) ?vs of
        Some v \<Rightarrow> Some (vlMemberMask v AND NOT (hostPortMask e)) | None \<Rightarrow> None)"
      using ale_members_setup [OF dist, of vid "calls s @ [Osal_createMutex]" e] tab cold
      by (simp add: vlan_cold_def cong: option.case_cong)
    moreover have "find (\<lambda>v. vlVlanId v = vid) ?vs = Some v \<Longrightarrow>
        vlan_of (gEthFwVlanObj ?s') vid = Some v \<and> vlVirtActiveMask v = 0 \<and> vlIsStatic v" for v
      using tab nth by (force simp: vlan_of_Some find_Some_iff static_entry_def)
    moreover have "find (\<lambda>v. vlVlanId v = vid) ?vs = None \<Longrightarrow> vlan_of (gEthFwVlanObj ?s') vid = None"
    proof -
      assume none: "find (\<lambda>v. vlVlanId v = vid) ?vs = None"
      have "\<not> (\<exists>v. vlan_of (gEthFwVlanObj ?s') vid = Some v)"
        using none tab nth unfolding vlan_of_Some [OF conjunct1 [OF tab]] find_None_iff by (metis nth_mem)
      then show ?thesis by simp
    qed
    ultimately show ?thesis
      by (cases "find (\<lambda>v. vlVlanId v = vid) ?vs") (simp_all add: vlan_expect_def)
  qed
  with tab show ?thesis by (simp add: vlan_host_inv_def)
qed

text \<open>Property C3 (invariant).  With a driver that accepts every call, after the initialisation and any sequence
  of joins and leaves: the ALE has a VLAN's full member mask while some virtual port is active in
  it, a static VLAN's mask without the host port while none is, and no entry for a dynamic VLAN with
  no active port.\<close>

theorem vlan_host_port:
  assumes "lib_spec e" "\<And>h c. status_of e h c = ETHFW_SOK"
    and "vlan_cold cfg s" "fst (EthFwVlan_init e cfg s) = ETHFW_SOK" "\<forall>ev\<in>set evs. unat (vlan_ev_port ev) < 32"
  shows "let s' = fold (vlan_do e) evs (snd (EthFwVlan_init e cfg s))
    in ale_members vid (calls s') =
      (case vlan_of (gEthFwVlanObj s') vid of
         None \<Rightarrow> None
       | Some v \<Rightarrow>
           if vlVirtActiveMask v \<noteq> 0 then Some (vlMemberMask v)
           else if vlIsStatic v then Some (vlMemberMask v AND NOT (hostPortMask e))
           else None)"
  using vlan_do_host_inv [OF assms(1,2) vlan_init_host_inv [OF assms(3,4,2)] assms(5)]
  by (simp add: Let_def vlan_host_inv_def vlan_expect_def)

section \<open>Dynamic VLANs of MAC ports\<close>

lemma mac_port_own_bit: "EthFwVirtPort_isMacPort p \<Longrightarrow> \<not> ETHFW_IS_BIT_SET p p"
proof -
  assume "EthFwVirtPort_isMacPort p"
  then have "unat p \<in> {1, 2, 3, 4, 5, 6, 7, 8}" by (auto simp: macPort_bounds)
  moreover have "ETHFW_IS_BIT_SET p p \<longleftrightarrow> bit (unat p) (unat p)"
    by (simp add: IS_BIT_SET_bit bit_unsigned_iff)
  moreover have "\<not> bit n n" for n :: nat
    by (simp add: bit_iff_odd less_exp)
  ultimately show ?thesis by simp
qed

text \<open>A MAC port that joins an unregistered VLAN gets a new entry whose permission mask is
  the port's number, not its bit.  So the port is in the VLAN and can never leave it or join it
  again: every later attempt with a unicast address is \<open>EPERM\<close> and changes nothing.\<close>

theorem vlan_mac_port_stuck:
  assumes "lib_spec e" "vlan_wf (gEthFwVlanObj s)" "EthFwVirtPort_isMacPort p" "vlan_of (gEthFwVlanObj s) vid = None"
  shows "let (st, s1) = EthFwVlan_join e p vid mac s
    in st = ETHFW_SOK \<longrightarrow> EthFwVlan_isInVlan p vid (gEthFwVlanObj s1) \<and>
      (\<forall>mac2. even (unat (octet0 mac2)) \<longrightarrow>
         EthFwVlan_leave e p vid mac2 s1 = (ETHFW_EPERM, s1) \<and> EthFwVlan_join e p vid mac2 s1 = (ETHFW_EPERM, s1))"
proof -
  let ?r = "EthFwVlan_join e p vid mac s"
  have p: "unat p < 32" using assms(3) by (simp add: macPort_bounds)
  have "EthFwVlan_isInVlan p vid (gEthFwVlanObj (snd ?r)) \<and>
      (\<forall>mac2. even (unat (octet0 mac2)) \<longrightarrow>
         EthFwVlan_leave e p vid mac2 (snd ?r) = (ETHFW_EPERM, snd ?r) \<and> EthFwVlan_join e p vid mac2 (snd ?r) = (ETHFW_EPERM, snd ?r))"
    if ok: "fst ?r = ETHFW_SOK"
  proof -
    note eff = join_eff [OF assms(1,2), of p vid mac, unfolded Let_def case_prod_beta]
    obtain v0 where v: "vlan_of (gEthFwVlanObj (snd ?r)) vid = Some (with_active (dynamic_vlan e (gEthFwVlanObj s) p vid v0) p)"
      using eff ok assms(4) by (auto split: if_splits)
    have "vlVirtMemberMask (dynamic_vlan e (gEthFwVlanObj s) p vid v0) = p"
      using assms(3) by (simp add: dynamic_vlan_def Let_def)
    then have no: "\<not> vlan_allows (gEthFwVlanObj (snd ?r)) vid p"
      using mac_port_own_bit [OF assms(3)] by (simp add: vlan_allows_def v)
    have wf: "vlan_wf (gEthFwVlanObj (snd ?r))" using eff by simp
    have "EthFwVlan_isInVlan p vid (gEthFwVlanObj (snd ?r))"
      using v active_bits(1) [OF p] by (simp add: isInVlan_of)
    then show ?thesis
      using join_refused(3) [OF assms(1) wf _ v no] leave_refused(3) [OF assms(1) wf _ v no] by simp
  qed
  then show ?thesis by (simp add: case_prod_beta)
qed

section \<open>A concrete configuration\<close>

definition vlan_free_entry :: EthFwVlan_Vlan where
  "vlan_free_entry = \<lparr>vlVlanId = 0, vlMemberMask = 0, vlRegMcastFloodMask = 0, vlUnregMcastFloodMask = 0,
     vlUntagMask = 0, vlVirtMemberMask = 0, vlVirtActiveMask = 0, vlIsFree = False, vlIsStatic = False\<rparr>"

definition vlan_zero :: EthFwVlan_Obj where
  "vlan_zero = \<lparr>vlans = replicate ETHFWVLAN_VLANS_MAX vlan_free_entry, numVlans = 0, vlDefaultPortMask = 0,
     vlDefaultVirtPortMask = 0, dVlanSwtFwdEn = False, vlMutex = False\<rparr>"

text \<open>VLAN 1024 on the host port and two switch ports, for the virtual switch ports 0 and 1.\<close>

definition vlan_cfg :: EthFwVlan_Cfg where
  "vlan_cfg = \<lparr>vcVlans = [\<lparr>vcVlanId = 1024, vcMemberMask = 13, vcVirtMemberMask = 0x6000000,
       vcRegMcastFloodMask = 13, vcUnregMcastFloodMask = 13, vcUntagMask = 0\<rparr>],
     dfltVlanIdSwitchPorts = 3, dfltVlanIdMacOnlyPorts = 0, vcSwitchPortMask = 6, vcMacOnlyPortMask = 1,
     vcDefaultPortMask = 13, vcDefaultVirtPortMask = 0x6000000, vcDVlanSwtFwdEn = True\<rparr>"

definition vlan_demo :: vlan_st where
  "vlan_demo = \<lparr>calls = [], faults = [], gEthFwArpObj = gEthFwArpObj arp_demo,
     gEthFwVepaObj = gEthFwVepaObj vepa_demo2, gEthFwMcastObj = mcast_zero, gEthFwVlanObj = vlan_zero\<rparr>"

definition vlan_demo_up :: vlan_st where
  "vlan_demo_up = snd (EthFwVlan_init ok_env vlan_cfg vlan_demo)"

lemma ok_env_simps [simp]: "status_of ok_env h c = ETHFW_SOK" "flag_of ok_env h c"
  by (simp_all add: ok_env_def)

lemma vlan_demo_cold: "vlan_cold vlan_cfg vlan_demo"
  by (simp add: vlan_cold_def vlan_demo_def vlan_zero_def vlan_cfg_def ale_members_def)

lemma vlan_cfg_ok_demo: "c \<in> set (vcVlans vlan_cfg) \<Longrightarrow> vlan_cfg_ok vlan_cfg c"
proof -
  assume c: "c \<in> set (vcVlans vlan_cfg)"
  have "vcMemberMask c AND push_bit 1 (vcMacOnlyPortMask vlan_cfg) = 0"
    using c by (simp add: vlan_cfg_def)
  then have "vlan_ports c (vcMacOnlyPortMask vlan_cfg) = {}" by (simp only: vlan_ports_eqs(1))
  with c show ?thesis by (simp add: vlan_cfg_ok_def) (simp add: vlan_cfg_def)
qed

lemma vlan_demo_ok: "fst (EthFwVlan_init ok_env vlan_cfg vlan_demo) = ETHFW_SOK"
proof -
  have "fst (vlan_setup_loop ok_env vs (ETHFW_SOK, s)) = ETHFW_SOK" for vs and s :: vlan_st
    by (induction vs arbitrary: s) (simp_all add: vlan_setup_loop_def setup_calls call_st_def)
  moreover have "fst (EthFwVlan_getCfg vlan_cfg ob) = ETHFW_SOK" if "length (vlans ob) = ETHFWVLAN_VLANS_MAX" for ob
    using cfg_loop_spec [of 0 "vcVlans vlan_cfg" ob vlan_cfg] that vlan_cfg_ok_demo
    by (simp add: EthFwVlan_getCfg_def Let_def case_prod_beta) (simp add: vlan_cfg_def ETHFWVLAN_VLANS_MAX_def)
  ultimately show ?thesis
    by (simp add: EthFwVlan_init_def Let_def case_prod_beta) (simp add: vlan_demo_def vlan_zero_def)
qed

lemmas vlan_demo_tab = vlan_init_table [OF vlan_demo_cold vlan_demo_ok ok_env_simps(1), unfolded Let_def, folded vlan_demo_up_def]

theorem vlan_join_leave_witness:
  "let (st, s1) = EthFwVlan_join ok_env 25 7 (EthAddr 2 0 0 0 0 1) vlan_demo_up
   in st = ETHFW_SOK \<longrightarrow> EthFwVlan_isInVlan 25 7 (gEthFwVlanObj s1)"
  using vlan_join_leave [OF lib_spec_ok_env conjunct1 [OF vlan_demo_tab], of 25 7 "EthAddr 2 0 0 0 0 1" 25 7]
  by (simp add: Let_def case_prod_beta)

theorem vlan_static_cfg_witness:
  "take 1 (vlans (snd (EthFwVlan_getCfg vlan_cfg vlan_zero))) = map static_entry (vcVlans vlan_cfg)"
proof -
  have "fst (EthFwVlan_getCfg vlan_cfg vlan_zero) = ETHFW_SOK \<and> numVlans (snd (EthFwVlan_getCfg vlan_cfg vlan_zero)) = 1"
    using cfg_loop_spec [of 0 "vcVlans vlan_cfg" vlan_zero vlan_cfg] vlan_cfg_ok_demo
    by (simp add: EthFwVlan_getCfg_def Let_def case_prod_beta vlan_zero_def)
      (simp add: vlan_cfg_def ETHFWVLAN_VLANS_MAX_def)
  then show ?thesis
    using vlan_static_cfg [of vlan_zero vlan_cfg] by (simp add: case_prod_beta Let_def) (simp add: vlan_zero_def)
qed

theorem vlan_host_port_witness:
  "let s' = fold (vlan_do ok_env) [VJoin 25 1024 (EthAddr 2 0 0 0 0 1), VLeave 25 1024 (EthAddr 2 0 0 0 0 1)] vlan_demo_up
   in vlan_of (gEthFwVlanObj s') 9 = None \<longrightarrow> ale_members 9 (calls s') = None"
  using vlan_host_port [OF lib_spec_ok_env ok_env_simps(1) vlan_demo_cold vlan_demo_ok,
      of "[VJoin 25 1024 (EthAddr 2 0 0 0 0 1), VLeave 25 1024 (EthAddr 2 0 0 0 0 1)]" 9]
  by (simp add: Let_def vlan_demo_up_def)

theorem vlan_mac_port_stuck_witness:
  "let (st, s1) = EthFwVlan_join ok_env 1 77 (EthAddr 2 0 0 0 0 1) vlan_demo_up
   in st = ETHFW_SOK \<and> EthFwVlan_isInVlan 1 77 (gEthFwVlanObj s1) \<and>
      fst (EthFwVlan_leave ok_env 1 77 (EthAddr 2 0 0 0 0 1) s1) = ETHFW_EPERM"
proof -
  have tab: "take 1 (vlans (gEthFwVlanObj vlan_demo_up)) = map static_entry (vcVlans vlan_cfg)"
    using vlan_demo_tab by (simp add: vlan_cfg_def)
  have nth: "vlVlanId (vlans (gEthFwVlanObj vlan_demo_up) ! 0) = 1024"
    using arg_cong [OF tab, of "\<lambda>xs. vlVlanId (xs ! 0)"] by (simp add: vlan_cfg_def static_entry_def)
  have num: "numVlans (gEthFwVlanObj vlan_demo_up) = 1"
    using vlan_demo_tab by (simp add: vlan_cfg_def)
  have none: "vlan_of (gEthFwVlanObj vlan_demo_up) 77 = None"
    using nth num by (auto simp: vlan_of_def getVlan_None)
  have "first_idx vlIsFree (vlans (gEthFwVlanObj vlan_demo_up)) \<noteq> None"
    using conjunct1 [OF vlan_demo_tab] num
    by (simp add: first_idx_None vlan_wf_def ETHFWVLAN_VLANS_MAX_def)
      (metis nth_mem less_numeral_extra(3) one_less_numeral_iff semiring_norm(76) order_refl One_nat_def)
  then have "fst (EthFwVlan_join ok_env 1 77 (EthAddr 2 0 0 0 0 1) vlan_demo_up) = ETHFW_SOK"
    using join_eff [OF lib_spec_ok_env conjunct1 [OF vlan_demo_tab], of 1 77 "EthAddr 2 0 0 0 0 1"] none
    by (auto simp: Let_def case_prod_beta)
  then show ?thesis
    using vlan_mac_port_stuck [OF lib_spec_ok_env conjunct1 [OF vlan_demo_tab] _ none, of 1 "EthAddr 2 0 0 0 0 1"]
    by (auto simp: Let_def case_prod_beta macPort_bounds)
qed

end
