(* ===== verification/ProxyState.thy ===== *)
theory ProxyState
  imports Vlan
begin

text \<open>
  The proxy server's state (\<^verbatim>\<open>ethremotecfg/server/src/cpsw_proxy_server.c\<close>): per remote core two
  client objects with their attach bookkeeping, the virtual port configuration with its transmit
  channels and receive flows, and the AUTOSAR, client and notify service objects.  Below it: the
  allocation, lookup and release of client objects, the flow tables, the port masks, and the
  notifications sent to clients.  A \<open>CpswProxyServer_ClientHandle\<close> is a core number and an index.
\<close>

section \<open>Data\<close>

definition ETHREMOTECFG_TOKEN_NONE :: u32 where "ETHREMOTECFG_TOKEN_NONE = 0xFFFFFFFF"
definition CPSWPROXYSERVER_VIRTPORT_PER_CLIENT_MAX :: nat where "CPSWPROXYSERVER_VIRTPORT_PER_CLIENT_MAX = 2"
definition CPSWPROXYSERVER_REMOTE_CLIENT_VIRTPORT_MAX :: nat where "CPSWPROXYSERVER_REMOTE_CLIENT_VIRTPORT_MAX = 6"
definition CPSWPROXYSERVER_AUTOSAR_REMOTE_CLIENT_MAX :: nat where "CPSWPROXYSERVER_AUTOSAR_REMOTE_CLIENT_MAX = 2"

definition ETHREMOTECFG_CLIENTID_AUTOSAR :: u32 where "ETHREMOTECFG_CLIENTID_AUTOSAR = 1"
definition ETHREMOTECFG_CLIENTID_LAST :: u32 where "ETHREMOTECFG_CLIENTID_LAST = 4"

definition ETHREMOTECFG_MSGTYPE_NOTIFY :: u32 where "ETHREMOTECFG_MSGTYPE_NOTIFY = 1"
definition ETHREMOTECFG_NOTIFY_HWPUSH :: u32 where "ETHREMOTECFG_NOTIFY_HWPUSH = 1"
definition ETHREMOTECFG_NOTIFY_HWERROR :: u32 where "ETHREMOTECFG_NOTIFY_HWERROR = 2"
definition ETHREMOTECFG_NOTIFY_HWRECOVERY_COMPLETE :: u32 where "ETHREMOTECFG_NOTIFY_HWRECOVERY_COMPLETE = 3"
definition ETHREMOTECFG_SERVERSTATUS_UNINIT :: u32 where "ETHREMOTECFG_SERVERSTATUS_UNINIT = 0"
definition ETHREMOTECFG_SERVERSTATUS_READY :: u32 where "ETHREMOTECFG_SERVERSTATUS_READY = 1"
definition ETHREMOTECFG_SERVERSTATUS_RECOVERY :: u32 where "ETHREMOTECFG_SERVERSTATUS_RECOVERY = 2"
definition ETHREMOTECFG_SERVERSTATUS_BAD :: u32 where "ETHREMOTECFG_SERVERSTATUS_BAD = 3"

definition CPSWPROXY_VIRTPORT_2_TOKEN :: "u32 \<Rightarrow> u32" where
  "CPSWPROXY_VIRTPORT_2_TOKEN virtPort = virtPort * 100 + 0"

record CpswProxyServer_ClientObj =
  inUse :: bool
  token :: u32
  virtPort :: EthRemoteCfg_VirtPort
  clCoreId :: u32
  clientId :: u32
  features :: u32
  flowIdxBase :: u32
  flowIdxOffset :: u32
  psilDstId :: u32
  clMacAddr :: eth_addr
  clRemoteEp :: u32
  isIdle :: bool
  vlanRefCnt :: u32

text \<open>\<^verbatim>\<open>memset(hClient, 0, sizeof(*hClient))\<close>.\<close>

definition client_zero :: CpswProxyServer_ClientObj where
  "client_zero = \<lparr>inUse = False, token = 0, virtPort = 0, clCoreId = 0, clientId = 0, features = 0,
     flowIdxBase = 0, flowIdxOffset = 0, psilDstId = 0, clMacAddr = zero_mac, clRemoteEp = 0,
     isIdle = False, vlanRefCnt = 0\<rparr>"

record EnetPer_AttachCoreOutArgs =
  coreKey :: u32
  aiRxMtu :: u32
  aiTxMtu :: "u32 list"

record CpswProxyServer_RemoteCoreObj =
  rmRefCnt :: int
  attachInfo :: EnetPer_AttachCoreOutArgs
  clientObj :: "CpswProxyServer_ClientObj list"

text \<open>\<open>customPolicersInArgs\<close>: the application's policers, by number.\<close>

record EthFwQos_RxFlowInfo =
  rxFlowIdxOffset :: u32
  customPolicersInArgs :: "nat list"

record EthFwVirtPort_VirtPortCfg =
  portId :: EthRemoteCfg_VirtPort
  vpRemoteCoreId :: u32
  numTxCh :: u32
  txCh :: "u32 list"
  numRxFlow :: u32
  rxFlowsInfo :: "EthFwQos_RxFlowInfo list"
  clientIdMask :: u32
  endPointId :: u32
  vpNumMacAddress :: u32

record CpswProxyServer_AsrServiceObj =
  asrHandle :: bool
  asrCoreId :: u32
  asrLocalEp :: u32
  asrVirtPort :: EthRemoteCfg_VirtPort
  asrTask :: bool

record CpswProxyServer_NotifyServiceObj =
  hwPush2CoreIdMap :: "u32 list"
  dstProcMask :: u32
  nsLocalEp :: u32
  nsHandle :: bool
  nsEvent :: bool
  hwPushNotifyEventId :: "u32 list"
  nsTask :: bool

record CpswProxyServer_ClientServiceObj =
  csHandle :: bool
  csLocalEp :: u32
  rpmsgStartSem :: "nat option"    \<comment> \<open>not created, or how often it has been posted and not taken\<close>
  csTask :: bool

record CpswProxyServer_Obj =
  initDone :: bool
  hMcmCmdIf :: bool
  ethDrvObj :: "CpswProxyServer_AsrServiceObj list"
  clientServiceObj :: CpswProxyServer_ClientServiceObj
  notifyServiceObj :: CpswProxyServer_NotifyServiceObj
  srvDfltVlanIdMacOnlyPorts :: u16
  srvDfltVlanIdSwitchPorts :: u16
  coreObj :: "CpswProxyServer_RemoteCoreObj list"
  csumOffloadEn :: bool
  virtPortCfg :: "EthFwVirtPort_VirtPortCfg list"
  numVirtPorts :: nat
  srvEnetType :: u32
  srvInstId :: u32
  masterCoreId :: u32
  alePortMask :: u32
  aleMacOnlyPortMask :: u32
  aleSwitchOnlyPortMask :: u32
  srvHEnet :: bool
  srvMutex :: bool
  numAsrVirtPorts :: nat

record proxy_st = vlan_st +
  gProxyServerObj :: CpswProxyServer_Obj
  serverStatus :: u32

text \<open>A client object is named by its core and its index.\<close>

type_synonym CpswProxyServer_ClientHandle = "nat \<times> nat"

definition client_at :: "CpswProxyServer_Obj \<Rightarrow> CpswProxyServer_ClientHandle \<Rightarrow> CpswProxyServer_ClientObj" where
  "client_at ob h = clientObj (coreObj ob ! fst h) ! snd h"

definition upd_core :: "nat \<Rightarrow> (CpswProxyServer_RemoteCoreObj \<Rightarrow> CpswProxyServer_RemoteCoreObj) \<Rightarrow>
    'a proxy_st_scheme \<Rightarrow> 'a proxy_st_scheme" where
  "upd_core k f s = (let ob = gProxyServerObj s in
     s\<lparr>gProxyServerObj := ob\<lparr>coreObj := (coreObj ob)[k := f (coreObj ob ! k)]\<rparr>\<rparr>)"

definition upd_client :: "CpswProxyServer_ClientHandle \<Rightarrow> (CpswProxyServer_ClientObj \<Rightarrow> CpswProxyServer_ClientObj) \<Rightarrow>
    'a proxy_st_scheme \<Rightarrow> 'a proxy_st_scheme" where
  "upd_client h f = upd_core (fst h) (\<lambda>c. c\<lparr>clientObj := (clientObj c)[snd h := f (clientObj c ! snd h)]\<rparr>)"

definition core_of :: "u32 \<Rightarrow> CpswProxyServer_Obj \<Rightarrow> CpswProxyServer_RemoteCoreObj" where
  "core_of k ob = coreObj ob ! unat k"

abbreviation the_coreKey :: "'a proxy_st_scheme \<Rightarrow> u32 \<Rightarrow> u32" where
  "the_coreKey s hostId \<equiv> coreKey (attachInfo (core_of hostId (gProxyServerObj s)))"

section \<open>Client objects\<close>

definition CpswProxyServer_getHandle :: "CpswProxyServer_Obj \<Rightarrow> int" where
  "CpswProxyServer_getHandle ob = (if initDone ob then ETHFW_SOK else ETHFW_EBUSY)"

definition CpswProxyServer_allocClient ::
    "env \<Rightarrow> u32 \<Rightarrow> u32 \<Rightarrow> u32 \<Rightarrow> 'a proxy_st_scheme \<Rightarrow> CpswProxyServer_ClientHandle option \<times> 'a proxy_st_scheme" where
  "CpswProxyServer_allocClient e remoteProcId remoteEndPt port s =
     (case first_idx (\<lambda>c. \<not> inUse c) (clientObj (core_of remoteProcId (gProxyServerObj s))) of
        None \<Rightarrow> (None, s)
      | Some i \<Rightarrow> (Some (unat remoteProcId, i),
          upd_client (unat remoteProcId, i)
            (\<lambda>c. c\<lparr>inUse := True, virtPort := port, token := ETHREMOTECFG_TOKEN_NONE, clRemoteEp := remoteEndPt,
                    isIdle := False, vlanRefCnt := (if vepaSupport e then 0 else vlanRefCnt c)\<rparr>) s))"

definition CpswProxyServer_freeClient :: "CpswProxyServer_ClientHandle \<Rightarrow> 'a proxy_st_scheme \<Rightarrow> 'a proxy_st_scheme" where
  "CpswProxyServer_freeClient h s =
     (if CpswProxyServer_getHandle (gProxyServerObj s) = ETHFW_SOK
      then upd_client h (\<lambda>_. client_zero\<lparr>inUse := False, token := ETHREMOTECFG_TOKEN_NONE\<rparr>) s
      else s)"

definition CpswProxyServer_getClient :: "u32 \<Rightarrow> u32 \<Rightarrow> CpswProxyServer_Obj \<Rightarrow> CpswProxyServer_ClientHandle option" where
  "CpswProxyServer_getClient remoteProcId tok ob =
     map_option (Pair (unat remoteProcId))
       (first_idx (\<lambda>c. inUse c \<and> token c = tok) (clientObj (core_of remoteProcId ob)))"

text \<open>The status, the number of attached clients, the number of those that are idle.\<close>

definition CpswProxyServer_getIdleClientCnt :: "CpswProxyServer_Obj \<Rightarrow> int \<times> u32 \<times> u32" where
  "CpswProxyServer_getIdleClientCnt ob =
     (CpswProxyServer_getHandle ob,
      fold (\<lambda>core. fold (\<lambda>c (attached, idle).
          if inUse c \<and> token c \<noteq> ETHREMOTECFG_TOKEN_NONE
          then (attached + 1, if isIdle c then idle + 1 else idle)
          else (attached, idle)) (clientObj core)) (coreObj ob) (0, 0))"

section \<open>Notifications to clients\<close>

definition CpswProxyServer_sendNotify ::
    "env \<Rightarrow> CpswProxyServer_ClientObj \<Rightarrow> u32 \<Rightarrow> 'a proxy_st_scheme \<Rightarrow> int \<times> 'a proxy_st_scheme" where
  "CpswProxyServer_sendNotify e c notifyId s =
     (let ob = gProxyServerObj s;
          (handle, srcEndPt) =
            (if clientId c = ETHREMOTECFG_CLIENTID_AUTOSAR
             then (case first_idx (\<lambda>a. asrCoreId a = clCoreId c) (ethDrvObj ob) of
                     Some i \<Rightarrow> (asrHandle (ethDrvObj ob ! i), asrLocalEp (ethDrvObj ob ! i))
                   | None \<Rightarrow> (False, 0))
             else (csHandle (clientServiceObj ob), csLocalEp (clientServiceObj ob)))
      in if \<not> handle then (ETHFW_EFAIL, s)
         else if CpswProxyServer_getHandle ob \<noteq> ETHFW_SOK then (CpswProxyServer_getHandle ob, s)
         else call_st e (Ipc_sendRpmsg (clCoreId c) (clRemoteEp c) srcEndPt
                [token c, clientId c, ETHREMOTECFG_MSGTYPE_NOTIFY, notifyId]) s)"

text \<open>The status is that of the last notification sent.\<close>

definition bcast_one :: "env \<Rightarrow> u32 \<Rightarrow> CpswProxyServer_ClientHandle \<Rightarrow> int \<times> 'a proxy_st_scheme \<Rightarrow> int \<times> 'a proxy_st_scheme" where
  "bcast_one e notifyId h r =
     (let s = snd r in
      if inUse (client_at (gProxyServerObj s) h)
      then (let s = upd_client h (\<lambda>c. c\<lparr>isIdle := False\<rparr>) s
            in CpswProxyServer_sendNotify e (client_at (gProxyServerObj s) h) notifyId s)
      else r)"

definition CpswProxyServer_bcastNotify :: "env \<Rightarrow> u32 \<Rightarrow> 'a proxy_st_scheme \<Rightarrow> int \<times> 'a proxy_st_scheme" where
  "CpswProxyServer_bcastNotify e notifyId s =
     (let ob = gProxyServerObj s in
      fold (bcast_one e notifyId)
        (concat (map (\<lambda>k. map (Pair k) [0..<length (clientObj (coreObj ob ! k))]) [0..<length (coreObj ob)]))
        (CpswProxyServer_getHandle ob, s))"

section \<open>Port masks\<close>

text \<open>The masks of the ports given to a client of a core, on top of those passed in.\<close>

definition CpswProxyServer_getPortMask :: "env \<Rightarrow> u32 \<Rightarrow> u32 \<Rightarrow> CpswProxyServer_Obj \<Rightarrow> u32 \<Rightarrow> u32 \<Rightarrow> int \<times> u32 \<times> u32" where
  "CpswProxyServer_getPortMask e clId hostId ob sw0 mac0 =
     (let (found, sw, mac) = fold (\<lambda>v (found, sw, mac).
            if vpRemoteCoreId v = hostId \<and> ETHFW_IS_BIT_SET (clientIdMask v) clId
            then (if EthFwVirtPort_isSwitchPort (portId v)
                  then (True, sw OR macPortMaskOf e (portId v), mac)
                  else (True, sw, mac OR macPortMaskOf e (portId v)))
            else (found, sw, mac)) (take (numVirtPorts ob) (virtPortCfg ob)) (False, sw0, mac0)
      in (if found then CpswProxyServer_getHandle ob else ETHFW_EBADARGS, sw, mac))"

definition CpswProxyServer_VirtPortAllocCb :: "env \<Rightarrow> u32 \<Rightarrow> u32 \<Rightarrow> CpswProxyServer_Obj \<Rightarrow> int \<times> (u32 \<times> u32) option" where
  "CpswProxyServer_VirtPortAllocCb e clId hostId ob =
     (if clId \<le> ETHREMOTECFG_CLIENTID_LAST
      then (case CpswProxyServer_getPortMask e clId hostId ob 0 0 of (st, m) \<Rightarrow> (st, Some m))
      else (ETHFW_EBADARGS, None))"

section \<open>Transmit channels and receive flows of a virtual port\<close>

text \<open>The loops over the virtual ports stop at the first one with the id.\<close>

definition port_cfg :: "EthRemoteCfg_VirtPort \<Rightarrow> CpswProxyServer_Obj \<Rightarrow> nat option" where
  "port_cfg p ob = first_idx (\<lambda>v. portId v = p) (take (numVirtPorts ob) (virtPortCfg ob))"

definition CpswProxyServer_getAbsTxChNumber :: "env \<Rightarrow> u32 \<Rightarrow> EthRemoteCfg_VirtPort \<Rightarrow> CpswProxyServer_Obj \<Rightarrow> u32" where
  "CpswProxyServer_getAbsTxChNumber e chRelPriority p ob =
     (case port_cfg p ob of
        None \<Rightarrow> txChNumInvalid e
      | Some i \<Rightarrow>
          let v = virtPortCfg ob ! i in
          if chRelPriority < numTxCh v then at_idx (txChNumInvalid e) (txCh v) (unat chRelPriority) else txChNumInvalid e)"

definition CpswProxyServer_getClientTxChRxFlowNum :: "EthRemoteCfg_VirtPort \<Rightarrow> CpswProxyServer_Obj \<Rightarrow> int \<times> (u32 \<times> u32) option" where
  "CpswProxyServer_getClientTxChRxFlowNum p ob =
     (case port_cfg p ob of
        None \<Rightarrow> (CpswProxyServer_getHandle ob, None)
      | Some i \<Rightarrow> (ETHFW_SOK, Some (numTxCh (virtPortCfg ob ! i), numRxFlow (virtPortCfg ob ! i))))"

text \<open>\<open>None\<close> is a pointer left unset.\<close>

definition CpswProxyServer_getRxFlowInfo ::
    "EthRemoteCfg_VirtPort \<Rightarrow> u32 \<Rightarrow> CpswProxyServer_Obj \<Rightarrow> int \<times> EthFwQos_RxFlowInfo option" where
  "CpswProxyServer_getRxFlowInfo p relFlowIdx ob =
     (case port_cfg p ob of
        None \<Rightarrow> (CpswProxyServer_getHandle ob, None)
      | Some i \<Rightarrow>
          let v = virtPortCfg ob ! i in
          if relFlowIdx < numRxFlow v then (ETHFW_SOK, Some (rxFlowsInfo v ! unat relFlowIdx)) else (ETHFW_EBADARGS, None))"

text \<open>\<open>None\<close> is an index left as it was.\<close>

definition CpswProxyServer_getRelFlowIdx :: "EthRemoteCfg_VirtPort \<Rightarrow> u32 \<Rightarrow> CpswProxyServer_Obj \<Rightarrow> int \<times> u32 option" where
  "CpswProxyServer_getRelFlowIdx p off ob =
     (case port_cfg p ob of
        None \<Rightarrow> (CpswProxyServer_getHandle ob, None)
      | Some i \<Rightarrow>
          (case first_idx (\<lambda>f. rxFlowIdxOffset f = off) (rxFlowsInfo (virtPortCfg ob ! i)) of
             Some j \<Rightarrow> (ETHFW_SOK, Some (of_nat j))
           | None \<Rightarrow> (CpswProxyServer_getHandle ob, None)))"

definition CpswProxyServer_saveRxFlowOffset ::
    "EthRemoteCfg_VirtPort \<Rightarrow> u32 \<Rightarrow> u32 \<Rightarrow> 'a proxy_st_scheme \<Rightarrow> 'a proxy_st_scheme" where
  "CpswProxyServer_saveRxFlowOffset p relFlowIdx off s =
     (let ob = gProxyServerObj s in
      case port_cfg p ob of
        None \<Rightarrow> s
      | Some i \<Rightarrow>
          let v = virtPortCfg ob ! i; j = unat relFlowIdx in
          if j < length (rxFlowsInfo v)
          then s\<lparr>gProxyServerObj := ob\<lparr>virtPortCfg := (virtPortCfg ob)
                  [i := v\<lparr>rxFlowsInfo := (rxFlowsInfo v)[j := (rxFlowsInfo v ! j)\<lparr>rxFlowIdxOffset := off\<rparr>]\<rparr>]\<rparr>\<rparr>
          else fault OobWrite s)"

end
