(* ===== verification/ProxyResources.thy ===== *)
theory ProxyResources
  imports ProxyState
begin

text \<open>
  Attaching a core, and the transmit channels, receive flows, MAC addresses and hardware-push
  instances its clients allocate and free (\<^verbatim>\<open>ethremotecfg/server/src/cpsw_proxy_server.c\<close>).  An
  output parameter a handler leaves unset is \<open>None\<close> in its result.
\<close>

definition ETHREMOTECFG_FEATURE_TXCSUM :: u32 where "ETHREMOTECFG_FEATURE_TXCSUM = 1"
definition ETHREMOTECFG_FEATURE_MC_FILTER :: u32 where "ETHREMOTECFG_FEATURE_MC_FILTER = 2"
definition CPSWPROXY_CLIENT_PRIMARY_REL_FLOW_IDX :: u32 where "CPSWPROXY_CLIENT_PRIMARY_REL_FLOW_IDX = 0"
definition CPSWPROXY_CLIENT_INVALID_FLOW_IDX_OFFSET :: u32 where "CPSWPROXY_CLIENT_INVALID_FLOW_IDX_OFFSET = 0xFF"

section \<open>Small steps\<close>

definition CpswProxyServer_validateStartIdx :: "env \<Rightarrow> u32 \<Rightarrow> u32 \<Rightarrow> 'a world_scheme \<Rightarrow> int \<times> 'a world_scheme" where
  "CpswProxyServer_validateStartIdx e hostId rxFlowStartId s =
     (if rxFlowStartId \<noteq> word_of e (calls s) (Rm_getStartFlowIdx hostId) 0
      then (ETHFW_EBADARGS, issue (Rm_getStartFlowIdx hostId) s)
      else (ETHFW_SOK, issue (Rm_getStartFlowIdx hostId) s))"

definition CpswProxyServer_createCustomPolicer :: "env \<Rightarrow> u32 \<Rightarrow> u32 \<Rightarrow> nat \<Rightarrow> 'a world_scheme \<Rightarrow> int \<times> 'a world_scheme" where
  "CpswProxyServer_createCustomPolicer e core threadId pol s =
     call_st e (Ioctl core (ALE_SET_POLICER_IN_PARTITION (MatchCustom pol) threadId PartCustom)) s"

definition CpswProxyServer_deleteCustomPolicer :: "env \<Rightarrow> u32 \<Rightarrow> nat \<Rightarrow> 'a world_scheme \<Rightarrow> int \<times> 'a world_scheme" where
  "CpswProxyServer_deleteCustomPolicer e core pol s =
     call_st e (Ioctl core (ALE_DEL_POLICER (MatchCustom pol) DelAll)) s"

text \<open>The loops over a flow's policers keep the last status.\<close>

definition create_policers :: "env \<Rightarrow> u32 \<Rightarrow> u32 \<Rightarrow> nat list \<Rightarrow> int \<times> 'a world_scheme \<Rightarrow> int \<times> 'a world_scheme" where
  "create_policers e core threadId = fold (\<lambda>pol r. CpswProxyServer_createCustomPolicer e core threadId pol (snd r))"

definition delete_policers :: "env \<Rightarrow> u32 \<Rightarrow> nat list \<Rightarrow> int \<times> 'a world_scheme \<Rightarrow> int \<times> 'a world_scheme" where
  "delete_policers e core = fold (\<lambda>pol r. CpswProxyServer_deleteCustomPolicer e core pol (snd r))"

section \<open>Attaching and detaching\<close>

definition attach_core :: "env \<Rightarrow> u32 \<Rightarrow> 'a proxy_st_scheme \<Rightarrow> 'a proxy_st_scheme" where
  "attach_core e hostId s =
     (if rmRefCnt (core_of hostId (gProxyServerObj s)) = 0
      then (let w = word_of e (calls s) (Mcm_coreAttach hostId)
            in upd_core (unat hostId)
                 (\<lambda>c. c\<lparr>attachInfo := \<lparr>coreKey = w 0, aiRxMtu = w 1, aiTxMtu = map (\<lambda>i. w (i + 2)) [0..<txMtuNum e]\<rparr>\<rparr>)
                 (issue (Mcm_coreAttach hostId) s))
      else s)"

text \<open>\<open>wantNums\<close>: the caller passes pointers for the channel and flow counts.\<close>

definition CpswProxyServer_attachHandlerCb ::
    "env \<Rightarrow> CpswProxyServer_ClientHandle \<Rightarrow> u32 \<Rightarrow> u32 \<Rightarrow> bool \<Rightarrow> 'a proxy_st_scheme \<Rightarrow>
     int \<times> (u32 option \<times> (u32 \<times> u32) option \<times> (u32 \<times> u32) option) \<times> 'a proxy_st_scheme" where
  "CpswProxyServer_attachHandlerCb e h hostId port wantNums s =
     (if CpswProxyServer_getHandle (gProxyServerObj s) \<noteq> ETHFW_SOK
      then (CpswProxyServer_getHandle (gProxyServerObj s), (None, None, None), s)
      else
        (let s = upd_core (unat hostId) (\<lambda>c. c\<lparr>rmRefCnt := rmRefCnt c + 1\<rparr>) (attach_core e hostId s);
             info = attachInfo (core_of hostId (gProxyServerObj s));
             rxMtu = Some (aiRxMtu info)
         in if \<exists>m\<in>set (aiTxMtu info). m \<noteq> hd (aiTxMtu info) then (ETHFW_EFAIL, (rxMtu, None, None), s)
            else
              (let feat = (if csumOffloadEn (gProxyServerObj s) then ETHREMOTECFG_FEATURE_TXCSUM else 0)
                     OR (if \<not> EthFwVirtPort_isMacPort port then ETHREMOTECFG_FEATURE_MC_FILTER else 0);
                   (status, nums) =
                     (if wantNums then CpswProxyServer_getClientTxChRxFlowNum port (gProxyServerObj s)
                      else (ETHFW_SOK, None))
               in (status, (rxMtu, Some (hd (aiTxMtu info), feat), nums),
                   upd_client h (\<lambda>c. c\<lparr>token := CPSWPROXY_VIRTPORT_2_TOKEN port, clCoreId := hostId, features := feat\<rparr>) s))))"

definition CpswProxyServer_detachHandlerCb :: "u32 \<Rightarrow> 'a proxy_st_scheme \<Rightarrow> int \<times> 'a proxy_st_scheme" where
  "CpswProxyServer_detachHandlerCb hostId s =
     (let ob = gProxyServerObj s in
      if CpswProxyServer_getHandle ob \<noteq> ETHFW_SOK then (CpswProxyServer_getHandle ob, s)
      else if \<not> hMcmCmdIf ob then (ETHFW_EINVALIDPARAMS, s)
      else
        (let key = the_coreKey s hostId;
             s = upd_core (unat hostId) (\<lambda>c. c\<lparr>rmRefCnt := rmRefCnt c - 1\<rparr>) s
         in (ETHFW_SOK,
             if rmRefCnt (core_of hostId (gProxyServerObj s)) = 0 then issue (Mcm_coreDetach hostId key) s else s)))"

section \<open>Transmit channels\<close>

definition CpswProxyServer_allocTxHandlerCb ::
    "env \<Rightarrow> CpswProxyServer_ClientHandle \<Rightarrow> u32 \<Rightarrow> u32 \<Rightarrow> 'a proxy_st_scheme \<Rightarrow> int \<times> u32 option \<times> 'a proxy_st_scheme" where
  "CpswProxyServer_allocTxHandlerCb e h hostId chRelPriority s =
     (let ob = gProxyServerObj s in
      if CpswProxyServer_getHandle ob \<noteq> ETHFW_SOK then (CpswProxyServer_getHandle ob, None, s)
      else
        (let txChNum = CpswProxyServer_getAbsTxChNumber e chRelPriority (virtPort (client_at ob h)) ob in
         if txChNum = txChNumInvalid e then (ETHFW_EBADARGS, None, s)
         else
           (let c = Rm_allocAbsTxCh (the_coreKey s hostId) hostId txChNum;
                psil = word_of e (calls s) c 0;
                (status, s) = call_st e c s
            in if status = ETHFW_SOK then (status, Some psil, upd_client h (\<lambda>c. c\<lparr>psilDstId := psil\<rparr>) s)
               else (status, None, s))))"

definition CpswProxyServer_freeTxHandlerCb ::
    "env \<Rightarrow> CpswProxyServer_ClientHandle \<Rightarrow> u32 \<Rightarrow> u32 \<Rightarrow> 'a proxy_st_scheme \<Rightarrow> int \<times> 'a proxy_st_scheme" where
  "CpswProxyServer_freeTxHandlerCb e h hostId txPsil s =
     (let ob = gProxyServerObj s in
      if CpswProxyServer_getHandle ob \<noteq> ETHFW_SOK then (CpswProxyServer_getHandle ob, s)
      else thenOK (call_st e (Rm_freeTxCh (the_coreKey s hostId) hostId txPsil) s)
             (\<lambda>s. (ETHFW_SOK, upd_client h (\<lambda>c. c\<lparr>psilDstId := 0\<rparr>) s)))"

section \<open>Receive flows\<close>

text \<open>
  The flow index of the request selects the element of \<open>rxFlowsInfo\<close> that takes the allocated
  offset; it is checked only afterwards.
\<close>

definition CpswProxyServer_allocRxHandlerCb ::
    "env \<Rightarrow> CpswProxyServer_ClientHandle \<Rightarrow> u32 \<Rightarrow> u32 \<Rightarrow> 'a proxy_st_scheme \<Rightarrow>
     int \<times> ((u32 \<times> u32) option \<times> u32 option) \<times> 'a proxy_st_scheme" where
  "CpswProxyServer_allocRxHandlerCb e h hostId relFlowIdx s =
     (let ob = gProxyServerObj s in
      if CpswProxyServer_getHandle ob \<noteq> ETHFW_SOK then (CpswProxyServer_getHandle ob, (None, None), s)
      else
        (let key = the_coreKey s hostId;
             psil = word_of e (calls s) Soc_getRxChPeerId 0;
             s = issue Soc_getRxChPeerId s;
             c = Rm_allocRxFlow key hostId;
             base = word_of e (calls s) c 0; off = word_of e (calls s) c 1;
             (status, s) = call_st e c s
         in if status \<noteq> ETHFW_SOK then (status, (None, Some psil), s)
            else
              (let (status, s) = CpswProxyServer_validateStartIdx e hostId base s in
               if status \<noteq> ETHFW_SOK then (status, (Some (base, off), Some psil), s)
               else
                 (let s = upd_client h (\<lambda>c. c\<lparr>flowIdxBase := base, flowIdxOffset := off\<rparr>) s;
                      p = virtPort (client_at (gProxyServerObj s) h);
                      s = CpswProxyServer_saveRxFlowOffset p relFlowIdx off s;
                      (status, info) = CpswProxyServer_getRxFlowInfo p relFlowIdx (gProxyServerObj s);
                      (status, s) =
                        (if status \<noteq> ETHFW_SOK then (status, s)
                         else case info of
                           None \<Rightarrow> (status, fault UninitPtr s)
                         | Some f \<Rightarrow> create_policers e hostId off (customPolicersInArgs f) (status, s))
                  in (status, (Some (base, off), Some psil), s)))))"

text \<open>An offset no flow has leaves the index at 0, the primary flow, with status OK.\<close>

definition CpswProxyServer_freeRxHandlerCb ::
    "env \<Rightarrow> CpswProxyServer_ClientHandle \<Rightarrow> u32 \<Rightarrow> u32 \<Rightarrow> u32 \<Rightarrow> 'a proxy_st_scheme \<Rightarrow> int \<times> 'a proxy_st_scheme" where
  "CpswProxyServer_freeRxHandlerCb e h hostId base off s =
     (let ob = gProxyServerObj s in
      if CpswProxyServer_getHandle ob \<noteq> ETHFW_SOK then (CpswProxyServer_getHandle ob, s)
      else
        (let key = the_coreKey s hostId; p = virtPort (client_at ob h);
             (status, idx) = CpswProxyServer_getRelFlowIdx p off ob;
             relFlowIdx = (case idx of Some j \<Rightarrow> j | None \<Rightarrow> 0);
             (status, s) =
               (if status \<noteq> ETHFW_SOK then (status, s)
                else
                  (let (status, info) = CpswProxyServer_getRxFlowInfo p relFlowIdx ob;
                       (status, s) =
                         (case info of
                            None \<Rightarrow> (status, fault UninitPtr s)
                          | Some f \<Rightarrow> delete_policers e hostId (customPolicersInArgs f) (status, s))
                   in (status, CpswProxyServer_saveRxFlowOffset p relFlowIdx CPSWPROXY_CLIENT_INVALID_FLOW_IDX_OFFSET s)))
         in thenOK (thenOK (thenOK (status, s)
              (CpswProxyServer_validateStartIdx e hostId base))
              (call_st e (Rm_freeRxFlow key hostId off)))
              (\<lambda>s. (ETHFW_SOK, upd_client h (\<lambda>c. c\<lparr>flowIdxBase := 0, flowIdxOffset := 0\<rparr>) s))))"

section \<open>MAC addresses\<close>

definition CpswProxyServer_allocMacHandlerCb ::
    "env \<Rightarrow> CpswProxyServer_ClientHandle \<Rightarrow> u32 \<Rightarrow> 'a proxy_st_scheme \<Rightarrow> int \<times> eth_addr option \<times> 'a proxy_st_scheme" where
  "CpswProxyServer_allocMacHandlerCb e h hostId s =
     (let ob = gProxyServerObj s in
      if CpswProxyServer_getHandle ob \<noteq> ETHFW_SOK then (CpswProxyServer_getHandle ob, None, s)
      else
        (let c = Rm_allocMac (the_coreKey s hostId) hostId;
             mac = mac_of e (calls s) c;
             (status, s) = call_st e c s
         in if status = ETHFW_SOK then (status, Some mac, upd_client h (\<lambda>c. c\<lparr>clMacAddr := mac\<rparr>) s)
            else (status, None, s)))"

text \<open>The client's copy is cleared with \<^verbatim>\<open>memcpy\<close> from address 0.\<close>

definition CpswProxyServer_freeMacHandlerCb ::
    "env \<Rightarrow> u32 \<Rightarrow> eth_addr \<Rightarrow> 'a proxy_st_scheme \<Rightarrow> int \<times> 'a proxy_st_scheme" where
  "CpswProxyServer_freeMacHandlerCb e hostId mac s =
     (let ob = gProxyServerObj s in
      if CpswProxyServer_getHandle ob \<noteq> ETHFW_SOK then (CpswProxyServer_getHandle ob, s)
      else thenOK (call_st e (Rm_freeMac (the_coreKey s hostId) hostId mac) s)
             (\<lambda>s. (ETHFW_SOK, fault NullCopy s)))"

section \<open>Hardware-push instances\<close>

definition CpswProxyServer_allocHwPushCb :: "env \<Rightarrow> u32 \<Rightarrow> 'a proxy_st_scheme \<Rightarrow> int \<times> u32 option \<times> 'a proxy_st_scheme" where
  "CpswProxyServer_allocHwPushCb e hostId s =
     (let ob = gProxyServerObj s in
      if CpswProxyServer_getHandle ob \<noteq> ETHFW_SOK then (CpswProxyServer_getHandle ob, None, s)
      else
        (let c = Rm_allocHwPushInst (the_coreKey s hostId) hostId; w = word_of e (calls s) c 0;
             (status, s) = call_st e c s
         in (status, if status = ETHFW_SOK then Some w else None, s)))"

definition CpswProxyServer_freeHwPushCb :: "env \<Rightarrow> u32 \<Rightarrow> u32 \<Rightarrow> 'a proxy_st_scheme \<Rightarrow> int \<times> 'a proxy_st_scheme" where
  "CpswProxyServer_freeHwPushCb e hostId hwPushNum s =
     (let ob = gProxyServerObj s in
      if CpswProxyServer_getHandle ob \<noteq> ETHFW_SOK then (CpswProxyServer_getHandle ob, s)
      else call_st e (Rm_freeHwPushInst (the_coreKey s hostId) hostId hwPushNum) s)"

section \<open>Attach with all resources\<close>

definition CpswProxyServer_attachExtHandlerCb ::
    "env \<Rightarrow> CpswProxyServer_ClientHandle \<Rightarrow> u32 \<Rightarrow> u32 \<Rightarrow> 'a proxy_st_scheme \<Rightarrow>
     int \<times> (u32 option \<times> (u32 \<times> u32) option \<times> (u32 \<times> u32) option \<times> u32 option \<times> u32 option \<times> eth_addr option)
       \<times> 'a proxy_st_scheme" where
  "CpswProxyServer_attachExtHandlerCb e h hostId port s =
     (let (status, (rxMtu, txFeat, _), s) = CpswProxyServer_attachHandlerCb e h hostId port False s in
      if status \<noteq> ETHFW_SOK then (status, (rxMtu, txFeat, None, None, None, None), s)
      else
        (let key = the_coreKey s hostId;
             c = Rm_allocRxFlow key hostId;
             base = word_of e (calls s) c 0; off = word_of e (calls s) c 1;
             (status, s) = call_st e c s
         in if status \<noteq> ETHFW_SOK then (status, (rxMtu, txFeat, None, None, None, None), s)
            else
              (let (status, s) = CpswProxyServer_validateStartIdx e hostId base s in
               if status \<noteq> ETHFW_SOK then (status, (rxMtu, txFeat, Some (base, off), None, None, None), s)
               else
                 (let s = CpswProxyServer_saveRxFlowOffset (virtPort (client_at (gProxyServerObj s) h))
                            CPSWPROXY_CLIENT_PRIMARY_REL_FLOW_IDX off s;
                      c = Rm_allocTxCh key hostId; psil = word_of e (calls s) c 0;
                      (status, s) = call_st e c s
                  in if status \<noteq> ETHFW_SOK then (status, (rxMtu, txFeat, Some (base, off), None, None, None), s)
                     else
                       (let c = Rm_allocMac key hostId; mac = mac_of e (calls s) c;
                            (status, s) = call_st e c s
                        in if status \<noteq> ETHFW_SOK
                           then (status, (rxMtu, txFeat, Some (base, off), Some psil, None, None), s)
                           else
                             (let rxPsil = word_of e (calls s) Soc_getRxChPeerId 0; s = issue Soc_getRxChPeerId s
                              in (status, (rxMtu, txFeat, Some (base, off), Some psil, Some rxPsil, Some mac),
                                  upd_client h (\<lambda>c. c\<lparr>flowIdxBase := base, flowIdxOffset := off, psilDstId := psil,
                                                     clMacAddr := mac\<rparr>) s)))))))"

end
