(* ===== verification/ProxyRoutes.thy ===== *)
theory ProxyRoutes
  imports ProxyResources
begin

text \<open>
  What a client registers with the server (\<^verbatim>\<open>ethremotecfg/server/src/cpsw_proxy_server.c\<close>): MAC
  addresses and MAC ports routed to its flow, IPv4 addresses for the proxy ARP table, VLANs,
  multicast filters, the default flow, EtherType routes, remote timers; and the link status query.
\<close>

definition ETHREMOTECFG_ETHSWITCH_VLAN_USE_DFLT :: u16 where "ETHREMOTECFG_ETHSWITCH_VLAN_USE_DFLT = 0xFFFF"
definition CPSWPROXY_CPSW9G_HWPUSH_BASE :: u32 where "CPSWPROXY_CPSW9G_HWPUSH_BASE = 26"

section \<open>The primary-flow check\<close>

text \<open>
  Five handlers ask that the flow offset of the request be the one of the port's primary flow.  For
  an offset no flow has, \<open>CpswProxyServer_getRelFlowIdx\<close> answers OK and the index compared is an unset
  variable.
\<close>

definition primary_flow :: "env \<Rightarrow> EthRemoteCfg_VirtPort \<Rightarrow> u32 \<Rightarrow> 'a proxy_st_scheme \<Rightarrow> int \<times> 'a proxy_st_scheme" where
  "primary_flow e p off s =
     (let (status, idx) = CpswProxyServer_getRelFlowIdx p off (gProxyServerObj s) in
      if status \<noteq> ETHFW_SOK then (status, s)
      else
        (let (j, s) = (case idx of Some j \<Rightarrow> (j, s) | None \<Rightarrow> (stackWord e (calls s), fault UninitRead s))
         in (if j \<noteq> CPSWPROXY_CLIENT_PRIMARY_REL_FLOW_IDX then ETHFW_ENOTSUPPORTED else ETHFW_SOK, s)))"

section \<open>MAC addresses and MAC ports\<close>

definition CpswProxyServer_regMacPortFlow ::
    "env \<Rightarrow> u32 \<Rightarrow> u32 \<Rightarrow> eth_addr \<Rightarrow> u32 \<Rightarrow> 'a world_scheme \<Rightarrow> int \<times> 'a world_scheme" where
  "CpswProxyServer_regMacPortFlow e core macPort mac flowIdx s =
     (if isMcastAddr e mac then (ETHFW_ENOTSUPPORTED, s)
      else thenOK (call_st e (Ioctl core (ALE_ADD_UCAST mac 0)) s)
             (call_st e (Ioctl core (ALE_SET_POLICER_IN_PARTITION (MatchPort (macPortToAlePort e macPort)) flowIdx PartLevel3))))"

definition CpswProxyServer_unregMacPortFlow ::
    "env \<Rightarrow> u32 \<Rightarrow> u32 \<Rightarrow> eth_addr \<Rightarrow> u32 \<Rightarrow> 'a world_scheme \<Rightarrow> int \<times> 'a world_scheme" where
  "CpswProxyServer_unregMacPortFlow e core macPort mac flowIdx s =
     (if isMcastAddr e mac then (ETHFW_ENOTSUPPORTED, s)
      else
        (let m = MatchPort (macPortToAlePort e macPort);
             c = Ioctl core (ALE_GET_POLICER m);
             threadIdEn = flag_of e (calls s) c; threadId = word_of e (calls s) c 0
         in thenOK (thenOK (thenOK (call_st e c s)
              (\<lambda>s. (if threadIdEn \<and> threadId = flowIdx then ETHFW_SOK else ETHFW_EINVALIDPARAMS, s)))
              (call_st e (Ioctl core (ALE_DEL_POLICER m DelNone))))
              (call_st e (Ioctl core (ALE_REMOVE_ADDR mac 0)))))"

text \<open>A switch port's first registration also registers the client with VEPA; the count remembers how many.\<close>

definition register_switch_mac ::
    "env \<Rightarrow> CpswProxyServer_ClientHandle \<Rightarrow> u32 \<Rightarrow> eth_addr \<Rightarrow> u32 \<Rightarrow> u32 \<Rightarrow> 'a proxy_st_scheme \<Rightarrow> int \<times> 'a proxy_st_scheme" where
  "register_switch_mac e h hostId mac base off s =
     (let r = call_st e (Rm_regDstMacRxFlow (the_coreKey s hostId) hostId base off mac) s in
      if \<not> vepaSupport e then r
      else thenOK
        (thenOK r (\<lambda>s. let c = client_at (gProxyServerObj s) h in
           if vlanRefCnt c = 0 then EthFwVepa_registerClient e hostId off (virtPort c) mac s else (ETHFW_SOK, s)))
        (\<lambda>s. (ETHFW_SOK, upd_client h (\<lambda>c. c\<lparr>vlanRefCnt := vlanRefCnt c + 1\<rparr>) s)))"

definition unregister_switch_mac ::
    "env \<Rightarrow> CpswProxyServer_ClientHandle \<Rightarrow> u32 \<Rightarrow> eth_addr \<Rightarrow> u32 \<Rightarrow> u32 \<Rightarrow> 'a proxy_st_scheme \<Rightarrow> int \<times> 'a proxy_st_scheme" where
  "unregister_switch_mac e h hostId mac base off s =
     (let r = call_st e (Rm_unregDstMacRxFlow (the_coreKey s hostId) hostId base off mac) s in
      if \<not> vepaSupport e then r
      else thenOK r
        (\<lambda>s. let s = upd_client h (\<lambda>c. c\<lparr>vlanRefCnt := vlanRefCnt c - 1\<rparr>) s;
                 c = client_at (gProxyServerObj s) h
             in if vlanRefCnt c = 0 then EthFwVepa_unregisterClient e hostId (virtPort c) s else (ETHFW_SOK, s)))"

definition CpswProxyServer_registerMacHandlerCb ::
    "env \<Rightarrow> CpswProxyServer_ClientHandle \<Rightarrow> u32 \<Rightarrow> eth_addr \<Rightarrow> u32 \<Rightarrow> u32 \<Rightarrow> 'a proxy_st_scheme \<Rightarrow> int \<times> 'a proxy_st_scheme" where
  "CpswProxyServer_registerMacHandlerCb e h hostId mac base off s =
     (let ob = gProxyServerObj s; p = virtPort (client_at ob h) in
      if CpswProxyServer_getHandle ob \<noteq> ETHFW_SOK then (CpswProxyServer_getHandle ob, s)
      else thenOK (thenOK (primary_flow e p off s) (CpswProxyServer_validateStartIdx e hostId base))
        (\<lambda>s. if EthFwVirtPort_isSwitchPort p then register_switch_mac e h hostId mac base off s
             else CpswProxyServer_regMacPortFlow e hostId (EthFwVirtPort_getMacPort e p) mac off s))"

definition CpswProxyServer_unregisterMacHandlerCb ::
    "env \<Rightarrow> CpswProxyServer_ClientHandle \<Rightarrow> u32 \<Rightarrow> eth_addr \<Rightarrow> u32 \<Rightarrow> u32 \<Rightarrow> 'a proxy_st_scheme \<Rightarrow> int \<times> 'a proxy_st_scheme" where
  "CpswProxyServer_unregisterMacHandlerCb e h hostId mac base off s =
     (let ob = gProxyServerObj s; p = virtPort (client_at ob h) in
      if CpswProxyServer_getHandle ob \<noteq> ETHFW_SOK then (CpswProxyServer_getHandle ob, s)
      else thenOK (thenOK (primary_flow e p off s) (CpswProxyServer_validateStartIdx e hostId base))
        (\<lambda>s. if EthFwVirtPort_isSwitchPort p then unregister_switch_mac e h hostId mac base off s
             else CpswProxyServer_unregMacPortFlow e hostId (EthFwVirtPort_getMacPort e p) mac off s))"

section \<open>IPv4 addresses\<close>

definition with_arp :: "(EthFwArp_Obj \<Rightarrow> int \<times> EthFwArp_Obj) \<Rightarrow> 'a arp_st_scheme \<Rightarrow> int \<times> 'a arp_st_scheme" where
  "with_arp f s = (case f (gEthFwArpObj s) of (status, ob) \<Rightarrow> (status, s\<lparr>gEthFwArpObj := ob\<rparr>))"

text \<open>The four octets of the address; a failure of the table becomes \<open>EFAIL\<close>.\<close>

definition CpswProxyServer_registerIPv4MacHandlerCb ::
    "env \<Rightarrow> CpswProxyServer_ClientHandle \<Rightarrow> eth_addr \<Rightarrow> u8 \<times> u8 \<times> u8 \<times> u8 \<Rightarrow> 'a proxy_st_scheme \<Rightarrow> int \<times> 'a proxy_st_scheme" where
  "CpswProxyServer_registerIPv4MacHandlerCb e h mac ip s =
     (let ob = gProxyServerObj s in
      if CpswProxyServer_getHandle ob \<noteq> ETHFW_SOK then (CpswProxyServer_getHandle ob, s)
      else if \<not> EthFwVirtPort_isSwitchPort (virtPort (client_at ob h)) then (ETHFW_ENOTSUPPORTED, s)
      else if proxyArp e
      then (case ip of (a, b, c, d) \<Rightarrow>
              let (status, s) = with_arp (EthFwArp_addAddr e (rd_ip a b c d) mac 0) s
              in (if status \<noteq> ETHFW_SOK then ETHFW_EFAIL else ETHFW_SOK, s))
      else (ETHFW_SOK, s))"

definition CpswProxyServer_deregisterIPv4MacHandlerCb ::
    "env \<Rightarrow> CpswProxyServer_ClientHandle \<Rightarrow> u8 \<times> u8 \<times> u8 \<times> u8 \<Rightarrow> 'a proxy_st_scheme \<Rightarrow> int \<times> 'a proxy_st_scheme" where
  "CpswProxyServer_deregisterIPv4MacHandlerCb e h ip s =
     (let ob = gProxyServerObj s in
      if CpswProxyServer_getHandle ob \<noteq> ETHFW_SOK then (CpswProxyServer_getHandle ob, s)
      else if \<not> EthFwVirtPort_isSwitchPort (virtPort (client_at ob h)) then (ETHFW_ENOTSUPPORTED, s)
      else if proxyArp e
      then (case ip of (a, b, c, d) \<Rightarrow>
              let (status, s) = with_arp (EthFwArp_delAddr e (rd_ip a b c d) 0) s
              in (if status \<noteq> ETHFW_SOK then ETHFW_EFAIL else ETHFW_SOK, s))
      else (ETHFW_SOK, s))"

section \<open>VLANs\<close>

definition CpswProxyServer_vlanJoinHandlerCb ::
    "env \<Rightarrow> CpswProxyServer_ClientHandle \<Rightarrow> u16 \<Rightarrow> eth_addr \<Rightarrow> 'a proxy_st_scheme \<Rightarrow> int \<times> 'a proxy_st_scheme" where
  "CpswProxyServer_vlanJoinHandlerCb e h vid mac s =
     (let ob = gProxyServerObj s in
      if CpswProxyServer_getHandle ob \<noteq> ETHFW_SOK then (CpswProxyServer_getHandle ob, s)
      else EthFwVlan_join e (virtPort (client_at ob h)) vid mac s)"

definition CpswProxyServer_vlanLeaveHandlerCb ::
    "env \<Rightarrow> CpswProxyServer_ClientHandle \<Rightarrow> u16 \<Rightarrow> eth_addr \<Rightarrow> 'a proxy_st_scheme \<Rightarrow> int \<times> 'a proxy_st_scheme" where
  "CpswProxyServer_vlanLeaveHandlerCb e h vid mac s =
     (let ob = gProxyServerObj s in
      if CpswProxyServer_getHandle ob \<noteq> ETHFW_SOK then (CpswProxyServer_getHandle ob, s)
      else EthFwVlan_leave e (virtPort (client_at ob h)) vid mac s)"

section \<open>The default flow\<close>

definition CpswProxyServer_registerRxDefaultHandlerCb ::
    "env \<Rightarrow> CpswProxyServer_ClientHandle \<Rightarrow> u32 \<Rightarrow> u32 \<Rightarrow> u32 \<Rightarrow> 'a proxy_st_scheme \<Rightarrow> int \<times> 'a proxy_st_scheme" where
  "CpswProxyServer_registerRxDefaultHandlerCb e h hostId base off s =
     (let ob = gProxyServerObj s; p = virtPort (client_at ob h); key = the_coreKey s hostId in
      if CpswProxyServer_getHandle ob \<noteq> ETHFW_SOK then (CpswProxyServer_getHandle ob, s)
      else thenOK (thenOK (primary_flow e p off s) (CpswProxyServer_validateStartIdx e hostId base))
        (\<lambda>s. if EthFwVirtPort_isSwitchPort p then call_st e (Rm_regDfltRxFlow key hostId base off) s
             else (ETHFW_ENOTSUPPORTED, s)))"

definition CpswProxyServer_deregisterRxDefaultHandlerCb ::
    "env \<Rightarrow> CpswProxyServer_ClientHandle \<Rightarrow> u32 \<Rightarrow> u32 \<Rightarrow> u32 \<Rightarrow> 'a proxy_st_scheme \<Rightarrow> int \<times> 'a proxy_st_scheme" where
  "CpswProxyServer_deregisterRxDefaultHandlerCb e h hostId base off s =
     (let ob = gProxyServerObj s; p = virtPort (client_at ob h); key = the_coreKey s hostId in
      if CpswProxyServer_getHandle ob \<noteq> ETHFW_SOK then (CpswProxyServer_getHandle ob, s)
      else thenOK (thenOK (primary_flow e p off s) (CpswProxyServer_validateStartIdx e hostId base))
        (\<lambda>s. if EthFwVirtPort_isSwitchPort p then call_st e (Rm_unregDfltRxFlow key hostId base off) s
             else (ETHFW_ENOTSUPPORTED, s)))"

section \<open>Link status\<close>

text \<open>Linked or not, and the speed and duplex mode; the link flag is unset when the driver fails.\<close>

definition CpswProxyServer_isLinkUpCb ::
    "env \<Rightarrow> CpswProxyServer_ClientHandle \<Rightarrow> u32 \<Rightarrow> 'a proxy_st_scheme \<Rightarrow>
     int \<times> (bool option \<times> (u32 \<times> u32) option) \<times> 'a proxy_st_scheme" where
  "CpswProxyServer_isLinkUpCb e h hostId s =
     (let ob = gProxyServerObj s; p = virtPort (client_at ob h) in
      if CpswProxyServer_getHandle ob \<noteq> ETHFW_SOK then (CpswProxyServer_getHandle ob, (None, None), s)
      else if \<not> EthFwVirtPort_isMacPort p then (ETHFW_SOK, (Some True, Some (linkFast e)), s)
      else
        (let c = Ioctl hostId (PHY_IS_LINKED (EthFwVirtPort_getMacPort e p));
             linked = flag_of e (calls s) c;
             (status, s) = call_st e c s
         in if linked
            then (let c = Ioctl hostId (PHY_GET_LINK_MODE (EthFwVirtPort_getMacPort e p));
                      mode = (word_of e (calls s) c 0, word_of e (calls s) c 1);
                      (status, s) = call_st e c s
                  in (status, (Some linked, Some (if status = ETHFW_SOK then mode else linkSlow e)), s))
            else (status, (Some linked, Some (linkSlow e)), s)))"

section \<open>EtherType routes\<close>

definition CpswProxyServer_registerEthertypeHandlerCb ::
    "env \<Rightarrow> CpswProxyServer_ClientHandle \<Rightarrow> u32 \<Rightarrow> u16 \<Rightarrow> u32 \<Rightarrow> 'a proxy_st_scheme \<Rightarrow> int \<times> 'a proxy_st_scheme" where
  "CpswProxyServer_registerEthertypeHandlerCb e h hostId etherType off s =
     (let ob = gProxyServerObj s in
      if CpswProxyServer_getHandle ob \<noteq> ETHFW_SOK then (CpswProxyServer_getHandle ob, s)
      else if EthFwVirtPort_isSwitchPort (virtPort (client_at ob h))
      then call_st e (Ioctl hostId (ALE_SET_POLICER (MatchEtherType etherType) off)) s
      else (ETHFW_ENOTSUPPORTED, s))"

text \<open>The test is the opposite of the registration's.\<close>

definition CpswProxyServer_deregisterEthertypeHandlerCb ::
    "env \<Rightarrow> CpswProxyServer_ClientHandle \<Rightarrow> u32 \<Rightarrow> u16 \<Rightarrow> 'a proxy_st_scheme \<Rightarrow> int \<times> 'a proxy_st_scheme" where
  "CpswProxyServer_deregisterEthertypeHandlerCb e h hostId etherType s =
     (let ob = gProxyServerObj s in
      if CpswProxyServer_getHandle ob \<noteq> ETHFW_SOK then (CpswProxyServer_getHandle ob, s)
      else if \<not> EthFwVirtPort_isSwitchPort (virtPort (client_at ob h))
      then call_st e (Ioctl hostId (ALE_DEL_POLICER (MatchEtherType etherType) DelEtherType)) s
      else (ETHFW_ENOTSUPPORTED, s))"

section \<open>Remote timers\<close>

definition upd_notify :: "(CpswProxyServer_NotifyServiceObj \<Rightarrow> CpswProxyServer_NotifyServiceObj) \<Rightarrow>
    'a proxy_st_scheme \<Rightarrow> 'a proxy_st_scheme" where
  "upd_notify f s = s\<lparr>gProxyServerObj := (gProxyServerObj s)\<lparr>notifyServiceObj := f (notifyServiceObj (gProxyServerObj s))\<rparr>\<rparr>"

definition set_push_core :: "u32 \<Rightarrow> u32 \<Rightarrow> 'a proxy_st_scheme \<Rightarrow> 'a proxy_st_scheme" where
  "set_push_core norm v s =
     (if unat norm < length (hwPush2CoreIdMap (notifyServiceObj (gProxyServerObj s)))
      then upd_notify (\<lambda>n. n\<lparr>hwPush2CoreIdMap := (hwPush2CoreIdMap n)[unat norm := v]\<rparr>) s
      else fault OobWrite s)"

text \<open>
  Both handlers are called with no client.  The status tested after the bound check is the one of
  the bound check, or of \<open>CpswProxyServer_getHandle\<close>.
\<close>

definition CpswProxyServer_registerRemoteTimerHandlerCb ::
    "env \<Rightarrow> u32 \<Rightarrow> u8 \<Rightarrow> u8 \<Rightarrow> 'a proxy_st_scheme \<Rightarrow> int \<times> 'a proxy_st_scheme" where
  "CpswProxyServer_registerRemoteTimerHandlerCb e hostId timerId hwPushNum s =
     (let status = (if unat hwPushNum > hwPushMax e then ETHFW_EBADARGS else CpswProxyServer_getHandle (gProxyServerObj s));
          norm = hwPushNorm e (ucast hwPushNum)
      in if status \<noteq> ETHFW_SOK then (status, s)
         else
           thenOK (thenOK (call_st e (Ioctl hostId (CPTS_REGISTER_HWPUSH_CALLBACK (ucast hwPushNum)))
                (upd_notify (\<lambda>n. n\<lparr>dstProcMask := dstProcMask n OR ETHFW_BIT hostId\<rparr>) s))
             (call_st e (Tsr_set (ucast timerId) (norm + CPSWPROXY_CPSW9G_HWPUSH_BASE))))
             (\<lambda>s. (ETHFW_SOK, set_push_core norm hostId s)))"

definition CpswProxyServer_unregisterRemoteTimerHandlerCb ::
    "env \<Rightarrow> u32 \<Rightarrow> u8 \<Rightarrow> 'a proxy_st_scheme \<Rightarrow> int \<times> 'a proxy_st_scheme" where
  "CpswProxyServer_unregisterRemoteTimerHandlerCb e hostId hwPushNum s =
     (let status = (if unat hwPushNum \<ge> hwPushMax e then ETHFW_EBADARGS else CpswProxyServer_getHandle (gProxyServerObj s));
          norm = hwPushNorm e (ucast hwPushNum)
      in if status \<noteq> ETHFW_SOK then (status, s)
         else
           thenOK (thenOK (call_st e (Ioctl hostId (CPTS_UNREGISTER_HWPUSH_CALLBACK (ucast hwPushNum)))
                (upd_notify (\<lambda>n. n\<lparr>dstProcMask := dstProcMask n AND NOT (ETHFW_BIT hostId)\<rparr>) s))
             (call_st e (Tsr_set 0 (norm + CPSWPROXY_CPSW9G_HWPUSH_BASE))))
             (\<lambda>s. (ETHFW_SOK, set_push_core norm (of_nat (ipcMaxProcs e)) s)))"

section \<open>Multicast filters\<close>

text \<open>
  The VLAN id a client passes: 0 and \<open>ETHREMOTECFG_ETHSWITCH_VLAN_USE_DFLT\<close> both mean no VLAN; any
  other must be one the client's port has joined.
\<close>

definition filter_vlan :: "EthRemoteCfg_VirtPort \<Rightarrow> u16 \<Rightarrow> 'a proxy_st_scheme \<Rightarrow> u16 option" where
  "filter_vlan p vid s =
     (if vid = 0 \<or> vid = ETHREMOTECFG_ETHSWITCH_VLAN_USE_DFLT then Some 0
      else if EthFwVlan_isInVlan p vid (gEthFwVlanObj s) then Some vid else None)"

definition CpswProxyServer_filterAddMacHandlerCb ::
    "env \<Rightarrow> CpswProxyServer_ClientHandle \<Rightarrow> u32 \<Rightarrow> eth_addr \<Rightarrow> u16 \<Rightarrow> u32 \<Rightarrow> 'a proxy_st_scheme \<Rightarrow> int \<times> 'a proxy_st_scheme" where
  "CpswProxyServer_filterAddMacHandlerCb e h hostId mac vid off s =
     (let ob = gProxyServerObj s; p = virtPort (client_at ob h);
          (status, s) = (if CpswProxyServer_getHandle ob \<noteq> ETHFW_SOK then (CpswProxyServer_getHandle ob, s)
                         else primary_flow e p off s);
          status = (if \<not> isMcastAddr e mac then ETHFW_EBADARGS else status)
      in thenOK (status, s)
           (\<lambda>s. case filter_vlan p vid s of
                  None \<Rightarrow> (ETHFW_EBADARGS, s)
                | Some v \<Rightarrow> EthFwMcast_filterAddMac e p mac v off (ucast hostId) s))"

definition CpswProxyServer_filterDelMacHandlerCb ::
    "env \<Rightarrow> CpswProxyServer_ClientHandle \<Rightarrow> u32 \<Rightarrow> eth_addr \<Rightarrow> u16 \<Rightarrow> 'a proxy_st_scheme \<Rightarrow> int \<times> 'a proxy_st_scheme" where
  "CpswProxyServer_filterDelMacHandlerCb e h hostId mac vid s =
     (let ob = gProxyServerObj s; p = virtPort (client_at ob h);
          status = (if \<not> isMcastAddr e mac then ETHFW_EBADARGS else CpswProxyServer_getHandle ob)
      in thenOK (status, s)
           (\<lambda>s. case filter_vlan p vid s of
                  None \<Rightarrow> (ETHFW_EBADARGS, s)
                | Some v \<Rightarrow> EthFwMcast_filterDelMac e p mac v (ucast hostId) s))"

section \<open>Statistics\<close>

text \<open>The printing of the counters is not modelled.\<close>

definition CpswProxyServer_dumpStatsCb :: "env \<Rightarrow> u32 \<Rightarrow> 'a proxy_st_scheme \<Rightarrow> int \<times> 'a proxy_st_scheme" where
  "CpswProxyServer_dumpStatsCb e hostId s =
     (if mcuPlusSdk e then (ETHFW_ENOTSUPPORTED, s)
      else if CpswProxyServer_getHandle (gProxyServerObj s) \<noteq> ETHFW_SOK
      then (CpswProxyServer_getHandle (gProxyServerObj s), s)
      else thenOK (call_st e (Ioctl hostId ALE_DUMP_TABLE) s) (call_st e (Ioctl hostId ALE_DUMP_POLICER_ENTRIES)))"

end
