(* ===== verification/ProxyDispatch.thy ===== *)
theory ProxyDispatch
  imports ProxyRoutes
begin

text \<open>
  The request handler of the proxy server and its notification task
  (\<^verbatim>\<open>ethremotecfg/server/src/cpsw_proxy_server.c\<close>).  A request is its token, its id and a
  command with the fields of the command's message; a response carries the token, type and id of
  its request, the status, and the fields of the response message, \<open>None\<close> where the server sends
  what its stack holds.
\<close>

section \<open>Messages\<close>

type_synonym ipv4 = "u8 \<times> u8 \<times> u8 \<times> u8"

datatype EthRemoteCfg_Cmd =
    CMD_VIRT_PORT_INFO
  | CMD_ATTACH u32
  | CMD_ATTACH_EXT u32
  | CMD_DETACH
  | CMD_PORT_LINK_STATUS
  | CMD_ALLOC_TX u32
  | CMD_ALLOC_RX u32
  | CMD_ALLOC_MAC
  | CMD_FREE_TX u32
  | CMD_FREE_RX u32 u32
  | CMD_FREE_MAC eth_addr
  | CMD_REGISTER_MAC eth_addr u32 u32
  | CMD_DEREGISTER_MAC eth_addr u32 u32
  | CMD_SET_RX_DEFAULTFLOW u32 u32
  | CMD_DEL_RX_DEFAULTFLOW u32 u32
  | CMD_REGISTER_IPv4 ipv4 eth_addr
  | CMD_DEREGISTER_IPv4 ipv4
  | CMD_JOIN_VLAN u16 eth_addr u32 u32
  | CMD_LEAVE_VLAN u16 eth_addr u32 u32
  | CMD_ADD_FILTER_MAC eth_addr u16 u32 u32
  | CMD_DEL_FILTER_MAC eth_addr u16
  | CMD_REGISTER_MATCH_ETHTYPE u16 u32 u32
  | CMD_DEREGISTER_MATCH_ETHTYPE u16
  | CMD_REGISTER_REMOTE_TIMER u8 u8    \<comment> \<open>hardware push number, timer id\<close>
  | CMD_DEREGISTER_REMOTE_TIMER u8
  | CMD_GET_SERVER_STATUS
  | CMD_TEARDOWN_COMPLETION
  | CMD_DUMP
  | CMD_ALLOC_CPTS_HW_PUSH
  | CMD_FREE_CPTS_HW_PUSH u32
  | CMD_UNKNOWN u32

fun EthRemoteCfg_CmdType :: "EthRemoteCfg_Cmd \<Rightarrow> u32" where
  "EthRemoteCfg_CmdType CMD_VIRT_PORT_INFO = 0"
| "EthRemoteCfg_CmdType (CMD_ATTACH _) = 1"
| "EthRemoteCfg_CmdType (CMD_ATTACH_EXT _) = 2"
| "EthRemoteCfg_CmdType CMD_DETACH = 3"
| "EthRemoteCfg_CmdType CMD_PORT_LINK_STATUS = 4"
| "EthRemoteCfg_CmdType (CMD_ALLOC_TX _) = 5"
| "EthRemoteCfg_CmdType (CMD_ALLOC_RX _) = 6"
| "EthRemoteCfg_CmdType CMD_ALLOC_MAC = 7"
| "EthRemoteCfg_CmdType (CMD_FREE_TX _) = 8"
| "EthRemoteCfg_CmdType (CMD_FREE_RX _ _) = 9"
| "EthRemoteCfg_CmdType (CMD_FREE_MAC _) = 10"
| "EthRemoteCfg_CmdType (CMD_REGISTER_MAC _ _ _) = 11"
| "EthRemoteCfg_CmdType (CMD_DEREGISTER_MAC _ _ _) = 12"
| "EthRemoteCfg_CmdType (CMD_SET_RX_DEFAULTFLOW _ _) = 13"
| "EthRemoteCfg_CmdType (CMD_DEL_RX_DEFAULTFLOW _ _) = 14"
| "EthRemoteCfg_CmdType (CMD_REGISTER_IPv4 _ _) = 15"
| "EthRemoteCfg_CmdType (CMD_DEREGISTER_IPv4 _) = 16"
| "EthRemoteCfg_CmdType (CMD_JOIN_VLAN _ _ _ _) = 17"
| "EthRemoteCfg_CmdType (CMD_LEAVE_VLAN _ _ _ _) = 18"
| "EthRemoteCfg_CmdType (CMD_ADD_FILTER_MAC _ _ _ _) = 19"
| "EthRemoteCfg_CmdType (CMD_DEL_FILTER_MAC _ _) = 20"
| "EthRemoteCfg_CmdType (CMD_REGISTER_MATCH_ETHTYPE _ _ _) = 21"
| "EthRemoteCfg_CmdType (CMD_DEREGISTER_MATCH_ETHTYPE _) = 22"
| "EthRemoteCfg_CmdType (CMD_REGISTER_REMOTE_TIMER _ _) = 23"
| "EthRemoteCfg_CmdType (CMD_DEREGISTER_REMOTE_TIMER _) = 24"
| "EthRemoteCfg_CmdType CMD_GET_SERVER_STATUS = 25"
| "EthRemoteCfg_CmdType CMD_TEARDOWN_COMPLETION = 26"
| "EthRemoteCfg_CmdType CMD_DUMP = 27"
| "EthRemoteCfg_CmdType CMD_ALLOC_CPTS_HW_PUSH = 28"
| "EthRemoteCfg_CmdType (CMD_FREE_CPTS_HW_PUSH _) = 29"
| "EthRemoteCfg_CmdType (CMD_UNKNOWN n) = n"

record EthRemoteCfg_Req =
  rqToken :: u32
  rqId :: u32
  rqCmd :: EthRemoteCfg_Cmd

text \<open>The fields of the responses, in the order of their structures.\<close>

datatype EthRemoteCfg_Payload =
    StatusRes
  | OfferVirtPortRes "(u32 \<times> u32) option"
  | AttachRes "u32 option" "(u32 \<times> u32) option" "(u32 \<times> u32) option"
      \<comment> \<open>receive MTU; transmit MTU and features; channel and flow counts\<close>
  | AttachExtRes "u32 option" "(u32 \<times> u32) option" "(u32 \<times> u32) option" "u32 option" "u32 option" "eth_addr option"
      \<comment> \<open>receive MTU; transmit MTU and features; flow base and offset; transmit and receive PSIL; MAC\<close>
  | AllocTxRes "u32 option"
  | AllocRxRes "(u32 \<times> u32) option" "u32 option"
  | AllocMacRes "eth_addr option"
  | PortLinkStatusRes "bool option" "(u32 \<times> u32) option"
  | ServerStatusRes u32
  | AllocHwPushRes "u32 option"

record EthRemoteCfg_Res =
  rsToken :: u32
  rsClientId :: u32
  rsType :: u32
  rsId :: u32
  rsStatus :: int
  rsPayload :: EthRemoteCfg_Payload

definition ETHREMOTECFG_MSGTYPE_RESPONSE :: u32 where "ETHREMOTECFG_MSGTYPE_RESPONSE = 2"

section \<open>Commands\<close>

text \<open>Most commands look their client up by core and token first.\<close>

definition with_client :: "u32 \<Rightarrow> u32 \<Rightarrow> 'p \<Rightarrow> (CpswProxyServer_ClientHandle \<Rightarrow> 'a proxy_st_scheme \<Rightarrow> int \<times> 'p \<times> 'a proxy_st_scheme)
    \<Rightarrow> 'a proxy_st_scheme \<Rightarrow> int \<times> 'p \<times> 'a proxy_st_scheme" where
  "with_client proc tok p f s =
     (case CpswProxyServer_getClient proc tok (gProxyServerObj s) of
        None \<Rightarrow> (ETHFW_EFAIL, p, s)
      | Some h \<Rightarrow> f h s)"

definition status_only :: "int \<times> 's \<Rightarrow> int \<times> EthRemoteCfg_Payload \<times> 's" where
  "status_only r = (fst r, StatusRes, snd r)"

text \<open>The token of the response is the client's new token, unless there was no free client object.\<close>

definition cmd_attach :: "env \<Rightarrow> u8 \<Rightarrow> u32 \<Rightarrow> u32 \<Rightarrow> u32 \<Rightarrow> u32 \<Rightarrow> 'a proxy_st_scheme \<Rightarrow>
    int \<times> u32 \<times> EthRemoteCfg_Payload \<times> 'a proxy_st_scheme" where
  "cmd_attach e clId proc ep tok port s =
     (case CpswProxyServer_allocClient e proc ep port s of
        (None, s) \<Rightarrow> (ETHFW_EALLOC, tok, AttachRes None None None, s)
      | (Some h, s) \<Rightarrow>
          (let (status, (rxMtu, txFeat, nums), s) = CpswProxyServer_attachHandlerCb e h proc port True s;
               tok = token (client_at (gProxyServerObj s) h)
           in (status, tok, AttachRes rxMtu txFeat nums, upd_client h (\<lambda>c. c\<lparr>clientId := ucast clId\<rparr>) s)))"

definition cmd_attach_ext :: "env \<Rightarrow> u8 \<Rightarrow> u32 \<Rightarrow> u32 \<Rightarrow> u32 \<Rightarrow> u32 \<Rightarrow> 'a proxy_st_scheme \<Rightarrow>
    int \<times> u32 \<times> EthRemoteCfg_Payload \<times> 'a proxy_st_scheme" where
  "cmd_attach_ext e clId proc ep tok port s =
     (case CpswProxyServer_allocClient e proc ep port s of
        (None, s) \<Rightarrow> (ETHFW_EALLOC, tok, AttachExtRes None None None None None None, s)
      | (Some h, s) \<Rightarrow>
          (let (status, (rxMtu, txFeat, flow, psil, rxPsil, mac), s) = CpswProxyServer_attachExtHandlerCb e h proc port s;
               tok = token (client_at (gProxyServerObj s) h)
           in (status, tok, AttachExtRes rxMtu txFeat flow psil rxPsil mac,
               upd_client h (\<lambda>c. c\<lparr>clientId := ucast clId\<rparr>) s)))"

definition cmd_detach :: "u32 \<Rightarrow> u32 \<Rightarrow> 'a proxy_st_scheme \<Rightarrow> int \<times> EthRemoteCfg_Payload \<times> 'a proxy_st_scheme" where
  "cmd_detach proc tok s =
     (case CpswProxyServer_getClient proc tok (gProxyServerObj s) of
        None \<Rightarrow> (ETHFW_EINVALIDPARAMS, StatusRes, s)
      | Some h \<Rightarrow>
          (let (status, s) = CpswProxyServer_detachHandlerCb proc s
           in (status, StatusRes, CpswProxyServer_freeClient h s)))"

text \<open>With MAC-only ports of the MCU+ SDK, MAC port 2's client shares the allocated channel and flow.\<close>

definition mac_port_2_token :: u32 where "mac_port_2_token = CPSWPROXY_VIRTPORT_2_TOKEN (ETHREMOTECFG_MAC_PORT_1 + 1)"

definition cmd_alloc_tx :: "env \<Rightarrow> u32 \<Rightarrow> u32 \<Rightarrow> u32 \<Rightarrow> 'a proxy_st_scheme \<Rightarrow> int \<times> EthRemoteCfg_Payload \<times> 'a proxy_st_scheme" where
  "cmd_alloc_tx e proc tok rel s =
     (let (status, psil, s) = with_client proc tok None (\<lambda>h. CpswProxyServer_allocTxHandlerCb e h proc rel) s in
      if \<not> (macOnlyPorts e \<and> mcuPlusSdk e) \<or> status \<noteq> ETHFW_SOK then (status, AllocTxRes psil, s)
      else
        (let (status, _, s) = with_client proc mac_port_2_token ()
               (\<lambda>h s. (ETHFW_SOK, (), upd_client h (\<lambda>c. c\<lparr>psilDstId := the psil\<rparr>) s)) s
         in (status, AllocTxRes psil, s)))"

definition cmd_alloc_rx :: "env \<Rightarrow> u32 \<Rightarrow> u32 \<Rightarrow> u32 \<Rightarrow> 'a proxy_st_scheme \<Rightarrow> int \<times> EthRemoteCfg_Payload \<times> 'a proxy_st_scheme" where
  "cmd_alloc_rx e proc tok rel s =
     (let (status, (flow, psil), s) = with_client proc tok (None, None) (\<lambda>h. CpswProxyServer_allocRxHandlerCb e h proc rel) s in
      if \<not> (macOnlyPorts e \<and> mcuPlusSdk e) \<or> status \<noteq> ETHFW_SOK then (status, AllocRxRes flow psil, s)
      else
        (let (status, _, s) = with_client proc mac_port_2_token ()
               (\<lambda>h s. let s = upd_client h (\<lambda>c. c\<lparr>flowIdxBase := fst (the flow), flowIdxOffset := snd (the flow)\<rparr>) s
                      in (ETHFW_SOK, (), CpswProxyServer_saveRxFlowOffset (virtPort (client_at (gProxyServerObj s) h)) rel
                                           (snd (the flow)) s)) s
         in (status, AllocRxRes flow psil, s)))"

text \<open>
  The commands that answer with their request's token, in the order of the switch statement: each
  group passes what it does not handle to the next one, and \<open>service_cmd\<close> has its default case.
\<close>

definition service_cmd :: "env \<Rightarrow> u8 \<Rightarrow> u32 \<Rightarrow> u32 \<Rightarrow> EthRemoteCfg_Cmd \<Rightarrow> 'a proxy_st_scheme \<Rightarrow>
    int \<times> EthRemoteCfg_Payload \<times> 'a proxy_st_scheme" where
  "service_cmd e clId proc tok cmd s =
     (case cmd of
        CMD_REGISTER_REMOTE_TIMER hwPushNum timerId \<Rightarrow>
          status_only (CpswProxyServer_registerRemoteTimerHandlerCb e proc timerId hwPushNum s)
      | CMD_DEREGISTER_REMOTE_TIMER hwPushNum \<Rightarrow>
          status_only (CpswProxyServer_unregisterRemoteTimerHandlerCb e proc hwPushNum s)
      | CMD_GET_SERVER_STATUS \<Rightarrow> (ETHFW_SOK, ServerStatusRes (serverStatus s), s)
      | CMD_TEARDOWN_COMPLETION \<Rightarrow>
          with_client proc tok StatusRes (\<lambda>h s. (ETHFW_SOK, StatusRes, upd_client h (\<lambda>c. c\<lparr>isIdle := True\<rparr>) s)) s
      | CMD_DUMP \<Rightarrow> with_client proc tok StatusRes (\<lambda>h s. status_only (CpswProxyServer_dumpStatsCb e proc s)) s
      | CMD_ALLOC_CPTS_HW_PUSH \<Rightarrow> with_client proc tok (AllocHwPushRes None)
          (\<lambda>h s. case CpswProxyServer_allocHwPushCb e proc s of (st, w, s) \<Rightarrow> (st, AllocHwPushRes w, s)) s
      | CMD_FREE_CPTS_HW_PUSH n \<Rightarrow>
          with_client proc tok StatusRes (\<lambda>h s. status_only (CpswProxyServer_freeHwPushCb e proc n s)) s
      | _ \<Rightarrow> (ETHFW_EFAIL, StatusRes, s))"

definition filter_cmd :: "env \<Rightarrow> u8 \<Rightarrow> u32 \<Rightarrow> u32 \<Rightarrow> EthRemoteCfg_Cmd \<Rightarrow> 'a proxy_st_scheme \<Rightarrow>
    int \<times> EthRemoteCfg_Payload \<times> 'a proxy_st_scheme" where
  "filter_cmd e clId proc tok cmd s =
     (case cmd of
        CMD_REGISTER_MATCH_ETHTYPE t _ off \<Rightarrow>
          with_client proc tok StatusRes (\<lambda>h s. status_only (CpswProxyServer_registerEthertypeHandlerCb e h proc t off s)) s
      | CMD_DEREGISTER_MATCH_ETHTYPE t \<Rightarrow>
          with_client proc tok StatusRes (\<lambda>h s. status_only (CpswProxyServer_deregisterEthertypeHandlerCb e h proc t s)) s
      | CMD_ADD_FILTER_MAC mac vid _ off \<Rightarrow>
          with_client proc tok StatusRes (\<lambda>h s. status_only (CpswProxyServer_filterAddMacHandlerCb e h proc mac vid off s)) s
      | CMD_DEL_FILTER_MAC mac vid \<Rightarrow>
          with_client proc tok StatusRes (\<lambda>h s. status_only (CpswProxyServer_filterDelMacHandlerCb e h proc mac vid s)) s
      | CMD_PORT_LINK_STATUS \<Rightarrow> with_client proc tok (PortLinkStatusRes None None)
          (\<lambda>h s. case CpswProxyServer_isLinkUpCb e h proc s of (st, (linked, mode), s) \<Rightarrow> (st, PortLinkStatusRes linked mode, s)) s
      | _ \<Rightarrow> service_cmd e clId proc tok cmd s)"

definition flow_cmd :: "env \<Rightarrow> u8 \<Rightarrow> u32 \<Rightarrow> u32 \<Rightarrow> EthRemoteCfg_Cmd \<Rightarrow> 'a proxy_st_scheme \<Rightarrow>
    int \<times> EthRemoteCfg_Payload \<times> 'a proxy_st_scheme" where
  "flow_cmd e clId proc tok cmd s =
     (case cmd of
        CMD_JOIN_VLAN vid mac _ _ \<Rightarrow>
          with_client proc tok StatusRes (\<lambda>h s. status_only (CpswProxyServer_vlanJoinHandlerCb e h vid mac s)) s
      | CMD_LEAVE_VLAN vid mac _ _ \<Rightarrow>
          with_client proc tok StatusRes (\<lambda>h s. status_only (CpswProxyServer_vlanLeaveHandlerCb e h vid mac s)) s
      | CMD_SET_RX_DEFAULTFLOW base off \<Rightarrow>
          with_client proc tok StatusRes (\<lambda>h s. status_only (CpswProxyServer_registerRxDefaultHandlerCb e h proc base off s)) s
      | CMD_DEL_RX_DEFAULTFLOW base off \<Rightarrow>
          with_client proc tok StatusRes (\<lambda>h s. status_only (CpswProxyServer_deregisterRxDefaultHandlerCb e h proc base off s)) s
      | _ \<Rightarrow> filter_cmd e clId proc tok cmd s)"

definition address_cmd :: "env \<Rightarrow> u8 \<Rightarrow> u32 \<Rightarrow> u32 \<Rightarrow> EthRemoteCfg_Cmd \<Rightarrow> 'a proxy_st_scheme \<Rightarrow>
    int \<times> EthRemoteCfg_Payload \<times> 'a proxy_st_scheme" where
  "address_cmd e clId proc tok cmd s =
     (case cmd of
        CMD_REGISTER_MAC mac base off \<Rightarrow>
          with_client proc tok StatusRes (\<lambda>h s. status_only (CpswProxyServer_registerMacHandlerCb e h proc mac base off s)) s
      | CMD_DEREGISTER_MAC mac base off \<Rightarrow>
          with_client proc tok StatusRes (\<lambda>h s. status_only (CpswProxyServer_unregisterMacHandlerCb e h proc mac base off s)) s
      | CMD_REGISTER_IPv4 ip mac \<Rightarrow>
          with_client proc tok StatusRes (\<lambda>h s. status_only (CpswProxyServer_registerIPv4MacHandlerCb e h mac ip s)) s
      | CMD_DEREGISTER_IPv4 ip \<Rightarrow>
          with_client proc tok StatusRes (\<lambda>h s. status_only (CpswProxyServer_deregisterIPv4MacHandlerCb e h ip s)) s
      | _ \<Rightarrow> flow_cmd e clId proc tok cmd s)"

definition resource_cmd :: "env \<Rightarrow> u8 \<Rightarrow> u32 \<Rightarrow> u32 \<Rightarrow> EthRemoteCfg_Cmd \<Rightarrow> 'a proxy_st_scheme \<Rightarrow>
    int \<times> EthRemoteCfg_Payload \<times> 'a proxy_st_scheme" where
  "resource_cmd e clId proc tok cmd s =
     (case cmd of
        CMD_ALLOC_MAC \<Rightarrow> with_client proc tok (AllocMacRes None)
          (\<lambda>h s. case CpswProxyServer_allocMacHandlerCb e h proc s of (st, mac, s) \<Rightarrow> (st, AllocMacRes mac, s)) s
      | CMD_FREE_TX psil \<Rightarrow> with_client proc tok StatusRes (\<lambda>h s. status_only (CpswProxyServer_freeTxHandlerCb e h proc psil s)) s
      | CMD_FREE_RX base off \<Rightarrow>
          with_client proc tok StatusRes (\<lambda>h s. status_only (CpswProxyServer_freeRxHandlerCb e h proc base off s)) s
      | CMD_FREE_MAC mac \<Rightarrow> with_client proc tok StatusRes (\<lambda>h s. status_only (CpswProxyServer_freeMacHandlerCb e proc mac s)) s
      | _ \<Rightarrow> address_cmd e clId proc tok cmd s)"

definition handle_cmd :: "env \<Rightarrow> u8 \<Rightarrow> u32 \<Rightarrow> u32 \<Rightarrow> EthRemoteCfg_Cmd \<Rightarrow> 'a proxy_st_scheme \<Rightarrow>
    int \<times> EthRemoteCfg_Payload \<times> 'a proxy_st_scheme" where
  "handle_cmd e clId proc tok cmd s =
     (case cmd of
        CMD_VIRT_PORT_INFO \<Rightarrow>
          (let (status, m) = CpswProxyServer_VirtPortAllocCb e (ucast clId) proc (gProxyServerObj s)
           in (status, OfferVirtPortRes m, s))
      | CMD_DETACH \<Rightarrow> cmd_detach proc tok s
      | CMD_ALLOC_TX rel \<Rightarrow> cmd_alloc_tx e proc tok rel s
      | CMD_ALLOC_RX rel \<Rightarrow> cmd_alloc_rx e proc tok rel s
      | _ \<Rightarrow> resource_cmd e clId proc tok cmd s)"

lemmas handle_cmd_defs = handle_cmd_def resource_cmd_def address_cmd_def flow_cmd_def filter_cmd_def service_cmd_def

text \<open>The handler: run the command, send the response.  The status of the sending is only logged.\<close>

definition run_cmd :: "env \<Rightarrow> u8 \<Rightarrow> u32 \<Rightarrow> u32 \<Rightarrow> EthRemoteCfg_Req \<Rightarrow> 'a proxy_st_scheme \<Rightarrow>
    int \<times> u32 \<times> EthRemoteCfg_Payload \<times> 'a proxy_st_scheme" where
  "run_cmd e clId proc ep req s =
     (case rqCmd req of
        CMD_ATTACH port \<Rightarrow> cmd_attach e clId proc ep (rqToken req) port s
      | CMD_ATTACH_EXT port \<Rightarrow> cmd_attach_ext e clId proc ep (rqToken req) port s
      | cmd \<Rightarrow> (case handle_cmd e clId proc (rqToken req) cmd s of (st, p, s) \<Rightarrow> (st, rqToken req, p, s)))"

definition CpswProxyServer_clientRequestHandler ::
    "env \<Rightarrow> u8 \<Rightarrow> u32 \<Rightarrow> u32 \<Rightarrow> u32 \<Rightarrow> EthRemoteCfg_Req \<Rightarrow> 'a proxy_st_scheme \<Rightarrow> EthRemoteCfg_Res \<times> 'a proxy_st_scheme" where
  "CpswProxyServer_clientRequestHandler e clId proc ep localEp req s =
     (let (status, tok, payload, s) = run_cmd e clId proc ep req s;
          res = \<lparr>rsToken = tok, rsClientId = ucast clId, rsType = EthRemoteCfg_CmdType (rqCmd req), rsId = rqId req,
                 rsStatus = status, rsPayload = payload\<rparr>
      in (res, issue (Ipc_sendRpmsg proc ep localEp
            [rsToken res, rsClientId res, ETHREMOTECFG_MSGTYPE_RESPONSE, rsType res, rsId res, of_int (rsStatus res)]) s))"

section \<open>The notification task\<close>

text \<open>
  One pass of the task's loop: \<open>events\<close> is what \<^verbatim>\<open>EthFwOsal_waitEvent\<close> returned, the integer is
  \<^verbatim>\<open>rtnVal\<close>, which lives across passes.
\<close>

definition hwpush_notify :: "env \<Rightarrow> nat \<Rightarrow> int \<times> 'a proxy_st_scheme \<Rightarrow> int \<times> 'a proxy_st_scheme" where
  "hwpush_notify e i r =
     (let s = snd r; ns = notifyServiceObj (gProxyServerObj s);
          core = hwPush2CoreIdMap ns ! i
      in thenOK (call_st e (Ioctl (selfCoreId e) (CPTS_LOOKUP_EVENT (of_nat i + 1))) s)
           (\<lambda>s. if unat core \<noteq> ipcMaxProcs e \<and> ETHFW_IS_BIT_SET (dstProcMask ns) core
                then call_st e (Ipc_sendRpmsg core 30 (nsLocalEp ns) [ETHREMOTECFG_TOKEN_NONE, 0, 0, 1, of_nat i + 1]) s
                else (ETHFW_SOK, s)))"

definition CpswProxyServer_notifyServicePass :: "env \<Rightarrow> u32 \<Rightarrow> int \<times> 'a proxy_st_scheme \<Rightarrow> int \<times> 'a proxy_st_scheme" where
  "CpswProxyServer_notifyServicePass e events r =
     (if events \<noteq> 0 \<and> fst r = ETHFW_SOK
      then fold (hwpush_notify e) (filter (\<lambda>i. ETHFW_IS_BIT_SET events (of_nat i)) [0..<hwPushMax e]) r
      else r)"

section \<open>What attaches and detaches a core\<close>

text \<open>The MCM's view of a core after a sequence of calls.\<close>

fun mcm_step :: "nat \<Rightarrow> call \<Rightarrow> bool \<Rightarrow> bool" where
  "mcm_step k (Mcm_coreAttach c) b = (if unat c = k then True else b)"
| "mcm_step k (Mcm_coreDetach c key) b = (if unat c = k then False else b)"
| "mcm_step k c b = b"

definition mcm_attached :: "nat \<Rightarrow> call list \<Rightarrow> bool" where
  "mcm_attached k cs = fold (mcm_step k) cs False"

fun is_mcm :: "call \<Rightarrow> bool" where
  "is_mcm (Mcm_coreAttach c) = True"
| "is_mcm (Mcm_coreDetach c key) = True"
| "is_mcm c = False"

lemma mcm_attached_simps [simp]:
  "mcm_attached k (cs @ [c]) = mcm_step k c (mcm_attached k cs)"
  by (simp add: mcm_attached_def)

lemma mcm_step_other [simp]: "\<not> is_mcm c \<Longrightarrow> mcm_step k c b = b"
  by (cases c) simp_all

section \<open>What the handlers leave alone\<close>

lemma sig_status_only [simp]: "snd (snd (status_only r)) = snd r"
  by (simp add: status_only_def)

text \<open>The calls of the handlers, but for attaching and detaching a core.\<close>

fun handler_call :: "call \<Rightarrow> bool" where
  "handler_call (Ioctl k c) = True"
| "handler_call (FilterAddMacSharedCb m k) = True"
| "handler_call (FilterDelMacSharedCb m k) = True"
| "handler_call (Rm_allocRxFlow x k) = True"
| "handler_call (Rm_freeRxFlow x k i) = True"
| "handler_call (Rm_getStartFlowIdx k) = True"
| "handler_call (Rm_allocTxCh x k) = True"
| "handler_call (Rm_allocAbsTxCh x k i) = True"
| "handler_call (Rm_freeTxCh x k i) = True"
| "handler_call (Rm_allocMac x k) = True"
| "handler_call (Rm_freeMac x k m) = True"
| "handler_call (Rm_regDstMacRxFlow x k i j m) = True"
| "handler_call (Rm_unregDstMacRxFlow x k i j m) = True"
| "handler_call (Rm_regDfltRxFlow x k i j) = True"
| "handler_call (Rm_unregDfltRxFlow x k i j) = True"
| "handler_call (Rm_allocHwPushInst x k) = True"
| "handler_call (Rm_freeHwPushInst x k i) = True"
| "handler_call (Tsr_set i j) = True"
| "handler_call Soc_getRxChPeerId = True"
| "handler_call c = False"

text \<open>
  Something read off the state that the handlers do not change: it sees neither their calls nor the
  tables of the server's modules, and of the client objects at most which are in use and their tokens.
\<close>

locale handler_sig =
  fixes sig :: "'a proxy_st_scheme \<Rightarrow> 'b"
  assumes sig_issue [simp]: "handler_call c \<Longrightarrow> sig (issue c s) = sig s"
    and sig_fault [simp]: "sig (fault fl s) = sig s"
    and sig_vepa_obj [simp]: "sig (s\<lparr>gEthFwVepaObj := v\<rparr>) = sig s"
    and sig_arp_obj [simp]: "sig (s\<lparr>gEthFwArpObj := a\<rparr>) = sig s"
    and sig_vlan_obj [simp]: "sig (s\<lparr>gEthFwVlanObj := w\<rparr>) = sig s"
    and sig_mcast_obj [simp]: "sig (s\<lparr>gEthFwMcastObj := m\<rparr>) = sig s"
    and sig_notify [simp]: "sig (upd_notify fn s) = sig s"
    and sig_flow_offset [simp]: "sig (CpswProxyServer_saveRxFlowOffset p r off s) = sig s"
    and sig_upd_client: "(\<And>x. inUse (f x) = inUse x) \<Longrightarrow> (\<And>x. token (f x) = token x) \<Longrightarrow> sig (upd_client h f s) = sig s"
begin

lemma sig_frames [simp]:
  "sig (chk_idx f i n s) = sig s"
  "sig (chk_vlans s) = sig s"
  "sig (upd_vlan j uv s) = sig s"
  "sig (upd_shared j us s) = sig s"
  "sig (upd_excl j ux s) = sig s"
  "sig (snd (with_vepa fv s)) = sig s"
  "sig (snd (with_arp fa s)) = sig s"
  "sig (set_push_core nm v2 s) = sig s"
  by (simp_all add: chk_idx_def chk_vlans_def upd_vlan_def upd_shared_def upd_excl_def with_vepa_def with_arp_def
      set_push_core_def Let_def case_prod_beta)

lemma sig_thenOK:
  "sig (snd r) = sig s \<Longrightarrow> (\<And>s1. sig s1 = sig s \<Longrightarrow> sig (snd (f s1)) = sig s)
    \<Longrightarrow> sig (snd (thenOK r f)) = sig s"
  by (rule thenOK_inv [where P = "\<lambda>s1. sig s1 = sig s"])

lemma sig_fold:
  "(\<And>x r. sig (snd (g x r)) = sig (snd r)) \<Longrightarrow> sig (snd (fold g xs r)) = sig (snd r)"
  by (induction xs arbitrary: r) simp_all

lemma sig_vepa [simp]:
  "sig (snd (EthFwVepa_addMcastPolicer e k v m l s)) = sig s"
  "sig (snd (EthFwVepa_delMcastPolicer e k v m d s)) = sig s"
  by (simp_all add: EthFwVepa_addMcastPolicer_def EthFwVepa_delMcastPolicer_def Let_def)

lemma sig_vepa_clients [simp]:
  "sig (snd (EthFwVepa_registerClient e k f p m s)) = sig s"
  "sig (snd (EthFwVepa_unregisterClient e k p s)) = sig s"
  by (auto simp: EthFwVepa_registerClient_def EthFwVepa_unregisterClient_def Let_def case_prod_beta
      intro!: sig_thenOK split: option.split)

lemma sig_mcast_parts [simp]:
  "sig (snd (EthFwMcast_filterAddMacShared e i m c s)) = sig s"
  "sig (snd (EthFwMcast_filterDelMacShared e i m c s)) = sig s"
  "sig (snd (EthFwMcast_filterAddMacExcl e p m f s)) = sig s"
  "sig (snd (EthFwMcast_filterDelMacExcl e p m s)) = sig s"
  by (auto simp: EthFwMcast_filterAddMacShared_def EthFwMcast_filterDelMacShared_def EthFwMcast_filterAddMacExcl_def
      EthFwMcast_filterDelMacExcl_def Let_def case_prod_beta intro!: sig_thenOK split: option.split)

lemma sig_mcast [simp]:
  "sig (snd (EthFwMcast_filterAddMac e p m v f c s)) = sig s"
  "sig (snd (EthFwMcast_filterDelMac e p m v c s)) = sig s"
  by (auto simp: EthFwMcast_filterAddMac_def EthFwMcast_filterDelMac_def Let_def case_prod_beta
      intro!: sig_thenOK split: option.split)

lemma sig_vlan [simp]:
  "sig (snd (EthFwVlan_join e p v m s)) = sig s"
  "sig (snd (EthFwVlan_leave e p v m s)) = sig s"
  by (auto simp: EthFwVlan_join_def EthFwVlan_leave_def vlan_activate_def setup_calls EthFwVlan_deleteVlan_def
      entry_call_def no_host_call_def Let_def case_prod_beta intro!: sig_thenOK split: option.split)

text \<open>Every handler but attaching and detaching leaves it alone.\<close>

lemma sig_small [simp]:
  "sig (snd (CpswProxyServer_validateStartIdx e k b s)) = sig s"
  "sig (snd (primary_flow e p off s)) = sig s"
  "sig (snd (create_policers e k off ps r)) = sig (snd r)"
  "sig (snd (delete_policers e k ps r)) = sig (snd r)"
  by (simp_all add: CpswProxyServer_validateStartIdx_def primary_flow_def create_policers_def delete_policers_def
      CpswProxyServer_createCustomPolicer_def CpswProxyServer_deleteCustomPolicer_def sig_fold Let_def case_prod_beta
      split: option.split)

lemma sig_resources [simp]:
  "sig (snd (snd (CpswProxyServer_allocTxHandlerCb e h k r s))) = sig s"
  "sig (snd (CpswProxyServer_freeTxHandlerCb e h k t s)) = sig s"
  "sig (snd (snd (CpswProxyServer_allocRxHandlerCb e h k r s))) = sig s"
  "sig (snd (snd (CpswProxyServer_allocMacHandlerCb e h k s))) = sig s"
  "sig (snd (CpswProxyServer_freeMacHandlerCb e k m s)) = sig s"
  "sig (snd (snd (CpswProxyServer_allocHwPushCb e k s))) = sig s"
  "sig (snd (CpswProxyServer_freeHwPushCb e k n s)) = sig s"
  by (auto simp: CpswProxyServer_allocTxHandlerCb_def CpswProxyServer_freeTxHandlerCb_def CpswProxyServer_allocRxHandlerCb_def
      CpswProxyServer_allocMacHandlerCb_def CpswProxyServer_freeMacHandlerCb_def CpswProxyServer_allocHwPushCb_def
      CpswProxyServer_freeHwPushCb_def Let_def case_prod_beta sig_upd_client intro!: sig_thenOK split: option.split)

lemma sig_freeRx [simp]: "sig (snd (CpswProxyServer_freeRxHandlerCb e h k b off s)) = sig s"
  by (auto simp: CpswProxyServer_freeRxHandlerCb_def Let_def case_prod_beta sig_upd_client intro!: sig_thenOK split: option.split)

lemma sig_routes [simp]:
  "sig (snd (CpswProxyServer_registerMacHandlerCb e h k m b off s)) = sig s"
  "sig (snd (CpswProxyServer_unregisterMacHandlerCb e h k m b off s)) = sig s"
  "sig (snd (CpswProxyServer_registerIPv4MacHandlerCb e h m ip s)) = sig s"
  "sig (snd (CpswProxyServer_deregisterIPv4MacHandlerCb e h ip s)) = sig s"
  "sig (snd (CpswProxyServer_vlanJoinHandlerCb e h v m s)) = sig s"
  "sig (snd (CpswProxyServer_vlanLeaveHandlerCb e h v m s)) = sig s"
  "sig (snd (CpswProxyServer_registerRxDefaultHandlerCb e h k b off s)) = sig s"
  "sig (snd (CpswProxyServer_deregisterRxDefaultHandlerCb e h k b off s)) = sig s"
  by (auto simp: CpswProxyServer_registerMacHandlerCb_def CpswProxyServer_unregisterMacHandlerCb_def
      register_switch_mac_def unregister_switch_mac_def CpswProxyServer_regMacPortFlow_def CpswProxyServer_unregMacPortFlow_def
      CpswProxyServer_registerIPv4MacHandlerCb_def CpswProxyServer_deregisterIPv4MacHandlerCb_def
      CpswProxyServer_vlanJoinHandlerCb_def CpswProxyServer_vlanLeaveHandlerCb_def
      CpswProxyServer_registerRxDefaultHandlerCb_def CpswProxyServer_deregisterRxDefaultHandlerCb_def
      Let_def case_prod_beta sig_upd_client intro!: sig_thenOK)

lemma sig_routes2 [simp]:
  "sig (snd (snd (CpswProxyServer_isLinkUpCb e h k s))) = sig s"
  "sig (snd (CpswProxyServer_registerEthertypeHandlerCb e h k t off s)) = sig s"
  "sig (snd (CpswProxyServer_deregisterEthertypeHandlerCb e h k t s)) = sig s"
  "sig (snd (CpswProxyServer_registerRemoteTimerHandlerCb e k tm n s)) = sig s"
  "sig (snd (CpswProxyServer_unregisterRemoteTimerHandlerCb e k n s)) = sig s"
  "sig (snd (CpswProxyServer_filterAddMacHandlerCb e h k m v off s)) = sig s"
  "sig (snd (CpswProxyServer_filterDelMacHandlerCb e h k m v s)) = sig s"
  "sig (snd (CpswProxyServer_dumpStatsCb e k s)) = sig s"
  by (auto simp: CpswProxyServer_isLinkUpCb_def CpswProxyServer_registerEthertypeHandlerCb_def
      CpswProxyServer_deregisterEthertypeHandlerCb_def CpswProxyServer_registerRemoteTimerHandlerCb_def
      CpswProxyServer_unregisterRemoteTimerHandlerCb_def CpswProxyServer_filterAddMacHandlerCb_def
      CpswProxyServer_filterDelMacHandlerCb_def CpswProxyServer_dumpStatsCb_def
      Let_def case_prod_beta intro!: sig_thenOK split: option.split)

lemma sig_with_client:
  "(\<And>h s. sig (snd (snd (f h s))) = sig s) \<Longrightarrow> sig (snd (snd (with_client proc tok p f s))) = sig s"
  by (simp add: with_client_def split: option.split)

lemma sig_handle_cmd:
  "cmd \<noteq> CMD_DETACH \<Longrightarrow> sig (snd (snd (handle_cmd e clId proc tok cmd s))) = sig s"
  by (cases cmd) (simp_all add: handle_cmd_defs cmd_alloc_tx_def cmd_alloc_rx_def sig_with_client sig_upd_client
      Let_def case_prod_beta)

end

text \<open>The attach bookkeeping: per core the reference count and which client objects are in use.\<close>

definition core_sig :: "CpswProxyServer_RemoteCoreObj \<Rightarrow> int \<times> bool list" where
  "core_sig c = (rmRefCnt c, map inUse (clientObj c))"

definition srv_sig :: "'a proxy_st_scheme \<Rightarrow> (int \<times> bool list) list \<times> bool \<times> bool \<times> (nat \<Rightarrow> bool)" where
  "srv_sig s = (map core_sig (coreObj (gProxyServerObj s)), initDone (gProxyServerObj s), hMcmCmdIf (gProxyServerObj s),
     \<lambda>k. mcm_attached k (calls s))"

lemma srv_sig_upd_client:
  assumes "\<And>c. inUse (f c) = inUse c"
  shows "srv_sig (upd_client h f s) = srv_sig s"
proof -
  have *: "(map inUse cs)[i := inUse (f (cs ! i))] = map inUse cs" for cs i
    by (cases "i < length cs") (simp_all add: assms list_update_same_conv list_update_beyond)
  show ?thesis
    by (cases "fst h < length (coreObj (gProxyServerObj s))")
      (simp_all add: srv_sig_def upd_client_def upd_core_def Let_def map_update core_sig_def * list_update_same_conv
        list_update_beyond)
qed

lemma mcm_handler_call: "handler_call c \<Longrightarrow> \<not> is_mcm c"
  by (cases c) simp_all

lemma srv_sig_frames [simp]:
  "\<not> is_mcm c \<Longrightarrow> srv_sig (issue c s) = srv_sig s"
  "srv_sig (fault f s) = srv_sig s"
  "srv_sig (s\<lparr>gEthFwVepaObj := v\<rparr>) = srv_sig s"
  "srv_sig (s\<lparr>gEthFwArpObj := a\<rparr>) = srv_sig s"
  "srv_sig (s\<lparr>gEthFwVlanObj := w\<rparr>) = srv_sig s"
  "srv_sig (s\<lparr>gEthFwMcastObj := m\<rparr>) = srv_sig s"
  "srv_sig (upd_notify fn s) = srv_sig s"
  "srv_sig (CpswProxyServer_saveRxFlowOffset p r off s) = srv_sig s"
  by (simp_all add: srv_sig_def issue_def fault_def upd_notify_def CpswProxyServer_saveRxFlowOffset_def Let_def
      mcm_attached_def split: option.split)

interpretation srv: handler_sig srv_sig
  by unfold_locales (simp_all add: mcm_handler_call srv_sig_upd_client)

section \<open>Balance of the attachments\<close>

text \<open>The reference count of a core is the number of its client objects in use, and MCM holds the core attached
  exactly while that is not 0.\<close>

definition sig_inv :: "nat \<Rightarrow> (int \<times> bool list) list \<times> bool \<times> bool \<times> (nat \<Rightarrow> bool) \<Rightarrow> bool" where
  "sig_inv n = (\<lambda>(cs, i, m, att). i \<and> m \<and> length cs = n \<and>
     (\<forall>k<length cs. fst (cs ! k) = int (length (filter id (snd (cs ! k)))) \<and> (att k \<longleftrightarrow> fst (cs ! k) \<noteq> 0)))"

lemma count_update:
  "i < length us \<Longrightarrow> int (length (filter id (us[i := b]))) = int (length (filter id us)) + (if b then 1 else 0) - (if us ! i then 1 else 0)"
proof (induction us arbitrary: i)
  case (Cons u us)
  show ?case
  proof (cases i)
    case (Suc j)
    with Cons.IH [of j] Cons.prems show ?thesis by (cases u) simp_all
  qed (cases u; cases b; simp)
qed simp

lemma srv_sig_eq:
  "srv_sig s = (cs, i, m, att) \<longleftrightarrow> cs = map core_sig (coreObj (gProxyServerObj s)) \<and> i = initDone (gProxyServerObj s)
     \<and> m = hMcmCmdIf (gProxyServerObj s) \<and> att = (\<lambda>k. mcm_attached k (calls s))"
  by (auto simp: srv_sig_def)

lemma upd_core_simps [simp]:
  "calls (upd_core k f s) = calls s"
  "coreObj (gProxyServerObj (upd_core k f s)) = (coreObj (gProxyServerObj s))[k := f (coreObj (gProxyServerObj s) ! k)]"
  "initDone (gProxyServerObj (upd_core k f s)) = initDone (gProxyServerObj s)"
  "hMcmCmdIf (gProxyServerObj (upd_core k f s)) = hMcmCmdIf (gProxyServerObj s)"
  "csumOffloadEn (gProxyServerObj (upd_core k f s)) = csumOffloadEn (gProxyServerObj s)"
  "virtPortCfg (gProxyServerObj (upd_core k f s)) = virtPortCfg (gProxyServerObj s)"
  "numVirtPorts (gProxyServerObj (upd_core k f s)) = numVirtPorts (gProxyServerObj s)"
  by (simp_all add: upd_core_def Let_def)

lemma proxy_issue [simp]: "gProxyServerObj (issue c s) = gProxyServerObj s"
  by (simp add: issue_def)

lemma core_of_upd [simp]:
  "unat k < length (coreObj (gProxyServerObj s)) \<Longrightarrow>
    core_of k (gProxyServerObj (upd_core (unat k) f s)) = f (core_of k (gProxyServerObj s))"
  by (simp add: core_of_def)

text \<open>Attaching takes a free client object and one reference, whatever it answers.\<close>

lemma sig_attach_core:
  assumes "initDone (gProxyServerObj s)" "unat hostId < length (coreObj (gProxyServerObj s))"
  shows "srv_sig (snd (snd (CpswProxyServer_attachHandlerCb e h hostId port w s))) =
    (case srv_sig s of (cs, i, m, att) \<Rightarrow>
       (cs[unat hostId := (fst (cs ! unat hostId) + 1, snd (cs ! unat hostId))], i, m,
        if fst (cs ! unat hostId) = 0 then att(unat hostId := True) else att))"
proof -
  let ?s = "upd_core (unat hostId) (\<lambda>c. c\<lparr>rmRefCnt := rmRefCnt c + 1\<rparr>) (attach_core e hostId s)"
  have "srv_sig ?s = (case srv_sig s of (cs, i, m, att) \<Rightarrow>
       (cs[unat hostId := (fst (cs ! unat hostId) + 1, snd (cs ! unat hostId))], i, m,
        if fst (cs ! unat hostId) = 0 then att(unat hostId := True) else att))"
    using assms(2)
    by (auto simp: srv_sig_def attach_core_def Let_def map_update core_sig_def core_of_def fun_eq_iff list_update_overwrite)
  then show ?thesis
    using assms(1)
    by (simp add: CpswProxyServer_attachHandlerCb_def CpswProxyServer_getHandle_def Let_def case_prod_beta srv_sig_upd_client)
qed

lemma sig_attachExt:
  "srv_sig (snd (snd (CpswProxyServer_attachExtHandlerCb e h hostId port s))) =
    srv_sig (snd (snd (CpswProxyServer_attachHandlerCb e h hostId port False s)))"
  by (simp add: CpswProxyServer_attachExtHandlerCb_def Let_def case_prod_beta srv_sig_upd_client)

lemma sig_alloc:
  assumes "unat proc < length (coreObj (gProxyServerObj s))"
  shows "case CpswProxyServer_allocClient e proc ep port s of
      (None, s') \<Rightarrow> s' = s \<and> (\<forall>c\<in>set (clientObj (core_of proc (gProxyServerObj s))). inUse c)
    | (Some h, s') \<Rightarrow> \<exists>i. h = (unat proc, i) \<and> i < length (clientObj (core_of proc (gProxyServerObj s)))
        \<and> \<not> inUse (clientObj (core_of proc (gProxyServerObj s)) ! i)
        \<and> srv_sig s' = (case srv_sig s of (cs, b, m, att) \<Rightarrow>
            (cs[unat proc := (fst (cs ! unat proc), (snd (cs ! unat proc))[i := True])], b, m, att))"
proof (cases "first_idx (\<lambda>c. \<not> inUse c) (clientObj (core_of proc (gProxyServerObj s)))")
  case None
  then have "\<forall>c\<in>set (clientObj (core_of proc (gProxyServerObj s))). inUse c" by (simp add: first_idx_None)
  then show ?thesis unfolding CpswProxyServer_allocClient_def None by simp
next
  case (Some i)
  then have "i < length (clientObj (core_of proc (gProxyServerObj s)))" "\<not> inUse (clientObj (core_of proc (gProxyServerObj s)) ! i)"
    by (auto simp: first_idx_Some)
  with assms show ?thesis
    unfolding CpswProxyServer_allocClient_def Some
    by (simp add: srv_sig_def upd_client_def map_update core_sig_def core_of_def)
qed

lemma sig_detach:
  assumes "initDone (gProxyServerObj s)" "hMcmCmdIf (gProxyServerObj s)"
    and "unat proc < length (coreObj (gProxyServerObj s))" "fst h = unat proc"
  shows "srv_sig (CpswProxyServer_freeClient h (snd (CpswProxyServer_detachHandlerCb proc s))) =
    (case srv_sig s of (cs, i, m, att) \<Rightarrow>
       (cs[unat proc := (fst (cs ! unat proc) - 1, (snd (cs ! unat proc))[snd h := False])], i, m,
        if fst (cs ! unat proc) = 1 then att(unat proc := False) else att))"
  using assms
  by (auto simp: srv_sig_def CpswProxyServer_freeClient_def CpswProxyServer_detachHandlerCb_def CpswProxyServer_getHandle_def
      upd_client_def map_update core_sig_def core_of_def Let_def client_zero_def fun_eq_iff)

lemma getClient_SomeD:
  assumes "CpswProxyServer_getClient proc tok ob = Some h"
  shows "fst h = unat proc" "snd h < length (clientObj (core_of proc ob))" "inUse (client_at ob h)" "token (client_at ob h) = tok"
  using assms by (auto simp: CpswProxyServer_getClient_def first_idx_Some client_at_def core_of_def)

lemma sig_inv_attach:
  assumes "sig_inv n (cs, i, m, att)" "k < length cs" "j < length (snd (cs ! k))" "\<not> snd (cs ! k) ! j"
  shows "sig_inv n (cs[k := (fst (cs ! k) + 1, (snd (cs ! k))[j := True])], i, m,
    if fst (cs ! k) = 0 then att(k := True) else att)"
  using assms count_update [of j "snd (cs ! k)" True]
  by (auto simp: sig_inv_def nth_list_update)

lemma sig_inv_detach:
  assumes "sig_inv n (cs, i, m, att)" "k < length cs" "j < length (snd (cs ! k))" "snd (cs ! k) ! j"
  shows "sig_inv n (cs[k := (fst (cs ! k) - 1, (snd (cs ! k))[j := False])], i, m,
    if fst (cs ! k) = 1 then att(k := False) else att)"
  using assms count_update [of j "snd (cs ! k)" False]
  by (auto simp: sig_inv_def nth_list_update)

lemma srv_sig_len: "srv_sig s = (cs, i, m, att) \<Longrightarrow> length (coreObj (gProxyServerObj s)) = length cs"
  by (auto simp: srv_sig_def)

lemma core_sig_at:
  "srv_sig s = (cs, i, m, att) \<Longrightarrow> unat k < length cs \<Longrightarrow> snd (cs ! unat k) = map inUse (clientObj (core_of k (gProxyServerObj s)))"
  by (auto simp: srv_sig_def core_sig_def core_of_def)

lemma inv_attach_steps:
  assumes inv: "sig_inv n (srv_sig s)" and k: "unat proc < length (coreObj (gProxyServerObj s))"
    and al: "CpswProxyServer_allocClient e proc ep port s = (Some h, s1)"
  shows "sig_inv n (srv_sig (snd (snd (CpswProxyServer_attachHandlerCb e h proc port w s1))))
    \<and> length (coreObj (gProxyServerObj s1)) = length (coreObj (gProxyServerObj s))"
proof -
  obtain cs b m att where sig: "srv_sig s = (cs, b, m, att)" by (metis prod_cases4)
  have k': "unat proc < length cs" using k srv_sig_len [OF sig] by simp
  obtain i where i: "i < length (snd (cs ! unat proc))" "\<not> snd (cs ! unat proc) ! i"
    and s1: "srv_sig s1 = (cs[unat proc := (fst (cs ! unat proc), (snd (cs ! unat proc))[i := True])], b, m, att)"
    using sig_alloc [OF k, of e ep port] core_sig_at [OF sig k'] by (auto simp: al sig)
  have "initDone (gProxyServerObj s1)" "unat proc < length (coreObj (gProxyServerObj s1))"
    using s1 inv k' srv_sig_len [OF s1] by (auto simp: srv_sig_eq sig sig_inv_def)
  from sig_attach_core [OF this, of e h port w] sig_inv_attach [OF inv [unfolded sig] k' i]
  show ?thesis using s1 k' srv_sig_len [OF s1] srv_sig_len [OF sig] by simp
qed

lemma inv_cmd_attach:
  assumes "sig_inv n (srv_sig s)" "unat proc < length (coreObj (gProxyServerObj s))"
  shows "sig_inv n (srv_sig (snd (snd (snd (cmd_attach e clId proc ep tok port s)))))"
    and "sig_inv n (srv_sig (snd (snd (snd (cmd_attach_ext e clId proc ep tok port s)))))"
proof -
  obtain r s1 where al: "CpswProxyServer_allocClient e proc ep port s = (r, s1)" by fastforce
  have no: "r = None \<Longrightarrow> s1 = s" using sig_alloc [OF assms(2), of e ep port] al by simp
  show "sig_inv n (srv_sig (snd (snd (snd (cmd_attach e clId proc ep tok port s)))))"
    using inv_attach_steps [OF assms, of e ep port] no assms(1)
    by (cases r) (auto simp: cmd_attach_def al Let_def case_prod_beta srv_sig_upd_client)
  show "sig_inv n (srv_sig (snd (snd (snd (cmd_attach_ext e clId proc ep tok port s)))))"
    using inv_attach_steps [OF assms, of e ep port] no assms(1)
    by (cases r) (auto simp: cmd_attach_ext_def al Let_def case_prod_beta srv_sig_upd_client sig_attachExt)
qed

lemma inv_cmd_detach:
  assumes inv: "sig_inv n (srv_sig s)" and k: "unat proc < length (coreObj (gProxyServerObj s))"
  shows "sig_inv n (srv_sig (snd (snd (cmd_detach proc tok s))))"
proof (cases "CpswProxyServer_getClient proc tok (gProxyServerObj s)")
  case None
  then show ?thesis using inv by (simp add: cmd_detach_def)
next
  case (Some h)
  note h = getClient_SomeD [OF Some]
  obtain cs b m att where sig: "srv_sig s = (cs, b, m, att)" by (metis prod_cases4)
  have k': "unat proc < length cs" using k srv_sig_len [OF sig] by simp
  have on: "initDone (gProxyServerObj s)" "hMcmCmdIf (gProxyServerObj s)"
    using inv sig by (auto simp: sig_inv_def srv_sig_eq)
  have i: "snd h < length (snd (cs ! unat proc))" "snd (cs ! unat proc) ! snd h"
    using h core_sig_at [OF sig k'] by (auto simp: client_at_def core_of_def)
  have "srv_sig (snd (snd (cmd_detach proc tok s))) =
      (cs[unat proc := (fst (cs ! unat proc) - 1, (snd (cs ! unat proc))[snd h := False])], b, m,
       if fst (cs ! unat proc) = 1 then att(unat proc := False) else att)"
    using sig_detach [OF on k h(1)] by (simp add: cmd_detach_def Some sig case_prod_beta Let_def)
  with sig_inv_detach [OF inv [unfolded sig] k' i] show ?thesis by simp
qed

lemma run_cmd_inv:
  assumes "sig_inv n (srv_sig s)" "unat proc < length (coreObj (gProxyServerObj s))"
  shows "sig_inv n (srv_sig (snd (snd (snd (run_cmd e clId proc ep req s)))))"
proof -
  have "sig_inv n (srv_sig (snd (snd (handle_cmd e clId proc tok cmd s))))" for tok cmd
    using assms srv.sig_handle_cmd [of cmd e clId proc tok s] inv_cmd_detach [OF assms]
    by (cases "cmd = CMD_DETACH") (simp_all add: handle_cmd_defs)
  with inv_cmd_attach [OF assms] show ?thesis
    by (cases "rqCmd req") (simp_all add: run_cmd_def case_prod_beta)
qed

text \<open>A run of requests: the client's id, its core and end point, the server's end point, the request.\<close>

type_synonym request = "u8 \<times> u32 \<times> u32 \<times> u32 \<times> EthRemoteCfg_Req"

definition serve :: "env \<Rightarrow> request \<Rightarrow> 'a proxy_st_scheme \<Rightarrow> 'a proxy_st_scheme" where
  "serve e = (\<lambda>(clId, proc, ep, localEp, req) s. snd (CpswProxyServer_clientRequestHandler e clId proc ep localEp req s))"

abbreviation rq_core :: "request \<Rightarrow> u32" where
  "rq_core r \<equiv> fst (snd r)"

lemma serve_sig:
  "srv_sig (serve e (clId, proc, ep, localEp, req) s) = srv_sig (snd (snd (snd (run_cmd e clId proc ep req s))))"
  by (simp add: serve_def CpswProxyServer_clientRequestHandler_def Let_def case_prod_beta)

lemma serve_inv:
  assumes "sig_inv n (srv_sig s)" "\<forall>r\<in>set rs. unat (rq_core r) < n"
  shows "sig_inv n (srv_sig (fold (serve e) rs s))"
  using assms
proof (induction rs arbitrary: s)
  case (Cons r rs)
  obtain clId proc ep localEp req where r: "r = (clId, proc, ep, localEp, req)" by (metis prod_cases5)
  have "length (coreObj (gProxyServerObj s)) = n"
    using Cons.prems(1) by (simp add: sig_inv_def srv_sig_def)
  then have "sig_inv n (srv_sig (serve e r s))"
    using run_cmd_inv [OF Cons.prems(1)] Cons.prems(2) by (simp add: r serve_sig)
  with Cons show ?case by simp
qed simp

definition in_use :: "CpswProxyServer_RemoteCoreObj \<Rightarrow> nat" where
  "in_use c = length (filter inUse (clientObj c))"

text \<open>The server is up, no core is attached and no client object is in use.\<close>

definition server_idle :: "nat \<Rightarrow> 'a proxy_st_scheme \<Rightarrow> bool" where
  "server_idle n s \<longleftrightarrow> initDone (gProxyServerObj s) \<and> hMcmCmdIf (gProxyServerObj s) \<and> length (coreObj (gProxyServerObj s)) = n
     \<and> (\<forall>c\<in>set (coreObj (gProxyServerObj s)). rmRefCnt c = 0 \<and> (\<forall>x\<in>set (clientObj c). \<not> inUse x))
     \<and> (\<forall>k. \<not> mcm_attached k (calls s))"

lemma server_idle_inv: "server_idle n s \<Longrightarrow> sig_inv n (srv_sig s)"
  by (auto simp: server_idle_def sig_inv_def srv_sig_def core_sig_def filter_map comp_def filter_empty_conv)

text \<open>Property C4 (invariant).  From an idle server, after any requests of any cores, whatever the resource manager
  and the drivers answer: the reference count of a core is the number of its client objects in use,
  and MCM holds the core attached exactly while there is one.\<close>

theorem proxy_mcm_balance:
  assumes "server_idle n s" "\<forall>r\<in>set rs. unat (rq_core r) < n" "k < n"
  shows "let s' = fold (serve e) rs s; c = coreObj (gProxyServerObj s') ! k
    in rmRefCnt c = int (in_use c) \<and> (mcm_attached k (calls s') \<longleftrightarrow> in_use c \<noteq> 0)"
proof -
  have "sig_inv n (srv_sig (fold (serve e) rs s))"
    by (rule serve_inv [OF server_idle_inv [OF assms(1)] assms(2)])
  moreover have "in_use c = length (filter id (map inUse (clientObj c)))" for c :: CpswProxyServer_RemoteCoreObj
    by (simp add: in_use_def filter_map comp_def)
  ultimately show ?thesis
    using assms(3) by (auto simp: sig_inv_def srv_sig_def core_sig_def Let_def)
qed

section \<open>A concrete server\<close>

definition flow_free :: EthFwQos_RxFlowInfo where
  "flow_free = \<lparr>rxFlowIdxOffset = CPSWPROXY_CLIENT_INVALID_FLOW_IDX_OFFSET, customPolicersInArgs = []\<rparr>"

text \<open>Switch port 25 for core 1, with two flows, one with a policer; MAC port 1 for core 2.\<close>

definition demo_ports :: "EthFwVirtPort_VirtPortCfg list" where
  "demo_ports =
     [\<lparr>portId = 25, vpRemoteCoreId = 1, numTxCh = 1, txCh = [4, 0], numRxFlow = 2,
       rxFlowsInfo = [flow_free\<lparr>customPolicersInArgs := [0]\<rparr>, flow_free], clientIdMask = 4, endPointId = 40, vpNumMacAddress = 1\<rparr>,
      \<lparr>portId = 1, vpRemoteCoreId = 2, numTxCh = 1, txCh = [5, 0], numRxFlow = 1,
       rxFlowsInfo = [flow_free, flow_free], clientIdMask = 4, endPointId = 41, vpNumMacAddress = 1\<rparr>]"

definition demo_server :: CpswProxyServer_Obj where
  "demo_server =
     \<lparr>initDone = True, hMcmCmdIf = True, ethDrvObj = [], clientServiceObj = \<lparr>csHandle = True, csLocalEp = 34,
        rpmsgStartSem = Some 1, csTask = True\<rparr>,
      notifyServiceObj = \<lparr>hwPush2CoreIdMap = replicate 8 3, dstProcMask = 0, nsLocalEp = 24,
        nsHandle = True, nsEvent = True, hwPushNotifyEventId = map (\<lambda>i. ETHFW_BIT (of_nat i)) [0..<8], nsTask = True\<rparr>,
      srvDfltVlanIdMacOnlyPorts = 0, srvDfltVlanIdSwitchPorts = 3,
      coreObj = replicate 3 \<lparr>rmRefCnt = 0, attachInfo = \<lparr>coreKey = 0, aiRxMtu = 0, aiTxMtu = []\<rparr>,
                             clientObj = replicate CPSWPROXYSERVER_VIRTPORT_PER_CLIENT_MAX client_zero\<rparr>,
      csumOffloadEn = True, virtPortCfg = demo_ports, numVirtPorts = 2, srvEnetType = 2, srvInstId = 0, masterCoreId = 3,
      alePortMask = 3, aleMacOnlyPortMask = 1, aleSwitchOnlyPortMask = 2, srvHEnet = True, srvMutex = True, numAsrVirtPorts = 0\<rparr>"

definition proxy_demo :: proxy_st where
  "proxy_demo = \<lparr>calls = [], faults = [], gEthFwArpObj = gEthFwArpObj arp_demo, gEthFwVepaObj = gEthFwVepaObj vepa_demo2,
     gEthFwMcastObj = mcast_zero, gEthFwVlanObj = vlan_zero, gProxyServerObj = demo_server, serverStatus = 1\<rparr>"

text \<open>Every call succeeds, with output words 7.\<close>

definition srv_env :: env where
  "srv_env = ok_env\<lparr>word_of := \<lambda>_ _ _. 7\<rparr>"

lemma srv_env_simps [simp]:
  "status_of srv_env h c = ETHFW_SOK" "word_of srv_env h c i = 7"
  by (simp_all add: srv_env_def)

lemma lib_spec_srv_env [simp]: "lib_spec srv_env"
  by (simp add: lib_spec_def srv_env_def ok_env_def)

lemma demo_idle: "server_idle 3 proxy_demo"
  by (simp add: server_idle_def proxy_demo_def demo_server_def client_zero_def mcm_attached_def
      CPSWPROXYSERVER_VIRTPORT_PER_CLIENT_MAX_def)

theorem proxy_mcm_balance_witness:
  "let s' = fold (serve srv_env) [(2, 1, 40, 34, \<lparr>rqToken = 0, rqId = 1, rqCmd = CMD_ATTACH 25\<rparr>)] proxy_demo;
       c = coreObj (gProxyServerObj s') ! 1
   in rmRefCnt c = int (in_use c) \<and> (mcm_attached 1 (calls s') \<longleftrightarrow> in_use c \<noteq> 0)"
  by (rule proxy_mcm_balance [OF demo_idle]) simp_all

section \<open>Requests and responses\<close>

fun needs_client :: "EthRemoteCfg_Cmd \<Rightarrow> bool" where
  "needs_client CMD_VIRT_PORT_INFO = False"
| "needs_client (CMD_ATTACH p) = False"
| "needs_client (CMD_ATTACH_EXT p) = False"
| "needs_client (CMD_REGISTER_REMOTE_TIMER n t) = False"
| "needs_client (CMD_DEREGISTER_REMOTE_TIMER n) = False"
| "needs_client CMD_GET_SERVER_STATUS = False"
| "needs_client (CMD_UNKNOWN n) = False"
| "needs_client cmd = True"

definition reply_call :: "u32 \<Rightarrow> u32 \<Rightarrow> u32 \<Rightarrow> EthRemoteCfg_Res \<Rightarrow> call" where
  "reply_call proc ep localEp res = Ipc_sendRpmsg proc ep localEp
     [rsToken res, rsClientId res, ETHREMOTECFG_MSGTYPE_RESPONSE, rsType res, rsId res, of_int (rsStatus res)]"

lemma no_client_cmd:
  assumes "needs_client cmd" "CpswProxyServer_getClient proc tok (gProxyServerObj s) = None"
  shows "\<exists>p. handle_cmd e clId proc tok cmd s = ((if cmd = CMD_DETACH then ETHFW_EINVALIDPARAMS else ETHFW_EFAIL), p, s)"
  using assms
  by (cases cmd) (simp_all add: handle_cmd_defs with_client_def cmd_detach_def cmd_alloc_tx_def cmd_alloc_rx_def)

text \<open>The responses among the calls of a run.\<close>

fun is_response :: "call \<Rightarrow> bool" where
  "is_response (Ipc_sendRpmsg k i j ws) = (2 < length ws \<and> ws ! 2 = ETHREMOTECFG_MSGTYPE_RESPONSE)"
| "is_response c = False"

definition responses :: "'a proxy_st_scheme \<Rightarrow> call list" where
  "responses s = filter is_response (calls s)"

lemma handler_no_response: "handler_call c \<Longrightarrow> \<not> is_response c" "is_mcm c \<Longrightarrow> \<not> is_response c"
  by (cases c; simp)+

lemma responses_frames [simp]:
  "\<not> is_response c \<Longrightarrow> responses (issue c s) = responses s"
  "is_response c \<Longrightarrow> responses (issue c s) = responses s @ [c]"
  "responses (fault f s) = responses s"
  "responses (upd_client h g s) = responses s"
  "responses (upd_core k g2 s) = responses s"
  by (simp_all add: responses_def issue_def fault_def upd_client_def upd_core_def Let_def)

interpretation rsp: handler_sig responses
  by unfold_locales
    (simp_all add: handler_no_response, simp_all add: responses_def upd_notify_def CpswProxyServer_saveRxFlowOffset_def Let_def
      split: option.split)

lemma responses_attach_core [simp]: "responses (attach_core e k s) = responses s"
  by (simp add: attach_core_def Let_def)

lemma responses_attach [simp]: "responses (snd (snd (CpswProxyServer_attachHandlerCb e h k port w s))) = responses s"
  by (simp add: CpswProxyServer_attachHandlerCb_def Let_def case_prod_beta)

lemma responses_attachExt [simp]: "responses (snd (snd (CpswProxyServer_attachExtHandlerCb e h k port s))) = responses s"
  by (simp add: CpswProxyServer_attachExtHandlerCb_def Let_def case_prod_beta)

lemma responses_alloc [simp]: "responses (snd (CpswProxyServer_allocClient e k ep port s)) = responses s"
  by (simp add: CpswProxyServer_allocClient_def split: option.split)

lemma responses_detach [simp]:
  "responses (snd (CpswProxyServer_detachHandlerCb k s)) = responses s"
  "responses (CpswProxyServer_freeClient h s) = responses s"
  by (simp_all add: CpswProxyServer_detachHandlerCb_def CpswProxyServer_freeClient_def Let_def)

lemma responses_run: "responses (snd (snd (snd (run_cmd e clId proc ep req s)))) = responses s"
proof -
  have "responses (snd (snd (cmd_detach proc tok s))) = responses s" for tok
    by (simp add: cmd_detach_def Let_def case_prod_beta split: option.split)
  then have "responses (snd (snd (handle_cmd e clId proc tok cmd s))) = responses s" for tok cmd
    using rsp.sig_handle_cmd [of cmd e clId proc tok s] by (cases "cmd = CMD_DETACH") (simp_all add: handle_cmd_defs)
  moreover have "responses (snd (snd (snd (cmd_attach e clId proc ep tok port s)))) = responses s"
    "responses (snd (snd (snd (cmd_attach_ext e clId proc ep tok port s)))) = responses s" for tok port
    using responses_alloc [of e proc ep port s]
    by (simp_all add: cmd_attach_def cmd_attach_ext_def Let_def case_prod_beta del: responses_alloc split: option.split prod.split)
  ultimately show ?thesis by (cases "rqCmd req") (simp_all add: run_cmd_def case_prod_beta)
qed



section \<open>Attaching\<close>

abbreviation clients :: "u32 \<Rightarrow> 'a proxy_st_scheme \<Rightarrow> CpswProxyServer_ClientObj list" where
  "clients proc s \<equiv> clientObj (core_of proc (gProxyServerObj s))"

lemma clients_issue [simp]: "clients proc (issue c s) = clients proc s"
  by simp

lemma clients_upd [simp]:
  "unat proc < length (coreObj (gProxyServerObj s)) \<Longrightarrow>
    clients proc (upd_client (unat proc, i) f s) = (clients proc s)[i := f (clients proc s ! i)]"
  by (simp add: upd_client_def core_of_def)

lemma length_cores [simp]:
  "length (coreObj (gProxyServerObj (upd_client h f s))) = length (coreObj (gProxyServerObj s))"
  "initDone (gProxyServerObj (upd_client h f s)) = initDone (gProxyServerObj s)"
  by (simp_all add: upd_client_def)

lemma attach_core_frame [simp]:
  "unat proc < length (coreObj (gProxyServerObj s)) \<Longrightarrow> clients proc (attach_core e proc s) = clients proc s"
  "length (coreObj (gProxyServerObj (attach_core e k s))) = length (coreObj (gProxyServerObj s))"
  "numVirtPorts (gProxyServerObj (attach_core e k s)) = numVirtPorts (gProxyServerObj s)"
  "virtPortCfg (gProxyServerObj (attach_core e k s)) = virtPortCfg (gProxyServerObj s)"
  "initDone (gProxyServerObj (attach_core e k s)) = initDone (gProxyServerObj s)"
  by (simp_all add: attach_core_def Let_def)

definition mtu_ok :: "env \<Rightarrow> u32 \<Rightarrow> 'a proxy_st_scheme \<Rightarrow> bool" where
  "mtu_ok e proc s \<longleftrightarrow> (let t = aiTxMtu (attachInfo (core_of proc (gProxyServerObj (attach_core e proc s)))) in \<forall>m\<in>set t. m = hd t)"

lemma attachHandler_eff:
  assumes "initDone (gProxyServerObj s)" "unat proc < length (coreObj (gProxyServerObj s))"
  shows "let (st, (rx, tx, nums), s') = CpswProxyServer_attachHandlerCb e (unat proc, i) proc port w s
    in (st = ETHFW_SOK \<longleftrightarrow> mtu_ok e proc s) \<and> length (coreObj (gProxyServerObj s')) = length (coreObj (gProxyServerObj s))
     \<and> initDone (gProxyServerObj s')
     \<and> (mtu_ok e proc s \<longrightarrow> nums = (if w then snd (CpswProxyServer_getClientTxChRxFlowNum port (gProxyServerObj s)) else None))
     \<and> (\<exists>f. clients proc s' = (if mtu_ok e proc s then (clients proc s)[i := (clients proc s ! i)
              \<lparr>token := CPSWPROXY_VIRTPORT_2_TOKEN port, clCoreId := proc, features := f\<rparr>] else clients proc s))"
proof -
  have cfg: "CpswProxyServer_getClientTxChRxFlowNum port (gProxyServerObj (upd_core k g (attach_core e proc s)))
      = CpswProxyServer_getClientTxChRxFlowNum port (gProxyServerObj s)" for k g
    using assms(1) by (simp add: CpswProxyServer_getClientTxChRxFlowNum_def port_cfg_def CpswProxyServer_getHandle_def split: option.split)
  have "fst (CpswProxyServer_getClientTxChRxFlowNum port (gProxyServerObj s)) = ETHFW_SOK"
    using assms(1) by (simp add: CpswProxyServer_getClientTxChRxFlowNum_def CpswProxyServer_getHandle_def split: option.split)
  with assms cfg show ?thesis
    by (auto simp: CpswProxyServer_attachHandlerCb_def CpswProxyServer_getHandle_def mtu_ok_def Let_def case_prod_beta)
qed

lemma attachExt_mono:
  "fst (CpswProxyServer_attachHandlerCb e h proc port False s) \<noteq> ETHFW_SOK \<Longrightarrow>
    snd (snd (CpswProxyServer_attachExtHandlerCb e h proc port s)) = snd (snd (CpswProxyServer_attachHandlerCb e h proc port False s))"
  by (simp add: CpswProxyServer_attachExtHandlerCb_def Let_def case_prod_beta)

lemma in_use_map: "in_use c = length (filter id (map inUse (clientObj c)))"
  by (simp add: in_use_def filter_map comp_def)

lemma alloc_attach_in_use:
  fixes s s2 :: "'a proxy_st_scheme"
  assumes on: "initDone (gProxyServerObj s)" and k: "unat proc < length (coreObj (gProxyServerObj s))"
    and al: "CpswProxyServer_allocClient e proc ep port s = (Some h, s1)"
    and sig: "srv_sig s2 = srv_sig (snd (snd (CpswProxyServer_attachHandlerCb e h proc port w s1)))"
  shows "in_use (core_of proc (gProxyServerObj s2)) = Suc (in_use (core_of proc (gProxyServerObj s)))
     \<and> rmRefCnt (core_of proc (gProxyServerObj s2)) = rmRefCnt (core_of proc (gProxyServerObj s)) + 1"
proof -
  obtain cs b m att where sg: "srv_sig s = (cs, b, m, att)" by (metis prod_cases4)
  have k': "unat proc < length cs" using k srv_sig_len [OF sg] by simp
  obtain i where i: "i < length (snd (cs ! unat proc))" "\<not> snd (cs ! unat proc) ! i"
    and s1: "srv_sig s1 = (cs[unat proc := (fst (cs ! unat proc), (snd (cs ! unat proc))[i := True])], b, m, att)"
    using sig_alloc [OF k, of e ep port] core_sig_at [OF sg k'] by (auto simp: al sg)
  have on1: "initDone (gProxyServerObj s1)" using s1 on sg by (auto simp: srv_sig_eq)
  have "unat proc < length (coreObj (gProxyServerObj s1))" using k' srv_sig_len [OF s1] by simp
  from sig_attach_core [OF on1 this, of e h port w] s1 k'
  have s2: "srv_sig s2 = (cs[unat proc := (fst (cs ! unat proc) + 1, (snd (cs ! unat proc))[i := True])], b, m,
      if fst (cs ! unat proc) = 0 then att(unat proc := True) else att)"
    by (simp add: sig)
  have at: "core_sig (core_of proc (gProxyServerObj x)) = fst (srv_sig x) ! unat proc"
    if "unat proc < length (coreObj (gProxyServerObj x))" for x :: "'a proxy_st_scheme"
    using that by (simp add: srv_sig_def core_of_def)
  have "core_sig (core_of proc (gProxyServerObj s2)) = (fst (cs ! unat proc) + 1, (snd (cs ! unat proc))[i := True])"
    using at [of s2] srv_sig_len [OF s2] k' s2 by simp
  moreover have "core_sig (core_of proc (gProxyServerObj s)) = cs ! unat proc"
    using at [OF k] sg by simp
  ultimately show ?thesis
    using count_update [OF i(1), of True] i(2)
    by (cases "cs ! unat proc") (auto simp: core_sig_def in_use_map filter_map comp_def)
qed

text \<open>An attach takes one of its core's client objects and one reference of the core even when it fails,
  and only when no object is free is it refused with \<open>EALLOC\<close> and without a change.  So a core's
  failed attaches use up its client objects.\<close>

theorem proxy_attach_slots:
  fixes s :: "'a proxy_st_scheme"
  assumes "initDone (gProxyServerObj s)" "unat proc < length (coreObj (gProxyServerObj s))" "cmd = CMD_ATTACH port \<or> cmd = CMD_ATTACH_EXT port"
  shows "let (res, s') = CpswProxyServer_clientRequestHandler e clId proc ep localEp \<lparr>rqToken = tok, rqId = n, rqCmd = cmd\<rparr> s;
      c = core_of proc (gProxyServerObj s); c' = core_of proc (gProxyServerObj s')
    in if in_use c = length (clientObj c)
       then rsStatus res = ETHFW_EALLOC \<and> rsToken res = tok \<and> gProxyServerObj s' = gProxyServerObj s
       else in_use c' = Suc (in_use c) \<and> rmRefCnt c' = rmRefCnt c + 1"
proof -
  obtain r s1 where al: "CpswProxyServer_allocClient e proc ep port s = (r, s1)" by fastforce
  have len: "in_use c = length (clientObj c) \<longleftrightarrow> (\<forall>x\<in>set (clientObj c). inUse x)" for c :: CpswProxyServer_RemoteCoreObj
    unfolding in_use_def by (metis filter_True length_filter_less less_irrefl)
  show ?thesis
  proof (cases r)
    case None
    then have "s1 = s" "\<forall>x\<in>set (clients proc s). inUse x" using sig_alloc [OF assms(2), of e ep port] al by auto
    with assms(3) None al show ?thesis
      unfolding len
      by (auto simp: CpswProxyServer_clientRequestHandler_def run_cmd_def cmd_attach_def cmd_attach_ext_def Let_def)
  next
    case (Some h)
    then have "\<not> (\<forall>x\<in>set (clients proc s). inUse x)"
      using sig_alloc [OF assms(2), of e ep port] al by (auto intro!: bexI [OF _ nth_mem])
    moreover have "in_use (core_of proc (gProxyServerObj s2)) = Suc (in_use (core_of proc (gProxyServerObj s)))
       \<and> rmRefCnt (core_of proc (gProxyServerObj s2)) = rmRefCnt (core_of proc (gProxyServerObj s)) + 1"
      if "srv_sig s2 = srv_sig (snd (snd (CpswProxyServer_attachHandlerCb e h proc port w s1)))" for w and s2 :: "'a proxy_st_scheme"
      using alloc_attach_in_use [OF assms(1,2) al [unfolded Some] that] .
    ultimately show ?thesis
      using assms(3) Some al unfolding len
      by (auto simp: CpswProxyServer_clientRequestHandler_def run_cmd_def cmd_attach_def cmd_attach_ext_def Let_def case_prod_beta
          srv_sig_upd_client sig_attachExt)
  qed
qed

lemma first_idx_new:
  "\<forall>c\<in>set xs. \<not> P c \<Longrightarrow> i < length xs \<Longrightarrow> P x \<Longrightarrow> first_idx P (xs[i := x]) = Some i"
  by (induction xs arbitrary: i) (auto split: nat.split)

lemma first_idx_same:
  "i < length xs \<Longrightarrow> P (xs ! i) = P x \<Longrightarrow> first_idx P (xs[i := x]) = first_idx P xs"
  by (induction xs arbitrary: i) (auto split: nat.split)

lemma mtu_ok_upd_client:
  "unat proc < length (coreObj (gProxyServerObj s)) \<Longrightarrow> mtu_ok e proc (upd_client (unat proc, i) f s) = mtu_ok e proc s"
  by (simp add: mtu_ok_def attach_core_def upd_client_def Let_def)

lemma cmd_attach_clients:
  assumes on: "initDone (gProxyServerObj s)" and k: "unat proc < length (coreObj (gProxyServerObj s))"
    and i: "first_idx (\<lambda>c. \<not> inUse c) (clients proc s) = Some i"
  shows "let (st, tok', p, s') = cmd_attach e clId proc ep tok port s
    in (st = ETHFW_SOK \<longleftrightarrow> mtu_ok e proc s)
     \<and> tok' = (if mtu_ok e proc s then CPSWPROXY_VIRTPORT_2_TOKEN port else ETHREMOTECFG_TOKEN_NONE)
     \<and> (mtu_ok e proc s \<longrightarrow> (\<exists>rx tx. p = AttachRes rx tx (snd (CpswProxyServer_getClientTxChRxFlowNum port (gProxyServerObj s)))))
     \<and> length (coreObj (gProxyServerObj s')) = length (coreObj (gProxyServerObj s)) \<and> initDone (gProxyServerObj s')
     \<and> (\<exists>x. clients proc s' = (clients proc s)[i := x] \<and> inUse x \<and> virtPort x = port \<and> clRemoteEp x = ep
            \<and> clientId x = ucast clId \<and> token x = tok')"
proof -
  let ?g = "\<lambda>c. c\<lparr>inUse := True, virtPort := port, token := ETHREMOTECFG_TOKEN_NONE, clRemoteEp := ep,
                    isIdle := False, vlanRefCnt := (if vepaSupport e then 0 else vlanRefCnt c)\<rparr>"
  let ?s1 = "upd_client (unat proc, i) ?g s"
  have al: "CpswProxyServer_allocClient e proc ep port s = (Some (unat proc, i), ?s1)"
    unfolding CpswProxyServer_allocClient_def i by simp
  have len: "i < length (clients proc s)" using i by (simp add: first_idx_Some)
  have cfg: "CpswProxyServer_getClientTxChRxFlowNum port (gProxyServerObj ?s1) = CpswProxyServer_getClientTxChRxFlowNum port (gProxyServerObj s)"
    using on by (simp add: CpswProxyServer_getClientTxChRxFlowNum_def port_cfg_def CpswProxyServer_getHandle_def upd_client_def split: option.split)
  have at: "client_at (gProxyServerObj s') (unat proc, i) = clients proc s' ! i" for s' :: "'a proxy_st_scheme"
    by (simp add: client_at_def core_of_def)
  have "initDone (gProxyServerObj ?s1)" "unat proc < length (coreObj (gProxyServerObj ?s1))" using on k by simp_all
  note eff = attachHandler_eff [OF this, of e i port True, unfolded mtu_ok_upd_client [OF k] cfg, unfolded Let_def case_prod_beta]
  show ?thesis
    using eff k len
    by (cases "mtu_ok e proc s") (auto simp: cmd_attach_def al at Let_def case_prod_beta)
qed

lemma request_attach:
  assumes "rqCmd req = CMD_ATTACH port"
  shows "CpswProxyServer_clientRequestHandler e clId proc ep localEp req s =
    (let (st, tok', p, s') = cmd_attach e clId proc ep (rqToken req) port s;
         res = \<lparr>rsToken = tok', rsClientId = ucast clId, rsType = 1, rsId = rqId req, rsStatus = st, rsPayload = p\<rparr>
     in (res, issue (reply_call proc ep localEp res) s'))"
  by (simp add: CpswProxyServer_clientRequestHandler_def run_cmd_def assms reply_call_def Let_def case_prod_beta)

lemma request_cmd:
  assumes "\<forall>p. rqCmd req \<noteq> CMD_ATTACH p \<and> rqCmd req \<noteq> CMD_ATTACH_EXT p"
  shows "CpswProxyServer_clientRequestHandler e clId proc ep localEp req s =
    (let (st, p, s') = handle_cmd e clId proc (rqToken req) (rqCmd req) s;
         res = \<lparr>rsToken = rqToken req, rsClientId = ucast clId, rsType = EthRemoteCfg_CmdType (rqCmd req), rsId = rqId req,
                rsStatus = st, rsPayload = p\<rparr>
     in (res, issue (reply_call proc ep localEp res) s'))"
  using assms by (cases "rqCmd req")
    (simp_all add: CpswProxyServer_clientRequestHandler_def run_cmd_def reply_call_def Let_def case_prod_beta)

lemma detach_clients:
  assumes "initDone (gProxyServerObj s)" "unat proc < length (coreObj (gProxyServerObj s))"
  shows "clients proc (CpswProxyServer_freeClient (unat proc, i) (snd (CpswProxyServer_detachHandlerCb proc s))) =
    (clients proc s)[i := client_zero\<lparr>token := ETHREMOTECFG_TOKEN_NONE\<rparr>]"
  using assms
  by (simp add: CpswProxyServer_freeClient_def CpswProxyServer_detachHandlerCb_def CpswProxyServer_getHandle_def Let_def
      client_zero_def)

lemma getClient_clients:
  "CpswProxyServer_getClient proc tok (gProxyServerObj s) =
     map_option (Pair (unat proc)) (first_idx (\<lambda>c. inUse c \<and> token c = tok) (clients proc s))"
  by (simp add: CpswProxyServer_getClient_def)

text \<open>What a successful attach and the detach that follows do to the client objects of the core.\<close>

lemma attach_token_clients:
  assumes on: "initDone (gProxyServerObj s)" "unat proc < length (coreObj (gProxyServerObj s))"
    and free: "CpswProxyServer_getClient proc (CPSWPROXY_VIRTPORT_2_TOKEN port) (gProxyServerObj s) = None"
    and i: "first_idx (\<lambda>c. \<not> inUse c) (clients proc s) = Some i"
    and r: "cmd_attach e clId proc ep tok port s = (ETHFW_SOK, tok', p, s1)"
  obtains x where "clients proc s1 = (clients proc s)[i := x]" "i < length (clients proc s)" "inUse x" "virtPort x = port"
    "clRemoteEp x = ep" "clientId x = ucast clId" "token x = CPSWPROXY_VIRTPORT_2_TOKEN port"
    "tok' = CPSWPROXY_VIRTPORT_2_TOKEN port"
    "length (coreObj (gProxyServerObj s1)) = length (coreObj (gProxyServerObj s))" "initDone (gProxyServerObj s1)"
    "first_idx (\<lambda>c. inUse c \<and> token c = CPSWPROXY_VIRTPORT_2_TOKEN port) (clients proc s1) = Some i"
    "\<And>t'. t' \<noteq> CPSWPROXY_VIRTPORT_2_TOKEN port \<Longrightarrow>
      first_idx (\<lambda>c. inUse c \<and> token c = t') (clients proc s1) = first_idx (\<lambda>c. inUse c \<and> token c = t') (clients proc s)"
    "first_idx (\<lambda>c. inUse c \<and> token c = CPSWPROXY_VIRTPORT_2_TOKEN port)
      ((clients proc s1)[i := client_zero\<lparr>token := ETHREMOTECFG_TOKEN_NONE\<rparr>]) = None"
proof -
  let ?t = "CPSWPROXY_VIRTPORT_2_TOKEN port" and ?P = "\<lambda>t c. inUse c \<and> token c = t"
  note eff = cmd_attach_clients [OF on i, of e clId ep tok port, unfolded r Let_def prod.case]
  from eff obtain x where x: "clients proc s1 = (clients proc s)[i := x]" "inUse x" "virtPort x = port"
    "clRemoteEp x = ep" "clientId x = ucast clId" "token x = ?t" and tok': "tok' = ?t"
    and s1: "length (coreObj (gProxyServerObj s1)) = length (coreObj (gProxyServerObj s))" "initDone (gProxyServerObj s1)"
    by auto
  have len: "i < length (clients proc s)" "\<not> inUse (clients proc s ! i)" using i by (auto simp: first_idx_Some)
  have none: "\<forall>c\<in>set (clients proc s). \<not> ?P ?t c"
    using free by (simp add: CpswProxyServer_getClient_def first_idx_None)
  have found: "first_idx (?P ?t) (clients proc s1) = Some i"
    unfolding x(1) by (rule first_idx_new) (use none len x in auto)
  have other: "first_idx (?P t') (clients proc s1) = first_idx (?P t') (clients proc s)" if "t' \<noteq> ?t" for t'
    unfolding x(1) by (rule first_idx_same) (use that len x in auto)
  have "\<forall>c\<in>set ((clients proc s)[i := client_zero\<lparr>token := ETHREMOTECFG_TOKEN_NONE\<rparr>]). \<not> ?P ?t c"
    using none by (auto simp: client_zero_def dest!: set_update_subset_insert [THEN subsetD])
  then have gone: "first_idx (?P ?t) ((clients proc s1)[i := client_zero\<lparr>token := ETHREMOTECFG_TOKEN_NONE\<rparr>]) = None"
    using x(1) by (simp add: first_idx_None)
  show thesis by (rule that [OF x(1) len(1) x(2-6) tok' s1 found other gone])
qed

text \<open>A successful attach of a port answers with the port's token; by it the server then finds
  the client, with its port, end point and client id, every other token finds what it found before,
  and after a detach with the token it finds no client again.\<close>

theorem proxy_attach_token:
  assumes "initDone (gProxyServerObj s)" "unat proc < length (coreObj (gProxyServerObj s))"
    and free: "CpswProxyServer_getClient proc (CPSWPROXY_VIRTPORT_2_TOKEN port) (gProxyServerObj s) = None"
    and ok: "rsStatus (fst (CpswProxyServer_clientRequestHandler e clId proc ep localEp \<lparr>rqToken = tok, rqId = n, rqCmd = CMD_ATTACH port\<rparr> s)) = ETHFW_SOK"
  shows "let (res, s') = CpswProxyServer_clientRequestHandler e clId proc ep localEp \<lparr>rqToken = tok, rqId = n, rqCmd = CMD_ATTACH port\<rparr> s;
      t = CPSWPROXY_VIRTPORT_2_TOKEN port;
      (res2, s2) = CpswProxyServer_clientRequestHandler e clId proc ep localEp \<lparr>rqToken = t, rqId = n + 1, rqCmd = CMD_DETACH\<rparr> s'
    in rsToken res = t
     \<and> (\<exists>h. CpswProxyServer_getClient proc t (gProxyServerObj s') = Some h \<and> (let c = client_at (gProxyServerObj s') h in
          virtPort c = port \<and> clRemoteEp c = ep \<and> clientId c = ucast clId))
     \<and> (\<forall>t'. t' \<noteq> t \<longrightarrow> CpswProxyServer_getClient proc t' (gProxyServerObj s') = CpswProxyServer_getClient proc t' (gProxyServerObj s))
     \<and> CpswProxyServer_getClient proc t (gProxyServerObj s2) = None"
proof -
  let ?t = "CPSWPROXY_VIRTPORT_2_TOKEN port"
  obtain i where i: "first_idx (\<lambda>c. \<not> inUse c) (clients proc s) = Some i"
    using ok by (cases "first_idx (\<lambda>c. \<not> inUse c) (clients proc s)")
      (auto simp: request_attach cmd_attach_def CpswProxyServer_allocClient_def Let_def)
  obtain tok' p s1 where r: "cmd_attach e clId proc ep tok port s = (ETHFW_SOK, tok', p, s1)"
    using ok by (cases "cmd_attach e clId proc ep tok port s") (auto simp: request_attach Let_def)
  show ?thesis
  proof (rule attach_token_clients [OF assms(1-3) i r])
    fix x
    assume x: "clients proc s1 = (clients proc s)[i := x]" "i < length (clients proc s)" "inUse x" "virtPort x = port"
        "clRemoteEp x = ep" "clientId x = ucast clId" "tok' = ?t"
      and s1: "length (coreObj (gProxyServerObj s1)) = length (coreObj (gProxyServerObj s))" "initDone (gProxyServerObj s1)"
      and found: "first_idx (\<lambda>c. inUse c \<and> token c = ?t) (clients proc s1) = Some i"
      and other: "\<And>t'. t' \<noteq> ?t \<Longrightarrow>
        first_idx (\<lambda>c. inUse c \<and> token c = t') (clients proc s1) = first_idx (\<lambda>c. inUse c \<and> token c = t') (clients proc s)"
      and gone: "first_idx (\<lambda>c. inUse c \<and> token c = ?t) ((clients proc s1)[i := client_zero\<lparr>token := ETHREMOTECFG_TOKEN_NONE\<rparr>]) = None"
    have at: "client_at (gProxyServerObj s1) (unat proc, i) = x" using x(1,2) by (simp add: client_at_def core_of_def)
    have "first_idx (\<lambda>c. inUse c \<and> token c = ?t)
        (clients proc (CpswProxyServer_freeClient (unat proc, i) (snd (CpswProxyServer_detachHandlerCb proc (issue c s1))))) = None" for c
      using gone detach_clients [of "issue c s1" proc i] s1 assms(2) by simp
    then show ?thesis
      using found other at x by (simp add: request_attach request_cmd r handle_cmd_defs cmd_detach_def getClient_clients
          Let_def case_prod_beta)
  qed
qed

text \<open>Attaching does not ask whether the virtual port exists: with a free client object and equal
  transmit MTUs, a port no configuration has is answered OK with its token, and the channel and flow
  counts of the response are not set.\<close>

theorem proxy_attach_any_port:
  assumes "initDone (gProxyServerObj s)" "unat proc < length (coreObj (gProxyServerObj s))"
    and "\<exists>c\<in>set (clients proc s). \<not> inUse c" "mtu_ok e proc s" "port_cfg port (gProxyServerObj s) = None"
  shows "let res = fst (CpswProxyServer_clientRequestHandler e clId proc ep localEp \<lparr>rqToken = tok, rqId = n, rqCmd = CMD_ATTACH port\<rparr> s)
    in rsStatus res = ETHFW_SOK \<and> rsToken res = CPSWPROXY_VIRTPORT_2_TOKEN port \<and> (\<exists>rx tx. rsPayload res = AttachRes rx tx None)"
proof -
  obtain i where i: "first_idx (\<lambda>c. \<not> inUse c) (clients proc s) = Some i"
    using assms(3) by (metis first_idx_None not_Some_eq)
  from cmd_attach_clients [OF assms(1,2) i, of e clId ep tok port] assms(4,5) show ?thesis
    by (simp add: request_attach Let_def case_prod_beta CpswProxyServer_getClientTxChRxFlowNum_def)
qed

lemma demo_facts:
  "initDone (gProxyServerObj proxy_demo)" "unat (1 :: u32) < length (coreObj (gProxyServerObj proxy_demo))"
  "clients 1 proxy_demo = replicate 2 client_zero" "\<exists>c\<in>set (clients 1 proxy_demo). \<not> inUse c"
  "mtu_ok srv_env 1 proxy_demo" "port_cfg 7 (gProxyServerObj proxy_demo) = None"
  "CpswProxyServer_getClient 1 t (gProxyServerObj proxy_demo) = None"
  by (simp_all add: proxy_demo_def demo_server_def demo_ports_def client_zero_def port_cfg_def core_of_def first_idx_None
      CpswProxyServer_getClient_def CPSWPROXYSERVER_VIRTPORT_PER_CLIENT_MAX_def mtu_ok_def attach_core_def upd_core_def Let_def
      hd_map)

theorem proxy_attach_any_port_witness:
  "rsStatus (fst (CpswProxyServer_clientRequestHandler srv_env 2 1 40 34 \<lparr>rqToken = 0, rqId = 1, rqCmd = CMD_ATTACH 7\<rparr> proxy_demo))
     = ETHFW_SOK"
  using proxy_attach_any_port [OF demo_facts(1,2,4,5,6), of 2 40 34 0 1] by (simp add: Let_def)

theorem proxy_attach_slots_witness:
  "in_use (core_of 1 (gProxyServerObj (snd (CpswProxyServer_clientRequestHandler srv_env 2 1 40 34
      \<lparr>rqToken = 0, rqId = 1, rqCmd = CMD_ATTACH_EXT 25\<rparr> proxy_demo)))) = 1"
  using proxy_attach_slots [OF demo_facts(1,2) disjI2 [OF refl], of srv_env 2 40 34 0 1 25] demo_facts(3)
  by (simp add: Let_def case_prod_beta in_use_def client_zero_def)

theorem proxy_attach_token_witness:
  "rsToken (fst (CpswProxyServer_clientRequestHandler srv_env 2 1 40 34 \<lparr>rqToken = 0, rqId = 1, rqCmd = CMD_ATTACH 25\<rparr> proxy_demo)) = 2500"
proof -
  obtain i where i: "first_idx (\<lambda>c. \<not> inUse c) (clients 1 proxy_demo) = Some i"
    using demo_facts(4) by (metis first_idx_None not_Some_eq)
  have "rsStatus (fst (CpswProxyServer_clientRequestHandler srv_env 2 1 40 34 \<lparr>rqToken = 0, rqId = 1, rqCmd = CMD_ATTACH 25\<rparr> proxy_demo)) = ETHFW_SOK"
    using cmd_attach_clients [OF demo_facts(1,2) i, of srv_env 2 40 0 25] demo_facts(5)
    by (simp add: request_attach Let_def case_prod_beta)
  from proxy_attach_token [OF demo_facts(1,2) demo_facts(7) this] show ?thesis
    by (simp add: Let_def case_prod_beta CPSWPROXY_VIRTPORT_2_TOKEN_def)
qed

end
