(* ===== verification/Tokens.thy ===== *)
theory Tokens
  imports ProxyDispatch
begin

text \<open>
  The life of a token (\<^verbatim>\<open>ethremotecfg/server/src/cpsw_proxy_server.c\<close>): which client objects of a core hold
  it, and which requests can change that, those of the same core that attach the token's port or detach by
  the token, and no others.
\<close>

section \<open>The holders of a token\<close>

definition holders :: "u32 \<Rightarrow> u32 \<Rightarrow> 'a proxy_st_scheme \<Rightarrow> nat set" where
  "holders k t s = {i. i < length (clients k s) \<and> inUse (clients k s ! i) \<and> token (clients k s ! i) = t}"

lemma holders_upd:
  "holders k t (upd_client h f s) =
     (if fst h = unat k \<and> unat k < length (coreObj (gProxyServerObj s)) \<and> snd h < length (clients k s)
      then (let x = f (clients k s ! snd h) in if inUse x \<and> token x = t then insert (snd h) (holders k t s) else holders k t s - {snd h})
      else holders k t s)"
proof (cases "fst h = unat k \<and> unat k < length (coreObj (gProxyServerObj s))")
  case True
  then obtain j where h: "h = (unat k, j)" by (cases h) auto
  have c: "clients k (upd_client h f s) = (clients k s)[j := f (clients k s ! j)]" using True h by simp
  show ?thesis using True h by (auto simp: holders_def c nth_list_update Let_def)
next
  case False
  then have "clients k (upd_client h f s) = clients k s"
    by (cases "fst h < length (coreObj (gProxyServerObj s))")
      (auto simp: upd_client_def upd_core_def core_of_def Let_def list_update_beyond)
  with False show ?thesis by (auto simp: holders_def)
qed

lemma holders_upd_same:
  assumes "\<And>x. inUse (f x) = inUse x" "\<And>x. token (f x) = token x"
  shows "holders k t (upd_client h f s) = holders k t s"
  unfolding holders_upd by (auto simp: holders_def assms Let_def)

lemma holders_upd_off:
  assumes "\<And>x. \<not> (inUse (f x) \<and> token (f x) = t)" "fst h = unat k \<Longrightarrow> snd h \<notin> holders k t s"
  shows "holders k t (upd_client h f s) = holders k t s"
  using assms unfolding holders_upd by (auto simp: Let_def)

lemma holders_frames [simp]:
  "holders k t (issue c s) = holders k t s"
  "holders k t (fault fl s) = holders k t s"
  by (simp_all add: holders_def fault_def)

lemma holders_upd_core [simp]:
  assumes "\<And>c. clientObj (g c) = clientObj c"
  shows "holders k t (upd_core j g s) = holders k t s"
proof -
  have "clients k (upd_core j g s) = clients k s"
    by (cases "j < length (coreObj (gProxyServerObj s))")
      (auto simp: upd_core_def core_of_def Let_def nth_list_update list_update_beyond assms)
  then show ?thesis by (simp add: holders_def)
qed

interpretation hold: handler_sig "holders k t" for k t
  by unfold_locales
    (simp_all add: holders_upd_same, simp_all add: holders_def core_of_def upd_notify_def CpswProxyServer_saveRxFlowOffset_def
      fault_def Let_def split: option.split)

lemma holders_attach_core [simp]: "holders k t (attach_core e j s) = holders k t s"
  by (simp add: attach_core_def Let_def)

text \<open>The client found by a token is the first holder.\<close>

lemma getClient_holders:
  "CpswProxyServer_getClient k t (gProxyServerObj s) = None \<longleftrightarrow> holders k t s = {}"
  "holders k t s = {i} \<Longrightarrow> CpswProxyServer_getClient k t (gProxyServerObj s) = Some (unat k, i)"
proof -
  show "CpswProxyServer_getClient k t (gProxyServerObj s) = None \<longleftrightarrow> holders k t s = {}"
    by (auto simp: getClient_clients first_idx_None holders_def all_set_conv_all_nth)
  assume h: "holders k t s = {i}"
  then have i: "i < length (clients k s)" "inUse (clients k s ! i) \<and> token (clients k s ! i) = t" by (auto simp: holders_def)
  have "first_idx (\<lambda>c. inUse c \<and> token c = t) (clients k s) = Some i"
    by (rule first_idx_unique [OF i(1)]) (use i(2) h in \<open>auto simp: holders_def\<close>)
  then show "CpswProxyServer_getClient k t (gProxyServerObj s) = Some (unat k, i)" by (simp add: getClient_clients)
qed

section \<open>What a request does to them\<close>

lemma holders_attachHandler:
  assumes "CPSWPROXY_VIRTPORT_2_TOKEN port \<noteq> t \<or> fst h \<noteq> unat k" "fst h = unat k \<Longrightarrow> snd h \<notin> holders k t s"
  shows "holders k t (snd (snd (CpswProxyServer_attachHandlerCb e h proc port w s))) = holders k t s"
proof -
  have "holders k t (upd_client h (\<lambda>c. c\<lparr>token := CPSWPROXY_VIRTPORT_2_TOKEN port, clCoreId := proc, features := feat\<rparr>) u) = holders k t s"
    if "holders k t u = holders k t s" for feat and u :: "'a proxy_st_scheme"
    using assms that by (cases "fst h = unat k") (auto simp: holders_upd_off holders_upd)
  then show ?thesis by (simp add: CpswProxyServer_attachHandlerCb_def Let_def case_prod_beta)
qed

lemma holders_attachExt:
  "holders k t (snd (snd (CpswProxyServer_attachExtHandlerCb e h proc port s))) =
    holders k t (snd (snd (CpswProxyServer_attachHandlerCb e h proc port False s)))"
  by (simp add: CpswProxyServer_attachExtHandlerCb_def Let_def case_prod_beta holders_upd_same)

lemma holders_alloc:
  assumes t: "t \<noteq> ETHREMOTECFG_TOKEN_NONE" and al: "CpswProxyServer_allocClient e proc ep port s = (Some h, s1)"
  shows "fst h = unat proc" "holders k t s1 = holders k t s" "fst h = unat k \<Longrightarrow> snd h \<notin> holders k t s1"
proof -
  obtain i where i: "first_idx (\<lambda>c. \<not> inUse c) (clients proc s) = Some i" and h: "h = (unat proc, i)"
    and s1: "s1 = upd_client h (\<lambda>c. c\<lparr>inUse := True, virtPort := port, token := ETHREMOTECFG_TOKEN_NONE, clRemoteEp := ep,
       isIdle := False, vlanRefCnt := (if vepaSupport e then 0 else vlanRefCnt c)\<rparr>) s"
    using al by (auto simp: CpswProxyServer_allocClient_def split: option.splits)
  show "fst h = unat proc" by (simp add: h)
  have no: "snd h \<notin> holders k t s" if "fst h = unat k"
  proof -
    have "proc = k" using that by (simp add: h unsigned_word_eqI)
    with i show ?thesis by (auto simp: holders_def h first_idx_Some)
  qed
  show "holders k t s1 = holders k t s" unfolding s1 by (rule holders_upd_off) (use t no in auto)
  with no show "fst h = unat k \<Longrightarrow> snd h \<notin> holders k t s1" by simp
qed

lemma holders_cmd_attach:
  assumes t: "t \<noteq> ETHREMOTECFG_TOKEN_NONE" and off: "CPSWPROXY_VIRTPORT_2_TOKEN port \<noteq> t \<or> proc \<noteq> k"
  shows "holders k t (snd (snd (snd (cmd_attach e clId proc ep tok port s)))) = holders k t s"
    "holders k t (snd (snd (snd (cmd_attach_ext e clId proc ep tok port s)))) = holders k t s"
proof -
  obtain r s1 where al: "CpswProxyServer_allocClient e proc ep port s = (r, s1)" by (meson surj_pair)
  have none: "r = None \<Longrightarrow> s1 = s" using al by (auto simp: CpswProxyServer_allocClient_def split: option.splits)
  have some: "holders k t (snd (snd (CpswProxyServer_attachHandlerCb e h proc port w s1))) = holders k t s" if "r = Some h" for h w
  proof -
    note a = holders_alloc [OF t al [unfolded that]]
    have "CPSWPROXY_VIRTPORT_2_TOKEN port \<noteq> t \<or> fst h \<noteq> unat k" using off a(1) unsigned_word_eqI by metis
    from holders_attachHandler [OF this a(3)] a(2) show ?thesis by simp
  qed
  show "holders k t (snd (snd (snd (cmd_attach e clId proc ep tok port s)))) = holders k t s"
    "holders k t (snd (snd (snd (cmd_attach_ext e clId proc ep tok port s)))) = holders k t s"
    using none some by (cases r; simp add: cmd_attach_def cmd_attach_ext_def al Let_def case_prod_beta holders_upd_same holders_attachExt)+
qed

lemma holders_cmd_detach:
  assumes "tok \<noteq> t \<or> proc \<noteq> k"
  shows "holders k t (snd (snd (cmd_detach proc tok s))) = holders k t s"
proof (cases "CpswProxyServer_getClient proc tok (gProxyServerObj s)")
  case None
  then show ?thesis by (simp add: cmd_detach_def)
next
  case (Some h)
  note h = getClient_SomeD [OF Some]
  have no: "snd h \<notin> holders k t s" if "fst h = unat k"
  proof -
    have "proc = k" using that h(1) by (simp add: unsigned_word_eqI)
    then show ?thesis using h(4) assms by (auto simp: holders_def client_at_def core_of_def h(1))
  qed
  have d: "holders k t (snd (CpswProxyServer_detachHandlerCb proc s)) = holders k t s"
    by (simp add: CpswProxyServer_detachHandlerCb_def Let_def)
  then have "holders k t (CpswProxyServer_freeClient h (snd (CpswProxyServer_detachHandlerCb proc s))) = holders k t s"
    using no by (simp add: CpswProxyServer_freeClient_def holders_upd_off)
  with Some show ?thesis by (simp add: cmd_detach_def case_prod_beta Let_def)
qed

text \<open>A request that attaches the port of token \<open>t\<close> on core \<open>k\<close>, and one that detaches by \<open>t\<close> there.\<close>

definition claims :: "u32 \<Rightarrow> u32 \<Rightarrow> request \<Rightarrow> bool" where
  "claims k t = (\<lambda>(clId, proc, ep, localEp, req). proc = k \<and>
     (case rqCmd req of CMD_ATTACH p \<Rightarrow> CPSWPROXY_VIRTPORT_2_TOKEN p = t | CMD_ATTACH_EXT p \<Rightarrow> CPSWPROXY_VIRTPORT_2_TOKEN p = t
      | _ \<Rightarrow> False))"

definition drops :: "u32 \<Rightarrow> u32 \<Rightarrow> request \<Rightarrow> bool" where
  "drops k t = (\<lambda>(clId, proc, ep, localEp, req). proc = k \<and> rqCmd req = CMD_DETACH \<and> rqToken req = t)"

lemma holders_serve:
  assumes "t \<noteq> ETHREMOTECFG_TOKEN_NONE" "\<not> claims k t r" "\<not> drops k t r"
  shows "holders k t (serve e r s) = holders k t s"
proof -
  obtain clId proc ep localEp req where r: "r = (clId, proc, ep, localEp, req)" by (metis prod_cases5)
  have cmd: "holders k t (snd (snd (handle_cmd e clId proc tok cmd s))) = holders k t s"
    if "cmd = CMD_DETACH \<Longrightarrow> tok \<noteq> t \<or> proc \<noteq> k" for tok cmd
    using hold.sig_handle_cmd [of cmd k t e clId proc tok s] holders_cmd_detach [of tok t proc k s] that
    by (cases "cmd = CMD_DETACH") (simp_all add: handle_cmd_defs)
  have "rqCmd req = CMD_DETACH \<Longrightarrow> rqToken req \<noteq> t \<or> proc \<noteq> k"
    and att: "\<And>p. rqCmd req = CMD_ATTACH p \<or> rqCmd req = CMD_ATTACH_EXT p \<Longrightarrow> CPSWPROXY_VIRTPORT_2_TOKEN p \<noteq> t \<or> proc \<noteq> k"
    using assms(2,3) by (auto simp: r claims_def drops_def)
  note c = cmd [of "rqCmd req" "rqToken req", OF this(1)]
  have "holders k t (snd (snd (snd (run_cmd e clId proc ep req s)))) = holders k t s"
    using c holders_cmd_attach [OF assms(1) att, where s = s]
    by (cases "rqCmd req") (simp_all add: run_cmd_def case_prod_beta)
  then show ?thesis
    by (simp add: r serve_def CpswProxyServer_clientRequestHandler_def Let_def case_prod_beta)
qed

lemma holders_run:
  assumes "t \<noteq> ETHREMOTECFG_TOKEN_NONE" "\<forall>r\<in>set rs. \<not> claims k t r \<and> \<not> drops k t r"
  shows "holders k t (fold (serve e) rs s) = holders k t s"
  using assms(2) by (induction rs arbitrary: s) (simp_all add: holders_serve [OF assms(1)])

text \<open>Once nobody holds a token, only a claim brings it back.\<close>

lemma holders_none:
  assumes "t \<noteq> ETHREMOTECFG_TOKEN_NONE" "holders k t s = {}" "\<forall>r\<in>set rs. \<not> claims k t r"
  shows "holders k t (fold (serve e) rs s) = {}"
  using assms(2,3)
proof (induction rs arbitrary: s)
  case (Cons r rs)
  have "holders k t (serve e r s) = {}"
  proof (cases "drops k t r")
    case True
    obtain clId proc ep localEp req where r: "r = (clId, proc, ep, localEp, req)" by (metis prod_cases5)
    have "CpswProxyServer_getClient k t (gProxyServerObj s) = None" using Cons.prems(1) by (simp add: getClient_holders(1))
    with True r have "serve e r s = issue (reply_call proc ep localEp (fst (CpswProxyServer_clientRequestHandler e clId proc ep localEp req s))) s"
      by (auto simp: serve_def drops_def request_cmd handle_cmd_defs cmd_detach_def Let_def case_prod_beta)
    with Cons.prems(1) show ?thesis by simp
  next
    case False
    with Cons.prems show ?thesis using holders_serve [OF assms(1), of k r e s] by simp
  qed
  with Cons show ?case by simp
qed simp

end
