(* ===== verification/ProxyFlows.thy ===== *)
theory ProxyFlows
  imports ProxyDispatch
begin

text \<open>
  The receive flows of the virtual ports: allocating a flow records its offset under the flow index of
  the request, registrations find the index by the offset, freeing a flow takes its policers away.
\<close>

section \<open>The flow table of a port\<close>

definition flows :: "EthRemoteCfg_VirtPort \<Rightarrow> CpswProxyServer_Obj \<Rightarrow> EthFwQos_RxFlowInfo list" where
  "flows p ob = (case port_cfg p ob of None \<Rightarrow> [] | Some i \<Rightarrow> rxFlowsInfo (virtPortCfg ob ! i))"

definition flow_count :: "EthRemoteCfg_VirtPort \<Rightarrow> CpswProxyServer_Obj \<Rightarrow> u32" where
  "flow_count p ob = (case port_cfg p ob of None \<Rightarrow> 0 | Some i \<Rightarrow> numRxFlow (virtPortCfg ob ! i))"

text \<open>The port is configured, with no more flows than the table has room for.\<close>

definition port_ok :: "EthRemoteCfg_VirtPort \<Rightarrow> CpswProxyServer_Obj \<Rightarrow> bool" where
  "port_ok p ob \<longleftrightarrow> initDone ob \<and> port_cfg p ob \<noteq> None \<and> unat (flow_count p ob) \<le> length (flows p ob)
     \<and> length (flows p ob) < 2 ^ 32"

lemma port_cfg_len: "port_cfg p ob = Some i \<Longrightarrow> i < numVirtPorts ob \<and> i < length (virtPortCfg ob) \<and> portId (virtPortCfg ob ! i) = p"
  by (auto simp: port_cfg_def first_idx_Some)

lemma flows_save:
  assumes "port_cfg p (gProxyServerObj s) \<noteq> None"
  shows "flows p (gProxyServerObj (CpswProxyServer_saveRxFlowOffset p r off s)) =
      (flows p (gProxyServerObj s))[unat r := (flows p (gProxyServerObj s) ! unat r)\<lparr>rxFlowIdxOffset := off\<rparr>]"
    and "port_cfg p (gProxyServerObj (CpswProxyServer_saveRxFlowOffset p r off s)) = port_cfg p (gProxyServerObj s)"
    and "flow_count p (gProxyServerObj (CpswProxyServer_saveRxFlowOffset p r off s)) = flow_count p (gProxyServerObj s)"
    and "initDone (gProxyServerObj (CpswProxyServer_saveRxFlowOffset p r off s)) = initDone (gProxyServerObj s)"
    and "calls (CpswProxyServer_saveRxFlowOffset p r off s) = calls s"
    and "coreObj (gProxyServerObj (CpswProxyServer_saveRxFlowOffset p r off s)) = coreObj (gProxyServerObj s)"
    and "faults (CpswProxyServer_saveRxFlowOffset p r off s) =
      faults s @ (if unat r < length (flows p (gProxyServerObj s)) then [] else [OobWrite])"
proof -
  let ?ob = "gProxyServerObj s" and ?s' = "CpswProxyServer_saveRxFlowOffset p r off s"
  obtain i where i: "port_cfg p ?ob = Some i" using assms by auto
  note len = port_cfg_len [OF i]
  let ?fs = "rxFlowsInfo (virtPortCfg ?ob ! i)"
  have obj: "gProxyServerObj ?s' = ?ob\<lparr>virtPortCfg := (virtPortCfg ?ob)[i := (virtPortCfg ?ob ! i)
      \<lparr>rxFlowsInfo := ?fs[unat r := (?fs ! unat r)\<lparr>rxFlowIdxOffset := off\<rparr>]\<rparr>]\<rparr>"
    using len by (auto simp: CpswProxyServer_saveRxFlowOffset_def i Let_def list_update_beyond fault_def)
  have cfg: "port_cfg p (gProxyServerObj ?s') = Some i"
    using i len unfolding port_cfg_def obj by (simp add: take_update_swap first_idx_same)
  show "flows p (gProxyServerObj ?s') = (flows p ?ob)[unat r := (flows p ?ob ! unat r)\<lparr>rxFlowIdxOffset := off\<rparr>]"
    "port_cfg p (gProxyServerObj ?s') = port_cfg p ?ob" "flow_count p (gProxyServerObj ?s') = flow_count p ?ob"
    "initDone (gProxyServerObj ?s') = initDone ?ob" "coreObj (gProxyServerObj ?s') = coreObj ?ob"
    using len by (simp_all add: flows_def flow_count_def cfg i) (simp_all add: obj)
  show "calls ?s' = calls s" "faults ?s' = faults s @ (if unat r < length (flows p ?ob) then [] else [OobWrite])"
    by (simp_all add: CpswProxyServer_saveRxFlowOffset_def flows_def i Let_def)
qed

lemma getRelFlowIdx_flows:
  "initDone ob \<Longrightarrow> CpswProxyServer_getRelFlowIdx p off ob =
     (ETHFW_SOK, map_option of_nat (first_idx (\<lambda>f. rxFlowIdxOffset f = off) (flows p ob)))"
  by (simp add: CpswProxyServer_getRelFlowIdx_def flows_def CpswProxyServer_getHandle_def split: option.split)

lemma getRxFlowInfo_flows:
  "port_cfg p ob \<noteq> None \<Longrightarrow> CpswProxyServer_getRxFlowInfo p r ob =
     (if r < flow_count p ob then (ETHFW_SOK, Some (flows p ob ! unat r)) else (ETHFW_EBADARGS, None))"
  by (auto simp: CpswProxyServer_getRxFlowInfo_def flows_def flow_count_def Let_def)

text \<open>Steps that leave the configuration alone.\<close>

lemma cfg_upd_client [simp]:
  "virtPortCfg (gProxyServerObj (upd_client h f s)) = virtPortCfg (gProxyServerObj s)"
  "numVirtPorts (gProxyServerObj (upd_client h f s)) = numVirtPorts (gProxyServerObj s)"
  "calls (upd_client h f s) = calls s"
  by (simp_all add: upd_client_def)

lemma faults_upd_client [simp]: "faults (upd_client h f s) = faults s"
  by (simp add: upd_client_def upd_core_def Let_def)

lemma flows_upd_client [simp]:
  "port_cfg p (gProxyServerObj (upd_client h f s)) = port_cfg p (gProxyServerObj s)"
  "flows p (gProxyServerObj (upd_client h f s)) = flows p (gProxyServerObj s)"
  "flow_count p (gProxyServerObj (upd_client h f s)) = flow_count p (gProxyServerObj s)"
  by (simp_all add: flows_def flow_count_def port_cfg_def cong: option.case_cong)

lemma proxy_obj_frames [simp]:
  "gProxyServerObj (snd (create_policers e k off ps r)) = gProxyServerObj (snd r)"
  "gProxyServerObj (snd (delete_policers e k ps r)) = gProxyServerObj (snd r)"
  "faults (snd (create_policers e k off ps r)) = faults (snd r)"
  "gProxyServerObj (snd (CpswProxyServer_validateStartIdx e k b s)) = gProxyServerObj s"
  "faults (snd (CpswProxyServer_validateStartIdx e k b s)) = faults s"
  "calls (snd (CpswProxyServer_validateStartIdx e k b s)) = calls s @ [Rm_getStartFlowIdx k]"
proof -
  show "gProxyServerObj (snd (create_policers e k off ps r)) = gProxyServerObj (snd r)"
    by (induction ps arbitrary: r) (simp_all add: create_policers_def CpswProxyServer_createCustomPolicer_def)
  show "gProxyServerObj (snd (delete_policers e k ps r)) = gProxyServerObj (snd r)"
    by (induction ps arbitrary: r) (simp_all add: delete_policers_def CpswProxyServer_deleteCustomPolicer_def)
  show "faults (snd (create_policers e k off ps r)) = faults (snd r)"
    by (induction ps arbitrary: r) (simp_all add: create_policers_def CpswProxyServer_createCustomPolicer_def)
qed (simp_all add: CpswProxyServer_validateStartIdx_def)

lemma client_port_upd [simp]:
  assumes "\<And>c. virtPort (f c) = virtPort c"
  shows "virtPort (client_at (gProxyServerObj (upd_client h f s)) h') = virtPort (client_at (gProxyServerObj s) h')"
proof (cases "fst h' = fst h \<and> snd h' = snd h \<and> fst h < length (coreObj (gProxyServerObj s))
    \<and> snd h < length (clientObj (coreObj (gProxyServerObj s) ! fst h))")
  case True
  then show ?thesis by (simp add: client_at_def upd_client_def assms)
next
  case False
  then show ?thesis
    by (cases "fst h < length (coreObj (gProxyServerObj s))")
      (auto simp: client_at_def upd_client_def nth_list_update list_update_beyond)
qed

lemma coreKey_upd_client:
  "coreKey (attachInfo (core_of k (gProxyServerObj (upd_client h f s)))) = coreKey (attachInfo (core_of k (gProxyServerObj s)))"
  by (cases "fst h < length (coreObj (gProxyServerObj s))")
    (auto simp: upd_client_def core_of_def nth_list_update list_update_beyond)

section \<open>Allocating\<close>

definition rx_calls :: "'a proxy_st_scheme \<Rightarrow> u32 \<Rightarrow> call list" where
  "rx_calls s hostId = [Soc_getRxChPeerId, Rm_allocRxFlow (the_coreKey s hostId) hostId, Rm_getStartFlowIdx hostId]"

lemma allocRx_eff:
  fixes s :: "'a proxy_st_scheme"
  assumes on: "port_ok p (gProxyServerObj s)" and p: "virtPort (client_at (gProxyServerObj s) h) = p"
    and ok: "status_of e (calls s @ [Soc_getRxChPeerId]) (Rm_allocRxFlow (the_coreKey s hostId) hostId) = ETHFW_SOK"
    and base: "word_of e (calls s @ [Soc_getRxChPeerId]) (Rm_allocRxFlow (the_coreKey s hostId) hostId) 0 = base"
    and start: "word_of e (calls s @ [Soc_getRxChPeerId, Rm_allocRxFlow (the_coreKey s hostId) hostId]) (Rm_getStartFlowIdx hostId) 0 = base"
    and off: "word_of e (calls s @ [Soc_getRxChPeerId]) (Rm_allocRxFlow (the_coreKey s hostId) hostId) 1 = off"
  obtains s3 st s' where
    "CpswProxyServer_allocRxHandlerCb e h hostId r s =
       (st, (Some (base, off), Some (word_of e (calls s) Soc_getRxChPeerId 0)), s')"
    "(st, s') = (if r < flow_count p (gProxyServerObj s)
       then create_policers e hostId off (customPolicersInArgs (flows p (gProxyServerObj s) ! unat r)) (ETHFW_SOK, s3)
       else (ETHFW_EBADARGS, s3))"
    "calls s3 = calls s @ rx_calls s hostId"
    "faults s' = faults s @ (if unat r < length (flows p (gProxyServerObj s)) then [] else [OobWrite])"
    "flows p (gProxyServerObj s') = (flows p (gProxyServerObj s))
       [unat r := (flows p (gProxyServerObj s) ! unat r)\<lparr>rxFlowIdxOffset := off\<rparr>]"
    "port_ok p (gProxyServerObj s')" "flow_count p (gProxyServerObj s') = flow_count p (gProxyServerObj s)"
    "virtPort (client_at (gProxyServerObj s') h) = p" "the_coreKey s' hostId = the_coreKey s hostId"
proof -
  let ?ob = "gProxyServerObj s"
  have cfg: "initDone ?ob" "port_cfg p ?ob \<noteq> None" "unat (flow_count p ?ob) \<le> length (flows p ?ob)"
    using on by (simp_all add: port_ok_def)
  have lt: "r < flow_count p ?ob \<Longrightarrow> unat r < length (flows p ?ob)"
    using cfg(3) by (simp add: word_less_nat_alt)
  define s2 where "s2 = upd_client h (\<lambda>c. c\<lparr>flowIdxBase := base, flowIdxOffset := off\<rparr>)
    (issue (Rm_getStartFlowIdx hostId) (issue (Rm_allocRxFlow (the_coreKey s hostId) hostId) (issue Soc_getRxChPeerId s)))"
  define s3 where "s3 = CpswProxyServer_saveRxFlowOffset p r off s2"
  have s2: "port_cfg p (gProxyServerObj s2) = port_cfg p ?ob" "flows p (gProxyServerObj s2) = flows p ?ob"
    "flow_count p (gProxyServerObj s2) = flow_count p ?ob" "calls s2 = calls s @ rx_calls s hostId" "faults s2 = faults s"
    "initDone (gProxyServerObj s2)" "virtPort (client_at (gProxyServerObj s2) h) = p" "the_coreKey s2 hostId = the_coreKey s hostId"
    using cfg(1) p by (simp_all add: s2_def rx_calls_def client_port_upd coreKey_upd_client)
  note save = flows_save [of p s2 r off, unfolded s2, OF cfg(2), folded s3_def]
  let ?pol = "create_policers e hostId off (customPolicersInArgs (flows p ?ob ! unat r)) (ETHFW_SOK, s3)"
  let ?res = "if r < flow_count p ?ob then ?pol else (ETHFW_EBADARGS, s3)"
  have info: "CpswProxyServer_getRxFlowInfo p r (gProxyServerObj s3) =
      (if r < flow_count p ?ob then (ETHFW_SOK, Some (flows p (gProxyServerObj s3) ! unat r)) else (ETHFW_EBADARGS, None))"
    using cfg(2) by (simp add: getRxFlowInfo_flows save)
  have pols: "r < flow_count p ?ob \<Longrightarrow>
      customPolicersInArgs (flows p (gProxyServerObj s3) ! unat r) = customPolicersInArgs (flows p ?ob ! unat r)"
    using lt by (simp add: save)
  have eq: "CpswProxyServer_allocRxHandlerCb e h hostId r s =
      (fst ?res, (Some (base, off), Some (word_of e (calls s) Soc_getRxChPeerId 0)), snd ?res)"
    using cfg(1) info pols off
    by (simp add: CpswProxyServer_allocRxHandlerCb_def CpswProxyServer_getHandle_def CpswProxyServer_validateStartIdx_def
        Let_def call_st_def ok base start p s2(7) s2_def [symmetric] s3_def [symmetric] case_prod_beta)
  show thesis
    by (rule that [OF eq, of s3]) (use save cfg(1) s2(6-8) on in \<open>simp_all add: port_ok_def client_at_def core_of_def\<close>)
qed

section \<open>Policers of a flow\<close>

abbreviation "pol_set core off pol \<equiv> Ioctl core (ALE_SET_POLICER_IN_PARTITION (MatchCustom pol) off PartCustom)"
abbreviation "pol_del core pol \<equiv> Ioctl core (ALE_DEL_POLICER (MatchCustom pol) DelAll)"

lemma policer_calls [simp]:
  "calls (snd (create_policers e core off ps r)) = calls (snd r) @ map (pol_set core off) ps"
  "calls (snd (delete_policers e core ps r)) = calls (snd r) @ map (pol_del core) ps"
  by (induction ps arbitrary: r)
    (simp_all add: create_policers_def delete_policers_def CpswProxyServer_createCustomPolicer_def
      CpswProxyServer_deleteCustomPolicer_def)

lemma policers_ok:
  assumes "\<And>cs c. status_of e cs c = ETHFW_SOK" "fst r = ETHFW_SOK"
  shows "fst (create_policers e core off ps r) = ETHFW_SOK" "fst (delete_policers e core ps r) = ETHFW_SOK"
  using assms(2)
  by (induction ps arbitrary: r)
    (simp_all add: assms(1) create_policers_def delete_policers_def CpswProxyServer_createCustomPolicer_def
      CpswProxyServer_deleteCustomPolicer_def)

lemma delete_policers_faults [simp]: "faults (snd (delete_policers e k ps r)) = faults (snd r)"
  by (induction ps arbitrary: r) (simp_all add: delete_policers_def CpswProxyServer_deleteCustomPolicer_def)

section \<open>Freeing\<close>

lemma thenOK_ok: "fst r = ETHFW_SOK \<Longrightarrow> thenOK r f = f (snd r)"
  by (simp add: thenOK_def)

text \<open>The flow that a free acts on: the one with the offset, or the primary flow.\<close>

definition freed_flow :: "EthRemoteCfg_VirtPort \<Rightarrow> u32 \<Rightarrow> CpswProxyServer_Obj \<Rightarrow> nat" where
  "freed_flow p off ob = (case first_idx (\<lambda>f. rxFlowIdxOffset f = off) (flows p ob) of Some j \<Rightarrow> j | None \<Rightarrow> 0)"

lemma freeRx_eff:
  fixes s :: "'a proxy_st_scheme"
  assumes on: "port_ok p (gProxyServerObj s)" and p: "virtPort (client_at (gProxyServerObj s) h) = p"
    and j: "freed_flow p off (gProxyServerObj s) = j" "j < unat (flow_count p (gProxyServerObj s))"
  obtains st s3 where
    "CpswProxyServer_freeRxHandlerCb e h hostId base off s =
       thenOK (thenOK (thenOK (st, s3) (CpswProxyServer_validateStartIdx e hostId base))
         (call_st e (Rm_freeRxFlow (the_coreKey s hostId) hostId off)))
         (\<lambda>s. (ETHFW_SOK, upd_client h (\<lambda>c. c\<lparr>flowIdxBase := 0, flowIdxOffset := 0\<rparr>) s))"
    "st = fst (delete_policers e hostId (customPolicersInArgs (flows p (gProxyServerObj s) ! j)) (ETHFW_SOK, s))"
    "calls s3 = calls s @ map (pol_del hostId) (customPolicersInArgs (flows p (gProxyServerObj s) ! j))"
    "flows p (gProxyServerObj s3) = (flows p (gProxyServerObj s))
       [j := (flows p (gProxyServerObj s) ! j)\<lparr>rxFlowIdxOffset := CPSWPROXY_CLIENT_INVALID_FLOW_IDX_OFFSET\<rparr>]"
    "faults s3 = faults s" "port_ok p (gProxyServerObj s3)"
proof -
  let ?ob = "gProxyServerObj s" and ?fs = "flows p (gProxyServerObj s)"
  have cfg: "initDone ?ob" "port_cfg p ?ob \<noteq> None" "j < length ?fs" and len: "length ?fs < 2 ^ 32"
    using on j(2) by (simp_all add: port_ok_def)
  let ?r = "delete_policers e hostId (customPolicersInArgs (?fs ! j)) (ETHFW_SOK, s)"
  have ju: "unat (of_nat j :: u32) = j" using cfg(3) len by simp
  define s3 where "s3 = CpswProxyServer_saveRxFlowOffset p (of_nat j) CPSWPROXY_CLIENT_INVALID_FLOW_IDX_OFFSET (snd ?r)"
  note save = flows_save [of p "snd ?r" "of_nat j" CPSWPROXY_CLIENT_INVALID_FLOW_IDX_OFFSET, folded s3_def, simplified ju]
  have idx: "CpswProxyServer_getRelFlowIdx p off ?ob = (ETHFW_SOK, idx) \<Longrightarrow> (case idx of Some k \<Rightarrow> k | None \<Rightarrow> 0) = of_nat j" for idx
    using j(1) cfg(1) by (auto simp: getRelFlowIdx_flows freed_flow_def split: option.split)
  have info: "CpswProxyServer_getRxFlowInfo p (of_nat j) ?ob = (ETHFW_SOK, Some (?fs ! j))"
    using cfg(2) j(2) ju by (simp add: getRxFlowInfo_flows word_less_nat_alt)
  have eq: "CpswProxyServer_freeRxHandlerCb e h hostId base off s =
       thenOK (thenOK (thenOK (fst ?r, s3) (CpswProxyServer_validateStartIdx e hostId base))
         (call_st e (Rm_freeRxFlow (the_coreKey s hostId) hostId off)))
         (\<lambda>s. (ETHFW_SOK, upd_client h (\<lambda>c. c\<lparr>flowIdxBase := 0, flowIdxOffset := 0\<rparr>) s))"
    using cfg(1) p idx info
    by (simp add: CpswProxyServer_freeRxHandlerCb_def CpswProxyServer_getHandle_def getRelFlowIdx_flows Let_def
        case_prod_beta s3_def)
  show thesis
    by (rule that [OF eq refl]) (use save cfg on in \<open>simp_all add: port_ok_def\<close>)
qed

section \<open>Properties\<close>

text \<open>The resource manager grants the flow \<open>off\<close> in the partition that starts at \<open>base\<close>.\<close>

definition rx_granted :: "env \<Rightarrow> u32 \<Rightarrow> u32 \<Rightarrow> u32 \<Rightarrow> 'a proxy_st_scheme \<Rightarrow> bool" where
  "rx_granted e hostId base off s \<longleftrightarrow>
     (let c = Rm_allocRxFlow (the_coreKey s hostId) hostId; cs = calls s @ [Soc_getRxChPeerId] in
      status_of e cs c = ETHFW_SOK \<and> word_of e cs c 0 = base \<and> word_of e cs c 1 = off
      \<and> word_of e (cs @ [c]) (Rm_getStartFlowIdx hostId) 0 = base)"

lemma rx_grantedD:
  assumes "rx_granted e hostId base off s"
  shows "status_of e (calls s @ [Soc_getRxChPeerId]) (Rm_allocRxFlow (the_coreKey s hostId) hostId) = ETHFW_SOK"
    "word_of e (calls s @ [Soc_getRxChPeerId]) (Rm_allocRxFlow (the_coreKey s hostId) hostId) 0 = base"
    "word_of e (calls s @ [Soc_getRxChPeerId, Rm_allocRxFlow (the_coreKey s hostId) hostId]) (Rm_getStartFlowIdx hostId) 0 = base"
    "word_of e (calls s @ [Soc_getRxChPeerId]) (Rm_allocRxFlow (the_coreKey s hostId) hostId) 1 = off"
  using assms by (simp_all add: rx_granted_def Let_def)

lemma port_ok_len: "port_ok p ob \<Longrightarrow> r < flow_count p ob \<Longrightarrow> unat r < length (flows p ob)"
  by (simp add: port_ok_def word_less_nat_alt)

text \<open>A free of a flow, with a driver that accepts everything.\<close>

lemma freeRx_ok:
  fixes s :: "'a proxy_st_scheme"
  assumes "port_ok p (gProxyServerObj s)" "virtPort (client_at (gProxyServerObj s) h) = p"
    and "freed_flow p off (gProxyServerObj s) = j" "j < unat (flow_count p (gProxyServerObj s))"
    and ok: "\<And>cs c. status_of e cs c = ETHFW_SOK" and base: "\<And>cs. word_of e cs (Rm_getStartFlowIdx hostId) 0 = base"
  shows "let (st, s') = CpswProxyServer_freeRxHandlerCb e h hostId base off s; fs = flows p (gProxyServerObj s)
    in st = ETHFW_SOK
     \<and> calls s' = calls s @ map (pol_del hostId) (customPolicersInArgs (fs ! j))
         @ [Rm_getStartFlowIdx hostId, Rm_freeRxFlow (the_coreKey s hostId) hostId off]
     \<and> flows p (gProxyServerObj s') = fs[j := (fs ! j)\<lparr>rxFlowIdxOffset := CPSWPROXY_CLIENT_INVALID_FLOW_IDX_OFFSET\<rparr>]
     \<and> faults s' = faults s"
  by (rule freeRx_eff [OF assms(1-4), of e hostId base])
    (simp add: Let_def case_prod_beta policers_ok ok base CpswProxyServer_validateStartIdx_def call_st_def)

text \<open>Allocating flow \<open>r\<close> of a port records the new offset under \<open>r\<close> and installs the flow's
  policers with it: the offset is found again as flow \<open>r\<close>, and registrations (which only the primary
  flow may make) accept it exactly when \<open>r\<close> is 0.  Freeing the offset takes exactly those policers
  away, hands the offset back to the resource manager and leaves the other flows as they were.\<close>

theorem proxy_flow_roundtrip:
  fixes s :: "'a proxy_st_scheme"
  assumes on: "port_ok p (gProxyServerObj s)" and p: "virtPort (client_at (gProxyServerObj s) h) = p"
    and r: "r < flow_count p (gProxyServerObj s)" and granted: "rx_granted e hostId base off s"
    and fresh: "\<forall>f\<in>set (flows p (gProxyServerObj s)). rxFlowIdxOffset f \<noteq> off"
    and ok: "\<forall>cs c. status_of e cs c = ETHFW_SOK" and start: "\<forall>cs. word_of e cs (Rm_getStartFlowIdx hostId) 0 = base"
  shows "let fs = flows p (gProxyServerObj s); pols = customPolicersInArgs (fs ! unat r);
       (st, (flow, psil), s1) = CpswProxyServer_allocRxHandlerCb e h hostId r s;
       (st2, s2) = CpswProxyServer_freeRxHandlerCb e h hostId base off s1
     in st = ETHFW_SOK \<and> flow = Some (base, off)
      \<and> calls s1 = calls s @ rx_calls s hostId @ map (pol_set hostId off) pols
      \<and> CpswProxyServer_getRelFlowIdx p off (gProxyServerObj s1) = (ETHFW_SOK, Some r)
      \<and> primary_flow e p off s1 = (if r = 0 then ETHFW_SOK else ETHFW_ENOTSUPPORTED, s1)
      \<and> st2 = ETHFW_SOK
      \<and> calls s2 = calls s1 @ map (pol_del hostId) pols
          @ [Rm_getStartFlowIdx hostId, Rm_freeRxFlow (the_coreKey s hostId) hostId off]
      \<and> flows p (gProxyServerObj s2) =
          fs[unat r := (fs ! unat r)\<lparr>rxFlowIdxOffset := CPSWPROXY_CLIENT_INVALID_FLOW_IDX_OFFSET\<rparr>]
      \<and> faults s2 = faults s"
proof (rule allocRx_eff [OF on p rx_grantedD [OF granted], of r])
  let ?fs = "flows p (gProxyServerObj s)"
  fix s3 s1 :: "'a proxy_st_scheme" and st
  assume a: "CpswProxyServer_allocRxHandlerCb e h hostId r s =
      (st, (Some (base, off), Some (word_of e (calls s) Soc_getRxChPeerId 0)), s1)"
    and res: "(st, s1) = (if r < flow_count p (gProxyServerObj s)
       then create_policers e hostId off (customPolicersInArgs (?fs ! unat r)) (ETHFW_SOK, s3) else (ETHFW_EBADARGS, s3))"
    and c3: "calls s3 = calls s @ rx_calls s hostId"
    and f1: "faults s1 = faults s @ (if unat r < length ?fs then [] else [OobWrite])"
    and fl: "flows p (gProxyServerObj s1) = ?fs[unat r := (?fs ! unat r)\<lparr>rxFlowIdxOffset := off\<rparr>]"
    and on1: "port_ok p (gProxyServerObj s1)" and cnt: "flow_count p (gProxyServerObj s1) = flow_count p (gProxyServerObj s)"
    and p1: "virtPort (client_at (gProxyServerObj s1) h) = p" and key: "the_coreKey s1 hostId = the_coreKey s hostId"
  note len = port_ok_len [OF on r]
  have s1: "st = ETHFW_SOK" "calls s1 = calls s @ rx_calls s hostId @ map (pol_set hostId off) (customPolicersInArgs (?fs ! unat r))"
    using res r ok policers_ok(1) [of e "(ETHFW_SOK, s3)" hostId off "customPolicersInArgs (?fs ! unat r)"]
      policer_calls(1) [of e hostId off "customPolicersInArgs (?fs ! unat r)" "(ETHFW_SOK, s3)"]
    by (simp_all add: c3 prod_eq_iff)
  have found: "first_idx (\<lambda>f. rxFlowIdxOffset f = off) (flows p (gProxyServerObj s1)) = Some (unat r)"
    using fresh len by (simp add: fl first_idx_new)
  have rel: "CpswProxyServer_getRelFlowIdx p off (gProxyServerObj s1) = (ETHFW_SOK, Some r)"
    using on1 found by (simp add: getRelFlowIdx_flows port_ok_def)
  have "freed_flow p off (gProxyServerObj s1) = unat r" by (simp add: freed_flow_def found)
  then have "let (st2, s2) = CpswProxyServer_freeRxHandlerCb e h hostId base off s1 in st2 = ETHFW_SOK
     \<and> calls s2 = calls s1 @ map (pol_del hostId) (customPolicersInArgs (?fs ! unat r))
         @ [Rm_getStartFlowIdx hostId, Rm_freeRxFlow (the_coreKey s hostId) hostId off]
     \<and> flows p (gProxyServerObj s2) = ?fs[unat r := (?fs ! unat r)\<lparr>rxFlowIdxOffset := CPSWPROXY_CLIENT_INVALID_FLOW_IDX_OFFSET\<rparr>]
     \<and> faults s2 = faults s"
    using freeRx_ok [OF on1 p1, of off "unat r" e hostId base] r ok start len
    by (simp add: cnt key fl f1 word_less_nat_alt Let_def case_prod_beta)
  then show ?thesis
    using s1 rel by (simp add: a Let_def case_prod_beta primary_flow_def CPSWPROXY_CLIENT_PRIMARY_REL_FLOW_IDX_def)
qed

text \<open>The flow index of a request is used before it is checked: with a granted flow, an index past
  the table writes out of bounds, and every index the port does not have is refused with \<open>EBADARGS\<close>
  only after the flow was taken, which is not handed back.  An index the port has never faults.\<close>

theorem proxy_flow_bounds:
  fixes s :: "'a proxy_st_scheme"
  assumes on: "port_ok p (gProxyServerObj s)" and p: "virtPort (client_at (gProxyServerObj s) h) = p"
    and granted: "rx_granted e hostId base off s"
  shows "let fs = flows p (gProxyServerObj s);
       (st, res, s') = CpswProxyServer_allocRxHandlerCb e h hostId r s
     in faults s' = faults s @ (if unat r < length fs then [] else [OobWrite])
      \<and> (flow_count p (gProxyServerObj s) \<le> r \<longrightarrow>
           st = ETHFW_EBADARGS \<and> calls s' = calls s @ rx_calls s hostId
           \<and> (unat r < length fs \<longrightarrow> rxFlowIdxOffset (flows p (gProxyServerObj s') ! unat r) = off))
      \<and> (r < flow_count p (gProxyServerObj s) \<longrightarrow> faults s' = faults s)"
  by (rule allocRx_eff [OF on p rx_grantedD [OF granted], of r])
    (cases "r < flow_count p (gProxyServerObj s)",
      use port_ok_len [OF on, of r] in \<open>simp_all add: Let_def not_less [symmetric] del: not_less\<close>)

text \<open>Freeing an offset that none of the port's flows has acts on the primary flow: its policers are
  deleted and its offset is forgotten, so that the client's later registrations on it compare an
  unset index.\<close>

theorem proxy_free_unknown_flow:
  fixes s :: "'a proxy_st_scheme"
  assumes on: "port_ok p (gProxyServerObj s)" and p: "virtPort (client_at (gProxyServerObj s) h) = p"
    and some: "0 < flow_count p (gProxyServerObj s)"
    and unknown: "\<forall>f\<in>set (flows p (gProxyServerObj s)). rxFlowIdxOffset f \<noteq> off"
    and ok: "\<forall>cs c. status_of e cs c = ETHFW_SOK" and start: "\<forall>cs. word_of e cs (Rm_getStartFlowIdx hostId) 0 = base"
  shows "let fs = flows p (gProxyServerObj s); prim = rxFlowIdxOffset (fs ! 0);
       (st, s') = CpswProxyServer_freeRxHandlerCb e h hostId base off s
     in st = ETHFW_SOK
      \<and> calls s' = calls s @ map (pol_del hostId) (customPolicersInArgs (fs ! 0))
          @ [Rm_getStartFlowIdx hostId, Rm_freeRxFlow (the_coreKey s hostId) hostId off]
      \<and> rxFlowIdxOffset (flows p (gProxyServerObj s') ! 0) = CPSWPROXY_CLIENT_INVALID_FLOW_IDX_OFFSET
      \<and> (prim \<noteq> CPSWPROXY_CLIENT_INVALID_FLOW_IDX_OFFSET \<longrightarrow> (\<forall>f\<in>set (tl fs). rxFlowIdxOffset f \<noteq> prim) \<longrightarrow>
           first_idx (\<lambda>f. rxFlowIdxOffset f = prim) (flows p (gProxyServerObj s')) = None)"
proof -
  let ?fs = "flows p (gProxyServerObj s)"
  obtain f fs where fs: "?fs = f # fs"
    using port_ok_len [OF on some] by (cases ?fs) simp_all
  have "freed_flow p off (gProxyServerObj s) = 0"
    using unknown by (simp add: freed_flow_def first_idx_None split: option.split) (auto simp: first_idx_Some)
  then show ?thesis
    using freeRx_ok [OF on p, of off 0 e hostId base] some ok start
    by (auto simp: fs Let_def word_less_nat_alt first_idx_None)
qed

text \<open>Witnesses: switch port 25 of the example server, attached by core 1.\<close>

definition flow_demo :: proxy_st where
  "flow_demo = upd_client (1, 0) (\<lambda>c. c\<lparr>inUse := True, virtPort := 25\<rparr>) proxy_demo"

lemma flow_demo_port:
  "port_ok 25 (gProxyServerObj flow_demo)" "virtPort (client_at (gProxyServerObj flow_demo) (1, 0)) = 25"
  "flow_count 25 (gProxyServerObj flow_demo) = 2"
  "flows 25 (gProxyServerObj flow_demo) = [flow_free\<lparr>customPolicersInArgs := [0]\<rparr>, flow_free]"
proof -
  have port: "port_cfg 25 (gProxyServerObj flow_demo) = Some 0"
    by (simp add: flow_demo_def port_cfg_def proxy_demo_def demo_server_def demo_ports_def)
  have cfg: "virtPortCfg (gProxyServerObj flow_demo) = demo_ports" "initDone (gProxyServerObj flow_demo)"
    by (simp_all add: flow_demo_def proxy_demo_def demo_server_def upd_client_def)
  show cnt: "flow_count 25 (gProxyServerObj flow_demo) = 2"
    and fl: "flows 25 (gProxyServerObj flow_demo) = [flow_free\<lparr>customPolicersInArgs := [0]\<rparr>, flow_free]"
    by (simp_all add: flow_count_def flows_def port cfg demo_ports_def)
  show "port_ok 25 (gProxyServerObj flow_demo)" by (simp add: port_ok_def port cfg cnt fl)
  show "virtPort (client_at (gProxyServerObj flow_demo) (1, 0)) = 25"
    by (simp add: flow_demo_def client_at_def upd_client_def proxy_demo_def demo_server_def
        CPSWPROXYSERVER_VIRTPORT_PER_CLIENT_MAX_def)
qed

lemma flow_demo_granted: "rx_granted srv_env 1 7 7 flow_demo"
  by (simp add: rx_granted_def Let_def)

theorem proxy_flow_roundtrip_witness:
  "let (st, res, s1) = CpswProxyServer_allocRxHandlerCb srv_env (1, 0) 1 0 flow_demo
   in st = ETHFW_SOK \<and> CpswProxyServer_getRelFlowIdx 25 7 (gProxyServerObj s1) = (ETHFW_SOK, Some 0)"
  using proxy_flow_roundtrip [OF flow_demo_port(1,2), of 0 srv_env 1 7 7]
  by (simp add: flow_demo_port flow_demo_granted flow_free_def CPSWPROXY_CLIENT_INVALID_FLOW_IDX_OFFSET_def Let_def
      case_prod_beta)

theorem proxy_flow_bounds_witness:
  "let (st, res, s1) = CpswProxyServer_allocRxHandlerCb srv_env (1, 0) 1 5 flow_demo
   in st = ETHFW_EBADARGS \<and> OobWrite \<in> set (faults s1)"
  using proxy_flow_bounds [OF flow_demo_port(1,2) flow_demo_granted, of 5]
  by (simp add: flow_demo_port Let_def case_prod_beta)

theorem proxy_free_unknown_flow_witness:
  "let (st, s1) = CpswProxyServer_freeRxHandlerCb srv_env (1, 0) 1 7 99 flow_demo
   in st = ETHFW_SOK \<and> pol_del 1 0 \<in> set (calls s1)"
  using proxy_free_unknown_flow [OF flow_demo_port(1,2), of 99 srv_env 1 7]
  by (simp add: flow_demo_port flow_free_def CPSWPROXY_CLIENT_INVALID_FLOW_IDX_OFFSET_def Let_def case_prod_beta)

end
