(* ===== verification/ProxyClient.thy ===== *)
theory ProxyClient
  imports ProxyDispatch
begin

text \<open>
  The client library that a remote core links (\<^verbatim>\<open>ethremotecfg/client/src/cpsw_proxy.c\<close>, the RTOS
  build): its client objects, the command service that sends a request to the server and waits for
  the response in a mailbox, the task that fills the mailbox, the notification handlers, and one
  function per command.  A client object is named by its index.

  The client runs on its own core, so its world is separate from the server's: a list of calls that
  an arbitrary environment \<open>cenv\<close> answers.  A wait that never ends is \<open>None\<close>; so is a failed
  assertion, which stops the core.  An output that nothing defines is \<open>None\<close> of its own option.
\<close>

section \<open>Data\<close>

definition CPSWPROXY_CLIENT_MAX :: nat where "CPSWPROXY_CLIENT_MAX = 2"
definition CPSWPROXY_LOCATE_TIMEOUT :: u32 where "CPSWPROXY_LOCATE_TIMEOUT = 10"
definition CPSWPROXY_CMD_SERVICE_END_POINT :: u32 where "CPSWPROXY_CMD_SERVICE_END_POINT = 36"
definition ETHREMOTECFG_NOTIFY_SERVICE_ENDPT_ID :: u32 where "ETHREMOTECFG_NOTIFY_SERVICE_ENDPT_ID = 30"
definition ETHREMOTECFG_CLIENTID_RTOS :: u32 where "ETHREMOTECFG_CLIENTID_RTOS = 2"
definition ETHREMOTECFG_NOTIFY_TYPE_COUNT :: nat where "ETHREMOTECFG_NOTIFY_TYPE_COUNT = 5"
definition ETHFWOSAL_WAIT_FOREVER :: u32 where "ETHFWOSAL_WAIT_FOREVER = 0xFFFFFFFF"
definition RPMESSAGE_ANY :: u32 where "RPMESSAGE_ANY = 0xFFFFFFFF"

text \<open>A response as it lies in the mailbox: its length and its content.\<close>

record CpswProxy_Msg =
  mLen :: nat
  mRes :: EthRemoteCfg_Res

datatype CpswProxy_Pend = MbxTimeout | MbxFail | MbxMsg CpswProxy_Msg

text \<open>
  What the application that links the library calls outside \<^verbatim>\<open>src/\<close>, the Enet and UDMA drivers and lwIP
  (theory \<open>VirtNetif\<close>); an opened channel is named by the number of the call that opened it, a network
  interface by its index.
\<close>

datatype app_call =
    Udma_init
  | EnetMem_init
  | EnetMem_deInit
  | EnetUdma_initDataPath
  | EnetUdma_openTxCh u32 u32              \<comment> \<open>channel, packets\<close>
  | EnetUdma_closeTxCh "nat option"
  | EnetUdma_openRxFlow u32 u32 u32 u32    \<comment> \<open>base, offset, packets, MTU\<close>
  | EnetUdma_closeRxFlow "nat option"
  | EnetDma_disableTxEvent "nat option"
  | EnetDma_disableRxEvent "nat option"
  | FreePkts nat                           \<comment> \<open>lwIP's callback for the packets of a closed channel\<close>
  | CreateRecoveryMbx
  | CreateRecoveryTask
  | SleepTask u32
  | Netif_add nat
  | Netif_set_default nat
  | Netif_set_status_callback nat
  | Dhcp_set_struct "nat option" nat
  | Netif_set_up nat
  | Dhcp_start "nat option"
  | Netif_set_link_up nat
  | Netif_set_link_down nat
  | SignalInit

text \<open>Callbacks of the application are numbered.\<close>

datatype ccall =
    CreateMutex
  | DeleteMutex
  | CreateMailbox
  | DeleteMailbox
  | PostMailbox CpswProxy_Msg
  | PendMailbox u32                        \<comment> \<open>time-out in milliseconds\<close>
  | CreateRpmsg u32                        \<comment> \<open>requested end point\<close>
  | UnblockRpmsg
  | DeleteRpmsg
  | CreateTask string
  | WaitTask
  | DeleteTask
  | CreateSemaphore u32
  | PendSemaphore
  | PostSemaphore
  | DeleteSemaphore
  | CreateClock u32                        \<comment> \<open>period in milliseconds\<close>
  | StopClock
  | DeleteClock
  | GetRemoteEndPt u32 string u32          \<comment> \<open>core, service, time-out\<close>
  | SendReq u32 u32 u32 u32 EthRemoteCfg_Req  \<comment> \<open>core, end point, own end point, client id, request\<close>
  | NotifyCallback nat u32 "(u32 \<times> u64) option"  \<comment> \<open>callback, notify type, hardware push and time stamp\<close>
  | HeartbeatCallback nat u32
  | AppCall app_call

record cenv =
  cstatus_of :: "ccall list \<Rightarrow> ccall \<Rightarrow> int"
  cword_of :: "ccall list \<Rightarrow> ccall \<Rightarrow> nat \<Rightarrow> u32"
  chandle_of :: "ccall list \<Rightarrow> ccall \<Rightarrow> bool"      \<comment> \<open>the handle is not NULL\<close>
  pend_of :: "ccall list \<Rightarrow> CpswProxy_Pend"         \<comment> \<open>what a wait on the mailbox gives\<close>
  stackMsg :: "ccall list \<Rightarrow> CpswProxy_Msg"         \<comment> \<open>what an unset local message happens to hold\<close>
  unset_of :: "EthRemoteCfg_Res \<Rightarrow> nat \<Rightarrow> u32"     \<comment> \<open>what a response field that the server left unset holds\<close>
  unset_mac_of :: "EthRemoteCfg_Res \<Rightarrow> eth_addr"
  stackWord :: "ccall list \<Rightarrow> nat \<Rightarrow> u32"         \<comment> \<open>what unset local words happen to hold\<close>
  denormMacPort :: "u32 \<Rightarrow> u32"                   \<comment> \<open>\<^verbatim>\<open>ENET_MACPORT_DENORM\<close>, \<^verbatim>\<open>ENET_MAC_PORT_INV\<close>\<close>
  invMacPort :: u32
  sizeofEnum :: nat
  assertEnabled :: bool                            \<comment> \<open>build flag \<^verbatim>\<open>ETHFW_CFG_ASSERT_ENABLE\<close>\<close>

record cworld =
  ccalls :: "ccall list"

definition cissue :: "ccall \<Rightarrow> 'a cworld_scheme \<Rightarrow> 'a cworld_scheme" where
  "cissue c s = s\<lparr>ccalls := ccalls s @ [c]\<rparr>"

lemma cissue_simps [simp]:
  "ccalls (cissue c s) = ccalls s @ [c]"
  "cworld.more (cissue c s) = cworld.more s"
  by (simp_all add: cissue_def)

record CpswProxy_ClientObj =
  pcInUse :: bool
  pcCfg :: EthRemoteCfg_VirtPort
  pcToken :: u32
  pcReqId :: u32
  pcFeatures :: u32
  pcNotifyCb :: "nat option list"

definition pc_zero :: CpswProxy_ClientObj where
  "pc_zero = \<lparr>pcInUse = False, pcCfg = 0, pcToken = 0, pcReqId = 0, pcFeatures = 0,
     pcNotifyCb = replicate ETHREMOTECFG_NOTIFY_TYPE_COUNT None\<rparr>"

record CpswProxy_CmdService =
  csRpMsg :: bool
  csLocalEndpt :: u32
  csMasterCoreId :: u32
  csMasterEndpt :: u32
  csMutex :: bool
  csTask :: bool
  csExitTask :: bool
  csMbx :: bool

record CpswProxy_NotifyService =
  nfRpMsg :: bool
  nfLocalEndpt :: u32
  nfMasterCoreId :: u32
  nfMasterEndpt :: u32
  nfTask :: bool
  nfExitTask :: bool

record CpswProxy_Obj =
  pxMutex :: bool
  hbPeriodInMsecs :: u32
  hHeartbeatClock :: bool
  hHeartbeatSem :: bool
  hHeartbeatTask :: bool
  heartBeatEn :: bool
  hbNotifyCb :: "nat option"
  timeSyncEn :: bool
  tsNotifyCb :: "nat option"
  pxClientObj :: "CpswProxy_ClientObj list"
  cmdSvc :: CpswProxy_CmdService
  notifySvc :: CpswProxy_NotifyService
  cmdTimeoutInMsecs :: u32

record pc_st = cworld +
  gCpswProxy :: CpswProxy_Obj

text \<open>\<^verbatim>\<open>memset(&gCpswProxy, 0, sizeof(gCpswProxy))\<close>.\<close>

definition px_zero :: CpswProxy_Obj where
  "px_zero = \<lparr>pxMutex = False, hbPeriodInMsecs = 0, hHeartbeatClock = False, hHeartbeatSem = False,
     hHeartbeatTask = False, heartBeatEn = False, hbNotifyCb = None, timeSyncEn = False, tsNotifyCb = None,
     pxClientObj = replicate CPSWPROXY_CLIENT_MAX pc_zero,
     cmdSvc = \<lparr>csRpMsg = False, csLocalEndpt = 0, csMasterCoreId = 0, csMasterEndpt = 0, csMutex = False,
               csTask = False, csExitTask = False, csMbx = False\<rparr>,
     notifySvc = \<lparr>nfRpMsg = False, nfLocalEndpt = 0, nfMasterCoreId = 0, nfMasterEndpt = 0, nfTask = False,
                  nfExitTask = False\<rparr>,
     cmdTimeoutInMsecs = 0\<rparr>"

definition pc_at :: "'a pc_st_scheme \<Rightarrow> nat \<Rightarrow> CpswProxy_ClientObj" where
  "pc_at s h = pxClientObj (gCpswProxy s) ! h"

definition upd_px :: "(CpswProxy_Obj \<Rightarrow> CpswProxy_Obj) \<Rightarrow> 'a pc_st_scheme \<Rightarrow> 'a pc_st_scheme" where
  "upd_px f s = s\<lparr>gCpswProxy := f (gCpswProxy s)\<rparr>"

definition upd_pc :: "nat \<Rightarrow> (CpswProxy_ClientObj \<Rightarrow> CpswProxy_ClientObj) \<Rightarrow> 'a pc_st_scheme \<Rightarrow> 'a pc_st_scheme" where
  "upd_pc h f = upd_px (\<lambda>ob. ob\<lparr>pxClientObj := (pxClientObj ob)[h := f (pxClientObj ob ! h)]\<rparr>)"

section \<open>Client objects\<close>

definition CpswProxy_getHandle :: "u32 \<Rightarrow> CpswProxy_Obj \<Rightarrow> nat option" where
  "CpswProxy_getHandle tok ob = first_idx (\<lambda>c. pcInUse c \<and> pcToken c = tok) (pxClientObj ob)"

definition CpswProxy_allocHandle :: "'a pc_st_scheme \<Rightarrow> nat option \<times> 'a pc_st_scheme" where
  "CpswProxy_allocHandle s =
     (case first_idx (\<lambda>c. \<not> pcInUse c) (pxClientObj (gCpswProxy s)) of
        None \<Rightarrow> (None, s)
      | Some h \<Rightarrow> (Some h, upd_pc h (\<lambda>c. c\<lparr>pcInUse := True\<rparr>) s))"

definition CpswProxy_freeHandle :: "nat \<Rightarrow> 'a pc_st_scheme \<Rightarrow> 'a pc_st_scheme" where
  "CpswProxy_freeHandle h = upd_pc h (\<lambda>_. pc_zero)"

definition CpswProxy_instanceInit :: "nat \<Rightarrow> EthRemoteCfg_VirtPort \<Rightarrow> 'a pc_st_scheme \<Rightarrow> 'a pc_st_scheme" where
  "CpswProxy_instanceInit h cfg =
     upd_pc h (\<lambda>c. c\<lparr>pcCfg := cfg, pcFeatures := 0, pcReqId := 0, pcToken := ETHREMOTECFG_TOKEN_NONE\<rparr>)"

definition CpswProxy_instanceDeinit :: "nat \<Rightarrow> 'a pc_st_scheme \<Rightarrow> 'a pc_st_scheme" where
  "CpswProxy_instanceDeinit h = upd_pc h (\<lambda>c. c\<lparr>pcCfg := 0, pcFeatures := 0, pcReqId := 0\<rparr>)"

definition CpswProxy_open :: "EthRemoteCfg_VirtPort \<Rightarrow> 'a pc_st_scheme \<Rightarrow> nat option \<times> 'a pc_st_scheme" where
  "CpswProxy_open cfg s =
     (case CpswProxy_allocHandle s of
        (None, s) \<Rightarrow> (None, s)
      | (Some h, s) \<Rightarrow> (Some h, CpswProxy_instanceInit h cfg s))"

definition CpswProxy_close :: "nat \<Rightarrow> 'a pc_st_scheme \<Rightarrow> 'a pc_st_scheme" where
  "CpswProxy_close h s = CpswProxy_freeHandle h (CpswProxy_instanceDeinit h s)"

definition CpswProxy_registerNotifyCb :: "nat \<Rightarrow> u32 \<Rightarrow> nat \<Rightarrow> 'a pc_st_scheme \<Rightarrow> int \<times> 'a pc_st_scheme" where
  "CpswProxy_registerNotifyCb h notifyType cb s =
     (if unat notifyType < ETHREMOTECFG_NOTIFY_TYPE_COUNT
      then (ETHFW_SOK, upd_pc h (\<lambda>c. c\<lparr>pcNotifyCb := (pcNotifyCb c)[unat notifyType := Some cb]\<rparr>) s)
      else (ETHFW_EINVALIDPARAMS, s))"

definition CpswProxy_unregisterNotifyCb :: "nat \<Rightarrow> u32 \<Rightarrow> 'a pc_st_scheme \<Rightarrow> int \<times> 'a pc_st_scheme" where
  "CpswProxy_unregisterNotifyCb h notifyType s =
     (if unat notifyType < ETHREMOTECFG_NOTIFY_TYPE_COUNT
      then (ETHFW_SOK, upd_pc h (\<lambda>c. c\<lparr>pcNotifyCb := (pcNotifyCb c)[unat notifyType := None]\<rparr>) s)
      else (ETHFW_EINVALIDPARAMS, s))"

section \<open>The command service\<close>

text \<open>
  One turn of the waiting loop: what the mailbox gives decides the status; a message replaces the
  one in hand and leaves the status as it is.
\<close>

definition pend_once :: "cenv \<Rightarrow> u32 \<Rightarrow> int \<times> CpswProxy_Msg \<Rightarrow> 'a cworld_scheme \<Rightarrow> (int \<times> CpswProxy_Msg) \<times> 'a cworld_scheme" where
  "pend_once e timeout r s =
     ((case pend_of e (ccalls s) of
         MbxTimeout \<Rightarrow> (ETHFW_ETIMEOUT, snd r)
       | MbxFail \<Rightarrow> (ETHFW_EFAIL, snd r)
       | MbxMsg m \<Rightarrow> (fst r, m)),
      cissue (PendMailbox timeout) s)"

text \<open>\<^verbatim>\<open>do ... while (hdr->resId < reqId)\<close>, whatever the last turn's status.\<close>

partial_function (option) await_response ::
    "cenv \<Rightarrow> u32 \<Rightarrow> u32 \<Rightarrow> int \<times> CpswProxy_Msg \<Rightarrow> 'a cworld_scheme \<Rightarrow> ((int \<times> CpswProxy_Msg) \<times> 'a cworld_scheme) option" where
  "await_response e timeout reqId r s =
     (let (r, s) = pend_once e timeout r s in
      if rsId (mRes (snd r)) < reqId then await_response e timeout reqId r s else Some (r, s))"

text \<open>What is made of the message in hand: the status, and the response when it is copied to the caller.\<close>

definition take_response :: "u32 \<Rightarrow> nat \<Rightarrow> int \<Rightarrow> CpswProxy_Msg \<Rightarrow> int \<times> EthRemoteCfg_Res option" where
  "take_response reqId resLen status m =
     (if status \<noteq> ETHFW_SOK then (status, None)
      else if mLen m \<noteq> resLen then (ETHFW_EUNEXPECTED, None)
      else if rsId (mRes m) > reqId then (ETHFW_EUNEXPECTED, Some (mRes m))
      else (rsStatus (mRes m), Some (mRes m)))"

definition CpswProxy_sendCmd :: "cenv \<Rightarrow> nat \<Rightarrow> EthRemoteCfg_Cmd \<Rightarrow> nat \<Rightarrow> 'a pc_st_scheme \<Rightarrow>
    (int \<times> EthRemoteCfg_Res option \<times> 'a pc_st_scheme) option" where
  "CpswProxy_sendCmd e h cmd resLen s =
     (let c = pc_at s h; reqId = pcReqId c; svc = cmdSvc (gCpswProxy s);
          s = upd_pc h (\<lambda>c. c\<lparr>pcReqId := pcReqId c + 1\<rparr>) s;
          send = SendReq (csMasterCoreId svc) (csMasterEndpt svc) (csLocalEndpt svc) ETHREMOTECFG_CLIENTID_RTOS
                   \<lparr>rqToken = pcToken c, rqId = reqId, rqCmd = cmd\<rparr>;
          status = cstatus_of e (ccalls s) send;
          s = cissue send s
      in if status \<noteq> ETHFW_SOK then Some (status, None, s)
         else (case await_response e (cmdTimeoutInMsecs (gCpswProxy s)) reqId (ETHFW_SOK, stackMsg e (ccalls s)) s of
                 None \<Rightarrow> None
               | Some ((status, m), s) \<Rightarrow>
                   (case take_response reqId resLen status m of (status, res) \<Rightarrow> Some (status, res, s))))"

text \<open>The message types a task can receive, by \<open>common->msgType\<close>.\<close>

datatype CpswProxy_Body =
    BResponse EthRemoteCfg_Res
  | BNotify u32 u32 "(u32 \<times> u64) option"   \<comment> \<open>token, notify type, hardware push and time stamp\<close>
  | BOther u32

definition sizeof_HwPushMsg :: nat where "sizeof_HwPushMsg = 28"

text \<open>A client's callback when the token names a client, the time-sync callback otherwise.\<close>

definition CpswProxy_notifyHandler :: "u32 \<Rightarrow> u32 \<Rightarrow> (u32 \<times> u64) option \<Rightarrow> nat \<Rightarrow> 'a pc_st_scheme \<Rightarrow> int \<times> 'a pc_st_scheme" where
  "CpswProxy_notifyHandler tok notifyType push msgLen s =
     (case CpswProxy_getHandle tok (gCpswProxy s) of
        Some h \<Rightarrow>
          if notifyType = ETHREMOTECFG_NOTIFY_HWERROR \<or> notifyType = ETHREMOTECFG_NOTIFY_HWRECOVERY_COMPLETE
          then (ETHFW_SOK,
                case pcNotifyCb (pc_at s h) ! unat notifyType of
                  Some cb \<Rightarrow> cissue (NotifyCallback cb notifyType None) s | None \<Rightarrow> s)
          else (ETHFW_EBADARGS, s)
      | None \<Rightarrow>
          if notifyType \<noteq> ETHREMOTECFG_NOTIFY_HWPUSH then (ETHFW_EBADARGS, s)
          else if msgLen \<noteq> sizeof_HwPushMsg then (ETHFW_EINVALIDPARAMS, s)
          else (ETHFW_SOK,
                case tsNotifyCb (gCpswProxy s) of
                  Some cb \<Rightarrow> cissue (NotifyCallback cb notifyType push) s | None \<Rightarrow> s))"

definition CpswProxy_cmdHandler :: "cenv \<Rightarrow> CpswProxy_Msg \<Rightarrow> 'a cworld_scheme \<Rightarrow> int \<times> 'a cworld_scheme" where
  "CpswProxy_cmdHandler e m s =
     (if cstatus_of e (ccalls s) (PostMailbox m) \<noteq> ETHFW_SOK then ETHFW_EUNEXPECTED else ETHFW_SOK,
      cissue (PostMailbox m) s)"

text \<open>
  One turn of each task, on what \<^verbatim>\<open>EthFwIpc_recvRpmsg\<close> gave: its status, the length, the sender's core
  and end point, the message.
\<close>

definition CpswProxy_cmdHandlerTask :: "cenv \<Rightarrow> int \<Rightarrow> nat \<Rightarrow> u32 \<Rightarrow> u32 \<Rightarrow> CpswProxy_Body \<Rightarrow> 'a pc_st_scheme \<Rightarrow> int \<times> 'a pc_st_scheme" where
  "CpswProxy_cmdHandlerTask e status len proc ep body s =
     (let svc = cmdSvc (gCpswProxy s) in
      if status \<noteq> ETHFW_SOK then (status, s)
      else if csMasterCoreId svc \<noteq> proc \<or> csMasterEndpt svc \<noteq> ep then (ETHFW_EUNEXPECTED, s)
      else (case body of
              BResponse res \<Rightarrow> CpswProxy_cmdHandler e \<lparr>mLen = len, mRes = res\<rparr> s
            | BNotify tok t push \<Rightarrow> CpswProxy_notifyHandler tok t push len s
            | BOther _ \<Rightarrow> (ETHFW_EUNEXPECTED, s)))"

text \<open>The notification task takes every message for a notification.\<close>

definition CpswProxy_notifySvcTask :: "int \<Rightarrow> nat \<Rightarrow> u32 \<Rightarrow> u32 \<Rightarrow> u32 \<times> u32 \<times> (u32 \<times> u64) option \<Rightarrow> 'a pc_st_scheme \<Rightarrow> int \<times> 'a pc_st_scheme" where
  "CpswProxy_notifySvcTask status len proc ep body s =
     (let svc = notifySvc (gCpswProxy s) in
      if status \<noteq> ETHFW_SOK then (status, s)
      else if nfMasterCoreId svc \<noteq> proc \<or> nfMasterEndpt svc \<noteq> ep then (ETHFW_EUNEXPECTED, s)
      else (case body of (tok, t, push) \<Rightarrow> CpswProxy_notifyHandler tok t push len s))"

section \<open>Responses\<close>

text \<open>Lengths of the response structures; the server and the client include the same header.\<close>

definition sizeof_ResHdr :: nat where "sizeof_ResHdr = 24"
definition sizeof_StatusRes :: nat where "sizeof_StatusRes = sizeof_ResHdr"

fun res_len :: "cenv \<Rightarrow> EthRemoteCfg_Payload \<Rightarrow> nat" where
  "res_len e StatusRes = sizeof_StatusRes"
| "res_len e (OfferVirtPortRes _) = sizeof_ResHdr + 2 * 4"
| "res_len e (AttachRes _ _ _) = sizeof_ResHdr + 5 * 4"
| "res_len e (AttachExtRes _ _ _ _ _ _) = sizeof_ResHdr + 7 * 4 + 6"
| "res_len e (AllocTxRes _) = sizeof_ResHdr + 4"
| "res_len e (AllocRxRes _ _) = sizeof_ResHdr + 3 * 4"
| "res_len e (AllocMacRes _) = sizeof_ResHdr + 6"
| "res_len e (PortLinkStatusRes _ _) = sizeof_ResHdr + 1 + 2 * 4"
| "res_len e (ServerStatusRes _) = sizeof_ResHdr + sizeofEnum e"
| "res_len e (AllocHwPushRes _) = sizeof_ResHdr + 4"

text \<open>
  A field as the client reads it: 0 in the response it cleared before a call that copied nothing,
  and what the server's buffer holds where the server set nothing.
\<close>

definition fld :: "cenv \<Rightarrow> EthRemoteCfg_Res \<Rightarrow> nat \<Rightarrow> u32 option \<Rightarrow> u32" where
  "fld e r i x = (case x of Some v \<Rightarrow> v | None \<Rightarrow> unset_of e r i)"

definition one_word :: "cenv \<Rightarrow> EthRemoteCfg_Res option \<Rightarrow> u32" where
  "one_word e res =
     (case res of
        None \<Rightarrow> 0
      | Some r \<Rightarrow> (case rsPayload r of
            AllocTxRes x \<Rightarrow> fld e r 0 x
          | AllocHwPushRes x \<Rightarrow> fld e r 0 x
          | ServerStatusRes w \<Rightarrow> w
          | _ \<Rightarrow> unset_of e r 0))"

definition flow_words :: "cenv \<Rightarrow> EthRemoteCfg_Res option \<Rightarrow> u32 \<times> u32" where
  "flow_words e res =
     (case res of
        None \<Rightarrow> (0, 0)
      | Some r \<Rightarrow> (case rsPayload r of
            AllocRxRes flow _ \<Rightarrow> (fld e r 0 (map_option fst flow), fld e r 1 (map_option snd flow))
          | _ \<Rightarrow> (unset_of e r 0, unset_of e r 1)))"

definition mac_field :: "cenv \<Rightarrow> EthRemoteCfg_Res option \<Rightarrow> eth_addr" where
  "mac_field e res =
     (case res of
        None \<Rightarrow> zero_mac
      | Some r \<Rightarrow> (case rsPayload r of AllocMacRes (Some mac) \<Rightarrow> mac | _ \<Rightarrow> unset_mac_of e r))"

definition link_field :: "cenv \<Rightarrow> EthRemoteCfg_Res option \<Rightarrow> bool" where
  "link_field e res =
     (case res of
        None \<Rightarrow> False
      | Some r \<Rightarrow> (case rsPayload r of PortLinkStatusRes (Some linked) _ \<Rightarrow> linked | _ \<Rightarrow> unset_of e r 0 \<noteq> 0))"

section \<open>One function per command\<close>

text \<open>The outputs of an attach: receive and transmit MTU, features, channel and flow count.\<close>

definition CpswProxy_attach :: "cenv \<Rightarrow> nat \<Rightarrow> EthRemoteCfg_VirtPort \<Rightarrow> 'a pc_st_scheme \<Rightarrow>
    (int \<times> (u32 \<times> u32 \<times> u32 \<times> u32 \<times> u32) option \<times> 'a pc_st_scheme) option" where
  "CpswProxy_attach e h port s =
     (case CpswProxy_sendCmd e h (CMD_ATTACH port) (res_len e (AttachRes None None None)) s of
        None \<Rightarrow> None
      | Some (status, res, s) \<Rightarrow>
          Some (case res of
              Some r \<Rightarrow>
                if status = ETHFW_SOK
                then (let (rx, tx, feat, nTx, nRx) =
                        (case rsPayload r of
                           AttachRes rx txf nums \<Rightarrow> (fld e r 0 rx, fld e r 1 (map_option fst txf), fld e r 2 (map_option snd txf),
                             fld e r 3 (map_option fst nums), fld e r 4 (map_option snd nums))
                         | _ \<Rightarrow> (unset_of e r 0, unset_of e r 1, unset_of e r 2, unset_of e r 3, unset_of e r 4))
                      in (status, Some (rx, tx, feat, nTx, nRx),
                          upd_pc h (\<lambda>c. c\<lparr>pcToken := rsToken r, pcFeatures := feat\<rparr>) s))
                else (status, None, s)
            | None \<Rightarrow> (status, None, s)))"

text \<open>Receive and transmit MTU, features, transmit PSIL, flow base and offset, MAC address.\<close>

definition CpswProxy_attachExtended :: "cenv \<Rightarrow> nat \<Rightarrow> EthRemoteCfg_VirtPort \<Rightarrow> 'a pc_st_scheme \<Rightarrow>
    (int \<times> (u32 \<times> u32 \<times> u32 \<times> u32 \<times> u32 \<times> u32 \<times> eth_addr) option \<times> 'a pc_st_scheme) option" where
  "CpswProxy_attachExtended e h port s =
     (case CpswProxy_sendCmd e h (CMD_ATTACH_EXT port) (res_len e (AttachExtRes None None None None None None)) s of
        None \<Rightarrow> None
      | Some (status, res, s) \<Rightarrow>
          Some (case res of
              Some r \<Rightarrow>
                if status = ETHFW_SOK
                then (let (rx, tx, feat, psil, base, off, mac) =
                        (case rsPayload r of
                           AttachExtRes rx txf flow psil _ mac \<Rightarrow>
                             (fld e r 0 rx, fld e r 1 (map_option fst txf), fld e r 2 (map_option snd txf), fld e r 3 psil,
                              fld e r 4 (map_option fst flow), fld e r 5 (map_option snd flow),
                              case mac of Some m \<Rightarrow> m | None \<Rightarrow> unset_mac_of e r)
                         | _ \<Rightarrow> (unset_of e r 0, unset_of e r 1, unset_of e r 2, unset_of e r 3, unset_of e r 4,
                                unset_of e r 5, unset_mac_of e r))
                      in (status, Some (rx, tx, feat, psil, base, off, mac),
                          upd_pc h (\<lambda>c. c\<lparr>pcToken := rsToken r, pcFeatures := feat\<rparr>) s))
                else (status, None, s)
            | None \<Rightarrow> (status, None, s)))"

text \<open>These copy their output whatever the status.\<close>

definition CpswProxy_allocTxCh :: "cenv \<Rightarrow> nat \<Rightarrow> u32 \<Rightarrow> 'a pc_st_scheme \<Rightarrow> (int \<times> u32 \<times> 'a pc_st_scheme) option" where
  "CpswProxy_allocTxCh e h prio s =
     map_option (\<lambda>(status, res, s). (status, one_word e res, s))
       (CpswProxy_sendCmd e h (CMD_ALLOC_TX prio) (res_len e (AllocTxRes None)) s)"

definition CpswProxy_allocRxFlow :: "cenv \<Rightarrow> nat \<Rightarrow> u32 \<Rightarrow> 'a pc_st_scheme \<Rightarrow> (int \<times> (u32 \<times> u32) \<times> 'a pc_st_scheme) option" where
  "CpswProxy_allocRxFlow e h flowIdx s =
     map_option (\<lambda>(status, res, s). (status, flow_words e res, s))
       (CpswProxy_sendCmd e h (CMD_ALLOC_RX flowIdx) (res_len e (AllocRxRes None None)) s)"

definition CpswProxy_allocMac :: "cenv \<Rightarrow> nat \<Rightarrow> 'a pc_st_scheme \<Rightarrow> (int \<times> eth_addr \<times> 'a pc_st_scheme) option" where
  "CpswProxy_allocMac e h s =
     map_option (\<lambda>(status, res, s). (status, mac_field e res, s))
       (CpswProxy_sendCmd e h CMD_ALLOC_MAC (res_len e (AllocMacRes None)) s)"

definition CpswProxy_isPhyLinked :: "cenv \<Rightarrow> nat \<Rightarrow> 'a pc_st_scheme \<Rightarrow> (bool \<times> 'a pc_st_scheme) option" where
  "CpswProxy_isPhyLinked e h s =
     map_option (\<lambda>(status, res, s). (if status = ETHFW_SOK then link_field e res else False, s))
       (CpswProxy_sendCmd e h CMD_PORT_LINK_STATUS (res_len e (PortLinkStatusRes None None)) s)"

definition CpswProxy_getServerStatus :: "cenv \<Rightarrow> nat \<Rightarrow> 'a pc_st_scheme \<Rightarrow> (int \<times> u32 \<times> 'a pc_st_scheme) option" where
  "CpswProxy_getServerStatus e h s =
     map_option (\<lambda>(status, res, s).
         (status, if status = ETHFW_ETIMEOUT then ETHREMOTECFG_SERVERSTATUS_BAD else one_word e res, s))
       (CpswProxy_sendCmd e h CMD_GET_SERVER_STATUS (res_len e (ServerStatusRes 0)) s)"

text \<open>The output is set only when the status is OK.\<close>

definition CpswProxy_allocHwPushInst :: "cenv \<Rightarrow> nat \<Rightarrow> 'a pc_st_scheme \<Rightarrow> (int \<times> u32 option \<times> 'a pc_st_scheme) option" where
  "CpswProxy_allocHwPushInst e h s =
     map_option (\<lambda>(status, res, s). (status, if status = ETHFW_SOK then Some (one_word e res) else None, s))
       (CpswProxy_sendCmd e h CMD_ALLOC_CPTS_HW_PUSH (res_len e (AllocHwPushRes None)) s)"

text \<open>The other commands have a status only.\<close>

definition CpswProxy_status_cmd :: "cenv \<Rightarrow> nat \<Rightarrow> EthRemoteCfg_Cmd \<Rightarrow> 'a pc_st_scheme \<Rightarrow> (int \<times> 'a pc_st_scheme) option" where
  "CpswProxy_status_cmd e h cmd s =
     map_option (\<lambda>(status, res, s). (status, s)) (CpswProxy_sendCmd e h cmd sizeof_StatusRes s)"

definition CpswProxy_detach :: "cenv \<Rightarrow> nat \<Rightarrow> 'a pc_st_scheme \<Rightarrow> (int \<times> 'a pc_st_scheme) option" where
  "CpswProxy_detach e h s = CpswProxy_status_cmd e h CMD_DETACH s"

definition CpswProxy_freeTxCh :: "cenv \<Rightarrow> nat \<Rightarrow> u32 \<Rightarrow> 'a pc_st_scheme \<Rightarrow> (int \<times> 'a pc_st_scheme) option" where
  "CpswProxy_freeTxCh e h psil s = CpswProxy_status_cmd e h (CMD_FREE_TX psil) s"

definition CpswProxy_freeRxFlow :: "cenv \<Rightarrow> nat \<Rightarrow> u32 \<Rightarrow> u32 \<Rightarrow> 'a pc_st_scheme \<Rightarrow> (int \<times> 'a pc_st_scheme) option" where
  "CpswProxy_freeRxFlow e h base off s = CpswProxy_status_cmd e h (CMD_FREE_RX base off) s"

definition CpswProxy_freeMac :: "cenv \<Rightarrow> nat \<Rightarrow> eth_addr \<Rightarrow> 'a pc_st_scheme \<Rightarrow> (int \<times> 'a pc_st_scheme) option" where
  "CpswProxy_freeMac e h mac s = CpswProxy_status_cmd e h (CMD_FREE_MAC mac) s"

definition CpswProxy_registerDefaultRxFlow :: "cenv \<Rightarrow> nat \<Rightarrow> u32 \<Rightarrow> u32 \<Rightarrow> 'a pc_st_scheme \<Rightarrow> (int \<times> 'a pc_st_scheme) option" where
  "CpswProxy_registerDefaultRxFlow e h base off s = CpswProxy_status_cmd e h (CMD_SET_RX_DEFAULTFLOW base off) s"

definition CpswProxy_unregisterDefaultRxFlow :: "cenv \<Rightarrow> nat \<Rightarrow> u32 \<Rightarrow> u32 \<Rightarrow> 'a pc_st_scheme \<Rightarrow> (int \<times> 'a pc_st_scheme) option" where
  "CpswProxy_unregisterDefaultRxFlow e h base off s = CpswProxy_status_cmd e h (CMD_DEL_RX_DEFAULTFLOW base off) s"

definition CpswProxy_registerDstMacRxFlow :: "cenv \<Rightarrow> nat \<Rightarrow> u32 \<Rightarrow> u32 \<Rightarrow> eth_addr \<Rightarrow> 'a pc_st_scheme \<Rightarrow> (int \<times> 'a pc_st_scheme) option" where
  "CpswProxy_registerDstMacRxFlow e h base off mac s = CpswProxy_status_cmd e h (CMD_REGISTER_MAC mac base off) s"

definition CpswProxy_unregisterDstMacRxFlow :: "cenv \<Rightarrow> nat \<Rightarrow> u32 \<Rightarrow> u32 \<Rightarrow> eth_addr \<Rightarrow> 'a pc_st_scheme \<Rightarrow> (int \<times> 'a pc_st_scheme) option" where
  "CpswProxy_unregisterDstMacRxFlow e h base off mac s = CpswProxy_status_cmd e h (CMD_DEREGISTER_MAC mac base off) s"

definition CpswProxy_registerIPV4Addr :: "cenv \<Rightarrow> nat \<Rightarrow> eth_addr \<Rightarrow> ipv4 \<Rightarrow> 'a pc_st_scheme \<Rightarrow> (int \<times> 'a pc_st_scheme) option" where
  "CpswProxy_registerIPV4Addr e h mac ip s = CpswProxy_status_cmd e h (CMD_REGISTER_IPv4 ip mac) s"

definition CpswProxy_unregisterIPV4Addr :: "cenv \<Rightarrow> nat \<Rightarrow> ipv4 \<Rightarrow> 'a pc_st_scheme \<Rightarrow> (int \<times> 'a pc_st_scheme) option" where
  "CpswProxy_unregisterIPV4Addr e h ip s = CpswProxy_status_cmd e h (CMD_DEREGISTER_IPv4 ip) s"

definition CpswProxy_teardownCompletion :: "cenv \<Rightarrow> nat \<Rightarrow> 'a pc_st_scheme \<Rightarrow> (int \<times> 'a pc_st_scheme) option" where
  "CpswProxy_teardownCompletion e h s = CpswProxy_status_cmd e h CMD_TEARDOWN_COMPLETION s"

definition CpswProxy_registerEthertypeRxFlow :: "cenv \<Rightarrow> nat \<Rightarrow> u32 \<Rightarrow> u32 \<Rightarrow> u16 \<Rightarrow> 'a pc_st_scheme \<Rightarrow> (int \<times> 'a pc_st_scheme) option" where
  "CpswProxy_registerEthertypeRxFlow e h base off etherType s = CpswProxy_status_cmd e h (CMD_REGISTER_MATCH_ETHTYPE etherType base off) s"

definition CpswProxy_unregisterEthertypeRxFlow :: "cenv \<Rightarrow> nat \<Rightarrow> u16 \<Rightarrow> 'a pc_st_scheme \<Rightarrow> (int \<times> 'a pc_st_scheme) option" where
  "CpswProxy_unregisterEthertypeRxFlow e h etherType s = CpswProxy_status_cmd e h (CMD_DEREGISTER_MATCH_ETHTYPE etherType) s"

definition CpswProxy_registerRemoteTimer :: "cenv \<Rightarrow> nat \<Rightarrow> u8 \<Rightarrow> u8 \<Rightarrow> 'a pc_st_scheme \<Rightarrow> (int \<times> 'a pc_st_scheme) option" where
  "CpswProxy_registerRemoteTimer e h timerId hwPushNum s = CpswProxy_status_cmd e h (CMD_REGISTER_REMOTE_TIMER hwPushNum timerId) s"

definition CpswProxy_unregisterRemoteTimer :: "cenv \<Rightarrow> nat \<Rightarrow> u8 \<Rightarrow> 'a pc_st_scheme \<Rightarrow> (int \<times> 'a pc_st_scheme) option" where
  "CpswProxy_unregisterRemoteTimer e h hwPushNum s = CpswProxy_status_cmd e h (CMD_DEREGISTER_REMOTE_TIMER hwPushNum) s"

definition CpswProxy_joinVlan :: "cenv \<Rightarrow> nat \<Rightarrow> u32 \<Rightarrow> u32 \<Rightarrow> eth_addr \<Rightarrow> u16 \<Rightarrow> 'a pc_st_scheme \<Rightarrow> (int \<times> 'a pc_st_scheme) option" where
  "CpswProxy_joinVlan e h base off mac vid s = CpswProxy_status_cmd e h (CMD_JOIN_VLAN vid mac base off) s"

definition CpswProxy_leaveVlan :: "cenv \<Rightarrow> nat \<Rightarrow> u32 \<Rightarrow> u32 \<Rightarrow> eth_addr \<Rightarrow> u16 \<Rightarrow> 'a pc_st_scheme \<Rightarrow> (int \<times> 'a pc_st_scheme) option" where
  "CpswProxy_leaveVlan e h base off mac vid s = CpswProxy_status_cmd e h (CMD_LEAVE_VLAN vid mac base off) s"

definition CpswProxy_filterAddMac :: "cenv \<Rightarrow> nat \<Rightarrow> u32 \<Rightarrow> u32 \<Rightarrow> eth_addr \<Rightarrow> u16 \<Rightarrow> 'a pc_st_scheme \<Rightarrow> (int \<times> 'a pc_st_scheme) option" where
  "CpswProxy_filterAddMac e h base off mac vid s = (if even (unat (octet0 mac)) then Some (ETHFW_EINVALIDPARAMS, s) else CpswProxy_status_cmd e h (CMD_ADD_FILTER_MAC mac vid base off) s)"

definition CpswProxy_filterDelMac :: "cenv \<Rightarrow> nat \<Rightarrow> eth_addr \<Rightarrow> u16 \<Rightarrow> 'a pc_st_scheme \<Rightarrow> (int \<times> 'a pc_st_scheme) option" where
  "CpswProxy_filterDelMac e h mac vid s = (if even (unat (octet0 mac)) then Some (ETHFW_EINVALIDPARAMS, s) else CpswProxy_status_cmd e h (CMD_DEL_FILTER_MAC mac vid) s)"

definition CpswProxy_dumpStats :: "cenv \<Rightarrow> nat \<Rightarrow> 'a pc_st_scheme \<Rightarrow> (int \<times> 'a pc_st_scheme) option" where
  "CpswProxy_dumpStats e h s = CpswProxy_status_cmd e h CMD_DUMP s"

definition CpswProxy_freeHwPushInst :: "cenv \<Rightarrow> nat \<Rightarrow> u32 \<Rightarrow> 'a pc_st_scheme \<Rightarrow> (int \<times> 'a pc_st_scheme) option" where
  "CpswProxy_freeHwPushInst e h n s = CpswProxy_status_cmd e h (CMD_FREE_CPTS_HW_PUSH n) s"

section \<open>Starting and stopping\<close>

text \<open>A failed \<^verbatim>\<open>EthFw_assert\<close> stops the core when assertions are built in.\<close>

definition assert_px :: "cenv \<Rightarrow> bool \<Rightarrow> 's \<Rightarrow> 's option" where
  "assert_px e b s = (if assertEnabled e \<and> \<not> b then None else Some s)"

text \<open>Create something: the handle is not NULL, and the state with the call.\<close>

definition create :: "cenv \<Rightarrow> ccall \<Rightarrow> 'a cworld_scheme \<Rightarrow> bool \<times> 'a cworld_scheme" where
  "create e c s = (chandle_of e (ccalls s) c, cissue c s)"

definition upd_cmdSvc :: "(CpswProxy_CmdService \<Rightarrow> CpswProxy_CmdService) \<Rightarrow> 'a pc_st_scheme \<Rightarrow> 'a pc_st_scheme" where
  "upd_cmdSvc f = upd_px (\<lambda>ob. ob\<lparr>cmdSvc := f (cmdSvc ob)\<rparr>)"

definition upd_notifySvc :: "(CpswProxy_NotifyService \<Rightarrow> CpswProxy_NotifyService) \<Rightarrow> 'a pc_st_scheme \<Rightarrow> 'a pc_st_scheme" where
  "upd_notifySvc f = upd_px (\<lambda>ob. ob\<lparr>notifySvc := f (notifySvc ob)\<rparr>)"

definition CpswProxy_initCmdSvc :: "cenv \<Rightarrow> 'a pc_st_scheme \<Rightarrow> (int \<times> 'a pc_st_scheme) option" where
  "CpswProxy_initCmdSvc e s =
     (let (ok, s) = create e CreateMutex s; s = upd_cmdSvc (\<lambda>v. v\<lparr>csMutex := ok\<rparr>) s in
      if \<not> ok then assert_px e False (ETHFW_EALLOC, s)
      else
        (let (ok, s) = create e CreateMailbox s; s = upd_cmdSvc (\<lambda>v. v\<lparr>csMbx := ok\<rparr>) s in
         if \<not> ok then assert_px e False (ETHFW_EALLOC, s)
         else
           (let c = CreateRpmsg CPSWPROXY_CMD_SERVICE_END_POINT; ep = cword_of e (ccalls s) c 0;
                (ok, s) = create e c s; s = upd_cmdSvc (\<lambda>v. v\<lparr>csRpMsg := ok\<rparr>) s in
            if \<not> ok then Some (ETHFW_EFAIL, s)
            else
              (let s = upd_cmdSvc (\<lambda>v. v\<lparr>csLocalEndpt := ep\<rparr>) s;
                   (ok, s) = create e (CreateTask ''CpswProxy-CmdTask'') s; s = upd_cmdSvc (\<lambda>v. v\<lparr>csTask := ok\<rparr>) s in
               if \<not> ok then assert_px e False (ETHFW_EFAIL, s) else Some (ETHFW_SOK, s)))))"

definition CpswProxy_initNotifySvc :: "cenv \<Rightarrow> 'a pc_st_scheme \<Rightarrow> (int \<times> 'a pc_st_scheme) option" where
  "CpswProxy_initNotifySvc e s =
     (let c = CreateRpmsg ETHREMOTECFG_NOTIFY_SERVICE_ENDPT_ID; ep = cword_of e (ccalls s) c 0;
          (ok, s) = create e c s; s = upd_notifySvc (\<lambda>v. v\<lparr>nfRpMsg := ok\<rparr>) s in
      if \<not> ok then Some (ETHFW_EFAIL, s)
      else
        (let s = upd_notifySvc (\<lambda>v. v\<lparr>nfLocalEndpt := ep\<rparr>) s;
             (ok, s) = create e (CreateTask ''CpswProxy-NotifyTask'') s; s = upd_notifySvc (\<lambda>v. v\<lparr>nfTask := ok\<rparr>) s in
         if \<not> ok then assert_px e False (ETHFW_EFAIL, s) else Some (ETHFW_SOK, s)))"

text \<open>The parameters: heartbeat period and callback, time-sync callback, command time-out.\<close>

record CpswProxy_initParams =
  prHbPeriodInMsecs :: u32
  prCmdTimeoutInMsecs :: u32
  prHbNotifyCb :: "nat option"
  prTsNotifyCb :: "nat option"

definition CpswProxy_initConfig :: CpswProxy_initParams where
  "CpswProxy_initConfig = \<lparr>prHbPeriodInMsecs = 1000, prCmdTimeoutInMsecs = 1000, prHbNotifyCb = None, prTsNotifyCb = None\<rparr>"

definition CpswProxy_init :: "cenv \<Rightarrow> CpswProxy_initParams \<Rightarrow> 'a pc_st_scheme \<Rightarrow> (int \<times> 'a pc_st_scheme) option" where
  "CpswProxy_init e p s =
     (let hb = prHbPeriodInMsecs p \<noteq> 0 \<and> prHbNotifyCb p \<noteq> None;
          s = upd_px (\<lambda>_. px_zero
                \<lparr>heartBeatEn := hb,
                 hbPeriodInMsecs := (if hb then prHbPeriodInMsecs p else 0),
                 hbNotifyCb := (if hb then prHbNotifyCb p else None),
                 timeSyncEn := (prTsNotifyCb p \<noteq> None),
                 tsNotifyCb := prTsNotifyCb p,
                 cmdTimeoutInMsecs := (if prCmdTimeoutInMsecs p = 0 then ETHFWOSAL_WAIT_FOREVER
                                       else prCmdTimeoutInMsecs p)\<rparr>) s;
          (ok, s) = create e CreateMutex s; s = upd_px (\<lambda>ob. ob\<lparr>pxMutex := ok\<rparr>) s
      in if \<not> ok then assert_px e False (ETHFW_EALLOC, s)
         else (case CpswProxy_initCmdSvc e s of
                 None \<Rightarrow> None
               | Some (status, s) \<Rightarrow>
                   if status \<noteq> ETHFW_SOK then Some (status, s) else CpswProxy_initNotifySvc e s))"

definition CpswProxy_deinitCmdSvc :: "'a pc_st_scheme \<Rightarrow> 'a pc_st_scheme" where
  "CpswProxy_deinitCmdSvc s =
     (let s = upd_cmdSvc (\<lambda>v. v\<lparr>csExitTask := True\<rparr>) s; svc = cmdSvc (gCpswProxy s);
          s = (if csTask svc
               then cissue DeleteTask (cissue WaitTask (if csRpMsg svc then cissue UnblockRpmsg s else s)) else s);
          s = (if csRpMsg svc then upd_cmdSvc (\<lambda>v. v\<lparr>csRpMsg := False\<rparr>) (cissue DeleteRpmsg s) else s);
          s = (if csMbx svc then upd_cmdSvc (\<lambda>v. v\<lparr>csMbx := False\<rparr>) (cissue DeleteMailbox s) else s)
      in if csMutex svc then upd_cmdSvc (\<lambda>v. v\<lparr>csMutex := False\<rparr>) (cissue DeleteMutex s) else s)"

definition CpswProxy_deinitNotifySvc :: "'a pc_st_scheme \<Rightarrow> 'a pc_st_scheme" where
  "CpswProxy_deinitNotifySvc s =
     (let s = upd_notifySvc (\<lambda>v. v\<lparr>nfExitTask := True\<rparr>) s; svc = notifySvc (gCpswProxy s);
          s = (if nfTask svc
               then cissue DeleteTask (cissue WaitTask (if nfRpMsg svc then cissue UnblockRpmsg s else s)) else s)
      in if nfRpMsg svc then upd_notifySvc (\<lambda>v. v\<lparr>nfRpMsg := False\<rparr>) (cissue DeleteRpmsg s) else s)"

text \<open>The task handles and the object's mutex handle are not cleared by it, except the heartbeat's.\<close>

definition CpswProxy_deinit :: "'a pc_st_scheme \<Rightarrow> 'a pc_st_scheme" where
  "CpswProxy_deinit s =
     (let s = upd_px (\<lambda>ob. ob\<lparr>heartBeatEn := False\<rparr>) s;
          s = (if hHeartbeatTask (gCpswProxy s)
               then cissue DeleteSemaphore (cissue DeleteClock (cissue StopClock
                      (upd_px (\<lambda>ob. ob\<lparr>hHeartbeatTask := False\<rparr>) (cissue DeleteTask s)))) else s);
          s = CpswProxy_deinitNotifySvc (CpswProxy_deinitCmdSvc s)
      in if pxMutex (gCpswProxy s) then cissue DeleteMutex s else s)"

text \<open>A turn of the heartbeat task, which asks for the first client object only; the clock wakes it.\<close>

definition CpswProxy_ClockCb :: "'a pc_st_scheme \<Rightarrow> 'a pc_st_scheme" where
  "CpswProxy_ClockCb s = cissue PostSemaphore s"

definition CpswProxy_HeartbeatTask :: "cenv \<Rightarrow> 'a pc_st_scheme \<Rightarrow> 'a pc_st_scheme option" where
  "CpswProxy_HeartbeatTask e s =
     (let s = cissue PendSemaphore s in
      if pcInUse (pc_at s 0)
      then map_option (\<lambda>(status, srv, s). cissue (HeartbeatCallback (the (hbNotifyCb (gCpswProxy s))) srv) s)
             (CpswProxy_getServerStatus e 0 s)
      else Some s)"

text \<open>The heartbeat's clock, semaphore and task, once the services are found.\<close>

definition start_heartbeat :: "cenv \<Rightarrow> 'a pc_st_scheme \<Rightarrow> (int \<times> 'a pc_st_scheme) option" where
  "start_heartbeat e s =
     (let (ok, s) = create e (CreateSemaphore 1) s; s = upd_px (\<lambda>ob. ob\<lparr>hHeartbeatSem := ok\<rparr>) s in
      if \<not> ok then assert_px e False (ETHFW_EALLOC, s)
      else
        (let (ok, s) = create e (CreateTask ''CPSW Proxy Heartbeat Task'') s; s = upd_px (\<lambda>ob. ob\<lparr>hHeartbeatTask := ok\<rparr>) s in
         if \<not> ok then assert_px e False (ETHFW_EALLOC, s)
         else
           (let (ok, s) = create e (CreateClock (hbPeriodInMsecs (gCpswProxy s))) s; s = upd_px (\<lambda>ob. ob\<lparr>hHeartbeatClock := ok\<rparr>) s in
            if \<not> ok then assert_px e False (ETHFW_EALLOC, s) else Some (ETHFW_SOK, s))))"

definition CpswProxy_connect :: "cenv \<Rightarrow> 'a pc_st_scheme \<Rightarrow> (int \<times> 'a pc_st_scheme) option" where
  "CpswProxy_connect e s =
     (let c = GetRemoteEndPt RPMESSAGE_ANY ''ti.ethfw.ethdevice'' CPSWPROXY_LOCATE_TIMEOUT;
          w = cword_of e (ccalls s) c; status = cstatus_of e (ccalls s) c; s = cissue c s
      in if status \<noteq> ETHFW_SOK then Some (status, s)
         else
           (let s = upd_cmdSvc (\<lambda>v. v\<lparr>csMasterCoreId := w 0, csMasterEndpt := w 1\<rparr>) s;
                c = GetRemoteEndPt (w 0) ''ti.ethfw.notifyservice'' ETHFWOSAL_WAIT_FOREVER;
                w = cword_of e (ccalls s) c; status = cstatus_of e (ccalls s) c; s = cissue c s
            in if status \<noteq> ETHFW_SOK then Some (status, s)
               else
                 (let s = upd_notifySvc (\<lambda>v. v\<lparr>nfMasterCoreId := w 0, nfMasterEndpt := w 1\<rparr>) s
                  in if heartBeatEn (gCpswProxy s) then start_heartbeat e s else Some (ETHFW_SOK, s))))"

end
