(* ===== verification/ProxyRpc.thy ===== *)
theory ProxyRpc
  imports ProxyClient Tokens
begin

text \<open>
  The client library and the server together: the shapes of the responses, a command as a remote
  call of the server's handler, a session of attach and detach, and what the wait for a response
  does with late responses and time-outs.
\<close>

section \<open>Waiting for a response\<close>

text \<open>The message in hand and the state after \<open>n\<close> turns.\<close>

definition pends :: "cenv \<Rightarrow> u32 \<Rightarrow> nat \<Rightarrow> (int \<times> CpswProxy_Msg) \<times> 'a cworld_scheme \<Rightarrow> (int \<times> CpswProxy_Msg) \<times> 'a cworld_scheme" where
  "pends e t n = (\<lambda>(r, s). pend_once e t r s) ^^ n"

lemma pends_simps:
  "pends e t 0 x = x" "pends e t (Suc n) x = pends e t n (pend_once e t (fst x) (snd x))"
  by (simp_all add: pends_def funpow_Suc_right case_prod_beta del: funpow.simps)

abbreviation late :: "u32 \<Rightarrow> (int \<times> CpswProxy_Msg) \<times> 'a \<Rightarrow> bool" where
  "late reqId x \<equiv> rsId (mRes (snd (fst x))) < reqId"

lemma await_step:
  "await_response e t reqId r s =
     (let x = pend_once e t r s in if late reqId x then await_response e t reqId (fst x) (snd x) else Some x)"
  by (subst await_response.simps) (simp add: Let_def case_prod_beta)

lemma await_Some:
  assumes "\<forall>k<n. late reqId (pends e t (Suc k) (r, s))" "\<not> late reqId (pends e t (Suc n) (r, s))"
  shows "await_response e t reqId r s = Some (pends e t (Suc n) (r, s))"
  using assms
proof (induction n arbitrary: r s)
  case 0
  then show ?case by (subst await_step) (simp add: pends_simps Let_def)
next
  case (Suc n)
  let ?x = "pend_once e t r s"
  have "await_response e t reqId (fst ?x) (snd ?x) = Some (pends e t (Suc n) (fst ?x, snd ?x))"
    by (rule Suc.IH) (use Suc.prems in \<open>auto simp: pends_simps(2) [of _ _ _ "(r, s)"]\<close>)
  moreover have "late reqId ?x"
    using Suc.prems(1) by (auto simp: pends_simps dest: spec [of _ 0])
  ultimately show ?case by (subst await_step) (simp add: pends_simps Let_def)
qed

lemma await_ends:
  fixes s :: "'a cworld_scheme"
  assumes "await_response e t reqId r s = Some y"
  shows "\<exists>n. \<not> late reqId (pends e t (Suc n) (r, s))"
proof (rule await_response.raw_induct [where P = "\<lambda>e t reqId r s y. \<exists>n. \<not> late reqId (pends e t (Suc n) (r, s))", OF _ assms])
  fix f :: "cenv \<Rightarrow> u32 \<Rightarrow> u32 \<Rightarrow> int \<times> CpswProxy_Msg \<Rightarrow> 'a cworld_scheme \<Rightarrow> ((int \<times> CpswProxy_Msg) \<times> 'a cworld_scheme) option"
    and e t reqId r s y
  assume IH: "\<And>e t reqId r s y. f e t reqId r s = Some y \<Longrightarrow> \<exists>n. \<not> late reqId (pends e t (Suc n) (r, s))"
    and eq: "(let (r, s) = pend_once e t r s in if rsId (mRes (snd r)) < reqId then f e t reqId r s else Some (r, s)) = Some y"
  let ?x = "pend_once e t r s"
  show "\<exists>n. \<not> late reqId (pends e t (Suc n) (r, s))"
  proof (cases "late reqId ?x")
    case True
    with eq have "f e t reqId (fst ?x) (snd ?x) = Some y" by (simp add: Let_def case_prod_beta)
    from IH [OF this] obtain n where "\<not> late reqId (pends e t (Suc n) (fst ?x, snd ?x))" by blast
    then show ?thesis by (intro exI [of _ "Suc n"]) (simp add: pends_simps)
  next
    case False
    then show ?thesis by (intro exI [of _ 0]) (simp add: pends_simps)
  qed
qed

lemma await_None: "\<forall>n. late reqId (pends e t (Suc n) (r, s)) \<Longrightarrow> await_response e t reqId r s = None"
  using await_ends by (metis not_Some_eq)

lemma pends_calls [simp]: "ccalls (snd (pends e t n x)) = ccalls (snd x) @ replicate n (PendMailbox t)"
  by (induction n arbitrary: x) (simp_all add: pends_simps pend_once_def)

lemma pends_Suc_end: "pends e t (Suc n) x = (let y = pends e t n x in pend_once e t (fst y) (snd y))"
  by (simp add: pends_def case_prod_beta Let_def)

section \<open>The structure of each response\<close>

text \<open>The response structure a client passes for a command.\<close>

fun cmd_res :: "EthRemoteCfg_Cmd \<Rightarrow> EthRemoteCfg_Payload" where
  "cmd_res CMD_VIRT_PORT_INFO = OfferVirtPortRes None"
| "cmd_res (CMD_ATTACH _) = AttachRes None None None"
| "cmd_res (CMD_ATTACH_EXT _) = AttachExtRes None None None None None None"
| "cmd_res (CMD_ALLOC_TX _) = AllocTxRes None"
| "cmd_res (CMD_ALLOC_RX _) = AllocRxRes None None"
| "cmd_res CMD_ALLOC_MAC = AllocMacRes None"
| "cmd_res CMD_PORT_LINK_STATUS = PortLinkStatusRes None None"
| "cmd_res CMD_GET_SERVER_STATUS = ServerStatusRes 0"
| "cmd_res CMD_ALLOC_CPTS_HW_PUSH = AllocHwPushRes None"
| "cmd_res _ = StatusRes"

text \<open>The number of a payload's structure.\<close>

fun res_kind :: "EthRemoteCfg_Payload \<Rightarrow> nat" where
  "res_kind StatusRes = 0"
| "res_kind (OfferVirtPortRes _) = 1"
| "res_kind (AttachRes _ _ _) = 2"
| "res_kind (AttachExtRes _ _ _ _ _ _) = 3"
| "res_kind (AllocTxRes _) = 4"
| "res_kind (AllocRxRes _ _) = 5"
| "res_kind (AllocMacRes _) = 6"
| "res_kind (PortLinkStatusRes _ _) = 7"
| "res_kind (ServerStatusRes _) = 8"
| "res_kind (AllocHwPushRes _) = 9"

abbreviation same_res :: "EthRemoteCfg_Payload \<Rightarrow> EthRemoteCfg_Payload \<Rightarrow> bool" where
  "same_res p q \<equiv> res_kind q = res_kind p"

lemma same_res_len: "same_res p q \<Longrightarrow> res_len e p = res_len e q"
  by (cases p; cases q) simp_all

lemma with_client_shape:
  "res_kind d = k \<Longrightarrow> (\<And>h s. res_kind (fst (snd (f h s))) = k) \<Longrightarrow> res_kind (fst (snd (with_client proc tok d f s))) = k"
  by (simp add: with_client_def split: option.split)

lemma status_only_shape [simp]: "fst (snd (status_only r)) = StatusRes"
  by (simp add: status_only_def)

lemma alloc_shapes:
  "same_res (AllocTxRes None) (fst (snd (cmd_alloc_tx e proc tok rel s)))"
  "same_res (AllocRxRes None None) (fst (snd (cmd_alloc_rx e proc tok rel s)))"
  by (simp_all add: cmd_alloc_tx_def cmd_alloc_rx_def Let_def case_prod_beta)

lemma handle_cmd_shape:
  "\<forall>p. cmd \<noteq> CMD_ATTACH p \<and> cmd \<noteq> CMD_ATTACH_EXT p \<Longrightarrow> same_res (cmd_res cmd) (fst (snd (handle_cmd e clId proc tok cmd s)))"
  by (cases cmd)
    (auto simp: handle_cmd_defs cmd_detach_def case_prod_beta Let_def alloc_shapes intro!: with_client_shape
      split: option.split)

lemma run_cmd_shape: "same_res (cmd_res (rqCmd req)) (fst (snd (snd (run_cmd e clId proc ep req s))))"
  using handle_cmd_shape [of "rqCmd req" e clId proc "rqToken req" s]
  by (cases "rqCmd req")
    (auto simp: run_cmd_def cmd_attach_def cmd_attach_ext_def case_prod_beta Let_def split: option.split prod.split)

lemma response_kind:
  "res_kind (rsPayload (fst (CpswProxyServer_clientRequestHandler e clId proc ep localEp req s))) = res_kind (cmd_res (rqCmd req))"
  using run_cmd_shape [of e clId proc ep req s]
  by (simp add: CpswProxyServer_clientRequestHandler_def Let_def case_prod_beta)

lemma response_len:
  "res_len ce (rsPayload (fst (CpswProxyServer_clientRequestHandler e clId proc ep localEp req s))) = res_len ce (cmd_res (rqCmd req))"
  by (rule same_res_len [symmetric, OF response_kind])

text \<open>Property C31 (type).  The server answers every command, whatever its outcome, with the response structure the client
  library passes for that command, so with the length the client expects; an unknown command is
  answered with a bare status.\<close>

theorem response_types:
  "let p = rsPayload (fst (CpswProxyServer_clientRequestHandler e clId proc ep localEp req s))
   in same_res (cmd_res (rqCmd req)) p \<and> res_len ce p = res_len ce (cmd_res (rqCmd req))"
  unfolding Let_def by (intro conjI response_kind response_len)

lemma response_id [simp]:
  "rsId (fst (CpswProxyServer_clientRequestHandler e clId proc ep localEp req s)) = rqId req"
  by (simp add: CpswProxyServer_clientRequestHandler_def Let_def case_prod_beta)

section \<open>A command as a remote call\<close>

text \<open>The request a client sends, and the call that sends it.\<close>

definition sent_req :: "nat \<Rightarrow> EthRemoteCfg_Cmd \<Rightarrow> 'a pc_st_scheme \<Rightarrow> EthRemoteCfg_Req" where
  "sent_req h cmd c = \<lparr>rqToken = pcToken (pc_at c h), rqId = pcReqId (pc_at c h), rqCmd = cmd\<rparr>"

definition send_call :: "nat \<Rightarrow> EthRemoteCfg_Cmd \<Rightarrow> 'a pc_st_scheme \<Rightarrow> ccall" where
  "send_call h cmd c = (let svc = cmdSvc (gCpswProxy c) in
     SendReq (csMasterCoreId svc) (csMasterEndpt svc) (csLocalEndpt svc) ETHREMOTECFG_CLIENTID_RTOS (sent_req h cmd c))"

text \<open>What the server makes of a request of the client on core \<open>core\<close>.\<close>

definition served :: "env \<Rightarrow> u32 \<Rightarrow> nat \<Rightarrow> EthRemoteCfg_Cmd \<Rightarrow> 'a pc_st_scheme \<Rightarrow> 'b proxy_st_scheme \<Rightarrow> EthRemoteCfg_Res \<times> 'b proxy_st_scheme" where
  "served e core h cmd c srv = (let svc = cmdSvc (gCpswProxy c) in
     CpswProxyServer_clientRequestHandler e (ucast ETHREMOTECFG_CLIENTID_RTOS) core (csLocalEndpt svc) (csMasterEndpt svc)
       (sent_req h cmd c) srv)"

text \<open>
  The client's environment when the server, in state \<open>srv\<close>, answers the last request sent: sending
  succeeds, and a wait that follows a request finds the server's response.
\<close>

definition linked :: "env \<Rightarrow> u32 \<Rightarrow> 'b proxy_st_scheme \<Rightarrow> cenv \<Rightarrow> cenv" where
  "linked e core srv ce = ce
     \<lparr>cstatus_of := \<lambda>cs c. (case c of SendReq _ _ _ _ _ \<Rightarrow> ETHFW_SOK | _ \<Rightarrow> cstatus_of ce cs c),
      pend_of := \<lambda>cs. (case last cs of
          SendReq dst dstEp srcEp clId req \<Rightarrow>
            (let res = fst (CpswProxyServer_clientRequestHandler e (ucast clId) core srcEp dstEp req srv)
             in MbxMsg \<lparr>mLen = res_len ce (rsPayload res), mRes = res\<rparr>)
        | _ \<Rightarrow> pend_of ce cs)\<rparr>"

lemma res_len_linked [simp]: "res_len (linked e core srv ce) p = res_len ce p"
  by (cases p) (simp_all add: linked_def)

definition bump :: "nat \<Rightarrow> 'a pc_st_scheme \<Rightarrow> 'a pc_st_scheme" where
  "bump h = upd_pc h (\<lambda>c. c\<lparr>pcReqId := pcReqId c + 1\<rparr>)"

definition after_cmd :: "nat \<Rightarrow> EthRemoteCfg_Cmd \<Rightarrow> 'a pc_st_scheme \<Rightarrow> 'a pc_st_scheme" where
  "after_cmd h cmd c = cissue (PendMailbox (cmdTimeoutInMsecs (gCpswProxy c))) (cissue (send_call h cmd c) (bump h c))"

lemma upd_pc_simps [simp]:
  "ccalls (upd_pc h f s) = ccalls s"
  "cmdSvc (gCpswProxy (upd_pc h f s)) = cmdSvc (gCpswProxy s)"
  "cmdTimeoutInMsecs (gCpswProxy (upd_pc h f s)) = cmdTimeoutInMsecs (gCpswProxy s)"
  "length (pxClientObj (gCpswProxy (upd_pc h f s))) = length (pxClientObj (gCpswProxy s))"
  "h < length (pxClientObj (gCpswProxy s)) \<Longrightarrow> pc_at (upd_pc h f s) h = f (pc_at s h)"
  "h' \<noteq> h \<Longrightarrow> pc_at (upd_pc h f s) h' = pc_at s h'"
  by (simp_all add: upd_pc_def upd_px_def pc_at_def)

lemma px_cissue [simp]: "gCpswProxy (cissue c s) = gCpswProxy s" "pc_at (cissue c s) = pc_at s"
  by (simp_all add: cissue_def pc_at_def fun_eq_iff)

lemma bump_calls [simp]: "ccalls (bump h s) = ccalls s"
  by (simp add: bump_def)

lemma sendCmd_eq:
  "CpswProxy_sendCmd e h cmd len c =
     (let s = cissue (send_call h cmd c) (bump h c); st = cstatus_of e (ccalls c) (send_call h cmd c); reqId = pcReqId (pc_at c h) in
      if st \<noteq> ETHFW_SOK then Some (st, None, s)
      else (case await_response e (cmdTimeoutInMsecs (gCpswProxy c)) reqId (ETHFW_SOK, stackMsg e (ccalls s)) s of
              None \<Rightarrow> None
            | Some ((st, m), s) \<Rightarrow> (case take_response reqId len st m of (st, res) \<Rightarrow> Some (st, res, s))))"
  by (simp add: CpswProxy_sendCmd_def send_call_def sent_req_def bump_def Let_def)

lemma sendCmd_linked:
  fixes c :: "'a pc_st_scheme" and srv :: "'b proxy_st_scheme"
  shows "CpswProxy_sendCmd (linked e core srv ce) h cmd (res_len ce (cmd_res cmd)) c =
     (let res = fst (served e core h cmd c srv) in Some (rsStatus res, Some res, after_cmd h cmd c))"
proof -
  let ?e = "linked e core srv ce" and ?res = "fst (served e core h cmd c srv)" and ?id = "pcReqId (pc_at c h)"
  let ?s = "cissue (send_call h cmd c) (bump h c)" and ?m = "\<lparr>mLen = res_len ce (cmd_res cmd), mRes = fst (served e core h cmd c srv)\<rparr>"
  have len: "res_len ce (rsPayload ?res) = res_len ce (cmd_res cmd)"
    unfolding served_def Let_def by (simp add: response_len sent_req_def)
  have id: "rsId ?res = ?id" by (simp add: served_def sent_req_def Let_def)
  have pend: "pend_of ?e (ccalls ?s) = MbxMsg ?m"
    using len by (simp add: linked_def send_call_def served_def Let_def)
  have "pend_once ?e t (ETHFW_SOK, m) ?s = ((ETHFW_SOK, ?m), cissue (PendMailbox t) ?s)" for t m
    by (simp add: pend_once_def pend del: cissue_simps)
  then have "await_response ?e (cmdTimeoutInMsecs (gCpswProxy c)) ?id (ETHFW_SOK, stackMsg ?e (ccalls ?s)) ?s =
      Some ((ETHFW_SOK, ?m), after_cmd h cmd c)"
    by (subst await_step) (simp add: Let_def id after_cmd_def del: cissue_simps)
  moreover have "cstatus_of ?e (ccalls c) (send_call h cmd c) = ETHFW_SOK"
    by (simp add: linked_def send_call_def Let_def)
  ultimately show ?thesis
    by (simp add: sendCmd_eq Let_def take_response_def id)
qed

text \<open>Property C20 (functional).  With nothing left over in the mailbox, a command sent by a client is a call of the server's
  handler: the client gets the status and the response the handler computes for the request of its
  client object, after one send and one wait, and only its request id has moved.\<close>

theorem client_remote_call:
  fixes c :: "'a pc_st_scheme"
  assumes "h < length (pxClientObj (gCpswProxy c))"
  shows "let res = fst (served e core h cmd c srv) in
     \<exists>c'. CpswProxy_sendCmd (linked e core srv ce) h cmd (res_len ce (cmd_res cmd)) c = Some (rsStatus res, Some res, c')
      \<and> ccalls c' = ccalls c @ [send_call h cmd c, PendMailbox (cmdTimeoutInMsecs (gCpswProxy c))]
      \<and> pc_at c' h = (pc_at c h)\<lparr>pcReqId := pcReqId (pc_at c h) + 1\<rparr>
      \<and> (\<forall>h'. h' \<noteq> h \<longrightarrow> pc_at c' h' = pc_at c h')"
  using assms by (simp add: sendCmd_linked Let_def after_cmd_def bump_def)

section \<open>A session\<close>

lemma detach_status:
  "initDone (gProxyServerObj s) \<Longrightarrow> hMcmCmdIf (gProxyServerObj s) \<Longrightarrow> fst (CpswProxyServer_detachHandlerCb proc s) = ETHFW_SOK"
  by (simp add: CpswProxyServer_detachHandlerCb_def CpswProxyServer_getHandle_def Let_def)

lemma cmd_attach_mcm: "hMcmCmdIf (gProxyServerObj (snd (snd (snd (cmd_attach e clId proc ep tok port s))))) = hMcmCmdIf (gProxyServerObj s)"
  by (simp add: cmd_attach_def CpswProxyServer_allocClient_def CpswProxyServer_attachHandlerCb_def attach_core_def
      upd_client_def Let_def case_prod_beta split: option.split prod.split)

lemma token_not_none [simp]: "CPSWPROXY_VIRTPORT_2_TOKEN port \<noteq> ETHREMOTECFG_TOKEN_NONE"
proof
  assume "CPSWPROXY_VIRTPORT_2_TOKEN port = ETHREMOTECFG_TOKEN_NONE"
  moreover have "even (CPSWPROXY_VIRTPORT_2_TOKEN port)" by (simp add: CPSWPROXY_VIRTPORT_2_TOKEN_def)
  ultimately show False by (simp add: ETHREMOTECFG_TOKEN_NONE_def)
qed

text \<open>A request of the client as one of the requests the server serves.\<close>

abbreviation request_of :: "u32 \<Rightarrow> nat \<Rightarrow> EthRemoteCfg_Cmd \<Rightarrow> 'a pc_st_scheme \<Rightarrow> request" where
  "request_of core h cmd c \<equiv> (let svc = cmdSvc (gCpswProxy c) in
     (ucast ETHREMOTECFG_CLIENTID_RTOS, core, csLocalEndpt svc, csMasterEndpt svc, sent_req h cmd c))"

lemma served_serve: "snd (served e core h cmd c srv) = serve e (request_of core h cmd c) srv"
  by (simp add: served_def serve_def Let_def)

lemma sig_inv_on:
  assumes "sig_inv n (srv_sig s)"
  shows "initDone (gProxyServerObj s)" "hMcmCmdIf (gProxyServerObj s)" "length (coreObj (gProxyServerObj s)) = n"
  using assms by (auto simp: sig_inv_def srv_sig_def)

lemma detach_cmd_eq:
  "CpswProxy_detach (linked e core x ce) h y = Some (rsStatus (fst (served e core h CMD_DETACH y x)), after_cmd h CMD_DETACH y)"
  using sendCmd_linked [of e core x ce h CMD_DETACH y] by (simp add: CpswProxy_detach_def CpswProxy_status_cmd_def Let_def)

text \<open>The attach of a client: it holds the token, and so does one client object of the server.\<close>

lemma attach_holds:
  fixes c :: "'a pc_st_scheme" and srv :: "'b proxy_st_scheme"
  assumes inv: "sig_inv n (srv_sig srv)" "unat core < n"
    and mtu: "mtu_ok e core srv" and idle: "\<exists>x\<in>set (clients core srv). \<not> inUse x"
    and free: "CpswProxyServer_getClient core (CPSWPROXY_VIRTPORT_2_TOKEN port) (gProxyServerObj srv) = None"
    and h: "h < length (pxClientObj (gCpswProxy c))"
  obtains outs c1 i where "CpswProxy_attach (linked e core srv ce) h port c = Some (ETHFW_SOK, Some outs, c1)"
    "pcToken (pc_at c1 h) = CPSWPROXY_VIRTPORT_2_TOKEN port" "h < length (pxClientObj (gCpswProxy c1))"
    "holders core (CPSWPROXY_VIRTPORT_2_TOKEN port) (snd (served e core h (CMD_ATTACH port) c srv)) = {i}"
proof -
  let ?t = "CPSWPROXY_VIRTPORT_2_TOKEN port" and ?svc = "cmdSvc (gCpswProxy c)"
  let ?req = "sent_req h (CMD_ATTACH port) c" and ?cl = "ucast ETHREMOTECFG_CLIENTID_RTOS :: u8"
  let ?ep = "csLocalEndpt ?svc" and ?lep = "csMasterEndpt ?svc"
  have on: "initDone (gProxyServerObj srv)" "unat core < length (coreObj (gProxyServerObj srv))"
    using sig_inv_on [OF inv(1)] inv(2) by simp_all
  obtain i where i: "first_idx (\<lambda>x. \<not> inUse x) (clients core srv) = Some i"
    using idle by (metis first_idx_None not_Some_eq)
  obtain tok' p s1 where r: "cmd_attach e ?cl core ?ep (rqToken ?req) port srv = (ETHFW_SOK, tok', p, s1)"
    using cmd_attach_clients [OF on i, of e ?cl ?ep "rqToken ?req" port] mtu
    by (cases "cmd_attach e ?cl core ?ep (rqToken ?req) port srv") (auto simp: Let_def)
  show thesis
  proof (rule attach_token_clients [OF on free i r])
    fix x
    assume tok': "tok' = ?t" and x: "clients core s1 = (clients core srv)[i := x]" "i < length (clients core srv)" "inUse x" "token x = ?t"
    have at: "served e core h (CMD_ATTACH port) c srv =
        (let res = \<lparr>rsToken = ?t, rsClientId = ucast ?cl, rsType = 1, rsId = rqId ?req, rsStatus = ETHFW_SOK, rsPayload = p\<rparr>
         in (res, issue (reply_call core ?ep ?lep res) s1))"
      by (simp add: served_def request_attach sent_req_def r [unfolded sent_req_def, simplified] tok' Let_def)
    obtain outs f where a: "CpswProxy_attach (linked e core srv ce) h port c =
        Some (ETHFW_SOK, Some outs, upd_pc h (\<lambda>x. x\<lparr>pcToken := ?t, pcFeatures := f\<rparr>) (after_cmd h (CMD_ATTACH port) c))"
      using sendCmd_linked [of e core srv ce h "CMD_ATTACH port" c]
      by (simp add: CpswProxy_attach_def at Let_def case_prod_beta)
    have "holders core ?t srv = {}" using free by (simp add: getClient_holders(1))
    then have "holders core ?t s1 = {i}"
      using x by (auto simp: holders_def nth_list_update)
    then have "holders core ?t (snd (served e core h (CMD_ATTACH port) c srv)) = {i}" by (simp add: at Let_def)
    then show thesis by (rule that [OF a, rotated 2]) (use h in \<open>simp_all add: after_cmd_def bump_def\<close>)
  qed
qed

text \<open>The detach by a token that one client object holds.\<close>

lemma detach_frees:
  assumes inv: "sig_inv n (srv_sig srv)" "unat core < n" and one: "holders core t srv = {i}" and c: "pcToken (pc_at c h) = t"
  shows "rsStatus (fst (served e core h CMD_DETACH c srv)) = ETHFW_SOK" "holders core t (snd (served e core h CMD_DETACH c srv)) = {}"
proof -
  note on = sig_inv_on [OF inv(1)]
  have got: "CpswProxyServer_getClient core t (gProxyServerObj srv) = Some (unat core, i)" by (rule getClient_holders(2) [OF one])
  have i: "i < length (clients core srv)" using one by (auto simp: holders_def)
  let ?s1 = "snd (CpswProxyServer_detachHandlerCb core srv)"
  have s1: "holders core t ?s1 = {i}" "initDone (gProxyServerObj ?s1)"
    using one on(1) by (simp_all add: CpswProxyServer_detachHandlerCb_def Let_def)
  have "holders core t (upd_client (unat core, i) (\<lambda>_. client_zero\<lparr>inUse := False, token := ETHREMOTECFG_TOKEN_NONE\<rparr>) ?s1) = {}"
  proof -
    have "i < length (clients core ?s1)" using s1(1) by (auto simp: holders_def)
    moreover have "unat core < length (coreObj (gProxyServerObj ?s1))"
      using inv(2) on(3) by (simp add: CpswProxyServer_detachHandlerCb_def Let_def)
    ultimately show ?thesis by (simp add: holders_upd s1(1) Let_def)
  qed
  then have "holders core t (CpswProxyServer_freeClient (unat core, i) ?s1) = {}"
    using s1(2) by (simp add: CpswProxyServer_freeClient_def CpswProxyServer_getHandle_def)
  then show "rsStatus (fst (served e core h CMD_DETACH c srv)) = ETHFW_SOK" "holders core t (snd (served e core h CMD_DETACH c srv)) = {}"
    using got on c by (simp_all add: served_def request_cmd sent_req_def handle_cmd_def cmd_detach_def Let_def case_prod_beta detach_status)
qed

text \<open>Property C9 (roundtrip).  A client attaches to a server with a free client object, when no other client of its core holds
  the port's token.  Whatever requests of whatever cores the server then gets, as long as none of them attaches
  that port from the same core or detaches by the token there, the token names the client's object; the client's
  detach is then answered OK, the token names nobody, and however many requests follow that do not
  attach the port from the core, the client, which keeps the token, is refused when it detaches again.\<close>

theorem client_session:
  fixes c :: "'a pc_st_scheme" and srv :: "'b proxy_st_scheme"
  assumes inv: "sig_inv n (srv_sig srv)" "unat core < n"
    and room: "mtu_ok e core srv" "\<exists>x\<in>set (clients core srv). \<not> inUse x" "h < length (pxClientObj (gCpswProxy c))"
    and free: "CpswProxyServer_getClient core (CPSWPROXY_VIRTPORT_2_TOKEN port) (gProxyServerObj srv) = None"
    and between: "\<forall>r\<in>set rs. unat (rq_core r) < n \<and> \<not> claims core (CPSWPROXY_VIRTPORT_2_TOKEN port) r
      \<and> \<not> drops core (CPSWPROXY_VIRTPORT_2_TOKEN port) r"
    and after: "\<forall>r\<in>set rs'. \<not> claims core (CPSWPROXY_VIRTPORT_2_TOKEN port) r"
  shows "let t = CPSWPROXY_VIRTPORT_2_TOKEN port; srv1 = snd (served e core h (CMD_ATTACH port) c srv); srv2 = fold (serve e) rs srv1 in
     \<exists>outs c1 i. CpswProxy_attach (linked e core srv ce) h port c = Some (ETHFW_SOK, Some outs, c1)
      \<and> pcToken (pc_at c1 h) = t \<and> CpswProxyServer_getClient core t (gProxyServerObj srv1) = Some (unat core, i)
      \<and> CpswProxyServer_getClient core t (gProxyServerObj srv2) = Some (unat core, i)
      \<and> (\<forall>c2 :: 'a pc_st_scheme. h < length (pxClientObj (gCpswProxy c2)) \<longrightarrow> pcToken (pc_at c2 h) = t \<longrightarrow>
          (let srv3 = snd (served e core h CMD_DETACH c2 srv2); srv4 = fold (serve e) rs' srv3 in
           \<exists>c3 c4. CpswProxy_detach (linked e core srv2 ce) h c2 = Some (ETHFW_SOK, c3)
            \<and> CpswProxyServer_getClient core t (gProxyServerObj srv3) = None
            \<and> CpswProxyServer_getClient core t (gProxyServerObj srv4) = None
            \<and> pcToken (pc_at c3 h) = t
            \<and> CpswProxy_detach (linked e core srv4 ce) h c3 = Some (ETHFW_EINVALIDPARAMS, c4)))"
proof -
  let ?t = "CPSWPROXY_VIRTPORT_2_TOKEN port" and ?srv1 = "snd (served e core h (CMD_ATTACH port) c srv)"
  let ?srv2 = "fold (serve e) rs ?srv1"
  obtain outs c1 i where a: "CpswProxy_attach (linked e core srv ce) h port c = Some (ETHFW_SOK, Some outs, c1)"
    "pcToken (pc_at c1 h) = ?t" "holders core ?t ?srv1 = {i}"
    by (rule attach_holds [OF inv room(1,2) free room(3), of ce])
  have h2: "holders core ?t ?srv2 = {i}" using holders_run [of ?t rs core e ?srv1] between a(3) by simp
  have "sig_inv n (srv_sig (fold (serve e) (request_of core h (CMD_ATTACH port) c # rs) srv))"
    by (rule serve_inv [OF inv(1)]) (use inv(2) between in \<open>auto simp: Let_def\<close>)
  then have inv2: "sig_inv n (srv_sig ?srv2)" by (simp add: served_serve)
  show ?thesis
    unfolding Let_def
  proof (rule exI [of _ outs], rule exI [of _ c1], rule exI [of _ i], intro conjI allI impI)
    show "CpswProxyServer_getClient core ?t (gProxyServerObj ?srv1) = Some (unat core, i)"
      "CpswProxyServer_getClient core ?t (gProxyServerObj ?srv2) = Some (unat core, i)"
      using getClient_holders(2) [OF a(3)] getClient_holders(2) [OF h2] by simp_all
    fix c2 :: "'a pc_st_scheme"
    assume c2: "h < length (pxClientObj (gCpswProxy c2))" "pcToken (pc_at c2 h) = ?t"
    let ?srv3 = "snd (served e core h CMD_DETACH c2 ?srv2)"
    let ?srv4 = "fold (serve e) rs' ?srv3" and ?c3 = "after_cmd h CMD_DETACH c2"
    note d = detach_frees [OF inv2 inv(2) h2 c2(2), of e]
    have h4: "holders core ?t ?srv4 = {}" by (rule holders_none [OF token_not_none d(2) after])
    have none: "CpswProxyServer_getClient core ?t (gProxyServerObj ?srv3) = None" "CpswProxyServer_getClient core ?t (gProxyServerObj ?srv4) = None"
      using d(2) h4 by (simp_all add: getClient_holders(1))
    have c3: "pcToken (pc_at ?c3 h) = ?t" using c2 by (simp add: after_cmd_def bump_def)
    have again: "rsStatus (fst (served e core h CMD_DETACH ?c3 ?srv4)) = ETHFW_EINVALIDPARAMS"
      using c3 none(2) by (simp add: served_def [of _ _ _ _ ?c3] request_cmd sent_req_def handle_cmd_def cmd_detach_def Let_def
          case_prod_beta)
    show "\<exists>c3 c4. CpswProxy_detach (linked e core ?srv2 ce) h c2 = Some (ETHFW_SOK, c3)
        \<and> CpswProxyServer_getClient core ?t (gProxyServerObj ?srv3) = None \<and> CpswProxyServer_getClient core ?t (gProxyServerObj ?srv4) = None
        \<and> pcToken (pc_at c3 h) = ?t \<and> CpswProxy_detach (linked e core ?srv4 ce) h c3 = Some (ETHFW_EINVALIDPARAMS, c4)"
      by (rule exI [of _ ?c3], rule exI [of _ "after_cmd h CMD_DETACH ?c3"]) (simp only: detach_cmd_eq d(1) none c3 again simp_thms)
  qed (use a in simp_all)
qed

section \<open>Late responses and time-outs\<close>

lemma pend_at:
  "pends e t (Suc n) (r, s) =
     ((case pend_of e (ccalls s @ replicate n (PendMailbox t)) of
         MbxTimeout \<Rightarrow> (ETHFW_ETIMEOUT, snd (fst (pends e t n (r, s))))
       | MbxFail \<Rightarrow> (ETHFW_EFAIL, snd (fst (pends e t n (r, s))))
       | MbxMsg m \<Rightarrow> (fst (fst (pends e t n (r, s))), m)),
      cissue (PendMailbox t) (snd (pends e t n (r, s))))"
  by (simp add: pends_Suc_end pend_once_def Let_def)

lemma stays_late:
  assumes "\<forall>i x. pend_of e (ccalls s @ replicate i (PendMailbox t)) = MbxMsg x \<longrightarrow> rsId (mRes x) < reqId"
    and "(\<exists>x. pend_of e (ccalls s) = MbxMsg x) \<or> rsId (mRes (snd r)) < reqId"
  shows "late reqId (pends e t (Suc n) (r, s))"
proof (induction n)
  case 0
  have "pend_of e (ccalls s) = MbxMsg x \<longrightarrow> rsId (mRes x) < reqId" for x
    using assms(1) [THEN spec, of 0] by simp
  with assms(2) show ?case
    by (cases "pend_of e (ccalls s)") (auto simp: pend_at pends_simps(1))
next
  case (Suc n)
  with assms(1) show ?case
    by (subst pend_at) (auto split: CpswProxy_Pend.split simp del: replicate_Suc)
qed

lemma late_run:
  assumes "\<forall>i<k. \<exists>x. pend_of e (ccalls s @ replicate i (PendMailbox t)) = MbxMsg x \<and> rsId (mRes x) < reqId"
  shows "n \<le> k \<Longrightarrow> fst (fst (pends e t n (r, s))) = fst r \<and> (0 < n \<longrightarrow> late reqId (pends e t n (r, s)))"
proof (induction n)
  case 0
  then show ?case by (simp add: pends_simps)
next
  case (Suc n)
  with assms obtain x where "pend_of e (ccalls s @ replicate n (PendMailbox t)) = MbxMsg x" "rsId (mRes x) < reqId"
    by (auto simp: less_eq_Suc_le)
  with Suc show ?case by (simp add: pend_at del: replicate_Suc)
qed

lemma await_first_answer:
  assumes late: "\<forall>i<k. \<exists>x. pend_of e (ccalls s @ replicate i (PendMailbox t)) = MbxMsg x \<and> rsId (mRes x) < reqId"
    and y: "pend_of e (ccalls s @ replicate k (PendMailbox t)) = MbxMsg y" "reqId \<le> rsId (mRes y)"
  shows "\<exists>s'. await_response e t reqId r s = Some ((fst r, y), s') \<and> ccalls s' = ccalls s @ replicate (Suc k) (PendMailbox t)"
proof -
  have "pends e t (Suc k) (r, s) = ((fst r, y), cissue (PendMailbox t) (snd (pends e t k (r, s))))"
    using late_run [OF late, of k r] y(1) by (simp add: pend_at)
  with late_run [OF late] y(2) have "await_response e t reqId r s = Some ((fst r, y), cissue (PendMailbox t) (snd (pends e t k (r, s))))"
    by (subst await_Some [of k]) auto
  then show ?thesis by (simp add: replicate_append_same [symmetric])
qed

text \<open>What the mailbox gives on the \<open>n\<close>-th wait of a command.\<close>

definition mbx :: "cenv \<Rightarrow> nat \<Rightarrow> EthRemoteCfg_Cmd \<Rightarrow> 'a pc_st_scheme \<Rightarrow> nat \<Rightarrow> CpswProxy_Pend" where
  "mbx e h cmd c n = pend_of e (ccalls c @ send_call h cmd c # replicate n (PendMailbox (cmdTimeoutInMsecs (gCpswProxy c))))"

lemma client_wait_parts:
  fixes c :: "'a pc_st_scheme"
  assumes sent: "cstatus_of e (ccalls c) (send_call h cmd c) = ETHFW_SOK"
  defines "reqId \<equiv> pcReqId (pc_at c h)" and "stack \<equiv> stackMsg e (ccalls c @ [send_call h cmd c])"
  shows "\<forall>k y. (\<forall>i<k. \<exists>x. mbx e h cmd c i = MbxMsg x \<and> rsId (mRes x) < reqId) \<longrightarrow>
       mbx e h cmd c k = MbxMsg y \<longrightarrow> reqId \<le> rsId (mRes y) \<longrightarrow>
       (\<exists>c'. CpswProxy_sendCmd e h cmd len c = Some (if mLen y \<noteq> len then (ETHFW_EUNEXPECTED, None, c')
          else (if rsId (mRes y) = reqId then rsStatus (mRes y) else ETHFW_EUNEXPECTED, Some (mRes y), c')))"
    and "(\<forall>i x. mbx e h cmd c i = MbxMsg x \<longrightarrow> rsId (mRes x) < reqId) \<longrightarrow>
       (\<exists>x. mbx e h cmd c 0 = MbxMsg x) \<or> rsId (mRes stack) < reqId \<longrightarrow> CpswProxy_sendCmd e h cmd len c = None"
    and "mbx e h cmd c 0 = MbxTimeout \<longrightarrow> reqId \<le> rsId (mRes stack) \<or> (\<exists>y. mbx e h cmd c 1 = MbxMsg y \<and> rsId (mRes y) = reqId) \<longrightarrow>
       (\<exists>c'. CpswProxy_sendCmd e h cmd len c = Some (ETHFW_ETIMEOUT, None, c'))"
proof -
  let ?t = "cmdTimeoutInMsecs (gCpswProxy c)" and ?s = "cissue (send_call h cmd c) (bump h c)"
  have cs: "ccalls ?s = ccalls c @ [send_call h cmd c]" by simp
  have mb: "mbx e h cmd c n = pend_of e (ccalls ?s @ replicate n (PendMailbox ?t))" for n
    by (simp add: mbx_def)
  have run: "CpswProxy_sendCmd e h cmd len c =
      (case await_response e ?t reqId (ETHFW_SOK, stack) ?s of None \<Rightarrow> None
       | Some ((st, m), s) \<Rightarrow> (case take_response reqId len st m of (st, res) \<Rightarrow> Some (st, res, s)))"
    using sent by (simp add: sendCmd_eq reqId_def stack_def Let_def split: option.split prod.split)
  show "\<forall>k y. (\<forall>i<k. \<exists>x. mbx e h cmd c i = MbxMsg x \<and> rsId (mRes x) < reqId) \<longrightarrow>
       mbx e h cmd c k = MbxMsg y \<longrightarrow> reqId \<le> rsId (mRes y) \<longrightarrow>
       (\<exists>c'. CpswProxy_sendCmd e h cmd len c = Some (if mLen y \<noteq> len then (ETHFW_EUNEXPECTED, None, c')
          else (if rsId (mRes y) = reqId then rsStatus (mRes y) else ETHFW_EUNEXPECTED, Some (mRes y), c')))"
  proof (intro allI impI)
    fix k y
    assume a: "\<forall>i<k. \<exists>x. mbx e h cmd c i = MbxMsg x \<and> rsId (mRes x) < reqId" "mbx e h cmd c k = MbxMsg y"
      "reqId \<le> rsId (mRes y)"
    from await_first_answer [OF a(1,2) [unfolded mb], of "(ETHFW_SOK, stack)"] a(3)
    obtain s' where "await_response e ?t reqId (ETHFW_SOK, stack) ?s = Some ((ETHFW_SOK, y), s')" by auto
    then show "\<exists>c'. CpswProxy_sendCmd e h cmd len c = Some (if mLen y \<noteq> len then (ETHFW_EUNEXPECTED, None, c')
          else (if rsId (mRes y) = reqId then rsStatus (mRes y) else ETHFW_EUNEXPECTED, Some (mRes y), c'))"
      using a(3) by (auto simp: run take_response_def)
  qed
  show "(\<forall>i x. mbx e h cmd c i = MbxMsg x \<longrightarrow> rsId (mRes x) < reqId) \<longrightarrow>
       (\<exists>x. mbx e h cmd c 0 = MbxMsg x) \<or> rsId (mRes stack) < reqId \<longrightarrow> CpswProxy_sendCmd e h cmd len c = None"
    using stays_late [of e ?s ?t reqId "(ETHFW_SOK, stack)"] by (simp add: mb run await_None)
  show "mbx e h cmd c 0 = MbxTimeout \<longrightarrow> reqId \<le> rsId (mRes stack) \<or> (\<exists>y. mbx e h cmd c 1 = MbxMsg y \<and> rsId (mRes y) = reqId) \<longrightarrow>
       (\<exists>c'. CpswProxy_sendCmd e h cmd len c = Some (ETHFW_ETIMEOUT, None, c'))"
  proof (intro impI)
    assume 0: "mbx e h cmd c 0 = MbxTimeout" and
      1: "reqId \<le> rsId (mRes stack) \<or> (\<exists>y. mbx e h cmd c 1 = MbxMsg y \<and> rsId (mRes y) = reqId)"
    let ?p = "\<lambda>n. pends e ?t n ((ETHFW_SOK, stack), ?s)"
    have p1: "fst (?p (Suc 0)) = (ETHFW_ETIMEOUT, stack)"
      using 0 by (simp add: mb pend_at pends_simps(1) del: cissue_simps)
    show "\<exists>c'. CpswProxy_sendCmd e h cmd len c = Some (ETHFW_ETIMEOUT, None, c')"
    proof (cases "reqId \<le> rsId (mRes stack)")
      case True
      then have "await_response e ?t reqId (ETHFW_SOK, stack) ?s = Some (?p (Suc 0))"
        using p1 by (intro await_Some) auto
      then show ?thesis using p1 by (cases "?p (Suc 0)") (auto simp: run take_response_def)
    next
      case False
      with 1 obtain y where y: "mbx e h cmd c 1 = MbxMsg y" "rsId (mRes y) = reqId" by auto
      have p2: "fst (?p (Suc 1)) = (ETHFW_ETIMEOUT, y)"
        using p1 y(1) by (subst pend_at) (simp add: mb del: cissue_simps)
      have "await_response e ?t reqId (ETHFW_SOK, stack) ?s = Some (?p (Suc 1))"
        using p1 p2 False y(2) by (intro await_Some) auto
      then show ?thesis using p2 by (cases "?p (Suc 1)") (auto simp: run take_response_def)
    qed
  qed
qed
text \<open>Property C28 (liveness).  When the waits of a command give only late responses, with ids below its own, until one that
  is not, the command drops the late ones and ends with that response: with its status when the id is its own
  and the length the expected one, as unexpected otherwise.  When no wait gives such a response, and either the first
  wait gives a late one or what the stack held before it has an id below the command's, the command never
  returns, whatever time-outs there are.  When the first wait times out, the command returns
  the time-out if the stack's id is not below its own, as for a client's first command, and also when the
  response arrives in the second wait.\<close>

theorem client_wait:
  fixes c :: "'a pc_st_scheme"
  assumes sent: "cstatus_of e (ccalls c) (send_call h cmd c) = ETHFW_SOK"
  shows "let reqId = pcReqId (pc_at c h); stack = stackMsg e (ccalls c @ [send_call h cmd c]); m = mbx e h cmd c in
     (\<forall>k y. (\<forall>i<k. \<exists>x. m i = MbxMsg x \<and> rsId (mRes x) < reqId) \<longrightarrow> m k = MbxMsg y \<longrightarrow> reqId \<le> rsId (mRes y) \<longrightarrow>
       (\<exists>c'. CpswProxy_sendCmd e h cmd len c = Some (if mLen y \<noteq> len then (ETHFW_EUNEXPECTED, None, c')
          else (if rsId (mRes y) = reqId then rsStatus (mRes y) else ETHFW_EUNEXPECTED, Some (mRes y), c'))))
   \<and> ((\<forall>i x. m i = MbxMsg x \<longrightarrow> rsId (mRes x) < reqId) \<longrightarrow> (\<exists>x. m 0 = MbxMsg x) \<or> rsId (mRes stack) < reqId \<longrightarrow>
       CpswProxy_sendCmd e h cmd len c = None)
   \<and> (m 0 = MbxTimeout \<longrightarrow> reqId \<le> rsId (mRes stack) \<or> (\<exists>y. m 1 = MbxMsg y \<and> rsId (mRes y) = reqId) \<longrightarrow>
       (\<exists>c'. CpswProxy_sendCmd e h cmd len c = Some (ETHFW_ETIMEOUT, None, c')))"
  unfolding Let_def by (intro conjI client_wait_parts [OF sent])

text \<open>Waiting changes nothing but the list of calls.\<close>

lemma pends_px [simp]: "gCpswProxy (snd (pends e t n x)) = gCpswProxy (snd x)"
  by (induction n arbitrary: x) (simp_all add: pends_simps pend_once_def)

lemma await_px:
  assumes "await_response e t reqId r (s :: 'a pc_st_scheme) = Some (m, s')"
  shows "gCpswProxy s' = gCpswProxy s \<and> (\<exists>n. ccalls s' = ccalls s @ replicate (Suc n) (PendMailbox t))"
proof -
  from await_ends [OF assms] obtain n where "\<not> late reqId (pends e t (Suc n) (r, s))" "\<forall>k<n. late reqId (pends e t (Suc k) (r, s))"
    unfolding exists_least_iff [of "\<lambda>n. \<not> late reqId (pends e t (Suc n) (r, s))"] by blast
  from await_Some [OF this(2,1)] assms have "s' = snd (pends e t (Suc n) (r, s))" by (metis option.inject snd_conv)
  then show ?thesis by (simp del: replicate_Suc)
qed

lemma sendCmd_px:
  assumes "CpswProxy_sendCmd e h cmd len (c :: 'a pc_st_scheme) = Some (st, res, c')"
  shows "gCpswProxy c' = gCpswProxy (bump h c) \<and> (\<exists>n. ccalls c' = ccalls c @ send_call h cmd c # replicate n (PendMailbox (cmdTimeoutInMsecs (gCpswProxy c))))"
proof (cases "cstatus_of e (ccalls c) (send_call h cmd c) = ETHFW_SOK")
  case True
  with assms obtain m where "await_response e (cmdTimeoutInMsecs (gCpswProxy c)) (pcReqId (pc_at c h))
      (ETHFW_SOK, stackMsg e (ccalls c @ [send_call h cmd c])) (cissue (send_call h cmd c) (bump h c)) = Some (m, c')"
    by (auto simp: sendCmd_eq Let_def split: option.splits prod.splits)
  from await_px [OF this] show ?thesis by (auto simp del: replicate_Suc)
next
  case False
  with assms show ?thesis by (auto simp: sendCmd_eq Let_def intro: exI [of _ 0])
qed

text \<open>The clients of a core share the mailbox but number their requests separately, and a response is
  matched by its number and length only.  After a command of one client has timed out, the server's
  late answer to it is taken by another client that has sent as many commands as the answer to its
  own, different command.\<close>

theorem client_cross_talk:
  fixes c :: "'a pc_st_scheme"
  assumes "h1 \<noteq> h2" and same: "pcReqId (pc_at c h1) = pcReqId (pc_at c h2)"
    and timeout: "CpswProxy_sendCmd e h2 cmdA lenA c = Some (ETHFW_ETIMEOUT, None, c1)"
    and sent: "cstatus_of e (ccalls c1) (send_call h1 cmdB c1) = ETHFW_SOK"
    and late: "mbx e h1 cmdB c1 0 = MbxMsg y" "mRes y = fst (served se core h2 cmdA c srv)" "mLen y = len"
  shows "(\<exists>c2. CpswProxy_sendCmd e h1 cmdB len c1 = Some (rsStatus (mRes y), Some (mRes y), c2))
     \<and> rsType (mRes y) = EthRemoteCfg_CmdType cmdA"
proof -
  have "pc_at c1 h1 = pc_at (bump h2 c) h1"
    using sendCmd_px [OF timeout] by (simp add: pc_at_def)
  then have "pcReqId (pc_at c1 h1) = pcReqId (pc_at c h2)"
    using assms(1) same by (simp add: bump_def)
  then have "rsId (mRes y) = pcReqId (pc_at c1 h1)"
    by (simp add: late(2) served_def sent_req_def Let_def)
  then have "\<exists>c2. CpswProxy_sendCmd e h1 cmdB len c1 = Some (rsStatus (mRes y), Some (mRes y), c2)"
    using client_wait_parts(1) [OF sent, of len, THEN spec, of 0, THEN spec, of y] late(1,3) by simp
  moreover have "rsType (mRes y) = EthRemoteCfg_CmdType cmdA"
    by (simp add: late(2) served_def sent_req_def CpswProxyServer_clientRequestHandler_def Let_def case_prod_beta)
  ultimately show ?thesis by blast
qed

text \<open>
  Witnesses: a core with two clients, the first attached; every call of it succeeds, with words 36,
  the stack holds a response with id 0, and nothing comes to the mailbox unless stated.
\<close>

definition res_zero :: EthRemoteCfg_Res where
  "res_zero = \<lparr>rsToken = 0, rsClientId = 0, rsType = 0, rsId = 0, rsStatus = 0, rsPayload = StatusRes\<rparr>"

definition pc_env :: cenv where
  "pc_env = \<lparr>cstatus_of = \<lambda>_ _. 0, cword_of = \<lambda>_ _ _. 36, chandle_of = \<lambda>_ _. True, pend_of = \<lambda>_. MbxTimeout,
     stackMsg = \<lambda>_. \<lparr>mLen = 0, mRes = res_zero\<rparr>, unset_of = \<lambda>_ _. 0, unset_mac_of = \<lambda>_. zero_mac, stackWord = \<lambda>_ _. 0,
     denormMacPort = \<lambda>p. p, invMacPort = 255, sizeofEnum = 4,
     assertEnabled = False\<rparr>"

definition pc_demo :: pc_st where
  "pc_demo = \<lparr>ccalls = [], gCpswProxy = px_zero
     \<lparr>pxClientObj := replicate 2 (pc_zero\<lparr>pcInUse := True, pcToken := ETHREMOTECFG_TOKEN_NONE\<rparr>),
      cmdSvc := (cmdSvc px_zero)\<lparr>csLocalEndpt := 40, csMasterEndpt := 34\<rparr>, cmdTimeoutInMsecs := 1000\<rparr>\<rparr>"

lemma pc_demo_facts: "h < 2 \<Longrightarrow> h < length (pxClientObj (gCpswProxy pc_demo))" "h < 2 \<Longrightarrow> pcReqId (pc_at pc_demo h) = 0"
  by (simp_all add: pc_demo_def pc_at_def pc_zero_def)

theorem client_remote_call_witness:
  "\<exists>st res c'. CpswProxy_sendCmd (linked srv_env 1 proxy_demo pc_env) 0 CMD_GET_SERVER_STATUS 28 pc_demo = Some (st, Some res, c')"
  using client_remote_call [OF pc_demo_facts(1), of 0 srv_env 1 CMD_GET_SERVER_STATUS proxy_demo pc_env]
  by (auto simp: Let_def pc_env_def sizeof_ResHdr_def)

text \<open>While the client of core 1 is attached it allocates a channel and core 2 attaches the same port; after the detach
  there comes a request with the old token.\<close>

definition rs_mid :: "request list" where
  "rs_mid = [(2, 1, 40, 34, \<lparr>rqToken = 2500, rqId = 1, rqCmd = CMD_ALLOC_TX 0\<rparr>),
     (2, 2, 41, 34, \<lparr>rqToken = 0, rqId = 0, rqCmd = CMD_ATTACH 25\<rparr>)]"

definition rs_late :: "request list" where
  "rs_late = [(2, 1, 40, 34, \<lparr>rqToken = 2500, rqId = 3, rqCmd = CMD_ALLOC_MAC\<rparr>)]"

theorem client_session_witness:
  "let srv2 = fold (serve srv_env) rs_mid (snd (served srv_env 1 0 (CMD_ATTACH 25) pc_demo proxy_demo)) in
     \<exists>outs c1 i. CpswProxy_attach (linked srv_env 1 proxy_demo pc_env) 0 25 pc_demo = Some (ETHFW_SOK, Some outs, c1)
     \<and> pcToken (pc_at c1 0) = 2500 \<and> CpswProxyServer_getClient 1 2500 (gProxyServerObj srv2) = Some (1, i)"
proof -
  have "\<forall>r\<in>set rs_mid. unat (rq_core r) < 3 \<and> \<not> claims 1 (CPSWPROXY_VIRTPORT_2_TOKEN 25) r \<and> \<not> drops 1 (CPSWPROXY_VIRTPORT_2_TOKEN 25) r"
    "\<forall>r\<in>set rs_late. \<not> claims 1 (CPSWPROXY_VIRTPORT_2_TOKEN 25) r"
    by (simp_all add: rs_mid_def rs_late_def claims_def drops_def)
  from client_session [OF server_idle_inv [OF demo_idle] _ demo_facts(5,4) pc_demo_facts(1) [of 0] demo_facts(7) this, where ce = pc_env]
  show ?thesis by (auto simp: Let_def CPSWPROXY_VIRTPORT_2_TOKEN_def)
qed

text \<open>A second request of the first client, when the stack holds a response with id 0.\<close>

theorem client_wait_witness:
  "CpswProxy_sendCmd pc_env 0 CMD_DUMP 24 (bump 0 pc_demo) = None"
proof -
  have i: "pcReqId (pc_at (bump 0 pc_demo) 0) = 1" and l: "0 < length (pxClientObj (gCpswProxy (bump 0 pc_demo)))"
    using pc_demo_facts [of 0] by (simp_all add: bump_def)
  show ?thesis
    using client_wait [of pc_env "bump 0 pc_demo" 0 CMD_DUMP 24] i l
    by (simp add: Let_def mbx_def pc_env_def res_zero_def)
qed

text \<open>The second client's \<open>DETACH\<close> times out; its answer comes when the first client waits for \<open>DUMP\<close>.\<close>

definition cross_res :: EthRemoteCfg_Res where
  "cross_res = fst (served srv_env 1 1 CMD_DETACH pc_demo proxy_demo)"

definition cross_env :: cenv where
  "cross_env = pc_env\<lparr>pend_of := \<lambda>cs. if length cs = 1 then MbxTimeout else MbxMsg \<lparr>mLen = 24, mRes = cross_res\<rparr>\<rparr>"

theorem client_cross_talk_witness:
  "\<exists>c1 c2. CpswProxy_sendCmd cross_env 1 CMD_DETACH 24 pc_demo = Some (ETHFW_ETIMEOUT, None, c1)
     \<and> CpswProxy_sendCmd cross_env 0 CMD_DUMP 24 c1 = Some (rsStatus cross_res, Some cross_res, c2)"
proof -
  have st: "cstatus_of cross_env x y = ETHFW_SOK" for x y by (simp add: cross_env_def pc_env_def)
  have m2: "mbx cross_env 1 CMD_DETACH pc_demo 0 = MbxTimeout" by (simp add: mbx_def cross_env_def pc_demo_def)
  obtain c1 where c1: "CpswProxy_sendCmd cross_env 1 CMD_DETACH 24 pc_demo = Some (ETHFW_ETIMEOUT, None, c1)"
    using client_wait_parts(3) [OF st, rule_format, OF m2] by (auto simp: pc_demo_facts(2))
  from sendCmd_px [OF c1] have "ccalls c1 \<noteq> []" by auto
  then have m: "mbx cross_env 0 CMD_DUMP c1 0 = MbxMsg \<lparr>mLen = 24, mRes = cross_res\<rparr>"
    by (simp add: mbx_def cross_env_def)
  have ids: "pcReqId (pc_at pc_demo 0) = pcReqId (pc_at pc_demo 1)" by (simp add: pc_demo_facts(2))
  show ?thesis
    using client_cross_talk [OF _ ids c1 st m, of srv_env 1 proxy_demo 24] c1
    by (simp add: cross_res_def)
qed

end
