(* ===== verification/Monitor.thy ===== *)
theory Monitor
  imports ProxyDispatch
begin

text \<open>
  The monitor (\<^verbatim>\<open>ethremotecfg/server/src/ethfw_monitor.c\<close>, in a build without gPTP): the task that
  polls the drop counters of the switch, reports increases to the application, and resets the
  switch when it is stuck, after the remote clients have torn down their DMA.

  The task runs between the points where it blocks, its semaphore and the sleeps of its three
  waiting loops; \<open>mon_turn\<close> is what it does from one such point to the next, and \<open>mon_pc\<close> names the
  points.  Between two turns the other tasks of the firmware run.
\<close>

section \<open>Data\<close>

definition ETHFW_MON_TASK_POLL_PERIOD_MS :: u32 where "ETHFW_MON_TASK_POLL_PERIOD_MS = 100"
definition ETHFW_MON_HWRECOVERY_IDLE_CHECK_PERIOD_MS :: u32 where "ETHFW_MON_HWRECOVERY_IDLE_CHECK_PERIOD_MS = 100"
definition ETHFW_TIME_SEC_TO_NS :: u32 where "ETHFW_TIME_SEC_TO_NS = 1000000000"

definition ETHFW_MON_MAC_PORT_MAX :: "env \<Rightarrow> nat" where
  "ETHFW_MON_MAC_PORT_MAX e = (if socCpsw9g e then 8 else 4)"

definition ETHFW_STATSMON_RXBOTTOMOFFIFODROP :: u32 where "ETHFW_STATSMON_RXBOTTOMOFFIFODROP = ETHFW_BIT 0"
definition ETHFW_STATSMON_RXTOPOFFIFODROP :: u32 where "ETHFW_STATSMON_RXTOPOFFIFODROP = ETHFW_BIT 1"
definition ETHFW_STATSMON_TXPRIDROP :: u32 where "ETHFW_STATSMON_TXPRIDROP = ETHFW_BIT 2"

record EthFwMon_Stats =
  rxBottomOfFifoDrop :: u64
  rxTopOfFifoDrop :: u64
  txPriDrop :: "u64 list"

text \<open>A callback is given or NULL.\<close>

record EthFwMon_Cfg =
  periodInMsecs :: u32
  closeLwipDmaCb :: bool
  openLwipDmaCb :: bool
  statsMonHostEvtCb :: bool
  statsMonMacEvtCb :: bool

record EthFwMon_Obj =
  monCoreId :: u32
  monNumPorts :: u32
  recoveryEn :: bool
  monitor :: EthFwMon_Cfg
  monStats :: "EthFwMon_Stats list"
  hMonitorClock :: bool
  hMonitorSem :: bool
  hMonitorTask :: bool
  monitorTaskRun :: bool

record mon_st = proxy_st +
  gEthFwMonObj :: EthFwMon_Obj

definition stats_zero :: "env \<Rightarrow> EthFwMon_Stats" where
  "stats_zero e = \<lparr>rxBottomOfFifoDrop = 0, rxTopOfFifoDrop = 0, txPriDrop = replicate (priNum e) 0\<rparr>"

definition upd_mon :: "(EthFwMon_Obj \<Rightarrow> EthFwMon_Obj) \<Rightarrow> 'a mon_st_scheme \<Rightarrow> 'a mon_st_scheme" where
  "upd_mon f s = s\<lparr>gEthFwMonObj := f (gEthFwMonObj s)\<rparr>"

definition EthFw_setStatus :: "u32 \<Rightarrow> 'a mon_st_scheme \<Rightarrow> 'a mon_st_scheme" where
  "EthFw_setStatus st s = s\<lparr>serverStatus := st\<rparr>"

section \<open>Starting and stopping\<close>

definition EthFwMon_ClockCb :: "'a mon_st_scheme \<Rightarrow> 'a mon_st_scheme" where
  "EthFwMon_ClockCb s = issue Osal_postSemaphore s"

definition EthFwMon_initCfg :: EthFwMon_Cfg where
  "EthFwMon_initCfg = \<lparr>periodInMsecs = ETHFW_MON_TASK_POLL_PERIOD_MS, closeLwipDmaCb = False, openLwipDmaCb = False,
     statsMonHostEvtCb = False, statsMonMacEvtCb = False\<rparr>"

definition EthFwMon_init :: "env \<Rightarrow> EthFwMon_Cfg \<Rightarrow> u32 \<Rightarrow> 'a mon_st_scheme \<Rightarrow> int \<times> 'a mon_st_scheme" where
  "EthFwMon_init e monCfg numPorts s =
     (ETHFW_SOK, upd_mon (\<lambda>ob. ob\<lparr>monitor := monCfg, monCoreId := selfCoreId e, monNumPorts := numPorts,
        recoveryEn := openLwipDmaCb monCfg \<and> closeLwipDmaCb monCfg\<rparr>) s)"

text \<open>A failed \<^verbatim>\<open>EnetAppUtils_assert\<close> stops the caller, which is \<open>None\<close>, when \<open>utilsAssert\<close> holds.\<close>

definition mon_alloc_failed :: "env \<Rightarrow> 's \<Rightarrow> (int \<times> 's) option" where
  "mon_alloc_failed e s = (if utilsAssert e then None else Some (ETHFW_EALLOC, s))"

definition EthFwMon_startTask :: "env \<Rightarrow> 'a mon_st_scheme \<Rightarrow> (int \<times> 'a mon_st_scheme) option" where
  "EthFwMon_startTask e s =
     (let c = Osal_createSemaphore 1; ok = flag_of e (calls s) c;
          s = upd_mon (\<lambda>ob. ob\<lparr>hMonitorSem := ok\<rparr>) (issue c s)
      in if \<not> ok then mon_alloc_failed e s
         else
           (let s = upd_mon (\<lambda>ob. ob\<lparr>monitorTaskRun := True\<rparr>) s;
                c = Osal_createTask ''ETHFW Monitor Task''; ok = flag_of e (calls s) c;
                s = upd_mon (\<lambda>ob. ob\<lparr>hMonitorTask := ok\<rparr>) (issue c s)
            in if \<not> ok then mon_alloc_failed e s
               else
                 (let c = Osal_createClock (periodInMsecs (monitor (gEthFwMonObj s))); ok = flag_of e (calls s) c;
                      s = upd_mon (\<lambda>ob. ob\<lparr>hMonitorClock := ok\<rparr>) (issue c s)
                  in if \<not> ok then mon_alloc_failed e s else Some (ETHFW_SOK, s))))"

definition EthFwMon_stopTask :: "'a mon_st_scheme \<Rightarrow> 'a mon_st_scheme" where
  "EthFwMon_stopTask s =
     (let s = upd_mon (\<lambda>ob. ob\<lparr>monitorTaskRun := False\<rparr>) s;
          s = (if hMonitorTask (gEthFwMonObj s)
               then upd_mon (\<lambda>ob. ob\<lparr>hMonitorTask := False\<rparr>) (issue Osal_deleteTask s) else s)
      in issue Osal_deleteClock (issue Osal_stopClock (issue Osal_deleteSemaphore s)))"

section \<open>Counters\<close>

text \<open>The counters a statistics command returns, and their comparison with the saved ones.\<close>

definition read_stats :: "env \<Rightarrow> call list \<Rightarrow> call \<Rightarrow> EthFwMon_Stats" where
  "read_stats e cs c = \<lparr>rxBottomOfFifoDrop = wide_of e cs c 0, rxTopOfFifoDrop = wide_of e cs c 1,
     txPriDrop = map (\<lambda>j. wide_of e cs c (2 + j)) [0..<priNum e]\<rparr>"

definition mon_evt :: "EthFwMon_Stats \<Rightarrow> EthFwMon_Stats \<Rightarrow> u32" where
  "mon_evt new old =
     (if rxBottomOfFifoDrop new > rxBottomOfFifoDrop old then ETHFW_STATSMON_RXBOTTOMOFFIFODROP else 0) OR
     (if rxTopOfFifoDrop new > rxTopOfFifoDrop old then ETHFW_STATSMON_RXTOPOFFIFODROP else 0) OR
     (if list_ex (\<lambda>(n, k). n > k) (zip (txPriDrop new) (txPriDrop old)) then ETHFW_STATSMON_TXPRIDROP else 0)"

definition stats_words :: "EthFwMon_Stats \<Rightarrow> u64 list" where
  "stats_words x = rxBottomOfFifoDrop x # rxTopOfFifoDrop x # txPriDrop x"

definition diff_stats :: "EthFwMon_Stats \<Rightarrow> EthFwMon_Stats \<Rightarrow> u64 list" where
  "diff_stats new old = map (\<lambda>(n, k). n - k) (zip (stats_words new) (stats_words old))"

definition save_stats_at :: "nat \<Rightarrow> EthFwMon_Stats \<Rightarrow> 'a mon_st_scheme \<Rightarrow> 'a mon_st_scheme" where
  "save_stats_at k x s =
     chk_idx OobWrite k (length (monStats (gEthFwMonObj s))) (upd_mon (\<lambda>ob. ob\<lparr>monStats := (monStats ob)[k := x]\<rparr>) s)"

definition mac_stats_idx :: "env \<Rightarrow> u32 \<Rightarrow> nat" where
  "mac_stats_idx e macPort = unat (macPortNorm e macPort + 1)"

definition save_port :: "env \<Rightarrow> ioctl \<Rightarrow> nat \<Rightarrow> 'a mon_st_scheme \<Rightarrow> 'a mon_st_scheme" where
  "save_port e cmd k s =
     (let c = Ioctl (monCoreId (gEthFwMonObj s)) cmd; new = read_stats e (calls s) c; (status, s) = call_st e c s
      in if status = ETHFW_SOK then save_stats_at k new s else s)"

definition EthFwMon_saveStats :: "env \<Rightarrow> 'a mon_st_scheme \<Rightarrow> 'a mon_st_scheme" where
  "EthFwMon_saveStats e s =
     fold (\<lambda>i s. let macPort = macPortDenorm e (of_nat i) in save_port e (STATS_GET_MACPORT macPort) (mac_stats_idx e macPort) s)
       [0..<unat (monNumPorts (gEthFwMonObj s))] (save_port e STATS_GET_HOSTPORT 0 s)"

text \<open>The body shared by the two functions that look at the counters of a port.\<close>

definition check_stats ::
    "env \<Rightarrow> ioctl \<Rightarrow> nat \<Rightarrow> bool \<Rightarrow> (u32 \<Rightarrow> u64 list \<Rightarrow> u64 list \<Rightarrow> call) \<Rightarrow> 'a mon_st_scheme \<Rightarrow> bool \<times> 'a mon_st_scheme" where
  "check_stats e cmd k given cb s =
     (let c = Ioctl (monCoreId (gEthFwMonObj s)) cmd; new = read_stats e (calls s) c; (status, s) = call_st e c s;
          old = at_idx (stats_zero e) (monStats (gEthFwMonObj s)) k;
          s = chk_idx OobRead k (length (monStats (gEthFwMonObj s))) s;
          evt = (if status = ETHFW_SOK then mon_evt new old else 0)
      in (status = ETHFW_SOK \<and> rxBottomOfFifoDrop new > rxBottomOfFifoDrop old,
          if evt \<noteq> 0 \<and> given then save_stats_at k new (issue (cb evt (diff_stats new old) (stats_words new)) s) else s))"

definition EthFwMon_analyzeHostStats :: "env \<Rightarrow> 'a mon_st_scheme \<Rightarrow> bool \<times> 'a mon_st_scheme" where
  "EthFwMon_analyzeHostStats e s =
     check_stats e STATS_GET_HOSTPORT 0 (statsMonHostEvtCb (monitor (gEthFwMonObj s))) StatsMonHostEvtCb s"

definition EthFwMon_analyzePortStats :: "env \<Rightarrow> u32 \<Rightarrow> 'a mon_st_scheme \<Rightarrow> bool \<times> 'a mon_st_scheme" where
  "EthFwMon_analyzePortStats e macPort s =
     check_stats e (STATS_GET_MACPORT macPort) (mac_stats_idx e macPort) (statsMonMacEvtCb (monitor (gEthFwMonObj s)))
       (StatsMonMacEvtCb macPort) s"

section \<open>Reset\<close>

definition EthFwMon_getCurrentTime :: "env \<Rightarrow> 'a mon_st_scheme \<Rightarrow> (u64 \<times> u32 \<times> u64) \<times> 'a mon_st_scheme" where
  "EthFwMon_getCurrentTime e s =
     (let c = Ioctl (monCoreId (gEthFwMonObj s)) TIMESYNC_GET_TIMESTAMP;
          tsVal = (if status_of e (calls s) c = ETHFW_SOK then wide_of e (calls s) c 0 else 0);
          nanoSeconds = ucast (tsVal mod ucast ETHFW_TIME_SEC_TO_NS); seconds = tsVal div ucast ETHFW_TIME_SEC_TO_NS
      in ((seconds * ucast ETHFW_TIME_SEC_TO_NS + ucast nanoSeconds, nanoSeconds, seconds), issue c s))"

definition EthFwMon_setCurrentTime :: "u64 \<Rightarrow> 'a mon_st_scheme \<Rightarrow> 'a mon_st_scheme" where
  "EthFwMon_setCurrentTime t s = issue (Ioctl (monCoreId (gEthFwMonObj s)) (TIMESYNC_SET_TIMESTAMP t)) s"

definition mon_time :: "env \<Rightarrow> 'a mon_st_scheme \<Rightarrow> u64 \<times> 'a mon_st_scheme" where
  "mon_time e s = (wide_of e (calls s) Osal_getTimeInUsecs 0, issue Osal_getTimeInUsecs s)"

text \<open>\<open>None\<close> when an assertion stops the task.\<close>

definition mon_assert :: "env \<Rightarrow> int \<times> 'a mon_st_scheme \<Rightarrow> (int \<Rightarrow> 'a mon_st_scheme \<Rightarrow> int option \<times> 'a mon_st_scheme) \<Rightarrow>
    int option \<times> 'a mon_st_scheme" where
  "mon_assert e r k = (if fst r \<noteq> ETHFW_SOK \<and> utilsAssert e then (None, snd r) else k (fst r) (snd r))"

definition EthFwMon_resetHandler :: "env \<Rightarrow> 'a mon_st_scheme \<Rightarrow> int option \<times> 'a mon_st_scheme" where
  "EthFwMon_resetHandler e s =
     (let ((currentTime, _), s) = EthFwMon_getCurrentTime e s; (preResetTime, s) = mon_time e s in
      mon_assert e (call_st e Mcm_closeMacPorts s) (\<lambda>_ s.
        let s = issue CloseLwipDmaCb s; s = issue Mcm_saveCtxt s;
            s = issue Utils_turnCpswOff s; s = issue (Utils_delayInUsec 5000) s; s = issue Utils_turnCpswOn s;
            s = upd_mon (\<lambda>ob. ob\<lparr>monStats := map (\<lambda>_. stats_zero e) (monStats ob)\<rparr>) s;
            s = EthFwMon_saveStats e s
        in mon_assert e (call_st e Mcm_restoreCtxt s) (\<lambda>_ s.
             mon_assert e (call_st e Mcm_openMacPorts (issue OpenLwipDmaCb s)) (\<lambda>status s.
               let (postResetTime, s) = mon_time e s;
                   updatedTime = currentTime + (postResetTime - preResetTime) * 1000
               in (Some status, issue Mcm_startPeriodicTick (EthFwMon_setCurrentTime updatedTime s))))))"

section \<open>The task\<close>

datatype mon_pc =
    MonPend                       \<comment> \<open>waiting for its semaphore\<close>
  | MonTeardown u32 bool          \<comment> \<open>asleep until the clients are idle: how many, whether they are\<close>
  | MonPendingReq bool            \<comment> \<open>asleep until no request is pending\<close>
  | MonLink bool                  \<comment> \<open>asleep until the port is linked\<close>
  | MonHalted                     \<comment> \<open>stopped by an assertion\<close>
  | MonDone                       \<comment> \<open>returned\<close>

text \<open>The head of the task's loop, and the end of a recovery.\<close>

definition mon_head :: "'a mon_st_scheme \<Rightarrow> mon_pc \<times> 'a mon_st_scheme" where
  "mon_head s = (if monitorTaskRun (gEthFwMonObj s) then (MonPend, issue Osal_pendSemaphore s) else (MonDone, s))"

definition mon_finish :: "'a mon_st_scheme \<Rightarrow> mon_pc \<times> 'a mon_st_scheme" where
  "mon_finish s = mon_head (issue Osal_startClock (EthFw_setStatus ETHREMOTECFG_SERVERSTATUS_READY s))"

definition mon_sleep :: "'a mon_st_scheme \<Rightarrow> 'a mon_st_scheme" where
  "mon_sleep s = issue (Osal_sleepTask ETHFW_MON_HWRECOVERY_IDLE_CHECK_PERIOD_MS) s"

definition mon_link :: "env \<Rightarrow> u32 \<Rightarrow> bool \<Rightarrow> 'a mon_st_scheme \<Rightarrow> mon_pc \<times> 'a mon_st_scheme" where
  "mon_link e recoveryMacPort linked s =
     (if linked then mon_finish (snd (CpswProxyServer_bcastNotify e ETHREMOTECFG_NOTIFY_HWRECOVERY_COMPLETE s))
      else (let c = Utils_isPortLinkUp recoveryMacPort
            in (MonLink (flag_of e (calls s) c), mon_sleep (issue c s))))"

definition mon_recover :: "env \<Rightarrow> u32 \<Rightarrow> 'a mon_st_scheme \<Rightarrow> mon_pc \<times> 'a mon_st_scheme" where
  "mon_recover e recoveryMacPort s =
     (case EthFwMon_resetHandler e (EthFw_setStatus ETHREMOTECFG_SERVERSTATUS_RECOVERY s) of
        (None, s) \<Rightarrow> (MonHalted, s)
      | (Some status, s) \<Rightarrow>
          if status = ETHFW_SOK then mon_link e recoveryMacPort False s
          else if utilsAssert e then (MonHalted, s) else mon_finish s)"

definition mon_no_pending :: "env \<Rightarrow> 'a mon_st_scheme \<Rightarrow> bool" where
  "mon_no_pending e s \<longleftrightarrow>
     proxyArp e \<and> EthFwArp_getUseCnt (gEthFwArpObj s) = 0 \<or> vepaSupport e \<and> EthFwVepa_getUseCnt (gEthFwVepaObj s) = 0"

definition mon_pending :: "env \<Rightarrow> u32 \<Rightarrow> bool \<Rightarrow> 'a mon_st_scheme \<Rightarrow> mon_pc \<times> 'a mon_st_scheme" where
  "mon_pending e recoveryMacPort noPendingReq s =
     (if noPendingReq then mon_recover e recoveryMacPort s else (MonPendingReq (mon_no_pending e s), mon_sleep s))"

definition mon_teardown :: "env \<Rightarrow> u32 \<Rightarrow> u32 \<Rightarrow> bool \<Rightarrow> 'a mon_st_scheme \<Rightarrow> mon_pc \<times> 'a mon_st_scheme" where
  "mon_teardown e recoveryMacPort numTotalClients isTeardownComplete s =
     (if isTeardownComplete then mon_pending e recoveryMacPort False s
      else (let (_, numActiveClients, numIdleClients) = CpswProxyServer_getIdleClientCnt (gProxyServerObj s)
            in (MonTeardown numTotalClients (numIdleClients = numTotalClients), mon_sleep s)))"

text \<open>The ports in turn, until one needs recovery: whether one does, and the port to recover.\<close>

fun mon_ports :: "env \<Rightarrow> nat list \<Rightarrow> bool \<Rightarrow> u32 \<Rightarrow> 'a mon_st_scheme \<Rightarrow> bool \<times> u32 \<times> 'a mon_st_scheme" where
  "mon_ports e [] needsRecovery p s = (needsRecovery, p, s)"
| "mon_ports e (i # is) needsRecovery p s =
     (if needsRecovery then (needsRecovery, p, s)
      else
        (let macPort = macPortDenorm e (of_nat i); c = Utils_isPortLinkUp macPort; up = flag_of e (calls s) c; s = issue c s
         in if up
            then (let (needsRecovery, s) = EthFwMon_analyzePortStats e macPort s
                  in if needsRecovery then mon_ports e is True macPort (EthFw_setStatus ETHREMOTECFG_SERVERSTATUS_BAD s)
                     else mon_ports e is False p s)
            else mon_ports e is False p s))"

definition mon_check :: "env \<Rightarrow> u32 \<Rightarrow> 'a mon_st_scheme \<Rightarrow> (mon_pc \<times> 'a mon_st_scheme) \<times> u32" where
  "mon_check e recoveryMacPort s =
     (let (needsRecovery, s) = EthFwMon_analyzeHostStats e s;
          (needsRecovery, p, s) = mon_ports e [0..<unat (monNumPorts (gEthFwMonObj s))] needsRecovery recoveryMacPort s
      in (if needsRecovery \<and> recoveryEn (gEthFwMonObj s)
          then (let s = issue Mcm_stopPeriodicTick (issue Osal_stopClock s);
                    (_, numTotalClients, _) = CpswProxyServer_getIdleClientCnt (gProxyServerObj s)
                in if numTotalClients \<noteq> 0
                   then mon_teardown e p numTotalClients False
                          (snd (CpswProxyServer_bcastNotify e ETHREMOTECFG_NOTIFY_HWERROR s))
                   else mon_recover e p s)
          else mon_head s, p))"

text \<open>The start of the task, and a turn of it: the program point, \<open>recoveryMacPort\<close> and the state.\<close>

definition EthFwMon_Task :: "env \<Rightarrow> 'a mon_st_scheme \<Rightarrow> (mon_pc \<times> u32) \<times> 'a mon_st_scheme" where
  "EthFwMon_Task e s =
     (let ok = flag_of e (calls s) Mcm_getCmdIf; s = issue Mcm_getCmdIf s;
          (pc, s) = (if \<not> ok \<and> utilsAssert e then (MonHalted, s) else mon_head s)
      in ((pc, macPortInv e), s))"

fun mon_turn :: "env \<Rightarrow> (mon_pc \<times> u32) \<times> 'a mon_st_scheme \<Rightarrow> (mon_pc \<times> u32) \<times> 'a mon_st_scheme" where
  "mon_turn e ((MonPend, p), s) = (let ((pc, s), p) = mon_check e p s in ((pc, p), s))"
| "mon_turn e ((MonTeardown n done, p), s) = (let (pc, s) = mon_teardown e p n done s in ((pc, p), s))"
| "mon_turn e ((MonPendingReq done, p), s) = (let (pc, s) = mon_pending e p done s in ((pc, p), s))"
| "mon_turn e ((MonLink linked, p), s) = (let (pc, s) = mon_link e p linked s in ((pc, p), s))"
| "mon_turn e ((pc, p), s) = ((pc, p), s)"

end
