(* ===== verification/Recovery.thy ===== *)
theory Recovery
  imports Monitor
begin

text \<open>
  What the monitor guarantees: the order of the calls of a recovery and the server status along it,
  when a recovery ends and when it cannot, and what is reported of the counters.
\<close>

section \<open>The calls of a recovery\<close>

text \<open>The calls that stop and restart the switch, in the order of one recovery.\<close>

definition recovery_calls :: "call list" where
  "recovery_calls = [Osal_stopClock, Mcm_stopPeriodicTick, Mcm_closeMacPorts, CloseLwipDmaCb, Mcm_saveCtxt,
     Utils_turnCpswOff, Utils_delayInUsec 5000, Utils_turnCpswOn, Mcm_restoreCtxt, OpenLwipDmaCb, Mcm_openMacPorts,
     Mcm_startPeriodicTick, Osal_startClock]"

definition mon_calls :: "call list \<Rightarrow> call list" where
  "mon_calls = filter (\<lambda>c. c \<in> set recovery_calls)"

text \<open>\<open>n\<close> whole recoveries and the first \<open>k\<close> calls of another.\<close>

definition mon_trace :: "nat \<Rightarrow> call list \<Rightarrow> bool" where
  "mon_trace k cs \<longleftrightarrow> (\<exists>n. mon_calls cs = concat (replicate n recovery_calls) @ take k recovery_calls)"

lemma mon_trace_other: "c \<notin> set recovery_calls \<Longrightarrow> mon_trace k (cs @ [c]) = mon_trace k cs"
  by (simp add: mon_trace_def mon_calls_def)

lemma mon_trace_next:
  assumes "mon_trace k cs" "k < length recovery_calls"
  shows "mon_trace (Suc k) (cs @ [recovery_calls ! k])"
proof -
  from assms(1) obtain n where "mon_calls cs = concat (replicate n recovery_calls) @ take k recovery_calls"
    by (auto simp: mon_trace_def)
  then have "mon_calls (cs @ [recovery_calls ! k]) = concat (replicate n recovery_calls) @ take (Suc k) recovery_calls"
    using assms(2) by (simp add: mon_calls_def take_Suc_conv_app_nth)
  then show ?thesis by (auto simp: mon_trace_def)
qed

lemma mon_trace_wrap: "mon_trace (length recovery_calls) cs \<Longrightarrow> mon_trace 0 cs"
proof -
  assume "mon_trace (length recovery_calls) cs"
  then obtain n where "mon_calls cs = concat (replicate (Suc n) recovery_calls) @ take 0 recovery_calls"
    by (auto simp: mon_trace_def simp flip: replicate_append_same)
  then show ?thesis unfolding mon_trace_def by blast
qed

lemma mon_trace_empty: "mon_calls cs = [] \<Longrightarrow> mon_trace 0 cs"
  unfolding mon_trace_def by (intro exI [of _ 0]) simp

lemma mon_trace_steps:
  "mon_trace 0 cs \<Longrightarrow> mon_trace (Suc 0) (cs @ [Osal_stopClock])"
  "mon_trace (Suc 0) cs \<Longrightarrow> mon_trace 2 (cs @ [Mcm_stopPeriodicTick])"
  "mon_trace 2 cs \<Longrightarrow> mon_trace 3 (cs @ [Mcm_closeMacPorts])"
  "mon_trace 3 cs \<Longrightarrow> mon_trace 4 (cs @ [CloseLwipDmaCb])"
  "mon_trace 4 cs \<Longrightarrow> mon_trace 5 (cs @ [Mcm_saveCtxt])"
  "mon_trace 5 cs \<Longrightarrow> mon_trace 6 (cs @ [Utils_turnCpswOff])"
  "mon_trace 6 cs \<Longrightarrow> mon_trace 7 (cs @ [Utils_delayInUsec 5000])"
  "mon_trace 7 cs \<Longrightarrow> mon_trace 8 (cs @ [Utils_turnCpswOn])"
  "mon_trace 8 cs \<Longrightarrow> mon_trace 9 (cs @ [Mcm_restoreCtxt])"
  "mon_trace 9 cs \<Longrightarrow> mon_trace 10 (cs @ [OpenLwipDmaCb])"
  "mon_trace 10 cs \<Longrightarrow> mon_trace 11 (cs @ [Mcm_openMacPorts])"
  "mon_trace 11 cs \<Longrightarrow> mon_trace 12 (cs @ [Mcm_startPeriodicTick])"
  "mon_trace 12 cs \<Longrightarrow> mon_trace 0 (cs @ [Osal_startClock])"
  using mon_trace_next [of 0 cs] mon_trace_next [of 1 cs] mon_trace_next [of 2 cs] mon_trace_next [of 3 cs]
    mon_trace_next [of 4 cs] mon_trace_next [of 5 cs] mon_trace_next [of 6 cs] mon_trace_next [of 7 cs]
    mon_trace_next [of 8 cs] mon_trace_next [of 9 cs] mon_trace_next [of 10 cs] mon_trace_next [of 11 cs]
    mon_trace_next [of 12 cs] mon_trace_wrap [of "cs @ [Osal_startClock]"]
  by (simp_all add: recovery_calls_def numeral_2_eq_2 numeral_3_eq_3 eval_nat_numeral)

section \<open>What each part leaves alone\<close>

text \<open>Part of the monitor that is no step of a recovery.\<close>

definition mon_quiet :: "'a mon_st_scheme \<Rightarrow> 'a mon_st_scheme \<Rightarrow> bool" where
  "mon_quiet s s' \<longleftrightarrow> (\<forall>k. mon_trace k (calls s') = mon_trace k (calls s)) \<and>
     monitorTaskRun (gEthFwMonObj s') = monitorTaskRun (gEthFwMonObj s) \<and>
     recoveryEn (gEthFwMonObj s') = recoveryEn (gEthFwMonObj s) \<and> serverStatus s' = serverStatus s"

lemma mon_quiet_refl [simp]: "mon_quiet s s"
  by (simp add: mon_quiet_def)

lemma mon_quiet_trans [trans]: "mon_quiet s s' \<Longrightarrow> mon_quiet s' s'' \<Longrightarrow> mon_quiet s s''"
  by (simp add: mon_quiet_def)

lemma mon_quiet_fold: "(\<And>x s. mon_quiet s (f x s)) \<Longrightarrow> mon_quiet s (fold f xs s)"
  by (induction xs arbitrary: s) (auto intro: mon_quiet_trans)

lemma issue_fields [simp]:
  "gEthFwMonObj (issue c s) = gEthFwMonObj s" "serverStatus (issue c s') = serverStatus s'"
  "gProxyServerObj (issue c s') = gProxyServerObj s'"
  by (simp_all add: issue_def)

lemma upd_mon_fields [simp]:
  "calls (upd_mon f s) = calls s" "gEthFwMonObj (upd_mon f s) = f (gEthFwMonObj s)"
  "serverStatus (upd_mon f s) = serverStatus s"
  by (simp_all add: upd_mon_def)

lemma fault_fields [simp]:
  "gEthFwMonObj (chk_idx f i n s) = gEthFwMonObj s" "serverStatus (chk_idx f i n s') = serverStatus s'"
  by (simp_all add: chk_idx_def fault_def)

lemma setStatus_fields [simp]:
  "calls (EthFw_setStatus st s) = calls s" "gEthFwMonObj (EthFw_setStatus st s) = gEthFwMonObj s"
  "serverStatus (EthFw_setStatus st s) = st"
  by (simp_all add: EthFw_setStatus_def)

lemma mon_quiet_issue [simp]:
  "c \<notin> set recovery_calls \<Longrightarrow> mon_quiet s (issue c s') = mon_quiet s s'"
  by (simp add: mon_quiet_def mon_trace_other)

lemma silent_calls [simp]:
  "Ioctl core cmd \<notin> set recovery_calls" "Utils_isPortLinkUp p \<notin> set recovery_calls"
  "Ipc_sendRpmsg a b c ws \<notin> set recovery_calls" "Osal_sleepTask t \<notin> set recovery_calls"
  "Osal_pendSemaphore \<notin> set recovery_calls" "Osal_getTimeInUsecs \<notin> set recovery_calls"
  "Mcm_getCmdIf \<notin> set recovery_calls" "StatsMonHostEvtCb ev d w \<notin> set recovery_calls"
  "StatsMonMacEvtCb p ev d w \<notin> set recovery_calls"
  by (simp_all add: recovery_calls_def)

lemma mon_quiet_upd [simp]:
  "mon_quiet s (mon_sleep s') = mon_quiet s s'"
  "mon_quiet s (save_stats_at k x s') = mon_quiet s s'"
  "mon_quiet s (chk_idx f k n s') = mon_quiet s s'"
  by (simp_all add: mon_sleep_def) (simp_all add: mon_quiet_def save_stats_at_def)

lemma save_port_quiet [simp]: "mon_quiet s (save_port e cmd k s') = mon_quiet s s'"
  by (simp add: save_port_def call_st_def Let_def)

lemma saveStats_quiet [simp]: "mon_quiet s (EthFwMon_saveStats e s)"
  unfolding EthFwMon_saveStats_def Let_def
  by (rule mon_quiet_trans [OF _ mon_quiet_fold]) simp_all

lemma check_stats_quiet:
  assumes "\<And>ev d w. cb ev d w \<notin> set recovery_calls"
  shows "mon_quiet s (snd (check_stats e cmd k given cb s))"
  using assms by (simp add: check_stats_def call_st_def Let_def)

lemma analyze_quiet [simp]:
  "mon_quiet s (snd (EthFwMon_analyzeHostStats e s))" "mon_quiet s (snd (EthFwMon_analyzePortStats e p s))"
  by (simp_all add: EthFwMon_analyzeHostStats_def EthFwMon_analyzePortStats_def check_stats_quiet)

lemma sendNotify_quiet [simp]: "mon_quiet s (snd (CpswProxyServer_sendNotify e c n s))"
  by (simp add: CpswProxyServer_sendNotify_def call_st_def Let_def case_prod_beta)

lemma bcast_quiet [simp]: "mon_quiet s (snd (CpswProxyServer_bcastNotify e n s))"
proof -
  have one: "mon_quiet (snd r) (snd (bcast_one e n h r))" for h and r :: "int \<times> 'a mon_st_scheme"
  proof -
    let ?s = "upd_client h (\<lambda>c. c\<lparr>isIdle := False\<rparr>) (snd r)"
    have "mon_quiet (snd r) ?s" by (simp add: mon_quiet_def upd_client_def upd_core_def Let_def)
    then show ?thesis by (simp add: bcast_one_def Let_def mon_quiet_trans [OF _ sendNotify_quiet])
  qed
  have "mon_quiet (snd r) (snd (fold (bcast_one e n) hs r))" for hs and r :: "int \<times> 'a mon_st_scheme"
  proof (induction hs arbitrary: r)
    case (Cons h hs)
    then show ?case using mon_quiet_trans [OF one Cons] by simp
  qed simp
  from this [of "(CpswProxyServer_getHandle (gProxyServerObj s), s)"] show ?thesis
    by (simp add: CpswProxyServer_bcastNotify_def Let_def)
qed

section \<open>The order of a recovery\<close>

definition mon_at :: "nat \<Rightarrow> 'a mon_st_scheme \<Rightarrow> bool" where
  "mon_at k s \<longleftrightarrow> mon_trace k (calls s)"

lemma mon_at_other [simp]: "c \<notin> set recovery_calls \<Longrightarrow> mon_at k (issue c s) = mon_at k s"
  by (simp add: mon_at_def mon_trace_other)

lemma mon_at_steps [simp]:
  "mon_at 0 s \<Longrightarrow> mon_at (Suc 0) (issue Osal_stopClock s)"
  "mon_at (Suc 0) s \<Longrightarrow> mon_at 2 (issue Mcm_stopPeriodicTick s)"
  "mon_at 2 s \<Longrightarrow> mon_at 3 (issue Mcm_closeMacPorts s)"
  "mon_at 3 s \<Longrightarrow> mon_at 4 (issue CloseLwipDmaCb s)"
  "mon_at 4 s \<Longrightarrow> mon_at 5 (issue Mcm_saveCtxt s)"
  "mon_at 5 s \<Longrightarrow> mon_at 6 (issue Utils_turnCpswOff s)"
  "mon_at 6 s \<Longrightarrow> mon_at 7 (issue (Utils_delayInUsec 5000) s)"
  "mon_at 7 s \<Longrightarrow> mon_at 8 (issue Utils_turnCpswOn s)"
  "mon_at 8 s \<Longrightarrow> mon_at 9 (issue Mcm_restoreCtxt s)"
  "mon_at 9 s \<Longrightarrow> mon_at 10 (issue OpenLwipDmaCb s)"
  "mon_at 10 s \<Longrightarrow> mon_at 11 (issue Mcm_openMacPorts s)"
  "mon_at 11 s \<Longrightarrow> mon_at 12 (issue Mcm_startPeriodicTick s)"
  "mon_at 12 s \<Longrightarrow> mon_at 0 (issue Osal_startClock s)"
  by (simp_all add: mon_at_def mon_trace_steps)

lemma mon_at_silent [simp]:
  "mon_at k (EthFw_setStatus st s) = mon_at k s" "mon_at k (upd_mon f s) = mon_at k s"
  by (simp_all add: mon_at_def)

lemma mon_at_quiet: "mon_quiet s s' \<Longrightarrow> mon_at k s' = mon_at k s"
  by (simp add: mon_quiet_def mon_at_def)

text \<open>
  Where the task is in the trace, by its program point; the status is \<open>RECOVERY\<close> from the third call on.
\<close>

definition mon_inv :: "nat \<Rightarrow> 'a mon_st_scheme \<Rightarrow> bool" where
  "mon_inv k s \<longleftrightarrow> mon_at k s \<and> (serverStatus s = ETHREMOTECFG_SERVERSTATUS_RECOVERY \<longleftrightarrow> 3 \<le> k)"

fun mon_stage :: "mon_pc \<Rightarrow> nat set" where
  "mon_stage MonPend = {0}"
| "mon_stage MonDone = {0}"
| "mon_stage (MonTeardown n done) = {2}"
| "mon_stage (MonPendingReq done) = {2}"
| "mon_stage (MonLink linked) = {12}"
| "mon_stage MonHalted = {0, 3, 9, 11}"

abbreviation mon_ok :: "mon_pc \<times> 'a mon_st_scheme \<Rightarrow> bool" where
  "mon_ok c \<equiv> \<exists>k\<in>mon_stage (fst c). mon_inv k (snd c)"

lemma mon_inv_quiet: "mon_quiet s s' \<Longrightarrow> mon_inv k s' = mon_inv k s"
  by (simp add: mon_inv_def mon_at_quiet) (simp add: mon_quiet_def)

lemma mon_inv_other [simp]: "c \<notin> set recovery_calls \<Longrightarrow> mon_inv k (issue c s) = mon_inv k s"
  by (simp add: mon_inv_def)

lemma status_distinct [simp]:
  "ETHREMOTECFG_SERVERSTATUS_READY \<noteq> ETHREMOTECFG_SERVERSTATUS_RECOVERY"
  "ETHREMOTECFG_SERVERSTATUS_BAD \<noteq> ETHREMOTECFG_SERVERSTATUS_RECOVERY"
  by (simp_all add: ETHREMOTECFG_SERVERSTATUS_READY_def ETHREMOTECFG_SERVERSTATUS_RECOVERY_def
      ETHREMOTECFG_SERVERSTATUS_BAD_def)

lemma mon_head_ok: "mon_inv 0 s \<Longrightarrow> mon_ok (mon_head s)"
  by (simp add: mon_head_def)

lemma mon_finish_ok: "mon_at 12 s \<Longrightarrow> mon_ok (mon_finish s)"
  unfolding mon_finish_def by (rule mon_head_ok) (simp add: mon_inv_def)

lemma mon_link_ok: "mon_inv 12 s \<Longrightarrow> mon_ok (mon_link e p linked s)"
proof (cases linked)
  case True
  assume "mon_inv 12 s"
  then have "mon_at 12 (snd (CpswProxyServer_bcastNotify e ETHREMOTECFG_NOTIFY_HWRECOVERY_COMPLETE s))"
    by (simp add: mon_inv_def mon_at_quiet [OF bcast_quiet])
  with True show ?thesis by (simp add: mon_link_def mon_finish_ok)
qed (simp add: mon_link_def mon_sleep_def Let_def)

text \<open>The reset, from the third call to the twelfth, and where an assertion stops it.\<close>

lemma reset_trace:
  assumes "mon_at 2 s" and "EthFwMon_resetHandler e s = (r, s')"
  shows "serverStatus s' = serverStatus s \<and> (case r of Some _ \<Rightarrow> mon_at 12 s' | None \<Rightarrow> \<exists>k\<in>{3, 9, 11}. mon_at k s')"
proof -
  note s = EthFwMon_resetHandler_def EthFwMon_getCurrentTime_def EthFwMon_setCurrentTime_def mon_time_def mon_assert_def
    call_st_def Let_def
  have q: "mon_at k (EthFwMon_saveStats e x) = mon_at k x" "serverStatus (EthFwMon_saveStats e x) = serverStatus x" for k x
    using saveStats_quiet [of x e] by (simp_all add: mon_quiet_def mon_at_def)
  show ?thesis
    using assms by (auto simp: s q split: if_splits)
qed

lemma mon_recover_ok:
  assumes "mon_at 2 s"
  shows "mon_ok (mon_recover e p s)"
proof -
  let ?s = "EthFw_setStatus ETHREMOTECFG_SERVERSTATUS_RECOVERY s"
  obtain r s' where r: "EthFwMon_resetHandler e ?s = (r, s')" by fastforce
  from reset_trace [OF _ r] assms have t: "serverStatus s' = ETHREMOTECFG_SERVERSTATUS_RECOVERY"
    "case r of Some _ \<Rightarrow> mon_at 12 s' | None \<Rightarrow> \<exists>k\<in>{3, 9, 11}. mon_at k s'" by simp_all
  show ?thesis
  proof (cases r)
    case None
    with t show ?thesis by (auto simp: mon_recover_def r mon_inv_def)
  next
    case (Some status)
    with t have "mon_inv 12 s'" by (simp add: mon_inv_def)
    moreover have "status = ETHFW_SOK \<or> \<not> utilsAssert e"
      using r Some by (auto simp: EthFwMon_resetHandler_def mon_assert_def Let_def case_prod_beta split: if_splits)
    ultimately show ?thesis
      using mon_link_ok [of s' e p False] mon_finish_ok [of s'] t(2) Some
      by (auto simp: mon_recover_def r)
  qed
qed

lemma mon_inv_at: "mon_inv k s \<Longrightarrow> mon_at k s"
  by (simp add: mon_inv_def)

lemma mon_pending_ok: "mon_inv 2 s \<Longrightarrow> mon_ok (mon_pending e p done s)"
  by (cases "done") (simp_all add: mon_pending_def mon_sleep_def mon_recover_ok mon_inv_at)

lemma mon_teardown_ok: "mon_inv 2 s \<Longrightarrow> mon_ok (mon_teardown e p n done s)"
  by (cases "done") (simp_all add: mon_teardown_def mon_sleep_def mon_pending_ok Let_def case_prod_beta)

lemma mon_ports_inv:
  "mon_inv 0 s \<Longrightarrow> mon_ports e is need p s = (need', p', s') \<Longrightarrow> mon_inv 0 s'"
proof (induction "is" arbitrary: need p s)
  case (Cons i "is")
  let ?s = "issue (Utils_isPortLinkUp (macPortDenorm e (of_nat i))) s"
  obtain r s1 where a: "EthFwMon_analyzePortStats e (macPortDenorm e (of_nat i)) ?s = (r, s1)" by fastforce
  have 1: "mon_inv 0 s1"
    using Cons.prems(1) mon_inv_quiet [OF analyze_quiet(2) [where s = ?s and e = e], of 0] a by (metis mon_inv_other silent_calls(2) snd_conv)
  then have "mon_inv 0 (EthFw_setStatus ETHREMOTECFG_SERVERSTATUS_BAD s1)" by (simp add: mon_inv_def)
  moreover have "mon_ports e is False p ?s = (need', p', s') \<Longrightarrow> mon_inv 0 s'"
    using Cons.prems(1) by (intro Cons.IH [of ?s False p]) simp_all
  ultimately show ?case using 1 Cons by (auto simp: a Let_def split: if_splits)
qed simp

lemma mon_check_ok: "mon_inv 0 s \<Longrightarrow> mon_ok (fst (mon_check e p s))"
proof -
  assume a: "mon_inv 0 s"
  obtain need s1 where 1: "EthFwMon_analyzeHostStats e s = (need, s1)" by fastforce
  obtain need' p' s2 where 2: "mon_ports e [0..<unat (monNumPorts (gEthFwMonObj s1))] need p s1 = (need', p', s2)"
    by (metis prod_cases3)
  have i1: "mon_inv 0 s1" using a mon_inv_quiet [OF analyze_quiet(1) [where s = s and e = e], of 0] 1 by simp
  have i2: "mon_inv 0 s2" by (rule mon_ports_inv [OF i1 2])
  let ?s = "issue Mcm_stopPeriodicTick (issue Osal_stopClock s2)"
  have i3: "mon_inv 2 ?s" using i2 by (simp add: mon_inv_def)
  have i4: "mon_inv 2 (snd (CpswProxyServer_bcastNotify e ETHREMOTECFG_NOTIFY_HWERROR ?s))"
    using i3 by (simp add: mon_inv_quiet [OF bcast_quiet])
  show ?thesis
    using mon_head_ok [OF i2] mon_recover_ok [OF mon_inv_at [OF i3], of e] mon_teardown_ok [OF i4, of e]
    by (simp add: mon_check_def 1 2 Let_def case_prod_beta)
qed

lemma mon_turn_ok: "mon_ok (pc, s) \<Longrightarrow> mon_turn e ((pc, p), s) = ((pc', p'), s') \<Longrightarrow> mon_ok (pc', s')"
proof (cases pc)
  case MonPend
  assume "mon_ok (pc, s)" "mon_turn e ((pc, p), s) = ((pc', p'), s')"
  then show ?thesis using MonPend mon_check_ok [of s e p] by (auto simp: Let_def case_prod_beta)
next
  case (MonTeardown n d)
  assume "mon_ok (pc, s)" "mon_turn e ((pc, p), s) = ((pc', p'), s')"
  then show ?thesis using MonTeardown mon_teardown_ok [of s e p n d] by (auto simp: Let_def case_prod_beta)
next
  case (MonPendingReq d)
  assume "mon_ok (pc, s)" "mon_turn e ((pc, p), s) = ((pc', p'), s')"
  then show ?thesis using MonPendingReq mon_pending_ok [of s e p d] by (auto simp: Let_def case_prod_beta)
next
  case (MonLink l)
  assume "mon_ok (pc, s)" "mon_turn e ((pc, p), s) = ((pc', p'), s')"
  then show ?thesis using MonLink mon_link_ok [of s e p l] by (auto simp: Let_def case_prod_beta)
qed auto

text \<open>
  The task among the others: between its turns the other tasks do anything that leaves its object,
  the server status and the calls of a recovery to it.
\<close>

definition other_tasks :: "'a mon_st_scheme \<Rightarrow> 'a mon_st_scheme \<Rightarrow> bool" where
  "other_tasks s s' \<longleftrightarrow> gEthFwMonObj s' = gEthFwMonObj s \<and> serverStatus s' = serverStatus s \<and>
     mon_calls (calls s') = mon_calls (calls s)"

inductive mon_reach :: "env \<Rightarrow> 'a mon_st_scheme \<Rightarrow> (mon_pc \<times> u32) \<times> 'a mon_st_scheme \<Rightarrow> bool" for e s0 where
  start: "mon_reach e s0 (EthFwMon_Task e s0)"
| turn: "mon_reach e s0 c \<Longrightarrow> mon_reach e s0 (mon_turn e c)"
| other: "mon_reach e s0 (pc, s) \<Longrightarrow> other_tasks s s' \<Longrightarrow> mon_reach e s0 (pc, s')"

lemma other_inv: "other_tasks s s' \<Longrightarrow> mon_inv k s' = mon_inv k s"
  by (simp add: other_tasks_def mon_inv_def mon_at_def mon_trace_def)

lemma mon_reach_ok:
  assumes "mon_reach e s0 c" and "mon_calls (calls s0) = []" "serverStatus s0 \<noteq> ETHREMOTECFG_SERVERSTATUS_RECOVERY"
  shows "mon_ok (fst (fst c), snd c)"
  using assms(1)
proof induction
  case start
  have "mon_inv 0 (issue Mcm_getCmdIf s0)"
    using assms(2,3) mon_trace_empty [of "calls s0"] by (simp add: mon_inv_def mon_at_def mon_trace_other)
  then show ?case
    using mon_head_ok [of "issue Mcm_getCmdIf s0"] by (auto simp: EthFwMon_Task_def Let_def case_prod_beta)
next
  case (turn c)
  obtain pc p s pc' p' s' where "c = ((pc, p), s)" "mon_turn e ((pc, p), s) = ((pc', p'), s')" by (metis prod.exhaust)
  with turn.IH show ?case using mon_turn_ok [of pc s e p pc' p' s'] by simp
next
  case (other pc s s')
  then show ?case by (simp add: other_inv)
qed

section \<open>Requests of the clients are other tasks\<close>

definition mon_sig :: "'a mon_st_scheme \<Rightarrow> call list \<times> EthFwMon_Obj \<times> u32" where
  "mon_sig s = (mon_calls (calls s), gEthFwMonObj s, serverStatus s)"

lemma mon_handler_call: "handler_call c \<Longrightarrow> c \<notin> set recovery_calls"
  by (cases c) (simp_all add: recovery_calls_def)

lemma mon_sig_frames [simp]:
  "c \<notin> set recovery_calls \<Longrightarrow> mon_sig (issue c s) = mon_sig s"
  "mon_sig (fault f s) = mon_sig s"
  "mon_sig (upd_core k g s) = mon_sig s"
  "mon_sig (upd_client h uc s) = mon_sig s"
  by (simp_all add: mon_sig_def mon_calls_def fault_def upd_core_def upd_client_def Let_def)

interpretation mon: handler_sig mon_sig
  by unfold_locales
    (simp_all add: mon_handler_call, simp_all add: mon_sig_def upd_notify_def CpswProxyServer_saveRxFlowOffset_def fault_def Let_def
      split: option.split)

lemma attach_calls [simp]: "Mcm_coreAttach k \<notin> set recovery_calls" "Mcm_coreDetach k x \<notin> set recovery_calls"
  "Rm_allocRxFlow x k \<notin> set recovery_calls" "Rm_allocTxCh x k \<notin> set recovery_calls"
  "Rm_allocMac x k \<notin> set recovery_calls" "Soc_getRxChPeerId \<notin> set recovery_calls"
  by (simp_all add: recovery_calls_def)

lemma mon_sig_attach [simp]:
  "mon_sig (snd (CpswProxyServer_allocClient e proc ep port s)) = mon_sig s"
  "mon_sig (snd (CpswProxyServer_detachHandlerCb k s)) = mon_sig s"
  "mon_sig (CpswProxyServer_freeClient h s) = mon_sig s"
  by (simp_all add: CpswProxyServer_allocClient_def CpswProxyServer_detachHandlerCb_def CpswProxyServer_freeClient_def
      Let_def split: option.split)

lemma mon_sig_attach_core [simp]: "mon_sig (attach_core e k s) = mon_sig s"
  by (simp add: attach_core_def Let_def)

lemma mon_sig_attachHandler [simp]: "mon_sig (snd (snd (CpswProxyServer_attachHandlerCb e h k port b s))) = mon_sig s"
  by (simp add: CpswProxyServer_attachHandlerCb_def Let_def case_prod_beta)

lemma mon_sig_attachExt [simp]: "mon_sig (snd (snd (CpswProxyServer_attachExtHandlerCb e h k port s))) = mon_sig s"
  by (simp add: CpswProxyServer_attachExtHandlerCb_def Let_def case_prod_beta)

lemma mon_sig_attach_cmds [simp]:
  "mon_sig (snd (snd (snd (cmd_attach e clId proc ep tok port s)))) = mon_sig s"
  "mon_sig (snd (snd (snd (cmd_attach_ext e clId proc ep tok port s)))) = mon_sig s"
  "mon_sig (snd (snd (cmd_detach proc tok s))) = mon_sig s"
proof -
  obtain r s1 where a: "CpswProxyServer_allocClient e proc ep port s = (r, s1)" by fastforce
  have "mon_sig s1 = mon_sig s" using mon_sig_attach(1) [of e proc ep port s] a by simp
  then show "mon_sig (snd (snd (snd (cmd_attach e clId proc ep tok port s)))) = mon_sig s"
    "mon_sig (snd (snd (snd (cmd_attach_ext e clId proc ep tok port s)))) = mon_sig s"
    by (simp_all add: cmd_attach_def cmd_attach_ext_def a Let_def case_prod_beta split: option.split)
  show "mon_sig (snd (snd (cmd_detach proc tok s))) = mon_sig s"
    by (simp add: cmd_detach_def Let_def case_prod_beta split: option.split)
qed

lemma serve_other: "other_tasks s (serve e r s)"
proof -
  obtain clId proc ep localEp req where r: "r = (clId, proc, ep, localEp, req)" by (metis prod_cases5)
  have "mon_sig (snd (snd (handle_cmd e clId proc tok cmd s))) = mon_sig s" for tok cmd
    using mon.sig_handle_cmd [of cmd e clId proc tok s] by (cases "cmd = CMD_DETACH") (simp_all add: handle_cmd_defs)
  then have "mon_sig (snd (snd (snd (run_cmd e clId proc ep req s)))) = mon_sig s"
    by (cases "rqCmd req") (simp_all add: run_cmd_def case_prod_beta)
  then have "mon_sig (serve e r s) = mon_sig s"
    by (simp add: r serve_def CpswProxyServer_clientRequestHandler_def Let_def case_prod_beta)
  then show ?thesis by (simp add: other_tasks_def mon_sig_def)
qed

text \<open>Property C7 (invariant).  Whatever the driver answers and whatever the other tasks do in between, the monitor
  stops, resets and restarts the switch in one order, recovery after recovery; the server status is
  \<open>RECOVERY\<close> exactly from the closing of the MAC ports to the restart of the monitor's clock, so never
  while the task waits for its semaphore.\<close>

theorem mon_recovery_order:
  assumes "mon_reach e s0 ((pc, p), s)" and "mon_calls (calls s0) = []" "serverStatus s0 \<noteq> ETHREMOTECFG_SERVERSTATUS_RECOVERY"
  shows "\<exists>k\<in>mon_stage pc. (\<exists>n. mon_calls (calls s) = concat (replicate n recovery_calls) @ take k recovery_calls)
     \<and> (serverStatus s = ETHREMOTECFG_SERVERSTATUS_RECOVERY \<longleftrightarrow> 3 \<le> k)"
  using mon_reach_ok [OF assms] by (simp add: mon_inv_def mon_at_def mon_trace_def)

section \<open>When a recovery ends\<close>

text \<open>
  \<open>n\<close> turns of the task; before the \<open>i\<close>-th the other tasks have changed the state by \<open>oth i\<close>.
\<close>

primrec mon_run :: "env \<Rightarrow> (nat \<Rightarrow> 'a mon_st_scheme \<Rightarrow> 'a mon_st_scheme) \<Rightarrow> nat \<Rightarrow>
    (mon_pc \<times> u32) \<times> 'a mon_st_scheme \<Rightarrow> (mon_pc \<times> u32) \<times> 'a mon_st_scheme" where
  "mon_run e oth 0 c = c"
| "mon_run e oth (Suc n) c = (case mon_run e oth n c of (pc, s) \<Rightarrow> mon_turn e (pc, oth n s))"

text \<open>The state a turn starts in, and what the loops ask of it.\<close>

abbreviation mon_before :: "env \<Rightarrow> (nat \<Rightarrow> 'a mon_st_scheme \<Rightarrow> 'a mon_st_scheme) \<Rightarrow> (mon_pc \<times> u32) \<times> 'a mon_st_scheme \<Rightarrow>
    nat \<Rightarrow> 'a mon_st_scheme" where
  "mon_before e oth c n \<equiv> oth n (snd (mon_run e oth n c))"

definition num_attached :: "CpswProxyServer_Obj \<Rightarrow> u32" where
  "num_attached ob = fst (snd (CpswProxyServer_getIdleClientCnt ob))"

definition num_idle :: "CpswProxyServer_Obj \<Rightarrow> u32" where
  "num_idle ob = snd (snd (CpswProxyServer_getIdleClientCnt ob))"

definition link_up :: "env \<Rightarrow> u32 \<Rightarrow> 'a mon_st_scheme \<Rightarrow> bool" where
  "link_up e p s = flag_of e (calls s) (Utils_isPortLinkUp p)"

lemma mon_run_step: "mon_run e oth (Suc n) c = mon_turn e (fst (mon_run e oth n c), mon_before e oth c n)"
  by (simp add: case_prod_beta)

text \<open>A loop that sleeps until a test of the state holds.\<close>

lemma poll_waits:
  assumes turn: "\<And>s. fst (mon_turn e ((W False, p), s)) = (W (Q s), p)"
    and at: "fst (mon_run e oth n c) = (W False, p)" and no: "\<forall>j. n \<le> j \<and> j < k \<longrightarrow> \<not> Q (mon_before e oth c j)"
  shows "n \<le> k \<Longrightarrow> fst (mon_run e oth k c) = (W False, p)"
  using no
proof (induction k)
  case (Suc k)
  show ?case
  proof (cases "n \<le> k")
    case True
    with Suc have "fst (mon_run e oth k c) = (W False, p)" by simp
    with Suc.prems True show ?thesis by (simp only: mon_run_step turn) simp
  qed (use Suc.prems at in \<open>simp add: le_Suc_eq\<close>)
qed (use at in simp)

lemma poll_ends:
  assumes turn: "\<And>s. fst (mon_turn e ((W False, p), s)) = (W (Q s), p)"
    and at: "fst (mon_run e oth n c) = (W False, p)" and yes: "\<exists>j\<ge>n. Q (mon_before e oth c j)"
  shows "\<exists>k\<ge>n. fst (mon_run e oth k c) = (W True, p)"
proof -
  let ?P = "\<lambda>j. n \<le> j \<and> Q (mon_before e oth c j)"
  from yes obtain j where "?P j" "\<forall>i<j. \<not> ?P i" using exists_least_iff [of ?P] by blast
  then have "fst (mon_run e oth j c) = (W False, p)" by (intro poll_waits [OF turn at]) auto
  then have "fst (mon_run e oth (Suc j) c) = (W True, p)"
    using \<open>?P j\<close> by (simp only: mon_run_step turn)
  with \<open>?P j\<close> show ?thesis by (intro exI [of _ "Suc j"]) simp
qed

lemma poll_turns:
  "fst (mon_turn e ((MonTeardown n False, p), s)) = (MonTeardown n (num_idle (gProxyServerObj s) = n), p)"
  "fst (mon_turn e ((MonPendingReq False, p), s)) = (MonPendingReq (mon_no_pending e s), p)"
  "fst (mon_turn e ((MonLink False, p), s)) = (MonLink (link_up e p s), p)"
  by (simp_all add: mon_teardown_def mon_pending_def mon_link_def num_idle_def link_up_def Let_def case_prod_beta)

text \<open>The multi-client manager does what it is asked to.\<close>

definition mcm_works :: "env \<Rightarrow> bool" where
  "mcm_works e \<longleftrightarrow> (\<forall>cs. status_of e cs Mcm_closeMacPorts = ETHFW_SOK \<and> status_of e cs Mcm_restoreCtxt = ETHFW_SOK
     \<and> status_of e cs Mcm_openMacPorts = ETHFW_SOK)"

lemma mon_recover_works:
  assumes "mcm_works e"
  shows "\<exists>b. fst (mon_recover e p s) = MonLink b"
proof -
  obtain s' where "EthFwMon_resetHandler e (EthFw_setStatus ETHREMOTECFG_SERVERSTATUS_RECOVERY s) = (Some ETHFW_SOK, s')"
    using assms by (simp add: EthFwMon_resetHandler_def mon_assert_def call_st_def mcm_works_def Let_def case_prod_beta)
  then show ?thesis by (simp add: mon_recover_def mon_link_def Let_def)
qed

lemma poll_from:
  assumes turn: "\<And>s. fst (mon_turn e ((W False, p), s)) = (W (Q s), p)"
    and at: "fst (mon_run e oth n c) = (W b, p)" and yes: "\<exists>j\<ge>n. Q (mon_before e oth c j)"
  shows "\<exists>k\<ge>n. fst (mon_run e oth k c) = (W True, p)"
proof (cases b)
  case True
  with at show ?thesis by auto
next
  case False
  with at have "fst (mon_run e oth n c) = (W False, p)" by simp
  from poll_ends [OF turn this yes] show ?thesis .
qed

lemma mon_recovery_finishes:
  assumes "mcm_works e" and "fst (mon_run e oth 0 c) = (MonTeardown n False, p)"
    and "\<exists>i. num_idle (gProxyServerObj (mon_before e oth c i)) = n"
    and "\<forall>m. \<exists>i\<ge>m. mon_no_pending e (mon_before e oth c i)" "\<forall>m. \<exists>i\<ge>m. link_up e p (mon_before e oth c i)"
  shows "\<exists>k. fst (fst (mon_run e oth k c)) \<in> {MonPend, MonDone} \<and>
    serverStatus (snd (mon_run e oth k c)) = ETHREMOTECFG_SERVERSTATUS_READY"
proof -
  from poll_ends [OF poll_turns(1) assms(2)] assms(3)
  obtain k1 where "fst (mon_run e oth k1 c) = (MonTeardown n True, p)" by auto
  then obtain b where "fst (mon_run e oth (Suc k1) c) = (MonPendingReq b, p)"
    by (simp only: mon_run_step) (simp add: mon_teardown_def mon_pending_def)
  from poll_from [OF poll_turns(2) this] assms(4) obtain k2 where "fst (mon_run e oth k2 c) = (MonPendingReq True, p)" by blast
  then obtain b where "fst (mon_run e oth (Suc k2) c) = (MonLink b, p)"
    using mon_recover_works [OF assms(1), of p "mon_before e oth c k2"]
    by (simp only: mon_run_step) (auto simp: mon_pending_def case_prod_beta Let_def)
  from poll_from [OF poll_turns(3) this] assms(5) obtain k3 where "fst (mon_run e oth k3 c) = (MonLink True, p)" by blast
  then have "fst (fst (mon_run e oth (Suc k3) c)) \<in> {MonPend, MonDone} \<and>
      serverStatus (snd (mon_run e oth (Suc k3) c)) = ETHREMOTECFG_SERVERSTATUS_READY"
    by (simp only: mon_run_step) (simp add: mon_link_def mon_finish_def mon_head_def)
  then show ?thesis by blast
qed

lemma never_pending:
  assumes "\<not> proxyArp e" "\<not> vepaSupport e" and "\<exists>d. pc = MonTeardown n d \<or> pc = MonPendingReq False"
  shows "\<exists>d. fst (mon_turn e ((pc, p), s)) = (MonTeardown n d, p) \<or> fst (mon_turn e ((pc, p), s)) = (MonPendingReq False, p)"
  using assms by (auto simp: mon_teardown_def mon_pending_def mon_no_pending_def Let_def case_prod_beta)

lemma mon_recovery_stuck:
  assumes "fst c = (MonTeardown n False, p)"
  shows "(\<forall>i. num_idle (gProxyServerObj (mon_before e oth c i)) \<noteq> n) \<Longrightarrow> fst (mon_run e oth k c) = (MonTeardown n False, p)"
    and "\<not> proxyArp e \<Longrightarrow> \<not> vepaSupport e \<Longrightarrow>
      \<exists>d. fst (mon_run e oth k c) = (MonTeardown n d, p) \<or> fst (mon_run e oth k c) = (MonPendingReq False, p)"
proof -
  have 0: "fst (mon_run e oth 0 c) = (MonTeardown n False, p)" using assms by simp
  show "(\<forall>i. num_idle (gProxyServerObj (mon_before e oth c i)) \<noteq> n) \<Longrightarrow> fst (mon_run e oth k c) = (MonTeardown n False, p)"
    using poll_waits [OF poll_turns(1) 0, where k = k] by simp
  show "\<exists>d. fst (mon_run e oth k c) = (MonTeardown n d, p) \<or> fst (mon_run e oth k c) = (MonPendingReq False, p)"
    if "\<not> proxyArp e" "\<not> vepaSupport e"
  proof (induction k)
    case (Suc k)
    then obtain pc where "fst (mon_run e oth k c) = (pc, p)" "\<exists>d. pc = MonTeardown n d \<or> pc = MonPendingReq False" by blast
    with never_pending [OF that this(2)] show ?case by (simp only: mon_run_step)
  qed (use assms in auto)
qed

text \<open>Property C8 (liveness).  A recovery that waits for the clients ends, with the server ready again, when the clients it
  counted are all idle at some check, no request is pending again and again, and the link comes up
  again and again.  It never ends when the number of idle clients is never the number counted at its
  start, or in a build with neither the ARP nor the VEPA table.\<close>

theorem mon_recovery_ends:
  assumes "mcm_works e" "fst c = (MonTeardown n False, p)"
  shows "let before = mon_before e oth c in
     ((\<exists>i. num_idle (gProxyServerObj (before i)) = n) \<and> (\<forall>m. \<exists>i\<ge>m. mon_no_pending e (before i)) \<and>
       (\<forall>m. \<exists>i\<ge>m. link_up e p (before i)) \<longrightarrow>
       (\<exists>k. fst (fst (mon_run e oth k c)) \<in> {MonPend, MonDone} \<and>
            serverStatus (snd (mon_run e oth k c)) = ETHREMOTECFG_SERVERSTATUS_READY))
   \<and> ((\<forall>i. num_idle (gProxyServerObj (before i)) \<noteq> n) \<or> \<not> proxyArp e \<and> \<not> vepaSupport e \<longrightarrow>
       (\<forall>k. fst (fst (mon_run e oth k c)) \<notin> {MonPend, MonDone}))"
proof -
  have 0: "fst (mon_run e oth 0 c) = (MonTeardown n False, p)" using assms(2) by simp
  have "fst (fst (mon_run e oth k c)) \<notin> {MonPend, MonDone}"
    if "(\<forall>i. num_idle (gProxyServerObj (mon_before e oth c i)) \<noteq> n) \<or> \<not> proxyArp e \<and> \<not> vepaSupport e" for k
    using that mon_recovery_stuck [OF assms(2), where e = e and oth = oth and k = k] by auto
  with mon_recovery_finishes [OF assms(1) 0] show ?thesis unfolding Let_def by blast
qed

text \<open>Attached and idle clients, counted in the natural numbers.\<close>

definition counted :: "CpswProxyServer_ClientObj \<Rightarrow> bool" where
  "counted x \<longleftrightarrow> inUse x \<and> token x \<noteq> ETHREMOTECFG_TOKEN_NONE"

definition attached_cnt :: "CpswProxyServer_Obj \<Rightarrow> nat" where
  "attached_cnt ob = sum_list (map (\<lambda>c. length (filter counted (clientObj c))) (coreObj ob))"

definition idle_cnt :: "CpswProxyServer_Obj \<Rightarrow> nat" where
  "idle_cnt ob = sum_list (map (\<lambda>c. length (filter (\<lambda>x. counted x \<and> isIdle x) (clientObj c))) (coreObj ob))"

lemma count_clients:
  "fold (\<lambda>c (attached, idle). if inUse c \<and> token c \<noteq> ETHREMOTECFG_TOKEN_NONE
          then (attached + 1, if isIdle c then idle + 1 else idle) else (attached, idle)) xs (a, i :: u32) =
   (a + of_nat (length (filter counted xs)), i + of_nat (length (filter (\<lambda>x. counted x \<and> isIdle x) xs)))"
  by (induction xs arbitrary: a i) (simp_all add: counted_def algebra_simps)

lemma count_cores:
  "fold (\<lambda>core. fold (\<lambda>c (attached, idle). if inUse c \<and> token c \<noteq> ETHREMOTECFG_TOKEN_NONE
          then (attached + 1, if isIdle c then idle + 1 else idle) else (attached, idle)) (clientObj core)) cs (a, i :: u32) =
   (a + of_nat (sum_list (map (\<lambda>c. length (filter counted (clientObj c))) cs)),
    i + of_nat (sum_list (map (\<lambda>c. length (filter (\<lambda>x. counted x \<and> isIdle x) (clientObj c))) cs)))"
  by (induction cs arbitrary: a i) (simp_all only: fold_simps count_clients comp_apply, simp_all add: algebra_simps)

lemma num_clients: "num_attached ob = of_nat (attached_cnt ob)" "num_idle ob = of_nat (idle_cnt ob)"
  by (simp_all add: num_attached_def num_idle_def CpswProxyServer_getIdleClientCnt_def count_cores attached_cnt_def idle_cnt_def)

lemma idle_le: "idle_cnt ob \<le> attached_cnt ob"
  unfolding idle_cnt_def attached_cnt_def
  by (intro sum_list_mono) (simp add: length_filter_conv_card card_mono Collect_mono_iff)

lemma filter_update_less:
  assumes "i < length xs" "P (xs ! i)" "\<not> P y"
  shows "length (filter P (xs[i := y])) < length (filter P xs)"
proof -
  have "{k. k < length xs \<and> P (xs[i := y] ! k)} \<subset> {k. k < length xs \<and> P (xs ! k)}"
    using assms by (auto simp: nth_list_update split: if_splits)
  then show ?thesis by (simp add: length_filter_conv_card psubset_card_mono)
qed

lemma attached_upd:
  assumes "k < length cs" "length (filter counted xs) < length (filter counted (clientObj (cs ! k)))" "clientObj c' = xs"
  shows "sum_list (map (\<lambda>c. length (filter counted (clientObj c))) (cs[k := c'])) <
    sum_list (map (\<lambda>c. length (filter counted (clientObj c))) cs)"
  using assms elem_le_sum_list [of k "map (\<lambda>c. length (filter counted (clientObj c))) cs"]
  by (simp add: map_update sum_list_update)

lemma detach_fewer:
  assumes "initDone (gProxyServerObj s)" "unat proc < length (coreObj (gProxyServerObj s))"
    and "CpswProxyServer_getClient proc tok (gProxyServerObj s) \<noteq> None" "tok \<noteq> ETHREMOTECFG_TOKEN_NONE"
  shows "attached_cnt (gProxyServerObj (serve e (clId, proc, ep, lep, \<lparr>rqToken = tok, rqId = i, rqCmd = CMD_DETACH\<rparr>) s))
    < attached_cnt (gProxyServerObj s)"
proof -
  let ?cs = "coreObj (gProxyServerObj s)" and ?k = "unat proc" and ?ob = "gProxyServerObj s"
  from assms(3) obtain j where j: "first_idx (\<lambda>c. inUse c \<and> token c = tok) (clientObj (?cs ! ?k)) = Some j"
    by (auto simp: CpswProxyServer_getClient_def core_of_def)
  then have jl: "j < length (clientObj (?cs ! ?k))" "counted (clientObj (?cs ! ?k) ! j)"
    using assms(4) by (auto dest: first_idx_SomeD simp: counted_def)
  let ?new = "(clientObj (?cs ! ?k))[j := client_zero\<lparr>token := ETHREMOTECFG_TOKEN_NONE\<rparr>]"
  have less: "length (filter counted ?new) < length (filter counted (clientObj (?cs ! ?k)))"
    by (rule filter_update_less [where P = counted, OF jl]) (simp add: counted_def client_zero_def)
  have "\<exists>c'. coreObj (gProxyServerObj (CpswProxyServer_freeClient (?k, j) (snd (CpswProxyServer_detachHandlerCb proc s)))) = ?cs[?k := c']
      \<and> clientObj c' = ?new"
    using assms(1,2)
    by (intro exI [of _ "(?cs ! ?k)\<lparr>rmRefCnt := rmRefCnt (?cs ! ?k) - (if hMcmCmdIf ?ob then 1 else 0), clientObj := ?new\<rparr>"])
      (simp add: CpswProxyServer_freeClient_def CpswProxyServer_detachHandlerCb_def CpswProxyServer_getHandle_def Let_def
        upd_client_def upd_core_def client_zero_def)
  with attached_upd [OF assms(2) less] show ?thesis
    using j by (auto simp: serve_def request_cmd handle_cmd_defs cmd_detach_def CpswProxyServer_getClient_def core_of_def
        attached_cnt_def Let_def case_prod_beta)
qed

lemma teardown_frame: "gProxyServerObj (snd (mon_turn e ((MonTeardown n False, p), s))) = gProxyServerObj s"
  by (simp add: mon_teardown_def mon_sleep_def Let_def case_prod_beta)

text \<open>The monitor waits until the number of idle clients is the number it counted before it told them.
  When one of them detaches while the monitor waits, instead of or before tearing down, and no new
  client attaches, the recovery never takes place, however many of the others are idle.\<close>

theorem mon_detach_stuck:
  assumes "initDone (gProxyServerObj s)" "unat proc < length (coreObj (gProxyServerObj s))"
    and "CpswProxyServer_getClient proc tok (gProxyServerObj s) \<noteq> None" "tok \<noteq> ETHREMOTECFG_TOKEN_NONE"
    and total: "n = num_attached (gProxyServerObj s)" "attached_cnt (gProxyServerObj s) < 2 ^ 32"
    and noattach: "\<And>i x. attached_cnt (gProxyServerObj (oth i x)) \<le> attached_cnt (gProxyServerObj x)"
  shows "let s' = serve e (clId, proc, ep, lep, \<lparr>rqToken = tok, rqId = i, rqCmd = CMD_DETACH\<rparr>) s in
    fst (mon_run e oth k ((MonTeardown n False, p), s')) = (MonTeardown n False, p)"
proof -
  let ?s = "serve e (clId, proc, ep, lep, \<lparr>rqToken = tok, rqId = i, rqCmd = CMD_DETACH\<rparr>) s"
  let ?c = "((MonTeardown n False, p), ?s)" and ?m = "attached_cnt (gProxyServerObj s)"
  have low: "num_idle (gProxyServerObj x) \<noteq> n" if "attached_cnt (gProxyServerObj x) < ?m" for x :: "'a mon_st_scheme"
    using that idle_le [of "gProxyServerObj x"] total
    by (simp add: num_clients of_nat_eq_iff unsigned_of_nat word_of_nat_eq_iff take_bit_nat_eq_self)
  have "fst (mon_run e oth k ?c) = (MonTeardown n False, p) \<and> attached_cnt (gProxyServerObj (snd (mon_run e oth k ?c))) < ?m"
  proof (induction k)
    case 0
    then show ?case using detach_fewer [OF assms(1-4)] by simp
  next
    case (Suc k)
    let ?x = "mon_before e oth ?c k"
    have x: "attached_cnt (gProxyServerObj ?x) < ?m" using Suc noattach le_less_trans by blast
    have "mon_run e oth (Suc k) ?c = mon_turn e ((MonTeardown n False, p), ?x)"
      using Suc by (simp only: mon_run_step)
    then show ?case using x low [OF x] by (simp only: poll_turns(1) teardown_frame)
  qed
  then show ?thesis by simp
qed

text \<open>While the awaited port has no link, a recovery does not end.\<close>

lemma no_link_turn:
  fixes s :: "'a mon_st_scheme"
  assumes "\<And>cs. \<not> flag_of e cs (Utils_isPortLinkUp p)" "utilsAssert e" "pc \<notin> {MonPend, MonDone, MonLink True}"
  shows "snd (fst (mon_turn e ((pc, p), s))) = p \<and> fst (fst (mon_turn e ((pc, p), s))) \<notin> {MonPend, MonDone, MonLink True}"
proof -
  have rec: "fst (mon_recover e p x) \<notin> {MonPend, MonDone, MonLink True}" for x :: "'a mon_st_scheme"
    using assms(1,2) by (auto simp: mon_recover_def mon_link_def Let_def split: prod.split option.split)
  then have pend: "fst (mon_pending e p d x) \<notin> {MonPend, MonDone, MonLink True}" for d and x :: "'a mon_st_scheme"
    by (simp add: mon_pending_def)
  then have "fst (mon_teardown e p n d x) \<notin> {MonPend, MonDone, MonLink True}" for n d and x :: "'a mon_st_scheme"
    by (simp add: mon_teardown_def Let_def case_prod_beta)
  with pend assms show ?thesis
    by (cases pc) (auto simp: mon_link_def Let_def case_prod_beta)
qed

lemma no_link_run:
  assumes "\<And>cs. \<not> flag_of e cs (Utils_isPortLinkUp p)" "utilsAssert e"
    and "fst (fst c) \<notin> {MonPend, MonDone, MonLink True}" "snd (fst c) = p"
  shows "snd (fst (mon_run e oth n c)) = p \<and> fst (fst (mon_run e oth n c)) \<notin> {MonPend, MonDone, MonLink True}"
proof (induction n)
  case (Suc n)
  let ?c = "mon_run e oth n c"
  have "mon_run e oth (Suc n) c = mon_turn e ((fst (fst ?c), p), mon_before e oth c n)"
    using Suc by (simp only: mon_run_step) (metis prod.collapse)
  then show ?case using no_link_turn [OF assms(1,2)] Suc by metis
qed (use assms in simp)

lemma reset_status: "serverStatus (snd (EthFwMon_resetHandler e s)) = serverStatus s"
proof -
  have "serverStatus (EthFwMon_saveStats e x) = serverStatus x" for x :: "'a mon_st_scheme"
    using saveStats_quiet [of x e] by (simp add: mon_quiet_def)
  then show ?thesis
    by (simp add: EthFwMon_resetHandler_def EthFwMon_getCurrentTime_def EthFwMon_setCurrentTime_def mon_time_def
        mon_assert_def call_st_def Let_def)
qed

lemma mon_ports_True [simp]: "mon_ports e is True p s = (True, p, s)"
  by (cases "is") simp_all

text \<open>When it is the host port whose counter has risen, the ports are not looked at, the status does not
  become \<open>BAD\<close>, and the port whose link is awaited after the reset is the one of an earlier recovery or
  none: then, as the invalid port never has a link, the recovery never ends and the clients are never
  told that it is complete.\<close>

theorem mon_host_recovery:
  assumes host: "fst (EthFwMon_analyzeHostStats e s)" and on: "recoveryEn (gEthFwMonObj s)" "utilsAssert e"
    and nolink: "\<And>cs. \<not> flag_of e cs (Utils_isPortLinkUp (macPortInv e))"
    and "serverStatus s \<noteq> ETHREMOTECFG_SERVERSTATUS_BAD"
  shows "let c = mon_turn e ((MonPend, macPortInv e), s) in serverStatus (snd c) \<noteq> ETHREMOTECFG_SERVERSTATUS_BAD \<and>
    (\<forall>n. snd (fst (mon_run e oth n c)) = macPortInv e \<and> fst (fst (mon_run e oth n c)) \<notin> {MonPend, MonDone})"
proof -
  let ?p = "macPortInv e"
  obtain s1 where a: "EthFwMon_analyzeHostStats e s = (True, s1)" using host by (metis prod.collapse)
  have q: "recoveryEn (gEthFwMonObj s1)" "serverStatus s1 = serverStatus s"
    using analyze_quiet(1) [of s e] on(1) by (simp_all add: a mon_quiet_def)
  let ?s = "issue Mcm_stopPeriodicTick (issue Osal_stopClock s1)"
  let ?n = "num_attached (gProxyServerObj s1)"
  have "mon_turn e ((MonPend, ?p), s) =
      (if ?n \<noteq> 0 then mon_turn e ((MonTeardown ?n False, ?p), snd (CpswProxyServer_bcastNotify e ETHREMOTECFG_NOTIFY_HWERROR ?s))
       else mon_turn e ((MonPendingReq True, ?p), ?s))"
    by (simp add: mon_check_def a q(1) num_attached_def mon_pending_def Let_def case_prod_beta)
  note eq = this
  define pc where "pc = (if ?n \<noteq> 0 then MonTeardown ?n False else MonPendingReq True)"
  define x where "x = (if ?n \<noteq> 0 then snd (CpswProxyServer_bcastNotify e ETHREMOTECFG_NOTIFY_HWERROR ?s) else ?s)"
  have pc: "pc \<notin> {MonPend, MonDone, MonLink True}" "mon_turn e ((MonPend, ?p), s) = mon_turn e ((pc, ?p), x)"
    unfolding eq by (simp_all only: pc_def x_def split: if_split) simp_all
  have x: "pc = MonTeardown ?n False \<and> x = snd (CpswProxyServer_bcastNotify e ETHREMOTECFG_NOTIFY_HWERROR ?s) \<or> pc = MonPendingReq True"
    by (simp add: pc_def x_def)
  have 1: "serverStatus (snd (mon_turn e ((MonTeardown ?n False, ?p), y))) = serverStatus y" for y :: "'a mon_st_scheme"
    by (simp add: mon_teardown_def mon_sleep_def Let_def case_prod_beta)
  have 2: "serverStatus (snd (CpswProxyServer_bcastNotify e ETHREMOTECFG_NOTIFY_HWERROR ?s)) = serverStatus s"
    using bcast_quiet [of ?s e ETHREMOTECFG_NOTIFY_HWERROR] q(2) by (simp add: mon_quiet_def)
  have 3: "serverStatus (snd (mon_turn e ((MonPendingReq True, ?p), y))) = ETHREMOTECFG_SERVERSTATUS_RECOVERY" for y :: "'a mon_st_scheme"
    using on(2) reset_status [of e "EthFw_setStatus ETHREMOTECFG_SERVERSTATUS_RECOVERY y"]
    by (simp add: mon_pending_def mon_recover_def mon_link_def mon_sleep_def Let_def case_prod_beta split: option.split)
  have st: "serverStatus (snd (mon_turn e ((MonPend, ?p), s))) \<noteq> ETHREMOTECFG_SERVERSTATUS_BAD"
    using x
  proof
    assume "pc = MonPendingReq True"
    then show ?thesis
      by (simp only: pc(2) 3) (simp add: ETHREMOTECFG_SERVERSTATUS_RECOVERY_def ETHREMOTECFG_SERVERSTATUS_BAD_def)
  qed (use assms(5) 1 2 pc(2) in metis)
  from pc no_link_turn [OF nolink on(2)] have "fst (fst (mon_turn e ((MonPend, ?p), s))) \<notin> {MonPend, MonDone, MonLink True}"
    "snd (fst (mon_turn e ((MonPend, ?p), s))) = ?p" by metis+
  from no_link_run [OF nolink on(2) this, of oth] st show ?thesis by (simp add: Let_def)
qed

section \<open>The counters\<close>

text \<open>The increases of counter \<open>j\<close> of the host port that were reported, added up.\<close>

fun host_report :: "nat \<Rightarrow> call \<Rightarrow> u64" where
  "host_report j (StatsMonHostEvtCb ev d w) = d ! j"
| "host_report j c = 0"

definition host_reports :: "nat \<Rightarrow> call list \<Rightarrow> u64" where
  "host_reports j cs = sum_list (map (host_report j) cs)"

definition host_saved :: "'a mon_st_scheme \<Rightarrow> u64 list" where
  "host_saved s = stats_words (monStats (gEthFwMonObj s) ! 0)"

definition host_shape :: "env \<Rightarrow> 'a mon_st_scheme \<Rightarrow> bool" where
  "host_shape e s \<longleftrightarrow> monStats (gEthFwMonObj s) \<noteq> [] \<and> length (txPriDrop (monStats (gEthFwMonObj s) ! 0)) = priNum e"

lemma mon_evt_iff:
  assumes "length (txPriDrop new) = length (txPriDrop old)"
  shows "mon_evt new old \<noteq> 0 \<longleftrightarrow> (\<exists>j<length (stats_words old). stats_words new ! j > stats_words old ! j)"
proof -
  have "list_ex (\<lambda>(n, k). n > k) (zip (txPriDrop new) (txPriDrop old)) \<longleftrightarrow>
      (\<exists>j<length (txPriDrop old). txPriDrop new ! j > txPriDrop old ! j)"
    using assms by (auto simp: list_ex_iff set_zip)
  moreover have "(\<exists>j<length (stats_words old). stats_words new ! j > stats_words old ! j) \<longleftrightarrow>
      rxBottomOfFifoDrop new > rxBottomOfFifoDrop old \<or> rxTopOfFifoDrop new > rxTopOfFifoDrop old \<or>
      (\<exists>j<length (txPriDrop old). txPriDrop new ! j > txPriDrop old ! j)"
    by (simp add: stats_words_def Ex_less_Suc2)
  ultimately show ?thesis
    by (simp add: mon_evt_def or_eq_0_iff ETHFW_STATSMON_RXBOTTOMOFFIFODROP_def ETHFW_STATSMON_RXTOPOFFIFODROP_def
        ETHFW_STATSMON_TXPRIDROP_def ETHFW_BIT_def)
qed

text \<open>A check of the host port with a callback given.\<close>

lemma host_check:
  assumes "statsMonHostEvtCb (monitor (gEthFwMonObj s))" "host_shape e s"
  defines "io \<equiv> Ioctl (monCoreId (gEthFwMonObj s)) STATS_GET_HOSTPORT"
  defines "old \<equiv> monStats (gEthFwMonObj s) ! 0" and "new \<equiv> read_stats e (calls s) io"
  shows "EthFwMon_analyzeHostStats e s =
    (if status_of e (calls s) io = ETHFW_SOK
     then (rxBottomOfFifoDrop new > rxBottomOfFifoDrop old,
           if mon_evt new old \<noteq> 0
           then upd_mon (\<lambda>ob. ob\<lparr>monStats := (monStats ob)[0 := new]\<rparr>)
                  (issue (StatsMonHostEvtCb (mon_evt new old) (diff_stats new old) (stats_words new)) (issue io s))
           else issue io s)
     else (False, issue io s))"
  using assms(1,2)
  by (simp add: EthFwMon_analyzeHostStats_def check_stats_def call_st_def Let_def host_shape_def save_stats_at_def
      io_def [symmetric] new_def [symmetric] old_def [symmetric])

lemma host_check_keeps:
  assumes "statsMonHostEvtCb (monitor (gEthFwMonObj s))" "host_shape e s"
  defines "s' \<equiv> snd (EthFwMon_analyzeHostStats e s)"
  shows "statsMonHostEvtCb (monitor (gEthFwMonObj s'))" "host_shape e s'"
    and "j < priNum e + 2 \<Longrightarrow> host_reports j (calls s') - host_reports j (calls s) = host_saved s' ! j - host_saved s ! j"
proof -
  have "length (stats_words (read_stats e cs c)) = priNum e + 2" for cs c
    by (simp add: stats_words_def read_stats_def)
  moreover have "length (host_saved s) = priNum e + 2"
    using assms(2) by (simp add: host_saved_def host_shape_def stats_words_def)
  ultimately show "statsMonHostEvtCb (monitor (gEthFwMonObj s'))" "host_shape e s'"
    "j < priNum e + 2 \<Longrightarrow> host_reports j (calls s') - host_reports j (calls s) = host_saved s' ! j - host_saved s ! j"
    using assms(1,2)
    by (simp_all add: s'_def host_check host_shape_def host_reports_def host_saved_def diff_stats_def)
      (simp_all add: read_stats_def)
qed

lemma diff_chain:
  fixes a :: u64
  assumes "a - b = x - y" "c - a = z - x"
  shows "c - b = z - y"
proof -
  have "c - b = (c - a) + (a - b)" by simp
  also have "\<dots> = z - y" by (simp only: assms) simp
  finally show ?thesis .
qed

text \<open>With a callback given, a check of the host port reports exactly when a counter has risen above the
  saved one, asks for recovery exactly when the bottom-of-FIFO drops have, and whatever the counters do
  (falling back or wrapping too) the increases reported for a counter over any number of checks add up,
  in 64 bits, to the difference of its saved values: no drop is lost or reported twice.\<close>

theorem mon_stats_reports:
  assumes "statsMonHostEvtCb (monitor (gEthFwMonObj s))" "host_shape e s" "j < priNum e + 2"
  shows "let io = Ioctl (monCoreId (gEthFwMonObj s)) STATS_GET_HOSTPORT; new = read_stats e (calls s) io;
      old = monStats (gEthFwMonObj s) ! 0; (need, s1) = EthFwMon_analyzeHostStats e s;
      s' = ((\<lambda>s. snd (EthFwMon_analyzeHostStats e s)) ^^ n) s in
    (status_of e (calls s) io = ETHFW_SOK \<longrightarrow>
       (need \<longleftrightarrow> rxBottomOfFifoDrop new > rxBottomOfFifoDrop old) \<and>
       calls s1 = calls s @ io # (if \<exists>i<priNum e + 2. stats_words new ! i > host_saved s ! i
                                then [StatsMonHostEvtCb (mon_evt new old) (diff_stats new old) (stats_words new)] else []))
  \<and> host_reports j (calls s') - host_reports j (calls s) = host_saved s' ! j - host_saved s ! j"
proof -
  let ?new = "read_stats e (calls s) (Ioctl (monCoreId (gEthFwMonObj s)) STATS_GET_HOSTPORT)"
  let ?old = "monStats (gEthFwMonObj s) ! 0"
  have len: "length (txPriDrop ?new) = length (txPriDrop ?old)" "length (stats_words ?old) = priNum e + 2"
    using assms(2) by (simp_all add: host_shape_def read_stats_def stats_words_def)
  have "statsMonHostEvtCb (monitor (gEthFwMonObj s')) \<and> host_shape e s' \<and>
      host_reports j (calls s') - host_reports j (calls s) = host_saved s' ! j - host_saved s ! j"
    if "s' = ((\<lambda>s. snd (EthFwMon_analyzeHostStats e s)) ^^ n) s" for s'
    using that
  proof (induction n arbitrary: s')
    case (Suc n)
    let ?s = "((\<lambda>s. snd (EthFwMon_analyzeHostStats e s)) ^^ n) s"
    note IH = Suc.IH [OF refl]
    have s': "s' = snd (EthFwMon_analyzeHostStats e ?s)" using Suc.prems by simp
    have "host_reports j (calls s') - host_reports j (calls ?s) = host_saved s' ! j - host_saved ?s ! j"
      unfolding s' using IH assms(3) by (intro host_check_keeps(3)) auto
    with diff_chain IH have "host_reports j (calls s') - host_reports j (calls s) = host_saved s' ! j - host_saved s ! j" by blast
    with IH host_check_keeps(1,2) [of ?s e] show ?case by (simp add: s')
  qed (use assms in simp)
  then have "host_reports j (calls (((\<lambda>s. snd (EthFwMon_analyzeHostStats e s)) ^^ n) s)) - host_reports j (calls s) =
      host_saved (((\<lambda>s. snd (EthFwMon_analyzeHostStats e s)) ^^ n) s) ! j - host_saved s ! j" by blast
  moreover have "(\<exists>i<priNum e + 2. stats_words ?new ! i > host_saved s ! i) = (mon_evt ?new ?old \<noteq> 0)"
    by (simp only: mon_evt_iff [OF len(1)] len(2) host_saved_def)
  ultimately show ?thesis
    by (simp only: Let_def) (simp add: host_check [OF assms(1,2)])
qed

text \<open>
  Witnesses: a server with one client attached on core 1, which is not idle, and a monitor of two ports
  with all callbacks given; the counters of the driver are 1.
\<close>

definition mon_demo :: mon_st where
  "mon_demo = \<lparr>calls = [], faults = [], gEthFwArpObj = gEthFwArpObj arp_demo\<lparr>remoteCoreArpTable := []\<rparr>,
     gEthFwVepaObj = gEthFwVepaObj vepa_demo2, gEthFwMcastObj = mcast_zero, gEthFwVlanObj = vlan_zero,
     gProxyServerObj = demo_server\<lparr>coreObj := (coreObj demo_server)
       [1 := (coreObj demo_server ! 1)\<lparr>clientObj := [client_zero\<lparr>inUse := True, token := 2500\<rparr>, client_zero]\<rparr>]\<rparr>,
     serverStatus = ETHREMOTECFG_SERVERSTATUS_READY,
     gEthFwMonObj = \<lparr>monCoreId = 5, monNumPorts = 2, recoveryEn = True,
       monitor = \<lparr>periodInMsecs = 100, closeLwipDmaCb = True, openLwipDmaCb = True, statsMonHostEvtCb = True, statsMonMacEvtCb = True\<rparr>,
       monStats = replicate 9 (stats_zero ok_env), hMonitorClock = True, hMonitorSem = True, hMonitorTask = True,
       monitorTaskRun = True\<rparr>\<rparr>"

definition mon_env :: env where
  "mon_env = ok_env\<lparr>wide_of := \<lambda>_ _ _. 1, flag_of := \<lambda>_ c. c \<noteq> Utils_isPortLinkUp (macPortInv ok_env)\<rparr>"

lemma mon_demo_facts:
  "calls mon_demo = []" "serverStatus mon_demo = ETHREMOTECFG_SERVERSTATUS_READY"
  "initDone (gProxyServerObj mon_demo)" "unat (1 :: u32) < length (coreObj (gProxyServerObj mon_demo))"
  "CpswProxyServer_getClient 1 2500 (gProxyServerObj mon_demo) \<noteq> None"
  "attached_cnt (gProxyServerObj mon_demo) = 1" "idle_cnt (gProxyServerObj mon_demo) = 0"
  "recoveryEn (gEthFwMonObj mon_demo)" "statsMonHostEvtCb (monitor (gEthFwMonObj mon_demo))"
  "host_shape mon_env mon_demo"
  by (simp_all add: mon_demo_def demo_server_def CpswProxyServer_getClient_def core_of_def first_idx_None client_zero_def
      attached_cnt_def idle_cnt_def counted_def ETHREMOTECFG_TOKEN_NONE_def CPSWPROXYSERVER_VIRTPORT_PER_CLIENT_MAX_def
      host_shape_def stats_zero_def mon_env_def ok_env_def numeral_3_eq_3)

lemma mon_env_simps [simp]:
  "status_of mon_env h c = ETHFW_SOK" "wide_of mon_env h c i = 1" "macPortInv mon_env = 0xFF" "utilsAssert mon_env"
  "flag_of mon_env h c = (c \<noteq> Utils_isPortLinkUp 0xFF)"
  by (simp_all add: mon_env_def ok_env_def)

lemma mon_demo_stats [simp]: "monStats (gEthFwMonObj mon_demo) ! 0 = stats_zero ok_env"
  by (simp add: mon_demo_def)

theorem mon_recovery_order_witness:
  "let c = mon_turn mon_env (EthFwMon_Task mon_env mon_demo) in
   \<exists>k\<in>mon_stage (fst (fst c)). \<exists>n. mon_calls (calls (snd c)) = concat (replicate n recovery_calls) @ take k recovery_calls"
proof -
  obtain pc p s where c: "mon_turn mon_env (EthFwMon_Task mon_env mon_demo) = ((pc, p), s)" by (metis prod.exhaust)
  have "mon_reach mon_env mon_demo ((pc, p), s)"
    unfolding c [symmetric] by (intro mon_reach.intros)
  from mon_recovery_order [OF this] show ?thesis
    by (auto simp: c mon_demo_facts mon_calls_def)
qed

theorem mon_recovery_ends_witness:
  "\<exists>k. fst (fst (mon_run ok_env (\<lambda>i x. x\<lparr>gEthFwArpObj := gEthFwArpObj mon_demo\<rparr>) k ((MonTeardown 0 False, 1), mon_demo))) \<in> {MonPend, MonDone}"
proof -
  let ?oth = "\<lambda>i x. x\<lparr>gEthFwArpObj := gEthFwArpObj mon_demo\<rparr>" and ?c = "((MonTeardown 0 False, 1), mon_demo)"
  have "mcm_works ok_env" by (simp add: mcm_works_def ok_env_def)
  moreover have "num_idle (gProxyServerObj (mon_before ok_env ?oth ?c 0)) = 0" by (simp add: num_clients mon_demo_facts)
  moreover have "mon_no_pending ok_env (mon_before ok_env ?oth ?c i)" for i
    by (simp add: mon_no_pending_def EthFwArp_getUseCnt_def mon_demo_def ok_env_def)
  moreover have "link_up ok_env p x" for p and x :: mon_st by (simp add: link_up_def ok_env_def)
  ultimately show ?thesis
    using mon_recovery_ends [of ok_env ?c 0 1 ?oth] unfolding Let_def by (metis fst_conv order_refl)
qed

theorem mon_detach_stuck_witness:
  "fst (mon_run ok_env (\<lambda>_ x. x) 1000 ((MonTeardown 1 False, 3), serve ok_env (2, 1, 40, 34, \<lparr>rqToken = 2500, rqId = 7, rqCmd = CMD_DETACH\<rparr>) mon_demo))
    = (MonTeardown 1 False, 3)"
  using mon_detach_stuck [OF mon_demo_facts(3,4,5), where n = 1 and oth = "\<lambda>_ x. x" and e = ok_env and k = 1000 and p = 3 and clId = 2
      and ep = 40 and lep = 34 and i = 7]
  by (simp add: num_clients mon_demo_facts ETHREMOTECFG_TOKEN_NONE_def Let_def)

theorem mon_host_recovery_witness:
  "fst (fst (mon_run mon_env (\<lambda>_ x. x) 1000 (mon_turn mon_env ((MonPend, macPortInv mon_env), mon_demo)))) \<noteq> MonPend"
proof -
  have "fst (EthFwMon_analyzeHostStats mon_env mon_demo)"
    by (simp add: host_check [OF mon_demo_facts(9,10)] read_stats_def stats_zero_def)
  then show ?thesis
    using mon_host_recovery [OF _ mon_demo_facts(8), where e = mon_env and oth = "\<lambda>_ x. x"]
    by (simp add: mon_demo_facts Let_def ETHREMOTECFG_SERVERSTATUS_READY_def ETHREMOTECFG_SERVERSTATUS_BAD_def del: mon_turn.simps)
qed

theorem mon_stats_reports_witness:
  "let s' = ((\<lambda>s. snd (EthFwMon_analyzeHostStats mon_env s)) ^^ 3) mon_demo in
   host_reports 1 (calls s') = host_saved s' ! 1"
proof -
  have "(1 :: nat) < priNum mon_env + 2" by (simp add: mon_env_def ok_env_def)
  from mon_stats_reports [OF mon_demo_facts(9,10) this, of 3] show ?thesis
    by (simp add: Let_def mon_demo_facts host_reports_def host_saved_def stats_zero_def stats_words_def case_prod_beta del: funpow.simps)
qed

end
