(* ===== verification/RingIndex.thy ===== *)
theory RingIndex
  imports Prelude
begin

text \<open>
  Positions in a ring of \<open>n\<close> places, for the two rings of the firmware: the frames in shared memory
  (\<open>ShmRing\<close>) and the log of a core (\<open>ConsoleLog\<close>).
\<close>

text \<open>The distance of two positions when either of them moves on.\<close>

lemma ring_count_Suc:
  fixes i j n :: nat
  assumes "i < n"
  shows "(Suc j mod n + n - i) mod n = Suc ((j + n - i) mod n) mod n"
proof -
  have "(Suc j mod n + (n - i)) mod n = Suc (j + (n - i)) mod n" by (simp add: mod_add_left_eq)
  then show ?thesis using assms by (simp add: mod_Suc_eq)
qed

lemma ring_last:
  fixes i j n :: nat
  assumes "i < n" "j < n"
  shows "(i + (j + n - i) mod n) mod n = j"
  using assms by (simp add: mod_add_right_eq)

lemma ring_distinct:
  fixes i k l n :: nat
  assumes "k < l" "l < n"
  shows "(i + k) mod n \<noteq> (i + l) mod n"
proof
  assume "(i + k) mod n = (i + l) mod n"
  then have "n dvd (i + l) - (i + k)" using assms by (metis add_le_cancel_left less_imp_le mod_eq_dvd_iff_nat)
  then show False using assms by (simp add: nat_dvd_not_less)
qed

lemma ring_count_tail:
  fixes i j l n :: nat
  assumes "i < n" "j < n" "(j + n - i) mod n = Suc l"
  shows "(j + n - Suc i mod n) mod n = l"
proof (cases "j < i")
  case True
  with assms have "j + n - i < n" by simp
  with assms(3) have l: "j + n - i = Suc l" by simp
  show ?thesis
  proof (cases "Suc i = n")
    case True
    with l assms(2) show ?thesis by simp
  next
    case False
    have "j + n - Suc i = l" "l < n" "Suc i < n" using l True False assms(1) by linarith+
    then show ?thesis by (simp only: mod_less)
  qed
next
  case False
  then have e: "j + n - i = (j - i) + n" by simp
  have "j - i < n" using assms(2) by linarith
  then have l: "j - i = Suc l" using assms(3) unfolding e by (simp only: mod_less mod_add_self2)
  with assms(2) have "j + n - Suc i = l + n" "l < n" "Suc i < n" by linarith+
  then show ?thesis by (simp only: mod_less mod_add_self2)
qed

end
