(* ===== verification/ShmRing.thy ===== *)
theory ShmRing
  imports RingIndex
begin

text \<open>
  The shared-memory ring by which the server passes audio frames to another core
  (\<^verbatim>\<open>apps/app_remoteswitchcfg_server/sitara/shm_cirbuf.c\<close>): its object, the two ways to write and
  the two ways to read, and what it promises: with frames of one size that divides the buffer it is a
  queue of frames that forgets everything when it is filled.

  Addresses are 32-bit and wrap around.  The memory is a function from addresses to bytes; the ring's
  object lies in front of the data and is kept as a record.
\<close>

section \<open>Data\<close>

definition SHDMEM_MAGIC :: u32 where "SHDMEM_MAGIC = 0xABCDABCD"
definition CACHE_LINE_SIZE :: u32 where "CACHE_LINE_SIZE = 128"
definition SHDMEM_STATUS_OK :: int where "SHDMEM_STATUS_OK = 0"

record ShdMemObj =
  header :: u32
  readAddr :: u32
  writeAddr :: u32
  startAddr :: u32
  endAddr :: u32
  dataAvail :: u32
  readErrCnt :: u32
  writeErrCnt :: u32
  readErrorEmpty :: u32
  writeErrorFull :: u32
  readError :: u32
  writeError :: u32
  totalBufSize :: u32
  tail :: u32

record shm_st =
  shmObj :: ShdMemObj
  mem :: "u32 \<Rightarrow> u8"

definition upd_shm :: "(ShdMemObj \<Rightarrow> ShdMemObj) \<Rightarrow> shm_st \<Rightarrow> shm_st" where
  "upd_shm f s = s\<lparr>shmObj := f (shmObj s)\<rparr>"

definition shm_metadata_overhead :: u32 where
  "shm_metadata_overhead = CACHE_LINE_SIZE"

definition shm_create :: "u32 \<Rightarrow> u32 \<Rightarrow> shm_st \<Rightarrow> shm_st" where
  "shm_create startAdd bufSize s =
     (if header (shmObj s) \<noteq> SHDMEM_MAGIC
      then (let dataAddr = startAdd + CACHE_LINE_SIZE; dataSize = bufSize - CACHE_LINE_SIZE in
            upd_shm (\<lambda>ob. ob\<lparr>header := SHDMEM_MAGIC, readAddr := dataAddr, writeAddr := dataAddr, startAddr := dataAddr,
              endAddr := dataAddr + dataSize, readErrCnt := 0, writeErrCnt := 0, readErrorEmpty := 0, writeErrorFull := 0,
              tail := SHDMEM_MAGIC, totalBufSize := dataSize, dataAvail := 0\<rparr>) s)
      else s)"

section \<open>Reading and writing\<close>

definition mem_read :: "(u32 \<Rightarrow> u8) \<Rightarrow> u32 \<Rightarrow> nat \<Rightarrow> u8 list" where
  "mem_read m a n = map (\<lambda>i. m (a + of_nat i)) [0..<n]"

definition mem_write :: "(u32 \<Rightarrow> u8) \<Rightarrow> u32 \<Rightarrow> u8 list \<Rightarrow> u32 \<Rightarrow> u8" where
  "mem_write m a bs = (\<lambda>x. if unat (x - a) < length bs then bs ! unat (x - a) else m x)"

text \<open>What the reader takes for the amount of data.\<close>

definition shm_avail :: "ShdMemObj \<Rightarrow> u32" where
  "shm_avail ob = (if writeAddr ob \<ge> readAddr ob then writeAddr ob - readAddr ob
                   else totalBufSize ob - readAddr ob - writeAddr ob)"

text \<open>Past a frame, back to the start at the very end.\<close>

definition shm_next :: "ShdMemObj \<Rightarrow> u32 \<Rightarrow> u32" where
  "shm_next ob a = (if a = endAddr ob then startAddr ob else a)"

text \<open>
  The body of the two reading functions: the address they read at, if any, the length they report,
  and the state.
\<close>

definition read_at :: "u16 \<Rightarrow> shm_st \<Rightarrow> u32 option \<times> u16 \<times> shm_st" where
  "read_at len s =
     (let ob = shmObj s; rqtSize = ucast len :: u32 in
      if header ob = SHDMEM_MAGIC \<and> shm_avail ob \<ge> rqtSize
      then (if readAddr ob + rqtSize \<le> endAddr ob
            then (Some (readAddr ob), ucast rqtSize, upd_shm (\<lambda>ob. ob\<lparr>readAddr := shm_next ob (readAddr ob + rqtSize)\<rparr>) s)
            else (None, len, upd_shm (\<lambda>ob. ob\<lparr>readErrorEmpty := readErrorEmpty ob + 1\<rparr>) s))
      else (None, 0, upd_shm (\<lambda>ob. ob\<lparr>readErrCnt := readErrCnt ob + 1\<rparr>) s))"

text \<open>The status, the bytes copied to \<open>pData\<close> if any, and \<open>*pDataLen\<close>.\<close>

definition shm_read :: "u16 \<Rightarrow> shm_st \<Rightarrow> (int \<times> u8 list option \<times> u16) \<times> shm_st" where
  "shm_read len s =
     (case read_at len s of
        (a, n, s') \<Rightarrow> ((SHDMEM_STATUS_OK, map_option (\<lambda>a. mem_read (mem s) a (unat len)) a, n), s'))"

definition shm_readBufPtr :: "u16 \<Rightarrow> shm_st \<Rightarrow> (int \<times> u32 option \<times> u16) \<times> shm_st" where
  "shm_readBufPtr len s = (case read_at len s of (a, n, s') \<Rightarrow> ((SHDMEM_STATUS_OK, a, n), s'))"

text \<open>The body of the two writing functions: the address for the data, if any.\<close>

definition write_at :: "u32 \<Rightarrow> shm_st \<Rightarrow> u32 option \<times> shm_st" where
  "write_at dataLen s =
     (let ob = shmObj s in
      if header ob = SHDMEM_MAGIC
      then (if writeAddr ob + dataLen \<le> endAddr ob
            then (Some (writeAddr ob), upd_shm (\<lambda>ob. ob\<lparr>writeAddr := shm_next ob (writeAddr ob + dataLen)\<rparr>) s)
            else (None, upd_shm (\<lambda>ob. ob\<lparr>writeErrorFull := writeErrorFull ob + 1\<rparr>) s))
      else (None, s))"

definition shm_write :: "u8 list \<Rightarrow> shm_st \<Rightarrow> int \<times> shm_st" where
  "shm_write pData s =
     (case write_at (of_nat (length pData)) s of
        (None, s) \<Rightarrow> (SHDMEM_STATUS_OK, s)
      | (Some a, s) \<Rightarrow> (SHDMEM_STATUS_OK, s\<lparr>mem := mem_write (mem s) a pData\<rparr>))"

definition shm_writeBufPtr :: "u32 \<Rightarrow> shm_st \<Rightarrow> (int \<times> u32 option) \<times> shm_st" where
  "shm_writeBufPtr dataLen s = (case write_at dataLen s of (a, s) \<Rightarrow> ((SHDMEM_STATUS_OK, a), s))"

section \<open>A queue that forgets everything when it is filled\<close>

datatype 'f ring_event = Put 'f | Get

text \<open>The frames the reader got, and the frames queued after the run.\<close>

fun queue_run :: "nat \<Rightarrow> 'f ring_event list \<Rightarrow> 'f list \<Rightarrow> 'f option list \<times> 'f list" where
  "queue_run n [] q = ([], q)"
| "queue_run n (Put f # evs) q = queue_run n evs (if Suc (length q) < n then q @ [f] else [])"
| "queue_run n (Get # evs) [] = (let (outs, q) = queue_run n evs [] in (None # outs, q))"
| "queue_run n (Get # evs) (x # q) = (let (outs, q) = queue_run n evs q in (Some x # outs, q))"

fun ring_run :: "('f \<Rightarrow> 's \<Rightarrow> 's) \<Rightarrow> ('s \<Rightarrow> 'f option \<times> 's) \<Rightarrow> 'f ring_event list \<Rightarrow> 's \<Rightarrow> 'f option list \<times> 's" where
  "ring_run put get [] s = ([], s)"
| "ring_run put get (Put f # evs) s = ring_run put get evs (put f s)"
| "ring_run put get (Get # evs) s = (let (x, s) = get s; (outs, s) = ring_run put get evs s in (x # outs, s))"

locale frame_ring =
  fixes inv :: "'s \<Rightarrow> bool" and frames :: "'s \<Rightarrow> 'f list" and frame_ok :: "'f \<Rightarrow> bool" and n :: nat
    and put :: "'f \<Rightarrow> 's \<Rightarrow> 's" and get :: "'s \<Rightarrow> 'f option \<times> 's"
  assumes put_inv: "inv s \<Longrightarrow> frame_ok f \<Longrightarrow> inv (put f s)"
    and put_frames: "inv s \<Longrightarrow> frame_ok f \<Longrightarrow> frames (put f s) = (if Suc (length (frames s)) < n then frames s @ [f] else [])"
    and get_inv: "inv s \<Longrightarrow> inv (snd (get s))"
    and get_empty: "inv s \<Longrightarrow> frames s = [] \<Longrightarrow> fst (get s) = None \<and> frames (snd (get s)) = []"
    and get_frame: "inv s \<Longrightarrow> frames s = x # q \<Longrightarrow> fst (get s) = Some x \<and> frames (snd (get s)) = q"
begin

lemma ring_refines:
  "inv s \<Longrightarrow> \<forall>f. Put f \<in> set evs \<longrightarrow> frame_ok f \<Longrightarrow>
    queue_run n evs (frames s) = (fst (ring_run put get evs s), frames (snd (ring_run put get evs s))) \<and>
    inv (snd (ring_run put get evs s))"
proof (induction evs arbitrary: s)
  case (Cons ev evs)
  show ?case
  proof (cases ev)
    case (Put f)
    with Cons.prems have "frame_ok f" by simp
    with Cons.IH [of "put f s"] Cons.prems put_inv put_frames show ?thesis by (simp add: Put)
  next
    case Get
    note IH = Cons.IH [OF get_inv [OF Cons.prems(1)]]
    show ?thesis
    proof (cases "frames s")
      case Nil
      with get_empty [OF Cons.prems(1)] IH Cons.prems(2) show ?thesis by (simp add: Get case_prod_beta Let_def)
    next
      case (Cons x q)
      with get_frame [OF Cons.prems(1)] IH \<open>\<forall>f. Put f \<in> set (ev # evs) \<longrightarrow> frame_ok f\<close> show ?thesis
        by (simp add: Get case_prod_beta Let_def)
    qed
  qed
qed simp

end

section \<open>The ring as a queue of frames\<close>

text \<open>
  \<open>n\<close> frames of \<open>L\<close> bytes from address \<open>S\<close>; the pointers by the number of their frame.
\<close>

definition frame_addr :: "u32 \<Rightarrow> nat \<Rightarrow> nat \<Rightarrow> u32" where
  "frame_addr S L i = S + of_nat (i * L)"

definition ring_shape :: "nat \<Rightarrow> nat \<Rightarrow> u32 \<Rightarrow> shm_st \<Rightarrow> bool" where
  "ring_shape n L S s \<longleftrightarrow> (let ob = shmObj s in header ob = SHDMEM_MAGIC \<and> startAddr ob = S \<and> endAddr ob = frame_addr S L n \<and>
     totalBufSize ob = of_nat (n * L) \<and> unat S + n * L < 2 ^ 32 \<and> 0 < L \<and> L < 2 ^ 16)"

definition ring_inv :: "nat \<Rightarrow> nat \<Rightarrow> u32 \<Rightarrow> shm_st \<Rightarrow> bool" where
  "ring_inv n L S s \<longleftrightarrow> ring_shape n L S s \<and>
     (\<exists>i<n. readAddr (shmObj s) = frame_addr S L i) \<and> (\<exists>j<n. writeAddr (shmObj s) = frame_addr S L j)"

definition ring_frame :: "nat \<Rightarrow> u32 \<Rightarrow> shm_st \<Rightarrow> nat \<Rightarrow> u8 list" where
  "ring_frame L S s m = mem_read (mem s) (frame_addr S L m) L"

definition frame_no :: "u32 \<Rightarrow> nat \<Rightarrow> u32 \<Rightarrow> nat" where
  "frame_no S L a = unat (a - S) div L"

definition ring_frames :: "nat \<Rightarrow> nat \<Rightarrow> u32 \<Rightarrow> shm_st \<Rightarrow> u8 list list" where
  "ring_frames n L S s =
     (let i = frame_no S L (readAddr (shmObj s)); j = frame_no S L (writeAddr (shmObj s)) in
      map (\<lambda>k. ring_frame L S s ((i + k) mod n)) [0..<(j + n - i) mod n])"

text \<open>
  The reader's computation of the data that is there, when the writer has gone round, takes the two
  addresses from the size instead of their difference; it must not come out too small.
\<close>

definition addr_ok :: "nat \<Rightarrow> nat \<Rightarrow> u32 \<Rightarrow> bool" where
  "addr_ok n L S \<longleftrightarrow> (\<forall>i<n. \<forall>j<i. of_nat L \<le> of_nat (n * L) - frame_addr S L i - frame_addr S L j)"

definition shm_put :: "u8 list \<Rightarrow> shm_st \<Rightarrow> shm_st" where
  "shm_put f s = snd (shm_write f s)"

definition shm_get :: "nat \<Rightarrow> shm_st \<Rightarrow> u8 list option \<times> shm_st" where
  "shm_get L s = (case shm_read (of_nat L) s of ((_, x, _), s) \<Rightarrow> (x, s))"

lemma unat_offset:
  assumes "unat (S :: u32) + n * L < 2 ^ 32" "i \<le> n"
  shows "unat (of_nat (i * L) :: u32) = i * L" "unat S + i * L < 2 ^ 32"
proof -
  have "i * L \<le> n * L" using assms(2) by simp
  moreover have "unat S + n * L < 4294967296" using assms(1) by simp
  ultimately have *: "unat S + i * L < 4294967296" "i * L < 4294967296" by linarith+
  show "unat (of_nat (i * L) :: u32) = i * L" using *(2) by (simp add: unat_of_nat del: of_nat_mult)
  show "unat S + i * L < 2 ^ 32" using * by simp
qed

lemma unat_frame_addr:
  assumes "unat S + n * L < 2 ^ 32" "i \<le> n"
  shows "unat (frame_addr S L i) = unat S + i * L"
  unfolding frame_addr_def using unat_offset [OF assms] by (subst unat_add_lem [THEN iffD1]) auto

lemma frame_no_addr:
  assumes "unat S + n * L < 2 ^ 32" "i \<le> n" "0 < L"
  shows "frame_no S L (frame_addr S L i) = i"
  using unat_offset(1) [OF assms(1,2)] assms(3) by (simp add: frame_no_def frame_addr_def del: of_nat_mult)

text \<open>The next frame, and the bytes of a frame after a frame has been written.\<close>

lemma frame_addr_Suc: "frame_addr S L i + of_nat L = frame_addr S L (Suc i)"
  by (simp add: frame_addr_def algebra_simps)

lemma shm_next_addr:
  assumes "ring_shape n L S s" "i < n"
  shows "shm_next (shmObj s) (frame_addr S L (Suc i)) = frame_addr S L (Suc i mod n)"
    "frame_addr S L (Suc i) \<le> endAddr (shmObj s)"
proof -
  have b: "unat S + n * L < 2 ^ 32" "endAddr (shmObj s) = frame_addr S L n" "startAddr (shmObj s) = S" "0 < L"
    using assms(1) by (simp_all add: ring_shape_def Let_def)
  have u: "unat (frame_addr S L (Suc i)) = unat S + Suc i * L" "unat (frame_addr S L n) = unat S + n * L"
    using unat_frame_addr [OF b(1)] assms(2) by simp_all
  show "frame_addr S L (Suc i) \<le> endAddr (shmObj s)"
    unfolding b(2) word_le_nat_alt u using assms(2) by (metis Suc_leI add_le_cancel_left mult_le_mono1)
  show "shm_next (shmObj s) (frame_addr S L (Suc i)) = frame_addr S L (Suc i mod n)"
  proof (cases "Suc i = n")
    case True
    then show ?thesis by (simp add: shm_next_def b(2,3)) (simp add: frame_addr_def)
  next
    case False
    with u b(4) assms(2) have "frame_addr S L (Suc i) \<noteq> frame_addr S L n"
      by (metis add_left_cancel mult_right_cancel not_gr_zero)
    with False assms(2) show ?thesis by (simp add: shm_next_def b(2))
  qed
qed

lemma unat_byte_addr:
  assumes "unat S + n * L < 2 ^ 32" "i < n" "k < L"
  shows "unat (frame_addr S L i + of_nat k) = unat S + i * L + k"
proof -
  have "Suc i * L \<le> n * L" using assms(2) by (intro mult_le_mono1) simp
  then have "i * L + k < n * L" using assms(3) by simp
  moreover have "unat S + n * L < 4294967296" using assms(1) by simp
  ultimately have "unat S + i * L + k < 4294967296" "k < 4294967296" by linarith+
  then show ?thesis
    using unat_frame_addr [OF assms(1), of i] assms(2) by (subst unat_add_lem [THEN iffD1]) (simp_all add: unat_of_nat)
qed

lemma write_frame:
  assumes "unat S + n * L < 2 ^ 32" "i < n" "j < n" "length f = L"
  shows "mem_read (mem_write m (frame_addr S L j) f) (frame_addr S L i) L = (if i = j then f else mem_read m (frame_addr S L i) L)"
proof -
  have b: "unat S + n * L < 4294967296" using assms(1) by simp
  have "mem_write m (frame_addr S L j) f (frame_addr S L i + of_nat k) = (if i = j then f ! k else m (frame_addr S L i + of_nat k))"
    if k: "k < L" for k
  proof -
    have u: "unat (frame_addr S L i + of_nat k) = unat S + i * L + k" "unat (frame_addr S L j) = unat S + j * L"
      using unat_byte_addr [OF assms(1,2) k] unat_frame_addr [OF assms(1), of j] assms(3) by simp_all
    have "(unat (frame_addr S L i + of_nat k - frame_addr S L j) < L) = (i = j)"
    proof (cases i j rule: linorder_cases)
      case less
      then have "Suc i * L \<le> j * L" by (intro mult_le_mono1) simp
      moreover have "Suc j * L \<le> n * L" using assms(3) by (intro mult_le_mono1) simp
      ultimately show ?thesis using less k b unfolding unat_sub_if' u by simp
    next
      case greater
      then have "Suc j * L \<le> i * L" by (intro mult_le_mono1) simp
      then show ?thesis using greater k unfolding unat_sub_if' u by simp
    next
      case equal
      then show ?thesis using k unfolding unat_sub_if' u by simp
    qed
    moreover have "i = j \<Longrightarrow> unat (frame_addr S L i + of_nat k - frame_addr S L j) = k"
      unfolding unat_sub_if' u by simp
    ultimately show ?thesis using assms(4) by (simp add: mem_write_def)
  qed
  then show ?thesis using assms(4) by (auto simp: mem_read_def intro: nth_equalityI)
qed

lemma ring_frames_at:
  assumes "ring_shape n L S s" "readAddr (shmObj s) = frame_addr S L i" "writeAddr (shmObj s) = frame_addr S L j" "i < n" "j < n"
  shows "ring_frames n L S s = map (\<lambda>k. ring_frame L S s ((i + k) mod n)) [0..<(j + n - i) mod n]"
  using assms frame_no_addr [of S n L i] frame_no_addr [of S n L j]
  by (simp add: ring_frames_def ring_shape_def Let_def)

lemma put_eq:
  assumes "ring_shape n L S s" "writeAddr (shmObj s) = frame_addr S L j" "j < n" "length f = L"
  shows "shm_put f s = (upd_shm (\<lambda>ob. ob\<lparr>writeAddr := frame_addr S L (Suc j mod n)\<rparr>) s)\<lparr>mem := mem_write (mem s) (frame_addr S L j) f\<rparr>"
proof -
  have "header (shmObj s) = SHDMEM_MAGIC" using assms(1) by (simp add: ring_shape_def Let_def)
  moreover have "frame_addr S L j + of_nat L \<le> endAddr (shmObj s)"
    unfolding frame_addr_Suc by (rule shm_next_addr(2) [OF assms(1,3)])
  moreover have "upd_shm (\<lambda>ob. ob\<lparr>writeAddr := shm_next ob (writeAddr ob + of_nat L)\<rparr>) s =
      upd_shm (\<lambda>ob. ob\<lparr>writeAddr := frame_addr S L (Suc j mod n)\<rparr>) s"
    using shm_next_addr(1) [OF assms(1,3)] by (simp add: upd_shm_def assms(2) frame_addr_Suc)
  ultimately show ?thesis
    by (simp add: shm_put_def shm_write_def write_at_def Let_def assms(2,4)) (simp add: upd_shm_def)
qed

lemma ring_put:
  assumes "ring_inv n L S s" "length f = L"
  shows "ring_inv n L S (shm_put f s)"
    "ring_frames n L S (shm_put f s) = (if Suc (length (ring_frames n L S s)) < n then ring_frames n L S s @ [f] else [])"
proof -
  from assms(1) obtain i j where sh: "ring_shape n L S s" and ij: "i < n" "j < n" "readAddr (shmObj s) = frame_addr S L i"
    "writeAddr (shmObj s) = frame_addr S L j" by (auto simp: ring_inv_def)
  let ?s = "shm_put f s" and ?len = "(j + n - i) mod n"
  have b: "unat S + n * L < 2 ^ 32" using sh by (simp add: ring_shape_def Let_def)
  have n0: "0 < n" using ij(1) by simp
  note e = put_eq [OF sh ij(4,2) assms(2)]
  have sh': "ring_shape n L S ?s" using sh by (simp add: e ring_shape_def upd_shm_def Let_def)
  have p: "readAddr (shmObj ?s) = frame_addr S L i" "writeAddr (shmObj ?s) = frame_addr S L (Suc j mod n)"
    using ij by (simp_all add: e upd_shm_def)
  show "ring_inv n L S ?s" using sh' p ij(1) mod_less_divisor [OF n0] unfolding ring_inv_def by blast
  have fr: "ring_frame L S ?s m = (if m = j then f else ring_frame L S s m)" if "m < n" for m
    using write_frame [OF b that ij(2) assms(2)] by (simp add: e ring_frame_def upd_shm_def)
  have old: "ring_frames n L S s = map (\<lambda>k. ring_frame L S s ((i + k) mod n)) [0..<?len]"
    by (rule ring_frames_at [OF sh ij(3,4,1,2)])
  have new: "ring_frames n L S ?s = map (\<lambda>k. ring_frame L S ?s ((i + k) mod n)) [0..<Suc ?len mod n]"
    using ring_frames_at [OF sh' p ij(1)] n0 ring_count_Suc [OF ij(1), of j] by simp
  show "ring_frames n L S ?s = (if Suc (length (ring_frames n L S s)) < n then ring_frames n L S s @ [f] else [])"
  proof (cases "Suc ?len < n")
    case True
    have "(i + k) mod n \<noteq> j" if "k < ?len" for k
      using ring_distinct [OF that, of n i] ring_last [OF ij(1,2)] n0 by simp
    with True fr n0 ring_last [OF ij(1,2)] show ?thesis by (simp add: new old)
  next
    case False
    then have "Suc ?len = n" using mod_less_divisor [OF n0, of "j + n - i"] by linarith
    then show ?thesis by (simp add: new old)
  qed
qed

lemma avail_enough:
  assumes "ring_shape n L S s" "readAddr (shmObj s) = frame_addr S L i" "writeAddr (shmObj s) = frame_addr S L j" "i < n" "j < n"
    and "addr_ok n L S"
  shows "of_nat L \<le> shm_avail (shmObj s) \<longleftrightarrow> i \<noteq> j"
proof -
  have b: "unat S + n * L < 2 ^ 32" "totalBufSize (shmObj s) = of_nat (n * L)" "0 < L"
    using assms(1) by (simp_all add: ring_shape_def Let_def)
  have u: "unat (frame_addr S L i) = unat S + i * L" "unat (frame_addr S L j) = unat S + j * L"
    using unat_frame_addr [OF b(1)] assms(4,5) by simp_all
  have uL: "unat (of_nat L :: u32) = L" using unat_offset(1) [OF b(1), of 1] assms(4) by simp
  show ?thesis
  proof (cases i j rule: linorder_cases)
    case less
    then have "Suc i * L \<le> j * L" by (intro mult_le_mono1) simp
    then show ?thesis using less u uL by (simp add: shm_avail_def assms(2,3) word_le_nat_alt unat_sub)
  next
    case equal
    then show ?thesis using b(3) uL by (simp add: shm_avail_def assms(2,3) word_le_nat_alt)
  next
    case greater
    have "j * L < i * L" using greater b(3) by simp
    then have "\<not> frame_addr S L i \<le> frame_addr S L j" using u by (simp add: word_le_nat_alt)
    with greater assms(4,6) show ?thesis by (simp add: shm_avail_def assms(2,3) b(2) addr_ok_def)
  qed
qed

lemma get_eq:
  assumes "ring_shape n L S s" "readAddr (shmObj s) = frame_addr S L i" "writeAddr (shmObj s) = frame_addr S L j" "i < n" "j < n"
    and "addr_ok n L S"
  shows "shm_get L s =
    (if i \<noteq> j then (Some (ring_frame L S s i), upd_shm (\<lambda>ob. ob\<lparr>readAddr := frame_addr S L (Suc i mod n)\<rparr>) s)
     else (None, upd_shm (\<lambda>ob. ob\<lparr>readErrCnt := readErrCnt ob + 1\<rparr>) s))"
proof -
  have h: "header (shmObj s) = SHDMEM_MAGIC" "L < 65536" using assms(1) by (simp_all add: ring_shape_def Let_def)
  then have L: "unat (of_nat L :: u16) = L" by (simp add: unat_of_nat)
  then have L32: "ucast (of_nat L :: u16) = (of_nat L :: u32)" by (metis of_nat_unat)
  have "frame_addr S L i + of_nat L \<le> endAddr (shmObj s)"
    unfolding frame_addr_Suc by (rule shm_next_addr(2) [OF assms(1,4)])
  moreover have "upd_shm (\<lambda>ob. ob\<lparr>readAddr := shm_next ob (readAddr ob + of_nat L)\<rparr>) s =
      upd_shm (\<lambda>ob. ob\<lparr>readAddr := frame_addr S L (Suc i mod n)\<rparr>) s"
    using shm_next_addr(1) [OF assms(1,4)] by (simp add: upd_shm_def assms(2) frame_addr_Suc)
  ultimately show ?thesis
    using avail_enough [OF assms] h(1)
    by (simp add: shm_get_def shm_read_def read_at_def Let_def L L32 assms(2) ring_frame_def)
qed

lemma ring_get:
  assumes "ring_inv n L S s" "addr_ok n L S"
  shows "ring_inv n L S (snd (shm_get L s))"
    "ring_frames n L S s = [] \<Longrightarrow> fst (shm_get L s) = None \<and> ring_frames n L S (snd (shm_get L s)) = []"
    "ring_frames n L S s = x # q \<Longrightarrow> fst (shm_get L s) = Some x \<and> ring_frames n L S (snd (shm_get L s)) = q"
proof -
  from assms(1) obtain i j where sh: "ring_shape n L S s" and ij: "i < n" "j < n" "readAddr (shmObj s) = frame_addr S L i"
    "writeAddr (shmObj s) = frame_addr S L j" by (auto simp: ring_inv_def)
  let ?s = "snd (shm_get L s)" and ?len = "(j + n - i) mod n"
  have n0: "0 < n" using ij(1) by simp
  note e = get_eq [OF sh ij(3,4,1,2) assms(2)]
  have sh': "ring_shape n L S ?s" using sh by (simp add: e ring_shape_def upd_shm_def Let_def)
  have p: "readAddr (shmObj ?s) = frame_addr S L (if i = j then i else Suc i mod n)" "writeAddr (shmObj ?s) = frame_addr S L j"
    using ij by (simp_all add: e upd_shm_def)
  have i': "(if i = j then i else Suc i mod n) < n" using ij(1) mod_less_divisor [OF n0, of "Suc i"] by simp
  show "ring_inv n L S ?s" using sh' p ij(2) i' unfolding ring_inv_def by blast
  have fr: "ring_frame L S ?s = ring_frame L S s" by (simp add: e ring_frame_def upd_shm_def fun_eq_iff)
  have old: "ring_frames n L S s = map (\<lambda>k. ring_frame L S s ((i + k) mod n)) [0..<?len]"
    by (rule ring_frames_at [OF sh ij(3,4,1,2)])
  note new = ring_frames_at [OF sh' p i' ij(2), unfolded fr]
  have zero: "?len = 0 \<longleftrightarrow> i = j"
  proof
    assume "?len = 0"
    then show "i = j" using ring_last [OF ij(1,2)] ij(1) by simp
  qed simp
  show "ring_frames n L S s = [] \<Longrightarrow> fst (shm_get L s) = None \<and> ring_frames n L S ?s = []"
    using zero new by (auto simp: old e split: if_splits)
  assume x: "ring_frames n L S s = x # q"
  then obtain l where l: "?len = Suc l" unfolding old by (cases ?len) simp_all
  with zero have ne: "i \<noteq> j" by auto
  have "Suc i mod n < n" using n0 by simp
  have cnt: "(j + n - Suc i mod n) mod n = l"
    by (rule ring_count_tail [OF ij(1,2) l])
  have sq: "(Suc i mod n + k) mod n = (i + Suc k) mod n" for k by (simp add: mod_add_left_eq)
  have "ring_frames n L S ?s = map (\<lambda>k. ring_frame L S s ((i + Suc k) mod n)) [0..<l]"
    using new ne cnt by (simp add: sq)
  moreover have "ring_frames n L S s = ring_frame L S s i # map (\<lambda>k. ring_frame L S s ((i + Suc k) mod n)) [0..<l]"
    unfolding old l using ij(1) by (simp add: upt_conv_Cons map_Suc_upt [symmetric] del: upt_Suc)
  ultimately show "fst (shm_get L s) = Some x \<and> ring_frames n L S ?s = q"
    using x ne by (simp add: e)
qed

interpretation shq: frame_ring "\<lambda>s. ring_inv n L S s \<and> addr_ok n L S" "ring_frames n L S" "\<lambda>f. length f = L" n shm_put "shm_get L"
  for n L S
  by unfold_locales (auto simp: ring_put ring_get(1,2) dest: ring_get(3))

text \<open>The ring of a fresh buffer, and a bound under which \<open>addr_ok\<close> holds.\<close>

lemma create_ring:
  assumes "header (shmObj s) \<noteq> SHDMEM_MAGIC" "0 < n" "0 < L" "L < 2 ^ 16" "unat (a + CACHE_LINE_SIZE) + n * L < 2 ^ 32"
  shows "ring_inv n L (a + CACHE_LINE_SIZE) (shm_create a (CACHE_LINE_SIZE + of_nat (n * L)) s)"
    "ring_frames n L (a + CACHE_LINE_SIZE) (shm_create a (CACHE_LINE_SIZE + of_nat (n * L)) s) = []"
proof -
  let ?s = "shm_create a (CACHE_LINE_SIZE + of_nat (n * L)) s" and ?S = "a + CACHE_LINE_SIZE"
  have sh: "ring_shape n L ?S ?s" using assms by (simp add: shm_create_def upd_shm_def ring_shape_def frame_addr_def Let_def)
  have p: "readAddr (shmObj ?s) = frame_addr ?S L 0" "writeAddr (shmObj ?s) = frame_addr ?S L 0"
    using assms(1) by (simp_all add: shm_create_def upd_shm_def frame_addr_def Let_def)
  show "ring_inv n L ?S ?s" using sh p assms(2) unfolding ring_inv_def by blast
  show "ring_frames n L ?S ?s = []" using ring_frames_at [OF sh p assms(2,2)] by simp
qed

lemma addr_okI:
  assumes "2 * n * L \<le> unat (- 2 * S)" "unat (- 2 * S) + n * L < 2 ^ 32"
  shows "addr_ok n L S"
proof -
  have "of_nat L \<le> of_nat (n * L) - frame_addr S L i - frame_addr S L j" if "i < n" "j < i" for i j
  proof -
    have "Suc (i + j) \<le> 2 * n" using that by simp
    then have "Suc (i + j) * L \<le> 2 * n * L" by (rule mult_le_mono1)
    then have le: "(i + j) * L + L \<le> unat (- 2 * S)" using assms(1) by simp
    define d where "d = unat (- 2 * S) + n * L - (i + j) * L"
    have "d < 4294967296" "L \<le> d" "L < 4294967296" unfolding d_def using le assms(2) by simp_all
    have "of_nat (n * L) - frame_addr S L i - frame_addr S L j = - 2 * S + of_nat (n * L) - of_nat ((i + j) * L)"
      by (simp add: frame_addr_def algebra_simps)
    also have "\<dots> = of_nat (unat (- 2 * S) + n * L) - of_nat ((i + j) * L)"
      by simp
    also have "\<dots> = of_nat d" unfolding d_def using le by (intro of_nat_diff [symmetric]) simp
    finally show ?thesis
      using \<open>d < 4294967296\<close> \<open>L \<le> d\<close> \<open>L < 4294967296\<close> by (simp add: word_le_nat_alt unat_of_nat)
  qed
  then show ?thesis by (simp add: addr_ok_def)
qed

lemma fifo_run:
  assumes "header (shmObj s) \<noteq> SHDMEM_MAGIC" "0 < n" "0 < L" "L < 2 ^ 16"
    and "unat (a + CACHE_LINE_SIZE) + n * L < 2 ^ 32" "addr_ok n L (a + CACHE_LINE_SIZE)"
    and "\<forall>f. Put f \<in> set evs \<longrightarrow> length f = L"
  shows "fst (ring_run shm_put (shm_get L) evs (shm_create a (CACHE_LINE_SIZE + of_nat (n * L)) s)) = fst (queue_run n evs [])"
  using shq.ring_refines [of n L "a + CACHE_LINE_SIZE", OF conjI [OF create_ring(1) [OF assms(1-5)] assms(6)] assms(7)]
  by (simp add: create_ring(2) [OF assms(1-5)] del: of_nat_mult)

text \<open>A writer that does not fit stays where it is.\<close>

lemma stuck_writer:
  "header (shmObj s) = SHDMEM_MAGIC \<Longrightarrow> endAddr (shmObj s) < writeAddr (shmObj s) + of_nat L \<Longrightarrow>
    \<forall>f. Put f \<in> set evs \<longrightarrow> length f = L \<Longrightarrow>
    writeAddr (shmObj (snd (ring_run shm_put (shm_get K) evs s))) = writeAddr (shmObj s) \<and>
    mem (snd (ring_run shm_put (shm_get K) evs s)) = mem s"
proof (induction evs arbitrary: s)
  case (Cons ev evs)
  have st: "header (shmObj s') = header (shmObj s) \<and> endAddr (shmObj s') = endAddr (shmObj s) \<and>
      writeAddr (shmObj s') = writeAddr (shmObj s) \<and> mem s' = mem s" if "s' = snd (shm_get K s)" for s'
    unfolding that shm_get_def shm_read_def read_at_def Let_def by (auto simp: upd_shm_def split: prod.splits if_splits)
  show ?case
  proof (cases ev)
    case (Put f)
    with Cons.prems have f: "length f = L" by simp
    have "shm_put f s = upd_shm (\<lambda>ob. ob\<lparr>writeErrorFull := writeErrorFull ob + 1\<rparr>) s"
      using Cons.prems(1,2) by (simp add: shm_put_def shm_write_def write_at_def f Let_def)
    with Cons.IH [of "shm_put f s"] Cons.prems show ?thesis by (simp add: Put upd_shm_def)
  next
    case Get
    with Cons.IH [of "snd (shm_get K s)"] Cons.prems st [OF refl] show ?thesis by (simp add: case_prod_beta Let_def)
  qed
qed simp

section \<open>Properties\<close>

text \<open>
  Property C38.  A ring made over a buffer for \<open>n\<close> frames of \<open>L\<close> bytes, written and read a frame at a
  time in any order, gives the reader exactly what a queue gives that holds at most \<open>n - 1\<close> frames and
  forgets all of them when one more is put; \<open>addr_ok\<close> is the condition on the addresses without which
  the reader's count of the available bytes comes out too small.
\<close>

theorem shm_fifo:
  assumes "header (shmObj s) \<noteq> SHDMEM_MAGIC" "0 < n" "0 < L" "L < 2 ^ 16"
    and "unat (a + CACHE_LINE_SIZE) + n * L < 2 ^ 32" "addr_ok n L (a + CACHE_LINE_SIZE)"
    and "\<forall>f. Put f \<in> set evs \<longrightarrow> length f = L"
  shows "fst (ring_run shm_put (shm_get L) evs (shm_create a (CACHE_LINE_SIZE + of_nat (n * L)) s)) = fst (queue_run n evs [])"
  using assms by (rule fifo_run)

text \<open>
  The limits of the ring: a frame that does not fit before the end of the buffer is
  dropped, and so is every later frame of its size, whatever the reader does; a read that does not fit there reports the full length and delivers nothing; and when the writer
  has gone round and the size less both addresses is below the length asked for, the reader is refused
  though frames are there.
\<close>

theorem shm_limits:
  assumes "header (shmObj s) = SHDMEM_MAGIC"
  shows "(endAddr (shmObj s) < writeAddr (shmObj s) + of_nat L \<and> (\<forall>f. Put f \<in> set evs \<longrightarrow> length f = L) \<longrightarrow>
      writeAddr (shmObj (snd (ring_run shm_put (shm_get K) evs s))) = writeAddr (shmObj s) \<and>
      mem (snd (ring_run shm_put (shm_get K) evs s)) = mem s) \<and>
    (ucast len \<le> shm_avail (shmObj s) \<and> endAddr (shmObj s) < readAddr (shmObj s) + ucast len \<longrightarrow>
      fst (shm_read len s) = (SHDMEM_STATUS_OK, None, len)) \<and>
    (writeAddr (shmObj s) < readAddr (shmObj s) \<and>
      totalBufSize (shmObj s) - readAddr (shmObj s) - writeAddr (shmObj s) < ucast len \<longrightarrow>
      fst (shm_read len s) = (SHDMEM_STATUS_OK, None, 0))"
  using assms stuck_writer [OF assms] by (auto simp: shm_read_def read_at_def shm_avail_def Let_def)

definition ring_demo :: "u32 \<Rightarrow> u32 \<Rightarrow> shm_st" where
  "ring_demo r w = \<lparr>shmObj = \<lparr>header = SHDMEM_MAGIC, readAddr = r, writeAddr = w, startAddr = 0x80000000, endAddr = 0x80000040,
     dataAvail = 0, readErrCnt = 0, writeErrCnt = 0, readErrorEmpty = 0, writeErrorFull = 0, readError = 0, writeError = 0,
     totalBufSize = 0x40, tail = SHDMEM_MAGIC\<rparr>, mem = (\<lambda>_. 0)\<rparr>"

theorem shm_fifo_witness:
  "fst (ring_run shm_put (shm_get 2) [Get, Put [1, 2], Put [3, 4], Get, Put [5, 6], Get, Get, Get, Put [7, 8], Put [9, 10], Put [11, 12], Get]
     (shm_create 0xA3000000 (CACHE_LINE_SIZE + of_nat (3 * 2)) ((ring_demo 0 0)\<lparr>shmObj := (shmObj (ring_demo 0 0))\<lparr>header := 0\<rparr>\<rparr>))) =
   [None, Some [1, 2], Some [3, 4], Some [5, 6], None, None]"
  by (subst shm_fifo)
    (auto simp: SHDMEM_MAGIC_def CACHE_LINE_SIZE_def intro!: addr_okI)

theorem shm_limits_witness:
  "writeAddr (shmObj (snd (ring_run shm_put (shm_get 16) [Put (replicate 48 7), Get, Put (replicate 48 8)] (ring_demo 0x80000030 0x80000020)))) = 0x80000020 \<and>
   fst (shm_read 24 (ring_demo 0x80000030 0x80000020)) = (SHDMEM_STATUS_OK, None, 24) \<and>
   fst (shm_read 16 (ring_demo 0x80000030 0x80000010)) = (SHDMEM_STATUS_OK, None, 0)"
  using shm_limits [of "ring_demo 0x80000030 0x80000020" 48 "[Put (replicate 48 7), Get, Put (replicate 48 8)]" 16 24]
    shm_limits [of "ring_demo 0x80000030 0x80000010" 1 "[]" 16 16]
  by (simp add: ring_demo_def shm_avail_def)

end
