(* ===== verification/Avb.thy ===== *)
theory Avb
  imports ShmRing
begin

text \<open>
  The AVB audio application of the sitara server, in listener mode
  (\<^verbatim>\<open>apps/app_remoteswitchcfg_server/sitara/ethfw_avtp.c\<close>), and the sink on the other core
  (\<^verbatim>\<open>avb_audio_sink/remote_main.c\<close>): the listener puts the payload of every AVTP packet into the ring
  of its stream, the sink takes a frame from both rings at every tick of its timer.  The AVTP stack is
  the source of the packets.  The two rings lie in separate halves of the shared memory, so the shared
  memory is a ring for each base address.
\<close>

definition AAF_RX_1_APPNO :: nat where "AAF_RX_1_APPNO = 2"
definition AAF_RX_2_APPNO :: nat where "AAF_RX_2_APPNO = 1"
definition SHM_AVB_RX_BUFFER_SIZE :: u32 where "SHM_AVB_RX_BUFFER_SIZE = 0x20000"
definition AAF_SYNC_FRAME_SIZE_CLASSA :: nat where "AAF_SYNC_FRAME_SIZE_CLASSA = 192"
definition AAF_SYNC_FRAME_SIZE_CLASSD :: nat where "AAF_SYNC_FRAME_SIZE_CLASSD = 768"

definition gListenerShmAddress_classA :: u32 where "gListenerShmAddress_classA = 0xA3000000"
definition gListenerShmAddress_classD :: u32 where "gListenerShmAddress_classD = 0xA3000000 + SHM_AVB_RX_BUFFER_SIZE"
definition gSinkShmAddress_classA :: u32 where "gSinkShmAddress_classA = 0xA3000000"
definition gSinkShmAddress_classD :: u32 where "gSinkShmAddress_classD = 0xA3000000 + SHM_AVB_RX_BUFFER_SIZE"

text \<open>The handles of \<open>gaudioListener\<close> are addresses, 0 for none.\<close>

record audio_listener =
  shmHandle :: "u32 list"
  rx_enabled :: "bool list"
  rx_counts :: "u32 list"
  mon_streams :: "nat list"

record avb_st =
  gaudioListener :: audio_listener
  shared :: "u32 \<Rightarrow> shm_st"

definition enable_monitor_stream :: "audio_listener" where
  "enable_monitor_stream = \<lparr>shmHandle = replicate 6 0,
     rx_enabled = (replicate 6 False)[AAF_RX_1_APPNO := True, AAF_RX_2_APPNO := True],
     rx_counts = replicate 6 0, mon_streams = [AAF_RX_1_APPNO, AAF_RX_2_APPNO, 0xFF, 0xFF]\<rparr>"

text \<open>The object and the data are cleared before the ring is made.\<close>

definition shm_zero :: shm_st where
  "shm_zero = \<lparr>shmObj = \<lparr>header = 0, readAddr = 0, writeAddr = 0, startAddr = 0, endAddr = 0, dataAvail = 0, readErrCnt = 0,
     writeErrCnt = 0, readErrorEmpty = 0, writeErrorFull = 0, readError = 0, writeError = 0, totalBufSize = 0, tail = 0\<rparr>,
     mem = (\<lambda>_. 0)\<rparr>"

definition aaf_init_shm :: "u32 \<Rightarrow> u32 \<Rightarrow> u32 \<Rightarrow> avb_st \<Rightarrow> u32 \<times> avb_st" where
  "aaf_init_shm address blockSize totalSize s =
     (let shmOvrHd = shm_metadata_overhead; rxShmBufSize = ((totalSize - shmOvrHd) div blockSize) * blockSize + shmOvrHd in
      (address, s\<lparr>shared := (shared s)(address := shm_create address rxShmBufSize shm_zero)\<rparr>))"

definition upd_listener :: "(audio_listener \<Rightarrow> audio_listener) \<Rightarrow> avb_st \<Rightarrow> avb_st" where
  "upd_listener f s = s\<lparr>gaudioListener := f (gaudioListener s)\<rparr>"

text \<open>The part of the start that makes the rings.\<close>

definition start_aaf_pcm_listener :: "avb_st \<Rightarrow> int \<times> avb_st" where
  "start_aaf_pcm_listener s =
     (let s = s\<lparr>gaudioListener := enable_monitor_stream\<rparr>;
          (a, s) = aaf_init_shm gListenerShmAddress_classA (of_nat AAF_SYNC_FRAME_SIZE_CLASSA) SHM_AVB_RX_BUFFER_SIZE s;
          s = upd_listener (\<lambda>l. l\<lparr>shmHandle := (shmHandle l)[AAF_RX_1_APPNO := a]\<rparr>) s;
          (d, s) = aaf_init_shm gListenerShmAddress_classD (of_nat AAF_SYNC_FRAME_SIZE_CLASSD) SHM_AVB_RX_BUFFER_SIZE s;
          s = upd_listener (\<lambda>l. l\<lparr>shmHandle := (shmHandle l)[AAF_RX_2_APPNO := d]\<rparr>) s in
      if shmHandle (gaudioListener s) ! AAF_RX_1_APPNO = 0 \<or> shmHandle (gaudioListener s) ! AAF_RX_2_APPNO = 0 then (-1, s) else (0, s))"

text \<open>
  A packet of a stream.  The stream's number comes from the packet and indexes the tables as it is;
  beyond them, for a stream without a ring, and for a payload shorter than a frame, the behaviour is
  undefined (\<open>None\<close>).
\<close>

definition audio_aaf_avtp_push_packet :: "u8 list option \<Rightarrow> u8 \<Rightarrow> avb_st \<Rightarrow> (int \<times> avb_st) option" where
  "audio_aaf_avtp_push_packet payload stream_id7 s =
     (let streamId = unat stream_id7; l = gaudioListener s in
      if \<not> streamId < 6 then None
      else let s = upd_listener (\<lambda>l. l\<lparr>rx_counts := (rx_counts l)[streamId := rx_counts l ! streamId + 1]\<rparr>) s in
        case payload of
          None \<Rightarrow> Some (0, s)
        | Some pl \<Rightarrow>
            if shmHandle l ! streamId = 0 \<or> length pl < AAF_SYNC_FRAME_SIZE_CLASSA then None
            else let a = shmHandle l ! streamId in
              Some (0, s\<lparr>shared := (shared s)(a := snd (shm_write (take AAF_SYNC_FRAME_SIZE_CLASSA pl) (shared s a)))\<rparr>))"

text \<open>The sink: the start of \<open>RemoteApp_mainTask\<close> and one turn of its loop.\<close>

definition remoteAppInitShm :: "u32 \<Rightarrow> u32 \<Rightarrow> u32 \<Rightarrow> avb_st \<Rightarrow> u32 \<times> avb_st" where
  "remoteAppInitShm address blockSize totalSize s =
     (let shmOvrHd = shm_metadata_overhead; rxShmBufSize = ((totalSize - shmOvrHd) div blockSize) * blockSize + shmOvrHd in
      (address, s\<lparr>shared := (shared s)(address := shm_create address rxShmBufSize shm_zero)\<rparr>))"

definition RemoteApp_start :: "avb_st \<Rightarrow> avb_st" where
  "RemoteApp_start s =
     snd (remoteAppInitShm gSinkShmAddress_classD (of_nat AAF_SYNC_FRAME_SIZE_CLASSD) SHM_AVB_RX_BUFFER_SIZE
       (snd (remoteAppInitShm gSinkShmAddress_classA (of_nat AAF_SYNC_FRAME_SIZE_CLASSA) SHM_AVB_RX_BUFFER_SIZE s)))"

definition sink_read :: "u32 \<Rightarrow> avb_st \<Rightarrow> (u8 list option \<times> u16) \<times> avb_st" where
  "sink_read a s =
     (case shm_read (of_nat AAF_SYNC_FRAME_SIZE_CLASSA) (shared s a) of
        ((status, x, dataLen), r) \<Rightarrow> ((x, dataLen), s\<lparr>shared := (shared s)(a := r)\<rparr>))"

definition RemoteApp_tick :: "avb_st \<Rightarrow> ((u8 list option \<times> u16) \<times> (u8 list option \<times> u16)) \<times> avb_st" where
  "RemoteApp_tick s =
     (let (x, s) = sink_read gSinkShmAddress_classA s; (y, s) = sink_read gSinkShmAddress_classD s in ((x, y), s))"

section \<open>Runs\<close>

text \<open>
  A packet arrives, or the timer of the sink ticks; the frames the sink got from the two rings.
\<close>

datatype avb_event = Packet "u8 list option" u8 | Tick

fun avb_run :: "avb_event list \<Rightarrow> avb_st \<Rightarrow> ((u8 list option \<times> u8 list option) list \<times> avb_st) option" where
  "avb_run [] s = Some ([], s)"
| "avb_run (Packet pl i # evs) s =
     (case audio_aaf_avtp_push_packet pl i s of None \<Rightarrow> None | Some (_, s) \<Rightarrow> avb_run evs s)"
| "avb_run (Tick # evs) s =
     (let ((x, y), s) = RemoteApp_tick s in
      case avb_run evs s of None \<Rightarrow> None | Some (outs, s) \<Rightarrow> Some ((fst x, fst y) # outs, s))"

text \<open>What a stream's ring sees of a run.\<close>

fun stream_events :: "nat \<Rightarrow> avb_event list \<Rightarrow> u8 list ring_event list" where
  "stream_events k [] = []"
| "stream_events k (Packet pl i # evs) =
     (case pl of
        Some pl \<Rightarrow> if unat i = k then Put (take AAF_SYNC_FRAME_SIZE_CLASSA pl) # stream_events k evs else stream_events k evs
      | None \<Rightarrow> stream_events k evs)"
| "stream_events k (Tick # evs) = Get # stream_events k evs"

definition packet_ok :: "avb_event \<Rightarrow> bool" where
  "packet_ok ev = (case ev of
     Packet pl i \<Rightarrow> (case pl of Some pl \<Rightarrow> unat i \<in> {AAF_RX_1_APPNO, AAF_RX_2_APPNO} \<and> AAF_SYNC_FRAME_SIZE_CLASSA \<le> length pl
                               | None \<Rightarrow> unat i < 6)
   | Tick \<Rightarrow> True)"

definition handles_ok :: "avb_st \<Rightarrow> bool" where
  "handles_ok s \<longleftrightarrow> shmHandle (gaudioListener s) ! AAF_RX_1_APPNO = gSinkShmAddress_classA \<and>
     shmHandle (gaudioListener s) ! AAF_RX_2_APPNO = gSinkShmAddress_classD"

lemmas avb_consts = AAF_RX_1_APPNO_def AAF_RX_2_APPNO_def SHM_AVB_RX_BUFFER_SIZE_def AAF_SYNC_FRAME_SIZE_CLASSA_def
  AAF_SYNC_FRAME_SIZE_CLASSD_def gListenerShmAddress_classA_def gListenerShmAddress_classD_def gSinkShmAddress_classA_def
  gSinkShmAddress_classD_def CACHE_LINE_SIZE_def shm_metadata_overhead_def

text \<open>A run is a run of either ring by itself.\<close>

lemma push_rings:
  assumes "handles_ok s" "packet_ok (Packet pl i)"
  obtains s' where "audio_aaf_avtp_push_packet pl i s = Some (0, s')" "handles_ok s'"
    "shared s' gSinkShmAddress_classA =
       snd (ring_run shm_put (shm_get 192) (stream_events AAF_RX_1_APPNO [Packet pl i]) (shared s gSinkShmAddress_classA))"
    "shared s' gSinkShmAddress_classD =
       snd (ring_run shm_put (shm_get 192) (stream_events AAF_RX_2_APPNO [Packet pl i]) (shared s gSinkShmAddress_classD))"
  using assms
  by (cases pl) (auto simp: audio_aaf_avtp_push_packet_def packet_ok_def handles_ok_def upd_listener_def shm_put_def avb_consts Let_def)

lemma tick_rings:
  assumes "handles_ok s"
  obtains n m s' where "RemoteApp_tick s =
      (((fst (shm_get 192 (shared s gSinkShmAddress_classA)), n), (fst (shm_get 192 (shared s gSinkShmAddress_classD)), m)), s')"
    "handles_ok s'"
    "shared s' gSinkShmAddress_classA = snd (shm_get 192 (shared s gSinkShmAddress_classA))"
    "shared s' gSinkShmAddress_classD = snd (shm_get 192 (shared s gSinkShmAddress_classD))"
proof -
  obtain st x n r st' y m r' where r: "shm_read 192 (shared s gSinkShmAddress_classA) = ((st, x, n), r)"
    "shm_read 192 (shared s gSinkShmAddress_classD) = ((st', y, m), r')" by (metis surj_pair)
  have "gSinkShmAddress_classA \<noteq> gSinkShmAddress_classD" by (simp add: avb_consts)
  with assms r show thesis
    by (intro that [of n m "s\<lparr>shared := (shared s)(gSinkShmAddress_classA := r, gSinkShmAddress_classD := r')\<rparr>"])
      (simp_all add: RemoteApp_tick_def sink_read_def shm_get_def handles_ok_def AAF_SYNC_FRAME_SIZE_CLASSA_def)
qed

lemma avb_split:
  assumes "handles_ok s" "\<forall>ev\<in>set evs. packet_ok ev"
  obtains outs s' where "avb_run evs s = Some (outs, s')"
    "map fst outs = fst (ring_run shm_put (shm_get 192) (stream_events AAF_RX_1_APPNO evs) (shared s gSinkShmAddress_classA))"
    "map snd outs = fst (ring_run shm_put (shm_get 192) (stream_events AAF_RX_2_APPNO evs) (shared s gSinkShmAddress_classD))"
  using assms
proof (induction evs arbitrary: s thesis)
  case (Cons ev evs)
  show ?case
  proof (cases ev)
    case (Packet pl i)
    with Cons.prems(3) have "packet_ok (Packet pl i)" by simp
    from push_rings [OF Cons.prems(2) this] obtain s' where s': "audio_aaf_avtp_push_packet pl i s = Some (0, s')" "handles_ok s'"
      "shared s' gSinkShmAddress_classA =
         snd (ring_run shm_put (shm_get 192) (stream_events AAF_RX_1_APPNO [Packet pl i]) (shared s gSinkShmAddress_classA))"
      "shared s' gSinkShmAddress_classD =
         snd (ring_run shm_put (shm_get 192) (stream_events AAF_RX_2_APPNO [Packet pl i]) (shared s gSinkShmAddress_classD))" .
    from Cons.prems(3) have "\<forall>ev\<in>set evs. packet_ok ev" by simp
    from Cons.IH [OF _ s'(2) this] obtain outs t where "avb_run evs s' = Some (outs, t)"
      "map fst outs = fst (ring_run shm_put (shm_get 192) (stream_events AAF_RX_1_APPNO evs) (shared s' gSinkShmAddress_classA))"
      "map snd outs = fst (ring_run shm_put (shm_get 192) (stream_events AAF_RX_2_APPNO evs) (shared s' gSinkShmAddress_classD))" .
    with s' show ?thesis
      by (intro Cons.prems(1) [of outs t]) (auto simp: Packet split: option.split)
  next
    case Tick
    from tick_rings [OF Cons.prems(2)] obtain n m s' where s': "RemoteApp_tick s =
        (((fst (shm_get 192 (shared s gSinkShmAddress_classA)), n), (fst (shm_get 192 (shared s gSinkShmAddress_classD)), m)), s')"
      "handles_ok s'"
      "shared s' gSinkShmAddress_classA = snd (shm_get 192 (shared s gSinkShmAddress_classA))"
      "shared s' gSinkShmAddress_classD = snd (shm_get 192 (shared s gSinkShmAddress_classD))" .
    from Cons.prems(3) have "\<forall>ev\<in>set evs. packet_ok ev" by simp
    from Cons.IH [OF _ s'(2) this] obtain outs t where "avb_run evs s' = Some (outs, t)"
      "map fst outs = fst (ring_run shm_put (shm_get 192) (stream_events AAF_RX_1_APPNO evs) (shared s' gSinkShmAddress_classA))"
      "map snd outs = fst (ring_run shm_put (shm_get 192) (stream_events AAF_RX_2_APPNO evs) (shared s' gSinkShmAddress_classD))" .
    with s' show ?thesis
      by (intro Cons.prems(1) [of "(fst (shm_get 192 (shared s gSinkShmAddress_classA)), fst (shm_get 192 (shared s gSinkShmAddress_classD))) # outs" t])
        (simp_all add: Tick case_prod_beta Let_def)
  qed
qed simp

lemma stream_frames:
  "\<forall>ev\<in>set evs. packet_ok ev \<Longrightarrow> Put f \<in> set (stream_events k evs) \<Longrightarrow> length f = 192"
  by (induction k evs rule: stream_events.induct) (auto simp: packet_ok_def avb_consts split: option.splits if_splits)

section \<open>Property\<close>

text \<open>
  After the listener has been started (the sink may have been started before it), the
  sink gets from either ring the first 192 bytes of the payloads of its stream, in order, as from a
  queue that forgets everything when it is filled: by the 682nd frame for the ring of class A, by the
  680th for that of class D, whose blocks of 768 bytes no one uses.
\<close>

theorem avb_frames:
  assumes "\<forall>ev\<in>set evs. packet_ok ev"
  shows "\<exists>outs s'. avb_run evs (snd (start_aaf_pcm_listener s)) = Some (outs, s') \<and>
    map fst outs = fst (queue_run 682 (stream_events AAF_RX_1_APPNO evs) []) \<and>
    map snd outs = fst (queue_run 680 (stream_events AAF_RX_2_APPNO evs) [])"
proof -
  let ?s = "snd (start_aaf_pcm_listener s)"
  have h: "handles_ok ?s"
    by (simp add: start_aaf_pcm_listener_def aaf_init_shm_def upd_listener_def handles_ok_def enable_monitor_stream_def avb_consts Let_def)
  have a: "shared ?s gSinkShmAddress_classA = shm_create gSinkShmAddress_classA (CACHE_LINE_SIZE + of_nat (682 * 192)) shm_zero"
    by (simp add: start_aaf_pcm_listener_def aaf_init_shm_def upd_listener_def avb_consts Let_def)
  have d: "shared ?s gSinkShmAddress_classD = shm_create gSinkShmAddress_classD (CACHE_LINE_SIZE + of_nat (680 * 192)) shm_zero"
    by (simp add: start_aaf_pcm_listener_def aaf_init_shm_def upd_listener_def avb_consts Let_def)
  have z: "header (shmObj shm_zero) \<noteq> SHDMEM_MAGIC" by (simp add: shm_zero_def SHDMEM_MAGIC_def)
  from avb_split [OF h assms] obtain outs s' where o: "avb_run evs ?s = Some (outs, s')"
    "map fst outs = fst (ring_run shm_put (shm_get 192) (stream_events AAF_RX_1_APPNO evs) (shared ?s gSinkShmAddress_classA))"
    "map snd outs = fst (ring_run shm_put (shm_get 192) (stream_events AAF_RX_2_APPNO evs) (shared ?s gSinkShmAddress_classD))" .
  have "map fst outs = fst (queue_run 682 (stream_events AAF_RX_1_APPNO evs) [])"
    unfolding o(2) a using stream_frames [OF assms]
    by (intro fifo_run z) (auto simp: avb_consts intro!: addr_okI)
  moreover have "map snd outs = fst (queue_run 680 (stream_events AAF_RX_2_APPNO evs) [])"
    unfolding o(3) d using stream_frames [OF assms]
    by (intro fifo_run z) (auto simp: avb_consts intro!: addr_okI)
  ultimately show ?thesis using o(1) by blast
qed

theorem avb_frames_witness:
  "\<exists>outs s'. avb_run [Packet (Some (replicate 300 7)) 2, Tick, Packet (Some (replicate 200 8)) 1, Packet None 4, Tick]
      (snd (start_aaf_pcm_listener (RemoteApp_start \<lparr>gaudioListener = enable_monitor_stream, shared = \<lambda>_. shm_zero\<rparr>))) = Some (outs, s') \<and>
    map fst outs = [Some (replicate 192 7), None] \<and> map snd outs = [None, Some (replicate 192 8)]"
  using avb_frames [of "[Packet (Some (replicate 300 7)) 2, Tick, Packet (Some (replicate 200 8)) 1, Packet None 4, Tick]"
      "RemoteApp_start \<lparr>gaudioListener = enable_monitor_stream, shared = \<lambda>_. shm_zero\<rparr>"]
  by (simp add: packet_ok_def avb_consts)

end
