(* ===== verification/ConsoleLog.thy ===== *)
theory ConsoleLog
  imports RingIndex
begin

text \<open>
  The console log (\<^verbatim>\<open>utils/console_io/src/app_log_writer.c\<close>, \<^verbatim>\<open>app_log_reader.c\<close>): every core
  writes lines into a ring of its own in shared memory, one core reads them all and prints them.  First
  the operations as the code has them, then the writer and the reader of one ring as a step relation in
  which they take turns byte by byte, as they do on two cores.

  The log memory is a function from indices; every access of the code is at an index below its size.
\<close>

section \<open>Data\<close>

definition APP_LOG_MAX_CPUS :: u32 where "APP_LOG_MAX_CPUS = 16"
definition APP_LOG_MAX_CPU_NAME :: nat where "APP_LOG_MAX_CPU_NAME = 16"
definition APP_LOG_PER_CPU_MEM_SIZE :: u32 where "APP_LOG_PER_CPU_MEM_SIZE = 16 * 1024 - 32"
definition APP_LOG_AREA_VALID_FLAG :: u32 where "APP_LOG_AREA_VALID_FLAG = 0x1357231"
definition APP_LOG_BUF_MAX :: u32 where "APP_LOG_BUF_MAX = 1024"

record log_mem =
  log_rd_idx :: u32
  log_wr_idx :: u32
  log_area_is_valid :: u32
  log_cpu_sync_state :: u32
  log_cpu_name :: "u8 list"
  log_bytes :: "u32 \<Rightarrow> u8"

record log_init_prm =
  shared_mem :: bool
  self_cpu_index :: u32
  self_cpu_name :: "u8 list"
  log_rd_max_cpus :: u32
  device_write :: bool

text \<open>
  The shared memory, the ring of the writer's core, the reader's settings, and what the reader has
  given to the device: the name of a core and a line each time.
\<close>

record log_st =
  cpu_logs :: "log_mem list"
  wr_cpu :: "nat option"
  wr_locked :: bool
  rd_max_cpus :: u32
  rd_device :: bool
  printed :: "(u8 list \<times> u8 list) list"

definition upd_log :: "nat \<Rightarrow> (log_mem \<Rightarrow> log_mem) \<Rightarrow> log_st \<Rightarrow> log_st" where
  "upd_log k f s = s\<lparr>cpu_logs := (cpu_logs s)[k := f (cpu_logs s ! k)]\<rparr>"

section \<open>The writer\<close>

definition appLogWrInit :: "log_init_prm \<Rightarrow> log_st \<Rightarrow> int \<times> log_st" where
  "appLogWrInit prm s =
     (let s = s\<lparr>wr_cpu := None\<rparr> in
      if self_cpu_index prm \<ge> APP_LOG_MAX_CPUS then (-1, s)
      else if \<not> shared_mem prm then (-1, s)
      else let k = unat (self_cpu_index prm);
          s = upd_log k (\<lambda>m. m\<lparr>log_cpu_name := take APP_LOG_MAX_CPU_NAME (self_cpu_name prm)\<rparr>) (s\<lparr>wr_cpu := Some k\<rparr>) in
        if log_area_is_valid (cpu_logs s ! k) = APP_LOG_AREA_VALID_FLAG then (0, s)
        else (0, upd_log k (\<lambda>m. m\<lparr>log_wr_idx := 0, log_area_is_valid := APP_LOG_AREA_VALID_FLAG\<rparr>) s))"

definition log_wrap :: "u32 \<Rightarrow> u32" where
  "log_wrap i = (if i \<ge> APP_LOG_PER_CPU_MEM_SIZE then 0 else i)"

definition strlen :: "u8 list \<Rightarrow> nat" where
  "strlen buf = length (takeWhile (\<lambda>b. b \<noteq> 0) buf)"

text \<open>The bytes the writer takes for free.\<close>

definition wr_max_bytes :: "log_mem \<Rightarrow> u32" where
  "wr_max_bytes m =
     (let wr_idx = log_wrap (log_wr_idx m); rd_idx = log_wrap (log_rd_idx m) in
      if wr_idx < rd_idx then rd_idx - wr_idx else (APP_LOG_PER_CPU_MEM_SIZE - wr_idx) + rd_idx)"

definition put_ok :: "u8 list \<Rightarrow> log_mem \<Rightarrow> bool" where
  "put_ok buf m \<longleftrightarrow> log_area_is_valid m = APP_LOG_AREA_VALID_FLAG \<and> strlen buf > 0 \<and>
     \<not> (of_nat (strlen buf) :: u32) > wr_max_bytes m - 1"

text \<open>One turn of the copying loop, and the loop.\<close>

definition wr_byte :: "u8 \<Rightarrow> u32 \<times> (u32 \<Rightarrow> u8) \<Rightarrow> u32 \<times> (u32 \<Rightarrow> u8)" where
  "wr_byte b = (\<lambda>(wr_idx, dst). let wr_idx = log_wrap wr_idx in (wr_idx + 1, dst(wr_idx := b)))"

fun wr_bytes :: "u8 list \<Rightarrow> u32 \<times> (u32 \<Rightarrow> u8) \<Rightarrow> u32 \<times> (u32 \<Rightarrow> u8)" where
  "wr_bytes [] x = x"
| "wr_bytes (b # bs) x = wr_bytes bs (wr_byte b x)"

definition appLogWrPutString :: "u8 list \<Rightarrow> log_mem option \<Rightarrow> int \<times> log_mem option" where
  "appLogWrPutString buf cpu_shared_mem =
     (case cpu_shared_mem of
        None \<Rightarrow> (-1, None)
      | Some m \<Rightarrow>
          if \<not> put_ok buf m then (-1, Some m)
          else let (wr_idx, dst) = wr_bytes (take (strlen buf) buf) (log_wrap (log_wr_idx m), log_bytes m);
              wr_idx = log_wrap wr_idx;
              dst = dst(wr_idx := 0);
              wr_idx = log_wrap (wr_idx + 1) in
            (0, Some (m\<lparr>log_bytes := dst, log_wr_idx := wr_idx\<rparr>)))"

text \<open>
  \<open>appLogPrintf\<close>: the time stamp, and the text the format and its arguments stand for, cut to what is
  left of the buffer.
\<close>

fun dec :: "nat \<Rightarrow> u8 list" where
  "dec n = (if n < 10 then [of_nat (48 + n)] else dec (n div 10) @ [of_nat (48 + n mod 10)])"

definition pad :: "u8 \<Rightarrow> nat \<Rightarrow> u8 list \<Rightarrow> u8 list" where
  "pad c w ds = replicate (w - length ds) c @ ds"

definition dec_signed :: "u32 \<Rightarrow> u8 list" where
  "dec_signed x = (if sint x < 0 then 45 # dec (nat (- sint x)) else dec (nat (sint x)))"

definition time_stamp :: "u64 \<Rightarrow> u8 list" where
  "time_stamp t = pad 32 6 (dec_signed (ucast (t div 1000000))) @ [46] @ pad 48 6 (dec (unat (ucast (t mod 1000000) :: u32))) @ [32, 115, 58, 32]"

definition appLogPrintf :: "u64 \<Rightarrow> u8 list \<Rightarrow> log_st \<Rightarrow> log_st" where
  "appLogPrintf cur_time msg s =
     (let s = s\<lparr>wr_locked := True\<rparr>; stamp = time_stamp cur_time; str_len = length stamp in
      if str_len < unat APP_LOG_BUF_MAX
      then let buf = stamp @ take (unat APP_LOG_BUF_MAX - str_len - 1) (takeWhile (\<lambda>b. b \<noteq> 0) msg) @ [0];
          s = (case wr_cpu s of
                 None \<Rightarrow> s
               | Some k \<Rightarrow> (case snd (appLogWrPutString buf (Some (cpu_logs s ! k))) of
                   None \<Rightarrow> s | Some m \<Rightarrow> upd_log k (\<lambda>_. m) s)) in
        s\<lparr>wr_locked := False\<rparr>
      else s)"

section \<open>The reader\<close>

definition appLogRdInit :: "bool \<Rightarrow> log_init_prm \<Rightarrow> log_st \<Rightarrow> int \<times> log_st" where
  "appLogRdInit task_ok prm s =
     (if \<not> shared_mem prm \<or> log_rd_max_cpus prm \<ge> APP_LOG_MAX_CPUS then (-1, s)
      else let s = s\<lparr>rd_max_cpus := log_rd_max_cpus prm, rd_device := device_write prm\<rparr>;
          s = fold (\<lambda>k. upd_log k (\<lambda>m. m\<lparr>log_rd_idx := 0\<rparr>)) [0..<unat (log_rd_max_cpus prm)] s in
        (if task_ok then 0 else -1, s))"

definition line_break :: "u8 \<Rightarrow> bool" where
  "line_break c \<longleftrightarrow> c = 0xA0 \<or> c = 13 \<or> c = 10 \<or> c = 0"

text \<open>The bytes the reader takes for written.\<close>

definition rd_num_bytes :: "log_mem \<Rightarrow> u32" where
  "rd_num_bytes m =
     (if log_rd_idx m > log_wr_idx m then (APP_LOG_PER_CPU_MEM_SIZE - log_rd_idx m) + log_wr_idx m
      else log_wr_idx m - log_rd_idx m)"

text \<open>The reader's loop: the bytes still to be looked at, \<open>copy_bytes\<close>, \<open>rd_idx\<close>, and what is in \<open>buf\<close>.\<close>

fun rd_loop :: "nat \<Rightarrow> (u32 \<Rightarrow> u8) \<Rightarrow> u32 \<Rightarrow> u32 \<Rightarrow> u32 \<Rightarrow> u8 list \<Rightarrow> u32 \<times> u8 list" where
  "rd_loop 0 src buf_size copy_bytes rd_idx buf = (rd_idx, buf)"
| "rd_loop (Suc n) src buf_size copy_bytes rd_idx buf =
     (let rd_idx = log_wrap rd_idx; cur_char = src rd_idx; rd_idx = rd_idx + 1 in
      if line_break cur_char \<or> copy_bytes \<ge> APP_LOG_PER_CPU_MEM_SIZE \<or> copy_bytes > buf_size then (rd_idx, buf)
      else rd_loop n src buf_size (copy_bytes + 1) rd_idx (buf @ [cur_char]))"

definition appLogRdGetString :: "u32 \<Rightarrow> log_mem \<Rightarrow> (u32 \<times> u8 list) \<times> log_mem" where
  "appLogRdGetString buf_size m =
     (let num_bytes = rd_num_bytes m in
      if num_bytes > 0
      then let (rd_idx, buf) = rd_loop (unat num_bytes) (log_bytes m) buf_size 0 (log_rd_idx m) [] in
        ((num_bytes, buf), m\<lparr>log_rd_idx := rd_idx\<rparr>)
      else ((num_bytes, []), m))"

text \<open>The inner loop of the reader's task, and one round over the cores.\<close>

partial_function (option) rd_drain :: "nat \<Rightarrow> log_st \<Rightarrow> log_st option" where
  "rd_drain cpu_id s =
     (let ((num_bytes, line), m) = appLogRdGetString APP_LOG_BUF_MAX (cpu_logs s ! cpu_id);
          s = upd_log cpu_id (\<lambda>_. m) s;
          s = (if line \<noteq> [] \<and> rd_device s then s\<lparr>printed := printed s @ [(log_cpu_name m, line)]\<rparr> else s) in
      if num_bytes = 0 then Some s else rd_drain cpu_id s)"

definition rd_cpu :: "nat \<Rightarrow> log_st \<Rightarrow> log_st option" where
  "rd_cpu cpu_id s =
     (if log_area_is_valid (cpu_logs s ! cpu_id) = APP_LOG_AREA_VALID_FLAG then rd_drain cpu_id s else Some s)"

definition appLogRdRun_round :: "log_st \<Rightarrow> log_st option" where
  "appLogRdRun_round s =
     fold (\<lambda>k r. case r of None \<Rightarrow> None | Some s \<Rightarrow> rd_cpu k s) [0..<unat (rd_max_cpus s)] (Some s)"

section \<open>Two cores\<close>

text \<open>
  The writer before its copying loop (\<open>WrIdle\<close>), in it with the bytes left (the final 0 is the last),
  its index, and the whole string; the reader before its loop, in it with the number of bytes left, and
  after it.  \<open>accepted\<close> are the bytes of the strings published, \<open>outs\<close> what the reader got, \<open>filled\<close>
  whether a string ever took all the free bytes.
\<close>

datatype wr_pc = WrIdle | WrCopy "u8 list" u32 "u8 list"
datatype rd_pc = RdIdle | RdCopy nat u32 u32 "u8 list" | RdEnd u32 "u8 list"

record log_sys =
  ring :: log_mem
  wr :: wr_pc
  rd :: rd_pc
  accepted :: "u8 list"
  outs :: "u8 list list"
  filled :: bool

inductive log_step :: "log_sys \<Rightarrow> log_sys \<Rightarrow> bool" where
  put_begin: "wr c = WrIdle \<Longrightarrow> put_ok buf (ring c) \<Longrightarrow> strlen buf < unat APP_LOG_BUF_MAX \<Longrightarrow>
    log_step c (c\<lparr>wr := WrCopy (take (strlen buf) buf @ [0]) (log_wrap (log_wr_idx (ring c))) (take (strlen buf) buf @ [0]),
                filled := filled c \<or> of_nat (strlen buf) = wr_max_bytes (ring c) - 1\<rparr>)"
| put_byte: "wr c = WrCopy (b # bs) i x \<Longrightarrow> wr_byte b (i, log_bytes (ring c)) = (i', dst) \<Longrightarrow>
    log_step c (c\<lparr>wr := WrCopy bs i' x, ring := (ring c)\<lparr>log_bytes := dst\<rparr>\<rparr>)"
| put_end: "wr c = WrCopy [] i x \<Longrightarrow>
    log_step c (c\<lparr>wr := WrIdle, ring := (ring c)\<lparr>log_wr_idx := log_wrap i\<rparr>, accepted := accepted c @ x\<rparr>)"
| get_begin: "rd c = RdIdle \<Longrightarrow> rd_num_bytes (ring c) > 0 \<Longrightarrow>
    log_step c (c\<lparr>rd := RdCopy (unat (rd_num_bytes (ring c))) 0 (log_rd_idx (ring c)) []\<rparr>)"
| get_byte: "rd c = RdCopy (Suc n) k i buf \<Longrightarrow> ch = log_bytes (ring c) (log_wrap i) \<Longrightarrow>
    \<not> (line_break ch \<or> k \<ge> APP_LOG_PER_CPU_MEM_SIZE \<or> k > APP_LOG_BUF_MAX) \<Longrightarrow>
    log_step c (c\<lparr>rd := RdCopy n (k + 1) (log_wrap i + 1) (buf @ [ch])\<rparr>)"
| get_break: "rd c = RdCopy (Suc n) k i buf \<Longrightarrow> ch = log_bytes (ring c) (log_wrap i) \<Longrightarrow>
    line_break ch \<or> k \<ge> APP_LOG_PER_CPU_MEM_SIZE \<or> k > APP_LOG_BUF_MAX \<Longrightarrow>
    log_step c (c\<lparr>rd := RdEnd (log_wrap i + 1) buf\<rparr>)"
| get_all: "rd c = RdCopy 0 k i buf \<Longrightarrow> log_step c (c\<lparr>rd := RdEnd i buf\<rparr>)"
| get_end: "rd c = RdEnd i buf \<Longrightarrow>
    log_step c (c\<lparr>rd := RdIdle, ring := (ring c)\<lparr>log_rd_idx := i\<rparr>, outs := outs c @ [buf]\<rparr>)"

text \<open>What is printed: the stream of bytes, cut at the line breaks.\<close>

fun split_lines :: "u8 list \<Rightarrow> u8 list \<Rightarrow> u8 list list" where
  "split_lines acc [] = []"
| "split_lines acc (b # bs) = (if line_break b then acc # split_lines [] bs else split_lines (acc @ [b]) bs)"

section \<open>Pending bytes\<close>

abbreviation LOGN :: nat where "LOGN \<equiv> unat APP_LOG_PER_CPU_MEM_SIZE"

lemma LOGN: "LOGN = 16352" by (simp add: APP_LOG_PER_CPU_MEM_SIZE_def)

lemma log_wrap_mod:
  assumes "unat i \<le> LOGN"
  shows "unat (log_wrap i) = unat i mod LOGN" "log_wrap i = of_nat (unat i mod LOGN)"
proof -
  show e: "unat (log_wrap i) = unat i mod LOGN"
  proof (cases "unat i = LOGN")
    case True
    then show ?thesis by (simp add: log_wrap_def word_le_nat_alt)
  next
    case False
    with assms show ?thesis by (simp add: log_wrap_def word_le_nat_alt)
  qed
  show "log_wrap i = of_nat (unat i mod LOGN)" unfolding e [symmetric] by simp
qed

definition cell :: "(u32 \<Rightarrow> u8) \<Rightarrow> nat \<Rightarrow> u8" where
  "cell f k = f (of_nat (k mod LOGN))"

definition ring_at :: "nat \<Rightarrow> u8 list \<Rightarrow> (u32 \<Rightarrow> u8) \<Rightarrow> bool" where
  "ring_at p bs f \<longleftrightarrow> (\<forall>k<length bs. cell f (p + k) = bs ! k)"

text \<open>The published bytes that the reader has not taken.\<close>

definition pend :: "log_mem \<Rightarrow> u8 list \<Rightarrow> bool" where
  "pend m P \<longleftrightarrow> unat (log_rd_idx m) \<le> LOGN \<and> unat (log_wr_idx m) < LOGN \<and> length P < LOGN \<and>
     (unat (log_rd_idx m) + length P) mod LOGN = unat (log_wr_idx m) \<and> ring_at (unat (log_rd_idx m)) P (log_bytes m)"

lemma cell_mod: "k mod LOGN = l mod LOGN \<Longrightarrow> cell f k = cell f l"
  by (simp add: cell_def)

lemma cell_upd: "unat i \<le> LOGN \<Longrightarrow> cell (f(log_wrap i := b)) k = (if k mod LOGN = unat i mod LOGN then b else cell f k)"
proof -
  assume i: "unat i \<le> LOGN"
  have "k mod LOGN < LOGN" "unat i mod LOGN < LOGN" by (simp_all add: LOGN)
  then have "k mod LOGN < 4294967296" "unat i mod LOGN < 4294967296" unfolding LOGN by linarith+
  then have "(of_nat (k mod LOGN) :: u32) = of_nat (unat i mod LOGN) \<longleftrightarrow> k mod LOGN = unat i mod LOGN"
    by (simp add: word_unat_eq_iff unat_of_nat)
  then show ?thesis by (simp add: cell_def log_wrap_mod(2) [OF i])
qed

lemma wr_byte_step:
  assumes "unat i \<le> LOGN" "wr_byte b (i, f) = (i', g)"
  shows "unat i' \<le> LOGN" "unat i' mod LOGN = Suc (unat i) mod LOGN"
    "cell g k = (if k mod LOGN = unat i mod LOGN then b else cell f k)"
proof -
  have e: "i' = log_wrap i + 1" "g = f(log_wrap i := b)" using assms(2) by (simp_all add: wr_byte_def Let_def)
  have "unat (log_wrap i) < LOGN" using log_wrap_mod(1) [OF assms(1)] by (simp add: LOGN)
  then have "unat i' = Suc (unat (log_wrap i))" unfolding e LOGN by (subst unat_add_lem [THEN iffD1]) simp_all
  then have u: "unat i' = Suc (unat i mod LOGN)" using log_wrap_mod(1) [OF assms(1)] by simp
  show "unat i' \<le> LOGN" unfolding u by (simp add: LOGN Suc_le_eq)
  show "unat i' mod LOGN = Suc (unat i) mod LOGN" unfolding u by (simp add: mod_Suc_eq)
  show "cell g k = (if k mod LOGN = unat i mod LOGN then b else cell f k)" unfolding e by (rule cell_upd [OF assms(1)])
qed

lemma pend_counts:
  assumes "pend m P"
  shows "unat (rd_num_bytes m) = length P" "unat (wr_max_bytes m) = LOGN - length P"
proof -
  let ?r = "unat (log_rd_idx m)" and ?w = "unat (log_wr_idx m)"
  have b: "?r \<le> 16352" "?w < 16352" "length P < 16352" "(?r + length P) mod 16352 = ?w"
    using assms by (simp_all add: pend_def LOGN)
  have c: "?r + length P = ?w \<or> ?r + length P = ?w + 16352" using b by (auto simp: mod_if split: if_splits)
  have N: "unat APP_LOG_PER_CPU_MEM_SIZE = 16352" by (rule LOGN)
  show "unat (rd_num_bytes m) = length P"
  proof (cases "?w < ?r")
    case True
    have "unat (APP_LOG_PER_CPU_MEM_SIZE - log_rd_idx m) = 16352 - ?r" using b by (simp add: unat_sub word_le_nat_alt N)
    moreover have "16352 - ?r + ?w < 4294967296" using b by linarith
    ultimately have "unat (rd_num_bytes m) = 16352 - ?r + ?w" using True
      by (simp add: rd_num_bytes_def word_less_nat_alt unat_add_lem [THEN iffD1])
    then show ?thesis using c True b by linarith
  next
    case False
    then show ?thesis using c b by (simp add: rd_num_bytes_def word_less_nat_alt unat_sub word_le_nat_alt)
  qed
  have w: "log_wrap (log_wr_idx m) = log_wr_idx m" using b(2) by (simp add: log_wrap_def word_le_nat_alt N)
  have r: "unat (log_wrap (log_rd_idx m)) = ?r mod 16352" using log_wrap_mod(1) [of "log_rd_idx m"] b(1) by (simp add: N)
  have rm: "?r = 16352 \<and> ?r mod 16352 = 0 \<or> ?r < 16352 \<and> ?r mod 16352 = ?r" using b(1) by (cases "?r = 16352") simp_all
  show "unat (wr_max_bytes m) = LOGN - length P"
  proof (cases "?w < ?r mod 16352")
    case True
    then have "unat (wr_max_bytes m) = ?r mod 16352 - ?w" using r
      by (simp add: wr_max_bytes_def w Let_def word_less_nat_alt unat_sub word_le_nat_alt)
    then show ?thesis unfolding N using c True b rm by linarith
  next
    case False
    have "unat (APP_LOG_PER_CPU_MEM_SIZE - log_wr_idx m) = 16352 - ?w" using b by (simp add: unat_sub word_le_nat_alt N)
    moreover have "16352 - ?w + ?r mod 16352 < 4294967296" using rm by linarith
    ultimately have "unat (wr_max_bytes m) = 16352 - ?w + ?r mod 16352" using False r
      by (simp add: wr_max_bytes_def w Let_def word_less_nat_alt unat_add_lem [THEN iffD1])
    then show ?thesis unfolding N using c False b rm by linarith
  qed
qed

text \<open>A byte written behind the pending ones, the publication, and the consumption.\<close>

lemma pend_write:
  assumes "pend m P" "ring_at (unat (log_wr_idx m)) D (log_bytes m)" "length P + length D < LOGN"
    "unat i \<le> LOGN" "unat i mod LOGN = (unat (log_wr_idx m) + length D) mod LOGN" "wr_byte b (i, log_bytes m) = (i', g)"
  shows "pend (m\<lparr>log_bytes := g\<rparr>) P" "ring_at (unat (log_wr_idx m)) (D @ [b]) g"
    "unat i' \<le> LOGN" "unat i' mod LOGN = (unat (log_wr_idx m) + length (D @ [b])) mod LOGN"
proof -
  let ?r = "unat (log_rd_idx m)" and ?w = "unat (log_wr_idx m)"
  note st = wr_byte_step [OF assms(4,6)]
  have w: "(?r + length P) mod LOGN = ?w" using assms(1) by (simp add: pend_def)
  have at: "unat i mod LOGN = (?r + (length P + length D)) mod LOGN"
    unfolding assms(5) w [symmetric] by (simp add: mod_add_left_eq add.assoc)
  have "(?r + k) mod LOGN \<noteq> unat i mod LOGN" if "k < length P" for k
    unfolding at by (rule ring_distinct) (use that assms(3) in linarith)+
  then show "pend (m\<lparr>log_bytes := g\<rparr>) P" using assms(1) by (simp add: pend_def ring_at_def st(3))
  have "cell g (?w + k) = (D @ [b]) ! k" if "k < length (D @ [b])" for k
  proof (cases "k = length D")
    case True
    then show ?thesis by (simp add: st(3) assms(5))
  next
    case False
    with that have k: "k < length D" by simp
    have "(?w + k) mod LOGN \<noteq> unat i mod LOGN" unfolding assms(5)
      by (rule ring_distinct) (use k assms(3) in linarith)+
    with k assms(2) show ?thesis by (simp add: st(3) ring_at_def nth_append)
  qed
  then show "ring_at ?w (D @ [b]) g" by (simp add: ring_at_def)
  show "unat i' \<le> LOGN" by (rule st(1))
  show "unat i' mod LOGN = (?w + length (D @ [b])) mod LOGN"
    unfolding st(2) using assms(5) by (simp add: mod_Suc_eq [of "unat i", symmetric]) (simp add: mod_Suc_eq)
qed

lemma pend_publish:
  assumes "pend m P" "ring_at (unat (log_wr_idx m)) D (log_bytes m)" "length P + length D < LOGN"
    "unat i \<le> LOGN" "unat i mod LOGN = (unat (log_wr_idx m) + length D) mod LOGN"
  shows "pend (m\<lparr>log_wr_idx := log_wrap i\<rparr>) (P @ D)"
proof -
  let ?r = "unat (log_rd_idx m)" and ?w = "unat (log_wr_idx m)"
  have w: "(?r + length P) mod LOGN = ?w" "?r \<le> LOGN" "ring_at ?r P (log_bytes m)" using assms(1) by (simp_all add: pend_def)
  have i: "unat (log_wrap i) = unat i mod LOGN" by (rule log_wrap_mod(1) [OF assms(4)])
  have "cell (log_bytes m) (?r + k) = (P @ D) ! k" if "k < length (P @ D)" for k
  proof (cases "k < length P")
    case True
    with w(3) show ?thesis by (simp add: ring_at_def nth_append)
  next
    case False
    with that have "k - length P < length D" by simp
    with assms(2) have "cell (log_bytes m) (?w + (k - length P)) = D ! (k - length P)" unfolding ring_at_def by blast
    moreover have "cell (log_bytes m) (?w + (k - length P)) = cell (log_bytes m) (?r + k)"
    proof (rule cell_mod)
      have "((?r + length P) mod LOGN + (k - length P)) mod LOGN = (?r + length P + (k - length P)) mod LOGN" by (rule mod_add_left_eq)
      with False show "(?w + (k - length P)) mod LOGN = (?r + k) mod LOGN" by (simp add: w(1))
    qed
    ultimately show ?thesis using False by (simp add: nth_append)
  qed
  moreover have "unat i mod LOGN = (?r + length (P @ D)) mod LOGN"
    unfolding assms(5) w(1) [symmetric] by (simp add: mod_add_left_eq add.assoc)
  moreover have "unat i mod LOGN < LOGN" by (simp add: LOGN)
  ultimately show ?thesis using w(2) assms(3) i by (simp add: pend_def ring_at_def)
qed

lemma pend_consume:
  assumes "pend m P" "n \<le> length P" "unat i \<le> LOGN" "unat i mod LOGN = (unat (log_rd_idx m) + n) mod LOGN"
  shows "pend (m\<lparr>log_rd_idx := i\<rparr>) (drop n P)"
proof -
  let ?r = "unat (log_rd_idx m)"
  have p: "(?r + length P) mod LOGN = unat (log_wr_idx m)" "unat (log_wr_idx m) < LOGN" "length P < LOGN" "ring_at ?r P (log_bytes m)"
    using assms(1) by (simp_all add: pend_def)
  have sh: "(unat i + k) mod LOGN = (?r + (n + k)) mod LOGN" for k
    using assms(4) by (metis add.assoc mod_add_left_eq)
  have "(unat i + length (drop n P)) mod LOGN = unat (log_wr_idx m)"
    unfolding sh using assms(2) p(1) by simp
  moreover have "cell (log_bytes m) (unat i + k) = drop n P ! k" if "k < length (drop n P)" for k
    using that p(4) cell_mod [OF sh [of k]] by (simp add: ring_at_def)
  ultimately show ?thesis using p assms(3) by (simp add: pend_def ring_at_def)
qed

section \<open>The stream\<close>

lemma split_lines_append:
  "xs = [] \<or> line_break (last xs) \<Longrightarrow> split_lines acc (xs @ ys) = (if xs = [] then split_lines acc ys else split_lines acc xs @ split_lines [] ys)"
  by (induction acc xs rule: split_lines.induct) (auto split: if_splits)

lemma split_lines_break:
  "\<forall>b\<in>set xs. \<not> line_break b \<Longrightarrow> line_break b \<Longrightarrow> split_lines acc (xs @ b # ys) = (acc @ xs) # split_lines [] ys"
  by (induction xs arbitrary: acc) simp_all

definition ends0 :: "u8 list \<Rightarrow> bool" where "ends0 xs \<longleftrightarrow> xs = [] \<or> last xs = 0"

text \<open>A 0 in every stretch of the length of the buffers.\<close>

definition short_lines :: "u8 list \<Rightarrow> bool" where
  "short_lines xs \<longleftrightarrow> (\<forall>k. k + 1024 \<le> length xs \<longrightarrow> 0 \<in> set (take 1024 (drop k xs)))"

lemma zero_in_window:
  assumes "k + n \<le> length ys" "k \<le> j" "j < k + n" "ys ! j = 0"
  shows "0 \<in> set (take n (drop k ys))"
proof -
  have "take n (drop k ys) ! (j - k) = 0" "j - k < length (take n (drop k ys))" using assms by simp_all
  then show ?thesis by (metis nth_mem)
qed

lemma short_lines_append:
  assumes "short_lines xs" "ends0 xs" "length s < 1024"
  shows "short_lines (xs @ s @ [0])"
  unfolding short_lines_def
proof (intro allI impI)
  fix k assume k: "k + 1024 \<le> length (xs @ s @ [0])"
  have "\<exists>j\<ge>k. j < k + 1024 \<and> (xs @ s @ [0]) ! j = 0"
  proof (cases "k + 1024 = length (xs @ s @ [0])")
    case True
    then have "k + 1023 = length (xs @ s)" by simp
    then have "((xs @ s) @ [0]) ! (k + 1023) = 0" by (simp only: nth_append_length)
    then show ?thesis by (intro exI [of _ "k + 1023"]) (simp only: append_assoc, simp)
  next
    case False
    show ?thesis
    proof (cases "k + 1024 \<le> length xs")
      case True
      with assms(1) have "0 \<in> set (take 1024 (drop k xs))" by (simp add: short_lines_def)
      then obtain j where "j < 1024" "drop k xs ! j = 0" using True by (auto simp: in_set_conv_nth)
      with True show ?thesis by (intro exI [of _ "k + j"]) (simp add: nth_append)
    next
      case False
      with k \<open>k + 1024 \<noteq> length (xs @ s @ [0])\<close> assms(3) have "k < length xs" by simp
      then have "xs ! (length xs - 1) = 0" using assms(2) by (cases xs rule: rev_cases) (auto simp: ends0_def)
      moreover have "length xs - 1 < length xs" "k \<le> length xs - 1" "length xs - 1 < k + 1024"
        using False \<open>k < length xs\<close> by linarith+
      ultimately show ?thesis by (intro exI [of _ "length xs - 1"]) (simp add: nth_append)
    qed
  qed
  then obtain j where j: "k \<le> j" "j < k + 1024" "(xs @ s @ [0]) ! j = 0" by blast
  from k j show "0 \<in> set (take 1024 (drop k (xs @ s @ [0])))" by (rule zero_in_window)
qed

lemma short_lines_suffix: "short_lines (C @ P) \<Longrightarrow> short_lines P"
  unfolding short_lines_def
proof (intro allI impI)
  fix k assume a: "\<forall>k. k + 1024 \<le> length (C @ P) \<longrightarrow> 0 \<in> set (take 1024 (drop k (C @ P)))" "k + 1024 \<le> length P"
  from a(1) [rule_format, of "length C + k"] a(2) show "0 \<in> set (take 1024 (drop k P))" by simp
qed

section \<open>The invariant of writer and reader\<close>

text \<open>Where the writer stands, behind the pending bytes.\<close>

fun wr_inv :: "wr_pc \<Rightarrow> nat \<Rightarrow> (u32 \<Rightarrow> u8) \<Rightarrow> u8 list \<Rightarrow> bool" where
  "wr_inv WrIdle w f P = True"
| "wr_inv (WrCopy bs i x) w f P =
     (\<exists>D s. x = D @ bs \<and> x = s @ [0] \<and> length s < 1024 \<and> length P + length x < LOGN \<and> unat i \<le> LOGN \<and>
       unat i mod LOGN = (w + length D) mod LOGN \<and> ring_at w D f)"

text \<open>Where the reader stands, in the first pending line.\<close>

fun rd_inv :: "rd_pc \<Rightarrow> nat \<Rightarrow> u8 list \<Rightarrow> bool" where
  "rd_inv RdIdle r P = True"
| "rd_inv (RdCopy n k i buf) r P =
     (\<exists>Q. P = buf @ Q \<and> (\<forall>b\<in>set buf. \<not> line_break b) \<and> k = of_nat (length buf) \<and> 0 \<in> set (take n Q) \<and>
       unat i \<le> LOGN \<and> unat i mod LOGN = (r + length buf) mod LOGN)"
| "rd_inv (RdEnd i buf) r P =
     (\<exists>b Q. P = buf @ b # Q \<and> (\<forall>b\<in>set buf. \<not> line_break b) \<and> line_break b \<and> length buf < 1024 \<and>
       unat i \<le> LOGN \<and> unat i mod LOGN = (r + Suc (length buf)) mod LOGN)"

definition log_inv :: "log_sys \<Rightarrow> u8 list \<Rightarrow> bool" where
  "log_inv c P \<longleftrightarrow> pend (ring c) P \<and> wr_inv (wr c) (unat (log_wr_idx (ring c))) (log_bytes (ring c)) P \<and>
     rd_inv (rd c) (unat (log_rd_idx (ring c))) P \<and> (\<exists>C. accepted c = C @ P) \<and> ends0 (accepted c) \<and>
     short_lines (accepted c) \<and> split_lines [] (accepted c) = outs c @ split_lines [] P \<and>
     (\<forall>l\<in>set (outs c). length l < unat APP_LOG_BUF_MAX)"

lemma log_invD:
  assumes "log_inv c P"
  shows "pend (ring c) P" "wr_inv (wr c) (unat (log_wr_idx (ring c))) (log_bytes (ring c)) P"
    "rd_inv (rd c) (unat (log_rd_idx (ring c))) P" "\<exists>C. accepted c = C @ P" "ends0 (accepted c)" "short_lines (accepted c)"
    "split_lines [] (accepted c) = outs c @ split_lines [] P" "\<forall>l\<in>set (outs c). length l < unat APP_LOG_BUF_MAX"
  using assms by (simp_all add: log_inv_def)

lemma ends0_break: "ends0 xs \<Longrightarrow> xs = [] \<or> line_break (last xs)"
  by (auto simp: ends0_def line_break_def)

lemma ends0_suffix: "ends0 (C @ P) \<Longrightarrow> ends0 P"
  by (cases "P = []") (simp_all add: ends0_def)

lemma no_break_short:
  assumes "short_lines (buf @ Q)" "\<forall>b\<in>set buf. \<not> line_break b"
  shows "length buf < 1024"
proof (rule ccontr)
  assume "\<not> length buf < 1024"
  moreover from this have "0 \<in> set (take 1024 (buf @ Q))" using assms(1) [unfolded short_lines_def, rule_format, of 0] by simp
  ultimately have "0 \<in> set (take 1024 buf)" by simp
  then have "0 \<in> set buf" by (rule in_set_takeD)
  with assms(2) show False by (auto simp: line_break_def)
qed

lemma inv_put_begin:
  assumes "log_inv c P" "wr c = WrIdle" "put_ok buf (ring c)" "strlen buf < unat APP_LOG_BUF_MAX"
    "of_nat (strlen buf) \<noteq> wr_max_bytes (ring c) - 1"
  shows "log_inv (c\<lparr>wr := WrCopy (take (strlen buf) buf @ [0]) (log_wrap (log_wr_idx (ring c))) (take (strlen buf) buf @ [0]), filled := f\<rparr>) P"
proof -
  let ?w = "unat (log_wr_idx (ring c))" and ?s = "take (strlen buf) buf"
  have p: "pend (ring c) P" using assms(1) by (simp add: log_inv_def)
  then have w: "?w < LOGN" "length P < LOGN" by (simp_all add: pend_def)
  have len: "length ?s = strlen buf" by (simp add: strlen_def length_takeWhile_le)
  have b: "unat (wr_max_bytes (ring c)) = 16352 - length P" using pend_counts(2) [OF p] by (simp add: LOGN)
  then have m: "unat (wr_max_bytes (ring c) - 1) = 16352 - length P - 1"
    using w(2) by (subst unat_sub) (simp_all add: LOGN word_le_nat_alt)
  have l: "strlen buf < 1024" using assms(4) by (simp add: APP_LOG_BUF_MAX_def)
  then have u: "unat (of_nat (strlen buf) :: u32) = strlen buf" by (simp add: unat_of_nat)
  have "strlen buf < 16352 - length P - 1"
    using assms(3,5) u m unfolding put_ok_def word_less_nat_alt word_unat_eq_iff by linarith
  then have "wr_inv (WrCopy (?s @ [0]) (log_wrap (log_wr_idx (ring c))) (?s @ [0])) ?w (log_bytes (ring c)) P"
    using w l len log_wrap_mod(1) [of "log_wr_idx (ring c)"] by (auto simp: ring_at_def LOGN intro!: exI [of _ "[]"])
  then show ?thesis using assms(1) by (simp add: log_inv_def del: wr_inv.simps)
qed

lemma inv_put_byte:
  assumes "log_inv c P" "wr c = WrCopy (b # bs) i x" "wr_byte b (i, log_bytes (ring c)) = (i', g)"
  shows "log_inv (c\<lparr>wr := WrCopy bs i' x, ring := (ring c)\<lparr>log_bytes := g\<rparr>\<rparr>) P"
proof -
  note I = log_invD [OF assms(1)]
  from I(2) [unfolded assms(2) wr_inv.simps] obtain D s where D: "x = D @ b # bs" "x = s @ [0]" "length s < 1024" "length P + length x < LOGN" "unat i \<le> LOGN"
    "unat i mod LOGN = (unat (log_wr_idx (ring c)) + length D) mod LOGN" "ring_at (unat (log_wr_idx (ring c))) D (log_bytes (ring c))"
    by blast
  have "length P + length D < LOGN" using D(1,4) by simp
  note st = pend_write [OF I(1) D(7) this D(5,6) assms(3)]
  have "x = (D @ [b]) @ bs" using D(1) by simp
  with D(2-4) st have "wr_inv (WrCopy bs i' x) (unat (log_wr_idx (ring c))) g P" unfolding wr_inv.simps by blast
  then show ?thesis using I st(1) by (simp add: log_inv_def del: wr_inv.simps)
qed

lemma inv_put_end:
  assumes "log_inv c P" "wr c = WrCopy [] i x"
  shows "log_inv (c\<lparr>wr := WrIdle, ring := (ring c)\<lparr>log_wr_idx := log_wrap i\<rparr>, accepted := accepted c @ x\<rparr>) (P @ x)"
proof -
  note I = log_invD [OF assms(1)]
  from I(2) [unfolded assms(2) wr_inv.simps] obtain s where D: "x = s @ [0]" "length s < 1024" "length P + length x < LOGN" "unat i \<le> LOGN"
    "unat i mod LOGN = (unat (log_wr_idx (ring c)) + length x) mod LOGN" "ring_at (unat (log_wr_idx (ring c))) x (log_bytes (ring c))"
    by auto
  obtain C where C: "accepted c = C @ P" using I(4) by blast
  have "ends0 P" using I(5) C ends0_suffix by metis
  then have "split_lines [] (accepted c @ x) = outs c @ split_lines [] (P @ x)"
    using split_lines_append [OF ends0_break [OF I(5)], of "[]" x] split_lines_append [OF ends0_break, of P "[]" x] I(7)
    by (auto split: if_splits)
  moreover have "rd_inv (rd c) (unat (log_rd_idx (ring c))) (P @ x)"
    using I(3) by (cases "rd c") auto
  moreover have "short_lines (accepted c @ x)" unfolding D(1) by (rule short_lines_append [OF I(6,5) D(2)])
  ultimately show ?thesis using I C D(1) pend_publish [OF I(1) D(6,3,4,5)] by (simp add: log_inv_def ends0_def)
qed

lemma inv_get_begin:
  assumes "log_inv c P" "rd c = RdIdle" "rd_num_bytes (ring c) > 0"
  shows "log_inv (c\<lparr>rd := RdCopy (unat (rd_num_bytes (ring c))) 0 (log_rd_idx (ring c)) []\<rparr>) P"
proof -
  note I = log_invD [OF assms(1)]
  have n: "unat (rd_num_bytes (ring c)) = length P" by (rule pend_counts(1) [OF I(1)])
  with assms(3) have "P \<noteq> []" by (auto simp: word_less_nat_alt)
  moreover obtain C where "accepted c = C @ P" using I(4) by blast
  ultimately have "last P = 0" using I(5) by (auto simp: ends0_def)
  with \<open>P \<noteq> []\<close> have "0 \<in> set P" by (metis last_in_set)
  then have "rd_inv (RdCopy (unat (rd_num_bytes (ring c))) 0 (log_rd_idx (ring c)) []) (unat (log_rd_idx (ring c))) P"
    using I(1) by (simp add: n pend_def)
  then show ?thesis using I by (simp add: log_inv_def del: rd_inv.simps)
qed

text \<open>The byte the reader looks at is the next of the pending ones, and only a line break stops it.\<close>

lemma reader_byte:
  assumes "log_inv c P" "rd c = RdCopy (Suc n) k i buf"
  obtains b Q where "P = buf @ b # Q" "log_bytes (ring c) (log_wrap i) = b" "\<forall>b\<in>set buf. \<not> line_break b"
    "\<not> k \<ge> APP_LOG_PER_CPU_MEM_SIZE" "\<not> k > APP_LOG_BUF_MAX" "length buf < 1024" "k = of_nat (length buf)"
    "b \<noteq> 0 \<longrightarrow> 0 \<in> set (take n Q)" "unat (log_wrap i + 1) \<le> LOGN"
    "unat (log_wrap i + 1) mod LOGN = (unat (log_rd_idx (ring c)) + Suc (length buf)) mod LOGN"
proof -
  note I = log_invD [OF assms(1)]
  let ?r = "unat (log_rd_idx (ring c))"
  from I(3) [unfolded assms(2) rd_inv.simps] obtain Q0 where Q0: "P = buf @ Q0" "\<forall>b\<in>set buf. \<not> line_break b" "k = of_nat (length buf)"
    "0 \<in> set (take (Suc n) Q0)" "unat i \<le> LOGN" "unat i mod LOGN = (?r + length buf) mod LOGN" by blast
  from Q0(4) obtain b Q where Q: "Q0 = b # Q" by (cases Q0) auto
  obtain C where C: "accepted c = C @ P" using I(4) by blast
  have "short_lines (buf @ Q0)" using short_lines_suffix I(6) C Q0(1) by metis
  then have len: "length buf < 1024" using Q0(2) by (rule no_break_short)
  then have k: "unat k = length buf" unfolding Q0(3) by (simp add: unat_of_nat)
  have "cell (log_bytes (ring c)) (?r + length buf) = P ! length buf"
    using I(1) Q0(1) Q by (simp add: pend_def ring_at_def)
  then have b: "log_bytes (ring c) (log_wrap i) = b"
    using Q0(1) Q by (simp add: cell_def log_wrap_mod(2) [OF Q0(5)] Q0(6))
  have e: "wr_byte 0 (i, log_bytes (ring c)) = (log_wrap i + 1, (log_bytes (ring c))(log_wrap i := 0))"
    by (simp add: wr_byte_def Let_def)
  note st = wr_byte_step [OF Q0(5) e]
  have "Suc (unat i) mod LOGN = (?r + Suc (length buf)) mod LOGN" using Q0(6) by (metis add_Suc_right mod_Suc_eq)
  moreover have "\<not> k \<ge> APP_LOG_PER_CPU_MEM_SIZE" "\<not> k > APP_LOG_BUF_MAX"
    using k len by (simp_all add: word_le_nat_alt word_less_nat_alt LOGN) (simp add: APP_LOG_BUF_MAX_def)
  moreover have "b \<noteq> 0 \<longrightarrow> 0 \<in> set (take n Q)" using Q0(4) Q by auto
  moreover have "P = buf @ b # Q" using Q0(1) Q by simp
  ultimately show thesis using st(1,2) Q0(2,3) b len by (intro that [of b Q]) simp_all
qed

lemma inv_get_byte:
  assumes "log_inv c P" "rd c = RdCopy (Suc n) k i buf" "\<not> line_break (log_bytes (ring c) (log_wrap i))"
  shows "log_inv (c\<lparr>rd := RdCopy n (k + 1) (log_wrap i + 1) (buf @ [log_bytes (ring c) (log_wrap i)])\<rparr>) P"
proof -
  note I = log_invD [OF assms(1)]
  obtain b Q where r: "P = buf @ b # Q" "log_bytes (ring c) (log_wrap i) = b" "\<forall>b\<in>set buf. \<not> line_break b"
    "\<not> k \<ge> APP_LOG_PER_CPU_MEM_SIZE" "\<not> k > APP_LOG_BUF_MAX" "length buf < 1024" "k = of_nat (length buf)"
    "b \<noteq> 0 \<longrightarrow> 0 \<in> set (take n Q)" "unat (log_wrap i + 1) \<le> LOGN"
    "unat (log_wrap i + 1) mod LOGN = (unat (log_rd_idx (ring c)) + Suc (length buf)) mod LOGN" by (rule reader_byte [OF assms(1,2)])
  from assms(3) r(2) have "b \<noteq> 0" by (auto simp: line_break_def)
  then have "rd_inv (RdCopy n (k + 1) (log_wrap i + 1) (buf @ [b])) (unat (log_rd_idx (ring c))) P"
    using r assms(3) by (simp add: add.commute)
  then show ?thesis using I r(2) by (simp add: log_inv_def del: rd_inv.simps)
qed

lemma inv_get_break:
  assumes "log_inv c P" "rd c = RdCopy (Suc n) k i buf"
    "line_break (log_bytes (ring c) (log_wrap i)) \<or> k \<ge> APP_LOG_PER_CPU_MEM_SIZE \<or> k > APP_LOG_BUF_MAX"
  shows "log_inv (c\<lparr>rd := RdEnd (log_wrap i + 1) buf\<rparr>) P"
proof -
  note I = log_invD [OF assms(1)]
  obtain b Q where r: "P = buf @ b # Q" "log_bytes (ring c) (log_wrap i) = b" "\<forall>b\<in>set buf. \<not> line_break b"
    "\<not> k \<ge> APP_LOG_PER_CPU_MEM_SIZE" "\<not> k > APP_LOG_BUF_MAX" "length buf < 1024" "k = of_nat (length buf)"
    "b \<noteq> 0 \<longrightarrow> 0 \<in> set (take n Q)" "unat (log_wrap i + 1) \<le> LOGN"
    "unat (log_wrap i + 1) mod LOGN = (unat (log_rd_idx (ring c)) + Suc (length buf)) mod LOGN" by (rule reader_byte [OF assms(1,2)])
  then have "rd_inv (RdEnd (log_wrap i + 1) buf) (unat (log_rd_idx (ring c))) P"
    using assms(3) unfolding rd_inv.simps by blast
  then show ?thesis using I by (simp add: log_inv_def del: rd_inv.simps)
qed

lemma inv_get_end:
  assumes "log_inv c P" "rd c = RdEnd i buf"
  obtains P' where "log_inv (c\<lparr>rd := RdIdle, ring := (ring c)\<lparr>log_rd_idx := i\<rparr>, outs := outs c @ [buf]\<rparr>) P'"
proof -
  note I = log_invD [OF assms(1)]
  from I(3) [unfolded assms(2) rd_inv.simps] obtain b Q where r: "P = buf @ b # Q" "\<forall>b\<in>set buf. \<not> line_break b" "line_break b"
    "length buf < 1024" "unat i \<le> LOGN" "unat i mod LOGN = (unat (log_rd_idx (ring c)) + Suc (length buf)) mod LOGN" by blast
  have "Suc (length buf) \<le> length P" "drop (Suc (length buf)) P = Q" using r(1) by simp_all
  with pend_consume [OF I(1) _ r(5,6)] have "pend ((ring c)\<lparr>log_rd_idx := i\<rparr>) Q" by metis
  moreover have "split_lines [] P = buf # split_lines [] Q" unfolding r(1) using split_lines_break [OF r(2,3), of "[]"] by simp
  moreover have "wr_inv (wr c) (unat (log_wr_idx (ring c))) (log_bytes (ring c)) Q"
    using I(2) r(1) by (cases "wr c") auto
  moreover obtain C where "accepted c = C @ P" using I(4) by blast
  then have "accepted c = (C @ buf @ [b]) @ Q" using r(1) by simp
  then have "\<exists>C. accepted c = C @ Q" by blast
  ultimately show thesis using I r(4) by (intro that [of Q]) (simp add: log_inv_def APP_LOG_BUF_MAX_def)
qed

lemma log_step_inv:
  assumes "log_step c c'" "filled c \<or> (\<exists>P. log_inv c P)"
  shows "filled c' \<or> (\<exists>P. log_inv c' P)"
proof (cases "filled c")
  case True
  with assms(1) show ?thesis by (auto elim: log_step.cases)
next
  case False
  with assms(2) obtain P where P: "log_inv c P" by blast
  from assms(1) show ?thesis
  proof cases
    case (put_begin buf)
    then show ?thesis using inv_put_begin [OF P put_begin(2-4)] by (auto simp: False)
  next
    case (put_byte b bs i x i' dst)
    then show ?thesis using inv_put_byte [OF P] by blast
  next
    case (put_end i x)
    then show ?thesis using inv_put_end [OF P] by blast
  next
    case get_begin
    then show ?thesis using inv_get_begin [OF P] by blast
  next
    case (get_byte n k i buf ch)
    then show ?thesis using inv_get_byte [OF P] by blast
  next
    case (get_break n k i buf ch)
    then show ?thesis using inv_get_break [OF P] by blast
  next
    case (get_all k i buf)
    then show ?thesis using log_invD(3) [OF P] by simp
  next
    case (get_end i buf)
    then show ?thesis using inv_get_end [OF P get_end(2)] by metis
  qed
qed

lemma log_run_inv:
  assumes "log_step\<^sup>*\<^sup>* c c'" "filled c \<or> (\<exists>P. log_inv c P)"
  shows "filled c' \<or> (\<exists>P. log_inv c' P)"
  using assms(1)
proof (induction rule: rtranclp_induct)
  case base
  show ?case by (rule assms(2))
next
  case (step y z)
  show ?case by (rule log_step_inv [OF step.hyps(2) step.IH])
qed

section \<open>The operations as runs of one core\<close>

text \<open>Each operation of the code, taken by itself, is a run of the steps of its core.\<close>

lemma wr_bytes_run:
  assumes "wr c = WrCopy (xs @ ys) i x" "wr_bytes xs (i, log_bytes (ring c)) = (i', dst)"
  shows "log_step\<^sup>*\<^sup>* c (c\<lparr>wr := WrCopy ys i' x, ring := (ring c)\<lparr>log_bytes := dst\<rparr>\<rparr>)"
  using assms
proof (induction xs arbitrary: c i)
  case Nil
  then have "c\<lparr>wr := WrCopy ys i' x, ring := (ring c)\<lparr>log_bytes := dst\<rparr>\<rparr> = c" by simp
  then show ?case by simp
next
  case (Cons b xs)
  obtain j f where b: "wr_byte b (i, log_bytes (ring c)) = (j, f)" by (metis surj_pair)
  let ?c = "c\<lparr>wr := WrCopy (xs @ ys) j x, ring := (ring c)\<lparr>log_bytes := f\<rparr>\<rparr>"
  have "log_step c ?c" using Cons.prems(1) b by (intro put_byte) simp_all
  moreover have "log_step\<^sup>*\<^sup>* ?c (c\<lparr>wr := WrCopy ys i' x, ring := (ring c)\<lparr>log_bytes := dst\<rparr>\<rparr>)"
    using Cons.IH [of ?c j] Cons.prems(2) b by simp
  ultimately show ?case by (rule converse_rtranclp_into_rtranclp)
qed

lemma put_run:
  assumes "wr c = WrIdle" "strlen buf < unat APP_LOG_BUF_MAX" "appLogWrPutString buf (Some (ring c)) = (0, Some m)"
  shows "log_step\<^sup>*\<^sup>* c (c\<lparr>ring := m, accepted := accepted c @ take (strlen buf) buf @ [0],
    filled := filled c \<or> of_nat (strlen buf) = wr_max_bytes (ring c) - 1\<rparr>)"
proof -
  let ?s = "take (strlen buf) buf" and ?f = "filled c \<or> of_nat (strlen buf) = wr_max_bytes (ring c) - 1"
  have ok: "put_ok buf (ring c)" using assms(3) by (simp add: appLogWrPutString_def split: if_splits)
  obtain i dst where l: "wr_bytes ?s (log_wrap (log_wr_idx (ring c)), log_bytes (ring c)) = (i, dst)" by (metis surj_pair)
  have m: "m = (ring c)\<lparr>log_bytes := dst(log_wrap i := 0), log_wr_idx := log_wrap (log_wrap i + 1)\<rparr>"
    using assms(3) ok l by (simp add: appLogWrPutString_def Let_def)
  let ?c1 = "c\<lparr>wr := WrCopy (?s @ [0]) (log_wrap (log_wr_idx (ring c))) (?s @ [0]), filled := ?f\<rparr>"
  let ?c2 = "?c1\<lparr>wr := WrCopy [0] i (?s @ [0]), ring := (ring c)\<lparr>log_bytes := dst\<rparr>\<rparr>"
  let ?c3 = "?c2\<lparr>wr := WrCopy [] (log_wrap i + 1) (?s @ [0]), ring := (ring c)\<lparr>log_bytes := dst(log_wrap i := 0)\<rparr>\<rparr>"
  have 1: "log_step c ?c1" by (rule put_begin [OF assms(1) ok assms(2)])
  have 2: "log_step\<^sup>*\<^sup>* ?c1 ?c2" using wr_bytes_run [of ?c1 ?s "[0]"] l by simp
  have 3: "log_step ?c2 ?c3" using put_byte [of ?c2 0 "[]"] by (simp add: wr_byte_def Let_def)
  have 4: "log_step ?c3 (c\<lparr>ring := m, accepted := accepted c @ ?s @ [0], filled := ?f\<rparr>)"
    using put_end [of ?c3] assms(1) by (cases c) (simp add: m)
  from 1 2 3 4 show ?thesis by (meson converse_rtranclp_into_rtranclp rtranclp.rtrancl_into_rtrancl)
qed

lemma rd_loop_run:
  assumes "rd c = RdCopy n k i buf" "rd_loop n (log_bytes (ring c)) APP_LOG_BUF_MAX k i buf = (i', l)"
  shows "log_step\<^sup>*\<^sup>* c (c\<lparr>rd := RdEnd i' l\<rparr>)"
  using assms
proof (induction n arbitrary: c k i buf)
  case 0
  then show ?case using get_all [OF 0(1)] by auto
next
  case (Suc n)
  let ?ch = "log_bytes (ring c) (log_wrap i)"
  show ?case
  proof (cases "line_break ?ch \<or> k \<ge> APP_LOG_PER_CPU_MEM_SIZE \<or> k > APP_LOG_BUF_MAX")
    case True
    then show ?thesis using get_break [OF Suc.prems(1) refl True] Suc.prems(2) by (auto simp: Let_def)
  next
    case False
    let ?c = "c\<lparr>rd := RdCopy n (k + 1) (log_wrap i + 1) (buf @ [?ch])\<rparr>"
    have "log_step c ?c" by (rule get_byte [OF Suc.prems(1) refl False])
    moreover have "log_step\<^sup>*\<^sup>* ?c (c\<lparr>rd := RdEnd i' l\<rparr>)"
      using Suc.IH [of ?c] Suc.prems(2) False by (simp add: Let_def)
    ultimately show ?thesis by (rule converse_rtranclp_into_rtranclp)
  qed
qed

lemma get_run:
  assumes "rd c = RdIdle" "appLogRdGetString APP_LOG_BUF_MAX (ring c) = ((n, l), m)" "n > 0"
  shows "log_step\<^sup>*\<^sup>* c (c\<lparr>ring := m, outs := outs c @ [l]\<rparr>)"
proof -
  obtain i l' where r: "rd_loop (unat (rd_num_bytes (ring c))) (log_bytes (ring c)) APP_LOG_BUF_MAX 0 (log_rd_idx (ring c)) [] = (i, l')"
    by (metis surj_pair)
  have n: "rd_num_bytes (ring c) > 0" "l' = l" "m = (ring c)\<lparr>log_rd_idx := i\<rparr>"
    using assms(2,3) r by (auto simp: appLogRdGetString_def Let_def split: if_splits)
  let ?c1 = "c\<lparr>rd := RdCopy (unat (rd_num_bytes (ring c))) 0 (log_rd_idx (ring c)) []\<rparr>" and ?c2 = "c\<lparr>rd := RdEnd i l\<rparr>"
  have 1: "log_step c ?c1" by (rule get_begin [OF assms(1) n(1)])
  have 2: "log_step\<^sup>*\<^sup>* ?c1 ?c2" using rd_loop_run [of ?c1] r n(2) by simp
  have 3: "log_step ?c2 (c\<lparr>ring := m, outs := outs c @ [l]\<rparr>)" using get_end [of ?c2] assms(1) n(3) by (cases c) simp
  from 1 2 3 show ?thesis by (meson converse_rtranclp_into_rtranclp rtranclp.rtrancl_into_rtrancl)
qed

text \<open>What the operations do to the pending bytes.\<close>

definition pending :: "log_mem \<Rightarrow> u8 list \<Rightarrow> bool" where
  "pending m P \<longleftrightarrow> pend m P \<and> ends0 P \<and> short_lines P"

definition quiet :: "log_mem \<Rightarrow> u8 list \<Rightarrow> log_sys" where
  "quiet m P = \<lparr>ring = m, wr = WrIdle, rd = RdIdle, accepted = P, outs = [], filled = False\<rparr>"

lemma quiet_inv: "pending m P \<Longrightarrow> log_inv (quiet m P) P"
  by (simp add: pending_def quiet_def log_inv_def)

lemma log_inv_pending: "log_inv c P \<Longrightarrow> pending (ring c) P"
  using log_invD ends0_suffix short_lines_suffix unfolding pending_def by metis

lemma wr_bytes_pend:
  "pend m P \<Longrightarrow> ring_at (unat (log_wr_idx m)) D (log_bytes m) \<Longrightarrow> length P + length D + length xs \<le> LOGN - 1 \<Longrightarrow>
    unat i \<le> LOGN \<Longrightarrow> unat i mod LOGN = (unat (log_wr_idx m) + length D) mod LOGN \<Longrightarrow> wr_bytes xs (i, log_bytes m) = (i', g) \<Longrightarrow>
    pend (m\<lparr>log_bytes := g\<rparr>) P \<and> ring_at (unat (log_wr_idx m)) (D @ xs) g \<and> unat i' \<le> LOGN \<and>
    unat i' mod LOGN = (unat (log_wr_idx m) + length (D @ xs)) mod LOGN"
proof (induction xs arbitrary: m D i)
  case (Cons b xs)
  obtain j f where b: "wr_byte b (i, log_bytes m) = (j, f)" by (metis surj_pair)
  have "length P + length D < LOGN" using Cons.prems(3) by (simp add: LOGN)
  note st = pend_write [OF Cons.prems(1,2) this Cons.prems(4,5) b]
  from Cons.IH [of "m\<lparr>log_bytes := f\<rparr>" "D @ [b]" j] Cons.prems(3,6) st b show ?case by simp
qed (auto simp: pend_def)

lemma strlen_snoc: "0 \<notin> set s \<Longrightarrow> strlen (s @ [0]) = length s" "0 \<notin> set s \<Longrightarrow> take (strlen (s @ [0])) (s @ [0]) = s"
proof -
  assume "0 \<notin> set s"
  then have "takeWhile (\<lambda>b. b \<noteq> 0) (s @ [0]) = s" by (induction s) auto
  then show "strlen (s @ [0]) = length s" by (simp add: strlen_def)
  then show "take (strlen (s @ [0])) (s @ [0]) = s" by simp
qed

lemma put_pending:
  assumes "pending m P" "log_area_is_valid m = APP_LOG_AREA_VALID_FLAG" "s \<noteq> []" "0 \<notin> set s" "length s < 1024"
    "length P + length s + 1 < LOGN"
  obtains m' where "appLogWrPutString (s @ [0]) (Some m) = (0, Some m')" "pending m' (P @ s @ [0])"
    "log_area_is_valid m' = log_area_is_valid m" "log_cpu_name m' = log_cpu_name m"
proof -
  have P: "pend m P" "ends0 P" "short_lines P" using assms(1) by (simp_all add: pending_def)
  then have mx: "unat (wr_max_bytes m) = 16352 - length P" "length P < 16352" using pend_counts(2) by (simp_all add: LOGN pend_def)
  then have m1: "unat (wr_max_bytes m - 1) = 16352 - length P - 1"
    by (subst unat_sub) (simp_all add: word_le_nat_alt)
  have u: "unat (of_nat (length s) :: u32) = length s" using assms(5) by (simp add: unat_of_nat)
  have "(of_nat (length s) :: u32) < wr_max_bytes m - 1" unfolding word_less_nat_alt u m1 using assms(6) by (simp add: LOGN)
  then have ok: "put_ok (s @ [0]) m" using assms(2,3) strlen_snoc(1) [OF assms(4)] by (simp add: put_ok_def not_less less_imp_le)
  obtain i f where l: "wr_bytes s (log_wrap (log_wr_idx m), log_bytes m) = (i, f)" by (metis surj_pair)
  let ?w = "unat (log_wr_idx m)"
  have w: "?w < LOGN" using P(1) by (simp add: pend_def)
  have "length P + length ([] :: u8 list) + length s \<le> LOGN - 1" using assms(6) by simp
  from wr_bytes_pend [OF P(1) _ this _ _ l] log_wrap_mod(1) [of "log_wr_idx m"] w
  have a: "pend (m\<lparr>log_bytes := f\<rparr>) P" "ring_at ?w s f" "unat i \<le> LOGN" "unat i mod LOGN = (?w + length s) mod LOGN"
    by (simp_all add: ring_at_def)
  have z: "wr_byte 0 (i, f) = (log_wrap i + 1, f(log_wrap i := 0))" by (simp add: wr_byte_def Let_def)
  from pend_write [OF a(1), of s i 0] a(2-4) z assms(6)
  have b: "pend (m\<lparr>log_bytes := f(log_wrap i := 0)\<rparr>) P" "ring_at ?w (s @ [0]) (f(log_wrap i := 0))" "unat (log_wrap i + 1) \<le> LOGN"
    "unat (log_wrap i + 1) mod LOGN = (?w + length (s @ [0])) mod LOGN" by simp_all
  let ?m = "m\<lparr>log_bytes := f(log_wrap i := 0), log_wr_idx := log_wrap (log_wrap i + 1)\<rparr>"
  have "pend ?m (P @ s @ [0])" using pend_publish [OF b(1), of "s @ [0]"] b(2-4) assms(6) by simp
  moreover have "appLogWrPutString (s @ [0]) (Some m) = (0, Some ?m)"
    using ok l strlen_snoc(2) [OF assms(4)] by (simp add: appLogWrPutString_def Let_def)
  moreover have "ends0 (P @ s @ [0])" by (simp add: ends0_def)
  ultimately show thesis using short_lines_append [OF P(3,2) assms(5)] by (intro that [of ?m]) (simp_all add: pending_def)
qed

lemma get_pending:
  assumes "pending m P" "P \<noteq> []"
  obtains n l m' Q where "appLogRdGetString APP_LOG_BUF_MAX m = ((n, l), m')" "n > 0" "pending m' Q" "length Q < length P"
    "split_lines [] P = l # split_lines [] Q" "length l < unat APP_LOG_BUF_MAX"
    "log_area_is_valid m' = log_area_is_valid m" "log_cpu_name m' = log_cpu_name m"
proof -
  have n: "unat (rd_num_bytes m) = length P" using pend_counts(1) assms(1) by (simp add: pending_def)
  with assms(2) have n0: "rd_num_bytes m > 0" by (auto simp: word_less_nat_alt)
  obtain l m' where g: "appLogRdGetString APP_LOG_BUF_MAX m = ((rd_num_bytes m, l), m')" "log_area_is_valid m' = log_area_is_valid m"
    "log_cpu_name m' = log_cpu_name m"
    using n0 by (cases "rd_loop (unat (rd_num_bytes m)) (log_bytes m) APP_LOG_BUF_MAX 0 (log_rd_idx m) []")
      (auto simp: appLogRdGetString_def Let_def)
  have "log_step\<^sup>*\<^sup>* (quiet m P) ((quiet m P)\<lparr>ring := m', outs := [l]\<rparr>)"
    using get_run [of "quiet m P" "rd_num_bytes m" l m'] g(1) n0 by (simp add: quiet_def)
  from log_run_inv [OF this] quiet_inv [OF assms(1)] obtain Q where Q: "log_inv ((quiet m P)\<lparr>ring := m', outs := [l]\<rparr>) Q"
    by (auto simp: quiet_def)
  note I = log_invD [OF Q]
  have s: "split_lines [] P = l # split_lines [] Q" "length l < unat APP_LOG_BUF_MAX" using I(7,8) by (simp_all add: quiet_def)
  obtain C where "P = C @ Q" using I(4) by (auto simp: quiet_def)
  moreover from this s(1) have "C \<noteq> []" by auto
  ultimately have "length Q < length P" by simp
  then show thesis using that [OF g(1) n0 _ _ s g(2,3)] log_inv_pending [OF Q] by simp
qed

lemma get_nothing: "pending m [] \<Longrightarrow> appLogRdGetString n m = ((0, []), m)"
proof -
  assume "pending m []"
  then have "rd_num_bytes m = 0" using pend_counts(1) [of m "[]"] by (simp add: pending_def unat_eq_0)
  then show ?thesis by (simp add: appLogRdGetString_def)
qed

text \<open>The reader's loop over one ring ends, and has printed every pending line.\<close>

lemma drain_pending:
  assumes "pending (cpu_logs s ! k) P" "k < length (cpu_logs s)" "rd_device s"
  shows "\<exists>m. rd_drain k s = Some (upd_log k (\<lambda>_. m) s\<lparr>printed := printed s @ map (Pair (log_cpu_name (cpu_logs s ! k)))
      (filter (\<lambda>l. l \<noteq> []) (split_lines [] P))\<rparr>) \<and> pending m []"
  using assms
proof (induction "length P" arbitrary: P s rule: less_induct)
  case less
  show ?case
  proof (cases "P = []")
    case True
    with less.prems show ?thesis
      by (subst rd_drain.simps) (auto simp: get_nothing upd_log_def intro!: exI [of _ "cpu_logs s ! k"])
  next
    case False
    obtain n l m' Q where g: "appLogRdGetString APP_LOG_BUF_MAX (cpu_logs s ! k) = ((n, l), m')" "n > 0" "pending m' Q" "length Q < length P"
      "split_lines [] P = l # split_lines [] Q" "log_cpu_name m' = log_cpu_name (cpu_logs s ! k)"
      by (rule get_pending [OF less.prems(1) False])
    let ?s = "upd_log k (\<lambda>_. m') s\<lparr>printed := printed s @ map (Pair (log_cpu_name m')) (filter (\<lambda>l. l \<noteq> []) [l])\<rparr>"
    from less.hyps [OF g(4), of ?s] g(3) less.prems(2,3) obtain m where
      "rd_drain k ?s = Some (upd_log k (\<lambda>_. m) ?s\<lparr>printed := printed ?s @ map (Pair (log_cpu_name m'))
        (filter (\<lambda>l. l \<noteq> []) (split_lines [] Q))\<rparr>)" "pending m []"
      by (auto simp: upd_log_def)
    moreover have "rd_drain k s = rd_drain k ?s"
      using g(1,2) less.prems(3) by (subst rd_drain.simps) (auto simp: upd_log_def Let_def)
    ultimately show ?thesis using g(5,6) less.prems(2) by (auto simp: upd_log_def intro!: exI [of _ m])
  qed
qed

section \<open>The time stamp\<close>

declare dec.simps [simp del]

lemma length_dec: "n < 10 ^ Suc k \<Longrightarrow> length (dec n) \<le> Suc k"
proof (induction k arbitrary: n)
  case 0
  then show ?case by (subst dec.simps) simp
next
  case (Suc k)
  then have "n div 10 < 10 ^ Suc k" by (simp add: less_mult_imp_div_less)
  with Suc.IH show ?case by (subst dec.simps) simp
qed

lemma dec_not_0: "0 \<notin> set (dec n)"
proof (induction n rule: dec.induct)
  case (1 n)
  have "(of_nat (48 + n mod 10) :: u8) \<noteq> 0"
  proof -
    have "48 + n mod 10 < 256" using mod_less_divisor [of 10 n] by linarith
    then have "unat (of_nat (48 + n mod 10) :: u8) = 48 + n mod 10" by (simp add: unat_of_nat del: of_nat_add)
    then show ?thesis by (metis add_is_0 unat_0 zero_neq_numeral)
  qed
  with 1 show ?case by (subst dec.simps) auto
qed

lemma time_stamp_text: "time_stamp t \<noteq> []" "0 \<notin> set (time_stamp t)" "length (time_stamp t) \<le> 31"
proof -
  have u: "unat (x :: u32) < 10 ^ Suc 9" for x
  proof -
    have "unat x < 2 ^ LENGTH(32)" by (rule unsigned_less)
    then show ?thesis by simp
  qed
  have n: "nat (sint x) < 10 ^ Suc 9" "nat (- sint x) < 10 ^ Suc 9" for x :: u32
    using sint_lt [of x] sint_ge [of x] by simp_all
  have s: "length (dec_signed x) \<le> 11" for x
    using length_dec [OF n(1) [of x]] length_dec [OF n(2) [of x]] by (simp add: dec_signed_def)
  show "time_stamp t \<noteq> []" by (simp add: time_stamp_def)
  show "0 \<notin> set (time_stamp t)" by (auto simp: time_stamp_def pad_def dec_signed_def dec_not_0)
  have "length (dec (unat (ucast (t mod 1000000) :: u32))) \<le> 10" using length_dec [OF u] by simp
  then show "length (time_stamp t) \<le> 31" using s [of "ucast (t div 1000000)"] by (simp add: time_stamp_def pad_def)
qed

text \<open>The line \<open>appLogPrintf\<close> writes.\<close>

definition log_text :: "u64 \<times> u8 list \<Rightarrow> u8 list" where
  "log_text = (\<lambda>(t, msg). time_stamp t @ take (unat APP_LOG_BUF_MAX - length (time_stamp t) - 1) (takeWhile (\<lambda>b. b \<noteq> 0) msg))"

lemma log_text_ok: "log_text x \<noteq> []" "0 \<notin> set (log_text x)" "length (log_text x) < 1024"
proof -
  obtain t msg where x: "x = (t, msg)" by fastforce
  show "log_text x \<noteq> []" by (simp add: log_text_def x time_stamp_text)
  have "0 \<notin> set (takeWhile (\<lambda>b. b \<noteq> 0) msg)" by (auto dest: set_takeWhileD)
  then show "0 \<notin> set (log_text x)" by (auto simp: log_text_def x time_stamp_text dest: in_set_takeD)
  show "length (log_text x) < 1024" using time_stamp_text(3) [of t] by (simp add: log_text_def x APP_LOG_BUF_MAX_def)
qed

lemma printf_pending:
  assumes "wr_cpu s = Some k" "k < length (cpu_logs s)" "log_area_is_valid (cpu_logs s ! k) = APP_LOG_AREA_VALID_FLAG"
    "pending (cpu_logs s ! k) P" "length P + length (log_text x) + 1 < LOGN"
  obtains m where "appLogPrintf (fst x) (snd x) s = upd_log k (\<lambda>_. m) s\<lparr>wr_locked := False\<rparr>" "pending m (P @ log_text x @ [0])"
    "log_area_is_valid m = APP_LOG_AREA_VALID_FLAG" "log_cpu_name m = log_cpu_name (cpu_logs s ! k)"
proof -
  obtain m where m: "appLogWrPutString (log_text x @ [0]) (Some (cpu_logs s ! k)) = (0, Some m)" "pending m (P @ log_text x @ [0])"
    "log_area_is_valid m = log_area_is_valid (cpu_logs s ! k)" "log_cpu_name m = log_cpu_name (cpu_logs s ! k)"
    by (rule put_pending [OF assms(4,3) log_text_ok assms(5)])
  have "length (time_stamp (fst x)) < unat APP_LOG_BUF_MAX" using time_stamp_text(3) [of "fst x"] by (simp add: APP_LOG_BUF_MAX_def)
  then have "appLogPrintf (fst x) (snd x) s = upd_log k (\<lambda>_. m) s\<lparr>wr_locked := False\<rparr>"
    using m(1) assms(1) by (cases x; cases s) (simp add: appLogPrintf_def log_text_def upd_log_def Let_def)
  then show thesis using that m assms(3) by simp
qed

lemma printfs_pending:
  "wr_cpu s = Some k \<Longrightarrow> k < length (cpu_logs s) \<Longrightarrow> log_area_is_valid (cpu_logs s ! k) = APP_LOG_AREA_VALID_FLAG \<Longrightarrow>
    pending (cpu_logs s ! k) P \<Longrightarrow> length P + (\<Sum>x\<leftarrow>xs. length (log_text x) + 1) < LOGN \<Longrightarrow>
    \<exists>m s'. fold (\<lambda>x. appLogPrintf (fst x) (snd x)) xs s = s' \<and> cpu_logs s' ! k = m \<and> length (cpu_logs s') = length (cpu_logs s) \<and>
      pending m (P @ concat (map (\<lambda>x. log_text x @ [0]) xs)) \<and> log_area_is_valid m = APP_LOG_AREA_VALID_FLAG \<and>
      log_cpu_name m = log_cpu_name (cpu_logs s ! k) \<and> printed s' = printed s \<and> rd_device s' = rd_device s"
proof (induction xs arbitrary: s P)
  case (Cons x xs)
  have "length P + length (log_text x) + 1 < LOGN" using Cons.prems(5) by simp
  from printf_pending [OF Cons.prems(1-4) this] obtain m where m: "appLogPrintf (fst x) (snd x) s = upd_log k (\<lambda>_. m) s\<lparr>wr_locked := False\<rparr>"
    "pending m (P @ log_text x @ [0])" "log_area_is_valid m = APP_LOG_AREA_VALID_FLAG" "log_cpu_name m = log_cpu_name (cpu_logs s ! k)" .
  from Cons.IH [of "upd_log k (\<lambda>_. m) s\<lparr>wr_locked := False\<rparr>" "P @ log_text x @ [0]"] Cons.prems m(2-4) show ?case
    by (simp add: m(1) upd_log_def)
qed simp

text \<open>The index after a string, whatever is overwritten.\<close>

lemma wr_bytes_index:
  "unat i \<le> LOGN \<Longrightarrow> wr_bytes xs (i, f) = (i', g) \<Longrightarrow> unat i' \<le> LOGN \<and> unat i' mod LOGN = (unat i + length xs) mod LOGN"
proof (induction xs arbitrary: i f)
  case (Cons b xs)
  obtain j h where b: "wr_byte b (i, f) = (j, h)" by (metis surj_pair)
  note st = wr_byte_step [OF Cons.prems(1) b]
  have "unat i' \<le> LOGN \<and> unat i' mod LOGN = (unat j + length xs) mod LOGN" using Cons.IH [OF st(1)] Cons.prems(2) b by simp
  moreover have "(unat j + length xs) mod LOGN = (unat i + length (b # xs)) mod LOGN"
    using mod_add_cong [OF st(2) refl, of "length xs"] by simp
  ultimately show ?case by simp
qed simp

section \<open>Properties\<close>

text \<open>
  Property C14.  Writer and reader of one ring may take turns byte by byte: as long as no string takes
  all the free bytes, the reader gets the lines of the accepted strings, in order and whole, each short
  enough for its buffer, and once it finds nothing it has got them all.
\<close>

theorem log_interleaved:
  assumes "log_step\<^sup>*\<^sup>* (quiet m []) c" "pend m []" "\<not> filled c"
  shows "(\<exists>P. split_lines [] (accepted c) = outs c @ split_lines [] P \<and> length P < LOGN) \<and>
    (\<forall>l\<in>set (outs c). length l < unat APP_LOG_BUF_MAX) \<and>
    (rd_num_bytes (ring c) = 0 \<longrightarrow> split_lines [] (accepted c) = outs c)"
proof -
  have "log_inv (quiet m []) []" by (rule quiet_inv) (simp add: pending_def assms(2) ends0_def short_lines_def)
  with log_run_inv [OF assms(1)] assms(3) obtain P where P: "log_inv c P" by blast
  note I = log_invD [OF P]
  have "rd_num_bytes (ring c) = 0 \<longrightarrow> P = []" using pend_counts(1) [OF I(1)] by auto
  with I show ?thesis by (auto simp: pend_def)
qed

text \<open>
  What the code's functions do in one go, writing a string or getting one, is a run of
  the steps of the writer or the reader.
\<close>

theorem log_sequential:
  assumes "wr c = WrIdle" "rd c = RdIdle"
  shows "(strlen buf < unat APP_LOG_BUF_MAX \<and> appLogWrPutString buf (Some (ring c)) = (0, Some m) \<longrightarrow>
      log_step\<^sup>*\<^sup>* c (c\<lparr>ring := m, accepted := accepted c @ take (strlen buf) buf @ [0],
        filled := filled c \<or> of_nat (strlen buf) = wr_max_bytes (ring c) - 1\<rparr>)) \<and>
    (appLogRdGetString APP_LOG_BUF_MAX (ring c) = ((n, l), m) \<and> n > 0 \<longrightarrow>
      log_step\<^sup>*\<^sup>* c (c\<lparr>ring := m, outs := outs c @ [l]\<rparr>))"
  using put_run [OF assms(1)] get_run [OF assms(2)] by blast

text \<open>
  Property C32.  A core logs any messages that fit into its ring: the reader's loop over that ring ends,
  leaves it empty and has printed, under the core's name, exactly the non-empty lines of the stamped
  messages, cut at the line breaks.
\<close>

theorem log_printed:
  assumes "wr_cpu s = Some k" "k < length (cpu_logs s)" "log_area_is_valid (cpu_logs s ! k) = APP_LOG_AREA_VALID_FLAG"
    "pend (cpu_logs s ! k) []" "rd_device s" "(\<Sum>x\<leftarrow>xs. length (log_text x) + 1) < LOGN"
  shows "\<exists>s'. rd_cpu k (fold (\<lambda>x. appLogPrintf (fst x) (snd x)) xs s) = Some s' \<and>
    printed s' = printed s @ map (Pair (log_cpu_name (cpu_logs s ! k)))
      (filter (\<lambda>l. l \<noteq> []) (split_lines [] (concat (map (\<lambda>x. log_text x @ [0]) xs)))) \<and>
    pend (cpu_logs s' ! k) []"
proof -
  have "pending (cpu_logs s ! k) []" by (simp add: pending_def assms(4) ends0_def short_lines_def)
  with printfs_pending [OF assms(1-3) this, of xs] assms(6) obtain s' where
    s': "fold (\<lambda>x. appLogPrintf (fst x) (snd x)) xs s = s'" "length (cpu_logs s') = length (cpu_logs s)"
      "pending (cpu_logs s' ! k) (concat (map (\<lambda>x. log_text x @ [0]) xs))" "log_area_is_valid (cpu_logs s' ! k) = APP_LOG_AREA_VALID_FLAG"
      "log_cpu_name (cpu_logs s' ! k) = log_cpu_name (cpu_logs s ! k)" "printed s' = printed s" "rd_device s' = rd_device s" by auto
  from drain_pending [OF s'(3)] s' assms(2,5) show ?thesis by (auto simp: rd_cpu_def pending_def upd_log_def)
qed

text \<open>
  A string that takes all the free bytes is accepted, and with it everything unread is
  lost: the reader then finds nothing.
\<close>

theorem log_exact_fill:
  assumes "pend m P" "put_ok buf m" "strlen buf = LOGN - length P - 1"
  shows "\<exists>m'. appLogWrPutString buf (Some m) = (0, Some m') \<and> fst (appLogRdGetString n m') = (0, [])"
proof -
  let ?r = "unat (log_rd_idx m)" and ?w = "unat (log_wr_idx m)" and ?s = "take (strlen buf) buf"
  have p: "?r \<le> LOGN" "?w < LOGN" "(?r + length P) mod LOGN = ?w" "length P < LOGN" using assms(1) by (simp_all add: pend_def)
  obtain i f where l: "wr_bytes ?s (log_wrap (log_wr_idx m), log_bytes m) = (i, f)" by (metis surj_pair)
  let ?m = "m\<lparr>log_bytes := f(log_wrap i := 0), log_wr_idx := log_wrap (log_wrap i + 1)\<rparr>"
  have len: "length ?s = strlen buf" by (simp add: strlen_def length_takeWhile_le)
  have i0: "unat (log_wrap (log_wr_idx m)) = ?w" using log_wrap_mod(1) [of "log_wr_idx m"] p(2) by simp
  have i: "unat i \<le> LOGN" "unat i mod LOGN = (?w + strlen buf) mod LOGN" using wr_bytes_index [OF _ l] p(2) by (simp_all only: i0 len less_imp_le)
  have z: "wr_byte 0 (i, f) = (log_wrap i + 1, f(log_wrap i := 0))" by (simp add: wr_byte_def Let_def)
  note st = wr_byte_step [OF i(1) z]
  have "unat (log_wrap (log_wrap i + 1)) = Suc (unat i) mod LOGN" using log_wrap_mod(1) [OF st(1)] st(2) by simp
  also have "\<dots> = (?w + Suc (strlen buf)) mod LOGN" using i(2) by (metis add_Suc_right mod_Suc_eq)
  also have "\<dots> = (?r + length P + Suc (strlen buf)) mod LOGN" unfolding p(3) [symmetric] by (rule mod_add_left_eq)
  also have "\<dots> = (?r + LOGN) mod LOGN"
  proof -
    have "?r + length P + Suc (strlen buf) = ?r + LOGN" using assms(3) p(4) by linarith
    then show ?thesis by (simp only:)
  qed
  finally have w: "unat (log_wrap (log_wrap i + 1)) = ?r mod LOGN" by simp
  have "rd_num_bytes ?m = 0"
  proof (cases "?r = LOGN")
    case True
    then have "log_rd_idx m = APP_LOG_PER_CPU_MEM_SIZE" by (simp only: word_unat_eq_iff)
    moreover from w True have "log_wrap (log_wrap i + 1) = 0" by (simp add: unat_eq_0)
    ultimately show ?thesis by (simp add: rd_num_bytes_def APP_LOG_PER_CPU_MEM_SIZE_def)
  next
    case False
    with p(1) have "?r < LOGN" by simp
    with w have "log_wrap (log_wrap i + 1) = log_rd_idx m" by (simp add: word_unat_eq_iff)
    then show ?thesis by (simp add: rd_num_bytes_def)
  qed
  then have "appLogRdGetString n ?m = ((0, []), ?m)" by (simp add: appLogRdGetString_def)
  moreover have "appLogWrPutString buf (Some m) = (0, Some ?m)"
    using assms(2) l by (simp add: appLogWrPutString_def Let_def)
  ultimately show ?thesis by simp
qed

section \<open>Witnesses\<close>

definition log_demo :: "log_mem" where
  "log_demo = \<lparr>log_rd_idx = 0, log_wr_idx = 0, log_area_is_valid = APP_LOG_AREA_VALID_FLAG, log_cpu_sync_state = 0,
     log_cpu_name = [77, 67, 85], log_bytes = \<lambda>_. 0\<rparr>"

lemma pend_demo: "pend log_demo []" by (simp add: pend_def log_demo_def ring_at_def LOGN)

lemma pending_demo: "pending log_demo []" by (simp add: pending_def pend_demo ends0_def short_lines_def)

theorem log_interleaved_witness:
  "\<exists>c. log_step\<^sup>*\<^sup>* (quiet log_demo []) c \<and> accepted c = [104, 10, 105, 0] \<and> (outs c @ split_lines [] [105, 0] = [[104], [105]])"
proof -
  let ?s = "[104, 10, 105] :: u8 list"
  obtain m where m: "appLogWrPutString (?s @ [0]) (Some log_demo) = (0, Some m)" "pending m ([] @ ?s @ [0])"
    by (rule put_pending [OF pending_demo, of ?s]) (simp_all add: log_demo_def LOGN)
  have ne: "(of_nat (strlen (?s @ [0])) :: u32) \<noteq> wr_max_bytes log_demo - 1"
    by (simp add: strlen_def wr_max_bytes_def log_demo_def log_wrap_def APP_LOG_PER_CPU_MEM_SIZE_def)
  let ?c = "(quiet log_demo [])\<lparr>ring := m, accepted := ?s @ [0]\<rparr>"
  have 1: "log_step\<^sup>*\<^sup>* (quiet log_demo []) ((quiet log_demo [])\<lparr>ring := m, accepted := ?s @ [0]\<rparr>)" 
    using put_run [of "quiet log_demo []" "?s @ [0]" m] m(1) ne by (simp add: quiet_def strlen_def APP_LOG_BUF_MAX_def)
  have "[] @ ?s @ [0] \<noteq> []" by simp
  from get_pending [OF m(2) this] obtain n l m' where g: "appLogRdGetString APP_LOG_BUF_MAX m = ((n, l), m')" "n > 0" by blast
  have 2: "log_step\<^sup>*\<^sup>* ?c (?c\<lparr>ring := m', outs := [l]\<rparr>)" using get_run [of ?c n l m'] g by (simp add: quiet_def)
  from 1 2 have r: "log_step\<^sup>*\<^sup>* (quiet log_demo []) (?c\<lparr>ring := m', outs := [l]\<rparr>)" by (rule rtranclp_trans)
  have "l = [104]" using log_interleaved [OF r pend_demo] by (auto simp: quiet_def line_break_def split: if_splits)
  with r show ?thesis by (intro exI [of _ "?c\<lparr>ring := m', outs := [l]\<rparr>"]) (simp add: quiet_def line_break_def)
qed

theorem log_sequential_witness:
  "\<exists>m. log_step\<^sup>*\<^sup>* (quiet log_demo []) ((quiet log_demo [])\<lparr>ring := m, accepted := [104, 0]\<rparr>) \<and> log_wr_idx m = 2"
proof -
  have p: "appLogWrPutString [104, 0] (Some log_demo) = (0, Some (log_demo\<lparr>log_bytes := (\<lambda>_. 0)(0 := 104, 1 := 0), log_wr_idx := 2\<rparr>))"
    by (simp add: appLogWrPutString_def put_ok_def strlen_def wr_max_bytes_def log_wrap_def wr_byte_def log_demo_def
        APP_LOG_PER_CPU_MEM_SIZE_def Let_def word_le_nat_alt)
  have "of_nat (strlen [104, 0]) \<noteq> wr_max_bytes log_demo - 1"
    by (simp add: strlen_def wr_max_bytes_def log_demo_def log_wrap_def APP_LOG_PER_CPU_MEM_SIZE_def)
  with log_sequential [of "quiet log_demo []" "[104, 0]" "log_demo\<lparr>log_bytes := (\<lambda>_. 0)(0 := 104, 1 := 0), log_wr_idx := 2\<rparr>" 0 "[]"] p
  show ?thesis
    by (intro exI [of _ "log_demo\<lparr>log_bytes := (\<lambda>_. 0)(0 := 104, 1 := 0), log_wr_idx := 2\<rparr>"])
      (simp add: quiet_def strlen_def APP_LOG_BUF_MAX_def)
qed

definition log_st_demo :: log_st where
  "log_st_demo = \<lparr>cpu_logs = [log_demo, log_demo], wr_cpu = Some 1, wr_locked = False, rd_max_cpus = 2, rd_device = True, printed = []\<rparr>"

theorem log_printed_witness:
  "\<exists>s'. rd_cpu 1 (appLogPrintf 1000000 [104, 10, 10, 105] log_st_demo) = Some s' \<and>
    printed s' = [([77, 67, 85], [32, 32, 32, 32, 32, 49, 46, 48, 48, 48, 48, 48, 48, 32, 115, 58, 32, 104]), ([77, 67, 85], [105])]"
proof -
  have t: "log_text (1000000, [104, 10, 10, 105]) = [32, 32, 32, 32, 32, 49, 46, 48, 48, 48, 48, 48, 48, 32, 115, 58, 32, 104, 10, 10, 105]"
  proof -
    have "dec_signed 1 = [49]" "dec 0 = [48]" by (simp_all add: dec_signed_def dec.simps)
    moreover have "pad 32 6 [49] = [32, 32, 32, 32, 32, 49]" "pad 48 6 [48] = [48, 48, 48, 48, 48, 48]"
      by (simp_all add: pad_def numeral_eq_Suc)
    ultimately have "time_stamp 1000000 = [32, 32, 32, 32, 32, 49, 46, 48, 48, 48, 48, 48, 48, 32, 115, 58, 32]"
      by (simp add: time_stamp_def)
    then show ?thesis by (simp add: log_text_def APP_LOG_BUF_MAX_def)
  qed
  show ?thesis
    using log_printed [of log_st_demo 1 "[(1000000, [104, 10, 10, 105])]"] pend_demo
    by (auto simp: t line_break_def log_st_demo_def log_demo_def LOGN)
qed

theorem log_exact_fill_witness:
  "\<exists>m'. appLogWrPutString [104, 105, 106, 0] (Some (log_demo\<lparr>log_rd_idx := 4\<rparr>)) = (0, Some m') \<and>
    fst (appLogRdGetString 1024 m') = (0, [])"
proof -
  have "pend (log_demo\<lparr>log_rd_idx := 4\<rparr>) (replicate 16348 0)"
    by (simp add: pend_def log_demo_def LOGN ring_at_def cell_def)
  moreover have "put_ok [104, 105, 106, 0] (log_demo\<lparr>log_rd_idx := 4\<rparr>)"
    by (simp add: put_ok_def strlen_def wr_max_bytes_def log_wrap_def log_demo_def APP_LOG_PER_CPU_MEM_SIZE_def)
  ultimately show ?thesis
    by (rule log_exact_fill) (simp add: strlen_def LOGN)
qed

end
