(* ===== verification/CpuSync.thy ===== *)
theory CpuSync
  imports ConsoleLog
begin

text \<open>
  The barrier of the cores at start-up (\<open>appLogCpuSyncInit\<close> in \<^verbatim>\<open>app_log_writer.c\<close>): the master and
  every slave meet over one word of shared memory per slave.  Each access to such a word is a step, so
  the cores may overtake each other anywhere.
\<close>

definition APP_LOG_CPU_SYNC_STATE_INVALID :: u32 where "APP_LOG_CPU_SYNC_STATE_INVALID = 0"
definition APP_LOG_CPU_SYNC_STATE_INIT_DONE :: u32 where "APP_LOG_CPU_SYNC_STATE_INIT_DONE = 1"
definition APP_LOG_CPU_SYNC_STATE_TEST_INIT_DONE :: u32 where "APP_LOG_CPU_SYNC_STATE_TEST_INIT_DONE = 2"
definition APP_LOG_CPU_SYNC_STATE_CONFIRM_INIT_DONE :: u32 where "APP_LOG_CPU_SYNC_STATE_CONFIRM_INIT_DONE = 3"
definition APP_LOG_CPU_SYNC_STATE_RUN :: u32 where "APP_LOG_CPU_SYNC_STATE_RUN = 4"

lemmas sync_states = APP_LOG_CPU_SYNC_STATE_INVALID_def APP_LOG_CPU_SYNC_STATE_INIT_DONE_def
  APP_LOG_CPU_SYNC_STATE_TEST_INIT_DONE_def APP_LOG_CPU_SYNC_STATE_CONFIRM_INIT_DONE_def APP_LOG_CPU_SYNC_STATE_RUN_def

text \<open>The words of the cores; \<open>mapped\<close> says whether the calling core has the shared memory.\<close>

definition appLogSetCpuSyncState :: "bool \<Rightarrow> u32 \<Rightarrow> u32 \<Rightarrow> (u32 \<Rightarrow> u32) \<Rightarrow> u32 \<Rightarrow> u32" where
  "appLogSetCpuSyncState mapped cpu_id state w = (if cpu_id < APP_LOG_MAX_CPUS \<and> mapped then w(cpu_id := state) else w)"

definition appLogGetCpuSyncState :: "bool \<Rightarrow> u32 \<Rightarrow> (u32 \<Rightarrow> u32) \<Rightarrow> u32" where
  "appLogGetCpuSyncState mapped cpu_id w =
     (if cpu_id < APP_LOG_MAX_CPUS \<and> mapped then w cpu_id else APP_LOG_CPU_SYNC_STATE_INVALID)"

text \<open>
  A slave in \<open>appLogCpuSyncWithMaster\<close>; the master in its first loop before a slave, in
  \<open>appLogCpuSyncWithSlave\<close> about to poll or about to write again, and in its second loop.
\<close>

datatype slave_pc = SlaveStart | SlaveWaitTest | SlaveConfirm | SlaveWaitRun | SlaveDone
datatype master_pc = MasterWith "u32 list" | MasterPoll "u32 list" | MasterSet "u32 list" | MasterRun "u32 list"

record sync_sys =
  words :: "u32 \<Rightarrow> u32"
  slave :: "u32 \<Rightarrow> slave_pc"
  master :: master_pc

definition upd_slave :: "u32 \<Rightarrow> slave_pc \<Rightarrow> sync_sys \<Rightarrow> sync_sys" where
  "upd_slave k p c = c\<lparr>slave := (slave c)(k := p)\<rparr>"

fun slave_turn :: "bool \<Rightarrow> u32 \<Rightarrow> sync_sys \<Rightarrow> sync_sys" where
  "slave_turn mp k c = (case slave c k of
     SlaveStart \<Rightarrow> upd_slave k SlaveWaitTest (c\<lparr>words := appLogSetCpuSyncState mp k APP_LOG_CPU_SYNC_STATE_INIT_DONE (words c)\<rparr>)
   | SlaveWaitTest \<Rightarrow> if appLogGetCpuSyncState mp k (words c) \<noteq> APP_LOG_CPU_SYNC_STATE_TEST_INIT_DONE then c else upd_slave k SlaveConfirm c
   | SlaveConfirm \<Rightarrow> upd_slave k SlaveWaitRun (c\<lparr>words := appLogSetCpuSyncState mp k APP_LOG_CPU_SYNC_STATE_CONFIRM_INIT_DONE (words c)\<rparr>)
   | SlaveWaitRun \<Rightarrow> if appLogGetCpuSyncState mp k (words c) \<noteq> APP_LOG_CPU_SYNC_STATE_RUN then c else upd_slave k SlaveDone c
   | SlaveDone \<Rightarrow> c)"

fun master_turn :: "bool \<Rightarrow> u32 \<Rightarrow> u32 list \<Rightarrow> sync_sys \<Rightarrow> sync_sys" where
  "master_turn mp self ids c = (case master c of
     MasterWith [] \<Rightarrow> c\<lparr>master := MasterRun ids\<rparr>
   | MasterWith (k # ks) \<Rightarrow>
       if k \<noteq> self
       then c\<lparr>words := appLogSetCpuSyncState mp k APP_LOG_CPU_SYNC_STATE_TEST_INIT_DONE (words c), master := MasterPoll (k # ks)\<rparr>
       else c\<lparr>master := MasterWith ks\<rparr>
   | MasterPoll (k # ks) \<Rightarrow>
       (let state = appLogGetCpuSyncState mp k (words c) in
        if state = APP_LOG_CPU_SYNC_STATE_INIT_DONE then c\<lparr>master := MasterSet (k # ks)\<rparr>
        else if state \<noteq> APP_LOG_CPU_SYNC_STATE_CONFIRM_INIT_DONE then c
        else c\<lparr>master := MasterWith ks\<rparr>)
   | MasterSet (k # ks) \<Rightarrow>
       c\<lparr>words := appLogSetCpuSyncState mp k APP_LOG_CPU_SYNC_STATE_TEST_INIT_DONE (words c), master := MasterPoll (k # ks)\<rparr>
   | MasterRun (k # ks) \<Rightarrow>
       if k \<noteq> self
       then c\<lparr>words := appLogSetCpuSyncState mp k APP_LOG_CPU_SYNC_STATE_RUN (words c), master := MasterRun ks\<rparr>
       else c\<lparr>master := MasterRun ks\<rparr>
   | _ \<Rightarrow> c)"

text \<open>\<open>self\<close> is the master, any other core a slave; a core may take a turn at any time.\<close>

inductive sync_step :: "(u32 \<Rightarrow> bool) \<Rightarrow> u32 \<Rightarrow> u32 list \<Rightarrow> sync_sys \<Rightarrow> sync_sys \<Rightarrow> bool" for mp self ids where
  slave_step: "k \<noteq> self \<Longrightarrow> sync_step mp self ids c (slave_turn (mp k) k c)"
| master_step: "sync_step mp self ids c (master_turn (mp self) self ids c)"

definition sync_start :: "u32 list \<Rightarrow> (u32 \<Rightarrow> u32) \<Rightarrow> sync_sys" where
  "sync_start ids w = \<lparr>words = w, slave = \<lambda>_. SlaveStart, master = MasterWith ids\<rparr>"

section \<open>The invariant\<close>

text \<open>Where a slave and its word may be before, while, and after the master meets it, and once it has been started.\<close>

definition st_before :: "sync_sys \<Rightarrow> u32 \<Rightarrow> bool" where
  "st_before c k \<longleftrightarrow> slave c k = SlaveStart \<or> slave c k = SlaveWaitTest \<and> words c k = APP_LOG_CPU_SYNC_STATE_INIT_DONE"

definition st_init :: "sync_sys \<Rightarrow> u32 \<Rightarrow> bool" where
  "st_init c k \<longleftrightarrow> slave c k = SlaveWaitTest \<and> words c k = APP_LOG_CPU_SYNC_STATE_INIT_DONE"

definition st_meeting :: "sync_sys \<Rightarrow> u32 \<Rightarrow> bool" where
  "st_meeting c k \<longleftrightarrow> (case slave c k of
     SlaveStart \<Rightarrow> words c k = APP_LOG_CPU_SYNC_STATE_TEST_INIT_DONE
   | SlaveWaitTest \<Rightarrow> words c k = APP_LOG_CPU_SYNC_STATE_INIT_DONE \<or> words c k = APP_LOG_CPU_SYNC_STATE_TEST_INIT_DONE
   | SlaveConfirm \<Rightarrow> words c k = APP_LOG_CPU_SYNC_STATE_TEST_INIT_DONE
   | SlaveWaitRun \<Rightarrow> words c k = APP_LOG_CPU_SYNC_STATE_CONFIRM_INIT_DONE
   | SlaveDone \<Rightarrow> False)"

definition st_met :: "sync_sys \<Rightarrow> u32 \<Rightarrow> bool" where
  "st_met c k \<longleftrightarrow> slave c k = SlaveWaitRun \<and> words c k = APP_LOG_CPU_SYNC_STATE_CONFIRM_INIT_DONE"

definition st_started :: "sync_sys \<Rightarrow> u32 \<Rightarrow> bool" where
  "st_started c k \<longleftrightarrow> slave c k \<in> {SlaveWaitRun, SlaveDone} \<and> words c k = APP_LOG_CPU_SYNC_STATE_RUN"

definition sync_inv :: "u32 \<Rightarrow> u32 list \<Rightarrow> sync_sys \<Rightarrow> bool" where
  "sync_inv self ids c \<longleftrightarrow> (\<exists>ds. case master c of
     MasterWith ks \<Rightarrow> ids = ds @ ks \<and> (\<forall>k\<in>set ds - {self}. st_met c k) \<and> (\<forall>k\<in>set ks - {self}. st_before c k)
   | MasterPoll ks \<Rightarrow> ks \<noteq> [] \<and> ids = ds @ ks \<and> hd ks \<noteq> self \<and> (\<forall>k\<in>set ds - {self}. st_met c k) \<and> st_meeting c (hd ks) \<and>
       (\<forall>k\<in>set (tl ks) - {self}. st_before c k)
   | MasterSet ks \<Rightarrow> ks \<noteq> [] \<and> ids = ds @ ks \<and> hd ks \<noteq> self \<and> (\<forall>k\<in>set ds - {self}. st_met c k) \<and> st_init c (hd ks) \<and>
       (\<forall>k\<in>set (tl ks) - {self}. st_before c k)
   | MasterRun ks \<Rightarrow> ids = ds @ ks \<and> (\<forall>k\<in>set ds - {self}. st_started c k) \<and> (\<forall>k\<in>set ks - {self}. st_met c k))"

lemmas st_defs = st_before_def st_init_def st_meeting_def st_met_def st_started_def

definition ids_ok :: "(u32 \<Rightarrow> bool) \<Rightarrow> u32 \<Rightarrow> u32 list \<Rightarrow> bool" where
  "ids_ok mp self ids \<longleftrightarrow> distinct ids \<and> mp self \<and> (\<forall>k\<in>set ids. k < APP_LOG_MAX_CPUS \<and> mp k)"

text \<open>A turn of one slave leaves the others where they are, and keeps it in its place.\<close>

lemma slave_other:
  "j \<noteq> k \<Longrightarrow> slave (slave_turn m k c) j = slave c j \<and> words (slave_turn m k c) j = words c j"
  by (auto simp: upd_slave_def appLogSetCpuSyncState_def split: slave_pc.splits)

lemma slave_master: "master (slave_turn m k c) = master c"
  by (simp add: upd_slave_def split: slave_pc.splits)

lemma slave_keeps:
  assumes "k < APP_LOG_MAX_CPUS" "m"
  shows "st_before c j \<Longrightarrow> st_before (slave_turn m k c) j" "st_meeting c j \<Longrightarrow> st_meeting (slave_turn m k c) j"
    "st_met c j \<Longrightarrow> st_met (slave_turn m k c) j" "st_started c j \<Longrightarrow> st_started (slave_turn m k c) j"
    "st_init c j \<Longrightarrow> st_init (slave_turn m k c) j"
  using assms
  by (cases "j = k"; auto simp: st_defs upd_slave_def appLogSetCpuSyncState_def appLogGetCpuSyncState_def sync_states split: slave_pc.splits)+

lemma slave_turn_inv:
  assumes "ids_ok mp self ids" "k \<noteq> self" "sync_inv self ids c"
  shows "sync_inv self ids (slave_turn (mp k) k c)"
proof (cases "k \<in> set ids")
  case True
  with assms(1) have ok: "k < APP_LOG_MAX_CPUS" "mp k" by (auto simp: ids_ok_def)
  note keep = slave_keeps [OF ok, of c]
  show ?thesis using assms(3) unfolding sync_inv_def slave_master
    by (elim exE, intro exI) (auto split: master_pc.splits simp del: slave_turn.simps intro: keep)
next
  case False
  let ?c = "slave_turn (mp k) k c"
  have same: "st_before ?c j = st_before c j" "st_meeting ?c j = st_meeting c j" "st_met ?c j = st_met c j" "st_started ?c j = st_started c j"
    "st_init ?c j = st_init c j" if "j \<in> set ids" for j
    using slave_other [of j k "mp k" c] that False unfolding st_defs by metis+
  show ?thesis using assms(3) unfolding sync_inv_def slave_master
    by (elim exE, intro exI) (auto split: master_pc.splits simp: same list.set_sel(2) simp del: slave_turn.simps)
qed

lemma word_other:
  assumes "j \<noteq> k" "c' = c\<lparr>words := (words c)(k := v), master := p\<rparr>"
  shows "st_before c' j = st_before c j" "st_met c' j = st_met c j" "st_started c' j = st_started c j"
  using assms by (simp_all add: st_defs)

lemma master_same: "st_before (c\<lparr>master := p\<rparr>) j = st_before c j" "st_met (c\<lparr>master := p\<rparr>) j = st_met c j"
  "st_started (c\<lparr>master := p\<rparr>) j = st_started c j" "st_init (c\<lparr>master := p\<rparr>) j = st_init c j" "st_meeting (c\<lparr>master := p\<rparr>) j = st_meeting c j"
  by (auto simp: st_defs split: slave_pc.splits)

lemma master_turn_inv:
  assumes "ids_ok mp self ids" "sync_inv self ids c"
  shows "sync_inv self ids (master_turn (mp self) self ids c)"
proof -
  have d: "distinct ids" "mp self" "\<And>k. k \<in> set ids \<Longrightarrow> k < APP_LOG_MAX_CPUS" using assms(1) by (auto simp: ids_ok_def)
  show ?thesis
  proof (cases "master c")
    case (MasterWith ks)
    with assms(2) obtain ds where i: "ids = ds @ ks" "\<forall>k\<in>set ds - {self}. st_met c k" "\<forall>k\<in>set ks - {self}. st_before c k"
      by (auto simp: sync_inv_def)
    show ?thesis
    proof (cases ks)
      case Nil
      with i MasterWith show ?thesis by (auto simp: sync_inv_def master_same intro!: exI [of _ "[]"])
    next
      case (Cons k ks')
      let ?c = "c\<lparr>words := (words c)(k := APP_LOG_CPU_SYNC_STATE_TEST_INIT_DONE), master := MasterPoll (k # ks')\<rparr>"
      have k: "k \<notin> set ds" "k \<notin> set ks'" "k < APP_LOG_MAX_CPUS" using d(1,3) i(1) Cons by auto
      show ?thesis
      proof (cases "k = self")
        case True
        then have "ids = (ds @ [k]) @ ks'" "\<forall>j\<in>set (ds @ [k]) - {self}. st_met c j" using i(1,2) Cons by auto
        with i(3) Cons MasterWith True show ?thesis by (auto simp: sync_inv_def master_same)
      next
        case False
        have "st_before c k" using i(3) Cons False by simp
        then have "st_meeting ?c k" by (auto simp: st_defs)
        moreover have "\<forall>j\<in>set ds - {self}. st_met ?c j" using i(2) k(1) word_other(2) [where c = c and c' = ?c and k = k] by (metis DiffE refl)
        moreover have "\<forall>j\<in>set ks' - {self}. st_before ?c j" using i(3) Cons k(2) word_other(1) [where c = c and c' = ?c and k = k]
          by (metis DiffE DiffI list.set_intros(2) refl)
        moreover have "master_turn (mp self) self ids c = ?c" using MasterWith Cons False d(2) k(3) by (simp add: appLogSetCpuSyncState_def)
        ultimately show ?thesis using i(1) Cons False by (auto simp: sync_inv_def)
      qed
    qed
  next
    case (MasterPoll ks)
    with assms(2) obtain ds k ks' where i: "ks = k # ks'" "ids = ds @ k # ks'" "k \<noteq> self" "\<forall>k\<in>set ds - {self}. st_met c k"
      "st_meeting c k" "\<forall>k\<in>set ks' - {self}. st_before c k" by (cases ks) (auto simp: sync_inv_def)
    have g: "appLogGetCpuSyncState (mp self) k (words c) = words c k" using d i(2) by (simp add: appLogGetCpuSyncState_def)
    show ?thesis
    proof (cases "words c k = APP_LOG_CPU_SYNC_STATE_INIT_DONE")
      case True
      with i(5) have "st_init c k" by (auto simp: st_defs sync_states split: slave_pc.splits)
      with True g i MasterPoll show ?thesis by (auto simp: sync_inv_def master_same)
    next
      case False
      show ?thesis
      proof (cases "words c k = APP_LOG_CPU_SYNC_STATE_CONFIRM_INIT_DONE")
        case True
        with i(5) have "st_met c k" by (auto simp: st_defs sync_states split: slave_pc.splits)
        then have "ids = (ds @ [k]) @ ks'" "\<forall>j\<in>set (ds @ [k]) - {self}. st_met c j" using i(2,4) by auto
        with True False g i MasterPoll show ?thesis by (auto simp: sync_inv_def master_same)
      next
        case False
        with \<open>words c k \<noteq> APP_LOG_CPU_SYNC_STATE_INIT_DONE\<close> g i(1) MasterPoll have "master_turn (mp self) self ids c = c" by simp
        then show ?thesis using assms(2) by simp
      qed
    qed
  next
    case (MasterSet ks)
    with assms(2) obtain ds k ks' where i: "ks = k # ks'" "ids = ds @ k # ks'" "k \<noteq> self" "\<forall>k\<in>set ds - {self}. st_met c k"
      "st_init c k" "\<forall>k\<in>set ks' - {self}. st_before c k" by (cases ks) (auto simp: sync_inv_def)
    let ?c = "c\<lparr>words := (words c)(k := APP_LOG_CPU_SYNC_STATE_TEST_INIT_DONE), master := MasterPoll (k # ks')\<rparr>"
    have k: "k \<notin> set ds" "k \<notin> set ks'" "k < APP_LOG_MAX_CPUS" using d(1,3) i(2) by auto
    have "st_meeting ?c k" using i(5) by (simp add: st_defs)
    moreover have "\<forall>j\<in>set ds - {self}. st_met ?c j" using i(4) k(1) word_other(2) [where c = c and c' = ?c and k = k] by (metis DiffE refl)
    moreover have "\<forall>j\<in>set ks' - {self}. st_before ?c j" using i(6) k(2) word_other(1) [where c = c and c' = ?c and k = k] by (metis DiffE refl)
    moreover have "master_turn (mp self) self ids c = ?c" using MasterSet i(1) d(2) k(3) by (simp add: appLogSetCpuSyncState_def)
    ultimately show ?thesis using i(2,3) by (auto simp: sync_inv_def)
  next
    case (MasterRun ks)
    with assms(2) obtain ds where i: "ids = ds @ ks" "\<forall>k\<in>set ds - {self}. st_started c k" "\<forall>k\<in>set ks - {self}. st_met c k"
      by (auto simp: sync_inv_def)
    show ?thesis
    proof (cases ks)
      case Nil
      with assms(2) MasterRun show ?thesis by simp
    next
      case (Cons k ks')
      let ?c = "c\<lparr>words := (words c)(k := APP_LOG_CPU_SYNC_STATE_RUN), master := MasterRun ks'\<rparr>"
      have k: "k \<notin> set ds" "k \<notin> set ks'" "k < APP_LOG_MAX_CPUS" using d(1,3) i(1) Cons by auto
      show ?thesis
      proof (cases "k = self")
        case True
        then have "ids = (ds @ [k]) @ ks'" "\<forall>j\<in>set (ds @ [k]) - {self}. st_started c j" using i(1,2) Cons by auto
        with i(3) Cons MasterRun True show ?thesis by (auto simp: sync_inv_def master_same)
      next
        case False
        have "st_met c k" using i(3) Cons False by simp
        then have "st_started ?c k" by (simp add: st_defs)
        moreover have "\<forall>j\<in>set ds - {self}. st_started ?c j" using i(2) k(1) word_other(3) [where c = c and c' = ?c and k = k] by (metis DiffE refl)
        ultimately have "\<forall>j\<in>set (ds @ [k]) - {self}. st_started ?c j" by auto
        moreover have "\<forall>j\<in>set ks' - {self}. st_met ?c j" using i(3) Cons k(2) word_other(2) [where c = c and c' = ?c and k = k]
          by (metis DiffE DiffI list.set_intros(2) refl)
        moreover have "master_turn (mp self) self ids c = ?c" using MasterRun Cons False d(2) k(3) by (simp add: appLogSetCpuSyncState_def)
        moreover have "ids = (ds @ [k]) @ ks'" using i(1) Cons by simp
        ultimately show ?thesis by (auto simp: sync_inv_def)
      qed
    qed
  qed
qed

lemma start_inv: "sync_inv self ids (sync_start ids w)"
  by (auto simp: sync_inv_def sync_start_def st_before_def)

lemma sync_run_inv:
  assumes "(sync_step mp self ids)\<^sup>*\<^sup>* (sync_start ids w) c" "ids_ok mp self ids"
  shows "sync_inv self ids c"
  using assms(1)
proof (induction rule: rtranclp_induct)
  case base
  show ?case by (rule start_inv)
next
  case (step c c')
  from step.hyps(2) show ?case
    by cases (use step.IH assms(2) slave_turn_inv master_turn_inv in metis)+
qed

text \<open>Nobody is released before the master's second loop.\<close>

lemma not_done: "st_before c k \<Longrightarrow> slave c k \<noteq> SlaveDone" "st_meeting c k \<Longrightarrow> slave c k \<noteq> SlaveDone"
  "st_init c k \<Longrightarrow> slave c k \<noteq> SlaveDone" "st_met c k \<Longrightarrow> slave c k \<noteq> SlaveDone"
  by (auto simp: st_defs)

lemma none_done:
  assumes "sync_inv self ids c" "\<forall>ks. master c \<noteq> MasterRun ks" "k \<in> set ids - {self}"
  shows "slave c k \<noteq> SlaveDone"
proof (cases "master c")
  case (MasterWith ks)
  with assms(1) obtain ds where "ids = ds @ ks" "\<forall>k\<in>set ds - {self}. st_met c k" "\<forall>k\<in>set ks - {self}. st_before c k"
    by (auto simp: sync_inv_def)
  with assms(3) have "st_met c k \<or> st_before c k" by auto
  then show ?thesis using not_done by blast
next
  case (MasterPoll ks)
  with assms(1) obtain ds j js where "ids = ds @ j # js" "\<forall>k\<in>set ds - {self}. st_met c k" "st_meeting c j" "\<forall>k\<in>set js - {self}. st_before c k"
    by (cases ks) (auto simp: sync_inv_def)
  with assms(3) have "st_met c k \<or> st_meeting c k \<or> st_before c k" by auto
  then show ?thesis using not_done by blast
next
  case (MasterSet ks)
  with assms(1) obtain ds j js where "ids = ds @ j # js" "\<forall>k\<in>set ds - {self}. st_met c k" "st_init c j" "\<forall>k\<in>set js - {self}. st_before c k"
    by (cases ks) (auto simp: sync_inv_def)
  with assms(3) have "st_met c k \<or> st_init c k \<or> st_before c k" by auto
  then show ?thesis using not_done by blast
qed (use assms(2) in simp)

section \<open>Progress\<close>

fun slave_rank :: "slave_pc \<Rightarrow> nat" where
  "slave_rank SlaveStart = 4"
| "slave_rank SlaveWaitTest = 3"
| "slave_rank SlaveConfirm = 2"
| "slave_rank SlaveWaitRun = 1"
| "slave_rank SlaveDone = 0"

definition master_rank :: "u32 list \<Rightarrow> sync_sys \<Rightarrow> nat" where
  "master_rank ids c = (case master c of
     MasterWith ks \<Rightarrow> 4 * length ks + length ids + 1
   | MasterPoll ks \<Rightarrow> 4 * length (tl ks) + length ids + 1 +
       (if slave c (hd ks) = SlaveStart \<or> words c (hd ks) = APP_LOG_CPU_SYNC_STATE_INIT_DONE then 3 else 1)
   | MasterSet ks \<Rightarrow> 4 * length (tl ks) + length ids + 1 + 2
   | MasterRun ks \<Rightarrow> length ks)"

definition sync_measure :: "u32 list \<Rightarrow> sync_sys \<Rightarrow> nat" where
  "sync_measure ids c = (\<Sum>k\<leftarrow>ids. slave_rank (slave c k)) + master_rank ids c"

definition sync_finished :: "u32 \<Rightarrow> u32 list \<Rightarrow> sync_sys \<Rightarrow> bool" where
  "sync_finished self ids c \<longleftrightarrow> master c = MasterRun [] \<and> (\<forall>k\<in>set ids - {self}. slave c k = SlaveDone)"

lemma rank_sum_less:
  assumes "k \<in> set ids" "distinct ids" "\<And>j. j \<noteq> k \<Longrightarrow> f j = g j" "f k < (g k :: nat)"
  shows "(\<Sum>j\<leftarrow>ids. f j) < (\<Sum>j\<leftarrow>ids. g j)"
  using assms(1,2)
proof (induction ids)
  case (Cons a ids)
  show ?case
  proof (cases "a = k")
    case True
    with Cons.prems(2) have "(\<Sum>j\<leftarrow>ids. f j) = (\<Sum>j\<leftarrow>ids. g j)" by (intro arg_cong [of _ _ sum_list] map_cong) (auto intro: assms(3))
    with True assms(4) show ?thesis by simp
  next
    case False
    with Cons assms(3) [of a] show ?thesis by simp
  qed
qed simp

lemma slave_turn_less:
  assumes "ids_ok mp self ids" "k \<in> set ids" "k \<noteq> self" "sync_inv self ids c"
  shows "slave_turn (mp k) k c = c \<or> sync_measure ids (slave_turn (mp k) k c) < sync_measure ids c"
proof (cases "slave_turn (mp k) k c = c")
  case False
  let ?c = "slave_turn (mp k) k c"
  have ok: "k < APP_LOG_MAX_CPUS" "mp k" "distinct ids" using assms(1,2) by (auto simp: ids_ok_def)
  have r: "slave_rank (slave ?c k) < slave_rank (slave c k)"
    using False by (cases "slave c k") (auto simp: upd_slave_def split: if_splits)
  have "(\<Sum>j\<leftarrow>ids. slave_rank (slave ?c j)) < (\<Sum>j\<leftarrow>ids. slave_rank (slave c j))"
    using slave_other [of _ k "mp k" c] by (intro rank_sum_less [where k = k] assms(2) ok(3) r) simp
  moreover have "master_rank ids ?c \<le> master_rank ids c"
  proof (cases "\<exists>ks. master c = MasterPoll ks \<and> hd ks = k")
    case True
    then show ?thesis using assms(4)
      by (auto simp: master_rank_def sync_inv_def st_defs upd_slave_def appLogSetCpuSyncState_def sync_states split: slave_pc.splits)
  next
    case False
    then show ?thesis using slave_other [of _ k "mp k" c]
      by (auto simp: master_rank_def slave_master simp del: slave_turn.simps split: master_pc.splits)
  qed
  ultimately show ?thesis by (simp add: sync_measure_def del: slave_turn.simps)
qed simp

lemma master_turn_less:
  assumes "ids_ok mp self ids" "sync_inv self ids c"
  shows "master_turn (mp self) self ids c = c \<or> sync_measure ids (master_turn (mp self) self ids c) < sync_measure ids c"
proof -
  have d: "mp self" "\<And>k. k \<in> set ids \<Longrightarrow> k < APP_LOG_MAX_CPUS" using assms(1) by (auto simp: ids_ok_def)
  have "slave (master_turn (mp self) self ids c) = slave c"
    by (auto split: master_pc.splits list.splits simp: Let_def)
  moreover have "master_turn (mp self) self ids c = c \<or> master_rank ids (master_turn (mp self) self ids c) < master_rank ids c"
  proof (cases "master c")
    case (MasterWith ks)
    then show ?thesis by (cases ks) (auto simp: master_rank_def)
  next
    case (MasterPoll ks)
    then show ?thesis by (cases ks) (auto simp: master_rank_def Let_def appLogGetCpuSyncState_def sync_states)
  next
    case (MasterSet ks)
    with assms(2) d show ?thesis
      by (cases ks) (auto simp: master_rank_def sync_inv_def st_defs appLogSetCpuSyncState_def sync_states)
  next
    case (MasterRun ks)
    then show ?thesis by (cases ks) (auto simp: master_rank_def)
  qed
  ultimately show ?thesis by (auto simp: sync_measure_def simp del: master_turn.simps)
qed

text \<open>Before the end some core has a turn that brings the end nearer.\<close>

lemma sync_progress:
  assumes "ids_ok mp self ids" "sync_inv self ids c" "\<not> sync_finished self ids c"
  shows "master_turn (mp self) self ids c \<noteq> c \<or> (\<exists>k\<in>set ids - {self}. slave_turn (mp k) k c \<noteq> c)"
proof -
  have d: "mp self" "\<And>k. k \<in> set ids \<Longrightarrow> k < APP_LOG_MAX_CPUS \<and> mp k" using assms(1) by (auto simp: ids_ok_def)
  have moves: "slave_turn (mp k) k c \<noteq> c" if "slave c k = SlaveStart \<or> slave c k = SlaveConfirm \<or>
      slave c k = SlaveWaitTest \<and> words c k = APP_LOG_CPU_SYNC_STATE_TEST_INIT_DONE \<or>
      slave c k = SlaveWaitRun \<and> words c k = APP_LOG_CPU_SYNC_STATE_RUN" "k \<in> set ids" for k
  proof -
    have "slave (slave_turn (mp k) k c) k \<noteq> slave c k"
      using that d by (auto simp: upd_slave_def appLogGetCpuSyncState_def)
    then show ?thesis by metis
  qed
  show ?thesis
  proof (cases "master c")
    case (MasterWith ks)
    then have "master (master_turn (mp self) self ids c) \<noteq> master c" by (cases ks) auto
    then show ?thesis by metis
  next
    case (MasterPoll ks)
    with assms(2) obtain ds k ks' where i: "ks = k # ks'" "ids = ds @ k # ks'" "k \<noteq> self" "st_meeting c k"
      by (cases ks) (auto simp: sync_inv_def)
    then have k: "k \<in> set ids - {self}" by simp
    show ?thesis
    proof (cases "words c k = APP_LOG_CPU_SYNC_STATE_INIT_DONE \<or> words c k = APP_LOG_CPU_SYNC_STATE_CONFIRM_INIT_DONE")
      case True
      then have "master (master_turn (mp self) self ids c) \<noteq> master c"
        using MasterPoll i(1) d(1) d(2) [of k] k by (auto simp: appLogGetCpuSyncState_def sync_states)
      then show ?thesis by metis
    next
      case False
      with i(4) have "slave c k = SlaveStart \<or> slave c k = SlaveConfirm \<or>
        slave c k = SlaveWaitTest \<and> words c k = APP_LOG_CPU_SYNC_STATE_TEST_INIT_DONE" by (auto simp: st_defs split: slave_pc.splits)
      with moves k show ?thesis by blast
    qed
  next
    case (MasterSet ks)
    with assms(2) have "ks \<noteq> []" by (auto simp: sync_inv_def)
    with MasterSet have "master (master_turn (mp self) self ids c) \<noteq> master c" by (cases ks) auto
    then show ?thesis by metis
  next
    case (MasterRun ks)
    show ?thesis
    proof (cases ks)
      case Nil
      with assms(3) MasterRun obtain k where k: "k \<in> set ids - {self}" "slave c k \<noteq> SlaveDone" by (auto simp: sync_finished_def)
      with assms(2) MasterRun Nil have "st_started c k" by (auto simp: sync_inv_def)
      with k moves [of k] show ?thesis by (auto simp: st_defs simp del: slave_turn.simps)
    next
      case (Cons k ks')
      with MasterRun have "master (master_turn (mp self) self ids c) \<noteq> master c" by auto
      then show ?thesis by metis
    qed
  qed
qed

text \<open>
  Cores that take turns: a turn keeps the invariant and either changes nothing or brings the state
  nearer to the end; before the end some core has a turn that does.  However the turns fall, if every
  core has one again and again, the end is reached.
\<close>

lemma less_or_same_trans: "a = b \<or> f a < (f b :: nat) \<Longrightarrow> b = c \<or> f b < f c \<Longrightarrow> a = c \<or> f a < f c"
  by auto

fun core_run :: "('k \<Rightarrow> 's \<Rightarrow> 's) \<Rightarrow> (nat \<Rightarrow> 'k) \<Rightarrow> 's \<Rightarrow> nat \<Rightarrow> 's" where
  "core_run turn sched c 0 = c"
| "core_run turn sched c (Suc n) = turn (sched n) (core_run turn sched c n)"

locale fair_cores =
  fixes turn :: "'k \<Rightarrow> 's \<Rightarrow> 's" and cores :: "'k set" and inv :: "'s \<Rightarrow> bool" and rank :: "'s \<Rightarrow> nat" and finished :: "'s \<Rightarrow> bool"
  assumes turn_inv: "k \<in> cores \<Longrightarrow> inv c \<Longrightarrow> inv (turn k c)"
    and turn_less: "k \<in> cores \<Longrightarrow> inv c \<Longrightarrow> turn k c = c \<or> rank (turn k c) < rank c"
    and turn_some: "inv c \<Longrightarrow> \<not> finished c \<Longrightarrow> \<exists>k\<in>cores. turn k c \<noteq> c"
begin

lemma run_inv: "inv c \<Longrightarrow> \<forall>n. sched n \<in> cores \<Longrightarrow> inv (core_run turn sched c n)"
  by (induction n) (auto intro: turn_inv)

lemma run_less:
  assumes "inv c" "\<forall>n. sched n \<in> cores"
  shows "core_run turn sched c (n + d) = core_run turn sched c n \<or> rank (core_run turn sched c (n + d)) < rank (core_run turn sched c n)"
proof (induction d)
  case (Suc d)
  from turn_less [of "sched (n + d)" "core_run turn sched c (n + d)"] run_inv [OF assms, of "n + d"] assms(2)
  have "core_run turn sched c (n + Suc d) = core_run turn sched c (n + d) \<or>
      rank (core_run turn sched c (n + Suc d)) < rank (core_run turn sched c (n + d))" by simp
  then show ?case using Suc by (rule less_or_same_trans)
qed simp

lemma ends_from:
  assumes "inv c" "\<forall>n. sched n \<in> cores" "\<forall>k\<in>cores. \<forall>n. \<exists>m\<ge>n. sched m = k"
  shows "\<exists>m\<ge>n. finished (core_run turn sched c m)"
proof (induction "rank (core_run turn sched c n)" arbitrary: n rule: less_induct)
  case less
  let ?c = "core_run turn sched c"
  show ?case
  proof (cases "finished (?c n)")
    case False
    with turn_some [OF run_inv [OF assms(1,2)]] obtain k where k: "k \<in> cores" "turn k (?c n) \<noteq> ?c n" by blast
    with assms(3) obtain m where m: "m \<ge> n" "sched m = k" by blast
    have "\<exists>l\<ge>n. rank (?c l) < rank (?c n)"
    proof (cases "?c m = ?c n")
      case True
      with k m(2) have "?c (Suc m) \<noteq> ?c n" by simp
      moreover have "Suc m = n + (Suc m - n)" using m(1) by simp
      ultimately have "rank (?c (Suc m)) < rank (?c n)" using run_less [OF assms(1,2)] by metis
      with m(1) show ?thesis by (intro exI [of _ "Suc m"]) simp
    next
      case False
      moreover have "m = n + (m - n)" using m(1) by simp
      ultimately have "rank (?c m) < rank (?c n)" using run_less [OF assms(1,2)] by metis
      with m(1) show ?thesis by blast
    qed
    then obtain l where l: "l \<ge> n" "rank (?c l) < rank (?c n)" by blast
    from less.hyps [OF l(2)] l(1) show ?thesis by (meson order_trans)
  qed blast
qed

end

definition core_turn :: "(u32 \<Rightarrow> bool) \<Rightarrow> u32 \<Rightarrow> u32 list \<Rightarrow> u32 \<Rightarrow> sync_sys \<Rightarrow> sync_sys" where
  "core_turn mp self ids k c = (if k = self then master_turn (mp self) self ids c else slave_turn (mp k) k c)"

interpretation bar: fair_cores "core_turn mp self ids" "insert self (set ids)" "\<lambda>c. ids_ok mp self ids \<and> sync_inv self ids c"
    "sync_measure ids" "sync_finished self ids" for mp self ids
proof
  fix k c
  assume k: "k \<in> insert self (set ids)" and i: "ids_ok mp self ids \<and> sync_inv self ids c"
  show "ids_ok mp self ids \<and> sync_inv self ids (core_turn mp self ids k c)"
    using i slave_turn_inv master_turn_inv unfolding core_turn_def by metis
  show "core_turn mp self ids k c = c \<or> sync_measure ids (core_turn mp self ids k c) < sync_measure ids c"
    using k i slave_turn_less [of mp self ids k c] master_turn_less [of mp self ids c] unfolding core_turn_def by (auto simp del: master_turn.simps slave_turn.simps)
next
  fix c
  assume "ids_ok mp self ids \<and> sync_inv self ids c" "\<not> sync_finished self ids c"
  with sync_progress [of mp self ids c] show "\<exists>k\<in>insert self (set ids). core_turn mp self ids k c \<noteq> c"
    by (auto simp: core_turn_def simp del: master_turn.simps slave_turn.simps)
qed

section \<open>Properties\<close>

text \<open>
  Property C17.  No slave of the list gets past the barrier before all of them have got to it, whatever
  was in the memory before and however the accesses of the cores interleave.
\<close>

theorem sync_barrier:
  assumes "(sync_step mp self ids)\<^sup>*\<^sup>* (sync_start ids w) c" "ids_ok mp self ids"
    and "k \<in> set ids - {self}" "slave c k = SlaveDone" "j \<in> set ids - {self}"
  shows "slave c j = SlaveWaitRun \<or> slave c j = SlaveDone"
proof -
  note i = sync_run_inv [OF assms(1,2)]
  from none_done [OF i _ assms(3)] assms(4) obtain ks where m: "master c = MasterRun ks" by (cases "master c") auto
  with i obtain ds where "ids = ds @ ks" "\<forall>k\<in>set ds - {self}. st_started c k" "\<forall>k\<in>set ks - {self}. st_met c k"
    by (auto simp: sync_inv_def)
  with assms(5) have "st_started c j \<or> st_met c j" by auto
  then show ?thesis by (auto simp: st_defs)
qed

text \<open>
  Property C29.  If the master and every slave of the list run again and again, the barrier opens: the
  master gets through both its loops and every slave is released.
\<close>

theorem sync_opens:
  assumes "ids_ok mp self ids" "\<forall>n. sched n \<in> insert self (set ids)" "\<forall>k\<in>insert self (set ids). \<forall>n. \<exists>m\<ge>n. sched m = k"
  shows "\<exists>n. sync_finished self ids (core_run (core_turn mp self ids) sched (sync_start ids w) n)"
  using bar.ends_from [of mp self ids "sync_start ids w" sched 0] assms start_inv by blast

text \<open>A schedule of three cores.\<close>

definition demo_sched :: "nat \<Rightarrow> u32" where "demo_sched n = of_nat (n mod 3)"

lemma demo_fair: "\<forall>n. demo_sched n \<in> insert 0 (set [0, 1, 2])" "\<forall>k\<in>insert 0 (set [0, 1, 2]). \<forall>n. \<exists>m\<ge>n. demo_sched m = k"
proof -
  have "demo_sched n \<in> insert 0 (set [0, 1, 2])" for n
  proof -
    have "n mod 3 = 0 \<or> n mod 3 = 1 \<or> n mod 3 = 2" by linarith
    then show ?thesis by (elim disjE) (simp_all add: demo_sched_def)
  qed
  then show "\<forall>n. demo_sched n \<in> insert 0 (set [0, 1, 2])" by blast
  have "demo_sched (3 * n) = 0" "demo_sched (3 * n + 1) = 1" "demo_sched (3 * n + 2) = 2" for n
    by (simp_all add: demo_sched_def mod_Suc)
  moreover have "3 * n \<ge> n" "3 * n + 1 \<ge> n" "3 * n + 2 \<ge> n" for n :: nat by simp_all
  ultimately have "\<exists>m\<ge>n. demo_sched m = 0" "\<exists>m\<ge>n. demo_sched m = 1" "\<exists>m\<ge>n. demo_sched m = 2" for n by blast+
  then show "\<forall>k\<in>insert 0 (set [0, 1, 2]). \<forall>n. \<exists>m\<ge>n. demo_sched m = k" by simp
qed

lemma demo_ids: "ids_ok (\<lambda>_. True) 0 [0, 1, 2]" by (simp add: ids_ok_def APP_LOG_MAX_CPUS_def)

lemma core_run_reachable: "(sync_step mp self ids)\<^sup>*\<^sup>* c (core_run (core_turn mp self ids) sched c n)"
proof (induction n)
  case (Suc n)
  have "sync_step mp self ids c' (core_turn mp self ids k c')" for c' k
    unfolding core_turn_def using slave_step [of k self mp ids c'] master_step [of mp self ids c'] by simp
  with Suc show ?case by (auto intro: rtranclp.rtrancl_into_rtrancl)
qed simp

theorem sync_barrier_witness:
  "\<exists>c. (sync_step (\<lambda>_. True) 0 [0, 1, 2])\<^sup>*\<^sup>* (sync_start [0, 1, 2] (\<lambda>_. 4)) c \<and> slave c 1 = SlaveDone \<and>
    (slave c 2 = SlaveWaitRun \<or> slave c 2 = SlaveDone)"
proof -
  let ?c = "core_run (core_turn (\<lambda>_. True) 0 [0, 1, 2]) demo_sched (sync_start [0, 1, 2] (\<lambda>_. 4))"
  obtain n where "sync_finished 0 [0, 1, 2] (?c n)"
    using bar.ends_from [of "\<lambda>_. True" 0 "[0, 1, 2]", OF _ demo_fair, of "sync_start [0, 1, 2] (\<lambda>_. 4)" 0] demo_ids start_inv by blast
  then have "slave (?c n) 1 = SlaveDone" by (simp add: sync_finished_def)
  moreover from sync_barrier [OF core_run_reachable demo_ids _ this, of 2]
  have "slave (?c n) 2 = SlaveWaitRun \<or> slave (?c n) 2 = SlaveDone" by simp
  ultimately show ?thesis using core_run_reachable by blast
qed

theorem sync_opens_witness:
  "\<exists>n. slave (core_run (core_turn (\<lambda>_. True) 0 [0, 1, 2]) demo_sched (sync_start [0, 1, 2] (\<lambda>_. 4)) n) 2 = SlaveDone"
  using sync_opens [OF demo_ids demo_fair, of "\<lambda>_. 4"] by (auto simp: sync_finished_def)

end
