(* ===== verification/PortFeatures.thy ===== *)
theory PortFeatures
  imports VirtPort
begin

text \<open>
  Port mirroring (\<^verbatim>\<open>ethremotecfg/server/src/ethfw_portmirror.c\<close>) and frame preemption with its
  verification (\<^verbatim>\<open>ethfw_iet.c\<close>): what the firmware asks of the switch driver at its start and at every
  change of a link.
\<close>

section \<open>Port mirroring\<close>

text \<open>The configuration is a type and the union member that goes with it; \<open>matchParams\<close> are words of the driver.\<close>

datatype EthFwPortMirroring_Cfg =
    SRC_PORT_MIRRORING u32 u32                \<comment> \<open>source port mask, target port\<close>
  | DST_PORT_MIRRORING u32 u32                \<comment> \<open>destination port, target port\<close>
  | TBL_ENTRY_PORT_MIRRORING "u32 list" u32   \<comment> \<open>match parameters, target port\<close>
  | DISABLE_PORT_MIRRORING
  | MIRRORING_TYPE_UNKNOWN u32

definition EthFwPortMirroring_addDestPortMirror :: "env \<Rightarrow> u32 \<Rightarrow> u32 \<Rightarrow> 'a world_scheme \<Rightarrow> int \<times> 'a world_scheme" where
  "EthFwPortMirroring_addDestPortMirror e dstPortNum toPortNum =
     call_st e (Ioctl (selfCoreId e) (ALE_SET_PORT_MIRROR_CFG False True False dstPortNum toPortNum 0 []))"

definition EthFwPortMirroring_addSrcPortMirror :: "env \<Rightarrow> u32 \<Rightarrow> u32 \<Rightarrow> 'a world_scheme \<Rightarrow> int \<times> 'a world_scheme" where
  "EthFwPortMirroring_addSrcPortMirror e srcPortNumMask toPortNum =
     call_st e (Ioctl (selfCoreId e) (ALE_SET_PORT_MIRROR_CFG True False False 0 toPortNum srcPortNumMask []))"

definition EthFwPortMirroring_addTblEntryPortMirror :: "env \<Rightarrow> u32 list \<Rightarrow> u32 \<Rightarrow> 'a world_scheme \<Rightarrow> int \<times> 'a world_scheme" where
  "EthFwPortMirroring_addTblEntryPortMirror e matchParams toPortNum =
     call_st e (Ioctl (selfCoreId e) (ALE_SET_PORT_MIRROR_CFG False False True 0 toPortNum 0 matchParams))"

definition EthFwPortMirroring_disablePortMirror :: "env \<Rightarrow> 'a world_scheme \<Rightarrow> int \<times> 'a world_scheme" where
  "EthFwPortMirroring_disablePortMirror e = call_st e (Ioctl (selfCoreId e) ALE_DISABLE_PORT_MIRROR)"

definition EthFwPortMirroring_init :: "env \<Rightarrow> EthFwPortMirroring_Cfg option \<Rightarrow> 'a world_scheme \<Rightarrow> int \<times> 'a world_scheme" where
  "EthFwPortMirroring_init e portMirCfg s =
     (case portMirCfg of
        None \<Rightarrow> (ETHFW_EINVALIDPARAMS, s)
      | Some (SRC_PORT_MIRRORING m p) \<Rightarrow> EthFwPortMirroring_addSrcPortMirror e m p s
      | Some (DST_PORT_MIRRORING d p) \<Rightarrow> EthFwPortMirroring_addDestPortMirror e d p s
      | Some (TBL_ENTRY_PORT_MIRRORING mp p) \<Rightarrow> EthFwPortMirroring_addTblEntryPortMirror e mp p s
      | Some DISABLE_PORT_MIRRORING \<Rightarrow> EthFwPortMirroring_disablePortMirror e s
      | Some (MIRRORING_TYPE_UNKNOWN n) \<Rightarrow> (ETHFW_EINVALIDPARAMS, s))"

section \<open>Frame preemption\<close>

definition ETHFW_NUM_IET_VERIFY_ATTEMPTS :: nat where "ETHFW_NUM_IET_VERIFY_ATTEMPTS = 20"
definition CPSW_MACPORT_FIFO :: nat where "CPSW_MACPORT_FIFO = 8"

record EthFwIET_Config =
  minFragSize :: u32
  mac_verify_enable :: bool
  queueMode :: "u32 list"

record EthFwIET_Params = EthFwIET_Config +
  ietHEnet :: bool
  ietCoreId :: u32

text \<open>\<^verbatim>\<open>memcpy\<close> of n bytes into an array of 32-bit elements, n a multiple of 4.\<close>

definition memcpy_words :: "nat \<Rightarrow> u32 list \<Rightarrow> u32 list \<Rightarrow> u32 list" where
  "memcpy_words n dst src = take (n div 4) src @ drop (n div 4) dst"

definition EthFwIET_init :: "EthFwIET_Config \<Rightarrow> bool \<Rightarrow> u32 \<Rightarrow> EthFwIET_Params \<Rightarrow> EthFwIET_Params" where
  "EthFwIET_init ietCfg hEnet coreId ob =
     ob\<lparr>ietCoreId := coreId, ietHEnet := hEnet, queueMode := memcpy_words CPSW_MACPORT_FIFO (queueMode ob) (queueMode ietCfg),
        minFragSize := minFragSize ietCfg, mac_verify_enable := mac_verify_enable ietCfg\<rparr>"

text \<open>The loop of \<open>EthFwIET_doIetVerification\<close> with the attempts left.\<close>

fun iet_verify :: "env \<Rightarrow> u32 \<Rightarrow> u32 \<Rightarrow> nat \<Rightarrow> verify_status \<Rightarrow> 'a world_scheme \<Rightarrow> verify_status \<times> 'a world_scheme" where
  "iet_verify e coreId macPort 0 verifyStatus s = (verifyStatus, s)"
| "iet_verify e coreId macPort (Suc n) verifyStatus s =
     (case call_st e (Ioctl coreId (MACPORT_ENABLE_PREEMPT_VERIFICATION macPort)) s of (status, s) \<Rightarrow>
        if status \<noteq> ETHFW_SOK then (verifyStatus, s)
        else
          (let s = issue (Osal_sleepTask 50) s;
               c = Ioctl coreId (MACPORT_GET_PREEMPT_VERIFY_STATUS macPort);
               verifyStatus = verifyStatusOf e (word_of e (calls s) c 0);
               (status, s) = call_st e c s
           in if status \<noteq> ETHFW_SOK \<or> verifyStatus = VerifySucceeded \<or> verifyStatus = VerifyRxRespondError
                 \<or> verifyStatus = VerifyRxVerifyError
              then (verifyStatus, s)
              else iet_verify e coreId macPort n verifyStatus s))"

definition EthFwIET_doIetVerification :: "env \<Rightarrow> u32 \<Rightarrow> u32 \<Rightarrow> 'a world_scheme \<Rightarrow> verify_status \<times> 'a world_scheme" where
  "EthFwIET_doIetVerification e coreId macPort = iet_verify e coreId macPort ETHFW_NUM_IET_VERIFY_ATTEMPTS VerifyFailed"

text \<open>What the port's queues are set to, and the branch without verification: its argument is never set.\<close>

definition iet_queues :: "u32 list \<Rightarrow> bool list" where
  "iet_queues qs = map (\<lambda>i. qs ! i \<noteq> 0) [0..<CPSW_MACPORT_FIFO]"

definition iet_unverified :: "env \<Rightarrow> u32 \<Rightarrow> 'a world_scheme \<Rightarrow> int \<times> 'a world_scheme" where
  "iet_unverified e coreId s =
     call_st e (Ioctl coreId (MACPORT_DISABLE_PREEMPT_VERIFICATION (stackWord e (calls s)))) (fault UninitRead s)"

definition EthFwIET_handleLinkUp ::
    "env \<Rightarrow> u32 \<Rightarrow> u32 \<Rightarrow> u32 \<Rightarrow> bool \<Rightarrow> u32 list \<Rightarrow> 'a world_scheme \<Rightarrow> int \<times> 'a world_scheme" where
  "EthFwIET_handleLinkUp e coreId macPort frag verify qs s =
     (let (status, verifyStatus, s) =
            (if verify then (ETHFW_SOK, EthFwIET_doIetVerification e coreId macPort s)
             else case iet_unverified e coreId s of (status, s) \<Rightarrow> (status, VerifyDisabled, s))
      in if verifyStatus = VerifyDisabled \<or> verifyStatus = VerifySucceeded
         then (let s = issue (Ioctl coreId (MACPORT_ENABLE_PREEMPTION macPort)) s;
                   s = issue (Ioctl coreId (MACPORT_SET_PREEMPT_MIN_FRAG_SIZE macPort frag)) s
               in call_st e (Ioctl coreId (MACPORT_SET_PREEMPT_QUEUE macPort (iet_queues qs))) s)
         else (status, s))"

definition EthFwIET_handleLinkDown :: "env \<Rightarrow> u32 \<Rightarrow> u32 \<Rightarrow> 'a world_scheme \<Rightarrow> int \<times> 'a world_scheme" where
  "EthFwIET_handleLinkDown e coreId macPort = call_st e (Ioctl coreId (MACPORT_DISABLE_PREEMPTION macPort))"

definition EthFwIET_notifyLinkChange :: "env \<Rightarrow> u32 \<Rightarrow> bool \<Rightarrow> EthFwIET_Params \<Rightarrow> 'a world_scheme \<Rightarrow> 'a world_scheme" where
  "EthFwIET_notifyLinkChange e macPort isLinkUp ob s =
     (if isLinkUp
      then snd (EthFwIET_handleLinkUp e (ietCoreId ob) macPort (minFragSize ob) (mac_verify_enable ob) (queueMode ob) s)
      else snd (EthFwIET_handleLinkDown e (ietCoreId ob) macPort s))"

section \<open>The course of a verification\<close>

text \<open>The calls of an attempt, and the status the attempt after k others reads.\<close>

definition iet_attempt :: "u32 \<Rightarrow> u32 \<Rightarrow> call list" where
  "iet_attempt coreId macPort = [Ioctl coreId (MACPORT_ENABLE_PREEMPT_VERIFICATION macPort), Osal_sleepTask 50,
     Ioctl coreId (MACPORT_GET_PREEMPT_VERIFY_STATUS macPort)]"

definition iet_seen :: "env \<Rightarrow> u32 \<Rightarrow> u32 \<Rightarrow> call list \<Rightarrow> nat \<Rightarrow> verify_status" where
  "iet_seen e coreId macPort h k = verifyStatusOf e (word_of e
     (h @ concat (replicate k (iet_attempt coreId macPort)) @ butlast (iet_attempt coreId macPort)) (last (iet_attempt coreId macPort)) 0)"

abbreviation iet_over :: "verify_status \<Rightarrow> bool" where
  "iet_over v \<equiv> v \<in> {VerifySucceeded, VerifyRxRespondError, VerifyRxVerifyError}"

lemma iet_seen_Suc: "iet_seen e coreId macPort h (Suc k) = iet_seen e coreId macPort (h @ iet_attempt coreId macPort) k"
  by (simp add: iet_seen_def)

lemma iet_verify_run:
  assumes "iet_verify e coreId macPort n v s = (v', s')"
  shows "\<exists>k\<le>n. \<exists>b. calls s' = calls s @ concat (replicate k (iet_attempt coreId macPort)) @ (if b then [hd (iet_attempt coreId macPort)] else []) \<and>
    v' = (case k of 0 \<Rightarrow> v | Suc i \<Rightarrow> iet_seen e coreId macPort (calls s) i) \<and>
    (\<forall>j. Suc j < k \<longrightarrow> \<not> iet_over (iet_seen e coreId macPort (calls s) j)) \<and> faults s' = faults s"
  using assms
proof (induction n arbitrary: v s)
  case (Suc n)
  let ?en = "Ioctl coreId (MACPORT_ENABLE_PREEMPT_VERIFICATION macPort)"
  let ?get = "Ioctl coreId (MACPORT_GET_PREEMPT_VERIFY_STATUS macPort)"
  let ?s2 = "issue (Osal_sleepTask 50) (issue ?en s)" and ?s3 = "issue ?get (issue (Osal_sleepTask 50) (issue ?en s))"
  let ?v = "iet_seen e coreId macPort (calls s) 0"
  have v: "verifyStatusOf e (word_of e (calls ?s2) ?get 0) = ?v"
    by (simp add: iet_seen_def iet_attempt_def)
  show ?case
  proof (cases "status_of e (calls s) ?en = ETHFW_SOK")
    case False
    with Suc.prems have "v' = v" "s' = issue ?en s" by (simp_all add: call_st_def)
    then show ?thesis by (intro exI [of _ 0] conjI exI [of _ True]) (simp_all add: iet_attempt_def)
  next
    case ok: True
    show ?thesis
    proof (cases "status_of e (calls ?s2) ?get \<noteq> ETHFW_SOK \<or> iet_over ?v")
      case True
      with Suc.prems ok v have "v' = ?v" "s' = ?s3" by (auto simp: call_st_def Let_def)
      then show ?thesis by (intro exI [of _ 1] conjI exI [of _ False]) (simp_all add: iet_attempt_def)
    next
      case False
      with Suc.prems ok v have "iet_verify e coreId macPort n ?v ?s3 = (v', s')" by (auto simp: call_st_def Let_def)
      from Suc.IH [OF this] obtain k b where k: "k \<le> n"
        "calls s' = calls ?s3 @ concat (replicate k (iet_attempt coreId macPort)) @ (if b then [hd (iet_attempt coreId macPort)] else [])"
        "v' = (case k of 0 \<Rightarrow> ?v | Suc i \<Rightarrow> iet_seen e coreId macPort (calls ?s3) i)"
        "\<forall>j. Suc j < k \<longrightarrow> \<not> iet_over (iet_seen e coreId macPort (calls ?s3) j)" "faults s' = faults ?s3" by blast
      have c: "calls ?s3 = calls s @ iet_attempt coreId macPort" by (simp add: iet_attempt_def)
      have "\<not> iet_over (iet_seen e coreId macPort (calls s) j)" if "Suc j < Suc k" for j
      proof (cases j)
        case 0
        with False show ?thesis by simp
      next
        case (Suc i)
        with that k(4) c show ?thesis by (simp add: iet_seen_Suc)
      qed
      moreover have "v' = (case Suc k of 0 \<Rightarrow> v | Suc i \<Rightarrow> iet_seen e coreId macPort (calls s) i)"
        using k(3) c by (cases k) (simp_all add: iet_seen_Suc)
      moreover have "calls s' = calls s @ concat (replicate (Suc k) (iet_attempt coreId macPort)) @ (if b then [hd (iet_attempt coreId macPort)] else [])"
        using k(2) c by simp
      ultimately show ?thesis using k(1,5) by (intro exI [of _ "Suc k"] conjI exI [of _ b]) simp_all
    qed
  qed
qed (auto intro: exI [of _ False])

section \<open>Properties\<close>

lemma replicate_6: "replicate 6 x = [x, x, x, x, x, x]"
  by (simp add: numeral_eq_Suc)

definition iet_zero :: EthFwIET_Params where
  "iet_zero = \<lparr>minFragSize = 0, mac_verify_enable = False, queueMode = replicate CPSW_MACPORT_FIFO 0, ietHEnet = False, ietCoreId = 0\<rparr>"

text \<open>
  Property C36.  A link that comes up after the initialisation is verified in at most 20 attempts, none
  of them after one that ended the matter; preemption is switched on exactly if the last status read
  was SUCCEEDED or DISABLED, or without verification.  Of the eight configured queue modes only the
  first two are ever used.
\<close>

theorem iet_link_up:
  assumes "length (queueMode cfg) = CPSW_MACPORT_FIFO"
  shows "let ob = EthFwIET_init cfg h core iet_zero; s' = EthFwIET_notifyLinkChange e port True ob s;
      seen = iet_seen e core port (calls s);
      on = [Ioctl core (MACPORT_ENABLE_PREEMPTION port), Ioctl core (MACPORT_SET_PREEMPT_MIN_FRAG_SIZE port (minFragSize cfg)),
        Ioctl core (MACPORT_SET_PREEMPT_QUEUE port ([queueMode cfg ! 0 \<noteq> 0, queueMode cfg ! 1 \<noteq> 0] @ replicate 6 False))]
    in if mac_verify_enable cfg
       then \<exists>k b. k \<le> 20 \<and> calls s' = calls s @ concat (replicate k (iet_attempt core port)) @
              (if b then [Ioctl core (MACPORT_ENABLE_PREEMPT_VERIFICATION port)] else []) @
              (if k \<noteq> 0 \<and> (seen (k - 1) = VerifySucceeded \<or> seen (k - 1) = VerifyDisabled) then on else []) \<and>
            (\<forall>j<k - 1. \<not> iet_over (seen j)) \<and> faults s' = faults s
       else calls s' = calls s @ Ioctl core (MACPORT_DISABLE_PREEMPT_VERIFICATION (stackWord e (calls s))) # on \<and>
            faults s' = faults s @ [UninitRead]"
proof -
  obtain q0 q1 qs where q: "queueMode cfg = q0 # q1 # qs" "length qs = 6"
    using assms by (cases "queueMode cfg"; cases "tl (queueMode cfg)") (auto simp: CPSW_MACPORT_FIFO_def)
  have "[0..<8] = [0, 1, 2, 3, 4, 5, 6, 7 :: nat]" by (simp add: upt_rec)
  with q(1) have queues: "iet_queues (queueMode (EthFwIET_init cfg h core iet_zero)) = [q0 \<noteq> 0, q1 \<noteq> 0] @ replicate 6 False"
    by (simp add: iet_queues_def EthFwIET_init_def iet_zero_def memcpy_words_def CPSW_MACPORT_FIFO_def replicate_6)
  show ?thesis
  proof (cases "mac_verify_enable cfg")
    case False
    then show ?thesis using q queues
      by (simp add: Let_def EthFwIET_notifyLinkChange_def EthFwIET_handleLinkUp_def iet_unverified_def call_st_def) (simp add: EthFwIET_init_def)
  next
    case True
    obtain v t where r: "iet_verify e core port 20 VerifyFailed s = (v, t)" by (rule prod.exhaust)
    from iet_verify_run [OF r] obtain k b where k: "k \<le> 20"
      "calls t = calls s @ concat (replicate k (iet_attempt core port)) @ (if b then [hd (iet_attempt core port)] else [])"
      "v = (case k of 0 \<Rightarrow> VerifyFailed | Suc i \<Rightarrow> iet_seen e core port (calls s) i)"
      "\<forall>j. Suc j < k \<longrightarrow> \<not> iet_over (iet_seen e core port (calls s) j)" "faults t = faults s" by blast
    have hd: "hd (iet_attempt core port) = Ioctl core (MACPORT_ENABLE_PREEMPT_VERIFICATION port)" by (simp add: iet_attempt_def)
    have on: "v = VerifyDisabled \<or> v = VerifySucceeded \<longleftrightarrow> k \<noteq> 0 \<and> (iet_seen e core port (calls s) (k - 1) = VerifySucceeded \<or>
        iet_seen e core port (calls s) (k - 1) = VerifyDisabled)" using k(3) by (cases k) auto
    have ob: "ietCoreId (EthFwIET_init cfg h core iet_zero) = core" "minFragSize (EthFwIET_init cfg h core iet_zero) = minFragSize cfg"
      "mac_verify_enable (EthFwIET_init cfg h core iet_zero)" using True by (simp_all add: EthFwIET_init_def)
    let ?on = "[Ioctl core (MACPORT_ENABLE_PREEMPTION port), Ioctl core (MACPORT_SET_PREEMPT_MIN_FRAG_SIZE port (minFragSize cfg)),
        Ioctl core (MACPORT_SET_PREEMPT_QUEUE port ([q0 \<noteq> 0, q1 \<noteq> 0] @ replicate 6 False))]"
    let ?s = "EthFwIET_notifyLinkChange e port True (EthFwIET_init cfg h core iet_zero) s"
    have "calls ?s = calls t @ (if v = VerifyDisabled \<or> v = VerifySucceeded then ?on else [])" "faults ?s = faults t"
      by (simp_all add: EthFwIET_notifyLinkChange_def EthFwIET_handleLinkUp_def EthFwIET_doIetVerification_def
          ETHFW_NUM_IET_VERIFY_ATTEMPTS_def ob r queues del: replicate.simps)
    then have "calls ?s = calls s @ concat (replicate k (iet_attempt core port)) @
        (if b then [Ioctl core (MACPORT_ENABLE_PREEMPT_VERIFICATION port)] else []) @
        (if k \<noteq> 0 \<and> (iet_seen e core port (calls s) (k - 1) = VerifySucceeded \<or>
          iet_seen e core port (calls s) (k - 1) = VerifyDisabled) then ?on else [])" "faults ?s = faults s"
      using k(2,5) hd on by (simp_all del: replicate.simps)
    moreover have "\<forall>j<k - 1. \<not> iet_over (iet_seen e core port (calls s) j)" using k(4) by simp
    ultimately show ?thesis using k(1) True unfolding Let_def q(1) by auto
  qed
qed

theorem iet_link_up_witness:
  "calls (EthFwIET_notifyLinkChange ok_env 2 True (EthFwIET_init \<lparr>minFragSize = 1, mac_verify_enable = False, queueMode = [0, 1, 1, 1, 1, 1, 1, 1]\<rparr>
      True 5 iet_zero) \<lparr>calls = [], faults = []\<rparr>) =
    [Ioctl 5 (MACPORT_DISABLE_PREEMPT_VERIFICATION 0), Ioctl 5 (MACPORT_ENABLE_PREEMPTION 2), Ioctl 5 (MACPORT_SET_PREEMPT_MIN_FRAG_SIZE 2 1),
     Ioctl 5 (MACPORT_SET_PREEMPT_QUEUE 2 [False, True, False, False, False, False, False, False])]"
proof -
  have "stackWord ok_env h = 0" for h by (simp add: ok_env_def)
  then show ?thesis
    using iet_link_up [of "\<lparr>minFragSize = 1, mac_verify_enable = False, queueMode = [0, 1, 1, 1, 1, 1, 1, 1]\<rparr>" True 5 ok_env 2
        "\<lparr>calls = [], faults = []\<rparr>"]
    by (simp add: CPSW_MACPORT_FIFO_def replicate_6 Let_def)
qed

end
