(* ===== verification/Firmware.thy ===== *)
theory Firmware
  imports Monitor PortFeatures "HOL-Library.Monad_Syntax"
begin

text \<open>
  The firmware itself (\<^verbatim>\<open>ethremotecfg/server/src/ethfw_api.c\<close>, in a build without gPTP): the
  configuration of the ports and their VLANs, the partition of the DMA resources among the cores, the
  start of all components in the order of \<open>EthFw_init\<close>, and the shutdown.

  A pointer and a count are a list.  \<open>None\<close> is a task that a failed \<^verbatim>\<open>EnetAppUtils_assert\<close> stopped;
  with \<open>utilsAssert\<close> off a failed one is passed over.
\<close>

section \<open>Data\<close>

definition ETHFW_VLAN_ID_MAX :: u32 where "ETHFW_VLAN_ID_MAX = 4094"
definition ETHFW_HOST_PORT_VLAN_ID :: u32 where "ETHFW_HOST_PORT_VLAN_ID = 1"
definition ETHFW_REMOTE_CLIENT_MAX :: nat where "ETHFW_REMOTE_CLIENT_MAX = 6"
definition ETHFW_IPC_INVALID_RPMSG_ENDPOINT :: u32 where "ETHFW_IPC_INVALID_RPMSG_ENDPOINT = NOT 1"
definition AUTOSAR_ETHDRIVER_DEVICE_ENDPT :: u32 where "AUTOSAR_ETHDRIVER_DEVICE_ENDPT = 28"
definition AUTOSAR_ETHDRIVER_DEVICE_ENDPT2 :: u32 where "AUTOSAR_ETHDRIVER_DEVICE_ENDPT2 = 38"
definition ETHREMOTECFG_CMD_TYPE_LAST :: nat where "ETHREMOTECFG_CMD_TYPE_LAST = 27"

definition ETHFW_MAC_PORT_MAX :: "env \<Rightarrow> nat" where
  "ETHFW_MAC_PORT_MAX e = (if socCpsw9g e \<or> socJ742s2 e then 8 else 4)"

text \<open>The ALE configuration of a port, and the part of \<^verbatim>\<open>Cpsw_Cfg\<close> the firmware works on.\<close>

record CpswAle_PortCfg =
  macOnlyCafEn :: bool
  macOnlyEn :: bool
  noLearn :: bool
  noSaUpdateEn :: bool
  dropUntagged :: bool
  dropDoubleVlan :: bool
  dropDualVlan :: bool
  pvTagType :: u32
  pvVlanId :: u32
  pvMembers :: u32
  pvRegMcastFlood :: u32
  pvUnregMcastFlood :: u32
  pvForceUntagged :: u32
  pvNoLearn :: u32
  pvIngressCheck :: bool
  pvLimitIPNxtHdr :: bool
  pvDisallowIPFrag :: bool

record EnetRm_CoreRes =
  rmCoreId :: u32
  rmNumTxCh :: u32
  rmTxCh :: "u32 list"
  rmNumRxFlows :: u32
  rmNumMacAddress :: u32
  rmNumHwPush :: u32

record EnetRm_ResPrms =
  coreResInfo :: "EnetRm_CoreRes list"
  numCores :: nat
  isStaticTxChanAllocated :: bool

record CpswAle_Cfg =
  aleModuleEn :: bool
  aleMultihost :: bool
  aleAutoAging :: bool
  aleAgingPeriodInMs :: u32
  aleVid0ModeEn :: bool
  hostOuiNoMatchDeny :: bool
  dfltNxtHdrWhitelistEn :: bool
  ipNxtHdrWhitelist :: "u8 list"           \<comment> \<open>with its count\<close>
  aleVlanAwareMode :: bool
  aleCpswVlanAwareMode :: bool
  unknownUnregMcastFloodMask :: u32
  unknownRegMcastFloodMask :: u32
  unknownVlanMemberListMask :: u32
  autoLearnWithVlan :: bool
  policingEn :: bool
  yellowDropEn :: bool
  redDropEn :: bool
  noMatchGreen :: bool
  policerTablePartSize :: "u32 list"       \<comment> \<open>levels 1 to 4, default\<close>

record CpswHostPort_Cfg =
  removeCrc :: bool
  padShortPacket :: bool
  passCrcErrors :: bool
  hpRxMtu :: u32
  passPriorityTaggedUnchanged :: bool
  hpPortVID :: u32
  hpPortPri :: u32
  hpPortCfi :: u32
  rxVlanRemapEn :: bool
  rxDscpIPv4RemapEn :: bool
  rxDscpIPv6RemapEn :: bool
  hpCsumOffloadEn :: bool

record Cpsw_Cfg =
  cpAleCfg :: CpswAle_Cfg
  cpHostPortCfg :: CpswHostPort_Cfg
  cpVlanAware :: bool
  cpHostRxTsEn :: bool
  cpSelfCoreId :: u32
  alePortCfg :: "CpswAle_PortCfg list"
  numMacList :: u32
  resPartInfo :: EnetRm_ResPrms

record EthFw_Config =
  cfCpswCfg :: Cpsw_Cfg
  cfDma :: bool                            \<comment> \<open>\<^verbatim>\<open>dmaCfg\<close> and its driver handle are given\<close>
  cfPorts :: "u32 list option"
  cfVirtPortCfg :: "EthFwVirtPort_VirtPortCfg list"
  cfVlanCfg :: "EthFwVlan_VlanCfg list"
  cfDefaultPortMask :: u32
  cfDefaultVirtPortMask :: u32
  cfDVlanSwtFwdEn :: bool
  cfMcastCfg :: EthFwMcast_Cfg
  cfDfltVlanIdMacOnlyPorts :: u16
  cfDfltVlanIdSwitchPorts :: u16
  cfSetPortCfg :: bool
  cfVepaCfg :: "u32 list"
  cfIetCfg :: EthFwIET_Config
  cfMonitorCfg :: EthFwMon_Cfg
  cfIsStaticTxChanAllocated :: bool
  cfPassErrPkt :: bool
  cfPortMirCfg :: "EthFwPortMirroring_Cfg option"

record EthFw_Port =
  epMacPort :: u32
  portVID :: u32
  portPri :: u32
  portCfi :: u32

text \<open>The strings are zero-terminated in the code.\<close>

record EthFw_Version =
  verMajor :: u32
  verMinor :: u32
  verRev :: u32
  verYear :: string
  verMonth :: string
  verDate :: string
  verHour :: string
  verMin :: string
  verSec :: string
  verCommitHash :: string

record EthFw_Obj =
  fwCoreId :: u32
  fwEnetType :: u32
  fwInstId :: u32
  fwHEnet :: bool
  cpswCfg :: Cpsw_Cfg
  version :: EthFw_Version
  enabledPortMask :: u32
  macOnlyPortMask :: u32
  switchPortMask :: u32
  fwPorts :: "EthFw_Port list"
  fwNumPorts :: nat
  fwVirtPortCfg :: "EthFwVirtPort_VirtPortCfg list"
  fwNumVirtPorts :: nat
  fwDfltVlanIdMacOnlyPorts :: u16
  fwDfltVlanIdSwitchPorts :: u16
  mcmCmdIf :: bool
  fwSetPortCfg :: bool
  fwPassErrPkt :: bool

text \<open>\<^verbatim>\<open>serverStatus\<close> of the object is that of \<open>proxy_st\<close>.\<close>

record fw_st = mon_st +
  gEthFwObj :: EthFw_Obj
  gEthFw_rmResPrms :: EnetRm_ResPrms
  gEthFwIETObj :: EthFwIET_Params

definition upd_fw :: "(EthFw_Obj \<Rightarrow> EthFw_Obj) \<Rightarrow> 'a fw_st_scheme \<Rightarrow> 'a fw_st_scheme" where
  "upd_fw f s = s\<lparr>gEthFwObj := f (gEthFwObj s)\<rparr>"

definition upd_rm :: "(EnetRm_ResPrms \<Rightarrow> EnetRm_ResPrms) \<Rightarrow> 'a fw_st_scheme \<Rightarrow> 'a fw_st_scheme" where
  "upd_rm f s = s\<lparr>gEthFw_rmResPrms := f (gEthFw_rmResPrms s)\<rparr>"

text \<open>The initial value of the resource partition, and an object filled with zeros.\<close>

definition rm_initial :: "env \<Rightarrow> EnetRm_ResPrms" where
  "rm_initial e = (let n = if socCpsw9g e \<or> socJ742s2 e then 6 else 4 in
     \<lparr>coreResInfo = map2 (\<lambda>c p. \<lparr>rmCoreId = c, rmNumTxCh = 0, rmTxCh = replicate (txChannelsNum e) 0, rmNumRxFlows = 0,
        rmNumMacAddress = 0, rmNumHwPush = p\<rparr>) (take n (ipcCores e)) [2, 2, 2, 1, 1, 0],
      numCores = n, isStaticTxChanAllocated = False\<rparr>)"

definition vport_zero :: "env \<Rightarrow> EthFwVirtPort_VirtPortCfg" where
  "vport_zero e = \<lparr>portId = 0, vpRemoteCoreId = 0, numTxCh = 0, txCh = replicate (txChannelsNum e) 0, numRxFlow = 0,
     rxFlowsInfo = [], clientIdMask = 0, endPointId = 0, vpNumMacAddress = 0\<rparr>"

definition rm_zero :: EnetRm_ResPrms where
  "rm_zero = \<lparr>coreResInfo = [], numCores = 0, isStaticTxChanAllocated = False\<rparr>"

definition cpsw_zero :: Cpsw_Cfg where
  "cpsw_zero = \<lparr>cpAleCfg = \<lparr>aleModuleEn = False, aleMultihost = False, aleAutoAging = False, aleAgingPeriodInMs = 0, aleVid0ModeEn = False,
       hostOuiNoMatchDeny = False, dfltNxtHdrWhitelistEn = False, ipNxtHdrWhitelist = [], aleVlanAwareMode = False, aleCpswVlanAwareMode = False, unknownUnregMcastFloodMask = 0, unknownRegMcastFloodMask = 0,
       unknownVlanMemberListMask = 0, autoLearnWithVlan = False, policingEn = False, yellowDropEn = False, redDropEn = False,
       noMatchGreen = False, policerTablePartSize = []\<rparr>,
     cpHostPortCfg = \<lparr>removeCrc = False, padShortPacket = False, passCrcErrors = False, hpRxMtu = 0, passPriorityTaggedUnchanged = False,
       hpPortVID = 0, hpPortPri = 0, hpPortCfi = 0, rxVlanRemapEn = False,
       rxDscpIPv4RemapEn = False, rxDscpIPv6RemapEn = False, hpCsumOffloadEn = False\<rparr>,
     cpVlanAware = False, cpHostRxTsEn = False, cpSelfCoreId = 0, alePortCfg = [], numMacList = 0, resPartInfo = rm_zero\<rparr>"

definition fw_zero :: "env \<Rightarrow> EthFw_Obj" where
  "fw_zero e = \<lparr>fwCoreId = 0, fwEnetType = 0, fwInstId = 0, fwHEnet = False,
     cpswCfg = cpsw_zero,
     version = \<lparr>verMajor = 0, verMinor = 0, verRev = 0, verYear = [], verMonth = [], verDate = [], verHour = [], verMin = [], verSec = [], verCommitHash = []\<rparr>,
     enabledPortMask = 0, macOnlyPortMask = 0, switchPortMask = 0,
     fwPorts = replicate (macPortNum e) \<lparr>epMacPort = 0, portVID = 0, portPri = 0, portCfi = 0\<rparr>, fwNumPorts = 0,
     fwVirtPortCfg = replicate ETHFW_REMOTE_CLIENT_MAX (vport_zero e), fwNumVirtPorts = 0,
     fwDfltVlanIdMacOnlyPorts = 0, fwDfltVlanIdSwitchPorts = 0, mcmCmdIf = False, fwSetPortCfg = False, fwPassErrPkt = False\<rparr>"

definition fw_assert :: "env \<Rightarrow> bool \<Rightarrow> 's \<Rightarrow> 's option" where
  "fw_assert e b s = (if b \<or> \<not> utilsAssert e then Some s else None)"

section \<open>The default configuration\<close>

definition ETHFW_MAC_ONLY_PORTS_VLAN_ID :: u16 where "ETHFW_MAC_ONLY_PORTS_VLAN_ID = 0"
definition ETHFW_SWITCH_PORTS_VLAN_ID :: u16 where "ETHFW_SWITCH_PORTS_VLAN_ID = 3"
definition ETHFW_UTILS_NUM_CUSTOM_POLICERS :: u32 where "ETHFW_UTILS_NUM_CUSTOM_POLICERS = 20"

text \<open>The table partition, with the sizes the driver has for levels 1 to 4 and the default.\<close>

definition gEthFw_policerTablePartSize :: "u32 list" where
  "gEthFw_policerTablePartSize = [10, ETHFW_UTILS_NUM_CUSTOM_POLICERS, 10, 0, 0]"

definition EthFw_initAleCfg :: "env \<Rightarrow> u32 \<Rightarrow> CpswAle_Cfg \<Rightarrow> CpswAle_Cfg" where
  "EthFw_initAleCfg e allMacPorts c =
     c\<lparr>aleModuleEn := True, aleMultihost := vepaSupport e, aleAutoAging := True, aleAgingPeriodInMs := 1000, aleVid0ModeEn := False,
       aleVlanAwareMode := True, aleCpswVlanAwareMode := True, unknownUnregMcastFloodMask := 0, unknownRegMcastFloodMask := 0,
       unknownVlanMemberListMask := allMacPorts, autoLearnWithVlan := False, policingEn := True, yellowDropEn := False,
       redDropEn := True, noMatchGreen := True, policerTablePartSize := gEthFw_policerTablePartSize\<rparr>"

text \<open>
  \<open>dflt\<close> is the driver's default configuration, \<open>allMacPorts\<close> its mask of the MAC ports; \<open>est\<close> and \<open>errata\<close>
  are the builds with \<^verbatim>\<open>ETHFW_EST_DEMO_SUPPORT\<close> and \<^verbatim>\<open>ETHFW_CPSW_MULTIHOST_CHECKSUM_ERRATA\<close>.  The
  permission table and the gPTP settings are left out.
\<close>

definition EthFw_initConfigParams :: "env \<Rightarrow> bool \<Rightarrow> bool \<Rightarrow> u32 \<Rightarrow> Cpsw_Cfg \<Rightarrow> EthFw_Config" where
  "EthFw_initConfigParams e est errata allMacPorts dflt =
     \<lparr>cfCpswCfg = dflt\<lparr>cpSelfCoreId := selfCoreId e, numMacList := 0, cpHostRxTsEn := est, cpVlanAware := True,
        cpHostPortCfg := (cpHostPortCfg dflt)\<lparr>removeCrc := True, padShortPacket := True, passCrcErrors := True, hpRxMtu := 1522,
          hpPortVID := ETHFW_HOST_PORT_VLAN_ID, rxVlanRemapEn := True, rxDscpIPv4RemapEn := True, rxDscpIPv6RemapEn := True,
          hpCsumOffloadEn := \<not> errata\<rparr>,
        cpAleCfg := EthFw_initAleCfg e allMacPorts (cpAleCfg dflt)\<rparr>,
      cfDma = False, cfPorts = None, cfVirtPortCfg = [], cfVlanCfg = [], cfDefaultPortMask = 0, cfDefaultVirtPortMask = 0,
      cfDVlanSwtFwdEn = False, cfMcastCfg = \<lparr>cfgShared = [], cfgAddCb = False, cfgDelCb = False, cfgRsvd = []\<rparr>,
      cfDfltVlanIdMacOnlyPorts = ETHFW_MAC_ONLY_PORTS_VLAN_ID, cfDfltVlanIdSwitchPorts = ETHFW_SWITCH_PORTS_VLAN_ID,
      cfSetPortCfg = False, cfVepaCfg = (if vepaSupport e then EthFwVepa_initCfg else []),
      cfIetCfg = \<lparr>minFragSize = 0, mac_verify_enable = False, queueMode = replicate CPSW_MACPORT_FIFO 0\<rparr>,
      cfMonitorCfg = EthFwMon_initCfg, cfIsStaticTxChanAllocated = False, cfPassErrPkt = False,
      cfPortMirCfg = Some DISABLE_PORT_MIRRORING\<rparr>"

section \<open>Ports\<close>

definition EthFw_setDscpPriorityMapRegisters :: "env \<Rightarrow> 'a fw_st_scheme \<Rightarrow> int \<times> 'a fw_st_scheme" where
  "EthFw_setDscpPriorityMapRegisters e s =
     call_st e (Ioctl (fwCoreId (gEthFwObj s)) (HOSTPORT_SET_INGRESS_DSCP_PRI_MAP (map (\<lambda>i. of_nat (i mod 8)) [0..<tosMapNum e]))) s"

definition EthFw_getDfltVlanId :: "EthFw_Config \<Rightarrow> 'a fw_st_scheme \<Rightarrow> int \<times> 'a fw_st_scheme" where
  "EthFw_getDfltVlanId config s =
     (let m = cfDfltVlanIdMacOnlyPorts config; w = cfDfltVlanIdSwitchPorts config in
      if ucast m > ETHFW_VLAN_ID_MAX \<or> ucast w > ETHFW_VLAN_ID_MAX \<or> m = w then (ETHFW_EINVALIDPARAMS, s)
      else (ETHFW_SOK, upd_fw (\<lambda>ob. ob\<lparr>fwDfltVlanIdMacOnlyPorts := m, fwDfltVlanIdSwitchPorts := w\<rparr>) s))"

definition upd_first :: "nat \<Rightarrow> ('b \<Rightarrow> 'b) \<Rightarrow> 'b list \<Rightarrow> 'b list" where
  "upd_first n f xs = map f (take n xs) @ drop n xs"

definition mac_mask :: "env \<Rightarrow> u32 list \<Rightarrow> u32" where
  "mac_mask e ps = fold (\<lambda>p m. m OR macPortMaskOf e p) ps 0"

text \<open>The ports that virtual MAC ports stand for.\<close>

definition virt_mac_ports :: "env \<Rightarrow> EthFwVirtPort_VirtPortCfg list \<Rightarrow> u32 list" where
  "virt_mac_ports e vs = map (\<lambda>v. EthFwVirtPort_getMacPort e (portId v)) (filter (\<lambda>v. EthFwVirtPort_isMacPort (portId v)) vs)"

definition upd_cpsw :: "(Cpsw_Cfg \<Rightarrow> Cpsw_Cfg) \<Rightarrow> EthFw_Obj \<Rightarrow> EthFw_Obj" where
  "upd_cpsw f ob = ob\<lparr>cpswCfg := f (cpswCfg ob)\<rparr>"

definition EthFw_getPortConfig :: "env \<Rightarrow> EthFw_Config \<Rightarrow> 'a fw_st_scheme \<Rightarrow> int \<times> 'a fw_st_scheme" where
  "EthFw_getPortConfig e config s =
     (let ps = (case cfPorts config of None \<Rightarrow> [] | Some ps \<Rightarrow> ps); vs = cfVirtPortCfg config;
          bad = \<not> cfSetPortCfg config \<or> length ps > ETHFW_MAC_PORT_MAX e \<or> length vs > ETHFW_REMOTE_CLIENT_MAX;
          s = chk_idx OobWrite (macPortNum e) (length (alePortCfg (cpswCfg (gEthFwObj s)))) s;
          s = upd_fw (upd_cpsw (\<lambda>c. c\<lparr>alePortCfg := upd_first (Suc (macPortNum e)) (\<lambda>p. p\<lparr>pvVlanId := ETHFW_VLAN_ID_MAX\<rparr>)
                 (alePortCfg c)\<rparr>)) s;
          s = upd_rm (\<lambda>r. r\<lparr>coreResInfo := upd_first (numCores r) (\<lambda>c. c\<lparr>rmTxCh := replicate (txChannelsNum e) (txChAny e)\<rparr>)
                 (coreResInfo r)\<rparr>) s
      in if bad then (ETHFW_EINVALIDPARAMS, s)
         else
           (ETHFW_SOK, upd_rm (\<lambda>r. r\<lparr>isStaticTxChanAllocated := cfIsStaticTxChanAllocated config\<rparr>)
             (upd_fw (\<lambda>ob. let en = enabledPortMask ob OR mac_mask e ps; mo = macOnlyPortMask ob OR mac_mask e (virt_mac_ports e vs) in
                ob\<lparr>fwSetPortCfg := True, fwNumPorts := length ps,
                   fwPorts := map2 (\<lambda>m p. p\<lparr>epMacPort := m\<rparr>) ps (fwPorts ob) @ drop (length ps) (fwPorts ob),
                   enabledPortMask := en, fwNumVirtPorts := length vs, fwVirtPortCfg := vs @ drop (length vs) (fwVirtPortCfg ob),
                   macOnlyPortMask := mo, switchPortMask := en AND NOT mo\<rparr>) s)))"

definition EthFw_getMacPortConfig :: "u32 \<Rightarrow> EthFw_Obj \<Rightarrow> nat option" where
  "EthFw_getMacPortConfig macPort ob = first_idx (\<lambda>p. epMacPort p = macPort) (take (fwNumPorts ob) (fwPorts ob))"

definition EthFw_isMacOnlyPort :: "env \<Rightarrow> EthFw_Obj \<Rightarrow> u32 \<Rightarrow> bool" where
  "EthFw_isMacOnlyPort e ob macPort \<longleftrightarrow> macOnlyPortMask ob AND macPortMaskOf e macPort \<noteq> 0"

definition port_vlan :: "env \<Rightarrow> nat \<Rightarrow> EthFw_Obj \<Rightarrow> EthFw_Obj" where
  "port_vlan e i ob =
     (let macPort = epMacPort (fwPorts ob ! i) in
      case EthFw_getMacPortConfig macPort ob of
        None \<Rightarrow> ob
      | Some k \<Rightarrow> ob\<lparr>fwPorts := (fwPorts ob)[k := (fwPorts ob ! k)
            \<lparr>portVID := ucast (if EthFw_isMacOnlyPort e ob macPort then fwDfltVlanIdMacOnlyPorts ob else fwDfltVlanIdSwitchPorts ob),
             portPri := 0, portCfi := 0\<rparr>]\<rparr>)"

definition EthFw_setPortVlan :: "env \<Rightarrow> 'a fw_st_scheme \<Rightarrow> 'a fw_st_scheme" where
  "EthFw_setPortVlan e s = upd_fw (\<lambda>ob. fold (port_vlan e) [0..<fwNumPorts ob] ob) s"

text \<open>A port in MAC-only mode, in switch mode, and the host port.\<close>

definition mac_only_mode :: "env \<Rightarrow> EthFw_Obj \<Rightarrow> CpswAle_PortCfg \<Rightarrow> CpswAle_PortCfg" where
  "mac_only_mode e ob p =
     (let m = push_bit 1 (macOnlyPortMask ob) OR hostPortMask e in
      p\<lparr>macOnlyCafEn := False, macOnlyEn := True, noLearn := True, dropUntagged := False,
        pvTagType := tagInner e, pvVlanId := ucast (fwDfltVlanIdMacOnlyPorts ob), pvMembers := m, pvRegMcastFlood := m,
        pvUnregMcastFlood := m, pvForceUntagged := m, pvNoLearn := 0, pvIngressCheck := False, pvLimitIPNxtHdr := False,
        pvDisallowIPFrag := False\<rparr>)"

definition switch_mode :: "env \<Rightarrow> EthFw_Obj \<Rightarrow> CpswAle_PortCfg \<Rightarrow> CpswAle_PortCfg" where
  "switch_mode e ob p =
     (let m = push_bit 1 (switchPortMask ob) OR hostPortMask e in
      p\<lparr>macOnlyCafEn := False, macOnlyEn := False, noLearn := False, dropUntagged := False,
        pvTagType := tagInner e, pvVlanId := ucast (fwDfltVlanIdSwitchPorts ob), pvMembers := m, pvRegMcastFlood := m,
        pvUnregMcastFlood := 0, pvForceUntagged := m, pvNoLearn := 0, pvIngressCheck := False, pvLimitIPNxtHdr := False,
        pvDisallowIPFrag := False\<rparr>)"

definition host_mode :: "env \<Rightarrow> CpswAle_PortCfg \<Rightarrow> CpswAle_PortCfg" where
  "host_mode e p =
     (let p = p\<lparr>pvTagType := tagInner e, pvVlanId := ETHFW_HOST_PORT_VLAN_ID, pvMembers := allPortsMask e,
            pvRegMcastFlood := allPortsMask e, pvUnregMcastFlood := 0, pvForceUntagged := allPortsMask e, pvNoLearn := 0,
            pvIngressCheck := False, pvLimitIPNxtHdr := False, pvDisallowIPFrag := False, noLearn := False, dropUntagged := False\<rparr>
      in if vepaSupport e then p\<lparr>noSaUpdateEn := True, dropDoubleVlan := False, dropDualVlan := True\<rparr> else p)"

definition port_mode :: "env \<Rightarrow> EthFw_Obj \<Rightarrow> u32 \<Rightarrow> CpswAle_PortCfg \<Rightarrow> CpswAle_PortCfg" where
  "port_mode e ob macPort = (if EthFw_isMacOnlyPort e ob macPort then mac_only_mode e ob else switch_mode e ob)"

definition upd_ale_port :: "nat \<Rightarrow> (CpswAle_PortCfg \<Rightarrow> CpswAle_PortCfg) \<Rightarrow> 'a fw_st_scheme \<Rightarrow> 'a fw_st_scheme" where
  "upd_ale_port k f s =
     chk_idx OobWrite k (length (alePortCfg (cpswCfg (gEthFwObj s))))
       (upd_fw (upd_cpsw (\<lambda>c. c\<lparr>alePortCfg := (alePortCfg c)[k := f (alePortCfg c ! k)]\<rparr>)) s)"

definition EthFw_setPortMode :: "env \<Rightarrow> 'a fw_st_scheme \<Rightarrow> 'a fw_st_scheme" where
  "EthFw_setPortMode e s =
     (let ob = gEthFwObj s;
          s = fold (\<lambda>p. upd_ale_port (unat (macPortToAlePort e (epMacPort p))) (port_mode e ob (epMacPort p)))
                (take (fwNumPorts ob) (fwPorts ob)) s
      in upd_ale_port 0 (host_mode e) s)"

definition EthFw_setupVlan :: "env \<Rightarrow> EthFw_Config \<Rightarrow> 'a fw_st_scheme \<Rightarrow> int \<times> 'a fw_st_scheme" where
  "EthFw_setupVlan e config s =
     (let ob = gEthFwObj s in
      if fwHEnet ob
      then EthFwVlan_init e \<lparr>vcVlans = cfVlanCfg config, dfltVlanIdSwitchPorts = ucast (fwDfltVlanIdSwitchPorts ob),
             dfltVlanIdMacOnlyPorts = ucast (fwDfltVlanIdMacOnlyPorts ob), vcSwitchPortMask = switchPortMask ob,
             vcMacOnlyPortMask = macOnlyPortMask ob, vcDefaultPortMask = cfDefaultPortMask config,
             vcDefaultVirtPortMask = cfDefaultVirtPortMask config, vcDVlanSwtFwdEn = cfDVlanSwtFwdEn config\<rparr> s
      else (ETHFW_EFAIL, s))"

section \<open>Resources of the cores\<close>

text \<open>The loop of \<open>EthFw_setTxChRmInfo\<close> over the core's channels, with the index into the port's.\<close>

fun tx_rm_loop :: "u32 \<Rightarrow> u32 list \<Rightarrow> u32 \<Rightarrow> u32 list \<Rightarrow> nat \<Rightarrow> u32 list" where
  "tx_rm_loop any src n [] j = []"
| "tx_rm_loop any src n (d # ds) j =
     (let (d, j) = (if d = any then (src ! j, Suc j) else (d, j)) in
      d # (if of_nat j = n then ds else tx_rm_loop any src n ds j))"

definition EthFw_setTxChRmInfo :: "env \<Rightarrow> nat \<Rightarrow> nat \<Rightarrow> 'a fw_st_scheme \<Rightarrow> 'a fw_st_scheme" where
  "EthFw_setTxChRmInfo e coreIdx virtPortId s =
     (let v = fwVirtPortCfg (gEthFwObj s) ! virtPortId in
      upd_rm (\<lambda>r. r\<lparr>coreResInfo := (coreResInfo r)[coreIdx := (coreResInfo r ! coreIdx)
        \<lparr>rmTxCh := tx_rm_loop (txChAny e) (txCh v) (numTxCh v) (rmTxCh (coreResInfo r ! coreIdx)) 0\<rparr>]\<rparr>) s)"

definition EthFw_getCoreDmaResIndex :: "u32 \<Rightarrow> EnetRm_ResPrms \<Rightarrow> nat" where
  "EthFw_getCoreDmaResIndex coreId r =
     (case first_idx (\<lambda>c. rmCoreId c = coreId) (take (numCores r) (coreResInfo r)) of None \<Rightarrow> numCores r | Some i \<Rightarrow> i)"

definition add_port_rm :: "env \<Rightarrow> nat \<Rightarrow> 'a fw_st_scheme \<Rightarrow> 'a fw_st_scheme" where
  "add_port_rm e i s =
     (let v = fwVirtPortCfg (gEthFwObj s) ! i; k = EthFw_getCoreDmaResIndex (vpRemoteCoreId v) (gEthFw_rmResPrms s) in
      if k < length (coreResInfo (gEthFw_rmResPrms s))
      then EthFw_setTxChRmInfo e k i (upd_rm (\<lambda>r. r\<lparr>coreResInfo := (coreResInfo r)[k := (let c = coreResInfo r ! k in
             c\<lparr>rmNumTxCh := rmNumTxCh c + numTxCh v, rmNumRxFlows := rmNumRxFlows c + numRxFlow v,
               rmNumMacAddress := rmNumMacAddress c + vpNumMacAddress v\<rparr>)]\<rparr>) s)
      else fault OobWrite s)"

definition EthFw_updateEnetRm :: "env \<Rightarrow> 'a fw_st_scheme \<Rightarrow> 'a fw_st_scheme option" where
  "EthFw_updateEnetRm e s =
     (let s = fold (add_port_rm e) [0..<fwNumVirtPorts (gEthFwObj s)] s;
          s = upd_fw (upd_cpsw (\<lambda>c. c\<lparr>resPartInfo := gEthFw_rmResPrms s,
                numMacList := (if unat (numMacList c) > macListMax e then of_nat (macListMax e) else numMacList c)\<rparr>)) s
      in fw_assert e (numMacList (cpswCfg (gEthFwObj s)) \<noteq> 0) s)"

section \<open>The multi-client manager and the driver\<close>

definition EthFw_initMcm :: "env \<Rightarrow> 'a fw_st_scheme \<Rightarrow> (int \<times> 'a fw_st_scheme) option" where
  "EthFw_initMcm e s =
     (if \<not> isCpswType e (fwEnetType (gEthFwObj s)) then Some (ETHFW_ENOTSUPPORTED, s)
      else do {
        let (status, s) = call_st e Mcm_init s;
        s \<leftarrow> fw_assert e (status = ETHFW_SOK) s;
        if status \<noteq> ETHFW_SOK then Some (status, s)
        else do {
          let ok = flag_of e (calls s) Mcm_getCmdIf;
          let s = upd_fw (\<lambda>ob. ob\<lparr>mcmCmdIf := ok\<rparr>) (issue Mcm_getCmdIf s);
          s \<leftarrow> fw_assert e ok s;
          let h = flag_of e (calls s) Mcm_acquireHandleInfo;
          Some (status, upd_fw (\<lambda>ob. ob\<lparr>fwHEnet := h\<rparr>) (issue Mcm_acquireHandleInfo s))
        }
      })"

definition EthFw_deinitMcm :: "'a fw_st_scheme \<Rightarrow> 'a fw_st_scheme" where
  "EthFw_deinitMcm s = issue Mcm_deInit (issue Mcm_releaseCmdIf (issue Mcm_releaseHandleInfo s))"

definition EthFw_setAleBcastEntry :: "env \<Rightarrow> 'a fw_st_scheme \<Rightarrow> int \<times> 'a fw_st_scheme" where
  "EthFw_setAleBcastEntry e s = call_st e (Ioctl (fwCoreId (gEthFwObj s)) (ALE_ADD_MCAST bcast_mac 0 (allPortsMask e))) s"

text \<open>
  The link arguments the manager asks for: the VLAN of the last port with the number (\<open>None\<close> leaves it
  to the application), and whether error packets are let through.
\<close>

definition EthFw_initLinkArgs :: "env \<Rightarrow> u32 \<Rightarrow> 'a fw_st_scheme \<Rightarrow> ((EthFw_Port option \<times> bool) \<times> 'a fw_st_scheme) option" where
  "EthFw_initLinkArgs e macPort s = do {
     let (status, s) = call_st e (SetPortCfgCb macPort) s;
     s \<leftarrow> fw_assert e (status = ETHFW_SOK) s;
     let ob = gEthFwObj s;
     let v = fold (\<lambda>p r. if epMacPort p = macPort then Some p else r) (take (fwNumPorts ob) (fwPorts ob)) None;
     Some ((v, \<not> mcuPlusSdk e \<and> fwPassErrPkt ob), s)
   }"

section \<open>Start\<close>

definition substr :: "nat \<Rightarrow> nat \<Rightarrow> string \<Rightarrow> string" where
  "substr o' n xs = take n (drop o' xs)"

definition fw_version :: "env \<Rightarrow> EthFw_Version" where
  "fw_version e = \<lparr>verMajor = 0, verMinor = 5, verRev = 0, verYear = substr 7 4 (buildDate e), verMonth = substr 0 3 (buildDate e),
     verDate = substr 4 2 (buildDate e), verHour = substr 0 2 (buildTime e), verMin = substr 3 2 (buildTime e),
     verSec = substr 6 2 (buildTime e), verCommitHash = (if mcuPlusSdk e then [] else substr 0 8 (buildCommit e))\<rparr>"

definition fw_identify :: "env \<Rightarrow> u32 \<Rightarrow> u32 \<Rightarrow> 'a fw_st_scheme \<Rightarrow> 'a fw_st_scheme" where
  "fw_identify e enetType instId s =
     upd_fw (\<lambda>ob. ob\<lparr>fwCoreId := selfCoreId e, fwEnetType := enetType, fwInstId := instId, version := fw_version e\<rparr>) s"

text \<open>\<^verbatim>\<open>if (status == ENET_SOK) { ... }\<close> around an operation that may stop the task.\<close>

definition whenOK :: "int \<times> 's \<Rightarrow> ('s \<Rightarrow> (int \<times> 's) option) \<Rightarrow> (int \<times> 's) option" where
  "whenOK r f = (if fst r = ETHFW_SOK then f (snd r) else Some r)"

text \<open>The first part of \<open>EthFw_init\<close>, up to the manager, and the second, from there on.\<close>

definition fw_configure :: "env \<Rightarrow> u32 \<Rightarrow> u32 \<Rightarrow> EthFw_Config \<Rightarrow> 'a fw_st_scheme \<Rightarrow> (int \<times> 'a fw_st_scheme) option" where
  "fw_configure e enetType instId config s = do {
     let s = (upd_fw (\<lambda>_. (fw_zero e)\<lparr>cpswCfg := cfCpswCfg config\<rparr>) s)\<lparr>serverStatus := ETHREMOTECFG_SERVERSTATUS_UNINIT\<rparr>;
     let r = thenOK (EthFw_getDfltVlanId config s) (EthFw_getPortConfig e config);
     r \<leftarrow> whenOK r (\<lambda>s. do {
       s \<leftarrow> EthFw_updateEnetRm e (EthFw_setPortMode e (EthFw_setPortVlan e s));
       Some (ETHFW_SOK, fw_identify e enetType instId s)
     });
     whenOK r (\<lambda>s. do {
       (status, s) \<leftarrow> EthFw_initMcm e s;
       s \<leftarrow> fw_assert e (status = ETHFW_SOK) s;
       Some (status, s)
     })
   }"

definition fw_start :: "env \<Rightarrow> EthFw_Config \<Rightarrow> int \<times> 'a fw_st_scheme \<Rightarrow> (int \<times> 'a fw_st_scheme) option" where
  "fw_start e config r = do {
     let r = thenOK r (\<lambda>s. EthFwMcast_init e (cfMcastCfg config) (switchPortMask (gEthFwObj s)) (macOnlyPortMask (gEthFwObj s)) s);
     let r = (if proxyArp e then thenOK r (EthFwArp_init e) else r);
     let r = (if vepaSupport e then EthFwVepa_init e (cfVepaCfg config) (snd r) else r);
     let r = (if ietEnable e
              then (fst r, let s = snd r; ob = gEthFwObj s in
                s\<lparr>gEthFwIETObj := EthFwIET_init (cfIetCfg config) (fwHEnet ob) (fwCoreId ob) (gEthFwIETObj s)\<rparr>)
              else r);
     let r = (if monitorSupport e then EthFwMon_init e (cfMonitorCfg config) (of_nat (fwNumPorts (gEthFwObj (snd r)))) (snd r) else r);
     let r = thenOK r (EthFw_setAleBcastEntry e);
     let r = thenOK r (EthFwPortMirroring_init e (cfPortMirCfg config));
     let r = thenOK r (EthFw_setupVlan e config);
     let r = thenOK r (EthFw_setDscpPriorityMapRegisters e);
     let r = (fst r, upd_fw (\<lambda>ob. ob\<lparr>fwPassErrPkt := False\<rparr>) (snd r));
     if monitorSupport e then whenOK r (EthFwMon_startTask e) else Some r
   }"

text \<open>The result: whether a handle is returned.\<close>

definition EthFw_init :: "env \<Rightarrow> u32 \<Rightarrow> u32 \<Rightarrow> EthFw_Config \<Rightarrow> 'a fw_st_scheme \<Rightarrow> (bool \<times> 'a fw_st_scheme) option" where
  "EthFw_init e enetType instId config s = do {
     s \<leftarrow> fw_assert e (cfPorts config \<noteq> None) s;
     s \<leftarrow> fw_assert e (length (case cfPorts config of None \<Rightarrow> [] | Some ps \<Rightarrow> ps) \<le> macPortNum e) s;
     s \<leftarrow> fw_assert e (cfDma config) s;
     r \<leftarrow> fw_configure e enetType instId config s;
     r \<leftarrow> fw_start e config r;
     Some (fst r = ETHFW_SOK, snd r)
   }"

section \<open>Shutdown\<close>

text \<open>\<^verbatim>\<open>EthFwMcast_deinit\<close> does nothing.\<close>

definition clear_port_rm :: "nat \<Rightarrow> 'a fw_st_scheme \<Rightarrow> 'a fw_st_scheme" where
  "clear_port_rm i s =
     (let k = EthFw_getCoreDmaResIndex (vpRemoteCoreId (fwVirtPortCfg (gEthFwObj s) ! i)) (gEthFw_rmResPrms s) in
      chk_idx OobWrite k (length (coreResInfo (gEthFw_rmResPrms s)))
        (upd_rm (\<lambda>r. r\<lparr>coreResInfo := (coreResInfo r)[k := (coreResInfo r ! k)
          \<lparr>rmNumTxCh := 0, rmNumRxFlows := 0, rmNumMacAddress := 0\<rparr>]\<rparr>) s))"

definition EthFw_deinit :: "env \<Rightarrow> 'a fw_st_scheme \<Rightarrow> 'a fw_st_scheme" where
  "EthFw_deinit e s =
     (let s = (if proxyArp e then EthFwArp_deinit s else s);
          s = (if vepaSupport e then EthFwVepa_deinit s else s);
          s = EthFwVlan_deinit e s;
          s = (if monitorSupport e then EthFwMon_stopTask s else s);
          s = EthFw_deinitMcm s;
          s = upd_fw (\<lambda>ob. ob\<lparr>fwNumPorts := 0\<rparr>) s;
          s = EthFw_setStatus ETHREMOTECFG_SERVERSTATUS_UNINIT s;
          s = upd_fw (upd_cpsw (\<lambda>_. cpsw_zero)) s
      in fold clear_port_rm [0..<fwNumVirtPorts (gEthFwObj s)] s)"

section \<open>What is told to the clients\<close>

definition EthFw_getRemoteEndptId :: "env \<Rightarrow> u32 \<Rightarrow> 's \<Rightarrow> (u32 \<times> 's) option" where
  "EthFw_getRemoteEndptId e coreId s =
     (let ids = [(ipcCores e ! 3, AUTOSAR_ETHDRIVER_DEVICE_ENDPT), (ipcCores e ! 1, AUTOSAR_ETHDRIVER_DEVICE_ENDPT2)] in
      case first_idx (\<lambda>x. fst x = coreId) ids of
        Some i \<Rightarrow> Some (snd (ids ! i), s)
      | None \<Rightarrow> map_option (Pair ETHFW_IPC_INVALID_RPMSG_ENDPOINT) (fw_assert e False s))"

text \<open>Without the UART number, a constant of the board.\<close>

record EthRemoteCfg_DeviceData =
  fwVer :: EthFw_Version
  permissionFlags :: u64
  uartConnected :: bool

definition EthFw_getDeviceData :: "EthFw_Obj \<Rightarrow> EthRemoteCfg_DeviceData" where
  "EthFw_getDeviceData ob =
     \<lparr>fwVer = (version ob)\<lparr>verHour := [], verMin := [], verSec := []\<rparr>,
      permissionFlags = push_bit ETHREMOTECFG_CMD_TYPE_LAST 1 - 1, uartConnected = True\<rparr>"

definition EthFw_getVersion :: "'a fw_st_scheme \<Rightarrow> EthFw_Version" where
  "EthFw_getVersion s = version (gEthFwObj s)"

definition EthFw_getStatus :: "'a fw_st_scheme \<Rightarrow> u32" where
  "EthFw_getStatus s = serverStatus s"
end
