(* ===== verification/ServerStart.thy ===== *)
theory ServerStart
  imports Firmware
begin

text \<open>
  The start of the proxy server: \<open>EthFw_initRemoteConfig\<close> and \<open>EthFw_lateAnnounce\<close> of \<^verbatim>\<open>ethfw_api.c\<close>,
  \<open>CpswProxyServer_init\<close> with its end points and tasks, and the two receiving tasks of
  \<^verbatim>\<open>cpsw_proxy_server.c\<close>, which hand the requests to the handler.
\<close>

definition CPSWPROXY_REMOTE_SERVICE_ENDPT_ID :: u32 where "CPSWPROXY_REMOTE_SERVICE_ENDPT_ID = 34"
definition CPSWPROXY_NOTIFY_SERVICE_ENDPT_ID :: u32 where "CPSWPROXY_NOTIFY_SERVICE_ENDPT_ID = 24"
definition ETHREMOTECFG_MSGTYPE_REQUEST :: u32 where "ETHREMOTECFG_MSGTYPE_REQUEST = 0"

text \<open>\<^verbatim>\<open>virtPortCfg\<close> with \<^verbatim>\<open>numVirtPorts\<close> entries is a list.\<close>

record CpswProxyServer_Config_t =
  scEnetType :: u32
  scInstId :: u32
  scVirtPortCfg :: "EthFwVirtPort_VirtPortCfg list"
  scDfltVlanIdMacOnlyPorts :: u16
  scDfltVlanIdSwitchPorts :: u16
  scEnabledPortMask :: u32
  scMacOnlyPortMask :: u32

definition upd_srv :: "(CpswProxyServer_Obj \<Rightarrow> CpswProxyServer_Obj) \<Rightarrow> 'a proxy_st_scheme \<Rightarrow> 'a proxy_st_scheme" where
  "upd_srv f s = s\<lparr>gProxyServerObj := f (gProxyServerObj s)\<rparr>"

text \<open>\<^verbatim>\<open>memset(&hServer->coreObj, 0, ...)\<close>.\<close>

definition core_zero :: "env \<Rightarrow> CpswProxyServer_RemoteCoreObj" where
  "core_zero e = \<lparr>rmRefCnt = 0, attachInfo = \<lparr>coreKey = 0, aiRxMtu = 0, aiTxMtu = replicate (txMtuNum e) 0\<rparr>,
     clientObj = replicate CPSWPROXYSERVER_VIRTPORT_PER_CLIENT_MAX client_zero\<rparr>"

section \<open>End points and tasks\<close>

definition asr_zero :: CpswProxyServer_AsrServiceObj where
  "asr_zero = \<lparr>asrHandle = False, asrCoreId = 0, asrLocalEp = 0, asrVirtPort = 0, asrTask = False\<rparr>"

definition upd_asr :: "nat \<Rightarrow> (CpswProxyServer_AsrServiceObj \<Rightarrow> CpswProxyServer_AsrServiceObj) \<Rightarrow>
    'a proxy_st_scheme \<Rightarrow> 'a proxy_st_scheme" where
  "upd_asr n f s = upd_srv (\<lambda>ob. ob\<lparr>ethDrvObj := (ethDrvObj ob)[n := f (ethDrvObj ob ! n)]\<rparr>) s"

definition CpswProxyServer_initAutosarEthDeviceEp :: "env \<Rightarrow> nat \<Rightarrow> 'a proxy_st_scheme \<Rightarrow> int \<times> 'a proxy_st_scheme" where
  "CpswProxyServer_initAutosarEthDeviceEp e n s =
     (let c = Ipc_createRpmsg (asrLocalEp (at_idx asr_zero (ethDrvObj (gProxyServerObj s)) n)); ok = flag_of e (calls s) c;
          s = upd_asr n (\<lambda>a. a\<lparr>asrHandle := ok\<rparr>) (issue c s)
      in if \<not> ok then (ETHFW_EFAIL, s)
         else
           (let c = Osal_createTask ''ASRETHDEVICE''; ok = flag_of e (calls s) c;
                s = upd_asr n (\<lambda>a. a\<lparr>asrTask := ok\<rparr>) (issue c s)
            in (if ok then ETHFW_SOK else ETHFW_EFAIL, s)))"

definition upd_client_service :: "(CpswProxyServer_ClientServiceObj \<Rightarrow> CpswProxyServer_ClientServiceObj) \<Rightarrow>
    'a proxy_st_scheme \<Rightarrow> 'a proxy_st_scheme" where
  "upd_client_service f s = upd_srv (\<lambda>ob. ob\<lparr>clientServiceObj := f (clientServiceObj ob)\<rparr>) s"

definition CpswProxyServer_initRemoteClientEthDeviceEp :: "env \<Rightarrow> 'a proxy_st_scheme \<Rightarrow> int \<times> 'a proxy_st_scheme" where
  "CpswProxyServer_initRemoteClientEthDeviceEp e s =
     (let c = Ipc_createRpmsg CPSWPROXY_REMOTE_SERVICE_ENDPT_ID; ok = flag_of e (calls s) c;
          s = upd_client_service (\<lambda>k. k\<lparr>csHandle := ok\<rparr>) (issue c s)
      in if \<not> ok then (ETHFW_EFAIL, s)
         else
           (let s = upd_client_service (\<lambda>k. k\<lparr>rpmsgStartSem := map_option (\<lambda>_. 1) (rpmsgStartSem k),
                      csLocalEp := CPSWPROXY_REMOTE_SERVICE_ENDPT_ID\<rparr>) (issue Osal_postSemaphore s);
                c = Osal_createTask ''ETHREMOTEDEVICE''; ok = flag_of e (calls s) c;
                s = upd_client_service (\<lambda>k. k\<lparr>csTask := ok\<rparr>) (issue c s)
            in (if ok then ETHFW_SOK else ETHFW_EFAIL, s)))"

definition upd_notify_service :: "(CpswProxyServer_NotifyServiceObj \<Rightarrow> CpswProxyServer_NotifyServiceObj) \<Rightarrow>
    'a proxy_st_scheme \<Rightarrow> 'a proxy_st_scheme" where
  "upd_notify_service f s = upd_srv (\<lambda>ob. ob\<lparr>notifyServiceObj := f (notifyServiceObj ob)\<rparr>) s"

definition CpswProxyServer_initNotifyServiceEp :: "env \<Rightarrow> 'a proxy_st_scheme \<Rightarrow> int \<times> 'a proxy_st_scheme" where
  "CpswProxyServer_initNotifyServiceEp e s =
     (let s = upd_notify_service (\<lambda>k. k\<lparr>dstProcMask := 0, hwPush2CoreIdMap := replicate (hwPushMax e) (of_nat (ipcMaxProcs e))\<rparr>) s;
          c = Ipc_createRpmsg CPSWPROXY_NOTIFY_SERVICE_ENDPT_ID; ok = flag_of e (calls s) c;
          s = upd_notify_service (\<lambda>k. k\<lparr>nsHandle := ok\<rparr>) (issue c s)
      in if \<not> ok then (ETHFW_EFAIL, s)
         else
           (let s = upd_notify_service (\<lambda>k. k\<lparr>nsLocalEp := CPSWPROXY_NOTIFY_SERVICE_ENDPT_ID\<rparr>) s
            in thenOK (call_st e (Ipc_announceAll CPSWPROXY_NOTIFY_SERVICE_ENDPT_ID) s)
                 (\<lambda>s. let s = upd_notify_service (\<lambda>k. k\<lparr>hwPushNotifyEventId := map (\<lambda>i. push_bit i 1) [0..<hwPushMax e]\<rparr>) s;
                          ok = flag_of e (calls s) Osal_createEvent;
                          s = upd_notify_service (\<lambda>k. k\<lparr>nsEvent := ok\<rparr>) (issue Osal_createEvent s)
                      in if \<not> ok then (ETHFW_EFAIL, s)
                         else
                           (let c = Osal_createTask ''NOTIFY_SERVICE_TASK''; ok = flag_of e (calls s) c;
                                s = upd_notify_service (\<lambda>k. k\<lparr>nsTask := ok\<rparr>) (issue c s)
                            in (if ok then ETHFW_SOK else ETHFW_EFAIL, s)))))"

section \<open>Initialisation\<close>

text \<open>One turn of the loop over the virtual ports, with the status so far.\<close>

definition init_asr_port ::
    "env \<Rightarrow> EthFwVirtPort_VirtPortCfg \<Rightarrow> int \<times> 'a proxy_st_scheme \<Rightarrow> (int \<times> 'a proxy_st_scheme) option" where
  "init_asr_port e v r =
     (if \<not> ETHFW_IS_BIT_SET (clientIdMask v) ETHREMOTECFG_CLIENTID_AUTOSAR then Some r
      else do {
        let n = numAsrVirtPorts (gProxyServerObj (snd r));
        let s = chk_idx OobWrite n (length (ethDrvObj (gProxyServerObj (snd r)))) (snd r);
        let s = upd_asr n (\<lambda>a. a\<lparr>asrLocalEp := endPointId v, asrCoreId := vpRemoteCoreId v, asrVirtPort := portId v\<rparr>) s;
        let (status, s) = CpswProxyServer_initAutosarEthDeviceEp e n s;
        s \<leftarrow> fw_assert e (status = ETHFW_SOK) s;
        Some (status, upd_srv (\<lambda>ob. ob\<lparr>numAsrVirtPorts := Suc n\<rparr>) s)
      })"

fun init_asr_ports ::
    "env \<Rightarrow> EthFwVirtPort_VirtPortCfg list \<Rightarrow> int \<times> 'a proxy_st_scheme \<Rightarrow> (int \<times> 'a proxy_st_scheme) option" where
  "init_asr_ports e [] r = Some r"
| "init_asr_ports e (v # vs) r = do { r \<leftarrow> init_asr_port e v r; init_asr_ports e vs r }"

text \<open>The part of the initialisation once the checksum setting is known.\<close>

definition srv_services ::
    "env \<Rightarrow> CpswProxyServer_Config_t \<Rightarrow> 'a proxy_st_scheme \<Rightarrow> (int \<times> 'a proxy_st_scheme) option" where
  "srv_services e cfg s = do {
     let vs = scVirtPortCfg cfg;
     let m = flag_of e (calls s) Osal_createMutex;
     let s = upd_srv (\<lambda>ob. ob\<lparr>srvMutex := m\<rparr>) (issue Osal_createMutex s);
     let ok = flag_of e (calls s) (Osal_createSemaphore 0);
     let s = upd_client_service (\<lambda>k. k\<lparr>rpmsgStartSem := (if ok then Some 0 else None)\<rparr>) (issue (Osal_createSemaphore 0) s);
     s \<leftarrow> fw_assert e ok s;
     let s = (if length vs \<le> length (virtPortCfg (gProxyServerObj s)) then s else fault OobWrite s);
     let s = upd_srv (\<lambda>ob. ob\<lparr>numVirtPorts := length vs, numAsrVirtPorts := 0,
               virtPortCfg := take (length (virtPortCfg ob)) vs @ drop (length vs) (virtPortCfg ob)\<rparr>) s;
     s \<leftarrow> fw_assert e (length vs \<le> CPSWPROXYSERVER_REMOTE_CLIENT_VIRTPORT_MAX) s;
     (status, s) \<leftarrow> init_asr_ports e vs (ETHFW_SOK, s);
     s \<leftarrow> fw_assert e (numAsrVirtPorts (gProxyServerObj s) \<le> CPSWPROXYSERVER_AUTOSAR_REMOTE_CLIENT_MAX) s;
     let (status, s) = CpswProxyServer_initRemoteClientEthDeviceEp e s;
     s \<leftarrow> fw_assert e (status = ETHFW_SOK) s;
     let (status, s) = CpswProxyServer_initNotifyServiceEp e s;
     s \<leftarrow> fw_assert e (status = ETHFW_SOK) s;
     Some (status, upd_srv (\<lambda>ob. ob\<lparr>initDone := True\<rparr>) s)
   }"

text \<open>\<open>mcm\<close>: whether the callback gives a command interface with its two mailboxes.\<close>

definition CpswProxyServer_init ::
    "env \<Rightarrow> bool \<Rightarrow> CpswProxyServer_Config_t \<Rightarrow> 'a proxy_st_scheme \<Rightarrow> (int \<times> 'a proxy_st_scheme) option" where
  "CpswProxyServer_init e mcm cfg s = do {
     s \<leftarrow> fw_assert e (\<not> initDone (gProxyServerObj s)) s;
     let en = scEnabledPortMask cfg;
     let mo = scMacOnlyPortMask cfg;
     let s = upd_srv (\<lambda>ob. ob\<lparr>srvEnetType := scEnetType cfg, srvInstId := scInstId cfg, masterCoreId := selfCoreId e,
               coreObj := replicate (ipcMaxProcs e) (core_zero e),
               srvDfltVlanIdMacOnlyPorts := scDfltVlanIdMacOnlyPorts cfg, srvDfltVlanIdSwitchPorts := scDfltVlanIdSwitchPorts cfg,
               alePortMask := en, aleMacOnlyPortMask := mo\<rparr>) s;
     s \<leftarrow> fw_assert e (mo AND en = mo) s;
     let s = upd_srv (\<lambda>ob. ob\<lparr>aleSwitchOnlyPortMask := en AND NOT mo\<rparr>) s;
     s \<leftarrow> fw_assert e mcm s;
     let h = flag_of e (calls s) Mcm_acquireHandleInfo;
     let s = upd_srv (\<lambda>ob. ob\<lparr>hMcmCmdIf := True, srvHEnet := h\<rparr>) (issue Mcm_acquireHandleInfo s);
     let c = Ioctl (selfCoreId e) HOSTPORT_IS_CSUM_OFFLOAD_ENABLED;
     let en = flag_of e (calls s) c;
     let (status, s) = call_st e c s;
     if status = ETHFW_SOK then srv_services e cfg (upd_srv (\<lambda>ob. ob\<lparr>csumOffloadEn := en\<rparr>) s)
     else Some (ETHFW_EFAIL, s)
   }"

section \<open>Start of the remote configuration\<close>

text \<open>A virtual port as the server gets it: the configuration is cleared before, so what is not copied is 0.\<close>

definition server_port :: "u32 \<Rightarrow> EthFwVirtPort_VirtPortCfg \<Rightarrow> EthFwVirtPort_VirtPortCfg" where
  "server_port ep v = v\<lparr>endPointId := ep,
     txCh := take (unat (numTxCh v)) (txCh v) @ replicate (length (txCh v) - unat (numTxCh v)) 0,
     rxFlowsInfo := map (\<lambda>f. \<lparr>rxFlowIdxOffset = 0, customPolicersInArgs = customPolicersInArgs f\<rparr>)
         (take (unat (numRxFlow v)) (rxFlowsInfo v)) @
       replicate (length (rxFlowsInfo v) - unat (numRxFlow v)) \<lparr>rxFlowIdxOffset = 0, customPolicersInArgs = []\<rparr>\<rparr>"

fun server_ports :: "env \<Rightarrow> EthFwVirtPort_VirtPortCfg list \<Rightarrow> 'a world_scheme \<Rightarrow>
    (EthFwVirtPort_VirtPortCfg list \<times> 'a world_scheme) option" where
  "server_ports e [] s = Some ([], s)"
| "server_ports e (v # vs) s = do {
     (ep, s) \<leftarrow> (if ETHFW_IS_BIT_SET (clientIdMask v) ETHREMOTECFG_CLIENTID_AUTOSAR
                then EthFw_getRemoteEndptId e (vpRemoteCoreId v) s else Some (0, s));
     let s = (if unat (numTxCh v) \<le> length (txCh v) \<and> unat (numRxFlow v) \<le> length (rxFlowsInfo v) then s else fault OobWrite s);
     (ps, s) \<leftarrow> server_ports e vs s;
     Some (server_port ep v # ps, s)
   }"

definition EthFw_initRemoteConfig :: "env \<Rightarrow> bool \<Rightarrow> 'a fw_st_scheme \<Rightarrow> (int \<times> 'a fw_st_scheme) option" where
  "EthFw_initRemoteConfig e hEthFw s = do {
     s \<leftarrow> fw_assert e hEthFw s;
     let ob = gEthFwObj s;
     (vs, s) \<leftarrow> server_ports e (take (fwNumVirtPorts ob) (fwVirtPortCfg ob)) s;
     (status, s) \<leftarrow> CpswProxyServer_init e (mcmCmdIf ob)
        \<lparr>scEnetType = fwEnetType ob, scInstId = fwInstId ob, scVirtPortCfg = vs,
         scDfltVlanIdMacOnlyPorts = fwDfltVlanIdMacOnlyPorts ob, scDfltVlanIdSwitchPorts = fwDfltVlanIdSwitchPorts ob,
         scEnabledPortMask = enabledPortMask ob, scMacOnlyPortMask = macOnlyPortMask ob\<rparr> s;
     Some (status, if status = ETHFW_SOK then EthFw_setStatus ETHREMOTECFG_SERVERSTATUS_READY s else s)
   }"

text \<open>Waiting for a semaphore that is not posted again is \<open>None\<close>.\<close>

definition CpswProxyServer_lateAnnounce :: "env \<Rightarrow> u32 \<Rightarrow> 'a proxy_st_scheme \<Rightarrow> (int \<times> 'a proxy_st_scheme) option" where
  "CpswProxyServer_lateAnnounce e procId s =
     (case rpmsgStartSem (clientServiceObj (gProxyServerObj s)) of
        None \<Rightarrow> Some (call_st e (Ipc_announce procId (csLocalEp (clientServiceObj (gProxyServerObj s)))) (fault UninitPtr s))
      | Some 0 \<Rightarrow> None
      | Some (Suc n) \<Rightarrow>
          (let s = upd_client_service (\<lambda>k. k\<lparr>rpmsgStartSem := Some n\<rparr>) (issue Osal_pendSemaphore s)
           in Some (call_st e (Ipc_announce procId (csLocalEp (clientServiceObj (gProxyServerObj s)))) s)))"

definition EthFw_lateAnnounce :: "env \<Rightarrow> bool \<Rightarrow> u32 \<Rightarrow> 'a proxy_st_scheme \<Rightarrow> (int \<times> 'a proxy_st_scheme) option" where
  "EthFw_lateAnnounce e hEthFw procId s = do { s \<leftarrow> fw_assert e hEthFw s; CpswProxyServer_lateAnnounce e procId s }"

section \<open>The receiving tasks\<close>

text \<open>
  What \<^verbatim>\<open>EthFwIpc_recvRpmsg\<close> gives: its status, the type of the message, and the client, core, end point
  and request; the tasks go through the messages in order.
\<close>

type_synonym rpmsg = "int \<times> u32 \<times> u8 \<times> u32 \<times> u32 \<times> EthRemoteCfg_Req"

definition recv_msg :: "env \<Rightarrow> u32 \<Rightarrow> rpmsg \<Rightarrow> 'a proxy_st_scheme \<Rightarrow> 'a proxy_st_scheme" where
  "recv_msg e localEp = (\<lambda>(rtnVal, msgType, clId, proc, ep, req) s.
     if rtnVal = ETHFW_SOK \<and> msgType = ETHREMOTECFG_MSGTYPE_REQUEST
     then snd (CpswProxyServer_clientRequestHandler e clId proc ep localEp req s) else s)"

definition CpswProxyServer_remoteClientEthDriverTaskFxn :: "env \<Rightarrow> rpmsg list \<Rightarrow> 'a proxy_st_scheme \<Rightarrow> 'a proxy_st_scheme" where
  "CpswProxyServer_remoteClientEthDriverTaskFxn e msgs s =
     (let localEp = csLocalEp (clientServiceObj (gProxyServerObj s));
          (rtnVal, s) = call_st e (Ipc_announceAll localEp) s
      in if rtnVal \<noteq> ETHFW_SOK then s else fold (recv_msg e localEp) msgs s)"

text \<open>The AUTOSAR task asserts that every message is from the end point it has located.\<close>

fun asr_recv :: "env \<Rightarrow> u32 \<Rightarrow> u32 \<Rightarrow> u32 \<Rightarrow> rpmsg list \<Rightarrow> 'a proxy_st_scheme \<Rightarrow> 'a proxy_st_scheme option" where
  "asr_recv e localEp remoteProc remoteEp [] s = Some s"
| "asr_recv e localEp remoteProc remoteEp (m # ms) s = do {
     let (rtnVal, msgType, clId, proc, ep, req) = m;
     s \<leftarrow> fw_assert e (rtnVal = ETHFW_SOK \<longrightarrow> ep = remoteEp \<and> remoteProc = proc) s;
     asr_recv e localEp remoteProc remoteEp ms (recv_msg e localEp m s)
   }"

definition CpswProxyServer_autosarEthDriverTaskFxn ::
    "env \<Rightarrow> nat \<Rightarrow> rpmsg list \<Rightarrow> 'a fw_st_scheme \<Rightarrow> 'a fw_st_scheme option" where
  "CpswProxyServer_autosarEthDriverTaskFxn e clientNum msgs s = do {
     let a = ethDrvObj (gProxyServerObj s) ! clientNum;
     let c = Ipc_getRemoteEndPt (asrCoreId a);
     let remoteProc = word_of e (calls s) c 0;
     let remoteEp = word_of e (calls s) c 1;
     let (rtnVal, s) = call_st e c s;
     if rtnVal \<noteq> ETHFW_SOK then Some s
     else do {
       let (rtnVal, s) = call_st e (Ipc_sendDeviceData remoteProc remoteEp (asrLocalEp a) (permissionFlags (EthFw_getDeviceData (gEthFwObj s)))) s;
       s \<leftarrow> fw_assert e (rtnVal = ETHFW_SOK) s;
       asr_recv e (asrLocalEp a) remoteProc remoteEp msgs s
     }
   }"

text \<open>The callback of the time stamp unit.\<close>

definition CpswProxyServer_hwPushNotifyFxn :: "env \<Rightarrow> bool \<Rightarrow> u32 \<Rightarrow> 'a proxy_st_scheme \<Rightarrow> 'a proxy_st_scheme" where
  "CpswProxyServer_hwPushNotifyFxn e arg hwPushNum s =
     (if arg
      then (let ids = hwPushNotifyEventId (notifyServiceObj (gProxyServerObj s)); k = unat (hwPushNorm e hwPushNum) in
            if k < length ids then issue (Osal_postEvent (ids ! k)) s else fault OobRead s)
      else s)"

end
