(* ===== verification/Boot.thy ===== *)
theory Boot
  imports ServerStart
begin

text \<open>
  What the start of the firmware establishes: an idle server, from which the invariants of the request
  handler hold; the partition of the resources; the separation of MAC-only and switch ports.
\<close>

section \<open>No core is attached at the start\<close>

definition att :: "'a world_scheme \<Rightarrow> nat \<Rightarrow> bool" where
  "att s = (\<lambda>k. mcm_attached k (calls s))"

lemma att_issue [simp]: "\<not> is_mcm c \<Longrightarrow> att (issue c s) = att s"
  by (simp add: att_def)

lemma att_fault [simp]: "att (fault f s) = att s"
  by (simp add: att_def)

lemma att_chk [simp]: "att (chk_idx f i n s) = att s"
  by (simp add: att_def)

lemma att_fields [simp]:
  "att (s\<lparr>gEthFwArpObj := a\<rparr>) = att s" "att (u\<lparr>gEthFwVepaObj := v\<rparr>) = att u" "att (m\<lparr>gEthFwMcastObj := w\<rparr>) = att m"
  "att (l\<lparr>gEthFwVlanObj := x\<rparr>) = att l" "att (p\<lparr>gProxyServerObj := y\<rparr>) = att p" "att (p\<lparr>serverStatus := z\<rparr>) = att p"
  "att (n\<lparr>gEthFwMonObj := b\<rparr>) = att n" "att (f\<lparr>gEthFwObj := c\<rparr>) = att f" "att (f\<lparr>gEthFw_rmResPrms := d\<rparr>) = att f"
  "att (f\<lparr>gEthFwIETObj := g\<rparr>) = att f"
  by (simp_all add: att_def)

lemma att_upd [simp]:
  "att (upd_fw h s) = att s" "att (upd_rm k s) = att s" "att (upd_mon l t) = att t" "att (upd_srv m u) = att u"
  "att (upd_asr n j u) = att u" "att (upd_client_service o' u) = att u" "att (upd_notify_service p u) = att u"
  by (simp_all add: upd_fw_def upd_rm_def upd_mon_def upd_srv_def upd_asr_def upd_client_service_def upd_notify_service_def)

lemma att_thenOK: "att (snd r) = a \<Longrightarrow> (\<And>s. att (snd (f s)) = att s) \<Longrightarrow> att (snd (thenOK r f)) = a"
  by (simp add: thenOK_def)

lemma att_whenOK: "whenOK r f = Some r' \<Longrightarrow> (\<And>s r'. f s = Some r' \<Longrightarrow> att (snd r') = att s) \<Longrightarrow> att (snd r') = att (snd r)"
  by (cases r) (auto simp: whenOK_def split: if_splits)

lemma att_assert: "fw_assert e b s = Some s' \<Longrightarrow> s' = s"
  by (auto simp: fw_assert_def split: if_splits)

lemma att_fold: "(\<And>x s. att (f x s) = att s) \<Longrightarrow> att (fold f xs s) = att s"
  by (induction xs arbitrary: s) simp_all

lemma att_components:
  "att (snd (EthFwMcast_init e mc a b m)) = att m" "att (snd (EthFwArp_init e s)) = att s" "att (snd (EthFwVepa_init e pv u)) = att u"
  "att (snd (EthFwMon_init e moc np n)) = att n" "att (snd (EthFw_setAleBcastEntry e f)) = att f"
  "att (snd (EthFw_setDscpPriorityMapRegisters e f)) = att f" "att (snd (EthFwPortMirroring_init e pm s')) = att s'"
  by (simp_all add: EthFwMcast_init_def EthFwArp_init_def EthFwVepa_init_def EthFwMon_init_def EthFw_setAleBcastEntry_def
      EthFw_setDscpPriorityMapRegisters_def EthFwPortMirroring_init_def EthFwPortMirroring_addSrcPortMirror_def
      EthFwPortMirroring_addDestPortMirror_def EthFwPortMirroring_addTblEntryPortMirror_def EthFwPortMirroring_disablePortMirror_def
      Let_def case_prod_beta split: option.splits EthFwPortMirroring_Cfg.splits)

lemma att_vlan_init: "att (snd (EthFwVlan_init e cfg l)) = att l"
proof -
  have "att (snd (vlan_setup_loop e vs r)) = att (snd r)" for vs and r :: "int \<times> 'a vlan_st_scheme"
    by (induction vs arbitrary: r) (auto simp: vlan_setup_loop_def setup_no_host_def EthFwVlan_setupVlan_def Let_def split: prod.splits)
  moreover have "att (chk_vlans l) = att l" for l :: "'a vlan_st_scheme" by (simp add: chk_vlans_def)
  ultimately show ?thesis by (simp add: EthFwVlan_init_def Let_def case_prod_beta)
qed

lemma att_startTask: "EthFwMon_startTask e n = Some r \<Longrightarrow> att (snd r) = att n"
  by (auto simp: EthFwMon_startTask_def mon_alloc_failed_def Let_def split: if_splits)

lemma att_then [simp]: "(\<And>s. att (snd (f s)) = att s) \<Longrightarrow> att (snd (thenOK r f)) = att (snd r)"
  by (rule att_thenOK) simp_all

lemma att_setupVlan: "att (snd (EthFw_setupVlan e config f)) = att f"
  by (simp add: EthFw_setupVlan_def Let_def att_vlan_init)

lemma att_fw_start:
  assumes "fw_start e config r = Some r'"
  shows "att (snd r') = att (snd r)"
proof (cases "monitorSupport e")
  case True
  from assms [unfolded fw_start_def Let_def] True show ?thesis
    by simp (drule att_whenOK, erule att_startTask, simp add: att_components att_setupVlan)
next
  case False
  from assms [unfolded fw_start_def Let_def] False show ?thesis
    by (auto simp: att_components att_setupVlan)
qed

lemma att_add_port: "att (add_port_rm e i s) = att s"
  by (simp add: add_port_rm_def EthFw_setTxChRmInfo_def Let_def)

lemma att_updateRm: "EthFw_updateEnetRm e s = Some s' \<Longrightarrow> att s' = att s"
  unfolding EthFw_updateEnetRm_def Let_def by (drule att_assert) (simp add: att_fold att_add_port)

lemma att_ports: "att (snd (EthFw_getDfltVlanId config f)) = att f" "att (snd (EthFw_getPortConfig e config f)) = att f"
  "att (EthFw_setPortVlan e f) = att f" "att (EthFw_setPortMode e f) = att f" "att (fw_identify e t i f) = att f"
  by (simp_all add: EthFw_getDfltVlanId_def EthFw_getPortConfig_def EthFw_setPortVlan_def EthFw_setPortMode_def fw_identify_def
      upd_ale_port_def att_fold Let_def)

lemma att_initMcm: "EthFw_initMcm e s = Some r \<Longrightarrow> att (snd r) = att s"
  by (auto simp: EthFw_initMcm_def fw_assert_def Let_def call_st_def bind_eq_Some_conv split: if_splits)

lemma att_configure:
  assumes "fw_configure e t i config s = Some r"
  shows "att (snd r) = att s"
proof -
  let ?r0 = "thenOK (EthFw_getDfltVlanId config ((upd_fw (\<lambda>_. (fw_zero e)\<lparr>cpswCfg := cfCpswCfg config\<rparr>) s)
      \<lparr>serverStatus := ETHREMOTECFG_SERVERSTATUS_UNINIT\<rparr>)) (EthFw_getPortConfig e config)"
  from assms obtain r1 where r1: "whenOK ?r0 (\<lambda>s. EthFw_updateEnetRm e (EthFw_setPortMode e (EthFw_setPortVlan e s)) \<bind>
        (\<lambda>s. Some (ETHFW_SOK, fw_identify e t i s))) = Some r1"
      "whenOK r1 (\<lambda>s. EthFw_initMcm e s \<bind> (\<lambda>(status, s). fw_assert e (status = ETHFW_SOK) s \<bind> (\<lambda>s. Some (status, s)))) = Some r"
    by (auto simp: fw_configure_def Let_def bind_eq_Some_conv)
  have "att (snd ?r0) = att s" by (simp add: att_ports)
  moreover have "att (snd r1) = att (snd ?r0)"
    using r1(1) by (rule att_whenOK) (auto simp: bind_eq_Some_conv att_ports dest!: att_updateRm)
  moreover have "att (snd r) = att (snd r1)"
    using r1(2) by (rule att_whenOK) (auto simp: bind_eq_Some_conv dest!: att_assert att_initMcm)
  ultimately show ?thesis by simp
qed

lemma att_init:
  assumes "EthFw_init e t i config s = Some (ok, s')"
  shows "att s' = att s"
  using assms by (auto simp: EthFw_init_def bind_eq_Some_conv dest!: att_assert att_configure att_fw_start)

section \<open>The server is idle\<close>

lemma srv_sig_upd_srv:
  "(\<And>ob. coreObj (f ob) = coreObj ob \<and> initDone (f ob) = initDone ob \<and> hMcmCmdIf (f ob) = hMcmCmdIf ob) \<Longrightarrow> srv_sig (upd_srv f s) = srv_sig s"
  by (simp add: srv_sig_def upd_srv_def)

lemma sig_upds [simp]:
  "srv_sig (upd_asr n j s) = srv_sig s" "srv_sig (upd_client_service o' s) = srv_sig s" "srv_sig (upd_notify_service p s) = srv_sig s"
  by (simp_all add: upd_asr_def upd_client_service_def upd_notify_service_def srv_sig_upd_srv)

lemma sig_chk [simp]: "srv_sig (chk_idx f i n s) = srv_sig s"
  by (simp add: chk_idx_def)

lemma sig_eps:
  "srv_sig (snd (CpswProxyServer_initAutosarEthDeviceEp e n s)) = srv_sig s"
  "srv_sig (snd (CpswProxyServer_initRemoteClientEthDeviceEp e s)) = srv_sig s"
  "srv_sig (snd (CpswProxyServer_initNotifyServiceEp e s)) = srv_sig s"
  by (simp_all add: CpswProxyServer_initAutosarEthDeviceEp_def CpswProxyServer_initRemoteClientEthDeviceEp_def
      CpswProxyServer_initNotifyServiceEp_def Let_def thenOK_def case_prod_beta)

lemma sig_asr_ports:
  "init_asr_ports e vs r = Some r' \<Longrightarrow> srv_sig (snd r') = srv_sig (snd r)"
proof (induction vs arbitrary: r)
  case (Cons v vs)
  then obtain r1 where r1: "init_asr_port e v r = Some r1" "init_asr_ports e vs r1 = Some r'" by (auto simp: bind_eq_Some_conv)
  have "srv_sig (snd r1) = srv_sig (snd r)"
    using r1(1) by (auto simp: sig_eps(1) init_asr_port_def Let_def bind_eq_Some_conv srv_sig_upd_srv case_prod_beta split: if_splits dest!: att_assert)
  with Cons.IH [OF r1(2)] show ?case by simp
qed simp

lemma sig_services:
  assumes "srv_services e cfg s = Some r"
  shows "srv_sig (snd r) = (case srv_sig s of (cs, i, m, a) \<Rightarrow> (cs, True, m, a))"
proof -
  let ?s = "upd_srv (\<lambda>ob. ob\<lparr>initDone := True\<rparr>)"
  have i: "srv_sig (?s t) = (case srv_sig t of (cs, i, m, a) \<Rightarrow> (cs, True, m, a))" for t :: "'a proxy_st_scheme"
    by (simp add: srv_sig_def upd_srv_def)
  from assms show ?thesis
    unfolding srv_services_def Let_def
    by (auto simp: bind_eq_Some_conv case_prod_beta sig_eps srv_sig_upd_srv i dest!: att_assert sig_asr_ports split: if_splits)
qed

lemma mcm_attached_two: "\<not> is_mcm c \<Longrightarrow> \<not> is_mcm d \<Longrightarrow> mcm_attached k (cs @ [c, d]) = mcm_attached k cs"
  using mcm_attached_simps [of k "cs @ [c]" d] by simp

lemma server_init_sig:
  assumes "CpswProxyServer_init e mcm cfg s = Some (ETHFW_SOK, s')"
  shows "srv_sig s' = (replicate (ipcMaxProcs e) (core_sig (core_zero e)), True, True, att s)"
  using assms unfolding CpswProxyServer_init_def Let_def
  by (auto simp: bind_eq_Some_conv case_prod_beta upd_srv_def srv_sig_def att_def mcm_attached_two dest!: att_assert sig_services split: if_splits)

lemma idle_of_sig:
  "srv_sig s = (replicate n (core_sig (core_zero e)), True, True, \<lambda>_. False) \<Longrightarrow> server_idle n s"
proof -
  assume a: "srv_sig s = (replicate n (core_sig (core_zero e)), True, True, \<lambda>_. False)"
  then have m: "map core_sig (coreObj (gProxyServerObj s)) = replicate n (core_sig (core_zero e))" by (simp add: srv_sig_def)
  then have l: "length (coreObj (gProxyServerObj s)) = n" by (metis length_map length_replicate)
  have "core_sig c = (0, replicate CPSWPROXYSERVER_VIRTPORT_PER_CLIENT_MAX False)" if "c \<in> set (coreObj (gProxyServerObj s))" for c
  proof -
    from that have "core_sig c \<in> set (replicate n (core_sig (core_zero e)))" unfolding m [symmetric] by simp
    then show ?thesis by (simp add: core_sig_def core_zero_def client_zero_def)
  qed
  then have "rmRefCnt c = 0 \<and> (\<forall>x\<in>set (clientObj c). \<not> inUse x)" if "c \<in> set (coreObj (gProxyServerObj s))" for c
    using that by (metis core_sig_def fst_conv snd_conv image_eqI in_set_replicate list.set_map)
  with a l show ?thesis by (auto simp: srv_sig_def server_idle_def fun_eq_iff)
qed

lemma server_ports_faults:
  "server_ports e vs s = Some (ps, s') \<Longrightarrow> att s' = att s \<and> length ps = length vs"
proof (induction vs arbitrary: s ps s')
  case (Cons v vs)
  then show ?case
    by (auto simp: bind_eq_Some_conv EthFw_getRemoteEndptId_def Let_def split: if_splits option.splits dest!: att_assert)
qed simp

lemma remote_config_idle:
  assumes "EthFw_initRemoteConfig e h s = Some (ETHFW_SOK, s')" "\<forall>k. \<not> att s k"
  shows "server_idle (ipcMaxProcs e) s'" "serverStatus s' = ETHREMOTECFG_SERVERSTATUS_READY"
proof -
  from assms(1) obtain vs s1 cfg s2 where r: "att s1 = att s" "CpswProxyServer_init e (mcmCmdIf (gEthFwObj s)) cfg s1 = Some (ETHFW_SOK, s2)"
      "s' = EthFw_setStatus ETHREMOTECFG_SERVERSTATUS_READY s2"
    by (auto simp: EthFw_initRemoteConfig_def Let_def bind_eq_Some_conv dest!: att_assert server_ports_faults)
  from r(1) assms(2) have "att s1 = (\<lambda>_. False)" by auto
  with server_init_sig [OF r(2)] have "server_idle (ipcMaxProcs e) s2" by (intro idle_of_sig [of _ _ e]) simp
  then show "server_idle (ipcMaxProcs e) s'" by (simp add: server_idle_def r(3) EthFw_setStatus_def)
  show "serverStatus s' = ETHREMOTECFG_SERVERSTATUS_READY" by (simp add: r(3) EthFw_setStatus_def)
qed

text \<open>The task serves the requests among the messages.\<close>

definition requests :: "u32 \<Rightarrow> rpmsg list \<Rightarrow> request list" where
  "requests localEp ms = map (\<lambda>(rtnVal, msgType, clId, proc, ep, req). (clId, proc, ep, localEp, req))
     (filter (\<lambda>m. fst m = ETHFW_SOK \<and> fst (snd m) = ETHREMOTECFG_MSGTYPE_REQUEST) ms)"

lemma recv_serve: "fold (recv_msg e localEp) ms s = fold (serve e) (requests localEp ms) s"
  by (induction ms arbitrary: s) (auto simp: requests_def recv_msg_def serve_def)

lemma task_inv:
  assumes "server_idle n s" "\<forall>m\<in>set ms. unat (fst (snd (snd (snd m)))) < n"
  shows "sig_inv n (srv_sig (CpswProxyServer_remoteClientEthDriverTaskFxn e ms s))"
proof -
  let ?s = "issue (Ipc_announceAll (csLocalEp (clientServiceObj (gProxyServerObj s)))) s"
  have "sig_inv n (srv_sig ?s)" using server_idle_inv [OF assms(1)] by simp
  moreover have "\<forall>r\<in>set (requests localEp ms). unat (rq_core r) < n" for localEp
    using assms(2) by (auto simp: requests_def)
  ultimately show ?thesis
    by (simp add: CpswProxyServer_remoteClientEthDriverTaskFxn_def Let_def call_st_def recv_serve serve_inv)
qed

lemma sig_inv_balance:
  assumes "sig_inv n (srv_sig s)" "k < n"
  shows "let c = coreObj (gProxyServerObj s) ! k in rmRefCnt c = int (in_use c) \<and> (mcm_attached k (calls s) \<longleftrightarrow> in_use c \<noteq> 0)"
proof -
  have "in_use c = length (filter id (map inUse (clientObj c)))" for c :: CpswProxyServer_RemoteCoreObj
    by (simp add: in_use_def filter_map comp_def)
  then show ?thesis using assms by (auto simp: sig_inv_def srv_sig_def core_sig_def Let_def)
qed

text \<open>
  Property C6.  Once both initialisations have succeeded the status is READY, and whatever messages the
  receiving task then gets, and whatever the resource manager and the drivers answer, the reference
  count of a core is the number of its client objects in use, and the manager holds the core attached
  exactly while there is one.
\<close>

theorem boot_serves:
  assumes "EthFw_init e enetType instId config s0 = Some (True, s1)" "EthFw_initRemoteConfig e True s1 = Some (ETHFW_SOK, s2)"
    and "\<forall>k. \<not> mcm_attached k (calls s0)" "\<forall>m\<in>set msgs. unat (fst (snd (snd (snd m)))) < ipcMaxProcs e" "k < ipcMaxProcs e"
  shows "EthFw_getStatus s2 = ETHREMOTECFG_SERVERSTATUS_READY \<and>
    (let s = CpswProxyServer_remoteClientEthDriverTaskFxn e msgs s2; c = coreObj (gProxyServerObj s) ! k
     in rmRefCnt c = int (in_use c) \<and> (mcm_attached k (calls s) \<longleftrightarrow> in_use c \<noteq> 0))"
proof -
  have "\<forall>k. \<not> att s1 k" using assms(3) att_init [OF assms(1)] by (simp add: att_def)
  note b = remote_config_idle [OF assms(2) this]
  show ?thesis
    using sig_inv_balance [OF task_inv [OF b(1) assms(4)] assms(5)] b(2) unfolding Let_def EthFw_getStatus_def by blast
qed

section \<open>A concrete start\<close>

text \<open>Three MAC ports, one of them given to core 1 as a MAC port; a switch port for core 4, which runs AUTOSAR.\<close>

definition boot_ports :: "EthFwVirtPort_VirtPortCfg list" where
  "boot_ports =
     [\<lparr>portId = 25, vpRemoteCoreId = 4, numTxCh = 2, txCh = [4, 5, 0, 0, 0, 0, 0, 0], numRxFlow = 1, rxFlowsInfo = [flow_free, flow_free],
       clientIdMask = ETHFW_BIT ETHREMOTECFG_CLIENTID_AUTOSAR, endPointId = 0, vpNumMacAddress = 1\<rparr>,
      \<lparr>portId = 1, vpRemoteCoreId = 1, numTxCh = 1, txCh = [6, 0, 0, 0, 0, 0, 0, 0], numRxFlow = 1, rxFlowsInfo = [flow_free, flow_free],
       clientIdMask = 4, endPointId = 0, vpNumMacAddress = 1\<rparr>]"

definition ale_port_zero :: CpswAle_PortCfg where
  "ale_port_zero = \<lparr>macOnlyCafEn = False, macOnlyEn = False, noLearn = False, noSaUpdateEn = False, dropUntagged = False,
     dropDoubleVlan = False, dropDualVlan = False, pvTagType = 0, pvVlanId = 0, pvMembers = 0, pvRegMcastFlood = 0,
     pvUnregMcastFlood = 0, pvForceUntagged = 0, pvNoLearn = 0, pvIngressCheck = False, pvLimitIPNxtHdr = False,
     pvDisallowIPFrag = False\<rparr>"

definition boot_cfg :: EthFw_Config where
  "boot_cfg = \<lparr>cfCpswCfg = cpsw_zero\<lparr>alePortCfg := replicate 9 ale_port_zero, numMacList := 4\<rparr>, cfDma = True,
     cfPorts = Some [0, 1, 2], cfVirtPortCfg = boot_ports, cfVlanCfg = [], cfDefaultPortMask = 6, cfDefaultVirtPortMask = 0,
     cfDVlanSwtFwdEn = False,
     cfMcastCfg = \<lparr>cfgShared = [], cfgAddCb = False, cfgDelCb = False, cfgRsvd = []\<rparr>,
     cfDfltVlanIdMacOnlyPorts = 0, cfDfltVlanIdSwitchPorts = 3, cfSetPortCfg = True, cfVepaCfg = replicate 29 0,
     cfIetCfg = \<lparr>minFragSize = 0, mac_verify_enable = False, queueMode = replicate 8 0\<rparr>, cfMonitorCfg = EthFwMon_initCfg,
     cfIsStaticTxChanAllocated = True, cfPassErrPkt = False, cfPortMirCfg = Some DISABLE_PORT_MIRRORING\<rparr>"

definition server_zero :: "env \<Rightarrow> CpswProxyServer_Obj" where
  "server_zero e =
     \<lparr>initDone = False, hMcmCmdIf = False, ethDrvObj = replicate CPSWPROXYSERVER_AUTOSAR_REMOTE_CLIENT_MAX asr_zero,
      clientServiceObj = \<lparr>csHandle = False, csLocalEp = 0, rpmsgStartSem = None, csTask = False\<rparr>,
      notifyServiceObj = \<lparr>hwPush2CoreIdMap = replicate (hwPushMax e) 0, dstProcMask = 0, nsLocalEp = 0, nsHandle = False,
        nsEvent = False, hwPushNotifyEventId = replicate (hwPushMax e) 0, nsTask = False\<rparr>,
      srvDfltVlanIdMacOnlyPorts = 0, srvDfltVlanIdSwitchPorts = 0, coreObj = replicate (ipcMaxProcs e) (core_zero e),
      csumOffloadEn = False, virtPortCfg = replicate CPSWPROXYSERVER_REMOTE_CLIENT_VIRTPORT_MAX (vport_zero e), numVirtPorts = 0,
      srvEnetType = 0, srvInstId = 0, masterCoreId = 0, alePortMask = 0, aleMacOnlyPortMask = 0, aleSwitchOnlyPortMask = 0,
      srvHEnet = False, srvMutex = False, numAsrVirtPorts = 0\<rparr>"

definition boot_mem :: fw_st where
  "boot_mem = \<lparr>calls = [], faults = [], gEthFwArpObj = gEthFwArpObj arp_demo, gEthFwVepaObj = gEthFwVepaObj vepa_demo2,
     gEthFwMcastObj = mcast_zero, gEthFwVlanObj = vlan_zero, gProxyServerObj = server_zero ok_env, serverStatus = 0,
     gEthFwMonObj = \<lparr>monCoreId = 0, monNumPorts = 0, recoveryEn = False, monitor = EthFwMon_initCfg, monStats = replicate 9 (stats_zero ok_env),
       hMonitorClock = False, hMonitorSem = False, hMonitorTask = False, monitorTaskRun = False\<rparr>,
     gEthFwObj = fw_zero ok_env, gEthFw_rmResPrms = rm_initial ok_env, gEthFwIETObj = iet_zero\<rparr>"

end
