(* ===== verification/BootOutcome.thy ===== *)
theory BootOutcome
  imports Boot
begin

text \<open>
  When the start of the firmware succeeds: with a driver and an operating system that accept every call,
  the loops of \<open>EthFw_init\<close> are followed for any configuration, and the outcome is the conjunction
  of the range checks of the components (\<open>ports_ok\<close>, \<open>mirror_ok\<close>, \<open>static_vlans_ok\<close>), and of the check of the
  multicast configuration where its status is not overwritten (\<open>mcast_noticed\<close>).
\<close>

section \<open>When a handle is returned\<close>

text \<open>A driver and an operating system that accept every call.\<close>

definition accepts :: "env \<Rightarrow> bool" where
  "accepts e \<longleftrightarrow> (\<forall>h c. status_of e h c = ETHFW_SOK) \<and> (\<forall>h c. flag_of e h c)"

lemma acceptsD: "accepts e \<Longrightarrow> status_of e h c = ETHFW_SOK" "accepts e \<Longrightarrow> flag_of e h c"
  by (simp_all add: accepts_def)

definition ports_ok :: "env \<Rightarrow> EthFw_Config \<Rightarrow> u32 list \<Rightarrow> bool" where
  "ports_ok e config ps \<longleftrightarrow> ucast (cfDfltVlanIdMacOnlyPorts config) \<le> ETHFW_VLAN_ID_MAX \<and>
     ucast (cfDfltVlanIdSwitchPorts config) \<le> ETHFW_VLAN_ID_MAX \<and> cfDfltVlanIdMacOnlyPorts config \<noteq> cfDfltVlanIdSwitchPorts config \<and>
     cfSetPortCfg config \<and> length ps \<le> ETHFW_MAC_PORT_MAX e \<and> length (cfVirtPortCfg config) \<le> ETHFW_REMOTE_CLIENT_MAX"

definition mirror_ok :: "EthFw_Config \<Rightarrow> bool" where
  "mirror_ok config \<longleftrightarrow> (case cfPortMirCfg config of None \<Rightarrow> False | Some (MIRRORING_TYPE_UNKNOWN n) \<Rightarrow> False | _ \<Rightarrow> True)"

text \<open>What the static VLANs are checked against.\<close>

definition vlan_cfg_of :: "EthFw_Config \<Rightarrow> EthFw_Obj \<Rightarrow> EthFwVlan_Cfg" where
  "vlan_cfg_of config ob = \<lparr>vcVlans = cfVlanCfg config, dfltVlanIdSwitchPorts = ucast (fwDfltVlanIdSwitchPorts ob),
     dfltVlanIdMacOnlyPorts = ucast (fwDfltVlanIdMacOnlyPorts ob), vcSwitchPortMask = switchPortMask ob,
     vcMacOnlyPortMask = macOnlyPortMask ob, vcDefaultPortMask = cfDefaultPortMask config,
     vcDefaultVirtPortMask = cfDefaultVirtPortMask config, vcDVlanSwtFwdEn = cfDVlanSwtFwdEn config\<rparr>"

definition static_vlans_ok :: "env \<Rightarrow> EthFw_Config \<Rightarrow> u32 list \<Rightarrow> bool" where
  "static_vlans_ok e config ps \<longleftrightarrow> (let mo = mac_mask e (virt_mac_ports e (cfVirtPortCfg config)) in
     length (cfVlanCfg config) \<le> ETHFWVLAN_VLANS_MAX \<and>
     (\<forall>c\<in>set (cfVlanCfg config). vlan_cfg_ok \<lparr>vcVlans = cfVlanCfg config, dfltVlanIdSwitchPorts = ucast (cfDfltVlanIdSwitchPorts config),
        dfltVlanIdMacOnlyPorts = ucast (cfDfltVlanIdMacOnlyPorts config), vcSwitchPortMask = mac_mask e ps AND NOT mo,
        vcMacOnlyPortMask = mo, vcDefaultPortMask = cfDefaultPortMask config, vcDefaultVirtPortMask = cfDefaultVirtPortMask config,
        vcDVlanSwtFwdEn = cfDVlanSwtFwdEn config\<rparr> c))"

text \<open>
  The status of the multicast check is overwritten in every build with VEPA or the monitor.
\<close>

definition mcast_noticed :: "env \<Rightarrow> EthFw_Config \<Rightarrow> bool" where
  "mcast_noticed e config \<longleftrightarrow> monitorSupport e \<or> vepaSupport e \<or> mcast_cfg_ok e (cfMcastCfg config)"

lemma mcast_outcome: "fst (EthFwMcast_init e cfg sw mo s) = ETHFW_SOK \<longleftrightarrow> mcast_cfg_ok e cfg"
proof -
  have st: "fst (EthFwMcast_init e cfg sw mo s) =
      fst (thenOK (EthFwMcast_getSharedMcastCfg e cfg mcast_zero) (EthFwMcast_getRsvdMcastCfg e cfg))"
    by (simp add: EthFwMcast_init_def Let_def split: prod.split)
  let ?sh = "length (cfgShared cfg) \<le> ETHFW_SHARED_MCAST_LIST_LEN \<and> (\<forall>c\<in>set (cfgShared cfg). isMcastAddr e (cfgMacAddr c))"
  let ?rs = "length (cfgRsvd cfg) \<le> ETHFW_RSVD_MCAST_LIST_LEN \<and> (\<forall>c\<in>set (cfgRsvd cfg). isMcastAddr e (rsMacAddr c))"
  have split: "mcast_cfg_ok e cfg \<longleftrightarrow> ?sh \<and> ?rs" by (auto simp: mcast_cfg_ok_def)
  show ?thesis
  proof (cases ?sh)
    case False
    from getShared_bad [OF False] show ?thesis unfolding st split using False by (auto simp: thenOK_def)
  next
    case True
    note ok = getShared_ok [OF conjunct1 [OF True] conjunct2 [OF True], unfolded Let_def]
    show ?thesis
    proof (cases ?rs)
      case False
      from getRsvd_bad [OF this] show ?thesis unfolding st split using ok False by (auto simp: thenOK_def)
    next
      case rs: True
      have "fst (EthFwMcast_getRsvdMcastCfg e cfg (snd (EthFwMcast_getSharedMcastCfg e cfg mcast_zero))) = ETHFW_SOK"
        by (rule conjunct1 [OF getRsvd_ok]) (use ok rs in simp_all)
      then show ?thesis unfolding st split using ok True rs by (simp add: thenOK_def)
    qed
  qed
qed

text \<open>The parts of the state the checks depend on.\<close>

definition fw_view :: "'a fw_st_scheme \<Rightarrow> EthFw_Obj \<times> EthFwVlan_Obj" where
  "fw_view s = (gEthFwObj s, gEthFwVlanObj s)"

lemma view_upd [simp]:
  "fw_view (issue c s) = fw_view s" "fw_view (fault f s) = fw_view s" "fw_view (chk_idx f i n s) = fw_view s" "fw_view (upd_rm k s) = fw_view s"
  "fw_view (upd_mon l s) = fw_view s" "fw_view (upd_fw h s) = (h (gEthFwObj s), gEthFwVlanObj s)"
  "fw_view (s\<lparr>serverStatus := z\<rparr>) = fw_view s" "fw_view (s\<lparr>gEthFwIETObj := g\<rparr>) = fw_view s"
  by (simp_all add: fw_view_def upd_fw_def upd_rm_def upd_mon_def issue_def fault_def chk_idx_def)

lemma view_components:
  "fw_view (snd (EthFwMcast_init e mc a b s)) = fw_view s" "fw_view (snd (EthFwArp_init e s)) = fw_view s"
  "fw_view (snd (EthFwVepa_init e pv s)) = fw_view s" "fw_view (snd (EthFwMon_init e moc np s)) = fw_view s"
  "fw_view (snd (EthFw_setAleBcastEntry e s)) = fw_view s" "fw_view (snd (EthFwPortMirroring_init e pm s)) = fw_view s"
  by (simp_all add: EthFwMcast_init_def EthFwArp_init_def EthFwVepa_init_def EthFwMon_init_def EthFw_setAleBcastEntry_def
      EthFwPortMirroring_init_def EthFwPortMirroring_addSrcPortMirror_def EthFwPortMirroring_addDestPortMirror_def
      EthFwPortMirroring_addTblEntryPortMirror_def EthFwPortMirroring_disablePortMirror_def Let_def case_prod_beta
      split: option.splits EthFwPortMirroring_Cfg.splits) (simp_all add: fw_view_def issue_def)

lemma view_then: "(\<And>s. fw_view (snd (f s)) = fw_view s) \<Longrightarrow> fw_view (snd (thenOK r f)) = fw_view (snd r)"
  by (simp add: thenOK_def)

lemma mirror_outcome:
  "accepts e \<Longrightarrow> fst (EthFwPortMirroring_init e (cfPortMirCfg config) s) = ETHFW_SOK \<longleftrightarrow> mirror_ok config"
  by (simp add: EthFwPortMirroring_init_def EthFwPortMirroring_addSrcPortMirror_def EthFwPortMirroring_addDestPortMirror_def
      EthFwPortMirroring_addTblEntryPortMirror_def EthFwPortMirroring_disablePortMirror_def mirror_ok_def acceptsD
      split: option.splits EthFwPortMirroring_Cfg.splits)

lemma vlan_init_outcome:
  assumes "accepts e" "length (vlans (gEthFwVlanObj s)) = ETHFWVLAN_VLANS_MAX"
  shows "fst (EthFwVlan_init e cfg s) = ETHFW_SOK \<longleftrightarrow>
    length (vcVlans cfg) \<le> ETHFWVLAN_VLANS_MAX \<and> (\<forall>c\<in>set (vcVlans cfg). vlan_cfg_ok cfg c)"
proof -
  have loop: "fst r = ETHFW_SOK \<Longrightarrow> fst (vlan_setup_loop e vs r) = ETHFW_SOK" for vs and r :: "int \<times> 'a vlan_st_scheme"
    by (induction vs arbitrary: r) (auto simp: vlan_setup_loop_def setup_no_host_def EthFwVlan_setupVlan_def Let_def call_st_def acceptsD [OF assms(1)])
  have cfg: "fst (EthFwVlan_getCfg cfg ob) = 0 \<longleftrightarrow>
      length (vcVlans cfg) \<le> ETHFWVLAN_VLANS_MAX \<and> (\<forall>c\<in>set (vcVlans cfg). vlan_cfg_ok cfg c)"
    if "length (vlans ob) = ETHFWVLAN_VLANS_MAX" for ob
    using cfg_loop_spec [of 0 "vcVlans cfg" ob cfg] that by (auto simp: EthFwVlan_getCfg_def Let_def case_prod_beta)
  show ?thesis
    using assms(2) by (auto simp: EthFwVlan_init_def Let_def case_prod_beta acceptsD [OF assms(1)] cfg intro!: loop)
qed

lemma start_outcome:
  assumes e: "accepts e" and vl: "length (vlans (gEthFwVlanObj s)) = ETHFWVLAN_VLANS_MAX" and st: "fwHEnet (gEthFwObj s) \<Longrightarrow> st = ETHFW_SOK"
  shows "\<exists>r'. fw_start e config (st, s) = Some r' \<and> (fst r' = ETHFW_SOK \<longleftrightarrow> mcast_noticed e config \<and> mirror_ok config \<and> fwHEnet (gEthFwObj s) \<and>
    length (cfVlanCfg config) \<le> ETHFWVLAN_VLANS_MAX \<and> (\<forall>c\<in>set (cfVlanCfg config). vlan_cfg_ok (vlan_cfg_of config (gEthFwObj s)) c))"
proof -
  define r1 where "r1 = thenOK (st, s) (\<lambda>s. EthFwMcast_init e (cfMcastCfg config) (switchPortMask (gEthFwObj s)) (macOnlyPortMask (gEthFwObj s)) s)"
  define r2 where "r2 = (if proxyArp e then thenOK r1 (EthFwArp_init e) else r1)"
  define r3 where "r3 = (if vepaSupport e then EthFwVepa_init e (cfVepaCfg config) (snd r2) else r2)"
  define r4 where "r4 = (if ietEnable e then (fst r3, let s = snd r3; ob = gEthFwObj s in
      s\<lparr>gEthFwIETObj := EthFwIET_init (cfIetCfg config) (fwHEnet ob) (fwCoreId ob) (gEthFwIETObj s)\<rparr>) else r3)"
  define r5 where "r5 = (if monitorSupport e then EthFwMon_init e (cfMonitorCfg config) (of_nat (fwNumPorts (gEthFwObj (snd r4)))) (snd r4) else r4)"
  define r6 where "r6 = thenOK r5 (EthFw_setAleBcastEntry e)"
  define r7 where "r7 = thenOK r6 (EthFwPortMirroring_init e (cfPortMirCfg config))"
  define r8 where "r8 = thenOK r7 (EthFw_setupVlan e config)"
  define r9 where "r9 = thenOK r8 (EthFw_setDscpPriorityMapRegisters e)"
  define run where "run = (fst r9, upd_fw (\<lambda>ob. ob\<lparr>fwPassErrPkt := False\<rparr>) (snd r9))"
  have runs: "fw_start e config (st, s) = (if monitorSupport e then whenOK run (EthFwMon_startTask e) else Some run)"
    unfolding fw_start_def run_def r9_def r8_def r7_def r6_def r5_def r4_def r3_def r2_def r1_def Let_def by simp
  let ?m = "monitorSupport e \<or> vepaSupport e \<or> st = ETHFW_SOK \<and> mcast_cfg_ok e (cfMcastCfg config)"
  have "fw_view (snd r1) = fw_view s" unfolding r1_def by (subst view_then) (simp_all add: view_components)
  then have "fw_view (snd r2) = fw_view s" unfolding r2_def by (simp add: view_then view_components)
  then have "fw_view (snd r3) = fw_view s" unfolding r3_def by (simp add: view_components)
  then have "fw_view (snd r4) = fw_view s" unfolding r4_def by (simp add: Let_def)
  then have v5: "fw_view (snd r5) = fw_view s" unfolding r5_def by (simp add: view_components)
  have "fst r1 = ETHFW_SOK \<longleftrightarrow> st = ETHFW_SOK \<and> mcast_cfg_ok e (cfMcastCfg config)"
    unfolding r1_def by (simp add: fst_thenOK_0 mcast_outcome)
  then have "fst r2 = ETHFW_SOK \<longleftrightarrow> st = ETHFW_SOK \<and> mcast_cfg_ok e (cfMcastCfg config)"
    unfolding r2_def by (simp add: fst_thenOK_0 EthFwArp_init_def acceptsD [OF e(1)] Let_def)
  then have "fst r3 = ETHFW_SOK \<longleftrightarrow> vepaSupport e \<or> st = ETHFW_SOK \<and> mcast_cfg_ok e (cfMcastCfg config)"
    unfolding r3_def by (simp add: EthFwVepa_init_def acceptsD [OF e(1)] Let_def)
  then have "fst r5 = ETHFW_SOK \<longleftrightarrow> ?m" unfolding r5_def r4_def by (simp add: EthFwMon_init_def)
  with v5 have "fw_view (snd r6) = fw_view s" "fst r6 = ETHFW_SOK \<longleftrightarrow> ?m" unfolding r6_def
    by (simp_all add: view_then view_components) (simp add: fst_thenOK_0 EthFw_setAleBcastEntry_def acceptsD [OF e(1)])
  then have v7: "fw_view (snd r7) = fw_view s" and s7: "fst r7 = ETHFW_SOK \<longleftrightarrow> ?m \<and> mirror_ok config" unfolding r7_def
    by (simp_all add: view_then view_components) (simp add: fst_thenOK_0 mirror_outcome [OF e(1)])
  have "fst r8 = ETHFW_SOK \<longleftrightarrow> fst r7 = ETHFW_SOK \<and> fst (EthFw_setupVlan e config (snd r7)) = ETHFW_SOK" unfolding r8_def by (rule fst_thenOK_0)
  moreover have "fst (EthFw_setupVlan e config (snd r7)) = ETHFW_SOK \<longleftrightarrow> fwHEnet (gEthFwObj s) \<and>
      length (cfVlanCfg config) \<le> ETHFWVLAN_VLANS_MAX \<and> (\<forall>c\<in>set (cfVlanCfg config). vlan_cfg_ok (vlan_cfg_of config (gEthFwObj s)) c)"
  proof -
    have g: "gEthFwObj (snd r7) = gEthFwObj s" "gEthFwVlanObj (snd r7) = gEthFwVlanObj s" using v7 by (simp_all add: fw_view_def)
    show ?thesis using vlan_init_outcome [OF e(1), of "snd r7" "vlan_cfg_of config (gEthFwObj s)"] vl
      by (simp add: EthFw_setupVlan_def Let_def g vlan_cfg_of_def)
  qed
  moreover have "fst r9 = ETHFW_SOK \<longleftrightarrow> fst r8 = ETHFW_SOK" unfolding r9_def
    by (simp add: fst_thenOK_0 EthFw_setDscpPriorityMapRegisters_def acceptsD [OF e(1)])
  moreover have "\<exists>r'. (if monitorSupport e then whenOK (st', t) (EthFwMon_startTask e) else Some (st', t)) = Some r' \<and> fst r' = st'"
    for st' and t :: "'a fw_st_scheme"
    by (simp add: whenOK_def EthFwMon_startTask_def Let_def acceptsD [OF e(1)])
  ultimately show ?thesis unfolding runs run_def mcast_noticed_def using s7 st by metis
qed

text \<open>What the configuration of the ports fixes.\<close>

definition fw_keys :: "'a fw_st_scheme \<Rightarrow>
    (u16 \<times> u16 \<times> u32 \<times> u32 \<times> u32 \<times> EthFwVirtPort_VirtPortCfg list) \<times> bool \<times> u32 \<times> EthFwVlan_Obj \<times> CpswProxyServer_Obj" where
  "fw_keys s = (let ob = gEthFwObj s in ((fwDfltVlanIdMacOnlyPorts ob, fwDfltVlanIdSwitchPorts ob, switchPortMask ob, macOnlyPortMask ob,
     enabledPortMask ob, take (fwNumVirtPorts ob) (fwVirtPortCfg ob)), fwHEnet ob, numMacList (cpswCfg ob), gEthFwVlanObj s, gProxyServerObj s))"

lemma keys_upd [simp]:
  "fw_keys (issue c s) = fw_keys s" "fw_keys (fault f s) = fw_keys s" "fw_keys (chk_idx g i n s) = fw_keys s" "fw_keys (upd_rm k s) = fw_keys s"
  by (simp_all add: fw_keys_def upd_rm_def issue_def fault_def chk_idx_def Let_def)

lemma keys_fold: "(\<And>x s. fw_keys (f x s) = fw_keys s) \<Longrightarrow> fw_keys (fold f xs s) = fw_keys s"
  by (induction xs arbitrary: s) simp_all

lemma keys_ports:
  "fw_keys (EthFw_setPortVlan e s) = fw_keys s" "fw_keys (EthFw_setPortMode e s) = fw_keys s" "fw_keys (fw_identify e t i s) = fw_keys s"
  "fw_keys (add_port_rm e k s) = fw_keys s"
proof -
  have "let ob' = fold (port_vlan e) xs ob in (fwDfltVlanIdMacOnlyPorts ob', fwDfltVlanIdSwitchPorts ob', switchPortMask ob', macOnlyPortMask ob',
      enabledPortMask ob', fwNumVirtPorts ob', fwVirtPortCfg ob', fwHEnet ob', cpswCfg ob') = (fwDfltVlanIdMacOnlyPorts ob, fwDfltVlanIdSwitchPorts ob,
      switchPortMask ob, macOnlyPortMask ob, enabledPortMask ob, fwNumVirtPorts ob, fwVirtPortCfg ob, fwHEnet ob, cpswCfg ob)"
    for xs ob
    by (induction xs arbitrary: ob) (simp_all add: port_vlan_def Let_def split: option.splits)
  then show "fw_keys (EthFw_setPortVlan e s) = fw_keys s" by (simp add: EthFw_setPortVlan_def fw_keys_def upd_fw_def Let_def)
  have "fw_keys (upd_ale_port k f s) = fw_keys s" for k f and s :: "'a fw_st_scheme"
    by (simp add: upd_ale_port_def) (simp add: fw_keys_def upd_fw_def upd_cpsw_def Let_def)
  then show "fw_keys (EthFw_setPortMode e s) = fw_keys s" by (simp add: EthFw_setPortMode_def Let_def keys_fold)
  show "fw_keys (fw_identify e t i s) = fw_keys s" by (simp add: fw_identify_def fw_keys_def upd_fw_def Let_def)
  show "fw_keys (add_port_rm e k s) = fw_keys s" by (simp add: add_port_rm_def EthFw_setTxChRmInfo_def Let_def)
qed

lemma ports_outcome:
  fixes s :: "'a fw_st_scheme" and e :: env
  assumes "cfPorts config = Some ps"
  defines "s0 \<equiv> (upd_fw (\<lambda>_. (fw_zero e)\<lparr>cpswCfg := cfCpswCfg config\<rparr>) s)\<lparr>serverStatus := ETHREMOTECFG_SERVERSTATUS_UNINIT\<rparr>"
    and "mo \<equiv> mac_mask e (virt_mac_ports e (cfVirtPortCfg config))"
  shows "let r = thenOK (EthFw_getDfltVlanId config s0) (EthFw_getPortConfig e config)
    in (fst r = ETHFW_SOK \<longleftrightarrow> ports_ok e config ps) \<and> snd (fw_keys (snd r)) = (False, numMacList (cfCpswCfg config), gEthFwVlanObj s, gProxyServerObj s) \<and>
      (fst r = ETHFW_SOK \<longrightarrow> fst (fw_keys (snd r)) =
        (cfDfltVlanIdMacOnlyPorts config, cfDfltVlanIdSwitchPorts config, mac_mask e ps AND NOT mo, mo, mac_mask e ps, cfVirtPortCfg config))"
proof -
  have d: "snd (fw_keys s0) = (False, numMacList (cfCpswCfg config), gEthFwVlanObj s, gProxyServerObj s)"
    "enabledPortMask (gEthFwObj s0) = 0" "macOnlyPortMask (gEthFwObj s0) = 0"
    by (simp_all add: s0_def fw_keys_def upd_fw_def fw_zero_def)
  show ?thesis
    using d assms(1) unfolding Let_def
    by (auto simp: thenOK_def EthFw_getDfltVlanId_def EthFw_getPortConfig_def ports_ok_def Let_def mo_def not_le)
      (auto simp: fw_keys_def upd_fw_def upd_rm_def upd_cpsw_def chk_idx_def fault_def Let_def)
qed

lemma configure_outcome:
  assumes e: "accepts e" "isCpswType e t" and c: "cfPorts config = Some ps" "numMacList (cfCpswCfg config) \<noteq> 0" "macListMax e \<noteq> 0" "macListMax e < 2 ^ 32"
  shows "\<exists>r. fw_configure e t i config s = Some r \<and> (fst r = ETHFW_SOK \<longleftrightarrow> ports_ok e config ps) \<and>
    (fwHEnet (gEthFwObj (snd r)) \<longleftrightarrow> ports_ok e config ps) \<and> gEthFwVlanObj (snd r) = gEthFwVlanObj s \<and>
    (ports_ok e config ps \<longrightarrow> (let mo = mac_mask e (virt_mac_ports e (cfVirtPortCfg config)) in
      fst (fw_keys (snd r)) = (cfDfltVlanIdMacOnlyPorts config, cfDfltVlanIdSwitchPorts config, mac_mask e ps AND NOT mo, mo, mac_mask e ps, cfVirtPortCfg config))) \<and>
    (ports_ok e config ps \<longrightarrow> mcmCmdIf (gEthFwObj (snd r))) \<and> gProxyServerObj (snd r) = gProxyServerObj s"
proof -
  let ?s0 = "(upd_fw (\<lambda>_. (fw_zero e)\<lparr>cpswCfg := cfCpswCfg config\<rparr>) s)\<lparr>serverStatus := ETHREMOTECFG_SERVERSTATUS_UNINIT\<rparr>"
  let ?r = "thenOK (EthFw_getDfltVlanId config ?s0) (EthFw_getPortConfig e config)"
  note o = ports_outcome [OF c(1), of e s, unfolded Let_def]
  have run: "fw_configure e t i config s = whenOK ?r (\<lambda>s. EthFw_updateEnetRm e (EthFw_setPortMode e (EthFw_setPortVlan e s)) \<bind>
      (\<lambda>s. Some (ETHFW_SOK, fw_identify e t i s))) \<bind> (\<lambda>r. whenOK r (\<lambda>s. EthFw_initMcm e s \<bind>
      (\<lambda>(status, s). fw_assert e (status = ETHFW_SOK) s \<bind> (\<lambda>s. Some (status, s)))))"
    by (simp add: fw_configure_def Let_def)
  show ?thesis
  proof (cases "ports_ok e config ps")
    case False
    with o have "fst ?r \<noteq> ETHFW_SOK" by simp
    then have "fw_configure e t i config s = Some ?r" unfolding run by (simp add: whenOK_def)
    with False o show ?thesis by (auto simp: fw_keys_def Let_def)
  next
    case True
    let ?s1 = "EthFw_setPortMode e (EthFw_setPortVlan e (snd ?r))"
    have k1: "fw_keys ?s1 = fw_keys (snd ?r)" by (simp add: keys_ports)
    let ?s2 = "fold (add_port_rm e) [0..<fwNumVirtPorts (gEthFwObj ?s1)] ?s1"
    have k2: "fw_keys ?s2 = fw_keys (snd ?r)" by (simp add: keys_fold keys_ports)
    define s3 where "s3 = upd_fw (upd_cpsw (\<lambda>c. c\<lparr>resPartInfo := gEthFw_rmResPrms ?s2,
        numMacList := (if unat (numMacList c) > macListMax e then of_nat (macListMax e) else numMacList c)\<rparr>)) ?s2"
    have m: "numMacList (cpswCfg (gEthFwObj ?s2)) = numMacList (cfCpswCfg config)" using k2 o by (auto simp: fw_keys_def Let_def)
    have "(of_nat (macListMax e) :: u32) \<noteq> 0" using c(3,4) by (metis unat_of_nat32 unat_0)
    then have "EthFw_updateEnetRm e ?s1 = Some s3"
      using c(2) m by (simp add: EthFw_updateEnetRm_def Let_def fw_assert_def s3_def upd_fw_def upd_cpsw_def)
    then have "whenOK ?r (\<lambda>s. EthFw_updateEnetRm e (EthFw_setPortMode e (EthFw_setPortVlan e s)) \<bind>
      (\<lambda>s. Some (ETHFW_SOK, fw_identify e t i s))) = Some (ETHFW_SOK, fw_identify e t i s3)"
      using True o by (simp add: whenOK_def)
    then have "fw_configure e t i config s = EthFw_initMcm e (fw_identify e t i s3) \<bind>
      (\<lambda>(status, s). fw_assert e (status = ETHFW_SOK) s \<bind> (\<lambda>s. Some (status, s)))" unfolding run by (simp add: whenOK_def)
    also have "\<dots> = Some (ETHFW_SOK, upd_fw (\<lambda>ob. ob\<lparr>fwHEnet := True\<rparr>) (issue Mcm_acquireHandleInfo
        (upd_fw (\<lambda>ob. ob\<lparr>mcmCmdIf := True\<rparr>) (issue Mcm_getCmdIf (issue Mcm_init (fw_identify e t i s3))))))"
      using e(2) by (simp add: EthFw_initMcm_def Let_def call_st_def fw_assert_def acceptsD [OF e(1)]) (simp add: fw_identify_def upd_fw_def issue_def)
    finally have f: "fw_configure e t i config s = \<dots>" .
    have "fst (fw_keys s3) = fst (fw_keys (snd ?r))" "gEthFwVlanObj s3 = gEthFwVlanObj s"
      "gProxyServerObj s3 = gProxyServerObj s"
      using k2 o by (auto simp: s3_def fw_keys_def upd_fw_def upd_cpsw_def Let_def)
    with True o f show ?thesis by (auto simp: fw_keys_def fw_identify_def upd_fw_def issue_def Let_def)
  qed
qed

section \<open>Starting the server\<close>

definition srv_view :: "'a fw_st_scheme \<Rightarrow> EthFw_Obj \<times> CpswProxyServer_Obj" where
  "srv_view s = ((gEthFwObj s)\<lparr>fwPassErrPkt := False\<rparr>, gProxyServerObj s)"

lemma srv_view_upd [simp]:
  "srv_view (issue c s) = srv_view s" "srv_view (fault f s) = srv_view s" "srv_view (upd_mon l s) = srv_view s"
  "srv_view (upd_fw (\<lambda>ob. ob\<lparr>fwPassErrPkt := b\<rparr>) s) = srv_view s" "srv_view (s\<lparr>gEthFwIETObj := g\<rparr>) = srv_view s"
  "srv_view (s\<lparr>gEthFwVlanObj := v\<rparr>) = srv_view s"
  by (simp_all add: srv_view_def upd_fw_def upd_mon_def issue_def fault_def)

lemma srv_view_then [simp]: "(\<And>s. srv_view (snd (f s)) = srv_view s) \<Longrightarrow> srv_view (snd (thenOK r f)) = srv_view (snd r)"
  by (simp add: thenOK_def)

lemma srv_view_components:
  "srv_view (snd (EthFwMcast_init e mc a b s)) = srv_view s" "srv_view (snd (EthFwArp_init e s)) = srv_view s"
  "srv_view (snd (EthFwVepa_init e pv s)) = srv_view s" "srv_view (snd (EthFwMon_init e moc np s)) = srv_view s"
  "srv_view (snd (EthFw_setAleBcastEntry e s)) = srv_view s" "srv_view (snd (EthFwPortMirroring_init e pm s)) = srv_view s"
  "srv_view (snd (EthFw_setDscpPriorityMapRegisters e s)) = srv_view s" "srv_view (snd (EthFw_setupVlan e config s)) = srv_view s"
proof -
  have loop: "srv_view (snd (vlan_setup_loop e vs r)) = srv_view (snd r)" for vs and r :: "int \<times> 'a fw_st_scheme"
    by (induction vs arbitrary: r) (auto simp: vlan_setup_loop_def setup_no_host_def EthFwVlan_setupVlan_def Let_def split: prod.splits)
  show "srv_view (snd (EthFw_setupVlan e config s)) = srv_view s"
    by (simp add: EthFw_setupVlan_def EthFwVlan_init_def chk_vlans_def Let_def case_prod_beta loop)
qed (simp_all add: EthFwMcast_init_def EthFwArp_init_def EthFwVepa_init_def EthFwMon_init_def EthFw_setAleBcastEntry_def
    EthFw_setDscpPriorityMapRegisters_def
    EthFwPortMirroring_init_def EthFwPortMirroring_addSrcPortMirror_def EthFwPortMirroring_addDestPortMirror_def
    EthFwPortMirroring_addTblEntryPortMirror_def EthFwPortMirroring_disablePortMirror_def Let_def case_prod_beta
    split: option.splits EthFwPortMirroring_Cfg.splits, simp_all add: srv_view_def issue_def)

lemma srv_view_startTask: "EthFwMon_startTask e s = Some r \<Longrightarrow> srv_view (snd r) = srv_view s"
  by (auto simp: EthFwMon_startTask_def mon_alloc_failed_def Let_def split: if_splits)

lemma srv_view_fw_start:
  assumes "fw_start e config r = Some r'"
  shows "srv_view (snd r') = srv_view (snd r)"
proof -
  have w: "whenOK q (EthFwMon_startTask e) = Some r' \<Longrightarrow> srv_view (snd r') = srv_view (snd q)" for q :: "int \<times> 'a fw_st_scheme"
    by (cases q) (auto simp: whenOK_def split: if_splits dest!: srv_view_startTask)
  show ?thesis
    using assms [unfolded fw_start_def Let_def]
    by (cases "monitorSupport e") (auto simp: srv_view_components dest!: w)
qed

text \<open>The virtual ports for AUTOSAR.\<close>

definition asr_port :: "EthFwVirtPort_VirtPortCfg \<Rightarrow> bool" where
  "asr_port v \<longleftrightarrow> ETHFW_IS_BIT_SET (clientIdMask v) ETHREMOTECFG_CLIENTID_AUTOSAR"

lemma asr_server_port [simp]: "asr_port (server_port ep v) = asr_port v"
  by (simp add: asr_port_def server_port_def)

lemma server_ports_outcome:
  assumes "\<And>v. v \<in> set vs \<Longrightarrow> asr_port v \<Longrightarrow> vpRemoteCoreId v \<in> {ipcCores e ! 1, ipcCores e ! 3}"
  shows "\<exists>ps s'. server_ports e vs s = Some (ps, s') \<and> world.more s' = world.more s \<and> length ps = length vs \<and>
    length (filter asr_port ps) = length (filter asr_port vs)"
  using assms
proof (induction vs arbitrary: s)
  case (Cons v vs)
  have "\<exists>ep. (if ETHFW_IS_BIT_SET (clientIdMask v) ETHREMOTECFG_CLIENTID_AUTOSAR
      then EthFw_getRemoteEndptId e (vpRemoteCoreId v) s else Some (0, s)) = Some (ep, s)"
    using Cons.prems [of v] by (auto simp: asr_port_def EthFw_getRemoteEndptId_def Let_def)
  moreover obtain ps s' where "server_ports e vs (if unat (numTxCh v) \<le> length (txCh v) \<and> unat (numRxFlow v) \<le> length (rxFlowsInfo v)
      then s else fault OobWrite s) = Some (ps, s')" "world.more s' = world.more s" "length ps = length vs"
      "length (filter asr_port ps) = length (filter asr_port vs)"
    using Cons.IH [of "if unat (numTxCh v) \<le> length (txCh v) \<and> unat (numRxFlow v) \<le> length (rxFlowsInfo v)
      then s else fault OobWrite s"] Cons.prems by fastforce
  ultimately show ?case by auto
qed simp

lemma asr_ep_outcome:
  assumes "accepts e"
  shows "fst (CpswProxyServer_initAutosarEthDeviceEp e n s) = ETHFW_SOK" "fst (CpswProxyServer_initRemoteClientEthDeviceEp e s) = ETHFW_SOK"
    "fst (CpswProxyServer_initNotifyServiceEp e s) = ETHFW_SOK"
    "numAsrVirtPorts (gProxyServerObj (snd (CpswProxyServer_initAutosarEthDeviceEp e n s))) = numAsrVirtPorts (gProxyServerObj s)"
  by (simp_all add: CpswProxyServer_initAutosarEthDeviceEp_def CpswProxyServer_initRemoteClientEthDeviceEp_def
      CpswProxyServer_initNotifyServiceEp_def Let_def thenOK_def acceptsD [OF assms]) (simp add: upd_asr_def upd_srv_def issue_def)

lemma init_asr_outcome:
  assumes "accepts e"
  shows "\<exists>s'. init_asr_ports e vs (ETHFW_SOK, s) = Some (ETHFW_SOK, s') \<and>
    numAsrVirtPorts (gProxyServerObj s') = numAsrVirtPorts (gProxyServerObj s) + length (filter asr_port vs)"
proof (induction vs arbitrary: s)
  case (Cons v vs)
  let ?n = "numAsrVirtPorts (gProxyServerObj s)"
  obtain s1 where s1: "init_asr_port e v (ETHFW_SOK, s) = Some (ETHFW_SOK, s1)"
    "numAsrVirtPorts (gProxyServerObj s1) = ?n + (if asr_port v then 1 else 0)"
    by (cases "asr_port v") (auto simp: init_asr_port_def asr_port_def Let_def case_prod_beta fw_assert_def asr_ep_outcome [OF assms] upd_srv_def)
  with Cons.IH [of s1] show ?case by auto
qed simp

lemma remote_outcome:
  fixes s :: "'a fw_st_scheme" and e :: env
  assumes e: "accepts e" and s: "\<not> initDone (gProxyServerObj s)" "mcmCmdIf (gEthFwObj s)"
      "macOnlyPortMask (gEthFwObj s) AND enabledPortMask (gEthFwObj s) = macOnlyPortMask (gEthFwObj s)"
    and vs: "take (fwNumVirtPorts (gEthFwObj s)) (fwVirtPortCfg (gEthFwObj s)) = vs" "length vs \<le> CPSWPROXYSERVER_REMOTE_CLIENT_VIRTPORT_MAX"
      "length (filter asr_port vs) \<le> CPSWPROXYSERVER_AUTOSAR_REMOTE_CLIENT_MAX"
      "\<And>v. v \<in> set vs \<Longrightarrow> asr_port v \<Longrightarrow> vpRemoteCoreId v \<in> {ipcCores e ! 1, ipcCores e ! 3}"
  shows "\<exists>s'. EthFw_initRemoteConfig e True s = Some (ETHFW_SOK, s')"
proof -
  from server_ports_outcome [OF vs(4), where s = s] obtain ps t where p: "server_ports e vs s = Some (ps, t)" "world.more t = world.more s"
    "length ps = length vs" "length (filter asr_port ps) = length (filter asr_port vs)" by blast
  have t: "gProxyServerObj t = gProxyServerObj s"
    using p(2) by (cases s, cases t) auto
  have serv: "\<exists>s'. srv_services e cfg u = Some (ETHFW_SOK, s')" if "scVirtPortCfg cfg = ps" for cfg and u :: "'a fw_st_scheme"
  proof -
    let ?u = "\<lambda>u. upd_srv (\<lambda>ob. ob\<lparr>numVirtPorts := length ps, numAsrVirtPorts := 0,
       virtPortCfg := take (length (virtPortCfg ob)) ps @ drop (length ps) (virtPortCfg ob)\<rparr>) u"
    have "\<exists>s'. init_asr_ports e ps (ETHFW_SOK, ?u u) = Some (ETHFW_SOK, s') \<and>
        numAsrVirtPorts (gProxyServerObj s') \<le> CPSWPROXYSERVER_AUTOSAR_REMOTE_CLIENT_MAX" for u :: "'a fw_st_scheme"
      using init_asr_outcome [OF e, of ps "?u u"] vs(3) p(4) by (auto simp: upd_srv_def)
    then obtain g where g: "\<And>u. init_asr_ports e ps (ETHFW_SOK, ?u u) = Some (ETHFW_SOK, g u)"
      "\<And>u. numAsrVirtPorts (gProxyServerObj (g u :: 'a fw_st_scheme)) \<le> CPSWPROXYSERVER_AUTOSAR_REMOTE_CLIENT_MAX" by metis
    have "length ps \<le> CPSWPROXYSERVER_REMOTE_CLIENT_VIRTPORT_MAX" using vs(2) p(3) by simp
    with that show ?thesis
      by (simp add: srv_services_def Let_def case_prod_beta fw_assert_def acceptsD [OF e] g asr_ep_outcome [OF e])
  qed
  have "\<exists>s'. CpswProxyServer_init e True cfg t = Some (ETHFW_SOK, s')"
    if "scVirtPortCfg cfg = ps" "scMacOnlyPortMask cfg = macOnlyPortMask (gEthFwObj s)" "scEnabledPortMask cfg = enabledPortMask (gEthFwObj s)" for cfg
    using serv [OF that(1)] s(1,3) that(2,3) t
    by (simp add: CpswProxyServer_init_def Let_def case_prod_beta fw_assert_def acceptsD [OF e])
  from this [of "\<lparr>scEnetType = fwEnetType (gEthFwObj s), scInstId = fwInstId (gEthFwObj s), scVirtPortCfg = ps,
      scDfltVlanIdMacOnlyPorts = fwDfltVlanIdMacOnlyPorts (gEthFwObj s), scDfltVlanIdSwitchPorts = fwDfltVlanIdSwitchPorts (gEthFwObj s),
      scEnabledPortMask = enabledPortMask (gEthFwObj s), scMacOnlyPortMask = macOnlyPortMask (gEthFwObj s)\<rparr>"]
  show ?thesis using s(2) vs(1) p(1) by (auto simp: EthFw_initRemoteConfig_def Let_def fw_assert_def)
qed

section \<open>The whole start\<close>

definition boot_ready :: "env \<Rightarrow> u32 \<Rightarrow> EthFw_Config \<Rightarrow> u32 list \<Rightarrow> 'a fw_st_scheme \<Rightarrow> bool" where
  "boot_ready e enetType config ps s \<longleftrightarrow> accepts e \<and> isCpswType e enetType \<and> cfPorts config = Some ps \<and>
     length ps \<le> macPortNum e \<and> cfDma config \<and> numMacList (cfCpswCfg config) \<noteq> 0 \<and> macListMax e \<noteq> 0 \<and> macListMax e < 2 ^ 32 \<and>
     length (vlans (gEthFwVlanObj s)) = ETHFWVLAN_VLANS_MAX"

lemma init_runs:
  fixes s :: "'a fw_st_scheme"
  assumes ready: "boot_ready e enetType config ps s"
  shows "\<exists>(s1 :: 'a fw_st_scheme) s'. EthFw_init e enetType instId config s = Some (mcast_noticed e config \<and> ports_ok e config ps \<and> mirror_ok config \<and> static_vlans_ok e config ps, s') \<and>
    srv_view s' = srv_view s1 \<and> (ports_ok e config ps \<longrightarrow> mcmCmdIf (gEthFwObj s1)) \<and> gProxyServerObj s1 = gProxyServerObj s \<and>
    (ports_ok e config ps \<longrightarrow> (let mo = mac_mask e (virt_mac_ports e (cfVirtPortCfg config)) in fst (fw_keys s1) =
      (cfDfltVlanIdMacOnlyPorts config, cfDfltVlanIdSwitchPorts config, mac_mask e ps AND NOT mo, mo, mac_mask e ps, cfVirtPortCfg config)))"
proof -
  note r0 = ready [unfolded boot_ready_def]
  from r0 obtain st s1 where r: "fw_configure e enetType instId config s = Some (st, s1)" "st = ETHFW_SOK \<longleftrightarrow> ports_ok e config ps"
    "fwHEnet (gEthFwObj s1) \<longleftrightarrow> ports_ok e config ps" "gEthFwVlanObj s1 = gEthFwVlanObj s"
    "ports_ok e config ps \<longrightarrow> (let mo = mac_mask e (virt_mac_ports e (cfVirtPortCfg config)) in fst (fw_keys s1) =
      (cfDfltVlanIdMacOnlyPorts config, cfDfltVlanIdSwitchPorts config, mac_mask e ps AND NOT mo, mo, mac_mask e ps, cfVirtPortCfg config))"
    "ports_ok e config ps \<longrightarrow> mcmCmdIf (gEthFwObj s1)" "gProxyServerObj s1 = gProxyServerObj s"
    using configure_outcome [of e enetType config ps instId s] by auto
  have "length (vlans (gEthFwVlanObj s1)) = ETHFWVLAN_VLANS_MAX" using r0 r(4) by simp
  moreover have "fwHEnet (gEthFwObj s1) \<Longrightarrow> st = ETHFW_SOK" using r(2,3) by simp
  ultimately obtain r' where r': "fw_start e config (st, s1) = Some r'" "fst r' = ETHFW_SOK \<longleftrightarrow> mcast_noticed e config \<and> mirror_ok config \<and> fwHEnet (gEthFwObj s1) \<and>
    length (cfVlanCfg config) \<le> ETHFWVLAN_VLANS_MAX \<and> (\<forall>c\<in>set (cfVlanCfg config). vlan_cfg_ok (vlan_cfg_of config (gEthFwObj s1)) c)"
    using start_outcome [of e s1 st config] r0 by blast
  have "fst r' = ETHFW_SOK \<longleftrightarrow> mcast_noticed e config \<and> ports_ok e config ps \<and> mirror_ok config \<and> static_vlans_ok e config ps"
  proof (cases "ports_ok e config ps")
    case True
    with r(5) show ?thesis
      by (simp add: r'(2) r(3) static_vlans_ok_def vlan_cfg_of_def fw_keys_def Let_def conj_commute)
  next
    case False
    then show ?thesis by (simp add: r'(2) r(3))
  qed
  moreover have "EthFw_init e enetType instId config s = Some (fst r' = ETHFW_SOK, snd r')"
    using r0 r(1) r'(1) by (simp add: EthFw_init_def fw_assert_def)
  moreover have "srv_view (snd r') = srv_view s1" using srv_view_fw_start [OF r'(1)] by simp
  ultimately show ?thesis using r(5,6,7) by - (rule exI [of _ s1], rule exI [of _ "snd r'"], simp)
qed

lemma boot_succeeds:
  fixes s :: "'a fw_st_scheme"
  assumes ready: "boot_ready e enetType config ps s" "\<not> initDone (gProxyServerObj s)"
    and ok: "mcast_noticed e config" "ports_ok e config ps" "mirror_ok config" "static_vlans_ok e config ps"
    and mo: "mac_mask e (virt_mac_ports e (cfVirtPortCfg config)) AND mac_mask e ps = mac_mask e (virt_mac_ports e (cfVirtPortCfg config))"
    and asr: "length (filter asr_port (cfVirtPortCfg config)) \<le> CPSWPROXYSERVER_AUTOSAR_REMOTE_CLIENT_MAX"
      "\<And>v. v \<in> set (cfVirtPortCfg config) \<Longrightarrow> asr_port v \<Longrightarrow> vpRemoteCoreId v \<in> {ipcCores e ! 1, ipcCores e ! 3}"
  shows "\<exists>s1 s2. EthFw_init e enetType instId config s = Some (True, s1) \<and> EthFw_initRemoteConfig e True s1 = Some (ETHFW_SOK, s2)"
proof -
  from init_runs [OF ready(1), of instId] ok obtain s1 s' :: "'a fw_st_scheme" where i: "EthFw_init e enetType instId config s = Some (True, s')"
    "srv_view s' = srv_view s1" "mcmCmdIf (gEthFwObj s1)" "gProxyServerObj s1 = gProxyServerObj s"
    "(let mo = mac_mask e (virt_mac_ports e (cfVirtPortCfg config)) in fst (fw_keys s1) =
      (cfDfltVlanIdMacOnlyPorts config, cfDfltVlanIdSwitchPorts config, mac_mask e ps AND NOT mo, mo, mac_mask e ps, cfVirtPortCfg config))"
    by auto
  have v: "(gEthFwObj s')\<lparr>fwPassErrPkt := False\<rparr> = (gEthFwObj s1)\<lparr>fwPassErrPkt := False\<rparr>" "gProxyServerObj s' = gProxyServerObj s1"
    using i(2) by (simp_all add: srv_view_def)
  have f: "mcmCmdIf (gEthFwObj s') = mcmCmdIf (gEthFwObj s1)" "macOnlyPortMask (gEthFwObj s') = macOnlyPortMask (gEthFwObj s1)"
    "enabledPortMask (gEthFwObj s') = enabledPortMask (gEthFwObj s1)" "fwNumVirtPorts (gEthFwObj s') = fwNumVirtPorts (gEthFwObj s1)"
    "fwVirtPortCfg (gEthFwObj s') = fwVirtPortCfg (gEthFwObj s1)"
    using arg_cong [OF v(1), of mcmCmdIf] arg_cong [OF v(1), of macOnlyPortMask] arg_cong [OF v(1), of enabledPortMask]
      arg_cong [OF v(1), of fwNumVirtPorts] arg_cong [OF v(1), of fwVirtPortCfg] by simp_all
  have len: "length (cfVirtPortCfg config) \<le> CPSWPROXYSERVER_REMOTE_CLIENT_VIRTPORT_MAX"
    using ok(2) by (simp add: ports_ok_def ETHFW_REMOTE_CLIENT_MAX_def CPSWPROXYSERVER_REMOTE_CLIENT_VIRTPORT_MAX_def)
  have "\<exists>s2. EthFw_initRemoteConfig e True s' = Some (ETHFW_SOK, s2)"
    by (rule remote_outcome [where vs = "cfVirtPortCfg config"])
      (use ready i(3,4,5) v(2) f mo len asr in \<open>auto simp: boot_ready_def fw_keys_def Let_def\<close>)
  with i(1) show ?thesis by blast
qed

text \<open>
  Property C15.  With a driver and an operating system that accept every call, and a configuration that passes the
  assertions (\<open>boot_ready\<close>), the initialisation ends and returns a handle exactly when the VLAN ids and ports, the
  mirroring type and the static VLANs are in order and, only in a build with neither VEPA nor the monitor, the
  multicast lists fit and hold multicast addresses: in the other builds what their check says is lost.
\<close>

theorem init_outcome:
  assumes "boot_ready e enetType config ps s"
  shows "\<exists>s'. EthFw_init e enetType instId config s =
    Some ((monitorSupport e \<or> vepaSupport e \<or> mcast_cfg_ok e (cfMcastCfg config)) \<and> ports_ok e config ps \<and> mirror_ok config \<and> static_vlans_ok e config ps, s')"
  using init_runs [OF assms, of instId] unfolding mcast_noticed_def by blast

lemma boot_cfg_ok:
  "boot_ready ok_env 2 (boot_cfg\<lparr>cfMcastCfg := mc\<rparr>) [0, 1, 2] boot_mem" "ports_ok ok_env (boot_cfg\<lparr>cfMcastCfg := mc\<rparr>) [0, 1, 2]"
  "mirror_ok (boot_cfg\<lparr>cfMcastCfg := mc\<rparr>)" "static_vlans_ok ok_env (boot_cfg\<lparr>cfMcastCfg := mc\<rparr>) [0, 1, 2]"
  "mcast_noticed ok_env (boot_cfg\<lparr>cfMcastCfg := mc\<rparr>)" "monitorSupport ok_env"
  by (simp_all add: boot_ready_def accepts_def ok_env_def boot_cfg_def boot_mem_def vlan_zero_def ports_ok_def mirror_ok_def static_vlans_ok_def
      mcast_noticed_def ETHFW_VLAN_ID_MAX_def ETHFW_MAC_PORT_MAX_def ETHFW_REMOTE_CLIENT_MAX_def boot_ports_def Let_def)

text \<open>A shared address that is no multicast address.\<close>

definition bad_mcast :: EthFwMcast_Cfg where
  "bad_mcast = \<lparr>cfgShared = [\<lparr>cfgMacAddr = EthAddr 2 0 0 0 0 1, cfgPortMask = 0, cfgVirtPortMask = 0\<rparr>],
     cfgAddCb = False, cfgDelCb = False, cfgRsvd = []\<rparr>"

theorem init_outcome_witness:
  "fst (EthFwMcast_init ok_env bad_mcast 6 1 boot_mem) = ETHFW_EINVALIDPARAMS \<and>
    (\<exists>s'. EthFw_init ok_env 2 0 (boot_cfg\<lparr>cfMcastCfg := bad_mcast\<rparr>) boot_mem = Some (True, s'))"
proof
  show "fst (EthFwMcast_init ok_env bad_mcast 6 1 boot_mem) = ETHFW_EINVALIDPARAMS"
    by (simp add: EthFwMcast_init_def EthFwMcast_getSharedMcastCfg_def bad_mcast_def ETHFW_SHARED_MCAST_LIST_LEN_def ok_env_def thenOK_def Let_def)
  show "\<exists>s'. EthFw_init ok_env 2 0 (boot_cfg\<lparr>cfMcastCfg := bad_mcast\<rparr>) boot_mem = Some (True, s')"
    using init_outcome [OF boot_cfg_ok(1) [of bad_mcast], of 0] boot_cfg_ok(2-4) [of bad_mcast] boot_cfg_ok(6) by simp
qed

lemma boot_runs:
  "\<exists>s1 s2. EthFw_init ok_env 2 0 boot_cfg boot_mem = Some (True, s1) \<and> EthFw_initRemoteConfig ok_env True s1 = Some (ETHFW_SOK, s2)"
proof -
  have b: "boot_cfg\<lparr>cfMcastCfg := cfMcastCfg boot_cfg\<rparr> = boot_cfg" by simp
  have "length (filter asr_port (cfVirtPortCfg boot_cfg)) \<le> CPSWPROXYSERVER_AUTOSAR_REMOTE_CLIENT_MAX"
    by (simp add: CPSWPROXYSERVER_AUTOSAR_REMOTE_CLIENT_MAX_def boot_cfg_def boot_ports_def)
  moreover have "vpRemoteCoreId v \<in> {ipcCores ok_env ! 1, ipcCores ok_env ! 3}" if "v \<in> set (cfVirtPortCfg boot_cfg)" for v
    using that by (auto simp: boot_cfg_def boot_ports_def ok_env_def)
  moreover have "mac_mask ok_env (virt_mac_ports ok_env (cfVirtPortCfg boot_cfg)) AND mac_mask ok_env [0, 1, 2] =
      mac_mask ok_env (virt_mac_ports ok_env (cfVirtPortCfg boot_cfg))"
    by (simp add: mac_mask_def virt_mac_ports_def boot_cfg_def boot_ports_def EthFwVirtPort_isMacPort_def EthFwVirtPort_getMacPort_def
        port_const_defs ok_env_def ETHFW_BIT_def)
  moreover have "\<not> initDone (gProxyServerObj boot_mem)" by (simp add: boot_mem_def server_zero_def)
  ultimately show ?thesis
    using boot_succeeds [OF boot_cfg_ok(1) [of "cfMcastCfg boot_cfg"] _ boot_cfg_ok(5) [of "cfMcastCfg boot_cfg"] boot_cfg_ok(2-4) [of "cfMcastCfg boot_cfg"], of 0] unfolding b by blast
qed

theorem boot_serves_witness:
  "\<exists>s1 s2. EthFw_init ok_env 2 0 boot_cfg boot_mem = Some (True, s1) \<and> EthFw_initRemoteConfig ok_env True s1 = Some (ETHFW_SOK, s2) \<and>
    (let s = CpswProxyServer_remoteClientEthDriverTaskFxn ok_env [(0, 0, 2, 1, 40, \<lparr>rqToken = 0, rqId = 1, rqCmd = CMD_ATTACH 1\<rparr>)] s2;
         c = coreObj (gProxyServerObj s) ! 1
     in rmRefCnt c = int (in_use c) \<and> (mcm_attached 1 (calls s) \<longleftrightarrow> in_use c \<noteq> 0))"
proof -
  obtain s1 s2 where r: "EthFw_init ok_env 2 0 boot_cfg boot_mem = Some (True, s1)"
    "EthFw_initRemoteConfig ok_env True s1 = Some (ETHFW_SOK, s2)" using boot_runs by blast
  have "\<forall>k. \<not> mcm_attached k (calls boot_mem)" by (simp add: boot_mem_def mcm_attached_def)
  from boot_serves [OF r this, of "[(0, 0, 2, 1, 40, \<lparr>rqToken = 0, rqId = 1, rqCmd = CMD_ATTACH 1\<rparr>)]" 1] r show ?thesis
    by (simp add: ok_env_def)
qed

text \<open>
  The default configuration as it is stops the start at its first assertion.  Completed by
  the application with the driver, at most as many ports as the device has, the callback for them and a pool of
  addresses, and nothing else, it is accepted.
\<close>

theorem default_config:
  assumes "accepts e" "utilsAssert e" "isCpswType e enetType" "length (vlans (gEthFwVlanObj s)) = ETHFWVLAN_VLANS_MAX"
    and "macListMax e \<noteq> 0" "macListMax e < 2 ^ 32" "n \<noteq> 0" "length ps \<le> ETHFW_MAC_PORT_MAX e" "length ps \<le> macPortNum e"
  shows "let config = EthFw_initConfigParams e est errata allMac dflt
    in EthFw_init e enetType instId config s = None \<and>
       (\<exists>s'. EthFw_init e enetType instId (config\<lparr>cfDma := True, cfPorts := Some ps, cfSetPortCfg := True,
          cfCpswCfg := (cfCpswCfg config)\<lparr>numMacList := n\<rparr>\<rparr>) s = Some (True, s'))"
proof -
  let ?c = "EthFw_initConfigParams e est errata allMac dflt"
  let ?config = "?c\<lparr>cfDma := True, cfPorts := Some ps, cfSetPortCfg := True, cfCpswCfg := (cfCpswCfg ?c)\<lparr>numMacList := n\<rparr>\<rparr>"
  have "EthFw_init e enetType instId ?c s = None"
    using assms(2) by (simp add: EthFw_init_def EthFw_initConfigParams_def fw_assert_def)
  moreover have "boot_ready e enetType ?config ps s"
    using assms by (simp add: boot_ready_def)
  moreover have "ports_ok e ?config ps" "mirror_ok ?config" "static_vlans_ok e ?config ps"
    using assms(8) by (simp_all add: ports_ok_def mirror_ok_def static_vlans_ok_def EthFw_initConfigParams_def
        ETHFW_MAC_ONLY_PORTS_VLAN_ID_def ETHFW_SWITCH_PORTS_VLAN_ID_def ETHFW_VLAN_ID_MAX_def)
  moreover have "mcast_noticed e ?config" by (simp add: mcast_noticed_def mcast_cfg_ok_def EthFw_initConfigParams_def)
  ultimately show ?thesis using init_runs [of e enetType ?config ps s instId] unfolding Let_def by auto
qed

theorem default_config_witness:
  "let config = EthFw_initConfigParams ok_env False False 510 cpsw_zero
    in EthFw_init ok_env 2 0 config boot_mem = None \<and> (\<exists>s'. EthFw_init ok_env 2 0 (config\<lparr>cfDma := True, cfPorts := Some [0, 1],
      cfSetPortCfg := True, cfCpswCfg := (cfCpswCfg config)\<lparr>numMacList := 4\<rparr>\<rparr>) boot_mem = Some (True, s'))"
proof -
  have "length (vlans (gEthFwVlanObj boot_mem)) = ETHFWVLAN_VLANS_MAX" by (simp add: boot_mem_def vlan_zero_def)
  moreover have "accepts ok_env" "utilsAssert ok_env" "isCpswType ok_env 2" "macListMax ok_env = 8" "macPortNum ok_env = 8"
    "length [0, 1 :: u32] \<le> ETHFW_MAC_PORT_MAX ok_env" by (simp_all add: accepts_def ok_env_def ETHFW_MAC_PORT_MAX_def)
  ultimately show ?thesis by (intro default_config) simp_all
qed

end
