(* ===== verification/Partition.thy ===== *)
theory Partition
  imports BootOutcome
begin

text \<open>
  The partition of the DMA channels, flows and addresses among the cores, the separation of the ports
  into MAC-only and switch ports, and the late announcement.
\<close>

section \<open>The loop over a core's channels\<close>

lemma tx_loop_free:
  assumes "j < unat n" "unat n - j \<le> m" "unat n \<le> length src"
  shows "tx_rm_loop any src n (replicate m any) j = drop j (take (unat n) src) @ replicate (m - (unat n - j)) any"
  using assms
proof (induction m arbitrary: j)
  case (Suc m)
  have d: "drop j (take (unat n) src) = src ! j # drop (Suc j) (take (unat n) src)"
    using Suc.prems by (subst Cons_nth_drop_Suc [symmetric]) auto
  show ?case
  proof (cases "Suc j = unat n")
    case True
    then have "(of_nat (Suc j) :: u32) = n" by (metis of_nat_unat ucast_id)
    with True d show ?thesis by (simp add: Let_def)
  next
    case False
    then have l: "Suc j < unat n" using Suc.prems(1) by simp
    then have "Suc j < 2 ^ LENGTH(32)" using unsigned_less [of n] by (metis order_less_trans)
    then have "unat (of_nat (Suc j) :: u32) = Suc j" by (intro unat_of_nat32) simp
    with l have "(of_nat (Suc j) :: u32) \<noteq> n" by fastforce
    with False Suc.IH [of "Suc j"] Suc.prems d show ?thesis by (simp add: Let_def)
  qed
qed simp

lemma tx_loop_used:
  assumes "any \<notin> set used" "n \<noteq> 0"
  shows "tx_rm_loop any src n (used @ ds) 0 = used @ tx_rm_loop any src n ds 0"
  using assms by (induction used) (auto simp: Let_def)

section \<open>Adding up the ports\<close>

definition core_add :: "env \<Rightarrow> EthFwVirtPort_VirtPortCfg \<Rightarrow> EnetRm_CoreRes \<Rightarrow> EnetRm_CoreRes" where
  "core_add e v c = c\<lparr>rmNumTxCh := rmNumTxCh c + numTxCh v, rmNumRxFlows := rmNumRxFlows c + numRxFlow v,
     rmNumMacAddress := rmNumMacAddress c + vpNumMacAddress v, rmTxCh := tx_rm_loop (txChAny e) (txCh v) (numTxCh v) (rmTxCh c) 0\<rparr>"

abbreviation core_idx :: "EnetRm_ResPrms \<Rightarrow> EthFwVirtPort_VirtPortCfg \<Rightarrow> nat" where
  "core_idx r v \<equiv> EthFw_getCoreDmaResIndex (vpRemoteCoreId v) r"

definition rm_add :: "env \<Rightarrow> EthFwVirtPort_VirtPortCfg \<Rightarrow> EnetRm_ResPrms \<Rightarrow> EnetRm_ResPrms" where
  "rm_add e v r = (if core_idx r v < length (coreResInfo r)
     then r\<lparr>coreResInfo := (coreResInfo r)[core_idx r v := core_add e v (coreResInfo r ! core_idx r v)]\<rparr> else r)"

lemma add_port_rm_eq:
  "gEthFw_rmResPrms (add_port_rm e i s) = rm_add e (fwVirtPortCfg (gEthFwObj s) ! i) (gEthFw_rmResPrms s)"
  "gEthFwObj (add_port_rm e i s) = gEthFwObj s"
  by (simp_all add: add_port_rm_def rm_add_def EthFw_setTxChRmInfo_def upd_rm_def core_add_def Let_def fault_def)

lemma fold_add_port:
  "gEthFw_rmResPrms (fold (add_port_rm e) is s) = fold (rm_add e) (map (\<lambda>i. fwVirtPortCfg (gEthFwObj s) ! i) is) (gEthFw_rmResPrms s) \<and>
   gEthFwObj (fold (add_port_rm e) is s) = gEthFwObj s"
  by (induction "is" arbitrary: s) (simp_all add: add_port_rm_eq)

lemma core_idx_keys:
  "map rmCoreId (coreResInfo r) = map rmCoreId (coreResInfo r') \<Longrightarrow> numCores r = numCores r' \<Longrightarrow> core_idx r v = core_idx r' v"
proof -
  assume a: "map rmCoreId (coreResInfo r) = map rmCoreId (coreResInfo r')" "numCores r = numCores r'"
  have i: "EthFw_getCoreDmaResIndex i r = (case first_idx (\<lambda>k. k = i) (take (numCores r) (map rmCoreId (coreResInfo r))) of
      None \<Rightarrow> numCores r | Some k \<Rightarrow> k)" for i and r :: EnetRm_ResPrms
    by (simp add: EthFw_getCoreDmaResIndex_def take_map first_idx_map comp_def)
  show ?thesis by (simp only: i a)
qed

lemma rm_add_keys: "map rmCoreId (coreResInfo (rm_add e v r)) = map rmCoreId (coreResInfo r)" "numCores (rm_add e v r) = numCores r"
  "length (coreResInfo (rm_add e v r)) = length (coreResInfo r)"
  by (simp_all add: rm_add_def map_update core_add_def list_update_same_conv)

lemma fold_rm_add:
  assumes "k < length (coreResInfo r)"
  shows "coreResInfo (fold (rm_add e) vs r) ! k = fold (core_add e) (filter (\<lambda>v. core_idx r v = k) vs) (coreResInfo r ! k)"
  using assms
proof (induction vs arbitrary: r)
  case (Cons v vs)
  have i: "core_idx (rm_add e v r) x = core_idx r x" for x by (rule core_idx_keys) (simp_all add: rm_add_keys)
  have "coreResInfo (rm_add e v r) ! k = (if core_idx r v = k then core_add e v (coreResInfo r ! k) else coreResInfo r ! k)"
    using Cons.prems by (simp add: rm_add_def nth_list_update)
  with Cons.IH [of "rm_add e v r"] Cons.prems show ?case by (simp add: i rm_add_keys)
qed simp

lemma fold_core_add:
  "let c' = fold (core_add e) vs c in rmNumTxCh c' = rmNumTxCh c + (\<Sum>v\<leftarrow>vs. numTxCh v) \<and>
     rmNumRxFlows c' = rmNumRxFlows c + (\<Sum>v\<leftarrow>vs. numRxFlow v) \<and> rmNumMacAddress c' = rmNumMacAddress c + (\<Sum>v\<leftarrow>vs. vpNumMacAddress v) \<and>
     rmCoreId c' = rmCoreId c \<and> rmNumHwPush c' = rmNumHwPush c"
  by (induction vs arbitrary: c) (simp_all add: core_add_def Let_def)

text \<open>A port with its channels in order.\<close>

definition tx_ok :: "env \<Rightarrow> EthFwVirtPort_VirtPortCfg \<Rightarrow> bool" where
  "tx_ok e v \<longleftrightarrow> numTxCh v \<noteq> 0 \<and> unat (numTxCh v) \<le> length (txCh v) \<and> txChAny e \<notin> set (take (unat (numTxCh v)) (txCh v))"

definition tx_channels :: "EthFwVirtPort_VirtPortCfg \<Rightarrow> u32 list" where
  "tx_channels v = take (unat (numTxCh v)) (txCh v)"

lemma fold_core_tx:
  assumes "\<forall>v\<in>set vs. tx_ok e v" "rmTxCh c = used @ replicate m (txChAny e)" "txChAny e \<notin> set used" "length (concat (map tx_channels vs)) \<le> m"
  shows "rmTxCh (fold (core_add e) vs c) = used @ concat (map tx_channels vs) @ replicate (m - length (concat (map tx_channels vs))) (txChAny e)"
  using assms
proof (induction vs arbitrary: c used m)
  case (Cons v vs)
  have v: "numTxCh v \<noteq> 0" "unat (numTxCh v) \<le> length (txCh v)" "txChAny e \<notin> set (tx_channels v)" "length (tx_channels v) = unat (numTxCh v)"
    using Cons.prems(1) by (auto simp: tx_ok_def tx_channels_def)
  have n: "0 < unat (numTxCh v)" "unat (numTxCh v) \<le> m" using v Cons.prems(4) by (simp_all add: unat_gt_0)
  have "rmTxCh (core_add e v c) = (used @ tx_channels v) @ replicate (m - unat (numTxCh v)) (txChAny e)"
    using Cons.prems(2,3) v n by (simp add: core_add_def tx_loop_used tx_loop_free tx_channels_def)
  from Cons.IH [OF _ this] Cons.prems v show ?case by (simp add: diff_diff_add)
qed simp

text \<open>
  The resources of a core after the update are those before it plus what its virtual ports
  ask for, so an initialisation without a shutdown before it adds them again; a core whose list of
  channels was reset has its ports' channels in it, in order, and the rest free; the driver is given
  this partition.
\<close>

theorem rm_partition:
  assumes "EthFw_updateEnetRm e s = Some s'" "k < length (coreResInfo (gEthFw_rmResPrms s))"
    "fwNumVirtPorts (gEthFwObj s) \<le> length (fwVirtPortCfg (gEthFwObj s))"
  shows "let ob = gEthFwObj s; r = gEthFw_rmResPrms s; r' = gEthFw_rmResPrms s'; c = coreResInfo r ! k; c' = coreResInfo r' ! k;
      vs = filter (\<lambda>v. EthFw_getCoreDmaResIndex (vpRemoteCoreId v) r = k) (take (fwNumVirtPorts ob) (fwVirtPortCfg ob));
      chs = concat (map tx_channels vs)
    in rmNumTxCh c' = rmNumTxCh c + (\<Sum>v\<leftarrow>vs. numTxCh v) \<and> rmNumRxFlows c' = rmNumRxFlows c + (\<Sum>v\<leftarrow>vs. numRxFlow v) \<and>
      rmNumMacAddress c' = rmNumMacAddress c + (\<Sum>v\<leftarrow>vs. vpNumMacAddress v) \<and>
      (\<forall>n. rmTxCh c = replicate n (txChAny e) \<and> length chs \<le> n \<and> (\<forall>v\<in>set vs. tx_ok e v) \<longrightarrow>
        rmTxCh c' = chs @ replicate (n - length chs) (txChAny e)) \<and>
      resPartInfo (cpswCfg (gEthFwObj s')) = r'"
proof -
  let ?ob = "gEthFwObj s" and ?r = "gEthFw_rmResPrms s"
  let ?ps = "take (fwNumVirtPorts ?ob) (fwVirtPortCfg ?ob)"
  let ?vs = "filter (\<lambda>v. core_idx ?r v = k) ?ps" and ?c = "coreResInfo ?r ! k"
  let ?f = "fold (add_port_rm e) [0..<fwNumVirtPorts ?ob] s"
  have ps: "map (\<lambda>i. fwVirtPortCfg ?ob ! i) [0..<fwNumVirtPorts ?ob] = ?ps"
    using assms(3) by (simp add: list_eq_iff_nth_eq)
  have s': "gEthFw_rmResPrms s' = gEthFw_rmResPrms ?f" "resPartInfo (cpswCfg (gEthFwObj s')) = gEthFw_rmResPrms ?f"
    using assms(1) by (auto simp: EthFw_updateEnetRm_def Let_def fw_assert_def upd_fw_def upd_cpsw_def split: if_splits)
  have c': "coreResInfo (gEthFw_rmResPrms s') ! k = fold (core_add e) ?vs ?c"
    using fold_add_port [of e "[0..<fwNumVirtPorts ?ob]" s] by (simp add: s' ps fold_rm_add assms(2))
  have tx: "rmTxCh (fold (core_add e) ?vs ?c) = concat (map tx_channels ?vs) @ replicate (n - length (concat (map tx_channels ?vs))) (txChAny e)"
    if "rmTxCh ?c = replicate n (txChAny e)" "length (concat (map tx_channels ?vs)) \<le> n" "\<forall>v\<in>set ?vs. tx_ok e v" for n
    using fold_core_tx [of ?vs e ?c "[]" n] that by simp
  show ?thesis
    using fold_core_add [of e ?vs ?c] tx unfolding Let_def c' s'(2) by (auto simp: s'(1))
qed

section \<open>The modes of the ports\<close>

lemma fold_upd_length: "length (fold (\<lambda>x l. l[k x := f x (l ! k x)]) xs l) = length l"
  by (induction xs arbitrary: l) simp_all

lemma fold_upd_other: "j \<notin> k ` set xs \<Longrightarrow> fold (\<lambda>x l. l[k x := f x (l ! k x)]) xs l ! j = l ! j"
  by (induction xs arbitrary: l) simp_all

lemma fold_upd_nth:
  "distinct (map k xs) \<Longrightarrow> x \<in> set xs \<Longrightarrow> k x < length l \<Longrightarrow> fold (\<lambda>x l. l[k x := f x (l ! k x)]) xs l ! k x = f x (l ! k x)"
proof (induction xs arbitrary: l)
  case (Cons y ys)
  show ?case
  proof (cases "x = y")
    case True
    with Cons.prems show ?thesis by (simp add: fold_upd_other)
  next
    case False
    with Cons.prems have "x \<in> set ys" "k y \<noteq> k x" by (auto simp: rev_image_eqI)
    with Cons.IH [of "l[k y := f y (l ! k y)]"] Cons.prems show ?thesis by simp
  qed
qed simp

lemma ale_upd: "alePortCfg (cpswCfg (gEthFwObj (upd_ale_port k f s))) = (alePortCfg (cpswCfg (gEthFwObj s)))[k := f (alePortCfg (cpswCfg (gEthFwObj s)) ! k)]"
  by (simp add: upd_ale_port_def chk_idx_def fault_def upd_fw_def upd_cpsw_def)

lemma ale_fold:
  "alePortCfg (cpswCfg (gEthFwObj (fold (\<lambda>x. upd_ale_port (k x) (f x)) xs s))) =
    fold (\<lambda>x l. l[k x := f x (l ! k x)]) xs (alePortCfg (cpswCfg (gEthFwObj s)))"
  by (induction xs arbitrary: s) (simp_all add: ale_upd)

lemma setPortMode_nth:
  assumes "distinct (map (\<lambda>p. macPortToAlePort e (epMacPort p)) (take (fwNumPorts ob) (fwPorts ob)))" "p \<in> set (take (fwNumPorts ob) (fwPorts ob))"
    and "ob = gEthFwObj s" "k = unat (macPortToAlePort e (epMacPort p))" "0 < k" "k < length (alePortCfg (cpswCfg ob))"
  shows "alePortCfg (cpswCfg (gEthFwObj (EthFw_setPortMode e s))) ! k = port_mode e ob (epMacPort p) (alePortCfg (cpswCfg ob) ! k)"
proof -
  have "distinct (map (\<lambda>p. unat (macPortToAlePort e (epMacPort p))) (take (fwNumPorts ob) (fwPorts ob)))"
    using assms(1) by (auto simp: distinct_map inj_on_def dest: word_unat_eq_iff [THEN iffD2])
  from fold_upd_nth [OF this assms(2), of "alePortCfg (cpswCfg ob)" "\<lambda>p. port_mode e ob (epMacPort p)"] assms(3-6)
  show ?thesis by (simp add: EthFw_setPortMode_def Let_def ale_upd ale_fold)
qed

text \<open>The VLAN of the ports does not change the rest.\<close>

lemma port_vlan_keeps:
  "let ob' = fold (port_vlan e) is ob in map epMacPort (fwPorts ob') = map epMacPort (fwPorts ob) \<and> fwNumPorts ob' = fwNumPorts ob \<and>
     cpswCfg ob' = cpswCfg ob \<and> macOnlyPortMask ob' = macOnlyPortMask ob \<and> switchPortMask ob' = switchPortMask ob \<and>
     fwDfltVlanIdMacOnlyPorts ob' = fwDfltVlanIdMacOnlyPorts ob \<and> fwDfltVlanIdSwitchPorts ob' = fwDfltVlanIdSwitchPorts ob"
proof (induction "is" arbitrary: ob)
  case (Cons i "is")
  have "let ob' = port_vlan e i ob in map epMacPort (fwPorts ob') = map epMacPort (fwPorts ob) \<and> fwNumPorts ob' = fwNumPorts ob \<and>
     cpswCfg ob' = cpswCfg ob \<and> macOnlyPortMask ob' = macOnlyPortMask ob \<and> switchPortMask ob' = switchPortMask ob \<and>
     fwDfltVlanIdMacOnlyPorts ob' = fwDfltVlanIdMacOnlyPorts ob \<and> fwDfltVlanIdSwitchPorts ob' = fwDfltVlanIdSwitchPorts ob"
    by (auto simp: port_vlan_def Let_def map_update list_update_same_conv EthFw_getMacPortConfig_def split: option.splits)
      (metis (no_types, lifting) list_update_id map_update nth_map list_update_beyond not_le)
  with Cons.IH [of "port_vlan e i ob"] show ?case by (simp add: Let_def)
qed simp

lemma port_config_view:
  assumes "thenOK (EthFw_getDfltVlanId config s) (EthFw_getPortConfig e config) = (ETHFW_SOK, s')" "cfPorts config = Some ps"
    and "enabledPortMask (gEthFwObj s) = 0" "macOnlyPortMask (gEthFwObj s) = 0" "length ps \<le> length (fwPorts (gEthFwObj s))"
  shows "let ob = gEthFwObj s'; mo = mac_mask e (virt_mac_ports e (cfVirtPortCfg config)) in
    map epMacPort (take (fwNumPorts ob) (fwPorts ob)) = ps \<and> macOnlyPortMask ob = mo \<and> switchPortMask ob = mac_mask e ps AND NOT mo \<and>
    fwDfltVlanIdMacOnlyPorts ob = cfDfltVlanIdMacOnlyPorts config \<and> fwDfltVlanIdSwitchPorts ob = cfDfltVlanIdSwitchPorts config \<and>
    cfDfltVlanIdMacOnlyPorts config \<noteq> cfDfltVlanIdSwitchPorts config \<and>
    length (alePortCfg (cpswCfg ob)) = length (alePortCfg (cpswCfg (gEthFwObj s)))"
proof -
  have m: "map epMacPort (map2 (\<lambda>m p. p\<lparr>epMacPort := m\<rparr>) ps xs) = take (length xs) ps" for xs :: "EthFw_Port list"
    by (induction ps xs rule: list_induct2') simp_all
  have "length (upd_first n f xs) = length xs" for n f and xs :: "CpswAle_PortCfg list" by (simp add: upd_first_def)
  with assms m show ?thesis
    by (auto simp: thenOK_def EthFw_getDfltVlanId_def EthFw_getPortConfig_def Let_def upd_fw_def upd_rm_def upd_cpsw_def chk_idx_def fault_def
        split: if_splits)
qed

text \<open>A handle is only returned once the ports are configured: without a handle of the driver the VLANs fail.\<close>

lemma start_needs_driver:
  fixes r :: "int \<times> 'a fw_st_scheme"
  assumes "fw_start e config r = Some (ETHFW_SOK, s')"
  shows "fwHEnet (gEthFwObj (snd r))"
proof -
  have w: "whenOK q (EthFwMon_startTask e) = Some (ETHFW_SOK, s') \<Longrightarrow> fst q = ETHFW_SOK" for q :: "int \<times> 'a fw_st_scheme"
    by (cases q) (auto simp: whenOK_def split: if_splits)
  have chain: "fwHEnet (gEthFwObj (snd r))"
    if c: "fst (thenOK (thenOK q (EthFw_setupVlan e config)) d) = ETHFW_SOK" and v: "srv_view (snd q) = srv_view (snd r)" for q d
  proof -
    from c have "fwHEnet (gEthFwObj (snd q))"
      by (auto simp: fst_thenOK_0 EthFw_setupVlan_def Let_def split: if_splits)
    moreover have "fwHEnet (gEthFwObj (snd q)) = fwHEnet (gEthFwObj (snd r))"
      using arg_cong [OF v, of "\<lambda>x. fwHEnet (fst x)"] by (simp add: srv_view_def)
    ultimately show ?thesis by simp
  qed
  show ?thesis
  proof (cases "monitorSupport e")
    case True
    show ?thesis
      by (rule chain [OF w [OF assms [unfolded fw_start_def Let_def, simplified True if_True], unfolded fst_conv]])
        (simp add: srv_view_components)
  next
    case False
    have "fst q = ETHFW_SOK" if "Some q = Some (ETHFW_SOK, s')" for q :: "int \<times> 'a fw_st_scheme" using that by simp
    from this [OF assms [unfolded fw_start_def Let_def, simplified False if_False], unfolded fst_conv]
    show ?thesis by (rule chain) (simp add: srv_view_components)
  qed
qed

lemma configure_ale:
  fixes s s' :: "'a fw_st_scheme"
  assumes "fw_configure e t i config s = Some (st, s')" "fwHEnet (gEthFwObj s')"
  defines "s0 \<equiv> (upd_fw (\<lambda>_. (fw_zero e)\<lparr>cpswCfg := cfCpswCfg config\<rparr>) s)\<lparr>serverStatus := ETHREMOTECFG_SERVERSTATUS_UNINIT\<rparr>"
  shows "\<exists>s1. thenOK (EthFw_getDfltVlanId config s0) (EthFw_getPortConfig e config) = (ETHFW_SOK, s1) \<and>
    alePortCfg (cpswCfg (gEthFwObj s')) = alePortCfg (cpswCfg (gEthFwObj (EthFw_setPortMode e (EthFw_setPortVlan e s1)))) \<and>
    resPartInfo (cpswCfg (gEthFwObj s')) = gEthFw_rmResPrms s'"
proof -
  let ?r0 = "thenOK (EthFw_getDfltVlanId config s0) (EthFw_getPortConfig e config)"
  from assms(1) obtain r1 where r1: "whenOK ?r0 (\<lambda>s. EthFw_updateEnetRm e (EthFw_setPortMode e (EthFw_setPortVlan e s)) \<bind>
        (\<lambda>s. Some (ETHFW_SOK, fw_identify e t i s))) = Some r1"
      "whenOK r1 (\<lambda>s. EthFw_initMcm e s \<bind> (\<lambda>(status, s). fw_assert e (status = ETHFW_SOK) s \<bind> (\<lambda>s. Some (status, s)))) = Some (st, s')"
    by (auto simp: fw_configure_def Let_def bind_eq_Some_conv s0_def)
  have z: "\<not> fwHEnet (gEthFwObj (snd ?r0))"
    by (auto simp: thenOK_def EthFw_getDfltVlanId_def EthFw_getPortConfig_def Let_def upd_fw_def upd_rm_def upd_cpsw_def chk_idx_def
        fault_def s0_def fw_zero_def)
  have ok: "fst ?r0 = ETHFW_SOK"
  proof (rule ccontr)
    assume "fst ?r0 \<noteq> ETHFW_SOK"
    with r1 have "s' = snd ?r0" by (auto simp: whenOK_def)
    with z assms(2) show False by simp
  qed
  obtain s1 where s1: "?r0 = (ETHFW_SOK, s1)" using ok by (cases ?r0) auto
  with r1(1) obtain s2 where s2: "EthFw_updateEnetRm e (EthFw_setPortMode e (EthFw_setPortVlan e s1)) = Some s2"
    "r1 = (ETHFW_SOK, fw_identify e t i s2)" by (auto simp: whenOK_def bind_eq_Some_conv)
  let ?s = "EthFw_setPortMode e (EthFw_setPortVlan e s1)"
  have u: "alePortCfg (cpswCfg (gEthFwObj s2)) = alePortCfg (cpswCfg (gEthFwObj ?s))" "resPartInfo (cpswCfg (gEthFwObj s2)) = gEthFw_rmResPrms s2"
    using s2(1) fold_add_port [of e "[0..<fwNumVirtPorts (gEthFwObj ?s)]" ?s]
    by (auto simp: EthFw_updateEnetRm_def Let_def fw_assert_def upd_fw_def upd_cpsw_def split: if_splits)
  have "EthFw_initMcm e u = Some q \<Longrightarrow> cpswCfg (gEthFwObj (snd q)) = cpswCfg (gEthFwObj u) \<and> gEthFw_rmResPrms (snd q) = gEthFw_rmResPrms u" for q and u :: "'a fw_st_scheme"
    by (auto simp: EthFw_initMcm_def fw_assert_def Let_def call_st_def bind_eq_Some_conv upd_fw_def issue_def split: if_splits)
  with r1(2) s2(2) have "cpswCfg (gEthFwObj s') = cpswCfg (gEthFwObj s2)" "gEthFw_rmResPrms s' = gEthFw_rmResPrms s2"
    by (auto simp: whenOK_def bind_eq_Some_conv fw_identify_def upd_fw_def dest!: att_assert)
  with u s1 show ?thesis by auto
qed

lemma port_masks: "(push_bit n m OR h) AND (push_bit n en AND push_bit n (NOT m) OR h) = (h :: u32)"
  by (rule bit_word_eqI) (auto simp: bit_simps)

lemma mode_fields:
  "macOnlyEn (port_mode e ob p old) = EthFw_isMacOnlyPort e ob p" "noLearn (port_mode e ob p old) = EthFw_isMacOnlyPort e ob p"
  "pvVlanId (port_mode e ob p old) = ucast (if EthFw_isMacOnlyPort e ob p then fwDfltVlanIdMacOnlyPorts ob else fwDfltVlanIdSwitchPorts ob)"
  "pvUnregMcastFlood (port_mode e ob p old) = (if EthFw_isMacOnlyPort e ob p then push_bit 1 (macOnlyPortMask ob) OR hostPortMask e else 0)"
  "pvMembers (port_mode e ob p old) = push_bit 1 (if EthFw_isMacOnlyPort e ob p then macOnlyPortMask ob else switchPortMask ob) OR hostPortMask e"
  by (simp_all add: port_mode_def mac_only_mode_def switch_mode_def Let_def)

lemma init_modes:
  assumes "EthFw_init e enetType instId config s = Some (True, s')" "cfPorts config = Some ps" "length ps \<le> macPortNum e"
    and "distinct (map (macPortToAlePort e) ps)"
      "\<forall>p\<in>set ps. 0 < unat (macPortToAlePort e p) \<and> unat (macPortToAlePort e p) < length (alePortCfg (cfCpswCfg config))"
  shows "\<exists>ob. macOnlyPortMask ob = mac_mask e (virt_mac_ports e (cfVirtPortCfg config)) \<and>
    switchPortMask ob = mac_mask e ps AND NOT (mac_mask e (virt_mac_ports e (cfVirtPortCfg config))) \<and>
    fwDfltVlanIdMacOnlyPorts ob = cfDfltVlanIdMacOnlyPorts config \<and> fwDfltVlanIdSwitchPorts ob = cfDfltVlanIdSwitchPorts config \<and>
    cfDfltVlanIdMacOnlyPorts config \<noteq> cfDfltVlanIdSwitchPorts config \<and>
    (\<forall>p\<in>set ps. \<exists>old. alePortCfg (cpswCfg (gEthFwObj s')) ! unat (macPortToAlePort e p) = port_mode e ob p old)"
proof -
  from assms(1,2) obtain st s1 where c: "fw_configure e enetType instId config s = Some (st, s1)" "fw_start e config (st, s1) = Some (ETHFW_SOK, s')"
    by (auto simp: EthFw_init_def bind_eq_Some_conv dest!: att_assert)
  define s0 where "s0 = (upd_fw (\<lambda>_. (fw_zero e)\<lparr>cpswCfg := cfCpswCfg config\<rparr>) s)\<lparr>serverStatus := ETHREMOTECFG_SERVERSTATUS_UNINIT\<rparr>"
  from configure_ale [OF c(1)] start_needs_driver [OF c(2)] obtain s2 where
    s2: "thenOK (EthFw_getDfltVlanId config s0) (EthFw_getPortConfig e config) = (ETHFW_SOK, s2)"
      "alePortCfg (cpswCfg (gEthFwObj s1)) = alePortCfg (cpswCfg (gEthFwObj (EthFw_setPortMode e (EthFw_setPortVlan e s2))))"
    by (auto simp: s0_def)
  have s': "alePortCfg (cpswCfg (gEthFwObj s')) = alePortCfg (cpswCfg (gEthFwObj s1))"
    using arg_cong [OF srv_view_fw_start [OF c(2)], of "\<lambda>x. alePortCfg (cpswCfg (fst x))"] by (simp add: srv_view_def)
  define s3 where "s3 = EthFw_setPortVlan e s2"
  define ob where "ob = gEthFwObj s3"
  let ?mo = "mac_mask e (virt_mac_ports e (cfVirtPortCfg config))"
  have z: "enabledPortMask (gEthFwObj s0) = 0" "macOnlyPortMask (gEthFwObj s0) = 0" "length (fwPorts (gEthFwObj s0)) = macPortNum e"
    "cpswCfg (gEthFwObj s0) = cfCpswCfg config"
    by (simp_all add: s0_def upd_fw_def fw_zero_def)
  note v = port_config_view [OF s2(1) assms(2) z(1,2), unfolded z(3,4) Let_def, OF assms(3)]
  have ob3: "ob = fold (port_vlan e) [0..<fwNumPorts (gEthFwObj s2)] (gEthFwObj s2)"
    by (simp add: ob_def s3_def EthFw_setPortVlan_def upd_fw_def)
  note keep = port_vlan_keeps [of e "[0..<fwNumPorts (gEthFwObj s2)]" "gEthFwObj s2", unfolded Let_def]
  have ob: "map epMacPort (take (fwNumPorts ob) (fwPorts ob)) = ps" "macOnlyPortMask ob = ?mo" "switchPortMask ob = mac_mask e ps AND NOT ?mo"
    "fwDfltVlanIdMacOnlyPorts ob = cfDfltVlanIdMacOnlyPorts config" "fwDfltVlanIdSwitchPorts ob = cfDfltVlanIdSwitchPorts config"
    "length (alePortCfg (cpswCfg ob)) = length (alePortCfg (cfCpswCfg config))"
  proof -
    have "map epMacPort (take (fwNumPorts ob) (fwPorts ob)) = map epMacPort (take (fwNumPorts (gEthFwObj s2)) (fwPorts (gEthFwObj s2)))"
      unfolding take_map [symmetric] ob3 using keep by simp
    then show "map epMacPort (take (fwNumPorts ob) (fwPorts ob)) = ps" using v by simp
  qed (use v keep in \<open>simp_all add: ob3\<close>)
  have "distinct (map (\<lambda>p. macPortToAlePort e (epMacPort p)) (take (fwNumPorts ob) (fwPorts ob)))"
    using assms(4) by (simp add: ob(1) [symmetric] comp_def)
  note nth = setPortMode_nth [OF this _ ob_def]
  have at: "\<exists>old. alePortCfg (cpswCfg (gEthFwObj s')) ! unat (macPortToAlePort e p) = port_mode e ob p old" if "p \<in> set ps" for p
  proof -
    from that ob(1) obtain x where "x \<in> set (take (fwNumPorts ob) (fwPorts ob))" "p = epMacPort x" by fastforce
    with nth [of x "unat (macPortToAlePort e p)"] assms(5) that ob(6) show ?thesis by (auto simp: s' s2(2) s3_def)
  qed
  have "cfDfltVlanIdMacOnlyPorts config \<noteq> cfDfltVlanIdSwitchPorts config" using v by simp
  with ob(2-5) at show ?thesis by (intro exI [of _ ob]) blast
qed

text \<open>
  Property C18.  When a handle is returned, every configured port is in one of two modes: MAC-only if a
  virtual MAC port stands for it, and switch otherwise, each with the default VLAN of its kind; a
  MAC-only and a switch port have different default VLANs, whose members have only the host port in
  common, and no unregistered multicast is flooded to a switch port.
\<close>

theorem port_modes:
  assumes "EthFw_init e enetType instId config s = Some (True, s')" "cfPorts config = Some ps" "length ps \<le> macPortNum e"
    and "distinct (map (macPortToAlePort e) ps)"
      "\<forall>p\<in>set ps. 0 < unat (macPortToAlePort e p) \<and> unat (macPortToAlePort e p) < length (alePortCfg (cfCpswCfg config))"
  shows "let at = (\<lambda>p. alePortCfg (cpswCfg (gEthFwObj s')) ! unat (macPortToAlePort e p));
      mo = mac_mask e (virt_mac_ports e (cfVirtPortCfg config))
    in (\<forall>p\<in>set ps. (macOnlyEn (at p) \<longleftrightarrow> mo AND macPortMaskOf e p \<noteq> 0) \<and> (noLearn (at p) \<longleftrightarrow> macOnlyEn (at p)) \<and>
         pvVlanId (at p) = ucast (if macOnlyEn (at p) then cfDfltVlanIdMacOnlyPorts config else cfDfltVlanIdSwitchPorts config) \<and>
         (\<not> macOnlyEn (at p) \<longrightarrow> pvUnregMcastFlood (at p) = 0)) \<and>
       (\<forall>p\<in>set ps. \<forall>q\<in>set ps. macOnlyEn (at p) \<and> \<not> macOnlyEn (at q) \<longrightarrow>
         pvVlanId (at p) \<noteq> pvVlanId (at q) \<and> pvMembers (at p) AND pvMembers (at q) = hostPortMask e)"
proof -
  let ?mo = "mac_mask e (virt_mac_ports e (cfVirtPortCfg config))"
  from init_modes [OF assms] obtain ob where ob: "macOnlyPortMask ob = ?mo" "switchPortMask ob = mac_mask e ps AND NOT ?mo"
    "fwDfltVlanIdMacOnlyPorts ob = cfDfltVlanIdMacOnlyPorts config" "fwDfltVlanIdSwitchPorts ob = cfDfltVlanIdSwitchPorts config"
    and vid: "cfDfltVlanIdMacOnlyPorts config \<noteq> cfDfltVlanIdSwitchPorts config"
    and at: "\<And>p. p \<in> set ps \<Longrightarrow> \<exists>old. alePortCfg (cpswCfg (gEthFwObj s')) ! unat (macPortToAlePort e p) = port_mode e ob p old"
    by blast
  have mo: "EthFw_isMacOnlyPort e ob p \<longleftrightarrow> ?mo AND macPortMaskOf e p \<noteq> 0" for p by (simp add: EthFw_isMacOnlyPort_def ob(1))
  show ?thesis
    unfolding Let_def
  proof (intro conjI ballI impI, goal_cases)
    case (1 p)
    from at [OF this] show ?case by (auto simp: mode_fields mo)
  next
    case (2 p)
    from at [OF this] show ?case by (auto simp: mode_fields)
  next
    case (3 p)
    from at [OF this] show ?case by (auto simp: mode_fields ob(3,4))
  next
    case (4 p)
    from at [OF this(1)] this(2) show ?case by (auto simp: mode_fields)
  next
    case (5 p q)
    from at [OF this(1)] at [OF this(2)] this(3) vid show ?case by (auto simp: mode_fields ob(3,4))
  next
    case (6 p q)
    from at [OF this(1)] at [OF this(2)] this(3) show ?case
      by (auto simp: mode_fields ob(1,2) simp del: push_bit_Suc push_bit_of_Suc_0 intro!: port_masks)
  qed
qed

section \<open>The late announcement\<close>

definition client_service :: "'a proxy_st_scheme \<Rightarrow> CpswProxyServer_ClientServiceObj" where
  "client_service s = clientServiceObj (gProxyServerObj s)"

lemma client_service_upd [simp]:
  "client_service (issue c s) = client_service s" "client_service (fault f s) = client_service s"
  "client_service (chk_idx g i n s) = client_service s" "client_service (upd_asr n j s) = client_service s"
  "client_service (upd_client_service h s) = h (client_service s)" "client_service (upd_notify_service k s) = client_service s"
  by (simp_all add: client_service_def upd_asr_def upd_client_service_def upd_notify_service_def upd_srv_def issue_def fault_def chk_idx_def)

lemma client_service_srv:
  "(\<And>ob. clientServiceObj (f ob) = clientServiceObj ob) \<Longrightarrow> client_service (upd_srv f s) = client_service s"
  by (simp add: client_service_def upd_srv_def)

lemma client_service_asr: "init_asr_ports e vs r = Some r' \<Longrightarrow> client_service (snd r') = client_service (snd r)"
proof (induction vs arbitrary: r)
  case (Cons v vs)
  have "client_service (snd q') = client_service (snd q)" if "init_asr_port e v q = Some q'" for q q' :: "int \<times> 'a proxy_st_scheme"
    using that by (auto simp: init_asr_port_def CpswProxyServer_initAutosarEthDeviceEp_def Let_def bind_eq_Some_conv client_service_srv
        split: if_splits dest!: att_assert)
  from this [of r] Cons show ?case by (cases r) (fastforce simp: bind_eq_Some_conv)
qed simp

lemma client_service_eps:
  "fst (CpswProxyServer_initRemoteClientEthDeviceEp e s) = ETHFW_SOK \<Longrightarrow>
    let k = client_service (snd (CpswProxyServer_initRemoteClientEthDeviceEp e s))
    in rpmsgStartSem k = map_option (\<lambda>_. 1) (rpmsgStartSem (client_service s)) \<and> csLocalEp k = CPSWPROXY_REMOTE_SERVICE_ENDPT_ID"
  "client_service (snd (CpswProxyServer_initNotifyServiceEp e s)) = client_service s"
  by (auto simp: CpswProxyServer_initRemoteClientEthDeviceEp_def CpswProxyServer_initNotifyServiceEp_def Let_def thenOK_def split: if_splits)

lemma services_sem:
  fixes s :: "'a proxy_st_scheme"
  assumes "srv_services e cfg s = Some (st, s')" "utilsAssert e"
  shows "rpmsgStartSem (client_service s') = Some 1 \<and> csLocalEp (client_service s') = CPSWPROXY_REMOTE_SERVICE_ENDPT_ID"
  using assms(1) unfolding srv_services_def Let_def
  by (auto simp: bind_eq_Some_conv case_prod_beta fw_assert_def assms(2) client_service_srv client_service_eps [unfolded Let_def]
      split: if_splits dest!: client_service_asr)

text \<open>
  After the remote configuration has started, one late announcement sends the end point of
  the remote service to a core; a second one, for this core or another, never returns: the semaphore it
  waits for is posted once, when the end point is created.
\<close>

theorem late_announce_once:
  assumes "EthFw_initRemoteConfig e True s = Some (ETHFW_SOK, s2)" "utilsAssert e"
  shows "\<exists>st s3. EthFw_lateAnnounce e True p s2 = Some (st, s3) \<and>
    calls s3 = calls s2 @ [Osal_pendSemaphore, Ipc_announce p CPSWPROXY_REMOTE_SERVICE_ENDPT_ID] \<and>
    (\<forall>q. EthFw_lateAnnounce e True q s3 = None)"
proof -
  from assms(1) obtain t mcm cfg s1 where "CpswProxyServer_init e mcm cfg t = Some (ETHFW_SOK, s1)" "s2 = EthFw_setStatus ETHREMOTECFG_SERVERSTATUS_READY s1"
    by (auto simp: EthFw_initRemoteConfig_def Let_def bind_eq_Some_conv)
  then obtain u where "srv_services e cfg u = Some (ETHFW_SOK, s1)" "client_service s2 = client_service s1"
    by (auto simp: CpswProxyServer_init_def Let_def bind_eq_Some_conv case_prod_beta client_service_def EthFw_setStatus_def split: if_splits)
  with services_sem [OF _ assms(2)] have k: "rpmsgStartSem (client_service s2) = Some 1"
    "csLocalEp (client_service s2) = CPSWPROXY_REMOTE_SERVICE_ENDPT_ID" by auto
  let ?s3 = "upd_client_service (\<lambda>k. k\<lparr>rpmsgStartSem := Some 0\<rparr>) (issue Osal_pendSemaphore s2)"
  have c: "calls ?s3 = calls s2 @ [Osal_pendSemaphore]" by (simp add: upd_client_service_def upd_srv_def)
  have "client_service ?s3 = (client_service s2)\<lparr>rpmsgStartSem := Some 0\<rparr>" by simp
  with k have s3: "rpmsgStartSem (client_service (issue c ?s3)) = Some 0" "csLocalEp (client_service ?s3) = CPSWPROXY_REMOTE_SERVICE_ENDPT_ID" for c
    by simp_all
  have "EthFw_lateAnnounce e True p s2 = Some (call_st e (Ipc_announce p CPSWPROXY_REMOTE_SERVICE_ENDPT_ID) ?s3)"
    using k(1) s3(2) by (simp add: EthFw_lateAnnounce_def CpswProxyServer_lateAnnounce_def fw_assert_def client_service_def)
  moreover have "EthFw_lateAnnounce e True q (issue c ?s3) = None" for q c
    using s3(1) by (simp add: EthFw_lateAnnounce_def CpswProxyServer_lateAnnounce_def fw_assert_def client_service_def)
  ultimately show ?thesis by (simp add: call_st_def c)
qed

section \<open>At a concrete start\<close>

definition rm_demo :: fw_st where
  "rm_demo = boot_mem\<lparr>gEthFwObj := (fw_zero ok_env)\<lparr>fwVirtPortCfg := boot_ports, fwNumVirtPorts := 2, cpswCfg := cfCpswCfg boot_cfg\<rparr>,
     gEthFw_rmResPrms := (rm_initial ok_env)\<lparr>coreResInfo :=
       map (\<lambda>c. c\<lparr>rmTxCh := replicate 8 (txChAny ok_env)\<rparr>) (coreResInfo (rm_initial ok_env))\<rparr>\<rparr>"

lemma rm_demo_runs: "\<exists>s'. EthFw_updateEnetRm ok_env rm_demo = Some s'"
proof -
  have "gEthFwObj (fold (add_port_rm ok_env) is rm_demo) = gEthFwObj rm_demo" for "is" using fold_add_port [of ok_env "is" rm_demo] by simp
  then show ?thesis
    by (simp add: EthFw_updateEnetRm_def Let_def fw_assert_def upd_fw_def upd_cpsw_def)
      (simp add: rm_demo_def boot_cfg_def ok_env_def)
qed

lemma rm_demo_cores:
  "coreResInfo (gEthFw_rmResPrms rm_demo) = map2 (\<lambda>c p. \<lparr>rmCoreId = c, rmNumTxCh = 0, rmTxCh = replicate 8 0xFFFF, rmNumRxFlows = 0,
     rmNumMacAddress = 0, rmNumHwPush = p\<rparr>) [0, 1, 3, 4, 5, 6] [2, 2, 2, 1, 1, 0]" "numCores (gEthFw_rmResPrms rm_demo) = 6"
  "gEthFwObj rm_demo = (fw_zero ok_env)\<lparr>fwVirtPortCfg := boot_ports, fwNumVirtPorts := 2, cpswCfg := cfCpswCfg boot_cfg\<rparr>"
  by (simp_all add: rm_demo_def rm_initial_def ok_env_def Let_def)

theorem rm_partition_witness:
  "\<exists>s'. EthFw_updateEnetRm ok_env rm_demo = Some s' \<and> (let c = coreResInfo (gEthFw_rmResPrms s') ! 3 in
     rmNumTxCh c = 2 \<and> rmNumRxFlows c = 1 \<and> rmNumMacAddress c = 1 \<and> rmTxCh c = 4 # 5 # replicate 6 0xFFFF)"
proof -
  obtain s' where s': "EthFw_updateEnetRm ok_env rm_demo = Some s'" using rm_demo_runs by blast
  have k: "EthFw_getCoreDmaResIndex 4 (gEthFw_rmResPrms rm_demo) = 3" "EthFw_getCoreDmaResIndex 1 (gEthFw_rmResPrms rm_demo) = 1"
    by (simp_all add: EthFw_getCoreDmaResIndex_def rm_demo_cores)
  have vs: "filter (\<lambda>v. EthFw_getCoreDmaResIndex (vpRemoteCoreId v) (gEthFw_rmResPrms rm_demo) = 3) boot_ports = [boot_ports ! 0]"
    by (simp add: boot_ports_def k)
  have v: "tx_ok ok_env (boot_ports ! 0)" "tx_channels (boot_ports ! 0) = [4, 5]" "numTxCh (boot_ports ! 0) = 2" "numRxFlow (boot_ports ! 0) = 1"
    "vpNumMacAddress (boot_ports ! 0) = 1"
    by (simp_all add: tx_ok_def tx_channels_def boot_ports_def ok_env_def)
  have l: "length boot_ports = 2" "txChAny ok_env = 0xFFFF" by (simp_all add: boot_ports_def ok_env_def)
  have "\<forall>x\<in>set (filter (\<lambda>v. EthFw_getCoreDmaResIndex (vpRemoteCoreId v) (gEthFw_rmResPrms rm_demo) = 3) boot_ports). tx_ok ok_env x"
    unfolding vs using v(1) by simp
  then have "\<forall>x. x \<in> set boot_ports \<and> core_idx (gEthFw_rmResPrms rm_demo) x = 3 \<longrightarrow> tx_ok ok_env x" by simp
  with rm_partition [OF s', of 3] s' show ?thesis
    by (simp add: rm_demo_cores vs v Let_def l)
qed

theorem port_modes_witness:
  "\<exists>s'. EthFw_init ok_env 2 0 boot_cfg boot_mem = Some (True, s') \<and>
    (let al = alePortCfg (cpswCfg (gEthFwObj s')) in macOnlyEn (al ! 1) \<and> \<not> macOnlyEn (al ! 2) \<and> pvMembers (al ! 1) AND pvMembers (al ! 2) = 1)"
proof -
  obtain s1 where s1: "EthFw_init ok_env 2 0 boot_cfg boot_mem = Some (True, s1)" using boot_runs by blast
  have c: "cfPorts boot_cfg = Some [0, 1, 2]" "length (alePortCfg (cfCpswCfg boot_cfg)) = 9" "macPortToAlePort ok_env = (\<lambda>p. p + 1)"
    "macPortNum ok_env = 8" "hostPortMask ok_env = 1" by (simp_all add: boot_cfg_def ok_env_def)
  have mo: "mac_mask ok_env (virt_mac_ports ok_env (cfVirtPortCfg boot_cfg)) = 1" "macPortMaskOf ok_env = ETHFW_BIT"
    by (simp_all add: mac_mask_def virt_mac_ports_def boot_cfg_def boot_ports_def EthFwVirtPort_isMacPort_def EthFwVirtPort_getMacPort_def
        port_const_defs ok_env_def ETHFW_BIT_def)
  from port_modes [OF s1 c(1)] have "let al = alePortCfg (cpswCfg (gEthFwObj s1)) in macOnlyEn (al ! 1) \<and> \<not> macOnlyEn (al ! 2) \<and>
      pvMembers (al ! 1) AND pvMembers (al ! 2) = 1"
    by (simp add: c mo Let_def ETHFW_BIT_def)
  with s1 show ?thesis by blast
qed

theorem late_announce_once_witness:
  "\<exists>s1 s2 st s3. EthFw_init ok_env 2 0 boot_cfg boot_mem = Some (True, s1) \<and> EthFw_initRemoteConfig ok_env True s1 = Some (ETHFW_SOK, s2) \<and>
    EthFw_lateAnnounce ok_env True 0 s2 = Some (st, s3) \<and> EthFw_lateAnnounce ok_env True 1 s3 = None"
proof -
  obtain s1 s2 where r: "EthFw_init ok_env 2 0 boot_cfg boot_mem = Some (True, s1)"
    "EthFw_initRemoteConfig ok_env True s1 = Some (ETHFW_SOK, s2)" using boot_runs by blast
  have "utilsAssert ok_env" by (simp add: ok_env_def)
  from late_announce_once [OF r(2) this, of 0] r show ?thesis by blast
qed

end
