(* ===== verification/VirtNetif.thy ===== *)
theory VirtNetif
  imports ProxyRpc "HOL-Library.Monad_Syntax"
begin

text \<open>
  The network interfaces of a remote core (\<^verbatim>\<open>apps/app_remoteswitchcfg_client/virtnetif_lwipif.c\<close>, the
  build with the monitor, DHCP and without inter-core interfaces): what lwIP's driver asks for when
  it opens and closes an interface, the recovery task that closes and reopens the DMA channels around
  a reset of the switch, the start of the interfaces and the address call-back.  An interface is named by its
  index in \<open>virtNetif\<close>.

  A failed \<^verbatim>\<open>EnetAppUtils_assert\<close> stops the core: the result is \<open>None\<close>, as it is for a command that
  never returns.  \<^verbatim>\<open>LWIPIF_LWIP_openDma\<close> and \<^verbatim>\<open>LWIPIF_LWIP_closeDma\<close> are lwIP's driver, which is not
  part of the repository: the functions that call them take them as arguments.
\<close>

section \<open>Data\<close>

definition CPSW_REMOTE_APP_PACKET_POLL_PERIOD_US :: u32 where "CPSW_REMOTE_APP_PACKET_POLL_PERIOD_US = 1000"
definition ETHAPP_VIRTNETIF_MBX_MSGCOUNT :: nat where "ETHAPP_VIRTNETIF_MBX_MSGCOUNT = 4"

record CpswRemoteApp_VirtNetif =
  niProxy :: "nat option"              \<comment> \<open>\<^verbatim>\<open>hCpswProxy\<close>\<close>
  niVirtPort :: EthRemoteCfg_VirtPort
  niFeatures :: u32
  niMacAddr :: eth_addr
  niIpv4Addr :: ipv4
  niIsDfltNetif :: bool

record CpswRemoteApp_HwRecoveryMsg =
  rmNetif :: nat
  rmNotifyType :: u32

record CpswRemoteApp_VirtNetifObj =
  virtNetif :: "CpswRemoteApp_VirtNetif list"
  niUdmaDrv :: bool                    \<comment> \<open>\<^verbatim>\<open>hUdmaDrv\<close> is not NULL\<close>
  niEnetDma :: bool
  useExtAttach :: bool
  useDefaultRxFlow :: bool
  niMbx :: "CpswRemoteApp_HwRecoveryMsg list"   \<comment> \<open>the messages in the mailbox \<^verbatim>\<open>hMbx\<close>\<close>

record ni_st = pc_st +
  gVirtNetifObj :: CpswRemoteApp_VirtNetifObj
  netif_default :: "nat option"

text \<open>The initial value of \<^verbatim>\<open>gVirtNetifObj\<close>, with or without the interface of the virtual MAC port.\<close>

definition ETHREMOTECFG_SWITCH_PORT_1 :: u32 where "ETHREMOTECFG_SWITCH_PORT_1 = 26"
definition ETHREMOTECFG_MAC_PORT_4 :: u32 where "ETHREMOTECFG_MAC_PORT_4 = 4"

definition netif_initial :: "bool \<Rightarrow> CpswRemoteApp_VirtNetifObj" where
  "netif_initial withMacPort =
     \<lparr>virtNetif = \<lparr>niProxy = None, niVirtPort = ETHREMOTECFG_SWITCH_PORT_1, niFeatures = 0, niMacAddr = zero_mac,
         niIpv4Addr = (0, 0, 0, 0), niIsDfltNetif = True\<rparr>
       # (if withMacPort then [\<lparr>niProxy = None, niVirtPort = ETHREMOTECFG_MAC_PORT_4, niFeatures = 0, niMacAddr = zero_mac,
            niIpv4Addr = (0, 0, 0, 0), niIsDfltNetif = False\<rparr>] else []),
      niUdmaDrv = False, niEnetDma = False, useExtAttach = False, useDefaultRxFlow = False, niMbx = []\<rparr>"

definition ni_at :: "'a ni_st_scheme \<Rightarrow> nat \<Rightarrow> CpswRemoteApp_VirtNetif" where
  "ni_at s i = virtNetif (gVirtNetifObj s) ! i"

definition upd_ni :: "nat \<Rightarrow> (CpswRemoteApp_VirtNetif \<Rightarrow> CpswRemoteApp_VirtNetif) \<Rightarrow> 'a ni_st_scheme \<Rightarrow> 'a ni_st_scheme" where
  "upd_ni i f s = s\<lparr>gVirtNetifObj := (gVirtNetifObj s)\<lparr>virtNetif := (virtNetif (gVirtNetifObj s))[i := f (ni_at s i)]\<rparr>\<rparr>"

text \<open>What lwIP's driver passes and gets (the structures \<^verbatim>\<open>LwipifEnetAppIf\<close>, as far as this file uses them).\<close>

record TxHandleInfo =
  hTxChannel :: "nat option"
  txChNum :: u32
  txPortNum :: u32
  txDisableEvent :: bool

record RxHandleInfo =
  hRxFlow :: "nat option"
  rxFlowStartIdx :: u32
  rxFlowIdx :: u32
  rxMacAddr :: eth_addr
  rxDisableEvent :: bool

record GetHandleInArgs =
  txNumPackets :: u32
  rxNumPackets :: u32

record GetHandleOutArgs =
  handleArg :: nat
  outUdmaDrv :: bool
  hostPortRxMtu :: u32
  txMtu0 :: u32
  txCsumOffloadEn :: bool
  rxCsumOffloadEn :: bool
  timerPeriodUs :: u32
  txInfo :: TxHandleInfo
  rxInfo :: RxHandleInfo

record ReleaseHandleInfo =
  relTxInfo :: TxHandleInfo
  relRxInfo :: RxHandleInfo
  txFreePkt :: nat
  rxFreePkt :: nat

section \<open>Calls\<close>

definition app :: "app_call \<Rightarrow> 'a cworld_scheme \<Rightarrow> 'a cworld_scheme" where
  "app c = cissue (AppCall c)"

definition app_status :: "cenv \<Rightarrow> app_call \<Rightarrow> 'a cworld_scheme \<Rightarrow> int \<times> 'a cworld_scheme" where
  "app_status e c s = (cstatus_of e (ccalls s) (AppCall c), app c s)"

text \<open>Opening a channel: the number of the call, or NULL.\<close>

definition app_open :: "cenv \<Rightarrow> app_call \<Rightarrow> 'a cworld_scheme \<Rightarrow> nat option \<times> 'a cworld_scheme" where
  "app_open e c s = (if chandle_of e (ccalls s) (AppCall c) then Some (length (ccalls s)) else None, app c s)"

definition app_assert :: "bool \<Rightarrow> unit option" where
  "app_assert b = (if b then Some () else None)"

section \<open>Opening an interface\<close>

definition CpswProxy_isSwitchPort :: "EthRemoteCfg_VirtPort \<Rightarrow> bool" where
  "CpswProxy_isSwitchPort p \<longleftrightarrow> ETHREMOTECFG_SWITCH_PORT_0 \<le> p \<and> p \<le> ETHREMOTECFG_SWITCH_PORT_LAST"

definition CpswProxy_isMacPort :: "EthRemoteCfg_VirtPort \<Rightarrow> bool" where
  "CpswProxy_isMacPort p \<longleftrightarrow> ETHREMOTECFG_MAC_PORT_1 \<le> p \<and> p \<le> ETHREMOTECFG_MAC_PORT_LAST"

definition CpswRemoteApp_getMacPort :: "cenv \<Rightarrow> EthRemoteCfg_VirtPort \<Rightarrow> u32" where
  "CpswRemoteApp_getMacPort e p =
     (if CpswProxy_isMacPort p then denormMacPort e (p - ETHREMOTECFG_MAC_PORT_1) else invMacPort e)"

definition CpswRemoteApp_openLwipTxCh :: "cenv \<Rightarrow> u32 \<Rightarrow> GetHandleInArgs \<Rightarrow> TxHandleInfo \<Rightarrow> 'a cworld_scheme \<Rightarrow> (TxHandleInfo \<times> 'a cworld_scheme) option" where
  "CpswRemoteApp_openLwipTxCh e txPSILId ia ti s =
     (let (hd, s) = app_open e (EnetUdma_openTxCh txPSILId (txNumPackets ia)) s in
      do { app_assert (hd \<noteq> None); Some (ti\<lparr>txChNum := txPSILId, hTxChannel := hd\<rparr>, s) })"

definition CpswRemoteApp_openLwipRxCh ::
    "cenv \<Rightarrow> nat \<Rightarrow> bool \<Rightarrow> u32 \<Rightarrow> u32 \<Rightarrow> eth_addr \<Rightarrow> GetHandleInArgs \<Rightarrow> RxHandleInfo \<Rightarrow> u32 \<Rightarrow> bool \<Rightarrow> 'a pc_st_scheme \<Rightarrow>
     (RxHandleInfo \<times> 'a pc_st_scheme) option" where
  "CpswRemoteApp_openLwipRxCh e h useDefaultFlow base off mac ia ri mtu isSwitchPort s =
     (let (hd, s) = app_open e (EnetUdma_openRxFlow base off (rxNumPackets ia) mtu) s in
      do { app_assert (hd \<noteq> None);
           (_, s) \<leftarrow> if useDefaultFlow \<and> isSwitchPort then CpswProxy_registerDefaultRxFlow e h base off s
                     else CpswProxy_registerDstMacRxFlow e h base off mac s;
           Some (ri\<lparr>rxFlowStartIdx := base, rxFlowIdx := off, rxMacAddr := mac, hRxFlow := hd\<rparr>, s) })"

text \<open>
  What is attached and allocated for an interface: the arguments as far as they are set, the transmit channel and the
  flow.  No status is looked at; after an extended attach that failed the words are what the stack held.
\<close>

definition attach_netif :: "cenv \<Rightarrow> nat \<Rightarrow> nat \<Rightarrow> GetHandleOutArgs \<Rightarrow> 'a ni_st_scheme \<Rightarrow>
    (GetHandleOutArgs \<times> u32 \<times> u32 \<times> u32 \<times> 'a ni_st_scheme) option" where
  "attach_netif e i h oa s =
     (let port = niVirtPort (ni_at s i) in
      if useExtAttach (gVirtNetifObj s)
      then do {
        let stk = stackWord e (ccalls s);
        (_, outs, s) \<leftarrow> CpswProxy_attachExtended e h port s;
        Some (case outs of
            Some (rx, tx, feat, psil, base, off, mac) \<Rightarrow>
              (oa\<lparr>hostPortRxMtu := rx, txMtu0 := tx\<rparr>, psil, base, off, upd_ni i (\<lambda>n. n\<lparr>niMacAddr := mac, niFeatures := feat\<rparr>) s)
          | None \<Rightarrow> (oa, stk 0, stk 1, stk 2, s)) }
      else do {
        (_, outs, s) \<leftarrow> CpswProxy_attach e h port s;
        let (oa, s) = (case outs of
            Some (rx, tx, feat, _, _) \<Rightarrow> (oa\<lparr>hostPortRxMtu := rx, txMtu0 := tx\<rparr>, upd_ni i (\<lambda>n. n\<lparr>niFeatures := feat\<rparr>) s)
          | None \<Rightarrow> (oa, s));
        (_, psil, s) \<leftarrow> CpswProxy_allocTxCh e h 0 s;
        (_, (base, off), s) \<leftarrow> CpswProxy_allocRxFlow e h 0 s;
        (_, mac, s) \<leftarrow> CpswProxy_allocMac e h s;
        Some (oa, psil, base, off, upd_ni i (\<lambda>n. n\<lparr>niMacAddr := mac\<rparr>) s) })"

definition LwipifEnetAppCb_getHandle :: "cenv \<Rightarrow> nat \<Rightarrow> GetHandleInArgs \<Rightarrow> GetHandleOutArgs \<Rightarrow> 'a ni_st_scheme \<Rightarrow> (GetHandleOutArgs \<times> 'a ni_st_scheme) option" where
  "LwipifEnetAppCb_getHandle e i ia oa s = do {
     h \<leftarrow> niProxy (ni_at s i);
     let oa = oa\<lparr>handleArg := h, outUdmaDrv := niUdmaDrv (gVirtNetifObj s), txCsumOffloadEn := True, rxCsumOffloadEn := True,
           rxInfo := (rxInfo oa)\<lparr>rxDisableEvent := True\<rparr>, timerPeriodUs := CPSW_REMOTE_APP_PACKET_POLL_PERIOD_US,
           txInfo := (txInfo oa)\<lparr>txDisableEvent := True, txPortNum := CpswRemoteApp_getMacPort e (niVirtPort (ni_at s i))\<rparr>\<rparr>;
     (oa, psil, base, off, s) \<leftarrow> attach_netif e i h oa s;
     (ti, s) \<leftarrow> CpswRemoteApp_openLwipTxCh e psil ia (txInfo oa) s;
     (ri, s) \<leftarrow> CpswRemoteApp_openLwipRxCh e h (useDefaultRxFlow (gVirtNetifObj s)) base off (niMacAddr (ni_at s i)) ia (rxInfo oa)
                  (hostPortRxMtu oa) (CpswProxy_isSwitchPort (niVirtPort (ni_at s i))) s;
     Some (oa\<lparr>txInfo := ti, rxInfo := ri\<rparr>, s) }"

definition LwipifEnetAppCb_isPortLinked :: "cenv \<Rightarrow> nat \<Rightarrow> 'a pc_st_scheme \<Rightarrow> (bool \<times> 'a pc_st_scheme) option" where
  "LwipifEnetAppCb_isPortLinked e h s = CpswProxy_isPhyLinked e h s"

section \<open>Closing an interface\<close>

definition CpswRemoteApp_closeLwipTxCh :: "cenv \<Rightarrow> nat \<Rightarrow> TxHandleInfo \<Rightarrow> nat \<Rightarrow> 'a pc_st_scheme \<Rightarrow> 'a pc_st_scheme option" where
  "CpswRemoteApp_closeLwipTxCh e h ti freeFxn s = do {
     let s = app (EnetDma_disableTxEvent (hTxChannel ti)) s;
     let (status, s) = app_status e (EnetUdma_closeTxCh (hTxChannel ti)) s;
     app_assert (status = ETHFW_SOK);
     (_, s) \<leftarrow> CpswProxy_freeTxCh e h (txChNum ti) s;
     Some (app (FreePkts freeFxn) s) }"

definition CpswRemoteApp_closeLwipRxCh :: "cenv \<Rightarrow> nat \<Rightarrow> bool \<Rightarrow> ipv4 \<Rightarrow> RxHandleInfo \<Rightarrow> nat \<Rightarrow> bool \<Rightarrow> 'a pc_st_scheme \<Rightarrow> 'a pc_st_scheme option" where
  "CpswRemoteApp_closeLwipRxCh e h useDefaultFlow ip ri freeFxn isSwitchPort s = do {
     let s = app (EnetDma_disableRxEvent (hRxFlow ri)) s;
     (_, s) \<leftarrow> if isSwitchPort then CpswProxy_unregisterIPV4Addr e h ip s else Some (ETHFW_SOK, s);
     (_, s) \<leftarrow> if useDefaultFlow \<and> isSwitchPort
               then CpswProxy_unregisterDefaultRxFlow e h (rxFlowStartIdx ri) (rxFlowIdx ri) s
               else CpswProxy_unregisterDstMacRxFlow e h (rxFlowStartIdx ri) (rxFlowIdx ri) (rxMacAddr ri) s;
     let (status, s) = app_status e (EnetUdma_closeRxFlow (hRxFlow ri)) s;
     app_assert (status = ETHFW_SOK);
     (_, s) \<leftarrow> CpswProxy_freeMac e h (rxMacAddr ri) s;
     (_, s) \<leftarrow> CpswProxy_freeRxFlow e h (rxFlowStartIdx ri) (rxFlowIdx ri) s;
     Some (app (FreePkts freeFxn) s) }"

definition LwipifEnetAppCb_releaseHandle :: "cenv \<Rightarrow> nat \<Rightarrow> ReleaseHandleInfo \<Rightarrow> 'a ni_st_scheme \<Rightarrow> 'a ni_st_scheme option" where
  "LwipifEnetAppCb_releaseHandle e i rel s = do {
     h \<leftarrow> niProxy (ni_at s i);
     let sw = CpswProxy_isSwitchPort (niVirtPort (ni_at s i));
     s \<leftarrow> CpswRemoteApp_closeLwipTxCh e h (relTxInfo rel) (txFreePkt rel) s;
     s \<leftarrow> CpswRemoteApp_closeLwipRxCh e h (useDefaultRxFlow (gVirtNetifObj s)) (niIpv4Addr (ni_at s i)) (relRxInfo rel) (rxFreePkt rel) sw s;
     (_, s) \<leftarrow> CpswProxy_detach e h s;
     Some s }"

section \<open>Reset of the switch\<close>

text \<open>The DMA channels alone are closed and opened again; the registration of the destination MAC address goes with them.\<close>

definition LwipifEnetAppCb_openDma :: "cenv \<Rightarrow> nat \<Rightarrow> GetHandleInArgs \<Rightarrow> GetHandleOutArgs \<Rightarrow> 'a ni_st_scheme \<Rightarrow> (GetHandleOutArgs \<times> 'a ni_st_scheme) option" where
  "LwipifEnetAppCb_openDma e i ia oa s = do {
     h \<leftarrow> niProxy (ni_at s i);
     let (tx, s) = app_open e (EnetUdma_openTxCh (txChNum (txInfo oa)) (txNumPackets ia)) s;
     let oa = oa\<lparr>txInfo := (txInfo oa)\<lparr>hTxChannel := tx\<rparr>\<rparr>;
     app_assert (tx \<noteq> None);
     let ri = rxInfo oa;
     let (rx, s) = app_open e (EnetUdma_openRxFlow (rxFlowStartIdx ri) (rxFlowIdx ri) (rxNumPackets ia) (hostPortRxMtu oa)) s;
     let oa = oa\<lparr>rxInfo := (rxInfo oa)\<lparr>hRxFlow := rx\<rparr>\<rparr>;
     app_assert (rx \<noteq> None);
     (_, s) \<leftarrow> CpswProxy_registerDstMacRxFlow e h (rxFlowStartIdx ri) (rxFlowIdx ri) (rxMacAddr ri) s;
     Some (oa, s) }"

definition LwipifEnetAppCb_closeDma :: "cenv \<Rightarrow> nat \<Rightarrow> ReleaseHandleInfo \<Rightarrow> 'a ni_st_scheme \<Rightarrow> (ReleaseHandleInfo \<times> 'a ni_st_scheme) option" where
  "LwipifEnetAppCb_closeDma e i rel s = do {
     h \<leftarrow> niProxy (ni_at s i);
     let ti = relTxInfo rel;
     let ri = relRxInfo rel;
     app_assert (hTxChannel ti \<noteq> None);
     app_assert (hRxFlow ri \<noteq> None);
     let s = app (EnetDma_disableTxEvent (hTxChannel ti)) s;
     let s = app (EnetUdma_closeTxCh (hTxChannel ti)) s;
     let s = app (FreePkts (txFreePkt rel)) s;
     let s = app (EnetDma_disableRxEvent (hRxFlow ri)) s;
     (_, s) \<leftarrow> CpswProxy_unregisterDstMacRxFlow e h (rxFlowStartIdx ri) (rxFlowIdx ri) (rxMacAddr ri) s;
     let s = app (EnetUdma_closeRxFlow (hRxFlow ri)) s;
     let s = app (SleepTask 200) s;
     let s = app (FreePkts (rxFreePkt rel)) s;
     Some (rel\<lparr>relTxInfo := ti\<lparr>hTxChannel := None\<rparr>, relRxInfo := ri\<lparr>hRxFlow := None\<rparr>\<rparr>, s) }"

text \<open>\<open>lwOpen\<close> and \<open>lwClose\<close> stand for \<^verbatim>\<open>LWIPIF_LWIP_openDma\<close> and \<^verbatim>\<open>LWIPIF_LWIP_closeDma\<close>.\<close>

definition EthApp_openDma :: "(nat \<Rightarrow> 'a ni_st_scheme \<Rightarrow> 'a ni_st_scheme option) \<Rightarrow> nat \<Rightarrow> 'a ni_st_scheme \<Rightarrow> 'a ni_st_scheme option" where
  "EthApp_openDma lwOpen i s = do { s \<leftarrow> lwOpen i s; Some (app (Netif_set_link_up i) s) }"

definition EthApp_closeDma :: "(nat \<Rightarrow> 'a ni_st_scheme \<Rightarrow> 'a ni_st_scheme option) \<Rightarrow> nat \<Rightarrow> 'a ni_st_scheme \<Rightarrow> 'a ni_st_scheme option" where
  "EthApp_closeDma lwClose i s = lwClose i (app (Netif_set_link_down i) s)"

definition upd_mbx :: "(CpswRemoteApp_HwRecoveryMsg list \<Rightarrow> CpswRemoteApp_HwRecoveryMsg list) \<Rightarrow> 'a ni_st_scheme \<Rightarrow> 'a ni_st_scheme" where
  "upd_mbx f s = s\<lparr>gVirtNetifObj := (gVirtNetifObj s)\<lparr>niMbx := f (niMbx (gVirtNetifObj s))\<rparr>\<rparr>"

text \<open>
  The mailbox is the operating system's: what \<^verbatim>\<open>MailboxP_post\<close> and \<^verbatim>\<open>MailboxP_pend\<close> do to the messages in it is
  a parameter.  Both are called with \<^verbatim>\<open>MailboxP_WAIT_FOREVER\<close>; \<open>None\<close> is a caller that has to wait.
\<close>

record mailbox_ops =
  MailboxP_post :: "CpswRemoteApp_HwRecoveryMsg \<Rightarrow> CpswRemoteApp_HwRecoveryMsg list \<Rightarrow> CpswRemoteApp_HwRecoveryMsg list option"
  MailboxP_pend :: "CpswRemoteApp_HwRecoveryMsg list \<Rightarrow> (CpswRemoteApp_HwRecoveryMsg \<times> CpswRemoteApp_HwRecoveryMsg list) option"

text \<open>What is documented of a mailbox created for \<open>count\<close> messages: it is a queue in which nothing is lost.\<close>

definition mailbox_ok :: "nat \<Rightarrow> mailbox_ops \<Rightarrow> bool" where
  "mailbox_ok count mb \<longleftrightarrow>
     (\<forall>m q. length q < count \<longrightarrow> MailboxP_post mb m q = Some (q @ [m])) \<and>
     (\<forall>m q. count \<le> length q \<longrightarrow> MailboxP_post mb m q = None) \<and>
     MailboxP_pend mb [] = None \<and> (\<forall>m q. MailboxP_pend mb (m # q) = Some (m, q))"

definition post_recovery :: "mailbox_ops \<Rightarrow> CpswRemoteApp_HwRecoveryMsg \<Rightarrow> 'a ni_st_scheme \<Rightarrow> 'a ni_st_scheme option" where
  "post_recovery mb m s = map_option (\<lambda>q. upd_mbx (\<lambda>_. q) s) (MailboxP_post mb m (niMbx (gVirtNetifObj s)))"

definition CpswRemoteApp_hwRecoveryNotify :: "mailbox_ops \<Rightarrow> u32 \<Rightarrow> nat \<Rightarrow> 'a ni_st_scheme \<Rightarrow> 'a ni_st_scheme option" where
  "CpswRemoteApp_hwRecoveryNotify mb notifyType i s =
     (if notifyType = ETHREMOTECFG_NOTIFY_HWERROR then post_recovery mb \<lparr>rmNetif = i, rmNotifyType = notifyType\<rparr> s
      else if notifyType = ETHREMOTECFG_NOTIFY_HWRECOVERY_COMPLETE then post_recovery mb \<lparr>rmNetif = i, rmNotifyType = notifyType\<rparr> s
      else Some s)"

text \<open>A turn of the task on the message it takes from the mailbox.\<close>

definition recover_netif ::
    "cenv \<Rightarrow> (nat \<Rightarrow> 'a ni_st_scheme \<Rightarrow> 'a ni_st_scheme option) \<Rightarrow> (nat \<Rightarrow> 'a ni_st_scheme \<Rightarrow> 'a ni_st_scheme option) \<Rightarrow>
     CpswRemoteApp_HwRecoveryMsg \<Rightarrow> 'a ni_st_scheme \<Rightarrow> 'a ni_st_scheme option" where
  "recover_netif e lwOpen lwClose m s =
     (if rmNotifyType m = ETHREMOTECFG_NOTIFY_HWERROR
      then do {
        s \<leftarrow> EthApp_closeDma lwClose (rmNetif m) s;
        h \<leftarrow> niProxy (ni_at s (rmNetif m));
        (_, s) \<leftarrow> CpswProxy_teardownCompletion e h s;
        Some s }
      else if rmNotifyType m = ETHREMOTECFG_NOTIFY_HWRECOVERY_COMPLETE then EthApp_openDma lwOpen (rmNetif m) s
      else Some s)"

text \<open>\<open>None\<close> while the mailbox is empty: the task waits.\<close>

definition CpswRemoteApp_hwRecoveryTask ::
    "cenv \<Rightarrow> mailbox_ops \<Rightarrow> (nat \<Rightarrow> 'a ni_st_scheme \<Rightarrow> 'a ni_st_scheme option) \<Rightarrow> (nat \<Rightarrow> 'a ni_st_scheme \<Rightarrow> 'a ni_st_scheme option) \<Rightarrow>
     'a ni_st_scheme \<Rightarrow> 'a ni_st_scheme option" where
  "CpswRemoteApp_hwRecoveryTask e mb lwOpen lwClose s =
     (case MailboxP_pend mb (niMbx (gVirtNetifObj s)) of
        None \<Rightarrow> None
      | Some (m, ms) \<Rightarrow> recover_netif e lwOpen lwClose m (upd_mbx (\<lambda>_. ms) s))"

section \<open>Start\<close>

definition CpswRemoteApp_openUdma :: "cenv \<Rightarrow> 'a ni_st_scheme \<Rightarrow> int \<times> 'a ni_st_scheme" where
  "CpswRemoteApp_openUdma e s =
     (let (status, s) = app_status e Udma_init s
      in (status, s\<lparr>gVirtNetifObj := (gVirtNetifObj s)\<lparr>niUdmaDrv := status = ETHFW_SOK\<rparr>\<rparr>))"

definition CpswRemoteApp_openCpswProxy :: "nat \<Rightarrow> 'a ni_st_scheme \<Rightarrow> 'a ni_st_scheme option" where
  "CpswRemoteApp_openCpswProxy i s =
     (case CpswProxy_open (niVirtPort (ni_at s i)) s of
        (None, s) \<Rightarrow> None
      | (Some h, s) \<Rightarrow>
          (let s = upd_ni i (\<lambda>n. n\<lparr>niProxy := Some h\<rparr>) s;
               s = snd (CpswProxy_registerNotifyCb h ETHREMOTECFG_NOTIFY_HWERROR i s)
           in Some (snd (CpswProxy_registerNotifyCb h ETHREMOTECFG_NOTIFY_HWRECOVERY_COMPLETE i s))))"

primrec open_proxies :: "nat list \<Rightarrow> 'a ni_st_scheme \<Rightarrow> 'a ni_st_scheme option" where
  "open_proxies [] s = Some s"
| "open_proxies (i # is) s = do { s \<leftarrow> CpswRemoteApp_openCpswProxy i s; open_proxies is s }"

definition init_drivers :: "cenv \<Rightarrow> 'a ni_st_scheme \<Rightarrow> 'a ni_st_scheme" where
  "init_drivers e s =
     (let (status, s) = CpswRemoteApp_openUdma e s;
          (status, s) = (if status = ETHFW_SOK then app_status e EnetMem_init s else (status, s))
      in if status = ETHFW_SOK
         then (let (hd, s) = app_open e EnetUdma_initDataPath s;
                   s = s\<lparr>gVirtNetifObj := (gVirtNetifObj s)\<lparr>niEnetDma := hd \<noteq> None\<rparr>\<rparr>
               in if hd = None then app EnetMem_deInit s else s)
         else s)"

text \<open>The proxies are opened, and the mailbox and the task made, whatever became of the drivers.\<close>

definition CpswRemoteApp_initVirtNetif :: "cenv \<Rightarrow> 'a ni_st_scheme \<Rightarrow> 'a ni_st_scheme option" where
  "CpswRemoteApp_initVirtNetif e s = do {
     let s = init_drivers e s;
     s \<leftarrow> open_proxies [0..<length (virtNetif (gVirtNetifObj s))] s;
     let s = upd_mbx (\<lambda>_. []) (app CreateRecoveryMbx s);
     Some (app CreateRecoveryTask s) }"

text \<open>lwIP's interface, its default (\<^verbatim>\<open>netif_set_default\<close> sets \<open>netif_default\<close>) and DHCP.\<close>

definition EthApp_initNetif :: "nat \<Rightarrow> 'a ni_st_scheme \<Rightarrow> 'a ni_st_scheme" where
  "EthApp_initNetif i s =
     (let s = app (Netif_add i) s;
          s = (if niIsDfltNetif (ni_at s i) then (app (Netif_set_default i) s)\<lparr>netif_default := Some i\<rparr> else s);
          s = app (Netif_set_status_callback i) s;
          target = (if CpswProxy_isSwitchPort (niVirtPort (ni_at s i)) then netif_default s else Some i);
          s = app (Dhcp_set_struct target i) s;
          s = app (Netif_set_up i) s
      in app (Dhcp_start target) s)"

definition EthApp_initLwip :: "'a ni_st_scheme \<Rightarrow> 'a ni_st_scheme" where
  "EthApp_initLwip s = app SignalInit (fold EthApp_initNetif [0..<length (virtNetif (gVirtNetifObj s))] s)"

text \<open>\<open>up\<close> and \<open>addr\<close>: the state and the address of the interface.\<close>

definition EthApp_virtNetifStatusCb :: "cenv \<Rightarrow> nat \<Rightarrow> bool \<Rightarrow> ipv4 \<Rightarrow> 'a ni_st_scheme \<Rightarrow> 'a ni_st_scheme option" where
  "EthApp_virtNetifStatusCb e i up addr s =
     (if up \<and> addr \<noteq> (0, 0, 0, 0)
      then do {
        let s = upd_ni i (\<lambda>n. n\<lparr>niIpv4Addr := addr\<rparr>) s;
        h \<leftarrow> niProxy (ni_at s i);
        if CpswProxy_isSwitchPort (niVirtPort (ni_at s i))
        then do { (_, s) \<leftarrow> CpswProxy_registerIPV4Addr e h (niMacAddr (ni_at s i)) (niIpv4Addr (ni_at s i)) s; Some s }
        else Some s }
      else Some s)"

section \<open>Requests for the time synchronisation\<close>

definition TsCouplerClient_allocHwPushInst :: "cenv \<Rightarrow> 'a ni_st_scheme \<Rightarrow> (int \<times> u32 option \<times> 'a ni_st_scheme) option" where
  "TsCouplerClient_allocHwPushInst e s = do { h \<leftarrow> niProxy (ni_at s 0); CpswProxy_allocHwPushInst e h s }"

definition TsCouplerClient_registerRemoteTimer :: "cenv \<Rightarrow> u32 \<Rightarrow> u32 \<Rightarrow> 'a ni_st_scheme \<Rightarrow> (int \<times> 'a ni_st_scheme) option" where
  "TsCouplerClient_registerRemoteTimer e hwPushNum tsRouterTntrId s = do {
     h \<leftarrow> niProxy (ni_at s 0); CpswProxy_registerRemoteTimer e h (ucast tsRouterTntrId) (ucast hwPushNum) s }"

definition CpswRemoteApp_unregisterRemoteTimer :: "cenv \<Rightarrow> u32 \<Rightarrow> 'a ni_st_scheme \<Rightarrow> (int \<times> 'a ni_st_scheme) option" where
  "CpswRemoteApp_unregisterRemoteTimer e hwPushNum s = do {
     h \<leftarrow> niProxy (ni_at s 0); CpswProxy_unregisterRemoteTimer e h (ucast hwPushNum) s }"

section \<open>What an operation does\<close>

text \<open>The requests and the calls of the drivers, in order.\<close>

datatype netif_event = Req EthRemoteCfg_Cmd | Drv app_call

fun event_of :: "ccall \<Rightarrow> netif_event list" where
  "event_of (SendReq _ _ _ _ r) = [Req (rqCmd r)]"
| "event_of (AppCall c) = [Drv c]"
| "event_of _ = []"

definition netif_events :: "'a cworld_scheme \<Rightarrow> netif_event list" where
  "netif_events s = concat (map event_of (ccalls s))"

text \<open>Only the calls and the client objects move, and the calls give these events.\<close>

definition does :: "netif_event list \<Rightarrow> 'a ni_st_scheme \<Rightarrow> 'a ni_st_scheme \<Rightarrow> bool" where
  "does es s s' \<longleftrightarrow> pc_st.more s' = pc_st.more s \<and> netif_events s' = netif_events s @ es"

lemma does_refl [intro]: "does [] s s"
  by (simp add: does_def)

lemma does_trans [trans]: "does xs s t \<Longrightarrow> does ys t u \<Longrightarrow> does (xs @ ys) s u"
  by (simp add: does_def)

lemma netif_events_app [simp]: "netif_events (app c s) = netif_events s @ [Drv c]"
  by (simp add: netif_events_def app_def)

lemma more_app [simp]: "pc_st.more (app c s) = pc_st.more s" "gCpswProxy (app c s) = gCpswProxy s"
  by (simp_all add: app_def cissue_def)

lemma does_app: "does [Drv c] s (app c s)"
  by (simp add: does_def)

lemma obj_of_more: "pc_st.more s' = pc_st.more s \<Longrightarrow> gVirtNetifObj s' = gVirtNetifObj s \<and> ni_at s' i = ni_at s i"
  by (cases s; cases s') (simp add: ni_at_def)

lemma doesD:
  assumes "does es s s'"
  shows "gVirtNetifObj s' = gVirtNetifObj s" "ni_at s' i = ni_at s i" "netif_events s' = netif_events s @ es"
  using assms obj_of_more by (auto simp: does_def)

text \<open>A command.\<close>

lemma await_more:
  assumes "await_response e t reqId r (s :: 'a pc_st_scheme) = Some (m, s')"
  shows "pc_st.more s' = pc_st.more s"
proof -
  have more: "pc_st.more (snd (pends e t n x)) = pc_st.more (snd x)" for n and x :: "(int \<times> CpswProxy_Msg) \<times> 'a pc_st_scheme"
    by (induction n arbitrary: x) (simp_all add: pends_simps pend_once_def cissue_def)
  from await_ends [OF assms] obtain n where "\<not> late reqId (pends e t (Suc n) (r, s))" "\<forall>k<n. late reqId (pends e t (Suc k) (r, s))"
    unfolding exists_least_iff [of "\<lambda>n. \<not> late reqId (pends e t (Suc n) (r, s))"] by blast
  from await_Some [OF this(2,1)] assms have "s' = snd (pends e t (Suc n) (r, s))" by (metis option.inject snd_conv)
  then show ?thesis by (simp only: more snd_conv)
qed

lemma sendCmd_more:
  assumes "CpswProxy_sendCmd e h cmd len (c :: 'a pc_st_scheme) = Some (st, res, c')"
  shows "pc_st.more c' = pc_st.more c"
proof -
  have "pc_st.more (cissue x (bump h c)) = pc_st.more c" for x
    by (simp add: bump_def upd_pc_def upd_px_def cissue_def)
  with assms show ?thesis
    by (auto simp: sendCmd_eq Let_def split: option.splits if_splits prod.splits dest!: await_more)
qed

lemma sendCmd_does:
  assumes "CpswProxy_sendCmd e h cmd len s = Some (st, res, s')"
  shows "does [Req cmd] s s'"
proof -
  from sendCmd_px [OF assms] obtain n t where "ccalls s' = ccalls s @ send_call h cmd s # replicate n (PendMailbox t)" by blast
  moreover have "concat (map event_of (replicate n (PendMailbox t))) = []" by (induction n) simp_all
  ultimately have "netif_events s' = netif_events s @ [Req cmd]"
    by (simp add: netif_events_def send_call_def sent_req_def Let_def)
  with sendCmd_more [OF assms] show ?thesis by (simp add: does_def)
qed

lemma status_cmd_does: "CpswProxy_status_cmd e h cmd s = Some (st, s') \<Longrightarrow> does [Req cmd] s s'"
  by (auto simp: CpswProxy_status_cmd_def intro: sendCmd_does)

lemmas status_cmds = CpswProxy_detach_def CpswProxy_freeTxCh_def CpswProxy_freeRxFlow_def CpswProxy_freeMac_def
  CpswProxy_registerDefaultRxFlow_def CpswProxy_unregisterDefaultRxFlow_def CpswProxy_registerDstMacRxFlow_def
  CpswProxy_unregisterDstMacRxFlow_def CpswProxy_registerIPV4Addr_def CpswProxy_unregisterIPV4Addr_def
  CpswProxy_teardownCompletion_def

lemma app_parts [simp]:
  "(case app_status e c s of (x, y) \<Rightarrow> f x y) = f (fst (app_status e c s)) (app c s)"
  "(case app_open e c s of (x, y) \<Rightarrow> g x y) = g (fst (app_open e c s)) (app c s)"
  by (simp_all add: app_status_def app_open_def)

lemma app_assert_Some [simp]: "app_assert b = Some u \<longleftrightarrow> b"
  by (simp add: app_assert_def)

text \<open>As \<open>does\<close>, but the address and the features of interface \<open>i\<close> may move.\<close>

definition acts :: "nat \<Rightarrow> netif_event list \<Rightarrow> 'a ni_st_scheme \<Rightarrow> 'a ni_st_scheme \<Rightarrow> bool" where
  "acts i es s s' \<longleftrightarrow> netif_events s' = netif_events s @ es
     \<and> (\<exists>mac feat. pc_st.more s' = pc_st.more (upd_ni i (\<lambda>n. n\<lparr>niMacAddr := mac, niFeatures := feat\<rparr>) s))"

lemma upd_ni_same [simp]: "upd_ni i (\<lambda>n. n\<lparr>niMacAddr := niMacAddr (ni_at s i), niFeatures := niFeatures (ni_at s i)\<rparr>) s = s"
  by (simp add: upd_ni_def ni_at_def)

lemma acts_trans [trans]:
  assumes "acts i xs s t" "acts i ys t u"
  shows "acts i (xs @ ys) s u"
proof -
  from assms(1) obtain m f where 1: "netif_events t = netif_events s @ xs"
    "pc_st.more t = pc_st.more (upd_ni i (\<lambda>n. n\<lparr>niMacAddr := m, niFeatures := f\<rparr>) s)"
    by (auto simp: acts_def)
  from assms(2) obtain m' f' where 2: "netif_events u = netif_events t @ ys"
    "pc_st.more u = pc_st.more (upd_ni i (\<lambda>n. n\<lparr>niMacAddr := m', niFeatures := f'\<rparr>) t)"
    by (auto simp: acts_def)
  have "pc_st.more (upd_ni i (\<lambda>n. n\<lparr>niMacAddr := m', niFeatures := f'\<rparr>) t) = pc_st.more (upd_ni i (\<lambda>n. n\<lparr>niMacAddr := m', niFeatures := f'\<rparr>) s)"
    using 1(2) by (cases s; cases t; cases "i < length (virtNetif (gVirtNetifObj s))")
      (simp_all add: upd_ni_def ni_at_def list_update_beyond)
  with 1 2 show ?thesis by (auto simp: acts_def)
qed

lemma does_acts: "does es s s' \<Longrightarrow> acts i es s s'"
  unfolding acts_def does_def by (metis upd_ni_same)

lemma acts_upd: "acts i [] s (upd_ni i (\<lambda>n. n\<lparr>niMacAddr := mac, niFeatures := feat\<rparr>) s)"
  by (auto simp: acts_def netif_events_def upd_ni_def)

lemma actsD:
  assumes "acts i es s s'"
  shows "useDefaultRxFlow (gVirtNetifObj s') = useDefaultRxFlow (gVirtNetifObj s)"
    "niProxy (ni_at s' j) = niProxy (ni_at s j)" "niVirtPort (ni_at s' j) = niVirtPort (ni_at s j)"
    "netif_events s' = netif_events s @ es"
  using assms
  by (cases s; cases s'; cases "i < length (virtNetif (gVirtNetifObj s))"; cases "i = j";
      auto simp: acts_def upd_ni_def ni_at_def list_update_beyond)+

lemma acts_upd_mac: "acts i [] s (upd_ni i (\<lambda>n. n\<lparr>niMacAddr := mac\<rparr>) s)"
  and acts_upd_feat: "acts i [] s (upd_ni i (\<lambda>n. n\<lparr>niFeatures := feat\<rparr>) s)"
proof -
  have "(\<lambda>n. n\<lparr>niMacAddr := mac\<rparr>) (ni_at s i) = (\<lambda>n. n\<lparr>niMacAddr := mac, niFeatures := niFeatures (ni_at s i)\<rparr>) (ni_at s i)"
    "(\<lambda>n. n\<lparr>niFeatures := feat\<rparr>) (ni_at s i) = (\<lambda>n. n\<lparr>niMacAddr := niMacAddr (ni_at s i), niFeatures := feat\<rparr>) (ni_at s i)"
    by simp_all
  then show "acts i [] s (upd_ni i (\<lambda>n. n\<lparr>niMacAddr := mac\<rparr>) s)" "acts i [] s (upd_ni i (\<lambda>n. n\<lparr>niFeatures := feat\<rparr>) s)"
    using acts_upd unfolding upd_ni_def by metis+
qed

lemma upd_pc_does: "does es s t \<Longrightarrow> does es s (upd_pc h f t)"
  by (simp add: does_def netif_events_def upd_pc_def upd_px_def)

lemma attach_does:
  "CpswProxy_attach e h port s = Some (st, outs, s') \<Longrightarrow> does [Req (CMD_ATTACH port)] s s'"
  "CpswProxy_attachExtended e h port s = Some (st, outs', s') \<Longrightarrow> does [Req (CMD_ATTACH_EXT port)] s s'"
  by (auto simp: CpswProxy_attach_def CpswProxy_attachExtended_def Let_def case_prod_beta
      split: option.splits if_splits dest!: sendCmd_does intro: upd_pc_does)

lemma alloc_does:
  "CpswProxy_allocTxCh e h prio s = Some (st, psil, s') \<Longrightarrow> does [Req (CMD_ALLOC_TX prio)] s s'"
  "CpswProxy_allocRxFlow e h idx s = Some (st, fl, s') \<Longrightarrow> does [Req (CMD_ALLOC_RX idx)] s s'"
  "CpswProxy_allocMac e h s = Some (st, mac, s') \<Longrightarrow> does [Req CMD_ALLOC_MAC] s s'"
  by (auto simp: CpswProxy_allocTxCh_def CpswProxy_allocRxFlow_def CpswProxy_allocMac_def dest: sendCmd_does)

definition attach_events :: "bool \<Rightarrow> EthRemoteCfg_VirtPort \<Rightarrow> netif_event list" where
  "attach_events ext port = (if ext then [Req (CMD_ATTACH_EXT port)]
     else [Req (CMD_ATTACH port), Req (CMD_ALLOC_TX 0), Req (CMD_ALLOC_RX 0), Req CMD_ALLOC_MAC])"

lemma attach_netif_acts:
  assumes "attach_netif e i h oa s = Some (oa', psil, base, off, s')"
  shows "acts i (attach_events (useExtAttach (gVirtNetifObj s)) (niVirtPort (ni_at s i))) s s'"
    "txInfo oa' = txInfo oa" "rxInfo oa' = rxInfo oa"
proof -
  let ?p = "niVirtPort (ni_at s i)"
  have "acts i (attach_events (useExtAttach (gVirtNetifObj s)) ?p) s s' \<and> txInfo oa' = txInfo oa \<and> rxInfo oa' = rxInfo oa"
  proof (cases "useExtAttach (gVirtNetifObj s)")
    case True
    with assms obtain st outs s1 where a: "CpswProxy_attachExtended e h ?p s = Some (st, outs, s1)"
      and r: "(case outs of Some (rx, tx, feat, psil, base, off, mac) \<Rightarrow>
                (oa\<lparr>hostPortRxMtu := rx, txMtu0 := tx\<rparr>, psil, base, off, upd_ni i (\<lambda>n. n\<lparr>niMacAddr := mac, niFeatures := feat\<rparr>) s1)
              | None \<Rightarrow> (oa, stackWord e (ccalls s) 0, stackWord e (ccalls s) 1, stackWord e (ccalls s) 2, s1)) = (oa', psil, base, off, s')"
      by (auto simp: attach_netif_def Let_def split: Option.bind_splits)
    have "acts i [Req (CMD_ATTACH_EXT ?p)] s s1" by (rule does_acts, rule attach_does(2) [OF a])
    with r acts_trans [OF this acts_upd] show ?thesis
      using True by (auto simp: attach_events_def split: option.splits)
  next
    case False
    with assms obtain st outs s1 st2 s3 st3 s4 st4 mac s5
      where a: "CpswProxy_attach e h ?p s = Some (st, outs, s1)"
        and b: "CpswProxy_allocTxCh e h 0 (case outs of Some (rx, tx, feat, _, _) \<Rightarrow> upd_ni i (\<lambda>n. n\<lparr>niFeatures := feat\<rparr>) s1 | None \<Rightarrow> s1) = Some (st2, psil, s3)"
        and c: "CpswProxy_allocRxFlow e h 0 s3 = Some (st3, (base, off), s4)"
        and d: "CpswProxy_allocMac e h s4 = Some (st4, mac, s5)"
        and r: "s' = upd_ni i (\<lambda>n. n\<lparr>niMacAddr := mac\<rparr>) s5" "txInfo oa' = txInfo oa \<and> rxInfo oa' = rxInfo oa"
      by (cases "CpswProxy_attach e h ?p s") (auto simp: attach_netif_def Let_def split: Option.bind_splits option.splits)
    let ?s2 = "case outs of Some (rx, tx, feat, _, _) \<Rightarrow> upd_ni i (\<lambda>n. n\<lparr>niFeatures := feat\<rparr>) s1 | None \<Rightarrow> s1"
    have "acts i [] s1 ?s2" by (auto simp: acts_upd_feat does_acts does_refl split: option.split)
    from acts_trans [OF acts_trans [OF acts_trans [OF acts_trans [OF acts_trans [OF does_acts [OF attach_does(1) [OF a]] this]
        does_acts [OF alloc_does(1) [OF b]]] does_acts [OF alloc_does(2) [OF c]]] does_acts [OF alloc_does(3) [OF d]]] acts_upd_mac]
    show ?thesis using r False by (simp add: attach_events_def)
  qed
  then show "acts i (attach_events (useExtAttach (gVirtNetifObj s)) ?p) s s'" "txInfo oa' = txInfo oa" "rxInfo oa' = rxInfo oa" by auto
qed

lemma openLwipTxCh_does:
  assumes "CpswRemoteApp_openLwipTxCh e psil ia ti s = Some (ti', s')"
  shows "does [Drv (EnetUdma_openTxCh psil (txNumPackets ia))] s s'" "txChNum ti' = psil" "hTxChannel ti' \<noteq> None"
  using assms by (auto simp: CpswRemoteApp_openLwipTxCh_def Let_def split: Option.bind_splits intro: does_app)

text \<open>The registration of the receive flow, and its undoing.\<close>

definition flow_route :: "bool \<Rightarrow> u32 \<Rightarrow> u32 \<Rightarrow> eth_addr \<Rightarrow> EthRemoteCfg_Cmd \<times> EthRemoteCfg_Cmd" where
  "flow_route dflt base off mac =
     (if dflt then (CMD_SET_RX_DEFAULTFLOW base off, CMD_DEL_RX_DEFAULTFLOW base off)
      else (CMD_REGISTER_MAC mac base off, CMD_DEREGISTER_MAC mac base off))"

lemma openLwipRxCh_does:
  assumes "CpswRemoteApp_openLwipRxCh e h dflt base off mac ia ri mtu sw s = Some (ri', s')"
  shows "does [Drv (EnetUdma_openRxFlow base off (rxNumPackets ia) mtu), Req (fst (flow_route (dflt \<and> sw) base off mac))] s s'"
    "rxFlowStartIdx ri' = base" "rxFlowIdx ri' = off" "rxMacAddr ri' = mac" "hRxFlow ri' \<noteq> None"
proof -
  from assms obtain st s1 where "(if dflt \<and> sw then CpswProxy_registerDefaultRxFlow e h base off (app (EnetUdma_openRxFlow base off (rxNumPackets ia) mtu) s)
      else CpswProxy_registerDstMacRxFlow e h base off mac (app (EnetUdma_openRxFlow base off (rxNumPackets ia) mtu) s)) = Some (st, s1)"
    and r: "s' = s1" "rxFlowStartIdx ri' = base" "rxFlowIdx ri' = off" "rxMacAddr ri' = mac" "hRxFlow ri' \<noteq> None"
    by (auto simp: CpswRemoteApp_openLwipRxCh_def Let_def split: Option.bind_splits)
  then have "does [Req (fst (flow_route (dflt \<and> sw) base off mac))] (app (EnetUdma_openRxFlow base off (rxNumPackets ia) mtu) s) s1"
    by (auto simp: flow_route_def status_cmds split: if_splits dest: status_cmd_does)
  from does_trans [OF does_app this] r
  show "does [Drv (EnetUdma_openRxFlow base off (rxNumPackets ia) mtu), Req (fst (flow_route (dflt \<and> sw) base off mac))] s s'"
    by simp
  show "rxFlowStartIdx ri' = base" "rxFlowIdx ri' = off" "rxMacAddr ri' = mac" "hRxFlow ri' \<noteq> None" by (fact r)+
qed

lemma closeLwipTxCh_does:
  assumes "CpswRemoteApp_closeLwipTxCh e h ti free s = Some s'"
  shows "does [Drv (EnetDma_disableTxEvent (hTxChannel ti)), Drv (EnetUdma_closeTxCh (hTxChannel ti)), Req (CMD_FREE_TX (txChNum ti)),
     Drv (FreePkts free)] s s'"
proof -
  let ?s = "app (EnetUdma_closeTxCh (hTxChannel ti)) (app (EnetDma_disableTxEvent (hTxChannel ti)) s)"
  from assms obtain st s1 where c: "CpswProxy_freeTxCh e h (txChNum ti) ?s = Some (st, s1)" and r: "s' = app (FreePkts free) s1"
    by (auto simp: CpswRemoteApp_closeLwipTxCh_def Let_def split: Option.bind_splits)
  from does_trans [OF does_trans [OF does_trans [OF does_app does_app] status_cmd_does [OF c [unfolded status_cmds]]] does_app]
  show ?thesis unfolding r by simp
qed

lemma closeLwipRxCh_does:
  assumes "CpswRemoteApp_closeLwipRxCh e h dflt ip ri free sw s = Some s'"
  shows "does ([Drv (EnetDma_disableRxEvent (hRxFlow ri))] @ (if sw then [Req (CMD_DEREGISTER_IPv4 ip)] else [])
     @ [Req (snd (flow_route (dflt \<and> sw) (rxFlowStartIdx ri) (rxFlowIdx ri) (rxMacAddr ri))),
        Drv (EnetUdma_closeRxFlow (hRxFlow ri)), Req (CMD_FREE_MAC (rxMacAddr ri)),
        Req (CMD_FREE_RX (rxFlowStartIdx ri) (rxFlowIdx ri)), Drv (FreePkts free)]) s s'"
proof -
  let ?s = "app (EnetDma_disableRxEvent (hRxFlow ri)) s" and ?b = "rxFlowStartIdx ri" and ?o = "rxFlowIdx ri" and ?m = "rxMacAddr ri"
  from assms obtain st1 s1 st2 s2 st3 s3 st4 s4
    where 1: "(if sw then CpswProxy_unregisterIPV4Addr e h ip ?s else Some (ETHFW_SOK, ?s)) = Some (st1, s1)"
      and 2: "(if dflt \<and> sw then CpswProxy_unregisterDefaultRxFlow e h ?b ?o s1 else CpswProxy_unregisterDstMacRxFlow e h ?b ?o ?m s1) = Some (st2, s2)"
      and 3: "CpswProxy_freeMac e h ?m (app (EnetUdma_closeRxFlow (hRxFlow ri)) s2) = Some (st3, s3)"
      and 4: "CpswProxy_freeRxFlow e h ?b ?o s3 = Some (st4, s4)" and r: "s' = app (FreePkts free) s4"
    by (auto simp: CpswRemoteApp_closeLwipRxCh_def Let_def split: Option.bind_splits)
  have d1: "does (if sw then [Req (CMD_DEREGISTER_IPv4 ip)] else []) ?s s1"
    using 1 by (auto simp: status_cmds does_refl split: if_splits dest: status_cmd_does)
  have d2: "does [Req (snd (flow_route (dflt \<and> sw) ?b ?o ?m))] s1 s2"
    using 2 by (auto simp: flow_route_def status_cmds split: if_splits dest: status_cmd_does)
  from does_trans [OF does_trans [OF does_trans [OF does_trans [OF does_trans [OF does_trans [OF does_app d1] d2] does_app]
      status_cmd_does [OF 3 [unfolded status_cmds]]] status_cmd_does [OF 4 [unfolded status_cmds]]] does_app]
  show ?thesis unfolding r by simp
qed

lemma getHandle_does:
  assumes "LwipifEnetAppCb_getHandle e i ia oa0 s = Some (oa, s')"
  defines "port \<equiv> niVirtPort (ni_at s i)" and "ti \<equiv> txInfo oa" and "ri \<equiv> rxInfo oa"
  shows "acts i (attach_events (useExtAttach (gVirtNetifObj s)) port
      @ [Drv (EnetUdma_openTxCh (txChNum ti) (txNumPackets ia)),
         Drv (EnetUdma_openRxFlow (rxFlowStartIdx ri) (rxFlowIdx ri) (rxNumPackets ia) (hostPortRxMtu oa)),
         Req (fst (flow_route (useDefaultRxFlow (gVirtNetifObj s) \<and> CpswProxy_isSwitchPort port)
           (rxFlowStartIdx ri) (rxFlowIdx ri) (rxMacAddr ri)))]) s s'"
    "hTxChannel ti \<noteq> None" "hRxFlow ri \<noteq> None" "rxMacAddr ri = niMacAddr (ni_at s' i)" "niProxy (ni_at s i) \<noteq> None"
proof -
  let ?dflt = "useDefaultRxFlow (gVirtNetifObj s) \<and> CpswProxy_isSwitchPort port"
  from assms(1) obtain h oa1 oa2 psil base off s1 ti' s2 ri' s3
    where h: "niProxy (ni_at s i) = Some h" and a: "attach_netif e i h oa1 s = Some (oa2, psil, base, off, s1)"
      and t: "CpswRemoteApp_openLwipTxCh e psil ia (txInfo oa2) s1 = Some (ti', s2)"
      and r: "CpswRemoteApp_openLwipRxCh e h (useDefaultRxFlow (gVirtNetifObj s2)) base off (niMacAddr (ni_at s2 i)) ia (rxInfo oa2)
                (hostPortRxMtu oa2) (CpswProxy_isSwitchPort (niVirtPort (ni_at s2 i))) s2 = Some (ri', s3)"
      and oa: "oa = oa2\<lparr>txInfo := ti', rxInfo := ri'\<rparr>" "s' = s3"
    by (auto simp: LwipifEnetAppCb_getHandle_def Let_def split: Option.bind_splits)
  note at = attach_netif_acts(1) [OF a] and td = openLwipTxCh_does [OF t] and rd = openLwipRxCh_does [OF r]
  note a2 = acts_trans [OF at does_acts [OF td(1)]]
  note a3 = acts_trans [OF a2 does_acts [OF rd(1)]]
  have eq: "useDefaultRxFlow (gVirtNetifObj s2) = useDefaultRxFlow (gVirtNetifObj s)" "niVirtPort (ni_at s2 i) = port"
    using actsD [OF a2] by (simp_all add: port_def)
  show "acts i (attach_events (useExtAttach (gVirtNetifObj s)) port
      @ [Drv (EnetUdma_openTxCh (txChNum ti) (txNumPackets ia)),
         Drv (EnetUdma_openRxFlow (rxFlowStartIdx ri) (rxFlowIdx ri) (rxNumPackets ia) (hostPortRxMtu oa)),
         Req (fst (flow_route ?dflt (rxFlowStartIdx ri) (rxFlowIdx ri) (rxMacAddr ri)))]) s s'"
    using a3 td(2) rd(2-4) oa eq by (simp add: port_def ti_def ri_def)
  show "hTxChannel ti \<noteq> None" "hRxFlow ri \<noteq> None" "niProxy (ni_at s i) \<noteq> None"
    using td(3) rd(5) oa h by (simp_all add: ti_def ri_def)
  show "rxMacAddr ri = niMacAddr (ni_at s' i)"
    using rd(4) doesD(2) [OF rd(1), of i] oa by (simp add: ri_def)
qed

lemma releaseHandle_does:
  assumes "LwipifEnetAppCb_releaseHandle e i rel s = Some s'"
  defines "sw \<equiv> CpswProxy_isSwitchPort (niVirtPort (ni_at s i))" and "ti \<equiv> relTxInfo rel" and "ri \<equiv> relRxInfo rel"
  shows "does ([Drv (EnetDma_disableTxEvent (hTxChannel ti)), Drv (EnetUdma_closeTxCh (hTxChannel ti)), Req (CMD_FREE_TX (txChNum ti)),
       Drv (FreePkts (txFreePkt rel)), Drv (EnetDma_disableRxEvent (hRxFlow ri))]
     @ (if sw then [Req (CMD_DEREGISTER_IPv4 (niIpv4Addr (ni_at s i)))] else [])
     @ [Req (snd (flow_route (useDefaultRxFlow (gVirtNetifObj s) \<and> sw) (rxFlowStartIdx ri) (rxFlowIdx ri) (rxMacAddr ri))),
        Drv (EnetUdma_closeRxFlow (hRxFlow ri)), Req (CMD_FREE_MAC (rxMacAddr ri)),
        Req (CMD_FREE_RX (rxFlowStartIdx ri) (rxFlowIdx ri)), Drv (FreePkts (rxFreePkt rel)), Req CMD_DETACH]) s s'"
proof -
  from assms(1) obtain h s1 s2 st
    where t: "CpswRemoteApp_closeLwipTxCh e h ti (txFreePkt rel) s = Some s1"
      and r: "CpswRemoteApp_closeLwipRxCh e h (useDefaultRxFlow (gVirtNetifObj s1)) (niIpv4Addr (ni_at s1 i)) ri (rxFreePkt rel) sw s1 = Some s2"
      and d: "CpswProxy_detach e h s2 = Some (st, s')"
    by (auto simp: LwipifEnetAppCb_releaseHandle_def Let_def sw_def ti_def ri_def split: Option.bind_splits)
  note td = closeLwipTxCh_does [OF t] and rd = closeLwipRxCh_does [OF r]
  from does_trans [OF does_trans [OF td rd] status_cmd_does [OF d [unfolded status_cmds]]] doesD [OF td]
  show ?thesis by (cases sw) simp_all
qed


section \<open>The recovery task\<close>

text \<open>What a closing and an opening of the DMA channels of interface \<open>i\<close> do.\<close>

definition closing :: "nat \<Rightarrow> ReleaseHandleInfo \<Rightarrow> netif_event list" where
  "closing i rel = (let ti = relTxInfo rel; ri = relRxInfo rel in
     [Drv (Netif_set_link_down i), Drv (EnetDma_disableTxEvent (hTxChannel ti)), Drv (EnetUdma_closeTxCh (hTxChannel ti)),
      Drv (FreePkts (txFreePkt rel)), Drv (EnetDma_disableRxEvent (hRxFlow ri)),
      Req (CMD_DEREGISTER_MAC (rxMacAddr ri) (rxFlowStartIdx ri) (rxFlowIdx ri)), Drv (EnetUdma_closeRxFlow (hRxFlow ri)),
      Drv (SleepTask 200), Drv (FreePkts (rxFreePkt rel))])"

definition reopening :: "nat \<Rightarrow> GetHandleInArgs \<Rightarrow> GetHandleOutArgs \<Rightarrow> netif_event list" where
  "reopening i ia oa = (let ti = txInfo oa; ri = rxInfo oa in
     [Drv (EnetUdma_openTxCh (txChNum ti) (txNumPackets ia)),
      Drv (EnetUdma_openRxFlow (rxFlowStartIdx ri) (rxFlowIdx ri) (rxNumPackets ia) (hostPortRxMtu oa)),
      Req (CMD_REGISTER_MAC (rxMacAddr ri) (rxFlowStartIdx ri) (rxFlowIdx ri)), Drv (Netif_set_link_up i)])"

lemma closeDma_does:
  assumes "LwipifEnetAppCb_closeDma e i rel s = Some (rel', s')"
  shows "does (tl (closing i rel)) s s'" "hTxChannel (relTxInfo rel) \<noteq> None" "hRxFlow (relRxInfo rel) \<noteq> None"
proof -
  let ?t = "hTxChannel (relTxInfo rel)" and ?r = "hRxFlow (relRxInfo rel)" and ?ri = "relRxInfo rel"
  let ?s = "app (EnetDma_disableRxEvent ?r) (app (FreePkts (txFreePkt rel)) (app (EnetUdma_closeTxCh ?t) (app (EnetDma_disableTxEvent ?t) s)))"
  from assms obtain h st s1
    where c: "CpswProxy_unregisterDstMacRxFlow e h (rxFlowStartIdx ?ri) (rxFlowIdx ?ri) (rxMacAddr ?ri) ?s = Some (st, s1)"
      and r: "s' = app (FreePkts (rxFreePkt rel)) (app (SleepTask 200) (app (EnetUdma_closeRxFlow ?r) s1))"
        "?t \<noteq> None" "?r \<noteq> None"
    by (auto simp: LwipifEnetAppCb_closeDma_def Let_def split: Option.bind_splits)
  from does_trans [OF does_trans [OF does_trans [OF does_trans [OF does_trans [OF does_trans [OF does_trans [OF does_app does_app]
      does_app] does_app] status_cmd_does [OF c [unfolded status_cmds]]] does_app] does_app] does_app]
  show "does (tl (closing i rel)) s s'" unfolding r(1) by (simp add: closing_def Let_def)
  show "?t \<noteq> None" "?r \<noteq> None" by (fact r)+
qed

lemma openDma_does:
  assumes "LwipifEnetAppCb_openDma e i ia oa s = Some (oa', s')"
  shows "does (butlast (reopening i ia oa)) s s'" "hTxChannel (txInfo oa') \<noteq> None" "hRxFlow (rxInfo oa') \<noteq> None"
proof -
  let ?ri = "rxInfo oa" and ?tx = "EnetUdma_openTxCh (txChNum (txInfo oa)) (txNumPackets ia)"
  let ?rx = "EnetUdma_openRxFlow (rxFlowStartIdx ?ri) (rxFlowIdx ?ri) (rxNumPackets ia) (hostPortRxMtu oa)"
  from assms obtain h st
    where c: "CpswProxy_registerDstMacRxFlow e h (rxFlowStartIdx ?ri) (rxFlowIdx ?ri) (rxMacAddr ?ri) (app ?rx (app ?tx s)) = Some (st, s')"
      and r: "hTxChannel (txInfo oa') \<noteq> None" "hRxFlow (rxInfo oa') \<noteq> None"
    by (auto simp: LwipifEnetAppCb_openDma_def Let_def split: Option.bind_splits)
  from does_trans [OF does_trans [OF does_app does_app] status_cmd_does [OF c [unfolded status_cmds]]]
  show "does (butlast (reopening i ia oa)) s s'" by (simp add: reopening_def Let_def)
  show "hTxChannel (txInfo oa') \<noteq> None" "hRxFlow (rxInfo oa') \<noteq> None" by (fact r)+
qed

text \<open>lwIP's driver closes and opens an interface through the call-backs of this file, with what it keeps of it.\<close>

definition lwipif_ok :: "cenv \<Rightarrow> (nat \<Rightarrow> 'a ni_st_scheme \<Rightarrow> 'a ni_st_scheme option) \<Rightarrow> (nat \<Rightarrow> 'a ni_st_scheme \<Rightarrow> 'a ni_st_scheme option) \<Rightarrow> bool" where
  "lwipif_ok e lwOpen lwClose \<longleftrightarrow>
     (\<forall>i s s'. lwOpen i s = Some s' \<longrightarrow> (\<exists>ia oa oa'. LwipifEnetAppCb_openDma e i ia oa s = Some (oa', s')))
   \<and> (\<forall>i s s'. lwClose i s = Some s' \<longrightarrow> (\<exists>rel rel'. LwipifEnetAppCb_closeDma e i rel s = Some (rel', s')))"

text \<open>What one message makes the task do.\<close>

definition handled :: "CpswRemoteApp_HwRecoveryMsg \<Rightarrow> netif_event list \<Rightarrow> bool" where
  "handled m es \<longleftrightarrow>
     (if rmNotifyType m = ETHREMOTECFG_NOTIFY_HWERROR
      then \<exists>rel. hTxChannel (relTxInfo rel) \<noteq> None \<and> hRxFlow (relRxInfo rel) \<noteq> None
             \<and> es = closing (rmNetif m) rel @ [Req CMD_TEARDOWN_COMPLETION]
      else if rmNotifyType m = ETHREMOTECFG_NOTIFY_HWRECOVERY_COMPLETE then \<exists>ia oa. es = reopening (rmNetif m) ia oa
      else es = [])"

lemma recover_netif_does:
  assumes lw: "lwipif_ok e lwOpen lwClose" and r: "recover_netif e lwOpen lwClose m s = Some s'"
  shows "\<exists>es. does es s s' \<and> handled m es"
proof -
  consider (err) "rmNotifyType m = ETHREMOTECFG_NOTIFY_HWERROR" | (over) "rmNotifyType m \<noteq> ETHREMOTECFG_NOTIFY_HWERROR"
    "rmNotifyType m = ETHREMOTECFG_NOTIFY_HWRECOVERY_COMPLETE"
    | (other) "rmNotifyType m \<noteq> ETHREMOTECFG_NOTIFY_HWERROR" "rmNotifyType m \<noteq> ETHREMOTECFG_NOTIFY_HWRECOVERY_COMPLETE"
    by blast
  then show ?thesis
  proof cases
    case err
    with r obtain s1 h st where c: "lwClose (rmNetif m) (app (Netif_set_link_down (rmNetif m)) s) = Some s1"
      and t: "CpswProxy_teardownCompletion e h s1 = Some (st, s')"
      by (auto simp: recover_netif_def EthApp_closeDma_def split: Option.bind_splits)
    from lw c obtain rel rel' where "LwipifEnetAppCb_closeDma e (rmNetif m) rel (app (Netif_set_link_down (rmNetif m)) s) = Some (rel', s1)"
      unfolding lwipif_ok_def by blast
    note cl = closeDma_does [OF this]
    from does_trans [OF does_trans [OF does_app cl(1)] status_cmd_does [OF t [unfolded status_cmds]]]
    have "does (closing (rmNetif m) rel @ [Req CMD_TEARDOWN_COMPLETION]) s s'" by (simp add: closing_def Let_def)
    with err cl(2,3) show ?thesis by (auto simp: handled_def)
  next
    case over
    with r obtain s1 where o: "lwOpen (rmNetif m) s = Some s1" and s': "s' = app (Netif_set_link_up (rmNetif m)) s1"
      by (auto simp: recover_netif_def EthApp_openDma_def split: Option.bind_splits if_splits)
    from lw o obtain ia oa oa' where "LwipifEnetAppCb_openDma e (rmNetif m) ia oa s = Some (oa', s1)"
      unfolding lwipif_ok_def by blast
    from does_trans [OF openDma_does(1) [OF this] does_app]
    have "does (reopening (rmNetif m) ia oa) s s'" unfolding s' by (simp add: reopening_def Let_def)
    with over show ?thesis by (auto simp: handled_def)
  next
    case other
    with r show ?thesis by (auto simp: recover_netif_def handled_def intro!: exI [of _ "[]"])
  qed
qed

text \<open>Notifications from the server and turns of the task, in any order; a step that would have to wait is not taken.\<close>

datatype recovery_step = Notified u32 nat | TaskTurn

primrec recovery_run ::
    "cenv \<Rightarrow> mailbox_ops \<Rightarrow> (nat \<Rightarrow> 'a ni_st_scheme \<Rightarrow> 'a ni_st_scheme option) \<Rightarrow> (nat \<Rightarrow> 'a ni_st_scheme \<Rightarrow> 'a ni_st_scheme option) \<Rightarrow>
     recovery_step list \<Rightarrow> 'a ni_st_scheme \<Rightarrow> 'a ni_st_scheme option" where
  "recovery_run e mb lwOpen lwClose [] s = Some s"
| "recovery_run e mb lwOpen lwClose (x # xs) s =
     (case x of Notified t i \<Rightarrow> CpswRemoteApp_hwRecoveryNotify mb t i s | TaskTurn \<Rightarrow> CpswRemoteApp_hwRecoveryTask e mb lwOpen lwClose s)
       \<bind> recovery_run e mb lwOpen lwClose xs"

fun posted :: "recovery_step list \<Rightarrow> CpswRemoteApp_HwRecoveryMsg list" where
  "posted [] = []"
| "posted (Notified t i # xs) =
     (if t = ETHREMOTECFG_NOTIFY_HWERROR \<or> t = ETHREMOTECFG_NOTIFY_HWRECOVERY_COMPLETE then [\<lparr>rmNetif = i, rmNotifyType = t\<rparr>] else [])
     @ posted xs"
| "posted (TaskTurn # xs) = posted xs"

lemma upd_mbx_simps [simp]:
  "niMbx (gVirtNetifObj (upd_mbx f s)) = f (niMbx (gVirtNetifObj s))" "netif_events (upd_mbx f s) = netif_events s"
  by (simp_all add: upd_mbx_def netif_events_def)

lemma notify_does:
  assumes mb: "mailbox_ok ETHAPP_VIRTNETIF_MBX_MSGCOUNT mb"
    and "CpswRemoteApp_hwRecoveryNotify mb t i s = Some s'" "length (niMbx (gVirtNetifObj s)) \<le> ETHAPP_VIRTNETIF_MBX_MSGCOUNT"
  shows "netif_events s' = netif_events s \<and> niMbx (gVirtNetifObj s') = niMbx (gVirtNetifObj s) @ posted [Notified t i]
     \<and> length (niMbx (gVirtNetifObj s')) \<le> ETHAPP_VIRTNETIF_MBX_MSGCOUNT"
proof -
  have p: "\<exists>q. MailboxP_post mb m (niMbx (gVirtNetifObj s)) = Some q \<and> s' = upd_mbx (\<lambda>_. q) s \<Longrightarrow>
      netif_events s' = netif_events s \<and> niMbx (gVirtNetifObj s') = niMbx (gVirtNetifObj s) @ [m]
        \<and> length (niMbx (gVirtNetifObj s')) \<le> ETHAPP_VIRTNETIF_MBX_MSGCOUNT" for m
    using mb by (cases "length (niMbx (gVirtNetifObj s)) < ETHAPP_VIRTNETIF_MBX_MSGCOUNT") (auto simp: mailbox_ok_def not_less)
  show ?thesis
    using assms(2,3) p [of "\<lparr>rmNetif = i, rmNotifyType = t\<rparr>"]
    by (auto simp: CpswRemoteApp_hwRecoveryNotify_def post_recovery_def split: if_splits)
qed

lemma task_does:
  assumes mb: "mailbox_ok ETHAPP_VIRTNETIF_MBX_MSGCOUNT mb"
    and lw: "lwipif_ok e lwOpen lwClose" and r: "CpswRemoteApp_hwRecoveryTask e mb lwOpen lwClose s = Some s'"
  shows "\<exists>m ms es. niMbx (gVirtNetifObj s) = m # ms \<and> niMbx (gVirtNetifObj s') = ms \<and> netif_events s' = netif_events s @ es \<and> handled m es"
proof -
  from r obtain m ms where m: "niMbx (gVirtNetifObj s) = m # ms"
    and t: "recover_netif e lwOpen lwClose m (upd_mbx (\<lambda>_. ms) s) = Some s'"
    using mb by (cases "niMbx (gVirtNetifObj s)") (auto simp: CpswRemoteApp_hwRecoveryTask_def mailbox_ok_def)
  from recover_netif_does [OF lw t] obtain es where "does es (upd_mbx (\<lambda>_. ms) s) s'" "handled m es" by blast
  with m doesD [OF this(1)] show ?thesis by auto
qed

text \<open>Property C11 (safety).  With a mailbox that is a queue: however notifications and turns of the recovery task interleave, the mailbox never holds more
  than four messages, and the task handles them in the order they came: a hardware error takes the
  link down and closes both DMA channels of its own interface before the teardown is reported to the
  server, and only the notification that the recovery is complete opens the channels again and
  brings the link up.  Messages not yet handled are in the mailbox; none is lost.\<close>

theorem netif_recovery:
  assumes lw: "lwipif_ok e lwOpen lwClose" and run: "recovery_run e mb lwOpen lwClose steps s = Some s'"
    and mb: "mailbox_ok ETHAPP_VIRTNETIF_MBX_MSGCOUNT mb" and empty: "niMbx (gVirtNetifObj s) = []"
  shows "\<exists>ms bs. posted steps = ms @ niMbx (gVirtNetifObj s') \<and> length (niMbx (gVirtNetifObj s')) \<le> ETHAPP_VIRTNETIF_MBX_MSGCOUNT
     \<and> list_all2 handled ms bs \<and> netif_events s' = netif_events s @ concat bs"
proof -
  let ?q = "\<lambda>s. niMbx (gVirtNetifObj s)"
  have "\<exists>ms bs. ?q s @ posted steps = ms @ ?q s' \<and> length (?q s') \<le> ETHAPP_VIRTNETIF_MBX_MSGCOUNT
     \<and> list_all2 handled ms bs \<and> netif_events s' = netif_events s @ concat bs"
    if "length (?q s) \<le> ETHAPP_VIRTNETIF_MBX_MSGCOUNT"
    using run that
  proof (induction steps arbitrary: s)
    case Nil
    then show ?case by (intro exI [of _ "[]"]) simp
  next
    case (Cons x xs)
    from Cons.prems(1) obtain s1 where s1: "(case x of Notified t i \<Rightarrow> CpswRemoteApp_hwRecoveryNotify mb t i s
        | TaskTurn \<Rightarrow> CpswRemoteApp_hwRecoveryTask e mb lwOpen lwClose s) = Some s1" and r: "recovery_run e mb lwOpen lwClose xs s1 = Some s'"
      by (auto split: Option.bind_splits)
    show ?case
    proof (cases x)
      case (Notified t i)
      with s1 have n: "CpswRemoteApp_hwRecoveryNotify mb t i s = Some s1" by simp
      note nd = notify_does [OF mb n Cons.prems(2)]
      have "posted (x # xs) = posted [Notified t i] @ posted xs" by (simp add: Notified)
      with Cons.IH [OF r] nd show ?thesis by (metis append.assoc)
    next
      case TaskTurn
      with task_does [OF mb lw] s1 obtain m ms es where t: "?q s = m # ms" "?q s1 = ms" "netif_events s1 = netif_events s @ es" "handled m es"
        by fastforce
      with Cons.prems(2) Cons.IH [OF r] obtain ms' bs where "ms @ posted xs = ms' @ ?q s'" "length (?q s') \<le> ETHAPP_VIRTNETIF_MBX_MSGCOUNT"
        "list_all2 handled ms' bs" "netif_events s' = netif_events s1 @ concat bs" by auto
      with t TaskTurn show ?thesis by (intro exI [of _ "m # ms'"] exI [of _ "es # bs"]) simp
    qed
  qed
  with empty show ?thesis by simp
qed

section \<open>Starting the interfaces\<close>

text \<open>The first \<open>k\<close> interfaces have their client objects, with their ports and both call-backs; the others are free.\<close>

definition proxies_open :: "nat \<Rightarrow> 'a ni_st_scheme \<Rightarrow> bool" where
  "proxies_open k s \<longleftrightarrow> length (pxClientObj (gCpswProxy s)) = CPSWPROXY_CLIENT_MAX
     \<and> (\<forall>j<CPSWPROXY_CLIENT_MAX. (pcInUse (pc_at s j) \<longleftrightarrow> j < k) \<and> length (pcNotifyCb (pc_at s j)) = ETHREMOTECFG_NOTIFY_TYPE_COUNT)
     \<and> (\<forall>j<k. niProxy (ni_at s j) = Some j \<and> pcCfg (pc_at s j) = niVirtPort (ni_at s j) \<and> pcToken (pc_at s j) = ETHREMOTECFG_TOKEN_NONE
         \<and> pcNotifyCb (pc_at s j) ! unat ETHREMOTECFG_NOTIFY_HWERROR = Some j
         \<and> pcNotifyCb (pc_at s j) ! unat ETHREMOTECFG_NOTIFY_HWRECOVERY_COMPLETE = Some j)"

lemma ni_upd_pc [simp]: "ni_at (upd_pc h f s) i = ni_at s i" "gVirtNetifObj (upd_pc h f s) = gVirtNetifObj s"
  by (simp_all add: upd_pc_def upd_px_def ni_at_def)

lemma pc_upd_ni [simp]: "pc_at (upd_ni i f s) h = pc_at s h" "gCpswProxy (upd_ni i f s) = gCpswProxy s"
  by (simp_all add: upd_ni_def pc_at_def)

lemma ni_upd_ni:
  "i < length (virtNetif (gVirtNetifObj s)) \<Longrightarrow> ni_at (upd_ni i f s) j = (if j = i then f (ni_at s i) else ni_at s j)"
  by (simp add: upd_ni_def ni_at_def)

lemma nis_upd_ni [simp]: "length (virtNetif (gVirtNetifObj (upd_ni i f s))) = length (virtNetif (gVirtNetifObj s))"
  by (simp add: upd_ni_def)

text \<open>The client object of interface \<open>k\<close> once it is opened.\<close>

definition opened_pc :: "nat \<Rightarrow> EthRemoteCfg_VirtPort \<Rightarrow> CpswProxy_ClientObj \<Rightarrow> CpswProxy_ClientObj" where
  "opened_pc k port c = c\<lparr>pcInUse := True, pcCfg := port, pcFeatures := 0, pcReqId := 0, pcToken := ETHREMOTECFG_TOKEN_NONE,
     pcNotifyCb := (pcNotifyCb c)[unat ETHREMOTECFG_NOTIFY_HWERROR := Some k, unat ETHREMOTECFG_NOTIFY_HWRECOVERY_COMPLETE := Some k]\<rparr>"

lemma upd_pc_twice [simp]: "h < length (pxClientObj (gCpswProxy s)) \<Longrightarrow> upd_pc h f (upd_pc h g s) = upd_pc h (f \<circ> g) s"
  by (simp add: upd_pc_def upd_px_def)

lemma upd_pc_ni: "upd_pc h f (upd_ni i g s) = upd_ni i g (upd_pc h f s)"
  by (simp add: upd_pc_def upd_px_def upd_ni_def ni_at_def)

lemma openCpswProxy_eq:
  assumes "proxies_open k s"
  shows "CpswRemoteApp_openCpswProxy k s =
    (if k < CPSWPROXY_CLIENT_MAX then Some (upd_ni k (\<lambda>n. n\<lparr>niProxy := Some k\<rparr>) (upd_pc k (opened_pc k (niVirtPort (ni_at s k))) s)) else None)"
proof -
  let ?cs = "pxClientObj (gCpswProxy s)"
  have len: "length ?cs = CPSWPROXY_CLIENT_MAX" and use: "\<And>j. j < CPSWPROXY_CLIENT_MAX \<Longrightarrow> pcInUse (?cs ! j) \<longleftrightarrow> j < k"
    using assms by (auto simp: proxies_open_def pc_at_def)
  have idx: "first_idx (\<lambda>c. \<not> pcInUse c) ?cs = (if k < CPSWPROXY_CLIENT_MAX then Some k else None)"
    using len use by (auto simp: first_idx_Some first_idx_None in_set_conv_nth)
  have nt: "unat ETHREMOTECFG_NOTIFY_HWERROR < ETHREMOTECFG_NOTIFY_TYPE_COUNT"
    "unat ETHREMOTECFG_NOTIFY_HWRECOVERY_COMPLETE < ETHREMOTECFG_NOTIFY_TYPE_COUNT"
    by (simp_all add: ETHREMOTECFG_NOTIFY_HWERROR_def ETHREMOTECFG_NOTIFY_HWRECOVERY_COMPLETE_def ETHREMOTECFG_NOTIFY_TYPE_COUNT_def)
  show ?thesis
    by (simp add: CpswRemoteApp_openCpswProxy_def CpswProxy_open_def CpswProxy_allocHandle_def idx CpswProxy_instanceInit_def
        CpswProxy_registerNotifyCb_def nt upd_pc_ni len comp_def opened_pc_def [abs_def])
qed

lemma proxies_open_step:
  assumes "proxies_open k s" "k < CPSWPROXY_CLIENT_MAX" "k < length (virtNetif (gVirtNetifObj s))"
  shows "proxies_open (Suc k) (upd_ni k (\<lambda>n. n\<lparr>niProxy := Some k\<rparr>) (upd_pc k (opened_pc k (niVirtPort (ni_at s k))) s))"
proof -
  have pc: "pc_at (upd_pc k f s) j = (if j = k then f (pc_at s k) else pc_at s j)" for f j
    using assms by (auto simp: proxies_open_def)
  show ?thesis
    using assms unfolding proxies_open_def
    by (auto simp: pc ni_upd_ni opened_pc_def ETHREMOTECFG_NOTIFY_HWERROR_def ETHREMOTECFG_NOTIFY_HWRECOVERY_COMPLETE_def
        ETHREMOTECFG_NOTIFY_TYPE_COUNT_def nth_list_update less_Suc_eq)
qed

lemma open_proxies_open:
  assumes "proxies_open k s" "k \<le> n" "n \<le> length (virtNetif (gVirtNetifObj s))"
  shows "case open_proxies [k..<n] s of
      None \<Rightarrow> CPSWPROXY_CLIENT_MAX < n
    | Some s' \<Rightarrow> (k < n \<longrightarrow> n \<le> CPSWPROXY_CLIENT_MAX) \<and> proxies_open n s' \<and> niMbx (gVirtNetifObj s') = niMbx (gVirtNetifObj s)
        \<and> map niVirtPort (virtNetif (gVirtNetifObj s')) = map niVirtPort (virtNetif (gVirtNetifObj s))"
  using assms
proof (induction "n - k" arbitrary: k s)
  case 0
  then show ?case by simp
next
  case (Suc m)
  then have k: "k < n" by simp
  let ?s = "upd_ni k (\<lambda>n. n\<lparr>niProxy := Some k\<rparr>) (upd_pc k (opened_pc k (niVirtPort (ni_at s k))) s)"
  have ports: "map niVirtPort (virtNetif (gVirtNetifObj ?s)) = map niVirtPort (virtNetif (gVirtNetifObj s))"
    "niMbx (gVirtNetifObj ?s) = niMbx (gVirtNetifObj s)"
    using k Suc.prems(3) by (simp_all add: upd_ni_def map_update ni_at_def list_update_same_conv)
  show ?case
  proof (cases "k < CPSWPROXY_CLIENT_MAX")
    case True
    have "proxies_open (Suc k) ?s" using Suc.prems k True by (intro proxies_open_step) simp_all
    from Suc.hyps(1) [OF _ this] Suc.hyps(2) Suc.prems(3) k
    have IH: "case open_proxies [Suc k..<n] ?s of None \<Rightarrow> CPSWPROXY_CLIENT_MAX < n
      | Some s' \<Rightarrow> (Suc k < n \<longrightarrow> n \<le> CPSWPROXY_CLIENT_MAX) \<and> proxies_open n s' \<and> niMbx (gVirtNetifObj s') = niMbx (gVirtNetifObj ?s)
        \<and> map niVirtPort (virtNetif (gVirtNetifObj s')) = map niVirtPort (virtNetif (gVirtNetifObj ?s))" by simp
    have "open_proxies [k..<n] s = open_proxies [Suc k..<n] ?s"
      using k True openCpswProxy_eq [OF Suc.prems(1)] by (simp add: upt_conv_Cons)
    with IH ports True k show ?thesis by (auto split: option.splits simp: less_Suc_eq not_less)
  next
    case False
    with k openCpswProxy_eq [OF Suc.prems(1)] show ?thesis by (simp add: upt_conv_Cons)
  qed
qed

lemma init_drivers_frame: "virtNetif (gVirtNetifObj (init_drivers e s)) = virtNetif (gVirtNetifObj s)" "gCpswProxy (init_drivers e s) = gCpswProxy s"
  by (simp_all add: init_drivers_def CpswRemoteApp_openUdma_def Let_def app_def cissue_def)

lemma proxies_open_cong:
  "virtNetif (gVirtNetifObj s') = virtNetif (gVirtNetifObj s) \<Longrightarrow> gCpswProxy s' = gCpswProxy s \<Longrightarrow> proxies_open k s' = proxies_open k s"
  by (simp add: proxies_open_def pc_at_def ni_at_def)

text \<open>No client object is in use, as after \<^verbatim>\<open>CpswProxy_init\<close>.\<close>

lemma init_open:
  assumes "proxies_open 0 s"
  shows "case CpswRemoteApp_initVirtNetif e s of
      None \<Rightarrow> CPSWPROXY_CLIENT_MAX < length (virtNetif (gVirtNetifObj s))
    | Some s' \<Rightarrow> length (virtNetif (gVirtNetifObj s)) \<le> CPSWPROXY_CLIENT_MAX \<and> proxies_open (length (virtNetif (gVirtNetifObj s))) s'
        \<and> niMbx (gVirtNetifObj s') = []"
proof -
  let ?n = "length (virtNetif (gVirtNetifObj s))"
  have eq: "CpswRemoteApp_initVirtNetif e s = open_proxies [0..<?n] (init_drivers e s) \<bind>
        (\<lambda>s. Some (app CreateRecoveryTask (upd_mbx (\<lambda>_. []) (app CreateRecoveryMbx s))))"
    by (simp add: CpswRemoteApp_initVirtNetif_def init_drivers_frame Let_def)
  have "proxies_open 0 (init_drivers e s)" using assms by (subst proxies_open_cong [OF init_drivers_frame])
  from open_proxies_open [OF this, of ?n]
  have o: "case open_proxies [0..<?n] (init_drivers e s) of None \<Rightarrow> CPSWPROXY_CLIENT_MAX < ?n
    | Some s' \<Rightarrow> ?n \<le> CPSWPROXY_CLIENT_MAX \<and> proxies_open ?n s'"
    by (auto simp: init_drivers_frame split: option.splits)
  have end_eq: "proxies_open k (app CreateRecoveryTask (upd_mbx (\<lambda>_. []) (app CreateRecoveryMbx s'))) = proxies_open k s'" for k s'
    by (rule proxies_open_cong) (simp_all add: upd_mbx_def app_def cissue_def)
  have mbx: "niMbx (gVirtNetifObj (app CreateRecoveryTask (upd_mbx (\<lambda>_. []) (app CreateRecoveryMbx s')))) = []" for s'
    by (simp add: upd_mbx_def app_def cissue_def)
  show ?thesis
    using o by (auto simp: eq end_eq mbx split: option.splits)
qed

text \<open>Property C30 (functional).  Once the interfaces have been started each has a client object of its own, and as long as
  the tokens the server gave them differ, a hardware error or the end of a recovery that the server
  notifies for a token reaches the recovery task's mailbox as a message for the interface that holds
  the token, when there is room for it in the mailbox.\<close>

theorem netif_routing:
  assumes free: "proxies_open 0 s" and init: "CpswRemoteApp_initVirtNetif e s = Some s1"
    and later: "\<And>j. j < CPSWPROXY_CLIENT_MAX \<Longrightarrow> pcInUse (pc_at s2 j) = pcInUse (pc_at s1 j)" "pcNotifyCb (pc_at s2 i) = pcNotifyCb (pc_at s1 i)"
      "length (pxClientObj (gCpswProxy s2)) = length (pxClientObj (gCpswProxy s1))"
    and i: "i < length (virtNetif (gVirtNetifObj s))"
    and own: "\<And>j. j < i \<Longrightarrow> pcToken (pc_at s2 j) \<noteq> pcToken (pc_at s2 i)"
    and t: "t = ETHREMOTECFG_NOTIFY_HWERROR \<or> t = ETHREMOTECFG_NOTIFY_HWRECOVERY_COMPLETE"
    and mb: "mailbox_ok ETHAPP_VIRTNETIF_MBX_MSGCOUNT mb" and room: "length (niMbx (gVirtNetifObj s2)) < ETHAPP_VIRTNETIF_MBX_MSGCOUNT"
  shows "CpswProxy_notifyHandler (pcToken (pc_at s2 i)) t push len s2 = (ETHFW_SOK, cissue (NotifyCallback i t None) s2)
     \<and> CpswRemoteApp_hwRecoveryNotify mb t i s2 = Some (upd_mbx (\<lambda>ms. ms @ [\<lparr>rmNetif = i, rmNotifyType = t\<rparr>]) s2)"
proof -
  have o: "proxies_open (length (virtNetif (gVirtNetifObj s))) s1" and n: "length (virtNetif (gVirtNetifObj s)) \<le> CPSWPROXY_CLIENT_MAX"
    using init_open [OF free, of e] init by auto
  have "first_idx (\<lambda>c. pcInUse c \<and> pcToken c = pcToken (pc_at s2 i)) (pxClientObj (gCpswProxy s2)) = Some i"
    unfolding first_idx_Some using o n i later own
    by (auto simp: proxies_open_def pc_at_def)
  moreover have "pcNotifyCb (pc_at s2 i) ! unat t = Some i"
    using t o i later(2) by (auto simp: proxies_open_def)
  ultimately show ?thesis
    using t room mb by (auto simp: CpswProxy_notifyHandler_def CpswProxy_getHandle_def CpswRemoteApp_hwRecoveryNotify_def post_recovery_def
        mailbox_ok_def upd_mbx_def)
qed
end
