(* ===== verification/NetifServer.thy ===== *)
theory NetifServer
  imports VirtNetif
begin

text \<open>
  An interface of a remote core against the running server: every request the client library sends
  is handled by the server's request handler, whose state moves on with each of them, and answered
  through the mailbox.  The life of an interface, from opening through its address to closing, leaves
  the server's attachments as they were.
\<close>

section \<open>The server behind the mailbox\<close>

text \<open>The server's state after the requests among a core's calls.\<close>

definition after_call :: "env \<Rightarrow> u32 \<Rightarrow> ccall \<Rightarrow> 'b proxy_st_scheme \<Rightarrow> 'b proxy_st_scheme" where
  "after_call e core c srv =
     (case c of
        SendReq dst dstEp srcEp clId req \<Rightarrow>
          snd (CpswProxyServer_clientRequestHandler e (ucast clId) core srcEp dstEp req srv)
      | _ \<Rightarrow> srv)"

definition server_of :: "env \<Rightarrow> u32 \<Rightarrow> 'b proxy_st_scheme \<Rightarrow> ccall list \<Rightarrow> 'b proxy_st_scheme" where
  "server_of e core srv cs = fold (after_call e core) cs srv"

text \<open>Sending succeeds, and a wait that follows a request finds the answer of the server as it then is.\<close>

definition live :: "env \<Rightarrow> u32 \<Rightarrow> 'b proxy_st_scheme \<Rightarrow> cenv \<Rightarrow> cenv" where
  "live e core srv ce = ce
     \<lparr>cstatus_of := \<lambda>cs c. (case c of SendReq _ _ _ _ _ \<Rightarrow> ETHFW_SOK | _ \<Rightarrow> cstatus_of ce cs c),
      pend_of := \<lambda>cs. (case last cs of
          SendReq dst dstEp srcEp clId req \<Rightarrow>
            (let res = fst (CpswProxyServer_clientRequestHandler e (ucast clId) core srcEp dstEp req (server_of e core srv (butlast cs)))
             in MbxMsg \<lparr>mLen = res_len ce (rsPayload res), mRes = res\<rparr>)
        | _ \<Rightarrow> pend_of ce cs)\<rparr>"

lemma live_simps [simp]:
  "res_len (live e core srv ce) p = res_len ce p"
  "cstatus_of (live e core srv ce) cs (AppCall c) = cstatus_of ce cs (AppCall c)"
  "chandle_of (live e core srv ce) = chandle_of ce"
  by (cases p; simp add: live_def)+

lemma server_of_snoc [simp]: "server_of e core srv (cs @ [c]) = after_call e core c (server_of e core srv cs)"
  by (simp add: server_of_def)

abbreviation srv_at :: "env \<Rightarrow> u32 \<Rightarrow> 'b proxy_st_scheme \<Rightarrow> 'a cworld_scheme \<Rightarrow> 'b proxy_st_scheme" where
  "srv_at e core srv s \<equiv> server_of e core srv (ccalls s)"

lemma srv_at_app [simp]: "srv_at e core srv (app c s) = srv_at e core srv s"
  by (simp add: app_def after_call_def)

lemma after_send: "after_call e core (send_call h cmd c) srv = snd (served e core h cmd c srv)"
  by (simp add: after_call_def send_call_def served_def Let_def)

lemma srv_at_cmd: "srv_at e core srv (after_cmd h cmd c) = snd (served e core h cmd c (srv_at e core srv c))"
proof -
  have "srv_at e core srv (after_cmd h cmd c) = after_call e core (send_call h cmd c) (srv_at e core srv c)"
    by (simp add: after_cmd_def server_of_def after_call_def [of _ _ "PendMailbox _"])
  then show ?thesis by (simp add: after_send)
qed

text \<open>A command is a call of the handler.\<close>

lemma sendCmd_live:
  fixes c :: "'a pc_st_scheme" and srv :: "'b proxy_st_scheme"
  shows "CpswProxy_sendCmd (live e core srv ce) h cmd (res_len ce (cmd_res cmd)) c =
     (let res = fst (served e core h cmd c (srv_at e core srv c)) in Some (rsStatus res, Some res, after_cmd h cmd c))"
proof -
  let ?e = "live e core srv ce" and ?res = "fst (served e core h cmd c (srv_at e core srv c))" and ?id = "pcReqId (pc_at c h)"
  let ?s = "cissue (send_call h cmd c) (bump h c)" and ?m = "\<lparr>mLen = res_len ce (cmd_res cmd), mRes = ?res\<rparr>"
  have len: "res_len ce (rsPayload ?res) = res_len ce (cmd_res cmd)"
    unfolding served_def Let_def by (simp add: response_len sent_req_def)
  have id: "rsId ?res = ?id" by (simp add: served_def sent_req_def Let_def)
  have pend: "pend_of ?e (ccalls ?s) = MbxMsg ?m"
    using len by (simp add: live_def send_call_def served_def Let_def)
  have "pend_once ?e t (ETHFW_SOK, m) ?s = ((ETHFW_SOK, ?m), cissue (PendMailbox t) ?s)" for t m
    by (simp add: pend_once_def pend del: cissue_simps)
  then have "await_response ?e (cmdTimeoutInMsecs (gCpswProxy c)) ?id (ETHFW_SOK, stackMsg ?e (ccalls ?s)) ?s =
      Some ((ETHFW_SOK, ?m), after_cmd h cmd c)"
    by (subst await_step) (simp add: Let_def id after_cmd_def del: cissue_simps)
  moreover have "cstatus_of ?e (ccalls c) (send_call h cmd c) = ETHFW_SOK"
    by (simp add: live_def send_call_def Let_def)
  ultimately show ?thesis
    by (simp add: sendCmd_eq Let_def take_response_def id)
qed

section \<open>What the handlers leave alone\<close>

text \<open>The attach bookkeeping together with the tokens of the client objects.\<close>

definition tok_sig :: "'a proxy_st_scheme \<Rightarrow> ((int \<times> bool list) list \<times> bool \<times> bool \<times> (nat \<Rightarrow> bool)) \<times> u32 list list" where
  "tok_sig s = (srv_sig s, map (\<lambda>c. map token (clientObj c)) (coreObj (gProxyServerObj s)))"

lemma tokens_upd_client:
  assumes "\<And>x. token (f x) = token x"
  shows "map (\<lambda>c. map token (clientObj c)) (coreObj (gProxyServerObj (upd_client h f s))) =
    map (\<lambda>c. map token (clientObj c)) (coreObj (gProxyServerObj s))"
proof -
  have *: "(map token cs)[i := token (f (cs ! i))] = map token cs" for cs i
    by (cases "i < length cs") (simp_all add: assms list_update_same_conv list_update_beyond)
  show ?thesis
    by (cases "fst h < length (coreObj (gProxyServerObj s))")
      (simp_all add: upd_client_def upd_core_def Let_def map_update * list_update_same_conv list_update_beyond)
qed

interpretation tok: handler_sig tok_sig
  by unfold_locales
    (simp_all add: tok_sig_def mcm_handler_call srv_sig_upd_client tokens_upd_client,
     simp_all add: issue_def fault_def upd_notify_def CpswProxyServer_saveRxFlowOffset_def Let_def split: option.split)

lemma tok_sig_rpmsg [simp]: "tok_sig (issue (Ipc_sendRpmsg k i j ws) s) = tok_sig s"
  by (simp add: tok_sig_def)

lemma served_keeps:
  assumes "\<And>p. cmd \<noteq> CMD_ATTACH p \<and> cmd \<noteq> CMD_ATTACH_EXT p" "cmd \<noteq> CMD_DETACH"
  shows "tok_sig (snd (served e core h cmd c srv)) = tok_sig srv"
  using assms tok.sig_handle_cmd [OF assms(2), of e]
  by (simp add: served_def request_cmd sent_req_def reply_call_def Let_def case_prod_beta)

text \<open>Which client object a token finds is read off the signature.\<close>

abbreviation use_tok :: "CpswProxyServer_ClientObj \<Rightarrow> bool \<times> u32" where
  "use_tok x \<equiv> (inUse x, token x)"

lemma clients_sig:
  assumes "tok_sig s = tok_sig s'" "unat proc < length (coreObj (gProxyServerObj s))"
  shows "map use_tok (clients proc s) = map use_tok (clients proc s')"
proof -
  have len: "length (coreObj (gProxyServerObj s')) = length (coreObj (gProxyServerObj s))"
    using assms(1) by (metis length_map prod.inject tok_sig_def)
  have "map inUse (clients proc s) = map inUse (clients proc s')" "map token (clients proc s) = map token (clients proc s')"
    using assms len
    by (auto simp: tok_sig_def srv_sig_def core_sig_def core_of_def map_eq_conv list_eq_iff_nth_eq [of "map _ (coreObj _)"])
  then show ?thesis by (auto simp: list_eq_iff_nth_eq)
qed

lemma find_tok: "first_idx (\<lambda>c. inUse c \<and> token c = t) xs = first_idx (\<lambda>(u, k). u \<and> k = t) (map use_tok xs)"
  by (induction xs) simp_all

section \<open>Attach and detach\<close>

text \<open>A server that works, with room for one more client on the core and none with the port's token.\<close>

definition server_ready :: "env \<Rightarrow> u32 \<Rightarrow> nat \<Rightarrow> EthRemoteCfg_VirtPort \<Rightarrow> 'b proxy_st_scheme \<Rightarrow> bool" where
  "server_ready e core n port srv \<longleftrightarrow> sig_inv n (srv_sig srv) \<and> unat core < n \<and> mtu_ok e core srv
     \<and> (\<exists>x\<in>set (clients core srv). \<not> inUse x)
     \<and> CpswProxyServer_getClient core (CPSWPROXY_VIRTPORT_2_TOKEN port) (gProxyServerObj srv) = None"

lemma server_ready_on:
  assumes "server_ready e core n port srv"
  shows "initDone (gProxyServerObj srv)" "hMcmCmdIf (gProxyServerObj srv)" "unat core < length (coreObj (gProxyServerObj srv))"
proof -
  obtain cs i m att where s: "srv_sig srv = (cs, i, m, att)" by (metis prod_cases4)
  with assms show "initDone (gProxyServerObj srv)" "hMcmCmdIf (gProxyServerObj srv)" "unat core < length (coreObj (gProxyServerObj srv))"
    using srv_sig_len [OF s] by (auto simp: server_ready_def sig_inv_def srv_sig_eq)
qed

definition sig_attached :: "nat \<Rightarrow> nat \<Rightarrow> (int \<times> bool list) list \<times> bool \<times> bool \<times> (nat \<Rightarrow> bool) \<Rightarrow>
    (int \<times> bool list) list \<times> bool \<times> bool \<times> (nat \<Rightarrow> bool)" where
  "sig_attached k j = (\<lambda>(cs, i, m, att). (cs[k := (fst (cs ! k) + 1, (snd (cs ! k))[j := True])], i, m,
     if fst (cs ! k) = 0 then att(k := True) else att))"

definition sig_detached :: "nat \<Rightarrow> nat \<Rightarrow> (int \<times> bool list) list \<times> bool \<times> bool \<times> (nat \<Rightarrow> bool) \<Rightarrow>
    (int \<times> bool list) list \<times> bool \<times> bool \<times> (nat \<Rightarrow> bool)" where
  "sig_detached k j = (\<lambda>(cs, i, m, att). (cs[k := (fst (cs ! k) - 1, (snd (cs ! k))[j := False])], i, m,
     if fst (cs ! k) = 1 then att(k := False) else att))"

text \<open>Detaching undoes attaching.\<close>

lemma sig_detached_attached:
  assumes "sig_inv n x" "k < n" "j < length (snd (fst x ! k))" "\<not> snd (fst x ! k) ! j"
  shows "sig_detached k j (sig_attached k j x) = x"
proof -
  obtain cs i m att where x: "x = (cs, i, m, att)" by (metis prod_cases4)
  have k: "k < length cs" "j < length (snd (cs ! k))" "\<not> snd (cs ! k) ! j"
    and att: "att k \<longleftrightarrow> fst (cs ! k) \<noteq> 0" "0 \<le> fst (cs ! k)"
    using assms by (auto simp: x sig_inv_def)
  have "(snd (cs ! k))[j := False] = snd (cs ! k)" using k by (metis (full_types) list_update_id)
  then have "cs[k := (fst (cs ! k), (snd (cs ! k))[j := False])] = cs" by (simp add: list_update_id)
  then show ?thesis using k att by (auto simp: x sig_detached_def sig_attached_def fun_eq_iff)
qed

lemma attach_sig:
  assumes on: "initDone (gProxyServerObj s)" "unat proc < length (coreObj (gProxyServerObj s))"
    and i: "first_idx (\<lambda>x. \<not> inUse x) (clients proc s) = Some j"
  shows "srv_sig (snd (snd (snd (cmd_attach e clId proc ep tok port s)))) = sig_attached (unat proc) j (srv_sig s)"
proof -
  obtain cs b m att where sig: "srv_sig s = (cs, b, m, att)" by (metis prod_cases4)
  have k: "unat proc < length cs" using on(2) srv_sig_len [OF sig] by simp
  obtain s1 where al: "CpswProxyServer_allocClient e proc ep port s = (Some (unat proc, j), s1)"
    unfolding CpswProxyServer_allocClient_def i by simp
  have s1: "srv_sig s1 = (cs[unat proc := (fst (cs ! unat proc), (snd (cs ! unat proc))[j := True])], b, m, att)"
    using sig_alloc [OF on(2), of e ep port] by (auto simp: al sig)
  have "initDone (gProxyServerObj s1)" "unat proc < length (coreObj (gProxyServerObj s1))"
    using s1 sig on(1) k srv_sig_len [OF s1] by (auto simp: srv_sig_eq)
  from sig_attach_core [OF this, of e "(unat proc, j)" port True] show ?thesis
    using s1 k sig by (simp add: cmd_attach_def al srv_sig_upd_client sig_attached_def Let_def case_prod_beta)
qed

text \<open>Between attach and detach: the client holds the token, and the server is as \<open>X\<close> was after the attach.\<close>

definition in_session :: "env \<Rightarrow> u32 \<Rightarrow> 'b proxy_st_scheme \<Rightarrow> nat \<Rightarrow> u32 \<Rightarrow> 'b proxy_st_scheme \<Rightarrow> 'a pc_st_scheme \<Rightarrow> bool" where
  "in_session e core srv h t X s \<longleftrightarrow> pcToken (pc_at s h) = t \<and> h < length (pxClientObj (gCpswProxy s))
     \<and> tok_sig (srv_at e core srv s) = tok_sig X"

lemma in_session_app [simp]: "in_session e core srv h t X (app c s) = in_session e core srv h t X s"
  by (simp add: in_session_def pc_at_def)

lemma in_session_upd_ni [simp]: "in_session e core srv h t X (upd_ni i f s) = in_session e core srv h t X s"
  by (simp add: in_session_def pc_at_def) (simp add: upd_ni_def)

lemma ni_app [simp]: "gVirtNetifObj (app c s) = gVirtNetifObj s" "ni_at (app c s) i = ni_at s i"
  by (simp_all add: app_def cissue_def ni_at_def)

lemma cmd_keeps:
  assumes "in_session e core srv h t X s" "\<And>p. cmd \<noteq> CMD_ATTACH p \<and> cmd \<noteq> CMD_ATTACH_EXT p" "cmd \<noteq> CMD_DETACH"
  shows "\<exists>st res s'. CpswProxy_sendCmd (live e core srv ce) h cmd (res_len ce (cmd_res cmd)) s = Some (st, Some res, s') \<and> in_session e core srv h t X s'"
proof -
  have "in_session e core srv h t X (after_cmd h cmd s)"
    using assms(1) served_keeps [OF assms(2,3), of e core h s "srv_at e core srv s"]
    by (simp add: in_session_def srv_at_cmd) (simp add: after_cmd_def bump_def)
  then show ?thesis by (simp add: sendCmd_live Let_def)
qed

lemma status_len: "sizeof_StatusRes = res_len ce StatusRes"
  by simp

lemma status_keeps:
  assumes "in_session e core srv h t X s" "cmd_res cmd = StatusRes" "cmd \<noteq> CMD_DETACH"
  shows "\<exists>st s'. CpswProxy_status_cmd (live e core srv ce) h cmd s = Some (st, s') \<and> in_session e core srv h t X s'"
proof -
  have "cmd \<noteq> CMD_ATTACH p \<and> cmd \<noteq> CMD_ATTACH_EXT p" for p using assms(2) by auto
  from cmd_keeps [OF assms(1) this assms(3), of ce] show ?thesis
    unfolding CpswProxy_status_cmd_def status_len [of ce] assms(2) [symmetric] by auto
qed

lemma alloc_keeps:
  assumes "in_session e core srv h t X s"
  shows "\<exists>st psil s'. CpswProxy_allocTxCh (live e core srv ce) h prio s = Some (st, psil, s') \<and> in_session e core srv h t X s'"
    "\<exists>st base off s'. CpswProxy_allocRxFlow (live e core srv ce) h idx s = Some (st, (base, off), s') \<and> in_session e core srv h t X s'"
    "\<exists>st mac s'. CpswProxy_allocMac (live e core srv ce) h s = Some (st, mac, s') \<and> in_session e core srv h t X s'"
  using cmd_keeps [OF assms, of "CMD_ALLOC_TX prio" ce] cmd_keeps [OF assms, of "CMD_ALLOC_RX idx" ce] cmd_keeps [OF assms, of CMD_ALLOC_MAC ce]
  by (auto simp: CpswProxy_allocTxCh_def CpswProxy_allocRxFlow_def CpswProxy_allocMac_def)

lemma attach_live:
  fixes s :: "'a ni_st_scheme"
  assumes ready: "server_ready e core n port (srv_at e core srv s)" and h: "h < length (pxClientObj (gCpswProxy s))"
  obtains outs s1 j where "CpswProxy_attach (live e core srv ce) h port s = Some (ETHFW_SOK, Some outs, s1)"
    "in_session e core srv h (CPSWPROXY_VIRTPORT_2_TOKEN port) (srv_at e core srv s1) s1"
    "srv_sig (srv_at e core srv s1) = sig_attached (unat core) j (srv_sig (srv_at e core srv s))"
    "first_idx (\<lambda>x. \<not> inUse x) (clients core (srv_at e core srv s)) = Some j"
    "first_idx (\<lambda>(u, k). u \<and> k = CPSWPROXY_VIRTPORT_2_TOKEN port) (map use_tok (clients core (srv_at e core srv s1))) = Some j"
    "first_idx (\<lambda>(u, k). u \<and> k = CPSWPROXY_VIRTPORT_2_TOKEN port)
       ((map use_tok (clients core (srv_at e core srv s1)))[j := (False, ETHREMOTECFG_TOKEN_NONE)]) = None"
proof -
  let ?S = "srv_at e core srv s" and ?t = "CPSWPROXY_VIRTPORT_2_TOKEN port" and ?cl = "ucast ETHREMOTECFG_CLIENTID_RTOS :: u8"
  let ?ep = "csLocalEndpt (cmdSvc (gCpswProxy s))" and ?tok = "pcToken (pc_at s h)"
  note on = server_ready_on [OF ready]
  have free: "CpswProxyServer_getClient core ?t (gProxyServerObj ?S) = None" and mtu: "mtu_ok e core ?S"
    and idle: "\<exists>x\<in>set (clients core ?S). \<not> inUse x" using ready by (simp_all add: server_ready_def)
  obtain j where j: "first_idx (\<lambda>x. \<not> inUse x) (clients core ?S) = Some j" using idle by (metis first_idx_None not_Some_eq)
  obtain tok' p S1 where r: "cmd_attach e ?cl core ?ep ?tok port ?S = (ETHFW_SOK, tok', p, S1)"
    using cmd_attach_clients [OF on(1,3) j, of e ?cl ?ep ?tok port] mtu
    by (cases "cmd_attach e ?cl core ?ep ?tok port ?S") (auto simp: Let_def)
  show thesis
  proof (rule attach_token_clients [OF on(1,3) free j r])
    assume tok': "tok' = ?t" and found: "first_idx (\<lambda>c. inUse c \<and> token c = ?t) (clients core S1) = Some j"
      and gone: "first_idx (\<lambda>c. inUse c \<and> token c = ?t) ((clients core S1)[j := client_zero\<lparr>token := ETHREMOTECFG_TOKEN_NONE\<rparr>]) = None"
    obtain res x where at: "served e core h (CMD_ATTACH port) s ?S = (res, issue (reply_call core ?ep x res) S1)"
      and res: "rsStatus res = ETHFW_SOK" "rsToken res = ?t"
      by (simp add: served_def request_attach sent_req_def r tok' Let_def)
    let ?s' = "after_cmd h (CMD_ATTACH port) s"
    have srv1: "srv_at e core srv ?s' = issue (reply_call core ?ep x res) S1"
      by (simp add: srv_at_cmd at)
    obtain outs f where a: "CpswProxy_attach (live e core srv ce) h port s =
        Some (ETHFW_SOK, Some outs, upd_pc h (\<lambda>x. x\<lparr>pcToken := ?t, pcFeatures := f\<rparr>) ?s')"
      using sendCmd_live [of e core srv ce h "CMD_ATTACH port" s] res
      by (simp add: CpswProxy_attach_def at Let_def case_prod_beta)
    let ?s1 = "upd_pc h (\<lambda>x. x\<lparr>pcToken := ?t, pcFeatures := f\<rparr>) ?s'"
    have sig: "srv_sig (srv_at e core srv ?s1) = sig_attached (unat core) j (srv_sig ?S)"
      using attach_sig [OF on(1,3) j, of e ?cl ?ep ?tok port] by (simp add: srv1 r reply_call_def)
    have s1: "in_session e core srv h ?t (srv_at e core srv ?s1) ?s1"
      using h by (simp add: in_session_def after_cmd_def bump_def)
    show thesis
      by (rule that [OF a s1 sig j])
        (use found gone in \<open>simp_all add: srv1 find_tok map_update client_zero_def\<close>)
  qed
qed

lemma detach_live:
  fixes s :: "'a ni_st_scheme"
  assumes ready: "server_ready e core n port S0" and j0: "first_idx (\<lambda>x. \<not> inUse x) (clients core S0) = Some j"
    and sess: "in_session e core srv h (CPSWPROXY_VIRTPORT_2_TOKEN port) X s"
    and sig: "srv_sig X = sig_attached (unat core) j (srv_sig S0)"
    and found: "first_idx (\<lambda>(u, k). u \<and> k = CPSWPROXY_VIRTPORT_2_TOKEN port) (map use_tok (clients core X)) = Some j"
    and gone: "first_idx (\<lambda>(u, k). u \<and> k = CPSWPROXY_VIRTPORT_2_TOKEN port)
       ((map use_tok (clients core X))[j := (False, ETHREMOTECFG_TOKEN_NONE)]) = None"
  shows "\<exists>s'. CpswProxy_detach (live e core srv ce) h s = Some (ETHFW_SOK, s') \<and> srv_sig (srv_at e core srv s') = srv_sig S0
     \<and> CpswProxyServer_getClient core (CPSWPROXY_VIRTPORT_2_TOKEN port) (gProxyServerObj (srv_at e core srv s')) = None"
proof -
  let ?S = "srv_at e core srv s" and ?t = "CPSWPROXY_VIRTPORT_2_TOKEN port" and ?k = "unat core"
  note on0 = server_ready_on [OF ready]
  obtain cs i m att where s0: "srv_sig S0 = (cs, i, m, att)" by (metis prod_cases4)
  have tok: "tok_sig ?S = tok_sig X" "pcToken (pc_at s h) = ?t" using sess by (simp_all add: in_session_def)
  have eq: "srv_sig ?S = sig_attached ?k j (srv_sig S0)" using tok(1) sig by (simp add: tok_sig_def)
  have on: "initDone (gProxyServerObj ?S)" "hMcmCmdIf (gProxyServerObj ?S)" "?k < length (coreObj (gProxyServerObj ?S))"
  proof -
    obtain cs' att' where e: "srv_sig ?S = (cs', i, m, att')" "length cs' = length cs" using eq by (simp add: s0 sig_attached_def)
    have "i = initDone (gProxyServerObj ?S)" "m = hMcmCmdIf (gProxyServerObj ?S)"
      "i = initDone (gProxyServerObj S0)" "m = hMcmCmdIf (gProxyServerObj S0)"
      using e(1) s0 by (simp_all only: srv_sig_eq)
    with on0 srv_sig_len [OF s0] srv_sig_len [OF e(1)] e(2)
    show "initDone (gProxyServerObj ?S)" "hMcmCmdIf (gProxyServerObj ?S)" "?k < length (coreObj (gProxyServerObj ?S))" by simp_all
  qed
  have cl: "map use_tok (clients core ?S) = map use_tok (clients core X)" by (rule clients_sig [OF tok(1) on(3)])
  have got: "CpswProxyServer_getClient core ?t (gProxyServerObj ?S) = Some (?k, j)"
    by (simp add: getClient_clients find_tok cl found)
  let ?S1 = "CpswProxyServer_freeClient (?k, j) (snd (CpswProxyServer_detachHandlerCb core ?S))"
  have "srv_sig ?S1 = sig_detached ?k j (srv_sig ?S)"
    using sig_detach [OF on, of "(?k, j)"] by (simp add: sig_detached_def)
  moreover have "sig_detached ?k j (sig_attached ?k j (srv_sig S0)) = srv_sig S0"
  proof (rule sig_detached_attached)
    show "sig_inv n (srv_sig S0)" "?k < n" using ready by (simp_all add: server_ready_def)
    have "snd (fst (srv_sig S0) ! ?k) = map inUse (clients core S0)"
      using core_sig_at [OF s0, of core] on0(3) srv_sig_len [OF s0] by (simp add: s0)
    with j0 show "j < length (snd (fst (srv_sig S0) ! ?k))" "\<not> snd (fst (srv_sig S0) ! ?k) ! j"
      by (auto simp: first_idx_Some)
  qed
  ultimately have undone: "srv_sig ?S1 = srv_sig S0" using eq by simp
  have no: "first_idx (\<lambda>c. inUse c \<and> token c = ?t) (clients core ?S1) = None"
    using gone by (simp add: detach_clients [OF on(1,3)] find_tok map_update cl client_zero_def)
  obtain res x where sv: "served e core h CMD_DETACH s ?S = (res, issue (reply_call core (csLocalEndpt (cmdSvc (gCpswProxy s))) x res) ?S1)"
    and st: "rsStatus res = ETHFW_SOK"
    using on by (simp add: served_def request_cmd sent_req_def handle_cmd_def cmd_detach_def tok(2) got detach_status Let_def case_prod_beta)
  let ?s' = "after_cmd h CMD_DETACH s"
  have "CpswProxy_detach (live e core srv ce) h s = Some (ETHFW_SOK, ?s')"
    using sendCmd_live [of e core srv ce h CMD_DETACH s] st by (simp add: CpswProxy_detach_def CpswProxy_status_cmd_def sv)
  moreover have "srv_sig (srv_at e core srv ?s') = srv_sig S0"
    using undone by (simp add: srv_at_cmd sv reply_call_def)
  moreover have "CpswProxyServer_getClient core ?t (gProxyServerObj (srv_at e core srv ?s')) = None"
    using no by (simp add: srv_at_cmd sv getClient_clients)
  ultimately show ?thesis by blast
qed

section \<open>The life of an interface\<close>

text \<open>The drivers of the core open and close what they are asked to.\<close>

definition drivers_ok :: "cenv \<Rightarrow> bool" where
  "drivers_ok ce \<longleftrightarrow> (\<forall>cs c. chandle_of ce cs (AppCall c) \<and> cstatus_of ce cs (AppCall c) = ETHFW_SOK)"

lemma app_live:
  assumes "drivers_ok ce"
  shows "app_open (live e core srv ce) c s = (Some (length (ccalls s)), app c s)" "app_status (live e core srv ce) c s = (ETHFW_SOK, app c s)"
  using assms by (simp_all add: drivers_ok_def app_open_def app_status_def)

lemma close_live:
  assumes d: "drivers_ok ce" and s: "in_session e core srv h t X s"
  shows "\<exists>s'. CpswRemoteApp_closeLwipTxCh (live e core srv ce) h ti free s = Some s' \<and> in_session e core srv h t X s'"
    "\<exists>s'. CpswRemoteApp_closeLwipRxCh (live e core srv ce) h dflt ip ri free sw s = Some s' \<and> in_session e core srv h t X s'"
proof -
  let ?e = "live e core srv ce" and ?b = "rxFlowStartIdx ri" and ?o = "rxFlowIdx ri" and ?m = "rxMacAddr ri"
  show "\<exists>s'. CpswRemoteApp_closeLwipTxCh ?e h ti free s = Some s' \<and> in_session e core srv h t X s'"
    using status_keeps [of e core srv h t X "app (EnetUdma_closeTxCh (hTxChannel ti)) (app (EnetDma_disableTxEvent (hTxChannel ti)) s)"
        "CMD_FREE_TX (txChNum ti)" ce] s
    by (auto simp: CpswRemoteApp_closeLwipTxCh_def app_live [OF d] app_assert_def status_cmds)
  let ?s = "app (EnetDma_disableRxEvent (hRxFlow ri)) s"
  obtain st1 s1 where 1: "(if sw then CpswProxy_unregisterIPV4Addr ?e h ip ?s else Some (ETHFW_SOK, ?s)) = Some (st1, s1)"
    "in_session e core srv h t X s1"
    using status_keeps [of e core srv h t X ?s "CMD_DEREGISTER_IPv4 ip" ce] s by (cases sw) (auto simp: status_cmds)
  obtain st2 s2 where 2: "(if dflt \<and> sw then CpswProxy_unregisterDefaultRxFlow ?e h ?b ?o s1 else CpswProxy_unregisterDstMacRxFlow ?e h ?b ?o ?m s1) = Some (st2, s2)"
    "in_session e core srv h t X s2"
    using status_keeps [OF 1(2), of "CMD_DEL_RX_DEFAULTFLOW ?b ?o" ce] status_keeps [OF 1(2), of "CMD_DEREGISTER_MAC ?m ?b ?o" ce]
    by (cases "dflt \<and> sw") (auto simp: status_cmds)
  obtain st3 s3 where 3: "CpswProxy_freeMac ?e h ?m (app (EnetUdma_closeRxFlow (hRxFlow ri)) s2) = Some (st3, s3)" "in_session e core srv h t X s3"
    using status_keeps [of e core srv h t X "app (EnetUdma_closeRxFlow (hRxFlow ri)) s2" "CMD_FREE_MAC ?m" ce] 2(2) by (auto simp: status_cmds)
  obtain st4 s4 where 4: "CpswProxy_freeRxFlow ?e h ?b ?o s3 = Some (st4, s4)" "in_session e core srv h t X s4"
    using status_keeps [OF 3(2), of "CMD_FREE_RX ?b ?o" ce] by (auto simp: status_cmds)
  show "\<exists>s'. CpswRemoteApp_closeLwipRxCh ?e h dflt ip ri free sw s = Some s' \<and> in_session e core srv h t X s'"
    using 1(1) 2(1) 3(1) 4 by (cases sw; cases dflt) (simp_all add: CpswRemoteApp_closeLwipRxCh_def app_live [OF d] app_assert_def)
qed

text \<open>Opening an interface whose proxy client is \<open>h\<close>, as configured for a plain attach.\<close>

lemma getHandle_live:
  fixes s :: "'a ni_st_scheme"
  assumes d: "drivers_ok ce" and ready: "server_ready e core n port (srv_at e core srv s)" and h: "h < length (pxClientObj (gCpswProxy s))"
    and ni: "niProxy (ni_at s i) = Some h" "niVirtPort (ni_at s i) = port" "\<not> useExtAttach (gVirtNetifObj s)"
  obtains oa s1 X j where "LwipifEnetAppCb_getHandle (live e core srv ce) i ia oa0 s = Some (oa, s1)"
    "in_session e core srv h (CPSWPROXY_VIRTPORT_2_TOKEN port) X s1"
    "srv_sig X = sig_attached (unat core) j (srv_sig (srv_at e core srv s))"
    "first_idx (\<lambda>x. \<not> inUse x) (clients core (srv_at e core srv s)) = Some j"
    "first_idx (\<lambda>(u, k). u \<and> k = CPSWPROXY_VIRTPORT_2_TOKEN port) (map use_tok (clients core X)) = Some j"
    "first_idx (\<lambda>(u, k). u \<and> k = CPSWPROXY_VIRTPORT_2_TOKEN port) ((map use_tok (clients core X))[j := (False, ETHREMOTECFG_TOKEN_NONE)]) = None"
proof -
  let ?e = "live e core srv ce" and ?t = "CPSWPROXY_VIRTPORT_2_TOKEN port"
  obtain outs s1 j where a: "CpswProxy_attach ?e h port s = Some (ETHFW_SOK, Some outs, s1)"
    and s1: "in_session e core srv h ?t (srv_at e core srv s1) s1"
    and rest: "srv_sig (srv_at e core srv s1) = sig_attached (unat core) j (srv_sig (srv_at e core srv s))"
    "first_idx (\<lambda>x. \<not> inUse x) (clients core (srv_at e core srv s)) = Some j"
    "first_idx (\<lambda>(u, k). u \<and> k = ?t) (map use_tok (clients core (srv_at e core srv s1))) = Some j"
    "first_idx (\<lambda>(u, k). u \<and> k = ?t) ((map use_tok (clients core (srv_at e core srv s1)))[j := (False, ETHREMOTECFG_TOKEN_NONE)]) = None"
    by (rule attach_live [OF ready h, of ce])
  let ?X = "srv_at e core srv s1"
  obtain rx tx feat x y where outs: "outs = (rx, tx, feat, x, y)" by (metis prod_cases5)
  let ?s2 = "upd_ni i (\<lambda>n. n\<lparr>niFeatures := feat\<rparr>) s1"
  have "in_session e core srv h ?t ?X ?s2" using s1 by simp
  from alloc_keeps(1) [OF this, of ce 0] obtain st3 psil s3 where 3: "CpswProxy_allocTxCh ?e h 0 ?s2 = Some (st3, psil, s3)"
    "in_session e core srv h ?t ?X s3" by blast
  from alloc_keeps(2) [OF 3(2), of ce 0] obtain st4 base off s4 where 4: "CpswProxy_allocRxFlow ?e h 0 s3 = Some (st4, (base, off), s4)"
    "in_session e core srv h ?t ?X s4" by blast
  from alloc_keeps(3) [OF 4(2), of ce] obtain st5 mac s5 where 5: "CpswProxy_allocMac ?e h s4 = Some (st5, mac, s5)"
    "in_session e core srv h ?t ?X s5" by blast
  let ?s6 = "upd_ni i (\<lambda>n. n\<lparr>niMacAddr := mac\<rparr>) s5"
  have at: "attach_netif ?e i h oa s = Some (oa\<lparr>hostPortRxMtu := rx, txMtu0 := tx\<rparr>, psil, base, off, ?s6)" for oa
    by (simp add: attach_netif_def ni a outs 3(1) 4(1) 5(1))
  have 6: "in_session e core srv h ?t ?X ?s6" using 5(2) by simp
  let ?dflt = "useDefaultRxFlow (gVirtNetifObj ?s6) \<and> CpswProxy_isSwitchPort (niVirtPort (ni_at ?s6 i))" and ?mac = "niMacAddr (ni_at ?s6 i)"
  let ?s8 = "app (EnetUdma_openRxFlow base off (rxNumPackets ia) rx) (app (EnetUdma_openTxCh psil (txNumPackets ia)) ?s6)"
  have 8: "in_session e core srv h ?t ?X ?s8" using 6 by simp
  obtain st9 s9 where 9: "(if ?dflt then CpswProxy_registerDefaultRxFlow ?e h base off ?s8 else CpswProxy_registerDstMacRxFlow ?e h base off ?mac ?s8) = Some (st9, s9)"
    "in_session e core srv h ?t ?X s9"
    using status_keeps [OF 8, of "CMD_SET_RX_DEFAULTFLOW base off" ce] status_keeps [OF 8, of "CMD_REGISTER_MAC ?mac base off" ce]
    by (cases ?dflt) (auto simp: status_cmds)
  have "\<exists>oa. LwipifEnetAppCb_getHandle ?e i ia oa0 s = Some (oa, s9)"
    using 9(1)
    by (cases "useDefaultRxFlow (gVirtNetifObj ?s6)"; cases "CpswProxy_isSwitchPort (niVirtPort (ni_at ?s6 i))")
      (simp_all add: LwipifEnetAppCb_getHandle_def ni(1) at CpswRemoteApp_openLwipTxCh_def CpswRemoteApp_openLwipRxCh_def
        app_live [OF d] app_assert_def Let_def)
  with that [OF _ 9(2) rest] show thesis by blast
qed

lemma session_found:
  assumes ready: "server_ready e core n port S0" and X: "srv_sig X = sig_attached (unat core) j (srv_sig S0)"
    "first_idx (\<lambda>(u, k). u \<and> k = t) (map use_tok (clients core X)) = Some j"
    and s: "in_session e core srv h t X s"
  shows "CpswProxyServer_getClient core t (gProxyServerObj (srv_at e core srv s)) \<noteq> None"
proof -
  let ?S = "srv_at e core srv s"
  have tok: "tok_sig ?S = tok_sig X" using s by (simp add: in_session_def)
  obtain cs i m att where s0: "srv_sig S0 = (cs, i, m, att)" by (metis prod_cases4)
  obtain cs' att' where e: "srv_sig ?S = (cs', i, m, att')" "length cs' = length cs"
    using tok X(1) by (simp add: tok_sig_def s0 sig_attached_def)
  have "unat core < length (coreObj (gProxyServerObj ?S))"
    using server_ready_on(3) [OF ready] srv_sig_len [OF s0] srv_sig_len [OF e(1)] e(2) by simp
  from clients_sig [OF tok this] show ?thesis by (simp add: getClient_clients find_tok X(2))
qed

lemma getHandle_netifs:
  assumes "LwipifEnetAppCb_getHandle e i ia oa0 s = Some (oa, s')"
  shows "length (virtNetif (gVirtNetifObj s')) = length (virtNetif (gVirtNetifObj s))"
  using getHandle_does(1) [OF assms] by (cases s; cases s') (auto simp: acts_def upd_ni_def)

text \<open>The address call-back: a command for a switch port, nothing for a MAC port.\<close>

lemma status_cb_live:
  fixes s :: "'a ni_st_scheme"
  assumes s: "in_session e core srv h t X s" and ni: "niProxy (ni_at s i) = Some h" "i < length (virtNetif (gVirtNetifObj s))"
  shows "\<exists>s'. EthApp_virtNetifStatusCb (live e core srv ce) i up addr s = Some s' \<and> in_session e core srv h t X s'
     \<and> niProxy (ni_at s' i) = Some h \<and> niVirtPort (ni_at s' i) = niVirtPort (ni_at s i)"
proof (cases "up \<and> addr \<noteq> (0, 0, 0, 0)")
  case True
  let ?s = "upd_ni i (\<lambda>n. n\<lparr>niIpv4Addr := addr\<rparr>) s"
  have s': "in_session e core srv h t X ?s" using s by simp
  have n: "niProxy (ni_at ?s i) = Some h" "niVirtPort (ni_at ?s i) = niVirtPort (ni_at s i)"
    using ni by (simp_all add: ni_upd_ni)
  let ?cmd = "CMD_REGISTER_IPv4 (niIpv4Addr (ni_at ?s i)) (niMacAddr (ni_at ?s i))"
  obtain st s1 where c: "CpswProxy_status_cmd (live e core srv ce) h ?cmd ?s = Some (st, s1)" "in_session e core srv h t X s1"
    using status_keeps [OF s', of ?cmd ce] by auto
  with doesD(2) [OF status_cmd_does [OF c(1)], of i] show ?thesis
    using True n s' by (cases "CpswProxy_isSwitchPort (niVirtPort (ni_at s i))")
      (simp_all add: EthApp_virtNetifStatusCb_def CpswProxy_registerIPV4Addr_def Let_def)
next
  case False
  then have "EthApp_virtNetifStatusCb (live e core srv ce) i up addr s = Some s" by (auto simp: EthApp_virtNetifStatusCb_def)
  then show ?thesis using s ni by blast
qed

lemma release_live:
  fixes s :: "'a ni_st_scheme"
  assumes d: "drivers_ok ce" and ready: "server_ready e core n port S0" and j0: "first_idx (\<lambda>x. \<not> inUse x) (clients core S0) = Some j"
    and sess: "in_session e core srv h (CPSWPROXY_VIRTPORT_2_TOKEN port) X s"
    and X: "srv_sig X = sig_attached (unat core) j (srv_sig S0)"
      "first_idx (\<lambda>(u, k). u \<and> k = CPSWPROXY_VIRTPORT_2_TOKEN port) (map use_tok (clients core X)) = Some j"
      "first_idx (\<lambda>(u, k). u \<and> k = CPSWPROXY_VIRTPORT_2_TOKEN port) ((map use_tok (clients core X))[j := (False, ETHREMOTECFG_TOKEN_NONE)]) = None"
    and ni: "niProxy (ni_at s i) = Some h"
  shows "\<exists>s'. LwipifEnetAppCb_releaseHandle (live e core srv ce) i rel s = Some s' \<and> srv_sig (srv_at e core srv s') = srv_sig S0
     \<and> CpswProxyServer_getClient core (CPSWPROXY_VIRTPORT_2_TOKEN port) (gProxyServerObj (srv_at e core srv s')) = None"
proof -
  let ?e = "live e core srv ce" and ?t = "CPSWPROXY_VIRTPORT_2_TOKEN port"
  obtain s3 where c1: "CpswRemoteApp_closeLwipTxCh ?e h (relTxInfo rel) (txFreePkt rel) s = Some s3" "in_session e core srv h ?t X s3"
    using close_live(1) [OF d sess] by blast
  obtain s4 where c2: "CpswRemoteApp_closeLwipRxCh ?e h (useDefaultRxFlow (gVirtNetifObj s3)) (niIpv4Addr (ni_at s3 i)) (relRxInfo rel) (rxFreePkt rel)
      (CpswProxy_isSwitchPort (niVirtPort (ni_at s i))) s3 = Some s4" "in_session e core srv h ?t X s4"
    using close_live(2) [OF d c1(2)] by blast
  from detach_live [OF ready j0 c2(2) X, of ce] show ?thesis
    by (auto simp: LwipifEnetAppCb_releaseHandle_def ni c1(1) c2(1) Let_def)
qed

text \<open>Property C10 (roundtrip).  Against a server that has room for it, an interface can be opened, be told its address and
  be closed: no request is left unanswered, no assertion fails.  While it is open the client holds
  the port's token and the server finds its client object by it; when it is closed the token finds
  none, and the server's reference counts, the client objects in use and the cores it has attached
  are what they were before.\<close>

theorem netif_life:
  fixes s :: "'a ni_st_scheme"
  assumes d: "drivers_ok ce" and ready: "server_ready e core n port (srv_at e core srv s)" and h: "h < length (pxClientObj (gCpswProxy s))"
    and ni: "niProxy (ni_at s i) = Some h" "niVirtPort (ni_at s i) = port" "\<not> useExtAttach (gVirtNetifObj s)" "i < length (virtNetif (gVirtNetifObj s))"
  shows "\<exists>oa s1 s2 s3. LwipifEnetAppCb_getHandle (live e core srv ce) i ia oa0 s = Some (oa, s1)
     \<and> EthApp_virtNetifStatusCb (live e core srv ce) i up addr s1 = Some s2
     \<and> LwipifEnetAppCb_releaseHandle (live e core srv ce) i \<lparr>relTxInfo = txInfo oa, relRxInfo = rxInfo oa, txFreePkt = ft, rxFreePkt = fr\<rparr> s2 = Some s3
     \<and> (let t = CPSWPROXY_VIRTPORT_2_TOKEN port; found = (\<lambda>s. CpswProxyServer_getClient core t (gProxyServerObj (srv_at e core srv s))) in
          pcToken (pc_at s1 h) = t \<and> found s1 \<noteq> None \<and> found s2 \<noteq> None \<and> found s3 = None
        \<and> srv_sig (srv_at e core srv s3) = srv_sig (srv_at e core srv s))"
proof -
  let ?e = "live e core srv ce" and ?t = "CPSWPROXY_VIRTPORT_2_TOKEN port"
  obtain oa s1 X j where o: "LwipifEnetAppCb_getHandle ?e i ia oa0 s = Some (oa, s1)" and s1: "in_session e core srv h ?t X s1"
    and X: "srv_sig X = sig_attached (unat core) j (srv_sig (srv_at e core srv s))"
      "first_idx (\<lambda>x. \<not> inUse x) (clients core (srv_at e core srv s)) = Some j"
      "first_idx (\<lambda>(u, k). u \<and> k = ?t) (map use_tok (clients core X)) = Some j"
      "first_idx (\<lambda>(u, k). u \<and> k = ?t) ((map use_tok (clients core X))[j := (False, ETHREMOTECFG_TOKEN_NONE)]) = None"
    by (rule getHandle_live [OF d ready h ni(1-3)])
  note same = actsD [OF getHandle_does(1) [OF o]]
  have ni1: "niProxy (ni_at s1 i) = Some h" "niVirtPort (ni_at s1 i) = port" "i < length (virtNetif (gVirtNetifObj s1))"
    using same(2,3) [of i] ni getHandle_netifs [OF o] by simp_all
  obtain s2 where u: "EthApp_virtNetifStatusCb ?e i up addr s1 = Some s2" and s2: "in_session e core srv h ?t X s2"
    and ni2: "niProxy (ni_at s2 i) = Some h" "niVirtPort (ni_at s2 i) = port"
    using status_cb_live [OF s1 ni1(1,3), of ce up addr] ni1(2) by auto
  from release_live [OF d ready X(2) s2 X(1,3,4) ni2(1)]
  obtain s3 where rel: "LwipifEnetAppCb_releaseHandle ?e i \<lparr>relTxInfo = txInfo oa, relRxInfo = rxInfo oa, txFreePkt = ft, rxFreePkt = fr\<rparr> s2 = Some s3"
    "srv_sig (srv_at e core srv s3) = srv_sig (srv_at e core srv s)" "CpswProxyServer_getClient core ?t (gProxyServerObj (srv_at e core srv s3)) = None"
    by blast
  have found: "CpswProxyServer_getClient core ?t (gProxyServerObj (srv_at e core srv s')) \<noteq> None" if "in_session e core srv h ?t X s'" for s' :: "'a ni_st_scheme"
    using that session_found [OF ready X(1,3)] by blast
  show ?thesis
    using o u rel found [OF s1] found [OF s2] s1 by (auto simp: Let_def in_session_def)
qed

section \<open>Examples\<close>

text \<open>The core of \<open>pc_demo\<close> with one interface, on virtual switch port 25, and the server \<open>proxy_demo\<close>.\<close>

definition ni_demo :: ni_st where
  "ni_demo = \<lparr>ccalls = [], gCpswProxy = gCpswProxy pc_demo,
     gVirtNetifObj = (netif_initial False)\<lparr>virtNetif := [\<lparr>niProxy = Some 0, niVirtPort = 25, niFeatures = 0, niMacAddr = zero_mac,
         niIpv4Addr = (0, 0, 0, 0), niIsDfltNetif = True\<rparr>]\<rparr>, netif_default = None\<rparr>"

definition oa_zero :: GetHandleOutArgs where
  "oa_zero = \<lparr>handleArg = 0, outUdmaDrv = False, hostPortRxMtu = 0, txMtu0 = 0, txCsumOffloadEn = False, rxCsumOffloadEn = False,
     timerPeriodUs = 0, txInfo = \<lparr>hTxChannel = None, txChNum = 0, txPortNum = 0, txDisableEvent = False\<rparr>,
     rxInfo = \<lparr>hRxFlow = None, rxFlowStartIdx = 0, rxFlowIdx = 0, rxMacAddr = zero_mac, rxDisableEvent = False\<rparr>\<rparr>"

abbreviation demo_live :: cenv where
  "demo_live \<equiv> live srv_env 1 proxy_demo pc_env"

lemma ni_demo_facts:
  "drivers_ok pc_env" "server_ready srv_env 1 3 25 (srv_at srv_env 1 proxy_demo ni_demo)" "0 < length (pxClientObj (gCpswProxy ni_demo))"
  "niProxy (ni_at ni_demo 0) = Some 0" "niVirtPort (ni_at ni_demo 0) = 25" "\<not> useExtAttach (gVirtNetifObj ni_demo)"
  "0 < length (virtNetif (gVirtNetifObj ni_demo))" "\<not> useDefaultRxFlow (gVirtNetifObj ni_demo)" "niMbx (gVirtNetifObj ni_demo) = []"
  using demo_facts server_idle_inv [OF demo_idle] pc_demo_facts(1) [of 0]
  by (simp_all add: drivers_ok_def pc_env_def server_ready_def server_of_def ni_demo_def ni_at_def netif_initial_def getClient_clients
      client_zero_def first_idx_None)

theorem netif_life_witness:
  "\<exists>oa s1 s2 s3. LwipifEnetAppCb_getHandle demo_live 0 \<lparr>txNumPackets = 16, rxNumPackets = 32\<rparr> oa_zero ni_demo = Some (oa, s1)
     \<and> EthApp_virtNetifStatusCb demo_live 0 True (192, 168, 1, 5) s1 = Some s2
     \<and> LwipifEnetAppCb_releaseHandle demo_live 0 \<lparr>relTxInfo = txInfo oa, relRxInfo = rxInfo oa, txFreePkt = 0, rxFreePkt = 1\<rparr> s2 = Some s3
     \<and> srv_sig (server_of srv_env 1 proxy_demo (ccalls s3)) = srv_sig proxy_demo"
  using netif_life [OF ni_demo_facts(1-7), of "\<lparr>txNumPackets = 16, rxNumPackets = 32\<rparr>" oa_zero True "(192, 168, 1, 5)" 0 1]
  by (auto simp: Let_def ni_demo_def server_of_def)


text \<open>The drivers' part in closing and opening, against the server.\<close>

lemma closeDma_live:
  assumes s: "in_session e core srv h t X s" and ni: "niProxy (ni_at s i) = Some h"
    and hd: "hTxChannel (relTxInfo rel) \<noteq> None" "hRxFlow (relRxInfo rel) \<noteq> None"
  shows "\<exists>rel' s'. LwipifEnetAppCb_closeDma (live e core srv ce) i rel s = Some (rel', s') \<and> in_session e core srv h t X s'"
proof -
  let ?ri = "relRxInfo rel" and ?t = "hTxChannel (relTxInfo rel)"
  let ?s = "app (EnetDma_disableRxEvent (hRxFlow ?ri)) (app (FreePkts (txFreePkt rel)) (app (EnetUdma_closeTxCh ?t) (app (EnetDma_disableTxEvent ?t) s)))"
  have s': "in_session e core srv h t X ?s" using s by simp
  obtain st s1 where c: "CpswProxy_unregisterDstMacRxFlow (live e core srv ce) h (rxFlowStartIdx ?ri) (rxFlowIdx ?ri) (rxMacAddr ?ri) ?s = Some (st, s1)"
    "in_session e core srv h t X s1"
    using status_keeps [OF s', of "CMD_DEREGISTER_MAC (rxMacAddr ?ri) (rxFlowStartIdx ?ri) (rxFlowIdx ?ri)" ce] by (auto simp: status_cmds)
  then show ?thesis using ni hd by (simp add: LwipifEnetAppCb_closeDma_def app_assert_def Let_def)
qed

lemma openDma_live:
  assumes d: "drivers_ok ce" and s: "in_session e core srv h t X s" and ni: "niProxy (ni_at s i) = Some h"
  shows "\<exists>oa' s'. LwipifEnetAppCb_openDma (live e core srv ce) i ia oa s = Some (oa', s') \<and> in_session e core srv h t X s'"
proof -
  let ?ri = "rxInfo oa" and ?tx = "EnetUdma_openTxCh (txChNum (txInfo oa)) (txNumPackets ia)"
  let ?s = "app (EnetUdma_openRxFlow (rxFlowStartIdx ?ri) (rxFlowIdx ?ri) (rxNumPackets ia) (hostPortRxMtu oa)) (app ?tx s)"
  have s': "in_session e core srv h t X ?s" using s by simp
  obtain st s1 where c: "CpswProxy_registerDstMacRxFlow (live e core srv ce) h (rxFlowStartIdx ?ri) (rxFlowIdx ?ri) (rxMacAddr ?ri) ?s = Some (st, s1)"
    "in_session e core srv h t X s1"
    using status_keeps [OF s', of "CMD_REGISTER_MAC (rxMacAddr ?ri) (rxFlowStartIdx ?ri) (rxFlowIdx ?ri)" ce] by (auto simp: status_cmds)
  then show ?thesis using ni by (simp add: LwipifEnetAppCb_openDma_def app_live [OF d] app_assert_def Let_def)
qed

text \<open>A recovery of the interface: lwIP's driver with fixed handles.\<close>

definition demo_rel :: ReleaseHandleInfo where
  "demo_rel = \<lparr>relTxInfo = (txInfo oa_zero)\<lparr>hTxChannel := Some 8\<rparr>, relRxInfo = (rxInfo oa_zero)\<lparr>hRxFlow := Some 9\<rparr>, txFreePkt = 0, rxFreePkt = 1\<rparr>"

definition demo_open :: "nat \<Rightarrow> ni_st \<Rightarrow> ni_st option" where
  "demo_open i s = map_option snd (LwipifEnetAppCb_openDma demo_live i \<lparr>txNumPackets = 16, rxNumPackets = 32\<rparr> oa_zero s)"

definition demo_close :: "nat \<Rightarrow> ni_st \<Rightarrow> ni_st option" where
  "demo_close i s = map_option snd (LwipifEnetAppCb_closeDma demo_live i demo_rel s)"

lemma demo_lwipif: "lwipif_ok demo_live demo_open demo_close"
  unfolding lwipif_ok_def demo_open_def demo_close_def by fastforce

lemma in_session_upd_mbx [simp]: "in_session e core srv h t X (upd_mbx f s) = in_session e core srv h t X s"
  by (simp add: in_session_def pc_at_def) (simp add: upd_mbx_def)

lemma ni_upd_mbx [simp]: "ni_at (upd_mbx f s) i = ni_at s i"
  by (simp add: upd_mbx_def ni_at_def)

definition queue_mbx :: mailbox_ops where
  "queue_mbx = \<lparr>MailboxP_post = (\<lambda>m q. if length q < ETHAPP_VIRTNETIF_MBX_MSGCOUNT then Some (q @ [m]) else None),
     MailboxP_pend = (\<lambda>q. case q of [] \<Rightarrow> None | m # q \<Rightarrow> Some (m, q))\<rparr>"

lemma queue_mbx_ok: "mailbox_ok ETHAPP_VIRTNETIF_MBX_MSGCOUNT queue_mbx"
  by (simp add: mailbox_ok_def queue_mbx_def)

theorem netif_recovery_witness:
  "\<exists>s'. recovery_run demo_live queue_mbx demo_open demo_close
       [Notified ETHREMOTECFG_NOTIFY_HWERROR 0, TaskTurn, Notified ETHREMOTECFG_NOTIFY_HWRECOVERY_COMPLETE 0] ni_demo = Some s'
     \<and> (\<exists>ms bs. ms @ niMbx (gVirtNetifObj s') = [\<lparr>rmNetif = 0, rmNotifyType = ETHREMOTECFG_NOTIFY_HWERROR\<rparr>,
           \<lparr>rmNetif = 0, rmNotifyType = ETHREMOTECFG_NOTIFY_HWRECOVERY_COMPLETE\<rparr>] \<and> list_all2 handled ms bs)"
proof -
  let ?t = "pcToken (pc_at ni_demo 0)" and ?m = "\<lparr>rmNetif = 0, rmNotifyType = ETHREMOTECFG_NOTIFY_HWERROR\<rparr>"
  let ?s = "upd_mbx (\<lambda>_. []) (upd_mbx (\<lambda>_. [?m]) ni_demo)"
  have s: "in_session srv_env 1 proxy_demo 0 ?t (srv_at srv_env 1 proxy_demo ni_demo) (app (Netif_set_link_down 0) ?s)"
    using ni_demo_facts(3) by (simp add: in_session_def) (simp add: in_session_def upd_mbx_def pc_at_def)
  obtain rel' s1 where c: "LwipifEnetAppCb_closeDma demo_live 0 demo_rel (app (Netif_set_link_down 0) ?s) = Some (rel', s1)"
    and s1: "in_session srv_env 1 proxy_demo 0 ?t (srv_at srv_env 1 proxy_demo ni_demo) s1"
    using closeDma_live [OF s, of 0 demo_rel pc_env] ni_demo_facts(4) by (auto simp: demo_rel_def)
  have same: "gVirtNetifObj s1 = gVirtNetifObj ?s" "niProxy (ni_at s1 0) = Some 0"
    using doesD(1,2) [OF closeDma_does(1) [OF c]] ni_demo_facts(4) by simp_all
  obtain st s2 where t: "CpswProxy_teardownCompletion demo_live 0 s1 = Some (st, s2)"
    using status_keeps [OF s1, of CMD_TEARDOWN_COMPLETION pc_env] by (auto simp: status_cmds)
  have "niMbx (gVirtNetifObj s2) = []"
    using doesD(1) [OF status_cmd_does [OF t [unfolded status_cmds]]] same(1) by simp
  then have "\<exists>s'. recovery_run demo_live queue_mbx demo_open demo_close
       [Notified ETHREMOTECFG_NOTIFY_HWERROR 0, TaskTurn, Notified ETHREMOTECFG_NOTIFY_HWRECOVERY_COMPLETE 0] ni_demo = Some s'"
    using ni_demo_facts(9) c t same(2)
    by (simp add: queue_mbx_def CpswRemoteApp_hwRecoveryNotify_def post_recovery_def ETHAPP_VIRTNETIF_MBX_MSGCOUNT_def CpswRemoteApp_hwRecoveryTask_def
        recover_netif_def EthApp_closeDma_def demo_close_def)
  then obtain s' where r: "recovery_run demo_live queue_mbx demo_open demo_close
       [Notified ETHREMOTECFG_NOTIFY_HWERROR 0, TaskTurn, Notified ETHREMOTECFG_NOTIFY_HWRECOVERY_COMPLETE 0] ni_demo = Some s'" by blast
  from netif_recovery [OF demo_lwipif r queue_mbx_ok ni_demo_facts(9)] r show ?thesis by auto
qed

text \<open>A core whose library is initialised, with the interface not yet opened.\<close>

definition ni_fresh :: ni_st where
  "ni_fresh = \<lparr>ccalls = [], gCpswProxy = px_zero, gVirtNetifObj = netif_initial True, netif_default = None\<rparr>"

lemma ni_fresh_open: "proxies_open 0 ni_fresh"
  by (simp add: proxies_open_def ni_fresh_def px_zero_def pc_at_def pc_zero_def CPSWPROXY_CLIENT_MAX_def)

theorem netif_routing_witness:
  "\<exists>s1. CpswRemoteApp_initVirtNetif pc_env ni_fresh = Some s1
     \<and> CpswProxy_notifyHandler ETHREMOTECFG_TOKEN_NONE ETHREMOTECFG_NOTIFY_HWERROR None 28 s1
         = (ETHFW_SOK, cissue (NotifyCallback 0 ETHREMOTECFG_NOTIFY_HWERROR None) s1)"
proof -
  have len: "length (virtNetif (gVirtNetifObj ni_fresh)) = 2" by (simp add: ni_fresh_def netif_initial_def)
  obtain s1 where i: "CpswRemoteApp_initVirtNetif pc_env ni_fresh = Some s1" and o: "proxies_open 2 s1" "niMbx (gVirtNetifObj s1) = []"
    using init_open [OF ni_fresh_open, of pc_env] by (auto simp: len CPSWPROXY_CLIENT_MAX_def split: option.splits)
  have t: "pcToken (pc_at s1 0) = ETHREMOTECFG_TOKEN_NONE" using o(1) by (simp add: proxies_open_def)
  from netif_routing [OF ni_fresh_open i, of s1 0 ETHREMOTECFG_NOTIFY_HWERROR queue_mbx None 28] queue_mbx_ok i show ?thesis
    by (simp add: len o(2) t) (simp add: ETHAPP_VIRTNETIF_MBX_MSGCOUNT_def)
qed
end
