(* ===== verification/MemHeap.thy ===== *)
theory MemHeap
  imports Prelude "HOL-Library.Monad_Syntax"
begin

unbundle bit_operations_syntax

text \<open>
  The memory heaps of a core (\<^verbatim>\<open>utils/mem/src/app_mem_rtos.c\<close>): up to three, each either a linear
  allocator kept here or a heap of the operating system (\<^verbatim>\<open>HeapP\<close>), whose answers the environment
  gives.  Addresses are 32 bits wide, as on the cores the code runs on, 0 is \<^verbatim>\<open>NULL\<close>.  A division by
  zero is \<open>None\<close>.
\<close>

section \<open>Data\<close>

definition APP_MEM_HEAP_NAME_MAX :: nat where "APP_MEM_HEAP_NAME_MAX = 16"
definition APP_MEM_HEAP_MAX :: nat where "APP_MEM_HEAP_MAX = 3"
definition APP_MEM_ALIGN_MIN_BYTES :: u32 where "APP_MEM_ALIGN_MIN_BYTES = 256"
definition APP_MEM_HEAP_FLAGS_TYPE_LINEAR_ALLOCATE :: u32 where "APP_MEM_HEAP_FLAGS_TYPE_LINEAR_ALLOCATE = 1"
definition APP_MEM_HEAP_FLAGS_IS_SHARED :: u32 where "APP_MEM_HEAP_FLAGS_IS_SHARED = 4"
definition APP_MEM_HEAP_FLAGS_DO_CLEAR_ON_ALLOC :: u32 where "APP_MEM_HEAP_FLAGS_DO_CLEAR_ON_ALLOC = 8"

record app_mem_heap_prm_t =
  hp_base :: u32
  hp_name :: string
  hp_size :: u32
  hp_flags :: u32

text \<open>An operating system heap is named by the number of the call that made it.\<close>

record app_mem_heap_obj_t =
  is_valid :: bool
  rtos_heap_handle :: "nat option"
  alloc_offset :: u32
  heap_prm :: app_mem_heap_prm_t

record app_mem_stats_t =
  st_heap_id :: u32
  st_heap_name :: string
  st_heap_size :: u32
  st_free_size :: u32

datatype mem_call =
    HwiP_disable
  | HwiP_restore
  | HeapP_create u32 u32               \<comment> \<open>buffer, size\<close>
  | HeapP_delete nat
  | HeapP_alloc nat u32
  | HeapP_free nat u32 u32
  | HeapP_getHeapStats nat
  | Memset0 u32 u32
  | CacheP_wbInv u32 u32

record mem_env =
  heap_made :: "mem_call list \<Rightarrow> bool"          \<comment> \<open>\<^verbatim>\<open>HeapP_create\<close> does not return NULL\<close>
  heap_block :: "mem_call list \<Rightarrow> u32"          \<comment> \<open>what \<^verbatim>\<open>HeapP_alloc\<close> returns\<close>
  heap_free_size :: "mem_call list \<Rightarrow> u32"

record mem_st =
  mem_calls :: "mem_call list"
  heap_obj :: "app_mem_heap_obj_t list"         \<comment> \<open>\<^verbatim>\<open>g_app_mem_obj\<close>\<close>

definition mcall :: "mem_call \<Rightarrow> mem_st \<Rightarrow> mem_st" where
  "mcall c s = s\<lparr>mem_calls := mem_calls s @ [c]\<rparr>"

definition heap_at :: "mem_st \<Rightarrow> nat \<Rightarrow> app_mem_heap_obj_t" where
  "heap_at s i = heap_obj s ! i"

definition upd_heap :: "nat \<Rightarrow> (app_mem_heap_obj_t \<Rightarrow> app_mem_heap_obj_t) \<Rightarrow> mem_st \<Rightarrow> mem_st" where
  "upd_heap i f s = s\<lparr>heap_obj := (heap_obj s)[i := f (heap_obj s ! i)]\<rparr>"

definition flag_set :: "app_mem_heap_prm_t \<Rightarrow> u32 \<Rightarrow> bool" where
  "flag_set p fl \<longleftrightarrow> hp_flags p AND fl \<noteq> 0"

abbreviation linear :: "app_mem_heap_prm_t \<Rightarrow> bool" where
  "linear p \<equiv> flag_set p APP_MEM_HEAP_FLAGS_TYPE_LINEAR_ALLOCATE"

section \<open>Alignment\<close>

definition APP_MEM_ALIGN32 :: "u32 \<Rightarrow> u32 \<Rightarrow> u32 option" where
  "APP_MEM_ALIGN32 val align = (if align = 0 then None else Some (((val + align - 1) div align) * align))"

definition APP_MEM_ALIGNPTR :: "u32 \<Rightarrow> u32 \<Rightarrow> u32 option" where
  "APP_MEM_ALIGNPTR val align = (if align = 0 then None else Some (((val + align - 1) div align) * align))"

text \<open>The sizes of the operating system heaps are rounded up to 256 bytes.\<close>

definition round256 :: "u32 \<Rightarrow> u32" where
  "round256 v = ((v + APP_MEM_ALIGN_MIN_BYTES - 1) div APP_MEM_ALIGN_MIN_BYTES) * APP_MEM_ALIGN_MIN_BYTES"

section \<open>Operations\<close>

definition appMemInitPrmSetDefault :: "app_mem_heap_prm_t list" where
  "appMemInitPrmSetDefault = replicate APP_MEM_HEAP_MAX \<lparr>hp_base = 0, hp_name = [], hp_size = 0, hp_flags = 0\<rparr>"

definition init_heap :: "mem_env \<Rightarrow> app_mem_heap_prm_t list \<Rightarrow> nat \<Rightarrow> mem_st \<Rightarrow> mem_st" where
  "init_heap e prms i s =
     (let prm = prms ! i;
          s = upd_heap i (\<lambda>ob. ob\<lparr>is_valid := False, alloc_offset := 0, rtos_heap_handle := None\<rparr>) s
      in if hp_base prm = 0 \<or> hp_size prm = 0 then s
         else if linear prm then upd_heap i (\<lambda>ob. ob\<lparr>heap_prm := prm, is_valid := True, alloc_offset := 0\<rparr>) s
         else
           (let buf = round256 (hp_base prm); sz = round256 (hp_size prm); c = HeapP_create buf sz;
                hd = (if heap_made e (mem_calls s @ [c]) then Some (length (mem_calls s)) else None)
            in upd_heap i (\<lambda>ob. ob\<lparr>heap_prm := prm\<lparr>hp_base := buf, hp_size := sz\<rparr>, is_valid := True, rtos_heap_handle := hd\<rparr>)
                 (mcall c s)))"

definition appMemInit :: "mem_env \<Rightarrow> app_mem_heap_prm_t list \<Rightarrow> mem_st \<Rightarrow> int \<times> mem_st" where
  "appMemInit e prms s = (0, fold (init_heap e prms) [0..<APP_MEM_HEAP_MAX] s)"

definition deinit_heap :: "nat \<Rightarrow> mem_st \<Rightarrow> mem_st" where
  "deinit_heap i s =
     (if is_valid (heap_at s i)
      then (let s = (case rtos_heap_handle (heap_at s i) of Some h \<Rightarrow> mcall (HeapP_delete h) s | None \<Rightarrow> s)
            in upd_heap i (\<lambda>ob. ob\<lparr>is_valid := False, alloc_offset := 0, rtos_heap_handle := None\<rparr>) s)
      else s)"

definition appMemDeInit :: "mem_st \<Rightarrow> int \<times> mem_st" where
  "appMemDeInit s = (0, fold deinit_heap [0..<APP_MEM_HEAP_MAX] s)"

definition alloc_linear :: "nat \<Rightarrow> u32 \<Rightarrow> u32 \<Rightarrow> mem_st \<Rightarrow> (u32 \<times> mem_st) option" where
  "alloc_linear i sz align s = do {
     let ob = heap_at s i;
     let s = mcall HwiP_disable s;
     off \<leftarrow> APP_MEM_ALIGN32 (alloc_offset ob) align;
     let (ptr, s) = (if off + sz \<le> hp_size (heap_prm ob)
                     then (hp_base (heap_prm ob) + off, upd_heap i (\<lambda>ob. ob\<lparr>alloc_offset := off + sz\<rparr>) s)
                     else (0, s));
     Some (ptr, mcall HwiP_restore s) }"

definition alloc_rtos :: "mem_env \<Rightarrow> nat \<Rightarrow> u32 \<Rightarrow> mem_st \<Rightarrow> u32 \<times> mem_st" where
  "alloc_rtos e i sz s =
     (case rtos_heap_handle (heap_at s i) of
        None \<Rightarrow> (0, s)
      | Some h \<Rightarrow>
          (let prm = heap_prm (heap_at s i); sz = round256 sz; s = mcall (HeapP_alloc h sz) s;
               ptr = heap_block e (mem_calls s);
               s = (if ptr \<noteq> 0 \<and> flag_set prm APP_MEM_HEAP_FLAGS_DO_CLEAR_ON_ALLOC then mcall (Memset0 ptr sz) s else s);
               s = (if ptr \<noteq> 0 \<and> flag_set prm APP_MEM_HEAP_FLAGS_IS_SHARED then mcall (CacheP_wbInv ptr sz) s else s)
           in (ptr, s)))"

definition appMemAlloc :: "mem_env \<Rightarrow> u32 \<Rightarrow> u32 \<Rightarrow> u32 \<Rightarrow> mem_st \<Rightarrow> (u32 \<times> mem_st) option" where
  "appMemAlloc e heap_id sz align s =
     (if unat heap_id < APP_MEM_HEAP_MAX \<and> sz \<noteq> 0 \<and> is_valid (heap_at s (unat heap_id))
      then (if linear (heap_prm (heap_at s (unat heap_id))) then alloc_linear (unat heap_id) sz align s
            else Some (alloc_rtos e (unat heap_id) sz s))
      else Some (0, s))"

definition appMemFree :: "u32 \<Rightarrow> u32 \<Rightarrow> u32 \<Rightarrow> mem_st \<Rightarrow> int \<times> mem_st" where
  "appMemFree heap_id ptr sz s =
     (let i = unat heap_id; ob = heap_at s i in
      if i < APP_MEM_HEAP_MAX \<and> ptr \<noteq> 0 \<and> sz \<noteq> 0 \<and> is_valid ob
      then (if linear (heap_prm ob)
            then (0, mcall HwiP_restore (upd_heap i (\<lambda>ob. ob\<lparr>alloc_offset := 0\<rparr>) (mcall HwiP_disable s)))
            else (case rtos_heap_handle ob of
                    None \<Rightarrow> (-1, s)
                  | Some h \<Rightarrow>
                      (let sz = round256 sz;
                           s = (if flag_set (heap_prm ob) APP_MEM_HEAP_FLAGS_IS_SHARED then mcall (CacheP_wbInv ptr sz) s else s)
                       in (0, mcall (HeapP_free h ptr sz) s))))
      else (-1, s))"

text \<open>The statistics, unless the heap id is out of range (then they are not touched).\<close>

definition appMemStats :: "mem_env \<Rightarrow> u32 \<Rightarrow> mem_st \<Rightarrow> int \<times> app_mem_stats_t option \<times> mem_st" where
  "appMemStats e heap_id s =
     (let i = unat heap_id; ob = heap_at s i; prm = heap_prm ob;
          none = \<lparr>st_heap_id = of_nat APP_MEM_HEAP_MAX, st_heap_name = [], st_heap_size = 0, st_free_size = 0\<rparr>;
          some = \<lparr>st_heap_id = heap_id, st_heap_name = take APP_MEM_HEAP_NAME_MAX (hp_name prm), st_heap_size = hp_size prm, st_free_size = 0\<rparr>
      in if \<not> i < APP_MEM_HEAP_MAX then (-1, None, s)
         else if \<not> is_valid ob then (-1, Some none, s)
         else if linear prm
         then (0, Some (some\<lparr>st_free_size := hp_size prm - alloc_offset ob\<rparr>), mcall HwiP_restore (mcall HwiP_disable s))
         else (case rtos_heap_handle ob of
                 None \<Rightarrow> (-1, Some some, s)
               | Some h \<Rightarrow> (0, Some (some\<lparr>st_free_size := heap_free_size e (mem_calls s @ [HeapP_getHeapStats h])\<rparr>), mcall (HeapP_getHeapStats h) s)))"

section \<open>The linear allocator\<close>

lemma unat_less_32: "unat (x :: u32) < 2 ^ 32"
  by (rule less_le_trans [OF unsigned_less]) simp

lemma align32_fits:
  assumes "align \<noteq> 0" "unat val + unat align \<le> 2 ^ 32"
  obtains off where "APP_MEM_ALIGN32 val align = Some off" "unat val \<le> unat off" "unat off < unat val + unat align" "unat align dvd unat off"
proof -
  let ?v = "unat val" and ?a = "unat align" and ?x = "val + (align - 1)"
  have a: "0 < ?a" using assms(1) by (simp add: unat_gt_0)
  have m: "unat (align - 1) = ?a - 1" using assms(1) by (simp add: unat_minus_one)
  have "?v + (?a - 1) < 2 ^ 32" using a assms(2) by linarith
  then have x: "unat ?x = ?v + ?a - 1"
    using unat_add_lem [of val "align - 1"] m a by simp
  have le: "(unat ?x div ?a) * ?a \<le> unat ?x" by simp
  then have "unat (?x div align) * unat align < 2 ^ 32"
    using unat_less_32 [of ?x] by (simp only: unat_div_distrib)
  then have o: "unat ((?x div align) * align) = (unat ?x div ?a) * ?a"
    using unat_mult_lem [of "?x div align" align] by (simp add: unat_div_distrib)
  have "APP_MEM_ALIGN32 val align = Some ((?x div align) * align)"
    using assms(1) by (simp add: APP_MEM_ALIGN32_def algebra_simps)
  moreover have "?v \<le> (unat ?x div ?a) * ?a" "(unat ?x div ?a) * ?a < ?v + ?a"
    using div_mod_decomp [of "unat ?x" ?a] mod_less_divisor [OF a, of "unat ?x"] x a by linarith+
  ultimately show thesis using that o by simp
qed

text \<open>A run of allocations from one heap.\<close>

primrec mem_allocs :: "mem_env \<Rightarrow> u32 \<Rightarrow> (u32 \<times> u32) list \<Rightarrow> mem_st \<Rightarrow> (u32 list \<times> mem_st) option" where
  "mem_allocs e hid [] s = Some ([], s)"
| "mem_allocs e hid (r # rs) s = do {
     (p, s) \<leftarrow> appMemAlloc e hid (fst r) (snd r) s;
     (ps, s) \<leftarrow> mem_allocs e hid rs s;
     Some (p # ps, s) }"

definition linear_heap :: "u32 \<Rightarrow> u32 \<Rightarrow> u32 \<Rightarrow> mem_st \<Rightarrow> bool" where
  "linear_heap hid base sz s \<longleftrightarrow> unat hid < APP_MEM_HEAP_MAX \<and> APP_MEM_HEAP_MAX \<le> length (heap_obj s)
     \<and> (let ob = heap_at s (unat hid) in is_valid ob \<and> linear (heap_prm ob) \<and> hp_base (heap_prm ob) = base \<and> hp_size (heap_prm ob) = sz
          \<and> alloc_offset ob \<le> sz)"

text \<open>A request whose alignment and size cannot take the sums past 32 bits.\<close>

definition small_request :: "u32 \<Rightarrow> u32 \<times> u32 \<Rightarrow> bool" where
  "small_request sz r \<longleftrightarrow> fst r \<noteq> 0 \<and> snd r \<noteq> 0 \<and> unat sz + unat (fst r) + unat (snd r) \<le> 2 ^ 32"

definition offset_at :: "u32 \<Rightarrow> mem_st \<Rightarrow> nat" where
  "offset_at hid s = unat (alloc_offset (heap_at s (unat hid)))"

lemma heap_at_simps [simp]:
  "heap_at (mcall c s) i = heap_at s i" "heap_obj (mcall c s) = heap_obj s"
  "i < length (heap_obj s) \<Longrightarrow> heap_at (upd_heap i f s) i = f (heap_at s i)"
  "length (heap_obj (upd_heap i f s)) = length (heap_obj s)"
  by (simp_all add: mcall_def heap_at_def upd_heap_def)

lemma alloc_step:
  assumes h: "linear_heap hid base sz s" and fits: "unat base + unat sz \<le> 2 ^ 32" "base \<noteq> 0" and r: "small_request sz r"
  obtains p s' where "appMemAlloc e hid (fst r) (snd r) s = Some (p, s')" "linear_heap hid base sz s'"
    "offset_at hid s \<le> offset_at hid s'"
    "p \<noteq> 0 \<Longrightarrow> unat base + offset_at hid s \<le> unat p \<and> unat p + unat (fst r) = unat base + offset_at hid s'
       \<and> unat p + unat (fst r) \<le> unat base + unat sz \<and> unat (snd r) dvd unat p - unat base"
    "p = 0 \<Longrightarrow> offset_at hid s' = offset_at hid s"
proof -
  let ?i = "unat hid" and ?ob = "heap_at s (unat hid)"
  have i: "?i < length (heap_obj s)" using h by (auto simp: linear_heap_def)
  have ob: "is_valid ?ob" "linear (heap_prm ?ob)" "hp_base (heap_prm ?ob) = base" "hp_size (heap_prm ?ob) = sz" "alloc_offset ?ob \<le> sz"
    using h by (auto simp: linear_heap_def Let_def)
  have a: "unat (alloc_offset ?ob) \<le> unat sz" using ob(5) by (simp add: word_le_nat_alt)
  have "snd r \<noteq> 0" "unat (alloc_offset ?ob) + unat (snd r) \<le> 2 ^ 32" using r a by (auto simp: small_request_def)
  then obtain off where off: "APP_MEM_ALIGN32 (alloc_offset ?ob) (snd r) = Some off" "unat (alloc_offset ?ob) \<le> unat off"
    "unat off < unat (alloc_offset ?ob) + unat (snd r)" "unat (snd r) dvd unat off"
    by (rule align32_fits)
  have sum: "unat (off + fst r) = unat off + unat (fst r)"
    using off(3) a r unat_add_lem [of off "fst r"] by (simp add: small_request_def)
  have eq: "appMemAlloc e hid (fst r) (snd r) s = Some (if unat off + unat (fst r) \<le> unat sz
      then (base + off, mcall HwiP_restore (upd_heap ?i (\<lambda>ob. ob\<lparr>alloc_offset := off + fst r\<rparr>) (mcall HwiP_disable s)))
      else (0, mcall HwiP_restore (mcall HwiP_disable s)))"
    using h r ob off(1) sum by (simp add: appMemAlloc_def alloc_linear_def linear_heap_def small_request_def Let_def word_le_nat_alt)
  show thesis
  proof (cases "unat off + unat (fst r) \<le> unat sz")
    case True
    have "0 < unat (fst r)" using r by (simp add: small_request_def unat_gt_0)
    then have "unat base + unat off < 2 ^ 32" using True fits(1) by linarith
    then have p: "unat (base + off) = unat base + unat off"
      using unat_add_lem [of base off] by simp
    have "base + off \<noteq> 0" using p fits(2) by (metis add_is_0 unat_eq_zero)
    show thesis
      by (rule that [OF eq [unfolded if_P [OF True]]])
        (use True h i off p sum \<open>base + off \<noteq> 0\<close> in \<open>auto simp: linear_heap_def Let_def offset_at_def word_le_nat_alt\<close>)
  next
    case False
    show thesis
      by (rule that [OF eq [unfolded if_not_P [OF False]]]) (use h in \<open>auto simp: linear_heap_def offset_at_def Let_def\<close>)
  qed
qed

lemma mem_allocs_mono:
  assumes "linear_heap hid base sz s" "unat base + unat sz \<le> 2 ^ 32" "base \<noteq> 0" "list_all (small_request sz) rs"
    and "mem_allocs e hid rs s = Some (ps, s')"
  shows "offset_at hid s \<le> offset_at hid s' \<and> offset_at hid s' \<le> unat sz"
  using assms
proof (induction rs arbitrary: s ps)
  case Nil
  then show ?case by (auto simp: linear_heap_def offset_at_def Let_def word_le_nat_alt)
next
  case (Cons r rs)
  from Cons.prems(4) have r: "small_request sz r" "list_all (small_request sz) rs" by simp_all
  obtain p s1 where p: "appMemAlloc e hid (fst r) (snd r) s = Some (p, s1)" "linear_heap hid base sz s1" "offset_at hid s \<le> offset_at hid s1"
    using alloc_step [OF Cons.prems(1-3) r(1), of e] by blast
  from Cons.prems(5) p(1) obtain ps1 where "mem_allocs e hid rs s1 = Some (ps1, s')" by (auto split: Option.bind_splits)
  from Cons.IH [OF p(2) Cons.prems(2,3) r(2) this] p(3) show ?case by simp
qed

lemma linear_blocks:
  assumes "linear_heap hid base sz s" "unat base + unat sz \<le> 2 ^ 32" "base \<noteq> 0" "list_all (small_request sz) rs"
  shows "\<exists>ps s'. mem_allocs e hid rs s = Some (ps, s') \<and> length ps = length rs \<and> linear_heap hid base sz s'
     \<and> (\<forall>k<length rs. ps ! k \<noteq> 0 \<longrightarrow> unat base + offset_at hid s \<le> unat (ps ! k)
          \<and> unat (ps ! k) + unat (fst (rs ! k)) \<le> unat base + offset_at hid s' \<and> offset_at hid s' \<le> unat sz
          \<and> unat (snd (rs ! k)) dvd unat (ps ! k) - unat base
          \<and> (\<forall>j<k. ps ! j \<noteq> 0 \<longrightarrow> unat (ps ! j) + unat (fst (rs ! j)) \<le> unat (ps ! k)))"
  using assms
proof (induction rs arbitrary: s)
  case Nil
  then show ?case by simp
next
  case (Cons r rs)
  from Cons.prems(4) have r: "small_request sz r" "list_all (small_request sz) rs" by simp_all
  obtain p s1 where p: "appMemAlloc e hid (fst r) (snd r) s = Some (p, s1)" "linear_heap hid base sz s1"
    "offset_at hid s \<le> offset_at hid s1"
    "p \<noteq> 0 \<Longrightarrow> unat base + offset_at hid s \<le> unat p \<and> unat p + unat (fst r) = unat base + offset_at hid s1
       \<and> unat p + unat (fst r) \<le> unat base + unat sz \<and> unat (snd r) dvd unat p - unat base"
    using alloc_step [OF Cons.prems(1-3) r(1), of e] by blast
  from Cons.IH [OF p(2) Cons.prems(2,3) r(2)] obtain ps s' where IH: "mem_allocs e hid rs s1 = Some (ps, s')" "length ps = length rs"
    "linear_heap hid base sz s'"
    "\<And>k. k < length rs \<Longrightarrow> ps ! k \<noteq> 0 \<Longrightarrow> unat base + offset_at hid s1 \<le> unat (ps ! k)
          \<and> unat (ps ! k) + unat (fst (rs ! k)) \<le> unat base + offset_at hid s' \<and> offset_at hid s' \<le> unat sz
          \<and> unat (snd (rs ! k)) dvd unat (ps ! k) - unat base
          \<and> (\<forall>j<k. ps ! j \<noteq> 0 \<longrightarrow> unat (ps ! j) + unat (fst (rs ! j)) \<le> unat (ps ! k))"
    by blast
  have le: "offset_at hid s1 \<le> offset_at hid s'" "offset_at hid s' \<le> unat sz"
    using mem_allocs_mono [OF p(2) Cons.prems(2,3) r(2) IH(1)] by simp_all
  show ?case
  proof (intro exI [of _ "p # ps"] exI [of _ s'] conjI allI impI)
    show "mem_allocs e hid (r # rs) s = Some (p # ps, s')" by (simp add: p(1) IH(1))
    show "length (p # ps) = length (r # rs)" "linear_heap hid base sz s'" using IH by simp_all
    fix k
    assume k: "k < length (r # rs)" "(p # ps) ! k \<noteq> 0"
    show "unat base + offset_at hid s \<le> unat ((p # ps) ! k)" "offset_at hid s' \<le> unat sz"
      "unat ((p # ps) ! k) + unat (fst ((r # rs) ! k)) \<le> unat base + offset_at hid s'"
      "unat (snd ((r # rs) ! k)) dvd unat ((p # ps) ! k) - unat base"
      using k p(3,4) IH(4) [of "k - 1"] le by (cases k; force)+
    fix j
    assume j: "j < k" "(p # ps) ! j \<noteq> 0"
    then show "unat ((p # ps) ! j) + unat (fst ((r # rs) ! j)) \<le> unat ((p # ps) ! k)"
      using k p(4) IH(4) [of "k - 1"] by (cases j; cases k; force)
  qed
qed

text \<open>Property C19 (safety).  While no sum goes past 32 bits, whatever is asked of a linear heap ends, and the blocks it gives
  lie in the heap one after the other, so that no two overlap, each at a multiple of its alignment
  from the base; the address of a block is a multiple of its alignment if that of the heap is one (the code aligns
  the offset, not the address).\<close>

theorem mem_linear_blocks:
  assumes "linear_heap hid base sz s" "unat base + unat sz \<le> 2 ^ 32" "base \<noteq> 0" "list_all (small_request sz) rs"
  shows "\<exists>ps s'. mem_allocs e hid rs s = Some (ps, s') \<and> length ps = length rs \<and> linear_heap hid base sz s'
     \<and> (\<forall>k<length rs. ps ! k \<noteq> 0 \<longrightarrow> unat base + offset_at hid s \<le> unat (ps ! k)
          \<and> unat (ps ! k) + unat (fst (rs ! k)) \<le> unat base + offset_at hid s' \<and> offset_at hid s' \<le> unat sz
          \<and> unat (snd (rs ! k)) dvd unat (ps ! k) - unat base
          \<and> (unat (snd (rs ! k)) dvd unat base \<longrightarrow> unat (snd (rs ! k)) dvd unat (ps ! k))
          \<and> (\<forall>j<k. ps ! j \<noteq> 0 \<longrightarrow> unat (ps ! j) + unat (fst (rs ! j)) \<le> unat (ps ! k)))"
proof -
  have al: "b dvd x" if "b dvd x - y" "b dvd y" "y + z \<le> x" for b x y z :: nat
    using dvd_diffD [OF that(1,2)] that(3) by simp
  obtain ps s' where r: "mem_allocs e hid rs s = Some (ps, s')" "length ps = length rs" "linear_heap hid base sz s'"
    and k: "\<And>k. k < length rs \<Longrightarrow> ps ! k \<noteq> 0 \<Longrightarrow> unat base + offset_at hid s \<le> unat (ps ! k)
          \<and> unat (ps ! k) + unat (fst (rs ! k)) \<le> unat base + offset_at hid s' \<and> offset_at hid s' \<le> unat sz
          \<and> unat (snd (rs ! k)) dvd unat (ps ! k) - unat base
          \<and> (\<forall>j<k. ps ! j \<noteq> 0 \<longrightarrow> unat (ps ! j) + unat (fst (rs ! j)) \<le> unat (ps ! k))"
    using linear_blocks [OF assms, of e] by blast
  have "unat (snd (rs ! k)) dvd unat base \<longrightarrow> unat (snd (rs ! k)) dvd unat (ps ! k)" if "k < length rs" "ps ! k \<noteq> 0" for k
    using al k [OF that] by blast
  then show ?thesis using r k by blast
qed

text \<open>The test for room wraps around: a request so large that its end passes 32 bits is granted, with
  a block that does not end inside the heap, and moves the allocator backwards, to where blocks given
  before lie.\<close>

theorem mem_linear_wrap:
  assumes h: "linear_heap hid base sz s" and off: "APP_MEM_ALIGN32 (alloc_offset (heap_at s (unat hid))) align = Some off"
    and big: "2 ^ 32 \<le> unat off + unat n" "unat off + unat n \<le> 2 ^ 32 + unat sz"
  shows "\<exists>s'. appMemAlloc e hid n align s = Some (base + off, s') \<and> unat sz < unat off + unat n
     \<and> offset_at hid s' + 2 ^ 32 = unat off + unat n \<and> offset_at hid s' < unat off"
proof -
  let ?i = "unat hid" and ?ob = "heap_at s (unat hid)"
  have i: "?i < length (heap_obj s)" using h by (auto simp: linear_heap_def)
  have ob: "is_valid ?ob" "linear (heap_prm ?ob)" "hp_base (heap_prm ?ob) = base" "hp_size (heap_prm ?ob) = sz"
    using h by (auto simp: linear_heap_def Let_def)
  have n: "n \<noteq> 0" using big(1) unat_less_32 [of off] by (cases "n = 0") simp_all
  have "unat (off + n) = (unat off + unat n) mod 2 ^ 32" by (simp add: unat_word_ariths)
  also have "\<dots> = unat off + unat n - 2 ^ 32"
    using big(1) unat_less_32 [of off] unat_less_32 [of n] by (simp add: mod_if)
  finally have sum: "unat (off + n) = unat off + unat n - 2 ^ 32" .
  then have "off + n \<le> sz" using big by (simp add: word_le_nat_alt)
  then have "appMemAlloc e hid n align s = Some (base + off,
      mcall HwiP_restore (upd_heap ?i (\<lambda>ob. ob\<lparr>alloc_offset := off + n\<rparr>) (mcall HwiP_disable s)))"
    using h ob off n by (simp add: appMemAlloc_def alloc_linear_def linear_heap_def Let_def)
  then show ?thesis
    using i sum big unat_less_32 [of n] unat_less_32 [of sz] by (simp add: offset_at_def)
qed

section \<open>Heaps of the operating system\<close>

definition rtos_heap :: "u32 \<Rightarrow> nat \<Rightarrow> mem_st \<Rightarrow> bool" where
  "rtos_heap hid h s \<longleftrightarrow> unat hid < APP_MEM_HEAP_MAX
     \<and> (let ob = heap_at s (unat hid) in is_valid ob \<and> \<not> linear (heap_prm ob) \<and> rtos_heap_handle ob = Some h)"

lemma round256_mult: "256 dvd unat (round256 v)"
proof -
  let ?q = "(v + 256 - 1) div 256"
  have "unat ?q * 256 < 2 ^ 32"
    using unat_less_32 [of "v + 256 - 1"] by (simp add: unat_div_distrib)
  then have "unat (?q * 256) = unat ?q * 256" using unat_mult_lem [of ?q "256 :: u32"] by simp
  then show ?thesis by (simp add: round256_def APP_MEM_ALIGN_MIN_BYTES_def)
qed

lemma round256_ge: "unat v \<le> 2 ^ 32 - 256 \<Longrightarrow> unat v \<le> unat (round256 v) \<and> unat (round256 v) < unat v + 256"
  using align32_fits [of 256 v] unfolding round256_def APP_MEM_ALIGN32_def APP_MEM_ALIGN_MIN_BYTES_def by fastforce

text \<open>A block of an operating system heap goes back with the size it was taken with, a multiple of 256
  that covers the size asked for; the block is cleared, and written back, exactly as the heap's flags
  say, and only when there is one.\<close>

theorem mem_rtos_roundtrip:
  assumes h: "rtos_heap hid h s" and n: "n \<noteq> 0" "unat n \<le> 2 ^ 32 - 256"
    and al: "appMemAlloc e hid n align s = Some (p, s1)" "p \<noteq> 0"
  shows "let m = round256 n; prm = heap_prm (heap_at s (unat hid));
       share = (if flag_set prm APP_MEM_HEAP_FLAGS_IS_SHARED then [CacheP_wbInv p m] else [])
     in unat n \<le> unat m \<and> 256 dvd unat m \<and> heap_obj s1 = heap_obj s
      \<and> mem_calls s1 = mem_calls s @ [HeapP_alloc h m] @ (if flag_set prm APP_MEM_HEAP_FLAGS_DO_CLEAR_ON_ALLOC then [Memset0 p m] else []) @ share
      \<and> appMemFree hid p n s1 = (0, s1\<lparr>mem_calls := mem_calls s1 @ share @ [HeapP_free h p m]\<rparr>)"
proof -
  let ?ob = "heap_at s (unat hid)"
  have ob: "is_valid ?ob" "\<not> linear (heap_prm ?ob)" "rtos_heap_handle ?ob = Some h" "unat hid < APP_MEM_HEAP_MAX"
    using h by (auto simp: rtos_heap_def Let_def)
  have s1: "heap_obj s1 = heap_obj s" "mem_calls s1 = mem_calls s @ [HeapP_alloc h (round256 n)]
      @ (if flag_set (heap_prm ?ob) APP_MEM_HEAP_FLAGS_DO_CLEAR_ON_ALLOC then [Memset0 p (round256 n)] else [])
      @ (if flag_set (heap_prm ?ob) APP_MEM_HEAP_FLAGS_IS_SHARED then [CacheP_wbInv p (round256 n)] else [])"
    using al ob n by (auto simp: appMemAlloc_def alloc_rtos_def Let_def mcall_def split: if_splits)
  then have "heap_at s1 (unat hid) = ?ob" by (simp add: heap_at_def)
  then show ?thesis
    using s1 ob n al(2) round256_ge [of n] round256_mult [of n] by (simp add: appMemFree_def mcall_def Let_def)
qed

section \<open>Examples\<close>

text \<open>A linear heap of 4096 bytes in the first place, and a shared heap of 1000 bytes in the second.\<close>

definition mem_demo_env :: mem_env where
  "mem_demo_env = \<lparr>heap_made = \<lambda>_. True, heap_block = \<lambda>_. 0x9000, heap_free_size = \<lambda>_. 512\<rparr>"

definition mem_zero :: mem_st where
  "mem_zero = \<lparr>mem_calls = [], heap_obj = replicate 3 \<lparr>is_valid = False, rtos_heap_handle = None, alloc_offset = 0,
     heap_prm = \<lparr>hp_base = 0, hp_name = [], hp_size = 0, hp_flags = 0\<rparr>\<rparr>\<rparr>"

definition mem_demo :: mem_st where
  "mem_demo = snd (appMemInit mem_demo_env [\<lparr>hp_base = 0x1000, hp_name = ''L2'', hp_size = 0x1000, hp_flags = 1\<rparr>,
     \<lparr>hp_base = 0x8000, hp_name = ''DDR'', hp_size = 1000, hp_flags = 12\<rparr>, \<lparr>hp_base = 0, hp_name = [], hp_size = 0, hp_flags = 0\<rparr>] mem_zero)"

lemma mem_demo_eq: "mem_demo = \<lparr>mem_calls = [HeapP_create 0x8000 1024], heap_obj =
    [\<lparr>is_valid = True, rtos_heap_handle = None, alloc_offset = 0, heap_prm = \<lparr>hp_base = 0x1000, hp_name = ''L2'', hp_size = 0x1000, hp_flags = 1\<rparr>\<rparr>,
     \<lparr>is_valid = True, rtos_heap_handle = Some 0, alloc_offset = 0, heap_prm = \<lparr>hp_base = 0x8000, hp_name = ''DDR'', hp_size = 1024, hp_flags = 12\<rparr>\<rparr>,
     \<lparr>is_valid = False, rtos_heap_handle = None, alloc_offset = 0, heap_prm = \<lparr>hp_base = 0, hp_name = [], hp_size = 0, hp_flags = 0\<rparr>\<rparr>]\<rparr>"
  by (simp add: mem_demo_def appMemInit_def APP_MEM_HEAP_MAX_def upt_rec init_heap_def mem_zero_def numeral_3_eq_3 upd_heap_def mcall_def flag_set_def
      APP_MEM_HEAP_FLAGS_TYPE_LINEAR_ALLOCATE_def round256_def APP_MEM_ALIGN_MIN_BYTES_def mem_demo_env_def Let_def)

lemma mem_demo_linear: "linear_heap 0 0x1000 0x1000 mem_demo"
  by (simp add: linear_heap_def mem_demo_eq APP_MEM_HEAP_MAX_def heap_at_def flag_set_def APP_MEM_HEAP_FLAGS_TYPE_LINEAR_ALLOCATE_def)

theorem mem_linear_blocks_witness:
  "\<exists>ps s'. mem_allocs mem_demo_env 0 [(100, 64), (200, 128), (5000, 8)] mem_demo = Some (ps, s') \<and> length ps = 3
     \<and> (ps ! 0 \<noteq> 0 \<longrightarrow> ps ! 1 \<noteq> 0 \<longrightarrow> unat (ps ! 0) + 100 \<le> unat (ps ! 1))"
proof -
  have "list_all (small_request 0x1000) [(100, 64), (200, 128), (5000, 8)]" by (simp add: small_request_def)
  from mem_linear_blocks [OF mem_demo_linear _ _ this, of mem_demo_env] obtain ps s'
    where r: "mem_allocs mem_demo_env 0 [(100, 64), (200, 128), (5000, 8)] mem_demo = Some (ps, s')" "length ps = 3"
      and all: "\<forall>k<3. ps ! k \<noteq> 0 \<longrightarrow> (\<forall>j<k. ps ! j \<noteq> 0 \<longrightarrow>
        unat (ps ! j) + unat (fst ([(100 :: u32, 64 :: u32), (200, 128), (5000, 8)] ! j)) \<le> unat (ps ! k))"
    by auto
  from all [rule_format, of 1 0] r show ?thesis by auto
qed

text \<open>After 100 bytes, a request for almost 4 GB is granted and takes the allocator back to offset 50.\<close>

theorem mem_linear_wrap_witness:
  "\<exists>s1 s2. appMemAlloc mem_demo_env 0 100 1 mem_demo = Some (0x1000, s1)
     \<and> appMemAlloc mem_demo_env 0 0xFFFFFFCE 1 s1 = Some (0x1064, s2) \<and> offset_at 0 s2 = 50"
proof -
  obtain s1 where 1: "appMemAlloc mem_demo_env 0 100 1 mem_demo = Some (0x1000, s1)"
    and o: "linear_heap 0 0x1000 0x1000 s1" "alloc_offset (heap_at s1 0) = 100"
    by (simp add: appMemAlloc_def mem_demo_eq heap_at_def APP_MEM_HEAP_MAX_def flag_set_def APP_MEM_HEAP_FLAGS_TYPE_LINEAR_ALLOCATE_def
        alloc_linear_def APP_MEM_ALIGN32_def mcall_def upd_heap_def linear_heap_def)
  have "APP_MEM_ALIGN32 (alloc_offset (heap_at s1 (unat (0 :: u32)))) 1 = Some 100" by (simp add: APP_MEM_ALIGN32_def o(2))
  from mem_linear_wrap [OF o(1) this, where n = "0xFFFFFFCE" and e = mem_demo_env] 1 show ?thesis by auto
qed

theorem mem_rtos_roundtrip_witness:
  "\<exists>s1. appMemAlloc mem_demo_env 1 300 0 mem_demo = Some (0x9000, s1)
     \<and> mem_calls s1 = [HeapP_create 0x8000 1024, HeapP_alloc 0 512, Memset0 0x9000 512, CacheP_wbInv 0x9000 512]
     \<and> fst (appMemFree 1 0x9000 300 s1) = 0"
proof -
  have h: "rtos_heap 1 0 mem_demo"
    by (simp add: rtos_heap_def mem_demo_eq APP_MEM_HEAP_MAX_def heap_at_def flag_set_def APP_MEM_HEAP_FLAGS_TYPE_LINEAR_ALLOCATE_def)
  obtain s1 where a: "appMemAlloc mem_demo_env 1 300 0 mem_demo = Some (0x9000, s1)"
    by (simp add: appMemAlloc_def mem_demo_eq heap_at_def APP_MEM_HEAP_MAX_def flag_set_def APP_MEM_HEAP_FLAGS_TYPE_LINEAR_ALLOCATE_def
        alloc_rtos_def mem_demo_env_def mcall_def Let_def)
  from mem_rtos_roundtrip [OF h _ _ a] a show ?thesis
    by (simp add: Let_def mem_demo_eq heap_at_def flag_set_def APP_MEM_HEAP_FLAGS_IS_SHARED_def APP_MEM_HEAP_FLAGS_DO_CLEAR_ON_ALLOC_def
        round256_def APP_MEM_ALIGN_MIN_BYTES_def)
qed
end
