(* ===== verification/RemoteService.thy ===== *)
theory RemoteService
  imports Slots "HOL-Library.Monad_Syntax"
begin

text \<open>
  Services one core offers to the others (\<^verbatim>\<open>utils/remote_service/src/app_remote_service.c\<close>): a table of
  eight named handlers on every core, a task that runs the handler a message asks for and sends the message back as the
  acknowledgement, and the call of a service on this core or another one.

  The cores share a world: their objects, the queues of the IPC driver's endpoints, and what the handlers work
  on.  A handler is application code: a number, run by the environment on the bytes its parameter points to
  (\<open>None\<close> for NULL).  The driver's calls are recorded and answered by the environment; what the other cores do
  while a core waits for a message is an argument (\<open>during\<close>), and a wait that no message ends has no result.
  The two locks only keep the tasks of a core apart: a call is one step here.
\<close>

section \<open>Data\<close>

definition APP_IPC_REMOTE_SERVICE_RPMSG_PORT_ID :: u32 where "APP_IPC_REMOTE_SERVICE_RPMSG_PORT_ID = 21"
definition APP_REMOTE_SERVICE_HANDLERS_MAX :: nat where "APP_REMOTE_SERVICE_HANDLERS_MAX = 8"
definition APP_REMOTE_SERVICE_NAME_MAX :: nat where "APP_REMOTE_SERVICE_NAME_MAX = 64"
definition APP_REMOTE_SERVICE_FLAG_NO_WAIT_ACK :: u32 where "APP_REMOTE_SERVICE_FLAG_NO_WAIT_ACK = 1"
definition IPC_RPMESSAGE_MSG_SIZE :: nat where "IPC_RPMESSAGE_MSG_SIZE = 496 + 32"

text \<open>The header of a message: the name and four words.\<close>

definition sizeof_msg_header :: nat where "sizeof_msg_header = APP_REMOTE_SERVICE_NAME_MAX + 4 * 4"
definition APP_REMOTE_SERVICE_PRM_SIZE_MAX :: nat where
  "APP_REMOTE_SERVICE_PRM_SIZE_MAX = IPC_RPMESSAGE_MSG_SIZE - sizeof_msg_header"

text \<open>A message buffer: the header, and the bytes after it.\<close>

record app_service_msg =
  hdName :: string
  hdCmd :: u32
  hdFlags :: u32
  hdPrmSize :: u32
  hdStatus :: int
  hdPrm :: "u8 list"

text \<open>A message under way: what the sender's buffer holds, of which \<open>pkLen\<close> bytes travel.\<close>

record rs_packet =
  pkMsg :: app_service_msg
  pkLen :: nat
  pkCpu :: u32
  pkEndpt :: u32

datatype rs_call =
    SemaphoreP_create | SemaphoreP_delete "nat option"
  | RPMessage_create "u32 option" | RPMessage_announce u32 string | RPMessage_unblock "nat option" | RPMessage_delete nat
  | RPMessage_send u32 u32 u32 nat | RPMessage_recv u32
  | TaskP_create | TaskP_isTerminated "nat option" | TaskP_sleepInMsecs u32 | TaskP_delete "nat option"

record app_remote_service_obj_t =
  rsRxEndpt :: u32                       \<comment> \<open>\<^verbatim>\<open>prm.rpmsg_rx_endpt\<close>\<close>
  rpmsg_tx_handle :: "nat option"
  rpmsg_tx_endpt :: u32
  rpmsg_rx_handle :: "nat option"
  task_handle :: "nat option"
  rpmsg_rx_msg_buf :: app_service_msg
  rpmsg_tx_msg_buf :: app_service_msg
  tx_lock :: "nat option"
  rx_lock :: "nat option"
  handlers :: "nat option list"
  service_name :: "string list"

record 's rs_world =
  rsObj :: "u32 \<Rightarrow> app_remote_service_obj_t"
  rsBox :: "u32 \<times> u32 \<Rightarrow> rs_packet list"   \<comment> \<open>the messages at an endpoint of a core\<close>
  rsApp :: "u32 \<Rightarrow> 's"
  rsCalls :: "(u32 \<times> rs_call) list"

text \<open>The handlers, the driver's numbers for the other cores, and its answers: to opening, by status, and the
  endpoint it chooses.\<close>

record 's rs_env =
  rsHandler :: "nat \<Rightarrow> string \<Rightarrow> u32 \<Rightarrow> u8 list option \<Rightarrow> u32 \<Rightarrow> u32 \<Rightarrow> 's \<Rightarrow> int \<times> u8 list option \<times> 's"
  Ipc_mpGetRemoteProcId :: "u32 \<Rightarrow> u32 \<Rightarrow> u32"
  rsOpens :: "(u32 \<times> rs_call) list \<Rightarrow> bool"
  rsStatus :: "(u32 \<times> rs_call) list \<Rightarrow> int"
  rsAnyEndpt :: "(u32 \<times> rs_call) list \<Rightarrow> u32"
  rsTerminated :: "(u32 \<times> rs_call) list \<Rightarrow> bool"
  IPC_E_UNBLOCKED :: int

definition upd_rs :: "u32 \<Rightarrow> (app_remote_service_obj_t \<Rightarrow> app_remote_service_obj_t) \<Rightarrow> 's rs_world \<Rightarrow> 's rs_world" where
  "upd_rs c f w = w\<lparr>rsObj := (rsObj w)(c := f (rsObj w c))\<rparr>"

definition rs_issue :: "u32 \<Rightarrow> rs_call \<Rightarrow> 's rs_world \<Rightarrow> 's rs_world" where
  "rs_issue c x w = w\<lparr>rsCalls := rsCalls w @ [(c, x)]\<rparr>"

definition rs_status :: "'s rs_env \<Rightarrow> u32 \<Rightarrow> rs_call \<Rightarrow> 's rs_world \<Rightarrow> int \<times> 's rs_world" where
  "rs_status e c x w = (let w = rs_issue c x w in (rsStatus e (rsCalls w), w))"

text \<open>Opening something: the number of the call, or NULL.\<close>

definition rs_open :: "'s rs_env \<Rightarrow> u32 \<Rightarrow> rs_call \<Rightarrow> 's rs_world \<Rightarrow> nat option \<times> 's rs_world" where
  "rs_open e c x w = (let w = rs_issue c x w in (if rsOpens e (rsCalls w) then Some (length (rsCalls w)) else None, w))"

section \<open>The driver's messages\<close>

definition rs_send :: "'s rs_env \<Rightarrow> u32 \<Rightarrow> u32 \<Rightarrow> u32 \<Rightarrow> u32 \<Rightarrow> app_service_msg \<Rightarrow> nat \<Rightarrow> 's rs_world \<Rightarrow> int \<times> 's rs_world" where
  "rs_send e c dst dstEndpt srcEndpt m len w =
     (let (status, w) = rs_status e c (RPMessage_send dst dstEndpt srcEndpt len) w in
      (status, if status = 0
               then w\<lparr>rsBox := (rsBox w)((dst, dstEndpt) := rsBox w (dst, dstEndpt) @ [\<lparr>pkMsg = m, pkLen = len, pkCpu = c, pkEndpt = srcEndpt\<rparr>])\<rparr>
               else w))"

definition rs_recv :: "'s rs_env \<Rightarrow> ('s rs_world \<Rightarrow> 's rs_world) \<Rightarrow> u32 \<Rightarrow> u32 \<Rightarrow> 's rs_world \<Rightarrow> (int \<times> rs_packet option \<times> 's rs_world) option" where
  "rs_recv e during c ep w =
     (let (status, w) = rs_status e c (RPMessage_recv ep) w in
      if status \<noteq> 0 then Some (status, None, w)
      else (let w = during w in
            case rsBox w (c, ep) of
              [] \<Rightarrow> None
            | p # ps \<Rightarrow> Some (status, Some p, w\<lparr>rsBox := (rsBox w)((c, ep) := ps)\<rparr>)))"

text \<open>What a message leaves in the buffer it is received into.\<close>

definition into_buf :: "rs_packet \<Rightarrow> app_service_msg \<Rightarrow> app_service_msg" where
  "into_buf p buf = (let n = pkLen p - sizeof_msg_header in
     (pkMsg p)\<lparr>hdPrm := take n (hdPrm (pkMsg p)) @ drop n (hdPrm buf)\<rparr>)"

section \<open>Running a handler\<close>

definition slots_of :: "app_remote_service_obj_t \<Rightarrow> (nat option \<times> string) list" where
  "slots_of ob = zip (handlers ob) (service_name ob)"

definition find_handler :: "string \<Rightarrow> app_remote_service_obj_t \<Rightarrow> nat option" where
  "find_handler name ob = first_idx (\<lambda>(h, n). h \<noteq> None \<and> n = name) (slots_of ob)"

definition appRemoteServiceRunHandler ::
    "'s rs_env \<Rightarrow> u32 \<Rightarrow> string \<Rightarrow> u32 \<Rightarrow> u8 list option \<Rightarrow> u32 \<Rightarrow> u32 \<Rightarrow> 's rs_world \<Rightarrow> int \<times> u8 list option \<times> 's rs_world" where
  "appRemoteServiceRunHandler e c name cmd prm sz flags w =
     (case find_handler name (rsObj w c) of
        None \<Rightarrow> (-1, prm, w)
      | Some i \<Rightarrow>
          (let (status, prm, a) = rsHandler e (the (handlers (rsObj w c) ! i)) name cmd prm sz flags (rsApp w c)
           in (status, prm, w\<lparr>rsApp := (rsApp w)(c := a)\<rparr>)))"

definition no_ack :: "u32 \<Rightarrow> bool" where
  "no_ack flags \<longleftrightarrow> flags AND APP_REMOTE_SERVICE_FLAG_NO_WAIT_ACK \<noteq> 0"

text \<open>The message is run in the receive buffer, and goes back from there.\<close>

definition serve_packet :: "'s rs_env \<Rightarrow> u32 \<Rightarrow> rs_packet \<Rightarrow> 's rs_world \<Rightarrow> 's rs_world" where
  "serve_packet e c p w =
     (let m = into_buf p (rpmsg_rx_msg_buf (rsObj w c));
          (status, prm, w) = appRemoteServiceRunHandler e c (hdName m) (hdCmd m) (Some (hdPrm m)) (hdPrmSize m) (hdFlags m) w;
          m = m\<lparr>hdPrm := (case prm of Some bs \<Rightarrow> bs | None \<Rightarrow> hdPrm m), hdStatus := status\<rparr>;
          w = upd_rs c (\<lambda>ob. ob\<lparr>rpmsg_rx_msg_buf := m\<rparr>) w
      in if no_ack (hdFlags m) then w
         else snd (rs_send e c (pkCpu p) (pkEndpt p) (rsRxEndpt (rsObj w c)) m (pkLen p) w))"

text \<open>A round of the task, and whether it is the last.\<close>

definition rx_round :: "'s rs_env \<Rightarrow> ('s rs_world \<Rightarrow> 's rs_world) \<Rightarrow> u32 \<Rightarrow> 's rs_world \<Rightarrow> (bool \<times> 's rs_world) option" where
  "rx_round e during c w = do {
     (status, p, w) \<leftarrow> rs_recv e during c (rsRxEndpt (rsObj w c)) w;
     Some (status = IPC_E_UNBLOCKED e, case p of Some p \<Rightarrow> serve_packet e c p w | None \<Rightarrow> w) }"

partial_function (option) appRemoteServiceRxTaskMain :: "'s rs_env \<Rightarrow> ('s rs_world \<Rightarrow> 's rs_world) \<Rightarrow> u32 \<Rightarrow> 's rs_world \<Rightarrow> 's rs_world option" where
  "appRemoteServiceRxTaskMain e during c w =
     Option.bind (rx_round e during c w) (\<lambda>(last, w). if last then Some w else appRemoteServiceRxTaskMain e during c w)"

section \<open>Calling a service\<close>

definition fill_tx :: "string \<Rightarrow> u32 \<Rightarrow> u8 list option \<Rightarrow> u32 \<Rightarrow> u32 \<Rightarrow> app_service_msg \<Rightarrow> app_service_msg" where
  "fill_tx name cmd prm sz flags buf =
     \<lparr>hdName = take (APP_REMOTE_SERVICE_NAME_MAX - 1) name, hdCmd = cmd, hdFlags = flags, hdPrmSize = sz, hdStatus = 0,
      hdPrm = (case prm of Some bs \<Rightarrow> take (unat sz) bs @ drop (unat sz) (hdPrm buf) | None \<Rightarrow> hdPrm buf)\<rparr>"

text \<open>Waiting for the acknowledgement of \<open>len\<close> bytes that core \<open>d\<close> owes.\<close>

definition take_ack :: "'s rs_env \<Rightarrow> ('s rs_world \<Rightarrow> 's rs_world) \<Rightarrow> u32 \<Rightarrow> u32 \<Rightarrow> u8 list option \<Rightarrow> u32 \<Rightarrow> nat \<Rightarrow> 's rs_world \<Rightarrow>
    (int \<times> u8 list option \<times> 's rs_world) option" where
  "take_ack e during c d prm sz len w = do {
     (status, p, w) \<leftarrow> rs_recv e during c (rpmsg_tx_endpt (rsObj w c)) w;
     case p of
       None \<Rightarrow> Some (status, prm, w)
     | Some p \<Rightarrow>
         (let m = into_buf p (rpmsg_tx_msg_buf (rsObj w c));
              w = upd_rs c (\<lambda>ob. ob\<lparr>rpmsg_tx_msg_buf := m\<rparr>) w
          in if pkLen p = len \<and> pkEndpt p = rsRxEndpt (rsObj w c) \<and> pkCpu p = d
             then Some (hdStatus m, map_option (\<lambda>bs. take (unat sz) (hdPrm m) @ drop (unat sz) bs) prm, w)
             else Some (status, prm, w)) }"

definition appRemoteServiceRun ::
    "'s rs_env \<Rightarrow> ('s rs_world \<Rightarrow> 's rs_world) \<Rightarrow> u32 \<Rightarrow> u32 \<Rightarrow> string \<Rightarrow> u32 \<Rightarrow> u8 list option \<Rightarrow> u32 \<Rightarrow> u32 \<Rightarrow> 's rs_world \<Rightarrow>
     (int \<times> u8 list option \<times> 's rs_world) option" where
  "appRemoteServiceRun e during c dst name cmd prm sz flags w =
     (if unat sz > APP_REMOTE_SERVICE_PRM_SIZE_MAX then Some (-1, prm, w)
      else if dst = c then Some (appRemoteServiceRunHandler e c name cmd prm sz flags w)
      else
        (let sz = (if prm = None then 0 else sz);
             d = Ipc_mpGetRemoteProcId e c dst;
             m = fill_tx name cmd prm sz flags (rpmsg_tx_msg_buf (rsObj w c));
             w = upd_rs c (\<lambda>ob. ob\<lparr>rpmsg_tx_msg_buf := m\<rparr>) w;
             len = unat sz + sizeof_msg_header;
             (status, w) = rs_send e c d (rsRxEndpt (rsObj w c)) (rpmsg_tx_endpt (rsObj w c)) m len w
         in if status = 0 \<and> \<not> no_ack flags then take_ack e during c d prm sz len w else Some (status, prm, w)))"

section \<open>Start and stop\<close>

definition appRemoteServiceInitSetDefault :: u32 where
  "appRemoteServiceInitSetDefault = APP_IPC_REMOTE_SERVICE_RPMSG_PORT_ID"

definition appRemoteServiceCreateRpmsgRxTask :: "'s rs_env \<Rightarrow> u32 \<Rightarrow> 's rs_world \<Rightarrow> int \<times> 's rs_world" where
  "appRemoteServiceCreateRpmsgRxTask e c w =
     (let (h, w) = rs_open e c TaskP_create w in
      (if h = None then -1 else 0, upd_rs c (\<lambda>ob. ob\<lparr>task_handle := h\<rparr>) w))"

text \<open>A failure to create the receiving endpoint is overwritten by the status of the announcement.\<close>

definition init_endpoints :: "'s rs_env \<Rightarrow> u32 \<Rightarrow> u32 \<Rightarrow> 's rs_world \<Rightarrow> int \<times> 's rs_world" where
  "init_endpoints e rx c w =
     (let (h, w) = rs_open e c (RPMessage_create None) w;
          w = upd_rs c (\<lambda>ob. ob\<lparr>rpmsg_tx_handle := h, rpmsg_tx_endpt := (if h = None then rpmsg_tx_endpt ob else rsAnyEndpt e (rsCalls w))\<rparr>) w
      in thenOK (if h = None then -1 else 0, w) (\<lambda>w.
           (let (h, w) = rs_open e c (RPMessage_create (Some rx)) w;
                w = upd_rs c (\<lambda>ob. ob\<lparr>rpmsg_rx_handle := h\<rparr>) w;
                (status, w) = rs_status e c (RPMessage_announce rx ''rpmsg_chrdev'') w
            in (if status \<noteq> 0 then -1 else 0, w))))"

definition appRemoteServiceInit :: "'s rs_env \<Rightarrow> u32 \<Rightarrow> u32 \<Rightarrow> 's rs_world \<Rightarrow> int \<times> 's rs_world" where
  "appRemoteServiceInit e rx c w =
     (let w = upd_rs c (\<lambda>ob. ob\<lparr>rsRxEndpt := rx, rpmsg_tx_handle := None, rpmsg_rx_handle := None, tx_lock := None, rx_lock := None,
                task_handle := None, handlers := replicate APP_REMOTE_SERVICE_HANDLERS_MAX None,
                service_name := replicate APP_REMOTE_SERVICE_HANDLERS_MAX ''''\<rparr>) w;
          (h, w) = rs_open e c SemaphoreP_create w;
          r = (if h = None then -1 else 0, upd_rs c (\<lambda>ob. ob\<lparr>tx_lock := h\<rparr>) w);
          r = thenOK r (\<lambda>w. (let (h, w) = rs_open e c SemaphoreP_create w
                             in (if h = None then -1 else 0, upd_rs c (\<lambda>ob. ob\<lparr>rx_lock := h\<rparr>) w)));
          r = thenOK r (init_endpoints e rx c)
      in thenOK r (appRemoteServiceCreateRpmsgRxTask e c))"

definition appRemoteServiceRegister :: "string \<Rightarrow> nat \<Rightarrow> app_remote_service_obj_t \<Rightarrow> int \<times> app_remote_service_obj_t" where
  "appRemoteServiceRegister name h ob =
     (case first_idx (\<lambda>x. x = None) (handlers ob) of
        None \<Rightarrow> (-1, ob)
      | Some i \<Rightarrow> (0, ob\<lparr>service_name := (service_name ob)[i := take (APP_REMOTE_SERVICE_NAME_MAX - 1) name],
                          handlers := (handlers ob)[i := Some h]\<rparr>))"

definition appRemoteServiceUnRegister :: "string \<Rightarrow> app_remote_service_obj_t \<Rightarrow> int \<times> app_remote_service_obj_t" where
  "appRemoteServiceUnRegister name ob =
     (case first_idx (\<lambda>n. n = name) (service_name ob) of
        None \<Rightarrow> (-1, ob)
      | Some i \<Rightarrow> (0, ob\<lparr>service_name := (service_name ob)[i := ''''], handlers := (handlers ob)[i := None]\<rparr>))"

lemma halved_less:
  assumes "drop_bit 1 (x :: u32) \<noteq> 0"
  shows "unat (drop_bit 1 x) < unat x"
proof -
  have "unat (drop_bit 1 x) = unat x div 2"
    unfolding unat_drop_bit_eq by (simp only: drop_bit_eq_div power_one_right)
  moreover have "unat (drop_bit 1 x) \<noteq> 0"
    using assms by (simp only: unsigned_eq_0_iff not_False_eq_True)
  ultimately show ?thesis by simp
qed

text \<open>The task is given 16, 8, 4, 2 and 1 ms to end.\<close>

function await_end :: "'s rs_env \<Rightarrow> u32 \<Rightarrow> nat option \<Rightarrow> u32 \<Rightarrow> 's rs_world \<Rightarrow> 's rs_world" where
  "await_end e c h sleep w =
     (let w = rs_issue c (TaskP_isTerminated h) w in
      if rsTerminated e (rsCalls w) then w
      else (let w = rs_issue c (TaskP_sleepInMsecs sleep) w; sleep' = drop_bit 1 sleep
            in if sleep' = 0 then w else await_end e c h sleep' w))"
  by auto

termination await_end
  by (relation "measure (\<lambda>(e, c, h, sleep, w). unat sleep)") (auto simp: halved_less [unfolded One_nat_def])

definition appRemoteServiceDeleteRpmsgRxTask :: "'s rs_env \<Rightarrow> u32 \<Rightarrow> 's rs_world \<Rightarrow> 's rs_world" where
  "appRemoteServiceDeleteRpmsgRxTask e c w =
     (let ob = rsObj w c; w = rs_issue c (RPMessage_unblock (rpmsg_rx_handle ob)) w
      in rs_issue c (TaskP_delete (task_handle ob)) (await_end e c (task_handle ob) 16 w))"

definition appRemoteServiceDeInit :: "'s rs_env \<Rightarrow> u32 \<Rightarrow> 's rs_world \<Rightarrow> int \<times> 's rs_world" where
  "appRemoteServiceDeInit e c w =
     (let w = appRemoteServiceDeleteRpmsgRxTask e c w; ob = rsObj w c;
          w = (case rpmsg_tx_handle ob of Some h \<Rightarrow> upd_rs c (\<lambda>ob. ob\<lparr>rpmsg_tx_handle := None\<rparr>) (rs_issue c (RPMessage_delete h) w) | None \<Rightarrow> w);
          w = (case rpmsg_rx_handle ob of Some h \<Rightarrow> upd_rs c (\<lambda>ob. ob\<lparr>rpmsg_rx_handle := None\<rparr>) (rs_issue c (RPMessage_delete h) w) | None \<Rightarrow> w)
      in (0, rs_issue c (SemaphoreP_delete (rx_lock ob)) (rs_issue c (SemaphoreP_delete (tx_lock ob)) w)))"

section \<open>The table of services\<close>

abbreviation slot_taken :: "nat option \<times> string \<Rightarrow> bool" where "slot_taken x \<equiv> fst x \<noteq> None"

text \<open>The eight places; no name twice, and no name on a free place.\<close>

definition rs_inv :: "app_remote_service_obj_t \<Rightarrow> bool" where
  "rs_inv ob \<longleftrightarrow> length (handlers ob) = APP_REMOTE_SERVICE_HANDLERS_MAX \<and> length (service_name ob) = APP_REMOTE_SERVICE_HANDLERS_MAX
     \<and> slot_inv slot_taken snd (slots_of ob) \<and> (\<forall>x\<in>set (slots_of ob). \<not> slot_taken x \<longrightarrow> snd x = '''')"

definition registry :: "app_remote_service_obj_t \<Rightarrow> string \<rightharpoonup> nat" where
  "registry ob = slot_map slot_taken snd (\<lambda>x. the (fst x)) (slots_of ob)"

lemma slots_parts:
  assumes "rs_inv ob"
  shows "handlers ob = map fst (slots_of ob)" "service_name ob = map snd (slots_of ob)" "length (slots_of ob) = APP_REMOTE_SERVICE_HANDLERS_MAX"
  using assms by (simp_all add: rs_inv_def slots_of_def)

lemma slots_update:
  assumes "rs_inv ob"
  shows "slots_of (ob\<lparr>service_name := (service_name ob)[i := n], handlers := (handlers ob)[i := h]\<rparr>) = (slots_of ob)[i := (h, n)]"
  using assms by (simp add: slots_of_def update_zip)

lemma find_registry:
  assumes "rs_inv ob"
  shows "find_handler name ob = slot_find slot_taken snd name (slots_of ob)"
    "map_option (\<lambda>i. the (handlers ob ! i)) (find_handler name ob) = registry ob name"
proof -
  show f: "find_handler name ob = slot_find slot_taken snd name (slots_of ob)"
    by (auto simp: find_handler_def slot_find_def intro!: first_idx_cong)
  show "map_option (\<lambda>i. the (handlers ob ! i)) (find_handler name ob) = registry ob name"
    by (cases "slot_find slot_taken snd name (slots_of ob)")
      (simp_all add: f registry_def slot_map_def slots_parts(1) [OF assms] slot_findD)
qed

lemma rs_inv_put:
  assumes "rs_inv ob" "slot_inv slot_taken snd ((slots_of ob)[i := (h, n)])" "h = None \<Longrightarrow> n = ''''"
  shows "rs_inv (ob\<lparr>service_name := (service_name ob)[i := n], handlers := (handlers ob)[i := h]\<rparr>)"
  using assms set_update_subset_insert [of "slots_of ob" i "(h, n)"] by (fastforce simp: rs_inv_def slots_update)

lemma register_registry:
  assumes inv: "rs_inv ob" and n: "length name < APP_REMOTE_SERVICE_NAME_MAX" "registry ob name = None"
    and run: "appRemoteServiceRegister name h ob = (st, ob')"
  shows "rs_inv ob' \<and> (if card (dom (registry ob)) < APP_REMOTE_SERVICE_HANDLERS_MAX
           then st = 0 \<and> registry ob' = (registry ob)(name \<mapsto> h) else st = -1 \<and> ob' = ob)"
proof -
  have sl: "slot_inv slot_taken snd (slots_of ob)" using inv by (simp add: rs_inv_def)
  have card: "card (dom (registry ob)) = slot_cnt slot_taken (slots_of ob)"
    unfolding registry_def by (rule slot_card_dom [OF sl])
  have free: "first_idx (\<lambda>x. x = None) (handlers ob) = first_idx (\<lambda>x. \<not> slot_taken x) (slots_of ob)"
    by (simp add: slots_parts(1) [OF inv] first_idx_map)
  show ?thesis
  proof (cases "first_idx (\<lambda>x. \<not> slot_taken x) (slots_of ob)")
    case None
    then have full: "card (dom (registry ob)) = APP_REMOTE_SERVICE_HANDLERS_MAX"
      by (simp only: card slot_no_free slots_parts(3) [OF inv])
    have "st = -1" "ob' = ob" using run unfolding appRemoteServiceRegister_def free None by simp_all
    with full inv show ?thesis by simp
  next
    case (Some i)
    have i: "i < length (slots_of ob)" "\<not> slot_taken (slots_of ob ! i)" using first_idx_SomeD [OF Some] by simp_all
    have room: "card (dom (registry ob)) < APP_REMOTE_SERVICE_HANDLERS_MAX"
      unfolding card using Some slot_no_free [of slot_taken "slots_of ob"] slot_cnt_le [of slot_taken "slots_of ob"]
      by (metis le_neq_implies_less option.distinct(1) slots_parts(3) [OF inv])
    have ob': "st = 0" "ob' = ob\<lparr>service_name := (service_name ob)[i := name], handlers := (handlers ob)[i := Some h]\<rparr>"
      using run Some n(1) by (simp_all add: appRemoteServiceRegister_def free APP_REMOTE_SERVICE_NAME_MAX_def)
    have none: "slot_map slot_taken snd (\<lambda>x. the (fst x)) (slots_of ob) (snd (Some h, name)) = None"
      using n(2) by (simp add: registry_def)
    have "slot_inv slot_taken snd ((slots_of ob)[i := (Some h, name)])"
      using slot_inv_fill [OF sl i _ none] by simp
    moreover have "registry ob' = (registry ob)(name \<mapsto> h)"
      using slot_map_fill [OF sl i _ none] by (simp add: registry_def ob'(2) slots_update [OF inv])
    moreover have "rs_inv ob'"
      unfolding ob'(2) by (rule rs_inv_put [OF inv]) (use calculation in simp_all)
    ultimately show ?thesis using room ob'(1) by simp
  qed
qed

lemma unregister_registry:
  assumes inv: "rs_inv ob" and n: "name \<noteq> ''''" and run: "appRemoteServiceUnRegister name ob = (st, ob')"
  shows "rs_inv ob' \<and> registry ob' = (registry ob)(name := None) \<and> st = (if registry ob name = None then -1 else 0)"
proof -
  have sl: "slot_inv slot_taken snd (slots_of ob)" and fr: "\<And>x. x \<in> set (slots_of ob) \<Longrightarrow> \<not> slot_taken x \<Longrightarrow> snd x = ''''"
    using inv by (auto simp: rs_inv_def)
  have find: "first_idx (\<lambda>m. m = name) (service_name ob) = slot_find slot_taken snd name (slots_of ob)"
    unfolding slots_parts(2) [OF inv] first_idx_map slot_find_def
    by (rule first_idx_cong) (use fr n in blast)
  show ?thesis
  proof (cases "slot_find slot_taken snd name (slots_of ob)")
    case None
    then show ?thesis
      using run inv slot_find_map(2) [of slot_taken snd name "slots_of ob" "\<lambda>x. the (fst x)"]
      by (simp add: appRemoteServiceUnRegister_def find registry_def fun_upd_idem)
  next
    case (Some i)
    note i = slot_findD [OF Some]
    have ob': "st = 0" "ob' = ob\<lparr>service_name := (service_name ob)[i := ''''], handlers := (handlers ob)[i := None]\<rparr>"
      using run Some by (simp_all add: appRemoteServiceUnRegister_def find)
    have "registry ob' = (registry ob)(name := None)"
      using slot_map_free [OF sl i(1,2), of "(None, '''')" "\<lambda>x. the (fst x)"] i(3)
      by (simp add: registry_def ob'(2) slots_update [OF inv])
    moreover have "rs_inv ob'"
      unfolding ob'(2) by (rule rs_inv_put [OF inv slot_inv_free [OF sl]]) simp_all
    moreover have "registry ob name \<noteq> None"
      using slot_find_map(1) [OF Some, of "\<lambda>x. the (fst x)"] by (simp add: registry_def)
    ultimately show ?thesis using ob'(1) by simp
  qed
qed

text \<open>A run of registrations on the table, and on a map of at most eight services.\<close>

datatype reg_op = Reg string nat | Unreg string

fun reg_step :: "reg_op \<Rightarrow> app_remote_service_obj_t \<Rightarrow> int \<times> app_remote_service_obj_t" where
  "reg_step (Reg name h) ob = appRemoteServiceRegister name h ob"
| "reg_step (Unreg name) ob = appRemoteServiceUnRegister name ob"

fun reg_abs :: "reg_op \<Rightarrow> (string \<rightharpoonup> nat) \<Rightarrow> int \<times> (string \<rightharpoonup> nat)" where
  "reg_abs (Reg name h) m = (if card (dom m) < APP_REMOTE_SERVICE_HANDLERS_MAX then (0, m(name \<mapsto> h)) else (-1, m))"
| "reg_abs (Unreg name) m = (if m name = None then -1 else 0, m(name := None))"

primrec run_ops :: "('a \<Rightarrow> 's \<Rightarrow> int \<times> 's) \<Rightarrow> 'a list \<Rightarrow> 's \<Rightarrow> int list \<times> 's" where
  "run_ops f [] s = ([], s)"
| "run_ops f (x # xs) s = (let (st, s) = f x s; (sts, s) = run_ops f xs s in (st # sts, s))"

text \<open>Names are not empty and fit, and none is registered twice at a time.\<close>

fun reg_ok :: "reg_op \<Rightarrow> (string \<rightharpoonup> nat) \<Rightarrow> bool" where
  "reg_ok (Reg name h) m \<longleftrightarrow> name \<noteq> '''' \<and> length name < APP_REMOTE_SERVICE_NAME_MAX \<and> m name = None"
| "reg_ok (Unreg name) m \<longleftrightarrow> name \<noteq> ''''"

primrec regs_ok :: "reg_op list \<Rightarrow> (string \<rightharpoonup> nat) \<Rightarrow> bool" where
  "regs_ok [] m = True"
| "regs_ok (x # xs) m \<longleftrightarrow> reg_ok x m \<and> regs_ok xs (snd (reg_abs x m))"

lemma reg_step_abs:
  assumes "rs_inv ob" "reg_ok x (registry ob)" "reg_step x ob = (st, ob')"
  shows "rs_inv ob' \<and> reg_abs x (registry ob) = (st, registry ob')"
proof (cases x)
  case (Reg name h)
  with assms register_registry [OF assms(1), of name h st ob'] show ?thesis by (auto split: if_splits)
next
  case (Unreg name)
  with assms unregister_registry [OF assms(1), of name st ob'] show ?thesis by auto
qed

text \<open>Property C34 (refinement).  The table of services is a map of at most eight names: however services are registered and
  unregistered, by names of 1 to 63 characters of which none is registered again while it is (\<open>regs_ok\<close>), the statuses
  are those of the map, and the handler found for a name is the map's.\<close>

theorem remote_registry:
  assumes "rs_inv ob" "regs_ok ops (registry ob)"
  shows "\<exists>sts ob'. run_ops reg_step ops ob = (sts, ob') \<and> rs_inv ob' \<and> run_ops reg_abs ops (registry ob) = (sts, registry ob')
     \<and> (\<forall>name. map_option (\<lambda>i. the (handlers ob' ! i)) (find_handler name ob') = registry ob' name)"
  using assms
proof (induction ops arbitrary: ob)
  case Nil
  then show ?case by (simp add: find_registry(2))
next
  case (Cons x ops)
  obtain st ob1 where x: "reg_step x ob = (st, ob1)" by (meson surj_pair)
  from reg_step_abs [OF Cons.prems(1) _ x] Cons.prems(2)
  have "rs_inv ob1" "reg_abs x (registry ob) = (st, registry ob1)" by simp_all
  with Cons.IH [of ob1] Cons.prems(2) x show ?case by (auto simp: case_prod_beta)
qed

section \<open>A call of another core\<close>

text \<open>What the calls rely on: a handler looks at and writes no more than the \<open>sz\<close> bytes it is told about.\<close>

locale service_handler =
  fixes serve :: "string \<Rightarrow> u32 \<Rightarrow> u8 list option \<Rightarrow> u32 \<Rightarrow> u32 \<Rightarrow> 's \<Rightarrow> int \<times> u8 list option \<times> 's"
  assumes within: "unat sz \<le> length bs \<Longrightarrow>
     (case serve name cmd (Some (take (unat sz) bs)) sz flags a of (st, prm, a') \<Rightarrow>
        \<exists>xs. prm = Some xs \<and> length xs = unat sz \<and> serve name cmd (Some bs) sz flags a = (st, Some (xs @ drop (unat sz) bs), a'))"
begin

lemma on_bytes:
  assumes "unat sz \<le> length bs"
  obtains st xs a' where "serve name cmd (Some (take (unat sz) bs)) sz flags a = (st, Some xs, a')" "length xs = unat sz"
    "serve name cmd (Some bs) sz flags a = (st, Some (xs @ drop (unat sz) bs), a')"
  using within [OF assms] by (cases "serve name cmd (Some (take (unat sz) bs)) sz flags a") fastforce

text \<open>The bytes behind the parameter do not matter, and keep their values.\<close>

lemma other_bytes:
  assumes "unat sz \<le> length bs" "unat sz \<le> length cs" "take (unat sz) bs = take (unat sz) cs"
  obtains st xs a' where "length xs = unat sz" "serve name cmd (Some bs) sz flags a = (st, Some (xs @ drop (unat sz) bs), a')"
    "serve name cmd (Some cs) sz flags a = (st, Some (xs @ drop (unat sz) cs), a')"
  by (rule on_bytes [OF assms(1), of name cmd flags a]; rule on_bytes [OF assms(2), of name cmd flags a]) (use assms(3) that in auto)

end

abbreviation within_prm :: "'s rs_env \<Rightarrow> nat \<Rightarrow> bool" where
  "within_prm e h \<equiv> service_handler (rsHandler e h)"

text \<open>What a handler does depends on the table, its core's data and the bytes of the parameter.\<close>

lemma run_handler_bufs:
  assumes wp: "\<forall>h. Some h \<in> set (handlers (rsObj w d)) \<longrightarrow> within_prm e h"
    and n: "unat sz \<le> length bs" "unat sz \<le> length cs" "take (unat sz) bs = take (unat sz) cs"
    and same: "handlers (rsObj w2 d) = handlers (rsObj w d)" "service_name (rsObj w2 d) = service_name (rsObj w d)" "rsApp w2 = rsApp w"
    and run: "appRemoteServiceRunHandler e d name cmd (Some bs) sz flags w = (st, prm, v)"
  shows "\<exists>xs. length xs = unat sz \<and> prm = Some (xs @ drop (unat sz) bs)
     \<and> appRemoteServiceRunHandler e d name cmd (Some cs) sz flags w2 = (st, Some (xs @ drop (unat sz) cs), w2\<lparr>rsApp := rsApp v\<rparr>)"
proof -
  have f2: "find_handler name (rsObj w2 d) = find_handler name (rsObj w d)"
    using same by (simp add: find_handler_def slots_of_def)
  show ?thesis
  proof (cases "find_handler name (rsObj w d)")
    case None
    have "st = -1" "prm = Some bs" "v = w" using run None by (simp_all add: appRemoteServiceRunHandler_def)
    moreover have "appRemoteServiceRunHandler e d name cmd (Some cs) sz flags w2 = (-1, Some cs, w2)"
      using None f2 by (simp add: appRemoteServiceRunHandler_def)
    moreover have "take (unat sz) cs @ drop (unat sz) bs = bs" "take (unat sz) bs @ drop (unat sz) cs = cs"
      using append_take_drop_id [of "unat sz" bs] append_take_drop_id [of "unat sz" cs] by (simp_all only: n(3))
    ultimately show ?thesis
      using n same(3) by (intro exI [of _ "take (unat sz) bs"]) auto
  next
    case (Some i)
    then have "i < length (slots_of (rsObj w d))" "fst (slots_of (rsObj w d) ! i) \<noteq> None"
      by (auto simp: find_handler_def first_idx_Some)
    then obtain h where h: "handlers (rsObj w d) ! i = Some h" "Some h \<in> set (handlers (rsObj w d))"
      by (auto simp: slots_of_def) (metis nth_mem)
    obtain st' xs a' where *: "length xs = unat sz" "rsHandler e h name cmd (Some bs) sz flags (rsApp w d) = (st', Some (xs @ drop (unat sz) bs), a')"
        "rsHandler e h name cmd (Some cs) sz flags (rsApp w d) = (st', Some (xs @ drop (unat sz) cs), a')"
      using wp h(2) by (meson service_handler.other_bytes [OF _ n])
    show ?thesis
      using run * Some f2 h same by (auto simp: appRemoteServiceRunHandler_def)
  qed
qed

text \<open>A core that waits while the task of core \<open>d\<close> takes a message.\<close>

definition serving :: "'s rs_env \<Rightarrow> u32 \<Rightarrow> 's rs_world \<Rightarrow> 's rs_world" where
  "serving e d w = (case rx_round e id d w of Some (_, w) \<Rightarrow> w | None \<Rightarrow> w)"

lemma upd_rs_simps [simp]:
  "rsApp (upd_rs c f w) = rsApp w" "rsBox (upd_rs c f w) = rsBox w" "rsCalls (upd_rs c f w) = rsCalls w"
  "rsObj (upd_rs c f w) = (rsObj w)(c := f (rsObj w c))"
  by (simp_all add: upd_rs_def)

lemma rs_issue_simps [simp]:
  "rsApp (rs_issue c x w) = rsApp w" "rsBox (rs_issue c x w) = rsBox w" "rsObj (rs_issue c x w) = rsObj w"
  by (simp_all add: rs_issue_def)

text \<open>The message of a call, run and acknowledged.\<close>

lemma serving_call:
  assumes ok: "\<And>cs. rsStatus e cs = 0" and cd: "d \<noteq> c"
    and wp: "\<forall>h. Some h \<in> set (handlers (rsObj w d)) \<longrightarrow> within_prm e h"
    and n: "unat sz \<le> length bs" "unat sz \<le> length (hdPrm buf)" "length (hdPrm (rpmsg_rx_msg_buf (rsObj w d))) = APP_REMOTE_SERVICE_PRM_SIZE_MAX"
      "unat sz \<le> APP_REMOTE_SERVICE_PRM_SIZE_MAX"
    and args: "length name < APP_REMOTE_SERVICE_NAME_MAX" "\<not> no_ack flags"
    and m: "m = fill_tx name cmd (Some bs) sz flags buf"
    and box: "rsBox w (d, rsRxEndpt (rsObj w d)) = [\<lparr>pkMsg = m, pkLen = unat sz + sizeof_msg_header, pkCpu = c, pkEndpt = ep\<rparr>]"
    and run: "appRemoteServiceRunHandler e d name cmd (Some bs) sz flags w = (st, prm, v)"
  shows "\<exists>xs m'. length xs = unat sz \<and> prm = Some (xs @ drop (unat sz) bs) \<and> hdStatus m' = st \<and> take (unat sz) (hdPrm m') = xs
     \<and> rsApp (serving e d w) = rsApp v \<and> rsObj (serving e d w) = (rsObj w)(d := (rsObj w d)\<lparr>rpmsg_rx_msg_buf := m'\<rparr>)
     \<and> rsBox (serving e d w) = (rsBox w)((d, rsRxEndpt (rsObj w d)) := [],
          (c, ep) := rsBox w (c, ep) @ [\<lparr>pkMsg = m', pkLen = unat sz + sizeof_msg_header, pkCpu = d, pkEndpt = rsRxEndpt (rsObj w d)\<rparr>])"
proof -
  define rx where "rx = hdPrm (rpmsg_rx_msg_buf (rsObj w d))"
  define cs where "cs = take (unat sz) bs @ drop (unat sz) rx"
  define w1 where "w1 = rs_issue d (RPMessage_recv (rsRxEndpt (rsObj w d))) w"
  define w2 where "w2 = w1\<lparr>rsBox := (rsBox w1)((d, rsRxEndpt (rsObj w d)) := [])\<rparr>"
  define p where "p = \<lparr>pkMsg = m, pkLen = unat sz + sizeof_msg_header, pkCpu = c, pkEndpt = ep\<rparr>"
  have cs: "unat sz \<le> length cs" "take (unat sz) bs = take (unat sz) cs" "drop (unat sz) cs = drop (unat sz) rx"
    using n by (simp_all add: cs_def rx_def)
  obtain xs where xs: "length xs = unat sz" "prm = Some (xs @ drop (unat sz) bs)"
    "appRemoteServiceRunHandler e d name cmd (Some cs) sz flags w2 = (st, Some (xs @ drop (unat sz) cs), w2\<lparr>rsApp := rsApp v\<rparr>)"
    using run_handler_bufs [OF wp n(1) cs(1,2) _ _ _ run, of w2] by (auto simp: w2_def w1_def)
  have buf: "into_buf p (rpmsg_rx_msg_buf (rsObj w2 d)) = m\<lparr>hdPrm := cs\<rparr>"
    using n by (simp add: into_buf_def Let_def p_def m fill_tx_def cs_def rx_def w2_def w1_def)
  have fields: "hdName m = name" "hdCmd m = cmd" "hdPrmSize m = sz" "hdFlags m = flags"
    using args(1) by (simp_all add: m fill_tx_def APP_REMOTE_SERVICE_NAME_MAX_def)
  define m' where "m' = m\<lparr>hdPrm := xs @ drop (unat sz) cs, hdStatus := st\<rparr>"
  have serve: "serving e d w = serve_packet e d p w2"
    using ok box by (simp add: serving_def rx_round_def rs_recv_def rs_status_def Let_def w1_def [symmetric])
      (simp add: w1_def w2_def p_def)
  have "serve_packet e d p w2 = snd (rs_send e d c ep (rsRxEndpt (rsObj w d)) m' (unat sz + sizeof_msg_header)
      (upd_rs d (\<lambda>ob. ob\<lparr>rpmsg_rx_msg_buf := m'\<rparr>) (w2\<lparr>rsApp := rsApp v\<rparr>)))"
    using args(2) by (simp add: serve_packet_def buf fields xs(3) m'_def Let_def) (simp add: w2_def w1_def p_def)
  then show ?thesis
    using xs cd ok by (intro exI [of _ xs] exI [of _ m'])
      (auto simp: serve m'_def rs_send_def rs_status_def Let_def w2_def w1_def)
qed

lemma remote_call:
  assumes ok: "\<And>cs. rsStatus e cs = 0"
    and cd: "dst \<noteq> c" "Ipc_mpGetRemoteProcId e c dst = d" "d \<noteq> c" "rsRxEndpt (rsObj w c) = rsRxEndpt (rsObj w d)"
    and wp: "\<forall>h. Some h \<in> set (handlers (rsObj w d)) \<longrightarrow> within_prm e h"
    and bufs: "length (hdPrm (rpmsg_tx_msg_buf (rsObj w c))) = APP_REMOTE_SERVICE_PRM_SIZE_MAX"
      "length (hdPrm (rpmsg_rx_msg_buf (rsObj w d))) = APP_REMOTE_SERVICE_PRM_SIZE_MAX"
    and box: "rsBox w (d, rsRxEndpt (rsObj w d)) = []" "rsBox w (c, rpmsg_tx_endpt (rsObj w c)) = []"
    and args: "length name < APP_REMOTE_SERVICE_NAME_MAX" "unat sz \<le> APP_REMOTE_SERVICE_PRM_SIZE_MAX" "unat sz \<le> length bs" "\<not> no_ack flags"
    and run: "appRemoteServiceRunHandler e d name cmd (Some bs) sz flags w = (st, prm, v)"
  shows "\<exists>w'. appRemoteServiceRun e (serving e d) c dst name cmd (Some bs) sz flags w = Some (st, prm, w')
     \<and> rsApp w' = rsApp v \<and> rsBox w' = rsBox w
     \<and> (\<forall>k. handlers (rsObj w' k) = handlers (rsObj w k) \<and> service_name (rsObj w' k) = service_name (rsObj w k))"
proof -
  define m where "m = fill_tx name cmd (Some bs) sz flags (rpmsg_tx_msg_buf (rsObj w c))"
  let ?ep = "rpmsg_tx_endpt (rsObj w c)" and ?rx = "rsRxEndpt (rsObj w d)" and ?len = "unat sz + sizeof_msg_header"
  define w1 where "w1 = snd (rs_send e c d ?rx ?ep m ?len (upd_rs c (\<lambda>ob. ob\<lparr>rpmsg_tx_msg_buf := m\<rparr>) w))"
  define w2 where "w2 = rs_issue c (RPMessage_recv ?ep) w1"
  have w2: "rsObj w2 = (rsObj w)(c := (rsObj w c)\<lparr>rpmsg_tx_msg_buf := m\<rparr>)" "rsApp w2 = rsApp w"
    "rsBox w2 = (rsBox w)((d, ?rx) := [\<lparr>pkMsg = m, pkLen = ?len, pkCpu = c, pkEndpt = ?ep\<rparr>])"
    using ok box by (simp_all add: w2_def w1_def rs_send_def rs_status_def Let_def)
  have run2: "appRemoteServiceRunHandler e d name cmd (Some bs) sz flags w2 = (st, prm, w2\<lparr>rsApp := rsApp v\<rparr>)"
  proof -
    have "\<exists>xs. length xs = unat sz \<and> prm = Some (xs @ drop (unat sz) bs)
       \<and> appRemoteServiceRunHandler e d name cmd (Some bs) sz flags w2 = (st, Some (xs @ drop (unat sz) bs), w2\<lparr>rsApp := rsApp v\<rparr>)"
      by (rule run_handler_bufs [OF wp args(3) args(3) _ _ _ _ run]) (use cd w2 in simp_all)
    then show ?thesis by auto
  qed
  obtain xs m' where s: "length xs = unat sz" "prm = Some (xs @ drop (unat sz) bs)" "hdStatus m' = st" "take (unat sz) (hdPrm m') = xs"
    "rsApp (serving e d w2) = rsApp (w2\<lparr>rsApp := rsApp v\<rparr>)"
    "rsObj (serving e d w2) = (rsObj w2)(d := (rsObj w2 d)\<lparr>rpmsg_rx_msg_buf := m'\<rparr>)"
    "rsBox (serving e d w2) = (rsBox w2)((d, ?rx) := [], (c, ?ep) := rsBox w2 (c, ?ep) @
        [\<lparr>pkMsg = m', pkLen = ?len, pkCpu = d, pkEndpt = ?rx\<rparr>])"
    using serving_call [OF ok cd(3) _ args(3) _ _ args(2,1,4) m_def _ run2, of ?ep] wp bufs args(2) cd(3)
    unfolding w2 by auto
  have "appRemoteServiceRun e (serving e d) c dst name cmd (Some bs) sz flags w
      = take_ack e (serving e d) c d (Some bs) sz ?len w1"
    using cd args ok by (simp add: appRemoteServiceRun_def m_def [symmetric] Let_def w1_def case_prod_beta)
      (simp add: rs_send_def rs_status_def Let_def)
  moreover have "rs_recv e (serving e d) c ?ep w1 = Some (0, Some \<lparr>pkMsg = m', pkLen = ?len, pkCpu = d, pkEndpt = ?rx\<rparr>,
      (serving e d w2)\<lparr>rsBox := rsBox w\<rparr>)"
    using ok s(7) box cd(3) w2(3) by (auto simp: rs_recv_def rs_status_def Let_def w2_def [symmetric] fun_eq_iff)
  ultimately show ?thesis
    using s cd w2 by (auto simp: take_ack_def into_buf_def Let_def w1_def rs_send_def rs_status_def ok min_def)
qed

text \<open>Property C21 (equivalence).  Calling a service of another core does what its handler would do on the caller's own buffer: the
  status, the bytes of the parameter and the other core's data are the same, and no message is left
  over; a service that nobody offers fails on both ways.\<close>

theorem remote_transparent:
  assumes ok: "\<And>cs. rsStatus e cs = 0"
    and cd: "dst \<noteq> c" "Ipc_mpGetRemoteProcId e c dst = d" "d \<noteq> c" "rsRxEndpt (rsObj w c) = rsRxEndpt (rsObj w d)"
    and wp: "\<forall>h. Some h \<in> set (handlers (rsObj w d)) \<longrightarrow> within_prm e h"
    and bufs: "length (hdPrm (rpmsg_tx_msg_buf (rsObj w c))) = APP_REMOTE_SERVICE_PRM_SIZE_MAX"
      "length (hdPrm (rpmsg_rx_msg_buf (rsObj w d))) = APP_REMOTE_SERVICE_PRM_SIZE_MAX"
    and box: "rsBox w (d, rsRxEndpt (rsObj w d)) = []" "rsBox w (c, rpmsg_tx_endpt (rsObj w c)) = []"
    and args: "length name < APP_REMOTE_SERVICE_NAME_MAX" "unat sz \<le> APP_REMOTE_SERVICE_PRM_SIZE_MAX" "unat sz \<le> length bs" "\<not> no_ack flags"
    and run: "appRemoteServiceRunHandler e d name cmd (Some bs) sz flags w = (st, prm, v)"
  shows "\<exists>w'. appRemoteServiceRun e (serving e d) c dst name cmd (Some bs) sz flags w = Some (st, prm, w')
     \<and> rsApp w' = rsApp v \<and> rsBox w' = rsBox w
     \<and> (\<forall>k. handlers (rsObj w' k) = handlers (rsObj w k) \<and> service_name (rsObj w' k) = service_name (rsObj w k))"
  by (rule remote_call [OF assms])

text \<open>An acknowledgement of another length, or from elsewhere, is reported as a success, without the parameter.\<close>

lemma take_ack_mismatch:
  assumes "rs_recv e during c (rpmsg_tx_endpt (rsObj w c)) w = Some (0, Some p, w')"
    and "pkLen p \<noteq> len \<or> pkEndpt p \<noteq> rsRxEndpt (rsObj w' c) \<or> pkCpu p \<noteq> d"
  shows "\<exists>w''. take_ack e during c d prm sz len w = Some (0, prm, w'')"
  using assms by (auto simp: take_ack_def Let_def)

section \<open>An instance\<close>

text \<open>Two cores, numbered 1 and 2; core 2 offers a service that adds one to every byte it is given and returns the number of the
  command.\<close>

definition rs_demo_env :: "nat rs_env" where
  "rs_demo_env = \<lparr>rsHandler = (\<lambda>h name cmd prm sz flags a. case prm of
        Some bs \<Rightarrow> (int (unat cmd), Some (map (\<lambda>b. b + 1) (take (unat sz) bs) @ drop (unat sz) bs), a + unat sz)
      | None \<Rightarrow> (int (unat cmd), None, a)),
     Ipc_mpGetRemoteProcId = (\<lambda>c d. d), rsOpens = (\<lambda>_. True), rsStatus = (\<lambda>_. 0), rsAnyEndpt = (\<lambda>_. 1024),
     rsTerminated = (\<lambda>_. True), IPC_E_UNBLOCKED = -100\<rparr>"

definition rs_empty :: app_remote_service_obj_t where
  "rs_empty = (let buf = \<lparr>hdName = '''', hdCmd = 0, hdFlags = 0, hdPrmSize = 0, hdStatus = 0, hdPrm = replicate APP_REMOTE_SERVICE_PRM_SIZE_MAX 0\<rparr>
     in \<lparr>rsRxEndpt = 21, rpmsg_tx_handle = Some 1, rpmsg_tx_endpt = 1024, rpmsg_rx_handle = Some 2, task_handle = Some 3,
         rpmsg_rx_msg_buf = buf, rpmsg_tx_msg_buf = buf, tx_lock = Some 4, rx_lock = Some 5,
         handlers = replicate 8 None, service_name = replicate 8 ''''\<rparr>)"

definition rs_demo :: "nat rs_world" where
  "rs_demo = \<lparr>rsObj = (\<lambda>c. if c = 2 then snd (appRemoteServiceRegister ''perf'' 7 rs_empty) else rs_empty), rsBox = (\<lambda>_. []),
     rsApp = (\<lambda>_. 0), rsCalls = []\<rparr>"

lemma rs_demo_parts:
  "rsObj rs_demo 1 = rs_empty" "handlers (rsObj rs_demo 2) = Some 7 # replicate 7 None"
  "service_name (rsObj rs_demo 2) = ''perf'' # replicate 7 ''''" "rsRxEndpt (rsObj rs_demo 2) = 21"
  "rpmsg_rx_msg_buf (rsObj rs_demo 2) = rpmsg_rx_msg_buf rs_empty" "rsBox rs_demo = (\<lambda>_. [])"
  by (simp_all add: rs_demo_def rs_empty_def appRemoteServiceRegister_def APP_REMOTE_SERVICE_NAME_MAX_def Let_def eval_nat_numeral)

lemma rs_demo_within: "within_prm rs_demo_env h"
  by unfold_locales (auto simp: rs_demo_env_def min_def)

lemma rs_demo_runs:
  "appRemoteServiceRunHandler rs_demo_env 2 ''perf'' 5 (Some [1, 2, 3]) 2 0 rs_demo
     = (5, Some [2, 3, 3], rs_demo\<lparr>rsApp := (rsApp rs_demo)(2 := 2)\<rparr>)"
  by (simp add: appRemoteServiceRunHandler_def find_handler_def slots_of_def rs_demo_parts) (simp add: rs_demo_env_def rs_demo_def, simp add: numeral_2_eq_2)

theorem remote_transparent_witness:
  "\<exists>w'. appRemoteServiceRun rs_demo_env (serving rs_demo_env 2) 1 2 ''perf'' 5 (Some [1, 2, 3]) 2 0 rs_demo = Some (5, Some [2, 3, 3], w')
     \<and> rsApp w' = (rsApp rs_demo)(2 := 2)"
proof -
  have env: "\<And>cs. rsStatus rs_demo_env cs = 0" "Ipc_mpGetRemoteProcId rs_demo_env 1 2 = 2" by (simp_all add: rs_demo_env_def)
  have "\<exists>w'. appRemoteServiceRun rs_demo_env (serving rs_demo_env 2) 1 2 ''perf'' 5 (Some [1, 2, 3]) 2 0 rs_demo = Some (5, Some [2, 3, 3], w')
     \<and> rsApp w' = rsApp (rs_demo\<lparr>rsApp := (rsApp rs_demo)(2 := 2)\<rparr>) \<and> rsBox w' = rsBox rs_demo
     \<and> (\<forall>k. handlers (rsObj w' k) = handlers (rsObj rs_demo k) \<and> service_name (rsObj w' k) = service_name (rsObj rs_demo k))"
    by (rule remote_transparent [OF env(1) _ env(2) _ _ _ _ _ _ _ _ _ _ _ rs_demo_runs])
      (simp_all add: rs_demo_parts rs_demo_within,
       simp_all add: rs_empty_def Let_def APP_REMOTE_SERVICE_NAME_MAX_def APP_REMOTE_SERVICE_PRM_SIZE_MAX_def IPC_RPMESSAGE_MSG_SIZE_def
         sizeof_msg_header_def no_ack_def APP_REMOTE_SERVICE_FLAG_NO_WAIT_ACK_def)
  then show ?thesis by auto
qed

lemma rs_empty_inv: "rs_inv rs_empty" "registry rs_empty = Map.empty"
proof -
  have free: "\<forall>x\<in>set (slots_of rs_empty). \<not> slot_taken x" "\<forall>x\<in>set (slots_of rs_empty). snd x = ''''"
    by (auto simp: slots_of_def rs_empty_def Let_def set_zip)
  show "rs_inv rs_empty" "registry rs_empty = Map.empty"
    using slot_all_free [OF free(1)] free(2)
    by (simp_all add: rs_inv_def registry_def) (simp add: rs_empty_def Let_def APP_REMOTE_SERVICE_HANDLERS_MAX_def)
qed

theorem remote_registry_witness:
  "\<exists>sts ob'. run_ops reg_step [Reg ''perf'' 7, Unreg ''stats'', Reg ''stats'' 8, Unreg ''perf''] rs_empty = (sts, ob')
     \<and> sts = [0, -1, 0, 0] \<and> registry ob' = [''stats'' \<mapsto> 8]"
proof -
  have ok: "regs_ok [Reg ''perf'' 7, Unreg ''stats'', Reg ''stats'' 8, Unreg ''perf''] (registry rs_empty)"
    by (simp add: rs_empty_inv(2) APP_REMOTE_SERVICE_NAME_MAX_def APP_REMOTE_SERVICE_HANDLERS_MAX_def)
  have abs: "run_ops reg_abs [Reg ''perf'' 7, Unreg ''stats'', Reg ''stats'' 8, Unreg ''perf''] Map.empty = ([0, -1, 0, 0], [''stats'' \<mapsto> 8])"
    by (simp add: APP_REMOTE_SERVICE_HANDLERS_MAX_def fun_eq_iff)
  from remote_registry [OF rs_empty_inv(1) ok] show ?thesis
    unfolding rs_empty_inv(2) abs by auto
qed

end
