(* ===== verification/Stats.thy ===== *)
theory Stats
  imports RemoteService
begin

text \<open>
  The two services the cores offer: the bandwidth of the switch's ports
  (\<^verbatim>\<open>utils/ethfw_stats/src/app_ethfw_stats.c\<close>), collected twice a second from the port counters, and the
  load of a core and its tasks (\<^verbatim>\<open>utils/perf_stats/src/app_perf_stats_rtos.c\<close>, the FreeRTOS build).

  The counters, the links and the loads are read from the driver and the operating system: arguments.  The
  locks and the printing are left out.  A structure handed to a caller is its bytes in the memory of the ARM cores
  (little endian, 64-bit words aligned to 8).
\<close>

section \<open>Bytes of a structure\<close>

definition le32 :: "u32 \<Rightarrow> u8 list" where "le32 x = map (\<lambda>i. ucast (drop_bit (8 * i) x)) [0..<4]"
definition le64 :: "u64 \<Rightarrow> u8 list" where "le64 x = map (\<lambda>i. ucast (drop_bit (8 * i) x)) [0..<8]"

lemma length_le [simp]: "length (le32 x) = 4" "length (le64 y) = 8"
  by (simp_all add: le32_def le64_def)

lemma length_concat_map: "(\<And>x. x \<in> set xs \<Longrightarrow> length (f x) = k) \<Longrightarrow> length (concat (map f xs)) = length xs * k"
  by (induction xs) auto

section \<open>Bandwidth of the ports\<close>

definition APP_ETHFW_PORT_NUM_MAX :: nat where "APP_ETHFW_PORT_NUM_MAX = 9"
definition APP_ETHFW_STATS_POLL_PERIOD_MS :: u32 where "APP_ETHFW_STATS_POLL_PERIOD_MS = 500"
definition APP_ETHFW_STATS_BW_MULT :: u32 where "APP_ETHFW_STATS_BW_MULT = 1000 div APP_ETHFW_STATS_POLL_PERIOD_MS"
definition APP_ETHFW_STATS_BW_FRAMES_MULT :: u32 where "APP_ETHFW_STATS_BW_FRAMES_MULT = 20"
definition APP_ETHFW_STATS_SERVICE_NAME :: string where "APP_ETHFW_STATS_SERVICE_NAME = ''com.ti.ethfw_stats''"
definition APP_ETHFW_STATS_CMD_RESET_BANDWIDTH :: u32 where "APP_ETHFW_STATS_CMD_RESET_BANDWIDTH = 1"
definition APP_ETHFW_STATS_CMD_GET_BANDWIDTH :: u32 where "APP_ETHFW_STATS_CMD_GET_BANDWIDTH = 2"

text \<open>The kinds of switch the calculation tells apart, and the counters it reads.\<close>

datatype bw_type = CPSW_2G | CPSW_5G | CPSW_9G | OtherType

record port_stats =
  psTxOctets :: u64
  psTxGoodFrames :: u64
  psRxOctets :: u64
  psRxGoodFrames :: u64

definition ps_zero :: port_stats where
  "ps_zero = \<lparr>psTxOctets = 0, psTxGoodFrames = 0, psRxOctets = 0, psRxGoodFrames = 0\<rparr>"

record app_ethfw_port_bandwidth_t =
  isportenabled :: "bool list"
  tx_bandwidth :: "u64 list"
  rx_bandwidth :: "u64 list"

datatype stats_call =
    EnetMcm_acquire | EnetMcm_coreAttach | EnetMcm_releaseCmdIf
  | CreateClockSem | CreateStatsTask | CreateStatsClock
  | StatsTaskTerminated | StatsSleep u32 | DeleteStatsTask "nat option" | DeleteClockSem "nat option"
  | StopStatsClock "nat option" | DeleteStatsClock "nat option" | UnregisterStats string

record app_ethfw_stats_obj_t =
  seType :: bw_type
  ethfwPortBw :: app_ethfw_port_bandwidth_t
  prevPortStats :: "port_stats list"
  hStatsClock :: "nat option"
  clockSem :: "nat option"
  clockTicks :: nat                    \<comment> \<open>the count of the semaphore\<close>
  hStatsCollectorTask :: "nat option"
  ethfwStatsUpdateEnable :: bool
  ethfwStatsShutdown :: bool
  seCalls :: "stats_call list"

definition bw_zero :: app_ethfw_port_bandwidth_t where
  "bw_zero = \<lparr>isportenabled = replicate APP_ETHFW_PORT_NUM_MAX False, tx_bandwidth = replicate APP_ETHFW_PORT_NUM_MAX 0,
     rx_bandwidth = replicate APP_ETHFW_PORT_NUM_MAX 0\<rparr>"

definition appEthfwStats_clockCb :: "app_ethfw_stats_obj_t \<Rightarrow> app_ethfw_stats_obj_t" where
  "appEthfwStats_clockCb ob = (if ethfwStatsUpdateEnable ob then ob\<lparr>clockTicks := Suc (clockTicks ob)\<rparr> else ob)"

text \<open>Octets and 20 octets of overhead for a frame, per second; the sums are 32 bits wide.\<close>

definition bw_diff :: "bw_type \<Rightarrow> (port_stats \<Rightarrow> u64) \<Rightarrow> port_stats \<Rightarrow> port_stats \<Rightarrow> u32" where
  "bw_diff ty f cur prev = (if ty = OtherType then 0 else ucast (f cur - f prev))"

definition bw_of :: "u32 \<Rightarrow> u32 \<Rightarrow> u64" where
  "bw_of octs frames = ucast ((octs + frames * APP_ETHFW_STATS_BW_FRAMES_MULT) * APP_ETHFW_STATS_BW_MULT)"

definition appEthfw_calculateBw :: "bw_type \<Rightarrow> port_stats \<Rightarrow> port_stats \<Rightarrow> u64 \<times> u64" where
  "appEthfw_calculateBw ty cur prev =
     (bw_of (bw_diff ty psTxOctets cur prev) (bw_diff ty psTxGoodFrames cur prev),
      bw_of (bw_diff ty psRxOctets cur prev) (bw_diff ty psRxGoodFrames cur prev))"

text \<open>What the driver says in a round: the counters of port \<open>p\<close> (0 is the host port), unless reading them fails, and its
  link.\<close>

record stats_read =
  srStats :: "nat \<Rightarrow> port_stats option"
  srLink :: "nat \<Rightarrow> bool"
  srPortMax :: nat

definition collect_stats :: "stats_read \<Rightarrow> nat \<Rightarrow> app_ethfw_stats_obj_t \<Rightarrow> app_ethfw_stats_obj_t" where
  "collect_stats e p ob =
     (case srStats e p of
        None \<Rightarrow> ob
      | Some cur \<Rightarrow>
          (let (tx, rx) = appEthfw_calculateBw (seType ob) cur (prevPortStats ob ! p); bw = ethfwPortBw ob
           in ob\<lparr>ethfwPortBw := bw\<lparr>tx_bandwidth := (tx_bandwidth bw)[p := tx], rx_bandwidth := (rx_bandwidth bw)[p := rx]\<rparr>,
                 prevPortStats := (prevPortStats ob)[p := cur]\<rparr>))"

definition set_enabled :: "nat \<Rightarrow> bool \<Rightarrow> app_ethfw_stats_obj_t \<Rightarrow> app_ethfw_stats_obj_t" where
  "set_enabled p b ob = ob\<lparr>ethfwPortBw := (ethfwPortBw ob)\<lparr>isportenabled := (isportenabled (ethfwPortBw ob))[p := b]\<rparr>\<rparr>"

text \<open>A port without a link: the transmit bandwidth is cleared, twice, and the receive bandwidth stays.\<close>

definition collect_mac :: "stats_read \<Rightarrow> nat \<Rightarrow> app_ethfw_stats_obj_t \<Rightarrow> app_ethfw_stats_obj_t" where
  "collect_mac e p ob =
     (let ob = set_enabled p (srLink e p) ob in
      if srLink e p then collect_stats e p ob
      else ob\<lparr>ethfwPortBw := (ethfwPortBw ob)\<lparr>tx_bandwidth := (tx_bandwidth (ethfwPortBw ob))[p := 0, p := 0]\<rparr>\<rparr>)"

definition collect_round :: "stats_read \<Rightarrow> app_ethfw_stats_obj_t \<Rightarrow> app_ethfw_stats_obj_t" where
  "collect_round e ob = fold (collect_mac e) [1..<Suc (srPortMax e)] (collect_stats e 0 (set_enabled 0 True ob))"

text \<open>The task in front of its loop: it ends, waits for the clock (\<open>None\<close>), or does a round.\<close>

definition appEthfw_statsCollectorTask :: "stats_read \<Rightarrow> app_ethfw_stats_obj_t \<Rightarrow> (bool \<times> app_ethfw_stats_obj_t) option" where
  "appEthfw_statsCollectorTask e ob =
     (if ethfwStatsShutdown ob then Some (True, ob)
      else if clockTicks ob = 0 then None
      else Some (False, collect_round e (ob\<lparr>clockTicks := clockTicks ob - 1\<rparr>)))"

definition st_call :: "stats_call \<Rightarrow> app_ethfw_stats_obj_t \<Rightarrow> app_ethfw_stats_obj_t" where
  "st_call c ob = ob\<lparr>seCalls := seCalls ob @ [c]\<rparr>"

definition st_open :: "(stats_call list \<Rightarrow> bool) \<Rightarrow> stats_call \<Rightarrow> app_ethfw_stats_obj_t \<Rightarrow> nat option \<times> app_ethfw_stats_obj_t" where
  "st_open opens c ob = (let ob = st_call c ob in (if opens (seCalls ob) then Some (length (seCalls ob)) else None, ob))"

definition appEthfw_createClock :: "(stats_call list \<Rightarrow> bool) \<Rightarrow> app_ethfw_stats_obj_t \<Rightarrow> int \<times> app_ethfw_stats_obj_t" where
  "appEthfw_createClock opens ob =
     (let (h, ob) = st_open opens CreateStatsClock ob in (if h = None then ETHFW_EFAIL else 0, ob\<lparr>hStatsClock := h\<rparr>))"

definition appEthfwStatsInit :: "(stats_call list \<Rightarrow> bool) \<Rightarrow> bw_type \<Rightarrow> app_ethfw_stats_obj_t \<Rightarrow> int \<times> app_ethfw_stats_obj_t" where
  "appEthfwStatsInit opens ty ob =
     (let ob = \<lparr>seType = ty, ethfwPortBw = bw_zero, prevPortStats = replicate APP_ETHFW_PORT_NUM_MAX ps_zero, hStatsClock = None,
                clockSem = None, clockTicks = 0, hStatsCollectorTask = None, ethfwStatsUpdateEnable = False,
                ethfwStatsShutdown = False, seCalls = seCalls ob\<rparr>;
          ob = st_call EnetMcm_coreAttach (st_call EnetMcm_acquire ob);
          (h, ob) = st_open opens CreateClockSem ob;
          r = (if h = None then ETHFW_EFAIL else 0, ob\<lparr>clockSem := h, clockTicks := 1\<rparr>);
          r = thenOK r (\<lambda>ob. (let (h, ob) = st_open opens CreateStatsTask ob
                              in (if h = None then ETHFW_EFAIL else 0, ob\<lparr>hStatsCollectorTask := h\<rparr>)));
          r = thenOK r (appEthfw_createClock opens);
          r = thenOK r (\<lambda>ob. (0, ob\<lparr>ethfwStatsUpdateEnable := True, ethfwStatsShutdown := False\<rparr>))
      in (fst r, st_call EnetMcm_releaseCmdIf (snd r)))"

definition appEthfwStatsResetBwCalc :: "app_ethfw_stats_obj_t \<Rightarrow> app_ethfw_stats_obj_t" where
  "appEthfwStatsResetBwCalc ob = ob\<lparr>ethfwPortBw := bw_zero, prevPortStats := replicate APP_ETHFW_PORT_NUM_MAX ps_zero\<rparr>"

text \<open>The structure's nine flags, seven bytes up to the next multiple of 8, and the two times nine words.\<close>

definition bw_bytes :: "app_ethfw_port_bandwidth_t \<Rightarrow> u8 list" where
  "bw_bytes bw = map (\<lambda>i. if isportenabled bw ! i then 1 else 0) [0..<9] @ replicate 7 0
     @ concat (map (\<lambda>i. le64 (tx_bandwidth bw ! i)) [0..<9]) @ concat (map (\<lambda>i. le64 (rx_bandwidth bw ! i)) [0..<9])"

definition sizeof_port_bandwidth :: nat where "sizeof_port_bandwidth = 9 + 7 + 9 * 8 + 9 * 8"

text \<open>A command that reads through NULL (only a local caller can pass it) is left out: \<open>None\<close> is returned as it is.\<close>

definition appEthFwStatsHandler :: "string \<Rightarrow> u32 \<Rightarrow> u8 list option \<Rightarrow> u32 \<Rightarrow> u32 \<Rightarrow> app_ethfw_stats_obj_t \<Rightarrow> int \<times> u8 list option \<times> app_ethfw_stats_obj_t" where
  "appEthFwStatsHandler name cmd prm sz flags ob =
     (if cmd = APP_ETHFW_STATS_CMD_RESET_BANDWIDTH then (0, prm, appEthfwStatsResetBwCalc ob)
      else if cmd = APP_ETHFW_STATS_CMD_GET_BANDWIDTH
      then (if unat sz = sizeof_port_bandwidth
            then (0, map_option (\<lambda>bs. bw_bytes (ethfwPortBw ob) @ drop sizeof_port_bandwidth bs) prm, ob)
            else (-1, prm, ob))
      else (-1, prm, ob))"

function stats_await_end :: "(stats_call list \<Rightarrow> bool) \<Rightarrow> u32 \<Rightarrow> app_ethfw_stats_obj_t \<Rightarrow> app_ethfw_stats_obj_t" where
  "stats_await_end terminated sleep ob =
     (let ob = st_call StatsTaskTerminated ob in
      if terminated (seCalls ob) then ob
      else (let ob = st_call (StatsSleep sleep) ob; sleep' = drop_bit 1 sleep
            in if sleep' = 0 then ob else stats_await_end terminated sleep' ob))"
  by auto

termination stats_await_end
  by (relation "measure (\<lambda>(t, sleep, ob). unat sleep)") (auto simp: halved_less [unfolded One_nat_def])

definition appEthfwStatsDeleteStatsCollectorTask :: "(stats_call list \<Rightarrow> bool) \<Rightarrow> app_ethfw_stats_obj_t \<Rightarrow> app_ethfw_stats_obj_t" where
  "appEthfwStatsDeleteStatsCollectorTask terminated ob =
     st_call (DeleteStatsTask (hStatsCollectorTask ob)) (stats_await_end terminated 16 ob)"

text \<open>The flag that would end the task is set when the task has been deleted.\<close>

definition appEthfwStatsDeInit :: "(stats_call list \<Rightarrow> bool) \<Rightarrow> app_ethfw_stats_obj_t \<Rightarrow> app_ethfw_stats_obj_t" where
  "appEthfwStatsDeInit terminated ob =
     (let ob = st_call (UnregisterStats APP_ETHFW_STATS_SERVICE_NAME) ob;
          ob = appEthfwStatsDeleteStatsCollectorTask terminated ob;
          ob = st_call (DeleteClockSem (clockSem ob)) ob;
          ob = st_call (DeleteStatsClock (hStatsClock ob)) (st_call (StopStatsClock (hStatsClock ob)) ob)
      in ob\<lparr>ethfwStatsUpdateEnable := False, ethfwStatsShutdown := True\<rparr>)"

section \<open>Load of a core and its tasks\<close>

definition APP_PERF_STATS_TASK_NAME_MAX :: nat where "APP_PERF_STATS_TASK_NAME_MAX = 12"
definition APP_PERF_STATS_TASK_MAX :: nat where "APP_PERF_STATS_TASK_MAX = 16"
definition APP_PERF_STATS_SERVICE_NAME :: string where "APP_PERF_STATS_SERVICE_NAME = ''com.ti.perf_stats''"
definition APP_PERF_STATS_CMD_RESET_LOAD_CALC :: u32 where "APP_PERF_STATS_CMD_RESET_LOAD_CALC = 1"
definition APP_PERF_STATS_CMD_GET_CPU_LOAD :: u32 where "APP_PERF_STATS_CMD_GET_CPU_LOAD = 2"
definition APP_PERF_STATS_CMD_GET_CPU_TASK_STATS :: u32 where "APP_PERF_STATS_CMD_GET_CPU_TASK_STATS = 3"

record app_perf_stats_load_t =
  total_time :: u64
  thread_time :: u64

record app_perf_stats_obj_t =
  idleLoad :: app_perf_stats_load_t
  num_tasks :: nat
  taskLoad :: "app_perf_stats_load_t list"
  task_name :: "string list"
  ptask_handle :: "nat list"
  load_update_enable :: bool           \<comment> \<open>\<^verbatim>\<open>g_perf_stats_load_update_enable\<close>\<close>

definition load_zero :: app_perf_stats_load_t where "load_zero = \<lparr>total_time = 0, thread_time = 0\<rparr>"

text \<open>In hundredths of a percent.  C leaves a division by a total of 0 undefined; it is 0 here.\<close>

definition appPerfStatsLoadCalc :: "app_perf_stats_load_t \<Rightarrow> u32" where
  "appPerfStatsLoadCalc l = ucast ((thread_time l * 10000) div total_time l)"

definition appPerfStatsResetLoadCalcAll :: "app_perf_stats_obj_t \<Rightarrow> app_perf_stats_obj_t" where
  "appPerfStatsResetLoadCalcAll ob = ob\<lparr>idleLoad := load_zero, taskLoad := replicate APP_PERF_STATS_TASK_MAX load_zero\<rparr>"

text \<open>A name is copied and padded with zeros to 12 bytes, the last of them 0.\<close>

definition name_bytes :: "string \<Rightarrow> u8 list" where
  "name_bytes n = (let xs = map (\<lambda>c. of_char c :: u8) (take (APP_PERF_STATS_TASK_NAME_MAX - 1) n)
     in xs @ replicate (APP_PERF_STATS_TASK_NAME_MAX - length xs) 0)"

definition task_bytes :: "app_perf_stats_obj_t \<Rightarrow> nat \<Rightarrow> u8 list" where
  "task_bytes ob i = name_bytes (task_name ob ! i) @ le32 (appPerfStatsLoadCalc (taskLoad ob ! i))"

definition sizeof_task_stats :: nat where "sizeof_task_stats = 4 + 16 * (12 + 4)"
definition sizeof_cpu_load :: nat where "sizeof_cpu_load = 12"

definition appPerfStatsGetTaskLoadAll :: "app_perf_stats_obj_t \<Rightarrow> u8 list \<Rightarrow> u8 list" where
  "appPerfStatsGetTaskLoadAll ob bs =
     (let n = min (num_tasks ob) APP_PERF_STATS_TASK_MAX; out = le32 (of_nat n) @ concat (map (task_bytes ob) [0..<n])
      in out @ drop (length out) bs)"

text \<open>\<open>load\<close> is what \<^verbatim>\<open>LoadP_getCPULoad\<close> answers.\<close>

definition appPerfStatsHandler :: "u32 \<Rightarrow> string \<Rightarrow> u32 \<Rightarrow> u8 list option \<Rightarrow> u32 \<Rightarrow> u32 \<Rightarrow> app_perf_stats_obj_t \<Rightarrow> int \<times> u8 list option \<times> app_perf_stats_obj_t" where
  "appPerfStatsHandler load name cmd prm sz flags ob =
     (if cmd = APP_PERF_STATS_CMD_RESET_LOAD_CALC then (0, prm, appPerfStatsResetLoadCalcAll ob)
      else if cmd = APP_PERF_STATS_CMD_GET_CPU_LOAD
      then (if unat sz = sizeof_cpu_load then (0, map_option (\<lambda>bs. le32 load @ drop 4 bs) prm, ob) else (-1, prm, ob))
      else if cmd = APP_PERF_STATS_CMD_GET_CPU_TASK_STATS
      then (if unat sz = sizeof_task_stats then (0, map_option (appPerfStatsGetTaskLoadAll ob) prm, ob) else (-1, prm, ob))
      else (-1, prm, ob))"

definition appPerfStatsInit :: "bool \<Rightarrow> app_perf_stats_obj_t \<Rightarrow> int \<times> app_perf_stats_obj_t" where
  "appPerfStatsInit lock_made ob =
     (let ob = \<lparr>idleLoad = load_zero, num_tasks = 0, taskLoad = replicate APP_PERF_STATS_TASK_MAX load_zero,
                task_name = replicate APP_PERF_STATS_TASK_MAX '''', ptask_handle = replicate APP_PERF_STATS_TASK_MAX 0,
                load_update_enable = load_update_enable ob\<rparr>
      in if lock_made then (0, (appPerfStatsResetLoadCalcAll ob)\<lparr>load_update_enable := True\<rparr>) else (-1, ob))"

text \<open>\<open>tm h\<close>: the total time and the time of task \<open>h\<close> since they were asked for last.\<close>

definition appPerfStatsTaskLoadUpdate :: "(nat \<Rightarrow> u64 \<times> u64) \<Rightarrow> nat \<Rightarrow> app_perf_stats_load_t \<Rightarrow> app_perf_stats_load_t" where
  "appPerfStatsTaskLoadUpdate tm h l = l\<lparr>total_time := total_time l + fst (tm h), thread_time := thread_time l + snd (tm h)\<rparr>"

definition appPerfStatsTaskLoadUpdateAll :: "(nat \<Rightarrow> u64 \<times> u64) \<Rightarrow> app_perf_stats_obj_t \<Rightarrow> app_perf_stats_obj_t" where
  "appPerfStatsTaskLoadUpdateAll tm ob =
     fold (\<lambda>i ob. ob\<lparr>taskLoad := (taskLoad ob)[i := appPerfStatsTaskLoadUpdate tm (ptask_handle ob ! i) (taskLoad ob ! i)]\<rparr>)
       [0..<num_tasks ob] ob"

definition appPerfStatsRtosLoadUpdate :: "(nat \<Rightarrow> u64 \<times> u64) \<Rightarrow> app_perf_stats_obj_t \<Rightarrow> app_perf_stats_obj_t" where
  "appPerfStatsRtosLoadUpdate tm ob = (if load_update_enable ob then appPerfStatsTaskLoadUpdateAll tm ob else ob)"

text \<open>\<open>None\<close> stands for NULL.\<close>

definition appPerfStatsRegisterTask :: "nat option \<Rightarrow> string option \<Rightarrow> app_perf_stats_obj_t \<Rightarrow> int \<times> app_perf_stats_obj_t" where
  "appPerfStatsRegisterTask handle name ob =
     (case (handle, name) of
        (Some h, Some n) \<Rightarrow>
          (if num_tasks ob < APP_PERF_STATS_TASK_MAX
           then (0, ob\<lparr>ptask_handle := (ptask_handle ob)[num_tasks ob := h],
                       task_name := (task_name ob)[num_tasks ob := take (APP_PERF_STATS_TASK_NAME_MAX - 1) n],
                       num_tasks := num_tasks ob + 1\<rparr>)
           else (-1, ob))
      | _ \<Rightarrow> (-1, ob))"

section \<open>Registering the services\<close>

text \<open>The handlers by their numbers.\<close>

definition H_ETHFW_STATS :: nat where "H_ETHFW_STATS = 0"
definition H_PERF_STATS :: nat where "H_PERF_STATS = 1"

definition appEthfwStatsRemoteServiceInit :: "app_remote_service_obj_t \<Rightarrow> int \<times> app_remote_service_obj_t" where
  "appEthfwStatsRemoteServiceInit = appRemoteServiceRegister APP_ETHFW_STATS_SERVICE_NAME H_ETHFW_STATS"

definition appPerfStatsRemoteServiceInit :: "app_remote_service_obj_t \<Rightarrow> int \<times> app_remote_service_obj_t" where
  "appPerfStatsRemoteServiceInit = appRemoteServiceRegister APP_PERF_STATS_SERVICE_NAME H_PERF_STATS"

definition appPerfStatsDeInit :: "app_remote_service_obj_t \<Rightarrow> int \<times> app_remote_service_obj_t" where
  "appPerfStatsDeInit ob = (0, snd (appRemoteServiceUnRegister APP_PERF_STATS_SERVICE_NAME ob))"

text \<open>What the handlers of a core work on, and the environment that runs them.\<close>

record core_stats =
  coreEthfw :: app_ethfw_stats_obj_t
  corePerf :: app_perf_stats_obj_t

definition stats_handler :: "u32 \<Rightarrow> nat \<Rightarrow> string \<Rightarrow> u32 \<Rightarrow> u8 list option \<Rightarrow> u32 \<Rightarrow> u32 \<Rightarrow> core_stats \<Rightarrow> int \<times> u8 list option \<times> core_stats" where
  "stats_handler load h name cmd prm sz flags a =
     (if h = H_ETHFW_STATS
      then (let (st, prm, ob) = appEthFwStatsHandler name cmd prm sz flags (coreEthfw a) in (st, prm, a\<lparr>coreEthfw := ob\<rparr>))
      else (let (st, prm, ob) = appPerfStatsHandler load name cmd prm sz flags (corePerf a) in (st, prm, a\<lparr>corePerf := ob\<rparr>)))"

section \<open>The handlers keep to their parameter\<close>

lemma length_bw_bytes [simp]: "length (bw_bytes bw) = sizeof_port_bandwidth"
  by (simp add: bw_bytes_def sizeof_port_bandwidth_def length_concat_map [where k = 8])

lemma length_name_bytes [simp]: "length (name_bytes n) = 12"
  by (simp add: name_bytes_def Let_def APP_PERF_STATS_TASK_NAME_MAX_def)

lemma over_bytes:
  assumes "length xs \<le> n" "n \<le> length bs"
  shows "xs @ drop (length xs) bs = (xs @ drop (length xs) (take n bs)) @ drop n bs" "length (xs @ drop (length xs) (take n bs)) = n"
proof -
  have "drop (length xs) bs = drop (length xs) (take n bs @ drop n bs)" by simp
  also have "\<dots> = drop (length xs) (take n bs) @ drop n bs"
    using assms by (simp only: drop_append) simp
  finally show "xs @ drop (length xs) bs = (xs @ drop (length xs) (take n bs)) @ drop n bs" by simp
qed (use assms in simp)

lemma task_load_bytes:
  "\<exists>xs. length xs \<le> sizeof_task_stats \<and> (\<forall>bs. appPerfStatsGetTaskLoadAll ob bs = xs @ drop (length xs) bs)"
proof (intro exI conjI allI)
  let ?n = "min (num_tasks ob) APP_PERF_STATS_TASK_MAX"
  let ?xs = "le32 (of_nat ?n) @ concat (map (task_bytes ob) [0..<?n])"
  show "length ?xs \<le> sizeof_task_stats"
    by (simp add: length_concat_map [where k = 16] task_bytes_def sizeof_task_stats_def APP_PERF_STATS_TASK_MAX_def)
  show "appPerfStatsGetTaskLoadAll ob bs = ?xs @ drop (length ?xs) bs" for bs
    by (simp add: appPerfStatsGetTaskLoadAll_def Let_def)
qed

interpretation ethfw_svc: service_handler appEthFwStatsHandler
  by unfold_locales (auto simp: appEthFwStatsHandler_def)

interpretation perf_svc: service_handler "appPerfStatsHandler load" for load
proof
  fix sz :: u32 and bs :: "u8 list" and name cmd flags ob
  assume n: "unat sz \<le> length bs"
  obtain xs where xs: "length xs \<le> sizeof_task_stats" "\<And>bs. appPerfStatsGetTaskLoadAll ob bs = xs @ drop (length xs) bs"
    using task_load_bytes by blast
  show "case appPerfStatsHandler load name cmd (Some (take (unat sz) bs)) sz flags ob of (st, prm, ob') \<Rightarrow>
      \<exists>xs. prm = Some xs \<and> length xs = unat sz
        \<and> appPerfStatsHandler load name cmd (Some bs) sz flags ob = (st, Some (xs @ drop (unat sz) bs), ob')"
    using n over_bytes [of xs "unat sz" bs] over_bytes [of "le32 load" "unat sz" bs] xs
    by (auto simp: appPerfStatsHandler_def sizeof_cpu_load_def)
qed

interpretation stats_svc: service_handler "stats_handler load h" for load h
proof
  fix sz :: u32 and bs :: "u8 list" and name cmd flags a
  assume n: "unat sz \<le> length bs"
  show "case stats_handler load h name cmd (Some (take (unat sz) bs)) sz flags a of (st, prm, a') \<Rightarrow>
      \<exists>xs. prm = Some xs \<and> length xs = unat sz
        \<and> stats_handler load h name cmd (Some bs) sz flags a = (st, Some (xs @ drop (unat sz) bs), a')"
    using ethfw_svc.within [OF n, of name cmd flags "coreEthfw a"] perf_svc.within [OF n, of load name cmd flags "corePerf a"]
    by (auto simp: stats_handler_def split: prod.splits)
qed

section \<open>What the collector reports\<close>

definition stats_wf :: "app_ethfw_stats_obj_t \<Rightarrow> bool" where
  "stats_wf ob \<longleftrightarrow> length (prevPortStats ob) = APP_ETHFW_PORT_NUM_MAX \<and> length (isportenabled (ethfwPortBw ob)) = APP_ETHFW_PORT_NUM_MAX
     \<and> length (tx_bandwidth (ethfwPortBw ob)) = APP_ETHFW_PORT_NUM_MAX \<and> length (rx_bandwidth (ethfwPortBw ob)) = APP_ETHFW_PORT_NUM_MAX"

text \<open>What an object holds for a port.\<close>

definition port_view :: "nat \<Rightarrow> app_ethfw_stats_obj_t \<Rightarrow> bool \<times> u64 \<times> u64 \<times> port_stats" where
  "port_view p ob = (isportenabled (ethfwPortBw ob) ! p, tx_bandwidth (ethfwPortBw ob) ! p, rx_bandwidth (ethfwPortBw ob) ! p, prevPortStats ob ! p)"

text \<open>What a round makes of it.\<close>

definition port_read :: "bw_type \<Rightarrow> stats_read \<Rightarrow> nat \<Rightarrow> bool \<times> u64 \<times> u64 \<times> port_stats \<Rightarrow> bool \<times> u64 \<times> u64 \<times> port_stats" where
  "port_read ty e p v = (case v of (_, tx, rx, prev) \<Rightarrow>
     if p = 0 \<or> srLink e p
     then (case srStats e p of
             None \<Rightarrow> (True, tx, rx, prev)
           | Some cur \<Rightarrow> (True, fst (appEthfw_calculateBw ty cur prev), snd (appEthfw_calculateBw ty cur prev), cur))
     else (False, 0, rx, prev))"

lemma collect_steps:
  assumes "stats_wf ob" "p < APP_ETHFW_PORT_NUM_MAX"
  shows "stats_wf (collect_stats e q ob)" "seType (collect_stats e q ob) = seType ob"
    "stats_wf (collect_mac e q ob)" "seType (collect_mac e q ob) = seType ob"
    "stats_wf (set_enabled q b ob)" "seType (set_enabled q b ob) = seType ob"
    "p \<noteq> q \<Longrightarrow> port_view p (collect_mac e q ob) = port_view p ob"
    "p \<noteq> 0 \<Longrightarrow> port_view p (collect_mac e p ob) = port_read (seType ob) e p (port_view p ob)"
    "port_view 0 (collect_stats e 0 (set_enabled 0 True ob)) = port_read (seType ob) e 0 (port_view 0 ob)"
    "p \<noteq> 0 \<Longrightarrow> port_view p (collect_stats e 0 (set_enabled 0 True ob)) = port_view p ob"
  using assms
  by (auto simp: stats_wf_def collect_stats_def collect_mac_def set_enabled_def port_view_def port_read_def Let_def
      split: option.splits prod.splits)

lemma collect_macs:
  assumes "stats_wf ob" "p < APP_ETHFW_PORT_NUM_MAX" "p \<noteq> 0" "distinct ps"
  shows "stats_wf (fold (collect_mac e) ps ob) \<and> seType (fold (collect_mac e) ps ob) = seType ob
     \<and> port_view p (fold (collect_mac e) ps ob) = (if p \<in> set ps then port_read (seType ob) e p (port_view p ob) else port_view p ob)"
  using assms
proof (induction ps arbitrary: ob)
  case (Cons q ps)
  note st = collect_steps [OF Cons.prems(1,2)]
  from Cons.IH [OF st(3) Cons.prems(2,3)] Cons.prems(4) st(4,7,8) Cons.prems(3) show ?case
    by (cases "p = q") (auto simp: st(4))
qed simp

lemma collect_macs0:
  assumes "stats_wf ob" "0 \<notin> set ps"
  shows "stats_wf (fold (collect_mac e) ps ob) \<and> seType (fold (collect_mac e) ps ob) = seType ob
     \<and> port_view 0 (fold (collect_mac e) ps ob) = port_view 0 ob"
  using assms
proof (induction ps arbitrary: ob)
  case (Cons q ps)
  have "0 < APP_ETHFW_PORT_NUM_MAX" by (simp add: APP_ETHFW_PORT_NUM_MAX_def)
  note st = collect_steps [OF Cons.prems(1) this]
  from Cons.IH [OF st(3)] Cons.prems(2) st(7) show ?case by (auto simp: st(4))
qed simp

lemma collect_round_view:
  assumes "stats_wf ob" "p < APP_ETHFW_PORT_NUM_MAX" "p \<le> srPortMax e"
  shows "stats_wf (collect_round e ob)" "seType (collect_round e ob) = seType ob"
    "port_view p (collect_round e ob) = port_read (seType ob) e p (port_view p ob)"
proof -
  let ?ob = "collect_stats e 0 (set_enabled 0 True ob)"
  note st = collect_steps [OF assms(1,2)]
  have wf: "stats_wf ?ob" and ty: "seType ?ob = seType ob"
    using collect_steps(1,2) [OF st(5) assms(2)] st(6) by simp_all
  have *: "stats_wf (collect_round e ob) \<and> seType (collect_round e ob) = seType ob
     \<and> port_view p (collect_round e ob) = port_read (seType ob) e p (port_view p ob)"
  proof (cases "p = 0")
    case True
    then show ?thesis
      using collect_macs0 [OF wf, of "[1..<Suc (srPortMax e)]" e] st(9) ty by (simp add: collect_round_def)
  next
    case False
    then show ?thesis
      using collect_macs [OF wf assms(2) False, of "[1..<Suc (srPortMax e)]" e] st(10) ty assms(3) by (simp add: collect_round_def)
  qed
  then show "stats_wf (collect_round e ob)" "seType (collect_round e ob) = seType ob"
    "port_view p (collect_round e ob) = port_read (seType ob) e p (port_view p ob)" by simp_all
qed

text \<open>The transmit bandwidths a port is given in a run of rounds.\<close>

primrec bw_trace :: "nat \<Rightarrow> stats_read list \<Rightarrow> app_ethfw_stats_obj_t \<Rightarrow> u64 list" where
  "bw_trace p [] ob = []"
| "bw_trace p (e # es) ob = (let ob = collect_round e ob in tx_bandwidth (ethfwPortBw ob) ! p # bw_trace p es ob)"

text \<open>What a port has sent by its counters, with the overhead of the frames.\<close>

definition on_wire :: "port_stats \<Rightarrow> nat" where
  "on_wire c = unat (psTxOctets c) + 20 * unat (psTxGoodFrames c)"

text \<open>The counters of a port in a run of rounds: they do not go back, and less than 2 GB go out in half a second.\<close>

primrec steady :: "nat \<Rightarrow> port_stats \<Rightarrow> stats_read list \<Rightarrow> port_stats \<Rightarrow> bool" where
  "steady p c [] c' \<longleftrightarrow> c' = c"
| "steady p c (e # es) c' \<longleftrightarrow> p \<le> srPortMax e \<and> (p = 0 \<or> srLink e p) \<and> (\<exists>d. srStats e p = Some d
     \<and> psTxOctets c \<le> psTxOctets d \<and> psTxGoodFrames c \<le> psTxGoodFrames d \<and> on_wire d < on_wire c + 2 ^ 31 \<and> steady p d es c')"

lemma unat_diff32:
  assumes "(b :: u64) \<le> a" "unat a < unat b + 2 ^ 32"
  shows "unat (ucast (a - b) :: u32) = unat a - unat b"
  using assms by (simp add: unsigned_ucast_eq unat_sub take_bit_nat_eq_self word_le_nat_alt)

lemma bw_of_exact:
  assumes "unat o1 + 20 * unat f1 < 2 ^ 31"
  shows "unat (bw_of o1 f1) = 2 * (unat o1 + 20 * unat f1)"
proof -
  have 1: "unat (f1 * 20) = unat f1 * 20" using assms by (simp add: unat_word_ariths)
  have 2: "unat (o1 + f1 * 20) = unat o1 + unat f1 * 20" using assms by (simp add: unat_word_ariths 1)
  have "unat ((o1 + f1 * 20) * 2) = (unat o1 + unat f1 * 20) * 2" using assms by (simp add: unat_word_ariths 2)
  then show ?thesis
    using assms
    by (simp add: bw_of_def APP_ETHFW_STATS_BW_FRAMES_MULT_def APP_ETHFW_STATS_BW_MULT_def APP_ETHFW_STATS_POLL_PERIOD_MS_def
        unsigned_ucast_eq take_bit_nat_eq_self)
qed

lemma bandwidth_exact:
  assumes "ty \<noteq> OtherType" "psTxOctets c \<le> psTxOctets d" "psTxGoodFrames c \<le> psTxGoodFrames d" "on_wire d < on_wire c + 2 ^ 31"
  shows "on_wire c \<le> on_wire d" "unat (fst (appEthfw_calculateBw ty d c)) = 2 * (on_wire d - on_wire c)"
proof -
  have le: "unat (psTxOctets c) \<le> unat (psTxOctets d)" "unat (psTxGoodFrames c) \<le> unat (psTxGoodFrames d)"
    using assms by (simp_all add: word_le_nat_alt)
  then show "on_wire c \<le> on_wire d" by (simp add: on_wire_def)
  have d: "unat (bw_diff ty psTxOctets d c) = unat (psTxOctets d) - unat (psTxOctets c)"
    "unat (bw_diff ty psTxGoodFrames d c) = unat (psTxGoodFrames d) - unat (psTxGoodFrames c)"
    using assms le by (simp_all add: bw_diff_def unat_diff32 on_wire_def)
  have "unat (bw_of (bw_diff ty psTxOctets d c) (bw_diff ty psTxGoodFrames d c))
      = 2 * ((unat (psTxOctets d) - unat (psTxOctets c)) + 20 * (unat (psTxGoodFrames d) - unat (psTxGoodFrames c)))"
    unfolding d [symmetric] by (rule bw_of_exact) (use assms(4) le in \<open>simp add: d on_wire_def\<close>)
  then show "unat (fst (appEthfw_calculateBw ty d c)) = 2 * (on_wire d - on_wire c)"
    using le by (simp add: appEthfw_calculateBw_def on_wire_def)
qed

lemma bandwidth_other: "unat (fst (appEthfw_calculateBw OtherType d c)) = 0"
  by (simp add: appEthfw_calculateBw_def bw_diff_def bw_of_def)

text \<open>Property C22 (invariant).  On the switches the code knows (CPSW 2G, 5G and 9G) the collector accounts for all traffic: as long as a
  port's link is up and its counters can be read, and
  less than 2 GB are sent in a round, the transmit bandwidths reported for it over any number of rounds,
  each for half a second, add up to exactly what its counters say it has sent.  On any other, such as the CPSW 3G of
  the Sitara boards, every one of them is 0.\<close>

theorem stats_account:
  assumes "stats_wf ob" "p < APP_ETHFW_PORT_NUM_MAX" "steady p (prevPortStats ob ! p) es c"
  shows "sum_list (map unat (bw_trace p es ob)) = (if seType ob = OtherType then 0 else 2 * (on_wire c - on_wire (prevPortStats ob ! p)))
     \<and> on_wire (prevPortStats ob ! p) \<le> on_wire c \<and> prevPortStats (fold collect_round es ob) ! p = c"
  using assms
proof (induction es arbitrary: ob)
  case Nil
  then show ?case by simp
next
  case (Cons e es)
  let ?ob = "collect_round e ob" and ?prev = "prevPortStats ob ! p"
  from Cons.prems(3) obtain d where e: "p \<le> srPortMax e" "p = 0 \<or> srLink e p" "srStats e p = Some d" "psTxOctets ?prev \<le> psTxOctets d"
    "psTxGoodFrames ?prev \<le> psTxGoodFrames d" "on_wire d < on_wire ?prev + 2 ^ 31" "steady p d es c" by auto
  note round = collect_round_view [OF Cons.prems(1,2) e(1)]
  have v: "tx_bandwidth (ethfwPortBw ?ob) ! p = fst (appEthfw_calculateBw (seType ob) d ?prev)" "prevPortStats ?ob ! p = d"
    using round(3) e(2,3) by (auto simp: port_view_def port_read_def)
  from Cons.IH [OF round(1) Cons.prems(2)] round(2) e(7) v(2)
  have IH: "sum_list (map unat (bw_trace p es ?ob)) = (if seType ob = OtherType then 0 else 2 * (on_wire c - on_wire d)) \<and> on_wire d \<le> on_wire c
      \<and> prevPortStats (fold collect_round es ?ob) ! p = c" by simp
  have le: "on_wire ?prev \<le> on_wire d" using bandwidth_exact(1) [of CPSW_9G, OF _ e(4-6)] by simp
  show ?case
  proof (cases "seType ob = OtherType")
    case True
    with IH le v show ?thesis by (simp add: Let_def bandwidth_other)
  next
    case False
    from bandwidth_exact [OF this e(4-6)] IH v False show ?thesis by (simp add: Let_def, linarith)
  qed
qed

text \<open>Without a link the receive bandwidth stays what it was.\<close>

lemma stats_link_down:
  assumes "stats_wf ob" "p < APP_ETHFW_PORT_NUM_MAX" "p \<le> srPortMax e" "p \<noteq> 0" "\<not> srLink e p"
  shows "tx_bandwidth (ethfwPortBw (collect_round e ob)) ! p = 0"
    "rx_bandwidth (ethfwPortBw (collect_round e ob)) ! p = rx_bandwidth (ethfwPortBw ob) ! p"
  using collect_round_view(3) [OF assms(1-3)] assms(4,5) by (simp_all add: port_view_def port_read_def)

text \<open>Property C35 (functional).  A core that has registered its statistics answers another core's request for the bandwidths with the
  collector's table, byte for byte, in the caller's buffer, and changes nothing.\<close>

theorem stats_remote:
  assumes ok: "\<And>cs. rsStatus e cs = 0" and hd: "rsHandler e = stats_handler load"
    and cd: "dst \<noteq> c" "Ipc_mpGetRemoteProcId e c dst = d" "d \<noteq> c" "rsRxEndpt (rsObj w c) = rsRxEndpt (rsObj w d)"
    and reg: "rs_inv ob" "registry ob APP_ETHFW_STATS_SERVICE_NAME = None" "card (dom (registry ob)) < APP_REMOTE_SERVICE_HANDLERS_MAX"
      "rsObj w d = snd (appEthfwStatsRemoteServiceInit ob)"
    and bufs: "length (hdPrm (rpmsg_tx_msg_buf (rsObj w c))) = APP_REMOTE_SERVICE_PRM_SIZE_MAX"
      "length (hdPrm (rpmsg_rx_msg_buf (rsObj w d))) = APP_REMOTE_SERVICE_PRM_SIZE_MAX"
    and box: "rsBox w (d, rsRxEndpt (rsObj w d)) = []" "rsBox w (c, rpmsg_tx_endpt (rsObj w c)) = []"
    and args: "unat sz = sizeof_port_bandwidth" "sizeof_port_bandwidth \<le> length bs" "\<not> no_ack flags"
  shows "\<exists>w'. appRemoteServiceRun e (serving e d) c dst APP_ETHFW_STATS_SERVICE_NAME APP_ETHFW_STATS_CMD_GET_BANDWIDTH (Some bs) sz flags w
       = Some (0, Some (bw_bytes (ethfwPortBw (coreEthfw (rsApp w d))) @ drop sizeof_port_bandwidth bs), w') \<and> rsApp w' = rsApp w"
proof -
  let ?name = APP_ETHFW_STATS_SERVICE_NAME
  have name: "length ?name < APP_REMOTE_SERVICE_NAME_MAX" by (simp add: APP_ETHFW_STATS_SERVICE_NAME_def APP_REMOTE_SERVICE_NAME_MAX_def)
  obtain st ob' where r: "appEthfwStatsRemoteServiceInit ob = (st, ob')" by (meson surj_pair)
  with register_registry [OF reg(1) name reg(2)] reg(3)
  have ob': "rs_inv ob'" "registry ob' ?name = Some H_ETHFW_STATS" by (auto simp: appEthfwStatsRemoteServiceInit_def)
  have d: "rsObj w d = ob'" using reg(4) r by simp
  obtain i where i: "find_handler ?name ob' = Some i" "the (handlers ob' ! i) = H_ETHFW_STATS"
    using find_registry(2) [OF ob'(1), of ?name] ob'(2) by auto
  have run: "appRemoteServiceRunHandler e d ?name APP_ETHFW_STATS_CMD_GET_BANDWIDTH (Some bs) sz flags w
      = (0, Some (bw_bytes (ethfwPortBw (coreEthfw (rsApp w d))) @ drop sizeof_port_bandwidth bs), w\<lparr>rsApp := (rsApp w)(d := rsApp w d)\<rparr>)"
    using args(1) by (simp add: appRemoteServiceRunHandler_def d i hd stats_handler_def appEthFwStatsHandler_def
        APP_ETHFW_STATS_CMD_GET_BANDWIDTH_def APP_ETHFW_STATS_CMD_RESET_BANDWIDTH_def)
  have fits: "unat sz \<le> APP_REMOTE_SERVICE_PRM_SIZE_MAX" "unat sz \<le> length bs"
    using args by (simp_all add: sizeof_port_bandwidth_def APP_REMOTE_SERVICE_PRM_SIZE_MAX_def IPC_RPMESSAGE_MSG_SIZE_def
        sizeof_msg_header_def APP_REMOTE_SERVICE_NAME_MAX_def)
  have "\<forall>h. Some h \<in> set (handlers (rsObj w d)) \<longrightarrow> within_prm e h"
    by (simp add: hd stats_svc.service_handler_axioms)
  from remote_call [OF ok cd this bufs box name fits args(3) run] show ?thesis by auto
qed

section \<open>Loads\<close>

text \<open>A load is the share of a task in hundredths of a percent, rounded down, never above 10000.\<close>

lemma perf_load:
  assumes "thread_time l \<le> total_time l" "total_time l \<noteq> 0" "unat (thread_time l) * 10000 < 2 ^ 64"
  shows "unat (appPerfStatsLoadCalc l) = unat (thread_time l) * 10000 div unat (total_time l)" "unat (appPerfStatsLoadCalc l) \<le> 10000"
proof -
  let ?t = "unat (thread_time l)" and ?n = "unat (total_time l)"
  have n: "?t \<le> ?n" "0 < ?n" using assms(1,2) by (simp_all add: word_le_nat_alt unat_gt_0)
  have "?t * 10000 div ?n \<le> ?n * 10000 div ?n" using n(1) by (intro div_le_mono) simp
  also have "\<dots> = 10000" using n(2) by simp
  finally have le: "?t * 10000 div ?n \<le> 10000" .
  have "unat (thread_time l * 10000) = ?t * 10000" using assms(3) by (simp add: unat_word_ariths)
  then have "unat ((thread_time l * 10000) div total_time l) = ?t * 10000 div ?n" by (simp add: unat_div)
  with le show "unat (appPerfStatsLoadCalc l) = ?t * 10000 div ?n"
    by (simp add: appPerfStatsLoadCalc_def unsigned_ucast_eq take_bit_nat_eq_self)
  with le show "unat (appPerfStatsLoadCalc l) \<le> 10000" by simp
qed

section \<open>An instance\<close>

text \<open>A collector that has just started, and two rounds of port 1.\<close>

definition st_demo :: app_ethfw_stats_obj_t where
  "st_demo = \<lparr>seType = CPSW_9G, ethfwPortBw = bw_zero, prevPortStats = replicate 9 ps_zero, hStatsClock = Some 5, clockSem = Some 3,
     clockTicks = 1, hStatsCollectorTask = Some 4, ethfwStatsUpdateEnable = True, ethfwStatsShutdown = False, seCalls = []\<rparr>"

definition read_demo :: "u64 \<Rightarrow> u64 \<Rightarrow> stats_read" where
  "read_demo octs frames = \<lparr>srStats = (\<lambda>p. Some (ps_zero\<lparr>psTxOctets := octs, psTxGoodFrames := frames\<rparr>)), srLink = (\<lambda>p. True), srPortMax = 4\<rparr>"

theorem stats_account_witness:
  "sum_list (map unat (bw_trace 1 [read_demo 1000 10, read_demo 3000 25] st_demo)) = 2 * (3000 + 20 * 25)"
proof -
  have wf: "stats_wf st_demo" "1 < APP_ETHFW_PORT_NUM_MAX" and ty: "seType st_demo \<noteq> OtherType"
    by (simp_all add: stats_wf_def st_demo_def bw_zero_def APP_ETHFW_PORT_NUM_MAX_def)
  have prev: "prevPortStats st_demo ! 1 = ps_zero" by (simp add: st_demo_def)
  have "steady 1 ps_zero [read_demo 1000 10, read_demo 3000 25] (ps_zero\<lparr>psTxOctets := 3000, psTxGoodFrames := 25\<rparr>)"
    by (simp add: read_demo_def on_wire_def ps_zero_def)
  from stats_account [OF wf this [folded prev]] have
    "sum_list (map unat (bw_trace 1 [read_demo 1000 10, read_demo 3000 25] st_demo))
       = 2 * (on_wire (ps_zero\<lparr>psTxOctets := 3000, psTxGoodFrames := 25\<rparr>) - on_wire ps_zero)"
    unfolding prev using ty by simp
  then show ?thesis by (simp add: on_wire_def ps_zero_def)
qed

text \<open>Core 2 offers its bandwidths, and core 1 asks for them.\<close>

definition stats_env :: "core_stats rs_env" where
  "stats_env = \<lparr>rsHandler = stats_handler 2500, Ipc_mpGetRemoteProcId = (\<lambda>c d. d), rsOpens = (\<lambda>_. True), rsStatus = (\<lambda>_. 0),
     rsAnyEndpt = (\<lambda>_. 1024), rsTerminated = (\<lambda>_. True), IPC_E_UNBLOCKED = -100\<rparr>"

definition stats_world :: "core_stats rs_world" where
  "stats_world = \<lparr>rsObj = (\<lambda>c. if c = 2 then snd (appEthfwStatsRemoteServiceInit rs_empty) else rs_empty), rsBox = (\<lambda>_. []),
     rsApp = (\<lambda>_. \<lparr>coreEthfw = collect_round (read_demo 1000 10) st_demo,
        corePerf = \<lparr>idleLoad = load_zero, num_tasks = 0, taskLoad = [], task_name = [], ptask_handle = [], load_update_enable = False\<rparr>\<rparr>),
     rsCalls = []\<rparr>"

lemma stats_registered:
  "rsRxEndpt (snd (appEthfwStatsRemoteServiceInit rs_empty)) = 21"
  "rpmsg_rx_msg_buf (snd (appEthfwStatsRemoteServiceInit rs_empty)) = rpmsg_rx_msg_buf rs_empty"
  by (simp_all add: appEthfwStatsRemoteServiceInit_def appRemoteServiceRegister_def rs_empty_def Let_def eval_nat_numeral)

theorem stats_remote_witness:
  "\<exists>w'. appRemoteServiceRun stats_env (serving stats_env 2) 1 2 APP_ETHFW_STATS_SERVICE_NAME APP_ETHFW_STATS_CMD_GET_BANDWIDTH
       (Some (replicate 160 0)) 160 0 stats_world
     = Some (0, Some (bw_bytes (ethfwPortBw (collect_round (read_demo 1000 10) st_demo))), w') \<and> rsApp w' = rsApp stats_world"
proof -
  have env: "\<And>cs. rsStatus stats_env cs = 0" "rsHandler stats_env = stats_handler 2500" "Ipc_mpGetRemoteProcId stats_env 1 2 = 2"
    by (simp_all add: stats_env_def)
  have w: "rsObj stats_world 1 = rs_empty" "rsObj stats_world 2 = snd (appEthfwStatsRemoteServiceInit rs_empty)" "rsBox stats_world = (\<lambda>_. [])"
    "coreEthfw (rsApp stats_world 2) = collect_round (read_demo 1000 10) st_demo"
    by (simp_all add: stats_world_def)
  have sz: "unat (160 :: u32) = sizeof_port_bandwidth" "sizeof_port_bandwidth \<le> length (replicate 160 (0::u8))" "\<not> no_ack 0"
    by (simp_all add: sizeof_port_bandwidth_def no_ack_def)
  have "\<exists>w'. appRemoteServiceRun stats_env (serving stats_env 2) 1 2 APP_ETHFW_STATS_SERVICE_NAME APP_ETHFW_STATS_CMD_GET_BANDWIDTH
       (Some (replicate 160 0)) 160 0 stats_world
     = Some (0, Some (bw_bytes (ethfwPortBw (coreEthfw (rsApp stats_world 2))) @ drop sizeof_port_bandwidth (replicate 160 0)), w')
     \<and> rsApp w' = rsApp stats_world"
    by (rule stats_remote [OF env(1,2) _ env(3) _ _ rs_empty_inv(1) _ _ w(2) _ _ _ _ sz])
      (simp_all add: w stats_registered rs_empty_inv(2) APP_REMOTE_SERVICE_HANDLERS_MAX_def, simp_all add: rs_empty_def Let_def)
  then show ?thesis by (simp add: w sizeof_port_bandwidth_def)
qed

end
