(* ===== verification/TimeSync.thy ===== *)
theory TimeSync
  imports Complex_Main VirtNetif
begin

text \<open>
  The clock of a remote core, kept in step with the switch's
  (\<^verbatim>\<open>ethremotecfg/client/src/ts_coupler_client.c\<close>, on J784S4): pairs of local and remote times are entered in a
  table, at the interrupt of the timer and at the server's notification, and a task computes from them
  how the one is to be converted into the other.

  A C \<^verbatim>\<open>double\<close> is a real number; every operation on it is followed by a rounding, which is a parameter
  (\<open>tsRound\<close>, and \<open>tsRoundf\<close> for \<^verbatim>\<open>float\<close>), so that what is proved does not depend on the precision.  An access
  outside the table has no result, and neither has a failed assertion.
\<close>

section \<open>Data\<close>

definition TS_COUPLER_CLIENT_TUPLES_MAX_TUPLES :: nat where "TS_COUPLER_CLIENT_TUPLES_MAX_TUPLES = 100"

datatype TsCouplerClient_TimerType = TIMER_TYPE_GPTIMER | TIMER_TYPE_GTC

record TsCouplerClient_Cfg =
  tsHwPushNum :: u32
  timerIdx :: u32
  periodinMs :: u32
  pushEvtVal :: u32
  tsRouterTntrId :: u32

record TsCouplerClient_timeSyncTuple =
  systemTime :: u64
  phcTime :: u64

datatype ts_call =
    GTC_disable | GTC_enable | GTC_selectPushEvent u32 | GTC_setCounter64 u64
  | CreateTimeSyncSem | CreateTsTask | TimerP_create u32 u32 | TimerP_start | EnablePWMTrigger u32

record TSCouplerClient_Obj =
  timerType :: TsCouplerClient_TimerType
  tsCfg :: TsCouplerClient_Cfg
  tupleIndex :: u32
  tuples :: "TsCouplerClient_timeSyncTuple list"
  timeSyncSem :: nat                     \<comment> \<open>the count of \<^verbatim>\<open>hTimeSyncSem\<close>\<close>
  syncEventCount :: u64
  syncPeriodTicks :: u64
  ts_rate :: real
  ts_offset :: real
  tsCalls :: "ts_call list"

record ts_env =
  tsRound :: "real \<Rightarrow> real"
  tsRoundf :: "real \<Rightarrow> real"
  tsFreqLo :: u32                        \<comment> \<open>\<^verbatim>\<open>TIMERP_TIMER_FREQ_LO\<close>\<close>
  tsFreqHi :: u32
  tsMade :: "ts_call list \<Rightarrow> bool"        \<comment> \<open>the handle is not NULL, the status is OK\<close>

definition ts_issue :: "ts_call \<Rightarrow> TSCouplerClient_Obj \<Rightarrow> TSCouplerClient_Obj" where
  "ts_issue c ob = ob\<lparr>tsCalls := tsCalls ob @ [c]\<rparr>"

text \<open>A call that must succeed.\<close>

definition ts_must :: "ts_env \<Rightarrow> ts_call \<Rightarrow> TSCouplerClient_Obj \<Rightarrow> TSCouplerClient_Obj option" where
  "ts_must e c ob = (let ob = ts_issue c ob in if tsMade e (tsCalls ob) then Some ob else None)"

definition tuple_zero :: TsCouplerClient_timeSyncTuple where "tuple_zero = \<lparr>systemTime = 0, phcTime = 0\<rparr>"

definition cfg_zero :: TsCouplerClient_Cfg where
  "cfg_zero = \<lparr>tsHwPushNum = 0, timerIdx = 0, periodinMs = 0, pushEvtVal = 0, tsRouterTntrId = 0\<rparr>"

section \<open>Start\<close>

definition TsCouplerClient_init :: "ts_env \<Rightarrow> TsCouplerClient_TimerType \<Rightarrow> ts_call list \<Rightarrow> TSCouplerClient_Obj option" where
  "TsCouplerClient_init e ty cs =
     ts_must e CreateTimeSyncSem \<lparr>timerType = ty, tsCfg = cfg_zero, tupleIndex = 0,
       tuples = replicate TS_COUPLER_CLIENT_TUPLES_MAX_TUPLES tuple_zero, timeSyncSem = 0, syncEventCount = 0, syncPeriodTicks = 0,
       ts_rate = 0, ts_offset = 0, tsCalls = cs\<rparr>"

definition TsCouplerClient_start :: "TsCouplerClient_Cfg \<Rightarrow> TSCouplerClient_Obj \<Rightarrow> TSCouplerClient_Obj" where
  "TsCouplerClient_start cfg ob = ts_issue CreateTsTask (ob\<lparr>tsCfg := cfg\<rparr>)"

text \<open>The ticks of a period, in single precision.\<close>

definition period_ticks :: "ts_env \<Rightarrow> u32 \<Rightarrow> u64" where
  "period_ticks e ms =
     (let rf = tsRoundf e; us = rf (real (unat (ms * 1000))); s = rf (us / rf (real (unat (1000 * 1000 :: u32))))
      in word_of_int \<lfloor>rf (s * rf (real (unat (tsFreqLo e))))\<rfloor>)"

text \<open>The task in front of its loop; the remote timer is registered through the core's first interface.\<close>

definition ts_task_start :: "ts_env \<Rightarrow> cenv \<Rightarrow> TSCouplerClient_Obj \<Rightarrow> 'a ni_st_scheme \<Rightarrow> (TSCouplerClient_Obj \<times> 'a ni_st_scheme) option" where
  "ts_task_start e ce ob s =
     (let cfg = tsCfg ob in
      if timerType ob = TIMER_TYPE_GTC
      then do {
        let ob = ts_issue (GTC_selectPushEvent (pushEvtVal cfg)) (ts_issue GTC_disable ob);
        (status, s) \<leftarrow> TsCouplerClient_registerRemoteTimer ce (tsHwPushNum cfg) (tsRouterTntrId cfg) s;
        app_assert (status = ETHFW_SOK);
        Some (ts_issue GTC_enable ob, s) }
      else do {
        app_assert (tsFreqHi e = 0);
        let ob = ob\<lparr>syncPeriodTicks := period_ticks e (periodinMs cfg)\<rparr>;
        (status, s) \<leftarrow> TsCouplerClient_registerRemoteTimer ce (tsHwPushNum cfg) (tsRouterTntrId cfg) s;
        app_assert (status = ETHFW_SOK);
        ob \<leftarrow> ts_must e (TimerP_create (timerIdx cfg) (periodinMs cfg * 1000)) ob;
        ob \<leftarrow> ts_must e TimerP_start ob;
        ob \<leftarrow> ts_must e (EnablePWMTrigger (timerIdx cfg)) ob;
        Some (ob, s) })"

section \<open>Entering times\<close>

definition tuple_at :: "TSCouplerClient_Obj \<Rightarrow> nat" where
  "tuple_at ob = unat (tupleIndex ob) mod TS_COUPLER_CLIENT_TUPLES_MAX_TUPLES"

definition upd_tuple :: "nat \<Rightarrow> (TsCouplerClient_timeSyncTuple \<Rightarrow> TsCouplerClient_timeSyncTuple) \<Rightarrow> TSCouplerClient_Obj \<Rightarrow> TSCouplerClient_Obj" where
  "upd_tuple i f ob = ob\<lparr>tuples := (tuples ob)[i := f (tuples ob ! i)]\<rparr>"

text \<open>The local time by the timer's registers \<open>cnt\<close> and \<open>reload\<close>, which are 32 bits wide.\<close>

definition local_time :: "u32 \<Rightarrow> u32 \<Rightarrow> TSCouplerClient_Obj \<Rightarrow> u64" where
  "local_time cnt reload ob = syncEventCount ob * syncPeriodTicks ob + ucast (cnt - reload + 1)"

definition TsCouplerClient_TmrIsr :: "u32 \<Rightarrow> u32 \<Rightarrow> TSCouplerClient_Obj \<Rightarrow> TSCouplerClient_Obj" where
  "TsCouplerClient_TmrIsr cnt reload ob =
     (let ob = ob\<lparr>syncEventCount := syncEventCount ob + 1\<rparr>
      in upd_tuple (tuple_at ob) (\<lambda>t. t\<lparr>systemTime := local_time cnt reload ob\<rparr>) ob)"

text \<open>The distance of two push events of the GTC (a shift of a 32-bit word; by 32 and more it is undefined, 0 here).\<close>

definition gtc_step :: "TSCouplerClient_Obj \<Rightarrow> u64" where
  "gtc_step ob = ucast (push_bit (unat (pushEvtVal (tsCfg ob))) (1 :: u32))"

text \<open>The entry before the current one is looked up without reducing its index.\<close>

definition gtc_time :: "TSCouplerClient_Obj \<Rightarrow> u64 option" where
  "gtc_time ob = (let k = unat (tupleIndex ob - 1) in
     if k < TS_COUPLER_CLIENT_TUPLES_MAX_TUPLES then Some (systemTime (tuples ob ! k) + gtc_step ob) else None)"

definition TsCouplerClient_HwPushNotifyFxn :: "u64 \<Rightarrow> TSCouplerClient_Obj \<Rightarrow> TSCouplerClient_Obj option" where
  "TsCouplerClient_HwPushNotifyFxn timestamp ob =
     (let i = tuple_at ob; ob = upd_tuple i (\<lambda>t. t\<lparr>phcTime := timestamp\<rparr>) ob in do {
        ob \<leftarrow> (if timerType ob = TIMER_TYPE_GTC
              then if tupleIndex ob = 0
                   then Some (ts_issue GTC_enable (ts_issue (GTC_setCounter64 (gtc_step ob))
                          (upd_tuple i (\<lambda>t. t\<lparr>systemTime := gtc_step ob\<rparr>) (ts_issue GTC_disable ob))))
                   else do { t \<leftarrow> gtc_time ob; Some (upd_tuple i (\<lambda>u. u\<lparr>systemTime := t\<rparr>) ob) }
              else Some ob);
        Some (ob\<lparr>tupleIndex := tupleIndex ob + 1, timeSyncSem := Suc (timeSyncSem ob)\<rparr>) })"

section \<open>Rate and offset\<close>

definition dbl :: "ts_env \<Rightarrow> u64 \<Rightarrow> real" where "dbl e x = tsRound e (real (unat x))"

text \<open>Two equal system times divide by zero: an infinity in C, 0 here.\<close>

definition rate_offset :: "ts_env \<Rightarrow> TsCouplerClient_timeSyncTuple \<Rightarrow> TsCouplerClient_timeSyncTuple \<Rightarrow> real \<times> real" where
  "rate_offset e p t =
     (let r = tsRound e; sd = dbl e (systemTime t - systemTime p); pd = dbl e (phcTime t - phcTime p);
          temp1 = r (dbl e (systemTime t) * r (dbl e (phcTime p) / sd));
          temp2 = r (dbl e (systemTime p) * r (dbl e (phcTime t) / sd))
      in (r (pd / sd), r (temp1 - temp2)))"

definition valid_tuple :: "TsCouplerClient_timeSyncTuple \<Rightarrow> bool" where
  "valid_tuple t \<longleftrightarrow> systemTime t \<noteq> 0 \<and> phcTime t \<noteq> 0"

text \<open>The loop over the entries, with the earlier entry it has found.\<close>

fun rate_loop :: "ts_env \<Rightarrow> TsCouplerClient_timeSyncTuple list \<Rightarrow> TsCouplerClient_timeSyncTuple \<Rightarrow> real \<times> real \<Rightarrow> real \<times> real" where
  "rate_loop e [] p ro = ro"
| "rate_loop e (t # ts) p ro =
     (if valid_tuple t
      then (if systemTime p = 0 \<and> phcTime p = 0 then rate_loop e ts t ro else rate_offset e p t)
      else rate_loop e ts p ro)"

definition TsCouplerClient_calculateRateAndOffset :: "ts_env \<Rightarrow> TsCouplerClient_timeSyncTuple list \<Rightarrow> real \<times> real \<Rightarrow> real \<times> real" where
  "TsCouplerClient_calculateRateAndOffset e ts ro = rate_loop e ts tuple_zero ro"

text \<open>A round of the task; it waits (\<open>None\<close>) for a notification.\<close>

definition TsCouplerClient_task :: "ts_env \<Rightarrow> TSCouplerClient_Obj \<Rightarrow> TSCouplerClient_Obj option" where
  "TsCouplerClient_task e ob =
     (if timeSyncSem ob = 0 then None
      else (let (r, off) = TsCouplerClient_calculateRateAndOffset e (tuples ob) (ts_rate ob, ts_offset ob)
            in Some (ob\<lparr>timeSyncSem := timeSyncSem ob - 1, ts_rate := r, ts_offset := off\<rparr>)))"

text \<open>\<open>gtc\<close> is the counter of the GTC.  Converting a negative number back is undefined in C; here it wraps around.\<close>

definition TsCouplerClient_getSynchronizedTime :: "ts_env \<Rightarrow> TsCouplerClient_TimerType \<Rightarrow> u64 \<Rightarrow> u32 \<Rightarrow> u32 \<Rightarrow> TSCouplerClient_Obj \<Rightarrow> u64" where
  "TsCouplerClient_getSynchronizedTime e ty gtc cnt reload ob =
     (let lt = (if ty = TIMER_TYPE_GTC then gtc else local_time cnt reload ob); r = tsRound e;
          x = r (r (dbl e lt * ts_rate ob) + ts_offset ob)
      in word_of_int (if x < 0 then \<lceil>x\<rceil> else \<lfloor>x\<rfloor>))"

section \<open>Runs\<close>

datatype ts_event = Tick u32 u32 | Push u64 | TaskRound

primrec ts_step :: "ts_env \<Rightarrow> ts_event \<Rightarrow> TSCouplerClient_Obj \<Rightarrow> TSCouplerClient_Obj option" where
  "ts_step e (Tick cnt reload) ob = Some (TsCouplerClient_TmrIsr cnt reload ob)"
| "ts_step e (Push t) ob = TsCouplerClient_HwPushNotifyFxn t ob"
| "ts_step e TaskRound ob = TsCouplerClient_task e ob"

primrec ts_run :: "ts_env \<Rightarrow> ts_event list \<Rightarrow> TSCouplerClient_Obj \<Rightarrow> TSCouplerClient_Obj option" where
  "ts_run e [] ob = Some ob"
| "ts_run e (x # xs) ob = Option.bind (ts_step e x ob) (ts_run e xs)"

fun pushes :: "ts_event list \<Rightarrow> nat" where
  "pushes [] = 0"
| "pushes (Push t # xs) = Suc (pushes xs)"
| "pushes (_ # xs) = pushes xs"

text \<open>The first two entries are complete, the rate and offset are theirs, and the table has not come round.\<close>

definition settled :: "ts_env \<Rightarrow> TsCouplerClient_timeSyncTuple \<Rightarrow> TsCouplerClient_timeSyncTuple \<Rightarrow> TSCouplerClient_Obj \<Rightarrow> bool" where
  "settled e t0 t1 ob \<longleftrightarrow> valid_tuple t0 \<and> valid_tuple t1 \<and> length (tuples ob) = TS_COUPLER_CLIENT_TUPLES_MAX_TUPLES
     \<and> tuples ob ! 0 = t0 \<and> tuples ob ! 1 = t1 \<and> (ts_rate ob, ts_offset ob) = rate_offset e t0 t1
     \<and> 2 \<le> unat (tupleIndex ob) \<and> unat (tupleIndex ob) < TS_COUPLER_CLIENT_TUPLES_MAX_TUPLES"

lemma rate_first_two:
  assumes "valid_tuple t0" "valid_tuple t1"
  shows "TsCouplerClient_calculateRateAndOffset e (t0 # t1 # ts) ro = rate_offset e t0 t1"
  using assms by (simp add: TsCouplerClient_calculateRateAndOffset_def tuple_zero_def valid_tuple_def)

lemma upd_tuple_simps [simp]:
  "tuples (upd_tuple i f ob) = (tuples ob)[i := f (tuples ob ! i)]" "tupleIndex (upd_tuple i f ob) = tupleIndex ob"
  "ts_rate (upd_tuple i f ob) = ts_rate ob" "ts_offset (upd_tuple i f ob) = ts_offset ob" "timerType (upd_tuple i f ob) = timerType ob"
  "timeSyncSem (upd_tuple i f ob) = timeSyncSem ob" "tsCfg (upd_tuple i f ob) = tsCfg ob" "gtc_step (upd_tuple i f ob) = gtc_step ob"
  by (simp_all add: upd_tuple_def gtc_step_def)

lemma ts_issue_simps [simp]:
  "tuples (ts_issue c ob) = tuples ob" "tupleIndex (ts_issue c ob) = tupleIndex ob" "ts_rate (ts_issue c ob) = ts_rate ob"
  "ts_offset (ts_issue c ob) = ts_offset ob" "timerType (ts_issue c ob) = timerType ob" "timeSyncSem (ts_issue c ob) = timeSyncSem ob"
  "tsCfg (ts_issue c ob) = tsCfg ob" "gtc_step (ts_issue c ob) = gtc_step ob"
  by (simp_all add: ts_issue_def gtc_step_def)

lemma index_step: "unat (tupleIndex ob) < TS_COUPLER_CLIENT_TUPLES_MAX_TUPLES + 1 \<Longrightarrow> unat (tupleIndex ob + 1) = Suc (unat (tupleIndex ob))"
  by (simp add: unat_word_ariths TS_COUPLER_CLIENT_TUPLES_MAX_TUPLES_def)

text \<open>What a notification writes: one entry, both of its times in the GTC's mode.\<close>

lemma push_entry:
  assumes "TsCouplerClient_HwPushNotifyFxn t ob = Some ob'"
  shows "\<exists>f. tuples ob' = (tuples ob)[tuple_at ob := f]" "tupleIndex ob' = tupleIndex ob + 1" "ts_rate ob' = ts_rate ob"
    "ts_offset ob' = ts_offset ob" "timerType ob' = timerType ob" "tsCfg ob' = tsCfg ob"
  using assms by (auto simp: TsCouplerClient_HwPushNotifyFxn_def Let_def bind_eq_Some_conv split: if_splits)

lemma settled_step:
  assumes s: "settled e t0 t1 ob" and n: "unat (tupleIndex ob) + pushes [x] < TS_COUPLER_CLIENT_TUPLES_MAX_TUPLES"
    and run: "ts_step e x ob = Some ob'"
  shows "settled e t0 t1 ob' \<and> unat (tupleIndex ob') = unat (tupleIndex ob) + pushes [x]"
proof -
  have at: "tuple_at ob = unat (tupleIndex ob)" and ne: "tuple_at ob \<noteq> 0" "tuple_at ob \<noteq> 1"
    using s by (simp_all add: tuple_at_def settled_def)
  show ?thesis
  proof (cases x)
    case (Tick cnt reload)
    with run s ne show ?thesis
      by (auto simp: TsCouplerClient_TmrIsr_def Let_def settled_def tuple_at_def upd_tuple_def)
  next
    case (Push t)
    with push_entry [of t ob ob'] run obtain f where f: "tuples ob' = (tuples ob)[tuple_at ob := f]" by auto
    with Push push_entry [of t ob ob'] run s ne n index_step [of ob] show ?thesis
      by (auto simp: settled_def)
  next
    case TaskRound
    from s obtain ts where ts: "tuples ob = t0 # t1 # ts"
      by (cases "tuples ob"; cases "tl (tuples ob)") (auto simp: settled_def TS_COUPLER_CLIENT_TUPLES_MAX_TUPLES_def)
    with s have "TsCouplerClient_calculateRateAndOffset e (tuples ob) (ts_rate ob, ts_offset ob) = (ts_rate ob, ts_offset ob)"
      by (simp add: rate_first_two settled_def)
    with TaskRound run have "ob' = ob\<lparr>timeSyncSem := timeSyncSem ob - 1\<rparr>"
      by (simp add: TsCouplerClient_task_def split: if_splits)
    with TaskRound s show ?thesis by (simp add: settled_def)
  qed
qed

text \<open>Property C23 (safety).  Once the first two entries are complete, the rate and the offset stay theirs: whatever times are
  entered after them and however the timer, the notifications and the task take turns, up to the hundredth
  entry nothing changes the conversion of the clock.\<close>

theorem ts_frozen:
  assumes "settled e t0 t1 ob" "unat (tupleIndex ob) + pushes xs < TS_COUPLER_CLIENT_TUPLES_MAX_TUPLES" "ts_run e xs ob = Some ob'"
  shows "(ts_rate ob', ts_offset ob') = rate_offset e t0 t1 \<and> unat (tupleIndex ob') = unat (tupleIndex ob) + pushes xs"
  using assms
proof (induction xs arbitrary: ob)
  case Nil
  then show ?case by (simp add: settled_def)
next
  case (Cons x xs)
  then obtain ob1 where x: "ts_step e x ob = Some ob1" "ts_run e xs ob1 = Some ob'" by (auto simp: bind_eq_Some_conv)
  have p: "pushes (x # xs) = pushes [x] + pushes xs" by (cases x) simp_all
  have "settled e t0 t1 ob1 \<and> unat (tupleIndex ob1) = unat (tupleIndex ob) + pushes [x]"
    by (rule settled_step [OF Cons.prems(1) _ x(1)]) (use Cons.prems(2) p in simp)
  with Cons.IH [of ob1] x(2) Cons.prems(2) p show ?case by simp
qed

lemma push_gtc:
  assumes "timerType ob = TIMER_TYPE_GTC" "unat (tupleIndex ob) \<le> TS_COUPLER_CLIENT_TUPLES_MAX_TUPLES + 1"
  shows "(\<exists>ob'. TsCouplerClient_HwPushNotifyFxn t ob = Some ob') \<longleftrightarrow> unat (tupleIndex ob) \<le> TS_COUPLER_CLIENT_TUPLES_MAX_TUPLES"
proof (cases "tupleIndex ob = 0")
  case True
  with assms show ?thesis by (simp add: TsCouplerClient_HwPushNotifyFxn_def Let_def)
next
  case False
  have k: "unat (tupleIndex ob - 1) = unat (tupleIndex ob) - 1"
    using False by (rule unat_minus_one)
  have nz: "unat (tupleIndex ob) \<noteq> 0" using False by (simp add: unat_eq_0)
  let ?u = "upd_tuple (tuple_at ob) (\<lambda>u. u\<lparr>phcTime := t\<rparr>) ob"
  have g: "gtc_time ?u \<noteq> None \<longleftrightarrow> unat (tupleIndex ob) \<le> TS_COUPLER_CLIENT_TUPLES_MAX_TUPLES"
    using nz by (simp add: gtc_time_def Let_def k) linarith
  have "(\<exists>ob'. TsCouplerClient_HwPushNotifyFxn t ob = Some ob') \<longleftrightarrow> gtc_time ?u \<noteq> None"
    using False assms(1) by (cases "gtc_time ?u") (simp_all add: TsCouplerClient_HwPushNotifyFxn_def Let_def)
  with g show ?thesis by simp
qed

lemma pushes_gtc:
  assumes "timerType ob = TIMER_TYPE_GTC" "unat (tupleIndex ob) \<le> TS_COUPLER_CLIENT_TUPLES_MAX_TUPLES + 1"
  shows "(\<exists>ob'. ts_run e (map Push ts) ob = Some ob') \<longleftrightarrow> unat (tupleIndex ob) + length ts \<le> TS_COUPLER_CLIENT_TUPLES_MAX_TUPLES + 1"
  using assms
proof (induction ts arbitrary: ob)
  case Nil
  then show ?case by simp
next
  case (Cons t ts)
  show ?case
  proof (cases "unat (tupleIndex ob) \<le> TS_COUPLER_CLIENT_TUPLES_MAX_TUPLES")
    case True
    then obtain ob1 where p: "TsCouplerClient_HwPushNotifyFxn t ob = Some ob1" using push_gtc [OF Cons.prems] by blast
    have "unat (tupleIndex ob1) = Suc (unat (tupleIndex ob))" "timerType ob1 = TIMER_TYPE_GTC"
      using push_entry(2,5) [OF p] index_step [of ob] True Cons.prems(1) by simp_all
    with Cons.IH [of ob1] p True show ?thesis by simp
  next
    case False
    then have "TsCouplerClient_HwPushNotifyFxn t ob = None" using push_gtc [OF Cons.prems] by (metis not_None_eq)
    with False show ?thesis by simp
  qed
qed

text \<open>Property C37 (bounds).  With the GTC the entry before the current one is looked up by the index that counts all notifications: the
  first 101 notifications are entered, and the one after them reads beyond the table of 100 entries.\<close>

theorem ts_overrun:
  assumes "TsCouplerClient_init te TIMER_TYPE_GTC cs = Some ob"
  shows "(\<exists>ob'. ts_run e (map Push ts) (TsCouplerClient_start cfg ob) = Some ob') \<longleftrightarrow> length ts \<le> TS_COUPLER_CLIENT_TUPLES_MAX_TUPLES + 1"
proof -
  have "timerType (TsCouplerClient_start cfg ob) = TIMER_TYPE_GTC" "tupleIndex (TsCouplerClient_start cfg ob) = 0"
    using assms by (auto simp: TsCouplerClient_init_def ts_must_def Let_def TsCouplerClient_start_def ts_issue_def split: if_splits)
  with pushes_gtc [of "TsCouplerClient_start cfg ob" e ts] show ?thesis by simp
qed

section \<open>An instance\<close>

text \<open>A timer of 1 ms and 1 MHz that runs with the switch's nanoseconds, without rounding; two notifications have been entered.\<close>

definition ts_demo_env :: ts_env where
  "ts_demo_env = \<lparr>tsRound = (\<lambda>x. x), tsRoundf = (\<lambda>x. x), tsFreqLo = 1000000, tsFreqHi = 0, tsMade = (\<lambda>_. True)\<rparr>"

definition ts_demo :: TSCouplerClient_Obj where
  "ts_demo = \<lparr>timerType = TIMER_TYPE_GPTIMER, tsCfg = cfg_zero, tupleIndex = 2,
     tuples = \<lparr>systemTime = 1000, phcTime = 1000005\<rparr> # \<lparr>systemTime = 2000, phcTime = 2000005\<rparr> # replicate 98 tuple_zero, timeSyncSem = 0,
     syncEventCount = 2, syncPeriodTicks = 1000, ts_rate = 1000, ts_offset = 5, tsCalls = []\<rparr>"

lemma ts_demo_settled:
  "settled ts_demo_env \<lparr>systemTime = 1000, phcTime = 1000005\<rparr> \<lparr>systemTime = 2000, phcTime = 2000005\<rparr> ts_demo"
  by (simp add: settled_def ts_demo_def valid_tuple_def rate_offset_def dbl_def ts_demo_env_def Let_def TS_COUPLER_CLIENT_TUPLES_MAX_TUPLES_def)

lemma gptimer_runs:
  assumes "timerType ob = TIMER_TYPE_GPTIMER"
  shows "\<exists>ob'. ts_run e [Tick cnt reload, Push t, TaskRound] ob = Some ob'"
  using assms by (simp add: TsCouplerClient_TmrIsr_def TsCouplerClient_HwPushNotifyFxn_def TsCouplerClient_task_def Let_def case_prod_beta)

text \<open>The third pair, half a microsecond apart from the first two, makes no difference.\<close>

theorem ts_frozen_witness:
  "\<exists>ob'. ts_run ts_demo_env [Tick 0 0, Push 3000505, TaskRound] ts_demo = Some ob' \<and> ts_rate ob' = 1000 \<and> ts_offset ob' = 5"
proof -
  have "timerType ts_demo = TIMER_TYPE_GPTIMER" by (simp add: ts_demo_def)
  from gptimer_runs [OF this] obtain ob' where run: "ts_run ts_demo_env [Tick 0 0, Push 3000505, TaskRound] ts_demo = Some ob'" by blast
  have "unat (tupleIndex ts_demo) + pushes [Tick 0 0, Push 3000505, TaskRound] < TS_COUPLER_CLIENT_TUPLES_MAX_TUPLES"
    by (simp add: ts_demo_def TS_COUPLER_CLIENT_TUPLES_MAX_TUPLES_def)
  from ts_frozen [OF ts_demo_settled this run] run show ?thesis
    by (auto simp: rate_offset_def dbl_def ts_demo_env_def Let_def)
qed

theorem ts_overrun_witness:
  "\<not> (\<exists>ob'. ts_run ts_demo_env (map Push (replicate 102 7)) (TsCouplerClient_start cfg_zero
       (the (TsCouplerClient_init ts_demo_env TIMER_TYPE_GTC []))) = Some ob')"
proof -
  obtain ob where ob: "TsCouplerClient_init ts_demo_env TIMER_TYPE_GTC [] = Some ob"
    by (simp add: TsCouplerClient_init_def ts_must_def ts_demo_env_def Let_def)
  show ?thesis
    using ts_overrun [OF ob, of ts_demo_env "replicate 102 7" cfg_zero] unfolding ob option.sel
    by (simp add: TS_COUPLER_CLIENT_TUPLES_MAX_TUPLES_def)
qed

end
