(* ===== verification/HostNetif.thy ===== *)
theory HostNetif
  imports Firmware "HOL-Library.Monad_Syntax"
begin

text \<open>
  The network interface of the core that runs the server (\<^verbatim>\<open>utils/ethfw_callbacks/src/ethfw_callbacks_lwipif.c\<close>):
  what lwIP's driver asks for when it opens and closes the interface, the closing and reopening of
  its DMA channels around a reset of the switch, the route of the packets that need the server's
  help (packet duplication with VEPA, ARP requests without), and the two handlers of these packets.

  A DMA handle is the number of the call that opened the channel.  A failed \<^verbatim>\<open>EnetAppUtils_assert\<close>
  is \<open>None\<close>, unless \<open>utilsAssert\<close> is off.
\<close>

section \<open>Data\<close>

datatype pkt_fxn = HandlePacketDuplication | HandleArp

record HostRx =
  hrFlow :: "nat option"
  hrStart :: u32
  hrIdx :: u32
  hrMac :: eth_addr
  hrDisableEvent :: bool
  hrHandlePkt :: "pkt_fxn option"
  hrHandleErr :: bool

record HostIn =                        \<comment> \<open>\<^verbatim>\<open>LwipifEnetAppIf_GetHandleInArgs\<close>: the numbers of packets\<close>
  hiTxPkts :: u32
  hiRx0Pkts :: u32
  hiRx1Pkts :: u32

record HostOut =                       \<comment> \<open>\<^verbatim>\<open>LwipifEnetAppIf_GetHandleOutArgs\<close>\<close>
  hoCoreId :: u32
  hoCoreKey :: u32
  hoHandle :: bool                     \<comment> \<open>\<^verbatim>\<open>handleArg\<close> is not NULL\<close>
  hoRxMtu :: u32
  hoTxMtu :: "u32 list"
  hoTxCsum :: bool
  hoRxCsum :: bool
  hoTimer :: u32
  hoTxCh :: "nat option"
  hoTxChNum :: u32
  hoTxPortNum :: u32
  hoTxDisableEvent :: bool
  hoRx0 :: HostRx
  hoRx1 :: HostRx

record HostRel =                       \<comment> \<open>\<^verbatim>\<open>LwipifEnetAppIf_ReleaseHandleInfo\<close>\<close>
  hlOut :: HostOut                     \<comment> \<open>the fields copied from the open interface\<close>
  hlTxFree :: nat                      \<comment> \<open>lwIP's call-backs for the packets, by number\<close>
  hlRx0Free :: nat
  hlRx1Free :: nat

definition CPSW_REMOTE_APP_PACKET_POLL_PERIOD_US_host :: u32 where "CPSW_REMOTE_APP_PACKET_POLL_PERIOD_US_host = 1000"

section \<open>Calls\<close>

definition dma_open :: "env \<Rightarrow> dma_call \<Rightarrow> 'a world_scheme \<Rightarrow> nat option \<times> 'a world_scheme" where
  "dma_open e c s = (if flag_of e (calls s) (Dma c) then Some (length (calls s)) else None, issue (Dma c) s)"

definition set_vepa :: "EthFwVepa_Obj \<Rightarrow> 'a vepa_st_scheme \<Rightarrow> 'a vepa_st_scheme" where
  "set_vepa ob s = s\<lparr>gEthFwVepaObj := ob\<rparr>"

definition arp_match :: pol_match where
  "arp_match = MatchMacDstEtherType bcast_mac 0 ETHTYPE_ARP"

section \<open>The route of the packets for the server\<close>

definition route_open ::
    "env \<Rightarrow> u32 \<Rightarrow> u32 \<Rightarrow> u32 \<Rightarrow> HostRx \<Rightarrow> 'a world_scheme \<Rightarrow> int \<times> HostRx \<times> 'a world_scheme" where
  "route_open e key core pkts rx s =
     (let ok = flag_of e (calls s) (Dma Dma_getHandle); s = issue (Dma Dma_getHandle) s in
      if \<not> ok then (ETHFW_EFAIL, rx, s)
      else
        (let w = word_of e (calls s) (Rm_allocRxFlow key core);
             (status, s) = call_st e (Rm_allocRxFlow key core) s in
         if status \<noteq> ETHFW_SOK then (status, rx, s)
         else
           (let (h, s) = dma_open e (Dma_openRxFlow (w 0) (w 1) pkts) s
            in (ETHFW_SOK, rx\<lparr>hrFlow := h, hrStart := w 0, hrIdx := w 1\<rparr>, s))))"

definition EthFwCallbacks_setupPacketDuplicationRoute ::
    "env \<Rightarrow> u32 \<Rightarrow> u32 \<Rightarrow> u32 \<Rightarrow> HostRx \<Rightarrow> 'a vepa_st_scheme \<Rightarrow> int \<times> HostRx \<times> 'a vepa_st_scheme" where
  "EthFwCallbacks_setupPacketDuplicationRoute e key core pkts rx s =
     (let (status, rx, s) = route_open e key core pkts rx s in
      if status \<noteq> ETHFW_SOK then (status, rx, s)
      else
        (let (status, ob) = EthFwVepa_setPacketDuplicationFlowIdx (hrIdx rx) (gEthFwVepaObj s)
         in (status, rx, set_vepa ob s)))"

definition EthFwCallbacks_setupArpRoute ::
    "env \<Rightarrow> u32 \<Rightarrow> u32 \<Rightarrow> u32 \<Rightarrow> HostRx \<Rightarrow> 'a vepa_st_scheme \<Rightarrow> int \<times> HostRx \<times> 'a vepa_st_scheme" where
  "EthFwCallbacks_setupArpRoute e key core pkts rx s =
     (let (status, rx, s) = route_open e key core pkts rx s in
      if status \<noteq> ETHFW_SOK then (status, rx, s)
      else
        (let (status, s) = call_st e (Ioctl core (ALE_SET_POLICER arp_match (hrIdx rx))) s
         in (status, rx, s)))"

definition route_close :: "env \<Rightarrow> u32 \<Rightarrow> u32 \<Rightarrow> HostRx \<Rightarrow> nat \<Rightarrow> 'a world_scheme \<Rightarrow> 'a world_scheme" where
  "route_close e key core rx free s =
     (if hrFlow rx = None then s
      else
        (let s = issue (Dma (Dma_disableRxEvent (hrFlow rx))) s;
             (status, s) = call_st e (Dma (Dma_closeRxFlow (hrFlow rx))) s in
         if status = ETHFW_SOK
         then issue (Dma (FreePktsCb free)) (issue (Rm_freeRxFlow key core (hrIdx rx)) s) else s))"

definition EthFwCallbacks_teardownPacketDuplicationRoute ::
    "env \<Rightarrow> u32 \<Rightarrow> u32 \<Rightarrow> HostRx \<Rightarrow> nat \<Rightarrow> 'a vepa_st_scheme \<Rightarrow> 'a vepa_st_scheme" where
  "EthFwCallbacks_teardownPacketDuplicationRoute e key core rx free s =
     (let s = issue (Dma Dma_getHandle) s;
          s = set_vepa (EthFwVepa_clearPacketDuplicationFlowIdx (gEthFwVepaObj s)) s
      in route_close e key core rx free s)"

definition EthFwCallbacks_teardownArpRoute ::
    "env \<Rightarrow> u32 \<Rightarrow> u32 \<Rightarrow> HostRx \<Rightarrow> nat \<Rightarrow> 'a vepa_st_scheme \<Rightarrow> 'a vepa_st_scheme" where
  "EthFwCallbacks_teardownArpRoute e key core rx free s =
     route_close e key core rx free (issue (Ioctl core (ALE_DEL_POLICER arp_match DelEtherType)) s)"

text \<open>The second flow when the interface is opened: an error is printed, and the packets get no handler.\<close>

definition host_route :: "env \<Rightarrow> u32 \<Rightarrow> u32 \<Rightarrow> HostRx \<Rightarrow> 'a vepa_st_scheme \<Rightarrow> HostRx \<times> 'a vepa_st_scheme" where
  "host_route e key pkts rx s =
     (if vepaSupport e
      then (let (status, rx, s) = EthFwCallbacks_setupPacketDuplicationRoute e key (selfCoreId e) pkts (rx\<lparr>hrDisableEvent := True\<rparr>) s
            in (if status \<noteq> ETHFW_SOK then rx else rx\<lparr>hrHandlePkt := Some HandlePacketDuplication\<rparr>, s))
      else if proxyArp e
      then (let (status, rx, s) = EthFwCallbacks_setupArpRoute e key (selfCoreId e) pkts (rx\<lparr>hrDisableEvent := True\<rparr>) s
            in (if status \<noteq> ETHFW_SOK then rx else rx\<lparr>hrHandlePkt := Some HandleArp\<rparr>, s))
      else (rx, s))"

section \<open>Opening and closing the interface\<close>

definition EthFwCallbacks_lwipifCpswGetHandle ::
    "bool \<Rightarrow> env \<Rightarrow> HostIn \<Rightarrow> HostOut \<Rightarrow> 'a vepa_st_scheme \<Rightarrow> (HostOut \<times> 'a vepa_st_scheme) option" where
  "EthFwCallbacks_lwipifCpswGetHandle csumErrata e hi ho s =
     (if mcuPlusSdk e then do { s \<leftarrow> fw_assert e False s; Some (ho, s) }
      else do {
        let mbox = flag_of e (calls s) Mcm_getCmdIf;
        s \<leftarrow> fw_assert e mbox (issue Mcm_getCmdIf s);
        let hEnet = flag_of e (calls s) Mcm_acquireHandleInfo;
        let s = issue Mcm_acquireHandleInfo s;
        let att = word_of e (calls s) (Mcm_coreAttach (selfCoreId e));
        let s = issue (Mcm_coreAttach (selfCoreId e)) s;
        let tx = Utils_openTxCh (att 0) (selfCoreId e) (hiTxPkts hi);
        let txNum = word_of e (calls s) (Dma tx) 0;
        let (txCh, s) = dma_open e tx s;
        let rx = Utils_openRxFlow True (att 0) (selfCoreId e) (hiRx0Pkts hi) (att 1);
        let w = word_of e (calls s) (Dma rx);
        let mac = mac_of e (calls s) (Dma rx);
        let (flow, s) = dma_open e rx s;
        let rx0 = (hoRx0 ho)\<lparr>hrFlow := flow, hrStart := w 0, hrIdx := w 1, hrMac := mac, hrDisableEvent := True,
                             hrHandlePkt := None, hrHandleErr := True\<rparr>;
        let (rx1, s) = host_route e (att 0) (hiRx1Pkts hi) (hoRx1 ho) s;
        s \<leftarrow> fw_assert e (hrDisableEvent rx0 = hrDisableEvent rx1) s;
        let rx1 = (if vepaSupport e \<or> proxyArp e then rx1\<lparr>hrHandleErr := True\<rparr> else rx1);
        Some (ho\<lparr>hoCoreId := selfCoreId e, hoCoreKey := att 0, hoHandle := hEnet, hoRxMtu := att 1,
                 hoTxMtu := map (\<lambda>i. att (i + 2)) [0..<txMtuNum e], hoTxCsum := \<not> csumErrata, hoRxCsum := \<not> csumErrata,
                 hoTimer := CPSW_REMOTE_APP_PACKET_POLL_PERIOD_US_host, hoTxCh := txCh, hoTxChNum := txNum,
                 hoTxPortNum := macPortInv e, hoTxDisableEvent := True, hoRx0 := rx0, hoRx1 := rx1\<rparr>, s)
      })"

definition EthFwCallbacks_lwipifCpswReleaseHandle ::
    "env \<Rightarrow> HostRel \<Rightarrow> 'a vepa_st_scheme \<Rightarrow> 'a vepa_st_scheme option" where
  "EthFwCallbacks_lwipifCpswReleaseHandle e hl s =
     (let ho = hlOut hl; key = hoCoreKey ho; core = hoCoreId ho; rx0 = hoRx0 ho in
      if mcuPlusSdk e then fw_assert e False s
      else do {
        let mbox = flag_of e (calls s) Mcm_getCmdIf;
        s \<leftarrow> fw_assert e mbox (issue Mcm_getCmdIf s);
        let s = (if vepaSupport e then EthFwCallbacks_teardownPacketDuplicationRoute e key core (hoRx1 ho) (hlRx1Free hl) s
                 else if proxyArp e then EthFwCallbacks_teardownArpRoute e key core (hoRx1 ho) (hlRx1Free hl) s
                 else s);
        let s = issue (Dma (Utils_closeTxCh key core (hoTxCh ho) (hoTxChNum ho))) s;
        let s = issue (Dma (FreePktsCb (hlTxFree hl))) s;
        let s = issue (Dma (Utils_closeRxFlow True key core (hrStart rx0) (hrIdx rx0) (hrMac rx0) (hrFlow rx0))) s;
        let s = issue (Dma (FreePktsCb (hlRx0Free hl))) s;
        let s = issue (Mcm_coreDetach core key) s;
        Some (issue Mcm_releaseCmdIf (issue Mcm_releaseHandleInfo s))
      })"

section \<open>Around a reset of the switch\<close>

definition LwipifEnetAppCb_openDma_host ::
    "env \<Rightarrow> HostIn \<Rightarrow> HostOut \<Rightarrow> 'a vepa_st_scheme \<Rightarrow> (HostOut \<times> 'a vepa_st_scheme) option" where
  "LwipifEnetAppCb_openDma_host e hi ho s = do {
     s \<leftarrow> fw_assert e (hoHandle ho) s;
     let ok = flag_of e (calls s) (Dma Dma_getHandle);
     s \<leftarrow> fw_assert e ok (issue (Dma Dma_getHandle) s);
     let (txCh, s) = dma_open e (Dma_openTxCh (hoTxChNum ho) (hiTxPkts hi)) s;
     s \<leftarrow> fw_assert e (txCh \<noteq> None) s;
     let rx0 = hoRx0 ho;
     let (flow0, s) = dma_open e (Dma_openRxFlow (hrStart rx0) (hrIdx rx0) (hiRx0Pkts hi)) s;
     s \<leftarrow> fw_assert e (flow0 \<noteq> None) s;
     let (status, s) = call_st e (Rm_regDfltRxFlow (hoCoreKey ho) (selfCoreId e) (hrStart rx0) (hrIdx rx0)) s;
     s \<leftarrow> fw_assert e (status = ETHFW_SOK) s;
     let ho = ho\<lparr>hoTxCh := txCh, hoRx0 := rx0\<lparr>hrFlow := flow0, hrHandlePkt := None\<rparr>\<rparr>;
     if \<not> vepaSupport e \<and> \<not> proxyArp e then Some (ho, s)
     else do {
       let rx1 = hoRx1 ho;
       let (flow1, s) = dma_open e (Dma_openRxFlow (hrStart rx1) (hrIdx rx1) (hiRx1Pkts hi)) s;
       s \<leftarrow> fw_assert e (flow1 \<noteq> None) s;
       if vepaSupport e
       then Some (ho\<lparr>hoRx1 := rx1\<lparr>hrFlow := flow1, hrHandlePkt := Some HandlePacketDuplication\<rparr>\<rparr>,
                  set_vepa (snd (EthFwVepa_setPacketDuplicationFlowIdx (hrIdx rx1) (gEthFwVepaObj s))) s)
       else Some (ho\<lparr>hoRx1 := rx1\<lparr>hrFlow := flow1, hrHandlePkt := Some HandleArp\<rparr>\<rparr>,
                  if status = ETHFW_SOK
                  then issue (Ioctl (selfCoreId e) (ALE_SET_POLICER arp_match (hrIdx rx1))) s else s)
     }
   }"

definition LwipifEnetAppCb_closeDma_host :: "env \<Rightarrow> HostRel \<Rightarrow> 'a vepa_st_scheme \<Rightarrow> 'a vepa_st_scheme option" where
  "LwipifEnetAppCb_closeDma_host e hl s = do {
     let ho = hlOut hl;
     let rx0 = hoRx0 ho;
     s \<leftarrow> fw_assert e (hoHandle ho) s;
     s \<leftarrow> (if \<not> vepaSupport e \<and> \<not> proxyArp e then Some s
           else do {
             let s = (if vepaSupport e then set_vepa (EthFwVepa_clearPacketDuplicationFlowIdx (gEthFwVepaObj s)) s
                      else issue (Ioctl (hoCoreId ho) (ALE_DEL_POLICER arp_match DelEtherType)) s);
             let (status, s) = call_st e (Dma (Dma_closeRxFlow (hrFlow (hoRx1 ho)))) s;
             s \<leftarrow> fw_assert e (status = ETHFW_SOK) s;
             Some (issue (Dma (FreePktsCb (hlRx1Free hl))) s)
           });
     let s = issue (Dma (Dma_disableTxEvent (hoTxCh ho))) s;
     let (status, s) = call_st e (Dma (Dma_closeTxCh (hoTxCh ho))) s;
     s \<leftarrow> fw_assert e (status = ETHFW_SOK) s;
     let s = issue (Dma (FreePktsCb (hlTxFree hl))) s;
     let (status, s) = call_st e (Rm_unregDfltRxFlow (hoCoreKey ho) (hoCoreId ho) (hrStart rx0) (hrIdx rx0)) s;
     s \<leftarrow> fw_assert e (status = ETHFW_SOK) s;
     let (status, s) = call_st e (Dma (Dma_closeRxFlow (hrFlow rx0))) s;
     s \<leftarrow> fw_assert e (status = ETHFW_SOK) s;
     Some (issue (Dma (FreePktsCb (hlRx0Free hl))) s)
   }"

section \<open>The handlers of the received packets\<close>

text \<open>
  The packet is the octets of \<^verbatim>\<open>pbuf->payload\<close>.  The result tells lwIP whether the packet was
  consumed.  Neither handler looks at the length of the packet.
\<close>

definition EthFwCallbacks_handlePacketDuplicationRxPktFxn ::
    "env \<Rightarrow> u8 list \<Rightarrow> 'a vepa_st_scheme \<Rightarrow> bool \<times> 'a vepa_st_scheme" where
  "EthFwCallbacks_handlePacketDuplicationRxPktFxn e pkt s =
     (False, snd (EthFwVepa_sendRaw e pkt (rd_mac (drop 6 pkt)) (rd_mac pkt) s))"

definition ARP_REPLY :: u16 where "ARP_REPLY = 2"

definition EthFwCallbacks_handleArpRxPktFxn ::
    "env \<Rightarrow> u8 list \<Rightarrow> 'a vepa_st_scheme \<Rightarrow> bool \<times> 'a vepa_st_scheme" where
  "EthFwCallbacks_handleArpRxPktFxn e pkt s =
     (let tagged = (rd16_at pkt 12 = ETHTYPE_VLAN);
          off = (if tagged then 14 + 4 else 14);
          vlanId = (if tagged then rd16_at pkt 14 AND 0xFFF else 0);
          s = chk_idx OobRead (off + 27) (length pkt) s;
          srcHw = rd_mac (drop (off + 8) pkt);
          srcIp = rd_ip_at pkt (off + 14);
          dstIp = rd_ip_at pkt (off + 24) in
      case EthFwArp_getHwAddr e dstIp vlanId (gEthFwArpObj s) of
        (status, hw) \<Rightarrow>
          if status = ETHFW_SOK
          then (True, EthFwArp_sendRaw e (the hw) srcHw (the hw) dstIp srcHw srcIp vlanId ARP_REPLY s)
          else (False, s))"

section \<open>The open channels\<close>

text \<open>The handles of the channels that a sequence of calls has opened and not yet closed.\<close>

fun dma_opens :: "dma_call \<Rightarrow> bool" where
  "dma_opens (Utils_openTxCh _ _ _) = True"
| "dma_opens (Utils_openRxFlow _ _ _ _ _) = True"
| "dma_opens (Dma_openTxCh _ _) = True"
| "dma_opens (Dma_openRxFlow _ _ _) = True"
| "dma_opens _ = False"

text \<open>Which handle a call closes, and whether the driver can refuse.\<close>

fun dma_closes :: "dma_call \<Rightarrow> (nat option \<times> bool) option" where
  "dma_closes (Utils_closeTxCh _ _ h _) = Some (h, False)"
| "dma_closes (Utils_closeRxFlow _ _ _ _ _ _ h) = Some (h, False)"
| "dma_closes (Dma_closeTxCh h) = Some (h, True)"
| "dma_closes (Dma_closeRxFlow h) = Some (h, True)"
| "dma_closes _ = None"

definition dma_effect :: "env \<Rightarrow> call list \<Rightarrow> dma_call \<Rightarrow> nat set \<Rightarrow> nat set" where
  "dma_effect e hist d L =
     (if dma_opens d then (if flag_of e hist (Dma d) then insert (length hist) L else L)
      else case dma_closes d of
        None \<Rightarrow> L
      | Some (h, may_fail) \<Rightarrow>
          if may_fail \<and> status_of e hist (Dma d) \<noteq> ETHFW_SOK then L else L - set_option h)"

fun chan_step :: "env \<Rightarrow> call \<Rightarrow> call list \<times> nat set \<Rightarrow> call list \<times> nat set" where
  "chan_step e c (hist, L) = (hist @ [c], case c of Dma d \<Rightarrow> dma_effect e hist d L | _ \<Rightarrow> L)"

definition open_chans :: "env \<Rightarrow> call list \<Rightarrow> nat set" where
  "open_chans e cs = snd (fold (chan_step e) cs ([], {}))"

lemma chan_fold_fst: "fst (fold (chan_step e) cs (h, L)) = h @ cs"
  by (induction cs arbitrary: h L) simp_all

lemma open_chans_snoc: "open_chans e (cs @ [c]) = (case c of Dma d \<Rightarrow> dma_effect e cs d (open_chans e cs) | _ \<Rightarrow> open_chans e cs)"
proof -
  obtain L where "fold (chan_step e) cs ([], {}) = (cs, L)"
    using chan_fold_fst [of e cs "[]" "{}"] by (cases "fold (chan_step e) cs ([], {})") simp
  then show ?thesis by (cases c) (simp_all add: open_chans_def)
qed

lemma open_chans_bound: "i \<in> open_chans e cs \<Longrightarrow> i < length cs"
proof (induction cs rule: rev_induct)
  case Nil then show ?case by (simp add: open_chans_def)
next
  case (snoc c cs)
  then show ?case
    by (cases c) (auto simp: open_chans_snoc dma_effect_def less_Suc_eq split: if_splits option.splits prod.splits)
qed

definition chans :: "env \<Rightarrow> 'a world_scheme \<Rightarrow> nat set" where
  "chans e s = open_chans e (calls s)"

text \<open>What the two kinds of steps do to the open channels.\<close>

lemma chans_issue: "chans e (issue c s) = (case c of Dma d \<Rightarrow> dma_effect e (calls s) d (chans e s) | _ \<Rightarrow> chans e s)"
  unfolding chans_def by (simp add: open_chans_snoc)

lemma chans_open:
  assumes "dma_opens c" "dma_open e c s = (h, s')"
  shows "chans e s' = chans e s \<union> set_option h" "set_option h \<inter> chans e s = {}" "length (calls s) \<le> length (calls s')"
  using assms open_chans_bound [of "length (calls s)" e "calls s"]
  by (auto simp: dma_open_def chans_issue dma_effect_def split: if_splits) (auto simp: chans_def)

lemma chans_frame [simp]: "chans e (set_vepa ob s) = chans e s" "chans e (chk_idx f i n s) = chans e s"
  by (simp_all add: chans_def set_vepa_def)

lemma fw_assert_bind [simp]:
  "Option.bind (fw_assert e b s) f = (if b \<or> \<not> utilsAssert e then f s else None)"
  by (simp add: fw_assert_def)

definition held :: "HostOut \<Rightarrow> nat set" where
  "held ho = set_option (hoTxCh ho) \<union> set_option (hrFlow (hoRx0 ho)) \<union> set_option (hrFlow (hoRx1 ho))"


text \<open>
  The interface \<open>ho\<close> is open beside the channels \<open>L\<close> of others; the handler of the duplicated packets is only in
  place when the table of \<^verbatim>\<open>ethfw_vepa.c\<close> classifies to this interface's flow.
\<close>

definition host_open :: "env \<Rightarrow> nat set \<Rightarrow> HostOut \<Rightarrow> 'a vepa_st_scheme \<Rightarrow> bool" where
  "host_open e L ho s \<longleftrightarrow> chans e s = L \<union> held ho \<and> held ho \<inter> L = {} \<and>
     (\<not> vepaSupport e \<longrightarrow> \<not> proxyArp e \<longrightarrow> hrFlow (hoRx1 ho) = None) \<and>
     (vepaSupport e \<longrightarrow> hrHandlePkt (hoRx1 ho) = Some HandlePacketDuplication \<longrightarrow>
        packetDuplicationFlowIdx (gEthFwVepaObj s) = hrIdx (hoRx1 ho))"

lemma route_open_chans:
  assumes "route_open e key core pkts rx s = (st, rx', s')" "hrFlow rx = None"
  shows "chans e s' = chans e s \<union> set_option (hrFlow rx')" "set_option (hrFlow rx') \<inter> chans e s = {}"
    "hrHandlePkt rx' = hrHandlePkt rx"
proof -
  have q: "chans e (issue (Rm_allocRxFlow key core) (issue (Dma Dma_getHandle) s)) = chans e s"
    "chans e (issue (Dma Dma_getHandle) s) = chans e s"
    by (simp_all add: chans_issue dma_effect_def)
  show "chans e s' = chans e s \<union> set_option (hrFlow rx')" "set_option (hrFlow rx') \<inter> chans e s = {}" "hrHandlePkt rx' = hrHandlePkt rx"
    using assms chans_open [of "Dma_openRxFlow a b pkts" e "issue (Rm_allocRxFlow key core) (issue (Dma Dma_getHandle) s)" for a b] q
    by (auto simp: route_open_def Let_def call_st_def split: if_splits prod.splits; fastforce)+
qed

lemma gVepa_simps [simp]:
  "gEthFwVepaObj (set_vepa ob s) = ob" "gEthFwVepaObj (issue c s) = gEthFwVepaObj s"
  "gEthFwVepaObj (snd (dma_open e d s)) = gEthFwVepaObj s"
  by (simp_all add: set_vepa_def issue_def dma_open_def)

lemma host_route_open:
  assumes "host_route e key pkts rx s = (rx', s')" "hrFlow rx = None" "hrHandlePkt rx = None"
  shows "chans e s' = chans e s \<union> set_option (hrFlow rx')" "set_option (hrFlow rx') \<inter> chans e s = {}"
    "\<not> vepaSupport e \<Longrightarrow> \<not> proxyArp e \<Longrightarrow> hrFlow rx' = None"
    "vepaSupport e \<Longrightarrow> hrHandlePkt rx' = Some HandlePacketDuplication \<Longrightarrow>
       packetDuplicationFlowIdx (gEthFwVepaObj s') = hrIdx rx'"
proof -
  obtain st rx1 s1 where r: "route_open e key (selfCoreId e) pkts (rx\<lparr>hrDisableEvent := True\<rparr>) s = (st, rx1, s1)"
    by (cases "route_open e key (selfCoreId e) pkts (rx\<lparr>hrDisableEvent := True\<rparr>) s") auto
  from route_open_chans [OF r] assms(2,3) have
    l: "chans e s1 = chans e s \<union> set_option (hrFlow rx1)" "set_option (hrFlow rx1) \<inter> chans e s = {}" "hrHandlePkt rx1 = None"
    by simp_all
  show "chans e s' = chans e s \<union> set_option (hrFlow rx')" "set_option (hrFlow rx') \<inter> chans e s = {}"
    using assms l r
    by (auto simp: host_route_def EthFwCallbacks_setupPacketDuplicationRoute_def EthFwCallbacks_setupArpRoute_def
      call_st_def chans_issue split: if_splits prod.splits)
  show "\<not> vepaSupport e \<Longrightarrow> \<not> proxyArp e \<Longrightarrow> hrFlow rx' = None"
    using assms by (simp add: host_route_def split: if_splits)
  show "vepaSupport e \<Longrightarrow> hrHandlePkt rx' = Some HandlePacketDuplication \<Longrightarrow>
       packetDuplicationFlowIdx (gEthFwVepaObj s') = hrIdx rx'"
    using assms l r
    by (auto simp: host_route_def EthFwCallbacks_setupPacketDuplicationRoute_def
      EthFwVepa_setPacketDuplicationFlowIdx_def split: if_splits prod.splits)
qed

lemma getHandle_open:
  assumes "EthFwCallbacks_lwipifCpswGetHandle ce e hi ho s = Some (ho', s')" "\<not> mcuPlusSdk e"
    and "hrFlow (hoRx1 ho) = None" "hrHandlePkt (hoRx1 ho) = None"
  shows "host_open e (chans e s) ho' s'"
proof -
  let ?s1 = "issue (Mcm_coreAttach (selfCoreId e)) (issue Mcm_acquireHandleInfo (issue Mcm_getCmdIf s))"
  let ?att = "word_of e (calls s @ [Mcm_getCmdIf, Mcm_acquireHandleInfo]) (Mcm_coreAttach (selfCoreId e))"
  obtain tx s2 where tx: "dma_open e (Utils_openTxCh (?att 0) (selfCoreId e) (hiTxPkts hi)) ?s1 = (tx, s2)"
    by fastforce
  obtain fl s3 where fl: "dma_open e (Utils_openRxFlow True (?att 0) (selfCoreId e) (hiRx0Pkts hi) (?att 1)) s2 = (fl, s3)"
    by fastforce
  obtain rx s4 where rx: "host_route e (?att 0) (hiRx1Pkts hi) (hoRx1 ho) s3 = (rx, s4)"
    by fastforce
  have s1: "chans e ?s1 = chans e s" by (simp add: chans_issue)
  note L = chans_open [OF _ tx, simplified, unfolded s1] chans_open [OF _ fl, simplified] host_route_open [OF rx assms(3,4)]
  have "s' = s4" "hoTxCh ho' = tx" "hrFlow (hoRx0 ho') = fl" "hrFlow (hoRx1 ho') = hrFlow rx"
    "hrHandlePkt (hoRx1 ho') = hrHandlePkt rx" "hrIdx (hoRx1 ho') = hrIdx rx"
    using assms(1,2) tx fl rx
    by (auto simp: EthFwCallbacks_lwipifCpswGetHandle_def Let_def split: if_splits)
  then show ?thesis
    using L unfolding host_open_def held_def by auto
qed

text \<open>Closing, reopening, and closing for good, with assertions that stop the core.\<close>

lemma closeDma_closed:
  assumes "LwipifEnetAppCb_closeDma_host e hl s = Some s'" "utilsAssert e" "host_open e L (hlOut hl) s"
  shows "chans e s' = L" "vepaSupport e \<Longrightarrow> packetDuplicationFlowIdx (gEthFwVepaObj s') = ETHFW_VEPA_PKT_DUP_FLOW_IDX_UNDEFINED"
proof -
  have "chans e s' = chans e s - held (hlOut hl)"
    using assms(1,3) unfolding held_def
    by (auto simp: LwipifEnetAppCb_closeDma_host_def Let_def assms(2) call_st_def chans_issue dma_effect_def host_open_def
      split: if_splits)
  then show "chans e s' = L" using assms(3) by (auto simp: host_open_def)
  show "vepaSupport e \<Longrightarrow> packetDuplicationFlowIdx (gEthFwVepaObj s') = ETHFW_VEPA_PKT_DUP_FLOW_IDX_UNDEFINED"
    using assms(1) by (auto simp: LwipifEnetAppCb_closeDma_host_def Let_def assms(2) call_st_def
      EthFwVepa_clearPacketDuplicationFlowIdx_def split: if_splits)
qed

lemma openDma_open:
  assumes "LwipifEnetAppCb_openDma_host e hi ho s = Some (ho', s')" "utilsAssert e"
    and "\<not> vepaSupport e \<Longrightarrow> \<not> proxyArp e \<Longrightarrow> hrFlow (hoRx1 ho) = None"
    and "vepaSupport e \<Longrightarrow> packetDuplicationFlowIdx (gEthFwVepaObj s) = ETHFW_VEPA_PKT_DUP_FLOW_IDX_UNDEFINED"
  shows "host_open e (chans e s) ho' s'"
proof -
  let ?s1 = "issue (Dma Dma_getHandle) s"
  obtain tx s2 where tx: "dma_open e (Dma_openTxCh (hoTxChNum ho) (hiTxPkts hi)) ?s1 = (tx, s2)"
    by fastforce
  obtain fl s3 where fl: "dma_open e (Dma_openRxFlow (hrStart (hoRx0 ho)) (hrIdx (hoRx0 ho)) (hiRx0Pkts hi)) s2 = (fl, s3)"
    by fastforce
  let ?s4 = "issue (Rm_regDfltRxFlow (hoCoreKey ho) (selfCoreId e) (hrStart (hoRx0 ho)) (hrIdx (hoRx0 ho))) s3"
  obtain f1 s5 where f1: "dma_open e (Dma_openRxFlow (hrStart (hoRx1 ho)) (hrIdx (hoRx1 ho)) (hiRx1Pkts hi)) ?s4 = (f1, s5)"
    by fastforce
  have s1: "chans e ?s1 = chans e s" and s4: "chans e ?s4 = chans e s3" by (simp_all add: chans_issue dma_effect_def)
  note L = chans_open [OF _ tx, simplified, unfolded s1] chans_open [OF _ fl, simplified] chans_open [OF _ f1, simplified, unfolded s4]
  have v: "gEthFwVepaObj s5 = gEthFwVepaObj s"
    using tx fl f1 by (auto simp: dma_open_def)
  show ?thesis
  proof (cases "vepaSupport e \<or> proxyArp e")
    case True
    then have "chans e s' = chans e s5" "hoTxCh ho' = tx" "hrFlow (hoRx0 ho') = fl" "hrFlow (hoRx1 ho') = f1"
      "vepaSupport e \<Longrightarrow> packetDuplicationFlowIdx (gEthFwVepaObj s') = hrIdx (hoRx1 ho')"
      using assms(1,4) tx fl f1 v
      by (auto simp: LwipifEnetAppCb_openDma_host_def Let_def assms(2) call_st_def chans_issue
        EthFwVepa_setPacketDuplicationFlowIdx_def split: if_splits)
    then show ?thesis
      using L True unfolding host_open_def held_def by auto
  next
    case False
    then have "chans e s' = chans e ?s4" "hoTxCh ho' = tx" "hrFlow (hoRx0 ho') = fl" "hrFlow (hoRx1 ho') = None"
      using assms(1,3) tx fl
      by (auto simp: LwipifEnetAppCb_openDma_host_def Let_def assms(2) call_st_def split: if_splits)
    then show ?thesis
      using L False s4 unfolding host_open_def held_def by auto
  qed
qed

lemma route_close_chans:
  assumes "\<And>h f. status_of e h (Dma (Dma_closeRxFlow f)) = ETHFW_SOK"
  shows "chans e (route_close e key core rx free s) = chans e s - set_option (hrFlow rx)"
  using assms by (auto simp: route_close_def Let_def call_st_def chans_issue dma_effect_def)

lemma release_closed:
  assumes "EthFwCallbacks_lwipifCpswReleaseHandle e hl s = Some s'" "\<not> mcuPlusSdk e" "host_open e L (hlOut hl) s"
    and ok: "\<And>h f. status_of e h (Dma (Dma_closeRxFlow f)) = ETHFW_SOK"
  shows "chans e s' = L"
proof -
  have "chans e s' = chans e s - held (hlOut hl)"
    using assms(1-3) unfolding held_def
    by (auto simp: EthFwCallbacks_lwipifCpswReleaseHandle_def Let_def chans_issue dma_effect_def host_open_def
      EthFwCallbacks_teardownPacketDuplicationRoute_def EthFwCallbacks_teardownArpRoute_def route_close_chans [OF ok]
      split: if_splits)
  then show ?thesis using assms(3) by (auto simp: host_open_def)
qed

section \<open>The life of the interface\<close>

text \<open>
  Recoveries of the switch: lwIP's channels are closed, others make the calls \<open>cs\<close>, and the channels are
  opened again.
\<close>

definition rel_of :: "nat \<times> nat \<times> nat \<Rightarrow> HostOut \<Rightarrow> HostRel" where
  "rel_of fr ho = \<lparr>hlOut = ho, hlTxFree = fst fr, hlRx0Free = fst (snd fr), hlRx1Free = snd (snd fr)\<rparr>"

fun host_rounds ::
    "env \<Rightarrow> HostIn \<Rightarrow> nat \<times> nat \<times> nat \<Rightarrow> call list list \<Rightarrow> HostOut \<Rightarrow> 'a vepa_st_scheme \<Rightarrow> (HostOut \<times> 'a vepa_st_scheme) option" where
  "host_rounds e hi fr [] ho s = Some (ho, s)"
| "host_rounds e hi fr (cs # css) ho s = do {
     s \<leftarrow> LwipifEnetAppCb_closeDma_host e (rel_of fr ho) s;
     (ho, s) \<leftarrow> LwipifEnetAppCb_openDma_host e hi ho (fold issue cs s);
     host_rounds e hi fr css ho s
   }"

text \<open>The numbers the switch knows the interface by.\<close>

definition host_ids :: "HostOut \<Rightarrow> u32 \<times> (u32 \<times> u32) \<times> (u32 \<times> u32) \<times> u32 \<times> u32" where
  "host_ids ho = (hoTxChNum ho, (hrStart (hoRx0 ho), hrIdx (hoRx0 ho)), (hrStart (hoRx1 ho), hrIdx (hoRx1 ho)),
     hoCoreKey ho, hoCoreId ho)"

lemma openDma_ids:
  assumes "LwipifEnetAppCb_openDma_host e hi ho s = Some (ho', s')" "utilsAssert e"
  shows "host_ids ho' = host_ids ho"
proof -
  let ?s1 = "issue (Dma Dma_getHandle) s"
  obtain tx s2 where tx: "dma_open e (Dma_openTxCh (hoTxChNum ho) (hiTxPkts hi)) ?s1 = (tx, s2)"
    by fastforce
  obtain fl s3 where fl: "dma_open e (Dma_openRxFlow (hrStart (hoRx0 ho)) (hrIdx (hoRx0 ho)) (hiRx0Pkts hi)) s2 = (fl, s3)"
    by fastforce
  show ?thesis
    using assms(1) tx fl
    by (auto simp: LwipifEnetAppCb_openDma_host_def Let_def assms(2) call_st_def host_ids_def split: if_splits prod.splits)
qed

lemma others_frame:
  assumes "\<forall>c\<in>set cs. \<forall>d. c \<noteq> Dma d"
  shows "chans e (fold issue cs s) = chans e s" "gEthFwVepaObj (fold issue cs s) = gEthFwVepaObj s"
  using assms by (induction cs arbitrary: s) (simp_all add: chans_issue split: call.split)

lemma rounds_open:
  assumes "host_rounds e hi fr css ho s = Some (ho', s')" "utilsAssert e" "host_open e L ho s"
    and "\<forall>cs\<in>set css. \<forall>c\<in>set cs. \<forall>d. c \<noteq> Dma d"
  shows "host_open e L ho' s'" "host_ids ho' = host_ids ho"
proof -
  have "host_open e L ho' s' \<and> host_ids ho' = host_ids ho"
    using assms(1,3,4)
  proof (induction css arbitrary: ho s)
    case (Cons cs css)
    then obtain s1 ho2 s2 where c: "LwipifEnetAppCb_closeDma_host e (rel_of fr ho) s = Some s1"
      and o: "LwipifEnetAppCb_openDma_host e hi ho (fold issue cs s1) = Some (ho2, s2)"
      and r: "host_rounds e hi fr css ho2 s2 = Some (ho', s')"
      by (auto simp: bind_eq_Some_conv)
    have "hlOut (rel_of fr ho) = ho" by (simp add: rel_of_def)
    with closeDma_closed [OF c assms(2)] Cons.prems(2) have s1: "chans e s1 = L"
      "vepaSupport e \<Longrightarrow> packetDuplicationFlowIdx (gEthFwVepaObj s1) = ETHFW_VEPA_PKT_DUP_FLOW_IDX_UNDEFINED"
      by simp_all
    have "host_open e (chans e (fold issue cs s1)) ho2 s2"
      using Cons.prems(2,3) s1(2) others_frame [where cs = cs and s = s1]
      by (intro openDma_open [OF o assms(2)]) (auto simp: host_open_def)
    with Cons.prems(3) s1(1) have "host_open e L ho2 s2"
      using others_frame(1) [of cs e s1] by simp
    with Cons.IH [OF r] Cons.prems(3) openDma_ids [OF o assms(2)] show ?case by simp
  qed simp
  then show "host_open e L ho' s'" "host_ids ho' = host_ids ho" by simp_all
qed

text \<open>Property C13 (roundtrip).  However often the switch is reset while the server's own interface is open, the DMA
  channels open are those that were open before and the interface's, which keep their numbers; the handler for
  duplicated packets is only in place while these are classified to the interface's flow; and
  releasing the interface closes exactly its channels, when the driver closes what it is told to.\<close>

theorem host_life:
  assumes "EthFwCallbacks_lwipifCpswGetHandle ce e hi ho0 s0 = Some (ho, s1)" "\<not> mcuPlusSdk e" "utilsAssert e"
    and "hrFlow (hoRx1 ho0) = None" "hrHandlePkt (hoRx1 ho0) = None"
    and "host_rounds e hi fr css ho s1 = Some (ho', s2)" "\<forall>cs\<in>set css. \<forall>c\<in>set cs. \<forall>d. c \<noteq> Dma d"
  shows "open_chans e (calls s2) = open_chans e (calls s0) \<union> held ho' \<and> held ho' \<inter> open_chans e (calls s0) = {} \<and> host_ids ho' = host_ids ho
    \<and> (vepaSupport e \<longrightarrow> hrHandlePkt (hoRx1 ho') = Some HandlePacketDuplication \<longrightarrow>
         packetDuplicationFlowIdx (gEthFwVepaObj s2) = hrIdx (hoRx1 ho'))
    \<and> (EthFwCallbacks_lwipifCpswReleaseHandle e (rel_of fr ho') s2 = Some s3 \<longrightarrow>
       (\<forall>h f. status_of e h (Dma (Dma_closeRxFlow f)) = ETHFW_SOK) \<longrightarrow> open_chans e (calls s3) = open_chans e (calls s0))"
proof -
  have "host_open e (chans e s0) ho s1"
    by (rule getHandle_open [OF assms(1,2,4,5)])
  note r = rounds_open [OF assms(6,3) this assms(7)]
  moreover have "host_open e (chans e s0) (hlOut (rel_of fr ho')) s2"
    using r(1) by (simp add: rel_of_def)
  ultimately show ?thesis
    using release_closed [of e "rel_of fr ho'" s2 s3 "chans e s0"] assms(2) by (auto simp: host_open_def chans_def)
qed

definition host_in :: HostIn where "host_in = \<lparr>hiTxPkts = 32, hiRx0Pkts = 64, hiRx1Pkts = 64\<rparr>"

definition host_zero :: HostOut where
  "host_zero =
     (let rx = \<lparr>hrFlow = None, hrStart = 0, hrIdx = 0, hrMac = zero_mac, hrDisableEvent = False, hrHandlePkt = None, hrHandleErr = False\<rparr>
      in \<lparr>hoCoreId = 0, hoCoreKey = 0, hoHandle = False, hoRxMtu = 0, hoTxMtu = [], hoTxCsum = False, hoRxCsum = False, hoTimer = 0,
          hoTxCh = None, hoTxChNum = 0, hoTxPortNum = 0, hoTxDisableEvent = False, hoRx0 = rx, hoRx1 = rx\<rparr>)"

definition host_st :: vepa_st where
  "host_st = \<lparr>calls = [], faults = [], gEthFwArpObj = \<lparr>remoteCoreArpTable = [], arpMutex = True\<rparr>,
     gEthFwVepaObj = \<lparr>remoteCoreVepaTable = [], privVlanCfg = [], virtPortToMacAddr = [], vepaMutex = True,
       packetDuplicationFlowIdx = ETHFW_VEPA_PKT_DUP_FLOW_IDX_UNDEFINED\<rparr>\<rparr>"

theorem host_life_witness:
  "\<exists>ho s1 ho' s2 s3. EthFwCallbacks_lwipifCpswGetHandle False ok_env host_in host_zero host_st = Some (ho, s1)
    \<and> host_rounds ok_env host_in (1, 2, 3) [[Mcm_saveCtxt, Mcm_restoreCtxt]] ho s1 = Some (ho', s2)
    \<and> EthFwCallbacks_lwipifCpswReleaseHandle ok_env (rel_of (1, 2, 3) ho') s2 = Some s3
    \<and> host_ids ho' = host_ids ho \<and> open_chans ok_env (calls s3) = {}"
proof -
  have e: "\<not> mcuPlusSdk ok_env" "utilsAssert ok_env" "vepaSupport ok_env" "proxyArp ok_env" "\<And>h c. flag_of ok_env h c" "\<And>h c. status_of ok_env h c = 0"
    by (simp_all add: ok_env_def)
  obtain ho s1 where g: "EthFwCallbacks_lwipifCpswGetHandle False ok_env host_in host_zero host_st = Some (ho, s1)" and h: "hoHandle ho"
    by (simp add: EthFwCallbacks_lwipifCpswGetHandle_def e Let_def case_prod_beta host_route_def
      EthFwCallbacks_setupPacketDuplicationRoute_def route_open_def dma_open_def call_st_def host_zero_def
      host_st_def EthFwVepa_setPacketDuplicationFlowIdx_def)
  obtain ho' s2 where r: "host_rounds ok_env host_in (1, 2, 3) [[Mcm_saveCtxt, Mcm_restoreCtxt]] ho s1 = Some (ho', s2)"
    by (simp add: LwipifEnetAppCb_closeDma_host_def LwipifEnetAppCb_openDma_host_def e Let_def case_prod_beta dma_open_def call_st_def
      h rel_of_def)
  obtain s3 where c: "EthFwCallbacks_lwipifCpswReleaseHandle ok_env (rel_of (1, 2, 3) ho') s2 = Some s3"
    by (simp add: EthFwCallbacks_lwipifCpswReleaseHandle_def e Let_def)
  have z: "hrFlow (hoRx1 host_zero) = None" "hrHandlePkt (hoRx1 host_zero) = None"
    by (simp_all add: host_zero_def Let_def)
  have o: "\<forall>cs\<in>set [[Mcm_saveCtxt, Mcm_restoreCtxt]]. \<forall>c\<in>set cs. \<forall>d. c \<noteq> Dma d"
    by simp
  have "calls host_st = []" by (simp add: host_st_def)
  then have "open_chans ok_env (calls host_st) = {}" by (simp add: open_chans_def)
  with host_life [OF g e(1,2) z r o, of s3] c g r show ?thesis by (auto simp: e(6))
qed

section \<open>ARP requests\<close>

lemma rd_mac_take: "6 \<le> n \<Longrightarrow> rd_mac (take n xs) = rd_mac xs"
proof -
  assume "6 \<le> n"
  then obtain m where "n = 6 + m" using le_Suc_ex by blast
  then show ?thesis by (cases xs rule: rd_mac.cases) (simp_all add: eval_nat_numeral)
qed

lemma arp_frame_ex: "\<exists>f. parse_arp f = Some (ed, es, vlan, opc, hs, ips, hdst, ipd)"
  by (blast intro: parse_arp_frame)

text \<open>The ARP fields of a padded frame, where the handler reads them.\<close>

lemma parse_arp_padded:
  assumes "parse_arp_payload (drop off (take (off + 28) pkt)) = Some (opc, srcHw, srcIp, dstHw, dstIp)"
  shows "off + 28 \<le> length pkt" "rd_mac (drop (off + 8) pkt) = srcHw" "rd_ip_at pkt (off + 14) = srcIp" "rd_ip_at pkt (off + 24) = dstIp"
proof -
  have len: "length (drop off (take (off + 28) pkt)) = 28" and
    f: "rd_mac (drop 8 (drop off (take (off + 28) pkt))) = srcHw" "rd_ip_at (drop off (take (off + 28) pkt)) 14 = srcIp"
    "rd_ip_at (drop off (take (off + 28) pkt)) 24 = dstIp"
    using assms by (simp_all add: parse_arp_payload_def split: if_splits)
  then show l: "off + 28 \<le> length pkt" by simp
  have "drop 8 (drop off (take (off + 28) pkt)) = take 20 (drop (off + 8) pkt)"
    by (simp add: drop_take add.commute)
  then show "rd_mac (drop (off + 8) pkt) = srcHw" using f(1) rd_mac_take [of 20] by simp
  show "rd_ip_at pkt (off + 14) = srcIp" "rd_ip_at pkt (off + 24) = dstIp"
    using f(2,3) l by (simp_all add: rd_ip_at_def ac_simps)
qed

text \<open>Property C25 (functional).  A received ARP packet, whose frame may be padded, is answered exactly when the
  table has an entry for its target address on its VLAN (the low 12 bits of its tag): if a buffer can
  be allocated, one frame is sent, to the sender, that says in the name of the entry's MAC address that this
  has the target address; any other packet is left to lwIP, and nothing is sent.\<close>

theorem arp_answers:
  assumes "lib_spec e"
    and "parse_arp (take (if rd16_at pkt 12 = ETHTYPE_VLAN then 46 else 42) pkt) = Some (ed, es, tci, opc, srcHw, srcIp, dstHw, dstIp)"
  shows "let v = tci AND 0xFFF; (handled, s') = EthFwCallbacks_handleArpRxPktFxn e pkt s;
             al = Pbuf_alloc (if v \<noteq> 0 then 46 else 42)
    in handled = (arp_map (gEthFwArpObj s) (v, dstIp) \<noteq> None) \<and> faults s' = faults s \<and>
       (case arp_map (gEthFwArpObj s) (v, dstIp) of
          None \<Rightarrow> calls s' = calls s
        | Some hw \<Rightarrow> \<exists>f. parse_arp f = Some (srcHw, hw, v, ARP_REPLY, hw, dstIp, srcHw, srcIp) \<and>
            calls s' = calls s @ [al] @ (if flag_of e (calls s) al then [Netif_linkoutput f] else []))"
proof -
  let ?n = "if rd16_at pkt 12 = ETHTYPE_VLAN then 46 else 42"
  have "14 \<le> length (take ?n pkt)"
    using assms(2) by (simp add: parse_arp_def split: if_splits)
  then have len14: "14 \<le> length pkt" by simp
  have t: "rd16_at (take ?n pkt) 12 = rd16_at pkt 12"
    using len14 by (simp add: rd16_at_def)
  have get: "EthFwArp_getHwAddr e i v ob = (case arp_map ob (v, i) of Some hw \<Rightarrow> (ETHFW_SOK, Some hw) | None \<Rightarrow> (ETHFW_EFAIL, None))"
    for i v ob
    by (cases "slot_find arp_used arp_key (v, i) (remoteCoreArpTable ob)")
      (simp_all add: EthFwArp_getHwAddr_def arp_search_slot [OF assms(1)] arp_map_def slot_map_def)
  show ?thesis
  proof (cases "rd16_at pkt 12 = ETHTYPE_VLAN")
    case True
    then have "parse_arp_payload (drop 18 (take (18 + 28) pkt)) = Some (opc, srcHw, srcIp, dstHw, dstIp)"
      and "rd16_at (take 46 pkt) 14 = tci" "18 \<le> length pkt"
      using assms(2) t by (auto simp: parse_arp_def split: if_splits)
    from parse_arp_padded [OF this(1)] this(2,3) True show ?thesis
      by (auto simp: EthFwCallbacks_handleArpRxPktFxn_def get Let_def EthFwArp_sendRaw_def parse_arp_frame rd16_at_def arp_frame_ex split: option.split)
  next
    case False
    then have "parse_arp_payload (drop 14 (take (14 + 28) pkt)) = Some (opc, srcHw, srcIp, dstHw, dstIp)" and "tci = 0"
      using assms(2) t by (auto simp: parse_arp_def split: if_splits)
    from parse_arp_padded [OF this(1)] this(2) False show ?thesis
      by (auto simp: EthFwCallbacks_handleArpRxPktFxn_def get Let_def EthFwArp_sendRaw_def parse_arp_frame arp_frame_ex split: option.split)
  qed
qed

theorem arp_answers_witness:
  "let pkt = arp_frame (EthAddr 2 0 0 0 0 9) bcast_mac (EthAddr 2 0 0 0 0 9) 7 zero_mac 10 5 1 @ replicate 14 0;
       s = host_st\<lparr>gEthFwArpObj := \<lparr>remoteCoreArpTable = [\<lparr>arpIpAddr = 10, arpHwAddr = EthAddr 2 0 0 0 0 7, arpVlanId = 5,
         arpIsFree = False\<rparr>], arpMutex = True\<rparr>\<rparr>
   in fst (EthFwCallbacks_handleArpRxPktFxn ok_env pkt s)"
proof -
  let ?f = "arp_frame (EthAddr 2 0 0 0 0 9) bcast_mac (EthAddr 2 0 0 0 0 9) 7 zero_mac 10 5 1"
  let ?s = "host_st\<lparr>gEthFwArpObj := \<lparr>remoteCoreArpTable = [\<lparr>arpIpAddr = 10, arpHwAddr = EthAddr 2 0 0 0 0 7, arpVlanId = 5,
         arpIsFree = False\<rparr>], arpMutex = True\<rparr>\<rparr>"
  have "rd16_at (?f @ replicate 14 0) 12 = ETHTYPE_VLAN" "length ?f = 46"
    by (simp_all add: arp_frame_def be16_def ip_octets_def rd16_at_def rd16_def ETHTYPE_VLAN_def bcast_mac_def zero_mac_def)
  then have "parse_arp (take (if rd16_at (?f @ replicate 14 0) 12 = ETHTYPE_VLAN then 46 else 42) (?f @ replicate 14 0))
    = Some (bcast_mac, EthAddr 2 0 0 0 0 9, 5, 1, EthAddr 2 0 0 0 0 9, 7, zero_mac, 10)"
    by (simp add: parse_arp_frame)
  from arp_answers [OF lib_spec_ok_env this, of ?s] show ?thesis
    by (simp add: Let_def case_prod_beta arp_map_def slot_map_def slot_find_def)
qed

end
