(* ===== verification/ServerApp.thy ===== *)
theory ServerApp
  imports BootOutcome
begin

text \<open>
  The server's application on the Jacinto boards (\<^verbatim>\<open>apps/app_remoteswitchcfg_server/main.c\<close>): the configuration
  it starts the firmware with, in the build for the core MCU2_0 without boot-time profiling, QSGMII
  ports, gPTP and AVTP (in a build with \<^verbatim>\<open>ETHFW_DEMO_SUPPORT\<close> the hardware inter-VLAN demo of
  \<^verbatim>\<open>utils/intervlan/src/eth_hwintervlan.c\<close> has the last word on the switch's configuration), and, in the build with inter-core Ethernet, the call-backs that keep lwIP's bridge in step with
  the shared multicast addresses of the firmware.
\<close>

section \<open>Configuration\<close>

datatype jacinto = J721E | J7200 | J784S4    \<comment> \<open>J742S2 has the tables of J784S4\<close>

definition ENET_MAC_PORT :: "env \<Rightarrow> u32 \<Rightarrow> u32" where
  "ENET_MAC_PORT e n = macPortDenorm e (n - 1)"

fun app_port_numbers :: "jacinto \<Rightarrow> u32 list" where
  "app_port_numbers J721E = [1, 3, 4, 8]"
| "app_port_numbers J7200 = [1, 2, 3, 4]"
| "app_port_numbers J784S4 = [1, 3, 4, 5]"

definition gEthAppPorts :: "env \<Rightarrow> jacinto \<Rightarrow> u32 list" where
  "gEthAppPorts e soc = map (ENET_MAC_PORT e) (app_port_numbers soc)"

fun switch_port_numbers :: "jacinto \<Rightarrow> u32 list" where
  "switch_port_numbers J721E = [2, 3, 5, 6, 7, 8]"
| "switch_port_numbers J7200 = [2, 3]"
| "switch_port_numbers J784S4 = [3, 5]"

definition ETHAPP_DFLT_PORT_MASK :: "env \<Rightarrow> jacinto \<Rightarrow> u32" where
  "ETHAPP_DFLT_PORT_MASK e soc =
     fold (\<lambda>n m. m OR macPortToPortMask e (ENET_MAC_PORT e n)) (switch_port_numbers soc) (hostPortMask e)"

definition ETHAPP_DFLT_VIRT_PORT_MASK :: u32 where
  "ETHAPP_DFLT_VIRT_PORT_MASK = ETHFW_BIT 25 OR ETHFW_BIT 26 OR ETHFW_BIT 27"

definition shared_addrs :: "eth_addr list" where
  "shared_addrs =
     [EthAddr 0x01 0x00 0x5E 0x00 0x00 0x01, EthAddr 0x01 0x00 0x5E 0x00 0x00 0xFB, EthAddr 0x01 0x00 0x5E 0x00 0x00 0xFC,
      EthAddr 0x33 0x33 0x00 0x00 0x00 0x01, EthAddr 0x33 0x33 0xFF 0x1D 0x92 0xC2, EthAddr 0x01 0x80 0xC2 0x00 0x00 0x00,
      EthAddr 0x01 0x80 0xC2 0x00 0x00 0x03]"

definition gEthApp_sharedMcastCfgTable :: "env \<Rightarrow> jacinto \<Rightarrow> EthFwMcast_McastCfg list" where
  "gEthApp_sharedMcastCfgTable e soc =
     map (\<lambda>a. \<lparr>cfgMacAddr = a, cfgPortMask = ETHAPP_DFLT_PORT_MASK e soc, cfgVirtPortMask = ETHAPP_DFLT_VIRT_PORT_MASK\<rparr>) shared_addrs"

definition gEthApp_rsvdMcastCfgTable :: "env \<Rightarrow> jacinto \<Rightarrow> EthFwMcast_RsvdMcast list" where
  "gEthApp_rsvdMcastCfgTable e soc =
     [\<lparr>rsMacAddr = EthAddr 0x01 0x80 0xC2 0x00 0x00 0x0E, rsVlanId = 0, rsPortMask = ETHAPP_DFLT_PORT_MASK e soc\<rparr>,
      \<lparr>rsMacAddr = EthAddr 0x01 0x1B 0x19 0x00 0x00 0x00, rsVlanId = 0, rsPortMask = ETHAPP_DFLT_PORT_MASK e soc\<rparr>]"

text \<open>
  A virtual port; the fields not given are zero.  \<open>nrx\<close> is \<^verbatim>\<open>ENET_CFG_RX_FLOWS_NUM\<close>, and \<open>tx n\<close> the value of
  \<^verbatim>\<open>ENET_RM_TX_CH_n\<close>.  The cores are named by their place in \<open>ipcCores\<close>.
\<close>

definition virt_port_cfg :: "env \<Rightarrow> nat \<Rightarrow> EthRemoteCfg_VirtPort \<Rightarrow> nat \<Rightarrow> u32 list \<Rightarrow> u32 \<Rightarrow> u32 \<Rightarrow> EthFwVirtPort_VirtPortCfg" where
  "virt_port_cfg e nrx port core txs nflow ids =
     \<lparr>portId = port, vpRemoteCoreId = ipcCores e ! core, numTxCh = of_nat (length txs),
      txCh = txs @ replicate (txChannelsNum e - length txs) 0, numRxFlow = nflow,
      rxFlowsInfo = replicate nrx \<lparr>rxFlowIdxOffset = 0, customPolicersInArgs = []\<rparr>, clientIdMask = ids, endPointId = 0,
      vpNumMacAddress = 1\<rparr>"

definition MPU1_0 :: nat where "MPU1_0 = 0"
definition MCU1_0 :: nat where "MCU1_0 = 1"
definition MCU2_0 :: nat where "MCU2_0 = 2"
definition MCU2_1 :: nat where "MCU2_1 = 3"

definition CLIENTID_AUTOSAR :: u32 where "CLIENTID_AUTOSAR = 1"
definition CLIENTID_RTOS :: u32 where "CLIENTID_RTOS = 2"
definition CLIENTID_LINUX :: u32 where "CLIENTID_LINUX = 3"
definition CLIENTID_QNX :: u32 where "CLIENTID_QNX = 4"

text \<open>\<open>demo\<close>: a build with \<^verbatim>\<open>ETHFW_DEMO_SUPPORT\<close> or \<^verbatim>\<open>ETHFW_EST_DEMO_SUPPORT\<close>.\<close>

definition gEthApp_virtPortCfg :: "env \<Rightarrow> nat \<Rightarrow> (nat \<Rightarrow> u32) \<Rightarrow> bool \<Rightarrow> EthFwVirtPort_VirtPortCfg list" where
  "gEthApp_virtPortCfg e nrx tx demo =
     (let hlos = ETHFW_BIT CLIENTID_LINUX OR ETHFW_BIT CLIENTID_QNX in
     [virt_port_cfg e nrx 25 MPU1_0 (if demo then [tx 4] else [tx 4, tx 7]) 1 hlos,
      virt_port_cfg e nrx 27 MCU1_0 [tx 5] 1 (ETHFW_BIT CLIENTID_AUTOSAR),
      virt_port_cfg e nrx ETHREMOTECFG_SWITCH_PORT_LAST MCU2_0 (if demo then [tx 0, tx 7, tx 6] else [tx 0, tx 6]) 5 (ETHFW_BIT 0),
      virt_port_cfg e nrx 26 MCU2_1 [tx 1] 1 (ETHFW_BIT CLIENTID_AUTOSAR OR ETHFW_BIT CLIENTID_RTOS)] @
     (if macOnlyPorts e
      then [virt_port_cfg e nrx 1 MPU1_0 [tx 3] 1 hlos, virt_port_cfg e nrx 4 MCU2_1 [tx 2] 1 (ETHFW_BIT CLIENTID_RTOS)] else []))"

definition gEthApp_vlanCfg :: "env \<Rightarrow> jacinto \<Rightarrow> EthFwVlan_VlanCfg list" where
  "gEthApp_vlanCfg e soc =
     (let m = ETHAPP_DFLT_PORT_MASK e soc in
     [\<lparr>vcVlanId = 1024, vcMemberMask = m, vcVirtMemberMask = ETHAPP_DFLT_VIRT_PORT_MASK, vcRegMcastFloodMask = m,
       vcUnregMcastFloodMask = m, vcUntagMask = 0\<rparr>])"

definition gEthApp_IETCfg :: EthFwIET_Config where
  "gEthApp_IETCfg = \<lparr>minFragSize = 1, mac_verify_enable = True, queueMode = [0, 1, 0, 1, 0, 1, 0, 1]\<rparr>"

definition gEthApp_remoteClientPrivVlanIdMap :: "u32 list" where
  "gEthApp_remoteClientPrivVlanIdMap = (replicate 29 0)[25 := 1100, 26 := 1200, 27 := 1300]"

definition ETHAPP_MAX_SHARED_MCAST_ADDR :: nat where "ETHAPP_MAX_SHARED_MCAST_ADDR = 8"
definition ETHAPP_MAC_ADDR_POOL_SIZE :: nat where "ETHAPP_MAC_ADDR_POOL_SIZE = 6"

text \<open>The choices of a build, and what the board and the driver give.\<close>

record app_build =
  abSoc :: jacinto
  abIntercore :: bool                  \<comment> \<open>\<^verbatim>\<open>ETHAPP_ENABLE_INTERCORE_ETH\<close>\<close>
  abDemo :: bool                       \<comment> \<open>\<^verbatim>\<open>ETHFW_DEMO_SUPPORT\<close>\<close>
  abEst :: bool                        \<comment> \<open>\<^verbatim>\<open>ETHFW_EST_DEMO_SUPPORT\<close>\<close>
  abErrata :: bool                     \<comment> \<open>\<^verbatim>\<open>ETHFW_CPSW_MULTIHOST_CHECKSUM_ERRATA\<close>\<close>
  abNumRx :: nat
  abTx :: "nat \<Rightarrow> u32"
  abAllMac :: u32                      \<comment> \<open>\<^verbatim>\<open>CPSW_ALE_ALL_MACPORTS_MASK\<close>\<close>
  abMacFirst :: u32                    \<comment> \<open>\<^verbatim>\<open>ENET_MAC_PORT_FIRST\<close>\<close>
  abAleNumMac :: u32                   \<comment> \<open>\<^verbatim>\<open>CPSW_ALE_NUM_MAC_PORTS\<close>\<close>
  abDflt :: Cpsw_Cfg
  abEnetType :: u32
  abInstId :: u32

text \<open>
  The demo's settings.  The mode flags are replaced, so that of VEPA builds for several hosts is lost.  The driver's
  numbering keeps every port it goes over inside the array.
\<close>

definition inter_vlan_port :: "env \<Rightarrow> u32 \<Rightarrow> CpswAle_PortCfg \<Rightarrow> CpswAle_PortCfg" where
  "inter_vlan_port e pvid p =
     p\<lparr>noLearn := False, dropUntagged := False, pvUnregMcastFlood := 0, pvRegMcastFlood := allPortsMask e,
       pvForceUntagged := allPortsMask e, pvNoLearn := 0, pvIngressCheck := False, pvLimitIPNxtHdr := False,
       pvDisallowIPFrag := False, pvTagType := tagInner e, pvVlanId := pvid, pvMembers := allPortsMask e\<rparr>"

definition EthHwInterVlan_setOpenPrms :: "env \<Rightarrow> u32 \<Rightarrow> u32 \<Rightarrow> Cpsw_Cfg \<Rightarrow> Cpsw_Cfg" where
  "EthHwInterVlan_setOpenPrms e first num c =
     (let set = (\<lambda>k pvid ps. ps[k := inter_vlan_port e pvid (ps ! k)]);
          macPort = (\<lambda>i. set (unat (macPortToAlePort e i)) (400 + macPortNorm e i))
      in c\<lparr>cpAleCfg := (cpAleCfg c)\<lparr>policingEn := True, aleModuleEn := True, aleMultihost := False, redDropEn := False,
             yellowDropEn := False, noMatchGreen := True, aleVlanAwareMode := True, aleCpswVlanAwareMode := True,
             unknownVlanMemberListMask := 0, hostOuiNoMatchDeny := False, aleVid0ModeEn := True,
             dfltNxtHdrWhitelistEn := True, ipNxtHdrWhitelist := [6, 17]\<rparr>,
           cpHostPortCfg := (cpHostPortCfg c)\<lparr>passPriorityTaggedUnchanged := True, hpPortPri := 7, hpPortCfi := 0, hpPortVID := 1\<rparr>,
           alePortCfg := fold macPort (map of_nat [unat first..<unat num]) (set 0 1 (alePortCfg c)),
           cpVlanAware := True\<rparr>)"

definition app_config :: "env \<Rightarrow> app_build \<Rightarrow> bool \<Rightarrow> (nat \<Rightarrow> u32) \<Rightarrow> EthFw_Config" where
  "app_config e b udma macPool =
     (let c = EthFw_initConfigParams e (abEst b) (abErrata b) (abAllMac b) (abDflt b);
          shared = abIntercore b \<or> vepaSupport e
      in c\<lparr>cfDma := udma,
           cfCpswCfg := (if abDemo b then EthHwInterVlan_setOpenPrms e (abMacFirst b) (abAleNumMac b) else id)
             ((cfCpswCfg c)\<lparr>numMacList := macPool (min (macListMax e) ETHAPP_MAC_ADDR_POOL_SIZE)\<rparr>),
           cfPorts := Some (gEthAppPorts e (abSoc b)), cfSetPortCfg := True,
           cfVirtPortCfg := gEthApp_virtPortCfg e (abNumRx b) (abTx b) (abDemo b \<or> abEst b), cfIsStaticTxChanAllocated := True,
           cfVlanCfg := gEthApp_vlanCfg e (abSoc b), cfDefaultPortMask := ETHAPP_DFLT_PORT_MASK e (abSoc b),
           cfDefaultVirtPortMask := ETHAPP_DFLT_VIRT_PORT_MASK, cfDVlanSwtFwdEn := True,
           cfMonitorCfg := (if monitorSupport e
             then (cfMonitorCfg c)\<lparr>openLwipDmaCb := True, closeLwipDmaCb := True, statsMonHostEvtCb := True, statsMonMacEvtCb := True\<rparr>
             else cfMonitorCfg c),
           cfMcastCfg := \<lparr>cfgShared = (if shared then gEthApp_sharedMcastCfgTable e (abSoc b) else cfgShared (cfMcastCfg c)),
              cfgAddCb = shared, cfgDelCb = shared, cfgRsvd = gEthApp_rsvdMcastCfgTable e (abSoc b)\<rparr>,
           cfVepaCfg := (if vepaSupport e then gEthApp_remoteClientPrivVlanIdMap else cfVepaCfg c),
           cfIetCfg := (if ietEnable e then gEthApp_IETCfg else cfIetCfg c),
           cfPortMirCfg := Some DISABLE_PORT_MIRRORING\<rparr>)"

text \<open>
  \<open>udma\<close>: the DMA driver could be opened; \<open>macPool n\<close>: how many addresses the board gives when asked for \<open>n\<close>.
  The result: status, and the version that is printed.
\<close>

definition EthApp_initEthFw ::
    "env \<Rightarrow> app_build \<Rightarrow> bool \<Rightarrow> (nat \<Rightarrow> u32) \<Rightarrow> 'a fw_st_scheme \<Rightarrow> (int \<times> EthFw_Version option \<times> 'a fw_st_scheme) option" where
  "EthApp_initEthFw e b udma macPool s =
     (let config = app_config e b udma macPool;
          status = (if udma then ETHFW_SOK else ETHFW_EFAIL);
          status = (if (abIntercore b \<or> vepaSupport e) \<and> length shared_addrs > ETHAPP_MAX_SHARED_MCAST_ADDR then ETHFW_EFAIL else status);
          status = (if status = ETHFW_SOK \<and> length (gEthApp_rsvdMcastCfgTable e (abSoc b)) > ETHFW_RSVD_MCAST_LIST_LEN
                    then ETHFW_EFAIL else status)
      in if status \<noteq> ETHFW_SOK then Some (status, None, s)
         else do {
           (h, s) \<leftarrow> EthFw_init e (abEnetType b) (abInstId b) config s;
           Some (if h then (ETHFW_SOK, Some (EthFw_getVersion s), s) else (ETHFW_EFAIL, None, s))
         })"

text \<open>What the driver documents of the numbers and masks of its ports.\<close>

definition port_numbers :: "env \<Rightarrow> bool" where
  "port_numbers e \<longleftrightarrow> (\<forall>n. macPortMaskOf e (macPortDenorm e n) = ETHFW_BIT n) \<and>
     (\<forall>n. macPortToPortMask e (macPortDenorm e n) = ETHFW_BIT (n + 1)) \<and> hostPortMask e = 1"

lemma app_static_vlans:
  assumes "port_numbers e"
  shows "static_vlans_ok e (app_config e b udma macPool) (gEthAppPorts e (abSoc b))"
proof -
  have mo: "mac_mask e (virt_mac_ports e (gEthApp_virtPortCfg e nrx tx demo)) = (if macOnlyPorts e then 9 else 0)" for nrx tx demo
    using assms by (simp add: port_numbers_def gEthApp_virtPortCfg_def virt_port_cfg_def virt_mac_ports_def mac_mask_def Let_def
      EthFwVirtPort_isMacPort_def EthFwVirtPort_getMacPort_def port_const_defs ETHFW_BIT_def)
  have ports: "mac_mask e (gEthAppPorts e soc) = (case soc of J721E \<Rightarrow> 0x8D | J7200 \<Rightarrow> 0xF | J784S4 \<Rightarrow> 0x1D)" for soc
    using assms by (cases soc) (simp_all add: port_numbers_def mac_mask_def gEthAppPorts_def ENET_MAC_PORT_def ETHFW_BIT_def)
  have dflt: "ETHAPP_DFLT_PORT_MASK e soc = (case soc of J721E \<Rightarrow> 0x1ED | J7200 \<Rightarrow> 0xD | J784S4 \<Rightarrow> 0x29)" for soc
    using assms by (cases soc) (simp_all add: port_numbers_def ETHAPP_DFLT_PORT_MASK_def ENET_MAC_PORT_def ETHFW_BIT_def)
  have "vlan_ports c (if macOnlyPorts e then 9 else 0) = {}" if "c \<in> set (gEthApp_vlanCfg e soc)" for c soc
    using that unfolding vlan_ports_eqs(1) [symmetric] by (cases soc) (simp_all add: gEthApp_vlanCfg_def dflt)
  moreover have "vcVlanId c = 1024" if "c \<in> set (gEthApp_vlanCfg e soc)" for c soc
    using that by (simp add: gEthApp_vlanCfg_def Let_def)
  moreover have "length (gEthApp_vlanCfg e soc) \<le> ETHFWVLAN_VLANS_MAX" for soc
    by (simp add: gEthApp_vlanCfg_def ETHFWVLAN_VLANS_MAX_def Let_def)
  ultimately show ?thesis
    by (simp add: static_vlans_ok_def app_config_def Let_def EthFw_initConfigParams_def mo vlan_cfg_ok_def
      ETHFW_SWITCH_PORTS_VLAN_ID_def ETHFW_MAC_ONLY_PORTS_VLAN_ID_def)
qed

lemma app_config_mac: "numMacList (cfCpswCfg (app_config e b udma macPool)) = macPool (min (macListMax e) ETHAPP_MAC_ADDR_POOL_SIZE)"
  by (simp add: app_config_def Let_def EthHwInterVlan_setOpenPrms_def)

text \<open>Property C16 (functional).  On every Jacinto board, with or without the ports in MAC-only mode, the demos, the monitor
  and VEPA, the firmware accepts the configuration of the application when driver and operating system
  accept every call, the address and port functions of the driver behave as documented and the board has an address; the
  DMA channels given to the virtual
  ports are all different, and they need no more MAC addresses than the application asks of the board.\<close>

theorem app_starts:
  assumes "accepts e" "lib_spec e" "port_numbers e" "isCpswType e (abEnetType b)" "8 \<le> macPortNum e"
    and "macListMax e \<noteq> 0" "macListMax e < 2 ^ 32" "length (vlans (gEthFwVlanObj s)) = ETHFWVLAN_VLANS_MAX"
    and "macPool (min (macListMax e) ETHAPP_MAC_ADDR_POOL_SIZE) \<noteq> 0" "inj_on (abTx b) {0..7}"
  shows "(\<exists>s'. EthApp_initEthFw e b True macPool s = Some (ETHFW_SOK, Some (EthFw_getVersion s'), s')) \<and>
    (let vs = cfVirtPortCfg (app_config e b True macPool) in
       distinct (concat (map (\<lambda>v. take (unat (numTxCh v)) (txCh v)) vs)) \<and>
       sum_list (map (\<lambda>v. unat (vpNumMacAddress v)) vs) \<le> ETHAPP_MAC_ADDR_POOL_SIZE)"
proof -
  let ?c = "app_config e b True macPool" and ?ps = "gEthAppPorts e (abSoc b)"
  have np: "length ?ps = 4" by (cases "abSoc b") (simp_all add: gEthAppPorts_def)
  have "boot_ready e (abEnetType b) ?c ?ps s"
    using assms(1-9) np app_config_mac [of e b True macPool] by (simp add: boot_ready_def) (simp add: app_config_def Let_def)
  moreover have "ports_ok e ?c ?ps"
    using np by (simp add: ports_ok_def app_config_def Let_def EthFw_initConfigParams_def ETHFW_SWITCH_PORTS_VLAN_ID_def
      ETHFW_MAC_ONLY_PORTS_VLAN_ID_def ETHFW_VLAN_ID_MAX_def ETHFW_MAC_PORT_MAX_def ETHFW_REMOTE_CLIENT_MAX_def gEthApp_virtPortCfg_def)
  moreover have "mcast_noticed e ?c"
    using assms(2) by (simp add: mcast_noticed_def mcast_cfg_ok_def app_config_def Let_def EthFw_initConfigParams_def gEthApp_sharedMcastCfgTable_def
      gEthApp_rsvdMcastCfgTable_def shared_addrs_def ETHFW_SHARED_MCAST_LIST_LEN_def ETHFW_RSVD_MCAST_LIST_LEN_def)
  moreover have "mirror_ok ?c" by (simp add: mirror_ok_def app_config_def Let_def)
  ultimately obtain s' where "EthFw_init e (abEnetType b) (abInstId b) ?c s = Some (True, s')"
    using init_runs [of e "abEnetType b" ?c ?ps s "abInstId b"] app_static_vlans [OF assms(3)] by auto
  then have "EthApp_initEthFw e b True macPool s = Some (ETHFW_SOK, Some (EthFw_getVersion s'), s')"
    by (simp add: EthApp_initEthFw_def shared_addrs_def ETHAPP_MAX_SHARED_MCAST_ADDR_def gEthApp_rsvdMcastCfgTable_def
      ETHFW_RSVD_MCAST_LIST_LEN_def)
  moreover have "cfVirtPortCfg ?c = gEthApp_virtPortCfg e (abNumRx b) (abTx b) (abDemo b \<or> abEst b)"
    by (simp add: app_config_def Let_def)
  ultimately show ?thesis
    using assms(10) by (auto simp: gEthApp_virtPortCfg_def virt_port_cfg_def Let_def ETHAPP_MAC_ADDR_POOL_SIZE_def inj_on_eq_iff)
qed

definition evm_build :: app_build where
  "evm_build = \<lparr>abSoc = J721E, abIntercore = False, abDemo = True, abEst = False, abErrata = False, abNumRx = 8, abTx = of_nat,
     abAllMac = 0x1FE, abMacFirst = 0, abAleNumMac = 8, abDflt = cpsw_zero, abEnetType = 2, abInstId = 0\<rparr>"

theorem app_starts_witness:
  "\<exists>s'. EthApp_initEthFw ok_env evm_build True (\<lambda>_. 6) boot_mem = Some (ETHFW_SOK, Some (EthFw_getVersion s'), s')"
proof -
  have "accepts ok_env" "port_numbers ok_env" "isCpswType ok_env (abEnetType evm_build)" "8 \<le> macPortNum ok_env"
    "macListMax ok_env \<noteq> 0" "macListMax ok_env < 2 ^ 32" "length (vlans (gEthFwVlanObj boot_mem)) = ETHFWVLAN_VLANS_MAX" "(6 :: u32) \<noteq> 0"
    by (simp_all add: accepts_def ok_env_def port_numbers_def evm_build_def boot_mem_def vlan_zero_def)
  moreover have "inj_on (abTx evm_build) {0..7}"
    by (rule inj_onI) (drule arg_cong [where f = unat], simp add: evm_build_def unat_of_nat)
  ultimately show ?thesis
    using app_starts [of ok_env evm_build boot_mem "\<lambda>_. 6"] lib_spec_ok_env by blast
qed

section \<open>The bridge of the inter-core interfaces\<close>

text \<open>
  The type of a mask, \<^verbatim>\<open>bridgeif_portmask_t\<close>, is wide enough for lwIP's number of ports; its width is a
  parameter.  The forwarding table is lwIP's, and so are the two functions that change it: their type and what they
  do are parameters (\<open>fdb_ops\<close>).
\<close>

definition ETHAPP_LWIP_BRIDGE_MAX_STATIC_ENTRIES :: nat where "ETHAPP_LWIP_BRIDGE_MAX_STATIC_ENTRIES = 8"

record ('f, 'm) fdb_ops =
  bridgeif_fdb_add :: "eth_addr \<Rightarrow> 'm \<Rightarrow> 'f \<Rightarrow> int \<times> 'f"
  bridgeif_fdb_remove :: "eth_addr \<Rightarrow> 'f \<Rightarrow> 'f"

text \<open>
  What lwIP documents of them, of the static entries \<open>entry f\<close> of a table \<open>f\<close>: an entry is removed by its address, and
  one for a new address is added while there is room for it.
\<close>

definition fdb_laws :: "('f, 'm) fdb_ops \<Rightarrow> ('f \<Rightarrow> eth_addr \<Rightarrow> 'm option) \<Rightarrow> bool" where
  "fdb_laws lw entry \<longleftrightarrow>
     (\<forall>a f. entry (bridgeif_fdb_remove lw a f) = (entry f)(a := None)) \<and>
     (\<forall>a m f. entry f a = None \<and> finite (dom (entry f)) \<and> card (dom (entry f)) < ETHAPP_LWIP_BRIDGE_MAX_STATIC_ENTRIES \<longrightarrow>
        fst (bridgeif_fdb_add lw a m f) = 0 \<and> entry (snd (bridgeif_fdb_add lw a m f)) = (entry f)(a \<mapsto> m))"

text \<open>Of what is printed, \<open>bridge_errs\<close> keeps the errors of \<^verbatim>\<open>bridgeif_fdb_add\<close>.\<close>

record ('f, 'm) bridge =
  lwipBridgePortIdMap :: "u8 list"     \<comment> \<open>by core\<close>
  bridgePortMask :: "'m list"    \<comment> \<open>by shared address\<close>
  bridge_fdb :: 'f
  bridge_errs :: "int list"
  bridge_faults :: "fault list"

text \<open>The ports of the bridge by core, as \<^verbatim>\<open>EthApp_initNetif\<close> numbers them; \<open>cpuPort\<close> is \<^verbatim>\<open>BRIDGEIF_MAX_PORTS\<close>.\<close>

definition bridge_ids :: "env \<Rightarrow> u8 \<Rightarrow> u8 list" where
  "bridge_ids e cpuPort =
     (replicate (ipcMaxProcs e) 0)[unat (ipcCores e ! MCU2_0) := cpuPort, unat (ipcCores e ! MCU2_1) := 1, unat (ipcCores e ! MPU1_0) := 2]"

definition bridge_bit :: "u8 \<Rightarrow> ('f, 'w::len word) bridge \<Rightarrow> u32" where
  "bridge_bit hostId br = ETHFW_BIT (ucast (at_idx 0 (lwipBridgePortIdMap br) (unat hostId)))"

definition chk_host :: "u8 \<Rightarrow> ('f, 'w::len word) bridge \<Rightarrow> ('f, 'w word) bridge" where
  "chk_host hostId br =
     (if unat hostId < length (lwipBridgePortIdMap br) then br else br\<lparr>bridge_faults := bridge_faults br @ [OobRead]\<rparr>)"

definition print_err :: "int \<Rightarrow> ('f, 'w::len word) bridge \<Rightarrow> ('f, 'w word) bridge" where
  "print_err errVal br = (if errVal \<noteq> 0 then br\<lparr>bridge_errs := bridge_errs br @ [errVal]\<rparr> else br)"

definition EthApp_filterAddMacSharedCb ::
    "env \<Rightarrow> ('f, 'w::len word) fdb_ops \<Rightarrow> eth_addr \<Rightarrow> u8 \<Rightarrow> ('f, 'w word) bridge \<Rightarrow> ('f, 'w word) bridge" where
  "EthApp_filterAddMacSharedCb e lw mac hostId br =
     (case first_idx (\<lambda>a. cmpMacAddr e mac a) shared_addrs of
        None \<Rightarrow> br
      | Some i \<Rightarrow>
          (let m = (bridgePortMask br ! i) OR ucast (bridge_bit hostId br); br = chk_host hostId br;
               fdb = bridgeif_fdb_remove lw mac (bridge_fdb br);
               (errVal, fdb) = bridgeif_fdb_add lw mac m fdb
           in print_err errVal (br\<lparr>bridgePortMask := (bridgePortMask br)[i := m], bridge_fdb := fdb\<rparr>)))"

definition EthApp_filterDelMacSharedCb ::
    "env \<Rightarrow> ('f, 'w::len word) fdb_ops \<Rightarrow> eth_addr \<Rightarrow> u8 \<Rightarrow> ('f, 'w word) bridge \<Rightarrow> ('f, 'w word) bridge" where
  "EthApp_filterDelMacSharedCb e lw mac hostId br =
     (case first_idx (\<lambda>a. cmpMacAddr e mac a) shared_addrs of
        None \<Rightarrow> br
      | Some i \<Rightarrow>
          (let m = (bridgePortMask br ! i) AND ucast (NOT (bridge_bit hostId br)); br = chk_host hostId br;
               fdb = bridgeif_fdb_remove lw mac (bridge_fdb br);
               (errVal, fdb) = (if m \<noteq> 0 then bridgeif_fdb_add lw mac m fdb else (0, fdb))
           in print_err errVal (br\<lparr>bridgePortMask := (bridgePortMask br)[i := m], bridge_fdb := fdb\<rparr>)))"

text \<open>The calls of the firmware, as the application answers them.\<close>

fun bridge_step :: "env \<Rightarrow> ('f, 'w::len word) fdb_ops \<Rightarrow> call \<Rightarrow> ('f, 'w word) bridge \<Rightarrow> ('f, 'w word) bridge" where
  "bridge_step e lw (FilterAddMacSharedCb mac core) br = EthApp_filterAddMacSharedCb e lw mac (ucast core) br"
| "bridge_step e lw (FilterDelMacSharedCb mac core) br = EthApp_filterDelMacSharedCb e lw mac (ucast core) br"
| "bridge_step e lw _ br = br"

text \<open>The ports of the bridge that want an address: by the last call for the port.\<close>

fun ports_step :: "u8 list \<Rightarrow> eth_addr \<Rightarrow> call \<Rightarrow> nat set \<Rightarrow> nat set" where
  "ports_step ids a (FilterAddMacSharedCb mac core) P = (if mac = a then insert (unat (ids ! unat (ucast core :: u8))) P else P)"
| "ports_step ids a (FilterDelMacSharedCb mac core) P = (if mac = a then P - {unat (ids ! unat (ucast core :: u8))} else P)"
| "ports_step ids a _ P = P"

definition bridge_inv :: "('f \<Rightarrow> eth_addr \<Rightarrow> 'w word option) \<Rightarrow> u8 list \<Rightarrow> (eth_addr \<Rightarrow> nat set) \<Rightarrow> ('f, 'w::len word) bridge \<Rightarrow> bool" where
  "bridge_inv entry ids P br \<longleftrightarrow> lwipBridgePortIdMap br = ids \<and> length (bridgePortMask br) = length shared_addrs \<and>
     (\<forall>i<length shared_addrs. {p. bit (bridgePortMask br ! i) p} = P (shared_addrs ! i)) \<and>
     (\<forall>i<length shared_addrs. entry (bridge_fdb br) (shared_addrs ! i) =
        (let m = bridgePortMask br ! i in if m \<noteq> 0 then Some m else None)) \<and>
     dom (entry (bridge_fdb br)) \<subseteq> set shared_addrs \<and> bridge_errs br = [] \<and> bridge_faults br = []"

lemma shared_distinct: "distinct shared_addrs" "length shared_addrs = 7"
  by (simp_all add: shared_addrs_def)

text \<open>The seven shared addresses fit in the table, and leave room in it.\<close>

lemma fdb_room:
  assumes "dom (t :: eth_addr \<rightharpoonup> 'b) \<subseteq> set shared_addrs"
  shows "finite (dom t)" "card (dom t) < ETHAPP_LWIP_BRIDGE_MAX_STATIC_ENTRIES"
proof -
  show "finite (dom t)" using assms finite_subset by blast
  have "card (set shared_addrs) = 7" using shared_distinct by (simp add: distinct_card)
  then show "card (dom t) < ETHAPP_LWIP_BRIDGE_MAX_STATIC_ENTRIES"
    using card_mono [OF _ assms] by (simp add: ETHAPP_LWIP_BRIDGE_MAX_STATIC_ENTRIES_def)
qed

text \<open>The table after the mask of one address has changed.\<close>

lemma fdb_store:
  fixes m :: "'w::len word" and a :: eth_addr
  assumes "fdb_laws lw entry" "dom (entry f) \<subseteq> set shared_addrs"
  defines "r \<equiv> bridgeif_fdb_remove lw a f"
  shows "(let (errVal, f') = (if m \<noteq> 0 then bridgeif_fdb_add lw a m r else (0, r)) in
    errVal = 0 \<and> entry f' = (entry f)(a := (if m \<noteq> 0 then Some m else None)))"
proof -
  have r: "entry r = (entry f)(a := None)" using assms(1) by (simp add: fdb_laws_def r_def)
  moreover have "dom (entry r) \<subseteq> set shared_addrs" using assms(2) unfolding r by auto
  note fdb_room [OF this]
  ultimately show ?thesis using assms(1) by (auto simp: fdb_laws_def case_prod_beta)
qed

definition host_ok :: "u8 list \<Rightarrow> call \<Rightarrow> bool" where
  "host_ok ids c \<longleftrightarrow> (case c of FilterAddMacSharedCb _ core \<Rightarrow> unat (ucast core :: u8) < length ids
     | FilterDelMacSharedCb _ core \<Rightarrow> unat (ucast core :: u8) < length ids | _ \<Rightarrow> True)"

lemma shared_entry_find: "lib_spec e \<Longrightarrow> first_idx (\<lambda>a. cmpMacAddr e mac a) shared_addrs = first_idx (\<lambda>a. a = mac) shared_addrs"
  by (rule first_idx_cong) auto

lemma bit_of_port:
  assumes "LENGTH('w::len) \<le> 32" "unat p < LENGTH('w)"
  shows "bit (x OR ucast (ETHFW_BIT (ucast (p :: u8))) :: 'w word) k \<longleftrightarrow> bit x k \<or> k = unat p"
    and "bit (x AND ucast (NOT (ETHFW_BIT (ucast p))) :: 'w word) k \<longleftrightarrow> bit x k \<and> k \<noteq> unat p"
proof -
  have u: "unat (ucast p :: u32) = unat p" using unsigned_less [of p, where 'a = nat]
    by (simp add: unsigned_ucast_eq take_bit_nat_eq_self)
  show "bit (x OR ucast (ETHFW_BIT (ucast (p :: u8))) :: 'w word) k \<longleftrightarrow> bit x k \<or> k = unat p"
    and "bit (x AND ucast (NOT (ETHFW_BIT (ucast p))) :: 'w word) k \<longleftrightarrow> bit x k \<and> k \<noteq> unat p"
    using assms bit_imp_le_length [of x k] by (auto simp: bit_simps bit_ETHFW_BIT u)
qed

lemma bridge_mask_step:
  fixes br :: "('f, 'w::len word) bridge"
  assumes "fdb_laws lw entry" "bridge_inv entry ids P br" "i < length shared_addrs"
    and "{p. bit m p} = Q (shared_addrs ! i)" "\<And>a. a \<noteq> shared_addrs ! i \<Longrightarrow> Q a = P a"
  defines "r \<equiv> bridgeif_fdb_remove lw (shared_addrs ! i) (bridge_fdb br)"
  shows "(let (errVal, fdb) = (if m \<noteq> 0 then bridgeif_fdb_add lw (shared_addrs ! i) m r else (0, r)) in
    bridge_inv entry ids Q (print_err errVal (br\<lparr>bridgePortMask := (bridgePortMask br)[i := m], bridge_fdb := fdb\<rparr>)))"
proof -
  have "dom (entry (bridge_fdb br)) \<subseteq> set shared_addrs" using assms(2) by (simp add: bridge_inv_def)
  note st = fdb_store [OF assms(1) this, of m "shared_addrs ! i", folded r_def]
  obtain errVal fdb where p: "(if m \<noteq> 0 then bridgeif_fdb_add lw (shared_addrs ! i) m r else (0, r)) = (errVal, fdb)" by (meson surj_pair)
  from st [unfolded p] have f: "errVal = 0" "entry fdb = (entry (bridge_fdb br))(shared_addrs ! i := (if m \<noteq> 0 then Some m else None))"
    by simp_all
  note eq = nth_eq_iff_index_eq [OF shared_distinct(1) _ assms(3)]
  have "{p. bit ((bridgePortMask br)[i := m] ! j) p} = Q (shared_addrs ! j)" if "j < length shared_addrs" for j
    using assms(2-5) that eq [OF that] by (cases "j = i") (simp_all add: bridge_inv_def)
  moreover have "entry fdb (shared_addrs ! j) = (let m = (bridgePortMask br)[i := m] ! j in if m \<noteq> 0 then Some m else None)"
    if "j < length shared_addrs" for j
    using assms(2,3) that eq [OF that] by (cases "j = i") (simp_all add: bridge_inv_def f(2))
  moreover have "dom (entry fdb) \<subseteq> set shared_addrs" using assms(2,3) by (auto simp: bridge_inv_def f(2) split: if_splits)
  ultimately show ?thesis using assms(2) unfolding p by (simp add: bridge_inv_def print_err_def f(1))
qed

lemma other_calls:
  assumes "\<not> ((\<exists>mac core. c = FilterAddMacSharedCb mac core) \<or> (\<exists>mac core. c = FilterDelMacSharedCb mac core))"
  shows "bridge_step e lw c br = br" "ports_step ids a c P = P"
  using assms by (cases c; simp)+

lemma bridge_step_inv:
  fixes br :: "('f, 'w::len word) bridge"
  assumes "lib_spec e" "bridge_inv entry ids P br" "host_ok ids c" "\<forall>x\<in>set ids. unat x < LENGTH('w)" "LENGTH('w) \<le> 32" "fdb_laws lw entry"
  shows "bridge_inv entry ids (\<lambda>a. if a \<in> set shared_addrs then ports_step ids a c (P a) else P a) (bridge_step e lw c br)"
proof -
  have chk: "chk_host k br = br" "bridge_bit k br = ETHFW_BIT (ucast (ids ! unat k))" "unat (ids ! unat k) < LENGTH('w)"
    if "unat k < length ids" for k
    using that assms(2,4) by (simp_all add: chk_host_def bridge_bit_def bridge_inv_def)
  have idx: "shared_addrs ! i = mac" "i < length shared_addrs" if "first_idx (\<lambda>a. a = mac) shared_addrs = Some i" for i mac
    using first_idx_SomeD [OF that] by simp_all
  have absent: "mac \<notin> set shared_addrs" if "first_idx (\<lambda>a. a = mac) shared_addrs = None" for mac
    using that by (auto simp: first_idx_None)
  have keep: "bridge_inv entry ids Q br" if "\<And>a. a \<in> set shared_addrs \<Longrightarrow> Q a = P a" for Q
    using assms(2) that by (simp add: bridge_inv_def)
  show ?thesis
  proof (cases "(\<exists>mac core. c = FilterAddMacSharedCb mac core) \<or> (\<exists>mac core. c = FilterDelMacSharedCb mac core)")
    case False
    then show ?thesis by (simp add: other_calls keep)
  next
    case True
    then obtain mac core where c: "c = FilterAddMacSharedCb mac core \<or> c = FilterDelMacSharedCb mac core" by blast
    let ?k = "ucast core :: u8"
    have k: "unat ?k < length ids" using c assms(3) by (auto simp: host_ok_def)
    note bits = bit_of_port [OF assms(5) chk(3) [OF k]]
    show ?thesis
    proof (cases "first_idx (\<lambda>a. a = mac) shared_addrs")
      case None
      with c absent [OF None] show ?thesis
        by (auto simp: EthApp_filterAddMacSharedCb_def EthApp_filterDelMacSharedCb_def shared_entry_find [OF assms(1)] intro!: keep split: if_splits)
    next
      case (Some i)
      note i = idx [OF Some]
      have old: "{p. bit (bridgePortMask br ! i) p} = P mac" using assms(2) i by (auto simp: bridge_inv_def)
      have mem: "mac \<in> set shared_addrs" using i nth_mem by metis
      let ?Q = "\<lambda>a. if a \<in> set shared_addrs then ports_step ids a c (P a) else P a"
      let ?r = "bridgeif_fdb_remove lw mac (bridge_fdb br)"
      note step = bridge_mask_step [OF assms(6,2) i(2), where Q = ?Q, unfolded i(1)]
      from c show ?thesis
      proof
        assume c: "c = FilterAddMacSharedCb mac core"
        let ?m = "bridgePortMask br ! i OR ucast (bridge_bit ?k br)"
        have "bit ?m (unat (ids ! unat ?k))" by (simp add: chk(2) [OF k] bits)
        then have nz: "?m \<noteq> 0" by force
        have "{p. bit ?m p} = ?Q mac" using mem old by (auto simp: c chk(2) [OF k] bits)
        from step [OF this] nz c show ?thesis
          by (simp add: EthApp_filterAddMacSharedCb_def shared_entry_find [OF assms(1)] Some chk(1) [OF k] Let_def case_prod_beta)
      next
        assume c: "c = FilterDelMacSharedCb mac core"
        let ?m = "bridgePortMask br ! i AND ucast (NOT (bridge_bit ?k br))"
        have "{p. bit ?m p} = ?Q mac" using mem old by (auto simp: c chk(2) [OF k] bits)
        from step [OF this] c show ?thesis
          by (simp add: EthApp_filterDelMacSharedCb_def shared_entry_find [OF assms(1)] Some chk(1) [OF k] Let_def case_prod_beta)
      qed
    qed
  qed
qed

definition bridge_start :: "u8 list \<Rightarrow> 'f \<Rightarrow> ('f, 'w::len word) bridge" where
  "bridge_start ids fdb = \<lparr>lwipBridgePortIdMap = ids, bridgePortMask = replicate (length shared_addrs) 0, bridge_fdb = fdb,
     bridge_errs = [], bridge_faults = []\<rparr>"

lemma bridge_start_inv: "entry fdb = Map.empty \<Longrightarrow> bridge_inv entry ids (\<lambda>_. {}) (bridge_start ids fdb)"
  by (simp add: bridge_inv_def bridge_start_def)

lemma bridge_run_inv:
  fixes br :: "('f, 'w::len word) bridge"
  assumes "lib_spec e" "\<forall>c\<in>set cs. host_ok ids c" "\<forall>x\<in>set ids. unat x < LENGTH('w)" "LENGTH('w) \<le> 32" "fdb_laws lw entry"
    and "bridge_inv entry ids P br"
  shows "bridge_inv entry ids (\<lambda>a. if a \<in> set shared_addrs then fold (ports_step ids a) cs (P a) else P a) (fold (bridge_step e lw) cs br)"
  using assms(2,6)
proof (induction cs arbitrary: P br)
  case (Cons c cs)
  have "host_ok ids c" using Cons.prems(1) by simp
  from Cons.IH [OF _ bridge_step_inv [OF assms(1) Cons.prems(2) this assms(3,4,5)]] Cons.prems(1)
  show ?case by (simp cong: if_cong)
qed (simp cong: if_cong)

text \<open>Property C24 (invariant).  For any implementation of lwIP's table that keeps its laws: whatever shared and other
  multicast addresses the firmware reports to the application for the cores of the map, in any order, the bridge has
  a static entry for exactly the shared addresses some port wants, to exactly the ports whose last report was an
  addition; no addition fails, so its eight entries are enough.\<close>

theorem bridge_exact:
  fixes br :: "('f, 'w::len word) bridge"
  assumes "lib_spec e" "\<forall>c\<in>set cs. host_ok ids c" "\<forall>x\<in>set ids. unat x < LENGTH('w)" "LENGTH('w) \<le> 32"
    and "fdb_laws lw entry" "entry fdb = Map.empty" "br = fold (bridge_step e lw) cs (bridge_start ids fdb)"
  shows "bridge_faults br = [] \<and> bridge_errs br = [] \<and>
    (let P = \<lambda>a. fold (ports_step ids a) cs {} in
     \<forall>a. case entry (bridge_fdb br) a of
           None \<Rightarrow> a \<notin> set shared_addrs \<or> P a = {}
         | Some m \<Rightarrow> a \<in> set shared_addrs \<and> P a \<noteq> {} \<and> {p. bit m p} = P a)"
proof -
  define P where "P = (\<lambda>a. fold (ports_step ids a) cs {})"
  from bridge_run_inv [OF assms(1-5) bridge_start_inv [where entry = entry and fdb = fdb, OF assms(6)]] assms(7)
  have inv: "bridge_inv entry ids (\<lambda>a. if a \<in> set shared_addrs then P a else {}) br" unfolding P_def by simp
  have e0: "(x = 0) = ({p. bit x p} = {})" for x :: "'w word" by (auto simp: word_eq_0_bits)
  have "case entry (bridge_fdb br) a of None \<Rightarrow> a \<notin> set shared_addrs \<or> P a = {}
         | Some m \<Rightarrow> a \<in> set shared_addrs \<and> P a \<noteq> {} \<and> {p. bit m p} = P a" for a
  proof (cases "a \<in> set shared_addrs")
    case False
    then have "entry (bridge_fdb br) a = None" using inv by (auto simp: bridge_inv_def)
    with False show ?thesis by simp
  next
    case True
    then obtain i where i: "i < length shared_addrs" "shared_addrs ! i = a" by (auto simp: in_set_conv_nth)
    then have m: "{p. bit (bridgePortMask br ! i) p} = P a"
      "entry (bridge_fdb br) a = (let m = bridgePortMask br ! i in if m \<noteq> 0 then Some m else None)"
      using inv True by (auto simp: bridge_inv_def)
    have "bridgePortMask br ! i = 0 \<longleftrightarrow> P a = {}" unfolding e0 m(1) ..
    with True m show ?thesis by (simp add: Let_def)
  qed
  moreover have "bridge_faults br = []" "bridge_errs br = []" using inv by (simp_all add: bridge_inv_def)
  ultimately show ?thesis unfolding P_def [symmetric] Let_def by blast
qed

text \<open>A table that keeps the laws: a list of entries.\<close>

definition fdb_list :: "((eth_addr \<times> 'm) list, 'm) fdb_ops" where
  "fdb_list = \<lparr>bridgeif_fdb_add = (\<lambda>a m f. if length (remdups (map fst f)) < ETHAPP_LWIP_BRIDGE_MAX_STATIC_ENTRIES then (0, (a, m) # f) else (-1, f)),
     bridgeif_fdb_remove = (\<lambda>a f. filter (\<lambda>x. fst x \<noteq> a) f)\<rparr>"

lemma fdb_list_laws: "fdb_laws (fdb_list :: ((eth_addr \<times> 'm) list, 'm) fdb_ops) map_of"
proof -
  have "map_of (filter (\<lambda>x. fst x \<noteq> a) f) = (map_of f)(a := None)" for a and f :: "(eth_addr \<times> 'm) list"
    by (induction f) (auto simp: fun_eq_iff)
  moreover have "card (dom (map_of f)) = length (remdups (map fst f))" for f :: "(eth_addr \<times> 'm) list"
    by (simp add: dom_map_of_conv_image_fst length_remdups_card_conv)
  ultimately show ?thesis by (simp add: fdb_laws_def fdb_list_def length_remdups_card_conv)
qed

definition bridge_demo :: "call list" where
  "bridge_demo = [FilterAddMacSharedCb (shared_addrs ! 1) 4, Osal_createMutex, FilterAddMacSharedCb (shared_addrs ! 1) 0,
     FilterDelMacSharedCb (shared_addrs ! 1) 4]"

theorem bridge_exact_witness:
  "map_of (bridge_fdb (fold (bridge_step ok_env fdb_list) bridge_demo (bridge_start (bridge_ids ok_env 7) [] :: (_, 8 word) bridge)))
     (shared_addrs ! 1) \<noteq> None"
proof -
  have ids: "bridge_ids ok_env 7 = [2, 0, 0, 7, 1, 0, 0, 0, 0, 0, 0]"
    by (simp add: bridge_ids_def ok_env_def MPU1_0_def MCU2_0_def MCU2_1_def) (simp add: numeral_eq_Suc)
  have "lib_spec ok_env" "\<forall>c\<in>set bridge_demo. host_ok (bridge_ids ok_env 7) c" "\<forall>x\<in>set (bridge_ids ok_env 7). unat x < LENGTH(8)" "LENGTH(8) \<le> 32"
    by (simp_all add: bridge_demo_def host_ok_def ids)
  from bridge_exact [OF this fdb_list_laws _ refl, of "[]"] show ?thesis
    by (auto simp: bridge_demo_def ids shared_addrs_def Let_def split: option.splits dest: spec [of _ "EthAddr 1 0 0x5E 0 0 0xFB"])
qed

end
