(* ===== verification/Spec2Isabelle.thy ===== *)
theory Spec2Isabelle
  imports World Slots Arp VirtPort Vepa Mcast Vlan ProxyDispatch Tokens ProxyFlows ProxyClient ProxyRpc Monitor Recovery ShmRing Avb ConsoleLog CpuSync
    PortFeatures Firmware ServerStart Boot BootOutcome Partition VirtNetif NetifServer MemHeap RemoteService Stats TimeSync HostNetif ServerApp
begin

text \<open>
  \<^bold>\<open>Ethernet Firmware\<close> (EthFw) runs on one core of a TI K3 device, owns the CPSW Ethernet switch and shares
  it with other cores.  This development models its server, the client library of the other cores, the
  network interfaces on both sides, the utilities they rest on and the server's application, and proves
  what each of them promises.  All paths below are under src/; a definition has the name of the C function
  or type it models wherever Isabelle allows it.

  \<^bold>\<open>How the program works.\<close>  The application of the server core fills a configuration and calls
  \<open>EthFw_init\<close>, which opens the switch, divides the DMA channels, flows and MAC addresses among the
  cores and starts the components: VLANs, multicast filter, VEPA packet duplication, proxy ARP table, port
  mirroring, frame preemption and the monitor.  \<open>EthFw_initRemoteConfig\<close> then starts the proxy server, a
  task that receives requests of the client library from other cores and executes them: attach, allocate a
  channel, a flow or a MAC address, register an address, join a VLAN and so on.  The monitor polls the
  switch's counters; when the switch is stuck it asks every client by a notification to close its DMA,
  resets the switch and lets the clients open again.  Clients are lwIP network interfaces on the remote
  cores; the server core has an interface of its own, which also answers ARP requests for the clients and
  duplicates packets between them.

  \<^bold>\<open>Theories and sources.\<close>  In the order in which they build on each other:
  \<^item> \<open>Prelude\<close> (integer types, status codes, bit macros, searches, the two collections of simplification
    rules), \<open>World\<close> (the boundary, see below), \<open>Slots\<close> (tables of fixed size as finite maps), \<open>RingIndex\<close>
    (positions in a ring).
  \<^item> \<open>Arp\<close>, \<open>VirtPort\<close>, \<open>Vepa\<close>, \<open>Mcast\<close>, \<open>Vlan\<close>, \<open>PortFeatures\<close>: ethremotecfg/server/src/ethfw_arp.c,
    server/include/ethfw_virtport.h, ethfw_vepa.c, ethfw_mcast.c, ethfw_vlan.c, ethfw_portmirror.c and
    ethfw_iet.c.  The state of each is the file's global object.
  \<^item> \<open>ProxyState\<close>, \<open>ProxyResources\<close>, \<open>ProxyRoutes\<close>, \<open>ProxyDispatch\<close>, \<open>Tokens\<close>, \<open>ProxyFlows\<close>,
    \<open>ServerStart\<close>: cpsw_proxy_server.c (its object and clients; what a client allocates; what it registers; the
    handler of requests and its invariants; the life of a token; the flow table; start and receiving tasks).
  \<^item> \<open>ProxyClient\<close>, \<open>ProxyRpc\<close>, \<open>TimeSync\<close>: ethremotecfg/client/src/cpsw_proxy.c, that library against the
    server's handler, and ts_coupler_client.c.
  \<^item> \<open>Monitor\<close>, \<open>Recovery\<close>: ethfw_monitor.c as a machine of turns, and what it guarantees.
  \<^item> \<open>Firmware\<close>, \<open>Boot\<close>, \<open>BootOutcome\<close>, \<open>Partition\<close>: ethfw_api.c, and what a start establishes.
  \<^item> \<open>VirtNetif\<close>, \<open>NetifServer\<close>: apps/app_remoteswitchcfg_client/virtnetif_lwipif.c, and its interfaces
    against the running server.  \<open>HostNetif\<close>: utils/ethfw_callbacks/src/ethfw_callbacks_lwipif.c.
  \<^item> \<open>ServerApp\<close>: apps/app_remoteswitchcfg_server/main.c, with the settings of the demo build from
    utils/intervlan/src/eth_hwintervlan.c.  \<open>ShmRing\<close>, \<open>Avb\<close>: sitara/shm_cirbuf.c,
    sitara/ethfw_avtp.c and avb_audio_sink/remote_main.c of the same application.
  \<^item> \<open>ConsoleLog\<close>, \<open>CpuSync\<close>: utils/console_io/src/app_log_writer.c and app_log_reader.c.  \<open>MemHeap\<close>:
    utils/mem/src/app_mem_rtos.c.  \<open>RemoteService\<close>: utils/remote_service/src/app_remote_service.c.
    \<open>Stats\<close>: utils/ethfw_stats/src/app_ethfw_stats.c and utils/perf_stats/src/app_perf_stats_rtos.c.

  \<^bold>\<open>Conventions.\<close>
  \<^item> A C integer is a word of its width, so sums wrap where they do in C; a status is an \<open>int\<close>; an enumeration
    that arrives in a message is a word, because the firmware does not check its range.
  \<^item> What lies outside the repository (the Enet driver, the resource managers, lwIP, IPC, the operating
    system, the application's call-backs) is a call, recorded in \<open>calls\<close>.  The environment \<open>env\<close> answers a
    call by an arbitrary function of the call and of the calls before it, so that a theorem holds
    for every driver unless it says \<open>accepting\<close>, \<open>accepts\<close> or the like.  \<open>lib_spec\<close> states the documented
    behaviour of the driver's helper functions (comparing and copying addresses, names, masks).  The mailbox of the
    recovery task and the table of lwIP's bridge are records of functions with documented laws (\<open>mailbox_ok\<close>,
    \<open>fdb_laws\<close>).
  \<^item> Undefined behaviour is an entry of \<open>faults\<close>; a failed assertion that stops the task is \<open>None\<close>.
  \<^item> An operation that holds a mutex is one step.  Where cores or tasks share memory without one (log ring,
    barrier, monitor, recovery task) the steps are the accesses, or the stretches between two points where
    a task blocks, and theorems quantify over all interleavings.
  \<^item> A loop over a table or a list is a structural recursion.  A loop that may not end is a
    \<open>partial_function (option)\<close> whose \<open>None\<close> is running for ever (\<open>await_response\<close>, \<open>rd_drain\<close>, the
    receiving task of \<open>RemoteService\<close>); theorems say on which inputs it ends.  The monitor's loops are
    turns, so no fuel is needed; the verification of frame preemption is bounded by the code (20
    attempts).
  \<^item> \<open>TimeSync\<close> computes in the reals and rounds after every operation by a parameter.

  \<^bold>\<open>Interfaces.\<close>  \<open>bounded_map\<close> and \<open>guarded_map\<close> (\<open>Slots\<close>): a table as a map of bounded size, for which the
  refinement of runs is proved once; \<open>vepa_table\<close> and \<open>arp_table\<close> are the two tables.  \<open>handler_sig\<close>
  (\<open>ProxyDispatch\<close>): a view of the server's state that every request moves in a given way; \<open>srv\<close> for the
  reference counts, \<open>rsp\<close> for the responses sent, \<open>hold\<close> for the holders of a token, \<open>mon\<close> for the calls of a recovery and
  \<open>tok\<close> for the tokens of all clients.  \<open>frame_ring\<close> (\<open>ShmRing\<close>): a queue
  of frames; \<open>shq\<close>.  \<open>fair_cores\<close> (\<open>CpuSync\<close>): progress of cores that run again and again; \<open>bar\<close>.
  \<open>service_handler\<close> (\<open>RemoteService\<close>): a handler whose effect depends on its parameter's bytes only;
  \<open>ethfw_svc\<close>, \<open>perf_svc\<close>, \<open>stats_svc\<close>.

  \<^bold>\<open>What is proved.\<close>
  \<^item> Tables: VEPA and proxy ARP refine maps; the multicast filter, the broadcast classifier and the VLANs'
    host port keep the entries of the switch exactly in step with the tables; duplicated packets go to
    exactly the ports that asked for them.
  \<^item> Server: reference counts and attachments agree after any requests; every request gets exactly one response
    of its type, to its sender; a token names its client from attach to detach, whatever comes in between; a started
    firmware keeps all this, and whether it starts is decided by the configuration and, for the multicast lists, by
    the build; MAC-only and switch ports are separated.
  \<^item> Client: a command is a remote call of the handler; a session of attach and detach; what waiting does with
    late responses; interfaces that are opened and closed leave nothing behind, also against the live
    server; recovery messages are handled in order; ARP requests are answered from the table.
  \<^item> Recovery: the order of its calls, the status along it, and when it ends.
  \<^item> Utilities: the log delivers whole lines in order; the barrier is safe and opens; the frame ring is a queue that
    forgets when full; heap blocks are disjoint; remote services are transparent; bandwidths account for every
    byte; the clock's rate is fixed by its first two pairs.

  \<^bold>\<open>Builds modelled.\<close>  The server without gPTP, with or without VEPA, proxy ARP, the monitor, frame preemption,
  MAC-only ports and the two demos; the client library for an RTOS; client
  interfaces with the monitor and DHCP and without inter-core interfaces; the Jacinto server on MCU2_0;
  the load statistics under FreeRTOS; time synchronisation on J784S4.

  \<^bold>\<open>Not modelled.\<close>  The traffic of the demos (ethfw_estdemo.c, eth_swintervlan.c and the routes of
  eth_hwintervlan.c), which run on fixed addresses and schedules; printing, tracing and profiling; the glue to the operating system
  (utils/ethfw_abstract, ethfw_timer.c, ethfw_trace.c), whose semantics is that of the calls; board set-up,
  SERDES and MPU tables (register writes and constants); ethfw_tsn.c, which fills configuration for a gPTP
  stack that is not part of the repository; the Linux tap program; the client interfaces of the Sitara and
  J722S boards, which are written for another version of the driver; the unit tests and the vendored
  test framework.
\<close>

end
